(* ===== verification/Prelude.thy ===== *)
theory Prelude
  imports Main "HOL-Library.Word"
begin

text \<open>
  The vocabulary every component shares: machine integers and bytes, results with errors as
  values, big-endian integers, readers that consume a slice from the front, decimal
  formatting, and two interfaces as locales: a format that decodes what it encoded, for
  whole buffers (\<open>wire_value\<close>) and for a prefix of a buffer (\<open>stream_item\<close>).

  A byte buffer (\<open>BytesMut\<close>, \<open>Bytes\<close>, \<open>&[u8]\<close>) is a list of 8-bit words. An integer keeps its
  width: \<open>i32\<close> and \<open>u32\<close> are both 32-bit words, read by \<open>sint\<close> and \<open>unat\<close>. \<open>usize\<close> is \<open>nat\<close>: the
  code only adds and compares buffer lengths, which are bounded by the address space. The integer
  writers and readers of \<open>bytes\<close> and \<open>byteorder\<close> are the standard library's \<open>to_be_bytes\<close> and
  \<open>from_be_bytes\<close>.
\<close>

unbundle bit_operations_syntax

section \<open>Types\<close>

type_synonym u8 = "8 word"
type_synonym u16 = "16 word"
type_synonym u32 = "32 word"
type_synonym u64 = "64 word"
type_synonym i8 = "8 word"
type_synonym i16 = "16 word"
type_synonym i32 = "32 word"
type_synonym i64 = "64 word"
type_synonym bytes = "8 word list"

named_theorems wire_defs "unfolding rules of the integer writers and readers"
named_theorems wire_rt "decoding what was encoded"
named_theorems wire_len "lengths of encodings"

text \<open>Byte string literals \<open>b"..."\<close> of ASCII text.\<close>

definition ascii :: "string \<Rightarrow> bytes" where
  "ascii s = map of_char s"

lemma length_ascii [simp]: "length (ascii s) = length s"
  by (simp add: ascii_def)

section \<open>Results and errors\<close>

text \<open>
  \<open>io::Error\<close>: its kind and its payload. A payload is a literal message or the error of another
  operation, which the code wraps without looking at it.
\<close>

datatype error_kind =
  InvalidInput | InvalidData | UnexpectedEof | PermissionDenied | TimedOut | OtherKind

datatype payload = Msg string | Utf8_Error | Base64_Error | Hex_Error | ParseInt_Error

datatype io_error = Io_Error (io_kind: error_kind) (io_payload: payload)

text \<open>The \<open>?\<close> operator.\<close>

definition bind_res :: "'e + 'a \<Rightarrow> ('a \<Rightarrow> 'e + 'b) \<Rightarrow> 'e + 'b" where
  "bind_res r f = (case r of Inl e \<Rightarrow> Inl e | Inr x \<Rightarrow> f x)"

lemma bind_res_simps [simp]:
  "bind_res (Inl e) f = Inl e"
  "bind_res (Inr x) f = f x"
  by (simp_all add: bind_res_def)

lemma bind_res_Inr [simp]: "bind_res r f = Inr y \<longleftrightarrow> (\<exists>x. r = Inr x \<and> f x = Inr y)"
  by (cases r) simp_all

lemma Inr_bind_res [simp]: "Inr y = bind_res r f \<longleftrightarrow> (\<exists>x. r = Inr x \<and> f x = Inr y)"
  by (cases r) auto

lemma bind_res_cong [fundef_cong]:
  "r = r' \<Longrightarrow> (\<And>x. r' = Inr x \<Longrightarrow> f x = g x) \<Longrightarrow> bind_res r f = bind_res r' g"
  by (cases r') simp_all

lemma bind_res_split [split]:
  "P (bind_res r f) \<longleftrightarrow> (\<forall>e. r = Inl e \<longrightarrow> P (Inl e)) \<and> (\<forall>x. r = Inr x \<longrightarrow> P (f x))"
  by (cases r) simp_all

definition map_err :: "('e \<Rightarrow> 'f) \<Rightarrow> 'e + 'a \<Rightarrow> 'f + 'a" where
  "map_err h r = (case r of Inl e \<Rightarrow> Inl (h e) | Inr x \<Rightarrow> Inr x)"

lemma map_err_simps [simp]:
  "map_err h (Inl e) = Inl (h e)"
  "map_err h (Inr x) = Inr x"
  by (simp_all add: map_err_def)

lemma map_err_Inr [simp]: "map_err h r = Inr x \<longleftrightarrow> r = Inr x"
  by (cases r) simp_all

definition ok_or :: "'e \<Rightarrow> 'a option \<Rightarrow> 'e + 'a" where
  "ok_or e x = (case x of None \<Rightarrow> Inl e | Some y \<Rightarrow> Inr y)"

lemma ok_or_simps [simp]: "ok_or e None = Inl e" "ok_or e (Some y) = Inr y"
  by (simp_all add: ok_or_def)

text \<open>Where the code can panic instead of returning an error, the failure is a \<open>fault\<close>.\<close>

datatype 'e fault = Fault 'e | Panic

section \<open>Decimal formatting\<close>

text \<open>The \<open>Display\<close> of unsigned and signed integers, as \<open>format!\<close> prints them.\<close>

fun show_nat :: "nat \<Rightarrow> string" where
  "show_nat n = (if n < 10 then [char_of (48 + n)] else show_nat (n div 10) @ [char_of (48 + n mod 10)])"

declare show_nat.simps [simp del]

definition show_int :: "int \<Rightarrow> string" where
  "show_int i = (if i < 0 then CHR ''-'' # show_nat (nat (- i)) else show_nat (nat i))"

section \<open>Big-endian integers\<close>

text \<open>\<open>be_bytes n v\<close> is the last \<open>n\<close> bytes of the big-endian form of \<open>v\<close>.\<close>

primrec be_bytes :: "nat \<Rightarrow> nat \<Rightarrow> bytes" where
  "be_bytes 0 v = []"
| "be_bytes (Suc n) v = of_nat (v div 256 ^ n) # be_bytes n v"

primrec be_nat :: "bytes \<Rightarrow> nat" where
  "be_nat [] = 0"
| "be_nat (b # bs) = unat b * 256 ^ length bs + be_nat bs"

lemma length_be_bytes [simp]: "length (be_bytes n v) = n"
  by (induction n) simp_all

lemma unat_u8_less [simp]: "unat (b :: u8) < 256"
  using unsigned_less [of b, where ?'a = nat] by simp

lemma be_nat_less: "be_nat bs < 256 ^ length bs"
proof (induction bs)
  case Nil
  then show ?case by simp
next
  case (Cons b bs)
  have "unat b * 256 ^ length bs + be_nat bs < unat b * 256 ^ length bs + 256 ^ length bs"
    using Cons by simp
  also have "\<dots> = (unat b + 1) * 256 ^ length bs" by simp
  also have "\<dots> \<le> 256 * 256 ^ length bs"
    using unat_u8_less [of b] by (intro mult_le_mono1) linarith
  finally show ?case by simp
qed

lemma unat_of_nat_u8: "unat (of_nat n :: u8) = n mod 256"
  by (simp add: unat_of_nat)

lemma be_nat_be_bytes: "be_nat (be_bytes n v) = v mod 256 ^ n"
proof (induction n)
  case 0
  then show ?case by simp
next
  case (Suc n)
  have "be_nat (be_bytes (Suc n) v) = (v div 256 ^ n mod 256) * 256 ^ n + v mod 256 ^ n"
    using Suc by (simp add: unat_of_nat_u8)
  also have "\<dots> = v mod (256 ^ n * 256)"
    by (simp add: mod_mult2_eq)
  finally show ?case by (simp add: mult.commute)
qed

lemma be_bytes_mod: "n \<le> m \<Longrightarrow> be_bytes n (v mod 256 ^ m) = be_bytes n v"
proof (induction n)
  case 0
  then show ?case by simp
next
  case (Suc n)
  then have "m = n + Suc (m - Suc n)" by simp
  then have "(256::nat) ^ m = 256 ^ n * (256 * 256 ^ (m - Suc n))"
    by (metis power_Suc power_add)
  then have "v mod 256 ^ m div 256 ^ n = v div 256 ^ n mod (256 * 256 ^ (m - Suc n))"
    by (simp add: mod_mult2_eq [of v "256 ^ n"])
  then have "unat (of_nat (v mod 256 ^ m div 256 ^ n) :: u8) = unat (of_nat (v div 256 ^ n) :: u8)"
    by (simp add: unat_of_nat_u8 mod_mod_cancel)
  then have "(of_nat (v mod 256 ^ m div 256 ^ n) :: u8) = of_nat (v div 256 ^ n)"
    by (simp only: word_unat_eq_iff)
  with Suc show ?case by simp
qed

lemma be_bytes_be_nat: "be_bytes (length bs) (be_nat bs) = bs"
proof (induction bs)
  case Nil
  then show ?case by simp
next
  case (Cons b bs)
  let ?n = "length bs"
  have less: "be_nat bs < 256 ^ ?n" by (rule be_nat_less)
  have hd: "(unat b * 256 ^ ?n + be_nat bs) div 256 ^ ?n = unat b"
    using less by simp
  have "(unat b * 256 ^ ?n + be_nat bs) mod 256 ^ ?n = be_nat bs"
    using less by simp
  then have tl: "be_bytes ?n (unat b * 256 ^ ?n + be_nat bs) = bs"
    using be_bytes_mod [of ?n ?n "unat b * 256 ^ ?n + be_nat bs"] Cons by simp
  show ?case using hd tl by simp
qed


text \<open>\<open>v.to_be_bytes()\<close> and \<open>from_be_bytes\<close> at the width of the word.\<close>

definition be_word :: "'a::len word \<Rightarrow> bytes" where
  "be_word w = be_bytes (LENGTH('a) div 8) (unat w)"

definition word_be :: "bytes \<Rightarrow> 'a::len word" where
  "word_be bs = of_nat (be_nat bs)"

lemma length_be_word [simp]: "length (be_word (w :: 'a::len word)) = LENGTH('a) div 8"
  by (simp add: be_word_def)

lemma width_256: "8 dvd n \<Longrightarrow> (256::nat) ^ (n div 8) = 2 ^ n"
proof -
  assume "8 dvd n"
  then have "n = 8 * (n div 8)" by simp
  then have "(2::nat) ^ n = (2 ^ 8) ^ (n div 8)" by (metis power_mult)
  then show ?thesis by simp
qed

lemma word_be_be_word:
  assumes "8 dvd LENGTH('a::len)"
  shows "word_be (be_word (w :: 'a word)) = w"
proof -
  have "unat w < 2 ^ LENGTH('a)" by (rule unsigned_less)
  then have "unat w mod 256 ^ (LENGTH('a) div 8) = unat w"
    using assms by (simp add: width_256)
  then show ?thesis
    by (simp add: word_be_def be_word_def be_nat_be_bytes)
qed

lemma be_word_word_be:
  assumes "8 dvd LENGTH('a::len)" and "length bs = LENGTH('a) div 8"
  shows "be_word (word_be bs :: 'a word) = bs"
proof -
  have "be_nat bs < 256 ^ (LENGTH('a) div 8)"
    using be_nat_less [of bs] assms by simp
  then have "unat (word_be bs :: 'a word) = be_nat bs"
    using assms by (simp add: word_be_def unat_of_nat width_256)
  then show ?thesis
    using assms be_bytes_be_nat [of bs] by (simp add: be_word_def)
qed

lemma be_word_inj: "8 dvd LENGTH('a::len) \<Longrightarrow> be_word (v :: 'a word) = be_word w \<longleftrightarrow> v = w"
  by (metis word_be_be_word)

section \<open>Readers\<close>

text \<open>
  \<open>Read for &[u8]\<close>: a read takes bytes from the front of the slice. \<open>read_exact\<close> fails with
  \<open>UnexpectedEof\<close> when the slice is too short; every \<open>read_u8\<close>, \<open>read_i32::<BigEndian>\<close>, ... is a
  \<open>read_exact\<close> of the integer's width.
\<close>

type_synonym 'a reader = "bytes \<Rightarrow> io_error + ('a \<times> bytes)"

definition fill_error :: io_error where
  "fill_error = Io_Error UnexpectedEof (Msg ''failed to fill whole buffer'')"

definition eof_error :: io_error where
  "eof_error = Io_Error UnexpectedEof (Msg ''unexpected EOF'')"

definition read_exact :: "nat \<Rightarrow> bytes reader" where
  "read_exact n b = (if length b < n then Inl fill_error else Inr (take n b, drop n b))"

definition read_be :: "bytes \<Rightarrow> io_error + ('a::len word \<times> bytes)" where
  "read_be b = bind_res (read_exact (LENGTH('a) div 8) b) (\<lambda>(x, r). Inr (word_be x, r))"

abbreviation read_u8 :: "u8 reader" where "read_u8 \<equiv> read_be"
abbreviation read_i8 :: "i8 reader" where "read_i8 \<equiv> read_be"
abbreviation read_u16 :: "u16 reader" where "read_u16 \<equiv> read_be"
abbreviation read_i16 :: "i16 reader" where "read_i16 \<equiv> read_be"
abbreviation read_u32 :: "u32 reader" where "read_u32 \<equiv> read_be"
abbreviation read_i32 :: "i32 reader" where "read_i32 \<equiv> read_be"
abbreviation read_u64 :: "u64 reader" where "read_u64 \<equiv> read_be"
abbreviation read_i64 :: "i64 reader" where "read_i64 \<equiv> read_be"

lemma read_exact_append [simp, wire_rt]: "length x = n \<Longrightarrow> read_exact n (x @ r) = Inr (x, r)"
  by (simp add: read_exact_def)

lemma read_exact_Inr:
  "read_exact n b = Inr (x, r) \<longleftrightarrow> b = x @ r \<and> length x = n"
  by (auto simp: read_exact_def min_def)

lemma read_be_append [simp, wire_rt]:
  "8 dvd LENGTH('a::len) \<Longrightarrow> read_be (be_word (w :: 'a word) @ r) = Inr (w, r)"
  by (simp add: read_be_def word_be_be_word)

lemma read_be_exact [simp, wire_rt]:
  "8 dvd LENGTH('a::len) \<Longrightarrow> read_be (be_word (w :: 'a word)) = Inr (w, [])"
  using read_be_append [of w "[]"] by simp

lemma read_be_Inr:
  assumes dvd: "8 dvd LENGTH('a::len)"
  shows "read_be b = Inr (w :: 'a word, r) \<longleftrightarrow> b = be_word w @ r"
proof
  assume "read_be b = Inr (w, r)"
  then obtain x where "b = x @ r" "length x = LENGTH('a) div 8" "word_be x = w"
    by (auto simp: read_be_def read_exact_Inr)
  then show "b = be_word w @ r" using be_word_word_be [OF dvd, of x] by simp
qed (simp add: dvd)

lemma read_be_Inl: "read_be b = (Inl e :: io_error + ('a::len word \<times> bytes)) \<longleftrightarrow>
    length b < LENGTH('a) div 8 \<and> e = fill_error"
  by (auto simp: read_be_def read_exact_def)

text \<open>Single bytes are read and written without arithmetic.\<close>

lemma be_word_u8 [simp]: "be_word (w :: u8) = [w]"
  by (simp add: be_word_def)

lemma read_u8_simps [simp]:
  "read_u8 [] = Inl fill_error"
  "read_u8 (b # r) = Inr (b, r)"
  by (simp_all add: read_be_def read_exact_def word_be_def)

text \<open>Evaluation of the wider integers on concrete bytes.\<close>

lemma be_word_eval [wire_defs]:
  "be_word (v :: 16 word) = [of_nat (unat v div 256), of_nat (unat v)]"
  "be_word (w :: 32 word) =
     [of_nat (unat w div 16777216), of_nat (unat w div 65536), of_nat (unat w div 256), of_nat (unat w)]"
proof -
  have eq: "(2::nat) = Suc (Suc 0)" "(4::nat) = Suc (Suc (Suc (Suc 0)))" by simp_all
  have "be_bytes 2 n = [of_nat (n div 256), of_nat n]" for n
    by (simp add: eq(1))
  then show "be_word v = [of_nat (unat v div 256), of_nat (unat v)]"
    by (simp add: be_word_def)
  have "be_bytes 4 n = [of_nat (n div 16777216), of_nat (n div 65536), of_nat (n div 256), of_nat n]"
    for n by (simp only: eq(2) be_bytes.simps) simp
  then show "be_word w =
      [of_nat (unat w div 16777216), of_nat (unat w div 65536), of_nat (unat w div 256), of_nat (unat w)]"
    by (simp add: be_word_def)
qed

lemma read_be_eval [wire_defs]:
  "read_u16 (a # b # r) = Inr (of_nat (unat a * 256 + unat b), r)"
  "read_u32 (a # b # c # d # r) =
     Inr (of_nat (unat a * 16777216 + (unat b * 65536 + (unat c * 256 + unat d))), r)"
proof -
  have "be_nat [a, b] = unat a * 256 + unat b"
    and "be_nat [a, b, c, d] = unat a * 16777216 + (unat b * 65536 + (unat c * 256 + unat d))"
    by simp_all
  then have w: "word_be [a, b] = (of_nat (unat a * 256 + unat b) :: u16)"
    "word_be [a, b, c, d] =
      (of_nat (unat a * 16777216 + (unat b * 65536 + (unat c * 256 + unat d))) :: u32)"
    by (simp_all only: word_be_def)
  have "read_exact 2 ([a, b] @ r) = Inr ([a, b], r)" "read_exact 4 ([a, b, c, d] @ r) = Inr ([a, b, c, d], r)"
    by (rule read_exact_append, simp)+
  then show "read_u16 (a # b # r) = Inr (of_nat (unat a * 256 + unat b), r)"
    and "read_u32 (a # b # c # d # r) =
      Inr (of_nat (unat a * 16777216 + (unat b * 65536 + (unat c * 256 + unat d))), r)"
    using w by (simp_all add: read_be_def del: of_nat_add of_nat_mult)
qed

section \<open>Formats that decode what they encoded\<close>

text \<open>
  \<open>wire_value\<close>: a value format over a whole buffer. \<open>enc\<close> is total, \<open>dec\<close> may refuse; decoding
  inverts encoding, and only the encoding of a value decodes to it.
\<close>

locale wire_value =
  fixes enc :: "'a \<Rightarrow> bytes" and dec :: "bytes \<Rightarrow> 'e + 'a"
  assumes dec_enc: "dec (enc v) = Inr v"
    and enc_dec: "dec b = Inr v \<Longrightarrow> b = enc v"
begin

lemma enc_inject: "enc v = enc w \<longleftrightarrow> v = w"
  by (metis dec_enc sum.inject(2))

lemma dec_iff: "dec b = Inr v \<longleftrightarrow> b = enc v"
  using dec_enc enc_dec by blast

lemma dec_unique: "dec b = Inr v \<Longrightarrow> dec c = Inr v \<Longrightarrow> b = c"
  by (simp add: dec_iff)

lemma dec_ok_iff: "(\<exists>v. dec b = Inr v) \<longleftrightarrow> b \<in> range enc"
  by (auto simp: dec_iff)

end

text \<open>
  \<open>stream_item\<close>: the same for an item read from the front of a buffer, for the items that satisfy
  \<open>ok\<close> (a C string without NUL, a name that is valid UTF-8).
\<close>

locale stream_item =
  fixes wr :: "'a \<Rightarrow> bytes" and rd :: "bytes \<Rightarrow> 'e + ('a \<times> bytes)" and ok :: "'a \<Rightarrow> bool"
  assumes rd_wr: "ok x \<Longrightarrow> rd (wr x @ r) = Inr (x, r)"
    and wr_rd: "rd b = Inr (x, r) \<Longrightarrow> ok x \<and> b = wr x @ r"
begin

lemma rd_iff: "rd b = Inr (x, r) \<longleftrightarrow> ok x \<and> b = wr x @ r"
  using rd_wr wr_rd by blast

lemma wr_prefix_free: "ok x \<Longrightarrow> ok y \<Longrightarrow> wr x @ r = wr y @ s \<Longrightarrow> x = y \<and> r = s"
  by (metis Inr_inject old.prod.inject rd_wr)

lemma rd_consumes: "rd b = Inr (x, r) \<Longrightarrow> length r = length b - length (wr x)"
  by (auto simp: rd_iff)

lemma rd_remainder: "rd b = Inr (x, r) \<Longrightarrow> rd (b @ more) = Inr (x, r @ more)"
  by (auto simp: rd_iff)

end

lemma stream_item_be: "8 dvd LENGTH('a::len) \<Longrightarrow>
    stream_item (be_word :: 'a word \<Rightarrow> bytes) read_be (\<lambda>_. True)"
  by unfold_locales (simp_all add: read_be_Inr)

interpretation be16: stream_item "be_word :: u16 \<Rightarrow> bytes" read_u16 "\<lambda>_. True"
  by (rule stream_item_be) simp

interpretation be32: stream_item "be_word :: u32 \<Rightarrow> bytes" read_u32 "\<lambda>_. True"
  by (rule stream_item_be) simp

interpretation be64: stream_item "be_word :: u64 \<Rightarrow> bytes" read_u64 "\<lambda>_. True"
  by (rule stream_item_be) simp

section \<open>Fallible iterators\<close>

text \<open>
  A \<open>FallibleIterator\<close>: \<open>next\<close> returns an error, the end, or an item, and the new state of the
  iterator. The consumers in this code stop at the first error, so an iterator that failed has no
  state. \<open>collect\<close> is the loop that drains one, with fuel; \<open>None\<close> is a loop that did not end.
\<close>

type_synonym ('s, 'e, 'a) iter_next = "'s \<Rightarrow> 'e + ('a option \<times> 's)"

fun collect :: "nat \<Rightarrow> ('s, 'e, 'a) iter_next \<Rightarrow> 's \<Rightarrow> ('e + 'a list) option" where
  "collect 0 nxt s = None"
| "collect (Suc n) nxt s =
     (case nxt s of
        Inl e \<Rightarrow> Some (Inl e)
      | Inr (None, s') \<Rightarrow> Some (Inr [])
      | Inr (Some x, s') \<Rightarrow>
          (case collect n nxt s' of
             None \<Rightarrow> None
           | Some (Inl e) \<Rightarrow> Some (Inl e)
           | Some (Inr xs) \<Rightarrow> Some (Inr (x # xs))))"

text \<open>
  \<open>fallible_iter\<close>: each item makes the iterator smaller, so draining it ends.
\<close>

locale fallible_iter =
  fixes nxt :: "('s, 'e, 'a) iter_next" and sz :: "'s \<Rightarrow> nat"
  assumes shrinks: "nxt s = Inr (Some x, s') \<Longrightarrow> sz s' < sz s"
begin

lemma collect_total: "sz s < n \<Longrightarrow> \<exists>r. collect n nxt s = Some r"
proof (induction n arbitrary: s)
  case 0
  then show ?case by simp
next
  case (Suc n)
  have "\<exists>r. collect n nxt s' = Some r" if "nxt s = Inr (Some x, s')" for x s'
    using shrinks [OF that] Suc.prems by (intro Suc.IH) simp
  then show ?case
    by (fastforce split: sum.splits option.splits prod.splits)
qed

end

lemma collect_mono: "collect n nxt s = Some r \<Longrightarrow> n \<le> m \<Longrightarrow> collect m nxt s = Some r"
proof (induction n arbitrary: s r m)
  case 0
  then show ?case by simp
next
  case (Suc n)
  then obtain k where k: "m = Suc k" "n \<le> k" by (cases m) auto
  have step: "collect n nxt s' = Some q \<Longrightarrow> collect k nxt s' = Some q" for s' q
    using Suc.IH k(2) by blast
  show ?case
  proof (cases "collect n nxt (snd (projr (nxt s)))")
    case None
    with Suc.prems(1) show ?thesis by (auto simp: k(1) split: sum.splits option.splits)
  next
    case (Some q)
    with step [OF Some] Suc.prems(1) show ?thesis
      by (auto simp: k(1) split: sum.splits option.splits)
  qed
qed

text \<open>A loop that drains an iterator and stops at its first error is \<open>collect\<close> with enough fuel.\<close>

lemma drain_collect:
  assumes loop: "\<And>s. drain s = bind_res (nxt s) (\<lambda>(x, s).
      case x of None \<Rightarrow> Inr [] | Some y \<Rightarrow> bind_res (drain s) (\<lambda>ys. Inr (y # ys)))"
    and "collect n nxt s = Some r"
  shows "drain s = r"
  using assms(2)
proof (induction n arbitrary: s r)
  case (Suc n)
  show ?case
  proof (cases "nxt s")
    case (Inl e)
    with Suc.prems show ?thesis by (simp add: loop)
  next
    case (Inr x)
    obtain y s' where x: "x = (y, s')" by (cases x)
    show ?thesis
    proof (cases y)
      case None
      with Inr x Suc.prems show ?thesis by (simp add: loop)
    next
      case (Some z)
      with Inr x Suc.prems obtain q where "collect n nxt s' = Some q"
        by (auto split: option.splits)
      with Inr x Some Suc.prems Suc.IH [OF this] show ?thesis
        by (auto simp: loop [of s] split: sum.splits)
    qed
  qed
qed simp

text \<open>
  \<open>iter_source\<close>: an iterator over the encoding \<open>mk xs\<close> of a list of items returns the items in
  order and then the end.
\<close>

locale iter_source = fallible_iter nxt sz
  for nxt :: "('s, 'e, 'a) iter_next" and sz :: "'s \<Rightarrow> nat" +
  fixes mk :: "'a list \<Rightarrow> 's" and ok :: "'a list \<Rightarrow> bool"
  assumes nxt_Nil: "ok [] \<Longrightarrow> \<exists>s. nxt (mk []) = Inr (None, s)"
    and nxt_Cons: "ok (x # xs) \<Longrightarrow> nxt (mk (x # xs)) = Inr (Some x, mk xs) \<and> ok xs"
begin

lemma collect_mk: "ok xs \<Longrightarrow> length xs < n \<Longrightarrow> collect n nxt (mk xs) = Some (Inr xs)"
proof (induction xs arbitrary: n)
  case Nil
  then obtain m where "n = Suc m" by (cases n) auto
  with nxt_Nil Nil show ?case by fastforce
next
  case (Cons x xs)
  then obtain m where m: "n = Suc m" by (cases n) auto
  with nxt_Cons [OF Cons.prems(1)] Cons show ?case by simp
qed

lemma collect_mk_sz: "ok xs \<Longrightarrow> collect (Suc (sz (mk xs))) nxt (mk xs) = Some (Inr xs)"
proof -
  assume "ok xs"
  then have "collect (Suc (length xs)) nxt (mk xs) = Some (Inr xs)"
    by (rule collect_mk) simp
  moreover obtain r where "collect (Suc (sz (mk xs))) nxt (mk xs) = Some r"
    using collect_total [of "mk xs" "Suc (sz (mk xs))"] by auto
  ultimately show ?thesis
    by (metis collect_mono linorder_le_cases)
qed

end

end
