(* ===== verification/Utf8.thy ===== *)
theory Utf8
  imports Prelude
begin

text \<open>
  The standard library's UTF-8: \<open>str::from_utf8\<close> on bytes and \<open>chars()\<close> / \<open>as_bytes()\<close> on
  strings. Where the code only carries a \<open>&str\<close>, the model keeps its bytes, checked by
  \<open>from_utf8\<close>; where it works on characters (the SCRAM parser), a string is the list of its
  Unicode scalar values, and \<open>utf8_encode\<close> and \<open>utf8_decode\<close> convert.
\<close>

type_synonym rchar = nat
type_synonym rstr = "nat list"

definition is_scalar :: "rchar \<Rightarrow> bool" where
  "is_scalar c \<longleftrightarrow> c < 0xD800 \<or> 0xE000 \<le> c \<and> c \<le> 0x10FFFF"

definition is_cont :: "u8 \<Rightarrow> bool" where
  "is_cont b \<longleftrightarrow> 0x80 \<le> unat b \<and> unat b < 0xC0"

text \<open>The second byte of a three and of a four byte sequence, by its first byte.\<close>

definition second3 :: "nat \<Rightarrow> u8 \<Rightarrow> bool" where
  "second3 x b \<longleftrightarrow> is_cont b \<and> (x = 0xE0 \<longrightarrow> 0xA0 \<le> unat b) \<and> (x = 0xED \<longrightarrow> unat b < 0xA0)"

definition second4 :: "nat \<Rightarrow> u8 \<Rightarrow> bool" where
  "second4 x b \<longleftrightarrow> is_cont b \<and> (x = 0xF0 \<longrightarrow> 0x90 \<le> unat b) \<and> (x = 0xF4 \<longrightarrow> unat b < 0x90)"

text \<open>One character from the front of the bytes, as \<open>from_utf8\<close> accepts it.\<close>

fun utf8_char :: "bytes \<Rightarrow> (rchar \<times> bytes) option" where
  "utf8_char [] = None"
| "utf8_char (b # r) =
     (let x = unat b in
      if x < 0x80 then Some (x, r)
      else if 0xC2 \<le> x \<and> x < 0xE0 then
        (case r of c # r' \<Rightarrow>
           if is_cont c then Some ((x - 0xC0) * 64 + (unat c - 0x80), r') else None
         | _ \<Rightarrow> None)
      else if 0xE0 \<le> x \<and> x < 0xF0 then
        (case r of c # d # r' \<Rightarrow>
           if second3 x c \<and> is_cont d
           then Some ((x - 0xE0) * 4096 + (unat c - 0x80) * 64 + (unat d - 0x80), r') else None
         | _ \<Rightarrow> None)
      else if 0xF0 \<le> x \<and> x < 0xF5 then
        (case r of c # d # e # r' \<Rightarrow>
           if second4 x c \<and> is_cont d \<and> is_cont e
           then Some ((x - 0xF0) * 262144 + (unat c - 0x80) * 4096 + (unat d - 0x80) * 64
                        + (unat e - 0x80), r') else None
         | _ \<Rightarrow> None)
      else None)"

lemma utf8_char_shorter: "utf8_char b = Some (c, r) \<Longrightarrow> length r < length b"
  by (cases b) (auto simp: Let_def split: if_splits list.splits)

function utf8_decode :: "bytes \<Rightarrow> rstr option" where
  "utf8_decode b =
     (if b = [] then Some []
      else (case utf8_char b of
              None \<Rightarrow> None
            | Some (c, r) \<Rightarrow> map_option ((#) c) (utf8_decode r)))"
  by pat_completeness auto
termination
  by (relation "measure length") (auto dest: utf8_char_shorter)

declare utf8_decode.simps [simp del]

definition utf8_encode_char :: "rchar \<Rightarrow> bytes" where
  "utf8_encode_char c =
     (if c < 0x80 then [of_nat c]
      else if c < 0x800 then [of_nat (0xC0 + c div 64), of_nat (0x80 + c mod 64)]
      else if c < 0x10000 then
        [of_nat (0xE0 + c div 4096), of_nat (0x80 + c div 64 mod 64), of_nat (0x80 + c mod 64)]
      else [of_nat (0xF0 + c div 262144), of_nat (0x80 + c div 4096 mod 64),
            of_nat (0x80 + c div 64 mod 64), of_nat (0x80 + c mod 64)])"

definition utf8_encode :: "rstr \<Rightarrow> bytes" where
  "utf8_encode s = concat (map utf8_encode_char s)"

lemma utf8_encode_simps [simp]:
  "utf8_encode [] = []"
  "utf8_encode (c # s) = utf8_encode_char c @ utf8_encode s"
  "utf8_encode (s @ t) = utf8_encode s @ utf8_encode t"
  by (simp_all add: utf8_encode_def)

text \<open>\<open>str::from_utf8\<close>: the bytes themselves when they are valid.\<close>

definition utf8_valid :: "bytes \<Rightarrow> bool" where
  "utf8_valid b \<longleftrightarrow> utf8_decode b \<noteq> None"

lemma utf8_decode_Nil [simp]: "utf8_decode [] = Some []"
  by (simp add: utf8_decode.simps)

lemma utf8_valid_Nil [simp]: "utf8_valid []"
  by (simp add: utf8_valid_def)

lemma unat_of_nat_small [simp]: "n < 256 \<Longrightarrow> unat (of_nat n :: u8) = n"
  by (simp add: unat_of_nat_u8)

lemma of_nat_of_char_u8 [simp]: "(of_nat (of_char c) :: u8) = of_char c"
  by (rule of_nat_of_char)

lemma unat_of_char [simp]: "unat (of_char c :: u8) = of_char c"
  using unat_of_nat_small [OF nat_of_char_less_256 [of c]] by simp

lemma ascii_inject: "ascii a = ascii b \<longleftrightarrow> a = b"
proof
  assume "ascii a = ascii b"
  then have "map unat (ascii a) = map unat (ascii b)" by simp
  then have "map (of_char :: char \<Rightarrow> nat) a = map of_char b" by (simp add: ascii_def comp_def)
  then show "a = b" by (simp add: inj_map_eq_map inj_of_char)
qed simp

lemma utf8_encode_char_nonempty [simp]: "utf8_encode_char c \<noteq> []"
  by (simp add: utf8_encode_char_def)

text \<open>Base-64 digits of a scalar value, the arithmetic behind the multi-byte forms.\<close>

lemma digit2:
  assumes "k < 64"
  shows "(j * 64 + k) div 64 = j" "(j * 64 + k) mod 64 = (k :: nat)"
  using assms by simp_all

lemma digit3:
  assumes "j < 64" "k < 64"
  shows "(i * 4096 + j * 64 + k) div 4096 = i" "(i * 4096 + j * 64 + k) div 64 mod 64 = j"
    "(i * 4096 + j * 64 + k) mod 64 = (k :: nat)"
proof -
  have eq: "i * 4096 + j * 64 + k = (i * 64 + j) * 64 + k" by simp
  have q: "(i * 4096 + j * 64 + k) div 64 = i * 64 + j"
    unfolding eq using assms(2) by (rule digit2)
  have "(i * 4096 + j * 64 + k) div 4096 = (i * 4096 + j * 64 + k) div 64 div 64"
    by (simp only: div_mult2_eq [symmetric]) simp
  then show "(i * 4096 + j * 64 + k) div 4096 = i" using q digit2(1) [OF assms(1)] by simp
  show "(i * 4096 + j * 64 + k) div 64 mod 64 = j" unfolding q using assms(1) by (rule digit2)
  show "(i * 4096 + j * 64 + k) mod 64 = k" unfolding eq using assms(2) by (rule digit2)
qed

lemma digit4:
  assumes "j < 64" "k < 64" "l < 64"
  shows "(i * 262144 + j * 4096 + k * 64 + l) div 262144 = i"
    "(i * 262144 + j * 4096 + k * 64 + l) div 4096 mod 64 = j"
    "(i * 262144 + j * 4096 + k * 64 + l) div 64 mod 64 = k"
    "(i * 262144 + j * 4096 + k * 64 + l) mod 64 = (l :: nat)"
proof -
  have eq: "i * 262144 + j * 4096 + k * 64 + l = (i * 64 + j) * 4096 + k * 64 + l" by simp
  note d = digit3 [OF assms(2,3), of "i * 64 + j"]
  have "(i * 262144 + j * 4096 + k * 64 + l) div 262144
      = (i * 262144 + j * 4096 + k * 64 + l) div 4096 div 64"
    by (simp only: div_mult2_eq [symmetric]) simp
  then show "(i * 262144 + j * 4096 + k * 64 + l) div 262144 = i"
    unfolding eq d(1) using digit2(1) [OF assms(1)] by simp
  show "(i * 262144 + j * 4096 + k * 64 + l) div 4096 mod 64 = j"
    unfolding eq d(1) using assms(1) by (rule digit2)
  show "(i * 262144 + j * 4096 + k * 64 + l) div 64 mod 64 = k" unfolding eq by (rule d(2))
  show "(i * 262144 + j * 4096 + k * 64 + l) mod 64 = l" unfolding eq by (rule d(3))
qed

lemma digits_exist:
  obtains i j k where "c = i * 4096 + j * 64 + k" "j < 64" "k < (64 :: nat)"
proof -
  have "c = (c div 64 div 64 * 64 + c div 64 mod 64) * 64 + c mod 64" by simp
  moreover have "(a * 64 + b) * 64 + d = a * 4096 + b * 64 + d" for a b d :: nat by simp
  ultimately have "c = c div 64 div 64 * 4096 + c div 64 mod 64 * 64 + c mod 64" by (rule trans)
  then show ?thesis by (rule that) simp_all
qed

lemma utf8_char_encode:
  assumes "is_scalar c"
  shows "utf8_char (utf8_encode_char c @ r) = Some (c, r)"
proof -
  consider "c < 0x80" | "0x80 \<le> c" "c < 0x800" | "0x800 \<le> c" "c < 0x10000" | "0x10000 \<le> c"
    by linarith
  then show ?thesis
  proof cases
    case 1
    then show ?thesis by (simp add: utf8_encode_char_def)
  next
    case 2
    then have "c div 64 < 32" "2 \<le> c div 64" "c mod 64 < 64" by auto
    with 2 show ?thesis
      by (simp add: utf8_encode_char_def is_cont_def Let_def del: of_nat_add)
  next
    case 3
    obtain i j k where c: "c = i * 4096 + j * 64 + k" and l: "j < 64" "k < 64" by (rule digits_exist)
    have b: "i < 16" "i = 0 \<longrightarrow> 32 \<le> j" "i = 13 \<longrightarrow> j < 32"
      using 3 assms l by (auto simp: c is_scalar_def)
    have "utf8_encode_char c = [of_nat (0xE0 + i), of_nat (0x80 + j), of_nat (0x80 + k)]"
      using 3 digit3 [OF l, of i] by (simp add: utf8_encode_char_def c del: of_nat_add)
    then show ?thesis
      using b l by (simp add: is_cont_def second3_def Let_def c del: of_nat_add)
  next
    case 4
    obtain h k l where c': "c = h * 4096 + k * 64 + l" and m: "k < 64" "l < 64" by (rule digits_exist)
    define i j where "i = h div 64" and "j = h mod 64"
    have j: "j < 64" and c: "c = i * 262144 + j * 4096 + k * 64 + l"
      using div_mult_mod_eq [of h 64] unfolding c' i_def j_def by (simp, linarith)
    have b: "i < 5" "i = 0 \<longrightarrow> 16 \<le> j" "i = 4 \<longrightarrow> j < 16"
      using 4 assms j m by (auto simp: c is_scalar_def)
    have "utf8_encode_char c =
        [of_nat (0xF0 + i), of_nat (0x80 + j), of_nat (0x80 + k), of_nat (0x80 + l)]"
      using 4 digit4 [OF j m, of i] by (simp add: utf8_encode_char_def c del: of_nat_add)
    then show ?thesis
      using b j m by (simp add: is_cont_def second4_def Let_def c del: of_nat_add)
  qed
qed

lemma utf8_decode_encode: "list_all is_scalar s \<Longrightarrow> utf8_decode (utf8_encode s) = Some s"
proof (induction s)
  case Nil
  then show ?case by simp
next
  case (Cons c s)
  then show ?case
    by (subst utf8_decode.simps) (simp add: utf8_char_encode)
qed

lemma of_nat_unat_u8 [simp]: "of_nat (unat (b :: u8)) = b"
  by simp

text \<open>Decoding loses nothing: the bytes are the encoding of the characters.\<close>

lemma utf8_encode_char_decode:
  assumes "utf8_char b = Some (c, r)"
  shows "b = utf8_encode_char c @ r \<and> is_scalar c"
proof -
  obtain x t where b: "b = x # t" using assms by (cases b) auto
  have lt: "unat y < 256" for y :: u8 by simp
  consider "unat x < 0x80" | "0x80 \<le> unat x" "unat x < 0xE0" | "0xE0 \<le> unat x" "unat x < 0xF0"
    | "0xF0 \<le> unat x" by linarith
  then show ?thesis
  proof cases
    case 1
    with assms show ?thesis by (auto simp: b utf8_encode_char_def is_scalar_def)
  next
    case 2
    with assms obtain y where t: "t = y # r" and y: "0x80 \<le> unat y" "unat y < 0xC0"
      and x: "0xC2 \<le> unat x" and c: "c = (unat x - 0xC0) * 64 + (unat y - 0x80)"
      by (auto simp: b Let_def is_cont_def split: if_splits list.splits)
    define i j where "i = unat x - 0xC0" and "j = unat y - 0x80"
    have lims: "2 \<le> i" "i < 32" "j < 64" and eqs: "unat x = 0xC0 + i" "unat y = 0x80 + j"
      using 2 x y unfolding i_def j_def by auto
    have c': "c = i * 64 + j" using c by (simp add: i_def j_def)
    have "c div 64 = i" "c mod 64 = j" "0x80 \<le> c" "c < 0x800"
      using lims unfolding c' by simp_all
    then show ?thesis
      by (simp add: b t utf8_encode_char_def is_scalar_def flip: eqs del: of_nat_add)
  next
    case 3
    with assms obtain y z where t: "t = y # z # r" and y: "0x80 \<le> unat y" "unat y < 0xC0"
      "unat x = 0xE0 \<longrightarrow> 0xA0 \<le> unat y" "unat x = 0xED \<longrightarrow> unat y < 0xA0"
      and z: "0x80 \<le> unat z" "unat z < 0xC0"
      and c: "c = (unat x - 0xE0) * 4096 + (unat y - 0x80) * 64 + (unat z - 0x80)"
      by (auto simp: b Let_def is_cont_def second3_def split: if_splits list.splits)
    define i j k where "i = unat x - 0xE0" and "j = unat y - 0x80" and "k = unat z - 0x80"
    have lims: "i < 16" "j < 64" "k < 64" "i = 0 \<longrightarrow> 32 \<le> j" "i = 13 \<longrightarrow> j < 32"
      and eqs: "unat x = 0xE0 + i" "unat y = 0x80 + j" "unat z = 0x80 + k"
      using 3 y z unfolding i_def j_def k_def by auto
    have c': "c = i * 4096 + j * 64 + k" using c by (simp add: i_def j_def k_def)
    have "0x800 \<le> c" "c < 0x10000"
      using lims unfolding c' by linarith+
    moreover have "is_scalar c"
      using lims by (cases "i < 13"; cases "i = 13") (auto simp: is_scalar_def c')
    ultimately show ?thesis
      using digit3 [OF lims(2,3), of i, folded c']
      by (simp add: b t utf8_encode_char_def flip: eqs del: of_nat_add)
  next
    case 4
    with assms obtain y z w where t: "t = y # z # w # r" and y: "0x80 \<le> unat y" "unat y < 0xC0"
      "unat x = 0xF0 \<longrightarrow> 0x90 \<le> unat y" "unat x = 0xF4 \<longrightarrow> unat y < 0x90"
      and z: "0x80 \<le> unat z" "unat z < 0xC0" and w: "0x80 \<le> unat w" "unat w < 0xC0"
      and x: "unat x < 0xF5"
      and c: "c = (unat x - 0xF0) * 262144 + (unat y - 0x80) * 4096 + (unat z - 0x80) * 64
                + (unat w - 0x80)"
      by (auto simp: b Let_def is_cont_def second4_def split: if_splits list.splits)
    define i j k l where "i = unat x - 0xF0" and "j = unat y - 0x80" and "k = unat z - 0x80"
      and "l = unat w - 0x80"
    have lims: "i < 5" "j < 64" "k < 64" "l < 64" "i = 0 \<longrightarrow> 16 \<le> j" "i = 4 \<longrightarrow> j < 16"
      and eqs: "unat x = 0xF0 + i" "unat y = 0x80 + j" "unat z = 0x80 + k" "unat w = 0x80 + l"
      using 4 x y z w unfolding i_def j_def k_def l_def by auto
    have c': "c = i * 262144 + j * 4096 + k * 64 + l" using c by (simp add: i_def j_def k_def l_def)
    have "0x10000 \<le> c"
      using lims unfolding c' by linarith
    moreover have "is_scalar c"
      using lims by (cases "i = 0"; cases "i = 4") (auto simp: is_scalar_def c')
    ultimately show ?thesis
      using digit4 [OF lims(2-4), of i, folded c']
      by (simp add: b t utf8_encode_char_def flip: eqs del: of_nat_add)
  qed
qed

lemma utf8_encode_decode: "utf8_decode b = Some s \<Longrightarrow> utf8_encode s = b \<and> list_all is_scalar s"
proof (induction b arbitrary: s rule: utf8_decode.induct)
  case (1 b)
  show ?case
  proof (cases "b = []")
    case True
    with 1 show ?thesis by simp
  next
    case False
    with "1.prems" obtain c r t where c: "utf8_char b = Some (c, r)"
      and t: "utf8_decode r = Some t" and s: "s = c # t"
      by (subst (asm) utf8_decode.simps) (auto split: option.splits)
    with "1.IH" [OF False c refl t] utf8_encode_char_decode [OF c] show ?thesis by simp
  qed
qed

lemma utf8_valid_iff: "utf8_valid b \<longleftrightarrow> (\<exists>s. list_all is_scalar s \<and> b = utf8_encode s)"
  unfolding utf8_valid_def using utf8_decode_encode utf8_encode_decode
  by (metis not_None_eq)

lemma utf8_valid_encode [simp]: "list_all is_scalar s \<Longrightarrow> utf8_valid (utf8_encode s)"
  by (auto simp: utf8_valid_iff)

lemma utf8_valid_append: "utf8_valid a \<Longrightarrow> utf8_valid b \<Longrightarrow> utf8_valid (a @ b)"
proof -
  assume "utf8_valid a" "utf8_valid b"
  then obtain s t where "list_all is_scalar s" "a = utf8_encode s" "list_all is_scalar t" "b = utf8_encode t"
    unfolding utf8_valid_iff by blast
  then have "a @ b = utf8_encode (s @ t)" "list_all is_scalar (s @ t)" by simp_all
  then show "utf8_valid (a @ b)" unfolding utf8_valid_iff by blast
qed

text \<open>ASCII bytes are valid and stand for themselves.\<close>

lemma utf8_valid_ascii: "list_all (\<lambda>b. unat b < 128) b \<Longrightarrow> utf8_valid b"
proof (induction b)
  case Nil
  then show ?case by simp
next
  case (Cons x b)
  then show ?case
    unfolding utf8_valid_def by (subst utf8_decode.simps) simp
qed

end
