(* ===== verification/Hex.thy ===== *)
theory Hex
  imports Utf8
begin

text \<open>
  Lower-case hexadecimal: the table-driven formatter of \<open>hex.rs\<close>, the \<open>format!("{:02x}")\<close> encoder
  and the decoder of \<open>authentication/sha256.rs\<close>. The decoder calls the \<open>hex\<close> crate, which is the
  parameter \<open>hexd\<close>.
\<close>

definition HEX_CHARS :: bytes where
  "HEX_CHARS = ascii ''0123456789abcdef''"

definition lower_nibble_to_hex :: "u8 \<Rightarrow> u8" where
  "lower_nibble_to_hex half_byte = HEX_CHARS ! unat (half_byte AND 0x0F)"

definition encode_byte :: "u8 \<Rightarrow> bytes" where
  "encode_byte byte = [lower_nibble_to_hex (drop_bit 4 byte), lower_nibble_to_hex byte]"

text \<open>\<open>LowerHexWrapper(bytes)\<close> printed with \<open>{:x}\<close>.\<close>

definition lower_hex :: "bytes \<Rightarrow> bytes" where
  "lower_hex bs = concat (map encode_byte bs)"

text \<open>The hexadecimal digits of \<open>{:02x}\<close>.\<close>

definition hex_digit :: "nat \<Rightarrow> u8" where
  "hex_digit d = (if d < 10 then of_nat (48 + d) else of_nat (87 + d))"

definition fmt_02x :: "u8 \<Rightarrow> bytes" where
  "fmt_02x b = [hex_digit (unat b div 16), hex_digit (unat b mod 16)]"

definition hex_encode :: "bytes \<Rightarrow> bytes" where
  "hex_encode bs = concat (map fmt_02x bs)"

definition hex_decode :: "(bytes \<Rightarrow> bytes option) \<Rightarrow> bytes \<Rightarrow> io_error + bytes" where
  "hex_decode hexd hex =
     (if \<not> utf8_valid hex then Inl (Io_Error InvalidInput Utf8_Error)
      else ok_or (Io_Error InvalidInput Hex_Error) (hexd hex))"

lemma hex_chars_nth: "d < 16 \<Longrightarrow> HEX_CHARS ! d = hex_digit d"
proof -
  assume "d < 16"
  moreover have "\<forall>d < 16. HEX_CHARS ! d = hex_digit d"
    by code_simp
  ultimately show ?thesis by blast
qed

lemma unat_low_nibble: "unat (b AND 0x0F :: u8) = unat b mod 16"
proof -
  have "b AND 0x0F = take_bit 4 b"
    by (simp add: take_bit_eq_mask mask_eq_exp_minus_1)
  then have "unat (b AND 0x0F) = take_bit 4 (unat b)" by (simp only: unsigned_take_bit_eq)
  then show ?thesis by (simp add: take_bit_eq_mod)
qed

lemma unat_high_nibble: "unat (drop_bit 4 b :: u8) = unat b div 16"
proof -
  have "unat (drop_bit 4 b) = drop_bit 4 (take_bit 8 (unat b))" by (simp add: unsigned_drop_bit_eq)
  then show ?thesis by (simp add: drop_bit_eq_div take_bit_eq_mod)
qed

lemma lower_nibble_digit: "lower_nibble_to_hex b = hex_digit (unat b mod 16)"
  by (simp add: lower_nibble_to_hex_def unat_low_nibble hex_chars_nth)

lemma encode_byte_fmt: "encode_byte b = fmt_02x b"
proof -
  have "unat b div 16 < 16" using unat_u8_less [of b] by linarith
  then show ?thesis
    by (simp add: encode_byte_def fmt_02x_def lower_nibble_digit unat_high_nibble)
qed

lemma length_hex_encode [simp]: "length (hex_encode bs) = 2 * length bs"
  by (induction bs) (simp_all add: hex_encode_def fmt_02x_def)

lemma hex_digit_range: "d < 16 \<Longrightarrow>
    unat (hex_digit d) \<in> {48..57} \<union> {97..102}"
  by (auto simp: hex_digit_def simp del: of_nat_add)

lemma hex_encode_range:
  "b \<in> set (hex_encode bs) \<Longrightarrow> unat b \<in> {48..57} \<union> {97..102}"
proof -
  assume "b \<in> set (hex_encode bs)"
  then obtain x where "x \<in> set bs" "b \<in> set (fmt_02x x)" by (auto simp: hex_encode_def)
  moreover have "unat x div 16 < 16" using unat_u8_less [of x] by linarith
  moreover have "unat x mod 16 < 16" by simp
  ultimately show ?thesis
    using hex_digit_range [of "unat x div 16"] hex_digit_range [of "unat x mod 16"]
    unfolding fmt_02x_def by (metis empty_iff list.set(1) set_ConsD)
qed

lemma utf8_valid_hex: "utf8_valid (hex_encode bs)"
proof (rule utf8_valid_ascii)
  show "list_all (\<lambda>b. unat b < 128) (hex_encode bs)"
    unfolding list_all_iff using hex_encode_range by fastforce
qed

lemma hex_digit_inj: "d < 16 \<Longrightarrow> e < 16 \<Longrightarrow> hex_digit d = hex_digit e \<Longrightarrow> d = e"
proof -
  assume a: "d < 16" "e < 16" "hex_digit d = hex_digit e"
  then have "unat (hex_digit d) = unat (hex_digit e)" by simp
  with a(1,2) show "d = e"
    by (auto simp: hex_digit_def split: if_splits simp del: of_nat_add)
qed

lemma fmt_02x_inj: "fmt_02x a = fmt_02x b \<Longrightarrow> a = b"
proof -
  assume "fmt_02x a = fmt_02x b"
  moreover have "unat x div 16 < 16" for x :: u8 using unat_u8_less [of x] by linarith
  ultimately have "unat a div 16 = unat b div 16" "unat a mod 16 = unat b mod 16"
    by (auto simp: fmt_02x_def intro: hex_digit_inj)
  then have "unat a = unat b" by (metis div_mult_mod_eq)
  then show "a = b" by (simp only: word_unat_eq_iff)
qed

lemma hex_encode_inj: "hex_encode a = hex_encode b \<Longrightarrow> a = b"
proof (induction a arbitrary: b)
  case Nil
  then show ?case by (cases b) (simp_all add: hex_encode_def fmt_02x_def)
next
  case (Cons x a)
  then obtain y c where b: "b = y # c" by (cases b) (simp_all add: hex_encode_def fmt_02x_def)
  with Cons.prems have "fmt_02x x = fmt_02x y" "hex_encode a = hex_encode c"
    by (simp_all add: hex_encode_def fmt_02x_def)
  with Cons.IH fmt_02x_inj b show ?case by blast
qed

lemma lower_hex_hex_encode: "lower_hex bs = hex_encode bs"
  by (simp add: lower_hex_def hex_encode_def encode_byte_fmt cong: map_cong)

text \<open>
  The two hexadecimal formatters of the crate agree: the table-driven \<open>LowerHexWrapper\<close>
  (used for MD5 digests) prints what \<open>hex_encode\<close> (used for the SHA-256 response) prints.
\<close>

lemma lower_hex_eq_hex_encode: "lower_hex bs = hex_encode bs"
  by (rule lower_hex_hex_encode)

end
