(* ===== verification/Escape.thy ===== *)
theory Escape
  imports Utf8
begin

text \<open>
  Quoting of SQL literals and identifiers (\<open>escape/mod.rs\<close>), on strings of Unicode characters. The
  specification is the server's lexer for quoted tokens: what it reads back from an escaped string
  is the input, and it stops where the escaped string ends.
\<close>

abbreviation squote :: rchar where "squote \<equiv> 39"
abbreviation dquote :: rchar where "dquote \<equiv> 34"
abbreviation backslash :: rchar where "backslash \<equiv> 92"

text \<open>The scan that counts quotes and backslashes.\<close>

fun escape_scan :: "rchar \<Rightarrow> rstr \<Rightarrow> nat \<times> nat \<Rightarrow> nat \<times> nat" where
  "escape_scan q [] (nb, nq) = (nb, nq)"
| "escape_scan q (ch # s) (nb, nq) =
     (if ch = q then escape_scan q s (nb, nq + 1)
      else if ch = backslash then escape_scan q s (nb + 1, nq)
      else escape_scan q s (nb, nq))"

text \<open>The slow path: every quote, and in a literal every backslash, is doubled.\<close>

fun escape_chars :: "rchar \<Rightarrow> bool \<Rightarrow> rstr \<Rightarrow> rstr" where
  "escape_chars q as_ident [] = []"
| "escape_chars q as_ident (ch # s) =
     (if ch = q \<or> (\<not> as_ident \<and> ch = backslash) then [ch] else []) @ ch # escape_chars q as_ident s"

definition escape_internal :: "rstr \<Rightarrow> bool \<Rightarrow> rstr" where
  "escape_internal input as_ident =
     (let quote_char = (if as_ident then dquote else squote);
          (num_backslashes, num_quotes) = escape_scan quote_char input (0, 0);
          prefix = (if \<not> as_ident \<and> num_backslashes > 0 then [32, 69] else []);
          body = (if num_quotes = 0 \<and> (num_backslashes = 0 \<or> as_ident) then input
                  else escape_chars quote_char as_ident input)
      in prefix @ [quote_char] @ body @ [quote_char])"

text \<open>The capacity the code reserves for the output, in bytes.\<close>

definition escape_capacity :: "rstr \<Rightarrow> bool \<Rightarrow> nat" where
  "escape_capacity input as_ident =
     (let quote_char = (if as_ident then dquote else squote);
          (num_backslashes, num_quotes) = escape_scan quote_char input (0, 0);
          result_size = length (utf8_encode input) + num_quotes + 3
      in if \<not> as_ident \<and> num_backslashes > 0 then result_size + (num_backslashes + 2) else result_size)"

definition escape_literal :: "rstr \<Rightarrow> rstr" where
  "escape_literal input = escape_internal input False"

definition escape_identifier :: "rstr \<Rightarrow> rstr" where
  "escape_identifier input = escape_internal input True"

section \<open>The lexer on the other side\<close>

text \<open>
  After an opening quote: \<open>lex_quoted\<close> is a standard quoted token (a doubled quote is a quote),
  \<open>lex_escape\<close> an escape string, where a backslash also escapes. Both return the contents and what
  follows the closing quote. Escapes other than of a backslash or a quote are not needed here and
  are refused.
\<close>

fun lex_quoted :: "rchar \<Rightarrow> rstr \<Rightarrow> (rstr \<times> rstr) option" where
  "lex_quoted q [] = None"
| "lex_quoted q [c] = (if c = q then Some ([], []) else None)"
| "lex_quoted q (c # d # s) =
     (if c = q
      then (if d = q then map_option (apfst ((#) q)) (lex_quoted q s) else Some ([], d # s))
      else map_option (apfst ((#) c)) (lex_quoted q (d # s)))"

fun lex_escape :: "rstr \<Rightarrow> (rstr \<times> rstr) option" where
  "lex_escape [] = None"
| "lex_escape [c] = (if c = squote then Some ([], []) else None)"
| "lex_escape (c # d # s) =
     (if c = squote
      then (if d = squote then map_option (apfst ((#) squote)) (lex_escape s) else Some ([], d # s))
      else if c = backslash
      then (if d = backslash \<or> d = squote then map_option (apfst ((#) d)) (lex_escape s) else None)
      else map_option (apfst ((#) c)) (lex_escape (d # s)))"

text \<open>
  A literal token: \<open>E'...'\<close> after blanks is an escape string; \<open>'...'\<close> is a standard one when
  \<open>standard_conforming_strings\<close> is on and an escape string when it is off.
\<close>

definition lex_literal :: "bool \<Rightarrow> rstr \<Rightarrow> (rstr \<times> rstr) option" where
  "lex_literal scs s =
     (case dropWhile (\<lambda>c. c = 32) s of
        c # t \<Rightarrow>
          if c = squote then (if scs then lex_quoted squote t else lex_escape t)
          else if c = 69 then (case t of d # u \<Rightarrow> if d = squote then lex_escape u else None | [] \<Rightarrow> None)
          else None
      | [] \<Rightarrow> None)"

definition lex_identifier :: "rstr \<Rightarrow> (rstr \<times> rstr) option" where
  "lex_identifier s = (case s of c # t \<Rightarrow> if c = dquote then lex_quoted dquote t else None | [] \<Rightarrow> None)"

section \<open>Correctness\<close>

lemma escape_scan_acc:
  "escape_scan q s (nb, nq) =
     (nb + (if q = backslash then 0 else count_list s backslash), nq + count_list s q)"
  by (induction s arbitrary: nb nq) auto

lemma lex_quoted_escape:
  assumes "r = [] \<or> hd r \<noteq> q" and "q \<noteq> backslash"
  shows "lex_quoted q (escape_chars q True s @ q # r) = Some (s, r)"
  using assms
proof (induction s)
  case Nil
  then show ?case by (cases r) simp_all
next
  case (Cons c s)
  have "\<exists>d t. escape_chars q True s @ q # r = d # t"
    by (cases "escape_chars q True s") simp_all
  with Cons show ?case by (cases "c = q") auto
qed

lemma lex_escape_escape:
  assumes "r = [] \<or> hd r \<noteq> squote"
  shows "lex_escape (escape_chars squote False s @ squote # r) = Some (s, r)"
  using assms
proof (induction s)
  case Nil
  then show ?case by (cases r) simp_all
next
  case (Cons c s)
  have "\<exists>d t. escape_chars squote False s @ squote # r = d # t"
    by (cases "escape_chars squote False s") simp_all
  with Cons show ?case by (cases "c = squote"; cases "c = backslash") auto
qed

lemma escape_chars_id:
  "q \<notin> set s \<Longrightarrow> backslash \<notin> set s \<or> as_ident \<Longrightarrow> escape_chars q as_ident s = s"
  by (induction s) auto

lemma escape_chars_no_backslash:
  "backslash \<notin> set s \<Longrightarrow> escape_chars q False s = escape_chars q True s"
  by (induction s) auto

lemma escape_literal_eq:
  "escape_literal s =
     (if backslash \<in> set s then [32, 69] else []) @ squote # escape_chars squote False s @ [squote]"
  by (auto simp: escape_literal_def escape_internal_def escape_scan_acc escape_chars_id
      count_list_0_iff)

lemma escape_identifier_eq:
  "escape_identifier s = dquote # escape_chars dquote True s @ [dquote]"
  by (auto simp: escape_identifier_def escape_internal_def escape_scan_acc escape_chars_id
      count_list_0_iff)

text \<open>
  C9: an escaped literal is read back by the server as exactly the input, whatever
  \<open>standard_conforming_strings\<close> is, and the token ends where the escaped text ends: text after it
  that does not begin with a quote is left untouched. No input can break out of the quotes.
\<close>

theorem escape_literal_lexes:
  assumes "rest = [] \<or> hd rest \<noteq> squote"
  shows "lex_literal scs (escape_literal s @ rest) = Some (s, rest)"
proof (cases "backslash \<in> set s")
  case True
  then show ?thesis
    using lex_escape_escape [OF assms] by (simp add: escape_literal_eq lex_literal_def)
next
  case False
  then have eq: "escape_chars squote False s = escape_chars squote True s"
    by (rule escape_chars_no_backslash)
  from False show ?thesis
    using lex_escape_escape [OF assms, of s, unfolded eq] lex_quoted_escape [OF assms, of s]
    by (simp add: escape_literal_eq lex_literal_def eq)
qed

theorem escape_literal_lexes_witness:
  "lex_literal False (escape_literal [39, 92, 59] @ [59]) = Some ([39, 92, 59], [59])"
  by (rule escape_literal_lexes) simp

text \<open>
  An escaped identifier is read back as exactly the input, and the token ends where the
  escaped text ends.
\<close>

lemma escape_identifier_lexes:
  assumes "rest = [] \<or> hd rest \<noteq> dquote"
  shows "lex_identifier (escape_identifier s @ rest) = Some (s, rest)"
  using lex_quoted_escape [OF assms] by (simp add: escape_identifier_eq lex_identifier_def)

theorem escape_identifier_lexes_witness:
  "lex_identifier (escape_identifier [34, 65] @ [46]) = Some ([34, 65], [46])"
  by (rule escape_identifier_lexes) simp

lemma length_utf8_escape_chars:
  "length (utf8_encode (escape_chars q as_ident s)) =
     length (utf8_encode s) + count_list s q * length (utf8_encode_char q)
     + (if as_ident \<or> q = backslash then 0 else count_list s backslash)"
  by (induction s) (auto simp: utf8_encode_char_def)

text \<open>The reserved capacity is enough: the output never grows past it.\<close>

lemma escape_fits_capacity:
  "length (utf8_encode (escape_internal s as_ident)) \<le> escape_capacity s as_ident"
  by (auto simp: escape_internal_def escape_capacity_def escape_scan_acc length_utf8_escape_chars
      utf8_encode_char_def)

end
