(* ===== verification/Wire_Core.thy ===== *)
theory Wire_Core
  imports Utf8
begin

text \<open>
  The crate root of \<open>opengauss-protocol\<close> (\<open>lib.rs\<close>): object ids, the NULL marker, checked
  conversions from \<open>usize\<close>, and the length-prefixed nullable value.

  A serializer takes the output buffer and returns it extended. The code reserves a length slot,
  appends, and patches the slot (\<open>BigEndian::write_i32(&mut buf[base..], size)\<close>); the model does
  the same with \<open>patch\<close>. After an error the callers clear or drop the buffer, so an error carries
  no buffer. \<open>from_io\<close> is the \<open>From<io::Error>\<close> of the caller's error type.
\<close>

type_synonym oid = u32
type_synonym lsn = u64

datatype is_null = Yes | No

type_synonym 'e writer = "bytes \<Rightarrow> 'e + bytes"

definition too_large_error :: io_error where
  "too_large_error = Io_Error InvalidInput (Msg ''value too large to transmit'')"

text \<open>The macro \<open>from_usize!\<close>, by the maximum of the target type, and its three instances.\<close>

definition from_usize :: "nat \<Rightarrow> nat \<Rightarrow> io_error + 'a::len word" where
  "from_usize max_val x = (if x > max_val then Inl too_large_error else Inr (of_nat x))"

definition i16_from_usize :: "nat \<Rightarrow> io_error + i16" where
  "i16_from_usize = from_usize 32767"

definition u16_from_usize :: "nat \<Rightarrow> io_error + u16" where
  "u16_from_usize = from_usize 65535"

definition i32_from_usize :: "nat \<Rightarrow> io_error + i32" where
  "i32_from_usize = from_usize 2147483647"

text \<open>Overwriting bytes of the buffer in place.\<close>

definition patch :: "nat \<Rightarrow> bytes \<Rightarrow> bytes \<Rightarrow> bytes" where
  "patch base new buf = take base buf @ new @ drop (base + length new) buf"

definition write_nullable ::
  "(io_error \<Rightarrow> 'e) \<Rightarrow> (bytes \<Rightarrow> 'e + (is_null \<times> bytes)) \<Rightarrow> 'e writer" where
  "write_nullable from_io serializer buf =
     (let base = length buf in
      bind_res (serializer (buf @ be_word (0 :: i32))) (\<lambda>(null, buf').
      bind_res (case null of
                  No \<Rightarrow> map_err from_io (i32_from_usize (length buf' - base - 4))
                | Yes \<Rightarrow> Inr (- 1)) (\<lambda>size.
      Inr (patch base (be_word size) buf'))))"

section \<open>Lemmas\<close>

lemma patch_append [simp]:
  "length x = length new \<Longrightarrow> patch (length buf) new (buf @ x @ rest) = buf @ new @ rest"
  by (simp add: patch_def)

lemma patch_append' [simp]:
  "length x = length new \<Longrightarrow> patch (length buf) new (buf @ x) = buf @ new"
  by (simp add: patch_def)

lemma length_patch [simp]:
  "base + length new \<le> length buf \<Longrightarrow> length (patch base new buf) = length buf"
  by (simp add: patch_def)

lemma i32_from_usize_Inr:
  "i32_from_usize n = Inr v \<longleftrightarrow> n \<le> 2147483647 \<and> v = of_nat n"
  by (auto simp: i32_from_usize_def from_usize_def)

lemma i32_from_usize_Inl:
  "i32_from_usize n = Inl e \<longleftrightarrow> 2147483647 < n \<and> e = too_large_error"
  by (auto simp: i32_from_usize_def from_usize_def)

lemma u16_from_usize_Inr:
  "u16_from_usize n = Inr v \<longleftrightarrow> n \<le> 65535 \<and> v = of_nat n"
  by (auto simp: u16_from_usize_def from_usize_def)

lemma u16_from_usize_Inl:
  "u16_from_usize n = Inl e \<longleftrightarrow> 65535 < n \<and> e = too_large_error"
  by (auto simp: u16_from_usize_def from_usize_def)

lemma i32_from_usize_ok [simp]: "n \<le> 2147483647 \<Longrightarrow> i32_from_usize n = Inr (of_nat n)"
  by (simp add: i32_from_usize_Inr)

lemma i32_from_usize_big [simp]: "2147483647 < n \<Longrightarrow> i32_from_usize n = Inl too_large_error"
  by (simp add: i32_from_usize_Inl)

lemma u16_from_usize_ok [simp]: "n \<le> 65535 \<Longrightarrow> u16_from_usize n = Inr (of_nat n)"
  by (simp add: u16_from_usize_Inr)

lemma u16_from_usize_big [simp]: "65535 < n \<Longrightarrow> u16_from_usize n = Inl too_large_error"
  by (simp add: u16_from_usize_Inl)

lemma unat_of_nat_i32 [simp]: "n \<le> 2147483647 \<Longrightarrow> unat (of_nat n :: 32 word) = n"
  by (simp add: unat_of_nat)

lemma unat_of_nat_u16 [simp]: "n \<le> 65535 \<Longrightarrow> unat (of_nat n :: 16 word) = n"
  by (simp add: unat_of_nat)

lemma sint_of_nat_i32 [simp]: "n \<le> 2147483647 \<Longrightarrow> sint (of_nat n :: 32 word) = int n"
  by (simp add: signed_of_nat signed_take_bit_int_eq_self)

text \<open>A value that is not NULL is its length and its bytes; NULL is the length \<open>-1\<close>.\<close>

definition nullable_bytes :: "bytes option \<Rightarrow> bytes" where
  "nullable_bytes v = (case v of
     None \<Rightarrow> be_word (- 1 :: i32)
   | Some d \<Rightarrow> be_word (of_nat (length d) :: i32) @ d)"

text \<open>A serializer that appends \<open>d\<close>, or nothing for NULL, wherever it starts.\<close>

definition serializes :: "(bytes \<Rightarrow> 'e + (is_null \<times> bytes)) \<Rightarrow> bytes option \<Rightarrow> bool" where
  "serializes f v \<longleftrightarrow>
     (\<forall>buf. f buf = (case v of None \<Rightarrow> Inr (Yes, buf) | Some d \<Rightarrow> Inr (No, buf @ d)))"

definition fits_i32 :: "bytes option \<Rightarrow> bool" where
  "fits_i32 v = (case v of None \<Rightarrow> True | Some d \<Rightarrow> length d \<le> 2147483647)"

lemma write_nullable_ok:
  "serializes f v \<Longrightarrow> fits_i32 v \<Longrightarrow> write_nullable from_io f buf = Inr (buf @ nullable_bytes v)"
  by (cases v) (simp_all add: write_nullable_def serializes_def fits_i32_def nullable_bytes_def Let_def)

lemma write_nullable_too_large:
  "serializes f v \<Longrightarrow> \<not> fits_i32 v \<Longrightarrow> write_nullable from_io f buf = Inl (from_io too_large_error)"
  by (cases v) (simp_all add: write_nullable_def serializes_def fits_i32_def Let_def)


section \<open>NUL-terminated strings and repeated items\<close>

text \<open>\<open>memchr\<close>: the position of the first byte equal to the needle.\<close>

fun memchr :: "u8 \<Rightarrow> bytes \<Rightarrow> nat option" where
  "memchr x [] = None"
| "memchr x (b # s) = (if b = x then Some 0 else map_option Suc (memchr x s))"

lemma memchr_append [simp]: "x \<notin> set s \<Longrightarrow> memchr x (s @ x # r) = Some (length s)"
  by (induction s) auto

lemma memchr_None [simp]: "memchr x s = None \<longleftrightarrow> x \<notin> set s"
  by (induction s) auto

lemma memchr_Some:
  "memchr x s = Some i \<longleftrightarrow> i < length s \<and> s ! i = x \<and> x \<notin> set (take i s)"
proof (induction s arbitrary: i)
  case Nil
  then show ?case by simp
next
  case (Cons b s)
  then show ?case by (cases i) auto
qed

lemma memchr_Some_split:
  "memchr x b = Some i \<Longrightarrow> b = take i b @ x # drop (Suc i) b \<and> x \<notin> set (take i b)"
  by (metis id_take_nth_drop memchr_Some)

definition cstr_bytes :: "bytes \<Rightarrow> bytes" where
  "cstr_bytes s = s @ [0]"

text \<open>Reading back a fixed number of items.\<close>

fun read_n :: "nat \<Rightarrow> (bytes \<Rightarrow> 'e + ('a \<times> bytes)) \<Rightarrow> bytes \<Rightarrow> 'e + ('a list \<times> bytes)" where
  "read_n 0 rd b = Inr ([], b)"
| "read_n (Suc n) rd b =
     bind_res (rd b) (\<lambda>(x, r). bind_res (read_n n rd r) (\<lambda>(xs, r'). Inr (x # xs, r')))"

context stream_item begin

lemma read_n_wr: "list_all ok xs \<Longrightarrow> read_n (length xs) rd (concat (map wr xs) @ r) = Inr (xs, r)"
  by (induction xs) (simp_all add: rd_wr)

lemma read_n_iff:
  "read_n n rd b = Inr (xs, r) \<longleftrightarrow>
     length xs = n \<and> list_all ok xs \<and> b = concat (map wr xs) @ r"
proof (induction n arbitrary: b xs)
  case 0
  then show ?case by auto
next
  case (Suc n)
  then show ?case by (cases xs) (auto simp: rd_iff)
qed

end


text \<open>
  \<open>Buffer::read_cstr\<close> of \<open>message/backend.rs\<close>: the bytes up to the first NUL, which is consumed too.
\<close>

definition read_cstr :: "bytes reader" where
  "read_cstr b =
     (case memchr 0 b of
        Some pos \<Rightarrow> Inr (take pos b, drop (pos + 1) b)
      | None \<Rightarrow> Inl eof_error)"

lemma read_cstr_append [simp]: "0 \<notin> set s \<Longrightarrow> read_cstr (cstr_bytes s @ r) = Inr (s, r)"
  by (simp add: read_cstr_def cstr_bytes_def)

lemma read_cstr_Inl: "read_cstr b = Inl e \<longleftrightarrow> 0 \<notin> set b \<and> e = eof_error"
  using memchr_None [of 0 b] by (auto simp: read_cstr_def simp del: memchr_None split: option.splits)

interpretation cstr: stream_item cstr_bytes read_cstr "\<lambda>s. 0 \<notin> set s"
proof
  fix b x r
  assume "read_cstr b = Inr (x, r)"
  then obtain pos where "memchr 0 b = Some pos" "x = take pos b" "r = drop (Suc pos) b"
    by (auto simp: read_cstr_def split: option.splits)
  with memchr_Some_split [of 0 b pos] show "0 \<notin> set x \<and> b = cstr_bytes x @ r"
    by (simp add: cstr_bytes_def)
qed simp

text \<open>A nullable value as a server reads it, the inverse of \<open>nullable_bytes\<close>.\<close>

definition read_nullable :: "bytes option reader" where
  "read_nullable b =
     bind_res (read_i32 b) (\<lambda>(len, r).
     if len = - 1 then Inr (None, r)
     else if sint len < 0 then Inl (Io_Error InvalidData (Msg ''negative value length''))
     else bind_res (read_exact (unat len) r) (\<lambda>(d, r). Inr (Some d, r)))"

lemma unat_nonneg_i32: "\<not> sint (v :: i32) < 0 \<Longrightarrow> unat v \<le> 2147483647 \<and> sint v = int (unat v)"
proof -
  assume nn: "\<not> sint v < 0"
  have "sint v < 2147483648" using sint_lt [of v] by simp
  moreover have "uint v = sint v mod 4294967296"
    by (simp add: uint_sint take_bit_eq_mod)
  ultimately have "uint v = sint v" using nn by simp
  with \<open>sint v < 2147483648\<close> nn show ?thesis by (simp add: unat_eq_nat_uint)
qed

lemma of_nat_not_minus1 [simp]: "n \<le> 2147483647 \<Longrightarrow> (of_nat n :: i32) \<noteq> - 1"
proof
  assume n: "n \<le> 2147483647" and "(of_nat n :: i32) = - 1"
  then have "sint (of_nat n :: i32) = sint (- 1 :: i32)" by simp
  with n show False by simp
qed

interpretation nullable: stream_item nullable_bytes read_nullable fits_i32
proof
  fix x :: "bytes option" and r
  assume "fits_i32 x"
  then show "read_nullable (nullable_bytes x @ r) = Inr (x, r)"
    by (cases x) (simp_all add: read_nullable_def nullable_bytes_def fits_i32_def)
next
  fix b x r
  assume "read_nullable b = Inr (x, r)"
  then obtain len s where rd: "read_i32 b = Inr (len, s)" by (auto simp: read_nullable_def)
  then have b: "b = be_word len @ s" by (simp add: read_be_Inr)
  from \<open>read_nullable b = Inr (x, r)\<close> rd
  consider "len = - 1" "x = None" "s = r"
    | d where "\<not> sint len < 0" "s = d @ r" "length d = unat len" "x = Some d"
    by (auto simp: read_nullable_def read_exact_Inr split: if_splits)
  then show "fits_i32 x \<and> b = nullable_bytes x @ r"
  proof cases
    case 1
    with b show ?thesis by (simp add: nullable_bytes_def fits_i32_def)
  next
    case 2
    with b unat_nonneg_i32 [of len] show ?thesis by (simp add: nullable_bytes_def fits_i32_def)
  qed
qed

end
