(* ===== verification/Frontend.thy ===== *)
theory Frontend
  imports Wire_Core
begin

text \<open>
  Frontend messages (\<open>message/frontend.rs\<close>). Every writer appends one message to the buffer: a tag
  byte (none for the startup, SSL and cancel requests), a 32-bit length that counts itself and the
  body, and the body. A string is given by its bytes. The closures the code passes to \<open>write_body\<close> are the
  arguments here; \<open>unwrap\<close> of a result is \<open>None\<close> when the code would panic.
\<close>

section \<open>The writers\<close>

definition tag_of :: "char \<Rightarrow> u8" where
  "tag_of c = of_char c"

definition unwrap :: "'e + 'a \<Rightarrow> 'a option" where
  "unwrap r = (case r of Inl _ \<Rightarrow> None | Inr x \<Rightarrow> Some x)"

definition write_body :: "(io_error \<Rightarrow> 'e) \<Rightarrow> 'e writer \<Rightarrow> 'e writer" where
  "write_body from_io f buf =
     (let base = length buf in
      bind_res (f (buf @ replicate 4 0)) (\<lambda>buf'.
      bind_res (map_err from_io (i32_from_usize (length buf' - base))) (\<lambda>size.
      Inr (patch base (be_word size) buf'))))"

definition embedded_null_error :: io_error where
  "embedded_null_error = Io_Error InvalidInput (Msg ''string contains embedded null'')"

definition write_cstr :: "bytes \<Rightarrow> io_error writer" where
  "write_cstr s buf =
     (if List.member s 0 then Inl embedded_null_error else Inr (buf @ s @ [0]))"

text \<open>The \<open>for\<close> loop of \<open>write_counted\<close>.\<close>

fun write_each :: "('a \<Rightarrow> 'e writer) \<Rightarrow> 'a list \<Rightarrow> 'e writer" where
  "write_each serializer [] buf = Inr buf"
| "write_each serializer (item # items) buf =
     bind_res (serializer item buf) (\<lambda>buf'. write_each serializer items buf')"

definition write_counted :: "(io_error \<Rightarrow> 'e) \<Rightarrow> 'a list \<Rightarrow> ('a \<Rightarrow> 'e writer) \<Rightarrow> 'e writer" where
  "write_counted from_io items serializer buf =
     (let base = length buf in
      bind_res (write_each serializer items (buf @ replicate 2 0)) (\<lambda>buf'.
      bind_res (map_err from_io (u16_from_usize (length items))) (\<lambda>count.
      Inr (patch base (be_word count) buf'))))"

definition put_i16 :: "i16 \<Rightarrow> 'e writer" where
  "put_i16 v buf = Inr (buf @ be_word v)"

definition put_i32 :: "i32 \<Rightarrow> 'e writer" where
  "put_i32 v buf = Inr (buf @ be_word v)"

text \<open>
  \<open>Box<dyn Error>\<close>, the error of a value serializer: it can also box an \<open>io::Error\<close>, which is what a value
  or a value count too large to transmit becomes inside \<open>bind\<close>.
\<close>

datatype 'c box_error = Box_Io io_error | Box_Other 'c

datatype 'c bind_error = Conversion "'c box_error" | Serialization io_error

definition bind ::
  "bytes \<Rightarrow> bytes \<Rightarrow> i16 list \<Rightarrow> 't list \<Rightarrow> ('t \<Rightarrow> bytes \<Rightarrow> 'c box_error + (is_null \<times> bytes)) \<Rightarrow>
   i16 list \<Rightarrow> 'c bind_error writer" where
  "bind portal statement formats values serializer result_formats buf =
     write_body Serialization (\<lambda>buf.
       bind_res (map_err Serialization (write_cstr portal buf)) (\<lambda>buf.
       bind_res (map_err Serialization (write_cstr statement buf)) (\<lambda>buf.
       bind_res (map_err Serialization (write_counted id formats put_i16 buf)) (\<lambda>buf.
       bind_res (map_err Conversion
         (write_counted Box_Io values (\<lambda>v. write_nullable Box_Io (serializer v)) buf)) (\<lambda>buf.
       map_err Serialization (write_counted id result_formats put_i16 buf))))))
     (buf @ [tag_of CHR ''B''])"

definition cancel_request :: "i32 \<Rightarrow> i32 \<Rightarrow> bytes \<Rightarrow> bytes option" where
  "cancel_request process_id secret_key buf =
     unwrap (write_body id (\<lambda>buf. Inr (buf @ be_word (80877102 :: i32) @ be_word process_id
       @ be_word secret_key)) buf)"

definition close :: "u8 \<Rightarrow> bytes \<Rightarrow> io_error writer" where
  "close variant name buf =
     write_body id (\<lambda>buf. write_cstr name (buf @ [variant])) (buf @ [tag_of CHR ''C''])"

text \<open>\<open>CopyData\<close>: the payload and the length the header will carry.\<close>

record copy_data =
  cd_buf :: bytes
  cd_len :: i32

definition copy_data_new :: "bytes \<Rightarrow> io_error + copy_data" where
  "copy_data_new buf =
     (let l = length buf + 4 in
      if l \<le> 2147483647 then Inr \<lparr>cd_buf = buf, cd_len = of_nat l\<rparr>
      else Inl (Io_Error InvalidInput (Msg ''message length overflow'')))"

definition copy_data_write :: "copy_data \<Rightarrow> bytes \<Rightarrow> bytes" where
  "copy_data_write d out = out @ [tag_of CHR ''d''] @ be_word (cd_len d) @ cd_buf d"

definition copy_done :: "bytes \<Rightarrow> bytes option" where
  "copy_done buf = unwrap (write_body (id :: io_error \<Rightarrow> io_error) Inr (buf @ [tag_of CHR ''c'']))"

definition copy_fail :: "bytes \<Rightarrow> io_error writer" where
  "copy_fail message buf = write_body id (write_cstr message) (buf @ [tag_of CHR ''f''])"

definition describe :: "u8 \<Rightarrow> bytes \<Rightarrow> io_error writer" where
  "describe variant name buf =
     write_body id (\<lambda>buf. write_cstr name (buf @ [variant])) (buf @ [tag_of CHR ''D''])"

definition execute :: "bytes \<Rightarrow> i32 \<Rightarrow> io_error writer" where
  "execute portal max_rows buf =
     write_body id (\<lambda>buf. bind_res (write_cstr portal buf) (put_i32 max_rows)) (buf @ [tag_of CHR ''E''])"

definition parse :: "bytes \<Rightarrow> bytes \<Rightarrow> oid list \<Rightarrow> io_error writer" where
  "parse name query param_types buf =
     write_body id (\<lambda>buf.
       bind_res (write_cstr name buf) (\<lambda>buf.
       bind_res (write_cstr query buf) (\<lambda>buf.
       write_counted id param_types put_i32 buf))) (buf @ [tag_of CHR ''P''])"

definition password_message :: "bytes \<Rightarrow> io_error writer" where
  "password_message password buf = write_body id (write_cstr password) (buf @ [tag_of CHR ''p''])"

definition query :: "bytes \<Rightarrow> io_error writer" where
  "query q buf = write_body id (write_cstr q) (buf @ [tag_of CHR ''Q''])"

definition sasl_initial_response :: "bytes \<Rightarrow> bytes \<Rightarrow> io_error writer" where
  "sasl_initial_response mechanism data buf =
     write_body id (\<lambda>buf.
       bind_res (write_cstr mechanism buf) (\<lambda>buf.
       bind_res (i32_from_usize (length data)) (\<lambda>len.
       Inr (buf @ be_word len @ data)))) (buf @ [tag_of CHR ''p''])"

definition sasl_response :: "bytes \<Rightarrow> io_error writer" where
  "sasl_response data buf = write_body id (\<lambda>buf. Inr (buf @ data)) (buf @ [tag_of CHR ''p''])"

definition ssl_request :: "bytes \<Rightarrow> bytes option" where
  "ssl_request buf =
     unwrap (write_body (id :: io_error \<Rightarrow> io_error) (\<lambda>buf. Inr (buf @ be_word (80877103 :: i32))) buf)"

fun write_params :: "(bytes \<times> bytes) list \<Rightarrow> io_error writer" where
  "write_params [] buf = Inr buf"
| "write_params ((key, val) # ps) buf =
     bind_res (write_cstr key buf) (\<lambda>buf. bind_res (write_cstr val buf) (\<lambda>buf. write_params ps buf))"

definition startup_message :: "(bytes \<times> bytes) list \<Rightarrow> io_error writer" where
  "startup_message parameters buf =
     write_body id (\<lambda>buf.
       bind_res (write_params parameters (buf @ be_word (0x00030033 :: i32))) (\<lambda>buf.
       Inr (buf @ [0]))) buf"

definition flush :: "bytes \<Rightarrow> bytes option" where
  "flush buf = unwrap (write_body (id :: io_error \<Rightarrow> io_error) Inr (buf @ [tag_of CHR ''H'']))"

definition sync :: "bytes \<Rightarrow> bytes option" where
  "sync buf = unwrap (write_body (id :: io_error \<Rightarrow> io_error) Inr (buf @ [tag_of CHR ''S'']))"

definition terminate :: "bytes \<Rightarrow> bytes option" where
  "terminate buf = unwrap (write_body (id :: io_error \<Rightarrow> io_error) Inr (buf @ [tag_of CHR ''X'']))"

section \<open>What a message looks like on the wire\<close>

text \<open>\<open>frame body\<close>: the length field, counting itself, and the body.\<close>

definition max_body :: nat where
  "max_body = 2147483643"

definition frame :: "bytes \<Rightarrow> bytes" where
  "frame body = be_word (of_nat (length body + 4) :: i32) @ body"

text \<open>A body writer that appends \<open>body\<close> wherever it starts, or fails with \<open>e\<close> wherever it starts.\<close>

definition appends :: "'e writer \<Rightarrow> bytes \<Rightarrow> bool" where
  "appends f body \<longleftrightarrow> (\<forall>buf. f buf = Inr (buf @ body))"

lemma appendsI [intro]: "(\<And>buf. f buf = Inr (buf @ body)) \<Longrightarrow> appends f body"
  by (simp add: appends_def)

lemma appendsD: "appends f body \<Longrightarrow> f buf = Inr (buf @ body)"
  by (simp add: appends_def)

lemma write_body_appends:
  assumes "appends f body"
  shows "write_body from_io f buf =
    (if length body \<le> max_body then Inr (buf @ frame body) else Inl (from_io too_large_error))"
proof (cases "length body \<le> max_body")
  case True
  then have "i32_from_usize (length body + 4) = Inr (of_nat (length body + 4))"
    by (simp add: max_body_def)
  with appendsD [OF assms] True show ?thesis
    by (simp add: write_body_def frame_def add.commute)
next
  case False
  then have "i32_from_usize (length body + 4) = Inl too_large_error"
    by (simp add: max_body_def)
  with appendsD [OF assms] False show ?thesis
    by (simp add: write_body_def add.commute)
qed

lemma write_body_fails:
  "f (buf @ replicate 4 0) = Inl e \<Longrightarrow> write_body from_io f buf = Inl e"
  by (simp add: write_body_def)

lemma write_cstr_eq:
  "write_cstr s buf = (if 0 \<in> set s then Inl embedded_null_error else Inr (buf @ cstr_bytes s))"
  by (simp add: write_cstr_def cstr_bytes_def)

lemma write_each_appends:
  "(\<And>x. x \<in> set items \<Longrightarrow> appends (ser x) (enc x)) \<Longrightarrow>
     write_each ser items buf = Inr (buf @ concat (map enc items))"
  by (induction items arbitrary: buf) (simp_all add: appends_def)

definition counted :: "('a \<Rightarrow> bytes) \<Rightarrow> 'a list \<Rightarrow> bytes" where
  "counted enc items = be_word (of_nat (length items) :: u16) @ concat (map enc items)"

lemma write_counted_appends:
  assumes "\<And>x. x \<in> set items \<Longrightarrow> appends (ser x) (enc x)"
  shows "write_counted from_io items ser buf =
    (if length items \<le> 65535 then Inr (buf @ counted enc items) else Inl (from_io too_large_error))"
proof -
  have "write_each ser items (buf @ replicate 2 0) = Inr ((buf @ replicate 2 0) @ concat (map enc items))"
    using assms by (rule write_each_appends)
  then show ?thesis
    by (simp add: write_counted_def counted_def)
qed


section \<open>The messages of the protocol\<close>

text \<open>
  \<open>frames w pre body\<close>: the writer appends exactly the message \<open>pre\<close> (the tag) and the framed body,
  and refuses a body that does not fit the length field.
\<close>

definition frames :: "io_error writer \<Rightarrow> bytes \<Rightarrow> bytes \<Rightarrow> bool" where
  "frames w pre body \<longleftrightarrow>
     (\<forall>buf. w buf = (if length body \<le> max_body then Inr (buf @ pre @ frame body)
                     else Inl too_large_error))"

lemma frames_write_body:
  "appends f body \<Longrightarrow> frames (\<lambda>buf. write_body id f (buf @ pre)) pre body"
  by (simp add: frames_def write_body_appends)

lemma appends_cstr: "0 \<notin> set s \<Longrightarrow> appends (write_cstr s) (cstr_bytes s)"
  by (simp add: appends_def write_cstr_eq)

lemma appends_put_i16: "appends (put_i16 v) (be_word v)"
  by (simp add: appends_def put_i16_def)

lemma appends_put_i32: "appends (put_i32 v) (be_word v)"
  by (simp add: appends_def put_i32_def)

lemma appends_seq:
  "appends f a \<Longrightarrow> appends g b \<Longrightarrow> appends (\<lambda>buf. bind_res (f buf) g) (a @ b)"
  by (simp add: appends_def)

lemma write_params_appends:
  "list_all (\<lambda>(k, v). 0 \<notin> set k \<and> 0 \<notin> set v) ps \<Longrightarrow>
     appends (write_params ps) (concat (map (\<lambda>(k, v). cstr_bytes k @ cstr_bytes v) ps))"
  by (induction ps) (auto simp: appends_def write_cstr_eq)

lemma frames_close:
  "0 \<notin> set name \<Longrightarrow> frames (close variant name) [tag_of CHR ''C''] (variant # cstr_bytes name)"
  unfolding close_def by (rule frames_write_body) (simp add: appends_def write_cstr_eq)

lemma frames_describe:
  "0 \<notin> set name \<Longrightarrow> frames (describe variant name) [tag_of CHR ''D''] (variant # cstr_bytes name)"
  unfolding describe_def by (rule frames_write_body) (simp add: appends_def write_cstr_eq)

lemma frames_execute: "0 \<notin> set name \<Longrightarrow>
    frames (execute name max_rows) [tag_of CHR ''E''] (cstr_bytes name @ be_word max_rows)"
  unfolding execute_def by (intro frames_write_body appends_seq appends_cstr appends_put_i32)

lemma frames_query: "0 \<notin> set q \<Longrightarrow> frames (query q) [tag_of CHR ''Q''] (cstr_bytes q)"
  unfolding query_def by (intro frames_write_body appends_cstr)

lemma frames_copy_fail: "0 \<notin> set m \<Longrightarrow> frames (copy_fail m) [tag_of CHR ''f''] (cstr_bytes m)"
  unfolding copy_fail_def by (intro frames_write_body appends_cstr)

lemma frames_password: "0 \<notin> set p \<Longrightarrow> frames (password_message p) [tag_of CHR ''p''] (cstr_bytes p)"
  unfolding password_message_def by (intro frames_write_body appends_cstr)

lemma frames_sasl_response: "frames (sasl_response data) [tag_of CHR ''p''] data"
  unfolding sasl_response_def by (rule frames_write_body) (simp add: appends_def)

lemma frames_sasl_initial:
  assumes "0 \<notin> set name"
  shows "frames (sasl_initial_response name data) [tag_of CHR ''p'']
    (cstr_bytes name @ be_word (of_nat (length data) :: i32) @ data)"
proof (cases "length data \<le> 2147483647")
  case True
  with assms show ?thesis
    unfolding sasl_initial_response_def
    by (intro frames_write_body) (simp add: appends_def write_cstr_eq)
next
  case False
  with assms show ?thesis
    by (simp add: sasl_initial_response_def write_body_def write_cstr_eq frames_def max_body_def)
qed

text \<open>
  Each message writer of the extended query protocol, of authentication and of COPY appends
  exactly one message: its tag, a length field that counts itself and the body, and the documented
  body; and it fails only when the body is too long for the length field.
\<close>

lemma frontend_messages_framed:
  assumes "0 \<notin> set name"
  shows "frames (close variant name) [tag_of CHR ''C''] (variant # cstr_bytes name) \<and>
    frames (describe variant name) [tag_of CHR ''D''] (variant # cstr_bytes name) \<and>
    frames (execute name max_rows) [tag_of CHR ''E''] (cstr_bytes name @ be_word max_rows) \<and>
    frames (query name) [tag_of CHR ''Q''] (cstr_bytes name) \<and>
    frames (copy_fail name) [tag_of CHR ''f''] (cstr_bytes name) \<and>
    frames (password_message name) [tag_of CHR ''p''] (cstr_bytes name) \<and>
    frames (sasl_initial_response name data) [tag_of CHR ''p'']
      (cstr_bytes name @ be_word (of_nat (length data) :: i32) @ data) \<and>
    frames (sasl_response data) [tag_of CHR ''p''] data"
  using assms
  by (simp add: frames_close frames_describe frames_execute frames_query frames_copy_fail
      frames_password frames_sasl_initial frames_sasl_response)

theorem frontend_messages_framed_witness:
  "frames (query [65]) [tag_of CHR ''Q''] (cstr_bytes [65]) \<and>
   frames (close 83 [65]) [tag_of CHR ''C''] (83 # cstr_bytes [65])"
  using frontend_messages_framed [of "[65]" 83] by simp

text \<open>Messages without a variable part are written without a possible panic.\<close>

lemma unwrap_write_body:
  "appends f body \<Longrightarrow> length body \<le> max_body \<Longrightarrow>
     unwrap (write_body from_io f buf) = Some (buf @ frame body)"
  by (simp add: unwrap_def write_body_appends)

lemma appends_Inr: "appends Inr []"
  by (simp add: appends_def)

lemma infallible_messages:
  "cancel_request pid key buf =
     Some (buf @ frame (be_word (80877102 :: i32) @ be_word pid @ be_word key))"
  "ssl_request buf = Some (buf @ frame (be_word (80877103 :: i32)))"
  "copy_done buf = Some (buf @ [tag_of CHR ''c''] @ frame [])"
  "flush buf = Some (buf @ [tag_of CHR ''H''] @ frame [])"
  "sync buf = Some (buf @ [tag_of CHR ''S''] @ frame [])"
  "terminate buf = Some (buf @ [tag_of CHR ''X''] @ frame [])"
  unfolding cancel_request_def ssl_request_def copy_done_def flush_def sync_def terminate_def
  by (subst unwrap_write_body, (auto simp: appends_def max_body_def) [3])+

lemma copy_data_write_frame:
  "copy_data_new d = Inr c \<Longrightarrow> copy_data_write c out = out @ [tag_of CHR ''d''] @ frame d"
  by (auto simp: copy_data_new_def copy_data_write_def frame_def Let_def split: if_splits)

section \<open>What the server reads\<close>

text \<open>
  The server's side of the two messages with repeated parts, written from the protocol's message
  formats: counted sequences, NUL-terminated names, nullable values.
\<close>

definition read_counted :: "'a reader \<Rightarrow> 'a list reader" where
  "read_counted rd b = bind_res (read_u16 b) (\<lambda>(n, r). read_n (unat n) rd r)"

definition server_bind ::
  "bytes \<Rightarrow> io_error + ((bytes \<times> bytes \<times> i16 list \<times> bytes option list \<times> i16 list) \<times> bytes)" where
  "server_bind b =
     bind_res (read_cstr b) (\<lambda>(portal, b).
     bind_res (read_cstr b) (\<lambda>(statement, b).
     bind_res (read_counted read_i16 b) (\<lambda>(formats, b).
     bind_res (read_counted read_nullable b) (\<lambda>(vals, b).
     bind_res (read_counted read_i16 b) (\<lambda>(rformats, b).
     Inr ((portal, statement, formats, vals, rformats), b))))))"

definition server_parse :: "bytes \<Rightarrow> io_error + ((bytes \<times> bytes \<times> oid list) \<times> bytes)" where
  "server_parse b =
     bind_res (read_cstr b) (\<lambda>(name, b).
     bind_res (read_cstr b) (\<lambda>(q, b).
     bind_res (read_counted read_u32 b) (\<lambda>(oids, b).
     Inr ((name, q, oids), b))))"

lemma read_counted_i16:
  "length xs \<le> 65535 \<Longrightarrow> read_counted read_i16 (counted be_word xs @ r) = Inr (xs, r)"
  by (simp add: read_counted_def counted_def be16.read_n_wr list.pred_True)

lemma read_counted_u32:
  "length xs \<le> 65535 \<Longrightarrow> read_counted read_u32 (counted be_word xs @ r) = Inr (xs, r)"
  by (simp add: read_counted_def counted_def be32.read_n_wr list.pred_True)

lemma read_counted_nullable:
  "length xs \<le> 65535 \<Longrightarrow> list_all fits_i32 xs \<Longrightarrow>
     read_counted read_nullable (counted nullable_bytes xs @ r) = Inr (xs, r)"
  by (simp add: read_counted_def counted_def nullable.read_n_wr)

text \<open>The body of a Bind message.\<close>

definition bind_body ::
  "bytes \<Rightarrow> bytes \<Rightarrow> i16 list \<Rightarrow> bytes option list \<Rightarrow> i16 list \<Rightarrow> bytes" where
  "bind_body portal statement formats vals rformats =
     cstr_bytes portal @ cstr_bytes statement @ counted be_word formats @
     counted nullable_bytes vals @ counted be_word rformats"


text \<open>
  The bytes a value serializer produces: \<open>enc v\<close> is \<open>None\<close> for NULL and the value's bytes otherwise.
\<close>

lemma bind_eq:
  assumes "0 \<notin> set portal" "0 \<notin> set statement"
    and ser: "\<And>v. v \<in> set values \<Longrightarrow> serializes (ser v) (enc v) \<and> fits_i32 (enc v)"
    and len: "length formats \<le> 65535" "length rformats \<le> 65535"
  shows "bind portal statement formats values ser rformats buf =
    (if length values \<le> 65535
     then (let body = bind_body portal statement formats (map enc values) rformats in
           if length body \<le> max_body then Inr (buf @ [tag_of CHR ''B''] @ frame body)
           else Inl (Serialization too_large_error))
     else Inl (Conversion (Box_Io too_large_error)))"
proof -
  have vals: "write_counted Box_Io values (\<lambda>v. write_nullable Box_Io (ser v)) b =
      (if length values \<le> 65535 then Inr (b @ counted (nullable_bytes \<circ> enc) values)
       else Inl (Box_Io too_large_error))" for b
    by (rule write_counted_appends) (auto simp: appends_def ser write_nullable_ok)
  have fmt: "length fs \<le> 65535 \<Longrightarrow> write_counted id fs put_i16 b = Inr (b @ counted be_word fs)"
    for fs b
    using write_counted_appends [where from_io = id and items = fs and buf = b, OF appends_put_i16]
    by simp
  have map: "counted (nullable_bytes \<circ> enc) values = counted nullable_bytes (map enc values)"
    by (simp add: counted_def)
  show ?thesis
  proof (cases "length values \<le> 65535")
    case True
    then have "appends (\<lambda>buf.
       bind_res (map_err Serialization (write_cstr portal buf)) (\<lambda>buf.
       bind_res (map_err Serialization (write_cstr statement buf)) (\<lambda>buf.
       bind_res (map_err Serialization (write_counted id formats put_i16 buf)) (\<lambda>buf.
       bind_res (map_err Conversion
         (write_counted Box_Io values (\<lambda>v. write_nullable Box_Io (ser v)) buf)) (\<lambda>buf.
       map_err Serialization (write_counted id rformats put_i16 buf))))))
      (bind_body portal statement formats (map enc values) rformats)"
      using assms(1,2) len by (simp add: appends_def write_cstr_eq fmt vals map bind_body_def)
    with True show ?thesis
      by (simp add: bind_def write_body_appends Let_def)
  next
    case False
    then show ?thesis
      using assms(1,2) len
      by (simp add: bind_def write_body_def write_cstr_eq fmt vals)
  qed
qed

lemma bind_written:
  assumes "0 \<notin> set portal" "0 \<notin> set statement"
    and "\<And>v. v \<in> set values \<Longrightarrow> serializes (ser v) (enc v) \<and> fits_i32 (enc v)"
    and "bind portal statement formats values ser rformats buf = Inr buf'"
    and "length formats \<le> 65535" "length rformats \<le> 65535"
  shows "\<exists>body. buf' = buf @ [tag_of CHR ''B''] @ frame body \<and>
    server_bind body = Inr ((portal, statement, formats, map enc values, rformats), [])"
proof -
  have fits: "list_all fits_i32 (map enc values)"
    using assms(3) by (simp add: list_all_iff)
  let ?body = "bind_body portal statement formats (map enc values) rformats"
  have "length values \<le> 65535" and buf': "buf' = buf @ [tag_of CHR ''B''] @ frame ?body"
    using assms(4) bind_eq [of portal statement "values" ser enc formats rformats buf]
      assms(1,2,3,5,6)
    by (simp_all add: Let_def split: if_splits)
  moreover have "read_counted read_i16 (counted be_word rformats) = Inr (rformats, [])"
    using read_counted_i16 [OF assms(6), of "[]"] by simp
  ultimately have "server_bind ?body = Inr ((portal, statement, formats, map enc values, rformats), [])"
    using assms(1,2,5) fits
    by (simp add: server_bind_def bind_body_def read_counted_i16 read_counted_nullable)
  with buf' show ?thesis by blast
qed

text \<open>
  C17: a Bind message carries its arguments to the server: the server reads back the portal, the
  statement, the parameter formats, every parameter's bytes or NULL, and the result formats, and
  nothing is left over.
\<close>

theorem bind_roundtrip:
  assumes "0 \<notin> set portal" "0 \<notin> set statement"
    and "\<And>v. v \<in> set values \<Longrightarrow> serializes (ser v) (enc v) \<and> fits_i32 (enc v)"
    and "bind portal statement formats values ser rformats buf = Inr buf'"
    and "length formats \<le> 65535" "length rformats \<le> 65535"
  shows "\<exists>body. buf' = buf @ [tag_of CHR ''B''] @ frame body \<and>
    server_bind body = Inr ((portal, statement, formats, map enc values, rformats), [])"
  by (rule bind_written [OF assms])

definition raw_ser :: "bytes option \<Rightarrow> bytes \<Rightarrow> unit box_error + (is_null \<times> bytes)" where
  "raw_ser v buf = (case v of None \<Rightarrow> Inr (Yes, buf) | Some d \<Rightarrow> Inr (No, buf @ d))"

lemma raw_ser_serializes: "serializes (raw_ser v) v"
  by (simp add: serializes_def raw_ser_def)

theorem bind_roundtrip_witness:
  "\<exists>body. [9] @ [tag_of CHR ''B''] @ frame (bind_body [80] [83] [1] [Some [7, 8], None] [0]) =
      [9] @ [tag_of CHR ''B''] @ frame body \<and>
    server_bind body = Inr (([80], [83], [1], [Some [7, 8], None], [0]), [])"
proof -
  have ser: "v \<in> set [Some [7, 8], None] \<Longrightarrow> serializes (raw_ser v) v \<and> fits_i32 v"
    for v :: "bytes option" by (auto simp: raw_ser_serializes fits_i32_def)
  have "bind [80] [83] [1] [Some [7, 8], None] raw_ser [0] [9] =
      Inr ([9] @ [tag_of CHR ''B''] @ frame (bind_body [80] [83] [1] [Some [7, 8], None] [0]))"
    using bind_eq [of "[80]" "[83]" "[Some [7, 8], None]" raw_ser id "[1]" "[0]" "[9]"] ser
    by (simp add: max_body_def bind_body_def counted_def cstr_bytes_def nullable_bytes_def)
  from bind_roundtrip [OF _ _ ser this] show ?thesis by simp
qed


text \<open>A Parse message carries the statement name, the SQL text and the parameter types.\<close>

lemma parse_roundtrip:
  assumes "0 \<notin> set name" "0 \<notin> set q" "length oids \<le> 65535"
    and "parse name q oids buf = Inr buf'"
  shows "\<exists>body. buf' = buf @ [tag_of CHR ''P''] @ frame body \<and>
    server_parse body = Inr ((name, q, oids), [])"
proof -
  let ?body = "cstr_bytes name @ cstr_bytes q @ counted be_word oids"
  have "write_counted id oids put_i32 b = Inr (b @ counted be_word oids)" for b
    using write_counted_appends [where from_io = id and items = oids and buf = b, OF appends_put_i32]
      assms(3) by simp
  then have "appends (\<lambda>buf. bind_res (write_cstr name buf) (\<lambda>buf. bind_res (write_cstr q buf)
      (\<lambda>buf. write_counted id oids put_i32 buf))) ?body"
    using assms(1,2) by (simp add: appends_def write_cstr_eq)
  then have "buf' = buf @ [tag_of CHR ''P''] @ frame ?body"
    using assms(4) by (simp add: parse_def write_body_appends split: if_splits)
  moreover have "server_parse ?body = Inr ((name, q, oids), [])"
    using assms(1,2) read_counted_u32 [OF assms(3), of "[]"] by (simp add: server_parse_def)
  ultimately show ?thesis by blast
qed

text \<open>The server's loop over the startup parameters: pairs of strings up to an empty name.\<close>

function server_params :: "bytes \<Rightarrow> io_error + ((bytes \<times> bytes) list \<times> bytes)" where
  "server_params b =
     bind_res (read_cstr b) (\<lambda>(key, r).
     if key = [] then Inr ([], r)
     else bind_res (read_cstr r) (\<lambda>(v, r').
          bind_res (server_params r') (\<lambda>(ps, r''). Inr ((key, v) # ps, r''))))"
  by pat_completeness auto
termination
  by (relation "measure length") (auto simp: cstr.rd_iff cstr_bytes_def)

declare server_params.simps [simp del]

definition server_startup :: "bytes \<Rightarrow> io_error + ((i32 \<times> (bytes \<times> bytes) list) \<times> bytes)" where
  "server_startup b = bind_res (read_i32 b) (\<lambda>(version, r).
     bind_res (server_params r) (\<lambda>(ps, r). Inr ((version, ps), r)))"

definition param_ok :: "bytes \<times> bytes \<Rightarrow> bool" where
  "param_ok p \<longleftrightarrow> fst p \<noteq> [] \<and> 0 \<notin> set (fst p) \<and> 0 \<notin> set (snd p)"

lemma server_params_read:
  "list_all param_ok ps \<Longrightarrow>
     server_params (concat (map (\<lambda>(k, v). cstr_bytes k @ cstr_bytes v) ps) @ 0 # r) = Inr (ps, r)"
proof (induction ps)
  case Nil
  have "read_cstr (cstr_bytes [] @ r) = Inr ([], r)" by (rule read_cstr_append) simp
  then show ?case by (subst server_params.simps) (simp add: cstr_bytes_def)
next
  case (Cons p ps)
  then show ?case
    by (cases p) (subst server_params.simps, simp add: param_ok_def)
qed

text \<open>
  The startup message announces protocol version 3.51 (196659) and the server reads back exactly
  the session parameters, in order.
\<close>

lemma startup_roundtrip:
  assumes "list_all param_ok ps" "startup_message ps buf = Inr buf'"
  shows "\<exists>body. buf' = buf @ frame body \<and> server_startup body = Inr ((196659, ps), [])"
proof -
  let ?params = "concat (map (\<lambda>(k, v). cstr_bytes k @ cstr_bytes v) ps)"
  let ?body = "be_word (196659 :: i32) @ ?params @ [0]"
  have "appends (write_params ps) ?params"
    using assms(1) by (intro write_params_appends) (auto simp: list_all_iff param_ok_def)
  then have "appends (\<lambda>buf. bind_res (write_params ps (buf @ be_word (196659 :: i32)))
      (\<lambda>buf. Inr (buf @ [0]))) ?body"
    by (simp add: appends_def)
  then have "buf' = buf @ frame ?body"
    using assms(2) by (simp add: startup_message_def write_body_appends split: if_splits)
  moreover have "server_startup ?body = Inr ((196659, ps), [])"
    using server_params_read [OF assms(1), of "[]"] by (simp add: server_startup_def)
  ultimately show ?thesis by blast
qed

theorem startup_roundtrip_witness:
  "\<exists>body. frame (be_word (196659 :: i32) @ cstr_bytes (ascii ''user'') @ cstr_bytes [65] @ [0]) =
      frame body \<and> server_startup body = Inr ((196659, [(ascii ''user'', [65])]), [])"
proof -
  have ok: "list_all param_ok [(ascii ''user'', [65])]"
    by (simp add: param_ok_def ascii_def)
  have "startup_message [(ascii ''user'', [65])] [] =
      Inr (frame (be_word (196659 :: i32) @ cstr_bytes (ascii ''user'') @ cstr_bytes [65] @ [0]))"
    by (simp add: startup_message_def ascii_def write_body_def write_cstr_eq frame_def cstr_bytes_def
        patch_def)
  from startup_roundtrip [OF ok this] show ?thesis by simp
qed

end
