(* ===== verification/Backend.thy ===== *)
theory Backend
  imports Frontend
begin

text \<open>
  Backend messages (\<open>message/backend.rs\<close>): the header, the message type and its parser, with the
  two dispatches of the authentication codes. The parser's \<open>Buffer\<close> (bytes and an index) is the
  unread slice, which is all its methods look at. A parser returns its result together with the
  caller's buffer, because a complete but malformed message is consumed too.
\<close>

section \<open>Tags\<close>

abbreviation PARSE_COMPLETE_TAG :: u8 where "PARSE_COMPLETE_TAG \<equiv> 0x31"
abbreviation BIND_COMPLETE_TAG :: u8 where "BIND_COMPLETE_TAG \<equiv> 0x32"
abbreviation CLOSE_COMPLETE_TAG :: u8 where "CLOSE_COMPLETE_TAG \<equiv> 0x33"
abbreviation NOTIFICATION_RESPONSE_TAG :: u8 where "NOTIFICATION_RESPONSE_TAG \<equiv> 0x41"
abbreviation COPY_DONE_TAG :: u8 where "COPY_DONE_TAG \<equiv> 0x63"
abbreviation COMMAND_COMPLETE_TAG :: u8 where "COMMAND_COMPLETE_TAG \<equiv> 0x43"
abbreviation COPY_DATA_TAG :: u8 where "COPY_DATA_TAG \<equiv> 0x64"
abbreviation DATA_ROW_TAG :: u8 where "DATA_ROW_TAG \<equiv> 0x44"
abbreviation ERROR_RESPONSE_TAG :: u8 where "ERROR_RESPONSE_TAG \<equiv> 0x45"
abbreviation COPY_IN_RESPONSE_TAG :: u8 where "COPY_IN_RESPONSE_TAG \<equiv> 0x47"
abbreviation COPY_OUT_RESPONSE_TAG :: u8 where "COPY_OUT_RESPONSE_TAG \<equiv> 0x48"
abbreviation EMPTY_QUERY_RESPONSE_TAG :: u8 where "EMPTY_QUERY_RESPONSE_TAG \<equiv> 0x49"
abbreviation BACKEND_KEY_DATA_TAG :: u8 where "BACKEND_KEY_DATA_TAG \<equiv> 0x4B"
abbreviation NO_DATA_TAG :: u8 where "NO_DATA_TAG \<equiv> 0x6E"
abbreviation NOTICE_RESPONSE_TAG :: u8 where "NOTICE_RESPONSE_TAG \<equiv> 0x4E"
abbreviation AUTHENTICATION_TAG :: u8 where "AUTHENTICATION_TAG \<equiv> 0x52"
abbreviation PORTAL_SUSPENDED_TAG :: u8 where "PORTAL_SUSPENDED_TAG \<equiv> 0x73"
abbreviation PARAMETER_STATUS_TAG :: u8 where "PARAMETER_STATUS_TAG \<equiv> 0x53"
abbreviation PARAMETER_DESCRIPTION_TAG :: u8 where "PARAMETER_DESCRIPTION_TAG \<equiv> 0x74"
abbreviation ROW_DESCRIPTION_TAG :: u8 where "ROW_DESCRIPTION_TAG \<equiv> 0x54"
abbreviation READY_FOR_QUERY_TAG :: u8 where "READY_FOR_QUERY_TAG \<equiv> 0x5A"
abbreviation NEGOTIATE_PROTOCOL_VERSION_TAG :: u8 where "NEGOTIATE_PROTOCOL_VERSION_TAG \<equiv> 0x76"

abbreviation PLAIN_PASSWORD :: i32 where "PLAIN_PASSWORD \<equiv> 0"
abbreviation MD5_PASSWORD :: i32 where "MD5_PASSWORD \<equiv> 1"
abbreviation SHA256_PASSWORD :: i32 where "SHA256_PASSWORD \<equiv> 2"
abbreviation SM3_PASSWORD :: i32 where "SM3_PASSWORD \<equiv> 3"

section \<open>The header\<close>

record header =
  header_tag :: u8
  header_len :: i32

definition header_parse :: "bytes \<Rightarrow> io_error + header option" where
  "header_parse buf =
     (if length buf < 5 then Inr None
      else let tag = buf ! 0; len = word_be (take 4 (drop 1 buf)) in
        if sint len < 4
        then Inl (Io_Error InvalidData (Msg ''invalid message length: header length < 4''))
        else Inr (Some \<lparr>header_tag = tag, header_len = len\<rparr>))"

section \<open>Message bodies\<close>

datatype auth_mode = Standard | OpenGauss

record sha256_body =
  sha_password_stored_method :: i32
  sha_random64code :: "bytes option"
  sha_token :: "bytes option"
  sha_server_iteration :: "i32 option"
  sha_md5_salt :: "bytes option"

record md5_sha256_body =
  ms_salt :: bytes
  ms_md5_salt :: bytes

record sm3_body =
  sm3_password_stored_method :: i32
  sm3_random64code :: bytes
  sm3_token :: bytes
  sm3_server_iteration :: i32

record backend_key_data_body =
  bk_process_id :: i32
  bk_secret_key :: i32

record copy_in_response_body =
  ci_format :: u8
  ci_len :: u16
  ci_storage :: bytes

record copy_out_response_body =
  co_format :: u8
  co_len :: u16
  co_storage :: bytes

record data_row_body =
  dr_storage :: bytes
  dr_len :: u16

record notification_response_body =
  nr_process_id :: i32
  nr_channel :: bytes
  nr_message :: bytes

record parameter_description_body =
  pd_storage :: bytes
  pd_len :: u16

record parameter_status_body =
  ps_name :: bytes
  ps_value :: bytes

record row_description_body =
  rd_storage :: bytes
  rd_len :: u16

text \<open>
  A body with a single field is the field: the salt of an MD5 request, the bytes of a GSS or SASL
  exchange, the tag of a completed command, the storage of COPY data, errors and notices, and the
  transaction status of ReadyForQuery.
\<close>

datatype message =
    AuthenticationCleartextPassword
  | AuthenticationGss
  | AuthenticationKerberosV5
  | AuthenticationMd5Password bytes
  | AuthenticationOk
  | AuthenticationScmCredential
  | AuthenticationSspi
  | AuthenticationGssContinue bytes
  | AuthenticationSasl bytes
  | AuthenticationSaslContinue bytes
  | AuthenticationSaslFinal bytes
  | AuthenticationSha256Password sha256_body
  | AuthenticationMd5Sha256Password md5_sha256_body
  | AuthenticationSm3Password sm3_body
  | BackendKeyData backend_key_data_body
  | BindComplete
  | CloseComplete
  | CommandComplete bytes
  | CopyData bytes
  | CopyDone
  | CopyInResponse copy_in_response_body
  | CopyOutResponse copy_out_response_body
  | DataRow data_row_body
  | EmptyQueryResponse
  | ErrorResponse bytes
  | NoData
  | NoticeResponse bytes
  | NotificationResponse notification_response_body
  | ParameterDescription parameter_description_body
  | ParameterStatus parameter_status_body
  | ParseComplete
  | PortalSuspended
  | ReadyForQuery u8
  | RowDescription row_description_body
  | NegotiateProtocolVersion

section \<open>The parser\<close>

text \<open>\<open>Buffer::read_all\<close>: everything that is left.\<close>

definition read_all :: "bytes \<Rightarrow> bytes \<times> bytes" where
  "read_all b = (b, [])"

text \<open>\<open>buf.read_exact(&mut x)\<close> into an array of \<open>n\<close> bytes is \<open>read_exact n\<close>.\<close>

definition parse_sha256 :: "message reader" where
  "parse_sha256 b =
     bind_res (read_i32 b) (\<lambda>(password_stored_method, b).
     if password_stored_method = SHA256_PASSWORD \<or> password_stored_method = PLAIN_PASSWORD then
       bind_res (read_exact 64 b) (\<lambda>(random64code, b).
       bind_res (read_exact 8 b) (\<lambda>(token, b).
       bind_res (read_i32 b) (\<lambda>(server_iteration, b).
       Inr (AuthenticationSha256Password
              \<lparr>sha_password_stored_method = password_stored_method,
               sha_random64code = Some random64code, sha_token = Some token,
               sha_server_iteration = Some server_iteration, sha_md5_salt = None\<rparr>, b))))
     else if password_stored_method = MD5_PASSWORD then
       bind_res (read_exact 4 b) (\<lambda>(md5_salt, b).
       Inr (AuthenticationSha256Password
              \<lparr>sha_password_stored_method = password_stored_method,
               sha_random64code = None, sha_token = None,
               sha_server_iteration = None, sha_md5_salt = Some md5_salt\<rparr>, b))
     else Inl (Io_Error InvalidInput (Msg (''unknown password stored method `''
            @ show_int (sint password_stored_method) @ ''`''))))"

definition unknown_auth_error :: "i32 \<Rightarrow> io_error" where
  "unknown_auth_error code =
     Io_Error InvalidInput (Msg (''unknown authentication tag `'' @ show_int (sint code) @ ''`''))"

definition parse_auth :: "auth_mode \<Rightarrow> message reader" where
  "parse_auth mode b =
     bind_res (read_i32 b) (\<lambda>(code, b).
     if code = 0 then Inr (AuthenticationOk, b)
     else if code = 2 then Inr (AuthenticationKerberosV5, b)
     else if code = 3 then Inr (AuthenticationCleartextPassword, b)
     else if code = 5 then
       bind_res (read_exact 4 b) (\<lambda>(salt, b). Inr (AuthenticationMd5Password salt, b))
     else if code = 6 then Inr (AuthenticationScmCredential, b)
     else if code = 7 then Inr (AuthenticationGss, b)
     else if code = 8 then (let (storage, b) = read_all b in Inr (AuthenticationGssContinue storage, b))
     else if code = 9 then Inr (AuthenticationSspi, b)
     else if code = 10 then
       (if mode = OpenGauss then parse_sha256 b
        else let (storage, b) = read_all b in Inr (AuthenticationSasl storage, b))
     else if code = 11 then
       (if mode = OpenGauss then
          bind_res (read_exact 64 b) (\<lambda>(salt, b).
          bind_res (read_exact 4 b) (\<lambda>(md5_salt, b).
          Inr (AuthenticationMd5Sha256Password \<lparr>ms_salt = salt, ms_md5_salt = md5_salt\<rparr>, b)))
        else let (storage, b) = read_all b in Inr (AuthenticationSaslContinue storage, b))
     else if code = 12 then (let (storage, b) = read_all b in Inr (AuthenticationSaslFinal storage, b))
     else if code = 13 then
       (if mode = OpenGauss then
          bind_res (read_i32 b) (\<lambda>(password_stored_method, b).
          bind_res (read_exact 64 b) (\<lambda>(random64code, b).
          bind_res (read_exact 8 b) (\<lambda>(token, b).
          bind_res (read_i32 b) (\<lambda>(server_iteration, b).
          Inr (AuthenticationSm3Password
                 \<lparr>sm3_password_stored_method = password_stored_method,
                  sm3_random64code = random64code, sm3_token = token,
                  sm3_server_iteration = server_iteration\<rparr>, b)))))
        else Inl (Io_Error InvalidInput (Msg ''unknown authentication tag `13`'')))
     else Inl (unknown_auth_error code))"

text \<open>The loop that skips the unrecognized options of NegotiateProtocolVersion.\<close>

fun skip_cstrs :: "nat \<Rightarrow> bytes \<Rightarrow> io_error + bytes" where
  "skip_cstrs 0 b = Inr b"
| "skip_cstrs (Suc n) b = bind_res (read_cstr b) (\<lambda>(_, b). skip_cstrs n b)"

definition parse_body :: "auth_mode \<Rightarrow> u8 \<Rightarrow> message reader" where
  "parse_body mode tag b =
     (if tag = PARSE_COMPLETE_TAG then Inr (ParseComplete, b)
      else if tag = BIND_COMPLETE_TAG then Inr (BindComplete, b)
      else if tag = CLOSE_COMPLETE_TAG then Inr (CloseComplete, b)
      else if tag = NOTIFICATION_RESPONSE_TAG then
        bind_res (read_i32 b) (\<lambda>(process_id, b).
        bind_res (read_cstr b) (\<lambda>(channel, b).
        bind_res (read_cstr b) (\<lambda>(message, b).
        Inr (NotificationResponse
               \<lparr>nr_process_id = process_id, nr_channel = channel, nr_message = message\<rparr>, b))))
      else if tag = COPY_DONE_TAG then Inr (CopyDone, b)
      else if tag = COMMAND_COMPLETE_TAG then
        bind_res (read_cstr b) (\<lambda>(tag, b). Inr (CommandComplete tag, b))
      else if tag = COPY_DATA_TAG then (let (storage, b) = read_all b in Inr (CopyData storage, b))
      else if tag = DATA_ROW_TAG then
        bind_res (read_u16 b) (\<lambda>(len, b).
        let (storage, b) = read_all b in Inr (DataRow \<lparr>dr_storage = storage, dr_len = len\<rparr>, b))
      else if tag = ERROR_RESPONSE_TAG then
        (let (storage, b) = read_all b in Inr (ErrorResponse storage, b))
      else if tag = COPY_IN_RESPONSE_TAG then
        bind_res (read_u8 b) (\<lambda>(format, b).
        bind_res (read_u16 b) (\<lambda>(len, b).
        let (storage, b) = read_all b in
        Inr (CopyInResponse \<lparr>ci_format = format, ci_len = len, ci_storage = storage\<rparr>, b)))
      else if tag = COPY_OUT_RESPONSE_TAG then
        bind_res (read_u8 b) (\<lambda>(format, b).
        bind_res (read_u16 b) (\<lambda>(len, b).
        let (storage, b) = read_all b in
        Inr (CopyOutResponse \<lparr>co_format = format, co_len = len, co_storage = storage\<rparr>, b)))
      else if tag = EMPTY_QUERY_RESPONSE_TAG then Inr (EmptyQueryResponse, b)
      else if tag = BACKEND_KEY_DATA_TAG then
        bind_res (read_i32 b) (\<lambda>(process_id, b).
        bind_res (read_i32 b) (\<lambda>(secret_key, b).
        let (_, b) = read_all b in
        Inr (BackendKeyData \<lparr>bk_process_id = process_id, bk_secret_key = secret_key\<rparr>, b)))
      else if tag = NO_DATA_TAG then Inr (NoData, b)
      else if tag = NOTICE_RESPONSE_TAG then
        (let (storage, b) = read_all b in Inr (NoticeResponse storage, b))
      else if tag = AUTHENTICATION_TAG then parse_auth mode b
      else if tag = PORTAL_SUSPENDED_TAG then Inr (PortalSuspended, b)
      else if tag = PARAMETER_STATUS_TAG then
        bind_res (read_cstr b) (\<lambda>(name, b).
        bind_res (read_cstr b) (\<lambda>(val, b).
        Inr (ParameterStatus \<lparr>ps_name = name, ps_value = val\<rparr>, b)))
      else if tag = PARAMETER_DESCRIPTION_TAG then
        bind_res (read_u16 b) (\<lambda>(len, b).
        let (storage, b) = read_all b in
        Inr (ParameterDescription \<lparr>pd_storage = storage, pd_len = len\<rparr>, b))
      else if tag = ROW_DESCRIPTION_TAG then
        bind_res (read_u16 b) (\<lambda>(len, b).
        let (storage, b) = read_all b in
        Inr (RowDescription \<lparr>rd_storage = storage, rd_len = len\<rparr>, b))
      else if tag = READY_FOR_QUERY_TAG then
        bind_res (read_u8 b) (\<lambda>(status, b). Inr (ReadyForQuery status, b))
      else if tag = NEGOTIATE_PROTOCOL_VERSION_TAG then
        bind_res (read_i32 b) (\<lambda>(newest_minor, b).
        bind_res (read_i32 b) (\<lambda>(unrecognized_count, b).
        bind_res (skip_cstrs (nat (sint unrecognized_count)) b) (\<lambda>b.
        Inr (NegotiateProtocolVersion, b))))
      else Inl (Io_Error InvalidInput (Msg (''unknown message tag `'' @ show_nat (unat tag) @ ''`''))))"

definition parse_with_mode :: "bytes \<Rightarrow> auth_mode \<Rightarrow> (io_error + message option) \<times> bytes" where
  "parse_with_mode buf mode =
     (if length buf < 5 then (Inr None, buf)
      else
        let tag = buf ! 0; len = (word_be (take 4 (drop 1 buf)) :: u32) in
        if unat len < 4
        then (Inl (Io_Error InvalidInput (Msg ''invalid message length: parsing u32'')), buf)
        else
          let total_len = unat len + 1 in
          if length buf < total_len then (Inr None, buf)
          else
            (case parse_body mode tag (drop 5 (take total_len buf)) of
               Inl e \<Rightarrow> (Inl e, drop total_len buf)
             | Inr (message, rest) \<Rightarrow>
                 if rest \<noteq> []
                 then (Inl (Io_Error InvalidInput
                              (Msg ''invalid message length: expected buffer to be empty'')),
                       drop total_len buf)
                 else (Inr (Some message), drop total_len buf)))"

definition message_parse :: "bytes \<Rightarrow> (io_error + message option) \<times> bytes" where
  "message_parse buf = parse_with_mode buf Standard"

end
