(* ===== verification/Backend_Laws.thy ===== *)
theory Backend_Laws
  imports Backend
begin

text \<open>
  What the message parser promises: it consumes whole frames, its verdict on a frame does not
  depend on what follows, it accepts every well-formed message of the protocol and yields only
  well-formed ones. \<open>wf_message\<close> and \<open>message_wire\<close> are the specification: which messages a mode
  has, and the tag and body the server sends for each.
\<close>

section \<open>Frames\<close>

definition parse_outcome :: "(io_error + (message \<times> bytes)) \<Rightarrow> io_error + message option" where
  "parse_outcome r = (case r of
       Inl e \<Rightarrow> Inl e
     | Inr (m, rest) \<Rightarrow> if rest \<noteq> []
         then Inl (Io_Error InvalidInput (Msg ''invalid message length: expected buffer to be empty''))
         else Inr (Some m))"

lemma split_header:
  assumes "5 \<le> length buf"
  obtains t len r where "buf = t # be_word (len :: u32) @ r"
proof -
  obtain t s where s: "buf = t # s" "4 \<le> length s" using assms by (cases buf) auto
  let ?w = "word_be (take 4 s) :: u32"
  have "be_word ?w = take 4 s" using s by (intro be_word_word_be) simp_all
  then have "buf = t # be_word ?w @ drop 4 s" using s by simp
  then show ?thesis by (rule that)
qed

lemma header_read [simp]:
  "word_be (take 4 (drop 1 (t # be_word (len :: u32) @ r))) = len"
  by (simp add: word_be_be_word)

lemma parse_with_mode_eq:
  "parse_with_mode (t # be_word (len :: u32) @ r) mode =
     (if unat len < 4
      then (Inl (Io_Error InvalidInput (Msg ''invalid message length: parsing u32'')),
            t # be_word len @ r)
      else if length r < unat len - 4 then (Inr None, t # be_word len @ r)
      else (parse_outcome (parse_body mode t (take (unat len - 4) r)), drop (unat len - 4) r))"
  by (auto simp: parse_with_mode_def parse_outcome_def Let_def word_be_be_word take_Cons' drop_Cons'
      split: sum.splits prod.splits)

lemma parse_with_mode_short: "length buf < 5 \<Longrightarrow> parse_with_mode buf mode = (Inr None, buf)"
  by (simp add: parse_with_mode_def)

text \<open>The length field of a frame as an unsigned number.\<close>

definition max_frame :: nat where
  "max_frame = 4294967291"

lemma frame_header: "t # frame body @ r = t # be_word (of_nat (length body + 4) :: u32) @ (body @ r)"
  by (simp add: frame_def)

lemma unat_frame_len [simp]:
  "length body \<le> max_frame \<Longrightarrow> unat (of_nat (length body + 4) :: u32) = length body + 4"
  unfolding unat_of_nat by (simp add: max_frame_def)

lemma parse_frame:
  assumes "length body \<le> max_frame"
  shows "parse_with_mode (t # frame body @ r) mode = (parse_outcome (parse_body mode t body), r)"
  unfolding frame_header parse_with_mode_eq unat_frame_len [OF assms] by simp

text \<open>Every buffer is too short, malformed, incomplete, or starts with a complete frame.\<close>

lemma buffer_cases:
  obtains (short) "length buf < 5"
    | (bad) t len r where "buf = t # be_word (len :: u32) @ r" "unat len < 4"
    | (incomplete) t len r where "buf = t # be_word (len :: u32) @ r" "4 \<le> unat len"
        "length r < unat len - 4"
    | (complete) t body r where "buf = t # frame body @ r" "length body \<le> max_frame"
proof (cases "length buf < 5")
  case True
  then show ?thesis by (rule that(1))
next
  case False
  then have "5 \<le> length buf" by simp
  then obtain t len s where b: "buf = t # be_word (len :: u32) @ s" by (rule split_header)
  show ?thesis
  proof (cases "unat len < 4 \<or> length s < unat len - 4")
    case True
    with b that(2,3) show ?thesis by fastforce
  next
    case False
    define body where "body = take (unat len - 4) s"
    have len: "length body + 4 = unat len" and "4 \<le> unat len"
      using False by (auto simp: body_def min_def)
    then have w: "of_nat (length body + 4) = len" by simp
    have "unat len < 4294967296" using unsigned_less [of len, where ?'a = nat] by simp
    then have "length body \<le> max_frame" using len by (simp add: max_frame_def)
    moreover have "buf = t # frame body @ drop (unat len - 4) s"
      unfolding frame_header w b by (simp add: body_def)
    ultimately show ?thesis using that(4) by blast
  qed
qed

lemma parse_some_frame:
  "parse_with_mode buf mode = (Inr (Some m), rest) \<longleftrightarrow>
     (\<exists>t body. buf = t # frame body @ rest \<and> length body \<le> max_frame \<and>
        parse_body mode t body = Inr (m, []))"
  (is "?lhs \<longleftrightarrow> ?rhs")
proof
  assume ?lhs
  show ?rhs
  proof (cases rule: buffer_cases [of buf])
    case (complete t body r)
    with \<open>?lhs\<close> show ?thesis
      by (auto simp: parse_frame parse_outcome_def split: sum.splits prod.splits if_splits)
  qed (use \<open>?lhs\<close> in \<open>auto simp: parse_with_mode_short parse_with_mode_eq\<close>)
next
  assume ?rhs
  then show ?lhs by (auto simp: parse_frame parse_outcome_def)
qed

text \<open>
  Framing. A message comes out of the parser exactly when the buffer starts with a complete
  frame whose body parses and is used up; the parser then removes that frame, and nothing else, from
  the buffer.
\<close>

lemma parse_consumes_frame:
  "parse_with_mode buf mode = (Inr (Some m), rest) \<longleftrightarrow>
     (\<exists>t body. buf = t # frame body @ rest \<and> length body \<le> max_frame \<and>
        parse_body mode t body = Inr (m, []))"
  by (rule parse_some_frame)

text \<open>
  The verdict on a message does not depend on what has been received after it: unless the
  parser asks for more input, further input changes neither the message or error nor how much
  is consumed.
\<close>

lemma parse_stable:
  assumes "fst (parse_with_mode buf mode) \<noteq> Inr None"
  shows "parse_with_mode (buf @ ext) mode =
    (fst (parse_with_mode buf mode), snd (parse_with_mode buf mode) @ ext)"
proof (cases rule: buffer_cases [of buf])
  case short
  with assms show ?thesis by (simp add: parse_with_mode_short)
next
  case (bad t len r)
  then show ?thesis by (simp add: parse_with_mode_eq)
next
  case (incomplete t len r)
  with assms show ?thesis by (simp add: parse_with_mode_eq)
next
  case (complete t body r)
  then show ?thesis by (simp add: parse_frame)
qed

theorem parse_stable_witness:
  "parse_with_mode ([0x31, 0, 0, 0, 4] @ [7]) Standard = (Inr (Some ParseComplete), [7])"
proof -
  have eq: "[0x31, 0, 0, 0, 4] = 0x31 # frame [] @ []"
    by (simp add: frame_def wire_defs)
  have "parse_with_mode [0x31, 0, 0, 0, 4] Standard = (Inr (Some ParseComplete), [])"
    unfolding eq by (subst parse_frame) (simp_all add: max_frame_def parse_body_def parse_outcome_def)
  then show ?thesis by (subst parse_stable) simp_all
qed

lemma parse_none_keeps_buffer: "parse_with_mode buf mode = (Inr None, rest) \<Longrightarrow> rest = buf"
  by (cases rule: buffer_cases [of buf])
    (auto simp: parse_with_mode_short parse_with_mode_eq parse_frame parse_outcome_def
      split: sum.splits prod.splits if_splits)

section \<open>Messages\<close>

text \<open>The messages each mode can receive, with the sizes of their fixed parts.\<close>

definition wf_sha256 :: "sha256_body \<Rightarrow> bool" where
  "wf_sha256 s \<longleftrightarrow>
     (if sha_password_stored_method s = MD5_PASSWORD
      then sha_random64code s = None \<and> sha_token s = None \<and> sha_server_iteration s = None \<and>
           (\<exists>salt. sha_md5_salt s = Some salt \<and> length salt = 4)
      else (sha_password_stored_method s = SHA256_PASSWORD \<or>
            sha_password_stored_method s = PLAIN_PASSWORD) \<and>
           (\<exists>code. sha_random64code s = Some code \<and> length code = 64) \<and>
           (\<exists>token. sha_token s = Some token \<and> length token = 8) \<and>
           (\<exists>iteration. sha_server_iteration s = Some iteration) \<and> sha_md5_salt s = None)"

definition wf_message :: "auth_mode \<Rightarrow> message \<Rightarrow> bool" where
  "wf_message mode m = (case m of
       AuthenticationMd5Password salt \<Rightarrow> length salt = 4
     | AuthenticationSasl s \<Rightarrow> mode = Standard
     | AuthenticationSaslContinue s \<Rightarrow> mode = Standard
     | AuthenticationSha256Password s \<Rightarrow> mode = OpenGauss \<and> wf_sha256 s
     | AuthenticationMd5Sha256Password s \<Rightarrow>
         mode = OpenGauss \<and> length (ms_salt s) = 64 \<and> length (ms_md5_salt s) = 4
     | AuthenticationSm3Password s \<Rightarrow>
         mode = OpenGauss \<and> length (sm3_random64code s) = 64 \<and> length (sm3_token s) = 8
     | CommandComplete t \<Rightarrow> 0 \<notin> set t
     | NotificationResponse n \<Rightarrow> 0 \<notin> set (nr_channel n) \<and> 0 \<notin> set (nr_message n)
     | ParameterStatus p \<Rightarrow> 0 \<notin> set (ps_name p) \<and> 0 \<notin> set (ps_value p)
     | _ \<Rightarrow> True)"

definition auth_wire :: "i32 \<Rightarrow> bytes \<Rightarrow> u8 \<times> bytes" where
  "auth_wire code rest = (AUTHENTICATION_TAG, be_word code @ rest)"

definition sha256_wire :: "sha256_body \<Rightarrow> bytes" where
  "sha256_wire s =
     be_word (sha_password_stored_method s) @
     (case sha_md5_salt s of
        Some salt \<Rightarrow> salt
      | None \<Rightarrow> the (sha_random64code s) @ the (sha_token s) @ be_word (the (sha_server_iteration s)))"

definition message_wire :: "message \<Rightarrow> u8 \<times> bytes" where
  "message_wire m = (case m of
       AuthenticationOk \<Rightarrow> auth_wire 0 []
     | AuthenticationKerberosV5 \<Rightarrow> auth_wire 2 []
     | AuthenticationCleartextPassword \<Rightarrow> auth_wire 3 []
     | AuthenticationMd5Password salt \<Rightarrow> auth_wire 5 salt
     | AuthenticationScmCredential \<Rightarrow> auth_wire 6 []
     | AuthenticationGss \<Rightarrow> auth_wire 7 []
     | AuthenticationGssContinue s \<Rightarrow> auth_wire 8 s
     | AuthenticationSspi \<Rightarrow> auth_wire 9 []
     | AuthenticationSasl s \<Rightarrow> auth_wire 10 s
     | AuthenticationSha256Password s \<Rightarrow> auth_wire 10 (sha256_wire s)
     | AuthenticationSaslContinue s \<Rightarrow> auth_wire 11 s
     | AuthenticationMd5Sha256Password s \<Rightarrow> auth_wire 11 (ms_salt s @ ms_md5_salt s)
     | AuthenticationSaslFinal s \<Rightarrow> auth_wire 12 s
     | AuthenticationSm3Password s \<Rightarrow> auth_wire 13
         (be_word (sm3_password_stored_method s) @ sm3_random64code s @ sm3_token s
            @ be_word (sm3_server_iteration s))
     | BackendKeyData b \<Rightarrow>
         (BACKEND_KEY_DATA_TAG, be_word (bk_process_id b) @ be_word (bk_secret_key b))
     | BindComplete \<Rightarrow> (BIND_COMPLETE_TAG, [])
     | CloseComplete \<Rightarrow> (CLOSE_COMPLETE_TAG, [])
     | CommandComplete t \<Rightarrow> (COMMAND_COMPLETE_TAG, cstr_bytes t)
     | CopyData s \<Rightarrow> (COPY_DATA_TAG, s)
     | CopyDone \<Rightarrow> (COPY_DONE_TAG, [])
     | CopyInResponse c \<Rightarrow> (COPY_IN_RESPONSE_TAG, ci_format c # be_word (ci_len c) @ ci_storage c)
     | CopyOutResponse c \<Rightarrow> (COPY_OUT_RESPONSE_TAG, co_format c # be_word (co_len c) @ co_storage c)
     | DataRow d \<Rightarrow> (DATA_ROW_TAG, be_word (dr_len d) @ dr_storage d)
     | EmptyQueryResponse \<Rightarrow> (EMPTY_QUERY_RESPONSE_TAG, [])
     | ErrorResponse s \<Rightarrow> (ERROR_RESPONSE_TAG, s)
     | NoData \<Rightarrow> (NO_DATA_TAG, [])
     | NoticeResponse s \<Rightarrow> (NOTICE_RESPONSE_TAG, s)
     | NotificationResponse n \<Rightarrow> (NOTIFICATION_RESPONSE_TAG,
         be_word (nr_process_id n) @ cstr_bytes (nr_channel n) @ cstr_bytes (nr_message n))
     | ParameterDescription p \<Rightarrow> (PARAMETER_DESCRIPTION_TAG, be_word (pd_len p) @ pd_storage p)
     | ParameterStatus p \<Rightarrow> (PARAMETER_STATUS_TAG, cstr_bytes (ps_name p) @ cstr_bytes (ps_value p))
     | ParseComplete \<Rightarrow> (PARSE_COMPLETE_TAG, [])
     | PortalSuspended \<Rightarrow> (PORTAL_SUSPENDED_TAG, [])
     | ReadyForQuery status \<Rightarrow> (READY_FOR_QUERY_TAG, [status])
     | RowDescription r \<Rightarrow> (ROW_DESCRIPTION_TAG, be_word (rd_len r) @ rd_storage r)
     | NegotiateProtocolVersion \<Rightarrow>
         (NEGOTIATE_PROTOCOL_VERSION_TAG, be_word (0 :: i32) @ be_word (0 :: i32)))"

lemma read_exact_all [simp]: "read_exact n x = Inr (x, []) \<longleftrightarrow> length x = n"
  by (auto simp: read_exact_def)

lemma read_cstr_end [simp]: "0 \<notin> set s \<Longrightarrow> read_cstr (cstr_bytes s) = Inr (s, [])"
  using read_cstr_append [of s "[]"] by simp

lemma parse_sha256_wire:
  "wf_sha256 s \<Longrightarrow> parse_sha256 (sha256_wire s) = Inr (AuthenticationSha256Password s, [])"
  by (cases s) (auto simp: wf_sha256_def sha256_wire_def parse_sha256_def read_exact_all [THEN iffD2]
      split: if_splits)

lemma parse_auth_wire:
  assumes "wf_message mode m" "fst (message_wire m) = AUTHENTICATION_TAG"
  shows "parse_auth mode (snd (message_wire m)) = Inr (m, [])"
  using assms
  by (cases m)
    (simp_all add: wf_message_def message_wire_def auth_wire_def parse_auth_def read_all_def
      parse_sha256_wire read_exact_all [THEN iffD2] del: bind_res_Inr)

lemma parse_body_wire:
  assumes "wf_message mode m"
  shows "parse_body mode (fst (message_wire m)) (snd (message_wire m)) = Inr (m, [])"
proof (cases "fst (message_wire m) = AUTHENTICATION_TAG")
  case True
  with parse_auth_wire [OF assms True] show ?thesis by (simp add: parse_body_def)
next
  case False
  with assms show ?thesis
    by (cases m) (simp_all add: wf_message_def message_wire_def auth_wire_def parse_body_def
        read_all_def del: bind_res_Inr)
qed

text \<open>
  C2: round trip. Every well-formed message of the mode, framed as the server sends it and followed
  by any further input, is parsed to itself, and the further input is left.
\<close>

theorem parse_message_wire:
  assumes "wf_message mode m" "message_wire m = (t, body)" "length body \<le> max_frame"
  shows "parse_with_mode (t # frame body @ rest) mode = (Inr (Some m), rest)"
  using parse_body_wire [OF assms(1)] assms(2,3) by (simp add: parse_frame parse_outcome_def)

theorem parse_message_wire_witness:
  "parse_with_mode (PARAMETER_STATUS_TAG # frame (cstr_bytes [97] @ cstr_bytes [98]) @ [1]) OpenGauss =
     (Inr (Some (ParameterStatus \<lparr>ps_name = [97], ps_value = [98]\<rparr>)), [1])"
  by (rule parse_message_wire) (simp_all add: wf_message_def message_wire_def cstr_bytes_def max_frame_def)


lemma parse_sha256_wf:
  "parse_sha256 b = Inr (m, r) \<Longrightarrow> \<exists>s. m = AuthenticationSha256Password s \<and> wf_sha256 s \<and> b = sha256_wire s @ r"
  by (auto simp: parse_sha256_def wf_sha256_def sha256_wire_def read_be_Inr read_exact_Inr
      split: if_splits)

lemma not_OpenGauss [simp]: "mode \<noteq> OpenGauss \<longleftrightarrow> mode = Standard"
  by (cases mode) simp_all

lemma parse_auth_wf:
  assumes "parse_auth mode b = Inr (m, r)"
  shows "wf_message mode m \<and> message_wire m = (AUTHENTICATION_TAG, take (length b - length r) b)"
proof -
  obtain code c where b: "b = be_word (code :: i32) @ c" and
    "(if code = 10 \<and> mode = OpenGauss then parse_sha256 c = Inr (m, r)
      else parse_auth mode (be_word code @ c) = Inr (m, r))"
    using assms by (auto simp: parse_auth_def read_be_Inr split: if_splits)
  show ?thesis
  proof (cases "code = 10 \<and> mode = OpenGauss")
    case True
    then have "parse_sha256 c = Inr (m, r)" using assms by (simp add: b parse_auth_def del: bind_res_Inr)
    then obtain s where "m = AuthenticationSha256Password s" "wf_sha256 s" "c = sha256_wire s @ r"
      by (blast dest: parse_sha256_wf)
    with True b show ?thesis by (simp add: wf_message_def message_wire_def auth_wire_def)
  next
    case False
    with assms show ?thesis
      by (auto simp: b parse_auth_def read_all_def wf_message_def message_wire_def auth_wire_def
          read_exact_Inr read_be_Inr split: if_splits)
  qed
qed

lemma parse_body_wf:
  assumes "parse_body mode t b = Inr (m, r)"
  shows "wf_message mode m"
proof (cases "t = AUTHENTICATION_TAG")
  case True
  with assms show ?thesis using parse_auth_wf by (simp add: parse_body_def)
next
  case False
  with assms show ?thesis
    by (auto simp: parse_body_def read_all_def wf_message_def cstr.rd_iff split: if_splits)
qed

text \<open>
  The parser yields only messages of the mode, with fixed-size parts of the right size and names
  without NUL: what the rest of the client may assume about a received message.
\<close>

lemma parse_yields_wf:
  assumes "parse_with_mode buf mode = (Inr (Some m), rest)"
  shows "wf_message mode m"
  using assms parse_body_wf unfolding parse_some_frame by blast

theorem parse_yields_wf_witness: "wf_message Standard (CommandComplete [79, 75])"
proof (rule parse_yields_wf)
  show "parse_with_mode (COMMAND_COMPLETE_TAG # frame (cstr_bytes [79, 75]) @ []) Standard =
      (Inr (Some (CommandComplete [79, 75])), [])"
    by (subst parse_frame) (simp_all add: max_frame_def cstr_bytes_def parse_body_def
        parse_outcome_def read_cstr_def)
qed

text \<open>
  Apart from the two messages whose body the parser does not keep (the trailing bytes of
  BackendKeyData, the options of NegotiateProtocolVersion), a message determines the bytes it came
  from.
\<close>

lemma parse_body_exact:
  assumes "parse_body mode t b = Inr (m, [])" "t \<noteq> BACKEND_KEY_DATA_TAG"
    "t \<noteq> NEGOTIATE_PROTOCOL_VERSION_TAG"
  shows "message_wire m = (t, b)"
proof (cases "t = AUTHENTICATION_TAG")
  case True
  with assms(1) parse_auth_wf [of mode b m "[]"] show ?thesis by (simp add: parse_body_def)
next
  case False
  with assms show ?thesis
    by (auto simp: parse_body_def read_all_def message_wire_def cstr.rd_iff read_be_Inr
        split: if_splits)
qed

text \<open>
  The authentication mode changes the reading of nothing but the authentication requests 10, 11
  and 13: every other message, and every malformed one, is parsed alike in both modes.
\<close>

lemma mode_only_affects_auth:
  assumes "parse_body Standard t b \<noteq> parse_body OpenGauss t b"
  shows "t = AUTHENTICATION_TAG \<and> (\<exists>code r. b = be_word (code :: i32) @ r \<and> code \<in> {10, 11, 13})"
proof -
  have t: "t = AUTHENTICATION_TAG"
    using assms by (rule contrapos_np) (simp add: parse_body_def del: bind_res_Inr)
  with assms have ne: "parse_auth Standard b \<noteq> parse_auth OpenGauss b"
    by (simp add: parse_body_def)
  show ?thesis
  proof (cases "read_i32 b")
    case (Inl e)
    with ne show ?thesis by (simp add: parse_auth_def)
  next
    case (Inr p)
    then obtain code r where rd: "read_i32 b = Inr (code, r)" by (cases p) auto
    with ne have "code \<in> {10, 11, 13}" by (auto simp: parse_auth_def split: if_splits)
    with rd t show ?thesis by (auto simp: read_be_Inr)
  qed
qed

theorem mode_only_affects_auth_witness:
  "AUTHENTICATION_TAG = AUTHENTICATION_TAG \<and>
   (\<exists>code r. be_word (10 :: i32) @ [] = be_word (code :: i32) @ r \<and> code \<in> {10, 11, 13})"
proof (rule mode_only_affects_auth)
  have "parse_body Standard AUTHENTICATION_TAG (be_word (10 :: i32) @ []) = Inr (AuthenticationSasl [], [])"
    by (simp add: parse_body_def parse_auth_def read_all_def del: bind_res_Inr)
  moreover have "parse_body OpenGauss AUTHENTICATION_TAG (be_word (10 :: i32) @ []) = Inl fill_error"
    using read_be_Inl [of "[]" fill_error, where ?'a = 32]
    by (simp add: parse_body_def parse_auth_def parse_sha256_def del: bind_res_Inr)
  ultimately show "parse_body Standard AUTHENTICATION_TAG (be_word (10 :: i32) @ []) \<noteq>
      parse_body OpenGauss AUTHENTICATION_TAG (be_word (10 :: i32) @ [])" by simp
qed

end
