(* ===== verification/Backend_Bodies.thy ===== *)
theory Backend_Bodies
  imports Backend_Laws
begin

text \<open>
  The iterators over message bodies (second half of \<open>message/backend.rs\<close>) and the string accessors.
  Each iterator is a record of its fields and a \<open>next\<close> on it; an interpretation of
  \<open>iter_source\<close> shows that it returns the items the server encoded, and that draining it
  ends on every input.
\<close>

section \<open>Helpers of the iterators\<close>

definition find_null :: "bytes \<Rightarrow> nat \<Rightarrow> io_error + nat" where
  "find_null buf start =
     (case memchr 0 (drop start buf) of
        Some pos \<Rightarrow> Inr (pos + start)
      | None \<Rightarrow> Inl eof_error)"

definition get_str :: "bytes \<Rightarrow> io_error + bytes" where
  "get_str buf = (if utf8_valid buf then Inr buf else Inl (Io_Error InvalidInput Utf8_Error))"

text \<open>The string accessors of the bodies.\<close>

definition command_complete_tag :: "bytes \<Rightarrow> io_error + bytes" where
  "command_complete_tag t = get_str t"

definition notification_channel :: "notification_response_body \<Rightarrow> io_error + bytes" where
  "notification_channel body = get_str (nr_channel body)"

definition notification_message :: "notification_response_body \<Rightarrow> io_error + bytes" where
  "notification_message body = get_str (nr_message body)"

definition parameter_status_name :: "parameter_status_body \<Rightarrow> io_error + bytes" where
  "parameter_status_name body = get_str (ps_name body)"

definition parameter_status_value :: "parameter_status_body \<Rightarrow> io_error + bytes" where
  "parameter_status_value body = get_str (ps_value body)"

section \<open>The iterators\<close>

definition sasl_mechanisms_next :: "(bytes, io_error, bytes) iter_next" where
  "sasl_mechanisms_next b =
     bind_res (find_null b 0) (\<lambda>value_end.
     if value_end = 0 then
       (if length b \<noteq> 1
        then Inl (Io_Error InvalidData
               (Msg ''invalid message length: expected to be at end of iterator for sasl''))
        else Inr (None, b))
     else
       bind_res (get_str (take value_end b)) (\<lambda>value.
       Inr (Some value, drop (value_end + 1) b)))"

record column_formats =
  cf_buf :: bytes
  cf_remaining :: u16

definition copy_in_column_formats :: "copy_in_response_body \<Rightarrow> column_formats" where
  "copy_in_column_formats body = \<lparr>cf_buf = ci_storage body, cf_remaining = ci_len body\<rparr>"

definition copy_out_column_formats :: "copy_out_response_body \<Rightarrow> column_formats" where
  "copy_out_column_formats body = \<lparr>cf_buf = co_storage body, cf_remaining = co_len body\<rparr>"

definition column_formats_next :: "(column_formats, io_error, u16) iter_next" where
  "column_formats_next s =
     (if cf_remaining s = 0 then
        (if cf_buf s = [] then Inr (None, s)
         else Inl (Io_Error InvalidInput (Msg ''invalid message length: wrong column formats'')))
      else
        bind_res (read_u16 (cf_buf s)) (\<lambda>(v, b).
        Inr (Some v, \<lparr>cf_buf = b, cf_remaining = cf_remaining s - 1\<rparr>)))"

text \<open>A row's values are ranges of its storage; NULL is \<open>None\<close>.\<close>

record data_row_ranges =
  drr_buf :: bytes
  drr_len :: nat
  drr_remaining :: u16

definition data_row_body_ranges :: "data_row_body \<Rightarrow> data_row_ranges" where
  "data_row_body_ranges body =
     \<lparr>drr_buf = dr_storage body, drr_len = length (dr_storage body), drr_remaining = dr_len body\<rparr>"

definition data_row_ranges_next :: "(data_row_ranges, io_error, (nat \<times> nat) option) iter_next" where
  "data_row_ranges_next s =
     (if drr_remaining s = 0 then
        (if drr_buf s = [] then Inr (None, s)
         else Inl (Io_Error InvalidInput (Msg ''invalid message length: datarowrange is not empty'')))
      else
        (let s = s\<lparr>drr_remaining := drr_remaining s - 1\<rparr> in
         bind_res (read_i32 (drr_buf s)) (\<lambda>(len, b).
         let s = s\<lparr>drr_buf := b\<rparr> in
         if sint len < 0 then Inr (Some None, s)
         else
           let len = unat len in
           if length (drr_buf s) < len then Inl eof_error
           else
             let base = drr_len s - length (drr_buf s) in
             Inr (Some (Some (base, base + len)), s\<lparr>drr_buf := drop len (drr_buf s)\<rparr>))))"

record error_field =
  ef_type :: u8
  ef_value :: bytes

definition error_fields_next :: "(bytes, io_error, error_field) iter_next" where
  "error_fields_next b =
     bind_res (read_u8 b) (\<lambda>(type, b).
     if type = 0 then
       (if b = [] then Inr (None, b)
        else Inl (Io_Error InvalidInput (Msg ''invalid message length: error fields is not drained'')))
     else
       bind_res (find_null b 0) (\<lambda>value_end.
       let value = take value_end b in
       Inr (Some \<lparr>ef_type = type, ef_value = value\<rparr>, drop (value_end + 1) b)))"

record parameters =
  pm_buf :: bytes
  pm_remaining :: u16

definition parameter_description_parameters :: "parameter_description_body \<Rightarrow> parameters" where
  "parameter_description_parameters body = \<lparr>pm_buf = pd_storage body, pm_remaining = pd_len body\<rparr>"

definition parameters_next :: "(parameters, io_error, oid) iter_next" where
  "parameters_next s =
     (if pm_remaining s = 0 then
        (if pm_buf s = [] then Inr (None, s)
         else Inl (Io_Error InvalidInput (Msg ''invalid message length: parameters is not drained'')))
      else
        bind_res (read_u32 (pm_buf s)) (\<lambda>(v, b).
        Inr (Some v, \<lparr>pm_buf = b, pm_remaining = pm_remaining s - 1\<rparr>)))"

record field =
  fd_name :: bytes
  fd_table_oid :: oid
  fd_column_id :: i16
  fd_type_oid :: oid
  fd_type_size :: i16
  fd_type_modifier :: i32
  fd_format :: i16

record fields =
  fs_buf :: bytes
  fs_remaining :: u16

definition row_description_fields :: "row_description_body \<Rightarrow> fields" where
  "row_description_fields body = \<lparr>fs_buf = rd_storage body, fs_remaining = rd_len body\<rparr>"

definition fields_next :: "(fields, io_error, field) iter_next" where
  "fields_next s =
     (if fs_remaining s = 0 then
        (if fs_buf s = [] then Inr (None, s)
         else Inl (Io_Error InvalidInput (Msg ''invalid message length: field is not drained'')))
      else
        (let b = fs_buf s in
         bind_res (find_null b 0) (\<lambda>name_end.
         bind_res (get_str (take name_end b)) (\<lambda>name.
         let b = drop (name_end + 1) b in
         bind_res (read_u32 b) (\<lambda>(table_oid, b).
         bind_res (read_i16 b) (\<lambda>(column_id, b).
         bind_res (read_u32 b) (\<lambda>(type_oid, b).
         bind_res (read_i16 b) (\<lambda>(type_size, b).
         bind_res (read_i32 b) (\<lambda>(type_modifier, b).
         bind_res (read_i16 b) (\<lambda>(format, b).
         Inr (Some \<lparr>fd_name = name, fd_table_oid = table_oid, fd_column_id = column_id,
                    fd_type_oid = type_oid, fd_type_size = type_size,
                    fd_type_modifier = type_modifier, fd_format = format\<rparr>,
              \<lparr>fs_buf = b, fs_remaining = fs_remaining s - 1\<rparr>))))))))))) "

section \<open>Every iterator ends\<close>

lemma find_null_Inr:
  "find_null b 0 = Inr n \<longleftrightarrow> memchr 0 b = Some n"
  by (cases "memchr 0 b") (simp_all add: find_null_def del: memchr_None)

lemma find_null_cstr [simp]: "0 \<notin> set s \<Longrightarrow> find_null (cstr_bytes s @ r) 0 = Inr (length s)"
  by (simp add: find_null_Inr cstr_bytes_def)

lemma find_null_less: "find_null b 0 = Inr n \<Longrightarrow> n < length b"
  by (simp add: find_null_Inr memchr_Some)

lemma get_str_Inr [simp]: "get_str b = Inr s \<longleftrightarrow> s = b \<and> utf8_valid b"
  by (auto simp: get_str_def)

lemma get_str_ok [simp]: "utf8_valid b \<Longrightarrow> get_str b = Inr b"
  by simp

lemma take_drop_cstr [simp]:
  "take (length s) (cstr_bytes s @ r) = s"
  "drop (Suc (length s)) (cstr_bytes s @ r) = r"
  by (simp_all add: cstr_bytes_def)

lemma nullable_bytes_simps:
  "nullable_bytes None = be_word (- 1 :: i32)"
  "nullable_bytes (Some d) = be_word (of_nat (length d) :: i32) @ d"
  by (simp_all add: nullable_bytes_def)

text \<open>A reader that succeeds consumed exactly the width of its integer.\<close>

lemma read_be_length:
  "8 dvd LENGTH('a::len) \<Longrightarrow> read_be b = Inr (w :: 'a word, r) \<Longrightarrow> length b = length r + LENGTH('a) div 8"
  by (simp add: read_be_Inr)

interpretation sasl_iter: fallible_iter sasl_mechanisms_next length
proof
  fix s x s'
  assume "sasl_mechanisms_next s = Inr (Some x, s')"
  then show "length s' < length s"
    by (auto simp: sasl_mechanisms_next_def dest!: find_null_less split: if_splits)
qed

interpretation column_iter: fallible_iter column_formats_next "\<lambda>s. length (cf_buf s)"
  by unfold_locales (auto simp: column_formats_next_def dest!: read_be_length [rotated] split: if_splits)

interpretation row_iter: fallible_iter data_row_ranges_next "\<lambda>s. length (drr_buf s)"
  by unfold_locales
    (auto simp: data_row_ranges_next_def Let_def dest!: read_be_length [rotated] split: if_splits)

interpretation error_iter: fallible_iter error_fields_next length
proof
  fix s x s'
  assume "error_fields_next s = Inr (Some x, s')"
  then show "length s' < length s"
    by (cases s) (auto simp: error_fields_next_def Let_def dest!: find_null_less split: if_splits)
qed

interpretation param_iter: fallible_iter parameters_next "\<lambda>s. length (pm_buf s)"
  by unfold_locales (auto simp: parameters_next_def dest!: read_be_length [rotated] split: if_splits)

interpretation field_iter: fallible_iter fields_next "\<lambda>s. length (fs_buf s)"
proof
  fix s x s'
  assume "fields_next s = Inr (Some x, s')"
  then show "length (fs_buf s') < length (fs_buf s)"
    by (auto simp: fields_next_def Let_def dest!: find_null_less read_be_length [rotated]
        split: if_splits)
qed

text \<open>
  Draining any of the body iterators ends on every input, within one step per byte and one
  more: a malicious server cannot make the client loop.
\<close>

lemma body_iterators_end:
  "(\<exists>r. collect (Suc (length b)) sasl_mechanisms_next b = Some r) \<and>
   (\<exists>r. collect (Suc (length b)) error_fields_next b = Some r) \<and>
   (\<exists>r. collect (Suc (length b)) column_formats_next \<lparr>cf_buf = b, cf_remaining = n\<rparr> = Some r) \<and>
   (\<exists>r. collect (Suc (length b)) parameters_next \<lparr>pm_buf = b, pm_remaining = n\<rparr> = Some r) \<and>
   (\<exists>r. collect (Suc (length b)) fields_next \<lparr>fs_buf = b, fs_remaining = n\<rparr> = Some r) \<and>
   (\<exists>r. collect (Suc (length b)) data_row_ranges_next
          \<lparr>drr_buf = b, drr_len = l, drr_remaining = n\<rparr> = Some r)"
  by (intro conjI sasl_iter.collect_total error_iter.collect_total column_iter.collect_total
      param_iter.collect_total field_iter.collect_total row_iter.collect_total) simp_all


section \<open>Every iterator returns what the server sent\<close>

definition mk_sasl :: "bytes list \<Rightarrow> bytes" where
  "mk_sasl ms = concat (map cstr_bytes ms) @ [0]"

definition mechanism_ok :: "bytes \<Rightarrow> bool" where
  "mechanism_ok m \<longleftrightarrow> m \<noteq> [] \<and> 0 \<notin> set m \<and> utf8_valid m"

definition mk_formats :: "u16 list \<Rightarrow> column_formats" where
  "mk_formats xs = \<lparr>cf_buf = concat (map be_word xs), cf_remaining = of_nat (length xs)\<rparr>"

definition mk_parameters :: "oid list \<Rightarrow> parameters" where
  "mk_parameters xs = \<lparr>pm_buf = concat (map be_word xs), pm_remaining = of_nat (length xs)\<rparr>"

definition error_field_bytes :: "error_field \<Rightarrow> bytes" where
  "error_field_bytes f = ef_type f # cstr_bytes (ef_value f)"

definition error_field_ok :: "error_field \<Rightarrow> bool" where
  "error_field_ok f \<longleftrightarrow> ef_type f \<noteq> 0 \<and> 0 \<notin> set (ef_value f)"

definition mk_errors :: "error_field list \<Rightarrow> bytes" where
  "mk_errors fs = concat (map error_field_bytes fs) @ [0]"

definition field_bytes :: "field \<Rightarrow> bytes" where
  "field_bytes f =
     cstr_bytes (fd_name f) @ be_word (fd_table_oid f) @ be_word (fd_column_id f) @
     be_word (fd_type_oid f) @ be_word (fd_type_size f) @ be_word (fd_type_modifier f) @
     be_word (fd_format f)"

definition field_ok :: "field \<Rightarrow> bool" where
  "field_ok f \<longleftrightarrow> 0 \<notin> set (fd_name f) \<and> utf8_valid (fd_name f)"

definition mk_fields :: "field list \<Rightarrow> fields" where
  "mk_fields fs = \<lparr>fs_buf = concat (map field_bytes fs), fs_remaining = of_nat (length fs)\<rparr>"

text \<open>Counters of at most 65535 items count down to zero without wrapping.\<close>

lemma of_nat_Suc_u16:
  "Suc n \<le> 65535 \<Longrightarrow> (of_nat (Suc n) :: u16) \<noteq> 0 \<and> of_nat (Suc n) - 1 = (of_nat n :: u16)"
proof -
  assume n: "Suc n \<le> 65535"
  have "(of_nat (Suc n) :: u16) \<noteq> 0"
  proof
    assume "(of_nat (Suc n) :: u16) = 0"
    then have "unat (of_nat (Suc n) :: u16) = 0" by (simp only: unsigned_0)
    with n show False by (simp only: unat_of_nat_u16)
  qed
  then show ?thesis by simp
qed

interpretation sasl_source: iter_source sasl_mechanisms_next length mk_sasl "list_all mechanism_ok"
proof
  show "\<exists>s. sasl_mechanisms_next (mk_sasl []) = Inr (None, s)"
    by (simp add: sasl_mechanisms_next_def mk_sasl_def find_null_def)
next
  fix x xs
  assume ok: "list_all mechanism_ok (x # xs)"
  then have "sasl_mechanisms_next (cstr_bytes x @ mk_sasl xs) = Inr (Some x, mk_sasl xs)"
    by (simp add: sasl_mechanisms_next_def mechanism_ok_def del: take_append drop_append)
  with ok show "sasl_mechanisms_next (mk_sasl (x # xs)) = Inr (Some x, mk_sasl xs) \<and>
      list_all mechanism_ok xs"
    by (simp add: mk_sasl_def)
qed

interpretation column_source: iter_source column_formats_next "\<lambda>s. length (cf_buf s)" mk_formats
  "\<lambda>xs. length xs \<le> 65535"
proof
  fix x :: u16 and xs
  assume "length (x # xs) \<le> 65535"
  then show "column_formats_next (mk_formats (x # xs)) = Inr (Some x, mk_formats xs) \<and>
      length xs \<le> 65535"
    using of_nat_Suc_u16 [of "length xs"]
    by (simp add: column_formats_next_def mk_formats_def del: of_nat_Suc)
qed (simp add: column_formats_next_def mk_formats_def)

interpretation param_source: iter_source parameters_next "\<lambda>s. length (pm_buf s)" mk_parameters
  "\<lambda>xs. length xs \<le> 65535"
proof
  fix x :: oid and xs
  assume "length (x # xs) \<le> 65535"
  then show "parameters_next (mk_parameters (x # xs)) = Inr (Some x, mk_parameters xs) \<and>
      length xs \<le> 65535"
    using of_nat_Suc_u16 [of "length xs"]
    by (simp add: parameters_next_def mk_parameters_def del: of_nat_Suc)
qed (simp add: parameters_next_def mk_parameters_def)

interpretation error_source: iter_source error_fields_next length mk_errors "list_all error_field_ok"
proof
  show "\<exists>s. error_fields_next (mk_errors []) = Inr (None, s)"
    by (simp add: error_fields_next_def mk_errors_def)
next
  fix x xs
  assume ok: "list_all error_field_ok (x # xs)"
  then have "error_fields_next (error_field_bytes x @ mk_errors xs) = Inr (Some x, mk_errors xs)"
    by (simp add: error_fields_next_def error_field_ok_def error_field_bytes_def
        del: take_append drop_append)
  with ok show "error_fields_next (mk_errors (x # xs)) = Inr (Some x, mk_errors xs) \<and>
      list_all error_field_ok xs"
    by (simp add: mk_errors_def)
qed

interpretation field_source: iter_source fields_next "\<lambda>s. length (fs_buf s)" mk_fields
  "\<lambda>fs. length fs \<le> 65535 \<and> list_all field_ok fs"
proof
  fix x xs
  assume ok: "length (x # xs) \<le> 65535 \<and> list_all field_ok (x # xs)"
  then show "fields_next (mk_fields (x # xs)) = Inr (Some x, mk_fields xs) \<and>
      (length xs \<le> 65535 \<and> list_all field_ok xs)"
    using of_nat_Suc_u16 [of "length xs"]
    by (simp add: fields_next_def mk_fields_def field_bytes_def field_ok_def
        del: of_nat_Suc bind_res_Inr take_append drop_append)
qed (simp add: fields_next_def mk_fields_def)

text \<open>
  The metadata iterators invert the server's encodings: the mechanisms of a SASL request, the
  column formats of COPY, the parameter types of a statement, the fields of an error and the columns
  of a row description are returned complete and in order.
\<close>

lemma body_iterators_roundtrip:
  assumes "list_all mechanism_ok ms" "length formats \<le> 65535" "length oids \<le> 65535"
    "list_all error_field_ok errs" "length cols \<le> 65535" "list_all field_ok cols"
  shows "collect (Suc (length (mk_sasl ms))) sasl_mechanisms_next (mk_sasl ms) = Some (Inr ms) \<and>
    collect (Suc (length (cf_buf (mk_formats formats)))) column_formats_next (mk_formats formats) =
      Some (Inr formats) \<and>
    collect (Suc (length (pm_buf (mk_parameters oids)))) parameters_next (mk_parameters oids) =
      Some (Inr oids) \<and>
    collect (Suc (length (mk_errors errs))) error_fields_next (mk_errors errs) = Some (Inr errs) \<and>
    collect (Suc (length (fs_buf (mk_fields cols)))) fields_next (mk_fields cols) = Some (Inr cols)"
  using assms
  by (intro conjI sasl_source.collect_mk_sz column_source.collect_mk_sz param_source.collect_mk_sz
      error_source.collect_mk_sz field_source.collect_mk_sz) simp_all

theorem body_iterators_roundtrip_witness:
  "collect (Suc (length (mk_sasl [[65], [66]]))) sasl_mechanisms_next (mk_sasl [[65], [66]]) =
     Some (Inr [[65], [66]])"
proof -
  have "list_all mechanism_ok [[65], [66]]"
    by (simp add: mechanism_ok_def utf8_valid_ascii)
  from body_iterators_roundtrip [OF this, of "[]" "[]" "[]" "[]"] show ?thesis by simp
qed

section \<open>Rows\<close>

text \<open>The values a list of ranges selects in the storage.\<close>

definition row_value :: "bytes \<Rightarrow> (nat \<times> nat) option \<Rightarrow> bytes option" where
  "row_value storage r = map_option (\<lambda>(a, b). take (b - a) (drop a storage)) r"

text \<open>The ranges of the values \<open>vs\<close> when the first one starts at offset \<open>off\<close>.\<close>

fun ranges_of :: "nat \<Rightarrow> bytes option list \<Rightarrow> (nat \<times> nat) option list" where
  "ranges_of off [] = []"
| "ranges_of off (None # vs) = None # ranges_of (off + 4) vs"
| "ranges_of off (Some d # vs) = Some (off + 4, off + 4 + length d) # ranges_of (off + 4 + length d) vs"

lemma row_value_simps [simp]:
  "row_value storage None = None"
  "row_value storage (Some (a, b)) = Some (take (b - a) (drop a storage))"
  by (simp_all add: row_value_def)

lemma row_step:
  assumes "n < 65535"
  shows "data_row_ranges_next \<lparr>drr_buf = nullable_bytes None @ r, drr_len = len, drr_remaining = of_nat (Suc n)\<rparr>
      = Inr (Some None, \<lparr>drr_buf = r, drr_len = len, drr_remaining = of_nat n\<rparr>)"
    and "length d \<le> 2147483647 \<Longrightarrow> len = off + 4 + length d + length r \<Longrightarrow>
      data_row_ranges_next \<lparr>drr_buf = nullable_bytes (Some d) @ r, drr_len = len, drr_remaining = of_nat (Suc n)\<rparr>
      = Inr (Some (Some (off + 4, off + 4 + length d)), \<lparr>drr_buf = r, drr_len = len, drr_remaining = of_nat n\<rparr>)"
proof -
  have c: "(of_nat (Suc n) :: u16) \<noteq> 0" "of_nat (Suc n) - 1 = (of_nat n :: u16)"
    using of_nat_Suc_u16 [of n] assms by simp_all
  show "data_row_ranges_next \<lparr>drr_buf = nullable_bytes None @ r, drr_len = len, drr_remaining = of_nat (Suc n)\<rparr>
      = Inr (Some None, \<lparr>drr_buf = r, drr_len = len, drr_remaining = of_nat n\<rparr>)"
    using c by (simp add: data_row_ranges_next_def nullable_bytes_simps Let_def del: of_nat_Suc)
  show "data_row_ranges_next \<lparr>drr_buf = nullable_bytes (Some d) @ r, drr_len = len, drr_remaining = of_nat (Suc n)\<rparr>
      = Inr (Some (Some (off + 4, off + 4 + length d)), \<lparr>drr_buf = r, drr_len = len, drr_remaining = of_nat n\<rparr>)"
    if "length d \<le> 2147483647" "len = off + 4 + length d + length r"
    using c that by (simp add: data_row_ranges_next_def nullable_bytes_simps Let_def del: of_nat_Suc)
qed

lemma collect_ranges:
  assumes "length vs \<le> 65535" "list_all fits_i32 vs" "length vs < n"
    "len = off + length (concat (map nullable_bytes vs))"
  shows "collect n data_row_ranges_next
    \<lparr>drr_buf = concat (map nullable_bytes vs), drr_len = len, drr_remaining = of_nat (length vs)\<rparr>
    = Some (Inr (ranges_of off vs))"
  using assms
proof (induction vs arbitrary: n off)
  case Nil
  then show ?case by (cases n) (simp_all add: data_row_ranges_next_def)
next
  case (Cons v vs)
  then obtain m where n: "n = Suc m" "length vs < m" by (cases n) auto
  have vs: "length vs < 65535" using Cons.prems(1) by simp
  show ?case
  proof (cases v)
    case None
    have "collect m data_row_ranges_next \<lparr>drr_buf = concat (map nullable_bytes vs), drr_len = len,
        drr_remaining = of_nat (length vs)\<rparr> = Some (Inr (ranges_of (off + 4) vs))"
      using Cons.prems n None by (intro Cons.IH) (simp_all add: nullable_bytes_simps)
    then show ?thesis by (simp add: None n row_step [OF vs] del: of_nat_Suc)
  next
    case (Some d)
    have "collect m data_row_ranges_next \<lparr>drr_buf = concat (map nullable_bytes vs), drr_len = len,
        drr_remaining = of_nat (length vs)\<rparr> = Some (Inr (ranges_of (off + 4 + length d) vs))"
      using Cons.prems n Some by (intro Cons.IH) (simp_all add: nullable_bytes_simps)
    moreover have "length d \<le> 2147483647" using Cons.prems(2) Some by (simp add: fits_i32_def)
    moreover have "len = off + 4 + length d + length (concat (map nullable_bytes vs))"
      using Cons.prems(4) Some by (simp add: nullable_bytes_simps)
    ultimately show ?thesis
      by (simp add: Some n row_step(2) [OF vs, of d _ off] del: of_nat_Suc length_concat)
  qed
qed

lemma row_values_ranges:
  "drop off storage = concat (map nullable_bytes vs) \<Longrightarrow> off \<le> length storage \<Longrightarrow>
     map (row_value storage) (ranges_of off vs) = vs"
proof (induction vs arbitrary: off)
  case Nil
  then show ?case by simp
next
  case (Cons v vs)
  let ?rest = "concat (map nullable_bytes vs)"
  have len: "length storage = off + length (nullable_bytes v @ ?rest)"
    using arg_cong [OF Cons.prems(1), of length] Cons.prems(2) by simp
  have skip: "drop (off + k) storage = drop k (nullable_bytes v @ ?rest)" for k
    using Cons.prems(1) by (simp add: add.commute flip: drop_drop)
  show ?case
  proof (cases v)
    case None
    have "map (row_value storage) (ranges_of (off + 4) vs) = vs"
      using skip [of 4] None len by (intro Cons.IH) (simp_all add: nullable_bytes_simps)
    with None show ?thesis by simp
  next
    case (Some d)
    have "map (row_value storage) (ranges_of (off + (4 + length d)) vs) = vs"
      using skip [of "4 + length d"] Some len by (intro Cons.IH) (simp_all add: nullable_bytes_simps)
    moreover have "drop (off + 4) storage = d @ ?rest"
      using skip [of 4] Some by (simp add: nullable_bytes_simps)
    ultimately show ?thesis using Some by (simp add: add.assoc)
  qed
qed

text \<open>
  A row of at most 65535 values, NULLs included, comes back as sent: the ranges computed from the
  row's storage select exactly the values.
\<close>

lemma data_row_roundtrip:
  assumes "length vs \<le> 65535" "list_all fits_i32 vs"
    and "body = \<lparr>dr_storage = concat (map nullable_bytes vs), dr_len = of_nat (length vs)\<rparr>"
  shows "\<exists>rs. collect (Suc (length (dr_storage body))) data_row_ranges_next (data_row_body_ranges body) =
      Some (Inr rs) \<and> map (row_value (dr_storage body)) rs = vs"
proof -
  let ?s = "data_row_body_ranges body"
  have "collect (Suc (length vs)) data_row_ranges_next ?s = Some (Inr (ranges_of 0 vs))"
    using collect_ranges [OF assms(1,2), of "Suc (length vs)" _ 0] assms(3)
    by (simp add: data_row_body_ranges_def del: collect.simps)
  moreover obtain r where "collect (Suc (length (dr_storage body))) data_row_ranges_next ?s = Some r"
    using row_iter.collect_total [of ?s "Suc (length (dr_storage body))"]
    by (auto simp: data_row_body_ranges_def)
  ultimately have "collect (Suc (length (dr_storage body))) data_row_ranges_next ?s =
      Some (Inr (ranges_of 0 vs))"
    by (metis collect_mono linorder_le_cases)
  moreover have "map (row_value (dr_storage body)) (ranges_of 0 vs) = vs"
    using assms(3) by (intro row_values_ranges) simp_all
  ultimately show ?thesis by blast
qed

theorem data_row_roundtrip_witness:
  "\<exists>rs. collect (Suc (length (concat (map nullable_bytes [Some [7, 8], None])))) data_row_ranges_next
      (data_row_body_ranges \<lparr>dr_storage = concat (map nullable_bytes [Some [7, 8], None]), dr_len = 2\<rparr>) =
      Some (Inr rs) \<and>
    map (row_value (concat (map nullable_bytes [Some [7, 8], None]))) rs = [Some [7, 8], None]"
  using data_row_roundtrip [of "[Some [7, 8], None]", OF _ _ refl] by (simp add: fits_i32_def)

definition row_inv :: "nat \<Rightarrow> data_row_ranges \<Rightarrow> bool" where
  "row_inv len s \<longleftrightarrow> drr_len s = len \<and> length (drr_buf s) \<le> len"

lemma row_next_inv:
  assumes "data_row_ranges_next s = Inr (Some r, s')" "row_inv len s"
  shows "row_inv len s' \<and> length (drr_buf s') \<le> length (drr_buf s) \<and> (\<forall>a b. r = Some (a, b) \<longrightarrow>
    len - length (drr_buf s) + 4 \<le> a \<and> a \<le> b \<and> b \<le> len - length (drr_buf s'))"
proof -
  have "length b = length c + 4" if "read_i32 b = Inr (v, c)" for b c v
    using read_be_length [OF _ that] by simp
  with assms show ?thesis
    by (fastforce simp: data_row_ranges_next_def row_inv_def Let_def split: if_splits)
qed

text \<open>The ranges of the values that are not NULL, each after the one before and its own length.\<close>

definition value_ranges :: "(nat \<times> nat) option list \<Rightarrow> (nat \<times> nat) list" where
  "value_ranges rs = List.map_filter id rs"

lemma value_ranges_simps [simp]:
  "value_ranges [] = []" "value_ranges (None # rs) = value_ranges rs" "value_ranges (Some x # rs) = x # value_ranges rs"
  by (simp_all add: value_ranges_def map_filter_simps)

lemma row_collect_inv:
  "collect n data_row_ranges_next s = Some (Inr rs) \<Longrightarrow> row_inv len s \<Longrightarrow>
     sorted_wrt (\<lambda>(a, b) (c, d). b + 4 \<le> c) (value_ranges rs) \<and>
     (\<forall>(a, b) \<in> set (value_ranges rs). len - length (drr_buf s) + 4 \<le> a \<and> a \<le> b \<and> b \<le> len)"
proof (induction n arbitrary: s rs)
  case 0
  then show ?case by simp
next
  case (Suc n)
  from Suc.prems(1) consider "rs = []"
    | r s' rs' where "data_row_ranges_next s = Inr (Some r, s')" "rs = r # rs'" "collect n data_row_ranges_next s' = Some (Inr rs')"
    by (auto split: sum.splits option.splits prod.splits)
  then show ?case
  proof cases
    case 2
    note inv = row_next_inv [OF 2(1) Suc.prems(2)]
    then have ih: "sorted_wrt (\<lambda>(a, b) (c, d). b + 4 \<le> c) (value_ranges rs')"
      "\<And>a b. (a, b) \<in> set (value_ranges rs') \<Longrightarrow> len - length (drr_buf s') + 4 \<le> a \<and> a \<le> b \<and> b \<le> len"
      using Suc.IH [OF 2(3), of] by blast+
    show ?thesis
    proof (cases r)
      case None
      with ih inv 2(2) show ?thesis by fastforce
    next
      case (Some x)
      obtain a b where "x = (a, b)" by (cases x)
      with ih inv 2(2) Some show ?thesis by fastforce
    qed
  qed simp
qed

text \<open>
  C37: whatever the server sends, the ranges a row hands out for its values lie inside the row's storage, so that slicing the storage
  with them cannot panic; and they are in order: each starts after the end of the one before it and the four bytes of its own length.
\<close>

theorem data_row_ranges_in_bounds:
  assumes "collect n data_row_ranges_next (data_row_body_ranges body) = Some (Inr rs)"
  shows "sorted_wrt (\<lambda>(a, b) (c, d). b + 4 \<le> c) (value_ranges rs) \<and>
    list_all (\<lambda>(a, b). 4 \<le> a \<and> a \<le> b \<and> b \<le> length (dr_storage body)) (value_ranges rs)"
  using row_collect_inv [OF assms, of "length (dr_storage body)"]
  by (auto simp: row_inv_def data_row_body_ranges_def list_all_iff)

theorem data_row_ranges_in_bounds_witness:
  "sorted_wrt (\<lambda>(a, b) (c, d). b + 4 \<le> c) [(4, 6), (14, 15 :: nat)] \<and>
     list_all (\<lambda>(a, b). 4 \<le> a \<and> a \<le> b \<and>
       b \<le> length (dr_storage \<lparr>dr_storage = concat (map nullable_bytes [Some [7, 8], None, Some [9]]), dr_len = 3\<rparr>)) [(4, 6), (14, 15)]"
proof -
  let ?vs = "[Some [7, 8], None, Some [9]] :: bytes option list"
  have "collect 4 data_row_ranges_next (data_row_body_ranges \<lparr>dr_storage = concat (map nullable_bytes ?vs), dr_len = 3\<rparr>) =
      Some (Inr [Some (4, 6), None, Some (14, 15)])"
    using collect_ranges [of ?vs 4 15 0]
    by (simp add: data_row_body_ranges_def fits_i32_def nullable_bytes_simps del: collect.simps)
  from data_row_ranges_in_bounds [OF this] show ?thesis by simp
qed

end
