(* ===== verification/Sql_Scalars.thy ===== *)
theory Sql_Scalars
  imports Wire_Core
begin

text \<open>
  Scalar SQL values in the binary format (\<open>types/mod.rs\<close>): the integer, floating point, date and time
  types, byte strings, texts, MAC addresses, UUIDs, the \<open>ltree\<close> family, points, boxes and network
  addresses. A writer appends to the buffer; a reader gets exactly the bytes of one value. An \<open>f32\<close> and
  an \<open>f64\<close> are their bits, which is what \<open>put_f64\<close> and \<open>read_f64\<close> transfer. A \<open>&str\<close> is its bytes.
\<close>

text \<open>The errors: a literal message, an \<open>io::Error\<close> of a reader, a \<open>Utf8Error\<close>.\<close>

datatype sql_error = Err_Msg string | Err_Io io_error | Err_Utf8

type_synonym f32 = u32
type_synonym f64 = u64

section \<open>Integers, floats, dates and times\<close>

text \<open>Every reader of one integer: read it, then the buffer has to be empty.\<close>

definition read_only :: "string \<Rightarrow> bytes \<Rightarrow> sql_error + 'a::len word" where
  "read_only msg buf =
     bind_res (map_err Err_Io (read_be buf)) (\<lambda>(v, buf).
     if buf \<noteq> [] then Inl (Err_Msg msg) else Inr v)"

definition bool_to_sql :: "bool \<Rightarrow> bytes \<Rightarrow> bytes" where
  "bool_to_sql v buf = buf @ [if v then 1 else 0]"

definition bool_from_sql :: "bytes \<Rightarrow> sql_error + bool" where
  "bool_from_sql buf =
     (if length buf \<noteq> 1 then Inl (Err_Msg ''invalid buffer size'') else Inr (hd buf \<noteq> 0))"

definition char_to_sql :: "i8 \<Rightarrow> bytes \<Rightarrow> bytes" where
  "char_to_sql v buf = buf @ be_word v"

definition char_from_sql :: "bytes \<Rightarrow> sql_error + i8" where
  "char_from_sql = read_only ''invalid buffer size''"

definition int2_to_sql :: "i16 \<Rightarrow> bytes \<Rightarrow> bytes" where
  "int2_to_sql v buf = buf @ be_word v"

definition int2_from_sql :: "bytes \<Rightarrow> sql_error + i16" where
  "int2_from_sql = read_only ''invalid buffer size''"

definition int4_to_sql :: "i32 \<Rightarrow> bytes \<Rightarrow> bytes" where
  "int4_to_sql v buf = buf @ be_word v"

definition int4_from_sql :: "bytes \<Rightarrow> sql_error + i32" where
  "int4_from_sql = read_only ''invalid buffer size''"

definition oid_to_sql :: "oid \<Rightarrow> bytes \<Rightarrow> bytes" where
  "oid_to_sql v buf = buf @ be_word v"

definition oid_from_sql :: "bytes \<Rightarrow> sql_error + oid" where
  "oid_from_sql = read_only ''invalid buffer size''"

definition int8_to_sql :: "i64 \<Rightarrow> bytes \<Rightarrow> bytes" where
  "int8_to_sql v buf = buf @ be_word v"

definition int8_from_sql :: "bytes \<Rightarrow> sql_error + i64" where
  "int8_from_sql = read_only ''invalid buffer size''"

definition lsn_to_sql :: "lsn \<Rightarrow> bytes \<Rightarrow> bytes" where
  "lsn_to_sql v buf = buf @ be_word v"

definition lsn_from_sql :: "bytes \<Rightarrow> sql_error + lsn" where
  "lsn_from_sql = read_only ''invalid buffer size''"

definition float4_to_sql :: "f32 \<Rightarrow> bytes \<Rightarrow> bytes" where
  "float4_to_sql v buf = buf @ be_word v"

definition float4_from_sql :: "bytes \<Rightarrow> sql_error + f32" where
  "float4_from_sql = read_only ''invalid buffer size''"

definition float8_to_sql :: "f64 \<Rightarrow> bytes \<Rightarrow> bytes" where
  "float8_to_sql v buf = buf @ be_word v"

definition float8_from_sql :: "bytes \<Rightarrow> sql_error + f64" where
  "float8_from_sql = read_only ''invalid buffer size''"

definition timestamp_to_sql :: "i64 \<Rightarrow> bytes \<Rightarrow> bytes" where
  "timestamp_to_sql v buf = buf @ be_word v"

definition timestamp_from_sql :: "bytes \<Rightarrow> sql_error + i64" where
  "timestamp_from_sql = read_only ''invalid message length: timestamp not drained''"

definition date_to_sql :: "i32 \<Rightarrow> bytes \<Rightarrow> bytes" where
  "date_to_sql v buf = buf @ be_word v"

definition date_from_sql :: "bytes \<Rightarrow> sql_error + i32" where
  "date_from_sql = read_only ''invalid message length: date not drained''"

definition time_to_sql :: "i64 \<Rightarrow> bytes \<Rightarrow> bytes" where
  "time_to_sql v buf = buf @ be_word v"

definition time_from_sql :: "bytes \<Rightarrow> sql_error + i64" where
  "time_from_sql = read_only ''invalid message length: time not drained''"

section \<open>Byte strings and texts\<close>

definition bytea_to_sql :: "bytes \<Rightarrow> bytes \<Rightarrow> bytes" where
  "bytea_to_sql v buf = buf @ v"

definition bytea_from_sql :: "bytes \<Rightarrow> bytes" where
  "bytea_from_sql buf = buf"

definition from_utf8 :: "bytes \<Rightarrow> sql_error + bytes" where
  "from_utf8 b = (if utf8_valid b then Inr b else Inl Err_Utf8)"

definition text_to_sql :: "bytes \<Rightarrow> bytes \<Rightarrow> bytes" where
  "text_to_sql v buf = buf @ v"

definition text_from_sql :: "bytes \<Rightarrow> sql_error + bytes" where
  "text_from_sql buf = from_utf8 buf"

definition macaddr_to_sql :: "bytes \<Rightarrow> bytes \<Rightarrow> bytes" where
  "macaddr_to_sql v buf = buf @ v"

definition macaddr_from_sql :: "bytes \<Rightarrow> sql_error + bytes" where
  "macaddr_from_sql buf =
     (if length buf \<noteq> 6 then Inl (Err_Msg ''invalid message length: macaddr length mismatch'')
      else Inr buf)"

definition uuid_to_sql :: "bytes \<Rightarrow> bytes \<Rightarrow> bytes" where
  "uuid_to_sql v buf = buf @ v"

definition uuid_from_sql :: "bytes \<Rightarrow> sql_error + bytes" where
  "uuid_from_sql buf =
     (if length buf \<noteq> 16 then Inl (Err_Msg ''invalid message length: uuid size mismatch'')
      else Inr buf)"

definition ltree_to_sql :: "bytes \<Rightarrow> bytes \<Rightarrow> bytes" where
  "ltree_to_sql v buf = buf @ [1] @ v"

definition ltree_from_sql :: "bytes \<Rightarrow> sql_error + bytes" where
  "ltree_from_sql buf =
     (case buf of
        b # rest \<Rightarrow> if b = 1 then from_utf8 rest else Inl (Err_Msg ''ltree version 1 only supported'')
      | [] \<Rightarrow> Inl (Err_Msg ''ltree version 1 only supported''))"

definition lquery_to_sql :: "bytes \<Rightarrow> bytes \<Rightarrow> bytes" where
  "lquery_to_sql v buf = buf @ [1] @ v"

definition lquery_from_sql :: "bytes \<Rightarrow> sql_error + bytes" where
  "lquery_from_sql buf =
     (case buf of
        b # rest \<Rightarrow> if b = 1 then from_utf8 rest else Inl (Err_Msg ''lquery version 1 only supported'')
      | [] \<Rightarrow> Inl (Err_Msg ''lquery version 1 only supported''))"

definition ltxtquery_to_sql :: "bytes \<Rightarrow> bytes \<Rightarrow> bytes" where
  "ltxtquery_to_sql v buf = buf @ [1] @ v"

definition ltxtquery_from_sql :: "bytes \<Rightarrow> sql_error + bytes" where
  "ltxtquery_from_sql buf =
     (case buf of
        b # rest \<Rightarrow> if b = 1 then from_utf8 rest else Inl (Err_Msg ''ltxtquery version 1 only supported'')
      | [] \<Rightarrow> Inl (Err_Msg ''ltxtquery version 1 only supported''))"

section \<open>Points, boxes and network addresses\<close>

record point =
  pt_x :: f64
  pt_y :: f64

record box =
  upper_right :: point
  lower_left :: point

definition point_to_sql :: "f64 \<Rightarrow> f64 \<Rightarrow> bytes \<Rightarrow> bytes" where
  "point_to_sql x y buf = (buf @ be_word x) @ be_word y"

definition point_from_sql :: "bytes \<Rightarrow> sql_error + point" where
  "point_from_sql buf =
     bind_res (map_err Err_Io (read_u64 buf)) (\<lambda>(x, buf).
     bind_res (map_err Err_Io (read_u64 buf)) (\<lambda>(y, buf).
     if buf \<noteq> [] then Inl (Err_Msg ''invalid buffer size'')
     else Inr \<lparr>pt_x = x, pt_y = y\<rparr>))"

definition box_to_sql :: "f64 \<Rightarrow> f64 \<Rightarrow> f64 \<Rightarrow> f64 \<Rightarrow> bytes \<Rightarrow> bytes" where
  "box_to_sql x1 y1 x2 y2 buf = (((buf @ be_word x1) @ be_word y1) @ be_word x2) @ be_word y2"

definition box_from_sql :: "bytes \<Rightarrow> sql_error + box" where
  "box_from_sql buf =
     bind_res (map_err Err_Io (read_u64 buf)) (\<lambda>(x1, buf).
     bind_res (map_err Err_Io (read_u64 buf)) (\<lambda>(y1, buf).
     bind_res (map_err Err_Io (read_u64 buf)) (\<lambda>(x2, buf).
     bind_res (map_err Err_Io (read_u64 buf)) (\<lambda>(y2, buf).
     if buf \<noteq> [] then Inl (Err_Msg ''invalid buffer size'')
     else Inr \<lparr>upper_right = \<lparr>pt_x = x1, pt_y = y1\<rparr>, lower_left = \<lparr>pt_x = x2, pt_y = y2\<rparr>\<rparr>))))"

text \<open>\<open>IpAddr\<close>: the octets of an address are the big-endian bytes of its number.\<close>

datatype ip_addr = V4 u32 | V6 "128 word"

record inet =
  inet_addr :: ip_addr
  inet_netmask :: u8

abbreviation (input) PGSQL_AF_INET :: u8 where "PGSQL_AF_INET \<equiv> 2"
abbreviation (input) PGSQL_AF_INET6 :: u8 where "PGSQL_AF_INET6 \<equiv> 3"

definition inet_to_sql :: "ip_addr \<Rightarrow> u8 \<Rightarrow> bytes \<Rightarrow> bytes" where
  "inet_to_sql addr netmask buf =
     (let family = (case addr of V4 _ \<Rightarrow> PGSQL_AF_INET | V6 _ \<Rightarrow> PGSQL_AF_INET6);
          buf = buf @ [family, netmask, 0]
      in case addr of
           V4 a \<Rightarrow> buf @ [4] @ be_word a
         | V6 a \<Rightarrow> buf @ [16] @ be_word a)"

definition inet_from_sql :: "bytes \<Rightarrow> sql_error + inet" where
  "inet_from_sql buf =
     bind_res (map_err Err_Io (read_u8 buf)) (\<lambda>(family, buf).
     bind_res (map_err Err_Io (read_u8 buf)) (\<lambda>(netmask, buf).
     bind_res (map_err Err_Io (read_u8 buf)) (\<lambda>(_, buf).
     bind_res (map_err Err_Io (read_u8 buf)) (\<lambda>(len, buf).
     bind_res
       (if family = PGSQL_AF_INET then
          (if netmask > 32 then Inl (Err_Msg ''invalid IPv4 netmask'')
           else if len \<noteq> 4 then Inl (Err_Msg ''invalid IPv4 address length'')
           else bind_res (map_err Err_Io (read_exact 4 buf)) (\<lambda>(a, buf). Inr (V4 (word_be a), buf)))
        else if family = PGSQL_AF_INET6 then
          (if netmask > 128 then Inl (Err_Msg ''invalid IPv6 netmask'')
           else if len \<noteq> 16 then Inl (Err_Msg ''invalid IPv6 address length'')
           else bind_res (map_err Err_Io (read_exact 16 buf)) (\<lambda>(a, buf). Inr (V6 (word_be a), buf)))
        else Inl (Err_Msg ''invalid IP family'')) (\<lambda>(addr, buf).
     if buf \<noteq> [] then Inl (Err_Msg ''invalid buffer size'')
     else Inr \<lparr>inet_addr = addr, inet_netmask = netmask\<rparr>)))))"

section \<open>Formats\<close>

text \<open>
  \<open>checked_value\<close>: a format for the values that satisfy \<open>ok\<close>; decoding yields only such values and
  accepts only their encodings. A \<open>wire_value\<close> is one without a condition.
\<close>

locale checked_value =
  fixes enc :: "'a \<Rightarrow> bytes" and dec :: "bytes \<Rightarrow> 'e + 'a" and ok :: "'a \<Rightarrow> bool"
  assumes dec_enc_ok: "ok v \<Longrightarrow> dec (enc v) = Inr v"
    and enc_dec_ok: "dec b = Inr v \<Longrightarrow> ok v \<and> b = enc v"
begin

lemma dec_ok: "dec b = Inr v \<longleftrightarrow> ok v \<and> b = enc v"
  using dec_enc_ok enc_dec_ok by blast

lemma enc_inject_ok: "ok v \<Longrightarrow> ok w \<Longrightarrow> enc v = enc w \<longleftrightarrow> v = w"
  by (metis dec_enc_ok sum.inject(2))

end

sublocale wire_value \<subseteq> checked: checked_value enc dec "\<lambda>_. True"
  by unfold_locales (auto simp: dec_enc dest: enc_dec)

lemma from_utf8_Inr [simp]: "from_utf8 b = Inr v \<longleftrightarrow> v = b \<and> utf8_valid b"
  by (auto simp: from_utf8_def)

lemma wire_value_word: "8 dvd LENGTH('a::len) \<Longrightarrow>
    wire_value (\<lambda>v :: 'a word. [] @ be_word v) (read_only msg)"
  by unfold_locales (auto simp: read_only_def read_be_Inr split: if_splits)

interpretation char_fmt: wire_value "\<lambda>v. char_to_sql v []" char_from_sql
  unfolding char_to_sql_def char_from_sql_def by (rule wire_value_word) simp

interpretation int2_fmt: wire_value "\<lambda>v. int2_to_sql v []" int2_from_sql
  unfolding int2_to_sql_def int2_from_sql_def by (rule wire_value_word) simp

interpretation int4_fmt: wire_value "\<lambda>v. int4_to_sql v []" int4_from_sql
  unfolding int4_to_sql_def int4_from_sql_def by (rule wire_value_word) simp

interpretation oid_fmt: wire_value "\<lambda>v. oid_to_sql v []" oid_from_sql
  unfolding oid_to_sql_def oid_from_sql_def by (rule wire_value_word) simp

interpretation int8_fmt: wire_value "\<lambda>v. int8_to_sql v []" int8_from_sql
  unfolding int8_to_sql_def int8_from_sql_def by (rule wire_value_word) simp

interpretation lsn_fmt: wire_value "\<lambda>v. lsn_to_sql v []" lsn_from_sql
  unfolding lsn_to_sql_def lsn_from_sql_def by (rule wire_value_word) simp

interpretation float4_fmt: wire_value "\<lambda>v. float4_to_sql v []" float4_from_sql
  unfolding float4_to_sql_def float4_from_sql_def by (rule wire_value_word) simp

interpretation float8_fmt: wire_value "\<lambda>v. float8_to_sql v []" float8_from_sql
  unfolding float8_to_sql_def float8_from_sql_def by (rule wire_value_word) simp

interpretation timestamp_fmt: wire_value "\<lambda>v. timestamp_to_sql v []" timestamp_from_sql
  unfolding timestamp_to_sql_def timestamp_from_sql_def by (rule wire_value_word) simp

interpretation date_fmt: wire_value "\<lambda>v. date_to_sql v []" date_from_sql
  unfolding date_to_sql_def date_from_sql_def by (rule wire_value_word) simp

interpretation time_fmt: wire_value "\<lambda>v. time_to_sql v []" time_from_sql
  unfolding time_to_sql_def time_from_sql_def by (rule wire_value_word) simp

interpretation text_fmt: checked_value "\<lambda>v. text_to_sql v []" text_from_sql utf8_valid
  by unfold_locales (auto simp: text_to_sql_def text_from_sql_def)

interpretation macaddr_fmt: checked_value "\<lambda>v. macaddr_to_sql v []" macaddr_from_sql "\<lambda>v. length v = 6"
  by unfold_locales (auto simp: macaddr_to_sql_def macaddr_from_sql_def split: if_splits)

interpretation uuid_fmt: checked_value "\<lambda>v. uuid_to_sql v []" uuid_from_sql "\<lambda>v. length v = 16"
  by unfold_locales (auto simp: uuid_to_sql_def uuid_from_sql_def split: if_splits)

interpretation ltree_fmt: checked_value "\<lambda>v. ltree_to_sql v []" ltree_from_sql utf8_valid
  by unfold_locales (auto simp: ltree_to_sql_def ltree_from_sql_def split: list.splits if_splits)

interpretation lquery_fmt: checked_value "\<lambda>v. lquery_to_sql v []" lquery_from_sql utf8_valid
  by unfold_locales (auto simp: lquery_to_sql_def lquery_from_sql_def split: list.splits if_splits)

interpretation ltxtquery_fmt: checked_value "\<lambda>v. ltxtquery_to_sql v []" ltxtquery_from_sql utf8_valid
  by unfold_locales (auto simp: ltxtquery_to_sql_def ltxtquery_from_sql_def split: list.splits if_splits)

interpretation point_fmt: wire_value "\<lambda>p. point_to_sql (pt_x p) (pt_y p) []" point_from_sql
  by unfold_locales (auto simp: point_to_sql_def point_from_sql_def read_be_Inr split: if_splits)

interpretation box_fmt: wire_value
  "\<lambda>b. box_to_sql (pt_x (upper_right b)) (pt_y (upper_right b)) (pt_x (lower_left b)) (pt_y (lower_left b)) []"
  box_from_sql
  by unfold_locales (auto simp: box_to_sql_def box_from_sql_def read_be_Inr split: if_splits)

text \<open>
  Every fixed-width scalar format is exact in both directions: reading accepts a buffer as the
  value \<open>v\<close> iff the buffer is what writing \<open>v\<close> produces, so no other length and no trailing byte is
  accepted, and floats keep every bit.
\<close>

lemma scalars_exact:
  "(char_from_sql b = Inr c \<longleftrightarrow> b = char_to_sql c []) \<and>
   (int2_from_sql b = Inr i2 \<longleftrightarrow> b = int2_to_sql i2 []) \<and>
   (int4_from_sql b = Inr i4 \<longleftrightarrow> b = int4_to_sql i4 []) \<and>
   (oid_from_sql b = Inr oid \<longleftrightarrow> b = oid_to_sql oid []) \<and>
   (int8_from_sql b = Inr i8 \<longleftrightarrow> b = int8_to_sql i8 []) \<and>
   (lsn_from_sql b = Inr lsn \<longleftrightarrow> b = lsn_to_sql lsn []) \<and>
   (float4_from_sql b = Inr f4 \<longleftrightarrow> b = float4_to_sql f4 []) \<and>
   (float8_from_sql b = Inr f8 \<longleftrightarrow> b = float8_to_sql f8 []) \<and>
   (timestamp_from_sql b = Inr ts \<longleftrightarrow> b = timestamp_to_sql ts []) \<and>
   (date_from_sql b = Inr date \<longleftrightarrow> b = date_to_sql date []) \<and>
   (time_from_sql b = Inr time \<longleftrightarrow> b = time_to_sql time []) \<and>
   (point_from_sql b = Inr p \<longleftrightarrow> b = point_to_sql (pt_x p) (pt_y p) [])"
  by (intro conjI char_fmt.dec_iff int2_fmt.dec_iff int4_fmt.dec_iff oid_fmt.dec_iff int8_fmt.dec_iff
      lsn_fmt.dec_iff float4_fmt.dec_iff float8_fmt.dec_iff timestamp_fmt.dec_iff date_fmt.dec_iff
      time_fmt.dec_iff point_fmt.dec_iff)

text \<open>
  Texts, MAC addresses, UUIDs and the \<open>ltree\<close> family accept exactly the encodings of well-formed
  values: valid UTF-8, six bytes, sixteen bytes, and a version byte 1 before valid UTF-8.
\<close>

lemma checked_scalars_exact:
  "(text_from_sql b = Inr s \<longleftrightarrow> utf8_valid s \<and> b = text_to_sql s []) \<and>
   (macaddr_from_sql b = Inr m \<longleftrightarrow> length m = 6 \<and> b = macaddr_to_sql m []) \<and>
   (uuid_from_sql b = Inr u \<longleftrightarrow> length u = 16 \<and> b = uuid_to_sql u []) \<and>
   (ltree_from_sql b = Inr s \<longleftrightarrow> utf8_valid s \<and> b = ltree_to_sql s []) \<and>
   (lquery_from_sql b = Inr s \<longleftrightarrow> utf8_valid s \<and> b = lquery_to_sql s []) \<and>
   (ltxtquery_from_sql b = Inr s \<longleftrightarrow> utf8_valid s \<and> b = ltxtquery_to_sql s [])"
  by (intro conjI text_fmt.dec_ok macaddr_fmt.dec_ok uuid_fmt.dec_ok ltree_fmt.dec_ok
      lquery_fmt.dec_ok ltxtquery_fmt.dec_ok)

lemma bool_roundtrip: "bool_from_sql (bool_to_sql v []) = Inr v"
  by (simp add: bool_from_sql_def bool_to_sql_def)

lemma bytea_roundtrip: "bytea_from_sql (bytea_to_sql v []) = v"
  by (simp add: bytea_from_sql_def bytea_to_sql_def)

definition netmask_ok :: "ip_addr \<Rightarrow> u8 \<Rightarrow> bool" where
  "netmask_ok addr netmask = (case addr of V4 _ \<Rightarrow> netmask \<le> 32 | V6 _ \<Rightarrow> netmask \<le> 128)"

text \<open>
  An inet value is accepted iff its netmask is in range for its family and the buffer is its
  encoding up to the \<open>is_cidr\<close> byte, which is ignored: an address written with a netmask out of
  range does not read back.
\<close>

lemma inet_accepts:
  "inet_from_sql b = Inr x \<longleftrightarrow>
     netmask_ok (inet_addr x) (inet_netmask x) \<and>
     (\<exists>cidr. b = (inet_to_sql (inet_addr x) (inet_netmask x) [])[2 := cidr])"
proof -
  have inv: "word_be (be_word a) = a" "word_be (be_word c) = c" for a :: u32 and c :: "128 word"
    by (simp_all add: word_be_be_word)
  have undo: "length l = 4 \<Longrightarrow> be_word (word_be l :: u32) = l"
    "length l = 16 \<Longrightarrow> be_word (word_be l :: 128 word) = l" for l :: bytes
    by (simp_all add: be_word_word_be)
  have u8: "read_u8 l = Inr (w, r) \<longleftrightarrow> l = w # r" for l w r
    by (simp add: read_be_Inr)
  have "inet_from_sql b = Inr x" if "netmask_ok (inet_addr x) (inet_netmask x)"
    "b = (inet_to_sql (inet_addr x) (inet_netmask x) [])[2 := cidr]" for cidr
    using that
    by (cases x; cases "inet_addr x")
      (simp_all add: inet_from_sql_def inet_to_sql_def netmask_ok_def inv read_exact_def
        numeral_2_eq_2 linorder_not_less del: bind_res_Inr)
  moreover have "netmask_ok (inet_addr x) (inet_netmask x) \<and>
      (\<exists>cidr. b = (inet_to_sql (inet_addr x) (inet_netmask x) [])[2 := cidr])"
    if "inet_from_sql b = Inr x"
    using that
    by (auto simp: inet_from_sql_def inet_to_sql_def netmask_ok_def read_exact_Inr undo u8
        numeral_2_eq_2 not_less split: if_splits)
  ultimately show ?thesis by blast
qed

end
