(* ===== verification/Sql_Containers.thy ===== *)
theory Sql_Containers
  imports Sql_Scalars
begin

text \<open>
  SQL values with parts in the binary format (\<open>types/mod.rs\<close>): \<open>HSTORE\<close>, \<open>VARBIT\<close>, arrays, ranges and
  paths. The readers return a header and a fallible iterator over the parts. \<open>split_at_checked\<close> and a
  length test are errors; \<open>split_at\<close> and a slice expression panic when the buffer is too short, which
  is \<open>Panic\<close> for the hstore iterator and \<open>None\<close> for the accessors of an array.
\<close>

section \<open>HSTORE\<close>

definition write_pascal_string :: "bytes \<Rightarrow> sql_error writer" where
  "write_pascal_string s buf =
     bind_res (map_err Err_Io (i32_from_usize (length s))) (\<lambda>size. Inr ((buf @ be_word size) @ s))"

type_synonym hstore_entry = "bytes \<times> bytes option"

fun hstore_each :: "hstore_entry list \<Rightarrow> sql_error writer" where
  "hstore_each [] buf = Inr buf"
| "hstore_each ((key, val) # values) buf =
     bind_res (write_pascal_string key buf) (\<lambda>buf.
     bind_res (case val of
         Some v \<Rightarrow> write_pascal_string v buf
       | None \<Rightarrow> Inr (buf @ be_word (- 1 :: i32))) (\<lambda>buf.
     hstore_each values buf))"

definition hstore_to_sql :: "hstore_entry list \<Rightarrow> sql_error writer" where
  "hstore_to_sql values buf =
     (let base = length buf in
      bind_res (hstore_each values (buf @ be_word (0 :: i32))) (\<lambda>buf'.
      bind_res (map_err Err_Io (i32_from_usize (length values))) (\<lambda>count.
      Inr (patch base (be_word count) buf'))))"

record hstore_entries =
  hs_remaining :: i32
  hs_buf :: bytes

definition hstore_from_sql :: "bytes \<Rightarrow> sql_error + hstore_entries" where
  "hstore_from_sql buf =
     bind_res (map_err Err_Io (read_i32 buf)) (\<lambda>(count, buf).
     if sint count < 0 then Inl (Err_Msg ''invalid entry count'')
     else Inr \<lparr>hs_remaining = count, hs_buf = buf\<rparr>)"

definition hstore_next :: "(hstore_entries, sql_error fault, hstore_entry) iter_next" where
  "hstore_next s =
     (if hs_remaining s = 0 then
        (if hs_buf s \<noteq> [] then Inl (Fault (Err_Msg ''invalid buffer size'')) else Inr (None, s))
      else
        (let s = s\<lparr>hs_remaining := hs_remaining s - 1\<rparr> in
         bind_res (map_err (Fault \<circ> Err_Io) (read_i32 (hs_buf s))) (\<lambda>(key_len, b).
         if sint key_len < 0 then Inl (Fault (Err_Msg ''invalid key length''))
         else if length b < unat key_len then Inl Panic
         else
           bind_res (map_err Fault (from_utf8 (take (unat key_len) b))) (\<lambda>key.
           bind_res (map_err (Fault \<circ> Err_Io) (read_i32 (drop (unat key_len) b))) (\<lambda>(value_len, b).
           if sint value_len < 0 then Inr (Some (key, None), s\<lparr>hs_buf := b\<rparr>)
           else if length b < unat value_len then Inl Panic
           else
             bind_res (map_err Fault (from_utf8 (take (unat value_len) b))) (\<lambda>val.
             Inr (Some (key, Some val), s\<lparr>hs_buf := drop (unat value_len) b\<rparr>)))))))"

section \<open>VARBIT\<close>

record varbit =
  vb_len :: nat
  vb_bytes :: bytes

definition varbit_to_sql :: "nat \<Rightarrow> bytes \<Rightarrow> sql_error writer" where
  "varbit_to_sql len v buf =
     bind_res (map_err Err_Io (i32_from_usize len)) (\<lambda>len. Inr ((buf @ be_word len) @ v))"

definition varbit_from_sql :: "bytes \<Rightarrow> sql_error + varbit" where
  "varbit_from_sql buf =
     bind_res (map_err Err_Io (read_i32 buf)) (\<lambda>(len, buf).
     if sint len < 0 then Inl (Err_Msg ''invalid varbit length: varbit < 0'')
     else
       let bytes = (unat len + 7) div 8 in
       if length buf \<noteq> bytes then Inl (Err_Msg ''invalid message length: varbit mismatch'')
       else Inr \<lparr>vb_len = unat len, vb_bytes = buf\<rparr>)"

section \<open>Arrays\<close>

record array_dimension =
  ad_len :: i32
  ad_lower_bound :: i32

fun write_dimensions :: "array_dimension list \<Rightarrow> bytes \<Rightarrow> bytes" where
  "write_dimensions [] buf = buf"
| "write_dimensions (d # ds) buf =
     write_dimensions ds ((buf @ be_word (ad_len d)) @ be_word (ad_lower_bound d))"

text \<open>The flag the serializing closure sets when an element is NULL.\<close>

definition note_null :: "'e + (is_null \<times> bytes) \<Rightarrow> bool \<Rightarrow> bool" where
  "note_null r has_nulls = (case r of Inr (Yes, _) \<Rightarrow> True | _ \<Rightarrow> has_nulls)"

text \<open>The serializer of the caller has the boxed error of the caller, into which \<open>into\<close> takes those of this module.\<close>

fun write_elements ::
  "(sql_error \<Rightarrow> 'e) \<Rightarrow> ('t \<Rightarrow> bytes \<Rightarrow> 'e + (is_null \<times> bytes)) \<Rightarrow> 't list \<Rightarrow> bool \<Rightarrow> bytes \<Rightarrow>
     'e + (bool \<times> bytes)" where
  "write_elements into serializer [] has_nulls buf = Inr (has_nulls, buf)"
| "write_elements into serializer (element # elements) has_nulls buf =
     (let r = serializer element (buf @ be_word (0 :: i32)) in
      bind_res (write_nullable (\<lambda>e. into (Err_Io e)) (serializer element) buf) (\<lambda>buf.
      write_elements into serializer elements (note_null r has_nulls) buf))"

definition array_to_sql ::
  "(sql_error \<Rightarrow> 'e) \<Rightarrow> array_dimension list \<Rightarrow> oid \<Rightarrow> 't list \<Rightarrow>
     ('t \<Rightarrow> bytes \<Rightarrow> 'e + (is_null \<times> bytes)) \<Rightarrow> bytes \<Rightarrow> 'e + bytes" where
  "array_to_sql into dimensions element_type elements serializer buf =
     (let dimensions_idx = length buf;
          buf = buf @ be_word (0 :: i32);
          flags_idx = length buf;
          buf = (buf @ be_word (0 :: i32)) @ be_word element_type;
          buf = write_dimensions dimensions buf in
      bind_res (map_err (\<lambda>e. into (Err_Io e)) (i32_from_usize (length dimensions))) (\<lambda>num_dimensions.
      bind_res (write_elements into serializer elements False
                  (patch dimensions_idx (be_word num_dimensions) buf)) (\<lambda>(has_nulls, buf).
      Inr (patch flags_idx (be_word (if has_nulls then 1 else 0 :: i32)) buf))))"

definition checked_mul :: "i32 \<Rightarrow> i32 \<Rightarrow> i32 option" where
  "checked_mul a b =
     (let p = sint a * sint b in
      if p < - 2147483648 \<or> 2147483647 < p then None else Some (word_of_int p))"

text \<open>The loop over the dimensions: it only looks ahead and multiplies the sizes.\<close>

fun count_elements :: "nat \<Rightarrow> bytes \<Rightarrow> i32 \<Rightarrow> sql_error + i32" where
  "count_elements 0 r elements = Inr elements"
| "count_elements (Suc n) r elements =
     bind_res (map_err Err_Io (read_i32 r)) (\<lambda>(len, r).
     if sint len < 0 then Inl (Err_Msg ''invalid dimension size'')
     else
       bind_res (map_err Err_Io (read_i32 r)) (\<lambda>(_, r).
       case checked_mul elements len of
         None \<Rightarrow> Inl (Err_Msg ''too many array elements'')
       | Some elements \<Rightarrow> count_elements n r elements))"

record array =
  arr_dimensions :: i32
  arr_has_nulls :: bool
  arr_element_type :: oid
  arr_elements :: i32
  arr_buf :: bytes

definition array_from_sql :: "bytes \<Rightarrow> sql_error + array" where
  "array_from_sql buf =
     bind_res (map_err Err_Io (read_i32 buf)) (\<lambda>(dimensions, buf).
     if sint dimensions < 0 then Inl (Err_Msg ''invalid dimension count'')
     else
       bind_res (map_err Err_Io (read_i32 buf)) (\<lambda>(nulls, buf).
       bind_res (map_err Err_Io (read_u32 buf)) (\<lambda>(element_type, buf).
       bind_res (count_elements (unat dimensions) buf 1) (\<lambda>elements.
       Inr \<lparr>arr_dimensions = dimensions, arr_has_nulls = (nulls \<noteq> 0), arr_element_type = element_type,
         arr_elements = (if dimensions = 0 then 0 else elements), arr_buf = buf\<rparr>))))"

text \<open>The accessors that slice the buffer; \<open>None\<close> is the panic of the slice.\<close>

definition array_dimensions :: "array \<Rightarrow> bytes option" where
  "array_dimensions a =
     (let n = unat (arr_dimensions a) * 8 in
      if length (arr_buf a) < n then None else Some (take n (arr_buf a)))"

record array_values =
  av_remaining :: i32
  av_buf :: bytes

definition array_values :: "array \<Rightarrow> array_values option" where
  "array_values a =
     (let n = unat (arr_dimensions a) * 8 in
      if length (arr_buf a) < n then None
      else Some \<lparr>av_remaining = arr_elements a, av_buf = drop n (arr_buf a)\<rparr>)"

definition array_dimensions_next :: "(bytes, sql_error, array_dimension) iter_next" where
  "array_dimensions_next b =
     (if b = [] then Inr (None, b)
      else
        bind_res (map_err Err_Io (read_i32 b)) (\<lambda>(len, b).
        bind_res (map_err Err_Io (read_i32 b)) (\<lambda>(lower_bound, b).
        Inr (Some \<lparr>ad_len = len, ad_lower_bound = lower_bound\<rparr>, b))))"

definition array_values_next :: "(array_values, sql_error, bytes option) iter_next" where
  "array_values_next s =
     (if av_remaining s = 0 then
        (if av_buf s \<noteq> [] then Inl (Err_Msg ''invalid message length: arrayvalue not drained'')
         else Inr (None, s))
      else
        (let s = s\<lparr>av_remaining := av_remaining s - 1\<rparr> in
         bind_res (map_err Err_Io (read_i32 (av_buf s))) (\<lambda>(len, b).
         if sint len < 0 then Inr (Some None, s\<lparr>av_buf := b\<rparr>)
         else if length b < unat len then Inl (Err_Msg ''invalid value length'')
         else Inr (Some (Some (take (unat len) b)), s\<lparr>av_buf := drop (unat len) b\<rparr>))))"

section \<open>Ranges\<close>

abbreviation (input) RANGE_UPPER_UNBOUNDED :: u8 where "RANGE_UPPER_UNBOUNDED \<equiv> 0b00010000"
abbreviation (input) RANGE_LOWER_UNBOUNDED :: u8 where "RANGE_LOWER_UNBOUNDED \<equiv> 0b00001000"
abbreviation (input) RANGE_UPPER_INCLUSIVE :: u8 where "RANGE_UPPER_INCLUSIVE \<equiv> 0b00000100"
abbreviation (input) RANGE_LOWER_INCLUSIVE :: u8 where "RANGE_LOWER_INCLUSIVE \<equiv> 0b00000010"
abbreviation (input) RANGE_EMPTY :: u8 where "RANGE_EMPTY \<equiv> 0b00000001"

datatype 'a range_bound = Inclusive 'a | Exclusive 'a | Unbounded

definition empty_range_to_sql :: "bytes \<Rightarrow> bytes" where
  "empty_range_to_sql buf = buf @ [RANGE_EMPTY]"

definition write_bound ::
  "(bytes \<Rightarrow> sql_error + (is_null range_bound \<times> bytes)) \<Rightarrow> bytes \<Rightarrow>
     sql_error + (unit range_bound \<times> bytes)" where
  "write_bound bound buf =
     (let base = length buf in
      bind_res (bound (buf @ be_word (0 :: i32))) (\<lambda>(b, buf').
      let (null, ret) = (case b of
            Inclusive null \<Rightarrow> (Some null, Inclusive ())
          | Exclusive null \<Rightarrow> (Some null, Exclusive ())
          | Unbounded \<Rightarrow> (None, Unbounded)) in
      case null of
        Some null \<Rightarrow>
          bind_res (case null of
              No \<Rightarrow> map_err Err_Io (i32_from_usize (length buf' - base - 4))
            | Yes \<Rightarrow> Inr (- 1)) (\<lambda>len.
          Inr (ret, patch base (be_word len) buf'))
      | None \<Rightarrow> Inr (ret, take base buf')))"

definition range_to_sql ::
  "(bytes \<Rightarrow> sql_error + (is_null range_bound \<times> bytes)) \<Rightarrow>
   (bytes \<Rightarrow> sql_error + (is_null range_bound \<times> bytes)) \<Rightarrow> sql_error writer" where
  "range_to_sql lower upper buf =
     (let tag_idx = length buf in
      bind_res (write_bound lower (buf @ [0])) (\<lambda>(l, buf).
      let tag = 0 OR (case l of
            Inclusive _ \<Rightarrow> RANGE_LOWER_INCLUSIVE | Exclusive _ \<Rightarrow> 0 | Unbounded \<Rightarrow> RANGE_LOWER_UNBOUNDED) in
      bind_res (write_bound upper buf) (\<lambda>(u, buf).
      let tag = tag OR (case u of
            Inclusive _ \<Rightarrow> RANGE_UPPER_INCLUSIVE | Exclusive _ \<Rightarrow> 0 | Unbounded \<Rightarrow> RANGE_UPPER_UNBOUNDED) in
      Inr (buf[tag_idx := tag]))))"

definition read_bound ::
  "u8 \<Rightarrow> u8 \<Rightarrow> u8 \<Rightarrow> bytes \<Rightarrow> sql_error + (bytes option range_bound \<times> bytes)" where
  "read_bound tag unbounded inclusive buf =
     (if tag AND unbounded \<noteq> 0 then Inr (Unbounded, buf)
      else
        bind_res (map_err Err_Io (read_i32 buf)) (\<lambda>(len, buf).
        bind_res (if sint len < 0 then Inr (None, buf)
                  else if length buf < unat len then Inl (Err_Msg ''invalid message size'')
                  else Inr (Some (take (unat len) buf), drop (unat len) buf)) (\<lambda>(val, buf).
        if tag AND inclusive \<noteq> 0 then Inr (Inclusive val, buf) else Inr (Exclusive val, buf))))"

datatype range = Empty | Nonempty "bytes option range_bound" "bytes option range_bound"

definition range_from_sql :: "bytes \<Rightarrow> sql_error + range" where
  "range_from_sql buf =
     bind_res (map_err Err_Io (read_u8 buf)) (\<lambda>(tag, buf).
     if tag = RANGE_EMPTY then
       (if buf \<noteq> [] then Inl (Err_Msg ''invalid message size'') else Inr Empty)
     else
       bind_res (read_bound tag RANGE_LOWER_UNBOUNDED RANGE_LOWER_INCLUSIVE buf) (\<lambda>(lower, buf).
       bind_res (read_bound tag RANGE_UPPER_UNBOUNDED RANGE_UPPER_INCLUSIVE buf) (\<lambda>(upper, buf).
       if buf \<noteq> [] then Inl (Err_Msg ''invalid message size'') else Inr (Nonempty lower upper))))"

section \<open>Paths\<close>

record path =
  pa_closed :: bool
  pa_points :: i32
  pa_buf :: bytes

record path_points =
  pp_remaining :: i32
  pp_buf :: bytes

fun write_points :: "(f64 \<times> f64) list \<Rightarrow> bytes \<Rightarrow> bytes" where
  "write_points [] buf = buf"
| "write_points ((x, y) # ps) buf = write_points ps ((buf @ be_word x) @ be_word y)"

definition path_to_sql :: "bool \<Rightarrow> (f64 \<times> f64) list \<Rightarrow> sql_error writer" where
  "path_to_sql closed points buf =
     (let buf = buf @ [if closed then 1 else 0];
          points_idx = length buf;
          buf = write_points points (buf @ be_word (0 :: i32)) in
      bind_res (map_err Err_Io (i32_from_usize (length points))) (\<lambda>num_points.
      Inr (patch points_idx (be_word num_points) buf)))"

definition path_from_sql :: "bytes \<Rightarrow> sql_error + path" where
  "path_from_sql buf =
     bind_res (map_err Err_Io (read_u8 buf)) (\<lambda>(closed, buf).
     bind_res (map_err Err_Io (read_i32 buf)) (\<lambda>(points, buf).
     Inr \<lparr>pa_closed = (closed \<noteq> 0), pa_points = points, pa_buf = buf\<rparr>))"

definition path_points :: "path \<Rightarrow> path_points" where
  "path_points p = \<lparr>pp_remaining = pa_points p, pp_buf = pa_buf p\<rparr>"

definition path_points_next :: "(path_points, sql_error, point) iter_next" where
  "path_points_next s =
     (if pp_remaining s = 0 then
        (if pp_buf s \<noteq> [] then Inl (Err_Msg ''invalid message length: path points not drained'')
         else Inr (None, s))
      else
        (let s = s\<lparr>pp_remaining := pp_remaining s - 1\<rparr> in
         bind_res (map_err Err_Io (read_u64 (pp_buf s))) (\<lambda>(x, b).
         bind_res (map_err Err_Io (read_u64 b)) (\<lambda>(y, b).
         Inr (Some \<lparr>pt_x = x, pt_y = y\<rparr>, s\<lparr>pp_buf := b\<rparr>)))))"

end
