(* ===== verification/Sql_Container_Laws.thy ===== *)
theory Sql_Container_Laws
  imports Sql_Containers
begin

text \<open>
  What the readers of values with parts promise: every iterator ends, every writer's output reads
  back, and the accessors of an accepted array never slice out of bounds. The hstore reader is the
  exception: it panics on a truncated value.
\<close>

section \<open>Shared lemmas\<close>

lemma of_nat_Suc_i32:
  "Suc n \<le> 2147483647 \<Longrightarrow> (of_nat (Suc n) :: i32) \<noteq> 0 \<and> of_nat (Suc n) - 1 = (of_nat n :: i32)"
proof
  assume n: "Suc n \<le> 2147483647"
  then have "unat (of_nat (Suc n) :: i32) = Suc n" by (rule unat_of_nat_i32)
  then show "(of_nat (Suc n) :: i32) \<noteq> 0" by auto
qed simp

lemma of_nat_i32_eq_0: "n \<le> 2147483647 \<Longrightarrow> (of_nat n :: i32) = 0 \<longleftrightarrow> n = 0"
  using unat_of_nat_i32 [of n] unat_eq_zero [of "of_nat n :: i32"] by auto

lemma read_be_shorter [wire_len]:
  "8 dvd LENGTH('a::len) \<Longrightarrow> read_be b = Inr (w :: 'a word, r) \<Longrightarrow> length b = LENGTH('a) div 8 + length r"
  by (simp add: read_be_Inr)

lemmas read32_shorter = read_be_shorter [where ?'a = 32, simplified]
lemmas read64_shorter = read_be_shorter [where ?'a = 64, simplified]

lemma nullable_some: "nullable_bytes (Some d) = be_word (of_nat (length d) :: i32) @ d"
  by (simp add: nullable_bytes_def)

lemma nullable_none: "nullable_bytes None = be_word (- 1 :: i32)"
  by (simp add: nullable_bytes_def)

lemmas nullable_eqs = nullable_some nullable_none

section \<open>The iterators end\<close>

interpretation hstore_iter: fallible_iter hstore_next "\<lambda>s. length (hs_buf s)"
  by unfold_locales (auto simp: hstore_next_def Let_def dest!: read32_shorter split: if_splits)

interpretation dims_iter: fallible_iter array_dimensions_next length
  by unfold_locales (auto simp: array_dimensions_next_def dest!: read32_shorter split: if_splits)

interpretation values_iter: fallible_iter array_values_next "\<lambda>s. length (av_buf s)"
  by unfold_locales (auto simp: array_values_next_def Let_def dest!: read32_shorter split: if_splits)

interpretation points_iter: fallible_iter path_points_next "\<lambda>s. length (pp_buf s)"
  by unfold_locales (auto simp: path_points_next_def Let_def dest!: read64_shorter split: if_splits)

text \<open>
  Draining the entries of an hstore, the dimensions and values of an array, or the points of a
  path ends on every input, even when the count in the header is negative or larger than the data.
\<close>

lemma sql_iterators_end:
  "(\<exists>r. collect (Suc (length (hs_buf h))) hstore_next h = Some r) \<and>
   (\<exists>r. collect (Suc (length d)) array_dimensions_next d = Some r) \<and>
   (\<exists>r. collect (Suc (length (av_buf v))) array_values_next v = Some r) \<and>
   (\<exists>r. collect (Suc (length (pp_buf p))) path_points_next p = Some r)"
  by (intro conjI hstore_iter.collect_total dims_iter.collect_total values_iter.collect_total
      points_iter.collect_total lessI)

section \<open>HSTORE\<close>

definition entry_ok :: "hstore_entry \<Rightarrow> bool" where
  "entry_ok e \<longleftrightarrow> utf8_valid (fst e) \<and> fits_i32 (Some (fst e)) \<and> fits_i32 (snd e) \<and>
     (\<forall>v. snd e = Some v \<longrightarrow> utf8_valid v)"

definition entry_bytes :: "hstore_entry \<Rightarrow> bytes" where
  "entry_bytes e = nullable_bytes (Some (fst e)) @ nullable_bytes (snd e)"

definition mk_hstore :: "hstore_entry list \<Rightarrow> hstore_entries" where
  "mk_hstore es = \<lparr>hs_remaining = of_nat (length es), hs_buf = concat (map entry_bytes es)\<rparr>"

lemma hstore_step:
  assumes "entry_ok e" "Suc n \<le> 2147483647"
  shows "hstore_next \<lparr>hs_remaining = of_nat (Suc n), hs_buf = entry_bytes e @ r\<rparr> =
    Inr (Some e, \<lparr>hs_remaining = of_nat n, hs_buf = r\<rparr>)"
proof (cases "snd e")
  case None
  with assms of_nat_Suc_i32 [OF assms(2)] show ?thesis
    by (cases e)
      (simp add: hstore_next_def entry_bytes_def entry_ok_def nullable_eqs fits_i32_def Let_def from_utf8_def
        del: of_nat_Suc bind_res_Inr)
next
  case (Some v)
  with assms of_nat_Suc_i32 [OF assms(2)] show ?thesis
    by (cases e)
      (simp add: hstore_next_def entry_bytes_def entry_ok_def nullable_eqs fits_i32_def Let_def from_utf8_def
        del: of_nat_Suc bind_res_Inr)
qed

interpretation hstore_source: iter_source hstore_next "\<lambda>s. length (hs_buf s)" mk_hstore
  "\<lambda>es. length es \<le> 2147483647 \<and> list_all entry_ok es"
proof
  show "\<exists>s. hstore_next (mk_hstore []) = Inr (None, s)"
    by (simp add: hstore_next_def mk_hstore_def)
  fix e es
  assume "length (e # es) \<le> 2147483647 \<and> list_all entry_ok (e # es)"
  then show "hstore_next (mk_hstore (e # es)) = Inr (Some e, mk_hstore es) \<and>
      (length es \<le> 2147483647 \<and> list_all entry_ok es)"
    using hstore_step [of e "length es"] by (simp add: mk_hstore_def del: of_nat_Suc)
qed

lemma hstore_each_ok:
  "list_all entry_ok es \<Longrightarrow> hstore_each es buf = Inr (buf @ concat (map entry_bytes es))"
proof (induction es arbitrary: buf)
  case Nil
  then show ?case by simp
next
  case (Cons e es)
  then show ?case
    by (cases e; cases "snd e")
      (simp_all add: write_pascal_string_def entry_ok_def fits_i32_def entry_bytes_def nullable_eqs
        del: bind_res_Inr)
qed

lemma hstore_to_sql_ok:
  assumes "length es \<le> 2147483647" "list_all entry_ok es"
  shows "hstore_to_sql es buf = Inr (buf @ be_word (of_nat (length es) :: i32) @ concat (map entry_bytes es))"
  using assms by (simp add: hstore_to_sql_def hstore_each_ok del: bind_res_Inr)

text \<open>
  An hstore of at most \<open>2 ^ 31 - 1\<close> entries whose keys and values are UTF-8 and fit a 32-bit length
  is written without error and reads back entry by entry, NULL values included, in the same order.
\<close>

lemma hstore_roundtrip:
  assumes "length es \<le> 2147483647" "list_all entry_ok es"
  shows "\<exists>b h. hstore_to_sql es [] = Inr b \<and> hstore_from_sql b = Inr h \<and>
    collect (Suc (length (hs_buf h))) hstore_next h = Some (Inr es)"
proof -
  have "hstore_from_sql (be_word (of_nat (length es) :: i32) @ concat (map entry_bytes es)) =
      Inr (mk_hstore es)"
    using assms(1) by (simp add: hstore_from_sql_def mk_hstore_def del: bind_res_Inr)
  with hstore_to_sql_ok [OF assms, of "[]"] hstore_source.collect_mk_sz [of es] assms
  show ?thesis by auto
qed

theorem hstore_roundtrip_witness:
  "\<exists>b h. hstore_to_sql [([97], Some [98]), ([99], None)] [] = Inr b \<and> hstore_from_sql b = Inr h \<and>
    collect (Suc (length (hs_buf h))) hstore_next h = Some (Inr [([97], Some [98]), ([99], None)])"
  by (rule hstore_roundtrip) (simp_all add: entry_ok_def fits_i32_def utf8_valid_ascii)

text \<open>
  The reader does not report a truncated hstore as an error: when the buffer ends inside the first
  key, the header is accepted and draining the entries panics.
\<close>

lemma hstore_truncation_panics:
  assumes "0 < n" "n \<le> 2147483647" "length key \<le> 2147483647" "j < length key"
  shows "\<exists>h. hstore_from_sql (be_word (of_nat n :: i32) @ be_word (of_nat (length key) :: i32) @ take j key)
      = Inr h \<and> collect (Suc (length (hs_buf h))) hstore_next h = Some (Inl Panic)"
proof -
  from assms(1) obtain m where n: "n = Suc m" by (cases n) auto
  let ?b = "be_word (of_nat (length key) :: i32) @ take j key"
  have "hstore_from_sql (be_word (of_nat n :: i32) @ ?b) = Inr \<lparr>hs_remaining = of_nat n, hs_buf = ?b\<rparr>"
    using assms(2) by (simp add: hstore_from_sql_def del: bind_res_Inr)
  moreover have "hstore_next \<lparr>hs_remaining = of_nat n, hs_buf = ?b\<rparr> = Inl Panic"
    using assms of_nat_Suc_i32 [of m] by (simp add: n hstore_next_def Let_def del: of_nat_Suc bind_res_Inr)
  ultimately show ?thesis by simp
qed

theorem hstore_truncation_panics_witness:
  "\<exists>h. hstore_from_sql (be_word (1 :: i32) @ be_word (of_nat (length [97, 98 :: u8]) :: i32) @
      take 1 [97, 98]) = Inr h \<and> collect (Suc (length (hs_buf h))) hstore_next h = Some (Inl Panic)"
  using hstore_truncation_panics [of 1 "[97, 98]" 1] by simp

section \<open>VARBIT\<close>

text \<open>
  A bit string is accepted as \<open>v\<close> iff its byte count is the bit count divided by eight, rounded up,
  and the buffer is what the writer produces for it.
\<close>

lemma varbit_accepts:
  "varbit_from_sql b = Inr v \<longleftrightarrow>
     length (vb_bytes v) = (vb_len v + 7) div 8 \<and> varbit_to_sql (vb_len v) (vb_bytes v) [] = Inr b"
proof
  assume "varbit_from_sql b = Inr v"
  then obtain len r where rd: "read_i32 b = Inr (len, r)" "\<not> sint len < 0"
    "length r = (unat len + 7) div 8" "v = \<lparr>vb_len = unat len, vb_bytes = r\<rparr>"
    by (auto simp: varbit_from_sql_def Let_def split: if_splits)
  with unat_nonneg_i32 [OF rd(2)] show "length (vb_bytes v) = (vb_len v + 7) div 8 \<and>
      varbit_to_sql (vb_len v) (vb_bytes v) [] = Inr b"
    by (auto simp: varbit_to_sql_def read_be_Inr)
next
  assume a: "length (vb_bytes v) = (vb_len v + 7) div 8 \<and>
    varbit_to_sql (vb_len v) (vb_bytes v) [] = Inr b"
  then have "vb_len v \<le> 2147483647" "b = be_word (of_nat (vb_len v) :: i32) @ vb_bytes v"
    by (auto simp: varbit_to_sql_def i32_from_usize_Inr)
  with a show "varbit_from_sql b = Inr v"
    by (simp add: varbit_from_sql_def Let_def del: bind_res_Inr)
qed

section \<open>Arrays\<close>

definition dim_bytes :: "array_dimension \<Rightarrow> bytes" where
  "dim_bytes d = be_word (ad_len d) @ be_word (ad_lower_bound d)"

abbreviation dims_bytes :: "array_dimension list \<Rightarrow> bytes" where
  "dims_bytes ds \<equiv> concat (map dim_bytes ds)"

text \<open>The number of elements the dimensions announce, before the empty array is set apart.\<close>

definition dims_size :: "array_dimension list \<Rightarrow> int" where
  "dims_size ds = prod_list (map (\<lambda>d. sint (ad_len d)) ds)"

lemma dims_size_simps [simp]:
  "dims_size [] = 1"
  "dims_size (d # ds) = sint (ad_len d) * dims_size ds"
  by (simp_all add: dims_size_def)

lemma length_dim_bytes [simp]: "length (dim_bytes d) = 8"
  by (simp add: dim_bytes_def)

lemma length_dims_bytes [simp]: "length (dims_bytes ds) = 8 * length ds"
  by (induction ds) simp_all

lemma write_dimensions_eq: "write_dimensions ds buf = buf @ dims_bytes ds"
  by (induction ds arbitrary: buf) (simp_all add: dim_bytes_def)

interpretation dims_source: iter_source array_dimensions_next length dims_bytes "\<lambda>_. True"
proof
  show "\<exists>s. array_dimensions_next (dims_bytes []) = Inr (None, s)"
    by (simp add: array_dimensions_next_def)
  fix d :: array_dimension and ds
  have "dim_bytes d @ r \<noteq> []" for r
    by (metis append_is_Nil_conv length_dim_bytes list.size(3) zero_neq_numeral)
  then have "array_dimensions_next (dim_bytes d @ r) = Inr (Some d, r)" for r
    unfolding array_dimensions_next_def by (simp add: dim_bytes_def del: bind_res_Inr)
  then show "array_dimensions_next (dims_bytes (d # ds)) = Inr (Some d, dims_bytes ds) \<and> True"
    by simp
qed

lemma checked_mul_eq:
  "checked_mul a b =
    (if sint a * sint b < - 2147483648 \<or> 2147483647 < sint a * sint b then None
     else Some (word_of_int (sint a * sint b)))"
  by (simp add: checked_mul_def Let_def)

lemma sint_word_of_int_i32:
  "- 2147483648 \<le> p \<Longrightarrow> p \<le> 2147483647 \<Longrightarrow> sint (word_of_int p :: i32) = p"
  by (simp add: signed_of_int signed_take_bit_int_eq_self)

lemma checked_mul_ok:
  "0 < sint a * sint b \<Longrightarrow> sint a * sint b \<le> 2147483647 \<Longrightarrow>
     checked_mul a b = Some (word_of_int (sint a * sint b))"
  unfolding checked_mul_eq by (rule if_not_P) linarith

lemma checked_mul_Some: "checked_mul a b = Some c \<Longrightarrow> sint c = sint a * sint b"
  using sint_word_of_int_i32 [of "sint a * sint b"] unfolding checked_mul_eq
  by (metis linorder_not_less option.distinct(1) option.inject)

lemma count_elements_Inr:
  "count_elements n r e = Inr k \<Longrightarrow>
     \<exists>ds rest. r = dims_bytes ds @ rest \<and> length ds = n \<and>
       list_all (\<lambda>d. 0 \<le> sint (ad_len d)) ds \<and> sint k = sint e * dims_size ds"
proof (induction n arbitrary: r e)
  case 0
  then show ?case by simp
next
  case (Suc n)
  then obtain len lb r2 e' where st: "r = be_word len @ be_word (lb :: i32) @ r2" "0 \<le> sint len"
    "checked_mul e len = Some e'" "count_elements n r2 e' = Inr k"
    by (auto simp: read_be_Inr split: if_splits option.splits)
  from Suc.IH [OF st(4)] obtain ds rest where ih: "r2 = dims_bytes ds @ rest" "length ds = n"
    "list_all (\<lambda>d. 0 \<le> sint (ad_len d)) ds" "sint k = sint e' * dims_size ds"
    by blast
  then show ?case
    using st checked_mul_Some [OF st(3)]
    by (intro exI [of _ "\<lparr>ad_len = len, ad_lower_bound = lb\<rparr> # ds"] exI [of _ rest])
      (simp add: dim_bytes_def [of "\<lparr>ad_len = len, ad_lower_bound = lb\<rparr>"])
qed

lemma array_from_sql_Inr:
  assumes "array_from_sql b = Inr a"
  shows "\<exists>ds rest. arr_buf a = dims_bytes ds @ rest \<and> length ds = unat (arr_dimensions a) \<and>
    list_all (\<lambda>d. 0 \<le> sint (ad_len d)) ds \<and>
    sint (arr_elements a) = (if ds = [] then 0 else dims_size ds)"
proof -
  from assms obtain dims nulls buf k where st: "count_elements (unat dims) buf 1 = Inr k"
    and a: "arr_dimensions a = dims" "arr_elements a = (if dims = 0 then 0 else k)" "arr_buf a = buf"
    by (auto simp: array_from_sql_def split: if_splits)
  from count_elements_Inr [OF st] obtain ds rest where ds: "buf = dims_bytes ds @ rest"
    "length ds = unat dims" "list_all (\<lambda>d. 0 \<le> sint (ad_len d)) ds" "sint k = dims_size ds"
    by auto
  have "ds = [] \<longleftrightarrow> dims = 0" using ds(2) by (metis length_0_conv unat_eq_zero)
  with ds a show ?thesis by auto
qed

text \<open>
  The accessors of an accepted array cannot panic: its buffer holds all its dimensions, they read
  back as the announced number of sizes, none negative, and the element count is their product without
  overflow (0 when there is no dimension).
\<close>

lemma array_accessors_safe:
  assumes "array_from_sql b = Inr a"
  shows "\<exists>d v ds. array_dimensions a = Some d \<and> array_values a = Some v \<and>
    collect (Suc (length d)) array_dimensions_next d = Some (Inr ds) \<and>
    length ds = unat (arr_dimensions a) \<and> list_all (\<lambda>d. 0 \<le> sint (ad_len d)) ds \<and>
    sint (av_remaining v) = (if ds = [] then 0 else dims_size ds)"
proof -
  from array_from_sql_Inr [OF assms] obtain ds rest where ds: "arr_buf a = dims_bytes ds @ rest"
    "length ds = unat (arr_dimensions a)" "list_all (\<lambda>d. 0 \<le> sint (ad_len d)) ds"
    "sint (arr_elements a) = (if ds = [] then 0 else dims_size ds)" by blast
  have "array_dimensions a = Some (dims_bytes ds)"
    "array_values a = Some \<lparr>av_remaining = arr_elements a, av_buf = rest\<rparr>"
    using ds(1) by (simp_all add: array_dimensions_def array_values_def ds(2) [symmetric])
  with ds(2-4) dims_source.collect_mk_sz [of ds] show ?thesis
    by (intro exI [of _ "dims_bytes ds"] exI [of _ "\<lparr>av_remaining = arr_elements a, av_buf = rest\<rparr>"]
        exI [of _ ds]) (simp del: collect.simps)
qed

definition mk_values :: "bytes option list \<Rightarrow> array_values" where
  "mk_values vs = \<lparr>av_remaining = of_nat (length vs), av_buf = concat (map nullable_bytes vs)\<rparr>"

interpretation values_source: iter_source array_values_next "\<lambda>s. length (av_buf s)" mk_values
  "\<lambda>vs. length vs \<le> 2147483647 \<and> list_all fits_i32 vs"
proof
  show "\<exists>s. array_values_next (mk_values []) = Inr (None, s)"
    by (simp add: array_values_next_def mk_values_def)
  fix v vs
  assume ok: "length (v # vs) \<le> 2147483647 \<and> list_all fits_i32 (v # vs)"
  then have n: "(of_nat (Suc (length vs)) :: i32) \<noteq> 0" "of_nat (Suc (length vs)) - 1 = (of_nat (length vs) :: i32)"
    using of_nat_Suc_i32 [of "length vs"] by simp_all
  with ok show "array_values_next (mk_values (v # vs)) = Inr (Some v, mk_values vs) \<and>
      (length vs \<le> 2147483647 \<and> list_all fits_i32 vs)"
    by (cases v) (simp_all add: array_values_next_def mk_values_def nullable_eqs fits_i32_def Let_def
        del: of_nat_Suc bind_res_Inr)
qed

lemma write_elements_ok:
  assumes "\<And>x. x \<in> set xs \<Longrightarrow> serializes (ser x) (enc x) \<and> fits_i32 (enc x)"
  shows "write_elements into ser xs nulls buf =
    Inr (nulls \<or> None \<in> enc ` set xs, buf @ concat (map (\<lambda>x. nullable_bytes (enc x)) xs))"
  using assms
proof (induction xs arbitrary: nulls buf)
  case Nil
  then show ?case by simp
next
  case (Cons x xs)
  have x: "serializes (ser x) (enc x)" "fits_i32 (enc x)" using Cons.prems by auto
  have nn: "note_null (ser x (buf @ be_word (0 :: i32))) nulls = (nulls \<or> enc x = None)"
    using x(1) by (cases "enc x") (simp_all add: serializes_def note_null_def)
  have "write_elements into ser xs (nulls \<or> enc x = None) (buf @ nullable_bytes (enc x)) =
      Inr ((nulls \<or> enc x = None) \<or> None \<in> enc ` set xs,
        (buf @ nullable_bytes (enc x)) @ concat (map (\<lambda>x. nullable_bytes (enc x)) xs))"
    using Cons.prems by (intro Cons.IH) simp
  then show ?case
    using x nn by (auto simp: Let_def write_nullable_ok)
qed

lemma count_elements_ok:
  "list_all (\<lambda>d. 0 < sint (ad_len d)) ds \<Longrightarrow> 0 < sint e \<Longrightarrow> sint e * dims_size ds \<le> 2147483647 \<Longrightarrow>
     \<exists>k. count_elements (length ds) (dims_bytes ds @ rest) e = Inr k \<and> sint k = sint e * dims_size ds"
proof (induction ds arbitrary: e)
  case Nil
  then show ?case by simp
next
  case (Cons d ds)
  let ?p = "sint e * sint (ad_len d)"
  have pos: "1 \<le> dims_size ds" using Cons.prems(1)
    by (induction ds) (auto simp: int_one_le_iff_zero_less)
  have p: "0 < ?p" using Cons.prems by simp
  have le: "?p * dims_size ds \<le> 2147483647" using Cons.prems(3) by (simp add: mult.assoc)
  moreover have "?p * 1 \<le> ?p * dims_size ds" using pos p by (intro mult_left_mono) simp_all
  ultimately have "?p \<le> 2147483647" by simp
  then have mul: "checked_mul e (ad_len d) = Some (word_of_int ?p)"
    and val: "sint (word_of_int ?p :: i32) = ?p"
    using p checked_mul_ok sint_word_of_int_i32 [of ?p] by (blast, linarith)
  from Cons.IH [of "word_of_int ?p"] Cons.prems(1) p le val obtain k where
    "count_elements (length ds) (dims_bytes ds @ rest) (word_of_int ?p) = Inr k"
    "sint k = ?p * dims_size ds" by auto
  then show ?case
    using Cons.prems(1) mul by (simp add: dim_bytes_def [of d] mult.assoc del: bind_res_Inr)
qed

lemma array_to_sql_at:
  assumes "length ds \<le> 2147483647"
    and "\<And>x. x \<in> set xs \<Longrightarrow> serializes (ser x) (enc x) \<and> fits_i32 (enc x)"
  shows "array_to_sql into ds ty xs ser b = Inr (b @ be_word (of_nat (length ds) :: i32) @
    be_word (if None \<in> enc ` set xs then 1 else 0 :: i32) @ be_word ty @ dims_bytes ds @
    concat (map nullable_bytes (map enc xs)))"
proof -
  let ?buf = "b @ be_word (of_nat (length ds) :: i32) @ be_word (0 :: i32) @ be_word ty @ dims_bytes ds"
  have "patch (length b) (be_word (of_nat (length ds) :: i32)) (b @ be_word (0 :: i32) @ r) =
      b @ be_word (of_nat (length ds) :: i32) @ r" for r
    using patch_append [of "be_word (0 :: i32)" "be_word (of_nat (length ds) :: i32)" b r] by simp
  moreover have "patch (length b + 4) (be_word (f :: i32)) (b @ be_word (of_nat (length ds) :: i32) @ be_word (0 :: i32) @ r) =
      b @ be_word (of_nat (length ds) :: i32) @ be_word f @ r" for f r
    using patch_append [of "be_word (0 :: i32)" "be_word f" "b @ be_word (of_nat (length ds) :: i32)" r] by simp
  moreover have "write_elements into ser xs False ?buf =
      Inr (None \<in> enc ` set xs, ?buf @ concat (map (\<lambda>x. nullable_bytes (enc x)) xs))"
    using write_elements_ok [OF assms(2), of xs "\<lambda>x. x" into False ?buf] by simp
  ultimately show ?thesis
    using assms(1) by (simp add: array_to_sql_def Let_def write_dimensions_eq comp_def del: bind_res_Inr)
qed

lemmas array_to_sql_ok = array_to_sql_at [where b = "[]", unfolded append_Nil]

text \<open>
  An array whose dimensions are positive and multiply to the number of its elements (or that has
  neither) is written without error and reads back: the element type, whether it has a NULL, the
  dimensions with their lower bounds, and the elements in order.
\<close>

lemma array_roundtrip:
  assumes "list_all (\<lambda>d. 0 < sint (ad_len d)) ds" "length ds \<le> 2147483647"
    and "int (length xs) = (if ds = [] then 0 else dims_size ds)" "length xs \<le> 2147483647"
    and "\<And>x. x \<in> set xs \<Longrightarrow> serializes (ser x) (enc x) \<and> fits_i32 (enc x)"
  shows "\<exists>b a d v. array_to_sql into ds ty xs ser [] = Inr b \<and> array_from_sql b = Inr a \<and>
    arr_element_type a = ty \<and> arr_has_nulls a = (None \<in> enc ` set xs) \<and>
    array_dimensions a = Some d \<and> collect (Suc (length d)) array_dimensions_next d = Some (Inr ds) \<and>
    array_values a = Some v \<and>
    collect (Suc (length (av_buf v))) array_values_next v = Some (Inr (map enc xs))"
proof -
  let ?vals = "concat (map nullable_bytes (map enc xs))"
  let ?nulls = "if None \<in> enc ` set xs then 1 else 0 :: i32"
  let ?b = "be_word (of_nat (length ds) :: i32) @ be_word ?nulls @ be_word ty @ dims_bytes ds @ ?vals"
  have enc: "array_to_sql into ds ty xs ser [] = Inr ?b"
    using assms(2) by (rule array_to_sql_ok) (rule assms(5))
  have "\<exists>k. count_elements (length ds) (dims_bytes ds @ ?vals) 1 = Inr k \<and> sint k = dims_size ds"
  proof (cases "ds = []")
    case False
    with assms(3,4) have "dims_size ds \<le> 2147483647" by simp
    then show ?thesis using count_elements_ok [OF assms(1), of 1 ?vals] by simp
  qed simp
  then obtain k where k: "count_elements (length ds) (dims_bytes ds @ ?vals) 1 = Inr k"
    "sint k = dims_size ds" by blast
  let ?n = "if ds = [] then 0 else k"
  have n: "?n = of_nat (length xs)"
  proof (cases "ds = []")
    case True
    then show ?thesis using assms(3) by simp
  next
    case False
    then have "sint k = sint (of_nat (length xs) :: i32)" using k assms(3,4) by simp
    with False show ?thesis by (simp add: signed_word_eqI)
  qed
  define a where "a = \<lparr>arr_dimensions = of_nat (length ds), arr_has_nulls = (?nulls \<noteq> 0),
      arr_element_type = ty, arr_elements = ?n, arr_buf = dims_bytes ds @ ?vals\<rparr>"
  have dec: "array_from_sql ?b = Inr a"
    using k(1) assms(2) of_nat_i32_eq_0 [OF assms(2)]
    by (simp add: array_from_sql_def a_def del: bind_res_Inr)
  have "array_values a = Some (mk_values (map enc xs))" "array_dimensions a = Some (dims_bytes ds)"
    using assms(2) n
    by (simp_all add: a_def array_values_def array_dimensions_def mk_values_def)
  moreover have "list_all fits_i32 (map enc xs)" using assms(5) by (simp add: list_all_iff)
  then have "collect (Suc (length (av_buf (mk_values (map enc xs))))) array_values_next (mk_values (map enc xs)) =
      Some (Inr (map enc xs))"
    using assms(4) by (intro values_source.collect_mk_sz) simp
  moreover have "arr_element_type a = ty" "arr_has_nulls a = (None \<in> enc ` set xs)"
    by (simp_all add: a_def)
  ultimately show ?thesis
    using enc dec dims_source.collect_mk_sz [of ds] by blast
qed

theorem array_roundtrip_witness:
  "\<exists>b a d v. array_to_sql (\<lambda>e. e) [\<lparr>ad_len = 2, ad_lower_bound = 1\<rparr>] 25 [Some [97], None]
      (\<lambda>x buf. case x of None \<Rightarrow> Inr (Yes, buf) | Some s \<Rightarrow> Inr (No, buf @ s)) [] = Inr b \<and>
    array_from_sql b = Inr a \<and> arr_element_type a = 25 \<and>
    arr_has_nulls a = (None \<in> (\<lambda>x. x) ` set [Some [97 :: u8], None]) \<and>
    array_dimensions a = Some d \<and>
    collect (Suc (length d)) array_dimensions_next d = Some (Inr [\<lparr>ad_len = 2, ad_lower_bound = 1\<rparr>]) \<and>
    array_values a = Some v \<and>
    collect (Suc (length (av_buf v))) array_values_next v = Some (Inr (map (\<lambda>x. x) [Some [97], None]))"
  by (rule array_roundtrip) (auto simp: serializes_def fits_i32_def split: option.splits)

section \<open>Ranges\<close>

definition bound_ok :: "bytes option range_bound \<Rightarrow> bool" where
  "bound_ok l = (case l of Inclusive v \<Rightarrow> fits_i32 v | Exclusive v \<Rightarrow> fits_i32 v | Unbounded \<Rightarrow> True)"

definition bound_bytes :: "bytes option range_bound \<Rightarrow> bytes" where
  "bound_bytes l =
     (case l of Inclusive v \<Rightarrow> nullable_bytes v | Exclusive v \<Rightarrow> nullable_bytes v | Unbounded \<Rightarrow> [])"

text \<open>
  A closure that writes the bound \<open>l\<close> wherever it starts: the value of the bound, nothing for NULL, and
  for an unbounded side whatever it likes, since the code truncates the buffer again.
\<close>

definition writes_bound ::
  "(bytes \<Rightarrow> sql_error + (is_null range_bound \<times> bytes)) \<Rightarrow> bytes option range_bound \<Rightarrow> bool" where
  "writes_bound f l \<longleftrightarrow>
     (\<forall>buf. case l of
        Inclusive None \<Rightarrow> f buf = Inr (Inclusive Yes, buf)
      | Inclusive (Some d) \<Rightarrow> f buf = Inr (Inclusive No, buf @ d)
      | Exclusive None \<Rightarrow> f buf = Inr (Exclusive Yes, buf)
      | Exclusive (Some d) \<Rightarrow> f buf = Inr (Exclusive No, buf @ d)
      | Unbounded \<Rightarrow> (\<exists>junk. f buf = Inr (Unbounded, buf @ junk)))"

definition shape :: "'a range_bound \<Rightarrow> unit range_bound" where
  "shape l = (case l of Inclusive _ \<Rightarrow> Inclusive () | Exclusive _ \<Rightarrow> Exclusive () | Unbounded \<Rightarrow> Unbounded)"

lemma write_bound_ok:
  assumes "writes_bound f l" "bound_ok l"
  shows "write_bound f buf = Inr (shape l, buf @ bound_bytes l)"
proof (cases l)
  case (Inclusive v)
  then show ?thesis using assms
    by (cases v) (simp_all add: write_bound_def writes_bound_def bound_ok_def fits_i32_def bound_bytes_def
        nullable_eqs shape_def Let_def del: bind_res_Inr)
next
  case (Exclusive v)
  then show ?thesis using assms
    by (cases v) (simp_all add: write_bound_def writes_bound_def bound_ok_def fits_i32_def bound_bytes_def
        nullable_eqs shape_def Let_def del: bind_res_Inr)
next
  case Unbounded
  then have "\<forall>buf. \<exists>junk. f buf = Inr (Unbounded, buf @ junk)"
    using assms(1) by (simp add: writes_bound_def)
  then obtain junk where "f (buf @ be_word (0 :: i32)) = Inr (Unbounded, (buf @ be_word (0 :: i32)) @ junk)"
    by blast
  with Unbounded show ?thesis
    by (simp add: write_bound_def bound_bytes_def shape_def Let_def)
qed

lemma read_bound_ok:
  assumes "bound_ok l"
    and "(tag AND unbounded \<noteq> 0) = (l = Unbounded)" "(tag AND inclusive \<noteq> 0) = (\<exists>v. l = Inclusive v)"
  shows "read_bound tag unbounded inclusive (bound_bytes l @ r) = Inr (l, r)"
proof -
  have v: "read_i32 (nullable_bytes v @ r) = Inr (case v of None \<Rightarrow> (- 1, r) | Some d \<Rightarrow> (of_nat (length d), d @ r))"
    for v by (cases v) (simp_all add: nullable_eqs)
  show ?thesis
  proof (cases l)
    case (Inclusive v)
    then show ?thesis using assms v [of v]
      by (cases v) (simp_all add: read_bound_def bound_bytes_def bound_ok_def fits_i32_def del: bind_res_Inr)
  next
    case (Exclusive v)
    then show ?thesis using assms v [of v]
      by (cases v) (simp_all add: read_bound_def bound_bytes_def bound_ok_def fits_i32_def del: bind_res_Inr)
  next
    case Unbounded
    then show ?thesis using assms by (simp add: read_bound_def bound_bytes_def)
  qed
qed

text \<open>The tag byte of a nonempty range.\<close>

definition range_tag :: "bytes option range_bound \<Rightarrow> bytes option range_bound \<Rightarrow> u8" where
  "range_tag l u =
     (case l of Inclusive _ \<Rightarrow> RANGE_LOWER_INCLUSIVE | Exclusive _ \<Rightarrow> 0 | Unbounded \<Rightarrow> RANGE_LOWER_UNBOUNDED) OR
     (case u of Inclusive _ \<Rightarrow> RANGE_UPPER_INCLUSIVE | Exclusive _ \<Rightarrow> 0 | Unbounded \<Rightarrow> RANGE_UPPER_UNBOUNDED)"

lemma range_tag_bits:
  "range_tag l u \<noteq> RANGE_EMPTY"
  "(range_tag l u AND RANGE_LOWER_UNBOUNDED \<noteq> 0) = (l = Unbounded)"
  "(range_tag l u AND RANGE_LOWER_INCLUSIVE \<noteq> 0) = (\<exists>v. l = Inclusive v)"
  "(range_tag l u AND RANGE_UPPER_UNBOUNDED \<noteq> 0) = (u = Unbounded)"
  "(range_tag l u AND RANGE_UPPER_INCLUSIVE \<noteq> 0) = (\<exists>v. u = Inclusive v)"
  by (cases l; cases u; simp add: range_tag_def)+

text \<open>
  A range with any combination of inclusive, exclusive and missing bounds is written without error
  and reads back with the same bounds; it is never confused with the empty range, and what a closure
  writes for a missing bound does not reach the wire.
\<close>

lemma range_roundtrip:
  assumes "writes_bound lower l" "bound_ok l" "writes_bound upper u" "bound_ok u"
  shows "\<exists>b. range_to_sql lower upper [] = Inr b \<and> range_from_sql b = Inr (Nonempty l u)"
proof -
  have tag: "range_tag l u = (case shape l of Inclusive _ \<Rightarrow> RANGE_LOWER_INCLUSIVE | Exclusive _ \<Rightarrow> 0
      | Unbounded \<Rightarrow> RANGE_LOWER_UNBOUNDED) OR (case shape u of Inclusive _ \<Rightarrow> RANGE_UPPER_INCLUSIVE
      | Exclusive _ \<Rightarrow> 0 | Unbounded \<Rightarrow> RANGE_UPPER_UNBOUNDED)"
    by (cases l; cases u) (simp_all add: range_tag_def shape_def)
  have "range_to_sql lower upper [] = Inr (range_tag l u # bound_bytes l @ bound_bytes u)"
    using write_bound_ok [OF assms(1,2)] write_bound_ok [OF assms(3,4)]
    by (simp add: range_to_sql_def tag Let_def del: bind_res_Inr)
  moreover have "read_bound (range_tag l u) RANGE_LOWER_UNBOUNDED RANGE_LOWER_INCLUSIVE
      (bound_bytes l @ bound_bytes u) = Inr (l, bound_bytes u)"
    by (rule read_bound_ok) (simp_all only: assms range_tag_bits)
  moreover have "read_bound (range_tag l u) RANGE_UPPER_UNBOUNDED RANGE_UPPER_INCLUSIVE
      (bound_bytes u @ []) = Inr (u, [])"
    by (rule read_bound_ok) (simp_all only: assms range_tag_bits)
  ultimately show ?thesis
    using range_tag_bits(1) [of l u] by (simp add: range_from_sql_def del: bind_res_Inr)
qed

theorem range_roundtrip_witness:
  "\<exists>b. range_to_sql (\<lambda>buf. Inr (Inclusive No, buf @ [7])) (\<lambda>buf. Inr (Unbounded, buf @ [9])) [] = Inr b \<and>
    range_from_sql b = Inr (Nonempty (Inclusive (Some [7])) Unbounded)"
  by (rule range_roundtrip) (simp_all add: writes_bound_def bound_ok_def fits_i32_def)

lemma empty_range_roundtrip: "range_from_sql (empty_range_to_sql []) = Inr Empty"
  by (simp add: range_from_sql_def empty_range_to_sql_def)

section \<open>Paths\<close>

definition point_bytes :: "point \<Rightarrow> bytes" where
  "point_bytes p = be_word (pt_x p) @ be_word (pt_y p)"

definition mk_points :: "point list \<Rightarrow> path_points" where
  "mk_points ps = \<lparr>pp_remaining = of_nat (length ps), pp_buf = concat (map point_bytes ps)\<rparr>"

interpretation points_source: iter_source path_points_next "\<lambda>s. length (pp_buf s)" mk_points
  "\<lambda>ps. length ps \<le> 2147483647"
proof
  show "\<exists>s. path_points_next (mk_points []) = Inr (None, s)"
    by (simp add: path_points_next_def mk_points_def)
  fix p :: point and ps
  assume "length (p # ps) \<le> 2147483647"
  then show "path_points_next (mk_points (p # ps)) = Inr (Some p, mk_points ps) \<and> length ps \<le> 2147483647"
    using of_nat_Suc_i32 [of "length ps"]
    by (simp add: path_points_next_def mk_points_def point_bytes_def [of p] Let_def
        del: of_nat_Suc bind_res_Inr)
qed

lemma write_points_eq:
  "write_points (map (\<lambda>p. (pt_x p, pt_y p)) ps) buf = buf @ concat (map point_bytes ps)"
  by (induction ps arbitrary: buf) (simp_all add: point_bytes_def)

text \<open>
  A path of at most \<open>2 ^ 31 - 1\<close> points reads back as written, closed or open.
\<close>

lemma path_roundtrip:
  assumes "length ps \<le> 2147483647"
  shows "\<exists>b p. path_to_sql closed (map (\<lambda>p. (pt_x p, pt_y p)) ps) [] = Inr b \<and> path_from_sql b = Inr p \<and>
    pa_closed p = closed \<and>
    collect (Suc (length (pa_buf p))) path_points_next (path_points p) = Some (Inr ps)"
proof -
  let ?b = "(if closed then 1 else 0) # be_word (of_nat (length ps) :: i32) @ concat (map point_bytes ps)"
  let ?p = "\<lparr>pa_closed = closed, pa_points = of_nat (length ps), pa_buf = concat (map point_bytes ps)\<rparr>"
  have "path_to_sql closed (map (\<lambda>p. (pt_x p, pt_y p)) ps) [] = Inr ?b"
    using assms patch_append [of "be_word (0 :: i32)" "be_word (of_nat (length ps) :: i32)"
        "[if closed then 1 else 0]" "concat (map point_bytes ps)"]
    by (simp add: path_to_sql_def Let_def write_points_eq del: bind_res_Inr)
  moreover have "path_from_sql ?b = Inr ?p"
    by (simp add: path_from_sql_def del: bind_res_Inr)
  moreover have "path_points ?p = mk_points ps"
    by (simp add: path_points_def mk_points_def)
  ultimately show ?thesis
    using points_source.collect_mk_sz [OF assms] by (simp add: mk_points_def del: collect.simps)
qed

theorem path_roundtrip_witness:
  "\<exists>b p. path_to_sql True (map (\<lambda>p. (pt_x p, pt_y p)) [\<lparr>pt_x = 1, pt_y = 2\<rparr>]) [] = Inr b \<and>
    path_from_sql b = Inr p \<and> pa_closed p = True \<and>
    collect (Suc (length (pa_buf p))) path_points_next (path_points p) = Some (Inr [\<lparr>pt_x = 1, pt_y = 2\<rparr>])"
  by (rule path_roundtrip) simp

end
