(* ===== verification/Crates.thy ===== *)
theory Crates
  imports Hex
begin

text \<open>
  The cryptographic crates the client calls (\<open>md-5\<close>, \<open>sha2\<close>, \<open>hmac\<close>, \<open>pbkdf2\<close>, \<open>hex\<close>, \<open>base64\<close>,
  \<open>stringprep\<close>), as one record of functions that every definition using them takes as an argument.
  A hash that is fed by several \<open>update\<close> calls is the hash of the concatenation.
  \<open>hash_lengths\<close>, \<open>hex_laws\<close> and \<open>base64_laws\<close> state what their documentation promises: the sizes of the
  digests, and that the decoders invert the encoders and accept only text of the right shape. Nothing is
  assumed about collisions.
\<close>

record crates =
  md5 :: "bytes \<Rightarrow> bytes"
  sha256 :: "bytes \<Rightarrow> bytes"
  hmac_sha256 :: "bytes \<Rightarrow> bytes \<Rightarrow> bytes"
  pbkdf2_sha1 :: "bytes \<Rightarrow> bytes \<Rightarrow> nat \<Rightarrow> nat \<Rightarrow> bytes"
  hexd :: "bytes \<Rightarrow> bytes option"
  b64_encode :: "bytes \<Rightarrow> bytes"
  b64_decode :: "bytes \<Rightarrow> bytes option"
  saslprep :: "bytes \<Rightarrow> bytes option"

definition hash_lengths :: "crates \<Rightarrow> bool" where
  "hash_lengths c \<longleftrightarrow>
     (\<forall>x. length (md5 c x) = 16) \<and> (\<forall>x. length (sha256 c x) = 32) \<and>
     (\<forall>k x. length (hmac_sha256 c k x) = 32)"

definition hex_laws :: "crates \<Rightarrow> bool" where
  "hex_laws c \<longleftrightarrow>
     (\<forall>x. hexd c (hex_encode x) = Some x) \<and> (\<forall>s x. hexd c s = Some x \<longrightarrow> length s = 2 * length x)"

text \<open>The characters of standard base64 text, padding included.\<close>

definition b64_char :: "u8 \<Rightarrow> bool" where
  "b64_char b \<longleftrightarrow> (let x = unat b in
     97 \<le> x \<and> x \<le> 122 \<or> 65 \<le> x \<and> x \<le> 90 \<or> 48 \<le> x \<and> x \<le> 57 \<or> x = 47 \<or> x = 43 \<or> x = 61)"

definition base64_laws :: "crates \<Rightarrow> bool" where
  "base64_laws c \<longleftrightarrow>
     (\<forall>x. b64_decode c (b64_encode c x) = Some x) \<and> (\<forall>x. list_all b64_char (b64_encode c x))"

lemma hash_lengthsD:
  "hash_lengths c \<Longrightarrow> length (md5 c x) = 16"
  "hash_lengths c \<Longrightarrow> length (sha256 c x) = 32"
  "hash_lengths c \<Longrightarrow> length (hmac_sha256 c k x) = 32"
  by (simp_all add: hash_lengths_def)

lemma hex_lawsD:
  "hex_laws c \<Longrightarrow> hexd c (hex_encode x) = Some x"
  "hex_laws c \<Longrightarrow> hexd c s = Some x \<Longrightarrow> length s = 2 * length x"
  by (simp_all add: hex_laws_def)

lemma base64_lawsD:
  "base64_laws c \<Longrightarrow> b64_decode c (b64_encode c x) = Some x"
  "base64_laws c \<Longrightarrow> list_all b64_char (b64_encode c x)"
  by (simp_all add: base64_laws_def)

section \<open>Exclusive or of byte strings\<close>

text \<open>\<open>for (a, b) in xs.iter_mut().zip(ys) { *a ^= b }\<close>.\<close>

fun xor_into :: "bytes \<Rightarrow> bytes \<Rightarrow> bytes" where
  "xor_into (x # xs) (y # ys) = (x XOR y) # xor_into xs ys"
| "xor_into xs ys = xs"

lemma length_xor_into [simp]: "length (xor_into xs ys) = length xs"
  by (induction xs ys rule: xor_into.induct) simp_all

lemma xor_into_cancel: "length ys \<le> length xs \<Longrightarrow> xor_into (xor_into xs ys) ys = xs"
  by (induction xs ys rule: xor_into.induct) (simp_all add: xor.assoc)

lemma xor_into_nth:
  "i < length xs \<Longrightarrow> i < length ys \<Longrightarrow> xor_into xs ys ! i = (xs ! i XOR ys ! i)"
  by (induction xs ys arbitrary: i rule: xor_into.induct) (auto simp: nth_Cons split: nat.splits)

lemma xor_into_commute: "length xs = length ys \<Longrightarrow> xor_into xs ys = xor_into ys xs"
  by (induction xs ys rule: xor_into.induct) (simp_all add: xor.commute)

section \<open>A model of the crates\<close>

text \<open>
  Functions with the promised shapes, on which the hypotheses above are evaluated: checksums spread over
  the digest sizes, hexadecimal in the place of base64.
\<close>

definition checksum :: "bytes \<Rightarrow> u8" where
  "checksum x = foldr (+) x (of_nat (length x))"

definition unhex_digit :: "u8 \<Rightarrow> nat option" where
  "unhex_digit b =
     (let x = unat b in
      if 48 \<le> x \<and> x \<le> 57 then Some (x - 48)
      else if 97 \<le> x \<and> x \<le> 102 then Some (x - 87)
      else if 65 \<le> x \<and> x \<le> 70 then Some (x - 55) else None)"

fun unhex :: "bytes \<Rightarrow> bytes option" where
  "unhex [] = Some []"
| "unhex (a # b # r) =
     (case (unhex_digit a, unhex_digit b, unhex r) of
        (Some x, Some y, Some z) \<Rightarrow> Some (of_nat (16 * x + y) # z)
      | _ \<Rightarrow> None)"
| "unhex _ = None"

definition sample_crates :: crates where
  "sample_crates = \<lparr>md5 = \<lambda>x. replicate 16 (checksum x), sha256 = \<lambda>x. replicate 32 (checksum x),
     hmac_sha256 = \<lambda>k x. replicate 32 (checksum (k @ x)),
     pbkdf2_sha1 = \<lambda>p s i n. replicate n (checksum (p @ s)),
     hexd = unhex, b64_encode = hex_encode, b64_decode = unhex, saslprep = Some\<rparr>"

lemma unhex_digit_hex: "d < 16 \<Longrightarrow> unhex_digit (hex_digit d) = Some d"
  by (auto simp: unhex_digit_def hex_digit_def Let_def simp del: of_nat_add)

lemma unhex_fmt: "unhex (fmt_02x x @ r) = map_option ((#) x) (unhex r)"
proof -
  have "unat x div 16 < 16" using unat_u8_less [of x] by linarith
  moreover have "of_nat (16 * (unat x div 16) + unat x mod 16) = x"
    by (simp only: mult_div_mod_eq of_nat_unat_u8)
  ultimately show ?thesis
    by (simp add: fmt_02x_def unhex_digit_hex del: of_nat_add of_nat_mult split: option.splits)
qed

lemma unhex_hex_encode: "unhex (hex_encode x) = Some x"
proof (induction x)
  case Nil
  then show ?case by (simp add: hex_encode_def)
next
  case (Cons b x)
  then show ?case by (simp add: hex_encode_def unhex_fmt)
qed

lemma unhex_length: "unhex s = Some x \<Longrightarrow> length s = 2 * length x"
  by (induction s arbitrary: x rule: unhex.induct) (auto split: option.splits)

lemma sample_crates_ok: "hash_lengths sample_crates" "hex_laws sample_crates" "base64_laws sample_crates"
proof -
  show "hash_lengths sample_crates" by (simp add: hash_lengths_def sample_crates_def)
  show "hex_laws sample_crates"
    by (simp add: hex_laws_def sample_crates_def unhex_hex_encode unhex_length)
  have "b64_char b" if "b \<in> set (hex_encode x)" for b x
    using hex_encode_range [OF that] by (auto simp: b64_char_def Let_def)
  then show "base64_laws sample_crates"
    by (simp add: base64_laws_def sample_crates_def unhex_hex_encode list_all_iff)
qed

end
