(* ===== verification/Sha256_Auth.thy ===== *)
theory Sha256_Auth
  imports Crates Frontend
begin

text \<open>
  The password responses of \<open>authentication/mod.rs\<close> (MD5) and \<open>authentication/sha256.rs\<close> (the SHA256,
  MD5-SHA256 and SM3 methods of openGauss), over the crates of \<open>Crates\<close>. The array arguments
  \<open>&[u8; 64]\<close>, \<open>&[u8; 8]\<close>, \<open>&[u8; 4]\<close> are byte lists of that length.
\<close>

section \<open>The responses\<close>

definition md5_hash :: "crates \<Rightarrow> bytes \<Rightarrow> bytes \<Rightarrow> bytes \<Rightarrow> bytes" where
  "md5_hash c username password salt =
     (let output = lower_hex (md5 c (password @ username))
      in ascii ''md5'' @ lower_hex (md5 c (output @ salt)))"

abbreviation (input) DEFAULT_ITERATION_COUNT :: u32 where "DEFAULT_ITERATION_COUNT \<equiv> 10000"

definition CLIENT_KEY_STRING :: bytes where
  "CLIENT_KEY_STRING = ascii ''Client Key''"

definition iterations_of :: "i32 \<Rightarrow> u32" where
  "iterations_of server_iteration =
     (if sint server_iteration > 0 then server_iteration else DEFAULT_ITERATION_COUNT)"

definition rfc5802_algorithm :: "crates \<Rightarrow> bytes \<Rightarrow> bytes \<Rightarrow> bytes \<Rightarrow> i32 \<Rightarrow> io_error + bytes" where
  "rfc5802_algorithm c password random64code token server_iteration =
     bind_res (hex_decode (hexd c) random64code) (\<lambda>salt_bytes.
     bind_res (hex_decode (hexd c) token) (\<lambda>token_bytes.
     if length salt_bytes \<noteq> 32 then
       Inl (Io_Error InvalidInput
         (Msg (''invalid salt length: expected 32 bytes, got '' @ show_nat (length salt_bytes))))
     else if length token_bytes \<noteq> 4 then
       Inl (Io_Error InvalidInput
         (Msg (''invalid token length: expected 4 bytes, got '' @ show_nat (length token_bytes))))
     else
       let k = pbkdf2_sha1 c password salt_bytes (unat (iterations_of server_iteration)) 32;
           client_key = hmac_sha256 c k CLIENT_KEY_STRING;
           stored_key = sha256 c client_key;
           hmac_result = hmac_sha256 c stored_key token_bytes;
           h = map (\<lambda>i. hmac_result ! i XOR client_key ! i) [0..<32]
       in Inr (hex_encode h)))"

definition sm3_algorithm :: "crates \<Rightarrow> bytes \<Rightarrow> bytes \<Rightarrow> bytes \<Rightarrow> i32 \<Rightarrow> io_error + bytes" where
  "sm3_algorithm c password random64code token server_iteration =
     bind_res (hex_decode (hexd c) random64code) (\<lambda>salt_bytes.
     bind_res (hex_decode (hexd c) token) (\<lambda>token_bytes.
     if length salt_bytes \<noteq> 32 then
       Inl (Io_Error InvalidInput
         (Msg (''invalid salt length: expected 32 bytes, got '' @ show_nat (length salt_bytes))))
     else if length token_bytes \<noteq> 4 then
       Inl (Io_Error InvalidInput
         (Msg (''invalid token length: expected 4 bytes, got '' @ show_nat (length token_bytes))))
     else
       let k = pbkdf2_sha1 c password salt_bytes (unat (iterations_of server_iteration)) 32;
           client_key = hmac_sha256 c k (ascii ''Client Key'');
           stored_key = sha256 c client_key;
           hmac_result = hmac_sha256 c stored_key token_bytes;
           h = map (\<lambda>i. hmac_result ! i XOR client_key ! i) [0..<32]
       in Inr (hex_encode h)))"

definition md5_sha256_hash :: "crates \<Rightarrow> bytes \<Rightarrow> bytes \<Rightarrow> bytes \<Rightarrow> i32 \<Rightarrow> io_error + bytes" where
  "md5_sha256_hash c password salt_hex md5_salt iteration_count =
     bind_res (hex_decode (hexd c) salt_hex) (\<lambda>salt_bytes.
     let k = pbkdf2_sha1 c password salt_bytes (unat (iterations_of iteration_count)) 32;
         server_key = hmac_sha256 c k (ascii ''Sever Key'');
         client_key = hmac_sha256 c k (ascii ''Client Key'');
         stored_key = sha256 c client_key
     in bind_res (if utf8_valid salt_hex then Inr salt_hex else Inl (Io_Error InvalidInput Utf8_Error))
          (\<lambda>salt_str.
        let sha256_hex = salt_str @ hex_encode server_key @ hex_encode stored_key;
            inner = lower_hex (md5 c sha256_hex)
        in Inr (ascii ''md5'' @ lower_hex (md5 c (inner @ md5_salt)))))"

section \<open>The server's side\<close>

text \<open>
  What an openGauss server does with the stored verifier: it undoes the exclusive or with its own
  HMAC over the token, and compares the hash of the client key it gets with the stored key.
\<close>

definition sha256_salted_password :: "crates \<Rightarrow> bytes \<Rightarrow> bytes \<Rightarrow> i32 \<Rightarrow> bytes" where
  "sha256_salted_password c password salt iteration =
     pbkdf2_sha1 c password salt (unat (iterations_of iteration)) 32"

definition sha256_stored_key :: "crates \<Rightarrow> bytes \<Rightarrow> bytes \<Rightarrow> i32 \<Rightarrow> bytes" where
  "sha256_stored_key c password salt iteration =
     sha256 c (hmac_sha256 c (sha256_salted_password c password salt iteration) (ascii ''Client Key''))"

definition server_accepts :: "crates \<Rightarrow> bytes \<Rightarrow> bytes \<Rightarrow> bytes \<Rightarrow> bool" where
  "server_accepts c stored_key token response =
     (case hexd c response of
        None \<Rightarrow> False
      | Some h \<Rightarrow> length h = 32 \<and> sha256 c (xor_into h (hmac_sha256 c stored_key token)) = stored_key)"

text \<open>The verifier the server keeps for the SHA256 method, without its \<open>sha256\<close> prefix.\<close>

definition sha256_verifier :: "crates \<Rightarrow> bytes \<Rightarrow> bytes \<Rightarrow> bytes \<Rightarrow> i32 \<Rightarrow> bytes" where
  "sha256_verifier c password salt_hex salt iteration =
     salt_hex @
     hex_encode (hmac_sha256 c (sha256_salted_password c password salt iteration) (ascii ''Sever Key'')) @
     hex_encode (sha256_stored_key c password salt iteration)"

lemma hex_decode_ok: "utf8_valid s \<Longrightarrow> f s = Some x \<Longrightarrow> hex_decode f s = Inr x"
  by (simp add: hex_decode_def)

lemma xor_map: "length a = 32 \<Longrightarrow> length b = 32 \<Longrightarrow>
    map (\<lambda>i. a ! i XOR b ! i) [0..<32] = xor_into a b"
  by (rule nth_equalityI) (simp_all add: xor_into_nth)

lemma rfc5802_eq:
  assumes "hash_lengths c" "utf8_valid random64code" "hexd c random64code = Some salt" "length salt = 32"
    "utf8_valid tok" "hexd c tok = Some token" "length token = 4"
  shows "rfc5802_algorithm c password random64code tok iteration =
    Inr (hex_encode (xor_into (hmac_sha256 c (sha256_stored_key c password salt iteration) token)
      (hmac_sha256 c (sha256_salted_password c password salt iteration) (ascii ''Client Key''))))"
  using assms
  by (simp add: rfc5802_algorithm_def hex_decode_ok Let_def xor_map hash_lengthsD CLIENT_KEY_STRING_def
      sha256_stored_key_def sha256_salted_password_def del: bind_res_Inr)

text \<open>
  For a salt of 64 and a token of 8 hexadecimal characters, the SHA256 response is computed without error
  and the server, which knows only the stored key, accepts it; an iteration count of zero or
  less means the default 10000 on both sides.
\<close>

lemma sha256_response_accepted:
  assumes "hash_lengths c" "hex_laws c" "length salt = 32" "length token = 4"
  shows "\<exists>r. rfc5802_algorithm c password (hex_encode salt) (hex_encode token) iteration = Inr r \<and>
    length r = 64 \<and> server_accepts c (sha256_stored_key c password salt iteration) token r"
proof -
  let ?ck = "hmac_sha256 c (sha256_salted_password c password salt iteration) (ascii ''Client Key'')"
  let ?hm = "hmac_sha256 c (sha256_stored_key c password salt iteration) token"
  have len: "length ?ck = 32" "length ?hm = 32" using assms(1) by (simp_all add: hash_lengthsD)
  have "rfc5802_algorithm c password (hex_encode salt) (hex_encode token) iteration =
      Inr (hex_encode (xor_into ?hm ?ck))"
    using assms by (intro rfc5802_eq) (simp_all add: utf8_valid_hex hex_lawsD)
  moreover have "xor_into (xor_into ?hm ?ck) ?hm = ?ck"
    using len xor_into_cancel [of ?hm ?ck] by (simp add: xor_into_commute [of ?hm ?ck])
  ultimately show ?thesis
    using len assms(2) by (simp add: server_accepts_def hex_lawsD flip: sha256_stored_key_def)
qed

theorem sha256_response_accepted_witness:
  "\<exists>r. rfc5802_algorithm sample_crates [112] (hex_encode (replicate 32 7)) (hex_encode [1, 2, 3, 4]) 2048 = Inr r \<and>
    length r = 64 \<and> server_accepts sample_crates
      (sha256_stored_key sample_crates [112] (replicate 32 7) 2048) [1, 2, 3, 4] r"
  by (rule sha256_response_accepted) (simp_all add: sample_crates_ok)

lemma sm3_sha256: "sm3_algorithm = rfc5802_algorithm"
  by (intro ext) (simp only: sm3_algorithm_def rfc5802_algorithm_def CLIENT_KEY_STRING_def)

lemma md5_sha256_is_md5:
  "md5_sha256_hash c password salt_hex md5_salt iteration =
     (case hex_decode (hexd c) salt_hex of
        Inl e \<Rightarrow> Inl e
      | Inr salt \<Rightarrow> Inr (md5_hash c [] (sha256_verifier c password salt_hex salt iteration) md5_salt))"
  by (auto simp: md5_sha256_hash_def md5_hash_def sha256_verifier_def sha256_salted_password_def
      sha256_stored_key_def Let_def hex_decode_def simp del: bind_res_Inr split: sum.splits if_splits)

text \<open>
  SM3 authentication computes exactly the SHA256 response, on every input, errors included: the key
  string its documentation says distinguishes it takes no part in the computation.
\<close>

lemma sm3_is_sha256:
  "sm3_algorithm c password random64code token iteration =
   rfc5802_algorithm c password random64code token iteration"
  by (simp only: sm3_sha256)

text \<open>
  The MD5-SHA256 response is the ordinary MD5 response with the server's SHA256 verifier in the place
  of the password and an empty user name, and it fails exactly when the salt is not hexadecimal text.
\<close>

lemma md5_sha256_is_md5_of_verifier:
  "md5_sha256_hash c password salt_hex md5_salt iteration =
     (case hex_decode (hexd c) salt_hex of
        Inl e \<Rightarrow> Inl e
      | Inr salt \<Rightarrow> Inr (md5_hash c [] (sha256_verifier c password salt_hex salt iteration) md5_salt))"
  by (rule md5_sha256_is_md5)

section \<open>Every response can be sent\<close>

lemma hex_no_nul: "0 \<notin> set (hex_encode x)"
  using hex_encode_range [of 0 x] by auto

lemma md5_no_nul: "0 \<notin> set (ascii ''md5'')"
  by (simp add: ascii_def)

lemma password_message_ok:
  assumes "0 \<notin> set r" "length r \<le> 64"
  shows "password_message r buf = Inr (buf @ [tag_of CHR ''p''] @ frame (cstr_bytes r))"
proof -
  have "appends (write_cstr r) (cstr_bytes r)"
    using assms(1) by (auto simp: write_cstr_eq)
  then show ?thesis
    using assms(2) write_body_appends [of "write_cstr r" "cstr_bytes r" id "buf @ [tag_of CHR ''p'']"]
    by (simp add: password_message_def cstr_bytes_def max_body_def)
qed

lemma md5_hash_shape: "hash_lengths c \<Longrightarrow>
    length (md5_hash c user password salt) = 35 \<and> 0 \<notin> set (md5_hash c user password salt)"
  by (simp add: md5_hash_def Let_def lower_hex_hex_encode hash_lengthsD hex_no_nul md5_no_nul)

text \<open>
  Every password response has a fixed size (35 characters for the MD5 methods, 64 for SHA256) and no
  NUL, so the password message that carries it is always written.
\<close>

lemma responses_sendable:
  assumes "hash_lengths c"
    and "r = md5_hash c user password salt \<or> rfc5802_algorithm c password salt64 token iteration = Inr r \<or>
      sm3_algorithm c password salt64 token iteration = Inr r \<or>
      md5_sha256_hash c password salt64 salt iteration = Inr r"
  shows "length r \<in> {35, 64} \<and>
    password_message r buf = Inr (buf @ [tag_of CHR ''p''] @ frame (cstr_bytes r))"
proof -
  have sha: "length r = 64 \<and> 0 \<notin> set r" if "rfc5802_algorithm c password salt64 token iteration = Inr r"
    using that assms(1)
    by (auto simp: rfc5802_algorithm_def Let_def xor_map hash_lengthsD hex_no_nul split: if_splits)
  have md5: "length r = 35 \<and> 0 \<notin> set r" if "md5_sha256_hash c password salt64 salt iteration = Inr r"
    using that md5_hash_shape [OF assms(1)]
    by (auto simp: md5_sha256_is_md5 split: sum.splits)
  from assms sha md5 md5_hash_shape [OF assms(1)] have "length r \<in> {35, 64} \<and> 0 \<notin> set r"
    by (auto simp: sm3_sha256)
  then show ?thesis using password_message_ok by auto
qed

theorem responses_sendable_witness:
  "length (md5_hash sample_crates [117] [112] [1, 2, 3, 4]) \<in> {35, 64} \<and>
    password_message (md5_hash sample_crates [117] [112] [1, 2, 3, 4]) [] =
      Inr ([] @ [tag_of CHR ''p''] @ frame (cstr_bytes (md5_hash sample_crates [117] [112] [1, 2, 3, 4])))"
  by (rule responses_sendable [OF _ disjI1 [OF refl]]) (simp add: sample_crates_ok)

end
