(* ===== verification/Sasl.thy ===== *)
theory Sasl
  imports Crates
begin

text \<open>
  The client side of SCRAM-SHA-256 (\<open>authentication/sasl.rs\<close>). The parser walks the characters of the
  server's message with their byte offsets, as \<open>char_indices\<close> gives them, and slices the message by
  offsets. Strings that the code only stores or concatenates are their bytes. The state machine moves
  \<open>Update\<close>, \<open>Finish\<close>, \<open>Done\<close>; \<open>mem::replace\<close> leaves \<open>Done\<close> behind, so an operation that fails leaves the
  exchange done.
\<close>

section \<open>Keys\<close>

definition normalize :: "crates \<Rightarrow> bytes \<Rightarrow> bytes" where
  "normalize c pass =
     (if \<not> utf8_valid pass then pass
      else (case saslprep c pass of Some p \<Rightarrow> p | None \<Rightarrow> pass))"

fun hi_loop :: "crates \<Rightarrow> bytes \<Rightarrow> nat \<Rightarrow> bytes \<Rightarrow> bytes \<Rightarrow> bytes" where
  "hi_loop c str 0 prev hi = hi"
| "hi_loop c str (Suc n) prev hi =
     (let prev = hmac_sha256 c str prev in hi_loop c str n prev (xor_into hi prev))"

definition hi :: "crates \<Rightarrow> bytes \<Rightarrow> bytes \<Rightarrow> u32 \<Rightarrow> bytes" where
  "hi c str salt i =
     (let prev = hmac_sha256 c str (salt @ [0, 0, 0, 1])
      in hi_loop c str (unat i - 1) prev prev)"

section \<open>The exchange\<close>

datatype channel_binding = Unrequested | Unsupported | TlsServerEndPoint bytes

definition gs2_header :: "channel_binding \<Rightarrow> bytes" where
  "gs2_header cb =
     (case cb of
        Unrequested \<Rightarrow> ascii ''y,,''
      | Unsupported \<Rightarrow> ascii ''n,,''
      | TlsServerEndPoint _ \<Rightarrow> ascii ''p=tls-server-end-point,,'')"

definition cbind_data :: "channel_binding \<Rightarrow> bytes" where
  "cbind_data cb = (case cb of TlsServerEndPoint buf \<Rightarrow> buf | _ \<Rightarrow> [])"

datatype scram_state =
    Update bytes bytes channel_binding
  | Finish bytes bytes
  | Done

record scram =
  sc_message :: bytes
  sc_state :: scram_state

definition new_inner :: "crates \<Rightarrow> bytes \<Rightarrow> channel_binding \<Rightarrow> bytes \<Rightarrow> scram" where
  "new_inner c password cb nonce =
     \<lparr>sc_message = gs2_header cb @ ascii ''n=,r='' @ nonce,
      sc_state = Update nonce (normalize c password) cb\<rparr>"

text \<open>\<open>samples\<close> are the 24 numbers the generator draws from \<open>0x21 .. 0x7d\<close>.\<close>

definition scram_new :: "crates \<Rightarrow> bytes \<Rightarrow> channel_binding \<Rightarrow> bytes \<Rightarrow> scram" where
  "scram_new c password cb samples =
     new_inner c password cb (map (\<lambda>v. if v = 0x2c then 0x7e else v) samples)"

text \<open>\<open>None\<close> is the panic \<open>invalid SCRAM state\<close>.\<close>

definition message_of :: "scram \<Rightarrow> bytes option" where
  "message_of s = (if sc_state s = Done then None else Some (sc_message s))"

subsection \<open>The parser\<close>

record parser =
  p_s :: bytes
  p_it :: "(nat \<times> rchar) list"

fun indices :: "nat \<Rightarrow> rstr \<Rightarrow> (nat \<times> rchar) list" where
  "indices i [] = []"
| "indices i (c # cs) = (i, c) # indices (i + length (utf8_encode_char c)) cs"

definition char_indices :: "bytes \<Rightarrow> (nat \<times> rchar) list" where
  "char_indices s = (case utf8_decode s of Some cs \<Rightarrow> indices 0 cs | None \<Rightarrow> [])"

definition parser_new :: "bytes \<Rightarrow> parser" where
  "parser_new s = \<lparr>p_s = s, p_it = char_indices s\<rparr>"

definition text_of :: "rchar \<Rightarrow> string" where
  "text_of c = map (\<lambda>b. char_of (unat b)) (utf8_encode_char c)"

definition eat :: "char \<Rightarrow> parser \<Rightarrow> io_error + parser" where
  "eat target p =
     (case p_it p of
        (i, c) # it \<Rightarrow>
          if c = of_char target then Inr (p\<lparr>p_it := it\<rparr>)
          else Inl (Io_Error InvalidInput (Msg (''unexpected character at byte '' @ show_nat i @
                 '': expected `'' @ [target] @ ''` but got `'' @ text_of c)))
      | [] \<Rightarrow> Inl eof_error)"

fun take_loop :: "bytes \<Rightarrow> nat \<Rightarrow> (rchar \<Rightarrow> bool) \<Rightarrow> (nat \<times> rchar) list \<Rightarrow> bytes \<times> (nat \<times> rchar) list" where
  "take_loop s start f [] = (drop start s, [])"
| "take_loop s start f ((i, c) # it) =
     (if f c then take_loop s start f it else (take (i - start) (drop start s), (i, c) # it))"

definition take_while :: "(rchar \<Rightarrow> bool) \<Rightarrow> parser \<Rightarrow> bytes \<times> parser" where
  "take_while f p =
     (case p_it p of
        [] \<Rightarrow> ([], p)
      | (start, _) # _ \<Rightarrow>
          (let (str, it) = take_loop (p_s p) start f (p_it p) in (str, p\<lparr>p_it := it\<rparr>)))"

definition is_printable :: "rchar \<Rightarrow> bool" where
  "is_printable c \<longleftrightarrow> 0x21 \<le> c \<and> c \<le> 0x2b \<or> 0x2d \<le> c \<and> c \<le> 0x7e"

definition is_base64 :: "rchar \<Rightarrow> bool" where
  "is_base64 x \<longleftrightarrow> 97 \<le> x \<and> x \<le> 122 \<or> 65 \<le> x \<and> x \<le> 90 \<or> 48 \<le> x \<and> x \<le> 57 \<or> x = 47 \<or> x = 43 \<or> x = 61"

definition is_digit :: "rchar \<Rightarrow> bool" where
  "is_digit c \<longleftrightarrow> 48 \<le> c \<and> c \<le> 57"

definition parse_nonce :: "parser \<Rightarrow> io_error + (bytes \<times> parser)" where
  "parse_nonce p =
     bind_res (eat CHR ''r'' p) (\<lambda>p. bind_res (eat CHR ''='' p) (\<lambda>p. Inr (take_while is_printable p)))"

definition parse_salt :: "parser \<Rightarrow> io_error + (bytes \<times> parser)" where
  "parse_salt p =
     bind_res (eat CHR ''s'' p) (\<lambda>p. bind_res (eat CHR ''='' p) (\<lambda>p. Inr (take_while is_base64 p)))"

text \<open>\<open>str::parse::<u32>\<close> on text that \<open>posit_number\<close> has taken: decimal digits only.\<close>

definition decimal :: "bytes \<Rightarrow> nat" where
  "decimal ds = foldl (\<lambda>n d. 10 * n + (unat d - 48)) 0 ds"

definition parse_u32 :: "bytes \<Rightarrow> io_error + u32" where
  "parse_u32 ds =
     (if ds = [] \<or> decimal ds > 4294967295 then Inl (Io_Error InvalidInput ParseInt_Error)
      else Inr (of_nat (decimal ds)))"

definition posit_number :: "parser \<Rightarrow> io_error + (u32 \<times> parser)" where
  "posit_number p =
     (let (n, p) = take_while is_digit p in bind_res (parse_u32 n) (\<lambda>v. Inr (v, p)))"

definition parse_iteration_count :: "parser \<Rightarrow> io_error + (u32 \<times> parser)" where
  "parse_iteration_count p =
     bind_res (eat CHR ''i'' p) (\<lambda>p. bind_res (eat CHR ''='' p) posit_number)"

definition parse_eof :: "parser \<Rightarrow> io_error + unit" where
  "parse_eof p =
     (case p_it p of
        (i, _) # _ \<Rightarrow>
          Inl (Io_Error InvalidInput (Msg (''unexpected trailing data at byte '' @ show_nat i)))
      | [] \<Rightarrow> Inr ())"

record server_first =
  sf_nonce :: bytes
  sf_salt :: bytes
  sf_iteration_count :: u32

definition server_first_message :: "parser \<Rightarrow> io_error + server_first" where
  "server_first_message p =
     bind_res (parse_nonce p) (\<lambda>(nonce, p).
     bind_res (eat CHR '','' p) (\<lambda>p.
     bind_res (parse_salt p) (\<lambda>(salt, p).
     bind_res (eat CHR '','' p) (\<lambda>p.
     bind_res (parse_iteration_count p) (\<lambda>(iteration_count, p).
     bind_res (parse_eof p) (\<lambda>_.
     Inr \<lparr>sf_nonce = nonce, sf_salt = salt, sf_iteration_count = iteration_count\<rparr>))))))"

datatype server_final = Server_Error bytes | Verifier bytes

definition value_char :: "rchar \<Rightarrow> bool" where
  "value_char c \<longleftrightarrow> c = 0 \<or> c = of_char (CHR ''='') \<or> c = of_char (CHR '','')"

definition parse_value :: "parser \<Rightarrow> bytes \<times> parser" where
  "parse_value p = take_while value_char p"

definition server_error :: "parser \<Rightarrow> io_error + (bytes option \<times> parser)" where
  "server_error p =
     (case p_it p of
        (_, c) # _ \<Rightarrow>
          if c = of_char (CHR ''e'') then
            bind_res (eat CHR ''e'' p) (\<lambda>p.
            bind_res (eat CHR ''='' p) (\<lambda>p.
            let (v, p) = parse_value p in Inr (Some v, p)))
          else Inr (None, p)
      | [] \<Rightarrow> Inr (None, p))"

definition parse_verifier :: "parser \<Rightarrow> io_error + (bytes \<times> parser)" where
  "parse_verifier p =
     bind_res (eat CHR ''v'' p) (\<lambda>p. bind_res (eat CHR ''='' p) (\<lambda>p. Inr (take_while is_base64 p)))"

definition server_final_message :: "parser \<Rightarrow> io_error + server_final" where
  "server_final_message p =
     bind_res (server_error p) (\<lambda>(e, p).
     bind_res (case e of
         Some error \<Rightarrow> Inr (Server_Error error, p)
       | None \<Rightarrow> bind_res (parse_verifier p) (\<lambda>(v, p). Inr (Verifier v, p))) (\<lambda>(message, p).
     bind_res (parse_eof p) (\<lambda>_. Inr message)))"

subsection \<open>The steps\<close>

definition starts_with :: "bytes \<Rightarrow> bytes \<Rightarrow> bool" where
  "starts_with pre s \<longleftrightarrow> take (length pre) s = pre"

definition scram_utf8 :: "bytes \<Rightarrow> io_error + bytes" where
  "scram_utf8 m = (if utf8_valid m then Inr m else Inl (Io_Error InvalidInput Utf8_Error))"

text \<open>The messages and the new state \<open>update\<close> computes when the state is \<open>Update\<close>.\<close>

definition update_exchange ::
  "crates \<Rightarrow> bytes \<Rightarrow> bytes \<Rightarrow> channel_binding \<Rightarrow> bytes \<Rightarrow> io_error + scram" where
  "update_exchange c client_nonce password cb message =
     bind_res (scram_utf8 message) (\<lambda>message.
     bind_res (server_first_message (parser_new message)) (\<lambda>parsed.
     if \<not> starts_with client_nonce (sf_nonce parsed) then
       Inl (Io_Error InvalidInput (Msg ''invalid nonce''))
     else
       bind_res (ok_or (Io_Error InvalidInput Base64_Error) (b64_decode c (sf_salt parsed))) (\<lambda>salt.
       let salted_password = hi c password salt (sf_iteration_count parsed);
           client_key = hmac_sha256 c salted_password (ascii ''Client Key'');
           stored_key = sha256 c client_key;
           cbind_input = b64_encode c (gs2_header cb @ cbind_data cb);
           msg = ascii ''c='' @ cbind_input @ ascii '',r='' @ sf_nonce parsed;
           auth_message = ascii ''n=,r='' @ client_nonce @ ascii '','' @ message @ ascii '','' @ msg;
           client_signature = hmac_sha256 c stored_key auth_message;
           client_proof = xor_into client_key client_signature
       in Inr \<lparr>sc_message = msg @ ascii '',p='' @ b64_encode c client_proof,
               sc_state = Finish salted_password auth_message\<rparr>)))"

definition invalid_state_error :: io_error where
  "invalid_state_error = Io_Error OtherKind (Msg ''invalid SCRAM state'')"

definition scram_update :: "crates \<Rightarrow> bytes \<Rightarrow> scram \<Rightarrow> (io_error + unit) \<times> scram" where
  "scram_update c message s =
     (case sc_state s of
        Update client_nonce password cb \<Rightarrow>
          (case update_exchange c client_nonce password cb message of
             Inl e \<Rightarrow> (Inl e, s\<lparr>sc_state := Done\<rparr>)
           | Inr s' \<Rightarrow> (Inr (), s'))
      | _ \<Rightarrow> (Inl invalid_state_error, s\<lparr>sc_state := Done\<rparr>))"

definition finish_check :: "crates \<Rightarrow> bytes \<Rightarrow> bytes \<Rightarrow> bytes \<Rightarrow> io_error + unit" where
  "finish_check c salted_password auth_message message =
     bind_res (scram_utf8 message) (\<lambda>message.
     bind_res (server_final_message (parser_new message)) (\<lambda>parsed.
     bind_res (case parsed of
         Server_Error e \<Rightarrow>
           Inl (Io_Error OtherKind (Msg (''SCRAM error: '' @ map (\<lambda>b. char_of (unat b)) e)))
       | Verifier v \<Rightarrow> Inr v) (\<lambda>verifier.
     bind_res (ok_or (Io_Error InvalidInput Base64_Error) (b64_decode c verifier)) (\<lambda>verifier.
     let server_key = hmac_sha256 c salted_password (ascii ''Server Key'') in
     if hmac_sha256 c server_key auth_message = verifier then Inr ()
     else Inl (Io_Error InvalidInput (Msg ''SCRAM verification error''))))))"

definition scram_finish :: "crates \<Rightarrow> bytes \<Rightarrow> scram \<Rightarrow> (io_error + unit) \<times> scram" where
  "scram_finish c message s =
     (case sc_state s of
        Finish salted_password auth_message \<Rightarrow>
          (finish_check c salted_password auth_message message, s\<lparr>sc_state := Done\<rparr>)
      | _ \<Rightarrow> (Inl invalid_state_error, s\<lparr>sc_state := Done\<rparr>))"

end
