(* ===== verification/Sasl_Laws.thy ===== *)
theory Sasl_Laws
  imports Sasl
begin

text \<open>
  What the SCRAM client promises: the key stretching is PBKDF2, the parser accepts exactly the grammar of
  RFC 5802, an honest exchange succeeds on both sides, and success implies that the server proved
  knowledge of the server key for this very exchange.
\<close>

section \<open>Key stretching\<close>

text \<open>The blocks \<open>U\<^sub>1, U\<^sub>2, ...\<close> of PBKDF2 (RFC 8018) for the first output block.\<close>

fun pbkdf2_u :: "crates \<Rightarrow> bytes \<Rightarrow> bytes \<Rightarrow> nat \<Rightarrow> bytes" where
  "pbkdf2_u c str salt 0 = hmac_sha256 c str (salt @ [0, 0, 0, 1])"
| "pbkdf2_u c str salt (Suc j) = hmac_sha256 c str (pbkdf2_u c str salt j)"

definition pbkdf2_block :: "crates \<Rightarrow> bytes \<Rightarrow> bytes \<Rightarrow> nat \<Rightarrow> bytes" where
  "pbkdf2_block c str salt n =
     foldl xor_into (replicate 32 0) (map (pbkdf2_u c str salt) [0..<n])"

lemma hi_loop_eq: "hi_loop c str n (pbkdf2_u c str salt j) acc =
    foldl xor_into acc (map (pbkdf2_u c str salt) [Suc j..<Suc j + n])"
proof (induction n arbitrary: j acc)
  case 0
  then show ?case by simp
next
  case (Suc n)
  have "[Suc j..<Suc j + Suc n] = Suc j # [Suc (Suc j)..<Suc (Suc j) + n]"
    by (simp add: upt_rec [of "Suc j"])
  then show ?case using Suc [of "Suc j"] by (simp add: Let_def del: upt_Suc)
qed

lemma xor_into_zero: "length x = n \<Longrightarrow> xor_into (replicate n 0) x = x"
  by (induction x arbitrary: n) auto

text \<open>
  For a positive iteration count, \<open>hi\<close> is the exclusive or of the first \<open>i\<close> blocks of PBKDF2 with
  HMAC-SHA-256; a count of zero, which a server may send, is treated as one.
\<close>

lemma hi_is_pbkdf2:
  assumes "hash_lengths c"
  shows "hi c str salt i = pbkdf2_block c str salt (max 1 (unat i))"
proof -
  have "max 1 (unat i) = Suc (unat i - 1)" by simp
  then have "[0..<max 1 (unat i)] = 0 # [Suc 0..<Suc 0 + (unat i - 1)]"
    by (simp add: upt_conv_Cons del: upt_Suc)
  then have "pbkdf2_block c str salt (max 1 (unat i)) =
      foldl xor_into (pbkdf2_u c str salt 0) (map (pbkdf2_u c str salt) [Suc 0..<Suc 0 + (unat i - 1)])"
    using assms by (simp add: pbkdf2_block_def xor_into_zero hash_lengthsD del: upt_Suc)
  also have "\<dots> = hi c str salt i"
    by (simp only: hi_def Let_def pbkdf2_u.simps(1) [symmetric] hi_loop_eq [symmetric])
  finally show ?thesis by simp
qed

theorem hi_is_pbkdf2_witness:
  "hi sample_crates [112] [1, 2] 3 = pbkdf2_block sample_crates [112] [1, 2] (max 1 (unat (3 :: u32)))"
  by (rule hi_is_pbkdf2) (simp add: sample_crates_ok)

section \<open>The parser\<close>

text \<open>The parser after it has consumed the characters encoded in \<open>pre\<close>, with \<open>cs\<close> to come.\<close>

definition at :: "bytes \<Rightarrow> rstr \<Rightarrow> parser" where
  "at pre cs = \<lparr>p_s = pre @ utf8_encode cs, p_it = indices (length pre) cs\<rparr>"

lemma parser_new_at: "utf8_decode s = Some cs \<Longrightarrow> parser_new s = at [] cs"
  using utf8_encode_decode [of s cs] by (simp add: parser_new_def at_def char_indices_def)

lemma p_it_at [simp]: "p_it (at pre []) = []"
  "p_it (at pre (c # cs)) = (length pre, c) # indices (length pre + length (utf8_encode_char c)) cs"
  by (simp_all add: at_def)

lemma eat_at [simp]:
  "eat t (at pre []) = Inl eof_error"
  "eat t (at pre (c # cs)) =
     (if c = of_char t then Inr (at (pre @ utf8_encode_char c) cs)
      else Inl (Io_Error InvalidInput (Msg (''unexpected character at byte '' @ show_nat (length pre) @
             '': expected `'' @ [t] @ ''` but got `'' @ text_of c))))"
  by (simp_all add: eat_def) (simp add: at_def)

lemma take_loop_at:
  "take_loop (pre @ mid @ utf8_encode cs) (length pre) f (indices (length pre + length mid) cs) =
     (mid @ utf8_encode (takeWhile f cs),
      indices (length pre + length mid + length (utf8_encode (takeWhile f cs))) (dropWhile f cs))"
proof (induction cs arbitrary: mid)
  case Nil
  then show ?case by simp
next
  case (Cons c cs)
  then show ?case
    using Cons [of "mid @ utf8_encode_char c"] by (simp add: add.assoc)
qed

lemma take_while_loop:
  "cs \<noteq> [] \<Longrightarrow> take_while f (at pre cs) =
     (let (str, it) = take_loop (pre @ utf8_encode cs) (length pre) f (indices (length pre) cs)
      in (str, \<lparr>p_s = pre @ utf8_encode cs, p_it = it\<rparr>))"
  by (cases cs) (simp_all add: take_while_def at_def)

lemma take_while_at [simp]:
  "take_while f (at pre cs) =
     (utf8_encode (takeWhile f cs), at (pre @ utf8_encode (takeWhile f cs)) (dropWhile f cs))"
proof (cases "cs = []")
  case True
  then show ?thesis by (simp add: take_while_def)
next
  case False
  have "utf8_encode cs = utf8_encode (takeWhile f cs) @ utf8_encode (dropWhile f cs)"
    by (metis takeWhile_dropWhile_id utf8_encode_simps(3))
  then show ?thesis
    using take_loop_at [of pre "[]" cs f] take_while_loop [OF False, of f pre] by (simp add: at_def)
qed

lemma parse_eof_at: "parse_eof (at pre cs) =
    (case cs of [] \<Rightarrow> Inr () | _ \<Rightarrow>
      Inl (Io_Error InvalidInput (Msg (''unexpected trailing data at byte '' @ show_nat (length pre)))))"
  by (cases cs) (simp_all add: parse_eof_def)

text \<open>Characters of a literal, and the split of a text after its longest prefix of a class.\<close>

definition chars :: "string \<Rightarrow> rstr" where
  "chars s = map of_char s"

lemma span_iff:
  "takeWhile f cs = x \<and> dropWhile f cs = d # r \<longleftrightarrow> cs = x @ d # r \<and> list_all f x \<and> \<not> f d"
  by (auto simp: list_all_iff dest: set_takeWhileD)
    (metis takeWhile_dropWhile_id, metis dropWhile_eq_Cons_conv)

lemma all_iff: "takeWhile f cs = x \<and> dropWhile f cs = [] \<longleftrightarrow> cs = x \<and> list_all f x"
  by (metis append.right_neutral dropWhile_eq_Nil_conv list_all_iff takeWhile_dropWhile_id)

lemma utf8_encode_ascii: "list_all (\<lambda>c. c < 128) cs \<Longrightarrow> utf8_encode cs = map of_nat cs"
  by (induction cs) (simp_all add: utf8_encode_char_def)

lemma utf8_decode_ascii: "list_all (\<lambda>b. unat b < 128) b \<Longrightarrow> utf8_decode b = Some (map unat b)"
  by (induction b) (simp_all add: utf8_decode.simps [of "_ # _"] Let_def)

lemma eat_iff: "eat t (at pre cs) = Inr p \<longleftrightarrow>
    (\<exists>r. cs = of_char t # r \<and> p = at (pre @ utf8_encode_char (of_char t)) r)"
  by (cases cs) auto

lemma parse_eof_iff: "parse_eof (at pre cs) = Inr u \<longleftrightarrow> cs = []"
  by (cases cs) (simp_all add: parse_eof_at)

lemma server_first_at:
  "server_first_message (at [] cs) = Inr p \<longleftrightarrow>
     (\<exists>n s d. cs = chars ''r='' @ n @ chars '',s='' @ s @ chars '',i='' @ d \<and>
       list_all is_printable n \<and> list_all is_base64 s \<and> list_all is_digit d \<and>
       sf_nonce p = utf8_encode n \<and> sf_salt p = utf8_encode s \<and>
       parse_u32 (utf8_encode d) = Inr (sf_iteration_count p))"
proof -
  have "server_first_message (at [] cs) = Inr p \<longleftrightarrow>
     (\<exists>c1 c2 c3. cs = 114 # 61 # c1 \<and> dropWhile is_printable c1 = 44 # 115 # 61 # c2 \<and>
        dropWhile is_base64 c2 = 44 # 105 # 61 # c3 \<and> dropWhile is_digit c3 = [] \<and>
        sf_nonce p = utf8_encode (takeWhile is_printable c1) \<and>
        sf_salt p = utf8_encode (takeWhile is_base64 c2) \<and>
        parse_u32 (utf8_encode (takeWhile is_digit c3)) = Inr (sf_iteration_count p))"
    by (cases p) (auto simp: server_first_message_def parse_nonce_def parse_salt_def
        parse_iteration_count_def posit_number_def eat_iff parse_eof_iff)
  also have "\<dots> \<longleftrightarrow> (\<exists>n s d c1 c2. cs = 114 # 61 # c1 \<and>
        (takeWhile is_printable c1 = n \<and> dropWhile is_printable c1 = 44 # 115 # 61 # c2) \<and>
        (takeWhile is_base64 c2 = s \<and> dropWhile is_base64 c2 = 44 # 105 # 61 # d) \<and>
        (takeWhile is_digit d = d \<and> dropWhile is_digit d = []) \<and>
        sf_nonce p = utf8_encode n \<and> sf_salt p = utf8_encode s \<and>
        parse_u32 (utf8_encode d) = Inr (sf_iteration_count p))"
    by (auto simp: dropWhile_eq_Nil_conv takeWhile_eq_all_conv)
      (metis takeWhile_eq_all_conv)+
  also have "\<dots> \<longleftrightarrow> (\<exists>n s d. cs = chars ''r='' @ n @ chars '',s='' @ s @ chars '',i='' @ d \<and>
       list_all is_printable n \<and> list_all is_base64 s \<and> list_all is_digit d \<and>
       sf_nonce p = utf8_encode n \<and> sf_salt p = utf8_encode s \<and>
       parse_u32 (utf8_encode d) = Inr (sf_iteration_count p))"
    unfolding span_iff all_iff chars_def by (auto simp: is_printable_def is_base64_def)
  finally show ?thesis .
qed

lemma server_error_at:
  "server_error (at pre (101 # 61 # e)) =
     Inr (Some (utf8_encode (takeWhile value_char e)),
          at (((pre @ utf8_encode_char 101) @ utf8_encode_char 61) @ utf8_encode (takeWhile value_char e))
            (dropWhile value_char e))"
  "server_error (at pre (101 # e)) = Inr x \<Longrightarrow> \<exists>r. e = 61 # r"
  "\<nexists>r. cs = 101 # r \<Longrightarrow> server_error (at pre cs) = Inr (None, at pre cs)"
    apply (simp add: server_error_def parse_value_def del: bind_res_Inr)
   apply (auto simp: server_error_def eat_iff) []
  apply (cases cs; simp add: server_error_def)
  done

lemma parse_verifier_at: "parse_verifier (at pre cs) = Inr (v, p) \<longleftrightarrow>
    (\<exists>r. cs = 118 # 61 # r \<and> v = utf8_encode (takeWhile is_base64 r) \<and>
      p = at (((pre @ utf8_encode_char 118) @ utf8_encode_char 61) @ utf8_encode (takeWhile is_base64 r))
        (dropWhile is_base64 r))"
  by (auto simp: parse_verifier_def eat_iff)

lemma server_final_at:
  "server_final_message (at [] cs) = Inr r \<longleftrightarrow>
     (\<exists>v. cs = chars ''v='' @ v \<and> list_all is_base64 v \<and> r = Verifier (utf8_encode v)) \<or>
     (\<exists>e. cs = chars ''e='' @ e \<and> list_all value_char e \<and> r = Server_Error (utf8_encode e))"
proof -
  have w: "\<forall>c \<in> set x. f c \<Longrightarrow> takeWhile f x = x" for f and x :: rstr
    by (simp add: takeWhile_eq_all_conv)
  show ?thesis
  proof (cases "\<exists>e. cs = 101 # e")
    case True
    then obtain e where cs: "cs = 101 # e" ..
    show ?thesis
    proof (cases "\<exists>r. e = 61 # r")
      case True
      then obtain x where "e = 61 # x" ..
      then show ?thesis
        by (auto simp: cs server_final_message_def server_error_at(1) parse_eof_iff chars_def list_all_iff w)
    next
      case False
      then have "\<nexists>x. server_error (at [] (101 # e)) = Inr x"
        using server_error_at(2) by blast
      with False show ?thesis by (auto simp: cs server_final_message_def chars_def)
    qed
  next
    case False
    then have "server_error (at [] cs) = Inr (None, at [] cs)" by (rule server_error_at(3))
    with False show ?thesis
      by (auto simp: server_final_message_def parse_verifier_at parse_eof_iff chars_def list_all_iff w)
  qed
qed

subsection \<open>The grammar on bytes\<close>

definition all_ascii :: "bytes \<Rightarrow> bool" where
  "all_ascii b \<longleftrightarrow> list_all (\<lambda>x. unat x < 128) b"

lemma all_ascii_append [simp]: "all_ascii (a @ b) \<longleftrightarrow> all_ascii a \<and> all_ascii b"
  by (simp add: all_ascii_def)

lemma all_ascii_decode: "all_ascii b \<Longrightarrow> utf8_decode b = Some (map unat b)"
  by (simp add: all_ascii_def utf8_decode_ascii)

lemma all_ascii_valid: "all_ascii b \<Longrightarrow> utf8_valid b"
  by (simp add: all_ascii_def utf8_valid_ascii)

lemma ascii_class:
  "list_all (\<lambda>b. is_printable (unat b)) b \<Longrightarrow> all_ascii b"
  "list_all (\<lambda>b. is_base64 (unat b)) b \<Longrightarrow> all_ascii b"
  "list_all (\<lambda>b. is_digit (unat b)) b \<Longrightarrow> all_ascii b"
  by (auto simp: all_ascii_def list_all_iff is_printable_def is_base64_def is_digit_def)

lemma class_below: "is_printable c \<Longrightarrow> c < 128" "is_base64 c \<Longrightarrow> c < 128" "is_digit c \<Longrightarrow> c < 128"
  by (auto simp: is_printable_def is_base64_def is_digit_def)

text \<open>A text of a class of ASCII characters and the bytes of that class are the same.\<close>

lemma encode_class:
  assumes "list_all f cs" "\<And>c. f c \<Longrightarrow> c < 128"
  shows "list_all (\<lambda>b. f (unat b)) (utf8_encode cs)"
proof -
  have "unat (of_nat c :: u8) = c" if "f c" for c
    using assms(2) [OF that] by simp
  with assms show ?thesis by (induction cs) (simp_all add: utf8_encode_char_def)
qed

lemma encode_map_unat: "all_ascii b \<Longrightarrow> utf8_encode (map unat b) = b"
  using all_ascii_decode utf8_encode_decode by blast

lemma chars_ascii: "list_all (\<lambda>c. of_char c < (128 :: nat)) s \<Longrightarrow> utf8_encode (chars s) = ascii s"
  by (induction s) (auto simp: chars_def ascii_def utf8_encode_char_def)

lemma map_unat_ascii: "map unat (ascii s) = chars s"
  by (simp add: ascii_def chars_def)

lemma parser_new_invalid: "utf8_decode m = None \<Longrightarrow> p_it (parser_new m) = []"
  by (simp add: parser_new_def char_indices_def)

lemma server_first_bytes:
  "server_first_message (parser_new m) = Inr p \<longleftrightarrow>
     (\<exists>num. m = ascii ''r='' @ sf_nonce p @ ascii '',s='' @ sf_salt p @ ascii '',i='' @ num \<and>
       list_all (\<lambda>b. is_printable (unat b)) (sf_nonce p) \<and> list_all (\<lambda>b. is_base64 (unat b)) (sf_salt p) \<and>
       list_all (\<lambda>b. is_digit (unat b)) num \<and> parse_u32 num = Inr (sf_iteration_count p))"
  (is "_ \<longleftrightarrow> (\<exists>num. ?R num)")
proof
  assume l: "server_first_message (parser_new m) = Inr p"
  show "\<exists>num. ?R num"
  proof (cases "utf8_decode m")
    case None
    with l show ?thesis
      by (auto simp: server_first_message_def parse_nonce_def eat_def dest!: parser_new_invalid)
  next
    case (Some cs)
    from utf8_encode_decode [OF Some] have m: "m = utf8_encode cs" by simp
    from l Some obtain n s d where cs: "cs = chars ''r='' @ n @ chars '',s='' @ s @ chars '',i='' @ d"
      and cl: "list_all is_printable n" "list_all is_base64 s" "list_all is_digit d"
      and p: "sf_nonce p = utf8_encode n" "sf_salt p = utf8_encode s"
        "parse_u32 (utf8_encode d) = Inr (sf_iteration_count p)"
      by (auto simp: parser_new_at server_first_at)
    have "?R (utf8_encode d)"
      using cl p m cs class_below by (simp add: chars_ascii encode_class)
    then show ?thesis ..
  qed
next
  assume "\<exists>num. ?R num"
  then obtain num where r: "?R num" ..
  have lit: "all_ascii (ascii ''r='')" "all_ascii (ascii '',s='')" "all_ascii (ascii '',i='')"
    by (simp_all add: all_ascii_def ascii_def)
  then have "all_ascii m" using r ascii_class by simp
  then have "parser_new m = at [] (map unat m)" by (simp add: parser_new_at all_ascii_decode)
  moreover have "server_first_message (at [] (map unat m)) = Inr p"
    unfolding server_first_at using r ascii_class
    by (intro exI [of _ "map unat (sf_nonce p)"] exI [of _ "map unat (sf_salt p)"]
        exI [of _ "map unat num"])
      (simp add: map_unat_ascii list.pred_map comp_def encode_map_unat)
  ultimately show "server_first_message (parser_new m) = Inr p" by simp
qed

lemma server_final_bytes:
  assumes "m = ascii ''v='' @ v" "list_all (\<lambda>b. is_base64 (unat b)) v"
  shows "server_final_message (parser_new m) = Inr (Verifier v)"
proof -
  have "all_ascii (ascii ''v='')" by (simp add: all_ascii_def ascii_def)
  then have "all_ascii m" using assms ascii_class by simp
  then have "parser_new m = at [] (map unat m)" by (simp add: parser_new_at all_ascii_decode)
  moreover have "server_final_message (at [] (map unat m)) = Inr (Verifier v)"
    unfolding server_final_at using assms ascii_class
    by (intro disjI1 exI [of _ "map unat v"])
      (simp add: map_unat_ascii list.pred_map comp_def encode_map_unat)
  ultimately show ?thesis by simp
qed

lemma server_final_verifier:
  assumes "server_final_message (parser_new m) = Inr (Verifier v)"
  shows "m = ascii ''v='' @ v \<and> list_all (\<lambda>b. is_base64 (unat b)) v"
proof (cases "utf8_decode m")
  case None
  with assms show ?thesis
    by (auto simp: server_final_message_def server_error_def parse_verifier_def eat_def dest!: parser_new_invalid)
next
  case (Some cs)
  from utf8_encode_decode [OF Some] have m: "m = utf8_encode cs" by simp
  from assms Some obtain x where "cs = chars ''v='' @ x" "list_all is_base64 x" "v = utf8_encode x"
    by (auto simp: parser_new_at server_final_at)
  with m class_below show ?thesis by (simp add: chars_ascii encode_class)
qed

text \<open>
  The server-first message is accepted iff it is \<open>r=<nonce>,s=<salt>,i=<count>\<close> with a printable nonce, a
  salt of base64 characters and a decimal count that fits 32 bits, with nothing after it.
\<close>

lemma server_first_grammar:
  "server_first_message (parser_new m) = Inr p \<longleftrightarrow>
     (\<exists>num. m = ascii ''r='' @ sf_nonce p @ ascii '',s='' @ sf_salt p @ ascii '',i='' @ num \<and>
       list_all (\<lambda>b. is_printable (unat b)) (sf_nonce p) \<and> list_all (\<lambda>b. is_base64 (unat b)) (sf_salt p) \<and>
       list_all (\<lambda>b. is_digit (unat b)) num \<and> parse_u32 num = Inr (sf_iteration_count p))"
  by (rule server_first_bytes)

section \<open>Printing and parsing the iteration count\<close>

lemma decimal_snoc: "decimal (ds @ [d]) = 10 * decimal ds + (unat d - 48)"
  by (simp add: decimal_def)

lemma show_nat_decimal:
  "decimal (ascii (show_nat n)) = n \<and> list_all (\<lambda>b. is_digit (unat b)) (ascii (show_nat n)) \<and>
     show_nat n \<noteq> []"
proof (induction n rule: show_nat.induct)
  case (1 n)
  have c: "of_char (char_of (48 + d) :: char) = (of_nat (48 + d) :: u8)" if "d < 10" for d
  proof -
    have "(of_nat (of_char (char_of (48 + d) :: char)) :: u8) = of_nat (48 + d)"
      using that by (simp only: of_char_of) simp
    then show ?thesis by (simp only: of_nat_of_char_u8)
  qed
  show ?case
  proof (cases "n < 10")
    case True
    then show ?thesis
      using c [of n] by (simp add: show_nat.simps [of n] ascii_def decimal_def is_digit_def del: of_nat_add)
  next
    case False
    then show ?thesis
      using 1 c [of "n mod 10"] by (simp add: show_nat.simps [of n] ascii_def is_digit_def decimal_snoc
          del: of_nat_add)
  qed
qed

lemma parse_u32_show: "parse_u32 (ascii (show_nat (unat (i :: u32)))) = Inr i"
proof -
  have "unat i \<le> 4294967295" using unsigned_less [of i, where ?'a = nat] by simp
  then show ?thesis
    using show_nat_decimal [of "unat i"] by (simp add: parse_u32_def ascii_def)
qed

section \<open>The other side of the exchange\<close>

text \<open>The messages and checks of an RFC 5802 server, written from the RFC.\<close>

definition rfc_stored_key :: "crates \<Rightarrow> bytes \<Rightarrow> bytes" where
  "rfc_stored_key c salted = sha256 c (hmac_sha256 c salted (ascii ''Client Key''))"

definition rfc_server_key :: "crates \<Rightarrow> bytes \<Rightarrow> bytes" where
  "rfc_server_key c salted = hmac_sha256 c salted (ascii ''Server Key'')"

definition rfc_server_first :: "crates \<Rightarrow> bytes \<Rightarrow> bytes \<Rightarrow> u32 \<Rightarrow> bytes" where
  "rfc_server_first c nonce salt i =
     ascii ''r='' @ nonce @ ascii '',s='' @ b64_encode c salt @ ascii '',i='' @ ascii (show_nat (unat i))"

definition rfc_final_without_proof :: "crates \<Rightarrow> channel_binding \<Rightarrow> bytes \<Rightarrow> bytes" where
  "rfc_final_without_proof c cb nonce =
     ascii ''c='' @ b64_encode c (gs2_header cb @ cbind_data cb) @ ascii '',r='' @ nonce"

definition rfc_auth_message :: "bytes \<Rightarrow> bytes \<Rightarrow> bytes \<Rightarrow> bytes" where
  "rfc_auth_message client_nonce first final =
     ascii ''n=,r='' @ client_nonce @ ascii '','' @ first @ ascii '','' @ final"

definition rfc_server_check :: "crates \<Rightarrow> bytes \<Rightarrow> bytes \<Rightarrow> bytes \<Rightarrow> bool" where
  "rfc_server_check c stored_key auth_message proof64 \<longleftrightarrow>
     (case b64_decode c proof64 of
        None \<Rightarrow> False
      | Some p \<Rightarrow> sha256 c (xor_into p (hmac_sha256 c stored_key auth_message)) = stored_key)"

definition rfc_server_final :: "crates \<Rightarrow> bytes \<Rightarrow> bytes \<Rightarrow> bytes" where
  "rfc_server_final c server_key auth_message =
     ascii ''v='' @ b64_encode c (hmac_sha256 c server_key auth_message)"

definition printable :: "bytes \<Rightarrow> bool" where
  "printable b \<longleftrightarrow> list_all (\<lambda>b. is_printable (unat b)) b"

lemma b64_char_class: "list_all b64_char b \<longleftrightarrow> list_all (\<lambda>b. is_base64 (unat b)) b"
  by (simp add: list_all_iff b64_char_def is_base64_def Let_def)

lemma ascii_literals: "all_ascii (ascii ''r='')" "all_ascii (ascii '',s='')" "all_ascii (ascii '',i='')"
  "all_ascii (ascii ''v='')"
  by (simp_all add: all_ascii_def ascii_def)

lemma rfc_server_first_parses:
  assumes "base64_laws c" "printable nonce"
  shows "scram_utf8 (rfc_server_first c nonce salt i) = Inr (rfc_server_first c nonce salt i)"
    and "server_first_message (parser_new (rfc_server_first c nonce salt i)) =
      Inr \<lparr>sf_nonce = nonce, sf_salt = b64_encode c salt, sf_iteration_count = i\<rparr>"
proof -
  have b: "list_all (\<lambda>b. is_base64 (unat b)) (b64_encode c salt)"
    using base64_lawsD(2) [OF assms(1)] by (simp add: b64_char_class)
  have d: "list_all (\<lambda>b. is_digit (unat b)) (ascii (show_nat (unat i)))"
    using show_nat_decimal by blast
  have "all_ascii (rfc_server_first c nonce salt i)"
    using assms(2) b d ascii_literals ascii_class by (simp add: rfc_server_first_def printable_def)
  then show "scram_utf8 (rfc_server_first c nonce salt i) = Inr (rfc_server_first c nonce salt i)"
    by (simp add: scram_utf8_def all_ascii_valid)
  show "server_first_message (parser_new (rfc_server_first c nonce salt i)) =
      Inr \<lparr>sf_nonce = nonce, sf_salt = b64_encode c salt, sf_iteration_count = i\<rparr>"
    unfolding server_first_bytes using assms(2) b d
    by (intro exI [of _ "ascii (show_nat (unat i))"])
      (simp add: rfc_server_first_def printable_def parse_u32_show)
qed

lemma update_honest:
  assumes "base64_laws c" "printable (nonce @ ext)"
  shows "update_exchange c nonce password cb (rfc_server_first c (nonce @ ext) salt i) =
    (let salted = hi c password salt i;
         final = rfc_final_without_proof c cb (nonce @ ext);
         am = rfc_auth_message nonce (rfc_server_first c (nonce @ ext) salt i) final
     in Inr \<lparr>sc_message = final @ ascii '',p='' @ b64_encode c (xor_into
              (hmac_sha256 c salted (ascii ''Client Key'')) (hmac_sha256 c (rfc_stored_key c salted) am)),
            sc_state = Finish salted am\<rparr>)"
  using assms
  by (simp add: update_exchange_def rfc_server_first_parses starts_with_def base64_lawsD Let_def
      rfc_final_without_proof_def rfc_auth_message_def rfc_stored_key_def del: bind_res_Inr)

lemma finish_check_iff:
  "finish_check c salted am m = Inr () \<longleftrightarrow>
     (\<exists>v. m = ascii ''v='' @ v \<and> list_all b64_char v \<and>
       b64_decode c v = Some (hmac_sha256 c (rfc_server_key c salted) am))"
proof
  assume "finish_check c salted am m = Inr ()"
  then show "\<exists>v. m = ascii ''v='' @ v \<and> list_all b64_char v \<and>
       b64_decode c v = Some (hmac_sha256 c (rfc_server_key c salted) am)"
    by (auto simp: finish_check_def scram_utf8_def b64_char_class rfc_server_key_def Let_def ok_or_def
        dest!: server_final_verifier split: if_splits server_final.splits option.splits)
next
  assume "\<exists>v. m = ascii ''v='' @ v \<and> list_all b64_char v \<and>
       b64_decode c v = Some (hmac_sha256 c (rfc_server_key c salted) am)"
  then obtain v where v: "m = ascii ''v='' @ v" "list_all (\<lambda>b. is_base64 (unat b)) v"
    "b64_decode c v = Some (hmac_sha256 c (rfc_server_key c salted) am)"
    by (auto simp: b64_char_class)
  then have "utf8_valid m" using ascii_literals ascii_class by (simp add: all_ascii_valid)
  with v server_final_bytes [OF v(1,2)] show "finish_check c salted am m = Inr ()"
    by (simp add: finish_check_def scram_utf8_def rfc_server_key_def)
qed

lemma honest_exchange:
  assumes "hash_lengths c" "base64_laws c" "printable (nonce @ ext)"
    and "salted = hi c (normalize c password) salt i"
    and "first = rfc_server_first c (nonce @ ext) salt i"
    and "final = rfc_final_without_proof c cb (nonce @ ext)"
    and "am = rfc_auth_message nonce first final"
  shows "\<exists>proof64 s2 s3. scram_update c first (new_inner c password cb nonce) = (Inr (), s2) \<and>
    message_of s2 = Some (final @ ascii '',p='' @ proof64) \<and>
    rfc_server_check c (rfc_stored_key c salted) am proof64 \<and>
    scram_finish c (rfc_server_final c (rfc_server_key c salted) am) s2 = (Inr (), s3) \<and>
    sc_state s3 = Done"
proof -
  let ?ck = "hmac_sha256 c salted (ascii ''Client Key'')"
  let ?sig = "hmac_sha256 c (rfc_stored_key c salted) am"
  let ?p = "b64_encode c (xor_into ?ck ?sig)"
  let ?s2 = "\<lparr>sc_message = final @ ascii '',p='' @ ?p, sc_state = Finish salted am\<rparr>"
  have "scram_update c first (new_inner c password cb nonce) = (Inr (), ?s2)"
    using update_honest [OF assms(2,3), of "normalize c password" cb salt i] assms(4-)
    by (simp add: scram_update_def new_inner_def Let_def)
  moreover have "xor_into (xor_into ?ck ?sig) ?sig = ?ck"
    using assms(1) by (intro xor_into_cancel) (simp add: hash_lengthsD)
  then have "rfc_server_check c (rfc_stored_key c salted) am ?p"
    using assms(2) by (simp add: rfc_server_check_def base64_lawsD) (simp add: rfc_stored_key_def)
  moreover have "finish_check c salted am (rfc_server_final c (rfc_server_key c salted) am) = Inr ()"
    unfolding finish_check_iff using assms(2) by (simp add: rfc_server_final_def base64_lawsD)
  then have "scram_finish c (rfc_server_final c (rfc_server_key c salted) am) ?s2 =
      (Inr (), ?s2\<lparr>sc_state := Done\<rparr>)"
    by (simp add: scram_finish_def)
  moreover have "message_of ?s2 = Some (final @ ascii '',p='' @ ?p)"
    by (simp add: message_of_def)
  ultimately show ?thesis by auto
qed

text \<open>
  C8: an honest exchange succeeds on both sides. Given the server-first message of a server that
  extends the client's nonce, the client's final message carries the channel binding, the nonce and a
  proof that the server, which only has the stored key, accepts; and the client accepts the
  server's signature over the same authentication message.
\<close>

theorem scram_exchange:
  assumes "hash_lengths c" "base64_laws c" "printable (nonce @ ext)"
    and "salted = hi c (normalize c password) salt i"
    and "first = rfc_server_first c (nonce @ ext) salt i"
    and "final = rfc_final_without_proof c cb (nonce @ ext)"
    and "am = rfc_auth_message nonce first final"
  shows "\<exists>proof64 s2 s3. scram_update c first (new_inner c password cb nonce) = (Inr (), s2) \<and>
    message_of s2 = Some (final @ ascii '',p='' @ proof64) \<and>
    rfc_server_check c (rfc_stored_key c salted) am proof64 \<and>
    scram_finish c (rfc_server_final c (rfc_server_key c salted) am) s2 = (Inr (), s3) \<and>
    sc_state s3 = Done"
  using assms by (rule honest_exchange)

theorem scram_exchange_witness:
  "\<exists>salted first final am proof64 s2 s3.
    scram_update sample_crates first (new_inner sample_crates [112] Unsupported [65]) = (Inr (), s2) \<and>
    message_of s2 = Some (final @ ascii '',p='' @ proof64) \<and>
    rfc_server_check sample_crates (rfc_stored_key sample_crates salted) am proof64 \<and>
    scram_finish sample_crates (rfc_server_final sample_crates (rfc_server_key sample_crates salted) am) s2 =
      (Inr (), s3) \<and> sc_state s3 = Done"
proof -
  have "printable ([65] @ [66])" by (simp add: printable_def is_printable_def)
  from scram_exchange [OF sample_crates_ok(1,3) this refl refl refl refl,
      where password = "[112]" and salt = "[1, 2]" and i = 4096 and cb = Unsupported]
  show ?thesis by blast
qed

text \<open>
  \<open>finish\<close> succeeds iff the exchange is in its last state and the message is \<open>v=\<close> and base64 text
  that decodes to exactly the server's signature over the recorded authentication message.
\<close>

lemma scram_finish_ok_iff:
  "fst (scram_finish c m s) = Inr () \<longleftrightarrow>
     (\<exists>salted am v. sc_state s = Finish salted am \<and> m = ascii ''v='' @ v \<and> list_all b64_char v \<and>
       b64_decode c v = Some (hmac_sha256 c (rfc_server_key c salted) am))"
  by (cases "sc_state s") (simp_all add: scram_finish_def finish_check_iff invalid_state_error_def)

section \<open>The order of the exchange\<close>

text \<open>The states a client can reach by any sequence of calls, in any order, with any messages.\<close>

inductive scram_run :: "crates \<Rightarrow> bytes \<Rightarrow> channel_binding \<Rightarrow> bytes \<Rightarrow> scram \<Rightarrow> bool"
  for c password cb nonce where
  run_new: "scram_run c password cb nonce (new_inner c password cb nonce)"
| run_update: "scram_run c password cb nonce s \<Longrightarrow> scram_run c password cb nonce (snd (scram_update c m s))"
| run_finish: "scram_run c password cb nonce s \<Longrightarrow> scram_run c password cb nonce (snd (scram_finish c m s))"

lemma update_result:
  "fst (scram_update c m s) = Inr () \<or> sc_state (snd (scram_update c m s)) = Done"
  by (auto simp: scram_update_def split: scram_state.splits sum.splits)

lemma finish_done: "sc_state (snd (scram_finish c m s)) = Done"
  by (simp add: scram_finish_def split: scram_state.splits)

lemma update_needs_update: "fst (scram_update c m s) = Inr () \<Longrightarrow> \<exists>n p b. sc_state s = Update n p b"
  by (auto simp: scram_update_def split: scram_state.splits)

lemma update_gives_finish: "scram_update c m s = (Inr (), s') \<Longrightarrow> \<exists>k am. sc_state s' = Finish k am"
  by (auto simp: scram_update_def update_exchange_def Let_def split: scram_state.splits sum.splits if_splits)

lemma scram_run_inv:
  "scram_run c password cb nonce s \<Longrightarrow>
     s = new_inner c password cb nonce \<or> sc_state s = Done \<or>
     (\<exists>m. scram_update c m (new_inner c password cb nonce) = (Inr (), s))"
proof (induction rule: scram_run.induct)
  case run_new
  then show ?case by simp
next
  case (run_update s m)
  show ?case
  proof (cases "fst (scram_update c m s) = Inr ()")
    case True
    from update_needs_update [OF this] run_update.IH update_gives_finish
    have "s = new_inner c password cb nonce" by fastforce
    with True show ?thesis by (metis prod.collapse)
  next
    case False
    with update_result show ?thesis by blast
  qed
next
  case (run_finish s m)
  then show ?case by (simp add: finish_done)
qed

lemma update_accepts_nonce:
  assumes "scram_update c m (new_inner c password cb nonce) = (Inr (), s)"
  shows "\<exists>ext salt64 num. m = ascii ''r='' @ nonce @ ext @ ascii '',s='' @ salt64 @ ascii '',i='' @ num"
proof -
  from assms obtain p where p: "server_first_message (parser_new m) = Inr p"
    "starts_with nonce (sf_nonce p)"
    by (auto simp: scram_update_def new_inner_def update_exchange_def scram_utf8_def
        split: sum.splits if_splits)
  then have "sf_nonce p = nonce @ drop (length nonce) (sf_nonce p)"
    by (metis append_take_drop_id starts_with_def)
  with p(1) show ?thesis unfolding server_first_bytes by (metis append.assoc)
qed

text \<open>
  C35: whatever calls were made in whatever order, authentication succeeds only in a client whose one
  earlier successful step was \<open>update\<close> on a server-first message that carries an extension of the client's own
  nonce; afterwards the exchange is over.
\<close>

theorem scram_success_ordered:
  assumes "scram_run c password cb nonce s" "fst (scram_finish c m s) = Inr ()"
  shows "(\<exists>first ext salt64 num. scram_update c first (new_inner c password cb nonce) = (Inr (), s) \<and>
      first = ascii ''r='' @ nonce @ ext @ ascii '',s='' @ salt64 @ ascii '',i='' @ num) \<and>
    message_of (snd (scram_finish c m s)) = None"
proof -
  have "\<exists>k am. sc_state s = Finish k am"
    using assms(2) by (auto simp: scram_finish_def invalid_state_error_def split: scram_state.splits)
  with scram_run_inv [OF assms(1)] obtain first where
    "scram_update c first (new_inner c password cb nonce) = (Inr (), s)"
    by (auto simp: new_inner_def)
  with update_accepts_nonce [OF this] finish_done show ?thesis
    by (auto simp: message_of_def)
qed

theorem scram_success_ordered_witness:
  "\<exists>s m. (\<exists>first ext salt64 num. scram_update sample_crates first
      (new_inner sample_crates [112] Unsupported [65]) = (Inr (), s) \<and>
      first = ascii ''r='' @ [65] @ ext @ ascii '',s='' @ salt64 @ ascii '',i='' @ num) \<and>
    message_of (snd (scram_finish sample_crates m s)) = None"
proof -
  let ?c = "sample_crates" and ?n = "new_inner sample_crates [112] Unsupported [65]"
  have "printable ([65] @ [66])" by (simp add: printable_def is_printable_def)
  from update_honest [OF sample_crates_ok(3) this, where password = "normalize ?c [112]" and
      cb = Unsupported and salt = "[1]" and i = 4096]
  obtain s k am where s: "scram_update ?c (rfc_server_first ?c ([65] @ [66]) [1] 4096) ?n = (Inr (), s)"
    "sc_state s = Finish k am"
    by (auto simp: scram_update_def new_inner_def Let_def simp del: append.simps)
  then have run: "scram_run ?c [112] Unsupported [65] s" by (metis run_new run_update snd_conv)
  have "fst (scram_finish ?c (rfc_server_final ?c (rfc_server_key ?c k) am) s) = Inr ()"
    using s(2) base64_lawsD [OF sample_crates_ok(3)]
    by (simp add: scram_finish_def finish_check_iff rfc_server_final_def)
  from scram_success_ordered [OF run this] show ?thesis by blast
qed

text \<open>
  A server that reports an authentication failure, \<open>e=<reason>\<close>, is not understood: for a reason that is
  not made of the characters NUL, \<open>=\<close> and \<open>,\<close>, the client fails with a complaint about trailing data and drops
  the reason.
\<close>

lemma scram_server_error_lost:
  assumes "sc_state s = Finish salted am" "utf8_valid (ascii ''e='' @ r # reason)"
    and "unat r < 128" "\<not> value_char (unat r)"
  shows "fst (scram_finish c (ascii ''e='' @ r # reason) s) =
    Inl (Io_Error InvalidInput (Msg ''unexpected trailing data at byte 2''))"
proof -
  obtain cs where cs: "utf8_decode (ascii ''e='' @ r # reason) = Some cs"
    using assms(2) by (auto simp: utf8_valid_def)
  have "utf8_decode (ascii ''e='' @ r # reason) =
      map_option (\<lambda>x. 101 # 61 # unat r # x) (utf8_decode reason)"
    using assms(3)
    by (simp add: ascii_def utf8_decode.simps [of "_ # _"] Let_def option.map_comp comp_def)
  with cs obtain x where "cs = 101 # 61 # unat r # x" by auto
  with cs have "parser_new (ascii ''e='' @ r # reason) = at [] (101 # 61 # unat r # x)"
    by (simp add: parser_new_at)
  moreover have "show_nat (Suc (Suc 0)) = ''2''"
    by (simp add: show_nat.simps) (simp add: char_of_def bit_Suc_0_iff)
  ultimately show ?thesis
    using assms by (simp add: scram_finish_def finish_check_def scram_utf8_def server_final_message_def
        server_error_at parse_eof_at utf8_encode_char_def del: bind_res_Inr)
qed

theorem scram_server_error_lost_witness:
  "fst (scram_finish sample_crates (ascii ''e='' @ 111 # ascii ''ther-error'')
      \<lparr>sc_message = [], sc_state = Finish [] []\<rparr>) =
    Inl (Io_Error InvalidInput (Msg ''unexpected trailing data at byte 2''))"
proof -
  have "utf8_valid (ascii ''e='' @ 111 # ascii ''ther-error'')"
    by (intro all_ascii_valid) (simp add: all_ascii_def ascii_def)
  then show ?thesis
    by (intro scram_server_error_lost) (simp_all add: value_char_def)
qed

end
