(* ===== verification/Password.thy ===== *)
theory Password
  imports Sasl_Laws Escape
begin

text \<open>
  Client-side password hashing for \<open>ALTER USER ... PASSWORD\<close> (\<open>password/mod.rs\<close>), and how it fits the
  authentication exchange and the SQL quoting of the same crate.
\<close>

definition SCRAM_DEFAULT_ITERATIONS :: u32 where
  "SCRAM_DEFAULT_ITERATIONS = 4096"

definition scram_sha_256_salt :: "crates \<Rightarrow> bytes \<Rightarrow> bytes \<Rightarrow> bytes" where
  "scram_sha_256_salt c password salt =
     (let prepared = (if utf8_valid password
                      then (case saslprep c password of Some p \<Rightarrow> p | None \<Rightarrow> password)
                      else password);
          salted_password = hi c prepared salt SCRAM_DEFAULT_ITERATIONS;
          client_key = hmac_sha256 c salted_password (ascii ''Client Key'');
          stored_key = sha256 c client_key;
          server_key = hmac_sha256 c salted_password (ascii ''Server Key'')
      in ascii ''SCRAM-SHA-256$'' @ ascii (show_nat (unat SCRAM_DEFAULT_ITERATIONS)) @ ascii '':'' @
         b64_encode c salt @ ascii ''$'' @ b64_encode c stored_key @ ascii '':'' @ b64_encode c server_key)"

text \<open>\<open>random_salt\<close> is what the generator fills the 16 salt bytes with.\<close>

definition scram_sha_256 :: "crates \<Rightarrow> bytes \<Rightarrow> bytes \<Rightarrow> bytes" where
  "scram_sha_256 c password random_salt = scram_sha_256_salt c password random_salt"

definition md5_password :: "crates \<Rightarrow> bytes \<Rightarrow> bytes \<Rightarrow> bytes" where
  "md5_password c password username =
     (let salted_password = password @ username;
          digest = md5 c salted_password
      in ascii ''md5'' @ lower_hex digest)"

text \<open>The verifier text a server stores for SCRAM.\<close>

definition scram_verifier :: "crates \<Rightarrow> bytes \<Rightarrow> bytes \<Rightarrow> bytes \<Rightarrow> bytes" where
  "scram_verifier c salt stored_key server_key =
     ascii ''SCRAM-SHA-256$4096:'' @ b64_encode c salt @ ascii ''$'' @ b64_encode c stored_key @
     ascii '':'' @ b64_encode c server_key"

lemma ascii_append: "ascii (s @ t) = ascii s @ ascii t"
  by (simp add: ascii_def)

lemma show_4096: "show_nat 4096 = ''4096''"
  by (simp add: show_nat.simps) (simp add: char_of_def bit_simps)

lemma scram_sha_256_salt_eq:
  "scram_sha_256_salt c password salt =
     (let salted = hi c (normalize c password) salt 4096
      in scram_verifier c salt (rfc_stored_key c salted) (rfc_server_key c salted))"
proof -
  have "ascii ''SCRAM-SHA-256$4096:'' = ascii ''SCRAM-SHA-256$'' @ ascii ''4096'' @ ascii '':''"
    by (simp flip: ascii_append)
  moreover have "(if utf8_valid password then (case saslprep c password of Some p \<Rightarrow> p | None \<Rightarrow> password)
      else password) = normalize c password"
    by (simp add: normalize_def)
  ultimately show ?thesis
    by (simp add: scram_sha_256_salt_def scram_verifier_def rfc_stored_key_def rfc_server_key_def
        SCRAM_DEFAULT_ITERATIONS_def show_4096 Let_def)
qed

text \<open>
  The verifier the client computes for a password is one against which a client that knows the same
  password authenticates: with the keys the verifier holds, the server accepts the proof and the
  client accepts the server.
\<close>

lemma stored_password_authenticates:
  assumes "hash_lengths c" "base64_laws c" "printable (nonce @ ext)"
  shows "\<exists>stored_key server_key proof64 am s2 s3.
    scram_sha_256_salt c password salt = scram_verifier c salt stored_key server_key \<and>
    scram_update c (rfc_server_first c (nonce @ ext) salt 4096) (new_inner c password cb nonce) = (Inr (), s2) \<and>
    message_of s2 = Some (rfc_final_without_proof c cb (nonce @ ext) @ ascii '',p='' @ proof64) \<and>
    rfc_server_check c stored_key am proof64 \<and>
    scram_finish c (rfc_server_final c server_key am) s2 = (Inr (), s3)"
  using honest_exchange [OF assms refl refl refl refl, where password = password and salt = salt
      and i = 4096 and cb = cb]
  by (simp only: scram_sha_256_salt_eq Let_def) blast

theorem stored_password_authenticates_witness:
  "\<exists>stored_key server_key proof64 am s2 s3.
    scram_sha_256_salt sample_crates [112] [1, 2] = scram_verifier sample_crates [1, 2] stored_key server_key \<and>
    scram_update sample_crates (rfc_server_first sample_crates ([65] @ [66]) [1, 2] 4096)
      (new_inner sample_crates [112] Unsupported [65]) = (Inr (), s2) \<and>
    message_of s2 = Some (rfc_final_without_proof sample_crates Unsupported ([65] @ [66]) @ ascii '',p='' @ proof64) \<and>
    rfc_server_check sample_crates stored_key am proof64 \<and>
    scram_finish sample_crates (rfc_server_final sample_crates server_key am) s2 = (Inr (), s3)"
  by (rule stored_password_authenticates) (simp_all add: sample_crates_ok printable_def is_printable_def)

section \<open>Quoting the result\<close>

definition plain :: "bytes \<Rightarrow> bool" where
  "plain b \<longleftrightarrow> list_all (\<lambda>x. unat x \<noteq> 39 \<and> unat x \<noteq> 92) b"

lemma plain_append [simp]: "plain (a @ b) \<longleftrightarrow> plain a \<and> plain b"
  by (simp add: plain_def)

lemma plain_escape: "plain b \<Longrightarrow> escape_literal (map unat b) = [squote] @ map unat b @ [squote]"
proof -
  assume "plain b"
  then have "count_list (map unat b) backslash = 0" "count_list (map unat b) squote = 0"
    by (induction b) (auto simp: plain_def)
  then have "escape_scan squote (map unat b) (0, 0) = (0, 0)"
    by (simp only: escape_scan_acc) simp
  then show ?thesis
    by (simp add: escape_literal_def escape_internal_def)
qed

lemma plain_b64: "base64_laws c \<Longrightarrow> plain (b64_encode c x)"
  using base64_lawsD(2) [of c x] by (auto simp: plain_def list_all_iff b64_char_def Let_def)

lemma plain_hex: "plain (hex_encode x)"
  using hex_encode_range [of _ x] by (fastforce simp: plain_def list_all_iff)

text \<open>
  As documented, the hashed passwords need no escaping: quoting them as a SQL literal only puts
  them between single quotes.
\<close>

lemma hashed_password_is_plain:
  assumes "base64_laws c"
  shows "escape_literal (map unat (scram_sha_256 c password salt)) =
      [squote] @ map unat (scram_sha_256 c password salt) @ [squote] \<and>
    escape_literal (map unat (md5_password c password user)) =
      [squote] @ map unat (md5_password c password user) @ [squote]"
proof -
  have lit: "plain (ascii ''SCRAM-SHA-256$4096:'')" "plain (ascii ''$'')" "plain (ascii '':'')"
    "plain (ascii ''md5'')" by (simp_all add: plain_def ascii_def)
  then have "plain (scram_sha_256 c password salt)"
    using plain_b64 [OF assms] by (simp add: scram_sha_256_def scram_sha_256_salt_eq scram_verifier_def Let_def)
  moreover have "plain (md5_password c password user)"
    using lit plain_hex by (simp add: md5_password_def lower_hex_hex_encode Let_def)
  ultimately show ?thesis by (simp only: plain_escape)
qed

theorem hashed_password_is_plain_witness:
  "escape_literal (map unat (scram_sha_256 sample_crates [112] [1])) =
      [squote] @ map unat (scram_sha_256 sample_crates [112] [1]) @ [squote] \<and>
    escape_literal (map unat (md5_password sample_crates [112] [117])) =
      [squote] @ map unat (md5_password sample_crates [112] [117]) @ [squote]"
  by (rule hashed_password_is_plain) (simp add: sample_crates_ok)

end
