(* ===== verification/Codec.thy ===== *)
theory Codec
  imports Backend_Laws
begin

text \<open>
  The framing codec between the socket and the connection (\<open>tokio-opengauss/src/codec.rs\<close>). The decoder
  cuts the received bytes into items: one asynchronous message, or a batch of ordinary messages
  that ends before the next asynchronous one, after a \<open>ReadyForQuery\<close>, or where the received data ends.
  The reader that owns the buffer is \<open>tokio_util\<close>'s \<open>Framed\<close>: it calls the decoder until that asks for more
  input, and then appends what the socket delivers.
\<close>

section \<open>The codec\<close>

datatype frontend_message = Raw bytes | CopyDataMsg copy_data

record backend_messages =
  bm_buf :: bytes
  bm_mode :: auth_mode

datatype backend_message =
    Normal backend_messages bool
  | Async message

definition messages_empty :: backend_messages where
  "messages_empty = \<lparr>bm_buf = [], bm_mode = Standard\<rparr>"

definition messages_with_mode :: "bytes \<Rightarrow> auth_mode \<Rightarrow> backend_messages" where
  "messages_with_mode buf mode = \<lparr>bm_buf = buf, bm_mode = mode\<rparr>"

definition messages_next :: "(backend_messages, io_error, message) iter_next" where
  "messages_next s =
     (let (r, buf) = parse_with_mode (bm_buf s) (bm_mode s)
      in bind_res r (\<lambda>m. Inr (m, s\<lparr>bm_buf := buf\<rparr>)))"

definition encode :: "frontend_message \<Rightarrow> bytes \<Rightarrow> bytes" where
  "encode item dst = (case item of Raw buf \<Rightarrow> dst @ buf | CopyDataMsg data \<Rightarrow> copy_data_write data dst)"

definition is_async_tag :: "u8 \<Rightarrow> bool" where
  "is_async_tag t \<longleftrightarrow>
     t = NOTICE_RESPONSE_TAG \<or> t = NOTIFICATION_RESPONSE_TAG \<or> t = PARAMETER_STATUS_TAG"

text \<open>After the loop: nothing to return, or the batch \<open>src.split_to(idx)\<close>.\<close>

definition decode_done ::
  "auth_mode \<Rightarrow> bytes \<Rightarrow> nat \<Rightarrow> bool \<Rightarrow> (io_error fault + backend_message option) \<times> bytes" where
  "decode_done mode src idx request_complete =
     (if idx = 0 then (Inr None, src)
      else (Inr (Some (Normal (messages_with_mode (take idx src) mode) request_complete)), drop idx src))"

definition decode_async ::
  "auth_mode \<Rightarrow> bytes \<Rightarrow> (io_error fault + backend_message option) \<times> bytes" where
  "decode_async mode src =
     (case parse_with_mode src mode of
        (Inl e, src) \<Rightarrow> (Inl (Fault e), src)
      | (Inr None, src) \<Rightarrow> (Inl Panic, src)
      | (Inr (Some message), src) \<Rightarrow> (Inr (Some (Async message)), src))"

function decode_loop ::
  "auth_mode \<Rightarrow> bytes \<Rightarrow> nat \<Rightarrow> (io_error fault + backend_message option) \<times> bytes" where
  "decode_loop mode src idx =
     (case header_parse (drop idx src) of
        Inl e \<Rightarrow> (Inl (Fault e), src)
      | Inr None \<Rightarrow> decode_done mode src idx False
      | Inr (Some header) \<Rightarrow>
          (let len = unat (header_len header) + 1 in
           if length (drop idx src) < len then decode_done mode src idx False
           else if is_async_tag (header_tag header) then
             (if idx = 0 then decode_async mode src else decode_done mode src idx False)
           else if header_tag header = READY_FOR_QUERY_TAG then decode_done mode src (idx + len) True
           else decode_loop mode src (idx + len)))"
  by pat_completeness auto
termination
  by (relation "measure (\<lambda>(mode, src, idx). length src - idx)") auto

declare decode_loop.simps [simp del]

definition decode :: "auth_mode \<Rightarrow> bytes \<Rightarrow> (io_error fault + backend_message option) \<times> bytes" where
  "decode mode src = decode_loop mode src 0"

section \<open>One decoding step\<close>

text \<open>A frame the header parser accepts has a body that fits the signed length field.\<close>

lemma header_parse_frame:
  assumes "length body \<le> max_body"
  shows "header_parse (t # frame body @ r) =
    Inr (Some \<lparr>header_tag = t, header_len = of_nat (length body + 4)\<rparr>)"
proof -
  have "sint (of_nat (length body + 4) :: i32) = int (length body + 4)"
    using assms unfolding max_body_def by (intro sint_of_nat_i32) simp
  then show ?thesis
    by (simp add: header_parse_def frame_def word_be_be_word Let_def del: of_nat_add)
qed

lemma frame_len: "length body \<le> max_body \<Longrightarrow> unat (of_nat (length body + 4) :: i32) = length body + 4"
  unfolding max_body_def by (intro unat_of_nat_i32) simp

lemma length_frame [simp]: "length (frame body) = length body + 4"
  by (simp add: frame_def)

lemma frame_split [simp]:
  "take (5 + length body) (t # frame body @ r) = t # frame body"
  "drop (5 + length body) (t # frame body @ r) = r"
proof -
  have "5 + length body = length (t # frame body)" "t # frame body @ r = (t # frame body) @ r" by simp_all
  then show "take (5 + length body) (t # frame body @ r) = t # frame body"
    "drop (5 + length body) (t # frame body @ r) = r"
    by (simp_all only: append_eq_conv_conj [THEN iffD1] take_append drop_append) simp_all
qed

lemma max_body_frame: "length body \<le> max_body \<Longrightarrow> length body \<le> max_frame"
  by (simp add: max_body_def max_frame_def)

text \<open>What the header parser sees in any buffer.\<close>

lemma header_parse_cases:
  obtains (more) "header_parse buf = Inr None"
    | (bad) e where "header_parse buf = Inl e"
    | (incomplete) h where "header_parse buf = Inr (Some h)" "length buf < unat (header_len h) + 1"
    | (complete) t body r where "buf = t # frame body @ r" "length body \<le> max_body"
proof (cases rule: buffer_cases [of buf])
  case short
  then have "header_parse buf = Inr None" by (simp add: header_parse_def)
  then show ?thesis by (rule that(1))
next
  case (bad t len r)
  have "sint len < 4"
  proof (rule ccontr)
    assume "\<not> sint len < 4"
    with unat_nonneg_i32 [of len] bad(2) show False by linarith
  qed
  then have "header_parse buf = Inl (Io_Error InvalidData (Msg ''invalid message length: header length < 4''))"
    using bad by (simp add: header_parse_def word_be_be_word Let_def)
  then show ?thesis by (rule that(2))
next
  case (incomplete t len r)
  show ?thesis
  proof (cases "sint len < 4")
    case True
    then have "header_parse buf = Inl (Io_Error InvalidData (Msg ''invalid message length: header length < 4''))"
      using incomplete by (simp add: header_parse_def word_be_be_word Let_def)
    then show ?thesis by (rule that(2))
  next
    case False
    then have "header_parse buf = Inr (Some \<lparr>header_tag = t, header_len = len\<rparr>)"
      using incomplete by (simp add: header_parse_def word_be_be_word Let_def)
    moreover have "length buf < unat len + 1" using incomplete by simp
    ultimately show ?thesis using that(3) by fastforce
  qed
next
  case (complete t body r)
  show ?thesis
  proof (cases "length body \<le> max_body")
    case True
    with complete that(4) show ?thesis by blast
  next
    case False
    let ?len = "of_nat (length body + 4) :: i32"
    have "unat ?len = length body + 4" using complete(2) by (rule unat_frame_len)
    then have "sint ?len < 4"
      using unat_nonneg_i32 [of ?len] False by (cases "sint ?len < 0") (simp_all add: max_body_def)
    then have "header_parse buf = Inl (Io_Error InvalidData (Msg ''invalid message length: header length < 4''))"
      using complete by (simp add: header_parse_def frame_def word_be_be_word Let_def del: of_nat_add)
    then show ?thesis by (rule that(2))
  qed
qed

lemma decode_async_frame:
  assumes "length body \<le> max_body"
  shows "decode_async mode (t # frame body @ r) =
    ((case parse_outcome (parse_body mode t body) of
        Inl e \<Rightarrow> Inl (Fault e) | Inr None \<Rightarrow> Inl Panic | Inr (Some m) \<Rightarrow> Inr (Some (Async m))), r)"
  by (simp add: decode_async_def parse_frame max_body_frame assms split: sum.splits option.splits)

text \<open>
  The loop, one frame at a time: \<open>pre\<close> is what has been taken into the batch.
\<close>

lemma decode_loop_frame:
  assumes "length body \<le> max_body"
  shows "decode_loop mode (pre @ t # frame body @ r) (length pre) =
    (if is_async_tag t then
       (if pre = [] then decode_async mode (t # frame body @ r)
        else (Inr (Some (Normal (messages_with_mode pre mode) False)), t # frame body @ r))
     else if t = READY_FOR_QUERY_TAG then
       (Inr (Some (Normal (messages_with_mode (pre @ t # frame body) mode) True)), r)
     else decode_loop mode ((pre @ t # frame body) @ r) (length (pre @ t # frame body)))"
  using assms
  by (subst decode_loop.simps)
    (simp add: header_parse_frame frame_len decode_done_def Let_def add.assoc del: of_nat_add)

section \<open>The batches a stream is cut into\<close>

definition message_tag :: "message \<Rightarrow> u8" where
  "message_tag m = fst (message_wire m)"

definition wire :: "message \<Rightarrow> bytes" where
  "wire m = message_tag m # frame (snd (message_wire m))"

lemma wire_nonempty [simp]: "wire m \<noteq> []"
  by (simp add: wire_def)

abbreviation wires :: "message list \<Rightarrow> bytes" where
  "wires ms \<equiv> concat (map wire ms)"

text \<open>A message of the mode that fits a frame.\<close>

definition sendable :: "auth_mode \<Rightarrow> message \<Rightarrow> bool" where
  "sendable mode m \<longleftrightarrow> wf_message mode m \<and> length (snd (message_wire m)) \<le> max_body"

definition is_async :: "message \<Rightarrow> bool" where
  "is_async m \<longleftrightarrow> is_async_tag (message_tag m)"

definition is_ready :: "message \<Rightarrow> bool" where
  "is_ready m \<longleftrightarrow> message_tag m = READY_FOR_QUERY_TAG"

fun batch :: "message list \<Rightarrow> message list \<times> bool \<times> message list" where
  "batch [] = ([], False, [])"
| "batch (m # ms) =
     (if is_async m then ([], False, m # ms)
      else if is_ready m then ([m], True, ms)
      else (let (b, rc, rest) = batch ms in (m # b, rc, rest)))"

text \<open>Received data that holds no complete frame yet.\<close>

definition stalls :: "bytes \<Rightarrow> bool" where
  "stalls p \<longleftrightarrow> (case header_parse p of
       Inl _ \<Rightarrow> False | Inr None \<Rightarrow> True | Inr (Some h) \<Rightarrow> length p < unat (header_len h) + 1)"

lemma parse_wire: "sendable mode m \<Longrightarrow> parse_with_mode (wire m @ r) mode = (Inr (Some m), r)"
  using parse_body_wire [of mode m]
  by (simp add: sendable_def wire_def message_tag_def parse_frame max_body_frame parse_outcome_def)

lemma decode_loop_stalls: "stalls p \<Longrightarrow> decode_loop mode (pre @ p) (length pre) = decode_done mode (pre @ p) (length pre) False"
  by (subst decode_loop.simps) (auto simp: stalls_def Let_def split: sum.splits option.splits)

lemma decode_loop_wire:
  assumes "sendable mode m"
  shows "decode_loop mode (pre @ wire m @ r) (length pre) =
    (if is_async m then
       (if pre = [] then (Inr (Some (Async m)), r)
        else (Inr (Some (Normal (messages_with_mode pre mode) False)), wire m @ r))
     else if is_ready m then (Inr (Some (Normal (messages_with_mode (pre @ wire m) mode) True)), r)
     else decode_loop mode ((pre @ wire m) @ r) (length (pre @ wire m)))"
proof -
  have "decode_async mode (wire m @ r) = (Inr (Some (Async m)), r)"
    by (simp add: decode_async_def parse_wire assms)
  moreover have "length (snd (message_wire m)) \<le> max_body" using assms by (simp add: sendable_def)
  ultimately show ?thesis
    using decode_loop_frame [of "snd (message_wire m)" mode pre "message_tag m" r]
    unfolding wire_def is_async_def is_ready_def by (simp only: append_Cons split: if_split)
qed

lemma decode_loop_batch:
  assumes "list_all (sendable mode) ms" "stalls p" "batch ms = (b, rc, rest)"
  shows "decode_loop mode (pre @ wires ms @ p) (length pre) =
    (if pre = [] \<and> b = [] then
       (case rest of [] \<Rightarrow> (Inr None, p) | m # ms' \<Rightarrow> (Inr (Some (Async m)), wires ms' @ p))
     else (Inr (Some (Normal (messages_with_mode (pre @ wires b) mode) rc)), wires rest @ p))"
  using assms
proof (induction ms arbitrary: pre b)
  case Nil
  then show ?case by (auto simp: decode_loop_stalls decode_done_def)
next
  case (Cons m ms)
  have m: "sendable mode m" using Cons.prems(1) by simp
  note step = decode_loop_wire [OF m, of pre "wires ms @ p"]
  consider "is_async m" | "\<not> is_async m" "is_ready m" | "\<not> is_async m" "\<not> is_ready m" by blast
  then show ?case
  proof cases
    case 3
    with Cons.prems(3) obtain b' where b: "batch ms = (b', rc, rest)" "b = m # b'"
      by (auto split: prod.splits)
    from Cons.IH [OF _ _ b(1), of "pre @ wire m"] Cons.prems(1,2) have
      "decode_loop mode ((pre @ wire m) @ wires ms @ p) (length (pre @ wire m)) =
        (Inr (Some (Normal (messages_with_mode ((pre @ wire m) @ wires b') mode) rc)), wires rest @ p)"
      by simp
    with 3 step b show ?thesis by simp
  qed (use Cons.prems(3) step in auto)
qed

lemma batch_split: "batch ms = (b, rc, rest) \<Longrightarrow>
    ms = b @ rest \<and> list_all (\<lambda>m. \<not> is_async m) b \<and> list_all (\<lambda>m. \<not> is_ready m) (butlast b) \<and>
    (b \<noteq> [] \<longrightarrow> rc = is_ready (last b)) \<and> (b = [] \<longrightarrow> rest = [] \<or> is_async (hd rest))"
proof (induction ms arbitrary: b rc rest)
  case Nil
  then show ?case by simp
next
  case (Cons m ms)
  consider "is_async m" | "\<not> is_async m" "is_ready m" | "\<not> is_async m" "\<not> is_ready m" by blast
  then show ?case
  proof cases
    case 3
    with Cons.prems obtain b' where b: "batch ms = (b', rc, rest)" "b = m # b'"
      by (auto split: prod.splits)
    moreover have "rc = False" if "b' = []"
      using b(1) that by (cases ms) (auto split: if_splits prod.splits)
    ultimately show ?thesis using Cons.IH [OF b(1)] 3 by simp
  qed (use Cons.prems in auto)
qed

section \<open>The batches contain the messages\<close>

definition mk_messages :: "auth_mode \<Rightarrow> message list \<Rightarrow> backend_messages" where
  "mk_messages mode ms = messages_with_mode (wires ms) mode"

interpretation batch_iter: fallible_iter messages_next "\<lambda>s. length (bm_buf s)"
proof
  fix s x s'
  assume "messages_next s = Inr (Some x, s')"
  then obtain rest where "parse_with_mode (bm_buf s) (bm_mode s) = (Inr (Some x), rest)" "bm_buf s' = rest"
    by (auto simp: messages_next_def Let_def split: prod.splits)
  then show "length (bm_buf s') < length (bm_buf s)"
    by (auto simp: parse_some_frame)
qed

interpretation batch_source: iter_source messages_next "\<lambda>s. length (bm_buf s)" "mk_messages mode"
  "list_all (sendable mode)" for mode
proof
  show "\<exists>s. messages_next (mk_messages mode []) = Inr (None, s)"
    by (simp add: messages_next_def mk_messages_def messages_with_mode_def parse_with_mode_short)
  fix m ms
  assume "list_all (sendable mode) (m # ms)"
  then show "messages_next (mk_messages mode (m # ms)) = Inr (Some m, mk_messages mode ms) \<and>
      list_all (sendable mode) ms"
    by (simp add: messages_next_def mk_messages_def messages_with_mode_def parse_wire)
qed

text \<open>
  The messages of an item, as \<open>BackendMessages\<close> iterates them, and what an item of a well-formed stream
  looks like: an asynchronous message alone, or a nonempty batch without one, in which only the last message
  can end a request, and the flag says whether it does.
\<close>

definition item_messages :: "backend_message \<Rightarrow> message list option" where
  "item_messages i = (case i of
       Async m \<Rightarrow> Some [m]
     | Normal b rc \<Rightarrow> (case collect (Suc (length (bm_buf b))) messages_next b of
           Some (Inr ms) \<Rightarrow> Some ms | _ \<Rightarrow> None))"

definition item_ok :: "backend_message \<Rightarrow> bool" where
  "item_ok i = (case item_messages i of
       None \<Rightarrow> False
     | Some ms \<Rightarrow> (case i of
           Async m \<Rightarrow> is_async m
         | Normal b rc \<Rightarrow> ms \<noteq> [] \<and> list_all (\<lambda>m. \<not> is_async m) ms \<and>
             list_all (\<lambda>m. \<not> is_ready m) (butlast ms) \<and> rc = is_ready (last ms)))"

definition delivered :: "backend_message list \<Rightarrow> message list" where
  "delivered items = concat (map (\<lambda>i. the (item_messages i)) items)"

lemma delivered_simps [simp]:
  "delivered [] = []"
  "delivered (i # items) = the (item_messages i) @ delivered items"
  "delivered (items @ items') = delivered items @ delivered items'"
  by (simp_all add: delivered_def)

lemma item_async [simp]: "item_messages (Async m) = Some [m]" "item_ok (Async m) = is_async m"
  by (simp_all add: item_messages_def item_ok_def)

lemma item_messages_batch:
  "list_all (sendable mode) b \<Longrightarrow> item_messages (Normal (messages_with_mode (wires b) mode) rc) = Some b"
  using batch_source.collect_mk_sz [of mode b] by (simp add: item_messages_def mk_messages_def)

text \<open>\<open>Framed\<close>: the items of the buffer, and what it keeps.\<close>

fun drain :: "nat \<Rightarrow> auth_mode \<Rightarrow> bytes \<Rightarrow> (io_error fault + (backend_message list \<times> bytes)) option" where
  "drain 0 mode buf = None"
| "drain (Suc n) mode buf =
     (case decode mode buf of
        (Inl e, _) \<Rightarrow> Some (Inl e)
      | (Inr None, buf) \<Rightarrow> Some (Inr ([], buf))
      | (Inr (Some item), buf) \<Rightarrow>
          (case drain n mode buf of
             None \<Rightarrow> None
           | Some (Inl e) \<Rightarrow> Some (Inl e)
           | Some (Inr (items, buf)) \<Rightarrow> Some (Inr (item # items, buf))))"

fun receive :: "auth_mode \<Rightarrow> bytes \<Rightarrow> bytes list \<Rightarrow> (io_error fault + (backend_message list \<times> bytes)) option" where
  "receive mode buf [] = Some (Inr ([], buf))"
| "receive mode buf (chunk # chunks) =
     (case drain (Suc (length (buf @ chunk))) mode (buf @ chunk) of
        None \<Rightarrow> None
      | Some (Inl e) \<Rightarrow> Some (Inl e)
      | Some (Inr (items, buf)) \<Rightarrow>
          (case receive mode buf chunks of
             None \<Rightarrow> None
           | Some (Inl e) \<Rightarrow> Some (Inl e)
           | Some (Inr (items', buf)) \<Rightarrow> Some (Inr (items @ items', buf))))"

lemma drain_wires:
  "list_all (sendable mode) ms \<Longrightarrow> stalls p \<Longrightarrow> length ms < n \<Longrightarrow>
     \<exists>items. drain n mode (wires ms @ p) = Some (Inr (items, p)) \<and> list_all item_ok items \<and> delivered items = ms"
proof (induction n arbitrary: ms)
  case 0
  then show ?case by simp
next
  case (Suc n)
  obtain b rc rest where b: "batch ms = (b, rc, rest)" by (cases "batch ms")
  note sp = batch_split [OF b]
  have dec: "decode mode (wires ms @ p) = (if b = [] then
      (case rest of [] \<Rightarrow> (Inr None, p) | m # ms' \<Rightarrow> (Inr (Some (Async m)), wires ms' @ p))
     else (Inr (Some (Normal (messages_with_mode (wires b) mode) rc)), wires rest @ p))"
    using decode_loop_batch [OF Suc.prems(1,2) b, of "[]"] by (simp add: decode_def)
  consider "ms = []" | m ms' where "b = []" "ms = m # ms'" "is_async m" | "b \<noteq> []"
    using sp by (cases b; cases rest) simp_all
  then show ?case
  proof cases
    case 1
    then show ?thesis using dec b by simp
  next
    case (2 m ms')
    then have rest: "rest = m # ms'" using sp by simp
    from Suc.IH [of ms'] Suc.prems 2 obtain items where
      "drain n mode (wires ms' @ p) = Some (Inr (items, p))" "list_all item_ok items" "delivered items = ms'"
      by auto
    with 2 rest dec show ?thesis
      by (intro exI [of _ "Async m # items"]) simp
  next
    case 3
    have b_ok: "list_all (sendable mode) b" and rest: "list_all (sendable mode) rest"
      using Suc.prems(1) sp by simp_all
    have "length rest < n" using 3 sp Suc.prems(3) by (cases b) simp_all
    from Suc.IH [OF rest Suc.prems(2) this] obtain items where
      "drain n mode (wires rest @ p) = Some (Inr (items, p))" "list_all item_ok items" "delivered items = rest"
      by auto
    with 3 sp dec item_messages_batch [OF b_ok] show ?thesis
      by (intro exI [of _ "Normal (messages_with_mode (wires b) mode) rc # items"])
        (simp add: item_ok_def [of "Normal _ _"])
  qed
qed

section \<open>Received data is cut anywhere\<close>

lemma header_parse_prefix: "5 \<le> length p \<Longrightarrow> header_parse (p @ q) = header_parse p"
  by (cases p) (simp_all add: header_parse_def nth_append)

lemma stalls_prefix:
  assumes "sendable mode m" "wire m = p @ q" "q \<noteq> []"
  shows "stalls p"
proof (cases "length p < 5")
  case True
  then show ?thesis by (simp add: stalls_def header_parse_def)
next
  case False
  have len: "length (snd (message_wire m)) \<le> max_body" using assms(1) by (simp add: sendable_def)
  have "header_parse p = header_parse (wire m)"
    using False assms(2) header_parse_prefix [of p q] by simp
  also have "\<dots> = Inr (Some \<lparr>header_tag = message_tag m, header_len = of_nat (length (snd (message_wire m)) + 4)\<rparr>)"
    using header_parse_frame [OF len, of "message_tag m" "[]"] by (simp add: wire_def)
  finally have h: "header_parse p =
    Inr (Some \<lparr>header_tag = message_tag m, header_len = of_nat (length (snd (message_wire m)) + 4)\<rparr>)" .
  have "length (p @ q) = length (snd (message_wire m)) + 5"
    using assms(2) [symmetric] by (simp add: wire_def)
  then have "length p < length (snd (message_wire m)) + 5"
    using assms(3) by (cases q) simp_all
  with h len show ?thesis by (simp add: stalls_def frame_len del: of_nat_add)
qed

lemma stalls_wire: "sendable mode m \<Longrightarrow> \<not> stalls (wire m @ r)"
  by (simp add: stalls_def wire_def sendable_def header_parse_frame frame_len del: of_nat_add)

lemma prefix_split:
  "list_all (sendable mode) ms \<Longrightarrow> wires ms = p @ q \<Longrightarrow>
     \<exists>ms1 ms2 r. ms = ms1 @ ms2 \<and> p = wires ms1 @ r \<and> wires ms2 = r @ q \<and> stalls r"
proof (induction ms arbitrary: p)
  case Nil
  then show ?case by (simp add: stalls_def header_parse_def)
next
  case (Cons m ms)
  show ?case
  proof (cases "length p < length (wire m)")
    case True
    then obtain s where s: "wire m = p @ s" "s \<noteq> []"
      using Cons.prems(2) by (auto simp: append_eq_append_conv2)
    with Cons.prems stalls_prefix [of mode m p s] show ?thesis
      by (intro exI [of _ "[]"] exI [of _ "m # ms"] exI [of _ p]) simp
  next
    case False
    then obtain p' where p: "p = wire m @ p'" "wires ms = p' @ q"
      using Cons.prems(2) by (auto simp: append_eq_append_conv2)
    from Cons.IH [OF _ p(2)] Cons.prems(1) obtain ms1 ms2 r where
      "ms = ms1 @ ms2" "p' = wires ms1 @ r" "wires ms2 = r @ q" "stalls r" by auto
    with p show ?thesis
      by (intro exI [of _ "m # ms1"] exI [of _ ms2] exI [of _ r]) simp
  qed
qed

lemma receive_wires:
  "list_all (sendable mode) ms \<Longrightarrow> wires ms = buf @ concat chunks \<Longrightarrow> stalls buf \<Longrightarrow>
     \<exists>items. receive mode buf chunks = Some (Inr (items, [])) \<and> list_all item_ok items \<and> delivered items = ms"
proof (induction chunks arbitrary: ms buf)
  case Nil
  then have "ms = []" by (cases ms) (auto dest: stalls_wire)
  with Nil show ?case by simp
next
  case (Cons chunk chunks)
  from prefix_split [of mode ms "buf @ chunk" "concat chunks"] Cons.prems obtain ms1 ms2 r where
    sp: "ms = ms1 @ ms2" "buf @ chunk = wires ms1 @ r" "wires ms2 = r @ concat chunks" "stalls r"
    by auto
  have ok: "list_all (sendable mode) ms1" "list_all (sendable mode) ms2" using sp(1) Cons.prems(1) by simp_all
  have "length ms1 \<le> length (wires ms1)"
    by (induction ms1) (simp_all add: wire_def)
  then have "length ms1 < Suc (length (buf @ chunk))" using sp(2) by simp
  from drain_wires [OF ok(1) sp(4) this] obtain items where
    d: "drain (Suc (length (buf @ chunk))) mode (buf @ chunk) = Some (Inr (items, r))"
    "list_all item_ok items" "delivered items = ms1" using sp(2) by auto
  from Cons.IH [OF ok(2) sp(3,4)] obtain items' where
    "receive mode r chunks = Some (Inr (items', []))" "list_all item_ok items'" "delivered items' = ms2"
    by auto
  with d sp(1) show ?case
    by (intro exI [of _ "items @ items'"]) (simp del: drain.simps)
qed

text \<open>
  C10: however the server's stream of messages is cut into pieces by the network, the connection receives
  items that contain exactly those messages, in order; asynchronous messages come alone, a batch ends at
  the end of a request, and nothing is left in the buffer at the end.
\<close>

theorem codec_transparent:
  assumes "list_all (sendable mode) ms" "concat chunks = wires ms"
  shows "\<exists>items. receive mode [] chunks = Some (Inr (items, [])) \<and> list_all item_ok items \<and>
    delivered items = ms"
  using assms by (intro receive_wires) (simp_all add: stalls_def header_parse_def)

theorem codec_transparent_witness:
  "\<exists>items. receive Standard [] [[0x31, 0], [0, 0], [4, 0x5A, 0, 0, 0, 5, 73]] = Some (Inr (items, [])) \<and>
    list_all item_ok items \<and> delivered items = [ParseComplete, ReadyForQuery 73]"
  by (rule codec_transparent)
    (simp_all add: sendable_def wf_message_def message_wire_def max_body_def wire_def message_tag_def
      frame_def wire_defs)

lemma decode_loop_no_panic: "fst (decode_loop mode src idx) \<noteq> Inl Panic"
proof (induction mode src idx rule: decode_loop.induct)
  case (1 mode src idx)
  have "fst (decode_async mode src) \<noteq> Inl Panic"
    if "header_parse src = Inr (Some h)" "unat (header_len h) + 1 \<le> length src" for h
  proof (cases rule: header_parse_cases [of src])
    case (complete t body r)
    then show ?thesis
      by (simp add: decode_async_frame parse_outcome_def split: sum.splits prod.splits option.splits)
  qed (use that in auto)
  with 1 show ?case
    by (subst decode_loop.simps)
      (auto simp: decode_done_def Let_def split: sum.splits option.splits)
qed

text \<open>
  The decoder's \<open>unwrap\<close> cannot panic: when it has seen a header and the bytes it announces, the
  message parser does not ask for more input. This holds for every buffer.
\<close>

lemma decode_never_panics: "fst (decode mode src) \<noteq> Inl Panic"
  by (simp add: decode_def decode_loop_no_panic)

end
