(* ===== verification/Db_Error.thy ===== *)
theory Db_Error
  imports Backend_Bodies Sql_Scalars
begin

text \<open>
  Errors of the asynchronous client (\<open>tokio-opengauss/src/error/mod.rs\<close>): the parser of the fields of an
  error or notice, and the kinds of \<open>Error\<close>. \<open>String::from_utf8_lossy\<close> and \<open>str::parse::<u32>\<close> are the
  standard library's. A \<open>SqlState\<close> is its code: the generated table of \<open>sqlstate.rs\<close> maps a known code
  to a constant with that code, and any other code to itself.
\<close>

section \<open>Lossy UTF-8 and decimal numbers\<close>

text \<open>The length of the invalid sequence at the front, which becomes one replacement character.\<close>

definition invalid_len :: "bytes \<Rightarrow> nat" where
  "invalid_len b =
     (case b of
        [] \<Rightarrow> 0
      | a # r \<Rightarrow>
          (let x = unat a in
           if 0xE0 \<le> x \<and> x < 0xF0 then
             (case r of c # _ \<Rightarrow> if second3 x c then 2 else 1 | [] \<Rightarrow> 1)
           else if 0xF0 \<le> x \<and> x < 0xF5 then
             (case r of
                c # r' \<Rightarrow>
                  if second4 x c then (case r' of d # _ \<Rightarrow> if is_cont d then 3 else 2 | [] \<Rightarrow> 2) else 1
              | [] \<Rightarrow> 1)
           else 1))"

definition replacement :: bytes where
  "replacement = [0xEF, 0xBF, 0xBD]"

function utf8_lossy :: "bytes \<Rightarrow> bytes" where
  "utf8_lossy b =
     (if b = [] then []
      else (case utf8_char b of
              Some (c, r) \<Rightarrow> utf8_encode_char c @ utf8_lossy r
            | None \<Rightarrow> replacement @ utf8_lossy (drop (max 1 (invalid_len b)) b)))"
  by pat_completeness auto
termination
  by (relation "measure length") (auto dest: utf8_char_shorter)

declare utf8_lossy.simps [simp del]

definition ascii_digit :: "u8 \<Rightarrow> bool" where
  "ascii_digit d \<longleftrightarrow> 48 \<le> unat d \<and> unat d \<le> 57"

definition digits_value :: "bytes \<Rightarrow> nat" where
  "digits_value ds = foldl (\<lambda>n d. 10 * n + (unat d - 48)) 0 ds"

definition u32_from_str :: "bytes \<Rightarrow> u32 option" where
  "u32_from_str s =
     (let ds = (case s of d # t \<Rightarrow> if d = 43 then t else s | [] \<Rightarrow> [])
      in if ds = [] \<or> \<not> list_all ascii_digit ds \<or> digits_value ds > 4294967295 then None
         else Some (of_nat (digits_value ds)))"

section \<open>Errors of the server\<close>

datatype severity = Sev_Panic | Sev_Fatal | Sev_Error | Sev_Warning | Sev_Notice | Sev_Debug | Sev_Info | Sev_Log

definition severity_text :: "severity \<Rightarrow> string" where
  "severity_text s = (case s of
       Sev_Panic \<Rightarrow> ''PANIC'' | Sev_Fatal \<Rightarrow> ''FATAL'' | Sev_Error \<Rightarrow> ''ERROR'' | Sev_Warning \<Rightarrow> ''WARNING''
     | Sev_Notice \<Rightarrow> ''NOTICE'' | Sev_Debug \<Rightarrow> ''DEBUG'' | Sev_Info \<Rightarrow> ''INFO'' | Sev_Log \<Rightarrow> ''LOG'')"

definition severity_from_str :: "bytes \<Rightarrow> severity option" where
  "severity_from_str s =
     (if s = ascii ''PANIC'' then Some Sev_Panic
      else if s = ascii ''FATAL'' then Some Sev_Fatal
      else if s = ascii ''ERROR'' then Some Sev_Error
      else if s = ascii ''WARNING'' then Some Sev_Warning
      else if s = ascii ''NOTICE'' then Some Sev_Notice
      else if s = ascii ''DEBUG'' then Some Sev_Debug
      else if s = ascii ''INFO'' then Some Sev_Info
      else if s = ascii ''LOG'' then Some Sev_Log
      else None)"

datatype error_position = Original u32 | Internal u32 bytes

record db_error =
  db_severity :: bytes
  db_parsed_severity :: "severity option"
  db_code :: bytes
  db_message :: bytes
  db_detail :: "bytes option"
  db_hint :: "bytes option"
  db_position :: "error_position option"
  db_where :: "bytes option"
  db_schema :: "bytes option"
  db_table :: "bytes option"
  db_column :: "bytes option"
  db_datatype :: "bytes option"
  db_constraint :: "bytes option"
  db_file :: "bytes option"
  db_line :: "u32 option"
  db_routine :: "bytes option"

text \<open>The local variables of \<open>DbError::parse\<close>.\<close>

record db_vars =
  v_severity :: "bytes option"
  v_parsed_severity :: "severity option"
  v_code :: "bytes option"
  v_message :: "bytes option"
  v_detail :: "bytes option"
  v_hint :: "bytes option"
  v_normal_position :: "u32 option"
  v_internal_position :: "u32 option"
  v_internal_query :: "bytes option"
  v_where :: "bytes option"
  v_schema :: "bytes option"
  v_table :: "bytes option"
  v_column :: "bytes option"
  v_datatype :: "bytes option"
  v_constraint :: "bytes option"
  v_file :: "bytes option"
  v_line :: "u32 option"
  v_routine :: "bytes option"

definition db_init :: db_vars where
  "db_init = \<lparr>v_severity = None, v_parsed_severity = None, v_code = None, v_message = None, v_detail = None,
     v_hint = None, v_normal_position = None, v_internal_position = None, v_internal_query = None,
     v_where = None, v_schema = None, v_table = None, v_column = None, v_datatype = None,
     v_constraint = None, v_file = None, v_line = None, v_routine = None\<rparr>"

definition bad_input :: "string \<Rightarrow> io_error" where
  "bad_input msg = Io_Error InvalidInput (Msg msg)"

definition db_field :: "error_field \<Rightarrow> db_vars \<Rightarrow> io_error + db_vars" where
  "db_field field v =
     (let val = utf8_lossy (ef_value field); t = ef_type field in
      if t = of_char CHR ''S'' then Inr (v\<lparr>v_severity := Some val\<rparr>)
      else if t = of_char CHR ''C'' then Inr (v\<lparr>v_code := Some val\<rparr>)
      else if t = of_char CHR ''M'' then Inr (v\<lparr>v_message := Some val\<rparr>)
      else if t = of_char CHR ''D'' then Inr (v\<lparr>v_detail := Some val\<rparr>)
      else if t = of_char CHR ''H'' then Inr (v\<lparr>v_hint := Some val\<rparr>)
      else if t = of_char CHR ''P'' then
        bind_res (ok_or (bad_input ''`P` field did not contain an integer'') (u32_from_str val))
          (\<lambda>n. Inr (v\<lparr>v_normal_position := Some n\<rparr>))
      else if t = of_char CHR ''p'' then
        bind_res (ok_or (bad_input ''`p` field did not contain an integer'') (u32_from_str val))
          (\<lambda>n. Inr (v\<lparr>v_internal_position := Some n\<rparr>))
      else if t = of_char CHR ''q'' then Inr (v\<lparr>v_internal_query := Some val\<rparr>)
      else if t = of_char CHR ''W'' then Inr (v\<lparr>v_where := Some val\<rparr>)
      else if t = of_char CHR ''s'' then Inr (v\<lparr>v_schema := Some val\<rparr>)
      else if t = of_char CHR ''t'' then Inr (v\<lparr>v_table := Some val\<rparr>)
      else if t = of_char CHR ''c'' then Inr (v\<lparr>v_column := Some val\<rparr>)
      else if t = of_char CHR ''d'' then Inr (v\<lparr>v_datatype := Some val\<rparr>)
      else if t = of_char CHR ''n'' then Inr (v\<lparr>v_constraint := Some val\<rparr>)
      else if t = of_char CHR ''F'' then Inr (v\<lparr>v_file := Some val\<rparr>)
      else if t = of_char CHR ''L'' then
        bind_res (ok_or (bad_input ''`L` field did not contain an integer'') (u32_from_str val))
          (\<lambda>n. Inr (v\<lparr>v_line := Some n\<rparr>))
      else if t = of_char CHR ''R'' then Inr (v\<lparr>v_routine := Some val\<rparr>)
      else if t = of_char CHR ''V'' then
        bind_res (ok_or (bad_input ''`V` field contained an invalid value'') (severity_from_str val))
          (\<lambda>s. Inr (v\<lparr>v_parsed_severity := Some s\<rparr>))
      else Inr v)"

function db_loop :: "bytes \<Rightarrow> db_vars \<Rightarrow> io_error + db_vars" where
  "db_loop b v =
     (case error_fields_next b of
        Inl e \<Rightarrow> Inl e
      | Inr (None, _) \<Rightarrow> Inr v
      | Inr (Some field, b') \<Rightarrow> bind_res (db_field field v) (db_loop b'))"
  by pat_completeness auto
termination
  by (relation "measure (\<lambda>(b, v). length b)") (auto dest: error_iter.shrinks)

declare db_loop.simps [simp del]

definition db_finish :: "db_vars \<Rightarrow> io_error + db_error" where
  "db_finish v =
     bind_res (ok_or (bad_input ''`S` field missing'') (v_severity v)) (\<lambda>severity.
     bind_res (ok_or (bad_input ''`C` field missing'') (v_code v)) (\<lambda>code.
     bind_res (ok_or (bad_input ''`M` field missing'') (v_message v)) (\<lambda>message.
     bind_res (case v_normal_position v of
         Some position \<Rightarrow> Inr (Some (Original position))
       | None \<Rightarrow> (case v_internal_position v of
             Some position \<Rightarrow>
               bind_res (ok_or (bad_input ''`q` field missing but `p` field present'') (v_internal_query v))
                 (\<lambda>query. Inr (Some (Internal position query)))
           | None \<Rightarrow> Inr None)) (\<lambda>position.
     Inr \<lparr>db_severity = severity, db_parsed_severity = v_parsed_severity v, db_code = code,
       db_message = message, db_detail = v_detail v, db_hint = v_hint v, db_position = position,
       db_where = v_where v, db_schema = v_schema v, db_table = v_table v, db_column = v_column v,
       db_datatype = v_datatype v, db_constraint = v_constraint v, db_file = v_file v,
       db_line = v_line v, db_routine = v_routine v\<rparr>))))"

definition db_parse :: "bytes \<Rightarrow> io_error + db_error" where
  "db_parse b = bind_res (db_loop b db_init) db_finish"

section \<open>Errors of the client\<close>

text \<open>
  \<open>Kind\<close> with the cause of the error. The causes of \<open>ConfigParse\<close> are a message, \<open>InvalidValue\<close>, \<open>UnknownOption\<close> and
  the error of \<open>from_utf8\<close>.
\<close>

datatype auth_cause = Cause string | Cause_Io io_error

datatype config_cause = Config_Msg string | InvalidValue string | UnknownOption bytes | Config_Utf8

datatype sql_cause = Wrong_Type | Was_Null | Sql_Cause sql_error

datatype error =
    E_Io io_error
  | E_UnexpectedMessage
  | E_Tls string
  | E_ToSql "sql_cause box_error" nat
  | E_FromSql sql_cause nat
  | E_Column bytes
  | E_ColumnCount
  | E_Parameters nat nat
  | E_Closed
  | E_Db db_error
  | E_Parse io_error
  | E_Encode io_error
  | E_Authentication auth_cause
  | E_ConfigParse config_cause
  | E_Config string
  | E_RowCount
  | E_Connect io_error
  | E_Timeout

text \<open>\<open>Error::db\<close>: the parsed error, or the parse error.\<close>

definition error_db :: "bytes \<Rightarrow> error" where
  "error_db body = (case db_parse body of Inr e \<Rightarrow> E_Db e | Inl e \<Rightarrow> E_Parse e)"

section \<open>What an error reports\<close>

text \<open>The fold over the fields of a complete body, and the last field of a type.\<close>

fun db_fields :: "error_field list \<Rightarrow> db_vars \<Rightarrow> io_error + db_vars" where
  "db_fields [] v = Inr v"
| "db_fields (f # fs) v = bind_res (db_field f v) (db_fields fs)"

fun last_value :: "char \<Rightarrow> error_field list \<Rightarrow> bytes option" where
  "last_value t [] = None"
| "last_value t (f # fs) =
     (case last_value t fs of
        Some x \<Rightarrow> Some x
      | None \<Rightarrow> if ef_type f = of_char t then Some (ef_value f) else None)"

definition field_text :: "char \<Rightarrow> error_field list \<Rightarrow> bytes option" where
  "field_text t fs = map_option utf8_lossy (last_value t fs)"

lemma db_loop_fields: "list_all error_field_ok fs \<Longrightarrow> db_loop (mk_errors fs) v = db_fields fs v"
proof (induction fs arbitrary: v)
  case Nil
  then show ?case by (subst db_loop.simps) (simp add: error_fields_next_def mk_errors_def)
next
  case (Cons f fs)
  then show ?case
    using error_source.nxt_Cons [of f fs]
    by (subst db_loop.simps) (simp del: bind_res_Inr)
qed

text \<open>A variable a single field type sets keeps the last such field.\<close>

lemma db_fields_last:
  assumes "\<And>f v w. db_field f v = Inr w \<Longrightarrow>
      sel w = (if ef_type f = of_char t then Some (utf8_lossy (ef_value f)) else sel v)"
  shows "db_fields fs v = Inr w \<Longrightarrow> sel w = (case field_text t fs of Some x \<Rightarrow> Some x | None \<Rightarrow> sel v)"
proof (induction fs arbitrary: v)
  case Nil
  then show ?case by (simp add: field_text_def)
next
  case (Cons f fs)
  then obtain u where u: "db_field f v = Inr u" "db_fields fs u = Inr w" by auto
  from Cons.IH [OF u(2)] assms [OF u(1)] show ?case
    by (auto simp: field_text_def split: option.splits)
qed

lemma db_field_sets:
  assumes "db_field f v = Inr w"
  shows "v_severity w = (if ef_type f = of_char CHR ''S'' then Some (utf8_lossy (ef_value f)) else v_severity v)"
    "v_code w = (if ef_type f = of_char CHR ''C'' then Some (utf8_lossy (ef_value f)) else v_code v)"
    "v_message w = (if ef_type f = of_char CHR ''M'' then Some (utf8_lossy (ef_value f)) else v_message v)"
    "v_detail w = (if ef_type f = of_char CHR ''D'' then Some (utf8_lossy (ef_value f)) else v_detail v)"
    "v_hint w = (if ef_type f = of_char CHR ''H'' then Some (utf8_lossy (ef_value f)) else v_hint v)"
    "v_where w = (if ef_type f = of_char CHR ''W'' then Some (utf8_lossy (ef_value f)) else v_where v)"
    "v_schema w = (if ef_type f = of_char CHR ''s'' then Some (utf8_lossy (ef_value f)) else v_schema v)"
    "v_table w = (if ef_type f = of_char CHR ''t'' then Some (utf8_lossy (ef_value f)) else v_table v)"
    "v_column w = (if ef_type f = of_char CHR ''c'' then Some (utf8_lossy (ef_value f)) else v_column v)"
    "v_datatype w = (if ef_type f = of_char CHR ''d'' then Some (utf8_lossy (ef_value f)) else v_datatype v)"
    "v_constraint w = (if ef_type f = of_char CHR ''n'' then Some (utf8_lossy (ef_value f)) else v_constraint v)"
    "v_file w = (if ef_type f = of_char CHR ''F'' then Some (utf8_lossy (ef_value f)) else v_file v)"
    "v_routine w = (if ef_type f = of_char CHR ''R'' then Some (utf8_lossy (ef_value f)) else v_routine v)"
    "v_internal_query w = (if ef_type f = of_char CHR ''q'' then Some (utf8_lossy (ef_value f)) else v_internal_query v)"
  using assms by (auto simp: db_field_def Let_def split: if_splits)

lemmas db_fields_text =
  db_fields_last [where sel = v_severity, OF db_field_sets(1)]
  db_fields_last [where sel = v_code, OF db_field_sets(2)]
  db_fields_last [where sel = v_message, OF db_field_sets(3)]
  db_fields_last [where sel = v_detail, OF db_field_sets(4)]
  db_fields_last [where sel = v_hint, OF db_field_sets(5)]
  db_fields_last [where sel = v_where, OF db_field_sets(6)]
  db_fields_last [where sel = v_schema, OF db_field_sets(7)]
  db_fields_last [where sel = v_table, OF db_field_sets(8)]
  db_fields_last [where sel = v_column, OF db_field_sets(9)]
  db_fields_last [where sel = v_datatype, OF db_field_sets(10)]
  db_fields_last [where sel = v_constraint, OF db_field_sets(11)]
  db_fields_last [where sel = v_file, OF db_field_sets(12)]
  db_fields_last [where sel = v_routine, OF db_field_sets(13)]
  db_fields_last [where sel = v_internal_query, OF db_field_sets(14)]

lemma db_init_none:
  "v_severity db_init = None"
  "v_code db_init = None"
  "v_message db_init = None"
  "v_detail db_init = None"
  "v_hint db_init = None"
  "v_where db_init = None"
  "v_schema db_init = None"
  "v_table db_init = None"
  "v_column db_init = None"
  "v_datatype db_init = None"
  "v_constraint db_init = None"
  "v_file db_init = None"
  "v_routine db_init = None"
  "v_internal_query db_init = None"
  by (simp_all add: db_init_def)

lemma db_finish_Inr:
  assumes "db_finish v = Inr e"
  shows "v_severity v = Some (db_severity e)" "v_code v = Some (db_code e)" "v_message v = Some (db_message e)"
    "db_detail e = v_detail v" "db_hint e = v_hint v" "db_where e = v_where v" "db_schema e = v_schema v"
    "db_table e = v_table v" "db_column e = v_column v" "db_datatype e = v_datatype v"
    "db_constraint e = v_constraint v" "db_file e = v_file v" "db_routine e = v_routine v"
  using assms by (auto simp: db_finish_def ok_or_def split: option.splits)

text \<open>
  A parsed server error reports, for every textual field, the last field of that type in the message
  (invalid UTF-8 replaced), and nothing for a type that is absent; an error without severity, code or
  message is rejected.
\<close>

lemma db_error_fields:
  assumes "list_all error_field_ok fs" "db_parse (mk_errors fs) = Inr e"
  shows "field_text CHR ''S'' fs = Some (db_severity e) \<and> field_text CHR ''C'' fs = Some (db_code e) \<and>
    field_text CHR ''M'' fs = Some (db_message e) \<and> db_detail e = field_text CHR ''D'' fs \<and> db_hint e = field_text CHR ''H'' fs \<and>
    db_where e = field_text CHR ''W'' fs \<and> db_schema e = field_text CHR ''s'' fs \<and> db_table e = field_text CHR ''t'' fs \<and>
    db_column e = field_text CHR ''c'' fs \<and> db_datatype e = field_text CHR ''d'' fs \<and>
    db_constraint e = field_text CHR ''n'' fs \<and> db_file e = field_text CHR ''F'' fs \<and> db_routine e = field_text CHR ''R'' fs"
proof -
  from assms obtain v where v: "db_fields fs db_init = Inr v" "db_finish v = Inr e"
    by (auto simp: db_parse_def db_loop_fields)
  note vals = db_fields_text [OF _ v(1)]
  note fin = db_finish_Inr [OF v(2)]
  have id: "z = None \<Longrightarrow> (case x of None \<Rightarrow> z | Some y \<Rightarrow> Some y) = x" for x z :: "bytes option"
    by (cases x) simp_all
  show ?thesis
    using vals fin by (simp add: db_init_none id)
qed

theorem db_error_fields_witness:
  "\<exists>e. db_parse (mk_errors [\<lparr>ef_type = 83, ef_value = [70]\<rparr>, \<lparr>ef_type = 67, ef_value = [48]\<rparr>,
      \<lparr>ef_type = 77, ef_value = [109]\<rparr>, \<lparr>ef_type = 77, ef_value = [110]\<rparr>]) = Inr e \<and>
    db_message e = [110] \<and> db_hint e = None"
proof -
  let ?fs = "[\<lparr>ef_type = 83, ef_value = [70]\<rparr>, \<lparr>ef_type = 67, ef_value = [48]\<rparr>,
      \<lparr>ef_type = 77, ef_value = [109]\<rparr>, \<lparr>ef_type = 77, ef_value = [110]\<rparr>]"
  have ok: "list_all error_field_ok ?fs" by (simp add: error_field_ok_def)
  then obtain e where e: "db_parse (mk_errors ?fs) = Inr e"
    by (simp add: db_parse_def db_loop_fields db_field_def db_init_def db_finish_def Let_def del: bind_res_Inr)
  have "utf8_lossy [110] = [110]"
    by (simp add: utf8_lossy.simps utf8_encode_char_def)
  with db_error_fields [OF ok e] e show ?thesis by (simp add: field_text_def)
qed

text \<open>
  \<open>Severity\<close> is printed and parsed back without loss, and nothing but the eight printed names is
  accepted.
\<close>

lemma severity_roundtrip: "severity_from_str s = Some v \<longleftrightarrow> s = ascii (severity_text v)"
  by (cases v) (auto simp: severity_from_str_def severity_text_def ascii_inject)

end
