(* ===== verification/Client.thy ===== *)
theory Client
  imports Codec Db_Error
begin

text \<open>
  Channels as the client's futures poll them, and \<open>Responses\<close>, the client's end of the channel on which the
  connection delivers the messages that answer a request (\<open>client.rs\<close>). A channel is what its
  successive polls find: nothing yet, an item, or that all its senders are gone, which then stays so.
  A script that has run out is \<open>Pending\<close>.
\<close>

section \<open>Channels\<close>

datatype 'a poll = Pending | Ready 'a

type_synonym 'a channel = "'a option poll list"

fun chan_poll :: "'a channel \<Rightarrow> 'a option poll \<times> 'a channel" where
  "chan_poll [] = (Pending, [])"
| "chan_poll (Pending # s) = (Pending, s)"
| "chan_poll (Ready None # s) = (Ready None, Ready None # s)"
| "chan_poll (Ready (Some x) # s) = (Ready (Some x), s)"

text \<open>The answers of an operation that is polled until it is ready.\<close>

fun script_poll :: "'a poll list \<Rightarrow> 'a poll \<times> 'a poll list" where
  "script_poll [] = (Pending, [])"
| "script_poll (p # s) = (p, s)"

text \<open>The items a channel still delivers.\<close>

fun chan_items :: "'a channel \<Rightarrow> 'a list" where
  "chan_items [] = []"
| "chan_items (Pending # s) = chan_items s"
| "chan_items (Ready None # s) = []"
| "chan_items (Ready (Some x) # s) = x # chan_items s"

text \<open>
  The interface of a polled stream: \<open>nxt\<close> yields the items of \<open>items\<close> in their order, however often it is
  polled in vain in between. \<open>run n\<close> is what \<open>n\<close> polls yield.
\<close>

locale polled =
  fixes nxt :: "'s \<Rightarrow> 'a option poll \<times> 's" and items :: "'s \<Rightarrow> 'a list"
  assumes pending: "nxt s = (Pending, s') \<Longrightarrow> items s' = items s"
    and item: "nxt s = (Ready (Some x), s') \<Longrightarrow> items s = x # items s'"
    and stopped: "nxt s = (Ready None, s') \<Longrightarrow> items s = [] \<and> items s' = []"

primrec poll_run :: "nat \<Rightarrow> ('s \<Rightarrow> 'a option poll \<times> 's) \<Rightarrow> 's \<Rightarrow> 'a list \<times> 's" where
  "poll_run 0 nxt s = ([], s)"
| "poll_run (Suc n) nxt s =
     (case nxt s of
        (Ready (Some x), s) \<Rightarrow> (let (xs, s) = poll_run n nxt s in (x # xs, s))
      | (_, s) \<Rightarrow> poll_run n nxt s)"

context polled
begin

lemma run_items: "poll_run n nxt s = (xs, s') \<Longrightarrow> items s = xs @ items s'"
proof (induction n arbitrary: s xs)
  case 0
  then show ?case by simp
next
  case (Suc n)
  then show ?case
    by (auto simp: Let_def split: prod.splits poll.splits option.splits
        dest!: item dest: pending stopped)
qed

lemma run_closed: "nxt s = (Ready None, s') \<Longrightarrow> poll_run n nxt s = (xs, s'') \<Longrightarrow> xs = []"
  using run_items stopped by fastforce

end

interpretation chan: polled chan_poll chan_items
proof
  fix s s' :: "'a channel" and x
  show "chan_poll s = (Pending, s') \<Longrightarrow> chan_items s' = chan_items s"
    by (cases s rule: chan_poll.cases) auto
  show "chan_poll s = (Ready (Some x), s') \<Longrightarrow> chan_items s = x # chan_items s'"
    by (cases s rule: chan_poll.cases) auto
  show "chan_poll s = (Ready None, s') \<Longrightarrow> chan_items s = [] \<and> chan_items s' = []"
    by (cases s rule: chan_poll.cases) auto
qed

lemma chan_poll_shrinks: "chan_poll s = (Ready (Some x), s') \<Longrightarrow> length s' < length s"
  by (cases s rule: chan_poll.cases) auto

lemma chan_poll_pending_shrinks: "chan_poll s = (Pending, s') \<Longrightarrow> s \<noteq> [] \<Longrightarrow> length s' < length s"
  by (cases s rule: chan_poll.cases) auto

lemma chan_poll_length: "chan_poll s = (r, s') \<Longrightarrow> length s' \<le> length s"
  by (cases s rule: chan_poll.cases) auto

lemma chan_poll_closed: "chan_poll s = (Ready None, s') \<Longrightarrow> s' = s \<and> chan_poll s' = (Ready None, s')"
  by (cases s rule: chan_poll.cases) auto

section \<open>Responses\<close>

record responses =
  rs_receiver :: "backend_messages channel"
  rs_cur :: backend_messages

definition responses_new :: "backend_messages channel \<Rightarrow> responses" where
  "responses_new receiver = \<lparr>rs_receiver = receiver, rs_cur = messages_empty\<rparr>"

function responses_poll_next :: "responses \<Rightarrow> (error + message) poll \<times> responses" where
  "responses_poll_next s =
     (case messages_next (rs_cur s) of
        Inl e \<Rightarrow> (Ready (Inl (E_Parse e)), s)
      | Inr (Some m, cur) \<Rightarrow>
          (case m of
             ErrorResponse body \<Rightarrow> (Ready (Inl (error_db body)), s\<lparr>rs_cur := cur\<rparr>)
           | _ \<Rightarrow> (Ready (Inr m), s\<lparr>rs_cur := cur\<rparr>))
      | Inr (None, cur) \<Rightarrow>
          (case chan_poll (rs_receiver s) of
             (Pending, rx) \<Rightarrow> (Pending, s\<lparr>rs_cur := cur, rs_receiver := rx\<rparr>)
           | (Ready None, rx) \<Rightarrow> (Ready (Inl E_Closed), s\<lparr>rs_cur := cur, rs_receiver := rx\<rparr>)
           | (Ready (Some messages), rx) \<Rightarrow> responses_poll_next (s\<lparr>rs_cur := messages, rs_receiver := rx\<rparr>)))"
  by pat_completeness auto
termination
  by (relation "measure (\<lambda>s. length (rs_receiver s))") (auto dest: chan_poll_shrinks [OF sym])

declare responses_poll_next.simps [simp del]

text \<open>\<open>next().await\<close>: poll until ready. \<open>None\<close> when the channel stays silent for ever.\<close>

lemma responses_poll_pending:
  "responses_poll_next s = (Pending, s') \<Longrightarrow> rs_receiver s \<noteq> [] \<Longrightarrow> length (rs_receiver s') < length (rs_receiver s)"
proof (induction s rule: responses_poll_next.induct)
  case (1 s)
  show ?case
  proof (cases "\<exists>cur. messages_next (rs_cur s) = Inr (None, cur)")
    case True
    then obtain cur where cur: "messages_next (rs_cur s) = Inr (None, cur)" ..
    obtain r rx where c: "chan_poll (rs_receiver s) = (r, rx)" by (cases "chan_poll (rs_receiver s)")
    consider "r = Pending" | "r = Ready None" | x where "r = Ready (Some x)"
      by (cases r; cases "case r of Ready v \<Rightarrow> v | Pending \<Rightarrow> None") auto
    then show ?thesis
    proof cases
      case 1
      with "1.prems" c cur show ?thesis
        by (auto simp: responses_poll_next.simps [of s] dest: chan_poll_pending_shrinks)
    next
      case 2
      with "1.prems" c cur show ?thesis by (auto simp: responses_poll_next.simps [of s])
    next
      case 3
      then have p: "responses_poll_next (s\<lparr>rs_cur := x, rs_receiver := rx\<rparr>) = (Pending, s')"
        using "1.prems" c cur by (simp add: responses_poll_next.simps [of s])
      have "length rx < length (rs_receiver s)" using c 3 chan_poll_shrinks [of "rs_receiver s" x rx] by simp
      moreover have "length (rs_receiver s') < length rx \<or> length (rs_receiver s') \<le> length rx"
      proof (cases "rx = []")
        case True
        with p have "rs_receiver s' = []"
          by (subst (asm) responses_poll_next.simps)
            (auto split: sum.splits prod.splits option.splits message.splits)
        then show ?thesis by simp
      next
        case False
        with "1.IH" [OF cur refl refl c [symmetric]] 3 p show ?thesis by simp
      qed
      ultimately show ?thesis by linarith
    qed
  next
    case False
    with "1.prems" show ?thesis
      by (subst (asm) responses_poll_next.simps) (auto split: sum.splits prod.splits option.splits message.splits)
  qed
qed

function responses_next :: "responses \<Rightarrow> ((error + message) \<times> responses) option" where
  "responses_next s =
     (case responses_poll_next s of
        (Ready r, s') \<Rightarrow> Some (r, s')
      | (Pending, s') \<Rightarrow> if rs_receiver s = [] then None else responses_next s')"
  by pat_completeness auto
termination
  by (relation "measure (\<lambda>s. length (rs_receiver s))") (auto dest: responses_poll_pending [OF sym])

declare responses_next.simps [simp del]

subsection \<open>Batching is invisible\<close>

definition batch_holds :: "backend_messages \<Rightarrow> message list \<Rightarrow> bool" where
  "batch_holds b ms \<longleftrightarrow> (\<exists>mode. b = mk_messages mode ms \<and> list_all (sendable mode) ms)"

definition holds :: "responses \<Rightarrow> message list \<Rightarrow> bool" where
  "holds r ms \<longleftrightarrow> (\<exists>ms0 batches. batch_holds (rs_cur r) ms0 \<and>
     list_all2 batch_holds (chan_items (rs_receiver r)) batches \<and> ms = ms0 @ concat batches)"

lemma batch_next_Nil: "batch_holds b [] \<Longrightarrow> \<exists>b'. messages_next b = Inr (None, b')"
  by (auto simp: batch_holds_def intro: batch_source.nxt_Nil)

lemma batch_next_Cons:
  "batch_holds b (m # ms) \<Longrightarrow> \<exists>b'. messages_next b = Inr (Some m, b') \<and> batch_holds b' ms"
  unfolding batch_holds_def using batch_source.nxt_Cons by fastforce

lemma batch_none_keeps: "messages_next b = Inr (None, b') \<Longrightarrow> b' = b"
  using parse_none_keeps_buffer
  by (auto simp: messages_next_def Let_def split: prod.splits)

definition poll_result_ok :: "message list \<Rightarrow> (error + message) poll \<times> responses \<Rightarrow> bool" where
  "poll_result_ok ms res = (case res of
       (Pending, r') \<Rightarrow> holds r' ms
     | (Ready (Inr m), r') \<Rightarrow> (\<exists>ms'. ms = m # ms' \<and> holds r' ms')
     | (Ready (Inl e), r') \<Rightarrow>
         (\<exists>body ms'. ms = ErrorResponse body # ms' \<and> e = error_db body \<and> holds r' ms') \<or> ms = [] \<and> e = E_Closed)"

lemma poll_next_holds: "holds r ms \<Longrightarrow> poll_result_ok ms (responses_poll_next r)"
proof (induction r rule: responses_poll_next.induct)
  case (1 r)
  from "1.prems" obtain ms0 batches where h: "batch_holds (rs_cur r) ms0"
    "list_all2 batch_holds (chan_items (rs_receiver r)) batches" "ms = ms0 @ concat batches"
    by (auto simp: holds_def)
  show ?case
  proof (cases ms0)
    case (Cons m ms0')
    from batch_next_Cons h(1) Cons obtain b' where b: "messages_next (rs_cur r) = Inr (Some m, b')" "batch_holds b' ms0'"
      by blast
    then have "holds (r\<lparr>rs_cur := b'\<rparr>) (ms0' @ concat batches)" using h(2) by (auto simp: holds_def)
    with b h(3) Cons show ?thesis
      by (subst responses_poll_next.simps) (cases m; simp add: poll_result_ok_def)
  next
    case Nil
    with h(1) obtain cur where cur: "messages_next (rs_cur r) = Inr (None, cur)" by (blast dest: batch_next_Nil)
    then have ck: "cur = rs_cur r" by (rule batch_none_keeps)
    obtain p rx where c: "chan_poll (rs_receiver r) = (p, rx)" by (cases "chan_poll (rs_receiver r)")
    consider "p = Pending" | "p = Ready None" | x where "p = Ready (Some x)"
      by (cases p; cases "case p of Ready v \<Rightarrow> v | Pending \<Rightarrow> None") auto
    then show ?thesis
    proof cases
      case 1
      have "holds (r\<lparr>rs_cur := cur, rs_receiver := rx\<rparr>) ms"
        using h Nil c 1 ck chan.pending [of "rs_receiver r" rx] by (auto simp: holds_def)
      with 1 c cur show ?thesis by (simp add: responses_poll_next.simps [of r] poll_result_ok_def)
    next
      case 2
      then have "chan_items (rs_receiver r) = []" using c chan.stopped by blast
      with h Nil have "ms = []" by simp
      with 2 c cur show ?thesis by (simp add: responses_poll_next.simps [of r] poll_result_ok_def)
    next
      case 3
      with c chan.item [of "rs_receiver r" x rx] h(2) obtain b bs where
        b: "batches = b # bs" "batch_holds x b" "list_all2 batch_holds (chan_items rx) bs"
        by (auto simp: list_all2_Cons1)
      then have "holds (r\<lparr>rs_cur := x, rs_receiver := rx\<rparr>) ms" using h(3) Nil by (auto simp: holds_def)
      from "1.IH" [OF cur refl refl c [symmetric] 3 refl this] 3 c cur show ?thesis
        by (simp add: responses_poll_next.simps [of r])
    qed
  qed
qed

text \<open>
  The messages of a request come out of \<open>Responses\<close> one by one and in their order, however the codec
  grouped them into batches and however often the channel was polled in vain: no message is
  lost, repeated or reordered; an error response is the error it carries, and the end of the channel is
  the error of a closed connection, reported only after every message.
\<close>

lemma responses_in_order:
  assumes "holds r ms"
  shows "case responses_poll_next r of
      (Pending, r') \<Rightarrow> holds r' ms
    | (Ready (Inr m), r') \<Rightarrow> (\<exists>ms'. ms = m # ms' \<and> holds r' ms')
    | (Ready (Inl e), r') \<Rightarrow>
        (\<exists>body ms'. ms = ErrorResponse body # ms' \<and> e = error_db body \<and> holds r' ms') \<or> ms = [] \<and> e = E_Closed"
  using poll_next_holds [OF assms] by (simp add: poll_result_ok_def)

theorem responses_in_order_witness:
  "\<exists>r. holds r [BindComplete, NoData] \<and> length (chan_items (rs_receiver r)) = 2 \<and>
     (case responses_poll_next r of
        (Pending, r') \<Rightarrow> holds r' [BindComplete, NoData]
      | (Ready (Inr m), r') \<Rightarrow> (\<exists>ms'. [BindComplete, NoData] = m # ms' \<and> holds r' ms')
      | (Ready (Inl e), r') \<Rightarrow> False)"
proof -
  let ?r = "\<lparr>rs_receiver = [Pending, Ready (Some (mk_messages Standard [BindComplete])), Pending,
    Ready (Some (mk_messages Standard [NoData]))], rs_cur = messages_empty\<rparr>"
  have s: "batch_holds (mk_messages Standard [BindComplete]) [BindComplete]" "batch_holds (mk_messages Standard [NoData]) [NoData]"
      "batch_holds messages_empty []"
    by (auto simp: batch_holds_def sendable_def wf_message_def message_wire_def max_body_def mk_messages_def
        messages_empty_def messages_with_mode_def)
  have h: "holds ?r [BindComplete, NoData]"
    unfolding holds_def using s by (intro exI [of _ "[]"] exI [of _ "[[BindComplete], [NoData]]"]) simp
  have "case responses_poll_next ?r of
        (Pending, r') \<Rightarrow> holds r' [BindComplete, NoData]
      | (Ready (Inr m), r') \<Rightarrow> (\<exists>ms'. [BindComplete, NoData] = m # ms' \<and> holds r' ms')
      | (Ready (Inl e), r') \<Rightarrow> False"
    using responses_in_order [OF h] by (auto split: prod.splits poll.splits sum.splits)
  with h show ?thesis by (intro exI [of _ ?r]) simp
qed

section \<open>Rows affected\<close>

text \<open>
  \<open>extract_row_affected\<close> (\<open>query.rs\<close>): the number after the last space of a command tag, 0 when there is none
  that fits.
\<close>

definition u64_from_str :: "bytes \<Rightarrow> u64 option" where
  "u64_from_str s =
     (let ds = (case s of d # t \<Rightarrow> if d = 43 then t else s | [] \<Rightarrow> [])
      in if ds = [] \<or> \<not> list_all ascii_digit ds \<or> digits_value ds > 18446744073709551615 then None
         else Some (of_nat (digits_value ds)))"

definition extract_row_affected :: "bytes \<Rightarrow> error + u64" where
  "extract_row_affected body =
     bind_res (map_err E_Parse (command_complete_tag body)) (\<lambda>tag.
     Inr (case u64_from_str (rev (takeWhile (\<lambda>b. b \<noteq> 32) (rev tag))) of Some n \<Rightarrow> n | None \<Rightarrow> 0))"

end
