(* ===== verification/Copy_In.thy ===== *)
theory Copy_In
  imports Client
begin

text \<open>
  COPY FROM STDIN (\<open>copy_in.rs\<close>): the sink the application writes its data to, the channel between it and
  the connection, and the receiver from which the connection takes the messages to send. The
  channel's answers are scripts; what the channel has accepted is \<open>sd_sent\<close>.
\<close>

section \<open>The receiver\<close>

datatype copy_in_message = Copy_Message frontend_message | Copy_Done

record copy_in_receiver =
  ci_receiver :: "copy_in_message channel"
  ci_done :: bool

definition copy_in_receiver_new :: "copy_in_message channel \<Rightarrow> copy_in_receiver" where
  "copy_in_receiver_new receiver = \<lparr>ci_receiver = receiver, ci_done = False\<rparr>"

text \<open>The two ends of a copy; \<open>None\<close> is a panic of the \<open>unwrap\<close>s.\<close>

definition copy_done_frame :: "bytes option" where
  "copy_done_frame = Option.bind (copy_done []) sync"

definition copy_fail_frame :: "bytes option" where
  "copy_fail_frame = (case copy_fail [] [] of Inr buf \<Rightarrow> sync buf | Inl _ \<Rightarrow> None)"

definition end_message :: "bytes option \<Rightarrow> copy_in_receiver \<Rightarrow> frontend_message option poll option \<times> copy_in_receiver" where
  "end_message buf s =
     (case buf of
        None \<Rightarrow> (None, s\<lparr>ci_done := True\<rparr>)
      | Some b \<Rightarrow> (Some (Ready (Some (Raw b))), s\<lparr>ci_done := True\<rparr>))"

definition copy_in_poll :: "copy_in_receiver \<Rightarrow> frontend_message option poll option \<times> copy_in_receiver" where
  "copy_in_poll s =
     (if ci_done s then (Some (Ready None), s)
      else
        let (r, rx) = chan_poll (ci_receiver s); s = s\<lparr>ci_receiver := rx\<rparr>
        in (case r of
              Pending \<Rightarrow> (Some Pending, s)
            | Ready (Some (Copy_Message m)) \<Rightarrow> (Some (Ready (Some m)), s)
            | Ready (Some Copy_Done) \<Rightarrow> end_message copy_done_frame s
            | Ready None \<Rightarrow> end_message copy_fail_frame s))"

lemma end_frames:
  "copy_done_frame = Some ([tag_of CHR ''c''] @ frame [] @ [tag_of CHR ''S''] @ frame [])"
  "copy_fail_frame = Some ([tag_of CHR ''f''] @ frame [0] @ [tag_of CHR ''S''] @ frame [])"
proof -
  show "copy_done_frame = Some ([tag_of CHR ''c''] @ frame [] @ [tag_of CHR ''S''] @ frame [])"
    by (simp add: copy_done_frame_def infallible_messages)
  have "copy_fail [] [] = Inr ([tag_of CHR ''f''] @ frame [0])"
    using frames_copy_fail [of "[]"] by (simp add: frames_def cstr_bytes_def max_body_def)
  then show "copy_fail_frame = Some ([tag_of CHR ''f''] @ frame [0] @ [tag_of CHR ''S''] @ frame [])"
    by (simp add: copy_fail_frame_def infallible_messages)
qed

lemma copy_in_poll_total: "\<exists>p. fst (copy_in_poll s) = Some p"
  by (auto simp: copy_in_poll_def end_message_def end_frames Let_def
      split: prod.splits poll.splits option.splits copy_in_message.splits)

text \<open>
  What the connection gets from a receiver: the messages, until the copy is completed or its sink is
  dropped, and then exactly one end.
\<close>

fun copy_stream :: "copy_in_message channel \<Rightarrow> frontend_message list" where
  "copy_stream [] = []"
| "copy_stream (Pending # s) = copy_stream s"
| "copy_stream (Ready None # s) = [Raw ([tag_of CHR ''f''] @ frame [0] @ [tag_of CHR ''S''] @ frame [])]"
| "copy_stream (Ready (Some (Copy_Message m)) # s) = m # copy_stream s"
| "copy_stream (Ready (Some Copy_Done) # s) =
     [Raw ([tag_of CHR ''c''] @ frame [] @ [tag_of CHR ''S''] @ frame [])]"

definition copy_in_items :: "copy_in_receiver \<Rightarrow> frontend_message list" where
  "copy_in_items s = (if ci_done s then [] else copy_stream (ci_receiver s))"

definition copy_in_next :: "copy_in_receiver \<Rightarrow> frontend_message option poll \<times> copy_in_receiver" where
  "copy_in_next s = (let (p, s') = copy_in_poll s in (the p, s'))"

interpretation copy_source: polled copy_in_next copy_in_items
proof
  fix s s' x
  note d = copy_in_next_def copy_in_poll_def copy_in_items_def end_message_def end_frames Let_def
  show "copy_in_next s = (Pending, s') \<Longrightarrow> copy_in_items s' = copy_in_items s"
    by (cases "ci_receiver s" rule: copy_stream.cases) (auto simp: d split: if_splits)
  show "copy_in_next s = (Ready (Some x), s') \<Longrightarrow> copy_in_items s = x # copy_in_items s'"
    by (cases "ci_receiver s" rule: copy_stream.cases) (auto simp: d split: if_splits)
  show "copy_in_next s = (Ready None, s') \<Longrightarrow> copy_in_items s = [] \<and> copy_in_items s' = []"
    by (cases "ci_receiver s" rule: copy_stream.cases) (auto simp: d split: if_splits)
qed

text \<open>
  However the polls and the sends interleave, what the connection takes from a copy is a prefix
  of: the messages of the sink, and then, once, CopyDone with Sync if the copy was completed or
  CopyFail with Sync if the sink was dropped; nothing follows the end.
\<close>

lemma copy_in_ends_once:
  "\<exists>rest. copy_stream ch = fst (poll_run n copy_in_next (copy_in_receiver_new ch)) @ rest \<and>
     (ci_done (snd (poll_run n copy_in_next (copy_in_receiver_new ch))) \<longrightarrow> rest = [])"
proof -
  obtain xs s' where r: "poll_run n copy_in_next (copy_in_receiver_new ch) = (xs, s')"
    by (cases "poll_run n copy_in_next (copy_in_receiver_new ch)")
  from copy_source.run_items [OF r] show ?thesis
    unfolding r by (intro exI [of _ "copy_in_items s'"]) (auto simp: copy_in_items_def copy_in_receiver_new_def)
qed

section \<open>The sink\<close>

datatype sink_state = Sink_Active | Sink_Closing | Sink_Reading

text \<open>
  The sender of the channel: the answers of \<open>poll_ready\<close>, \<open>poll_flush\<close> and \<open>poll_close\<close> (\<open>False\<close> is an error),
  which of the successive \<open>start_send\<close> are accepted, and what was.
\<close>

record copy_sender =
  sd_ready :: "bool poll list"
  sd_flush :: "bool poll list"
  sd_close :: "bool poll list"
  sd_accepts :: "nat \<Rightarrow> bool"
  sd_sent :: "copy_in_message list"

record copy_in_sink =
  sk_sender :: copy_sender
  sk_responses :: responses
  sk_buf :: bytes
  sk_state :: sink_state

definition copy_in_sink_new :: "copy_sender \<Rightarrow> responses \<Rightarrow> copy_in_sink" where
  "copy_in_sink_new sender rs =
     \<lparr>sk_sender = sender, sk_responses = rs, sk_buf = [], sk_state = Sink_Active\<rparr>"

definition closed_if_not :: "bool poll \<Rightarrow> (error + unit) poll" where
  "closed_if_not p =
     (case p of Pending \<Rightarrow> Pending | Ready b \<Rightarrow> Ready (if b then Inr () else Inl E_Closed))"

definition sender_start_send :: "copy_in_message \<Rightarrow> copy_sender \<Rightarrow> (error + unit) \<times> copy_sender" where
  "sender_start_send m s =
     (if sd_accepts s (length (sd_sent s)) then (Inr (), s\<lparr>sd_sent := sd_sent s @ [m]\<rparr>)
      else (Inl E_Closed, s))"

definition sender_poll_ready :: "copy_sender \<Rightarrow> (error + unit) poll \<times> copy_sender" where
  "sender_poll_ready s = (let (p, r) = script_poll (sd_ready s) in (closed_if_not p, s\<lparr>sd_ready := r\<rparr>))"

definition sender_poll_flush :: "copy_sender \<Rightarrow> (error + unit) poll \<times> copy_sender" where
  "sender_poll_flush s = (let (p, r) = script_poll (sd_flush s) in (closed_if_not p, s\<lparr>sd_flush := r\<rparr>))"

definition sender_poll_close :: "copy_sender \<Rightarrow> (error + unit) poll \<times> copy_sender" where
  "sender_poll_close s = (let (p, r) = script_poll (sd_close s) in (closed_if_not p, s\<lparr>sd_close := r\<rparr>))"

text \<open>Sending a block: \<open>CopyData::new\<close> and \<open>start_send\<close>.\<close>

definition send_block :: "bytes \<Rightarrow> copy_in_sink \<Rightarrow> (error + unit) \<times> copy_in_sink" where
  "send_block data s =
     (case map_err E_Encode (copy_data_new data) of
        Inl e \<Rightarrow> (Inl e, s)
      | Inr d \<Rightarrow>
          (let (r, sd) = sender_start_send (Copy_Message (CopyDataMsg d)) (sk_sender s)
           in (r, s\<lparr>sk_sender := sd\<rparr>)))"

definition sink_poll_ready :: "copy_in_sink \<Rightarrow> (error + unit) poll \<times> copy_in_sink" where
  "sink_poll_ready s = (let (r, sd) = sender_poll_ready (sk_sender s) in (r, s\<lparr>sk_sender := sd\<rparr>))"

definition sink_start_send :: "bytes \<Rightarrow> copy_in_sink \<Rightarrow> (error + unit) \<times> copy_in_sink" where
  "sink_start_send item s =
     (if length item > 4096 then
        (if sk_buf s = [] then send_block item s
         else send_block (sk_buf s @ item) (s\<lparr>sk_buf := []\<rparr>))
      else
        let s = s\<lparr>sk_buf := sk_buf s @ item\<rparr>
        in (if length (sk_buf s) > 4096 then send_block (sk_buf s) (s\<lparr>sk_buf := []\<rparr>)
            else (Inr (), s)))"

definition sink_poll_flush :: "copy_in_sink \<Rightarrow> (error + unit) poll \<times> copy_in_sink" where
  "sink_poll_flush s =
     (let flush_sender = (\<lambda>s. let (r, sd) = sender_poll_flush (sk_sender s) in (r, s\<lparr>sk_sender := sd\<rparr>))
      in if sk_buf s \<noteq> [] then
           (case sink_poll_ready s of
              (Pending, s) \<Rightarrow> (Pending, s)
            | (Ready (Inl e), s) \<Rightarrow> (Ready (Inl e), s)
            | (Ready (Inr _), s) \<Rightarrow>
                (case send_block (sk_buf s) (s\<lparr>sk_buf := []\<rparr>) of
                   (Inl e, s) \<Rightarrow> (Ready (Inl e), s)
                 | (Inr _, s) \<Rightarrow> flush_sender s))
         else flush_sender s)"

text \<open>
  \<open>poll_finish\<close> goes through its states, from the one it is in, until one is not ready.
\<close>

definition finish_reading :: "copy_in_sink \<Rightarrow> (error + u64) poll \<times> copy_in_sink" where
  "finish_reading s =
     (let (r, rs) = responses_poll_next (sk_responses s); s = s\<lparr>sk_responses := rs\<rparr>
      in (case r of
            Pending \<Rightarrow> (Pending, s)
          | Ready (Inl e) \<Rightarrow> (Ready (Inl e), s)
          | Ready (Inr m) \<Rightarrow>
              (case m of
                 CommandComplete body \<Rightarrow> (Ready (extract_row_affected body), s)
               | _ \<Rightarrow> (Ready (Inl E_UnexpectedMessage), s))))"

definition finish_closing :: "copy_in_sink \<Rightarrow> (error + u64) poll \<times> copy_in_sink" where
  "finish_closing s =
     (let (r, sd) = sender_poll_close (sk_sender s); s = s\<lparr>sk_sender := sd\<rparr>
      in (case r of
            Pending \<Rightarrow> (Pending, s)
          | Ready (Inl e) \<Rightarrow> (Ready (Inl e), s)
          | Ready (Inr _) \<Rightarrow> finish_reading (s\<lparr>sk_state := Sink_Reading\<rparr>)))"

definition finish_active :: "copy_in_sink \<Rightarrow> (error + u64) poll \<times> copy_in_sink" where
  "finish_active s =
     (case sink_poll_flush s of
        (Pending, s) \<Rightarrow> (Pending, s)
      | (Ready (Inl e), s) \<Rightarrow> (Ready (Inl e), s)
      | (Ready (Inr _), s) \<Rightarrow>
          (case sink_poll_ready s of
             (Pending, s) \<Rightarrow> (Pending, s)
           | (Ready (Inl e), s) \<Rightarrow> (Ready (Inl e), s)
           | (Ready (Inr _), s) \<Rightarrow>
               (case sender_start_send Copy_Done (sk_sender s) of
                  (Inl e, sd) \<Rightarrow> (Ready (Inl e), s\<lparr>sk_sender := sd\<rparr>)
                | (Inr _, sd) \<Rightarrow> finish_closing (s\<lparr>sk_sender := sd, sk_state := Sink_Closing\<rparr>))))"

definition sink_poll_finish :: "copy_in_sink \<Rightarrow> (error + u64) poll \<times> copy_in_sink" where
  "sink_poll_finish s = (case sk_state s of
       Sink_Active \<Rightarrow> finish_active s
     | Sink_Closing \<Rightarrow> finish_closing s
     | Sink_Reading \<Rightarrow> finish_reading s)"

section \<open>Runs of the sink\<close>

text \<open>
  The application drives the sink: it feeds items, flushes and finishes, each operation as often
  as it must be polled. An error is reported to it and ends the run. \<open>copy_run q fed s\<close>: after the query message \<open>q\<close>
  and the items \<open>fed\<close>, the sink is in the state \<open>s\<close>.
\<close>

definition no_error :: "(error + 'a) poll \<Rightarrow> bool" where
  "no_error r = (case r of Ready (Inl _) \<Rightarrow> False | _ \<Rightarrow> True)"

inductive copy_run :: "frontend_message \<Rightarrow> bytes list \<Rightarrow> copy_in_sink \<Rightarrow> bool" for q where
  start: "sd_sent sd = [Copy_Message q] \<Longrightarrow> copy_run q [] (copy_in_sink_new sd rs)"
| feed: "copy_run q fed s \<Longrightarrow> sk_state s = Sink_Active \<Longrightarrow> sink_start_send item s = (Inr (), s') \<Longrightarrow>
    copy_run q (fed @ [item]) s'"
| flush: "copy_run q fed s \<Longrightarrow> sink_poll_flush s = (r, s') \<Longrightarrow> no_error r \<Longrightarrow> copy_run q fed s'"
| finish: "copy_run q fed s \<Longrightarrow> sink_poll_finish s = (r, s') \<Longrightarrow> no_error r \<Longrightarrow> copy_run q fed s'"

inductive_cases copy_run_cases: "copy_run q fed s"

text \<open>The invariant: what the channel has accepted and what is still buffered.\<close>

definition block_of :: "bytes \<Rightarrow> copy_data" where
  "block_of b = \<lparr>cd_buf = b, cd_len = of_nat (length b + 4)\<rparr>"

definition data_sent :: "frontend_message \<Rightarrow> bytes list \<Rightarrow> copy_in_message list" where
  "data_sent q blocks = Copy_Message q # map (\<lambda>b. Copy_Message (CopyDataMsg (block_of b))) blocks"

definition sink_inv :: "frontend_message \<Rightarrow> bytes \<Rightarrow> copy_in_sink \<Rightarrow> bool" where
  "sink_inv q fed s \<longleftrightarrow> (\<exists>blocks.
     sd_sent (sk_sender s) = data_sent q blocks @ (if sk_state s = Sink_Active then [] else [Copy_Done]) \<and>
     list_all (\<lambda>b. b \<noteq> [] \<and> length b \<le> max_body) blocks \<and> concat blocks @ sk_buf s = fed \<and>
     (sk_state s \<noteq> Sink_Active \<longrightarrow> sk_buf s = []))"

lemma data_sent_snoc: "data_sent q blocks @ [Copy_Message (CopyDataMsg (block_of b))] = data_sent q (blocks @ [b])"
  by (simp add: data_sent_def)

lemma copy_data_new_block: "copy_data_new b = Inr d \<longleftrightarrow> length b \<le> max_body \<and> d = block_of b"
  by (auto simp: copy_data_new_def block_of_def max_body_def Let_def)

lemma send_block_inv:
  assumes "sink_inv q fed (s\<lparr>sk_buf := b\<rparr>)" "sk_state s = Sink_Active" "b @ item \<noteq> []"
    and "send_block (b @ item) (s\<lparr>sk_buf := []\<rparr>) = (Inr (), s')"
  shows "sink_inv q (fed @ item) s' \<and> sk_state s' = Sink_Active \<and> sk_buf s' = []"
  using assms
  by (auto simp: sink_inv_def send_block_def sender_start_send_def copy_data_new_block Let_def data_sent_snoc
      simp del: append_assoc intro!: exI [of _ "blocks @ [b @ item]" for blocks] split: sum.splits if_splits)

lemma start_send_inv:
  assumes "sink_inv q fed s" "sk_state s = Sink_Active" "sink_start_send item s = (Inr (), s')"
  shows "sink_inv q (fed @ item) s' \<and> sk_state s' = Sink_Active"
proof -
  let ?b = "sk_buf s"
  have inv: "sink_inv q fed (s\<lparr>sk_buf := ?b\<rparr>)" using assms(1) by simp
  consider "length item > 4096" | "length item \<le> 4096" "length (?b @ item) > 4096"
    | "length item \<le> 4096" "length (?b @ item) \<le> 4096" by linarith
  then show ?thesis
  proof cases
    case 1
    have e: "send_block (?b @ item) (s\<lparr>sk_buf := []\<rparr>) = (Inr (), s')"
    proof (cases "?b = []")
      case True
      then have s: "s\<lparr>sk_buf := []\<rparr> = s" by (cases s) simp
      from True 1 assms(3) have "send_block item s = (Inr (), s')" by (simp add: sink_start_send_def)
      then show ?thesis unfolding s True append_Nil .
    next
      case False
      with 1 assms(3) show ?thesis by (simp add: sink_start_send_def)
    qed
    from 1 have "?b @ item \<noteq> []" by auto
    with send_block_inv [OF inv assms(2) _ e] show ?thesis by blast
  next
    case 2
    then have e: "send_block (?b @ item) (s\<lparr>sk_buf := []\<rparr>) = (Inr (), s')"
      using assms(3) by (simp add: sink_start_send_def Let_def)
    from 2 have "?b @ item \<noteq> []" by auto
    with send_block_inv [OF inv assms(2) _ e] show ?thesis by blast
  next
    case 3
    then have "s' = s\<lparr>sk_buf := ?b @ item\<rparr>" using assms(3) by (simp add: sink_start_send_def Let_def)
    with assms(1,2) show ?thesis by (auto simp: sink_inv_def)
  qed
qed

lemma sender_polls_keep:
  "sender_poll_ready sd = (r, sd') \<Longrightarrow> sd_sent sd' = sd_sent sd"
  "sender_poll_flush sd = (r, sd') \<Longrightarrow> sd_sent sd' = sd_sent sd"
  "sender_poll_close sd = (r, sd') \<Longrightarrow> sd_sent sd' = sd_sent sd"
  by (auto simp: sender_poll_ready_def sender_poll_flush_def sender_poll_close_def Let_def split: prod.splits)

lemma sink_inv_sender: "sd_sent sd' = sd_sent (sk_sender s) \<Longrightarrow> sink_inv q fed (s\<lparr>sk_sender := sd'\<rparr>) = sink_inv q fed s"
  by (simp add: sink_inv_def)

lemma sink_ready_inv:
  assumes "sink_poll_ready s = (r, s')"
  shows "sink_inv q fed s' = sink_inv q fed s \<and> sk_state s' = sk_state s \<and> sk_buf s' = sk_buf s"
  using assms sender_polls_keep(1)
  by (auto simp: sink_poll_ready_def Let_def sink_inv_sender split: prod.splits)

lemma sink_flush_inv:
  assumes "sink_inv q fed s" "sink_poll_flush s = (r, s')" "no_error r"
  shows "sink_inv q fed s' \<and> sk_state s' = sk_state s \<and> (r = Ready (Inr ()) \<longrightarrow> sk_buf s' = [])"
proof -
  let ?f = "\<lambda>s. let (r, sd) = sender_poll_flush (sk_sender s) in (r, s\<lparr>sk_sender := sd\<rparr>)"
  have fl: "sink_inv q fed t' = sink_inv q fed t \<and> sk_state t' = sk_state t \<and> sk_buf t' = sk_buf t"
    if "?f t = (p, t')" for t t' p
    using that sender_polls_keep(2) by (auto simp: Let_def sink_inv_sender split: prod.splits)
  show ?thesis
  proof (cases "sk_buf s = []")
    case True
    then have "?f s = (r, s')" using assms(2) by (simp add: sink_poll_flush_def)
    with fl True assms(1) show ?thesis by simp
  next
    case False
    obtain p s1 where r: "sink_poll_ready s = (p, s1)" by (cases "sink_poll_ready s")
    note k = sink_ready_inv [OF r, of q fed]
    consider "p = Pending" | e where "p = Ready (Inl e)" | "p = Ready (Inr ())"
      by (cases p; cases "case p of Ready v \<Rightarrow> v | Pending \<Rightarrow> Inr ()") auto
    then show ?thesis
    proof cases
      case 1
      with r False assms(2) have "s' = s1" "r = Pending" by (simp_all add: sink_poll_flush_def)
      with k assms(1) show ?thesis by simp
    next
      case 2
      with r False assms(2) have "r = Ready (Inl e)" by (simp add: sink_poll_flush_def)
      with assms(3) show ?thesis by (simp add: no_error_def)
    next
      case 3
      obtain x s2 where b: "send_block (sk_buf s1) (s1\<lparr>sk_buf := []\<rparr>) = (x, s2)"
        by (cases "send_block (sk_buf s1) (s1\<lparr>sk_buf := []\<rparr>)")
      with r False 3 assms(2,3) have x: "x = Inr ()" "?f s2 = (r, s')"
        by (auto simp: sink_poll_flush_def no_error_def split: sum.splits)
      have act: "sk_state s1 = Sink_Active" using k False assms(1) by (auto simp: sink_inv_def)
      have "s1\<lparr>sk_buf := sk_buf s1\<rparr> = s1" by simp
      with k assms(1) have "sink_inv q fed (s1\<lparr>sk_buf := sk_buf s1\<rparr>)" by metis
      from send_block_inv [OF this act, of "[]" s2] b x(1) k False
      have "sink_inv q fed s2 \<and> sk_state s2 = Sink_Active \<and> sk_buf s2 = []" by simp
      with fl [OF x(2)] k act show ?thesis by simp
    qed
  qed
qed

lemma finish_reading_keeps: "snd (finish_reading s) = s\<lparr>sk_responses := snd (responses_poll_next (sk_responses s))\<rparr>"
  by (simp add: finish_reading_def Let_def case_prod_beta split: poll.split sum.split message.split)

lemma finish_reading_inv: "sink_inv q fed s \<Longrightarrow> finish_reading s = (r, s') \<Longrightarrow> sink_inv q fed s' \<and> sk_state s' = sk_state s"
  using finish_reading_keeps [of s] by (simp add: sink_inv_def)

lemma finish_closing_inv:
  assumes "sink_inv q fed s" "sk_state s \<noteq> Sink_Active" "finish_closing s = (r, s')"
  shows "sink_inv q fed s'"
proof -
  obtain p sd where c: "sender_poll_close (sk_sender s) = (p, sd)" by (cases "sender_poll_close (sk_sender s)")
  have i: "sink_inv q fed (s\<lparr>sk_sender := sd\<rparr>)"
    using sender_polls_keep(3) [OF c] assms(1) by (simp add: sink_inv_sender)
  then have "sink_inv q fed (s\<lparr>sk_sender := sd, sk_state := Sink_Reading\<rparr>)"
    using assms(2) by (simp add: sink_inv_def)
  then have fr: "sink_inv q fed t" if "finish_reading (s\<lparr>sk_sender := sd, sk_state := Sink_Reading\<rparr>) = (x, t)" for x t
    using that finish_reading_inv by blast
  consider "p = Pending" | e where "p = Ready (Inl e)" | "p = Ready (Inr ())"
    by (cases p; cases "case p of Ready v \<Rightarrow> v | Pending \<Rightarrow> Inr ()") auto
  then show ?thesis
    using c i assms(3) fr by cases (auto simp: finish_closing_def)
qed

lemma finish_active_inv:
  assumes "sink_inv q fed s" "sk_state s = Sink_Active" "finish_active s = (r, s')" "no_error r"
  shows "sink_inv q fed s'"
proof -
  obtain p s1 where f: "sink_poll_flush s = (p, s1)" by (cases "sink_poll_flush s")
  consider "p = Pending" | e where "p = Ready (Inl e)" | "p = Ready (Inr ())"
    by (cases p; cases "case p of Ready v \<Rightarrow> v | Pending \<Rightarrow> Inr ()") auto
  then show ?thesis
  proof cases
    case 1
    with f assms(3) have "s' = s1" by (simp add: finish_active_def)
    with sink_flush_inv [OF assms(1) f] 1 show ?thesis by (simp add: no_error_def)
  next
    case 2
    with f assms(3) have "r = Ready (Inl e)" by (simp add: finish_active_def)
    with assms(4) show ?thesis by (simp add: no_error_def)
  next
    case 3
    with sink_flush_inv [OF assms(1) f] assms(2)
    have s1: "sink_inv q fed s1" "sk_state s1 = Sink_Active" "sk_buf s1 = []" by (simp_all add: no_error_def)
    obtain p2 s2 where r2: "sink_poll_ready s1 = (p2, s2)" by (cases "sink_poll_ready s1")
    have s2: "sink_inv q fed s2" "sk_state s2 = Sink_Active" "sk_buf s2 = []"
      using sink_ready_inv [OF r2, of q fed] s1 by simp_all
    consider "p2 = Pending" | e where "p2 = Ready (Inl e)" | "p2 = Ready (Inr ())"
      by (cases p2; cases "case p2 of Ready v \<Rightarrow> v | Pending \<Rightarrow> Inr ()") auto
    then show ?thesis
    proof cases
      case 1
      with f 3 r2 assms(3) s2 show ?thesis by (auto simp: finish_active_def)
    next
      case 2
      with f 3 r2 assms(3) have "r = Ready (Inl e)" by (simp add: finish_active_def)
      with assms(4) show ?thesis by (simp add: no_error_def)
    next
      case last: 3
      obtain x sd where x: "sender_start_send Copy_Done (sk_sender s2) = (x, sd)"
        by (cases "sender_start_send Copy_Done (sk_sender s2)")
      show ?thesis
      proof (cases x)
        case (Inl e)
        with f 3 r2 last x assms(3) have "r = Ready (Inl e)" by (simp add: finish_active_def)
        with assms(4) show ?thesis by (simp add: no_error_def)
      next
        case (Inr u)
        let ?t = "s2\<lparr>sk_sender := sd, sk_state := Sink_Closing\<rparr>"
        have "sd_sent sd = sd_sent (sk_sender s2) @ [Copy_Done]"
          using x Inr by (auto simp: sender_start_send_def split: if_splits)
        with s2 have "sink_inv q fed ?t" by (auto simp: sink_inv_def)
        moreover have "finish_closing ?t = (r, s')"
          using f 3 r2 last x Inr assms(3) by (simp add: finish_active_def)
        ultimately show ?thesis using finish_closing_inv [of q fed ?t r s'] by simp
      qed
    qed
  qed
qed

lemma finish_inv:
  assumes "sink_inv q fed s" "sink_poll_finish s = (r, s')" "no_error r"
  shows "sink_inv q fed s'"
proof (cases "sk_state s")
  case Sink_Active
  then have "finish_active s = (r, s')" using assms(2) by (simp add: sink_poll_finish_def)
  from finish_active_inv [OF assms(1) Sink_Active this assms(3)] show ?thesis .
next
  case Sink_Closing
  then have "finish_closing s = (r, s')" using assms(2) by (simp add: sink_poll_finish_def)
  then show ?thesis by (intro finish_closing_inv [OF assms(1)]) (simp_all add: Sink_Closing)
next
  case Sink_Reading
  then have "finish_reading s = (r, s')" using assms(2) by (simp add: sink_poll_finish_def)
  with finish_reading_inv [OF assms(1)] show ?thesis by blast
qed

lemma copy_run_inv: "copy_run q fed s \<Longrightarrow> sink_inv q (concat fed) s"
proof (induction rule: copy_run.induct)
  case (start sd rs)
  then show ?case by (auto simp: sink_inv_def copy_in_sink_new_def data_sent_def intro!: exI [of _ "[]"])
next
  case (feed fed s item s')
  then show ?case using start_send_inv by fastforce
next
  case (flush fed s r s')
  then show ?case using sink_flush_inv by blast
next
  case (finish fed s r s')
  then show ?case using finish_inv by blast
qed

text \<open>What the connection writes for the messages of a sink.\<close>

lemma encode_simps: "encode (Raw b) dst = dst @ b"
  "encode (CopyDataMsg (block_of b)) dst = dst @ [tag_of CHR ''d''] @ frame b"
  by (simp_all add: encode_def block_of_def copy_data_write_def frame_def)

text \<open>A channel whose senders are gone once everything has been received.\<close>

fun chan_closes :: "'a channel \<Rightarrow> bool" where
  "chan_closes [] = False"
| "chan_closes (Pending # s) = chan_closes s"
| "chan_closes (Ready None # s) = True"
| "chan_closes (Ready (Some x) # s) = chan_closes s"

definition done_frames :: bytes where
  "done_frames = [tag_of CHR ''c''] @ frame [] @ [tag_of CHR ''S''] @ frame []"

definition fail_frames :: bytes where
  "fail_frames = [tag_of CHR ''f''] @ frame [0] @ [tag_of CHR ''S''] @ frame []"

lemma copy_stream_items:
  "chan_items ch = map Copy_Message ms @ tail \<Longrightarrow> chan_closes ch \<Longrightarrow> tail = [] \<or> tail = [Copy_Done] \<Longrightarrow>
     copy_stream ch = ms @ [Raw (if tail = [] then fail_frames else done_frames)]"
proof (induction ch arbitrary: ms rule: copy_stream.induct)
  case (4 m s)
  show ?case
  proof (cases ms)
    case Nil
    with "4.prems" show ?thesis by auto
  next
    case (Cons a as)
    with 4 show ?thesis by auto
  qed
next
  case (5 s)
  then show ?case by (cases ms) (auto simp: done_frames_def)
qed (auto simp: fail_frames_def)

definition copy_wire :: "copy_in_message channel \<Rightarrow> bytes" where
  "copy_wire ch = concat (map (\<lambda>m. encode m []) (copy_stream ch))"

lemma data_sent_messages:
  "data_sent q blocks = map Copy_Message (q # map (\<lambda>b. CopyDataMsg (block_of b)) blocks)"
  by (simp add: data_sent_def)

lemma copy_wire_blocks:
  assumes "chan_items ch = data_sent q blocks @ tail" "chan_closes ch" "tail = [] \<or> tail = [Copy_Done]"
  shows "copy_wire ch = encode q [] @ concat (map (\<lambda>b. [tag_of CHR ''d''] @ frame b) blocks) @
    (if tail = [] then fail_frames else done_frames)"
proof -
  have "map (\<lambda>m. encode m []) (map (\<lambda>b. CopyDataMsg (block_of b)) blocks) = map (\<lambda>b. [tag_of CHR ''d''] @ frame b) blocks"
    by (simp add: encode_simps)
  then show ?thesis
    using copy_stream_items [OF assms(1) [unfolded data_sent_messages] assms(2,3)]
    by (simp add: copy_wire_def encode_simps comp_def)
qed

text \<open>
  C19: COPY end to end. Whatever the sizes of the items, the flushes and the polls, what the connection writes for
  a sink is the query, data messages of valid size whose payloads concatenate to a prefix of the items fed, and
  one end. If \<open>poll_finish\<close> has got past its first state the prefix is everything and the end is CopyDone;
  if the sink is dropped before, the end is CopyFail, so that a part of the data is never taken for the whole.
\<close>

theorem copy_in_delivers:
  assumes "copy_run q fed s" "chan_items ch = sd_sent (sk_sender s)" "chan_closes ch"
  shows "\<exists>blocks. concat blocks @ sk_buf s = concat fed \<and>
    list_all (\<lambda>b. b \<noteq> [] \<and> length b \<le> max_body) blocks \<and>
    copy_wire ch = encode q [] @ concat (map (\<lambda>b. [tag_of CHR ''d''] @ frame b) blocks) @
      (if sk_state s = Sink_Active then fail_frames else done_frames) \<and>
    (sk_state s = Sink_Active \<or> sk_buf s = [])"
proof -
  from copy_run_inv [OF assms(1)] obtain blocks where
    b: "sd_sent (sk_sender s) = data_sent q blocks @ (if sk_state s = Sink_Active then [] else [Copy_Done])"
    "list_all (\<lambda>b. b \<noteq> [] \<and> length b \<le> max_body) blocks" "concat blocks @ sk_buf s = concat fed"
    "sk_state s = Sink_Active \<or> sk_buf s = []"
    by (auto simp: sink_inv_def)
  from copy_wire_blocks [OF assms(2) [unfolded b(1)] assms(3)] b(2-) show ?thesis
    by (intro exI [of _ blocks]) (auto split: if_splits)
qed

definition sample_sender :: copy_sender where
  "sample_sender = \<lparr>sd_ready = [Ready True, Ready True], sd_flush = [Pending, Ready True], sd_close = [Ready True],
     sd_accepts = \<lambda>_. True, sd_sent = [Copy_Message (Raw [1])]\<rparr>"

text \<open>A run of three polls: the item is buffered, flushed while the flush is pending, and the copy completed.\<close>

lemma sample_run:
  "\<exists>s. copy_run (Raw [1]) [[7, 8]] s \<and> sk_state s = Sink_Reading \<and>
     sd_sent (sk_sender s) = [Copy_Message (Raw [1]), Copy_Message (CopyDataMsg (block_of [7, 8])), Copy_Done]"
proof -
  let ?rs = "responses_new []"
  let ?s1 = "(copy_in_sink_new sample_sender ?rs)\<lparr>sk_buf := [7, 8]\<rparr>"
  let ?d = "[Copy_Message (Raw [1]), Copy_Message (CopyDataMsg (block_of [7, 8]))]"
  let ?s2 = "?s1\<lparr>sk_buf := [], sk_sender := sample_sender\<lparr>sd_ready := [Ready True], sd_flush := [Ready True], sd_sent := ?d\<rparr>\<rparr>"
  have "copy_run (Raw [1]) [] (copy_in_sink_new sample_sender ?rs)"
    by (rule copy_run.start) (simp add: sample_sender_def)
  then have "copy_run (Raw [1]) ([] @ [[7, 8]]) ?s1"
    by (rule copy_run.feed) (simp_all add: copy_in_sink_new_def sink_start_send_def Let_def)
  then have r1: "copy_run (Raw [1]) [[7, 8]] ?s1" by simp
  have "sink_poll_finish ?s1 = (Pending, ?s2)"
    by (simp add: sink_poll_finish_def finish_active_def sink_poll_flush_def sink_poll_ready_def sender_poll_ready_def
        sender_poll_flush_def closed_if_not_def send_block_def copy_data_new_block [THEN iffD2] max_body_def
        sender_start_send_def copy_in_sink_new_def sample_sender_def Let_def)
  from copy_run.finish [OF r1 this] have r2: "copy_run (Raw [1]) [[7, 8]] ?s2" by (simp add: no_error_def)
  obtain r s3 where f: "sink_poll_finish ?s2 = (r, s3)" by (cases "sink_poll_finish ?s2")
  have rp: "responses_poll_next ?rs = (Pending, ?rs)"
    by (subst responses_poll_next.simps)
      (simp add: responses_new_def messages_next_def messages_empty_def parse_with_mode_short)
  from f have "r = Pending" "sk_state s3 = Sink_Reading" "sd_sent (sk_sender s3) = ?d @ [Copy_Done]"
    using rp by (auto simp: sink_poll_finish_def finish_active_def sink_poll_flush_def sink_poll_ready_def
        sender_poll_ready_def sender_poll_flush_def closed_if_not_def sender_start_send_def finish_closing_def
        sender_poll_close_def finish_reading_def copy_in_sink_new_def sample_sender_def Let_def)
  with copy_run.finish [OF r2 f] show ?thesis by (auto simp: no_error_def)
qed

theorem copy_in_delivers_witness:
  "\<exists>blocks. concat blocks = [7, 8] \<and>
     copy_wire (map (\<lambda>m. Ready (Some m))
       [Copy_Message (Raw [1]), Copy_Message (CopyDataMsg (block_of [7, 8])), Copy_Done] @ [Ready None]) =
     [1] @ concat (map (\<lambda>b. [tag_of CHR ''d''] @ frame b) blocks) @ done_frames"
proof -
  from sample_run obtain s where s: "copy_run (Raw [1]) [[7, 8]] s" "sk_state s = Sink_Reading"
    "sd_sent (sk_sender s) = [Copy_Message (Raw [1]), Copy_Message (CopyDataMsg (block_of [7, 8])), Copy_Done]" by blast
  from copy_in_delivers [OF s(1), of "map (\<lambda>m. Ready (Some m))
       [Copy_Message (Raw [1]), Copy_Message (CopyDataMsg (block_of [7, 8])), Copy_Done] @ [Ready None]"]
  show ?thesis using s(2,3) by (auto simp: encode_simps)
qed

end
