(* ===== verification/Connection.thy ===== *)
theory Connection
  imports Copy_In
begin

text \<open>
  The connection task (\<open>connection.rs\<close>): the future that owns the socket, writes the requests of the client and
  hands the server's answers to whoever asked. One call of \<open>poll_message\<close> is a function on the state. The
  environment is in the state: what the framed socket delivers, whether it can be written to, the
  requests that arrive, and whether the channel to a requester has room. \<open>fr_sent\<close> records what was written,
  \<open>cn_log\<close> what was handed to whom.
\<close>

section \<open>State\<close>

datatype request_messages = Single frontend_message | Copy_Request copy_in_receiver

record request =
  rq_messages :: request_messages
  rq_sender :: nat

datatype conn_state = Conn_Active | Conn_Terminating | Conn_Closing

text \<open>
  The framed socket: the items \<open>poll_next\<close> yields until the end of the stream; the answer of the \<open>n\<close>-th \<open>poll_ready\<close>;
  the result of the \<open>n\<close>-th \<open>start_send\<close>; the answers of \<open>poll_flush\<close> and \<open>poll_close\<close>.
\<close>

record framed =
  fr_incoming :: "(io_error + backend_message) channel"
  fr_ready :: "nat \<Rightarrow> (io_error + unit) poll"
  fr_polls :: nat
  fr_accepts :: "nat \<Rightarrow> io_error option"
  fr_sent :: "frontend_message list"
  fr_flush :: "(io_error + unit) poll list"
  fr_close :: "(io_error + unit) poll list"

record request_receiver =
  rx_requests :: "request channel"
  rx_terminated :: bool
  rx_closed :: bool

text \<open>A batch taken from the server for a requester, who receives it unless he has hung up.\<close>

record delivery =
  dl_to :: nat
  dl_messages :: backend_messages
  dl_complete :: bool
  dl_received :: bool

record connection =
  cn_stream :: framed
  cn_parameters :: "bytes \<rightharpoonup> bytes"
  cn_receiver :: request_receiver
  cn_pending_request :: "request_messages option"
  cn_pending_responses :: "backend_message list"
  cn_responses :: "nat list"
  cn_state :: conn_state
  cn_sender_ready :: "nat \<Rightarrow> bool poll"
  cn_sender_polls :: nat
  cn_log :: "delivery list"

definition connection_new ::
  "framed \<Rightarrow> backend_message list \<Rightarrow> (bytes \<rightharpoonup> bytes) \<Rightarrow> request channel \<Rightarrow> (nat \<Rightarrow> bool poll) \<Rightarrow> connection" where
  "connection_new stream pending_responses parameters requests sender_ready =
     \<lparr>cn_stream = stream, cn_parameters = parameters,
      cn_receiver = \<lparr>rx_requests = requests, rx_terminated = False, rx_closed = False\<rparr>,
      cn_pending_request = None, cn_pending_responses = pending_responses, cn_responses = [],
      cn_state = Conn_Active, cn_sender_ready = sender_ready, cn_sender_polls = 0, cn_log = []\<rparr>"

section \<open>Reading\<close>

datatype async_message = Notice db_error | Notification i32 bytes bytes

text \<open>One round of a loop ends the call with a result or goes on.\<close>

datatype 'a round = Finished "error fault + 'a" | Again

definition poll_response :: "connection \<Rightarrow> (io_error + backend_message) option poll \<times> connection" where
  "poll_response c =
     (case cn_pending_responses c of
        message # rest \<Rightarrow> (Ready (Some (Inr message)), c\<lparr>cn_pending_responses := rest\<rparr>)
      | [] \<Rightarrow>
          (let (r, incoming) = chan_poll (fr_incoming (cn_stream c))
           in (r, c\<lparr>cn_stream := (cn_stream c)\<lparr>fr_incoming := incoming\<rparr>\<rparr>)))"

definition sender_ready :: "connection \<Rightarrow> bool poll \<times> connection" where
  "sender_ready c =
     (cn_sender_ready c (cn_sender_polls c), c\<lparr>cn_sender_polls := Suc (cn_sender_polls c)\<rparr>)"

text \<open>An asynchronous message; \<open>None\<close> is one that is not to be reported.\<close>

definition read_notice :: "bytes \<Rightarrow> error fault + async_message option" where
  "read_notice body = map_err (Fault \<circ> E_Parse) (bind_res (db_parse body) (\<lambda>e. Inr (Some (Notice e))))"

definition read_notification :: "notification_response_body \<Rightarrow> error fault + async_message option" where
  "read_notification body = map_err (Fault \<circ> E_Parse)
     (bind_res (notification_channel body) (\<lambda>channel.
      bind_res (notification_message body) (\<lambda>payload.
      Inr (Some (Notification (nr_process_id body) channel payload)))))"

definition read_parameter :: "parameter_status_body \<Rightarrow> connection \<Rightarrow> async_message option round \<times> connection" where
  "read_parameter body c =
     (case bind_res (parameter_status_name body) (\<lambda>n. bind_res (parameter_status_value body) (\<lambda>v. Inr (n, v))) of
        Inl e \<Rightarrow> (Finished (Inl (Fault (E_Parse e))), c)
      | Inr (n, v) \<Rightarrow> (Again, c\<lparr>cn_parameters := (cn_parameters c)(n \<mapsto> v)\<rparr>))"

definition read_async :: "message \<Rightarrow> connection \<Rightarrow> async_message option round \<times> connection" where
  "read_async m c = (case m of
       NoticeResponse body \<Rightarrow> (Finished (read_notice body), c)
     | NotificationResponse body \<Rightarrow> (Finished (read_notification body), c)
     | ParameterStatus body \<Rightarrow> read_parameter body c
     | _ \<Rightarrow> (Finished (Inl Panic), c))"

text \<open>Messages nobody asked for.\<close>

definition unsolicited :: "backend_messages \<Rightarrow> error" where
  "unsolicited messages =
     (case messages_next messages of
        Inl e \<Rightarrow> E_Parse e
      | Inr (Some (ErrorResponse body), _) \<Rightarrow> error_db body
      | Inr _ \<Rightarrow> E_UnexpectedMessage)"

definition read_normal :: "backend_messages \<Rightarrow> bool \<Rightarrow> connection \<Rightarrow> async_message option round \<times> connection" where
  "read_normal messages request_complete c =
     (case cn_responses c of
        [] \<Rightarrow> (Finished (Inl (Fault (unsolicited messages))), c)
      | response # rest \<Rightarrow>
          (let (r, c) = sender_ready c in
           case r of
             Ready ok \<Rightarrow>
               (Again, c\<lparr>cn_log := cn_log c @ [\<lparr>dl_to = response, dl_messages = messages,
                    dl_complete = request_complete, dl_received = ok\<rparr>],
                  cn_responses := (if request_complete then rest else response # rest)\<rparr>)
           | Pending \<Rightarrow>
               (Finished (Inr None),
                c\<lparr>cn_responses := response # rest,
                   cn_pending_responses := cn_pending_responses c @ [Normal messages request_complete]\<rparr>)))"

definition read_item :: "backend_message \<Rightarrow> connection \<Rightarrow> async_message option round \<times> connection" where
  "read_item message c = (case message of
       Async m \<Rightarrow> read_async m c
     | Normal messages request_complete \<Rightarrow> read_normal messages request_complete c)"

definition read_round :: "connection \<Rightarrow> async_message option round \<times> connection" where
  "read_round c =
     (case poll_response c of
        (Ready (Some (Inr message)), c) \<Rightarrow> read_item message c
      | (Ready (Some (Inl e)), c) \<Rightarrow> (Finished (Inl (Fault (E_Io e))), c)
      | (Ready None, c) \<Rightarrow> (Finished (Inl (Fault E_Closed)), c)
      | (Pending, c) \<Rightarrow> (Finished (Inr None), c))"

definition read_size :: "connection \<Rightarrow> nat" where
  "read_size c = length (cn_pending_responses c) + length (fr_incoming (cn_stream c))"

lemma sender_ready_eq: "sender_ready c = (r, c') \<Longrightarrow> r = cn_sender_ready c (cn_sender_polls c) \<and>
    c' = c\<lparr>cn_sender_polls := Suc (cn_sender_polls c)\<rparr>"
  by (auto simp: sender_ready_def)

lemma poll_response_shrinks: "poll_response c = (Ready (Some m), c') \<Longrightarrow> read_size c' < read_size c"
  by (auto simp: poll_response_def read_size_def Let_def dest: chan_poll_shrinks split: list.splits prod.splits)

lemma read_async_size: "read_async m c = (r, c') \<Longrightarrow> read_size c' = read_size c"
  by (cases m) (auto simp: read_async_def read_parameter_def read_size_def split: sum.splits)

lemma read_normal_again: "read_normal b rc c = (Again, c') \<Longrightarrow> read_size c' = read_size c"
  by (auto simp: read_normal_def read_size_def Let_def dest: sender_ready_eq split: list.splits prod.splits poll.splits)

lemma read_item_again: "read_item m c = (Again, c') \<Longrightarrow> read_size c' = read_size c"
  by (cases m) (auto simp: read_item_def dest: read_async_size read_normal_again)

lemma read_round_again: "read_round c = (Again, c') \<Longrightarrow> read_size c' < read_size c"
  by (auto simp: read_round_def dest!: poll_response_shrinks read_item_again
      split: prod.splits poll.splits option.splits sum.splits)

function read_loop :: "connection \<Rightarrow> (error fault + async_message option) \<times> connection" where
  "read_loop c =
     (case read_round c of
        (Finished r, c) \<Rightarrow> (r, c)
      | (Again, c) \<Rightarrow> read_loop c)"
  by pat_completeness auto
termination
  by (relation "measure read_size") (auto dest: read_round_again [OF sym])

declare read_loop.simps [simp del]

definition poll_read :: "connection \<Rightarrow> (error fault + async_message option) \<times> connection" where
  "poll_read c = (if cn_state c \<noteq> Conn_Active then (Inr None, c) else read_loop c)"

section \<open>Writing\<close>

definition poll_request :: "connection \<Rightarrow> request_messages option poll \<times> connection" where
  "poll_request c =
     (case cn_pending_request c of
        Some messages \<Rightarrow> (Ready (Some messages), c\<lparr>cn_pending_request := None\<rparr>)
      | None \<Rightarrow>
          if rx_terminated (cn_receiver c) then (Ready None, c)
          else
            (let (r, requests) = chan_poll (rx_requests (cn_receiver c));
                 c = c\<lparr>cn_receiver := (cn_receiver c)\<lparr>rx_requests := requests\<rparr>\<rparr>
             in (case r of
                   Ready (Some request) \<Rightarrow>
                     (Ready (Some (rq_messages request)), c\<lparr>cn_responses := cn_responses c @ [rq_sender request]\<rparr>)
                 | Ready None \<Rightarrow> (Ready None, c\<lparr>cn_receiver := (cn_receiver c)\<lparr>rx_terminated := True\<rparr>\<rparr>)
                 | Pending \<Rightarrow> (Pending, c))))"

definition stream_ready :: "connection \<Rightarrow> (io_error + unit) poll \<times> connection" where
  "stream_ready c =
     (let s = cn_stream c in (fr_ready s (fr_polls s), c\<lparr>cn_stream := s\<lparr>fr_polls := Suc (fr_polls s)\<rparr>\<rparr>))"

definition start_send :: "frontend_message \<Rightarrow> connection \<Rightarrow> io_error option \<times> connection" where
  "start_send m c =
     (let s = cn_stream c in
      case fr_accepts s (length (fr_sent s)) of
        Some e \<Rightarrow> (Some e, c)
      | None \<Rightarrow> (None, c\<lparr>cn_stream := s\<lparr>fr_sent := fr_sent s @ [m]\<rparr>\<rparr>))"

definition write_single :: "frontend_message \<Rightarrow> connection \<Rightarrow> bool round \<times> connection" where
  "write_single m c =
     (case start_send m c of
        (Some e, c) \<Rightarrow> (Finished (Inl (Fault (E_Io e))), c)
      | (None, c) \<Rightarrow> (Again, if cn_state c = Conn_Terminating then c\<lparr>cn_state := Conn_Closing\<rparr> else c))"

definition write_copy :: "copy_in_receiver \<Rightarrow> connection \<Rightarrow> bool round \<times> connection" where
  "write_copy receiver c =
     (case copy_in_poll receiver of
        (None, _) \<Rightarrow> (Finished (Inl Panic), c)
      | (Some Pending, receiver) \<Rightarrow> (Finished (Inr True), c\<lparr>cn_pending_request := Some (Copy_Request receiver)\<rparr>)
      | (Some (Ready None), _) \<Rightarrow> (Again, c)
      | (Some (Ready (Some m)), receiver) \<Rightarrow>
          (case start_send m c of
             (Some e, c) \<Rightarrow> (Finished (Inl (Fault (E_Io e))), c)
           | (None, c) \<Rightarrow> (Again, c\<lparr>cn_pending_request := Some (Copy_Request receiver)\<rparr>)))"

definition write_request :: "request_messages \<Rightarrow> connection \<Rightarrow> bool round \<times> connection" where
  "write_request request c = (case request of
       Single m \<Rightarrow> write_single m c
     | Copy_Request receiver \<Rightarrow> write_copy receiver c)"

definition write_round :: "connection \<Rightarrow> bool round \<times> connection" where
  "write_round c =
     (if cn_state c = Conn_Closing then (Finished (Inr False), c)
      else
        (case stream_ready c of
           (Ready (Inl e), c) \<Rightarrow> (Finished (Inl (Fault (E_Io e))), c)
         | (Pending, c) \<Rightarrow> (Finished (Inr False), c)
         | (Ready (Inr _), c) \<Rightarrow>
             (case poll_request c of
                (Ready (Some request), c) \<Rightarrow> write_request request c
              | (Ready None, c) \<Rightarrow>
                  if cn_responses c = [] \<and> cn_state c = Conn_Active then
                    (case terminate [] of
                       None \<Rightarrow> (Finished (Inl Panic), c)
                     | Some buf \<Rightarrow> write_request (Single (Raw buf)) (c\<lparr>cn_state := Conn_Terminating\<rparr>))
                  else (Finished (Inr True), c)
              | (Pending, c) \<Rightarrow> (Finished (Inr True), c))))"

text \<open>
  The loop ends even if the socket is always ready: each round uses up a request or a message of one, or
  is the last one of the connection.
\<close>

fun request_size :: "request_messages \<Rightarrow> nat" where
  "request_size (Single m) = 1"
| "request_size (Copy_Request r) = 1 + length (ci_receiver r) + (if ci_done r then 0 else 1)"

fun answer_size :: "request option poll \<Rightarrow> nat" where
  "answer_size (Ready (Some r)) = Suc (request_size (rq_messages r))"
| "answer_size _ = 0"

definition write_size :: "connection \<Rightarrow> nat" where
  "write_size c = (case cn_pending_request c of None \<Rightarrow> 0 | Some r \<Rightarrow> request_size r) +
     sum_list (map answer_size (rx_requests (cn_receiver c))) + (if cn_state c = Conn_Active then 2 else 0)"

lemma copy_in_poll_size: "copy_in_poll r = (Some (Ready (Some m)), r') \<Longrightarrow>
    request_size (Copy_Request r') < request_size (Copy_Request r)"
  by (cases "ci_receiver r" rule: copy_stream.cases)
    (auto simp: copy_in_poll_def end_message_def Let_def split: if_splits option.splits)

lemma start_send_None: "start_send m c = (None, c') \<longleftrightarrow>
    fr_accepts (cn_stream c) (length (fr_sent (cn_stream c))) = None \<and>
    c' = c\<lparr>cn_stream := (cn_stream c)\<lparr>fr_sent := fr_sent (cn_stream c) @ [m]\<rparr>\<rparr>"
  by (auto simp: start_send_def Let_def split: option.splits)

lemma chan_poll_answer:
  "chan_poll s = (Ready (Some x), s') \<Longrightarrow> sum_list (map answer_size s) = answer_size (Ready (Some x)) + sum_list (map answer_size s')"
  by (cases s rule: chan_poll.cases) auto

lemma chan_poll_answer_le: "chan_poll s = (r, s') \<Longrightarrow> sum_list (map answer_size s') \<le> sum_list (map answer_size s)"
  by (cases s rule: chan_poll.cases) auto

lemma poll_request_size:
  assumes "poll_request c = (Ready (Some r), c')"
  shows "request_size r + write_size c' \<le> write_size c \<and> cn_pending_request c' = None \<and> cn_state c' = cn_state c"
  using assms
  by (auto simp: poll_request_def write_size_def Let_def dest: chan_poll_answer
      split: option.splits if_splits prod.splits poll.splits)

lemma write_request_size:
  assumes "write_request r c = (Again, c')" "cn_pending_request c = None"
  shows "write_size c' < request_size r + write_size c \<and> (cn_state c = Conn_Terminating \<longrightarrow> r = Single m \<longrightarrow> cn_state c' = Conn_Closing)"
proof (cases r)
  case (Single m)
  with assms show ?thesis
    by (auto simp: write_request_def write_single_def start_send_None write_size_def split: prod.splits option.splits if_splits)
next
  case (Copy_Request x)
  with assms show ?thesis
    by (auto simp: write_request_def write_copy_def start_send_None write_size_def simp del: request_size.simps
        dest!: copy_in_poll_size split: prod.splits option.splits poll.splits) simp
qed

lemma stream_ready_size: "stream_ready c = (r, c') \<Longrightarrow>
    write_size c' = write_size c \<and> cn_state c' = cn_state c \<and> cn_pending_request c' = cn_pending_request c"
  by (auto simp: stream_ready_def write_size_def Let_def)

lemma poll_request_eof: "poll_request c = (Ready None, c') \<Longrightarrow>
    write_size c' \<le> write_size c \<and> cn_pending_request c' = None \<and> cn_pending_request c = None \<and> cn_state c' = cn_state c"
  by (auto simp: poll_request_def write_size_def Let_def dest: chan_poll_answer_le
      split: option.splits if_splits prod.splits poll.splits)

text \<open>The ways in which a round of writing goes on: with a request, or with the farewell.\<close>

lemma write_round_cases:
  assumes "write_round c = (Again, c')"
  obtains (request) c1 r c2 where "cn_state c \<noteq> Conn_Closing" "stream_ready c = (Ready (Inr ()), c1)"
      "poll_request c1 = (Ready (Some r), c2)" "write_request r c2 = (Again, c')"
    | (farewell) c1 c2 buf where "stream_ready c = (Ready (Inr ()), c1)" "poll_request c1 = (Ready None, c2)"
      "cn_responses c2 = []" "cn_state c2 = Conn_Active" "terminate [] = Some buf"
      "write_request (Single (Raw buf)) (c2\<lparr>cn_state := Conn_Terminating\<rparr>) = (Again, c')"
proof -
  obtain p c1 where s: "stream_ready c = (p, c1)" by (cases "stream_ready c")
  have n: "cn_state c \<noteq> Conn_Closing" using assms by (auto simp: write_round_def)
  have p: "p = Ready (Inr ())"
    using assms s n by (auto simp: write_round_def split: poll.splits sum.splits)
  obtain q c2 where r: "poll_request c1 = (q, c2)" by (cases "poll_request c1")
  consider "q = Pending" | "q = Ready None" | x where "q = Ready (Some x)"
    by (cases q; cases "case q of Ready v \<Rightarrow> v | Pending \<Rightarrow> None") auto
  then show thesis
  proof cases
    case 1
    with assms s p n r show thesis by (simp add: write_round_def)
  next
    case 2
    with assms s p n r have "cn_responses c2 = []" "cn_state c2 = Conn_Active"
      "terminate [] = Some buf \<Longrightarrow> write_request (Single (Raw buf)) (c2\<lparr>cn_state := Conn_Terminating\<rparr>) = (Again, c')" for buf
      by (auto simp: write_round_def split: if_splits option.splits)
    with farewell s p r 2 infallible_messages(6) show thesis by blast
  next
    case 3
    with assms s p n r have "write_request x c2 = (Again, c')" by (simp add: write_round_def)
    with 3 request n s p r show thesis by blast
  qed
qed

lemma write_round_again:
  assumes "write_round c = (Again, c')"
  shows "write_size c' < write_size c"
  using assms
proof (cases rule: write_round_cases)
  case (request c1 r c2)
  with stream_ready_size poll_request_size write_request_size show ?thesis by fastforce
next
  case (farewell c1 c2 buf)
  let ?c = "c2\<lparr>cn_state := Conn_Terminating\<rparr>"
  have "write_size ?c + 2 = write_size c2" using farewell by (simp add: write_size_def)
  moreover have "cn_pending_request ?c = None" using poll_request_eof [OF farewell(2)] by simp
  from write_request_size [OF farewell(6) this] have "write_size c' < 1 + write_size ?c" by simp
  ultimately show ?thesis
    using stream_ready_size [OF farewell(1)] poll_request_eof [OF farewell(2)] by linarith
qed

function write_loop :: "connection \<Rightarrow> (error fault + bool) \<times> connection" where
  "write_loop c =
     (case write_round c of
        (Finished r, c) \<Rightarrow> (r, c)
      | (Again, c) \<Rightarrow> write_loop c)"
  by pat_completeness auto
termination
  by (relation "measure write_size") (auto dest: write_round_again [OF sym])

declare write_loop.simps [simp del]

definition poll_write :: "connection \<Rightarrow> (error fault + bool) \<times> connection" where
  "poll_write c = write_loop c"

section \<open>Flushing, shutting down and polling\<close>

definition poll_flush :: "connection \<Rightarrow> (error fault + unit) \<times> connection" where
  "poll_flush c =
     (let s = cn_stream c; (r, script) = script_poll (fr_flush s); c = c\<lparr>cn_stream := s\<lparr>fr_flush := script\<rparr>\<rparr>
      in (case r of
            Ready (Inl e) \<Rightarrow> (Inl (Fault (E_Io e)), c)
          | _ \<Rightarrow> (Inr (), c)))"

definition poll_shutdown :: "connection \<Rightarrow> (error fault + unit) poll \<times> connection" where
  "poll_shutdown c =
     (if cn_state c \<noteq> Conn_Closing then (Pending, c)
      else
        let s = cn_stream c; (r, script) = script_poll (fr_close s); c = c\<lparr>cn_stream := s\<lparr>fr_close := script\<rparr>\<rparr>
        in (case r of
              Ready (Inl e) \<Rightarrow> (Ready (Inl (Fault (E_Io e))), c)
            | Ready (Inr _) \<Rightarrow> (Ready (Inr ()), c)
            | Pending \<Rightarrow> (Pending, c)))"

text \<open>
  The result of a poll: pending, a message, an error, or \<open>Ready (Inr None)\<close>, the end.
\<close>

definition poll_message_inner :: "connection \<Rightarrow> (error fault + async_message option) poll \<times> connection" where
  "poll_message_inner c =
     (case poll_read c of
        (Inl e, c) \<Rightarrow> (Ready (Inl e), c)
      | (Inr message, c) \<Rightarrow>
          (case poll_write c of
             (Inl e, c) \<Rightarrow> (Ready (Inl e), c)
           | (Inr want_flush, c) \<Rightarrow>
               (case (if want_flush then poll_flush c else (Inr (), c)) of
                  (Inl e, c) \<Rightarrow> (Ready (Inl e), c)
                | (Inr _, c) \<Rightarrow>
                    (case message of
                       Some m \<Rightarrow> (Ready (Inr (Some m)), c)
                     | None \<Rightarrow>
                         (case poll_shutdown c of
                            (Ready (Inr _), c) \<Rightarrow> (Ready (Inr None), c)
                          | (Ready (Inl e), c) \<Rightarrow> (Ready (Inl e), c)
                          | (Pending, c) \<Rightarrow> (Pending, c))))))"

definition nominal :: "(error fault + async_message option) poll \<Rightarrow> bool" where
  "nominal r = (case r of Pending \<Rightarrow> True | Ready (Inr (Some _)) \<Rightarrow> True | _ \<Rightarrow> False)"

definition poll_message :: "connection \<Rightarrow> (error fault + async_message option) poll \<times> connection" where
  "poll_message c =
     (let (r, c) = poll_message_inner c
      in if nominal r then (r, c)
         else (r, c\<lparr>cn_receiver := (cn_receiver c)\<lparr>rx_closed := True\<rparr>\<rparr>))"

end
