(* ===== verification/Startup.thy ===== *)
theory Startup
  imports Codec Db_Error Sasl_Laws Sha256_Auth
begin

text \<open>
  The connection handshake of the asynchronous client (\<open>connect_tls.rs\<close>, \<open>connect_raw.rs\<close>): the TLS
  negotiation, the startup message, the authentication methods and the reading of the session
  information. The environment is explicit: what the socket yields (\<open>st_inner\<close>, the items of the
  framed stream up to its end), which sends fail, what the TLS library answers, the numbers the
  random generator draws and the user name of the operating system. An \<open>async\<close> function is a function on the
  state of the stream; an awaited future is run to completion. \<open>Panic\<close> is a panic of the code.
\<close>

section \<open>The TLS negotiation\<close>

datatype ssl_mode = Ssl_Disable | Ssl_Prefer | Ssl_Require
datatype ssl_negotiation = Neg_Postgres | Neg_Direct
datatype channel_binding_mode = Cb_Disable | Cb_Prefer | Cb_Require

text \<open>
  A TLS stream is known by its channel binding data, \<open>tls_server_end_point\<close>. The negotiation returns its
  result and the bytes it wrote to the plain socket.
\<close>

datatype maybe_tls_stream = Raw_Stream | Tls_Stream "bytes option"

definition stream_channel_binding :: "maybe_tls_stream \<Rightarrow> bytes option" where
  "stream_channel_binding s = (case s of Raw_Stream \<Rightarrow> None | Tls_Stream cb \<Rightarrow> cb)"

record tls_env =
  te_can_connect :: bool
  te_write :: "io_error option"
  te_read :: "io_error + u8"
  te_connect :: "string + bytes option"

definition tls_handshake :: "tls_env \<Rightarrow> bool \<Rightarrow> error + maybe_tls_stream" where
  "tls_handshake env has_hostname =
     (if \<not> has_hostname then Inl (E_Tls ''no hostname provided for TLS handshake'')
      else map_err E_Tls (bind_res (te_connect env) (\<lambda>cb. Inr (Tls_Stream cb))))"

definition connect_tls ::
  "tls_env \<Rightarrow> ssl_mode \<Rightarrow> ssl_negotiation \<Rightarrow> bool \<Rightarrow> (error fault + maybe_tls_stream) \<times> bytes" where
  "connect_tls env mode negotiation has_hostname =
     (if mode = Ssl_Disable then (Inr Raw_Stream, [])
      else if mode = Ssl_Prefer \<and> \<not> te_can_connect env then (Inr Raw_Stream, [])
      else if mode = Ssl_Prefer \<and> negotiation = Neg_Direct then
        (Inl (Fault (E_Tls (''weak sslmode \"prefer\" may not be used with sslnegotiation=direct (use '' @
           ''\"require\")''))), [])
      else if negotiation = Neg_Postgres then
        (case ssl_request [] of
           None \<Rightarrow> (Inl Panic, [])
         | Some buf \<Rightarrow>
             (case te_write env of
                Some e \<Rightarrow> (Inl (Fault (E_Io e)), buf)
              | None \<Rightarrow>
                  (case te_read env of
                     Inl e \<Rightarrow> (Inl (Fault (E_Io e)), buf)
                   | Inr b \<Rightarrow>
                       if b \<noteq> of_char CHR ''S'' then
                         (if mode = Ssl_Require
                          then (Inl (Fault (E_Tls ''server does not support TLS'')), buf)
                          else (Inr Raw_Stream, buf))
                       else (map_err Fault (tls_handshake env has_hostname), buf))))
      else (map_err Fault (tls_handshake env has_hostname), []))"

section \<open>The startup stream\<close>

record startup_stream =
  st_inner :: "(io_error + backend_message) list"
  st_buf :: backend_messages
  st_delayed :: "backend_message list"
  st_sent :: "frontend_message list"
  st_send_result :: "nat \<Rightarrow> io_error option"
  st_channel_binding :: "bytes option"

text \<open>\<open>poll_next\<close> of the stream, when the socket is ready whenever it is asked.\<close>

fun startup_loop ::
  "(io_error + backend_message) list \<Rightarrow> backend_messages \<Rightarrow>
     (io_error + message option) \<times> (io_error + backend_message) list \<times> backend_messages" where
  "startup_loop [] buf =
     (case messages_next buf of
        Inl e \<Rightarrow> (Inl e, [], buf)
      | Inr (Some m, buf) \<Rightarrow> (Inr (Some m), [], buf)
      | Inr (None, buf) \<Rightarrow> (Inr None, [], buf))"
| "startup_loop (item # inner) buf =
     (case messages_next buf of
        Inl e \<Rightarrow> (Inl e, item # inner, buf)
      | Inr (Some m, buf) \<Rightarrow> (Inr (Some m), item # inner, buf)
      | Inr (None, buf) \<Rightarrow>
          (case item of
             Inr (Normal messages _) \<Rightarrow> startup_loop inner messages
           | Inr (Async m) \<Rightarrow> (Inr (Some m), inner, buf)
           | Inl e \<Rightarrow> (Inl e, inner, buf)))"

type_synonym 'a op = "startup_stream \<Rightarrow> (error fault + 'a) \<times> startup_stream"

definition ret :: "'a \<Rightarrow> 'a op" where
  "ret x s = (Inr x, s)"

definition fails :: "error \<Rightarrow> 'a op" where
  "fails e s = (Inl (Fault e), s)"

definition lift :: "error + 'a \<Rightarrow> 'a op" where
  "lift r s = (map_err Fault r, s)"

definition bind_op :: "'a op \<Rightarrow> ('a \<Rightarrow> 'b op) \<Rightarrow> 'b op" where
  "bind_op m f s = (case m s of (Inl e, s) \<Rightarrow> (Inl e, s) | (Inr x, s) \<Rightarrow> f x s)"

text \<open>\<open>stream.try_next().await.map_err(Error::io)?\<close>, and \<open>stream.send(...)\<close>.\<close>

definition try_next :: "message option op" where
  "try_next s =
     (let (r, inner, buf) = startup_loop (st_inner s) (st_buf s)
      in (map_err (Fault \<circ> E_Io) r, s\<lparr>st_inner := inner, st_buf := buf\<rparr>))"

definition send :: "frontend_message \<Rightarrow> unit op" where
  "send item s =
     (let s' = s\<lparr>st_sent := st_sent s @ [item]\<rparr>
      in case st_send_result s (length (st_sent s)) of
           Some e \<Rightarrow> (Inl (Fault (E_Io e)), s')
         | None \<Rightarrow> (Inr (), s'))"

text \<open>Each message takes something off the stream: the loops below end.\<close>

fun item_size :: "io_error + backend_message \<Rightarrow> nat" where
  "item_size (Inl e) = 1"
| "item_size (Inr (Async m)) = 1"
| "item_size (Inr (Normal b rc)) = Suc (length (bm_buf b))"

definition stream_size :: "startup_stream \<Rightarrow> nat" where
  "stream_size s = length (bm_buf (st_buf s)) + sum_list (map item_size (st_inner s))"

lemma startup_loop_shrinks:
  "startup_loop inner buf = (Inr (Some m), inner', buf') \<Longrightarrow>
     length (bm_buf buf') + sum_list (map item_size inner') <
       length (bm_buf buf) + sum_list (map item_size inner)"
proof (induction inner arbitrary: buf)
  case Nil
  then show ?case
    by (auto dest: batch_iter.shrinks split: sum.splits prod.splits option.splits)
next
  case (Cons item inner)
  have none: "bm_buf b = bm_buf buf" if "messages_next buf = Inr (None, b)" for b
    using that parse_none_keeps_buffer
    by (auto simp: messages_next_def Let_def split: prod.splits)
  from Cons show ?case
    by (fastforce dest: batch_iter.shrinks none split: sum.splits prod.splits option.splits backend_message.splits)
qed

lemma try_next_shrinks: "try_next s = (Inr (Some m), s') \<Longrightarrow> stream_size s' < stream_size s"
  by (auto simp: try_next_def stream_size_def Let_def dest!: startup_loop_shrinks split: prod.splits)

text \<open>The loop that skips \<open>NegotiateProtocolVersion\<close>.\<close>

function next_skipping :: "message option op" where
  "next_skipping s =
     (case try_next s of
        (Inr (Some NegotiateProtocolVersion), s) \<Rightarrow> next_skipping s
      | (r, s) \<Rightarrow> (r, s))"
  by pat_completeness auto
termination
  by (relation "measure stream_size") (auto dest: try_next_shrinks [OF sym])

declare next_skipping.simps [simp del]

lemma next_skipping_shrinks: "next_skipping s = (Inr (Some m), s') \<Longrightarrow> stream_size s' < stream_size s"
proof (induction s rule: next_skipping.induct)
  case (1 s)
  show ?case
  proof (cases "\<exists>t. try_next s = (Inr (Some NegotiateProtocolVersion), t)")
    case True
    then obtain t where t: "try_next s = (Inr (Some NegotiateProtocolVersion), t)" ..
    then have "next_skipping t = (Inr (Some m), s')"
      using "1.prems" by (subst (asm) next_skipping.simps) simp
    with "1.IH" [OF t [symmetric] refl refl refl] try_next_shrinks [OF t] show ?thesis by simp
  next
    case False
    with "1.prems" have "try_next s = (Inr (Some m), s')"
      by (subst (asm) next_skipping.simps) (auto split: prod.splits sum.splits option.splits message.splits)
    then show ?thesis by (rule try_next_shrinks)
  qed
qed

section \<open>Startup and authentication\<close>

record startup_config =
  cf_user :: "bytes option"
  cf_password :: "bytes option"
  cf_dbname :: "bytes option"
  cf_options :: "bytes option"
  cf_application_name :: "bytes option"
  cf_ssl_mode :: ssl_mode
  cf_ssl_negotiation :: ssl_negotiation
  cf_channel_binding :: channel_binding_mode
  cf_opengauss_compat :: bool

definition opt_param :: "string \<Rightarrow> bytes option \<Rightarrow> (bytes \<times> bytes) list" where
  "opt_param key v = (case v of Some x \<Rightarrow> [(ascii key, x)] | None \<Rightarrow> [])"

definition startup_params :: "startup_config \<Rightarrow> bytes \<Rightarrow> (bytes \<times> bytes) list" where
  "startup_params config user =
     [(ascii ''client_encoding'', ascii ''UTF8''), (ascii ''user'', user)] @
     opt_param ''database'' (cf_dbname config) @ opt_param ''options'' (cf_options config) @
     opt_param ''application_name'' (cf_application_name config)"

definition startup :: "startup_config \<Rightarrow> bytes \<Rightarrow> unit op" where
  "startup config user =
     bind_op (lift (map_err E_Encode (startup_message (startup_params config user) []))) (\<lambda>buf.
     send (Raw buf))"

definition can_skip_channel_binding :: "startup_config \<Rightarrow> error + unit" where
  "can_skip_channel_binding config =
     (case cf_channel_binding config of
        Cb_Disable \<Rightarrow> Inr ()
      | Cb_Prefer \<Rightarrow> Inr ()
      | Cb_Require \<Rightarrow> Inl (E_Authentication (Cause ''server did not use channel binding'')))"

definition require_password :: "startup_config \<Rightarrow> error + bytes" where
  "require_password config = ok_or (E_Config ''password missing'') (cf_password config)"

definition auth_missing :: "string \<Rightarrow> 'a option \<Rightarrow> error + 'a" where
  "auth_missing msg v = ok_or (E_Authentication (Cause msg)) v"

definition authenticate_password :: "bytes \<Rightarrow> unit op" where
  "authenticate_password password =
     bind_op (lift (map_err E_Encode (password_message password []))) (\<lambda>buf. send (Raw buf))"

definition SCRAM_SHA_256 :: bytes where
  "SCRAM_SHA_256 = ascii ''SCRAM-SHA-256''"

definition SCRAM_SHA_256_PLUS :: bytes where
  "SCRAM_SHA_256_PLUS = ascii ''SCRAM-SHA-256-PLUS''"

function scan_mechanisms :: "bytes \<Rightarrow> bool \<Rightarrow> bool \<Rightarrow> io_error + (bool \<times> bool)" where
  "scan_mechanisms b has_scram has_scram_plus =
     (case sasl_mechanisms_next b of
        Inl e \<Rightarrow> Inl e
      | Inr (None, _) \<Rightarrow> Inr (has_scram, has_scram_plus)
      | Inr (Some m, b') \<Rightarrow>
          if m = SCRAM_SHA_256 then scan_mechanisms b' True has_scram_plus
          else if m = SCRAM_SHA_256_PLUS then scan_mechanisms b' has_scram True
          else scan_mechanisms b' has_scram has_scram_plus)"
  by pat_completeness auto
termination
  by (relation "measure (\<lambda>(b, _). length b)") (auto dest: sasl_iter.shrinks)

declare scan_mechanisms.simps [simp del]

text \<open>The binding and the mechanism for what the server offers and the TLS session provides.\<close>

definition choose_mechanism ::
  "startup_config \<Rightarrow> bytes option \<Rightarrow> bool \<Rightarrow> bool \<Rightarrow> error + (channel_binding \<times> bytes)" where
  "choose_mechanism config tls_binding has_scram has_scram_plus =
     (let binding = (if cf_channel_binding config \<noteq> Cb_Disable then tls_binding else None) in
      if has_scram_plus then
        Inr (case binding of
               Some sig \<Rightarrow> (TlsServerEndPoint sig, SCRAM_SHA_256_PLUS)
             | None \<Rightarrow> (Unsupported, SCRAM_SHA_256))
      else if has_scram then
        Inr (case binding of
               Some _ \<Rightarrow> (Unrequested, SCRAM_SHA_256)
             | None \<Rightarrow> (Unsupported, SCRAM_SHA_256))
      else Inl (E_Authentication (Cause ''unsupported SASL mechanism'')))"

text \<open>\<open>scram.message()\<close>, which panics when the exchange is over.\<close>

definition scram_bytes :: "scram \<Rightarrow> bytes op" where
  "scram_bytes scram s = (case message_of scram of None \<Rightarrow> (Inl Panic, s) | Some m \<Rightarrow> (Inr m, s))"

definition unexpected :: "message option \<Rightarrow> 'a op" where
  "unexpected m =
     (case m of
        None \<Rightarrow> fails E_Closed
      | Some (ErrorResponse body) \<Rightarrow> fails (error_db body)
      | Some _ \<Rightarrow> fails E_UnexpectedMessage)"

definition continue_data :: "message option \<Rightarrow> bytes option" where
  "continue_data m = (case m of Some (AuthenticationSaslContinue data) \<Rightarrow> Some data | _ \<Rightarrow> None)"

definition expect_continue :: "bytes op" where
  "expect_continue =
     bind_op try_next (\<lambda>m. case continue_data m of Some data \<Rightarrow> ret data | None \<Rightarrow> unexpected m)"

definition final_data :: "message option \<Rightarrow> bytes option" where
  "final_data m = (case m of Some (AuthenticationSaslFinal data) \<Rightarrow> Some data | _ \<Rightarrow> None)"

definition expect_final :: "bytes op" where
  "expect_final =
     bind_op try_next (\<lambda>m. case final_data m of Some data \<Rightarrow> ret data | None \<Rightarrow> unexpected m)"

text \<open>The exchange after the mechanism has been chosen.\<close>

definition scram_exchange_op :: "crates \<Rightarrow> bytes \<Rightarrow> channel_binding \<Rightarrow> bytes \<Rightarrow> bytes \<Rightarrow> unit op" where
  "scram_exchange_op c password binding mechanism samples =
     (let scram = scram_new c password binding samples in
      bind_op (scram_bytes scram) (\<lambda>msg.
      bind_op (lift (map_err E_Encode (sasl_initial_response mechanism msg []))) (\<lambda>buf.
      bind_op (send (Raw buf)) (\<lambda>_.
      bind_op expect_continue (\<lambda>data.
      let (r, scram) = scram_update c data scram in
      bind_op (lift (map_err (\<lambda>e. E_Authentication (Cause_Io e)) r)) (\<lambda>_.
      bind_op (scram_bytes scram) (\<lambda>msg.
      bind_op (lift (map_err E_Encode (sasl_response msg []))) (\<lambda>buf.
      bind_op (send (Raw buf)) (\<lambda>_.
      bind_op expect_final (\<lambda>data.
      lift (map_err (\<lambda>e. E_Authentication (Cause_Io e)) (fst (scram_finish c data scram)))))))))))))"

definition authenticate_sasl :: "crates \<Rightarrow> startup_config \<Rightarrow> bytes \<Rightarrow> bytes \<Rightarrow> unit op" where
  "authenticate_sasl c config samples body s =
     bind_op (lift (require_password config)) (\<lambda>password.
     bind_op (lift (map_err E_Parse (scan_mechanisms body False False))) (\<lambda>(has_scram, has_scram_plus).
     bind_op (lift (choose_mechanism config (st_channel_binding s) has_scram has_scram_plus))
       (\<lambda>(binding, mechanism).
     bind_op (if mechanism \<noteq> SCRAM_SHA_256_PLUS then lift (can_skip_channel_binding config) else ret ()) (\<lambda>_.
     scram_exchange_op c password binding mechanism samples)))) s"

definition cause_io :: "io_error + 'a \<Rightarrow> error + 'a" where
  "cause_io r = map_err (\<lambda>e. E_Authentication (Cause_Io e)) r"

definition authenticate_sha256 :: "crates \<Rightarrow> bytes \<Rightarrow> bytes \<Rightarrow> sha256_body \<Rightarrow> unit op" where
  "authenticate_sha256 c user pass body =
     (if sha_password_stored_method body = SHA256_PASSWORD \<or> sha_password_stored_method body = 0 then
        bind_op (lift (auth_missing ''missing salt in SHA256 auth'' (sha_random64code body))) (\<lambda>random64code.
        bind_op (lift (auth_missing ''missing token in SHA256 auth'' (sha_token body))) (\<lambda>token.
        let server_iteration = (case sha_server_iteration body of Some i \<Rightarrow> i | None \<Rightarrow> DEFAULT_ITERATION_COUNT) in
        bind_op (lift (cause_io (rfc5802_algorithm c pass random64code token server_iteration))) (\<lambda>output.
        authenticate_password output)))
      else if sha_password_stored_method body = 1 then
        bind_op (lift (auth_missing ''missing md5_salt in SHA256 auth'' (sha_md5_salt body))) (\<lambda>md5_salt.
        authenticate_password (md5_hash c user pass md5_salt))
      else fails (E_Authentication (Cause (''unsupported password stored method: '' @
             show_int (sint (sha_password_stored_method body))))))"

text \<open>A method that sends something made of the password, which channel binding does not protect.\<close>

definition with_password :: "startup_config \<Rightarrow> (bytes \<Rightarrow> unit op) \<Rightarrow> bool op" where
  "with_password config f =
     bind_op (lift (can_skip_channel_binding config)) (\<lambda>_.
     bind_op (lift (require_password config)) (\<lambda>pass.
     bind_op (f pass) (\<lambda>_. ret True)))"

definition authenticate_md5_sha256 :: "crates \<Rightarrow> md5_sha256_body \<Rightarrow> bytes \<Rightarrow> unit op" where
  "authenticate_md5_sha256 c body pass =
     bind_op (lift (cause_io (md5_sha256_hash c pass (ms_salt body) (ms_md5_salt body) 0))) (\<lambda>output.
     authenticate_password output)"

definition authenticate_sm3 :: "crates \<Rightarrow> sm3_body \<Rightarrow> bytes \<Rightarrow> unit op" where
  "authenticate_sm3 c body pass =
     bind_op (lift (cause_io (sm3_algorithm c pass (sm3_random64code body) (sm3_token body)
                      (sm3_server_iteration body)))) (\<lambda>output.
     authenticate_password output)"

text \<open>\<open>authenticate\<close> up to the final message; the result says whether one is still to come.\<close>

definition authenticate_method ::
  "crates \<Rightarrow> startup_config \<Rightarrow> bytes \<Rightarrow> bytes \<Rightarrow> message option \<Rightarrow> bool op" where
  "authenticate_method c config user samples first =
     (case first of
           Some AuthenticationOk \<Rightarrow> bind_op (lift (can_skip_channel_binding config)) (\<lambda>_. ret False)
         | Some AuthenticationCleartextPassword \<Rightarrow> with_password config authenticate_password
         | Some (AuthenticationMd5Password salt) \<Rightarrow>
             with_password config (\<lambda>pass. authenticate_password (md5_hash c user pass salt))
         | Some (AuthenticationSha256Password body) \<Rightarrow>
             with_password config (\<lambda>pass. authenticate_sha256 c user pass body)
         | Some (AuthenticationMd5Sha256Password body) \<Rightarrow>
             with_password config (authenticate_md5_sha256 c body)
         | Some (AuthenticationSm3Password body) \<Rightarrow> with_password config (authenticate_sm3 c body)
         | Some (AuthenticationSasl body) \<Rightarrow>
             bind_op (authenticate_sasl c config samples body) (\<lambda>_. ret True)
         | Some AuthenticationKerberosV5 \<Rightarrow>
             fails (E_Authentication (Cause ''unsupported authentication method''))
         | Some AuthenticationScmCredential \<Rightarrow>
             fails (E_Authentication (Cause ''unsupported authentication method''))
         | Some AuthenticationGss \<Rightarrow>
             fails (E_Authentication (Cause ''unsupported authentication method''))
         | Some AuthenticationSspi \<Rightarrow>
             fails (E_Authentication (Cause ''unsupported authentication method''))
         | m \<Rightarrow> unexpected m)"

definition expect_ok :: "unit op" where
  "expect_ok =
     bind_op try_next (\<lambda>m. if m = Some AuthenticationOk then ret () else unexpected m)"

definition authenticate :: "crates \<Rightarrow> startup_config \<Rightarrow> bytes \<Rightarrow> bytes \<Rightarrow> unit op" where
  "authenticate c config user samples =
     bind_op next_skipping (\<lambda>first.
     bind_op (authenticate_method c config user samples first) (\<lambda>final_to_come.
     if final_to_come then expect_ok else ret ()))"

section \<open>Session information\<close>

record session_info =
  si_process_id :: i32
  si_secret_key :: i32
  si_parameters :: "bytes \<rightharpoonup> bytes"

function read_info_loop :: "session_info \<Rightarrow> session_info op" where
  "read_info_loop info s =
     (case next_skipping s of
        (Inl e, s) \<Rightarrow> (Inl e, s)
      | (Inr None, s) \<Rightarrow> (Inl (Fault E_Closed), s)
      | (Inr (Some m), s) \<Rightarrow>
          (case m of
             BackendKeyData body \<Rightarrow>
               read_info_loop (info\<lparr>si_process_id := bk_process_id body, si_secret_key := bk_secret_key body\<rparr>) s
           | ParameterStatus body \<Rightarrow>
               (case bind_res (parameter_status_name body) (\<lambda>n. bind_res (parameter_status_value body) (\<lambda>v.
                       Inr (n, v))) of
                  Inl e \<Rightarrow> (Inl (Fault (E_Parse e)), s)
                | Inr (n, v) \<Rightarrow> read_info_loop (info\<lparr>si_parameters := (si_parameters info)(n \<mapsto> v)\<rparr>) s)
           | NoticeResponse body \<Rightarrow>
               read_info_loop info (s\<lparr>st_delayed := st_delayed s @ [Async (NoticeResponse body)]\<rparr>)
           | NegotiateProtocolVersion \<Rightarrow> read_info_loop info s
           | ReadyForQuery _ \<Rightarrow> (Inr info, s)
           | ErrorResponse body \<Rightarrow> (Inl (Fault (error_db body)), s)
           | _ \<Rightarrow> (Inl (Fault E_UnexpectedMessage), s)))"
  by pat_completeness auto
termination
  by (relation "measure (\<lambda>(info, s). stream_size s)")
    (auto dest!: next_skipping_shrinks [OF sym] simp: stream_size_def)

declare read_info_loop.simps [simp del]

definition read_info :: "session_info op" where
  "read_info = read_info_loop \<lparr>si_process_id = 0, si_secret_key = 0, si_parameters = Map.empty\<rparr>"

text \<open>
  \<open>connect_raw\<close>: \<open>net\<close> gives what the framed stream yields in a mode over a stream, and \<open>whoami\<close> the system's
  user name. The result is the session with the stream's channel and the delayed notices.
\<close>

definition connect_raw ::
  "crates \<Rightarrow> tls_env \<Rightarrow> (maybe_tls_stream \<Rightarrow> auth_mode \<Rightarrow> (io_error + backend_message) list) \<Rightarrow>
   (nat \<Rightarrow> io_error option) \<Rightarrow> io_error + bytes \<Rightarrow> bytes \<Rightarrow> bool \<Rightarrow> startup_config \<Rightarrow>
   error fault + (session_info \<times> startup_stream)" where
  "connect_raw c env net send_result whoami samples has_hostname config =
     bind_res (fst (connect_tls env (cf_ssl_mode config) (cf_ssl_negotiation config) has_hostname)) (\<lambda>stream.
     let mode = (if cf_opengauss_compat config then OpenGauss else Standard);
         s = \<lparr>st_inner = net stream mode, st_buf = messages_empty, st_delayed = [], st_sent = [],
               st_send_result = send_result, st_channel_binding = stream_channel_binding stream\<rparr>
     in bind_res (case cf_user config of
                    Some user \<Rightarrow> Inr user
                  | None \<Rightarrow> map_err (Fault \<circ> E_Io) whoami) (\<lambda>user.
        case bind_op (startup config user) (\<lambda>_.
               bind_op (authenticate c config user samples) (\<lambda>_. read_info)) s of
          (Inl e, _) \<Rightarrow> Inl e
        | (Inr info, s) \<Rightarrow> Inr (info, s)))"

end
