(* ===== verification/Startup_Laws.thy ===== *)
theory Startup_Laws
  imports Startup
begin

text \<open>
  What the handshake promises, against any server: which outcomes of the TLS negotiation lead to a plain
  stream, that authentication ends with the server's consent, that required channel binding is
  used, that no input panics, and what session information is reported.
\<close>

section \<open>TLS\<close>

lemma ssl_request_some: "ssl_request [] = Some (be_word (8 :: i32) @ be_word (80877103 :: i32))"
  by (simp add: infallible_messages frame_def)

text \<open>
  A plain stream is used exactly when TLS is disabled, or preferred and either unavailable in the
  client or refused by the server; a TLS stream exactly after a completed handshake with a host name, when it
  was required or could be negotiated. Nothing but an SSL request is written in the clear.
\<close>

lemma tls_outcomes:
  "(fst (connect_tls env mode neg host) = Inr Raw_Stream \<longleftrightarrow>
      mode = Ssl_Disable \<or> mode = Ssl_Prefer \<and> (\<not> te_can_connect env \<or>
        neg = Neg_Postgres \<and> te_write env = None \<and> (\<exists>b. te_read env = Inr b \<and> b \<noteq> of_char CHR ''S''))) \<and>
   (fst (connect_tls env mode neg host) = Inr (Tls_Stream cb) \<longleftrightarrow>
      (mode = Ssl_Require \<or> mode = Ssl_Prefer \<and> te_can_connect env \<and> neg = Neg_Postgres) \<and>
      (neg = Neg_Direct \<or> te_write env = None \<and> te_read env = Inr (of_char CHR ''S'')) \<and>
      host \<and> te_connect env = Inr cb) \<and>
   snd (connect_tls env mode neg host) \<in> {[], be_word (8 :: i32) @ be_word (80877103 :: i32)}"
  by (cases mode; cases neg; cases "te_read env"; cases "te_connect env")
    (auto simp: connect_tls_def tls_handshake_def ssl_request_some split: option.splits)

theorem tls_outcomes_witness:
  "fst (connect_tls \<lparr>te_can_connect = True, te_write = None, te_read = Inr 78, te_connect = Inr None\<rparr>
     Ssl_Prefer Neg_Postgres True) = Inr Raw_Stream"
  using tls_outcomes [of "\<lparr>te_can_connect = True, te_write = None, te_read = Inr 78, te_connect = Inr None\<rparr>"
      Ssl_Prefer Neg_Postgres True]
  by simp

section \<open>Operations on the stream\<close>

lemma bind_op_Inr [simp]:
  "bind_op m f s = (Inr y, s') \<longleftrightarrow> (\<exists>x t. m s = (Inr x, t) \<and> f x t = (Inr y, s'))"
  by (auto simp: bind_op_def split: prod.splits sum.splits)

lemma lift_Inr [simp]: "lift r s = (Inr x, s') \<longleftrightarrow> r = Inr x \<and> s' = s"
  by (auto simp: lift_def)

lemma ret_Inr [simp]: "ret x s = (Inr y, s') \<longleftrightarrow> y = x \<and> s' = s"
  by (auto simp: ret_def)

lemma fails_Inr [simp]: "fails e s \<noteq> (Inr x, s')"
  by (simp add: fails_def)

lemma unexpected_Inr [simp]: "unexpected m s \<noteq> (Inr x, s')"
  by (simp add: unexpected_def split: option.splits message.splits)

lemma send_Inr: "send item s = (Inr u, s') \<longleftrightarrow>
    st_send_result s (length (st_sent s)) = None \<and> s' = s\<lparr>st_sent := st_sent s @ [item]\<rparr>"
  by (auto simp: send_def Let_def split: option.splits)

text \<open>Reading changes neither what was sent nor the TLS session.\<close>

lemma try_next_keeps: "try_next s = (r, s') \<Longrightarrow>
    st_sent s' = st_sent s \<and> st_channel_binding s' = st_channel_binding s \<and> st_delayed s' = st_delayed s"
  by (auto simp: try_next_def Let_def split: prod.splits)

lemma next_skipping_keeps: "next_skipping s = (r, s') \<Longrightarrow>
    st_sent s' = st_sent s \<and> st_channel_binding s' = st_channel_binding s \<and> st_delayed s' = st_delayed s"
proof (induction s rule: next_skipping.induct)
  case (1 s)
  show ?case
  proof (cases "\<exists>t. try_next s = (Inr (Some NegotiateProtocolVersion), t)")
    case True
    then obtain t where t: "try_next s = (Inr (Some NegotiateProtocolVersion), t)" ..
    then have "next_skipping t = (r, s')"
      using "1.prems" by (subst (asm) next_skipping.simps) simp
    with "1.IH" [OF t [symmetric] refl refl refl] try_next_keeps [OF t] show ?thesis by simp
  next
    case False
    with "1.prems" have "try_next s = (r, s')"
      by (subst (asm) next_skipping.simps) (auto split: prod.splits sum.splits option.splits message.splits)
    then show ?thesis by (rule try_next_keeps)
  qed
qed

lemma next_skipping_last:
  "next_skipping s = (Inr (Some m), s') \<Longrightarrow> \<exists>t. try_next t = (Inr (Some m), s') \<and> m \<noteq> NegotiateProtocolVersion"
proof (induction s rule: next_skipping.induct)
  case (1 s)
  show ?case
  proof (cases "\<exists>t. try_next s = (Inr (Some NegotiateProtocolVersion), t)")
    case True
    then obtain t where t: "try_next s = (Inr (Some NegotiateProtocolVersion), t)" ..
    then have "next_skipping t = (Inr (Some m), s')"
      using "1.prems" by (subst (asm) next_skipping.simps) simp
    with "1.IH" [OF t [symmetric] refl refl refl] show ?thesis by simp
  next
    case False
    with "1.prems" have "try_next s = (Inr (Some m), s')"
      by (subst (asm) next_skipping.simps) (auto split: prod.splits sum.splits option.splits message.splits)
    with False show ?thesis by blast
  qed
qed

section \<open>Authentication\<close>

lemma continue_data_Some: "continue_data m = Some d \<longleftrightarrow> m = Some (AuthenticationSaslContinue d)"
  by (cases m; cases "the m") (simp_all add: continue_data_def)

lemma final_data_Some: "final_data m = Some d \<longleftrightarrow> m = Some (AuthenticationSaslFinal d)"
  by (cases m; cases "the m") (simp_all add: final_data_def)

lemma expect_ok_Inr: "expect_ok s = (Inr u, s') \<longleftrightarrow> try_next s = (Inr (Some AuthenticationOk), s')"
  by (auto simp: expect_ok_def split: if_splits)

lemma expect_continue_Inr:
  "expect_continue s = (Inr d, s') \<longleftrightarrow> try_next s = (Inr (Some (AuthenticationSaslContinue d)), s')"
  by (auto simp: expect_continue_def continue_data_Some split: option.splits)

lemma expect_final_Inr:
  "expect_final s = (Inr d, s') \<longleftrightarrow> try_next s = (Inr (Some (AuthenticationSaslFinal d)), s')"
  by (auto simp: expect_final_def final_data_Some split: option.splits)

lemma with_password_Inr:
  "with_password config f s = (Inr b, s') \<Longrightarrow> b \<and> can_skip_channel_binding config = Inr ()"
  by (auto simp: with_password_def)

lemma authenticate_method_cases:
  assumes "authenticate_method c config user samples first s = (Inr b, s')"
  shows "first = Some AuthenticationOk \<and> \<not> b \<and> s' = s \<and> can_skip_channel_binding config = Inr () \<or>
    b \<and> can_skip_channel_binding config = Inr () \<or>
    b \<and> (\<exists>body. first = Some (AuthenticationSasl body) \<and> authenticate_sasl c config samples body s = (Inr (), s'))"
proof (cases first)
  case None
  with assms show ?thesis by (simp add: authenticate_method_def)
next
  case (Some m)
  with assms show ?thesis by (cases m) (auto simp: authenticate_method_def dest: with_password_Inr)
qed

lemma authenticate_ok:
  assumes "authenticate c config user samples s = (Inr (), s')"
  shows "\<exists>t. try_next t = (Inr (Some AuthenticationOk), s')"
proof -
  from assms obtain first s1 b s2 where st: "next_skipping s = (Inr first, s1)"
    "authenticate_method c config user samples first s1 = (Inr b, s2)"
    "(if b then expect_ok else ret ()) s2 = (Inr (), s')"
    by (auto simp: authenticate_def)
  show ?thesis
  proof (cases b)
    case True
    with st(3) show ?thesis by (auto simp: expect_ok_Inr)
  next
    case False
    with authenticate_method_cases [OF st(2)] have "first = Some AuthenticationOk" "s2 = s1" by simp_all
    moreover have "s' = s2" using False st(3) by simp
    ultimately show ?thesis using st(1) next_skipping_last by blast
  qed
qed

lemma require_no_skip: "cf_channel_binding config = Cb_Require \<Longrightarrow> can_skip_channel_binding config \<noteq> Inr ()"
  by (simp add: can_skip_channel_binding_def)

lemma choose_plus:
  "choose_mechanism config tls h p = Inr (binding, SCRAM_SHA_256_PLUS) \<Longrightarrow>
     \<exists>sig. tls = Some sig \<and> binding = TlsServerEndPoint sig"
  by (auto simp: choose_mechanism_def SCRAM_SHA_256_def SCRAM_SHA_256_PLUS_def ascii_inject Let_def
      split: if_splits option.splits)

lemma scram_exchange_op_Inr:
  assumes "scram_exchange_op c password binding mechanism samples s = (Inr (), s')"
  shows "\<exists>first final scram2 buf.
    scram_update c first (scram_new c password binding samples) = (Inr (), scram2) \<and>
    fst (scram_finish c final scram2) = Inr () \<and>
    sasl_initial_response mechanism (sc_message (scram_new c password binding samples)) [] = Inr buf \<and>
    Raw buf \<in> set (st_sent s')"
proof -
  let ?n = "scram_new c password binding samples"
  have exp: "st_sent t' = st_sent t" if "expect_continue t = (Inr d, t') \<or> expect_final t = (Inr d, t')" for t t' d
    using that by (auto simp: expect_continue_Inr expect_final_Inr dest: try_next_keeps)
  have new: "message_of ?n = Some (sc_message ?n)"
    by (simp add: message_of_def scram_new_def new_inner_def)
  have sb: "scram_bytes sc t = (Inr m, t') \<longleftrightarrow> message_of sc = Some m \<and> t' = t" for sc t m t'
    by (auto simp: scram_bytes_def split: option.splits)
  from assms new obtain buf s1 first s2 buf2 s3 final s4 where
    ini: "sasl_initial_response mechanism (sc_message ?n) [] = Inr buf" and
    s1: "send (Raw buf) s = (Inr (), s1)" and
    s2: "expect_continue s1 = (Inr first, s2)" and
    up1: "fst (scram_update c first ?n) = Inr ()" and
    s3: "send (Raw buf2) s2 = (Inr (), s3)" and
    s4: "expect_final s3 = (Inr final, s4)" "s' = s4" and
    fin: "fst (scram_finish c final (snd (scram_update c first ?n))) = Inr ()"
    by (auto simp: scram_exchange_op_def sb Let_def case_prod_beta)
  from up1 have up: "scram_update c first ?n = (Inr (), snd (scram_update c first ?n))"
    by (metis prod.collapse)
  from exp [of s1 first s2] exp [of s3 final s4] s1 s2 s3 s4 have "Raw buf \<in> set (st_sent s')"
    by (auto simp: send_Inr)
  with ini up fin show ?thesis by blast
qed

lemma required_binding:
  assumes "cf_channel_binding config = Cb_Require" "authenticate c config user samples s = (Inr (), s')"
  shows "\<exists>sig password first final scram2 buf.
    st_channel_binding s = Some sig \<and> cf_password config = Some password \<and>
    scram_update c first (scram_new c password (TlsServerEndPoint sig) samples) = (Inr (), scram2) \<and>
    fst (scram_finish c final scram2) = Inr () \<and>
    sasl_initial_response SCRAM_SHA_256_PLUS
      (sc_message (scram_new c password (TlsServerEndPoint sig) samples)) [] = Inr buf \<and>
    Raw buf \<in> set (st_sent s')"
proof -
  note ns = require_no_skip [OF assms(1)]
  from assms(2) obtain first s1 b s2 where st: "next_skipping s = (Inr first, s1)"
    "authenticate_method c config user samples first s1 = (Inr b, s2)"
    "(if b then expect_ok else ret ()) s2 = (Inr (), s')"
    by (auto simp: authenticate_def)
  from st(2) ns obtain body where "authenticate_sasl c config samples body s1 = (Inr (), s2)" "b"
    using authenticate_method_cases [OF st(2)] by blast
  then obtain password h p binding mechanism where
    pw: "cf_password config = Some password" and
    ch: "choose_mechanism config (st_channel_binding s1) h p = Inr (binding, mechanism)" and
    pl: "mechanism = SCRAM_SHA_256_PLUS" and
    ex: "scram_exchange_op c password binding mechanism samples s1 = (Inr (), s2)"
    using ns by (auto simp: authenticate_sasl_def require_password_def ok_or_def split: if_splits option.splits)
  from choose_plus ch pl obtain sig where sig: "st_channel_binding s1 = Some sig" "binding = TlsServerEndPoint sig"
    by blast
  from st(3) \<open>b\<close> have "st_sent s' = st_sent s2" by (auto simp: expect_ok_Inr dest: try_next_keeps)
  with scram_exchange_op_Inr [OF ex] next_skipping_keeps [OF st(1)] pw sig pl show ?thesis by force
qed

section \<open>An honest server\<close>

lemma scan_mechanisms_mk:
  "list_all mechanism_ok ms \<Longrightarrow>
     scan_mechanisms (mk_sasl ms) h p = Inr (h \<or> SCRAM_SHA_256 \<in> set ms, p \<or> SCRAM_SHA_256_PLUS \<in> set ms)"
proof (induction ms arbitrary: h p)
  case Nil
  then show ?case
    by (subst scan_mechanisms.simps) (simp add: sasl_mechanisms_next_def mk_sasl_def find_null_def)
next
  case (Cons m ms)
  have "SCRAM_SHA_256 \<noteq> SCRAM_SHA_256_PLUS"
    by (simp add: SCRAM_SHA_256_def SCRAM_SHA_256_PLUS_def ascii_inject)
  with Cons show ?case
    using sasl_source.nxt_Cons [of m ms]
    by (subst scan_mechanisms.simps) auto
qed

text \<open>A stream whose buffer holds well-formed messages yields the first.\<close>

lemma try_next_messages:
  assumes "st_buf s = mk_messages mode (m # ms)" "list_all (sendable mode) (m # ms)"
  shows "try_next s = (Inr (Some m), s\<lparr>st_buf := mk_messages mode ms\<rparr>)"
proof -
  have "messages_next (mk_messages mode (m # ms)) = Inr (Some m, mk_messages mode ms)"
    using batch_source.nxt_Cons [OF assms(2)] by simp
  then have "startup_loop (st_inner s) (st_buf s) = (Inr (Some m), st_inner s, mk_messages mode ms)"
    using assms(1) by (cases "st_inner s") simp_all
  then show ?thesis by (simp add: try_next_def)
qed

lemma next_skipping_messages:
  assumes "st_buf s = mk_messages mode (m # ms)" "list_all (sendable mode) (m # ms)"
    "m \<noteq> NegotiateProtocolVersion"
  shows "next_skipping s = (Inr (Some m), s\<lparr>st_buf := mk_messages mode ms\<rparr>)"
  using assms(3) by (subst next_skipping.simps) (cases m; simp add: try_next_messages [OF assms(1,2)])

lemma sasl_response_ok: "length data \<le> max_body \<Longrightarrow> \<exists>buf. sasl_response data [] = Inr buf"
  using frames_sasl_response [of data] by (simp add: frames_def)

lemma sasl_initial_ok:
  assumes "0 \<notin> set name" "length name + length data \<le> 2147483600"
  shows "\<exists>buf. sasl_initial_response name data [] = Inr buf"
  using frames_sasl_initial [OF assms(1), of data] assms(2)
  by (simp add: frames_def cstr_bytes_def max_body_def)

lemma mechanism_no_nul: "0 \<notin> set SCRAM_SHA_256" "0 \<notin> set SCRAM_SHA_256_PLUS"
  "length SCRAM_SHA_256_PLUS \<le> 18" "length SCRAM_SHA_256 \<le> 18"
  by (simp_all add: SCRAM_SHA_256_def SCRAM_SHA_256_PLUS_def ascii_def)

lemma scram_op_completes:
  assumes c: "hash_lengths c" "base64_laws c"
    and nonce: "nonce = map (\<lambda>v. if v = 0x2c then 0x7e else v) samples" "printable (nonce @ ext)"
    and first: "first = rfc_server_first c (nonce @ ext) salt i"
    and final: "final = rfc_final_without_proof c binding (nonce @ ext)"
    and keys: "salted = hi c (normalize c password) salt i" "am = rfc_auth_message nonce first final"
      "sfinal = rfc_server_final c (rfc_server_key c salted) am"
    and buf: "st_buf s = mk_messages Standard
      (AuthenticationSaslContinue first # AuthenticationSaslFinal sfinal # rest)"
    and ok: "list_all (sendable Standard)
      (AuthenticationSaslContinue first # AuthenticationSaslFinal sfinal # rest)"
    and env: "st_send_result s = (\<lambda>_. None)" "0 \<notin> set mechanism" "length mechanism \<le> 18"
      "length nonce \<le> 1000000" "length final \<le> 1000000000"
      "\<And>x. length x = 32 \<Longrightarrow> length (b64_encode c x) \<le> 1000000000"
  shows "\<exists>s'. scram_exchange_op c password binding mechanism samples s = (Inr (), s') \<and>
    st_buf s' = mk_messages Standard rest"
proof -
  let ?n = "scram_new c password binding samples"
  have n: "?n = new_inner c password binding nonce" using nonce(1) by (simp add: scram_new_def)
  from honest_exchange [OF c nonce(2) keys(1) first final keys(2)] obtain proof64 s2 s3 where
    up: "scram_update c first ?n = (Inr (), s2)" and
    msg: "message_of s2 = Some (final @ ascii '',p='' @ proof64)" and
    fin: "scram_finish c sfinal s2 = (Inr (), s3)"
    using keys(3) n by auto
  have "length (gs2_header binding) \<le> 24"
    by (cases binding) (simp_all add: gs2_header_def ascii_def)
  then have "length (sc_message ?n) \<le> 1000029" using env(4) n by (simp add: new_inner_def)
  then obtain b1 where b1: "sasl_initial_response mechanism (sc_message ?n) [] = Inr b1"
    using sasl_initial_ok [of mechanism "sc_message ?n"] env(2,3) by auto
  have "length proof64 \<le> 1000000000"
  proof -
    have "sc_message s2 = final @ ascii '',p='' @ proof64"
      using msg by (simp add: message_of_def split: if_splits)
    moreover have "sc_message s2 = final @ ascii '',p='' @ b64_encode c
        (xor_into (hmac_sha256 c salted (ascii ''Client Key'')) (hmac_sha256 c (rfc_stored_key c salted) am))"
      using up update_honest [OF c(2) nonce(2), of "normalize c password" binding salt i]
      by (auto simp: scram_update_def n new_inner_def first final keys(1,2) Let_def)
    ultimately show ?thesis using env(6) c(1) by (auto simp: hash_lengthsD)
  qed
  then obtain b2 where b2: "sasl_response (final @ ascii '',p='' @ proof64) [] = Inr b2"
    using sasl_response_ok [of "final @ ascii '',p='' @ proof64"] env(5) by (auto simp: max_body_def)
  have new: "message_of ?n = Some (sc_message ?n)" by (simp add: message_of_def n new_inner_def)
  have sb: "scram_bytes sc t = (Inr m, t)" if "message_of sc = Some m" for sc t m
    using that by (simp add: scram_bytes_def)
  define s1 where "s1 = s\<lparr>st_sent := st_sent s @ [Raw b1]\<rparr>"
  define t1 where "t1 = s1\<lparr>st_buf := mk_messages Standard (AuthenticationSaslFinal sfinal # rest)\<rparr>"
  define s3' where "s3' = t1\<lparr>st_sent := st_sent t1 @ [Raw b2]\<rparr>"
  define t3 where "t3 = s3'\<lparr>st_buf := mk_messages Standard rest\<rparr>"
  have "send (Raw b1) s = (Inr (), s1)" "send (Raw b2) t1 = (Inr (), s3')"
    using env(1) by (simp_all add: send_Inr s1_def s3'_def t1_def)
  moreover have "expect_continue s1 = (Inr first, t1)"
    unfolding expect_continue_Inr t1_def using buf ok by (intro try_next_messages) (simp_all add: s1_def)
  moreover have "expect_final s3' = (Inr sfinal, t3)"
    unfolding expect_final_Inr t3_def using ok by (intro try_next_messages) (simp_all add: s3'_def t1_def)
  ultimately have "scram_exchange_op c password binding mechanism samples s = (Inr (), t3)"
    using b1 b2 up fin sb [OF new] sb [OF msg]
    by (simp add: scram_exchange_op_def Let_def)
  moreover have "st_buf t3 = mk_messages Standard rest" by (simp add: t3_def)
  ultimately show ?thesis by blast
qed

text \<open>
  What a server sends that follows the RFC and holds the stored and the server key of a password salted and
  hashed \<open>i\<close> times.
\<close>

definition honest_final :: "crates \<Rightarrow> bytes \<Rightarrow> bytes \<Rightarrow> bytes \<Rightarrow> channel_binding \<Rightarrow> bytes \<Rightarrow> u32 \<Rightarrow> bytes" where
  "honest_final c server_key client_nonce nonce binding salt i =
     rfc_server_final c server_key
       (rfc_auth_message client_nonce (rfc_server_first c nonce salt i) (rfc_final_without_proof c binding nonce))"

definition honest_sasl ::
  "crates \<Rightarrow> bytes list \<Rightarrow> bytes \<Rightarrow> bytes \<Rightarrow> bytes \<Rightarrow> channel_binding \<Rightarrow> bytes \<Rightarrow> u32 \<Rightarrow> message list" where
  "honest_sasl c ms server_key client_nonce nonce binding salt i =
     [AuthenticationSasl (mk_sasl ms),
      AuthenticationSaslContinue (rfc_server_first c nonce salt i),
      AuthenticationSaslFinal (honest_final c server_key client_nonce nonce binding salt i),
      AuthenticationOk]"

definition nonce_of :: "bytes \<Rightarrow> bytes" where
  "nonce_of samples = map (\<lambda>v. if v = 0x2c then 0x7e else v) samples"

lemma sasl_completes:
  assumes c: "hash_lengths c" "base64_laws c"
    and cfg: "cf_password config = Some password" "list_all mechanism_ok ms"
      "choose_mechanism config (st_channel_binding s) (SCRAM_SHA_256 \<in> set ms) (SCRAM_SHA_256_PLUS \<in> set ms) =
        Inr (binding, mechanism)"
      "mechanism = SCRAM_SHA_256_PLUS \<or> can_skip_channel_binding config = Inr ()"
    and nonce: "nonce = nonce_of samples @ ext" "printable nonce" "length samples \<le> 1000000"
    and msgs: "msgs = honest_sasl c ms (rfc_server_key c (hi c (normalize c password) salt i)) (nonce_of samples)
        nonce binding salt i"
    and buf: "st_buf s = mk_messages Standard msgs" "list_all (sendable Standard) msgs"
    and env: "st_send_result s = (\<lambda>_. None)"
      "length (rfc_final_without_proof c binding nonce) \<le> 1000000000"
      "\<And>x. length x = 32 \<Longrightarrow> length (b64_encode c x) \<le> 1000000000"
  shows "\<exists>s'. authenticate c config user samples s = (Inr (), s')"
proof -
  define first sfinal where f: "first = rfc_server_first c nonce salt i"
    "sfinal = honest_final c (rfc_server_key c (hi c (normalize c password) salt i)) (nonce_of samples)
      nonce binding salt i"
  have m: "msgs = [AuthenticationSasl (mk_sasl ms), AuthenticationSaslContinue first,
      AuthenticationSaslFinal sfinal, AuthenticationOk]"
    by (simp add: msgs honest_sasl_def f)
  define s1 where "s1 = s\<lparr>st_buf := mk_messages Standard (tl msgs)\<rparr>"
  have fst: "next_skipping s = (Inr (Some (AuthenticationSasl (mk_sasl ms))), s1)"
    unfolding s1_def m list.sel using buf by (intro next_skipping_messages) (simp_all add: m)
  have mech: "0 \<notin> set mechanism" "length mechanism \<le> 18"
    using cfg(3) mechanism_no_nul by (auto simp: choose_mechanism_def Let_def split: if_splits option.splits)
  have len: "length (nonce_of samples) \<le> 1000000" using nonce(3) by (simp add: nonce_of_def)
  from scram_op_completes [OF c nonce_of_def nonce(2) [unfolded nonce(1)] refl refl refl refl refl, where s = s1 and
      password = password and salt = salt and i = i and binding = binding and rest = "[AuthenticationOk]" and
      mechanism = mechanism] mech len buf env obtain s2 where
    op: "scram_exchange_op c password binding mechanism samples s1 = (Inr (), s2)"
    "st_buf s2 = mk_messages Standard [AuthenticationOk]"
    by (auto simp: s1_def m f honest_final_def nonce(1))
  have "authenticate_sasl c config samples (mk_sasl ms) s1 = (Inr (), s2)"
    using cfg op(1) scan_mechanisms_mk [OF cfg(2), of False False]
    by (auto simp: authenticate_sasl_def require_password_def s1_def)
  then have "authenticate_method c config user samples (Some (AuthenticationSasl (mk_sasl ms))) s1 = (Inr True, s2)"
    by (simp add: authenticate_method_def)
  moreover have "expect_ok s2 = (Inr (), s2\<lparr>st_buf := mk_messages Standard []\<rparr>)"
    unfolding expect_ok_Inr using op(2) buf(2) by (intro try_next_messages) (simp_all add: m)
  ultimately show ?thesis
    using fst by (auto simp: authenticate_def)
qed

text \<open>A concrete session: the server offers both mechanisms over TLS, and the client requires channel binding.\<close>

definition sample_config :: startup_config where
  "sample_config = \<lparr>cf_user = None, cf_password = Some [112], cf_dbname = None, cf_options = None,
     cf_application_name = None, cf_ssl_mode = Ssl_Require, cf_ssl_negotiation = Neg_Postgres,
     cf_channel_binding = Cb_Require, cf_opengauss_compat = False\<rparr>"

definition sample_messages :: "message list" where
  "sample_messages = honest_sasl sample_crates [SCRAM_SHA_256, SCRAM_SHA_256_PLUS]
     (rfc_server_key sample_crates (hi sample_crates (normalize sample_crates [112]) [1, 2] 4096))
     (nonce_of [65]) [65, 66] (TlsServerEndPoint [9]) [1, 2] 4096"

definition sample_session :: startup_stream where
  "sample_session = \<lparr>st_inner = [], st_buf = mk_messages Standard sample_messages, st_delayed = [], st_sent = [],
     st_send_result = \<lambda>_. None, st_channel_binding = Some [9]\<rparr>"

lemma sample_b64: "b64_encode sample_crates x = hex_encode x"
  by (simp add: sample_crates_def)

lemma sample_sendable: "list_all (sendable Standard) sample_messages"
proof -
  let ?n = "[65, 66] :: bytes"
  have [simp]: "length (show_nat (unat (4096 :: u32))) = 4" by (simp add: show_nat.simps)
  then show ?thesis
    by (simp add: sample_messages_def honest_sasl_def sendable_def wf_message_def message_wire_def auth_wire_def
        max_body_def mk_sasl_def cstr_bytes_def SCRAM_SHA_256_def SCRAM_SHA_256_PLUS_def ascii_def
        rfc_server_first_def honest_final_def rfc_server_final_def sample_b64 sample_crates_def)
qed

lemma sample_mechanisms: "list_all mechanism_ok [SCRAM_SHA_256, SCRAM_SHA_256_PLUS]"
  by (simp add: mechanism_ok_def mechanism_no_nul) (simp add: SCRAM_SHA_256_def SCRAM_SHA_256_PLUS_def utf8_valid_ascii ascii_def)

lemma sample_choice:
  "choose_mechanism sample_config (st_channel_binding sample_session)
     (SCRAM_SHA_256 \<in> set [SCRAM_SHA_256, SCRAM_SHA_256_PLUS])
     (SCRAM_SHA_256_PLUS \<in> set [SCRAM_SHA_256, SCRAM_SHA_256_PLUS]) =
   Inr (TlsServerEndPoint [9], SCRAM_SHA_256_PLUS)"
  by (simp add: choose_mechanism_def sample_config_def sample_session_def)

lemma sample_nonce: "[65, 66] = nonce_of [65] @ [66]" "printable [65, 66]"
  by (simp_all add: nonce_of_def printable_def is_printable_def)

lemma sample_final: "length (rfc_final_without_proof sample_crates (TlsServerEndPoint [9]) [65, 66]) \<le> 1000000000"
  by (simp add: rfc_final_without_proof_def sample_b64 gs2_header_def cbind_data_def ascii_def)

lemma sample_completes: "\<exists>s'. authenticate sample_crates sample_config [117] [65] sample_session = (Inr (), s')"
  by (rule sasl_completes [OF sample_crates_ok(1,3) _ sample_mechanisms sample_choice _ sample_nonce _
        sample_messages_def _ sample_sendable _ sample_final])
    (simp_all add: sample_config_def sample_session_def sample_b64)

text \<open>
  C32: against an honest server that offers SCRAM and knows the password's keys, authentication completes,
  with whatever mechanism and channel binding the client's policy chooses.
\<close>

theorem handshake_completes:
  assumes c: "hash_lengths c" "base64_laws c"
    and cfg: "cf_password config = Some password" "list_all mechanism_ok ms"
      "choose_mechanism config (st_channel_binding s) (SCRAM_SHA_256 \<in> set ms) (SCRAM_SHA_256_PLUS \<in> set ms) =
        Inr (binding, mechanism)"
      "mechanism = SCRAM_SHA_256_PLUS \<or> can_skip_channel_binding config = Inr ()"
    and nonce: "nonce = nonce_of samples @ ext" "printable nonce" "length samples \<le> 1000000"
    and msgs: "msgs = honest_sasl c ms (rfc_server_key c (hi c (normalize c password) salt i)) (nonce_of samples)
        nonce binding salt i"
    and buf: "st_buf s = mk_messages Standard msgs" "list_all (sendable Standard) msgs"
    and env: "st_send_result s = (\<lambda>_. None)"
      "length (rfc_final_without_proof c binding nonce) \<le> 1000000000"
      "\<And>x. length x = 32 \<Longrightarrow> length (b64_encode c x) \<le> 1000000000"
  shows "\<exists>s'. authenticate c config user samples s = (Inr (), s')"
  using assms by (rule sasl_completes)

theorem handshake_completes_witness:
  "\<exists>s'. authenticate sample_crates sample_config [117] [65] sample_session = (Inr (), s')"
  by (rule handshake_completes [OF sample_crates_ok(1,3) _ sample_mechanisms sample_choice _ sample_nonce _
        sample_messages_def _ sample_sendable _ sample_final])
    (simp_all add: sample_config_def sample_session_def sample_b64)

text \<open>
  Authentication succeeds only when the last message read from the server was \<open>AuthenticationOk\<close>.
\<close>

lemma authenticate_needs_ok:
  assumes "authenticate c config user samples s = (Inr (), s')"
  shows "\<exists>t. try_next t = (Inr (Some AuthenticationOk), s')"
  using assms by (rule authenticate_ok)

theorem authenticate_needs_ok_witness:
  "\<exists>t s'. authenticate sample_crates sample_config [117] [65] sample_session = (Inr (), s') \<and>
     try_next t = (Inr (Some AuthenticationOk), s')"
  using sample_completes authenticate_needs_ok by blast

text \<open>
  C3: when channel binding is required, authentication succeeds only over TLS with a channel binding, by
  SCRAM-SHA-256-PLUS bound to it: the client has announced the mechanism and the binding, and the
  server has proved its knowledge of the password's keys in that exchange. No other method the server
  may ask for, and no missing authentication, is accepted.
\<close>

theorem channel_binding_enforced:
  assumes "cf_channel_binding config = Cb_Require" "authenticate c config user samples s = (Inr (), s')"
  shows "\<exists>sig password first final scram2 buf.
    st_channel_binding s = Some sig \<and> cf_password config = Some password \<and>
    scram_update c first (scram_new c password (TlsServerEndPoint sig) samples) = (Inr (), scram2) \<and>
    fst (scram_finish c final scram2) = Inr () \<and>
    sasl_initial_response SCRAM_SHA_256_PLUS
      (sc_message (scram_new c password (TlsServerEndPoint sig) samples)) [] = Inr buf \<and>
    Raw buf \<in> set (st_sent s')"
  using assms by (rule required_binding)

theorem channel_binding_enforced_witness:
  "\<exists>s' password scram2 first. authenticate sample_crates sample_config [117] [65] sample_session = (Inr (), s') \<and>
     scram_update sample_crates first (scram_new sample_crates password (TlsServerEndPoint [9]) [65]) = (Inr (), scram2)"
proof -
  from sample_completes obtain s' where s: "authenticate sample_crates sample_config [117] [65] sample_session = (Inr (), s')" ..
  have r: "cf_channel_binding sample_config = Cb_Require" by (simp add: sample_config_def)
  have b: "st_channel_binding sample_session = Some [9]" by (simp add: sample_session_def)
  from channel_binding_enforced [OF r s] b s show ?thesis by auto
qed

section \<open>No panic\<close>

definition no_panic :: "'a op \<Rightarrow> bool" where
  "no_panic m \<longleftrightarrow> (\<forall>s. fst (m s) \<noteq> Inl Panic)"

named_theorems panic_free

lemma map_err_no_panic [simp]: "map_err Fault r \<noteq> Inl Panic"
  by (cases r) simp_all

lemma map_err_io_no_panic [simp]: "map_err (Fault \<circ> E_Io) r \<noteq> Inl Panic"
  by (cases r) simp_all

lemma no_panic_basic [panic_free]: "no_panic (ret x)" "no_panic (fails e)" "no_panic (lift r)" "no_panic (send item)"
  "no_panic try_next"
  by (auto simp: no_panic_def ret_def fails_def lift_def send_def try_next_def Let_def split: option.splits prod.splits)

lemma no_panic_bind [panic_free]: "no_panic m \<Longrightarrow> (\<And>x. no_panic (f x)) \<Longrightarrow> no_panic (bind_op m f)"
  unfolding no_panic_def bind_op_def
proof
  fix s
  assume m: "\<forall>s. fst (m s) \<noteq> Inl Panic" and f: "\<And>x. \<forall>s. fst (f x s) \<noteq> Inl Panic"
  obtain r t where r: "m s = (r, t)" by (cases "m s")
  with m have "r \<noteq> Inl Panic" by (metis fst_conv)
  with r f show "fst (case m s of (Inl e, s) \<Rightarrow> (Inl e, s) | (Inr x, s) \<Rightarrow> f x s) \<noteq> Inl Panic"
    by (cases r) simp_all
qed

lemma no_panic_lift_bind: "(\<And>x. r = Inr x \<Longrightarrow> no_panic (f x)) \<Longrightarrow> no_panic (bind_op (lift r) f)"
  unfolding no_panic_def bind_op_def lift_def by (cases r) auto

lemma no_panic_unexpected [panic_free]: "no_panic (unexpected m)"
  unfolding unexpected_def
  by (auto intro: panic_free split: option.splits message.splits)

lemma no_panic_if [panic_free]: "no_panic a \<Longrightarrow> no_panic b \<Longrightarrow> no_panic (if P then a else b)"
  by simp

lemma no_panic_case_option [panic_free]:
  "no_panic a \<Longrightarrow> (\<And>x. no_panic (f x)) \<Longrightarrow> no_panic (case v of None \<Rightarrow> a | Some x \<Rightarrow> f x)"
  by (cases v) simp_all

lemma no_panic_case_prod [panic_free]: "(\<And>x y. no_panic (f x y)) \<Longrightarrow> no_panic (case p of (x, y) \<Rightarrow> f x y)"
  by (cases p) simp

lemma no_panic_expect [panic_free]: "no_panic expect_continue" "no_panic expect_final" "no_panic expect_ok"
  unfolding expect_continue_def expect_final_def expect_ok_def by (intro panic_free)+

lemma no_panic_next_skipping [panic_free]: "no_panic next_skipping"
  unfolding no_panic_def
proof
  fix s
  show "fst (next_skipping s) \<noteq> Inl Panic"
  proof (induction s rule: next_skipping.induct)
    case (1 s)
    have t: "fst (try_next s) \<noteq> Inl Panic" using no_panic_basic(5) by (simp add: no_panic_def)
    show ?case
    proof (cases "\<exists>t. try_next s = (Inr (Some NegotiateProtocolVersion), t)")
      case True
      then obtain t where t: "try_next s = (Inr (Some NegotiateProtocolVersion), t)" ..
      with "1.IH" [OF t [symmetric] refl refl refl] show ?thesis by (subst next_skipping.simps) simp
    next
      case False
      with t show ?thesis
        by (subst next_skipping.simps)
          (auto split: prod.splits sum.splits option.splits message.splits)
    qed
  qed
qed

lemma no_panic_scram_bytes: "message_of scram \<noteq> None \<Longrightarrow> no_panic (scram_bytes scram)"
  by (auto simp: no_panic_def scram_bytes_def)

lemma scram_new_has_message: "message_of (scram_new c password binding samples) \<noteq> None"
  by (simp add: message_of_def scram_new_def new_inner_def)

lemma scram_updated_has_message:
  "map_err g (fst (scram_update c data scram)) = Inr u \<Longrightarrow> message_of (snd (scram_update c data scram)) \<noteq> None"
  by (auto simp: scram_update_def update_exchange_def message_of_def Let_def split: scram_state.splits sum.splits)

lemma no_panic_scram [panic_free]: "no_panic (scram_exchange_op c password binding mechanism samples)"
  unfolding scram_exchange_op_def Let_def case_prod_beta
  by (intro no_panic_scram_bytes scram_new_has_message scram_updated_has_message panic_free no_panic_lift_bind)

lemma no_panic_password [panic_free]: "no_panic (authenticate_password p)"
  unfolding authenticate_password_def by (intro panic_free)

lemma no_panic_sasl [panic_free]: "no_panic (authenticate_sasl c config samples body)"
proof -
  have at: "no_panic (\<lambda>s. f s s)" if "\<And>s. no_panic (f s)" for f :: "startup_stream \<Rightarrow> unit op"
    using that by (simp add: no_panic_def)
  show ?thesis unfolding authenticate_sasl_def by (rule at) (intro panic_free)
qed

lemma no_panic_sha256 [panic_free]: "no_panic (authenticate_sha256 c user pass body)"
  unfolding authenticate_sha256_def Let_def by (intro panic_free)

lemma no_panic_with_password [panic_free]: "(\<And>p. no_panic (f p)) \<Longrightarrow> no_panic (with_password config f)"
  unfolding with_password_def by (intro panic_free)

lemma no_panic_hashes [panic_free]: "no_panic (authenticate_md5_sha256 c b1 pass)" "no_panic (authenticate_sm3 c b2 pass)"
  unfolding authenticate_md5_sha256_def authenticate_sm3_def by (intro panic_free)+

lemma no_panic_method [panic_free]: "no_panic (authenticate_method c config user samples first)"
proof (cases first)
  case None
  then show ?thesis by (simp add: authenticate_method_def panic_free)
next
  case (Some m)
  then show ?thesis
    by (cases m) (simp_all only: authenticate_method_def option.case message.case, (intro panic_free)+)
qed

lemma no_panic_authenticate [panic_free]: "no_panic (authenticate c config user samples)"
  unfolding authenticate_def by (intro panic_free)

lemma no_panic_read_info_loop: "fst (read_info_loop info s) \<noteq> Inl Panic"
proof (induction info s rule: read_info_loop.induct)
  case (1 info s)
  have n: "fst (next_skipping s) \<noteq> Inl Panic" using no_panic_next_skipping by (simp add: no_panic_def)
  show ?case
  proof (cases "\<exists>m t. next_skipping s = (Inr (Some m), t)")
    case True
    then obtain m t where t: "next_skipping s = (Inr (Some m), t)" by blast
    note IH = "1.IH" [OF t [symmetric] refl refl]
    show ?thesis
      using t IH by (subst read_info_loop.simps, cases m) (auto simp del: bind_res_Inr split: sum.splits)
  next
    case False
    with n show ?thesis by (subst read_info_loop.simps) (auto split: prod.splits sum.splits option.splits)
  qed
qed

lemma no_panic_read_info [panic_free]: "no_panic read_info"
  using no_panic_read_info_loop by (simp add: no_panic_def read_info_def)

lemma no_panic_startup [panic_free]: "no_panic (startup config user)"
  unfolding startup_def by (intro panic_free)

text \<open>
  No answer of the server, of the TLS library or of the operating system, no failed send and no
  configuration makes the handshake panic.
\<close>

lemma connect_raw_never_panics:
  "connect_raw c env net send_result whoami samples has_hostname config \<noteq> Inl Panic"
proof -
  have "fst (connect_tls env mode neg host) \<noteq> Inl Panic" for mode neg host
    by (auto simp: connect_tls_def ssl_request_some split: option.splits sum.splits)
  moreover have "no_panic (bind_op (startup config user) (\<lambda>_.
      bind_op (authenticate c config user samples) (\<lambda>_. read_info)))" for user
    by (intro panic_free)
  ultimately show ?thesis
    unfolding connect_raw_def Let_def bind_res_def no_panic_def
    by (auto split: sum.splits prod.splits option.splits) (metis fst_conv)+
qed

section \<open>What is collected\<close>

text \<open>The messages a server sends between authentication and readiness, and what they report.\<close>

definition info_message :: "message \<Rightarrow> bool" where
  "info_message m = (case m of
       BackendKeyData _ \<Rightarrow> True
     | ParameterStatus body \<Rightarrow> utf8_valid (ps_name body) \<and> utf8_valid (ps_value body)
     | NoticeResponse _ \<Rightarrow> True
     | NegotiateProtocolVersion \<Rightarrow> True
     | _ \<Rightarrow> False)"

definition key_data :: "message \<Rightarrow> backend_key_data_body option" where
  "key_data m = (case m of BackendKeyData body \<Rightarrow> Some body | _ \<Rightarrow> None)"

definition parameter :: "message \<Rightarrow> (bytes \<times> bytes) option" where
  "parameter m = (case m of ParameterStatus body \<Rightarrow> Some (ps_name body, ps_value body) | _ \<Rightarrow> None)"

definition notice :: "message \<Rightarrow> backend_message option" where
  "notice m = (case m of NoticeResponse body \<Rightarrow> Some (Async (NoticeResponse body)) | _ \<Rightarrow> None)"

definition last_key :: "session_info \<Rightarrow> message list \<Rightarrow> i32 \<times> i32" where
  "last_key info ms = (case rev (List.map_filter key_data ms) of
       [] \<Rightarrow> (si_process_id info, si_secret_key info)
     | body # _ \<Rightarrow> (bk_process_id body, bk_secret_key body))"

definition collected :: "session_info \<Rightarrow> message list \<Rightarrow> session_info" where
  "collected info ms =
     \<lparr>si_process_id = fst (last_key info ms), si_secret_key = snd (last_key info ms),
      si_parameters = si_parameters info ++ map_of (rev (List.map_filter parameter ms))\<rparr>"

lemma reports:
  "key_data (BackendKeyData kd) = Some kd" "parameter (BackendKeyData kd) = None" "notice (BackendKeyData kd) = None"
  "key_data (ParameterStatus ps) = None" "parameter (ParameterStatus ps) = Some (ps_name ps, ps_value ps)"
  "notice (ParameterStatus ps) = None" "key_data (NoticeResponse es) = None" "parameter (NoticeResponse es) = None"
  "notice (NoticeResponse es) = Some (Async (NoticeResponse es))" "key_data NegotiateProtocolVersion = None"
  "parameter NegotiateProtocolVersion = None" "notice NegotiateProtocolVersion = None"
  by (simp_all add: key_data_def parameter_def notice_def)

lemma last_key_Cons: "last_key info (m # ms) = last_key
    (case key_data m of None \<Rightarrow> info | Some body \<Rightarrow> info\<lparr>si_process_id := bk_process_id body, si_secret_key := bk_secret_key body\<rparr>) ms"
  by (auto simp: last_key_def map_filter_simps split: option.splits list.splits)

lemma last_key_parameters [simp]: "last_key (info\<lparr>si_parameters := p\<rparr>) ms = last_key info ms"
  by (simp add: last_key_def split: list.split)

lemma read_info_collects:
  assumes "st_buf s = mk_messages mode (ms @ ReadyForQuery st # rest)"
    "list_all (sendable mode) (ms @ ReadyForQuery st # rest)" "list_all info_message ms"
  shows "\<exists>s'. read_info_loop info s = (Inr (collected info ms), s') \<and> st_buf s' = mk_messages mode rest \<and>
    st_delayed s' = st_delayed s @ List.map_filter notice ms"
  using assms
proof (induction ms arbitrary: s info)
  case Nil
  then have "next_skipping s = (Inr (Some (ReadyForQuery st)), s\<lparr>st_buf := mk_messages mode rest\<rparr>)"
    by (intro next_skipping_messages) simp_all
  then show ?case
    by (subst read_info_loop.simps) (simp add: collected_def last_key_def map_filter_simps)
next
  case (Cons m ms)
  let ?t = "s\<lparr>st_buf := mk_messages mode (ms @ ReadyForQuery st # rest)\<rparr>"
  have tn: "try_next s = (Inr (Some m), ?t)"
    using Cons.prems(1,2) by (intro try_next_messages) simp_all
  have ns: "next_skipping s = (Inr (Some m), ?t)" if "m \<noteq> NegotiateProtocolVersion"
    using Cons.prems(1,2) that by (intro next_skipping_messages) simp_all
  have ns': "next_skipping s = next_skipping ?t" if "m = NegotiateProtocolVersion"
    using tn that by (subst next_skipping.simps) simp
  show ?case
  proof (cases m)
    case (BackendKeyData body)
    with Cons.prems ns Cons.IH [where s = ?t and info = "info\<lparr>si_process_id := bk_process_id body, si_secret_key := bk_secret_key body\<rparr>"]
    show ?thesis
      by (subst read_info_loop.simps)
        (simp add: collected_def last_key_Cons reports map_filter_simps)
  next
    case (ParameterStatus body)
    with Cons.prems(3) have "parameter_status_name body = Inr (ps_name body)"
        "parameter_status_value body = Inr (ps_value body)"
      by (simp_all add: info_message_def parameter_status_name_def parameter_status_value_def get_str_def)
    with ParameterStatus Cons.prems ns
      Cons.IH [where s = ?t and info = "info\<lparr>si_parameters := (si_parameters info)(ps_name body \<mapsto> ps_value body)\<rparr>"]
    show ?thesis
      by (subst read_info_loop.simps)
        (simp add: collected_def last_key_Cons reports map_filter_simps)
  next
    case (NoticeResponse body)
    with Cons.prems ns Cons.IH [where s = "?t\<lparr>st_delayed := st_delayed s @ [Async (NoticeResponse body)]\<rparr>" and info = info]
    show ?thesis
      by (subst read_info_loop.simps)
        (simp add: collected_def last_key_Cons reports map_filter_simps)
  next
    case NegotiateProtocolVersion
    with Cons.prems ns' Cons.IH [where s = ?t and info = info]
    have "read_info_loop info s = read_info_loop info ?t"
      by (subst (1 2) read_info_loop.simps) simp
    with NegotiateProtocolVersion Cons.prems Cons.IH [where s = ?t and info = info] show ?thesis
      by (simp add: collected_def last_key_Cons reports map_filter_simps)
  qed (use Cons.prems(3) in \<open>simp_all add: info_message_def\<close>)
qed

text \<open>
  After authentication the session reports the process id and the secret key of the last key data
  (0 when none came), for each parameter its last value, and delays the notices in their order for the
  connection; reading stops at the \<open>ReadyForQuery\<close>, and what follows it stays in the buffer.
\<close>

lemma session_info_collected:
  assumes "st_buf s = mk_messages mode (ms @ ReadyForQuery st # rest)"
    "list_all (sendable mode) (ms @ ReadyForQuery st # rest)" "list_all info_message ms"
  shows "\<exists>s'. read_info s =
      (Inr (collected \<lparr>si_process_id = 0, si_secret_key = 0, si_parameters = Map.empty\<rparr> ms), s') \<and>
    st_buf s' = mk_messages mode rest \<and> st_delayed s' = st_delayed s @ List.map_filter notice ms"
  using read_info_collects [OF assms] by (simp add: read_info_def)

theorem session_info_collected_witness:
  "\<exists>s'. read_info (sample_session\<lparr>st_buf := mk_messages Standard
      [ParameterStatus \<lparr>ps_name = [97], ps_value = [98]\<rparr>,
       BackendKeyData \<lparr>bk_process_id = 1, bk_secret_key = 2\<rparr>,
       ParameterStatus \<lparr>ps_name = [97], ps_value = [99]\<rparr>, ReadyForQuery 73]\<rparr>) =
    (Inr \<lparr>si_process_id = 1, si_secret_key = 2, si_parameters = [[97] \<mapsto> [99]]\<rparr>, s')"
  using session_info_collected [where s = "sample_session\<lparr>st_buf := mk_messages Standard
      [ParameterStatus \<lparr>ps_name = [97], ps_value = [98]\<rparr>,
       BackendKeyData \<lparr>bk_process_id = 1, bk_secret_key = 2\<rparr>,
       ParameterStatus \<lparr>ps_name = [97], ps_value = [99]\<rparr>, ReadyForQuery 73]\<rparr>" and mode = Standard and st = 73 and rest = "[]"
     and ms = "[ParameterStatus \<lparr>ps_name = [97], ps_value = [98]\<rparr>,
       BackendKeyData \<lparr>bk_process_id = 1, bk_secret_key = 2\<rparr>,
       ParameterStatus \<lparr>ps_name = [97], ps_value = [99]\<rparr>]"]
  by (auto simp: collected_def last_key_def map_filter_simps reports info_message_def utf8_valid_ascii
      sendable_def wf_message_def message_wire_def cstr_bytes_def max_body_def)

end
