(* ===== verification/Connection_Laws.thy ===== *)
theory Connection_Laws
  imports Connection Startup_Laws
begin

text \<open>
  What the connection task promises, over any sequence of polls: the server's batches reach the requesters in
  the order of their requests, the requests reach the socket complete and in order, the farewell is the last
  thing written and only when all is answered, and no poll panics.
\<close>

section \<open>Runs and their invariants\<close>

text \<open>The states after any number of polls that have not ended the connection.\<close>

inductive conn_reach :: "connection \<Rightarrow> connection \<Rightarrow> bool" for c0 where
  start: "conn_reach c0 c0"
| poll: "conn_reach c0 c \<Longrightarrow> poll_message c = (r, c') \<Longrightarrow> nominal r \<Longrightarrow> conn_reach c0 c'"

inductive_cases conn_reach_cases: "conn_reach c0 c"

text \<open>
  An invariant of the rounds of the two loops, and of the socket operations beside them, is an invariant of the runs. A
  round that fails ends the connection and need not keep it.
\<close>

definition succeeds :: "'a round \<Rightarrow> bool" where
  "succeeds r = (case r of Finished (Inl _) \<Rightarrow> False | _ \<Rightarrow> True)"

lemma succeeds_simps [simp]: "succeeds Again" "succeeds (Finished (Inr x))" "\<not> succeeds (Finished (Inl e))"
  by (simp_all add: succeeds_def)

locale round_invariant =
  fixes I :: "connection \<Rightarrow> bool"
  assumes read_keeps: "I c \<Longrightarrow> cn_state c = Conn_Active \<Longrightarrow> read_round c = (r, c') \<Longrightarrow> succeeds r \<Longrightarrow> I c'"
    and write_keeps: "I c \<Longrightarrow> write_round c = (w, c') \<Longrightarrow> succeeds w \<Longrightarrow> I c'"
    and socket_keeps: "I c \<Longrightarrow> I (c\<lparr>cn_stream := (cn_stream c)\<lparr>fr_flush := f\<rparr>\<rparr>)"
      "I c \<Longrightarrow> I (c\<lparr>cn_stream := (cn_stream c)\<lparr>fr_close := f\<rparr>\<rparr>)"

lemma read_async_state: "read_async m c = (r, c') \<Longrightarrow> cn_state c' = cn_state c"
  by (cases m) (auto simp: read_async_def read_parameter_def split: sum.splits)

lemma read_normal_state: "read_normal b rc c = (r, c') \<Longrightarrow> cn_state c' = cn_state c"
  by (auto simp: read_normal_def Let_def dest: sender_ready_eq split: list.splits prod.splits poll.splits)

lemma poll_response_state: "poll_response c = (r, c') \<Longrightarrow> cn_state c' = cn_state c"
  by (auto simp: poll_response_def Let_def split: list.splits prod.splits)

lemma read_item_state: "read_item m c = (r, c') \<Longrightarrow> cn_state c' = cn_state c"
  by (cases m) (auto simp: read_item_def dest: read_async_state read_normal_state)

lemma read_round_state: "read_round c = (r, c') \<Longrightarrow> cn_state c' = cn_state c"
  by (auto simp: read_round_def dest!: poll_response_state read_item_state
      split: prod.splits poll.splits option.splits sum.splits)

context round_invariant
begin

lemma read_loop_keeps: "I c \<Longrightarrow> cn_state c = Conn_Active \<Longrightarrow> read_loop c = (Inr m, c') \<Longrightarrow> I c'"
proof (induction c rule: read_loop.induct)
  case (1 c)
  obtain r c1 where r: "read_round c = (r, c1)" by (cases "read_round c")
  show ?case
  proof (cases r)
    case Again
    with r "1.prems"(3) have "read_loop c1 = (Inr m, c')" by (simp add: read_loop.simps [of c])
    moreover have "I c1" using read_keeps [OF "1.prems"(1,2) r] Again by simp
    moreover have "cn_state c1 = Conn_Active" using read_round_state [OF r] "1.prems"(2) by simp
    ultimately show ?thesis using "1.IH" [OF r [symmetric] Again] by blast
  next
    case (Finished x)
    with r "1.prems"(3) have "x = Inr m" "c' = c1" by (simp_all add: read_loop.simps [of c])
    with read_keeps [OF "1.prems"(1,2) r] Finished show ?thesis by simp
  qed
qed

lemma poll_read_keeps: "I c \<Longrightarrow> poll_read c = (Inr m, c') \<Longrightarrow> I c'"
  using read_loop_keeps by (auto simp: poll_read_def split: if_splits)

lemma poll_write_keeps: "I c \<Longrightarrow> poll_write c = (Inr b, c') \<Longrightarrow> I c'"
  unfolding poll_write_def
proof (induction c rule: write_loop.induct)
  case (1 c)
  obtain r c1 where r: "write_round c = (r, c1)" by (cases "write_round c")
  show ?case
  proof (cases r)
    case Again
    with r "1.prems"(2) have "write_loop c1 = (Inr b, c')" by (simp add: write_loop.simps [of c])
    moreover have "I c1" using write_keeps [OF "1.prems"(1) r] Again by simp
    ultimately show ?thesis using "1.IH" [OF r [symmetric] Again] by blast
  next
    case (Finished x)
    with r "1.prems"(2) have "x = Inr b" "c' = c1" by (simp_all add: write_loop.simps [of c])
    with write_keeps [OF "1.prems"(1) r] Finished show ?thesis by simp
  qed
qed

lemma poll_flush_keeps: "I c \<Longrightarrow> poll_flush c = (r, c') \<Longrightarrow> I c'"
  using socket_keeps(1) by (auto simp: poll_flush_def Let_def split: prod.splits poll.splits sum.splits)

lemma poll_shutdown_keeps: "I c \<Longrightarrow> poll_shutdown c = (r, c') \<Longrightarrow> I c'"
  using socket_keeps(2) by (auto simp: poll_shutdown_def Let_def split: prod.splits poll.splits sum.splits if_splits)

lemma poll_message_keeps:
  assumes "I c" "poll_message c = (r, c')" "nominal r"
  shows "I c'"
proof -
  have p: "poll_message_inner c = (r, c')"
    using assms(2,3) by (auto simp: poll_message_def Let_def split: prod.splits if_splits)
  obtain x c1 where x: "poll_read c = (x, c1)" by (cases "poll_read c")
  from p assms(3) x obtain m where m: "x = Inr m"
    by (cases x) (auto simp: poll_message_inner_def nominal_def)
  obtain y c2 where y: "poll_write c1 = (y, c2)" by (cases "poll_write c1")
  from p assms(3) x m y obtain b where b: "y = Inr b"
    by (cases y) (auto simp: poll_message_inner_def nominal_def)
  obtain z c3 where z: "(if b then poll_flush c2 else (Inr (), c2)) = (z, c3)" by fastforce
  have I3: "I c3"
    using poll_flush_keeps poll_write_keeps [OF poll_read_keeps [OF assms(1) x [unfolded m]] y [unfolded b]] z
    by (auto split: if_splits)
  show ?thesis
    using p x m y b z assms(3) I3 poll_shutdown_keeps [of c3]
    by (auto simp: poll_message_inner_def nominal_def split: sum.splits option.splits prod.splits poll.splits)
qed

lemma reach_keeps: "conn_reach c0 c \<Longrightarrow> I c0 \<Longrightarrow> I c"
  by (induction rule: conn_reach.induct) (use poll_message_keeps in blast)+

end

section \<open>Routing\<close>

text \<open>
  The specification: batch by batch, an answer goes to the oldest requester whose request is not completed.
\<close>

fun route :: "nat list \<Rightarrow> (backend_messages \<times> bool) list \<Rightarrow> (nat \<times> backend_messages \<times> bool) list" where
  "route [] xs = []"
| "route ids [] = []"
| "route (i # ids) ((b, rc) # xs) = (i, b, rc) # route (if rc then ids else i # ids) xs"

fun normals :: "(io_error + backend_message) list \<Rightarrow> (backend_messages \<times> bool) list" where
  "normals [] = []"
| "normals (Inr (Normal b rc) # xs) = (b, rc) # normals xs"
| "normals (Inr (Async m) # xs) = normals xs"
| "normals (Inl e # xs) = normals xs"

definition unread :: "connection \<Rightarrow> (io_error + backend_message) list" where
  "unread c = map Inr (cn_pending_responses c) @ chan_items (fr_incoming (cn_stream c))"

definition unanswered :: "connection \<Rightarrow> nat list" where
  "unanswered c = cn_responses c @ map rq_sender (chan_items (rx_requests (cn_receiver c)))"

definition handed :: "connection \<Rightarrow> (nat \<times> backend_messages \<times> bool) list" where
  "handed c = map (\<lambda>d. (dl_to d, dl_messages d, dl_complete d)) (cn_log c)"

definition is_async_item :: "backend_message \<Rightarrow> bool" where
  "is_async_item m = (case m of Async _ \<Rightarrow> True | Normal _ _ \<Rightarrow> False)"

text \<open>A batch waits only at the end of the pending responses: it was the last thing read.\<close>

definition pending_ok :: "connection \<Rightarrow> bool" where
  "pending_ok c \<longleftrightarrow> list_all is_async_item (butlast (cn_pending_responses c))"

definition routed ::
  "(nat \<times> backend_messages \<times> bool) list \<Rightarrow> (backend_messages \<times> bool) list \<Rightarrow> connection \<Rightarrow> bool" where
  "routed routes batches c \<longleftrightarrow> pending_ok c \<and> routes = handed c @ route (unanswered c) (normals (unread c)) \<and>
     batches = map snd (handed c) @ normals (unread c)"

lemma routed_cong: "pending_ok c' = pending_ok c \<Longrightarrow> handed c' = handed c \<Longrightarrow> unanswered c' = unanswered c \<Longrightarrow>
    normals (unread c') = normals (unread c) \<Longrightarrow> routed t b c' = routed t b c"
  by (simp add: routed_def)

lemma poll_response_unread:
  assumes "poll_response c = (Ready (Some m), c')"
  shows "unread c = m # unread c' \<and> unanswered c' = unanswered c \<and> cn_responses c' = cn_responses c \<and> handed c' = handed c \<and>
    (pending_ok c \<longrightarrow> pending_ok c') \<and> (pending_ok c \<longrightarrow> (\<exists>b rc. m = Inr (Normal b rc)) \<longrightarrow> cn_pending_responses c' = [])"
proof (cases "cn_pending_responses c")
  case Nil
  obtain r rx where r: "chan_poll (fr_incoming (cn_stream c)) = (r, rx)" by (cases "chan_poll (fr_incoming (cn_stream c))")
  with Nil assms have "r = Ready (Some m)" "c' = c\<lparr>cn_stream := (cn_stream c)\<lparr>fr_incoming := rx\<rparr>\<rparr>"
    by (simp_all add: poll_response_def)
  with chan.item [of "fr_incoming (cn_stream c)" m rx] r Nil show ?thesis
    by (simp add: unread_def unanswered_def handed_def pending_ok_def)
next
  case (Cons x xs)
  with assms have "m = Inr x" "c' = c\<lparr>cn_pending_responses := xs\<rparr>" by (simp_all add: poll_response_def)
  with Cons show ?thesis
    by (cases xs) (auto simp: unread_def unanswered_def handed_def pending_ok_def is_async_item_def)
qed

lemma read_async_keeps: "read_async m c = (r, c') \<Longrightarrow>
    \<exists>p. c' = c\<lparr>cn_parameters := p\<rparr>"
  by (cases m) (auto simp: read_async_def read_parameter_def split: sum.splits intro: exI [of _ "cn_parameters c"])

lemma read_normal_routed:
  assumes "read_normal b rc c = (r, c')" "succeeds r" "cn_pending_responses c = []"
    "routes = handed c @ route (unanswered c) ((b, rc) # normals (unread c))"
    "batches = map snd (handed c) @ (b, rc) # normals (unread c)"
  shows "routed routes batches c'"
proof (cases "cn_responses c")
  case Nil
  with assms(1,2) show ?thesis by (auto simp: read_normal_def)
next
  case (Cons i rest)
  obtain x c1 where x: "sender_ready c = (x, c1)" by (cases "sender_ready c")
  then have c1: "c1 = c\<lparr>cn_sender_polls := Suc (cn_sender_polls c)\<rparr>" by (simp add: sender_ready_def)
  show ?thesis
  proof (cases x)
    case Pending
    with Cons x c1 assms(1,3-) show ?thesis
      by (auto simp: read_normal_def routed_def pending_ok_def handed_def unanswered_def unread_def)
  next
    case (Ready ok)
    with Cons x c1 assms(1,3-) show ?thesis
      by (auto simp: read_normal_def routed_def pending_ok_def handed_def unanswered_def unread_def)
  qed
qed

lemma read_round_routed:
  assumes "routed routes batches c" "read_round c = (r, c')" "succeeds r"
  shows "routed routes batches c'"
proof -
  obtain p c1 where p: "poll_response c = (p, c1)" by (cases "poll_response c")
  consider "p = Pending" | m where "p = Ready (Some (Inr m))" | "\<not> succeeds r"
    using assms(2,3) p by (auto simp: read_round_def split: poll.splits option.splits sum.splits)
  then show ?thesis
  proof cases
    case 1
    obtain q rx where q: "chan_poll (fr_incoming (cn_stream c)) = (q, rx)" by (cases "chan_poll (fr_incoming (cn_stream c))")
    with 1 p have "cn_pending_responses c = []" "q = Pending" "c1 = c\<lparr>cn_stream := (cn_stream c)\<lparr>fr_incoming := rx\<rparr>\<rparr>"
      by (auto simp: poll_response_def split: list.splits)
    moreover have "c' = c1" using assms(2) p 1 by (simp add: read_round_def)
    ultimately show ?thesis
      using assms(1) chan.pending [of "fr_incoming (cn_stream c)" rx] q
      by (simp add: routed_def pending_ok_def handed_def unanswered_def unread_def)
  next
    case 2
    note u = poll_response_unread [OF p [unfolded 2]]
    from assms(2) p 2 have i: "read_item m c1 = (r, c')" by (simp add: read_round_def)
    show ?thesis
    proof (cases m)
      case (Normal b rc)
      with i have n: "read_normal b rc c1 = (r, c')" by (simp add: read_item_def)
      show ?thesis
        using read_normal_routed [OF n assms(3)] u assms(1) Normal by (simp add: routed_def)
    next
      case (Async a)
      with i have "read_async a c1 = (r, c')" by (simp add: read_item_def)
      from read_async_keeps [OF this] obtain q where "c' = c1\<lparr>cn_parameters := q\<rparr>" ..
      moreover have "routed routes batches c1" using u assms(1) Async by (simp add: routed_def)
      moreover have "routed routes batches (c1\<lparr>cn_parameters := q\<rparr>) = routed routes batches c1"
        by (rule routed_cong) (simp_all add: pending_ok_def handed_def unanswered_def unread_def)
      ultimately show ?thesis by simp
    qed
  next
    case 3
    with assms(3) show ?thesis by simp
  qed
qed

text \<open>What writing leaves alone.\<close>

definition same_reading :: "connection \<Rightarrow> connection \<Rightarrow> bool" where
  "same_reading c c' \<longleftrightarrow> cn_pending_responses c' = cn_pending_responses c \<and> cn_log c' = cn_log c \<and>
     fr_incoming (cn_stream c') = fr_incoming (cn_stream c)"

lemma same_reading_trans: "same_reading a b \<Longrightarrow> same_reading b c \<Longrightarrow> same_reading a c"
  by (simp add: same_reading_def)

lemma write_request_keeps: "write_request r c = (w, c') \<Longrightarrow>
    same_reading c c' \<and> cn_responses c' = cn_responses c \<and> cn_receiver c' = cn_receiver c"
  by (auto simp: write_request_def write_single_def write_copy_def start_send_def same_reading_def Let_def
      split: request_messages.splits prod.splits option.splits poll.splits if_splits)

lemma stream_ready_keeps: "stream_ready c = (r, c') \<Longrightarrow>
    same_reading c c' \<and> cn_responses c' = cn_responses c \<and> cn_receiver c' = cn_receiver c"
  by (auto simp: stream_ready_def same_reading_def Let_def)

lemma poll_request_keeps: "poll_request c = (r, c') \<Longrightarrow> same_reading c c' \<and> unanswered c' = unanswered c"
  by (auto simp: poll_request_def same_reading_def unanswered_def Let_def dest: chan.item chan.pending chan.stopped
      split: option.splits if_splits prod.splits poll.splits)

lemma write_round_same: "write_round c = (w, c') \<Longrightarrow> same_reading c c' \<and> unanswered c' = unanswered c"
proof -
  assume w: "write_round c = (w, c')"
  obtain p c1 where s: "stream_ready c = (p, c1)" by (cases "stream_ready c")
  obtain q c2 where r: "poll_request c1 = (q, c2)" by (cases "poll_request c1")
  note k = stream_ready_keeps [OF s] poll_request_keeps [OF r]
  have u: "unanswered c1 = unanswered c" using k(1) by (simp add: unanswered_def)
  have same: "same_reading c c" "same_reading c c1" "same_reading c c2" "unanswered c2 = unanswered c"
    using k u same_reading_trans by (auto simp: same_reading_def)
  have wr: "same_reading c c' \<and> unanswered c' = unanswered c"
    if "write_request x y = (w, c')" "same_reading c2 y" "unanswered y = unanswered c2" for x y
    using write_request_keeps [OF that(1)] that(2,3) same same_reading_trans [of c c2 y]
      same_reading_trans [of c y c']
    by (simp add: unanswered_def)
  have t: "same_reading c2 c2" "same_reading c2 (c2\<lparr>cn_state := x\<rparr>)"
      "unanswered (c2\<lparr>cn_state := x\<rparr>) = unanswered c2" for x
    by (simp_all add: same_reading_def unanswered_def)
  have "c' = c \<or> c' = c1 \<or> c' = c2 \<or> (\<exists>x. write_request x c2 = (w, c')) \<or>
      (\<exists>x. write_request x (c2\<lparr>cn_state := Conn_Terminating\<rparr>) = (w, c'))"
  proof (cases "cn_state c = Conn_Closing \<or> p \<noteq> Ready (Inr ())")
    case True
    with w s show ?thesis by (auto simp: write_round_def split: poll.splits sum.splits if_splits)
  next
    case False
    then have w: "(case q of Ready (Some request) \<Rightarrow> write_request request c2
        | Ready None \<Rightarrow> (if cn_responses c2 = [] \<and> cn_state c2 = Conn_Active then
            (case terminate [] of None \<Rightarrow> (Finished (Inl Panic), c2)
             | Some buf \<Rightarrow> write_request (Single (Raw buf)) (c2\<lparr>cn_state := Conn_Terminating\<rparr>)) else (Finished (Inr True), c2))
        | Pending \<Rightarrow> (Finished (Inr True), c2)) = (w, c')"
      using w s r by (simp add: write_round_def)
    consider "q = Pending" | "q = Ready None" | x where "q = Ready (Some x)"
      by (cases q; cases "case q of Ready v \<Rightarrow> v | Pending \<Rightarrow> None") auto
    then show ?thesis
    proof cases
      case 1
      with w show ?thesis by simp
    next
      case 2
      obtain buf where "terminate [] = Some buf" using infallible_messages(6) by blast
      with w 2 show ?thesis by (cases "cn_responses c2 = [] \<and> cn_state c2 = Conn_Active") auto
    next
      case 3
      with w show ?thesis by auto
    qed
  qed
  then show ?thesis using same u wr [OF _ t(1) refl] wr [OF _ t(2,3)] by blast
qed

interpretation routing: round_invariant "routed routes batches" for routes batches
proof
  fix c c' r w f
  show "routed routes batches c \<Longrightarrow> cn_state c = Conn_Active \<Longrightarrow> read_round c = (r, c') \<Longrightarrow> succeeds r \<Longrightarrow>
      routed routes batches c'"
    by (rule read_round_routed)
  show "routed routes batches c \<Longrightarrow> write_round c = (w, c') \<Longrightarrow> succeeds w \<Longrightarrow> routed routes batches c'"
    using write_round_same [of c w c']
    by (auto simp: routed_def same_reading_def pending_ok_def handed_def unread_def)
  show "routed routes batches c \<Longrightarrow> routed routes batches (c\<lparr>cn_stream := (cn_stream c)\<lparr>fr_flush := f\<rparr>\<rparr>)"
    by (simp add: routed_def pending_ok_def handed_def unanswered_def unread_def)
  show "routed routes batches c \<Longrightarrow> routed routes batches (c\<lparr>cn_stream := (cn_stream c)\<lparr>fr_close := f\<rparr>\<rparr>)"
    by (simp add: routed_def pending_ok_def handed_def unanswered_def unread_def)
qed

lemma run_routed:
  assumes "conn_reach (connection_new stream pending parameters requests ready) c" "list_all is_async_item pending"
  shows "route (map rq_sender (chan_items requests)) (normals (chan_items (fr_incoming stream))) =
      handed c @ route (unanswered c) (normals (unread c)) \<and>
    normals (chan_items (fr_incoming stream)) = map snd (handed c) @ normals (unread c)"
proof -
  let ?c = "connection_new stream pending parameters requests ready"
  have n: "normals (map Inr pending @ xs) = normals xs" for xs
    using assms(2) by (induction pending) (auto simp: is_async_item_def split: backend_message.splits)
  have "list_all is_async_item (butlast pending)"
    using assms(2) by (auto simp: list_all_iff dest: in_set_butlastD)
  then have "routed (route (map rq_sender (chan_items requests)) (normals (chan_items (fr_incoming stream))))
      (normals (chan_items (fr_incoming stream))) ?c"
    by (simp add: routed_def pending_ok_def handed_def unanswered_def unread_def connection_new_def n)
  from routing.reach_keeps [OF assms(1) this] show ?thesis unfolding routed_def by blast
qed

text \<open>
  Responses reach the requesters in the order of their requests. Over any run of the task, the batches handed out so
  far are the first batches of the server in their order, each to the requester whom the specification \<open>route\<close>
  names, which knows nothing of polls, of requesters without room and of when the requests came;
  what is still to be read will be handed out as the specification goes on.
\<close>

lemma responses_routed:
  assumes "conn_reach (connection_new stream pending parameters requests ready) c" "list_all is_async_item pending"
  shows "route (map rq_sender (chan_items requests)) (normals (chan_items (fr_incoming stream))) =
      handed c @ route (unanswered c) (normals (unread c)) \<and>
    normals (chan_items (fr_incoming stream)) = map snd (handed c) @ normals (unread c)"
  using assms by (rule run_routed)

text \<open>A concrete run: a request is written in the first poll and answered in the second.\<close>

definition sample_batch :: backend_messages where
  "sample_batch = messages_with_mode [90, 0, 0, 0, 5, 73] Standard"

definition sample_stream :: framed where
  "sample_stream = \<lparr>fr_incoming = [Pending, Ready (Some (Inr (Normal sample_batch True)))],
     fr_ready = \<lambda>_. Ready (Inr ()), fr_polls = 0, fr_accepts = \<lambda>_. None, fr_sent = [], fr_flush = [], fr_close = [Ready (Inr ())]\<rparr>"

definition sample_requests :: "request channel" where
  "sample_requests = [Ready (Some \<lparr>rq_messages = Single (Raw [1]), rq_sender = 7\<rparr>), Pending, Pending, Ready None]"

definition sample_connection :: connection where
  "sample_connection = connection_new sample_stream [] Map.empty sample_requests (\<lambda>_. Ready True)"

lemmas round_defs = read_round_def poll_response_def read_item_def read_normal_def sender_ready_def
  write_round_def stream_ready_def poll_request_def write_request_def write_single_def start_send_def

lemmas poll_defs = poll_message_def poll_message_inner_def poll_read_def poll_write_def poll_flush_def
  poll_shutdown_def nominal_def

definition sample_c1 :: connection where
  "sample_c1 = sample_connection
     \<lparr>cn_stream := sample_stream\<lparr>fr_incoming := [Ready (Some (Inr (Normal sample_batch True)))], fr_polls := 2, fr_sent := [Raw [1]]\<rparr>,
      cn_receiver := \<lparr>rx_requests = [Pending, Ready None], rx_terminated = False, rx_closed = False\<rparr>,
      cn_responses := [7]\<rparr>"

definition sample_c2 :: connection where
  "sample_c2 = sample_c1
     \<lparr>cn_stream := sample_stream\<lparr>fr_incoming := [], fr_polls := 3, fr_sent := [Raw [1]]\<rparr>,
      cn_receiver := \<lparr>rx_requests = [Ready None], rx_terminated = False, rx_closed = False\<rparr>,
      cn_responses := [], cn_sender_polls := 1,
      cn_log := [\<lparr>dl_to = 7, dl_messages = sample_batch, dl_complete = True, dl_received = True\<rparr>]\<rparr>"

lemma sample_poll1: "poll_message sample_connection = (Pending, sample_c1)"
proof -
  have r: "read_loop sample_connection = (Inr None, sample_connection\<lparr>cn_stream := sample_stream
      \<lparr>fr_incoming := [Ready (Some (Inr (Normal sample_batch True)))]\<rparr>\<rparr>)"
    by (subst read_loop.simps) (simp add: round_defs sample_connection_def connection_new_def sample_stream_def)
  have w: "write_loop (sample_connection\<lparr>cn_stream := sample_stream
      \<lparr>fr_incoming := [Ready (Some (Inr (Normal sample_batch True)))]\<rparr>\<rparr>) = (Inr True, sample_c1)"
    by (subst write_loop.simps, simp add: round_defs sample_connection_def connection_new_def sample_stream_def sample_requests_def,
        subst write_loop.simps, simp add: round_defs sample_c1_def sample_connection_def connection_new_def sample_stream_def sample_requests_def)
  show ?thesis
    using r w by (simp add: poll_defs sample_connection_def connection_new_def sample_c1_def sample_stream_def)
qed

lemma sample_poll2: "poll_message sample_c1 = (Pending, sample_c2)"
proof -
  let ?r = "sample_c1\<lparr>cn_stream := sample_stream\<lparr>fr_incoming := [], fr_polls := 2, fr_sent := [Raw [1]]\<rparr>,
      cn_responses := [], cn_sender_polls := 1,
      cn_log := [\<lparr>dl_to = 7, dl_messages = sample_batch, dl_complete = True, dl_received = True\<rparr>]\<rparr>"
  have r: "read_loop sample_c1 = (Inr None, ?r)"
    by (subst read_loop.simps, simp add: round_defs sample_c1_def sample_connection_def connection_new_def sample_stream_def,
        subst read_loop.simps, simp add: round_defs)
  have w: "write_loop ?r = (Inr True, sample_c2)"
    by (subst write_loop.simps) (simp add: round_defs sample_c2_def sample_c1_def sample_connection_def connection_new_def sample_stream_def)
  have a: "cn_state sample_c1 = Conn_Active" by (simp add: sample_c1_def sample_connection_def connection_new_def)
  have b: "fr_flush (cn_stream sample_c2) = []" "cn_state sample_c2 = Conn_Active"
    by (simp_all add: sample_c2_def sample_c1_def sample_connection_def connection_new_def sample_stream_def)
  have c: "sample_c2\<lparr>cn_stream := (cn_stream sample_c2)\<lparr>fr_flush := []\<rparr>\<rparr> = sample_c2"
    using b by (simp add: sample_c2_def sample_stream_def)
  show ?thesis
    using r w a b c by (simp add: poll_defs)
qed

lemma sample_reach: "conn_reach sample_connection sample_c2"
  using conn_reach.poll [OF conn_reach.poll [OF conn_reach.start sample_poll1] sample_poll2]
  by (simp add: nominal_def)

lemma sample_c2_facts: "handed sample_c2 = [(7, sample_batch, True)]" "unanswered sample_c2 = []" "unread sample_c2 = []"
  by (simp_all add: handed_def unanswered_def unread_def sample_c2_def sample_c1_def sample_connection_def
      connection_new_def sample_stream_def)

theorem responses_routed_witness:
  "conn_reach sample_connection sample_c2 \<and> handed sample_c2 = [(7, sample_batch, True)] \<and>
     route [7] [(sample_batch, True)] = handed sample_c2 @ route (unanswered sample_c2) (normals (unread sample_c2))"
  using responses_routed [OF sample_reach [unfolded sample_connection_def]] sample_reach
  by (simp add: sample_stream_def sample_requests_def sample_c2_facts)

section \<open>Requests and the farewell\<close>

text \<open>The messages of a request.\<close>

definition request_output :: "request_messages \<Rightarrow> frontend_message list" where
  "request_output r = (case r of Single m \<Rightarrow> [m] | Copy_Request receiver \<Rightarrow> copy_in_items receiver)"

definition requests_output :: "request channel \<Rightarrow> frontend_message list" where
  "requests_output requests = concat (map (request_output \<circ> rq_messages) (chan_items requests))"

text \<open>Written and still to be written.\<close>

definition writing :: "connection \<Rightarrow> frontend_message list" where
  "writing c = fr_sent (cn_stream c) @
     (case cn_pending_request c of None \<Rightarrow> [] | Some r \<Rightarrow> request_output r) @
     requests_output (rx_requests (cn_receiver c))"

definition farewell :: frontend_message where
  "farewell = Raw ([tag_of CHR ''X''] @ frame [])"

definition written :: "frontend_message list \<Rightarrow> connection \<Rightarrow> bool" where
  "written output c \<longleftrightarrow> (rx_terminated (cn_receiver c) \<longrightarrow> chan_items (rx_requests (cn_receiver c)) = []) \<and>
     (case cn_state c of
        Conn_Active \<Rightarrow> writing c = output
      | Conn_Terminating \<Rightarrow> False
      | Conn_Closing \<Rightarrow> fr_sent (cn_stream c) = output @ [farewell] \<and> cn_responses c = [] \<and>
          cn_pending_request c = None \<and> chan_items (rx_requests (cn_receiver c)) = [])"

definition same_writing :: "connection \<Rightarrow> connection \<Rightarrow> bool" where
  "same_writing c c' \<longleftrightarrow> cn_pending_request c' = cn_pending_request c \<and> cn_receiver c' = cn_receiver c \<and>
     cn_state c' = cn_state c \<and> fr_sent (cn_stream c') = fr_sent (cn_stream c) \<and>
     (cn_state c = Conn_Closing \<longrightarrow> cn_responses c' = cn_responses c)"

lemma same_written: "same_writing c c' \<Longrightarrow> written out c \<Longrightarrow> written out c'"
  by (auto simp: same_writing_def written_def writing_def split: conn_state.splits)

lemma same_writing_trans: "same_writing a b \<Longrightarrow> same_writing b c \<Longrightarrow> same_writing a c"
  by (simp add: same_writing_def)

lemma read_normal_writing: "read_normal b rc c = (r, c') \<Longrightarrow> cn_state c = Conn_Active \<Longrightarrow> same_writing c c'"
  by (auto simp: read_normal_def same_writing_def Let_def sender_ready_def split: list.splits prod.splits poll.splits)

lemma poll_response_writing: "poll_response c = (r, c') \<Longrightarrow> same_writing c c'"
  by (auto simp: poll_response_def same_writing_def Let_def split: list.splits prod.splits)

lemma read_item_writing: "read_item m c = (r, c') \<Longrightarrow> cn_state c = Conn_Active \<Longrightarrow> same_writing c c'"
  using read_async_keeps [of "case m of Async a \<Rightarrow> a" c r c'] read_normal_writing
  by (cases m) (auto simp: read_item_def same_writing_def)

lemma read_round_writing:
  assumes "cn_state c = Conn_Active" "read_round c = (r, c')"
  shows "same_writing c c'"
proof -
  obtain p c1 where p: "poll_response c = (p, c1)" by (cases "poll_response c")
  note k = poll_response_writing [OF p]
  have a: "cn_state c1 = Conn_Active" using poll_response_state [OF p] assms(1) by simp
  show ?thesis
    using assms(2) p k same_writing_trans [OF k read_item_writing [OF _ a]]
    by (auto simp: read_round_def split: poll.splits option.splits sum.splits)
qed

text \<open>With the request \<open>r\<close> in the hands of the task.\<close>

definition holding :: "frontend_message list \<Rightarrow> frontend_message list \<Rightarrow> connection \<Rightarrow> bool" where
  "holding output r c \<longleftrightarrow> cn_state c = Conn_Active \<and> cn_pending_request c = None \<and>
     (rx_terminated (cn_receiver c) \<longrightarrow> chan_items (rx_requests (cn_receiver c)) = []) \<and>
     fr_sent (cn_stream c) @ r @ requests_output (rx_requests (cn_receiver c)) = output"

lemma holding_written: "holding output [] c \<Longrightarrow> written output c"
  by (simp add: holding_def written_def writing_def)

lemma requests_output_Cons:
  "chan_poll s = (Ready (Some x), s') \<Longrightarrow> requests_output s = request_output (rq_messages x) @ requests_output s'"
  using chan.item by (fastforce simp: requests_output_def)

lemma requests_output_cong: "chan_items s' = chan_items s \<Longrightarrow> requests_output s' = requests_output s"
  by (simp add: requests_output_def)

lemma poll_request_written:
  assumes "poll_request c = (q, c')" "written output c" "cn_state c = Conn_Active"
  shows "case q of Pending \<Rightarrow> written output c'
    | Ready None \<Rightarrow> holding output [] c' \<and> chan_items (rx_requests (cn_receiver c')) = []
    | Ready (Some r) \<Rightarrow> holding output (request_output r) c'"
proof (cases "cn_pending_request c")
  case (Some r)
  with assms show ?thesis by (auto simp: poll_request_def written_def writing_def holding_def)
next
  case None
  show ?thesis
  proof (cases "rx_terminated (cn_receiver c)")
    case True
    with None assms show ?thesis
      by (auto simp: poll_request_def written_def writing_def holding_def requests_output_def)
  next
    case False
    obtain r rx where r: "chan_poll (rx_requests (cn_receiver c)) = (r, rx)"
      by (cases "chan_poll (rx_requests (cn_receiver c))")
    consider "r = Pending" | "r = Ready None" | x where "r = Ready (Some x)"
      by (cases r; cases "case r of Ready v \<Rightarrow> v | Pending \<Rightarrow> None") auto
    then show ?thesis
    proof cases
      case 1
      with r None False assms requests_output_cong [OF chan.pending [of "rx_requests (cn_receiver c)" rx]] show ?thesis
        by (auto simp: poll_request_def written_def writing_def)
    next
      case 2
      with r None False assms chan.stopped [of "rx_requests (cn_receiver c)" rx] show ?thesis
        by (auto simp: poll_request_def written_def writing_def holding_def requests_output_def)
    next
      case 3
      with r None False assms requests_output_Cons [of "rx_requests (cn_receiver c)" x rx] show ?thesis
        by (auto simp: poll_request_def written_def writing_def holding_def)
    qed
  qed
qed

lemma copy_next_poll: "copy_in_poll r = (Some p, r') \<Longrightarrow> copy_in_next r = (p, r')"
  by (simp add: copy_in_next_def)

lemma start_send_holding:
  assumes "start_send m c = (None, c')" "holding output (m # rest) c"
  shows "holding output rest c'"
  using assms by (simp add: start_send_None holding_def)

lemma write_request_written:
  assumes "write_request r c = (w, c')" "succeeds w" "holding output (request_output r) c"
  shows "written output c'"
proof (cases r)
  case (Single m)
  then have wr: "write_single m c = (w, c')" using assms(1) by (simp add: write_request_def)
  obtain e c1 where s: "start_send m c = (e, c1)" by (cases "start_send m c")
  with wr assms(2) have e: "e = None" by (cases e) (auto simp: write_single_def)
  have h: "holding output [] c1"
    using start_send_holding [OF s [unfolded e]] assms(3) Single by (simp add: request_output_def)
  then have "c' = c1" using wr s e by (simp add: write_single_def holding_def split: if_splits)
  with h show ?thesis by (simp add: holding_written)
next
  case (Copy_Request x)
  then have wr: "write_copy x c = (w, c')" using assms(1) by (simp add: write_request_def)
  obtain p x' where x: "copy_in_poll x = (Some p, x')"
    using copy_in_poll_total [of x] by (metis prod.collapse)
  note law = copy_next_poll [OF x]
  have h: "holding output (copy_in_items x) c" using assms(3) Copy_Request by (simp add: request_output_def)
  have pend: "written output (c2\<lparr>cn_pending_request := Some (Copy_Request x')\<rparr>)"
    if "holding output (copy_in_items x') c2" for c2
    using that by (simp add: holding_def written_def writing_def request_output_def)
  consider "p = Pending" | "p = Ready None" | m where "p = Ready (Some m)"
    by (cases p; cases "case p of Ready v \<Rightarrow> v | Pending \<Rightarrow> None") auto
  then show ?thesis
  proof cases
    case 1
    with wr x have "c' = c\<lparr>cn_pending_request := Some (Copy_Request x')\<rparr>" by (simp add: write_copy_def)
    moreover have "copy_in_items x' = copy_in_items x" using copy_source.pending law 1 by blast
    ultimately show ?thesis using pend h by simp
  next
    case 2
    with wr x have "c' = c" by (simp add: write_copy_def)
    moreover have "copy_in_items x = []" using copy_source.stopped law 2 by blast
    ultimately show ?thesis using h holding_written by simp
  next
    case 3
    then have i: "copy_in_items x = m # copy_in_items x'" using copy_source.item law by blast
    obtain e c1 where s: "start_send m c = (e, c1)" by (cases "start_send m c")
    with wr x 3 assms(2) have e: "e = None" by (cases e) (auto simp: write_copy_def)
    with wr x 3 s have "c' = c1\<lparr>cn_pending_request := Some (Copy_Request x')\<rparr>" by (simp add: write_copy_def)
    with pend start_send_holding [OF s [unfolded e]] h i show ?thesis by simp
  qed
qed

lemma stream_ready_writing: "stream_ready c = (r, c') \<Longrightarrow> same_writing c c'"
  by (auto simp: stream_ready_def same_writing_def Let_def)

lemma farewell_sent:
  assumes "write_request (Single farewell) (c\<lparr>cn_state := Conn_Terminating\<rparr>) = (w, c')" "succeeds w"
    "holding output [] c" "chan_items (rx_requests (cn_receiver c)) = []" "cn_responses c = []"
  shows "written output c'"
proof -
  let ?c = "c\<lparr>cn_state := Conn_Terminating\<rparr>"
  obtain e c1 where s: "start_send farewell ?c = (e, c1)" by (cases "start_send farewell ?c")
  with assms(1,2) have e: "e = None" by (cases e) (auto simp: write_request_def write_single_def)
  with s have c1: "c1 = ?c\<lparr>cn_stream := (cn_stream c)\<lparr>fr_sent := fr_sent (cn_stream c) @ [farewell]\<rparr>\<rparr>"
    by (simp add: start_send_None)
  with assms(1) s e have "c' = c1\<lparr>cn_state := Conn_Closing\<rparr>" by (simp add: write_request_def write_single_def)
  with c1 assms(3-) show ?thesis by (simp add: written_def holding_def requests_output_def)
qed

lemma write_round_written:
  assumes "written output c" "write_round c = (w, c')" "succeeds w"
  shows "written output c'"
proof (cases "cn_state c = Conn_Closing")
  case True
  with assms show ?thesis by (simp add: write_round_def)
next
  case False
  then have act: "cn_state c = Conn_Active" using assms(1) by (auto simp: written_def split: conn_state.splits)
  obtain p c1 where s: "stream_ready c = (p, c1)" by (cases "stream_ready c")
  have w1: "written output c1" "cn_state c1 = Conn_Active"
    using same_written [OF stream_ready_writing [OF s] assms(1)] stream_ready_writing [OF s] act
    by (simp_all add: same_writing_def)
  obtain q c2 where r: "poll_request c1 = (q, c2)" by (cases "poll_request c1")
  note w2 = poll_request_written [OF r w1]
  consider "p = Pending" | "p = Ready (Inr ())" "q = Pending" | "p = Ready (Inr ())" "q = Ready None"
    | x where "p = Ready (Inr ())" "q = Ready (Some x)"
    using assms(2,3) s False
    by (cases p; cases q; cases "case q of Ready v \<Rightarrow> v | Pending \<Rightarrow> None")
      (auto simp: write_round_def split: sum.splits)
  then show ?thesis
  proof cases
    case 1
    with assms(2) s False w1 show ?thesis by (simp add: write_round_def)
  next
    case 2
    with assms(2) s False r w2 show ?thesis by (simp add: write_round_def)
  next
    case 3
    have f: "terminate [] = Some ([tag_of CHR ''X''] @ frame [])" by (simp add: infallible_messages)
    show ?thesis
    proof (cases "cn_responses c2 = []")
      case True
      have "cn_state c2 = Conn_Active" using w2 3 by (simp add: holding_def)
      with assms(2) s False r 3 True f
      have "write_request (Single farewell) (c2\<lparr>cn_state := Conn_Terminating\<rparr>) = (w, c')"
        by (simp add: write_round_def farewell_def)
      with farewell_sent assms(3) w2 3 True show ?thesis by auto
    next
      case False': False
      with assms(2) s False r 3 have "c' = c2" by (simp add: write_round_def)
      with w2 3 holding_written show ?thesis by simp
    qed
  next
    case 4
    with assms(2) s False r have "write_request x c2 = (w, c')" by (simp add: write_round_def)
    with write_request_written assms(3) w2 4 show ?thesis by simp
  qed
qed

interpretation writing: round_invariant "written out" for out
proof
  fix c c' r w f
  show "written out c \<Longrightarrow> cn_state c = Conn_Active \<Longrightarrow> read_round c = (r, c') \<Longrightarrow> succeeds r \<Longrightarrow> written out c'"
    using read_round_writing same_written by blast
  show "written out c \<Longrightarrow> write_round c = (w, c') \<Longrightarrow> succeeds w \<Longrightarrow> written out c'"
    by (rule write_round_written)
  show "written out c \<Longrightarrow> written out (c\<lparr>cn_stream := (cn_stream c)\<lparr>fr_flush := f\<rparr>\<rparr>)"
    by (erule same_written [rotated]) (simp add: same_writing_def)
  show "written out c \<Longrightarrow> written out (c\<lparr>cn_stream := (cn_stream c)\<lparr>fr_close := f\<rparr>\<rparr>)"
    by (erule same_written [rotated]) (simp add: same_writing_def)
qed

text \<open>
  C18: the requests are pipelined complete and in order: what has been written is always a prefix of the
  concatenated messages of the requests, a COPY with all of its messages included, in the order of their arrival. Only
  when everything has been written and answered and no requester is left is the farewell sent, and it is the last message.
\<close>

theorem requests_written:
  assumes "conn_reach (connection_new stream pending parameters requests ready) c" "fr_sent stream = []"
  shows "cn_state c = Conn_Active \<and> (\<exists>rest. requests_output requests = fr_sent (cn_stream c) @ rest) \<or>
    cn_state c = Conn_Closing \<and> fr_sent (cn_stream c) = requests_output requests @ [farewell] \<and> cn_responses c = []"
proof -
  have "written (requests_output requests) (connection_new stream pending parameters requests ready)"
    using assms(2) by (simp add: written_def writing_def connection_new_def)
  from writing.reach_keeps [OF assms(1) this] have w: "written (requests_output requests) c" .
  show ?thesis
  proof (cases "cn_state c")
    case Conn_Active
    with w have "requests_output requests = fr_sent (cn_stream c) @
        ((case cn_pending_request c of None \<Rightarrow> [] | Some r \<Rightarrow> request_output r) @
         requests_output (rx_requests (cn_receiver c)))"
      by (simp add: written_def writing_def)
    with Conn_Active show ?thesis by blast
  qed (use w in \<open>simp_all add: written_def\<close>)
qed

theorem requests_written_witness:
  "conn_reach sample_connection sample_c2 \<and> cn_state sample_c2 = Conn_Active \<and>
     (\<exists>rest. requests_output sample_requests = fr_sent (cn_stream sample_c2) @ rest)"
proof -
  have "cn_state sample_c2 = Conn_Active" by (simp add: sample_c2_def sample_c1_def sample_connection_def connection_new_def)
  with requests_written [OF sample_reach [unfolded sample_connection_def]] sample_reach show ?thesis
    by (auto simp: sample_stream_def)
qed

section \<open>The end of the connection\<close>

text \<open>
  C36: the task ends. When the client is gone, everything is answered, nothing more is read and the socket takes
  what is written to it, one poll sends the farewell and asks the socket to close: \<open>x\<close> is the socket's answer, which is used up. The
  future resolves when the socket has closed, waits while it has not, and fails with its error; in the end no request is taken any more.
\<close>

theorem connection_ends:
  assumes "cn_state c = Conn_Active" "cn_pending_responses c = []" "fr_incoming (cn_stream c) = []"
    and "cn_pending_request c = None" "cn_responses c = []" "rx_requests (cn_receiver c) = Ready None # rest"
    and "fr_ready (cn_stream c) = (\<lambda>_. Ready (Inr ()))" "fr_accepts (cn_stream c) = (\<lambda>_. None)"
    and "fr_close (cn_stream c) = x # script"
  shows "\<exists>c'. poll_message c =
      (case x of Pending \<Rightarrow> Pending | Ready (Inl e) \<Rightarrow> Ready (Inl (Fault (E_Io e))) | Ready (Inr _) \<Rightarrow> Ready (Inr None), c') \<and>
    fr_sent (cn_stream c') = fr_sent (cn_stream c) @ [farewell] \<and> fr_close (cn_stream c') = script \<and>
    cn_state c' = Conn_Closing \<and> (x = Pending \<or> rx_closed (cn_receiver c'))"
proof -
  have f: "terminate [] = Some ([tag_of CHR ''X''] @ frame [])" by (simp add: infallible_messages)
  let ?s = "cn_stream c"
  define c1 where "c1 = c\<lparr>cn_stream := ?s\<lparr>fr_incoming := []\<rparr>\<rparr>"
  define c2 where "c2 = c1\<lparr>cn_stream := (cn_stream c1)\<lparr>fr_polls := Suc (fr_polls ?s)\<rparr>\<rparr>"
  define sent where "sent = (cn_stream c2)\<lparr>fr_sent := fr_sent ?s @ [farewell]\<rparr>"
  have r: "poll_read c = (Inr None, c1)"
    using assms(1-3) by (simp add: c1_def poll_read_def read_loop.simps [of c] round_defs)
  obtain rx where q: "poll_request c2 = (Ready None, c2\<lparr>cn_receiver := rx\<rparr>)"
    using assms(4,6) by (cases "rx_terminated (cn_receiver c)")
      (auto simp: c2_def c1_def poll_request_def intro: that [of "cn_receiver c"])
  define c3 where "c3 = c2\<lparr>cn_stream := sent, cn_receiver := rx, cn_state := Conn_Closing\<rparr>"
  have "stream_ready c1 = (Ready (Inr ()), c2)" using assms(7) by (simp add: stream_ready_def c1_def c2_def)
  then have "write_round c1 = (Again, c3)"
    using q f assms(1,5,8)
    by (simp add: write_round_def write_request_def write_single_def start_send_def c3_def sent_def c2_def c1_def farewell_def)
  moreover have "write_round c3 = (Finished (Inr False), c3)" by (simp add: write_round_def c3_def)
  ultimately have w: "poll_write c1 = (Inr False, c3)"
    by (simp add: poll_write_def write_loop.simps [of c1] write_loop.simps [of c3])
  have "fr_close (cn_stream c3) = x # script" "cn_state c3 = Conn_Closing"
    "fr_sent (cn_stream c3) = fr_sent ?s @ [farewell]"
    using assms(9) by (simp_all add: c3_def sent_def c2_def c1_def)
  with r w show ?thesis
    by (cases x) (auto simp: poll_message_def poll_message_inner_def poll_shutdown_def nominal_def split: sum.split)
qed

theorem connection_ends_witness:
  "\<exists>c. poll_message sample_c2 = (Ready (Inr None), c) \<and> fr_sent (cn_stream c) = [Raw [1], farewell] \<and>
     fr_close (cn_stream c) = [] \<and> cn_state c = Conn_Closing \<and> rx_closed (cn_receiver c)"
  using connection_ends [of sample_c2 "[]" "Ready (Inr ())" "[]"]
  by (simp add: sample_c2_def sample_c1_def sample_connection_def connection_new_def sample_stream_def)

section \<open>No panic\<close>

text \<open>What the codec and the handshake hand over: asynchronous items are of the three asynchronous kinds.\<close>

definition item_legit :: "backend_message \<Rightarrow> bool" where
  "item_legit i = (case i of Async m \<Rightarrow> is_async m | Normal _ _ \<Rightarrow> True)"

definition items_legit :: "connection \<Rightarrow> bool" where
  "items_legit c \<longleftrightarrow> (\<forall>i. Inr i \<in> set (unread c) \<longrightarrow> item_legit i)"

lemma is_async_cases: "is_async m \<Longrightarrow>
    (\<exists>b. m = NoticeResponse b) \<or> (\<exists>b. m = NotificationResponse b) \<or> (\<exists>b. m = ParameterStatus b)"
  by (cases m) (simp_all add: is_async_def is_async_tag_def message_tag_def message_wire_def auth_wire_def)

lemma read_async_no_panic: "is_async m \<Longrightarrow> read_async m c = (Finished (Inl e), c') \<Longrightarrow> e \<noteq> Panic"
  using is_async_cases [of m]
  by (auto simp: read_async_def read_notice_def read_notification_def read_parameter_def map_err_def
      split: sum.splits)

lemma read_normal_no_panic: "read_normal b rc c = (Finished (Inl e), c') \<Longrightarrow> e \<noteq> Panic"
  by (auto simp: read_normal_def Let_def split: list.splits prod.splits poll.splits)

lemma read_normal_unread: "read_normal b rc c = (r, c') \<Longrightarrow> set (unread c') \<subseteq> insert (Inr (Normal b rc)) (set (unread c))"
  by (auto simp: read_normal_def unread_def sender_ready_def Let_def split: list.splits prod.splits poll.splits)

lemma poll_response_other: "poll_response c = (r, c') \<Longrightarrow> set (unread c') \<subseteq> set (unread c)"
proof -
  assume p: "poll_response c = (r, c')"
  consider m where "r = Ready (Some m)" | "r = Pending \<or> r = Ready None" by (cases r; cases "case r of Ready v \<Rightarrow> v | Pending \<Rightarrow> None") auto
  then show ?thesis
  proof cases
    case 1
    from poll_response_unread [OF p [unfolded 1]] show ?thesis by auto
  next
    case 2
    obtain q rx where "chan_poll (fr_incoming (cn_stream c)) = (q, rx)" by (cases "chan_poll (fr_incoming (cn_stream c))")
    with p 2 show ?thesis
      using chan.pending [of "fr_incoming (cn_stream c)" rx] chan.stopped [of "fr_incoming (cn_stream c)" rx]
      by (auto simp: poll_response_def unread_def split: list.splits)
  qed
qed

lemma read_item_legit:
  assumes "items_legit c" "item_legit m" "read_item m c = (r, c')"
  shows "items_legit c' \<and> r \<noteq> Finished (Inl Panic)"
proof (cases m)
  case (Normal b rc)
  with assms(3) have n: "read_normal b rc c = (r, c')" by (simp add: read_item_def)
  from read_normal_unread [OF n] assms(1,2) Normal have "items_legit c'" unfolding items_legit_def by auto
  with read_normal_no_panic [of b rc c Panic c'] n show ?thesis by auto
next
  case (Async a)
  with assms(3) have n: "read_async a c = (r, c')" by (simp add: read_item_def)
  from read_async_keeps [OF n] assms(1) have "items_legit c'" by (auto simp: items_legit_def unread_def)
  with read_async_no_panic [of a c Panic c'] n assms(2) Async show ?thesis by (auto simp: item_legit_def)
qed

lemma read_round_legit:
  assumes "items_legit c" "read_round c = (r, c')"
  shows "items_legit c' \<and> r \<noteq> Finished (Inl Panic)"
proof -
  obtain p c1 where p: "poll_response c = (p, c1)" by (cases "poll_response c")
  have c1: "items_legit c1" using poll_response_other [OF p] assms(1) by (auto simp: items_legit_def)
  show ?thesis
  proof (cases "\<exists>m. p = Ready (Some (Inr m))")
    case True
    then obtain m where m: "p = Ready (Some (Inr m))" ..
    have "item_legit m" using poll_response_unread [OF p [unfolded m]] assms(1) by (simp add: items_legit_def)
    with read_item_legit [OF c1] assms(2) p m show ?thesis by (simp add: read_round_def)
  next
    case False
    with assms(2) p c1 show ?thesis
      by (auto simp: read_round_def split: poll.splits option.splits sum.splits)
  qed
qed

interpretation legit: round_invariant items_legit
proof
  fix c c' r w f
  show "items_legit c \<Longrightarrow> cn_state c = Conn_Active \<Longrightarrow> read_round c = (r, c') \<Longrightarrow> succeeds r \<Longrightarrow> items_legit c'"
    using read_round_legit by blast
  show "items_legit c \<Longrightarrow> write_round c = (w, c') \<Longrightarrow> succeeds w \<Longrightarrow> items_legit c'"
    using write_round_same [of c w c'] by (simp add: items_legit_def unread_def same_reading_def)
  show "items_legit c \<Longrightarrow> items_legit (c\<lparr>cn_stream := (cn_stream c)\<lparr>fr_flush := f\<rparr>\<rparr>)"
    "items_legit c \<Longrightarrow> items_legit (c\<lparr>cn_stream := (cn_stream c)\<lparr>fr_close := f\<rparr>\<rparr>)"
    by (simp_all add: items_legit_def unread_def)
qed

lemma read_loop_no_panic: "items_legit c \<Longrightarrow> fst (read_loop c) \<noteq> Inl Panic"
proof (induction c rule: read_loop.induct)
  case (1 c)
  obtain r c1 where r: "read_round c = (r, c1)" by (cases "read_round c")
  note l = read_round_legit [OF "1.prems" r]
  show ?case
  proof (cases r)
    case Again
    with "1.IH" [OF r [symmetric] Again] l r show ?thesis by (simp add: read_loop.simps [of c])
  next
    case (Finished x)
    with l r show ?thesis by (simp add: read_loop.simps [of c])
  qed
qed

lemma write_request_no_panic: "write_request r c = (w, c') \<Longrightarrow> w \<noteq> Finished (Inl Panic)"
proof (cases r)
  case (Single m)
  then show "write_request r c = (w, c') \<Longrightarrow> w \<noteq> Finished (Inl Panic)"
    by (auto simp: write_request_def write_single_def split: prod.splits option.splits)
next
  case (Copy_Request x)
  obtain p x' where "copy_in_poll x = (Some p, x')" using copy_in_poll_total [of x] by (metis prod.collapse)
  with Copy_Request show "write_request r c = (w, c') \<Longrightarrow> w \<noteq> Finished (Inl Panic)"
    by (auto simp: write_request_def write_copy_def split: prod.splits option.splits poll.splits)
qed

lemma write_round_no_panic: "write_round c = (w, c') \<Longrightarrow> w \<noteq> Finished (Inl Panic)"
proof -
  assume w: "write_round c = (w, c')"
  obtain p c1 where s: "stream_ready c = (p, c1)" by (cases "stream_ready c")
  obtain q c2 where r: "poll_request c1 = (q, c2)" by (cases "poll_request c1")
  have f: "terminate [] = Some ([tag_of CHR ''X''] @ frame [])" by (simp add: infallible_messages)
  show ?thesis
    using w s r f write_request_no_panic
    by (auto simp: write_round_def split: if_splits poll.splits sum.splits option.splits)
qed

lemma write_loop_no_panic: "fst (write_loop c) \<noteq> Inl Panic"
proof (induction c rule: write_loop.induct)
  case (1 c)
  obtain r c1 where r: "write_round c = (r, c1)" by (cases "write_round c")
  show ?case
  proof (cases r)
    case Again
    with "1.IH" [OF r [symmetric] Again] r show ?thesis by (simp add: write_loop.simps [of c])
  next
    case (Finished x)
    with write_round_no_panic [OF r] r show ?thesis by (simp add: write_loop.simps [of c])
  qed
qed

lemma poll_message_no_panic:
  assumes "items_legit c"
  shows "fst (poll_message c) \<noteq> Ready (Inl Panic)"
proof -
  have r: "fst (poll_read c) \<noteq> Inl Panic" using read_loop_no_panic [OF assms] by (simp add: poll_read_def)
  have w: "fst (poll_write d) \<noteq> Inl Panic" for d using write_loop_no_panic by (simp add: poll_write_def)
  have f: "fst (poll_flush d) \<noteq> Inl Panic" for d
    by (auto simp: poll_flush_def Let_def split: prod.splits poll.splits sum.splits)
  have s: "fst (poll_shutdown d) \<noteq> Ready (Inl Panic)" for d
    by (auto simp: poll_shutdown_def Let_def split: prod.splits poll.splits sum.splits)
  obtain x c1 where x: "poll_read c = (x, c1)" by (cases "poll_read c")
  obtain y c2 where y: "poll_write c1 = (y, c2)" by (cases "poll_write c1")
  obtain z c3 where z: "(if y = Inr True then poll_flush c2 else (Inr (), c2)) = (z, c3)" by fastforce
  have n: "x \<noteq> Inl Panic" "y \<noteq> Inl Panic" "z \<noteq> Inl Panic"
    using r w [of c1] f [of c2] x y z by (auto split: if_splits)
  have "fst (poll_message_inner c) \<noteq> Ready (Inl Panic)"
    using n s [of c3] x y z
    by (auto simp: poll_message_inner_def split: sum.splits prod.splits option.splits poll.splits if_splits)
  then show ?thesis by (auto simp: poll_message_def Let_def split: prod.splits)
qed

text \<open>
  No poll panics: the code's \<open>unreachable!\<close> is unreachable as long as the items are those of the codec and of the handshake, and
  the writers it unwraps do not fail; over any run, whatever the server, the socket and the requesters do.
\<close>

lemma connection_never_panics:
  assumes "conn_reach (connection_new stream pending parameters requests ready) c" "list_all item_legit pending"
    "list_all (\<lambda>x. case x of Inl _ \<Rightarrow> True | Inr i \<Rightarrow> item_legit i) (chan_items (fr_incoming stream))"
  shows "fst (poll_message c) \<noteq> Ready (Inl Panic)"
proof -
  have "items_legit (connection_new stream pending parameters requests ready)"
    using assms(2,3) by (auto simp: items_legit_def unread_def connection_new_def list_all_iff)
  from poll_message_no_panic [OF legit.reach_keeps [OF assms(1) this]] show ?thesis .
qed

theorem connection_never_panics_witness: "fst (poll_message sample_c2) \<noteq> Ready (Inl Panic)"
  by (rule connection_never_panics [OF sample_reach [unfolded sample_connection_def]])
    (simp_all add: sample_stream_def item_legit_def)

text \<open>The items of the codec and of the handshake are legitimate.\<close>

lemma item_ok_legit: "item_ok i \<Longrightarrow> item_legit i"
  by (cases i) (simp_all add: item_legit_def)

lemma notices_legit: "list_all item_legit (List.map_filter notice ms)"
proof (induction ms)
  case Nil
  then show ?case by (simp add: map_filter_simps)
next
  case (Cons m ms)
  have "item_legit (Async (NoticeResponse b))" for b
    by (simp add: item_legit_def is_async_def is_async_tag_def message_tag_def message_wire_def)
  with Cons show ?case by (cases m) (simp_all add: map_filter_simps notice_def)
qed

section \<open>The future\<close>

lemma read_item_size: "read_item m c = (Finished (Inr (Some a)), c') \<Longrightarrow> read_size c' = read_size c"
  by (cases m) (auto simp: read_item_def read_normal_def Let_def dest: read_async_size split: list.splits prod.splits poll.splits)

lemma read_round_some: "read_round c = (Finished (Inr (Some a)), c') \<Longrightarrow> read_size c' < read_size c"
  by (auto simp: read_round_def dest!: poll_response_shrinks read_item_size
      split: prod.splits poll.splits option.splits sum.splits)

lemma read_loop_some: "read_loop c = (Inr (Some a), c') \<Longrightarrow> read_size c' < read_size c"
proof (induction c rule: read_loop.induct)
  case (1 c)
  obtain r c1 where r: "read_round c = (r, c1)" by (cases "read_round c")
  show ?case
  proof (cases r)
    case Again
    with r "1.prems" have "read_loop c1 = (Inr (Some a), c')" by (simp add: read_loop.simps [of c])
    from "1.IH" [OF r [symmetric] Again this] read_round_again [of c c1] r Again show ?thesis by simp
  next
    case (Finished x)
    with r "1.prems" read_round_some [of c a c1] show ?thesis by (simp add: read_loop.simps [of c])
  qed
qed

lemma write_loop_size: "write_loop c = (r, c') \<Longrightarrow> read_size c' = read_size c"
proof (induction c rule: write_loop.induct)
  case (1 c)
  obtain w c1 where w: "write_round c = (w, c1)" by (cases "write_round c")
  have e: "read_size c1 = read_size c" using write_round_same [OF w] by (simp add: same_reading_def read_size_def)
  show ?case
  proof (cases w)
    case Again
    with w "1.prems" have "write_loop c1 = (r, c')" by (simp add: write_loop.simps [of c])
    from "1.IH" [OF w [symmetric] Again this] e show ?thesis by simp
  next
    case (Finished x)
    with w "1.prems" e show ?thesis by (simp add: write_loop.simps [of c])
  qed
qed

lemma poll_message_some: "poll_message c = (Ready (Inr (Some a)), c') \<Longrightarrow> read_size c' < read_size c"
proof -
  assume p: "poll_message c = (Ready (Inr (Some a)), c')"
  then have i: "poll_message_inner c = (Ready (Inr (Some a)), c')"
    by (auto simp: poll_message_def nominal_def Let_def split: prod.splits if_splits)
  have f: "read_size d' = read_size d" if "poll_flush d = (z, d')" for d d' z
    using that by (auto simp: poll_flush_def read_size_def Let_def split: prod.splits poll.splits sum.splits)
  obtain x c1 where x: "poll_read c = (x, c1)" by (cases "poll_read c")
  obtain y c2 where y: "poll_write c1 = (y, c2)" by (cases "poll_write c1")
  from i x y have "x = Inr (Some a)" and s: "read_size c' = read_size c2"
    by (auto simp: poll_message_inner_def dest: f split: sum.splits prod.splits option.splits poll.splits if_splits)
  moreover have "read_size c2 = read_size c1" using y write_loop_size by (simp add: poll_write_def)
  ultimately show ?thesis using x read_loop_some [of c a c1] by (auto simp: poll_read_def split: if_splits)
qed

text \<open>The future polls until there is nothing to report; the notices it gets on the way are logged and dropped.\<close>

function connection_future :: "connection \<Rightarrow> (error fault + unit) poll \<times> connection" where
  "connection_future c =
     (case poll_message c of
        (Pending, c) \<Rightarrow> (Pending, c)
      | (Ready (Inl e), c) \<Rightarrow> (Ready (Inl e), c)
      | (Ready (Inr None), c) \<Rightarrow> (Ready (Inr ()), c)
      | (Ready (Inr (Some message)), c) \<Rightarrow> connection_future c)"
  by pat_completeness auto
termination
  by (relation "measure read_size") (auto dest: poll_message_some [OF sym])

end
