(* ===== verification/Net_Addr.thy ===== *)
theory Net_Addr
  imports Db_Error
begin

text \<open>
  What the connection configuration uses of the standard library: \<open>FromStr\<close> of the integers and of
  \<open>IpAddr\<close>, the \<open>Display\<close> of \<open>IpAddr\<close>, \<open>Duration::from_secs\<close>, \<open>char::is_whitespace\<close>, and \<open>str\<close> indexing,
  which panics off the character boundaries. A \<open>str\<close> is its bytes.
\<close>

section \<open>Integers\<close>

text \<open>An unsigned parser accepts a leading \<open>+\<close>, a signed one also a leading \<open>-\<close>.\<close>

definition digits_of :: "nat \<Rightarrow> bytes \<Rightarrow> nat option" where
  "digits_of bound ds =
     (if ds = [] \<or> \<not> list_all ascii_digit ds \<or> digits_value ds > bound then None else Some (digits_value ds))"

definition unsigned_from_str :: "nat \<Rightarrow> bytes \<Rightarrow> nat option" where
  "unsigned_from_str bound s = (case s of [] \<Rightarrow> None | d # t \<Rightarrow> digits_of bound (if d = 43 then t else s))"

definition signed_from_str :: "nat \<Rightarrow> bytes \<Rightarrow> int option" where
  "signed_from_str bound s =
     (case s of
        [] \<Rightarrow> None
      | d # t \<Rightarrow>
          if d = 45 then map_option (\<lambda>n. - int n) (digits_of (Suc bound) t)
          else map_option int (digits_of bound (if d = 43 then t else s)))"

definition u16_from_str :: "bytes \<Rightarrow> u16 option" where
  "u16_from_str s = map_option of_nat (unsigned_from_str 65535 s)"

definition i64_from_str :: "bytes \<Rightarrow> int option" where
  "i64_from_str s = signed_from_str 9223372036854775807 s"

lemma u32_from_str_unsigned: "u32_from_str s = map_option of_nat (unsigned_from_str 4294967295 s)"
  by (cases s) (auto simp: u32_from_str_def unsigned_from_str_def digits_of_def Let_def)

lemma i64_from_str_range:
  "i64_from_str s = Some i \<Longrightarrow> - 9223372036854775808 \<le> i \<and> i \<le> 9223372036854775807"
  by (auto simp: i64_from_str_def signed_from_str_def digits_of_def split: list.splits if_splits)

section \<open>Durations\<close>

datatype duration = Duration (du_secs: u64) (du_nanos: u32)

definition duration_from_secs :: "u64 \<Rightarrow> duration" where
  "duration_from_secs n = Duration n 0"

section \<open>White space\<close>

definition is_whitespace :: "rchar \<Rightarrow> bool" where
  "is_whitespace c \<longleftrightarrow> 9 \<le> c \<and> c \<le> 13 \<or> c = 32 \<or> c = 0x85 \<or> c = 0xA0 \<or> c = 0x1680 \<or>
     0x2000 \<le> c \<and> c \<le> 0x200A \<or> c = 0x2028 \<or> c = 0x2029 \<or> c = 0x202F \<or> c = 0x205F \<or> c = 0x3000"

section \<open>Slices of a string\<close>

text \<open>\<open>None\<close> is the panic of an index that is out of range or inside a character.\<close>

definition is_char_boundary :: "bytes \<Rightarrow> nat \<Rightarrow> bool" where
  "is_char_boundary s i \<longleftrightarrow> i = length s \<or> i < length s \<and> (i = 0 \<or> \<not> is_cont (s ! i))"

definition str_split_at :: "bytes \<Rightarrow> nat \<Rightarrow> (bytes \<times> bytes) option" where
  "str_split_at s i = (if is_char_boundary s i then Some (take i s, drop i s) else None)"

definition str_from :: "bytes \<Rightarrow> nat \<Rightarrow> bytes option" where
  "str_from s i = (if is_char_boundary s i then Some (drop i s) else None)"

definition str_slice :: "bytes \<Rightarrow> nat \<Rightarrow> nat \<Rightarrow> bytes option" where
  "str_slice s i j =
     (if i \<le> j \<and> is_char_boundary s i \<and> is_char_boundary s j then Some (take (j - i) (drop i s)) else None)"

text \<open>\<open>find\<close> of one of some ASCII characters, \<open>split\<close> and \<open>splitn(2, _)\<close> at an ASCII character, \<open>strip_prefix\<close>.\<close>

fun str_find :: "u8 set \<Rightarrow> bytes \<Rightarrow> nat option" where
  "str_find A [] = None"
| "str_find A (b # s) = (if b \<in> A then Some 0 else map_option Suc (str_find A s))"

fun str_split :: "u8 \<Rightarrow> bytes \<Rightarrow> bytes list" where
  "str_split x [] = [[]]"
| "str_split x (b # s) =
     (if b = x then [] # str_split x s
      else (case str_split x s of p # ps \<Rightarrow> (b # p) # ps | [] \<Rightarrow> [[b]]))"

definition str_splitn2 :: "u8 \<Rightarrow> bytes \<Rightarrow> bytes \<times> bytes option" where
  "str_splitn2 x s =
     (takeWhile (\<lambda>b. b \<noteq> x) s,
      (case dropWhile (\<lambda>b. b \<noteq> x) s of [] \<Rightarrow> None | _ # r \<Rightarrow> Some r))"

definition strip_prefix :: "bytes \<Rightarrow> bytes \<Rightarrow> bytes option" where
  "strip_prefix p s = (if take (length p) s = p then Some (drop (length p) s) else None)"

definition starts_with_char :: "u8 \<Rightarrow> bytes \<Rightarrow> bool" where
  "starts_with_char b s \<longleftrightarrow> (case s of [] \<Rightarrow> False | c # _ \<Rightarrow> c = b)"

lemma str_split_nonempty [simp]: "str_split x s \<noteq> []"
  by (induction x s rule: str_split.induct) (auto split: list.splits)

lemma str_split_none: "x \<notin> set s \<Longrightarrow> str_split x s = [s]"
  by (induction x s rule: str_split.induct) auto

lemma str_split_cons: "x \<notin> set p \<Longrightarrow> str_split x (p @ x # s) = p # str_split x s"
  by (induction p) auto

lemma starts_with_simps [simp]: "starts_with_char b [] = False" "starts_with_char b (c # s) \<longleftrightarrow> c = b"
  by (simp_all add: starts_with_char_def)

section \<open>Addresses\<close>

text \<open>
  \<open>IpAddr\<close> holds an array of four octets or of eight groups. Here they are lists, and \<open>ip_ok\<close> says that they have these lengths; what
  is parsed has them (\<open>ip_from_str_ok\<close>).
\<close>

datatype ip_addr = V4 "u8 list" | V6 "u16 list"

primrec ip_ok :: "ip_addr \<Rightarrow> bool" where
  "ip_ok (V4 octets) \<longleftrightarrow> length octets = 4"
| "ip_ok (V6 groups) \<longleftrightarrow> length groups = 8"

text \<open>
  The recursive descent parser of the standard library: a number has a radix, a limit on its digits and a bound, a
  separator stands before every item but the first, and each alternative leaves the input as it was when it fails.
\<close>

definition digit_value :: "nat \<Rightarrow> u8 \<Rightarrow> nat option" where
  "digit_value radix b =
     (let v = (if 48 \<le> unat b \<and> unat b \<le> 57 then Some (unat b - 48)
               else if 97 \<le> unat b \<and> unat b \<le> 122 then Some (unat b - 87)
               else if 65 \<le> unat b \<and> unat b \<le> 90 then Some (unat b - 55)
               else None)
      in case v of Some n \<Rightarrow> if n < radix then Some n else None | None \<Rightarrow> None)"

definition read_number :: "nat \<Rightarrow> nat \<Rightarrow> bool \<Rightarrow> nat \<Rightarrow> bytes \<Rightarrow> (nat \<times> bytes) option" where
  "read_number radix max_digits allow_zero_prefix bound s =
     (let ds = takeWhile (\<lambda>b. digit_value radix b \<noteq> None) s;
          v = foldl (\<lambda>n b. radix * n + the (digit_value radix b)) 0 ds
      in if ds = [] \<or> length ds > max_digits \<or> v > bound
            \<or> \<not> allow_zero_prefix \<and> hd ds = 48 \<and> length ds > 1 then None
         else Some (v, drop (length ds) s))"

definition read_separated :: "u8 \<Rightarrow> nat \<Rightarrow> (bytes \<Rightarrow> ('a \<times> bytes) option) \<Rightarrow> bytes \<Rightarrow> ('a \<times> bytes) option" where
  "read_separated sep i inner s =
     (if i = 0 then inner s
      else (case s of b # t \<Rightarrow> if b = sep then inner t else None | [] \<Rightarrow> None))"

fun read_octets :: "nat \<Rightarrow> nat \<Rightarrow> bytes \<Rightarrow> (u8 list \<times> bytes) option" where
  "read_octets i 0 s = Some ([], s)"
| "read_octets i (Suc n) s =
     (case read_separated 46 i (read_number 10 3 False 255) s of
        None \<Rightarrow> None
      | Some (v, s) \<Rightarrow> map_option (map_prod ((#) (of_nat v)) id) (read_octets (Suc i) n s))"

definition read_ipv4 :: "bytes \<Rightarrow> (u8 list \<times> bytes) option" where
  "read_ipv4 s = read_octets 0 4 s"

text \<open>\<open>read_groups\<close>: the groups read up to \<open>limit\<close>, and whether an embedded IPv4 address was the last.\<close>

fun read_groups :: "nat \<Rightarrow> nat \<Rightarrow> bytes \<Rightarrow> u16 list \<times> bool \<times> bytes" where
  "read_groups i 0 s = ([], False, s)"
| "read_groups i (Suc n) s =
     (case (if n > 0 then read_separated 58 i read_ipv4 s else None) of
        Some (o4, s) \<Rightarrow>
          ([of_nat (unat (o4 ! 0) * 256 + unat (o4 ! 1)), of_nat (unat (o4 ! 2) * 256 + unat (o4 ! 3))], True, s)
      | None \<Rightarrow>
          (case read_separated 58 i (read_number 16 4 True 65535) s of
             None \<Rightarrow> ([], False, s)
           | Some (g, s) \<Rightarrow> (let (gs, v4, s) = read_groups (Suc i) n s in (of_nat g # gs, v4, s))))"

definition read_ipv6 :: "bytes \<Rightarrow> (u16 list \<times> bytes) option" where
  "read_ipv6 s =
     (let (hd_groups, hd_v4, r) = read_groups 0 8 s
      in if length hd_groups = 8 then Some (hd_groups, r)
         else if hd_v4 then None
         else (case strip_prefix (ascii ''::'') r of
                 Some r \<Rightarrow>
                   (let (tl_groups, _, r) = read_groups 0 (7 - length hd_groups) r
                    in Some (hd_groups @ replicate (8 - length hd_groups - length tl_groups) 0 @ tl_groups, r))
               | None \<Rightarrow> None))"

definition ip_from_str :: "bytes \<Rightarrow> ip_addr option" where
  "ip_from_str s =
     (case read_ipv4 s of
        Some (o4, r) \<Rightarrow> if r = [] then Some (V4 o4) else None
      | None \<Rightarrow>
          (case read_ipv6 s of
             Some (gs, r) \<Rightarrow> if r = [] then Some (V6 gs) else None
           | None \<Rightarrow> None))"

lemma read_octets_length: "read_octets i n s = Some (os, r) \<Longrightarrow> length os = n"
  by (induction i n s arbitrary: os r rule: read_octets.induct) (auto split: option.splits)

lemma read_groups_length: "read_groups i n s = (gs, v4, r) \<Longrightarrow> length gs \<le> n"
  by (induction i n s arbitrary: gs v4 r rule: read_groups.induct) (auto split: option.splits prod.splits if_splits)

lemma read_ipv6_length:
  assumes "read_ipv6 s = Some (gs, r)"
  shows "length gs = 8"
proof -
  obtain hs v4 t where h: "read_groups 0 8 s = (hs, v4, t)" by (cases "read_groups 0 8 s")
  show ?thesis
  proof (cases "length hs = 8")
    case True
    with assms h show ?thesis by (simp add: read_ipv6_def)
  next
    case False
    with assms h obtain u where u: "strip_prefix (ascii ''::'') t = Some u" "\<not> v4"
      by (auto simp: read_ipv6_def split: if_splits option.splits)
    obtain ts w r' where t: "read_groups 0 (7 - length hs) u = (ts, w, r')" by (cases "read_groups 0 (7 - length hs) u")
    from read_groups_length [OF h] read_groups_length [OF t] False assms h u t show ?thesis
      by (auto simp: read_ipv6_def)
  qed
qed

lemma ip_from_str_ok:
  assumes "ip_from_str s = Some a"
  shows "ip_ok a"
proof (cases "read_ipv4 s")
  case None
  with assms obtain gs where "read_ipv6 s = Some (gs, [])" "a = V6 gs"
    by (auto simp: ip_from_str_def split: option.splits if_splits)
  with read_ipv6_length show ?thesis by simp
next
  case (Some x)
  with assms obtain os where "read_octets 0 4 s = Some (os, [])" "a = V4 os"
    by (cases x) (auto simp: ip_from_str_def read_ipv4_def split: if_splits)
  with read_octets_length show ?thesis by simp
qed

text \<open>\<open>Display\<close>: the longest run of at least two zero groups is printed as two colons.\<close>

fun join :: "string \<Rightarrow> string list \<Rightarrow> string" where
  "join sep [] = []"
| "join sep [x] = x"
| "join sep (x # xs) = x @ sep @ join sep xs"

definition hex_digit :: "nat \<Rightarrow> char" where
  "hex_digit n = char_of (if n < 10 then 48 + n else 87 + n)"

fun show_hex :: "nat \<Rightarrow> string" where
  "show_hex n = (if n < 16 then [hex_digit n] else show_hex (n div 16) @ [hex_digit (n mod 16)])"

declare show_hex.simps [simp del]

fun zero_span :: "nat \<Rightarrow> u16 list \<Rightarrow> nat \<times> nat \<Rightarrow> nat \<times> nat \<Rightarrow> nat \<times> nat" where
  "zero_span i [] current longest = longest"
| "zero_span i (g # gs) current longest =
     (if g = 0 then
        (let current = (if snd current = 0 then i else fst current, Suc (snd current))
         in zero_span (Suc i) gs current (if snd current > snd longest then current else longest))
      else zero_span (Suc i) gs (0, 0) longest)"

definition show_ipv4 :: "u8 list \<Rightarrow> string" where
  "show_ipv4 o4 = join ''.'' (map (\<lambda>b. show_nat (unat b)) o4)"

definition show_groups :: "u16 list \<Rightarrow> string" where
  "show_groups gs = join '':'' (map (\<lambda>g. show_hex (unat g)) gs)"

definition show_ipv6 :: "u16 list \<Rightarrow> string" where
  "show_ipv6 gs =
     (if take 6 gs = [0, 0, 0, 0, 0, 65535] then
        ''::ffff:'' @ show_ipv4 (concat (map be_word (drop 6 gs)))
      else
        (let (start, len) = zero_span 0 gs (0, 0) (0, 0)
         in if len > 1 then show_groups (take start gs) @ ''::'' @ show_groups (drop (start + len) gs)
            else show_groups gs))"

fun ip_to_string :: "ip_addr \<Rightarrow> bytes" where
  "ip_to_string (V4 o4) = ascii (show_ipv4 o4)"
| "ip_to_string (V6 gs) = ascii (show_ipv6 gs)"

end
