(* ===== verification/Config.thy ===== *)
theory Config
  imports Net_Addr Startup
begin

text \<open>
  The connection configuration (\<open>config.rs\<close>, \<open>keepalive.rs\<close>): the \<open>Config\<close> record with its setters, \<open>param\<close>, which sets
  an option from its text, and the two parsers of connection strings, \<open>Parser\<close> for key-value strings and \<open>UrlParser\<close>.
  \<open>Config\<close> extends the part of it that the handshake reads. The operating system is a Unix.

  \<open>percent_decode\<close> of the \<open>percent_encoding\<close> crate is the argument \<open>pd\<close>. A setter takes and returns the whole configuration;
  a parser takes its state and returns an error or a result and the new state. \<open>Panic\<close> is a panic of the code.
\<close>

section \<open>The configuration\<close>

datatype target_session_attrs = Any | Read_Write | Read_Only
datatype load_balance_hosts = Lb_Disable | Lb_Random

text \<open>A path is its bytes, which need not be UTF-8.\<close>

datatype host = Tcp bytes | Unix bytes

record keepalive_config =
  ka_idle :: duration
  ka_interval :: "duration option"
  ka_retries :: "u32 option"

record config = startup_config +
  cf_host :: "host list"
  cf_hostaddr :: "ip_addr list"
  cf_port :: "u16 list"
  cf_connect_timeout :: "duration option"
  cf_tcp_user_timeout :: "duration option"
  cf_keepalives :: bool
  cf_keepalive_config :: keepalive_config
  cf_target_session_attrs :: target_session_attrs
  cf_load_balance_hosts :: load_balance_hosts

definition config_new :: config where
  "config_new =
     \<lparr>cf_user = None, cf_password = None, cf_dbname = None, cf_options = None, cf_application_name = None,
      cf_ssl_mode = Ssl_Prefer, cf_ssl_negotiation = Neg_Postgres, cf_channel_binding = Cb_Prefer,
      cf_opengauss_compat = False, cf_host = [], cf_hostaddr = [], cf_port = [], cf_connect_timeout = None,
      cf_tcp_user_timeout = None, cf_keepalives = True,
      cf_keepalive_config = \<lparr>ka_idle = duration_from_secs (2 * 60 * 60), ka_interval = None, ka_retries = None\<rparr>,
      cf_target_session_attrs = Any, cf_load_balance_hosts = Lb_Disable\<rparr>"

subsection \<open>Setters\<close>

definition set_user :: "bytes \<Rightarrow> config \<Rightarrow> config" where
  "set_user x c = c\<lparr>cf_user := Some x\<rparr>"

definition set_password :: "bytes \<Rightarrow> config \<Rightarrow> config" where
  "set_password x c = c\<lparr>cf_password := Some x\<rparr>"

definition set_dbname :: "bytes \<Rightarrow> config \<Rightarrow> config" where
  "set_dbname x c = c\<lparr>cf_dbname := Some x\<rparr>"

definition set_options :: "bytes \<Rightarrow> config \<Rightarrow> config" where
  "set_options x c = c\<lparr>cf_options := Some x\<rparr>"

definition set_application_name :: "bytes \<Rightarrow> config \<Rightarrow> config" where
  "set_application_name x c = c\<lparr>cf_application_name := Some x\<rparr>"

definition set_ssl_mode :: "ssl_mode \<Rightarrow> config \<Rightarrow> config" where
  "set_ssl_mode x c = c\<lparr>cf_ssl_mode := x\<rparr>"

definition set_ssl_negotiation :: "ssl_negotiation \<Rightarrow> config \<Rightarrow> config" where
  "set_ssl_negotiation x c = c\<lparr>cf_ssl_negotiation := x\<rparr>"

definition add_host_path :: "bytes \<Rightarrow> config \<Rightarrow> config" where
  "add_host_path x c = c\<lparr>cf_host := cf_host c @ [Unix x]\<rparr>"

definition add_host :: "bytes \<Rightarrow> config \<Rightarrow> config" where
  "add_host x c =
     (if starts_with_char 47 x then add_host_path x c else c\<lparr>cf_host := cf_host c @ [Tcp x]\<rparr>)"

definition add_hostaddr :: "ip_addr \<Rightarrow> config \<Rightarrow> config" where
  "add_hostaddr x c = c\<lparr>cf_hostaddr := cf_hostaddr c @ [x]\<rparr>"

definition add_port :: "u16 \<Rightarrow> config \<Rightarrow> config" where
  "add_port x c = c\<lparr>cf_port := cf_port c @ [x]\<rparr>"

definition set_connect_timeout :: "duration \<Rightarrow> config \<Rightarrow> config" where
  "set_connect_timeout x c = c\<lparr>cf_connect_timeout := Some x\<rparr>"

definition set_tcp_user_timeout :: "duration \<Rightarrow> config \<Rightarrow> config" where
  "set_tcp_user_timeout x c = c\<lparr>cf_tcp_user_timeout := Some x\<rparr>"

definition set_keepalives :: "bool \<Rightarrow> config \<Rightarrow> config" where
  "set_keepalives x c = c\<lparr>cf_keepalives := x\<rparr>"

definition set_keepalives_idle :: "duration \<Rightarrow> config \<Rightarrow> config" where
  "set_keepalives_idle x c = c\<lparr>cf_keepalive_config := (cf_keepalive_config c)\<lparr>ka_idle := x\<rparr>\<rparr>"

definition set_keepalives_interval :: "duration \<Rightarrow> config \<Rightarrow> config" where
  "set_keepalives_interval x c = c\<lparr>cf_keepalive_config := (cf_keepalive_config c)\<lparr>ka_interval := Some x\<rparr>\<rparr>"

definition set_keepalives_retries :: "u32 \<Rightarrow> config \<Rightarrow> config" where
  "set_keepalives_retries x c = c\<lparr>cf_keepalive_config := (cf_keepalive_config c)\<lparr>ka_retries := Some x\<rparr>\<rparr>"

definition set_target_session_attrs :: "target_session_attrs \<Rightarrow> config \<Rightarrow> config" where
  "set_target_session_attrs x c = c\<lparr>cf_target_session_attrs := x\<rparr>"

definition set_channel_binding :: "channel_binding_mode \<Rightarrow> config \<Rightarrow> config" where
  "set_channel_binding x c = c\<lparr>cf_channel_binding := x\<rparr>"

definition set_load_balance_hosts :: "load_balance_hosts \<Rightarrow> config \<Rightarrow> config" where
  "set_load_balance_hosts x c = c\<lparr>cf_load_balance_hosts := x\<rparr>"

definition set_opengauss_compat :: "bool \<Rightarrow> config \<Rightarrow> config" where
  "set_opengauss_compat x c = c\<lparr>cf_opengauss_compat := x\<rparr>"

lemmas setter_defs = set_user_def set_password_def set_dbname_def set_options_def set_application_name_def
  set_ssl_mode_def set_ssl_negotiation_def add_host_path_def add_host_def add_hostaddr_def add_port_def
  set_connect_timeout_def set_tcp_user_timeout_def set_keepalives_def set_keepalives_idle_def
  set_keepalives_interval_def set_keepalives_retries_def set_target_session_attrs_def set_channel_binding_def
  set_load_balance_hosts_def set_opengauss_compat_def

section \<open>An option from its text\<close>

definition invalid_value :: "string \<Rightarrow> error" where
  "invalid_value key = E_ConfigParse (InvalidValue key)"

text \<open>A value that is one of some words, and the loop over the parts of a list separated by commas.\<close>

definition choice :: "string \<Rightarrow> (string \<times> 'a) list \<Rightarrow> bytes \<Rightarrow> error + 'a" where
  "choice key table value =
     ok_or (invalid_value key) (map_of (map (\<lambda>(word, x). (ascii word, x)) table) value)"

fun each :: "('a \<Rightarrow> 'c \<Rightarrow> 'e + 'c) \<Rightarrow> 'a list \<Rightarrow> 'c \<Rightarrow> 'e + 'c" where
  "each f [] c = Inr c"
| "each f (x # xs) c = bind_res (f x c) (each f xs)"

definition param_hostaddr :: "bytes \<Rightarrow> config \<Rightarrow> error + config" where
  "param_hostaddr part c = bind_res (ok_or (invalid_value ''hostaddr'') (ip_from_str part)) (\<lambda>a. Inr (add_hostaddr a c))"

definition param_port :: "bytes \<Rightarrow> config \<Rightarrow> error + config" where
  "param_port part c =
     bind_res (if part = [] then Inr 5432 else ok_or (invalid_value ''port'') (u16_from_str part)) (\<lambda>p.
     Inr (add_port p c))"

definition param_seconds :: "string \<Rightarrow> (duration \<Rightarrow> config \<Rightarrow> config) \<Rightarrow> bytes \<Rightarrow> config \<Rightarrow> error + config" where
  "param_seconds key setter value c =
     bind_res (ok_or (invalid_value key) (i64_from_str value)) (\<lambda>n.
     Inr (if n > 0 then setter (duration_from_secs (of_int n)) c else c))"

definition param :: "bytes \<Rightarrow> bytes \<Rightarrow> config \<Rightarrow> error + config" where
  "param key value c =
     (if key = ascii ''user'' then Inr (set_user value c)
      else if key = ascii ''password'' then Inr (set_password value c)
      else if key = ascii ''dbname'' then Inr (set_dbname value c)
      else if key = ascii ''options'' then Inr (set_options value c)
      else if key = ascii ''application_name'' then Inr (set_application_name value c)
      else if key = ascii ''sslmode'' then
        bind_res (choice ''sslmode'' [(''disable'', Ssl_Disable), (''prefer'', Ssl_Prefer), (''require'', Ssl_Require)] value)
          (\<lambda>m. Inr (set_ssl_mode m c))
      else if key = ascii ''sslnegotiation'' then
        bind_res (choice ''sslnegotiation'' [(''postgres'', Neg_Postgres), (''direct'', Neg_Direct)] value)
          (\<lambda>m. Inr (set_ssl_negotiation m c))
      else if key = ascii ''host'' then each (\<lambda>h c. Inr (add_host h c)) (str_split 44 value) c
      else if key = ascii ''hostaddr'' then each param_hostaddr (str_split 44 value) c
      else if key = ascii ''port'' then each param_port (str_split 44 value) c
      else if key = ascii ''connect_timeout'' then param_seconds ''connect_timeout'' set_connect_timeout value c
      else if key = ascii ''tcp_user_timeout'' then param_seconds ''tcp_user_timeout'' set_tcp_user_timeout value c
      else if key = ascii ''keepalives'' then
        bind_res (ok_or (invalid_value ''keepalives'') (unsigned_from_str 18446744073709551615 value))
          (\<lambda>n. Inr (set_keepalives (n \<noteq> 0) c))
      else if key = ascii ''keepalives_idle'' then param_seconds ''keepalives_idle'' set_keepalives_idle value c
      else if key = ascii ''keepalives_interval'' then param_seconds ''keepalives_interval'' set_keepalives_interval value c
      else if key = ascii ''keepalives_retries'' then
        bind_res (ok_or (invalid_value ''keepalives_retries'') (u32_from_str value)) (\<lambda>n. Inr (set_keepalives_retries n c))
      else if key = ascii ''target_session_attrs'' then
        bind_res (choice ''target_session_attrs'' [(''any'', Any), (''read-write'', Read_Write), (''read-only'', Read_Only)] value)
          (\<lambda>a. Inr (set_target_session_attrs a c))
      else if key = ascii ''channel_binding'' then
        bind_res (choice ''channel_binding'' [(''disable'', Cb_Disable), (''prefer'', Cb_Prefer), (''require'', Cb_Require)] value)
          (\<lambda>b. Inr (set_channel_binding b c))
      else if key = ascii ''load_balance_hosts'' then
        bind_res (choice ''load_balance_hosts'' [(''disable'', Lb_Disable), (''random'', Lb_Random)] value)
          (\<lambda>l. Inr (set_load_balance_hosts l c))
      else if key = ascii ''opengauss_compat'' then
        bind_res (choice ''opengauss_compat'' [(''true'', True), (''1'', True), (''on'', True), (''false'', False), (''0'', False),
            (''off'', False)] value)
          (\<lambda>b. Inr (set_opengauss_compat b c))
      else Inl (E_ConfigParse (UnknownOption key)))"

section \<open>Key-value strings\<close>

text \<open>
  \<open>Parser\<close> has the fields of the SCRAM parser, and its \<open>take_while\<close> is the same code: the record and the function are shared.
\<close>

definition config_msg :: "string \<Rightarrow> error" where
  "config_msg m = E_ConfigParse (Config_Msg m)"

definition kv_eat :: "char \<Rightarrow> parser \<Rightarrow> error + parser" where
  "kv_eat target p =
     (case p_it p of
        (i, c) # it \<Rightarrow>
          if c = of_char target then Inr (p\<lparr>p_it := it\<rparr>)
          else Inl (config_msg (''unexpected character at byte '' @ show_nat i @ '': expected `'' @ [target] @
                 ''` but got `'' @ text_of c @ ''`''))
      | [] \<Rightarrow> Inl (config_msg ''unexpected EOF''))"

definition eat_if :: "char \<Rightarrow> parser \<Rightarrow> bool \<times> parser" where
  "eat_if target p =
     (case p_it p of
        (i, c) # it \<Rightarrow> if c = of_char target then (True, p\<lparr>p_it := it\<rparr>) else (False, p)
      | [] \<Rightarrow> (False, p))"

definition skip_ws :: "parser \<Rightarrow> parser" where
  "skip_ws p = snd (take_while is_whitespace p)"

definition keyword_char :: "rchar \<Rightarrow> bool" where
  "keyword_char c \<longleftrightarrow> \<not> is_whitespace c \<and> c \<noteq> of_char CHR ''=''"

definition keyword :: "parser \<Rightarrow> bytes option \<times> parser" where
  "keyword p = (let (s, p) = take_while keyword_char p in (if s = [] then None else Some s, p))"

fun simple_loop :: "(nat \<times> rchar) list \<Rightarrow> rstr \<Rightarrow> rstr \<times> (nat \<times> rchar) list" where
  "simple_loop [] value = (value, [])"
| "simple_loop ((i, c) # it) value =
     (if is_whitespace c then (value, (i, c) # it)
      else if c = of_char CHR 0x5C then
        (case it of
           next_char # it \<Rightarrow> simple_loop it (value @ [snd next_char])
         | [] \<Rightarrow> (value, []))
      else simple_loop it (value @ [c]))"

definition simple_value :: "parser \<Rightarrow> error + (bytes \<times> parser)" where
  "simple_value p =
     (let (value, it) = simple_loop (p_it p) []
      in if value = [] then Inl (config_msg ''unexpected EOF'') else Inr (utf8_encode value, p\<lparr>p_it := it\<rparr>))"

fun quoted_loop :: "(nat \<times> rchar) list \<Rightarrow> rstr \<Rightarrow> (rstr \<times> (nat \<times> rchar) list) option" where
  "quoted_loop [] value = None"
| "quoted_loop ((i, c) # it) value =
     (if c = of_char CHR 0x27 then Some (value, (i, c) # it)
      else if c = of_char CHR 0x5C then
        (case it of
           next_char # it \<Rightarrow> quoted_loop it (value @ [snd next_char])
         | [] \<Rightarrow> None)
      else quoted_loop it (value @ [c]))"

definition quoted_value :: "parser \<Rightarrow> error + (bytes \<times> parser)" where
  "quoted_value p =
     (case quoted_loop (p_it p) [] of
        Some (value, it) \<Rightarrow> Inr (utf8_encode value, p\<lparr>p_it := it\<rparr>)
      | None \<Rightarrow> Inl (config_msg ''unterminated quoted connection parameter value''))"

definition value_of :: "parser \<Rightarrow> error + (bytes \<times> parser)" where
  "value_of p =
     (let (quoted, p) = eat_if CHR 0x27 p
      in if quoted then
           bind_res (quoted_value p) (\<lambda>(value, p).
           bind_res (kv_eat CHR 0x27 p) (\<lambda>p. Inr (value, p)))
         else simple_value p)"

definition parameter :: "parser \<Rightarrow> error + ((bytes \<times> bytes) option \<times> parser)" where
  "parameter p =
     (case keyword (skip_ws p) of
        (None, p) \<Rightarrow> Inr (None, p)
      | (Some key, p) \<Rightarrow>
          bind_res (kv_eat CHR ''='' (skip_ws p)) (\<lambda>p.
          bind_res (value_of (skip_ws p)) (\<lambda>(value, p).
          Inr (Some (key, value), p))))"

lemma simple_loop_shorter: "length (snd (simple_loop it acc)) \<le> length it"
proof (induction it acc rule: simple_loop.induct)
  case (1 acc)
  show ?case by simp
next
  case (2 i c it acc)
  then show ?case by (cases it) (auto intro: le_SucI)
qed

lemma quoted_loop_shorter: "quoted_loop it acc = Some (v, it') \<Longrightarrow> length it' \<le> length it"
  by (induction it acc rule: quoted_loop.induct) (auto split: if_splits list.splits)

lemma take_loop_shorter: "length (snd (take_loop s i f it)) \<le> length it"
  by (induction s i f it rule: take_loop.induct) auto

lemma take_while_shorter: "length (p_it (snd (take_while f p))) \<le> length (p_it p)"
proof (cases "p_it p")
  case Nil
  then show ?thesis by (simp add: take_while_def)
next
  case (Cons x it)
  then show ?thesis
    using take_loop_shorter [of "p_s p" "fst x" f "p_it p"]
    by (cases x) (auto simp: take_while_def Let_def split: prod.splits)
qed

lemma skip_ws_shorter: "length (p_it (skip_ws p)) \<le> length (p_it p)"
  by (simp add: skip_ws_def take_while_shorter)

lemma kv_eat_shorter: "kv_eat t p = Inr p' \<Longrightarrow> length (p_it p') < length (p_it p)"
  by (auto simp: kv_eat_def split: list.splits if_splits)

lemma value_of_shorter: "value_of p = Inr (v, p') \<Longrightarrow> length (p_it p') \<le> length (p_it p)"
proof (cases "fst (eat_if CHR 0x27 p)")
  case True
  assume v: "value_of p = Inr (v, p')"
  from True obtain x it where it: "p_it p = x # it" "eat_if CHR 0x27 p = (True, p\<lparr>p_it := it\<rparr>)"
    by (auto simp: eat_if_def split: list.splits if_splits)
  with v obtain it' v' where "quoted_loop it [] = Some (v', it')" "kv_eat CHR 0x27 (p\<lparr>p_it := it'\<rparr>) = Inr p'"
    by (auto simp: value_of_def quoted_value_def split: option.splits)
  then show ?thesis using it quoted_loop_shorter kv_eat_shorter by fastforce
next
  case False
  assume "value_of p = Inr (v, p')"
  with False have "simple_value p = Inr (v, p')"
    by (auto simp: value_of_def eat_if_def split: list.splits if_splits)
  then show ?thesis
    using simple_loop_shorter [of "p_it p" "[]"]
    by (auto simp: simple_value_def Let_def split: prod.splits if_splits)
qed

lemma parameter_shorter:
  assumes "parameter p = Inr (Some kv, p')"
  shows "length (p_it p') < length (p_it p)"
proof -
  obtain k p1 where k: "keyword (skip_ws p) = (Some k, p1)"
    using assms by (auto simp: parameter_def split: prod.splits option.splits)
  then have 1: "length (p_it p1) \<le> length (p_it p)"
    using take_while_shorter [of keyword_char "skip_ws p"] skip_ws_shorter [of p]
    by (auto simp: keyword_def Let_def split: prod.splits)
  obtain p2 v where 2: "kv_eat CHR ''='' (skip_ws p1) = Inr p2" "value_of (skip_ws p2) = Inr (v, p')"
    using assms k by (auto simp: parameter_def)
  show ?thesis
    using 1 kv_eat_shorter [OF 2(1)] value_of_shorter [OF 2(2)] skip_ws_shorter [of p1] skip_ws_shorter [of p2]
    by linarith
qed

function parse_loop :: "parser \<Rightarrow> config \<Rightarrow> error + config" where
  "parse_loop p c =
     bind_res (parameter p) (\<lambda>(kv, p).
     case kv of
       None \<Rightarrow> Inr c
     | Some (key, value) \<Rightarrow> bind_res (param key value c) (parse_loop p))"
  by pat_completeness auto
termination
  by (relation "measure (\<lambda>(p, c). length (p_it p))") (auto dest: parameter_shorter)

declare parse_loop.simps [simp del]

definition kv_parse :: "bytes \<Rightarrow> error + config" where
  "kv_parse s = parse_loop (parser_new s) config_new"

section \<open>URLs\<close>

record url_parser =
  u_s :: bytes
  u_config :: config

type_synonym 'a url_op = "url_parser \<Rightarrow> error fault + ('a \<times> url_parser)"

text \<open>A slice that panics off the character boundaries.\<close>

definition or_panic :: "'a option \<Rightarrow> error fault + 'a" where
  "or_panic x = ok_or Panic x"

definition fallible :: "error + 'a \<Rightarrow> error fault + 'a" where
  "fallible r = map_err Fault r"

definition remove_url_prefix :: "bytes \<Rightarrow> bytes option" where
  "remove_url_prefix s =
     (case strip_prefix (ascii ''postgres://'') s of
        Some r \<Rightarrow> Some r
      | None \<Rightarrow> strip_prefix (ascii ''postgresql://'') s)"

definition take_until :: "u8 set \<Rightarrow> bytes option url_op" where
  "take_until ends u =
     (case str_find ends (u_s u) of
        Some pos \<Rightarrow> bind_res (or_panic (str_split_at (u_s u) pos)) (\<lambda>(hd, tl). Inr (Some hd, u\<lparr>u_s := tl\<rparr>))
      | None \<Rightarrow> Inr (None, u))"

definition take_all :: "url_parser \<Rightarrow> bytes \<times> url_parser" where
  "take_all u = (u_s u, u\<lparr>u_s := []\<rparr>)"

definition until_or_all :: "u8 set \<Rightarrow> bytes url_op" where
  "until_or_all ends u =
     bind_res (take_until ends u) (\<lambda>(r, u). Inr (case r of Some x \<Rightarrow> (x, u) | None \<Rightarrow> take_all u))"

definition eat_byte :: "url_parser \<Rightarrow> error fault + url_parser" where
  "eat_byte u = bind_res (or_panic (str_from (u_s u) 1)) (\<lambda>r. Inr (u\<lparr>u_s := r\<rparr>))"

definition url_decode :: "(bytes \<Rightarrow> bytes) \<Rightarrow> bytes \<Rightarrow> error + bytes" where
  "url_decode pd s = (if utf8_valid (pd s) then Inr (pd s) else Inl (E_ConfigParse Config_Utf8))"

definition url_param :: "bytes \<Rightarrow> bytes \<Rightarrow> url_parser \<Rightarrow> error fault + url_parser" where
  "url_param key value u = bind_res (fallible (param key value (u_config u))) (\<lambda>c. Inr (u\<lparr>u_config := c\<rparr>))"

definition host_param :: "(bytes \<Rightarrow> bytes) \<Rightarrow> bytes \<Rightarrow> url_parser \<Rightarrow> error fault + url_parser" where
  "host_param pd s u =
     (let decoded = pd s
      in if starts_with_char 47 decoded then Inr (u\<lparr>u_config := add_host_path decoded (u_config u)\<rparr>)
         else if utf8_valid decoded then Inr (u\<lparr>u_config := add_host decoded (u_config u)\<rparr>)
         else Inl (Fault (E_ConfigParse Config_Utf8)))"

definition parse_credentials :: "(bytes \<Rightarrow> bytes) \<Rightarrow> url_parser \<Rightarrow> error fault + url_parser" where
  "parse_credentials pd u =
     bind_res (take_until {64} u) (\<lambda>(creds, u).
     case creds of
       None \<Rightarrow> Inr u
     | Some creds \<Rightarrow>
         bind_res (eat_byte u) (\<lambda>u.
         let (user, pass) = str_splitn2 58 creds
         in bind_res (fallible (url_decode pd user)) (\<lambda>user.
            let u = u\<lparr>u_config := set_user user (u_config u)\<rparr>
            in Inr (case pass of
                      Some p \<Rightarrow> u\<lparr>u_config := set_password (pd p) (u_config u)\<rparr>
                    | None \<Rightarrow> u))))"

text \<open>The host and the port of a part of the host list; a host in brackets may contain colons.\<close>

definition host_and_port :: "bytes \<Rightarrow> error fault + (bytes \<times> bytes option)" where
  "host_and_port chunk =
     (if starts_with_char 91 chunk then
        (case str_find {93} chunk of
           None \<Rightarrow> Inl (Fault (invalid_value ''host''))
         | Some idx \<Rightarrow>
             bind_res (or_panic (str_slice chunk 1 idx)) (\<lambda>host.
             bind_res (or_panic (str_from chunk (idx + 1))) (\<lambda>remaining.
             case strip_prefix [58] remaining of
               Some port \<Rightarrow> Inr (host, Some port)
             | None \<Rightarrow> if remaining = [] then Inr (host, None) else Inl (Fault (invalid_value ''host'')))))
      else Inr (str_splitn2 58 chunk))"

definition parse_chunk :: "(bytes \<Rightarrow> bytes) \<Rightarrow> bytes \<Rightarrow> url_parser \<Rightarrow> error fault + url_parser" where
  "parse_chunk pd chunk u =
     bind_res (host_and_port chunk) (\<lambda>(host, port).
     bind_res (host_param pd host u) (\<lambda>u.
     bind_res (fallible (url_decode pd (case port of Some p \<Rightarrow> p | None \<Rightarrow> ascii ''5432''))) (\<lambda>port.
     url_param (ascii ''port'') port u)))"

definition parse_host :: "(bytes \<Rightarrow> bytes) \<Rightarrow> url_parser \<Rightarrow> error fault + url_parser" where
  "parse_host pd u =
     bind_res (until_or_all {47, 63} u) (\<lambda>(host, u).
     if host = [] then Inr u else each (parse_chunk pd) (str_split 44 host) u)"

definition parse_path :: "(bytes \<Rightarrow> bytes) \<Rightarrow> url_parser \<Rightarrow> error fault + url_parser" where
  "parse_path pd u =
     (if \<not> starts_with_char 47 (u_s u) then Inr u
      else
        bind_res (eat_byte u) (\<lambda>u.
        bind_res (until_or_all {63} u) (\<lambda>(dbname, u).
        if dbname = [] then Inr u
        else bind_res (fallible (url_decode pd dbname)) (\<lambda>d. Inr (u\<lparr>u_config := set_dbname d (u_config u)\<rparr>)))))"

text \<open>One pair of the query.\<close>

definition query_value :: "bytes url_op" where
  "query_value u =
     bind_res (take_until {38} u) (\<lambda>(r, u).
     case r of
       Some value \<Rightarrow> bind_res (eat_byte u) (\<lambda>u. Inr (value, u))
     | None \<Rightarrow> Inr (take_all u))"

definition query_pair :: "(bytes \<Rightarrow> bytes) \<Rightarrow> url_parser \<Rightarrow> error fault + url_parser" where
  "query_pair pd u =
     bind_res (take_until {61} u) (\<lambda>(key, u).
     case key of
       None \<Rightarrow> Inl (Fault (config_msg ''unterminated parameter''))
     | Some key \<Rightarrow>
         bind_res (fallible (url_decode pd key)) (\<lambda>key.
         bind_res (eat_byte u) (\<lambda>u.
         bind_res (query_value u) (\<lambda>(value, u).
         if key = ascii ''host'' then host_param pd value u
         else bind_res (fallible (url_decode pd value)) (\<lambda>value. url_param key value u)))))"

lemma host_param_rest: "host_param pd s u = Inr u' \<Longrightarrow> u_s u' = u_s u"
  by (auto simp: host_param_def Let_def split: if_splits)

lemma url_param_rest: "url_param k v u = Inr u' \<Longrightarrow> u_s u' = u_s u"
  by (auto simp: url_param_def)

lemma take_until_shorter: "take_until A u = Inr (x, u') \<Longrightarrow> length (u_s u') \<le> length (u_s u)"
  by (auto simp: take_until_def or_panic_def str_split_at_def ok_or_def split: option.splits if_splits)

lemma eat_byte_shorter: "eat_byte u = Inr u' \<Longrightarrow> length (u_s u') < length (u_s u)"
  by (auto simp: eat_byte_def or_panic_def str_from_def ok_or_def is_char_boundary_def split: option.splits if_splits)

lemma query_value_shorter: "query_value u = Inr (x, u') \<Longrightarrow> length (u_s u') \<le> length (u_s u)"
  unfolding query_value_def
  by (fastforce dest: take_until_shorter eat_byte_shorter simp: take_all_def split: option.splits)

lemma query_pair_shorter:
  assumes "query_pair pd u = Inr u'"
  shows "length (u_s u') < length (u_s u)"
proof -
  from assms obtain k k' u1 u2 v u3 where "take_until {61} u = Inr (Some k, u1)" "eat_byte u1 = Inr u2"
      "query_value u2 = Inr (v, u3)"
      "(if k' = ascii ''host'' then host_param pd v u3
        else bind_res (fallible (url_decode pd v)) (\<lambda>value. url_param k' value u3)) = Inr u'"
    by (auto simp: query_pair_def split: option.splits)
  then have "length (u_s u1) \<le> length (u_s u)" "length (u_s u2) < length (u_s u1)" "length (u_s u3) \<le> length (u_s u2)"
      "u_s u' = u_s u3"
    by (auto dest: take_until_shorter eat_byte_shorter query_value_shorter host_param_rest url_param_rest split: if_splits)
  then show ?thesis by simp
qed

function query_loop :: "(bytes \<Rightarrow> bytes) \<Rightarrow> url_parser \<Rightarrow> error fault + url_parser" where
  "query_loop pd u = (if u_s u = [] then Inr u else bind_res (query_pair pd u) (query_loop pd))"
  by pat_completeness auto
termination
  by (relation "measure (\<lambda>(pd, u). length (u_s u))") (auto dest: query_pair_shorter)

declare query_loop.simps [simp del]

definition parse_params :: "(bytes \<Rightarrow> bytes) \<Rightarrow> url_parser \<Rightarrow> error fault + url_parser" where
  "parse_params pd u =
     (if \<not> starts_with_char 63 (u_s u) then Inr u else bind_res (eat_byte u) (query_loop pd))"

definition url_parse :: "(bytes \<Rightarrow> bytes) \<Rightarrow> bytes \<Rightarrow> error fault + config option" where
  "url_parse pd s =
     (case remove_url_prefix s of
        None \<Rightarrow> Inr None
      | Some s \<Rightarrow>
          bind_res (parse_credentials pd \<lparr>u_s = s, u_config = config_new\<rparr>) (\<lambda>u.
          bind_res (parse_host pd u) (\<lambda>u.
          bind_res (parse_path pd u) (\<lambda>u.
          bind_res (parse_params pd u) (\<lambda>u.
          Inr (Some (u_config u)))))))"

definition config_from_str :: "(bytes \<Rightarrow> bytes) \<Rightarrow> bytes \<Rightarrow> error fault + config" where
  "config_from_str pd s =
     bind_res (url_parse pd s) (\<lambda>r.
     case r of
       Some c \<Rightarrow> Inr c
     | None \<Rightarrow> fallible (kv_parse s))"

end
