(* ===== verification/Config_Laws.thy ===== *)
theory Config_Laws
  imports Config
begin

text \<open>
  What the connection string parsers do: a key-value string sets its options one by one, whatever the spelling of the
  values and the white space; a URL sets the same options as the key-value string; no valid string makes the parsers
  panic; every configuration they return is well formed.
\<close>

section \<open>Slices of valid UTF-8\<close>

lemma high_byte: "128 \<le> k \<Longrightarrow> k < 256 \<Longrightarrow> 128 \<le> unat (of_nat k :: u8)"
  by simp

lemma utf8_encode_char_high:
  assumes "\<not> c < 0x80" "is_scalar c" "x \<in> set (utf8_encode_char c)"
  shows "0x80 \<le> unat x"
proof -
  have "c \<le> 0x10FFFF" using assms(2) by (auto simp: is_scalar_def)
  then have "c div 262144 < 16" "c < 0x10000 \<Longrightarrow> c div 4096 < 16" "c < 0x800 \<Longrightarrow> c div 64 < 32"
    by (simp_all add: div_less_iff_less_mult)
  with assms(1,3) show ?thesis
    by (auto simp: utf8_encode_char_def simp del: of_nat_add split: if_splits intro!: high_byte)
qed

lemma utf8_encode_split:
  assumes "list_all is_scalar cs" "utf8_encode cs = a @ x # b" "unat x < 0x80"
  shows "\<exists>cs1 cs2. cs = cs1 @ unat x # cs2 \<and> a = utf8_encode cs1 \<and> b = utf8_encode cs2"
  using assms
proof (induction cs arbitrary: a)
  case Nil
  then show ?case by simp
next
  case (Cons c cs)
  show ?case
  proof (cases "length a < length (utf8_encode_char c)")
    case True
    with Cons.prems(2) have "x \<in> set (utf8_encode_char c)"
      by (metis in_set_conv_nth nth_append nth_append_length utf8_encode_simps(2))
    with Cons.prems utf8_encode_char_high [of c x] have c: "c < 0x80" by fastforce
    then have e: "utf8_encode_char c = [of_nat c]" by (simp add: utf8_encode_char_def)
    with True have "a = []" by simp
    with Cons.prems(2) e c show ?thesis by (intro exI [of _ "[]"] exI [of _ cs]) auto
  next
    case False
    with Cons.prems(2) obtain a' where a: "a = utf8_encode_char c @ a'"
      by (auto simp: append_eq_append_conv_if) (metis append_take_drop_id)
    with Cons.prems have "utf8_encode cs = a' @ x # b" by simp
    with Cons a obtain cs1 cs2 where "cs = cs1 @ unat x # cs2" "a' = utf8_encode cs1" "b = utf8_encode cs2"
      by auto
    with a show ?thesis by (intro exI [of _ "c # cs1"] exI [of _ cs2]) simp
  qed
qed

lemma utf8_valid_split:
  assumes "utf8_valid (a @ x # b)" "unat x < 0x80"
  shows "utf8_valid a" "utf8_valid b"
proof -
  from assms(1) obtain cs where cs: "list_all is_scalar cs" "utf8_encode cs = a @ x # b"
    by (auto simp: utf8_valid_iff)
  from utf8_encode_split [OF this assms(2)] cs(1) show "utf8_valid a" "utf8_valid b"
    by (auto simp: utf8_valid_iff)
qed

lemma utf8_valid_hd: "utf8_valid (x # s) \<Longrightarrow> \<not> is_cont x"
  by (auto simp: utf8_valid_def is_cont_def utf8_decode.simps [of "x # s"] Let_def split: if_splits)

lemma is_cont_high: "unat x < 0x80 \<Longrightarrow> \<not> is_cont x"
  by (simp add: is_cont_def)

lemma boundary_before: "unat x < 0x80 \<Longrightarrow> is_char_boundary (a @ x # b) (length a)"
  by (simp add: is_char_boundary_def is_cont_high)

lemma boundary_after: "utf8_valid b \<Longrightarrow> is_char_boundary (a @ x # b) (Suc (length a))"
  using utf8_valid_hd by (cases b) (auto simp: is_char_boundary_def nth_append)

lemma str_find_Some:
  "str_find A s = Some i \<Longrightarrow> \<exists>x. x \<in> A \<and> s = take i s @ x # drop (Suc i) s \<and> length (take i s) = i"
proof (induction A s arbitrary: i rule: str_find.induct)
  case (2 A b s)
  then show ?case by (cases i) (auto split: if_splits)
qed simp

lemma str_find_append: "set a \<inter> A = {} \<Longrightarrow> x \<in> A \<Longrightarrow> str_find A (a @ x # b) = Some (length a)"
  by (induction a) auto

lemma str_find_None: "str_find A s = None \<longleftrightarrow> set s \<inter> A = {}"
  by (induction A s rule: str_find.induct) auto

section \<open>Key-value strings\<close>

text \<open>
  The text of a key-value string. A value is spelled bare, with white space, quotes and backslashes escaped, or in quotes, with quotes
  and backslashes escaped.
\<close>

datatype spelling = Bare rstr | Quoted rstr

primrec spelled_value :: "spelling \<Rightarrow> rstr" where
  "spelled_value (Bare v) = v"
| "spelled_value (Quoted v) = v"

definition special :: "rchar \<Rightarrow> bool" where
  "special c \<longleftrightarrow> c = of_char CHR 0x27 \<or> c = of_char CHR 0x5C"

definition escape_if :: "(rchar \<Rightarrow> bool) \<Rightarrow> rstr \<Rightarrow> rstr" where
  "escape_if f v = concat (map (\<lambda>c. if f c then [of_char CHR 0x5C, c] else [c]) v)"

primrec spell :: "spelling \<Rightarrow> rstr" where
  "spell (Bare v) = escape_if (\<lambda>c. special c \<or> is_whitespace c) v"
| "spell (Quoted v) = of_char CHR 0x27 # escape_if special v @ [of_char CHR 0x27]"

record kv_item =
  kv_lead :: rstr
  kv_key :: rstr
  kv_before :: rstr
  kv_after :: rstr
  kv_value :: spelling

definition kv_text :: "kv_item list \<Rightarrow> rstr" where
  "kv_text its = concat (map (\<lambda>i.
     kv_lead i @ kv_key i @ kv_before i @ [of_char CHR ''=''] @ kv_after i @ spell (kv_value i)) its)"

definition kv_item_ok :: "kv_item \<Rightarrow> bool" where
  "kv_item_ok i \<longleftrightarrow> list_all is_whitespace (kv_lead i) \<and> list_all is_whitespace (kv_before i) \<and>
     list_all is_whitespace (kv_after i) \<and> list_all keyword_char (kv_key i) \<and> kv_key i \<noteq> [] \<and>
     list_all is_scalar (kv_key i) \<and> list_all is_scalar (spelled_value (kv_value i)) \<and> kv_value i \<noteq> Bare []"

text \<open>A bare value ends at white space or at the end of the string.\<close>

definition ends_value :: "rstr \<Rightarrow> bool" where
  "ends_value r \<longleftrightarrow> (case r of [] \<Rightarrow> True | c # _ \<Rightarrow> is_whitespace c)"

fun kv_separated :: "kv_item list \<Rightarrow> rstr \<Rightarrow> bool" where
  "kv_separated [] trail = True"
| "kv_separated (i # its) trail \<longleftrightarrow>
     ((\<exists>v. kv_value i = Quoted v) \<or> ends_value (kv_text its @ trail)) \<and> kv_separated its trail"

definition kv_setting :: "kv_item \<Rightarrow> bytes \<times> bytes" where
  "kv_setting i = (utf8_encode (kv_key i), utf8_encode (spelled_value (kv_value i)))"

definition set_each :: "(bytes \<times> bytes) list \<Rightarrow> config \<Rightarrow> error + config" where
  "set_each = each (\<lambda>(k, v). param k v)"

subsection \<open>The parser on texts\<close>

lemma utf8_encode_eq_Nil [simp]: "utf8_encode s = [] \<longleftrightarrow> s = []"
  by (cases s) simp_all

lemma escape_if_simps [simp]: "escape_if f [] = []"
  "escape_if f (c # v) = (if f c then [of_char CHR 0x5C, c] else [c]) @ escape_if f v"
  by (simp_all add: escape_if_def)

lemma backslash_plain [simp]: "\<not> is_whitespace 92" "\<not> is_whitespace 61" "\<not> is_whitespace 39"
  by (simp_all add: is_whitespace_def)

lemma skip_ws_at [simp]:
  "skip_ws (at pre cs) = at (pre @ utf8_encode (takeWhile is_whitespace cs)) (dropWhile is_whitespace cs)"
  by (simp add: skip_ws_def)

lemma keyword_at [simp]:
  "keyword (at pre cs) =
     (if takeWhile keyword_char cs = [] then None else Some (utf8_encode (takeWhile keyword_char cs)),
      at (pre @ utf8_encode (takeWhile keyword_char cs)) (dropWhile keyword_char cs))"
  by (simp add: keyword_def)

lemma kv_eat_at [simp]: "c = of_char t \<Longrightarrow> kv_eat t (at pre (c # cs)) = Inr (at (pre @ utf8_encode_char c) cs)"
  by (simp add: kv_eat_def at_def)

lemma simple_loop_at:
  "ends_value r \<Longrightarrow>
     simple_loop (indices n (escape_if (\<lambda>c. special c \<or> is_whitespace c) v @ r)) acc =
       (acc @ v, indices (n + length (utf8_encode (escape_if (\<lambda>c. special c \<or> is_whitespace c) v))) r)"
proof (induction v arbitrary: n acc)
  case Nil
  then show ?case by (cases r) (simp_all add: ends_value_def)
next
  case (Cons c v)
  then show ?case by (auto simp: special_def add.assoc)
qed

lemma quoted_loop_at:
  "quoted_loop (indices n (escape_if special v @ of_char CHR 0x27 # r)) acc =
     Some (acc @ v, indices (n + length (utf8_encode (escape_if special v))) (of_char CHR 0x27 # r))"
  by (induction v arbitrary: n acc) (auto simp: special_def add.assoc)

lemma at_advance: "(at pre (a @ r))\<lparr>p_it := indices (length pre + length (utf8_encode a)) r\<rparr> = at (pre @ utf8_encode a) r"
  by (simp add: at_def)

lemma value_of_quoted: "value_of (at pre (spell (Quoted v) @ r)) = Inr (utf8_encode v, at (pre @ utf8_encode (spell (Quoted v))) r)"
proof -
  let ?q = "of_char CHR 0x27 :: rchar"
  have e: "eat_if CHR 0x27 (at pre (spell (Quoted v) @ r)) = (True, at (pre @ utf8_encode_char ?q) (escape_if special v @ ?q # r))"
    by (simp add: eat_if_def at_def)
  have q: "quoted_value (at (pre @ utf8_encode_char ?q) (escape_if special v @ ?q # r)) =
      Inr (utf8_encode v, at (pre @ utf8_encode_char ?q @ utf8_encode (escape_if special v)) (?q # r))"
    using quoted_loop_at [of "length (pre @ utf8_encode_char ?q)" v r "[]"]
      at_advance [of "pre @ utf8_encode_char ?q" "escape_if special v" "?q # r"]
    by (simp add: quoted_value_def) (simp add: at_def add.assoc)
  show ?thesis unfolding value_of_def e using q by simp
qed

lemma value_of_bare:
  assumes "v \<noteq> []" "ends_value r"
  shows "value_of (at pre (spell (Bare v) @ r)) = Inr (utf8_encode v, at (pre @ utf8_encode (spell (Bare v))) r)"
proof -
  obtain c w where v: "v = c # w" using assms(1) by (cases v) auto
  have e: "eat_if CHR 0x27 (at pre (spell (Bare v) @ r)) = (False, at pre (spell (Bare v) @ r))"
    by (simp add: v eat_if_def special_def)
  show ?thesis
    unfolding value_of_def e
    using simple_loop_at [OF assms(2), of "length pre" v "[]"] at_advance [of pre "spell (Bare v)" r] assms(1)
    by (simp add: simple_value_def) (simp add: at_def)
qed

lemma parameter_item:
  assumes "kv_item_ok i" "(\<exists>v. kv_value i = Quoted v) \<or> ends_value r"
  shows "\<exists>pre'. parameter (at pre (kv_text [i] @ r)) = Inr (Some (kv_setting i), at pre' r)"
proof -
  let ?eq = "61 :: rchar"
  let ?v = "spell (kv_value i) @ r"
  have nows: "dropWhile is_whitespace (spell (kv_value i) @ r) = spell (kv_value i) @ r"
    "takeWhile is_whitespace (spell (kv_value i) @ r) = []"
    using assms(1) by (cases "kv_value i"; cases "spelled_value (kv_value i)"; simp add: kv_item_ok_def)+
  have key: "\<not> is_whitespace (hd (kv_key i))" "takeWhile is_whitespace (kv_key i @ y) = []"
      "dropWhile is_whitespace (kv_key i @ y) = kv_key i @ y" for y
    using assms(1) by (cases "kv_key i"; simp add: kv_item_ok_def keyword_char_def)+
  have stop: "takeWhile keyword_char (kv_before i @ ?eq # y) = []" "dropWhile keyword_char (kv_before i @ ?eq # y) = kv_before i @ ?eq # y" for y
    using assms(1) by (cases "kv_before i"; simp add: kv_item_ok_def keyword_char_def)+
  have ws: "takeWhile is_whitespace (w @ y) = w @ takeWhile is_whitespace y"
      "dropWhile is_whitespace (w @ y) = dropWhile is_whitespace y" if "list_all is_whitespace w" for w y
    using that by (simp_all add: list_all_iff)
  have kc: "takeWhile keyword_char (kv_key i @ y) = kv_key i @ takeWhile keyword_char y"
      "dropWhile keyword_char (kv_key i @ y) = dropWhile keyword_char y" for y
    using assms(1) by (simp_all add: kv_item_ok_def list_all_iff)
  obtain w where "kv_value i = Quoted w \<or> kv_value i = Bare w \<and> w \<noteq> [] \<and> ends_value r"
    using assms by (cases "kv_value i") (auto simp: kv_item_ok_def)
  then have val: "\<exists>pre'. value_of (at p ?v) = Inr (utf8_encode (spelled_value (kv_value i)), at pre' r)" for p
    by (auto simp: value_of_quoted value_of_bare simp del: spell.simps)
  show ?thesis
    using assms(1) val
    by (auto simp: parameter_def kv_text_def ws kc key stop nows kv_item_ok_def kv_setting_def)
qed

lemma parameter_stops:
  "takeWhile keyword_char (dropWhile is_whitespace r) = [] \<Longrightarrow> \<exists>pre'. parameter (at pre r) = Inr (None, pre')"
  by (simp add: parameter_def)

lemma kv_text_Cons: "kv_text (i # its) = kv_text [i] @ kv_text its"
  by (simp add: kv_text_def)

lemma parse_loop_text:
  assumes "list_all kv_item_ok its" "kv_separated its trail" "takeWhile keyword_char (dropWhile is_whitespace trail) = []"
  shows "parse_loop (at pre (kv_text its @ trail)) c = set_each (map kv_setting its) c"
  using assms
proof (induction its arbitrary: pre c)
  case Nil
  then obtain p where "parameter (at pre trail) = Inr (None, p)" using parameter_stops by blast
  then show ?case by (simp add: kv_text_def parse_loop.simps [of "at pre trail"] set_each_def)
next
  case (Cons i its)
  then obtain pre' where p: "parameter (at pre (kv_text [i] @ kv_text its @ trail)) =
      Inr (Some (kv_setting i), at pre' (kv_text its @ trail))"
    using parameter_item [of i "kv_text its @ trail" pre] by auto
  obtain k v where kv: "kv_setting i = (k, v)" by (cases "kv_setting i")
  have "parse_loop (at pre (kv_text [i] @ kv_text its @ trail)) c =
      bind_res (param k v c) (parse_loop (at pre' (kv_text its @ trail)))"
    using p kv by (simp add: parse_loop.simps [of "at pre (kv_text [i] @ kv_text its @ trail)"])
  also have "\<dots> = bind_res (param k v c) (set_each (map kv_setting its))"
    by (rule bind_res_cong) (use Cons in auto)
  finally show ?case using kv by (simp add: kv_text_Cons [of i its] set_each_def)
qed

lemma kv_parse_text:
  assumes "list_all kv_item_ok its" "kv_separated its trail" "takeWhile keyword_char (dropWhile is_whitespace trail) = []"
    and "list_all is_scalar (kv_text its @ trail)"
  shows "kv_parse (utf8_encode (kv_text its @ trail)) = set_each (map kv_setting its) config_new"
  using parser_new_at [OF utf8_decode_encode [OF assms(4)]] parse_loop_text [OF assms(1-3)]
  by (simp add: kv_parse_def)

lemma whitespace_scalar: "is_whitespace c \<Longrightarrow> is_scalar c"
  by (auto simp: is_whitespace_def is_scalar_def)

lemma escape_scalar: "list_all is_scalar v \<Longrightarrow> list_all is_scalar (escape_if f v)"
  by (induction v) (auto simp: is_scalar_def)

lemma kv_text_scalar:
  assumes "list_all kv_item_ok its"
  shows "list_all is_scalar (kv_text its)"
proof -
  have ws: "list_all is_whitespace w \<Longrightarrow> list_all is_scalar w" for w
    using whitespace_scalar by (auto simp: list_all_iff)
  have sp: "list_all is_scalar (spelled_value s) \<Longrightarrow> list_all is_scalar (spell s)" for s
    by (cases s) (auto simp: escape_scalar is_scalar_def)
  have "is_scalar 61" by (simp add: is_scalar_def)
  with assms show ?thesis
    by (induction its) (auto simp: kv_text_def kv_item_ok_def ws sp)
qed

text \<open>
  C15: a key-value string sets its options one after the other, in the order of the string, however the values are spelled (bare
  or in quotes, with the documented escapes) and however the parts are spaced; the first option that is refused is the error.
\<close>

theorem kv_roundtrip:
  assumes "list_all kv_item_ok its" "kv_separated its trail" "list_all is_whitespace trail"
  shows "kv_parse (utf8_encode (kv_text its @ trail)) = set_each (map kv_setting its) config_new"
proof (rule kv_parse_text [OF assms(1,2)])
  show "takeWhile keyword_char (dropWhile is_whitespace trail) = []"
    using assms(3) by (metis dropWhile_eq_Nil_conv list_all_iff takeWhile.simps(1))
  show "list_all is_scalar (kv_text its @ trail)"
    using assms(3) whitespace_scalar kv_text_scalar [OF assms(1)] by (auto simp: list_all_iff)
qed

definition sample_items :: "kv_item list" where
  "sample_items =
     [\<lparr>kv_lead = [], kv_key = chars ''host'', kv_before = [], kv_after = [], kv_value = Bare (chars ''h'')\<rparr>,
      \<lparr>kv_lead = chars '' '', kv_key = chars ''user'', kv_before = chars '' '', kv_after = chars '' '',
       kv_value = Quoted (chars ''a b'')\<rparr>]"

lemma sample_items_ok:
  "list_all kv_item_ok sample_items"
  "kv_separated sample_items (chars '' '')" "kv_separated sample_items (chars '' '' @ [61] @ r)"
  by (simp_all add: sample_items_def kv_item_ok_def keyword_char_def is_scalar_def chars_def is_whitespace_def
      kv_text_def ends_value_def)

lemma sample_items_set:
  "set_each (map kv_setting sample_items) config_new =
     Inr (set_user (ascii ''a b'') (add_host (ascii ''h'') config_new))"
  by (simp add: sample_items_def set_each_def kv_setting_def chars_def param_def ascii_def
      utf8_encode_char_def)

theorem kv_roundtrip_witness:
  "kv_parse (utf8_encode (chars ''host=h user = 'a b' '')) =
     Inr (set_user (ascii ''a b'') (add_host (ascii ''h'') config_new))"
proof -
  have "kv_text sample_items @ chars '' '' = chars ''host=h user = 'a b' ''"
    by (simp add: kv_text_def sample_items_def chars_def special_def is_whitespace_def)
  then show ?thesis
    using kv_roundtrip [OF sample_items_ok(1,2)] sample_items_set
    by (simp add: chars_def is_whitespace_def)
qed

text \<open>
  A parameter without a name ends the string silently. Whatever follows a stray equals sign is ignored, without an error, even
  an option that asks for an encrypted connection.
\<close>

lemma kv_tail_dropped:
  assumes "list_all kv_item_ok its" "kv_separated its (ws @ [61] @ junk)" "list_all is_whitespace ws"
    and "list_all is_scalar junk"
  shows "kv_parse (utf8_encode (kv_text its @ ws @ [61] @ junk)) = set_each (map kv_setting its) config_new"
proof (rule kv_parse_text [OF assms(1,2)])
  have "dropWhile is_whitespace (ws @ [61] @ junk) = [61] @ junk"
    using assms(3) by (simp add: list_all_iff)
  then show "takeWhile keyword_char (dropWhile is_whitespace (ws @ [61] @ junk)) = []"
    by (simp add: keyword_char_def)
  show "list_all is_scalar (kv_text its @ ws @ [61] @ junk)"
    using assms(3,4) whitespace_scalar kv_text_scalar [OF assms(1)] by (auto simp: list_all_iff is_scalar_def)
qed

theorem kv_tail_dropped_witness:
  "\<exists>c. kv_parse (utf8_encode (chars ''host=h user = 'a b' = sslmode=require'')) = Inr c \<and> cf_ssl_mode c = Ssl_Prefer"
proof -
  have "kv_text sample_items @ chars '' '' @ [61] @ chars '' sslmode=require'' = chars ''host=h user = 'a b' = sslmode=require''"
    by (simp add: kv_text_def sample_items_def chars_def special_def is_whitespace_def)
  moreover have "list_all is_scalar (chars '' sslmode=require'')" "list_all is_whitespace (chars '' '')"
    by (simp_all add: chars_def is_scalar_def is_whitespace_def)
  ultimately have "kv_parse (utf8_encode (chars ''host=h user = 'a b' = sslmode=require'')) =
      Inr (set_user (ascii ''a b'') (add_host (ascii ''h'') config_new))"
    using kv_tail_dropped [OF sample_items_ok(1,3)] sample_items_set by metis
  then show ?thesis by (simp add: setter_defs config_new_def)
qed

section \<open>Well-formed configurations\<close>

text \<open>
  What every configuration that comes out of a string satisfies: text is valid UTF-8 and a host given as a name is not a path. A
  timeout is positive and fits the signed integer it was read from, the interval before keepalives too.
\<close>

definition some_ok :: "('a \<Rightarrow> bool) \<Rightarrow> 'a option \<Rightarrow> bool" where
  "some_ok P x = (case x of None \<Rightarrow> True | Some y \<Rightarrow> P y)"

lemma some_ok_simps [simp]: "some_ok P None" "some_ok P (Some y) \<longleftrightarrow> P y"
  by (simp_all add: some_ok_def)

definition duration_ok :: "duration \<Rightarrow> bool" where
  "duration_ok d \<longleftrightarrow> 0 < unat (du_secs d) \<and> unat (du_secs d) < 2 ^ 63 \<and> du_nanos d = 0"

primrec host_ok :: "host \<Rightarrow> bool" where
  "host_ok (Tcp h) \<longleftrightarrow> utf8_valid h \<and> \<not> starts_with_char 47 h"
| "host_ok (Unix p) \<longleftrightarrow> starts_with_char 47 p"

definition config_wf :: "config \<Rightarrow> bool" where
  "config_wf c \<longleftrightarrow> some_ok utf8_valid (cf_user c) \<and> some_ok utf8_valid (cf_dbname c) \<and>
     some_ok utf8_valid (cf_options c) \<and> some_ok utf8_valid (cf_application_name c) \<and>
     list_all host_ok (cf_host c) \<and> list_all ip_ok (cf_hostaddr c) \<and> some_ok duration_ok (cf_connect_timeout c) \<and>
     some_ok duration_ok (cf_tcp_user_timeout c) \<and> duration_ok (ka_idle (cf_keepalive_config c)) \<and>
     some_ok duration_ok (ka_interval (cf_keepalive_config c))"

lemma duration_from_secs_ok: "0 < n \<Longrightarrow> n < 2 ^ 63 \<Longrightarrow> duration_ok (duration_from_secs (of_int n))"
proof -
  assume n: "0 < n" "n < 2 ^ 63"
  then obtain m where m: "n = int m" by (metis nonneg_eq_int order_less_imp_le)
  with n have "m < 2 ^ 63" by simp
  then have "unat (of_nat m :: u64) = m" by (simp add: unat_of_nat)
  then have "unat (of_int n :: u64) = nat n" by (simp add: m)
  with n show ?thesis by (simp add: duration_ok_def duration_from_secs_def)
qed

lemma config_new_wf: "config_wf config_new"
  by (simp add: config_wf_def config_new_def duration_from_secs_def duration_ok_def)

lemma each_invariant:
  "(\<And>x c c'. x \<in> set xs \<Longrightarrow> P c \<Longrightarrow> f x c = Inr c' \<Longrightarrow> P c') \<Longrightarrow> P c \<Longrightarrow> each f xs c = Inr c' \<Longrightarrow> P c'"
  by (induction xs arbitrary: c) auto

lemma str_split_valid: "utf8_valid s \<Longrightarrow> unat x < 0x80 \<Longrightarrow> p \<in> set (str_split x s) \<Longrightarrow> utf8_valid p"
proof (induction "length s" arbitrary: s rule: less_induct)
  case less
  show ?case
  proof (cases "x \<in> set s")
    case False
    with less.prems show ?thesis by (simp add: str_split_none)
  next
    case True
    then obtain a b where s: "s = a @ x # b" "x \<notin> set a" by (meson split_list_first)
    with less.prems utf8_valid_split [of a x b] have "utf8_valid a" "utf8_valid b" by auto
    with less.hyps [of b] less.prems s show ?thesis by (auto simp: str_split_cons)
  qed
qed

lemma add_host_wf: "config_wf c \<Longrightarrow> utf8_valid h \<Longrightarrow> config_wf (add_host h c)"
  by (simp add: add_host_def add_host_path_def config_wf_def)

lemma add_host_path_wf: "config_wf c \<Longrightarrow> starts_with_char 47 h \<Longrightarrow> config_wf (add_host_path h c)"
  by (simp add: add_host_path_def config_wf_def)

lemma param_seconds_wf:
  assumes "param_seconds key setter v c = Inr c'" "config_wf c"
    and "\<And>d c. duration_ok d \<Longrightarrow> config_wf c \<Longrightarrow> config_wf (setter d c)"
  shows "config_wf c'"
proof -
  from assms(1) obtain n where n: "i64_from_str v = Some n" "c' = (if n > 0 then setter (duration_from_secs (of_int n)) c else c)"
    by (cases "i64_from_str v") (auto simp: param_seconds_def)
  show ?thesis
  proof (cases "n > 0")
    case True
    with n i64_from_str_range [OF n(1)] have "duration_ok (duration_from_secs (of_int n))"
      by (intro duration_from_secs_ok) auto
    with True n assms(2,3) show ?thesis by simp
  next
    case False
    with n assms(2) show ?thesis by simp
  qed
qed

lemma param_list_wf:
  "param_port x c = Inr c' \<Longrightarrow> config_wf c \<Longrightarrow> config_wf c'"
  "param_hostaddr x c = Inr c' \<Longrightarrow> config_wf c \<Longrightarrow> config_wf c'"
  by (auto simp: param_port_def param_hostaddr_def add_port_def add_hostaddr_def config_wf_def ok_or_def dest: ip_from_str_ok
      split: option.splits)

lemma setters_wf:
  assumes "config_wf c"
  shows "utf8_valid x \<Longrightarrow> config_wf (set_user x c)" "utf8_valid x \<Longrightarrow> config_wf (set_dbname x c)"
    "utf8_valid x \<Longrightarrow> config_wf (set_options x c)" "utf8_valid x \<Longrightarrow> config_wf (set_application_name x c)"
    "config_wf (set_password x c)" "config_wf (set_ssl_mode m c)" "config_wf (set_ssl_negotiation ng c)"
    "config_wf (set_keepalives b c)" "config_wf (set_keepalives_retries r c)" "config_wf (set_target_session_attrs t c)"
    "config_wf (set_channel_binding cb c)" "config_wf (set_load_balance_hosts l c)" "config_wf (set_opengauss_compat b c)"
    "duration_ok d \<Longrightarrow> config_wf (set_connect_timeout d c)" "duration_ok d \<Longrightarrow> config_wf (set_tcp_user_timeout d c)"
    "duration_ok d \<Longrightarrow> config_wf (set_keepalives_idle d c)" "duration_ok d \<Longrightarrow> config_wf (set_keepalives_interval d c)"
  using assms by (simp_all add: config_wf_def setter_defs)

lemma param_wf:
  assumes "param key v c = Inr c'" "utf8_valid v" "config_wf c"
  shows "config_wf c'"
proof -
  have hosts: "each (\<lambda>h c. Inr (add_host h c)) (str_split 44 v) c = Inr c' \<Longrightarrow> config_wf c'"
    using str_split_valid [OF assms(2), of 44, simplified] assms(3) add_host_wf
    by (elim each_invariant [where P = config_wf, rotated -1]) auto
  have lists: "each param_port (str_split 44 v) c = Inr c' \<Longrightarrow> config_wf c'"
    "each param_hostaddr (str_split 44 v) c = Inr c' \<Longrightarrow> config_wf c'"
    using assms(3) param_list_wf by (auto elim!: each_invariant [where P = config_wf, rotated -1])
  note seconds = param_seconds_wf [OF _ assms(3)]
  from assms(1) show ?thesis
    unfolding param_def
    by (auto simp: setters_wf assms(2,3) simp del: split_paired_Ex dest!: hosts lists seconds split: if_splits)
qed

subsection \<open>Key-value strings\<close>

lemma set_take_loop: "set (snd (take_loop s i f it)) \<subseteq> set it"
  by (induction s i f it rule: take_loop.induct) auto

lemma set_take_while: "set (p_it (snd (take_while f p))) \<subseteq> set (p_it p)"
proof (cases "p_it p")
  case Nil
  then show ?thesis by (simp add: take_while_def)
next
  case (Cons x it)
  then show ?thesis
    using set_take_loop [of "p_s p" "fst x" f "p_it p"]
    by (cases x) (auto simp: take_while_def Let_def split: prod.splits)
qed

lemma set_simple_loop:
  "simple_loop it acc = (v, it') \<Longrightarrow> set v \<subseteq> set acc \<union> snd ` set it \<and> set it' \<subseteq> set it"
proof (induction it acc arbitrary: v it' rule: simple_loop.induct)
  case (1 acc)
  then show ?case by simp
next
  case (2 i c it acc)
  then show ?case by (cases it) (fastforce split: if_splits)+
qed

lemma set_quoted_loop:
  "quoted_loop it acc = Some (v, it') \<Longrightarrow> set v \<subseteq> set acc \<union> snd ` set it \<and> set it' \<subseteq> set it"
proof (induction it acc arbitrary: v it' rule: quoted_loop.induct)
  case (1 acc)
  then show ?case by simp
next
  case (2 i c it acc)
  then show ?case by (cases it) (fastforce split: if_splits)+
qed

definition scalars_only :: "parser \<Rightarrow> bool" where
  "scalars_only p \<longleftrightarrow> (\<forall>x\<in>set (p_it p). is_scalar (snd x))"

lemma take_while_scalars: "scalars_only p \<Longrightarrow> scalars_only (snd (take_while f p))"
  using set_take_while [of f p] by (auto simp: scalars_only_def)

lemma eat_scalars: "kv_eat t p = Inr p' \<Longrightarrow> scalars_only p \<Longrightarrow> scalars_only p'"
  by (fastforce simp: kv_eat_def scalars_only_def split: list.splits if_splits)

lemma value_scalars:
  assumes "value_of p = Inr (v, p')" "scalars_only p"
  shows "utf8_valid v \<and> scalars_only p'"
proof -
  have loop: "utf8_valid (utf8_encode w) \<and> scalars_only (q\<lparr>p_it := it\<rparr>)"
    if "set w \<subseteq> snd ` set (p_it q) \<and> set it \<subseteq> set (p_it q)" "scalars_only q" for w it q
    using that by (fastforce simp: scalars_only_def list_all_iff intro!: utf8_valid_encode)
  have simple: "simple_value q = Inr (v, q') \<Longrightarrow> scalars_only q \<Longrightarrow> utf8_valid v \<and> scalars_only q'" for q q'
    using set_simple_loop [of "p_it q" "[]"] loop
    by (auto simp: simple_value_def Let_def split: prod.splits if_splits)
  have quoted: "quoted_value q = Inr (v, q') \<Longrightarrow> scalars_only q \<Longrightarrow> utf8_valid v \<and> scalars_only q'" for q q'
    using set_quoted_loop [of "p_it q" "[]"] loop
    by (auto simp: quoted_value_def split: option.splits)
  have "scalars_only (snd (eat_if CHR 0x27 p))"
    using assms(2) by (auto simp: eat_if_def scalars_only_def split: list.splits)
  with assms show ?thesis
    using simple quoted eat_scalars by (auto simp: value_of_def split: prod.splits if_splits)
qed

lemma parameter_scalars:
  assumes "parameter p = Inr (Some (k, v), p')" "scalars_only p"
  shows "utf8_valid v \<and> scalars_only p'"
proof -
  obtain p1 where k: "keyword (skip_ws p) = (Some k, p1)"
    using assms(1) by (auto simp: parameter_def split: prod.splits option.splits)
  have "p1 = snd (take_while keyword_char (skip_ws p))"
    using k by (auto simp: keyword_def Let_def split: prod.splits)
  then have 1: "scalars_only p1" using assms(2) by (simp add: skip_ws_def take_while_scalars)
  obtain p2 where 2: "kv_eat CHR ''='' (skip_ws p1) = Inr p2" "value_of (skip_ws p2) = Inr (v, p')"
    using assms k by (auto simp: parameter_def)
  from eat_scalars [OF 2(1)] 1 have "scalars_only p2" by (simp add: skip_ws_def take_while_scalars)
  with value_scalars [OF 2(2)] show ?thesis by (simp add: skip_ws_def take_while_scalars)
qed

lemma parse_loop_wf: "parse_loop p c = Inr c' \<Longrightarrow> scalars_only p \<Longrightarrow> config_wf c \<Longrightarrow> config_wf c'"
proof (induction p c rule: parse_loop.induct)
  case (1 p c)
  from "1.prems"(1) obtain kv q where q: "parameter p = Inr (kv, q)"
    by (auto simp: parse_loop.simps [of p c])
  show ?case
  proof (cases kv)
    case None
    with q "1.prems" show ?thesis by (simp add: parse_loop.simps [of p c])
  next
    case (Some x)
    obtain k v where x: "x = (k, v)" by (cases x)
    with q Some "1.prems"(1) obtain d where d: "param k v c = Inr d" "parse_loop q d = Inr c'"
      by (auto simp: parse_loop.simps [of p c])
    with parameter_scalars [of p k v q] q Some x "1.prems" param_wf [OF d(1)] "1.IH" [OF q refl Some x [symmetric] d(1)]
    show ?thesis by simp
  qed
qed

lemma parser_new_scalars: "scalars_only (parser_new s)"
proof -
  have "snd ` set (indices i cs) = set cs" for i cs by (induction i cs rule: indices.induct) auto
  then show ?thesis
    using utf8_encode_decode [of s]
    by (auto simp: scalars_only_def parser_new_def char_indices_def list_all_iff split: option.split)
      (metis imageI snd_conv)
qed

lemma kv_parse_wf: "kv_parse s = Inr c \<Longrightarrow> config_wf c"
  unfolding kv_parse_def using parse_loop_wf parser_new_scalars config_new_wf by blast

subsection \<open>URLs\<close>

text \<open>A result that is not a panic and satisfies \<open>P\<close> when it is not an error.\<close>

definition ok_res :: "('a \<Rightarrow> bool) \<Rightarrow> error fault + 'a \<Rightarrow> bool" where
  "ok_res P r \<longleftrightarrow> (case r of Inl e \<Rightarrow> e \<noteq> Panic | Inr x \<Rightarrow> P x)"

lemma ok_res_simps [simp]: "ok_res P (Inr x) \<longleftrightarrow> P x" "ok_res P (Inl e) \<longleftrightarrow> e \<noteq> Panic"
  by (simp_all add: ok_res_def)

lemma ok_res_bind: "ok_res Q r \<Longrightarrow> (\<And>x. Q x \<Longrightarrow> ok_res P (f x)) \<Longrightarrow> ok_res P (bind_res r f)"
  by (cases r) simp_all

lemma ok_res_mono: "ok_res Q r \<Longrightarrow> (\<And>x. Q x \<Longrightarrow> P x) \<Longrightarrow> ok_res P r"
  by (cases r) simp_all

lemma ok_res_fallible: "ok_res P (fallible r) \<longleftrightarrow> (\<forall>x. r = Inr x \<longrightarrow> P x)"
  by (cases r) (simp_all add: fallible_def)

declare bind_res_split [split del]

definition url_wf :: "url_parser \<Rightarrow> bool" where
  "url_wf u \<longleftrightarrow> utf8_valid (u_s u) \<and> config_wf (u_config u)"

definition at_ascii :: "url_parser \<Rightarrow> bool" where
  "at_ascii u \<longleftrightarrow> (\<exists>x r. u_s u = x # r \<and> unat x < 0x80)"

lemma take_until_ok:
  assumes "url_wf u" "\<forall>x\<in>A. unat x < 0x80"
  shows "ok_res (\<lambda>(r, u'). url_wf u' \<and> some_ok utf8_valid r \<and> (r \<noteq> None \<longrightarrow> at_ascii u')) (take_until A u)"
proof (cases "str_find A (u_s u)")
  case None
  with assms(1) show ?thesis by (simp add: take_until_def)
next
  case (Some i)
  from str_find_Some [OF this] obtain x where x: "x \<in> A" "u_s u = take i (u_s u) @ x # drop (Suc i) (u_s u)"
      "length (take i (u_s u)) = i" by blast
  then have a: "unat x < 0x80" using assms(2) by blast
  from x(2) assms(1) have "utf8_valid (take i (u_s u) @ x # drop (Suc i) (u_s u))" by (simp add: url_wf_def)
  note v = utf8_valid_split [OF this a]
  have "utf8_valid ([x] @ drop (Suc i) (u_s u))"
    by (rule utf8_valid_append) (use a v in \<open>simp_all add: utf8_valid_ascii\<close>)
  moreover have d: "drop i (u_s u) = x # drop (Suc i) (u_s u)"
    using x(2,3) by (metis append_eq_conv_conj)
  moreover have "is_char_boundary (u_s u) i"
    using boundary_before [OF a, of "take i (u_s u)" "drop (Suc i) (u_s u)"] x(2,3) by simp
  ultimately show ?thesis
    using Some assms(1) v(1) a by (simp add: take_until_def str_split_at_def or_panic_def url_wf_def at_ascii_def)
qed

lemma eat_byte_ok: "url_wf u \<Longrightarrow> at_ascii u \<Longrightarrow> ok_res url_wf (eat_byte u)"
  using boundary_after [of _ "[]"] utf8_valid_split(2) [of "[]"]
  by (auto simp: eat_byte_def str_from_def or_panic_def url_wf_def at_ascii_def)

lemma starts_ascii: "starts_with_char b (u_s u) \<Longrightarrow> unat b < 0x80 \<Longrightarrow> at_ascii u"
  by (auto simp: at_ascii_def starts_with_char_def split: list.splits)

lemma until_or_all_ok:
  assumes "url_wf u" "\<forall>x\<in>A. unat x < 0x80"
  shows "ok_res (\<lambda>(r, u'). url_wf u' \<and> utf8_valid r) (until_or_all A u)"
  unfolding until_or_all_def
  by (rule ok_res_bind [OF take_until_ok [OF assms]])
    (auto simp: take_all_def url_wf_def split: option.splits)

lemma url_decode_valid: "ok_res utf8_valid (fallible (url_decode pd s))"
  by (auto simp: ok_res_fallible url_decode_def split: if_splits)

lemma host_param_ok: "url_wf u \<Longrightarrow> ok_res url_wf (host_param pd s u)"
  by (simp add: host_param_def Let_def url_wf_def add_host_wf add_host_path_wf)

lemma url_param_ok: "url_wf u \<Longrightarrow> utf8_valid v \<Longrightarrow> ok_res url_wf (url_param k v u)"
  unfolding url_param_def
  by (rule ok_res_bind [where Q = config_wf]) (auto simp: ok_res_fallible url_wf_def intro: param_wf)

lemma parse_credentials_ok: "url_wf u \<Longrightarrow> ok_res url_wf (parse_credentials pd u)"
  unfolding parse_credentials_def
  apply (rule ok_res_bind [OF take_until_ok])
    apply simp
   apply simp
  apply (clarsimp split: option.split)
  apply (rule ok_res_bind [OF eat_byte_ok])
    apply simp
   apply simp
  apply (clarsimp split: prod.split)
  apply (rule ok_res_bind [OF url_decode_valid])
  apply (auto simp: Let_def url_wf_def setters_wf split: option.split)
  done

lemma host_and_port_ok: "utf8_valid chunk \<Longrightarrow> ok_res (\<lambda>_. True) (host_and_port chunk)"
proof (cases "starts_with_char 91 chunk")
  case True
  assume v: "utf8_valid chunk"
  from True obtain t where t: "chunk = 91 # t" by (auto simp: starts_with_char_def split: list.splits)
  show ?thesis
  proof (cases "str_find {93} chunk")
    case None
    with True show ?thesis by (simp add: host_and_port_def)
  next
    case (Some i)
    from str_find_Some [OF this] have c: "chunk = take i chunk @ 93 # drop (Suc i) chunk" "length (take i chunk) = i"
      by auto
    then have v2: "utf8_valid (drop (Suc i) chunk)" using v utf8_valid_split(2) [of "take i chunk" 93] by simp
    have "i \<noteq> 0" using Some t by (cases i) auto
    moreover have "is_char_boundary chunk 1"
      using boundary_after [of t "[]" 91] v t utf8_valid_split(2) [of "[]" 91 t] by simp
    moreover have "is_char_boundary chunk i" using boundary_before [of 93 "take i chunk" "drop (Suc i) chunk"] c by simp
    moreover have "is_char_boundary chunk (Suc i)" using boundary_after [OF v2, of "take i chunk" 93] c by simp
    ultimately show ?thesis using True Some by (simp add: host_and_port_def str_slice_def str_from_def or_panic_def split: option.split)
  qed
qed (simp add: host_and_port_def)

lemma parse_chunk_ok: "url_wf u \<Longrightarrow> utf8_valid chunk \<Longrightarrow> ok_res url_wf (parse_chunk pd chunk u)"
  unfolding parse_chunk_def
  apply (rule ok_res_bind [OF host_and_port_ok], assumption)
  apply clarsimp
  apply (rule ok_res_bind [OF host_param_ok], assumption)
  apply (rule ok_res_bind [OF url_decode_valid])
  apply (simp add: url_param_ok)
  done

lemma each_ok: "P u \<Longrightarrow> (\<And>x u. x \<in> set xs \<Longrightarrow> P u \<Longrightarrow> ok_res P (f x u)) \<Longrightarrow> ok_res P (each f xs u)"
proof (induction xs arbitrary: u)
  case (Cons x xs)
  have "ok_res P (f x u)" using Cons.prems by simp
  then show ?case unfolding each.simps by (rule ok_res_bind) (use Cons in auto)
qed simp

lemma parse_host_ok: "url_wf u \<Longrightarrow> ok_res url_wf (parse_host pd u)"
  unfolding parse_host_def
  apply (rule ok_res_bind [OF until_or_all_ok])
    apply simp
   apply simp
  apply clarsimp
  apply (rule each_ok)
   apply simp
  apply (erule (1) parse_chunk_ok [OF _ str_split_valid [where x = 44]])
   apply simp_all
  done

lemma parse_path_ok: "url_wf u \<Longrightarrow> ok_res url_wf (parse_path pd u)"
  unfolding parse_path_def
  apply clarsimp
  apply (rule ok_res_bind [OF eat_byte_ok])
    apply (simp_all add: starts_ascii)
  apply (rule ok_res_bind [OF until_or_all_ok])
    apply simp_all
  apply clarsimp
  apply (rule ok_res_bind [OF url_decode_valid])
  apply (simp add: url_wf_def setters_wf)
  done

lemma query_value_ok: "url_wf u \<Longrightarrow> ok_res (\<lambda>(v, u'). url_wf u') (query_value u)"
  unfolding query_value_def
  apply (rule ok_res_bind [OF take_until_ok])
    apply simp_all
  apply (clarsimp simp: take_all_def url_wf_def [of "u\<lparr>u_s := [] \<rparr>" for u] split: option.split)
  apply (rule conjI)
   apply (clarsimp simp: url_wf_def)
  apply clarsimp
  apply (rule ok_res_bind [OF eat_byte_ok])
    apply simp_all
  done

lemma query_pair_ok: "url_wf u \<Longrightarrow> ok_res url_wf (query_pair pd u)"
  unfolding query_pair_def
  apply (rule ok_res_bind [OF take_until_ok])
    apply simp_all
  apply (clarsimp split: option.split)
  apply (rule ok_res_bind [OF url_decode_valid])
  apply (rule ok_res_bind [OF eat_byte_ok])
    apply simp_all
  apply (rule ok_res_bind [OF query_value_ok])
   apply assumption
  apply (clarsimp simp: host_param_ok)
  apply (rule ok_res_bind [OF url_decode_valid])
  apply (simp add: url_param_ok)
  done

lemma query_loop_ok: "url_wf u \<Longrightarrow> ok_res url_wf (query_loop pd u)"
proof (induction pd u rule: query_loop.induct)
  case (1 pd u)
  show ?case
  proof (cases "u_s u = []")
    case True
    with "1.prems" show ?thesis by (simp add: query_loop.simps)
  next
    case False
    have "ok_res url_wf (bind_res (query_pair pd u) (query_loop pd))"
    proof (cases "query_pair pd u")
      case (Inl e)
      with query_pair_ok [OF "1.prems", of pd] show ?thesis by simp
    next
      case (Inr u')
      with query_pair_ok [OF "1.prems", of pd] "1.IH" [OF False Inr] show ?thesis by simp
    qed
    with False show ?thesis by (simp add: query_loop.simps)
  qed
qed

lemma url_parse_ok:
  assumes "utf8_valid s"
  shows "ok_res (some_ok config_wf) (url_parse pd s)"
proof (cases "remove_url_prefix s")
  case None
  then show ?thesis by (simp add: url_parse_def)
next
  case (Some r)
  obtain p where p: "s = p @ r" "list_all (\<lambda>b. unat b < 0x80) p" "p \<noteq> []"
  proof -
    have "r = drop (length q) s \<and> take (length q) s = q" if "strip_prefix q s = Some r" for q
      using that by (auto simp: strip_prefix_def split: if_splits)
    moreover have "list_all (\<lambda>b. unat b < 0x80) (ascii ''postgres://'')" "list_all (\<lambda>b. unat b < 0x80) (ascii ''postgresql://'')"
      by (simp_all add: ascii_def)
    moreover obtain q where "strip_prefix q s = Some r" "q = ascii ''postgres://'' \<or> q = ascii ''postgresql://''"
      using Some by (auto simp: remove_url_prefix_def split: option.splits)
    ultimately have "s = q @ r" "list_all (\<lambda>b. unat b < 0x80) q" "q \<noteq> []"
      using append_take_drop_id [of "length q" s] by (auto simp: ascii_def)
    then show ?thesis by (rule that)
  qed
  then have "utf8_valid r"
    using assms utf8_valid_split(2) [of "butlast p" "last p" r]
    by (cases p rule: rev_cases) auto
  then have "url_wf \<lparr>u_s = r, u_config = config_new\<rparr>" by (simp add: url_wf_def config_new_wf)
  then have "ok_res (some_ok config_wf) (bind_res (parse_credentials pd \<lparr>u_s = r, u_config = config_new\<rparr>) (\<lambda>u.
          bind_res (parse_host pd u) (\<lambda>u.
          bind_res (parse_path pd u) (\<lambda>u.
          bind_res (parse_params pd u) (\<lambda>u.
          Inr (Some (u_config u)))))))"
    by (intro ok_res_bind [where Q = url_wf]) (auto simp: parse_credentials_ok parse_host_ok parse_path_ok parse_params_def
        url_wf_def [of u for u] intro!: ok_res_bind [OF eat_byte_ok] query_loop_ok starts_ascii)
  with Some show ?thesis by (simp add: url_parse_def)
qed

text \<open>
  C33: parsing a connection string never panics, whatever the string and whatever the third-party percent decoder returns: every
  slice of the URL parser falls on a character boundary. A configuration that comes out is well formed: user, database, options and
  application name are valid strings, a host is a valid string or a path that starts with a slash, an address has four octets or eight
  groups, and the timeouts and keepalive times are whole positive numbers of seconds below \<open>2 ^ 63\<close>.
\<close>

theorem config_from_str_safe:
  assumes "utf8_valid s"
  shows "case config_from_str pd s of Inl e \<Rightarrow> e \<noteq> Panic | Inr c \<Rightarrow> config_wf c"
proof -
  have "ok_res config_wf (config_from_str pd s)"
    unfolding config_from_str_def
    by (rule ok_res_bind [OF url_parse_ok [OF assms]]) (auto simp: ok_res_fallible kv_parse_wf split: option.split)
  then show ?thesis by (simp add: ok_res_def)
qed

theorem config_from_str_safe_witness:
  "case config_from_str id [112, 111, 115, 116, 103, 114, 101, 115, 58, 47, 47, 195, 169, 64] of
     Inl e \<Rightarrow> e \<noteq> Panic | Inr c \<Rightarrow> config_wf c"
proof -
  have "utf8_valid ([112, 111, 115, 116, 103, 114, 101, 115, 58, 47, 47, 195, 169, 64] :: bytes)"
    by (simp add: utf8_valid_def utf8_decode.simps is_cont_def)
  then show ?thesis by (rule config_from_str_safe)
qed

declare bind_res_split [split]

end
