(* ===== verification/Url_Laws.thy ===== *)
theory Url_Laws
  imports Config_Laws
begin

text \<open>
  The URL parser against the text of a URL: every part is read back, percent-encoded or not, in the order user, password, hosts with
  their ports, database, query; a URL and the key-value string of the same settings give the same configuration. The percent
  encoding is third-party code, with its documented behaviour as the hypothesis \<open>percent_ok\<close>.
\<close>

section \<open>The percent encoding\<close>

definition reserved :: "u8 set" where
  "reserved = set (ascii ''@:/?,=&[]'')"

definition plain :: "bytes \<Rightarrow> bool" where
  "plain b \<longleftrightarrow> list_all (\<lambda>x. unat x < 0x80 \<and> x \<notin> reserved) b"

definition percent_ok :: "(bytes \<Rightarrow> bytes) \<Rightarrow> (bytes \<Rightarrow> bytes) \<Rightarrow> bool" where
  "percent_ok pd enc \<longleftrightarrow>
     (\<forall>b. pd (enc b) = b \<and> plain (enc b) \<and> (37 \<in> set b \<or> pd b = b))"

text \<open>A coding with these properties: every byte is escaped, and an escape that is not complete stands for itself.\<close>

fun sample_decode :: "bytes \<Rightarrow> bytes" where
  "sample_decode (x # a # b # r) =
     (if x = 37 then
        (case (digit_value 16 a, digit_value 16 b) of
           (Some m, Some n) \<Rightarrow> of_nat (16 * m + n) # sample_decode r
         | _ \<Rightarrow> x # sample_decode (a # b # r))
      else x # sample_decode (a # b # r))"
| "sample_decode r = r"

definition hex_char :: "nat \<Rightarrow> u8" where
  "hex_char n = (if n < 10 then of_nat (48 + n) else of_nat (55 + n))"

definition sample_encode :: "bytes \<Rightarrow> bytes" where
  "sample_encode b = concat (map (\<lambda>x. [37, hex_char (unat x div 16), hex_char (unat x mod 16)]) b)"

lemma hex_char_value: "n < 16 \<Longrightarrow> digit_value 16 (hex_char n) = Some n"
  by (auto simp: hex_char_def digit_value_def simp del: of_nat_add)

lemma hex_char_plain: "n < 16 \<Longrightarrow> unat (hex_char n) < 0x80 \<and> hex_char n \<notin> reserved"
proof -
  assume "n < 16"
  then have "n \<in> set [0..<16]" by simp
  moreover have "\<forall>n\<in>set [0..<16]. unat (hex_char n) < 0x80 \<and> hex_char n \<notin> reserved"
    by (simp add: upt_rec hex_char_def reserved_def ascii_def)
  ultimately show ?thesis by blast
qed

lemma sample_percent_ok: "percent_ok sample_decode sample_encode"
proof -
  have split: "unat (x :: u8) div 16 < 16 \<and> unat x mod 16 < 16" for x
    using unat_u8_less [of x] by (simp add: div_less_iff_less_mult)
  have "sample_decode (sample_encode b) = b" for b
  proof (induction b)
    case Nil
    then show ?case by (simp add: sample_encode_def)
  next
    case (Cons x b)
    have "(of_nat (16 * (unat x div 16) + unat x mod 16) :: u8) = x" by (simp only: mult_div_mod_eq) simp
    with Cons split [of x] show ?case
      by (simp add: sample_encode_def hex_char_value del: of_nat_add of_nat_mult)
  qed
  moreover have "plain (sample_encode b)" for b
    using hex_char_plain split by (induction b) (auto simp: sample_encode_def plain_def reserved_def ascii_def)
  moreover have "37 \<notin> set b \<Longrightarrow> sample_decode b = b" for b
    by (induction b rule: sample_decode.induct) auto
  ultimately show ?thesis by (auto simp: percent_ok_def)
qed

section \<open>The text of a URL\<close>

record url_parts =
  up_creds :: "(bytes \<times> bytes option) option"
  up_hosts :: "(bytes \<times> u16 option) list"
  up_dbname :: "bytes option"
  up_query :: "(bytes \<times> bytes) list"

fun join_bytes :: "u8 \<Rightarrow> bytes list \<Rightarrow> bytes" where
  "join_bytes x [] = []"
| "join_bytes x [b] = b"
| "join_bytes x (b # bs) = b @ x # join_bytes x bs"

definition port_text :: "u16 \<Rightarrow> bytes" where
  "port_text p = ascii (show_nat (unat p))"

definition creds_text :: "(bytes \<Rightarrow> bytes) \<Rightarrow> (bytes \<times> bytes option) option \<Rightarrow> bytes" where
  "creds_text enc c =
     (case c of
        None \<Rightarrow> []
      | Some (u, pw) \<Rightarrow> enc u @ (case pw of Some p \<Rightarrow> 58 # enc p | None \<Rightarrow> []) @ [64])"

definition host_text :: "(bytes \<Rightarrow> bytes) \<Rightarrow> bytes \<times> u16 option \<Rightarrow> bytes" where
  "host_text enc = (\<lambda>(h, port). enc h @ (case port of Some p \<Rightarrow> 58 # port_text p | None \<Rightarrow> []))"

definition pair_text :: "(bytes \<Rightarrow> bytes) \<Rightarrow> bytes \<times> bytes \<Rightarrow> bytes" where
  "pair_text enc = (\<lambda>(k, v). enc k @ 61 # enc v)"

definition url_tail :: "(bytes \<Rightarrow> bytes) \<Rightarrow> url_parts \<Rightarrow> bytes" where
  "url_tail enc u =
     (case up_dbname u of Some d \<Rightarrow> 47 # enc d | None \<Rightarrow> []) @
     (if up_query u = [] then [] else 63 # join_bytes 38 (map (pair_text enc) (up_query u)))"

definition url_text :: "(bytes \<Rightarrow> bytes) \<Rightarrow> url_parts \<Rightarrow> bytes" where
  "url_text enc u =
     creds_text enc (up_creds u) @ join_bytes 44 (map (host_text enc) (up_hosts u)) @ url_tail enc u"

definition url_parts_ok :: "url_parts \<Rightarrow> bool" where
  "url_parts_ok u \<longleftrightarrow>
     (case up_creds u of Some (n, pw) \<Rightarrow> utf8_valid n | None \<Rightarrow> True) \<and>
     list_all (\<lambda>(h, p). h \<noteq> [] \<and> utf8_valid h) (up_hosts u) \<and>
     (case up_dbname u of Some d \<Rightarrow> d \<noteq> [] \<and> utf8_valid d | None \<Rightarrow> True) \<and>
     list_all (\<lambda>(k, v). utf8_valid k \<and> utf8_valid v) (up_query u)"

text \<open>The settings the parts stand for.\<close>

definition set_creds :: "(bytes \<times> bytes option) option \<Rightarrow> config \<Rightarrow> config" where
  "set_creds x c =
     (case x of
        None \<Rightarrow> c
      | Some (u, pw) \<Rightarrow> (case pw of Some p \<Rightarrow> set_password p (set_user u c) | None \<Rightarrow> set_user u c))"

definition set_host :: "bytes \<times> u16 option \<Rightarrow> config \<Rightarrow> config" where
  "set_host = (\<lambda>(h, port) c. add_port (case port of Some p \<Rightarrow> p | None \<Rightarrow> 5432) (add_host h c))"

definition set_path :: "bytes option \<Rightarrow> config \<Rightarrow> config" where
  "set_path d c = (case d of Some d \<Rightarrow> set_dbname d c | None \<Rightarrow> c)"

definition set_query :: "bytes \<times> bytes \<Rightarrow> config \<Rightarrow> error + config" where
  "set_query = (\<lambda>(k, v) c. if k = ascii ''host'' then Inr (add_host v c) else param k v c)"

definition url_settings :: "url_parts \<Rightarrow> error + config" where
  "url_settings u =
     each set_query (up_query u)
       (set_path (up_dbname u) (fold set_host (up_hosts u) (set_creds (up_creds u) config_new)))"

subsection \<open>Reading the parts\<close>

abbreviation at_url :: "bytes \<Rightarrow> config \<Rightarrow> url_parser" where
  "at_url s c \<equiv> \<lparr>u_s = s, u_config = c\<rparr>"

lemma plain_simps [simp]: "plain []" "plain (a @ b) \<longleftrightarrow> plain a \<and> plain b"
  "plain (x # b) \<longleftrightarrow> unat x < 0x80 \<and> x \<notin> reserved \<and> plain b"
  by (auto simp: plain_def)

lemma plain_not_in: "plain b \<Longrightarrow> x \<in> reserved \<Longrightarrow> x \<notin> set b"
  by (auto simp: plain_def list_all_iff)

lemma reserved_iff: "x \<in> reserved \<longleftrightarrow> x \<in> {64, 58, 47, 63, 44, 61, 38, 91, 93}"
  by (auto simp: reserved_def ascii_def)

lemma take_until_at:
  "set a \<inter> A = {} \<Longrightarrow> x \<in> A \<Longrightarrow> unat x < 0x80 \<Longrightarrow>
     take_until A (at_url (a @ x # b) c) = Inr (Some a, at_url (x # b) c)"
  using boundary_before [of x a b]
  by (simp add: take_until_def str_find_append str_split_at_def or_panic_def)

lemma take_until_none: "set s \<inter> A = {} \<Longrightarrow> take_until A (at_url s c) = Inr (None, at_url s c)"
  using str_find_None [of A s] by (simp add: take_until_def)

lemma eat_byte_at:
  assumes "list_all (\<lambda>y. unat y < 0x80) b"
  shows "eat_byte (at_url (x # b) c) = Inr (at_url b c)"
proof -
  have "is_char_boundary ([] @ x # b) (Suc (length ([] :: bytes)))"
    using assms by (intro boundary_after utf8_valid_ascii) simp
  then show ?thesis by (simp add: eat_byte_def str_from_def or_panic_def)
qed

lemma str_splitn2_at: "x \<notin> set a \<Longrightarrow> str_splitn2 x (a @ x # b) = (a, Some b)" "x \<notin> set a \<Longrightarrow> str_splitn2 x a = (a, None)"
proof -
  assume "x \<notin> set a"
  then have *: "\<forall>y\<in>set a. y \<noteq> x" by auto
  show "str_splitn2 x (a @ x # b) = (a, Some b)"
    using * by (simp add: str_splitn2_def)
  have tw: "takeWhile (\<lambda>b. b \<noteq> x) a = a" and dw: "dropWhile (\<lambda>b. b \<noteq> x) a = []"
    using * by (simp_all add: takeWhile_eq_all_conv)
  show "str_splitn2 x a = (a, None)" unfolding str_splitn2_def tw dw by simp
qed

lemma str_split_join:
  "bs \<noteq> [] \<Longrightarrow> \<forall>b\<in>set bs. x \<notin> set b \<Longrightarrow> str_split x (join_bytes x bs) = bs"
  by (induction x bs rule: join_bytes.induct) (simp_all add: str_split_none str_split_cons)

lemma port_text_digits: "list_all (\<lambda>b. 48 \<le> unat b \<and> unat b \<le> 57) (port_text p)"
  using show_nat_decimal [of "unat p"] by (simp add: port_text_def is_digit_def)

lemma port_text_plain: "plain (port_text p)" "37 \<notin> set (port_text p)" "44 \<notin> set (port_text p)"
  using port_text_digits [of p]
  by (auto simp: plain_def list_all_iff reserved_iff)

lemma u16_port_text: "u16_from_str (port_text p) = Some p"
proof -
  have d: "digits_value (port_text p) = unat p"
    using show_nat_decimal [of "unat p"] by (simp add: port_text_def decimal_def digits_value_def)
  have ne: "port_text p \<noteq> []" using show_nat_decimal [of "unat p"] by (simp add: port_text_def ascii_def)
  have "unat p \<le> 65535" using unsigned_less [of p, where ?'a = nat] by simp
  with d ne port_text_digits [of p] show ?thesis
    by (cases "port_text p") (auto simp: u16_from_str_def unsigned_from_str_def digits_of_def ascii_digit_def [abs_def])
qed

lemma param_port_text: "param (ascii ''port'') (port_text p) c = Inr (add_port p c)"
proof -
  have "port_text p \<noteq> []" using show_nat_decimal [of "unat p"] by (simp add: port_text_def ascii_def)
  then have "param_port (port_text p) c = Inr (add_port p c)" by (simp add: param_port_def u16_port_text)
  then show ?thesis
    using port_text_plain(3) [of p] by (simp add: param_def ascii_def str_split_none)
qed

lemma of_char_char_of_u8: "n < 256 \<Longrightarrow> (of_char (char_of (n :: nat) :: char) :: u8) = of_nat n"
  by (metis mod_less of_char_of of_nat_of_char_u8)

lemma param_default_port: "param (ascii ''port'') (ascii ''5432'') c = Inr (add_port 5432 c)"
  using param_port_text [of 5432 c] by (simp add: port_text_def show_nat.simps ascii_def of_char_char_of_u8)

lemma until_or_all_at:
  "set a \<inter> A = {} \<Longrightarrow> r = [] \<or> (\<exists>x t. r = x # t \<and> x \<in> A \<and> unat x < 0x80) \<Longrightarrow>
     until_or_all A (at_url (a @ r) c) = Inr (a, at_url r c)"
  by (auto simp: until_or_all_def take_until_at take_until_none take_all_def)

lemma plain_disjoint: "plain b \<Longrightarrow> A \<subseteq> reserved \<Longrightarrow> set b \<inter> A = {}"
  using plain_not_in by blast

lemma plain_ascii: "plain b \<Longrightarrow> list_all (\<lambda>x. unat x < 0x80) b"
  by (simp add: plain_def list_all_iff)

lemma percent_okD:
  assumes "percent_ok pd enc"
  shows "pd (enc b) = b" "plain (enc b)" "37 \<notin> set b \<Longrightarrow> pd b = b"
  using assms by (auto simp: percent_ok_def)

lemma enc_not_in: "percent_ok pd enc \<Longrightarrow> x \<in> {64, 58, 47, 63, 44, 61, 38, 91, 93} \<Longrightarrow> x \<notin> set (enc b)"
  by (metis percent_okD(2) plain_not_in reserved_iff)

lemma enc_nonempty: "percent_ok pd enc \<Longrightarrow> b \<noteq> [] \<Longrightarrow> enc b \<noteq> []"
  using percent_okD(1) [of pd enc b] percent_okD(3) [of pd enc "[]"] by auto

lemma enc_ascii: "percent_ok pd enc \<Longrightarrow> list_all (\<lambda>x. unat x < 0x80) (enc b)"
  using percent_okD(2) plain_ascii by blast

lemma url_decode_enc: "percent_ok pd enc \<Longrightarrow> utf8_valid b \<Longrightarrow> url_decode pd (enc b) = Inr b"
  using percent_okD(1) [of pd enc b] by (simp add: url_decode_def)

lemma url_decode_port:
  assumes "percent_ok pd enc"
  shows "url_decode pd (port_text p) = Inr (port_text p)" "url_decode pd (ascii ''5432'') = Inr (ascii ''5432'')"
proof -
  have "utf8_valid (port_text p)"
    by (rule utf8_valid_ascii [OF plain_ascii [OF port_text_plain(1)]])
  then show "url_decode pd (port_text p) = Inr (port_text p)"
    using percent_okD(3) [OF assms port_text_plain(2)] by (simp add: url_decode_def)
  have "utf8_valid (ascii ''5432'')" by (rule utf8_valid_ascii) (simp add: ascii_def)
  then show "url_decode pd (ascii ''5432'') = Inr (ascii ''5432'')"
    using percent_okD(3) [OF assms, of "ascii ''5432''"] by (simp add: url_decode_def ascii_def)
qed

lemma parse_credentials_at:
  assumes "percent_ok pd enc" "case cr of Some (n, pw) \<Rightarrow> utf8_valid n | None \<Rightarrow> True"
    and "list_all (\<lambda>y. unat y < 0x80) r" "64 \<notin> set r"
  shows "parse_credentials pd (at_url (creds_text enc cr @ r) c) = Inr (at_url r (set_creds cr c))"
proof (cases cr)
  case None
  with assms(4) show ?thesis
    by (simp add: parse_credentials_def creds_text_def set_creds_def take_until_none)
next
  case (Some x)
  obtain n pw where x: "x = (n, pw)" by (cases x)
  define body where "body = enc n @ (case pw of Some p \<Rightarrow> 58 # enc p | None \<Rightarrow> [])"
  have b: "set body \<inter> {64} = {}"
    using enc_not_in [OF assms(1), of 64] by (auto simp: body_def split: option.splits)
  have t: "take_until {64} (at_url (body @ 64 # r) c) = Inr (Some body, at_url (64 # r) c)"
    by (rule take_until_at [OF b]) simp_all
  have sp: "str_splitn2 58 body = (enc n, map_option enc pw)"
    using str_splitn2_at [of 58 "enc n"] enc_not_in [OF assms(1), of 58 n] by (auto simp: body_def split: option.splits)
  have "creds_text enc cr @ r = body @ 64 # r" by (simp add: Some x creds_text_def body_def)
  then show ?thesis
    using assms(2) Some x t sp eat_byte_at [OF assms(3)] url_decode_enc [OF assms(1)] percent_okD(1) [OF assms(1)]
    by (cases pw) (simp_all add: parse_credentials_def set_creds_def fallible_def Let_def)
qed

lemma parse_chunk_at:
  assumes "percent_ok pd enc" "h \<noteq> []" "utf8_valid h"
  shows "parse_chunk pd (host_text enc (h, port)) (at_url r c) = Inr (at_url r (set_host (h, port) c))"
proof -
  obtain x t where x: "enc h = x # t" using enc_nonempty [OF assms(1,2)] by (cases "enc h") auto
  with enc_not_in [OF assms(1), of 91 h] have "x \<noteq> 91" by auto
  then have hp: "host_and_port (host_text enc (h, port)) = Inr (enc h, map_option port_text port)"
    using str_splitn2_at [of 58 "enc h"] enc_not_in [OF assms(1), of 58 h] x
    by (cases port) (simp_all add: host_and_port_def host_text_def)
  have param: "host_param pd (enc h) (at_url r c) = Inr (at_url r (add_host h c))"
    using assms(3) percent_okD(1) [OF assms(1), of h] by (simp add: host_param_def add_host_def)
  show ?thesis
    using hp param url_decode_port [OF assms(1)]
    by (cases port) (simp_all add: parse_chunk_def set_host_def fallible_def url_param_def param_port_text param_default_port)
qed

lemma each_chunks:
  "percent_ok pd enc \<Longrightarrow> list_all (\<lambda>(h, p). h \<noteq> [] \<and> utf8_valid h) hs \<Longrightarrow>
     each (parse_chunk pd) (map (host_text enc) hs) (at_url r c) = Inr (at_url r (fold set_host hs c))"
  by (induction hs arbitrary: c) (auto simp: parse_chunk_at)

lemma set_join_bytes: "set (join_bytes x bs) \<subseteq> {x} \<union> \<Union> (set ` set bs)"
  by (induction x bs rule: join_bytes.induct) auto

lemma join_bytes_ascii:
  "unat x < 0x80 \<Longrightarrow> list_all (list_all (\<lambda>y. unat y < 0x80)) bs \<Longrightarrow> list_all (\<lambda>y. unat y < 0x80) (join_bytes x bs)"
  using set_join_bytes [of x bs] by (fastforce simp: list_all_iff)

lemma host_text_not_in:
  "percent_ok pd enc \<Longrightarrow> x \<in> {64, 47, 63, 44} \<Longrightarrow> x \<notin> set (host_text enc hp)"
  using enc_not_in [of pd enc x] plain_not_in [OF port_text_plain(1), of x]
  by (cases hp) (auto simp: host_text_def reserved_iff split: option.splits)

lemma parse_host_at:
  assumes "percent_ok pd enc" "list_all (\<lambda>(h, p). h \<noteq> [] \<and> utf8_valid h) hs"
    and "r = [] \<or> (\<exists>x t. r = x # t \<and> x \<in> {47, 63})"
  shows "parse_host pd (at_url (join_bytes 44 (map (host_text enc) hs) @ r) c) = Inr (at_url r (fold set_host hs c))"
proof -
  let ?j = "join_bytes 44 (map (host_text enc) hs)"
  have "set ?j \<inter> {47, 63} = {}"
    using set_join_bytes [of 44 "map (host_text enc) hs"] host_text_not_in [OF assms(1), of 47]
      host_text_not_in [OF assms(1), of 63] by fastforce
  then have u: "until_or_all {47, 63} (at_url (?j @ r) c) = Inr (?j, at_url r c)"
    using assms(3) by (intro until_or_all_at) auto
  show ?thesis
  proof (cases hs)
    case Nil
    with u show ?thesis by (simp add: parse_host_def)
  next
    case (Cons hp hs')
    have "host_text enc hp \<noteq> []"
      using Cons assms(2) enc_nonempty [OF assms(1)] by (cases hp) (auto simp: host_text_def)
    then have ne: "?j \<noteq> []" by (cases hs') (simp_all add: Cons)
    have "\<forall>b\<in>set (map (host_text enc) hs). 44 \<notin> set b"
      using host_text_not_in [OF assms(1), of 44] by auto
    then have "str_split 44 ?j = map (host_text enc) hs"
      by (intro str_split_join) (simp_all add: Cons)
    with u ne each_chunks [OF assms(1,2)] show ?thesis by (simp add: parse_host_def)
  qed
qed

lemma pair_text_not_in: "percent_ok pd enc \<Longrightarrow> x \<in> {64, 63, 38} \<Longrightarrow> x \<notin> set (pair_text enc kv)"
  using enc_not_in [of pd enc x] by (cases kv) (auto simp: pair_text_def)

lemma pair_text_ascii: "percent_ok pd enc \<Longrightarrow> list_all (\<lambda>y. unat y < 0x80) (pair_text enc kv)"
  using enc_ascii [of pd enc] by (cases kv) (simp add: pair_text_def)

lemma query_pair_at:
  assumes "percent_ok pd enc" "utf8_valid k" "utf8_valid v"
    and "rest = [] \<or> (\<exists>t. rest = 38 # t \<and> list_all (\<lambda>y. unat y < 0x80) t)"
  shows "query_pair pd (at_url (pair_text enc (k, v) @ rest) c) =
     fallible (bind_res (set_query (k, v) c) (\<lambda>c. Inr (at_url (drop 1 rest) c)))"
proof -
  have t: "take_until {61} (at_url (enc k @ 61 # enc v @ rest) c) = Inr (Some (enc k), at_url (61 # enc v @ rest) c)"
    using enc_not_in [OF assms(1), of 61 k] by (intro take_until_at) simp_all
  have e: "eat_byte (at_url (61 # enc v @ rest) c) = Inr (at_url (enc v @ rest) c)"
    using assms(4) enc_ascii [OF assms(1), of v] by (intro eat_byte_at) auto
  have v: "query_value (at_url (enc v @ rest) c) = Inr (enc v, at_url (drop 1 rest) c)"
  proof (cases "rest = []")
    case True
    have "take_until {38} (at_url (enc v) c) = Inr (None, at_url (enc v) c)"
      using enc_not_in [OF assms(1), of 38 v] by (intro take_until_none) simp
    with True show ?thesis by (simp add: query_value_def take_all_def)
  next
    case False
    with assms(4) obtain r where r: "rest = 38 # r" "list_all (\<lambda>y. unat y < 0x80) r" by auto
    have "take_until {38} (at_url (enc v @ 38 # r) c) = Inr (Some (enc v), at_url (38 # r) c)"
      using enc_not_in [OF assms(1), of 38 v] by (intro take_until_at) simp_all
    with r eat_byte_at [OF r(2)] show ?thesis by (simp add: query_value_def)
  qed
  have "host_param pd (enc v) (at_url s c) = Inr (at_url s (add_host v c))" for s
    using assms(3) percent_okD(1) [OF assms(1), of v] by (simp add: host_param_def add_host_def)
  then show ?thesis
    using t e v url_decode_enc [OF assms(1)] assms(2,3)
    by (cases "param k v c") (simp_all add: query_pair_def pair_text_def set_query_def fallible_def url_param_def)
qed

lemma query_loop_at:
  assumes "percent_ok pd enc" "list_all (\<lambda>(k, v). utf8_valid k \<and> utf8_valid v) kvs"
  shows "query_loop pd (at_url (join_bytes 38 (map (pair_text enc) kvs)) c) =
     fallible (bind_res (each set_query kvs c) (\<lambda>c. Inr (at_url [] c)))"
  using assms(2)
proof (induction kvs arbitrary: c)
  case Nil
  then show ?case by (simp add: query_loop.simps fallible_def)
next
  case (Cons kv kvs)
  obtain k v where kv: "kv = (k, v)" by (cases kv)
  let ?rest = "if kvs = [] then [] else 38 # join_bytes 38 (map (pair_text enc) kvs)"
  have j: "join_bytes 38 (map (pair_text enc) (kv # kvs)) = pair_text enc (k, v) @ ?rest"
    by (cases kvs) (simp_all add: kv)
  have "list_all (\<lambda>y. unat y < 0x80) (join_bytes 38 (map (pair_text enc) kvs))"
    using pair_text_ascii [OF assms(1)] by (intro join_bytes_ascii) (auto simp: list_all_iff)
  then have p: "query_pair pd (at_url (pair_text enc (k, v) @ ?rest) c) =
      fallible (bind_res (set_query (k, v) c) (\<lambda>c. Inr (at_url (drop 1 ?rest) c)))"
    using Cons.prems kv by (intro query_pair_at [OF assms(1)]) auto
  have d: "drop 1 ?rest = join_bytes 38 (map (pair_text enc) kvs)" by simp
  have ne: "pair_text enc (k, v) \<noteq> []" by (simp add: pair_text_def)
  show ?case
  proof (cases "set_query (k, v) c")
    case (Inl e)
    with p ne show ?thesis unfolding j by (subst query_loop.simps) (simp add: kv fallible_def)
  next
    case (Inr c')
    with p d ne Cons show ?thesis unfolding j by (subst query_loop.simps) (simp add: kv fallible_def del: drop_eq_Nil)
  qed
qed

lemma url_parse_text:
  assumes "percent_ok pd enc" "url_parts_ok u" "prefix \<in> {ascii ''postgres://'', ascii ''postgresql://''}"
  shows "url_parse pd (prefix @ url_text enc u) = fallible (bind_res (url_settings u) (\<lambda>c. Inr (Some c)))"
proof -
  let ?q = "if up_query u = [] then [] else 63 # join_bytes 38 (map (pair_text enc) (up_query u))"
  let ?hosts = "join_bytes 44 (map (host_text enc) (up_hosts u))"
  have ascii_q: "list_all (\<lambda>y. unat y < 0x80) (join_bytes 38 (map (pair_text enc) (up_query u)))"
    using pair_text_ascii [OF assms(1)] by (intro join_bytes_ascii) (auto simp: list_all_iff)
  have tail: "url_tail enc u = (case up_dbname u of Some d \<Rightarrow> 47 # enc d | None \<Rightarrow> []) @ ?q"
    by (simp add: url_tail_def)
  have rest_ascii: "list_all (\<lambda>y. unat y < 0x80) (?hosts @ url_tail enc u)"
  proof -
    have "list_all (\<lambda>y. unat y < 0x80) (host_text enc hp)" for hp
      using enc_ascii [OF assms(1)] plain_ascii [OF port_text_plain(1)]
      by (cases hp) (auto simp: host_text_def split: option.split)
    then have "list_all (\<lambda>y. unat y < 0x80) ?hosts" by (intro join_bytes_ascii) (auto simp: list_all_iff)
    with ascii_q enc_ascii [OF assms(1)] show ?thesis by (auto simp: tail split: option.split)
  qed
  have no_at: "64 \<notin> set (?hosts @ url_tail enc u)"
  proof -
    have "64 \<notin> set (join_bytes 38 (map (pair_text enc) (up_query u)))"
      using set_join_bytes [of 38 "map (pair_text enc) (up_query u)"] pair_text_not_in [OF assms(1), of 64] by fastforce
    moreover have "64 \<notin> set ?hosts"
      using set_join_bytes [of 44 "map (host_text enc) (up_hosts u)"] host_text_not_in [OF assms(1), of 64] by fastforce
    ultimately show ?thesis using enc_not_in [OF assms(1), of 64] by (auto simp: tail split: option.split)
  qed
  have tail_start: "url_tail enc u = [] \<or> (\<exists>x t. url_tail enc u = x # t \<and> x \<in> {47, 63})"
    by (auto simp: tail split: option.split)
  have path: "parse_path pd (at_url (url_tail enc u) c) = Inr (at_url ?q (set_path (up_dbname u) c))" for c
  proof (cases "up_dbname u")
    case None
    then show ?thesis by (simp add: tail parse_path_def set_path_def)
  next
    case (Some d)
    then have d: "d \<noteq> []" "utf8_valid d" using assms(2) by (auto simp: url_parts_ok_def)
    have "eat_byte (at_url (47 # enc d @ ?q) c) = Inr (at_url (enc d @ ?q) c)"
      using ascii_q enc_ascii [OF assms(1)] by (intro eat_byte_at) simp
    moreover have "until_or_all {63} (at_url (enc d @ ?q) c) = Inr (enc d, at_url ?q c)"
      using enc_not_in [OF assms(1), of 63 d] by (intro until_or_all_at) simp_all
    ultimately show ?thesis
      using Some d enc_nonempty [OF assms(1) d(1)] url_decode_enc [OF assms(1) d(2)]
      by (simp add: tail parse_path_def set_path_def fallible_def)
  qed
  have params: "parse_params pd (at_url ?q c) = fallible (bind_res (each set_query (up_query u) c) (\<lambda>c. Inr (at_url [] c)))" for c
    using eat_byte_at [OF ascii_q, of 63 c] query_loop_at [OF assms(1), of "up_query u" c] assms(2)
    by (simp add: parse_params_def url_parts_ok_def fallible_def)
  have prefix: "remove_url_prefix (prefix @ url_text enc u) = Some (url_text enc u)"
    using assms(3) by (auto simp: remove_url_prefix_def strip_prefix_def ascii_def)
  have cred: "parse_credentials pd (at_url (url_text enc u) config_new) =
      Inr (at_url (?hosts @ url_tail enc u) (set_creds (up_creds u) config_new))"
    unfolding url_text_def
    by (rule parse_credentials_at [OF assms(1) _ rest_ascii no_at]) (use assms(2) in \<open>simp add: url_parts_ok_def\<close>)
  have host: "parse_host pd (at_url (?hosts @ url_tail enc u) c) = Inr (at_url (url_tail enc u) (fold set_host (up_hosts u) c))" for c
    by (rule parse_host_at [OF assms(1) _ tail_start]) (use assms(2) in \<open>simp add: url_parts_ok_def\<close>)
  show ?thesis
    unfolding url_parse_def prefix option.case cred bind_res_simps host path params url_settings_def
    by (cases "each set_query (up_query u) (set_path (up_dbname u) (fold set_host (up_hosts u) (set_creds (up_creds u) config_new)))")
      (simp_all add: fallible_def)
qed

lemma config_from_url:
  assumes "percent_ok pd enc" "url_parts_ok u" "prefix \<in> {ascii ''postgres://'', ascii ''postgresql://''}"
  shows "config_from_str pd (prefix @ url_text enc u) = fallible (url_settings u)"
  using url_parse_text [OF assms] by (cases "url_settings u") (simp_all add: config_from_str_def fallible_def)

text \<open>
  C16: a URL sets exactly the options it spells: the user and the password, each host with its own port or 5432, the database and
  the pairs of the query in their order, with every byte of a part percent-encoded or plain. The only errors are those of the
  options in the query.
\<close>

theorem url_roundtrip:
  assumes "percent_ok pd enc" "url_parts_ok u" "prefix \<in> {ascii ''postgres://'', ascii ''postgresql://''}"
  shows "config_from_str pd (prefix @ url_text enc u) = fallible (url_settings u)"
  using assms by (rule config_from_url)

lemma ascii_eq_Nil [simp]: "ascii s = [] \<longleftrightarrow> s = []"
  by (simp add: ascii_def)

definition sample_url :: url_parts where
  "sample_url = \<lparr>up_creds = Some (ascii ''me'', Some [255]), up_hosts = [(ascii ''/tmp'', Some 5433), (ascii ''h'', None)],
     up_dbname = Some (ascii ''d''), up_query = [(ascii ''sslmode'', ascii ''require'')]\<rparr>"

theorem url_roundtrip_witness:
  "config_from_str sample_decode (ascii ''postgres://'' @ url_text sample_encode sample_url) =
     Inr (set_ssl_mode Ssl_Require (set_dbname (ascii ''d'') (add_port 5432 (add_host (ascii ''h'')
       (add_port 5433 (add_host (ascii ''/tmp'') (set_password [255] (set_user (ascii ''me'') config_new)))))))) \<and>
   cf_host (add_host (ascii ''/tmp'') config_new) = [Unix (ascii ''/tmp'')]"
proof -
  have "utf8_valid (ascii s)" if "list_all (\<lambda>c. of_char c < (128 :: nat)) s" for s
    using that by (intro utf8_valid_ascii) (simp add: ascii_def list_all_iff)
  then have "url_parts_ok sample_url" by (simp add: url_parts_ok_def sample_url_def)
  moreover have "url_settings sample_url = Inr (set_ssl_mode Ssl_Require (set_dbname (ascii ''d'') (add_port 5432 (add_host (ascii ''h'')
       (add_port 5433 (add_host (ascii ''/tmp'') (set_password [255] (set_user (ascii ''me'') config_new))))))))"
    by (simp add: url_settings_def sample_url_def set_creds_def set_host_def set_path_def set_query_def param_def choice_def ascii_def)
  ultimately show ?thesis
    using url_roundtrip [OF sample_percent_ok, of sample_url "ascii ''postgres://''"]
    by (simp add: fallible_def setter_defs config_new_def ascii_def)
qed

section \<open>Two formats, one configuration\<close>

text \<open>The same settings as a URL and as a key-value string. Texts are characters; a host has no comma.\<close>

record settings =
  sg_user :: rstr
  sg_password :: rstr
  sg_hosts :: "(rstr \<times> u16 option) list"
  sg_dbname :: rstr

definition settings_ok :: "settings \<Rightarrow> bool" where
  "settings_ok g \<longleftrightarrow> list_all is_scalar (sg_user g) \<and> list_all is_scalar (sg_password g) \<and> list_all is_scalar (sg_dbname g) \<and>
     sg_dbname g \<noteq> [] \<and> sg_hosts g \<noteq> [] \<and>
     list_all (\<lambda>(h, p). h \<noteq> [] \<and> list_all is_scalar h \<and> of_char CHR '','' \<notin> set h) (sg_hosts g)"

definition settings_url :: "settings \<Rightarrow> url_parts" where
  "settings_url g =
     \<lparr>up_creds = Some (utf8_encode (sg_user g), Some (utf8_encode (sg_password g))),
      up_hosts = map (map_prod utf8_encode id) (sg_hosts g), up_dbname = Some (utf8_encode (sg_dbname g)), up_query = []\<rparr>"

fun join_chars :: "rstr list \<Rightarrow> rstr" where
  "join_chars [] = []"
| "join_chars [x] = x"
| "join_chars (x # xs) = x @ of_char CHR '','' # join_chars xs"

definition port_chars :: "u16 option \<Rightarrow> rstr" where
  "port_chars p = (case p of Some p \<Rightarrow> map unat (port_text p) | None \<Rightarrow> [])"

definition quoted_item :: "string \<Rightarrow> rstr \<Rightarrow> kv_item" where
  "quoted_item key v =
     \<lparr>kv_lead = chars '' '', kv_key = chars key, kv_before = [], kv_after = [], kv_value = Quoted v\<rparr>"

definition settings_items :: "settings \<Rightarrow> kv_item list" where
  "settings_items g =
     [quoted_item ''user'' (sg_user g), quoted_item ''password'' (sg_password g),
      quoted_item ''host'' (join_chars (map fst (sg_hosts g))),
      quoted_item ''port'' (join_chars (map (port_chars \<circ> snd) (sg_hosts g))),
      quoted_item ''dbname'' (sg_dbname g)]"

lemma encode_join: "utf8_encode (join_chars xs) = join_bytes 44 (map utf8_encode xs)"
  by (induction xs rule: join_chars.induct) (simp_all add: utf8_encode_char_def)

lemma encode_port: "utf8_encode (port_chars p) = (case p of Some p \<Rightarrow> port_text p | None \<Rightarrow> [])"
proof (cases p)
  case (Some q)
  have "list_all (\<lambda>c. c < 128) (map unat (port_text q))"
    using plain_ascii [OF port_text_plain(1), of q] by (simp add: list_all_iff)
  then show ?thesis by (simp add: Some port_chars_def utf8_encode_ascii comp_def)
qed (simp add: port_chars_def)

lemma comma_free: "of_char CHR '','' \<notin> set h \<Longrightarrow> list_all is_scalar h \<Longrightarrow> 44 \<notin> set (utf8_encode h)"
proof
  assume h: "of_char CHR '','' \<notin> set h" "list_all is_scalar h" and "44 \<in> set (utf8_encode h)"
  then obtain a b where "utf8_encode h = a @ 44 # b" by (meson split_list)
  with utf8_encode_split [OF h(2) this] h(1) show False by auto
qed

lemma port_add_host: "add_host h (add_port p c) = add_port p (add_host h c)"
  by (simp add: add_host_def add_host_path_def add_port_def)

lemma fold_set_host:
  "fold set_host hs c = fold (\<lambda>(h, p). add_port (case p of Some p \<Rightarrow> p | None \<Rightarrow> 5432)) hs (fold (\<lambda>(h, p). add_host h) hs c)"
proof (induction hs arbitrary: c)
  case (Cons hp hs)
  have "fold (\<lambda>(h, p). add_host h) hs (add_port q c) = add_port q (fold (\<lambda>(h, p). add_host h) hs c)" for q c
    by (induction hs arbitrary: c) (auto simp: port_add_host)
  with Cons show ?case by (simp add: set_host_def split: prod.split)
qed simp

lemma each_Inr: "each (\<lambda>x c. Inr (f x c)) xs c = Inr (fold f xs c)"
  by (induction xs arbitrary: c) simp_all

lemma each_ports:
  "each param_port (map (\<lambda>(h, p). case p of Some p \<Rightarrow> port_text p | None \<Rightarrow> []) hs) c =
     Inr (fold (\<lambda>(h, p). add_port (case p of Some p \<Rightarrow> p | None \<Rightarrow> 5432)) hs c)"
proof (induction hs arbitrary: c)
  case (Cons hp hs)
  have "port_text p \<noteq> []" for p using show_nat_decimal [of "unat p"] by (simp add: port_text_def ascii_def)
  then have "param_port (case snd hp of Some p \<Rightarrow> port_text p | None \<Rightarrow> []) c =
      Inr (add_port (case snd hp of Some p \<Rightarrow> p | None \<Rightarrow> 5432) c)" for c
    by (simp add: param_port_def u16_port_text split: option.split)
  with Cons show ?case by (simp add: split_beta)
qed simp

lemma encode_chars: "list_all (\<lambda>c. of_char c < (128 :: nat)) s \<Longrightarrow> utf8_encode (chars s) = ascii s"
  by (rule chars_ascii)

lemma set_host_option:
  assumes "settings_ok g"
  shows "param (ascii ''host'') (utf8_encode (join_chars (map fst (sg_hosts g)))) c =
    Inr (fold (\<lambda>(h, p). add_host h) (map (map_prod utf8_encode id) (sg_hosts g)) c)"
proof -
  have "\<forall>b\<in>set (map utf8_encode (map fst (sg_hosts g))). 44 \<notin> set b"
    using assms comma_free by (fastforce simp: settings_ok_def list_all_iff)
  then have "str_split 44 (utf8_encode (join_chars (map fst (sg_hosts g)))) = map utf8_encode (map fst (sg_hosts g))"
    using assms unfolding encode_join by (intro str_split_join) (simp_all add: settings_ok_def)
  then show ?thesis
    by (simp add: param_def ascii_def each_Inr fold_map comp_def split_beta)
qed

lemma set_port_option:
  assumes "settings_ok g"
  shows "param (ascii ''port'') (utf8_encode (join_chars (map (port_chars \<circ> snd) (sg_hosts g)))) c =
    Inr (fold (\<lambda>(h, p). add_port (case p of Some p \<Rightarrow> p | None \<Rightarrow> 5432)) (map (map_prod utf8_encode id) (sg_hosts g)) c)"
proof -
  let ?texts = "map (\<lambda>(h, p). case p of Some p \<Rightarrow> port_text p | None \<Rightarrow> []) (sg_hosts g)"
  have m: "map utf8_encode (map (port_chars \<circ> snd) (sg_hosts g)) = ?texts"
    by (simp add: comp_def encode_port split_beta)
  have "\<forall>b\<in>set ?texts. 44 \<notin> set b"
    using port_text_plain(3) by (auto split: option.splits)
  then have "str_split 44 (utf8_encode (join_chars (map (port_chars \<circ> snd) (sg_hosts g)))) = ?texts"
    using assms unfolding encode_join m by (intro str_split_join) (simp_all add: settings_ok_def)
  then show ?thesis
    using each_ports [of "sg_hosts g" c] by (simp add: param_def ascii_def fold_map comp_def case_prod_beta')
qed

lemma settings_items_ok: "settings_ok g \<Longrightarrow> list_all kv_item_ok (settings_items g) \<and> kv_separated (settings_items g) []"
proof -
  assume g: "settings_ok g"
  have join: "list_all is_scalar (join_chars xs)" if "list_all (list_all is_scalar) xs" for xs
    using that by (induction xs rule: join_chars.induct) (auto simp: is_scalar_def)
  have "list_all is_scalar (port_chars p)" for p
  proof (cases p)
    case (Some q)
    have "is_scalar (unat x)" if "unat x < 0x80" for x :: u8 using that by (simp add: is_scalar_def)
    with Some plain_ascii [OF port_text_plain(1), of q] show ?thesis by (auto simp: port_chars_def list_all_iff)
  qed (simp add: port_chars_def)
  then have "list_all is_scalar (join_chars (map (port_chars \<circ> snd) (sg_hosts g)))"
    by (intro join) (simp add: list_all_iff)
  moreover have "list_all is_scalar (join_chars (map fst (sg_hosts g)))"
    using g by (intro join) (auto simp: settings_ok_def list_all_iff)
  ultimately show ?thesis
    using g by (simp add: settings_items_def quoted_item_def kv_item_ok_def settings_ok_def chars_def keyword_char_def
        is_whitespace_def is_scalar_def)
qed

text \<open>
  The two formats agree. The URL and the key-value string of the same user, password, hosts with ports and database give the
  same configuration, for both schemes and whatever characters the texts contain; an omitted port means 5432 in both.
\<close>

lemma formats_agree:
  assumes "percent_ok pd enc" "settings_ok g" "prefix \<in> {ascii ''postgres://'', ascii ''postgresql://''}"
  shows "config_from_str pd (prefix @ url_text enc (settings_url g)) =
    config_from_str pd (utf8_encode (kv_text (settings_items g)))"
proof -
  have u: "url_parts_ok (settings_url g)"
    using assms(2) by (simp add: url_parts_ok_def settings_url_def settings_ok_def list_all_iff case_prod_beta')
  have kv: "kv_parse (utf8_encode (kv_text (settings_items g))) = url_settings (settings_url g)"
  proof -
    have "kv_parse (utf8_encode (kv_text (settings_items g))) = set_each (map kv_setting (settings_items g)) config_new"
    proof -
      have "list_all is_scalar (kv_text (settings_items g) @ [])"
        using kv_text_scalar settings_items_ok [OF assms(2)] by simp
      then show ?thesis
        using kv_parse_text [of "settings_items g" "[]"] settings_items_ok [OF assms(2)] by simp
    qed
    also have "\<dots> = url_settings (settings_url g)"
      using set_host_option [OF assms(2)] set_port_option [OF assms(2)]
      by (simp add: settings_items_def set_each_def kv_setting_def quoted_item_def encode_chars url_settings_def settings_url_def
          set_creds_def set_path_def fold_set_host) (simp add: param_def ascii_def)
    finally show ?thesis .
  qed
  have "remove_url_prefix (utf8_encode (kv_text (settings_items g))) = None"
    by (simp add: settings_items_def kv_text_def quoted_item_def chars_def utf8_encode_char_def remove_url_prefix_def
        strip_prefix_def ascii_def)
  then have "config_from_str pd (utf8_encode (kv_text (settings_items g))) = fallible (url_settings (settings_url g))"
    using kv by (simp add: config_from_str_def url_parse_def)
  with config_from_url [OF assms(1) u assms(3)] show ?thesis by simp
qed

definition sample_settings :: settings where
  "sample_settings = \<lparr>sg_user = [233], sg_password = chars ''p@ss word'', sg_hosts = [(chars ''a'', None), (chars ''b'', Some 1)],
     sg_dbname = chars ''d''\<rparr>"

theorem formats_agree_witness:
  "config_from_str sample_decode (ascii ''postgresql://'' @ url_text sample_encode (settings_url sample_settings)) =
    config_from_str sample_decode (utf8_encode (kv_text (settings_items sample_settings)))"
  by (rule formats_agree [OF sample_percent_ok])
    (simp_all add: settings_ok_def sample_settings_def chars_def is_scalar_def)

section \<open>An unescaped at sign\<close>

text \<open>
  The user is read up to the first at sign of the whole URL. An unescaped at sign in the query makes the host, the database
  and the query the name of the user, and what follows it the host.
\<close>

lemma at_sign_moves_host:
  assumes "percent_ok pd enc" "plain h" "plain d" "plain v" "plain w" "w \<noteq> []" "37 \<notin> set (h @ d @ v @ w)"
  shows "config_from_str pd (ascii ''postgres://'' @ h @ ascii ''/'' @ d @ ascii ''?application_name='' @ v @ ascii ''@'' @ w) =
    Inr (add_port 5432 (add_host w (set_user (h @ ascii ''/'' @ d @ ascii ''?application_name='' @ v) config_new)))"
proof -
  let ?u = "h @ ascii ''/'' @ d @ ascii ''?application_name='' @ v"
  have no: "x \<notin> set h" "x \<notin> set d" "x \<notin> set v" "x \<notin> set w" if "x \<in> reserved" for x
    using assms(2-5) plain_not_in that by blast+
  have asc: "list_all (\<lambda>x. unat x < 0x80) w" "list_all (\<lambda>x. unat x < 0x80) ?u"
    using assms(2-5) plain_ascii by (auto simp: ascii_def)
  have "take_until {64} (at_url (?u @ 64 # w) config_new) = Inr (Some ?u, at_url (64 # w) config_new)"
    using no [of 64] by (intro take_until_at) (auto simp: reserved_iff ascii_def)
  moreover have "str_splitn2 58 ?u = (?u, None)"
    using no [of 58] by (intro str_splitn2_at(2)) (auto simp: reserved_iff ascii_def)
  moreover have "url_decode pd ?u = Inr ?u" "pd w = w"
    using percent_okD(3) [OF assms(1), of ?u] percent_okD(3) [OF assms(1), of w] assms(7) utf8_valid_ascii [OF asc(2)]
    by (auto simp: url_decode_def ascii_def)
  ultimately have cred: "parse_credentials pd (at_url (?u @ 64 # w) config_new) = Inr (at_url w (set_user ?u config_new))"
    using eat_byte_at [OF asc(1)] by (simp add: parse_credentials_def fallible_def)
  have "until_or_all {47, 63} (at_url (w @ []) c) = Inr (w, at_url [] c)" for c
    using no [of 47] no [of 63] by (intro until_or_all_at) (auto simp: reserved_iff)
  moreover have "parse_chunk pd w (at_url [] c) = Inr (at_url [] (add_port 5432 (add_host w c)))" for c
  proof -
    have "host_and_port w = Inr (w, None)"
      using no [of 91] no [of 58] assms(6) str_splitn2_at(2) [of 58 w] by (cases w) (auto simp: host_and_port_def reserved_iff)
    moreover have "host_param pd w (at_url [] c) = Inr (at_url [] (add_host w c))"
      using \<open>pd w = w\<close> utf8_valid_ascii [OF asc(1)] by (simp add: host_param_def add_host_def)
    ultimately show ?thesis
      using url_decode_port(2) [OF assms(1)] by (simp add: parse_chunk_def fallible_def url_param_def param_default_port)
  qed
  ultimately have host: "parse_host pd (at_url w c) = Inr (at_url [] (add_port 5432 (add_host w c)))" for c
    using no [of 44] assms(6) by (simp add: parse_host_def str_split_none reserved_iff)
  have "remove_url_prefix (ascii ''postgres://'' @ ?u @ 64 # w) = Some (?u @ 64 # w)"
    by (simp add: remove_url_prefix_def strip_prefix_def ascii_def)
  then have "url_parse pd (ascii ''postgres://'' @ ?u @ 64 # w) = Inr (Some (add_port 5432 (add_host w (set_user ?u config_new))))"
    using cred host by (simp add: url_parse_def parse_path_def parse_params_def)
  then show ?thesis by (simp add: config_from_str_def ascii_def)
qed

theorem at_sign_moves_host_witness:
  "\<exists>c. config_from_str sample_decode (ascii ''postgres://localhost/db?application_name=me@work'') = Inr c \<and>
     cf_host c = [Tcp (ascii ''work'')] \<and> cf_dbname c = None \<and>
     cf_user c = Some (ascii ''localhost/db?application_name=me'')"
proof -
  have "plain (ascii ''localhost'')" "plain (ascii ''db'')" "plain (ascii ''me'')" "plain (ascii ''work'')"
    by (simp_all add: ascii_def reserved_def)
  note at_sign_moves_host [OF sample_percent_ok this]
  then show ?thesis by (simp add: ascii_def setter_defs config_new_def)
qed

end
