(* ===== verification/Rows.thy ===== *)
theory Rows
  imports Db_Error
begin

text \<open>
  Postgres types and the conversions of values (\<open>opengauss-types/src/lib.rs\<close>), and the rows of a query (\<open>row.rs\<close>,
  \<open>simple_query.rs\<close>): a row keeps the body of its message and the ranges of the values in it. A conversion \<open>FromSql\<close> is the
  record of its methods; those of texts, characters, object identifiers and options are given. \<open>Panic\<close> is a panic of the code.
\<close>

section \<open>Types\<close>

text \<open>A built-in type is its identifier in the generated table; a type looked up in the server is \<open>Other\<close>.\<close>

datatype pg_type = Builtin oid | Other bytes oid kind bytes
and kind =
    Simple
  | Enum "bytes list"
  | Pseudo
  | Array pg_type
  | Range pg_type
  | Multirange pg_type
  | Domain pg_type
  | Composite "type_field list"
and type_field = Type_Field bytes pg_type

fun type_oid :: "pg_type \<Rightarrow> oid" where
  "type_oid (Builtin oid) = oid"
| "type_oid (Other name oid kind schema) = oid"

text \<open>The name of a built-in type is in the generated table; none of them is a name the conversions look for.\<close>

definition has_name :: "string \<Rightarrow> pg_type \<Rightarrow> bool" where
  "has_name s t = (case t of Builtin _ \<Rightarrow> False | Other name _ _ _ \<Rightarrow> name = ascii s)"

abbreviation TEXT :: pg_type where "TEXT \<equiv> Builtin 25"

section \<open>Conversions\<close>

record 'a from_sql =
  fs_accepts :: "pg_type \<Rightarrow> bool"
  fs_from_sql :: "pg_type \<Rightarrow> bytes \<Rightarrow> sql_cause + 'a"
  fs_null :: "pg_type \<Rightarrow> sql_cause + 'a"

definition from_sql_nullable :: "'a from_sql \<Rightarrow> pg_type \<Rightarrow> bytes option \<Rightarrow> sql_cause + 'a" where
  "from_sql_nullable f ty raw = (case raw of Some raw \<Rightarrow> fs_from_sql f ty raw | None \<Rightarrow> fs_null f ty)"

definition str_from_sql :: "bytes from_sql" where
  "str_from_sql =
     \<lparr>fs_accepts = (\<lambda>ty. ty \<in> Builtin ` {1043, 25, 1042, 19, 705} \<or> has_name ''citext'' ty \<or> has_name ''ltree'' ty \<or>
        has_name ''lquery'' ty \<or> has_name ''ltxtquery'' ty),
      fs_from_sql = (\<lambda>ty raw. map_err Sql_Cause
        (if has_name ''ltree'' ty then ltree_from_sql raw
         else if has_name ''lquery'' ty then lquery_from_sql raw
         else if has_name ''ltxtquery'' ty then ltxtquery_from_sql raw
         else text_from_sql raw)),
      fs_null = (\<lambda>_. Inl Was_Null)\<rparr>"

definition simple_from :: "(bytes \<Rightarrow> sql_error + 'a) \<Rightarrow> oid list \<Rightarrow> 'a from_sql" where
  "simple_from f expected =
     \<lparr>fs_accepts = (\<lambda>ty. ty \<in> Builtin ` set expected), fs_from_sql = (\<lambda>_ raw. map_err Sql_Cause (f raw)),
      fs_null = (\<lambda>_. Inl Was_Null)\<rparr>"

definition i8_from_sql :: "i8 from_sql" where
  "i8_from_sql = simple_from char_from_sql [18]"

definition u32_from_sql :: "oid from_sql" where
  "u32_from_sql = simple_from oid_from_sql [26, 24, 2202, 2203, 2204, 2205, 2206, 4089, 4191, 28, 29]"

definition option_from_sql :: "'a from_sql \<Rightarrow> 'a option from_sql" where
  "option_from_sql f =
     \<lparr>fs_accepts = fs_accepts f, fs_from_sql = (\<lambda>ty raw. bind_res (fs_from_sql f ty raw) (\<lambda>x. Inr (Some x))),
      fs_null = (\<lambda>_. Inr None)\<rparr>"

section \<open>Indices of columns\<close>

text \<open>\<open>eq_ignore_ascii_case\<close>, and the index of a name: an exact match first, then one without regard to case.\<close>

definition ascii_lower :: "u8 \<Rightarrow> u8" where
  "ascii_lower b = (if 65 \<le> unat b \<and> unat b \<le> 90 then b + 32 else b)"

definition eq_ignore_ascii_case :: "bytes \<Rightarrow> bytes \<Rightarrow> bool" where
  "eq_ignore_ascii_case a b \<longleftrightarrow> map ascii_lower a = map ascii_lower b"

fun position :: "('a \<Rightarrow> bool) \<Rightarrow> 'a list \<Rightarrow> nat option" where
  "position f [] = None"
| "position f (x # xs) = (if f x then Some 0 else map_option Suc (position f xs))"

datatype row_index = By_Number nat | By_Name bytes

fun row_idx :: "row_index \<Rightarrow> bytes list \<Rightarrow> nat option" where
  "row_idx (By_Number i) names = (if i \<ge> length names then None else Some i)"
| "row_idx (By_Name s) names =
     (case position (\<lambda>d. d = s) names of
        Some i \<Rightarrow> Some i
      | None \<Rightarrow> position (\<lambda>d. eq_ignore_ascii_case d s) names)"

text \<open>\<open>to_string\<close> of an index.\<close>

fun index_text :: "row_index \<Rightarrow> bytes" where
  "index_text (By_Number i) = ascii (show_nat i)"
| "index_text (By_Name s) = s"

section \<open>Statements and rows\<close>

record column =
  col_name :: bytes
  col_table_oid :: "oid option"
  col_column_id :: "i16 option"
  col_type_modifier :: i32
  col_type :: pg_type

record statement =
  st_name :: bytes
  st_params :: "pg_type list"
  st_columns :: "column list"

type_synonym range = "(nat \<times> nat) option"

record row =
  row_statement :: statement
  row_body :: data_row_body
  row_ranges :: "range list"

record simple_row =
  sr_columns :: "bytes list"
  sr_body :: data_row_body
  sr_ranges :: "range list"

text \<open>\<open>body.ranges().collect()\<close>.\<close>

function ranges_loop :: "data_row_ranges \<Rightarrow> io_error + range list" where
  "ranges_loop s =
     bind_res (data_row_ranges_next s) (\<lambda>(x, s).
     case x of
       None \<Rightarrow> Inr []
     | Some r \<Rightarrow> bind_res (ranges_loop s) (\<lambda>rs. Inr (r # rs)))"
  by pat_completeness auto
termination
  by (relation "measure (\<lambda>s. length (drr_buf s))")
    (auto simp: data_row_ranges_next_def read_be_Inr Let_def split: if_splits)

declare ranges_loop.simps [simp del]

definition collect_ranges_of :: "data_row_body \<Rightarrow> error + range list" where
  "collect_ranges_of body = map_err E_Parse (ranges_loop (data_row_body_ranges body))"

definition row_new :: "statement \<Rightarrow> data_row_body \<Rightarrow> error + row" where
  "row_new statement body =
     bind_res (collect_ranges_of body) (\<lambda>ranges.
     Inr \<lparr>row_statement = statement, row_body = body, row_ranges = ranges\<rparr>)"

definition simple_row_new :: "bytes list \<Rightarrow> data_row_body \<Rightarrow> error + simple_row" where
  "simple_row_new columns body =
     bind_res (collect_ranges_of body) (\<lambda>ranges.
     Inr \<lparr>sr_columns = columns, sr_body = body, sr_ranges = ranges\<rparr>)"

definition row_columns :: "row \<Rightarrow> column list" where
  "row_columns r = st_columns (row_statement r)"

definition row_len :: "row \<Rightarrow> nat" where
  "row_len r = length (row_columns r)"

text \<open>The bytes of a value: \<open>ranges[idx]\<close> and the slice of the buffer both panic out of bounds.\<close>

definition value_at :: "bytes \<Rightarrow> range list \<Rightarrow> nat \<Rightarrow> error fault + bytes option" where
  "value_at storage ranges idx =
     (if idx \<ge> length ranges then Inl Panic
      else (case ranges ! idx of
              None \<Rightarrow> Inr None
            | Some (a, b) \<Rightarrow>
                if a \<le> b \<and> b \<le> length storage then Inr (Some (take (b - a) (drop a storage))) else Inl Panic))"

definition try_get :: "'a from_sql \<Rightarrow> row_index \<Rightarrow> row \<Rightarrow> error fault + 'a" where
  "try_get f idx r =
     (case row_idx idx (map col_name (row_columns r)) of
        None \<Rightarrow> Inl (Fault (E_Column (index_text idx)))
      | Some i \<Rightarrow>
          (let ty = col_type (row_columns r ! i)
           in if \<not> fs_accepts f ty then Inl (Fault (E_FromSql Wrong_Type i))
              else bind_res (value_at (dr_storage (row_body r)) (row_ranges r) i) (\<lambda>raw.
                   map_err (\<lambda>e. Fault (E_FromSql e i)) (from_sql_nullable f ty raw))))"

definition row_get :: "'a from_sql \<Rightarrow> row_index \<Rightarrow> row \<Rightarrow> 'a option" where
  "row_get f idx r = (case try_get f idx r of Inr x \<Rightarrow> Some x | Inl _ \<Rightarrow> None)"

definition simple_try_get :: "row_index \<Rightarrow> simple_row \<Rightarrow> error fault + bytes option" where
  "simple_try_get idx r =
     (case row_idx idx (sr_columns r) of
        None \<Rightarrow> Inl (Fault (E_Column (index_text idx)))
      | Some i \<Rightarrow>
          bind_res (value_at (dr_storage (sr_body r)) (sr_ranges r) i) (\<lambda>buf.
          map_err (\<lambda>e. Fault (E_FromSql e i)) (from_sql_nullable (option_from_sql str_from_sql) TEXT buf)))"

section \<open>Reading a row\<close>

lemma ranges_loop_collect: "collect n data_row_ranges_next s = Some r \<Longrightarrow> ranges_loop s = r"
  by (rule drain_collect) (rule ranges_loop.simps)

text \<open>The body of a row of values, as the server sends it.\<close>

definition row_of :: "bytes option list \<Rightarrow> data_row_body" where
  "row_of vs = \<lparr>dr_storage = concat (map nullable_bytes vs), dr_len = of_nat (length vs)\<rparr>"

definition row_fits :: "bytes option list \<Rightarrow> bool" where
  "row_fits vs \<longleftrightarrow> length vs \<le> 65535 \<and> list_all fits_i32 vs"

lemma ranges_row_of: "row_fits vs \<Longrightarrow> collect_ranges_of (row_of vs) = Inr (ranges_of 0 vs)"
  using ranges_loop_collect [OF collect_ranges [of vs "Suc (length vs)" "length (concat (map nullable_bytes vs))" 0]]
  by (simp add: row_fits_def collect_ranges_of_def row_of_def data_row_body_ranges_def)

lemma length_ranges_of [simp]: "length (ranges_of off vs) = length vs"
  by (induction off vs rule: ranges_of.induct) simp_all

lemma ranges_of_bounds:
  "i < length vs \<Longrightarrow> ranges_of off vs ! i = Some (a, b) \<Longrightarrow>
     a \<le> b \<and> b \<le> off + length (concat (map nullable_bytes vs))"
proof (induction off vs arbitrary: i rule: ranges_of.induct)
  case (2 off vs)
  then show ?case by (cases i) (fastforce simp: nullable_bytes_simps)+
next
  case (3 off d vs)
  then show ?case by (cases i) (fastforce simp: nullable_bytes_simps)+
qed simp

lemma value_at_row:
  assumes "i < length vs"
  shows "value_at (dr_storage (row_of vs)) (ranges_of 0 vs) i = Inr (vs ! i)"
proof -
  have "row_value (dr_storage (row_of vs)) (ranges_of 0 vs ! i) = vs ! i"
    using row_values_ranges [of 0 "dr_storage (row_of vs)" vs] assms
    by (metis drop0 length_ranges_of nth_map row_of_def data_row_body.select_convs(1) zero_le)
  then show ?thesis
    using ranges_of_bounds [OF assms, of 0] assms
    by (cases "ranges_of 0 vs ! i") (auto simp: value_at_def row_of_def)
qed

lemma position_Some: "position f xs = Some i \<Longrightarrow> i < length xs \<and> f (xs ! i) \<and> (\<forall>j<i. \<not> f (xs ! j))"
proof (induction f xs arbitrary: i rule: position.induct)
  case (2 f x xs)
  show ?case
  proof (cases "f x")
    case False
    with "2.prems" obtain k where k: "position f xs = Some k" "i = Suc k" by auto
    with "2.IH" [OF False k(1)] False show ?thesis by (auto simp: less_Suc_eq_0_disj)
  qed (use "2.prems" in auto)
qed simp

lemma position_None: "position f xs = None \<longleftrightarrow> (\<forall>x\<in>set xs. \<not> f x)"
  by (induction f xs rule: position.induct) auto

lemma row_idx_bound: "row_idx idx names = Some i \<Longrightarrow> i < length names"
  by (cases idx) (auto split: if_splits option.splits dest: position_Some)

text \<open>
  A value comes out of a row as it went in: for a row of any values and nulls, whose storage is what the server sends, the value
  in a column is converted from exactly the bytes of that column, whether the column is chosen by its number, its name or a
  name in another case; an exact match of the name wins over the others.
\<close>

lemma row_values_read_back:
  assumes "row_fits vs" "row_idx idx (map col_name (st_columns st)) = Some i" "i < length vs"
    and "fs_accepts f (col_type (st_columns st ! i))"
  shows "\<exists>r. row_new st (row_of vs) = Inr r \<and>
    try_get f idx r = map_err (\<lambda>e. Fault (E_FromSql e i)) (from_sql_nullable f (col_type (st_columns st ! i)) (vs ! i))"
  using assms value_at_row [OF assms(3)]
  by (simp add: row_new_def ranges_row_of try_get_def row_columns_def Let_def)

definition sample_column :: "string \<Rightarrow> pg_type \<Rightarrow> column" where
  "sample_column name ty =
     \<lparr>col_name = ascii name, col_table_oid = None, col_column_id = None, col_type_modifier = -1, col_type = ty\<rparr>"

definition sample_statement :: statement where
  "sample_statement = \<lparr>st_name = ascii ''s0'', st_params = [], st_columns = [sample_column ''Id'' (Builtin 26), sample_column ''id'' TEXT]\<rparr>"

theorem row_values_read_back_witness:
  "\<exists>r. row_new sample_statement (row_of [None, Some (ascii ''x'')]) = Inr r \<and> try_get str_from_sql (By_Name (ascii ''id'')) r = Inr (ascii ''x'')"
proof -
  have "row_fits [None, Some (ascii ''x'')]" by (simp add: row_fits_def fits_i32_def)
  moreover have "row_idx (By_Name (ascii ''id'')) (map col_name (st_columns sample_statement)) = Some 1"
    by (simp add: sample_statement_def sample_column_def ascii_def)
  moreover have "fs_accepts str_from_sql (col_type (st_columns sample_statement ! 1))"
    by (simp add: sample_statement_def sample_column_def str_from_sql_def)
  moreover have "from_sql_nullable str_from_sql TEXT (Some (ascii ''x'')) = Inr (ascii ''x'')"
    using utf8_valid_ascii [of "ascii ''x''"]
    by (simp add: from_sql_nullable_def str_from_sql_def has_name_def text_from_sql_def from_utf8_def ascii_def)
  ultimately show ?thesis
    using row_values_read_back [of "[None, Some (ascii ''x'')]" "By_Name (ascii ''id'')" sample_statement 1 str_from_sql]
    by (simp add: sample_statement_def sample_column_def)
qed

text \<open>
  A row with fewer values than the statement has columns makes the accessor that promises an error panic: the server decides the
  number of values, and nothing compares it with the columns.
\<close>

lemma short_row_panics:
  assumes "row_fits vs" "row_idx idx (map col_name (st_columns st)) = Some i" "length vs \<le> i"
    and "fs_accepts f (col_type (st_columns st ! i))"
  shows "\<exists>r. row_new st (row_of vs) = Inr r \<and> try_get f idx r = Inl Panic"
  using assms by (simp add: row_new_def ranges_row_of try_get_def row_columns_def Let_def value_at_def)

theorem short_row_panics_witness:
  "\<exists>r. row_new sample_statement (row_of []) = Inr r \<and> try_get str_from_sql (By_Number 1) r = Inl Panic"
  by (rule short_row_panics [of _ _ _ 1])
    (simp_all add: row_fits_def sample_statement_def sample_column_def str_from_sql_def)

end
