(* ===== verification/Inner_Client.thy ===== *)
theory Inner_Client
  imports Connection Rows
begin

text \<open>
  The client's side of a request (\<open>client.rs\<close>): \<open>InnerClient\<close> with its shared buffer, the channel to the connection task and the
  cache of types, and the monad in which the operations on it run. An operation awaits the answers of the server: it may
  never complete, which is \<open>None\<close>, panic, fail or return a result.

  The connection is known by what it does with the successive requests: \<open>ic_answers\<close> gives for each the channel on which the answers
  arrive, or \<open>None\<close> when the connection is gone and the request is refused. \<open>ic_requests\<close> records the requests that were accepted.
  The model's writers return what they wrote or their error; what a writer had appended to the shared buffer when it failed is
  taken from \<open>ic_partials\<close>, one entry for each closure that fails, so that a theorem for every \<open>ic_partials\<close> holds whatever it was.
\<close>

section \<open>State\<close>

record inner_client =
  ic_buffer :: bytes
  ic_requests :: "request_messages list"
  ic_answers :: "backend_messages channel option list"
  ic_next_statement :: u64
  ic_next_portal :: u64
  ic_typeinfo :: "statement option"
  ic_typeinfo_composite :: "statement option"
  ic_typeinfo_enum :: "statement option"
  ic_types :: "oid \<rightharpoonup> pg_type"
  ic_partials :: "bytes list"

definition client_new :: "backend_messages channel option list \<Rightarrow> inner_client" where
  "client_new answers =
     \<lparr>ic_buffer = [], ic_requests = [], ic_answers = answers, ic_next_statement = 0, ic_next_portal = 0, ic_typeinfo = None,
      ic_typeinfo_composite = None, ic_typeinfo_enum = None, ic_types = Map.empty, ic_partials = []\<rparr>"

section \<open>Operations that await\<close>

type_synonym 'a flow = "inner_client \<Rightarrow> ((error fault + 'a) \<times> inner_client) option"

definition flow_ret :: "'a \<Rightarrow> 'a flow" where
  "flow_ret x s = Some (Inr x, s)"

definition flow_fail :: "error \<Rightarrow> 'a flow" where
  "flow_fail e s = Some (Inl (Fault e), s)"

definition flow_lift :: "error fault + 'a \<Rightarrow> 'a flow" where
  "flow_lift r s = Some (r, s)"

definition flow_bind :: "'a flow \<Rightarrow> ('a \<Rightarrow> 'b flow) \<Rightarrow> 'b flow" where
  "flow_bind m f s =
     (case m s of
        None \<Rightarrow> None
      | Some (Inl e, s) \<Rightarrow> Some (Inl e, s)
      | Some (Inr x, s) \<Rightarrow> f x s)"

lemma flow_simps [simp]:
  "flow_ret x s = Some (Inr x, s)"
  "flow_fail e s = Some (Inl (Fault e), s)"
  "flow_lift r s = Some (r, s)"
  "m s = None \<Longrightarrow> flow_bind m f s = None"
  "m s = Some (Inl err, s') \<Longrightarrow> flow_bind m f s = Some (Inl err, s')"
  "m s = Some (Inr x, s') \<Longrightarrow> flow_bind m f s = f x s'"
  by (simp_all add: flow_ret_def flow_fail_def flow_lift_def flow_bind_def)

lemma flow_bind_cong [fundef_cong]:
  "m s = m' s' \<Longrightarrow> (\<And>x t. m' s' = Some (Inr x, t) \<Longrightarrow> f x t = g x t) \<Longrightarrow> flow_bind m f s = flow_bind m' g s'"
  by (auto simp: flow_bind_def split: option.split sum.split prod.split)

section \<open>Requests\<close>

text \<open>
  \<open>with_buf\<close>: the closure writes to the shared buffer. One that returns a message has taken the whole of it with \<open>split\<close>; one
  that fails leaves what it had written before the error, and one that panics unwinds past the \<open>clear\<close>, which is the last step.
\<close>

type_synonym request_writer = "bytes \<Rightarrow> error fault + bytes"

definition run_writer :: "request_writer \<Rightarrow> inner_client \<Rightarrow> (error fault + bytes) \<times> inner_client" where
  "run_writer f s =
     (case f (ic_buffer s) of
        Inr message \<Rightarrow> (Inr message, s\<lparr>ic_buffer := []\<rparr>)
      | Inl e \<Rightarrow>
          (Inl e, s\<lparr>ic_buffer := ic_buffer s @ (case ic_partials s of [] \<Rightarrow> [] | written # _ \<Rightarrow> written),
                   ic_partials := List.tl (ic_partials s)\<rparr>))"

definition with_buf :: "request_writer \<Rightarrow> bytes flow" where
  "with_buf f s =
     (case run_writer f s of
        (Inl Panic, s) \<Rightarrow> Some (Inl Panic, s)
      | (r, s) \<Rightarrow> Some (r, s\<lparr>ic_buffer := []\<rparr>))"

lemma with_buf_ok [simp]: "f (ic_buffer s) = Inr b \<Longrightarrow> with_buf f s = Some (Inr b, s\<lparr>ic_buffer := []\<rparr>)"
  by (simp add: with_buf_def run_writer_def)

lemma with_buf_error [simp]:
  "f (ic_buffer s) = Inl (Fault e) \<Longrightarrow>
     with_buf f s = Some (Inl (Fault e), s\<lparr>ic_buffer := [], ic_partials := List.tl (ic_partials s)\<rparr>)"
  by (simp add: with_buf_def run_writer_def)

lemma with_buf_panics:
  "f (ic_buffer s) = Inl Panic \<Longrightarrow> ic_partials s = written # rest \<Longrightarrow>
     with_buf f s = Some (Inl Panic, s\<lparr>ic_buffer := ic_buffer s @ written, ic_partials := rest\<rparr>)"
  by (simp add: with_buf_def run_writer_def)

lemma with_buf_fails:
  assumes "f (ic_buffer s) = Inl e"
  shows "\<exists>s'. with_buf f s = Some (Inl e, s') \<and> ic_requests s' = ic_requests s \<and> ic_answers s' = ic_answers s \<and>
    (e = Panic \<or> ic_buffer s' = [])"
  using assms by (cases e) (auto simp: with_buf_def run_writer_def)

lemma with_buf_cases:
  assumes "with_buf f s = Some (r, s')"
  obtains (taken) b where "f (ic_buffer s) = Inr b" "r = Inr b" "s' = s\<lparr>ic_buffer := []\<rparr>"
    | (failed) e where "r = Inl e" "ic_requests s' = ic_requests s" "e = Panic \<or> ic_buffer s' = []"
proof (cases "f (ic_buffer s)")
  case (Inl e)
  from with_buf_fails [of f s, OF Inl] assms failed show thesis by auto
next
  case (Inr b)
  with assms have "r = Inr b" "s' = s\<lparr>ic_buffer := []\<rparr>" by auto
  with taken Inr show thesis by blast
qed

definition client_send :: "request_messages \<Rightarrow> responses flow" where
  "client_send messages s =
     (case ic_answers s of
        Some receiver # rest \<Rightarrow>
          Some (Inr (responses_new receiver), s\<lparr>ic_requests := ic_requests s @ [messages], ic_answers := rest\<rparr>)
      | None # rest \<Rightarrow> Some (Inl (Fault E_Closed), s\<lparr>ic_answers := rest\<rparr>)
      | [] \<Rightarrow> Some (Inl (Fault E_Closed), s))"

definition await_next :: "responses \<Rightarrow> (message \<times> responses) flow" where
  "await_next r s =
     (case responses_next r of
        None \<Rightarrow> None
      | Some (Inl e, r) \<Rightarrow> Some (Inl (Fault e), s)
      | Some (Inr m, r) \<Rightarrow> Some (Inr (m, r), s))"

definition unexpected_message :: "'a flow" where
  "unexpected_message = flow_fail E_UnexpectedMessage"

text \<open>A request written by \<open>f\<close> and sent as one message.\<close>

definition send_request :: "request_writer \<Rightarrow> responses flow" where
  "send_request f = flow_bind (with_buf f) (\<lambda>buf. client_send (Single (Raw buf)))"

definition awaits :: "(message \<Rightarrow> bool) \<Rightarrow> responses \<Rightarrow> responses flow" where
  "awaits ok r = flow_bind (await_next r) (\<lambda>(m, r). if ok m then flow_ret r else unexpected_message)"

subsection \<open>The cache\<close>

definition set_typeinfo :: "statement \<Rightarrow> unit flow" where
  "set_typeinfo st s = Some (Inr (), s\<lparr>ic_typeinfo := Some st\<rparr>)"

definition set_typeinfo_composite :: "statement \<Rightarrow> unit flow" where
  "set_typeinfo_composite st s = Some (Inr (), s\<lparr>ic_typeinfo_composite := Some st\<rparr>)"

definition set_typeinfo_enum :: "statement \<Rightarrow> unit flow" where
  "set_typeinfo_enum st s = Some (Inr (), s\<lparr>ic_typeinfo_enum := Some st\<rparr>)"

definition set_type :: "oid \<Rightarrow> pg_type \<Rightarrow> unit flow" where
  "set_type oid ty s = Some (Inr (), s\<lparr>ic_types := (ic_types s)(oid \<mapsto> ty)\<rparr>)"

definition clear_type_cache :: "unit flow" where
  "clear_type_cache s = Some (Inr (), s\<lparr>ic_types := Map.empty\<rparr>)"

text \<open>The process-wide counters \<open>NEXT_ID\<close> of \<open>prepare.rs\<close> and \<open>bind.rs\<close>, as this client sees them.\<close>

definition next_statement_id :: "u64 flow" where
  "next_statement_id s = Some (Inr (ic_next_statement s), s\<lparr>ic_next_statement := ic_next_statement s + 1\<rparr>)"

definition next_portal_id :: "u64 flow" where
  "next_portal_id s = Some (Inr (ic_next_portal s), s\<lparr>ic_next_portal := ic_next_portal s + 1\<rparr>)"

section \<open>Writers of requests\<close>

text \<open>A frontend writer whose errors are those of an encoding, and one that cannot fail.\<close>

definition encoding :: "io_error writer \<Rightarrow> request_writer" where
  "encoding w buf = map_err (Fault \<circ> E_Encode) (w buf)"

definition total_writer :: "(bytes \<Rightarrow> bytes option) \<Rightarrow> request_writer" where
  "total_writer w buf = ok_or Panic (w buf)"

definition then_write :: "request_writer \<Rightarrow> request_writer \<Rightarrow> request_writer" where
  "then_write f g buf = bind_res (f buf) g"

section \<open>What the answers are\<close>

text \<open>\<open>answers\<close>: the channel of a request delivers the messages \<open>ms\<close>, in whatever batches and however late.\<close>

definition answers_with :: "backend_messages channel \<Rightarrow> message list \<Rightarrow> bool" where
  "answers_with ch ms \<longleftrightarrow> holds (responses_new ch) ms"

lemma responses_poll_no_error: "responses_poll_next r = (Ready (Inr m), r') \<Longrightarrow> m \<noteq> ErrorResponse body"
proof (induction r rule: responses_poll_next.induct)
  case (1 r)
  show ?case
  proof (cases "\<exists>cur. messages_next (rs_cur r) = Inr (None, cur)")
    case True
    then obtain cur where cur: "messages_next (rs_cur r) = Inr (None, cur)" ..
    obtain p rx where c: "chan_poll (rs_receiver r) = (p, rx)" by (cases "chan_poll (rs_receiver r)")
    consider "p = Pending" | "p = Ready None" | x where "p = Ready (Some x)"
      by (cases p; cases "case p of Ready v \<Rightarrow> v | Pending \<Rightarrow> None") auto
    then show ?thesis
    proof cases
      case 3
      with "1.IH" [OF cur refl refl c [symmetric] 3 refl] "1.prems" c cur show ?thesis
        by (simp add: responses_poll_next.simps [of r])
    qed (use "1.prems" c cur in \<open>auto simp: responses_poll_next.simps [of r]\<close>)
  next
    case False
    with "1.prems" show ?thesis
      by (subst (asm) responses_poll_next.simps) (auto split: sum.splits prod.splits option.splits message.splits)
  qed
qed

lemma poll_waits_on_receiver:
  assumes "holds r (m # ms)" "responses_poll_next r = (Pending, r')"
  shows "rs_receiver r \<noteq> []"
proof
  assume e: "rs_receiver r = []"
  from assms(1) obtain ms0 batches where h: "batch_holds (rs_cur r) ms0"
      "list_all2 batch_holds (chan_items (rs_receiver r)) batches" "m # ms = ms0 @ concat batches"
    by (auto simp: holds_def)
  with e have "ms0 = m # ms" by simp
  with batch_next_Cons h(1) obtain b' where "messages_next (rs_cur r) = Inr (Some m, b')" by blast
  with assms(2) show False by (simp add: responses_poll_next.simps [of r] split: message.splits)
qed

lemma responses_next_holds:
  assumes "holds r (m # ms)"
  shows "\<exists>r'. responses_next r = Some (case m of ErrorResponse body \<Rightarrow> Inl (error_db body) | _ \<Rightarrow> Inr m, r') \<and> holds r' ms"
  using assms
proof (induction r rule: responses_next.induct)
  case (1 r)
  obtain p r' where p: "responses_poll_next r = (p, r')" by (cases "responses_poll_next r")
  note ok = poll_next_holds [OF "1.prems"]
  show ?case
  proof (cases p)
    case (Ready x)
    show ?thesis
    proof (cases x)
      case (Inl e)
      with ok p Ready obtain body where "m = ErrorResponse body" "e = error_db body" "holds r' ms"
        by (auto simp: poll_result_ok_def)
      with p Ready Inl show ?thesis by (simp add: responses_next.simps [of r])
    next
      case (Inr m')
      with ok p Ready have "m' = m" "holds r' ms" by (auto simp: poll_result_ok_def)
      moreover have "\<not> (\<exists>body. m = ErrorResponse body)"
      proof
        assume "\<exists>body. m = ErrorResponse body"
        with p Ready Inr \<open>m' = m\<close> show False using responses_poll_no_error by metis
      qed
      ultimately show ?thesis using p Ready Inr by (cases m) (auto simp: responses_next.simps [of r])
    qed
  next
    case Pending
    with ok p have h: "holds r' (m # ms)" by (simp add: poll_result_ok_def)
    have "rs_receiver r \<noteq> []" using poll_waits_on_receiver "1.prems" p Pending by blast
    with "1.IH" [OF p [symmetric] Pending _ h] p Pending show ?thesis by (simp add: responses_next.simps [of r])
  qed
qed

section \<open>Every message is taken off the answers\<close>

definition resp_size :: "responses \<Rightarrow> nat" where
  "resp_size r = length (bm_buf (rs_cur r)) + sum_list (map (\<lambda>b. length (bm_buf b)) (chan_items (rs_receiver r)))"

lemma responses_poll_size:
  "responses_poll_next r = (p, r') \<Longrightarrow> resp_size r' \<le> resp_size r \<and> (\<forall>m. p = Ready (Inr m) \<longrightarrow> resp_size r' < resp_size r)"
proof (induction r rule: responses_poll_next.induct)
  case (1 r)
  show ?case
  proof (cases "messages_next (rs_cur r)")
    case (Inl e)
    with "1.prems" show ?thesis by (auto simp: responses_poll_next.simps [of r])
  next
    case (Inr x)
    obtain m cur where x: "x = (m, cur)" by (cases x)
    show ?thesis
    proof (cases m)
      case (Some msg)
      with Inr x have "length (bm_buf cur) < length (bm_buf (rs_cur r))" by (auto dest: batch_iter.shrinks)
      with "1.prems" Inr x Some show ?thesis
        by (cases msg) (auto simp: responses_poll_next.simps [of r] resp_size_def)
    next
      case None
      note cur = Inr [unfolded x None]
      have ck: "cur = rs_cur r" by (rule batch_none_keeps [OF cur])
      obtain q rx where c: "chan_poll (rs_receiver r) = (q, rx)" by (cases "chan_poll (rs_receiver r)")
      consider "q = Pending" | "q = Ready None" | b where "q = Ready (Some b)"
        by (cases q; cases "case q of Ready v \<Rightarrow> v | Pending \<Rightarrow> None") auto
      then show ?thesis
      proof cases
        case 1
        with c chan.pending [of "rs_receiver r" rx] "1.prems" cur ck show ?thesis
          by (auto simp: responses_poll_next.simps [of r] resp_size_def)
      next
        case 2
        with c chan.stopped [of "rs_receiver r" rx] "1.prems" cur ck show ?thesis
          by (auto simp: responses_poll_next.simps [of r] resp_size_def)
      next
        case 3
        let ?r = "r\<lparr>rs_cur := b, rs_receiver := rx\<rparr>"
        have "responses_poll_next ?r = (p, r')"
          using "1.prems" cur c 3 by (simp add: responses_poll_next.simps [of r])
        from "1.IH" [OF cur refl refl c [symmetric] 3 refl this]
        have "resp_size r' \<le> resp_size ?r \<and> (\<forall>m. p = Ready (Inr m) \<longrightarrow> resp_size r' < resp_size ?r)" .
        moreover have "resp_size ?r \<le> resp_size r"
          using c 3 chan.item [of "rs_receiver r" b rx] by (simp add: resp_size_def)
        ultimately show ?thesis by fastforce
      qed
    qed
  qed
qed

lemma responses_next_size: "responses_next r = Some (Inr m, r') \<Longrightarrow> resp_size r' < resp_size r"
proof (induction r rule: responses_next.induct)
  case (1 r)
  obtain p q where p: "responses_poll_next r = (p, q)" by (cases "responses_poll_next r")
  show ?case
  proof (cases p)
    case (Ready x)
    with "1.prems" p responses_poll_size [OF p] show ?thesis by (simp add: responses_next.simps [of r])
  next
    case Pending
    with "1.prems" p have "rs_receiver r \<noteq> []" "responses_next q = Some (Inr m, r')"
      by (auto simp: responses_next.simps [of r] split: if_splits)
    with "1.IH" [OF p [symmetric] Pending] responses_poll_size [OF p] show ?thesis by simp
  qed
qed

lemma await_next_size: "await_next r s = Some (Inr (m, r'), s') \<Longrightarrow> resp_size r' < resp_size r"
  by (auto simp: await_next_def dest: responses_next_size split: option.splits sum.splits)

lemma await_next_holds:
  "holds r (m # ms) \<Longrightarrow> (\<And>body. m \<noteq> ErrorResponse body) \<Longrightarrow>
     \<exists>r'. await_next r s = Some (Inr (m, r'), s) \<and> holds r' ms"
  using responses_next_holds [of r m ms] by (cases m) (auto simp: await_next_def)

lemma await_next_error:
  "holds r (ErrorResponse body # ms) \<Longrightarrow> await_next r s = Some (Inl (Fault (error_db body)), s)"
  using responses_next_holds [of r "ErrorResponse body" ms] by (auto simp: await_next_def)

section \<open>Streams\<close>

text \<open>
  \<open>next().await\<close> of a stream over the answers: poll until it is ready. A channel is polled in vain at most as often as its script is
  long; then it is silent for ever.
\<close>

fun until_ready :: "nat \<Rightarrow> ('s \<Rightarrow> 'a poll \<times> 's) \<Rightarrow> 's \<Rightarrow> ('a \<times> 's) option" where
  "until_ready 0 poll s = None"
| "until_ready (Suc n) poll s =
     (case poll s of
        (Ready x, s) \<Rightarrow> Some (x, s)
      | (Pending, s) \<Rightarrow> until_ready n poll s)"

definition await_stream :: "('s \<Rightarrow> responses) \<Rightarrow> ('s \<Rightarrow> 'a poll \<times> 's) \<Rightarrow> 's \<Rightarrow> ('a \<times> 's) option" where
  "await_stream resp poll s = until_ready (Suc (length (rs_receiver (resp s)))) poll s"

lemma until_ready_more: "until_ready n poll s = Some x \<Longrightarrow> n \<le> m \<Longrightarrow> until_ready m poll s = Some x"
proof (induction n arbitrary: s m)
  case (Suc n)
  then obtain k where "m = Suc k" "n \<le> k" by (cases m) auto
  with Suc show ?case by (auto split: prod.splits poll.splits)
qed simp

end
