(* ===== verification/Queries.thy ===== *)
theory Queries
  imports Inner_Client
begin

text \<open>
  Queries and statements: simple queries (\<open>simple_query.rs\<close>), prepared and typed queries (\<open>query.rs\<close>), portals (\<open>bind.rs\<close>,
  \<open>portal.rs\<close>), \<open>COPY TO STDOUT\<close> (\<open>copy_out.rs\<close>) and the closing of statements (\<open>statement.rs\<close>). An operation writes one request,
  sends it and reads its answers up to the point the code reads them; a stream reads them as it is polled.

  A parameter is what its \<open>ToSql\<close> object does with a type: the format it asks for and the bytes it appends.
\<close>

section \<open>Simple queries\<close>

definition simple_encode :: "bytes \<Rightarrow> request_writer" where
  "simple_encode q = encoding (query q)"

record simple_stream =
  ss_responses :: responses
  ss_columns :: "bytes list option"

definition simple_query :: "bytes \<Rightarrow> simple_stream flow" where
  "simple_query q =
     flow_bind (send_request (simple_encode q)) (\<lambda>responses.
     flow_ret \<lparr>ss_responses = responses, ss_columns = None\<rparr>)"

function batch_loop :: "responses \<Rightarrow> unit flow" where
  "batch_loop r s =
     flow_bind (await_next r) (\<lambda>(m, r) s.
     case m of
       ReadyForQuery _ \<Rightarrow> flow_ret () s
     | CommandComplete _ \<Rightarrow> batch_loop r s
     | EmptyQueryResponse \<Rightarrow> batch_loop r s
     | RowDescription _ \<Rightarrow> batch_loop r s
     | DataRow _ \<Rightarrow> batch_loop r s
     | _ \<Rightarrow> unexpected_message s) s"
  by pat_completeness auto
termination
  by (relation "measure (\<lambda>(r, s). resp_size r)") (auto dest: await_next_size)

declare batch_loop.simps [simp del]

definition batch_execute :: "bytes \<Rightarrow> unit flow" where
  "batch_execute q = flow_bind (send_request (simple_encode q)) batch_loop"

datatype simple_message =
    Simple_Row simple_row
  | Simple_Complete u64
  | Simple_Description "bytes list"

text \<open>\<open>body.fields().map(...).collect()\<close>.\<close>

function fields_loop :: "fields \<Rightarrow> io_error + field list" where
  "fields_loop s =
     bind_res (fields_next s) (\<lambda>(x, s).
     case x of
       None \<Rightarrow> Inr []
     | Some f \<Rightarrow> bind_res (fields_loop s) (\<lambda>fs. Inr (f # fs)))"
  by pat_completeness auto
termination
  by (relation "measure (\<lambda>s. length (fs_buf s))") (auto dest: field_iter.shrinks)

declare fields_loop.simps [simp del]

type_synonym 'a item = "(error fault + 'a) option"

definition item_fail :: "error \<Rightarrow> 'a item poll" where
  "item_fail e = Ready (Some (Inl (Fault e)))"

definition item_of :: "error + 'a \<Rightarrow> 'a item poll" where
  "item_of r = Ready (Some (map_err Fault r))"

definition simple_poll_next :: "simple_stream \<Rightarrow> simple_message item poll \<times> simple_stream" where
  "simple_poll_next t =
     (let (p, r) = responses_poll_next (ss_responses t); t = t\<lparr>ss_responses := r\<rparr>
      in case p of
           Pending \<Rightarrow> (Pending, t)
         | Ready (Inl e) \<Rightarrow> (item_fail e, t)
         | Ready (Inr m) \<Rightarrow>
             (case m of
                CommandComplete body \<Rightarrow> (item_of (bind_res (extract_row_affected body) (\<lambda>rows. Inr (Simple_Complete rows))), t)
              | EmptyQueryResponse \<Rightarrow> (item_of (Inr (Simple_Complete 0)), t)
              | RowDescription body \<Rightarrow>
                  (case fields_loop (row_description_fields body) of
                     Inl e \<Rightarrow> (item_fail (E_Parse e), t)
                   | Inr fs \<Rightarrow> (item_of (Inr (Simple_Description (map fd_name fs))), t\<lparr>ss_columns := Some (map fd_name fs)\<rparr>))
              | DataRow body \<Rightarrow>
                  (case ss_columns t of
                     Some columns \<Rightarrow> (item_of (bind_res (simple_row_new columns body) (\<lambda>row. Inr (Simple_Row row))), t)
                   | None \<Rightarrow> (item_fail E_UnexpectedMessage, t))
              | ReadyForQuery _ \<Rightarrow> (Ready None, t)
              | _ \<Rightarrow> (item_fail E_UnexpectedMessage, t)))"

section \<open>Binding parameters\<close>

record sql_param =
  pa_format :: "pg_type \<Rightarrow> i16"
  pa_to_sql :: "pg_type \<Rightarrow> bytes \<Rightarrow> sql_cause + (is_null \<times> bytes)"

text \<open>
  The serializer sets \<open>error_idx\<close> when the conversion of a parameter fails, and \<open>bind\<close> stops there: the index travels with the error. An
  error that \<open>bind\<close> itself reports as a conversion leaves the index at 0.
\<close>

definition serialize_param ::
  "nat \<times> sql_param \<times> pg_type \<Rightarrow> bytes \<Rightarrow> (sql_cause \<times> nat) box_error + (is_null \<times> bytes)" where
  "serialize_param = (\<lambda>(idx, param, ty) buf. map_err (\<lambda>e. Box_Other (e, idx)) (pa_to_sql param ty buf))"

definition bind_failure :: "(sql_cause \<times> nat) bind_error \<Rightarrow> error" where
  "bind_failure e =
     (case e of
        Conversion (Box_Other (c, idx)) \<Rightarrow> E_ToSql (Box_Other c) idx
      | Conversion (Box_Io e) \<Rightarrow> E_ToSql (Box_Io e) 0
      | Serialization e \<Rightarrow> E_Encode e)"

definition encode_bind_raw :: "bytes \<Rightarrow> (sql_param \<times> pg_type) list \<Rightarrow> bytes \<Rightarrow> request_writer" where
  "encode_bind_raw statement_name params portal buf =
     map_err (Fault \<circ> bind_failure)
       (bind portal statement_name (map (\<lambda>(p, ty). pa_format p ty) params) (zip [0..<length params] params)
          serialize_param [1] buf)"

definition encode_bind :: "statement \<Rightarrow> sql_param list \<Rightarrow> bytes \<Rightarrow> request_writer" where
  "encode_bind statement params portal buf =
     (if length params \<noteq> length (st_params statement)
      then Inl (Fault (E_Parameters (length params) (length (st_params statement))))
      else encode_bind_raw (st_name statement) (zip params (st_params statement)) portal buf)"

definition statement_encode :: "statement \<Rightarrow> sql_param list \<Rightarrow> request_writer" where
  "statement_encode statement params =
     then_write (encode_bind statement params [])
       (then_write (encoding (execute [] 0)) (total_writer sync))"

definition is_bind_complete :: "message \<Rightarrow> bool" where
  "is_bind_complete m \<longleftrightarrow> m = BindComplete"

definition start :: "request_writer \<Rightarrow> responses flow" where
  "start w = flow_bind (send_request w) (awaits is_bind_complete)"

section \<open>Rows\<close>

record row_stream =
  rw_statement :: statement
  rw_responses :: responses
  rw_rows_affected :: "u64 option"

definition query_statement :: "statement \<Rightarrow> sql_param list \<Rightarrow> row_stream flow" where
  "query_statement statement params =
     flow_bind (start (statement_encode statement params)) (\<lambda>responses.
     flow_ret \<lparr>rw_statement = statement, rw_responses = responses, rw_rows_affected = None\<rparr>)"

function row_poll_next :: "row_stream \<Rightarrow> row item poll \<times> row_stream" where
  "row_poll_next t =
     (case responses_poll_next (rw_responses t) of
        (Pending, r) \<Rightarrow> (Pending, t\<lparr>rw_responses := r\<rparr>)
      | (Ready (Inl e), r) \<Rightarrow> (item_fail e, t\<lparr>rw_responses := r\<rparr>)
      | (Ready (Inr m), r) \<Rightarrow>
          (case m of
             DataRow body \<Rightarrow> (item_of (row_new (rw_statement t) body), t\<lparr>rw_responses := r\<rparr>)
           | CommandComplete body \<Rightarrow>
               (case extract_row_affected body of
                  Inl e \<Rightarrow> (item_fail e, t\<lparr>rw_responses := r\<rparr>)
                | Inr rows \<Rightarrow> row_poll_next (t\<lparr>rw_responses := r, rw_rows_affected := Some rows\<rparr>))
           | EmptyQueryResponse \<Rightarrow> row_poll_next (t\<lparr>rw_responses := r\<rparr>)
           | PortalSuspended \<Rightarrow> row_poll_next (t\<lparr>rw_responses := r\<rparr>)
           | ReadyForQuery _ \<Rightarrow> (Ready None, t\<lparr>rw_responses := r\<rparr>)
           | _ \<Rightarrow> (item_fail E_UnexpectedMessage, t\<lparr>rw_responses := r\<rparr>)))"
  by pat_completeness auto
termination
  by (relation "measure (\<lambda>t. resp_size (rw_responses t))") (auto dest: responses_poll_size [OF sym])

declare row_poll_next.simps [simp del]

definition row_next :: "row_stream \<Rightarrow> (row item \<times> row_stream) option" where
  "row_next = await_stream rw_responses row_poll_next"

section \<open>Executing\<close>

function execute_loop :: "u64 \<Rightarrow> responses \<Rightarrow> u64 flow" where
  "execute_loop rows r s =
     flow_bind (await_next r) (\<lambda>(m, r) s.
     case m of
       DataRow _ \<Rightarrow> execute_loop rows r s
     | CommandComplete body \<Rightarrow>
         (case extract_row_affected body of
            Inl e \<Rightarrow> flow_fail e s
          | Inr rows \<Rightarrow> execute_loop rows r s)
     | EmptyQueryResponse \<Rightarrow> execute_loop 0 r s
     | ReadyForQuery _ \<Rightarrow> flow_ret rows s
     | _ \<Rightarrow> unexpected_message s) s"
  by pat_completeness auto
termination
  by (relation "measure (\<lambda>(rows, r, s). resp_size r)") (auto dest: await_next_size)

declare execute_loop.simps [simp del]

definition execute_statement :: "statement \<Rightarrow> sql_param list \<Rightarrow> u64 flow" where
  "execute_statement statement params = flow_bind (start (statement_encode statement params)) (execute_loop 0)"

section \<open>Typed queries\<close>

text \<open>Parse, bind, describe and execute the unnamed statement in one request.\<close>

definition typed_encode :: "bytes \<Rightarrow> (sql_param \<times> pg_type) list \<Rightarrow> request_writer" where
  "typed_encode q params =
     then_write (\<lambda>buf. map_err (Fault \<circ> E_Parse) (parse [] q (map (type_oid \<circ> snd) params) buf))
       (then_write (encode_bind_raw [] params [])
         (then_write (encoding (describe (of_char CHR ''S'') []))
           (then_write (encoding (execute [] 0)) (total_writer sync))))"

function execute_typed_loop :: "u64 \<Rightarrow> responses \<Rightarrow> u64 flow" where
  "execute_typed_loop rows r s =
     flow_bind (await_next r) (\<lambda>(m, r) s.
     case m of
       ParseComplete \<Rightarrow> execute_typed_loop rows r s
     | BindComplete \<Rightarrow> execute_typed_loop rows r s
     | ParameterDescription _ \<Rightarrow> execute_typed_loop rows r s
     | RowDescription _ \<Rightarrow> execute_typed_loop rows r s
     | NoData \<Rightarrow> execute_typed_loop 0 r s
     | DataRow _ \<Rightarrow> execute_typed_loop rows r s
     | CommandComplete body \<Rightarrow>
         (case extract_row_affected body of
            Inl e \<Rightarrow> flow_fail e s
          | Inr rows \<Rightarrow> execute_typed_loop rows r s)
     | EmptyQueryResponse \<Rightarrow> execute_typed_loop 0 r s
     | ReadyForQuery _ \<Rightarrow> flow_ret rows s
     | _ \<Rightarrow> unexpected_message s) s"
  by pat_completeness auto
termination
  by (relation "measure (\<lambda>(rows, r, s). resp_size r)") (auto dest: await_next_size)

declare execute_typed_loop.simps [simp del]

definition execute_typed :: "bytes \<Rightarrow> (sql_param \<times> pg_type) list \<Rightarrow> u64 flow" where
  "execute_typed q params = flow_bind (send_request (typed_encode q params)) (execute_typed_loop 0)"

section \<open>Portals, copies out, synchronisation\<close>

record portal =
  po_name :: bytes
  po_statement :: statement

definition bind_portal :: "statement \<Rightarrow> sql_param list \<Rightarrow> portal flow" where
  "bind_portal statement params =
     flow_bind next_portal_id (\<lambda>n.
     let name = ascii (''p'' @ show_nat (unat n))
     in flow_bind (start (then_write (encode_bind statement params name) (total_writer sync))) (\<lambda>_.
        flow_ret \<lparr>po_name = name, po_statement = statement\<rparr>))"

definition query_portal :: "portal \<Rightarrow> i32 \<Rightarrow> row_stream flow" where
  "query_portal portal max_rows =
     flow_bind (send_request (then_write (encoding (execute (po_name portal) max_rows)) (total_writer sync))) (\<lambda>responses.
     flow_ret \<lparr>rw_statement = po_statement portal, rw_responses = responses, rw_rows_affected = None\<rparr>)"

definition is_copy_out_response :: "message \<Rightarrow> bool" where
  "is_copy_out_response m \<longleftrightarrow> (case m of CopyOutResponse _ \<Rightarrow> True | _ \<Rightarrow> False)"

definition copy_out :: "statement \<Rightarrow> responses flow" where
  "copy_out statement =
     flow_bind (start (statement_encode statement [])) (awaits is_copy_out_response)"

definition copy_out_poll_next :: "responses \<Rightarrow> bytes item poll \<times> responses" where
  "copy_out_poll_next r =
     (case responses_poll_next r of
        (Pending, r) \<Rightarrow> (Pending, r)
      | (Ready (Inl e), r) \<Rightarrow> (item_fail e, r)
      | (Ready (Inr m), r) \<Rightarrow>
          (case m of
             CopyData body \<Rightarrow> (item_of (Inr body), r)
           | CopyDone \<Rightarrow> (Ready None, r)
           | _ \<Rightarrow> (item_fail E_UnexpectedMessage, r)))"

definition is_ready_message :: "message \<Rightarrow> bool" where
  "is_ready_message m \<longleftrightarrow> (case m of ReadyForQuery _ \<Rightarrow> True | _ \<Rightarrow> False)"

definition sync_client :: "unit flow" where
  "sync_client =
     flow_bind (client_send (Single (Raw [of_char CHR ''S'', 0, 0, 0, 4]))) (\<lambda>r.
     flow_bind (awaits is_ready_message r) (\<lambda>_. flow_ret ()))"

section \<open>Closing\<close>

text \<open>
  The destructors of the last handle of a statement and of a portal: a close request whose answers nobody reads. \<open>unwrap\<close> panics
  when the name cannot be written; a refused request is ignored.
\<close>

definition close_request :: "char \<Rightarrow> bytes \<Rightarrow> request_writer" where
  "close_request variant name =
     then_write (\<lambda>buf. map_err (\<lambda>_. Panic) (close (of_char variant) name buf)) (total_writer sync)"

definition ignoring_closed :: "'a flow \<Rightarrow> unit flow" where
  "ignoring_closed m s =
     (case m s of
        None \<Rightarrow> None
      | Some (Inl (Fault _), s) \<Rightarrow> Some (Inr (), s)
      | Some (Inl Panic, s) \<Rightarrow> Some (Inl Panic, s)
      | Some (Inr _, s) \<Rightarrow> Some (Inr (), s))"

definition drop_statement :: "statement \<Rightarrow> unit flow" where
  "drop_statement statement =
     (if st_name statement = [] then flow_ret ()
      else ignoring_closed (send_request (close_request CHR ''S'' (st_name statement))))"

definition drop_portal :: "portal \<Rightarrow> unit flow" where
  "drop_portal portal = ignoring_closed (send_request (close_request CHR ''P'' (po_name portal)))"

end
