(* ===== verification/Prepare.thy ===== *)
theory Prepare
  imports Queries
begin

text \<open>
  Preparing statements (\<open>prepare.rs\<close>) and the methods of the client over them (\<open>client.rs\<close>, \<open>to_statement.rs\<close>). Preparing a
  statement looks up the types of its parameters and columns; a type the client does not know is looked up in the server, with
  prepared statements of its own, and may need further types. The generated table of types is the argument \<open>known\<close>.

  The functions are mutually recursive in the code. Here the recursion is open: each takes the lookup of a type as its argument \<open>rec\<close>,
  and \<open>get_type\<close> closes the knot with fuel, \<open>None\<close> when it runs out. The code sets no bound: a type is cached only after the types it
  needs were looked up, so a server that keeps answering with types that refer to each other keeps the recursion going. A client
  of the model has finitely many answers to come and every recursive lookup has consumed one before, so fuel for their number,
  plus one, is enough for every such client; a server that answers for ever is not a client of the model.

  A statement is closed when its last handle is dropped. Which handle is the last is the ownership of the Rust values, which is not
  modelled: \<open>drop_statement\<close> is the destructor, and it runs between the operations, not inside one that replaces a cached statement.
\<close>

section \<open>Queries for types\<close>

definition sql_lines :: "string list \<Rightarrow> bytes" where
  "sql_lines ls = ascii (concat (map (\<lambda>l. l @ [CHR 0x0A]) ls))"

definition TYPEINFO_QUERY :: bytes where
  "TYPEINFO_QUERY = sql_lines
     [''SELECT t.typname, t.typtype, t.typelem, r.rngsubtype, t.typbasetype, n.nspname, t.typrelid'',
      ''FROM pg_catalog.pg_type t'',
      ''LEFT OUTER JOIN pg_catalog.pg_range r ON r.rngtypid = t.oid'',
      ''INNER JOIN pg_catalog.pg_namespace n ON t.typnamespace = n.oid'',
      ''WHERE t.oid = $1'']"

definition TYPEINFO_FALLBACK_QUERY :: bytes where
  "TYPEINFO_FALLBACK_QUERY = sql_lines
     [''SELECT t.typname, t.typtype, t.typelem, NULL::OID, t.typbasetype, n.nspname, t.typrelid'',
      ''FROM pg_catalog.pg_type t'',
      ''INNER JOIN pg_catalog.pg_namespace n ON t.typnamespace = n.oid'',
      ''WHERE t.oid = $1'']"

definition TYPEINFO_ENUM_QUERY :: bytes where
  "TYPEINFO_ENUM_QUERY = sql_lines
     [''SELECT enumlabel'', ''FROM pg_catalog.pg_enum'', ''WHERE enumtypid = $1'', ''ORDER BY enumsortorder'']"

definition TYPEINFO_ENUM_FALLBACK_QUERY :: bytes where
  "TYPEINFO_ENUM_FALLBACK_QUERY = sql_lines
     [''SELECT enumlabel'', ''FROM pg_catalog.pg_enum'', ''WHERE enumtypid = $1'', ''ORDER BY oid'']"

definition TYPEINFO_COMPOSITE_QUERY :: bytes where
  "TYPEINFO_COMPOSITE_QUERY = sql_lines
     [''SELECT attname, atttypid'', ''FROM pg_catalog.pg_attribute'', ''WHERE attrelid = $1'',
      ''AND NOT attisdropped'', ''AND attnum > 0'', ''ORDER BY attnum'']"

text \<open>The parameter \<open>&oid\<close> of these queries.\<close>

definition oid_param :: "oid \<Rightarrow> sql_param" where
  "oid_param oid =
     \<lparr>pa_format = (\<lambda>_. 1),
      pa_to_sql = (\<lambda>ty buf. if ty = Builtin 26 then Inr (No, oid_to_sql oid buf) else Inl Wrong_Type)\<rparr>"

section \<open>Rows of a stream\<close>

text \<open>\<open>try_next().await?\<close>: the next row, an error, or the end. A stream does not touch the client.\<close>

definition try_next_row :: "row_stream \<Rightarrow> (row option \<times> row_stream) flow" where
  "try_next_row t s =
     (case row_next t of
        None \<Rightarrow> None
      | Some (None, t) \<Rightarrow> Some (Inr (None, t), s)
      | Some (Some (Inl e), t) \<Rightarrow> Some (Inl e, s)
      | Some (Some (Inr row), t) \<Rightarrow> Some (Inr (Some row, t), s))"

lemma row_poll_size:
  "row_poll_next t = (p, t') \<Longrightarrow> resp_size (rw_responses t') \<le> resp_size (rw_responses t) \<and>
     (\<forall>row. p = Ready (Some (Inr row)) \<longrightarrow> resp_size (rw_responses t') < resp_size (rw_responses t))"
proof (induction t rule: row_poll_next.induct)
  case (1 t)
  obtain q r where q: "responses_poll_next (rw_responses t) = (q, r)"
    by (cases "responses_poll_next (rw_responses t)")
  note sz = responses_poll_size [OF q]
  show ?case
  proof (cases "\<exists>m. q = Ready (Inr m)")
    case False
    then consider "q = Pending" | e where "q = Ready (Inl e)"
      by (cases q; cases "case q of Ready v \<Rightarrow> v | Pending \<Rightarrow> Inl E_Closed") auto
    then show ?thesis using "1.prems" q sz
      by cases (auto simp: row_poll_next.simps [of t] item_fail_def)
  next
    case True
    then obtain m where m: "q = Ready (Inr m)" ..
    note IH = "1.IH" [OF q [symmetric] m refl]
    show ?thesis
      using "1.prems" q m sz IH
      by (cases m; simp add: row_poll_next.simps [of t] item_fail_def item_of_def split: sum.splits)
        (fastforce simp: item_fail_def split: sum.splits)+
  qed
qed

lemma until_ready_rows:
  "until_ready n row_poll_next t = Some (x, t') \<Longrightarrow> resp_size (rw_responses t') \<le> resp_size (rw_responses t) \<and>
     (\<forall>row. x = Some (Inr row) \<longrightarrow> resp_size (rw_responses t') < resp_size (rw_responses t))"
proof (induction n arbitrary: t)
  case (Suc n)
  obtain p u where p: "row_poll_next t = (p, u)" by (cases "row_poll_next t")
  note sz = row_poll_size [OF p]
  show ?case
  proof (cases p)
    case Pending
    with Suc.prems p have "until_ready n row_poll_next u = Some (x, t')" by simp
    from Suc.IH [OF this] sz show ?thesis by (metis le_trans order_less_le_trans)
  next
    case (Ready y)
    with Suc.prems p sz show ?thesis by auto
  qed
qed simp

lemma row_next_size:
  "row_next t = Some (Some (Inr row), t') \<Longrightarrow> resp_size (rw_responses t') < resp_size (rw_responses t)"
  unfolding row_next_def await_stream_def using until_ready_rows by blast

lemma try_next_row_state: "try_next_row t s = Some (r, s') \<Longrightarrow> s' = s"
  by (auto simp: try_next_row_def split: option.splits prod.splits sum.splits)

lemma try_next_row_size:
  "try_next_row t s = Some (Inr (Some row, t'), s') \<Longrightarrow> resp_size (rw_responses t') < resp_size (rw_responses t)"
  by (auto simp: try_next_row_def dest: row_next_size split: option.splits prod.splits sum.splits)

text \<open>\<open>try_collect().await\<close>.\<close>

function collect_rows :: "row_stream \<Rightarrow> row list flow" where
  "collect_rows t s =
     flow_bind (try_next_row t) (\<lambda>(x, t) s.
     case x of
       None \<Rightarrow> flow_ret [] s
     | Some row \<Rightarrow> flow_bind (collect_rows t) (\<lambda>rows. flow_ret (row # rows)) s) s"
  by pat_completeness auto
termination
  by (relation "measure (\<lambda>(t, s). resp_size (rw_responses t))") (auto dest: try_next_row_size)

declare collect_rows.simps [simp del]

section \<open>Looking up types, with open recursion\<close>

type_synonym type_lookup = "oid \<Rightarrow> pg_type flow"

text \<open>The loops over the parameters and the columns, which await a type for each item.\<close>

function param_types :: "type_lookup \<Rightarrow> parameters \<Rightarrow> pg_type list flow" where
  "param_types rec it s =
     (case parameters_next it of
        Inl e \<Rightarrow> flow_fail (E_Parse e) s
      | Inr (None, it) \<Rightarrow> flow_ret [] s
      | Inr (Some oid, it) \<Rightarrow>
          flow_bind (rec oid) (\<lambda>ty. flow_bind (param_types rec it) (\<lambda>tys. flow_ret (ty # tys))) s)"
  by pat_completeness auto
termination
  by (relation "measure (\<lambda>(rec, it, s). length (pm_buf it))") (auto dest: param_iter.shrinks)

declare param_types.simps [simp del]

definition nonzero :: "'a::len word \<Rightarrow> 'a word option" where
  "nonzero n = (if n \<noteq> 0 then Some n else None)"

definition column_of :: "field \<Rightarrow> pg_type \<Rightarrow> column" where
  "column_of field ty =
     \<lparr>col_name = fd_name field, col_table_oid = nonzero (fd_table_oid field),
      col_column_id = nonzero (fd_column_id field), col_type_modifier = fd_type_modifier field, col_type = ty\<rparr>"

function columns_of :: "type_lookup \<Rightarrow> fields \<Rightarrow> column list flow" where
  "columns_of rec it s =
     (case fields_next it of
        Inl e \<Rightarrow> flow_fail (E_Parse e) s
      | Inr (None, it) \<Rightarrow> flow_ret [] s
      | Inr (Some field, it) \<Rightarrow>
          flow_bind (rec (fd_type_oid field)) (\<lambda>ty.
          flow_bind (columns_of rec it) (\<lambda>cols. flow_ret (column_of field ty # cols))) s)"
  by pat_completeness auto
termination
  by (relation "measure (\<lambda>(rec, it, s). length (fs_buf it))") (auto dest: field_iter.shrinks)

declare columns_of.simps [simp del]

definition prepare_encode :: "bytes \<Rightarrow> bytes \<Rightarrow> pg_type list \<Rightarrow> request_writer" where
  "prepare_encode name q types =
     then_write (encoding (parse name q (map type_oid types)))
       (then_write (encoding (describe (of_char CHR ''S'') name)) (total_writer sync))"

definition is_parse_complete :: "message \<Rightarrow> bool" where
  "is_parse_complete m \<longleftrightarrow> m = ParseComplete"

definition parameter_description_of :: "message \<Rightarrow> parameter_description_body flow" where
  "parameter_description_of m = (case m of ParameterDescription body \<Rightarrow> flow_ret body | _ \<Rightarrow> unexpected_message)"

definition row_description_of :: "message \<Rightarrow> row_description_body option flow" where
  "row_description_of m =
     (case m of
        RowDescription body \<Rightarrow> flow_ret (Some body)
      | NoData \<Rightarrow> flow_ret None
      | _ \<Rightarrow> unexpected_message)"

definition prepare_with :: "type_lookup \<Rightarrow> bytes \<Rightarrow> pg_type list \<Rightarrow> statement flow" where
  "prepare_with rec q types =
     flow_bind next_statement_id (\<lambda>n.
     let name = ascii (''s'' @ show_nat (unat n)) in
     flow_bind (send_request (prepare_encode name q types)) (\<lambda>r.
     flow_bind (awaits is_parse_complete r) (\<lambda>r.
     flow_bind (await_next r) (\<lambda>(m, r).
     flow_bind (parameter_description_of m) (\<lambda>pd.
     flow_bind (await_next r) (\<lambda>(m, r).
     flow_bind (row_description_of m) (\<lambda>rd.
     flow_bind (param_types rec (parameter_description_parameters pd)) (\<lambda>params.
     flow_bind (case rd of
                  Some rd \<Rightarrow> columns_of rec (row_description_fields rd)
                | None \<Rightarrow> flow_ret []) (\<lambda>cols.
     flow_ret \<lparr>st_name = name, st_params = params, st_columns = cols\<rparr>)))))))))"

text \<open>A statement for one of the queries above, prepared once and cached; the fallback is for servers without a table or a column.\<close>

definition has_code :: "string \<Rightarrow> error \<Rightarrow> bool" where
  "has_code code e \<longleftrightarrow> (case e of E_Db d \<Rightarrow> db_code d = ascii code | _ \<Rightarrow> False)"

definition flow_catch :: "'a flow \<Rightarrow> (error \<Rightarrow> bool) \<Rightarrow> 'a flow \<Rightarrow> 'a flow" where
  "flow_catch m p h s =
     (case m s of
        Some (Inl (Fault e), s) \<Rightarrow> if p e then h s else Some (Inl (Fault e), s)
      | r \<Rightarrow> r)"

definition cached :: "(inner_client \<Rightarrow> statement option) \<Rightarrow> statement flow \<Rightarrow> (statement \<Rightarrow> unit flow) \<Rightarrow> statement flow" where
  "cached get prep put s =
     (case get s of
        Some st \<Rightarrow> flow_ret st s
      | None \<Rightarrow> flow_bind prep (\<lambda>st. flow_bind (put st) (\<lambda>_. flow_ret st)) s)"

definition typeinfo_statement :: "type_lookup \<Rightarrow> statement flow" where
  "typeinfo_statement rec =
     cached ic_typeinfo
       (flow_catch (prepare_with rec TYPEINFO_QUERY []) (has_code ''42P01'') (prepare_with rec TYPEINFO_FALLBACK_QUERY []))
       set_typeinfo"

definition typeinfo_enum_statement :: "type_lookup \<Rightarrow> statement flow" where
  "typeinfo_enum_statement rec =
     cached ic_typeinfo_enum
       (flow_catch (prepare_with rec TYPEINFO_ENUM_QUERY []) (has_code ''42703'')
         (prepare_with rec TYPEINFO_ENUM_FALLBACK_QUERY []))
       set_typeinfo_enum"

definition typeinfo_composite_statement :: "type_lookup \<Rightarrow> statement flow" where
  "typeinfo_composite_statement rec =
     cached ic_typeinfo_composite (prepare_with rec TYPEINFO_COMPOSITE_QUERY []) set_typeinfo_composite"

definition get_value :: "'a from_sql \<Rightarrow> nat \<Rightarrow> row \<Rightarrow> 'a flow" where
  "get_value f i row = flow_lift (try_get f (By_Number i) row)"

function variants_loop :: "row_stream \<Rightarrow> bytes list flow" where
  "variants_loop t s =
     flow_bind (try_next_row t) (\<lambda>(x, t) s.
     case x of
       None \<Rightarrow> flow_ret [] s
     | Some row \<Rightarrow>
         flow_bind (get_value str_from_sql 0 row) (\<lambda>v s.
         flow_bind (variants_loop t) (\<lambda>vs. flow_ret (v # vs)) s) s) s"
  by pat_completeness auto
termination
  by (relation "measure (\<lambda>(t, s). resp_size (rw_responses t))") (auto dest: try_next_row_size)

declare variants_loop.simps [simp del]

definition get_enum_variants :: "type_lookup \<Rightarrow> oid \<Rightarrow> bytes list flow" where
  "get_enum_variants rec oid =
     flow_bind (typeinfo_enum_statement rec) (\<lambda>st.
     flow_bind (query_statement st [oid_param oid]) variants_loop)"

fun composite_loop :: "type_lookup \<Rightarrow> row list \<Rightarrow> type_field list flow" where
  "composite_loop rec [] = flow_ret []"
| "composite_loop rec (row # rows) =
     flow_bind (get_value str_from_sql 0 row) (\<lambda>name.
     flow_bind (get_value u32_from_sql 1 row) (\<lambda>oid.
     flow_bind (rec oid) (\<lambda>ty.
     flow_bind (composite_loop rec rows) (\<lambda>fs. flow_ret (Type_Field name ty # fs)))))"

definition get_composite_fields :: "type_lookup \<Rightarrow> oid \<Rightarrow> type_field list flow" where
  "get_composite_fields rec oid =
     flow_bind (typeinfo_composite_statement rec) (\<lambda>st.
     flow_bind (query_statement st [oid_param oid]) (\<lambda>t.
     flow_bind (collect_rows t) (composite_loop rec)))"

definition kind_of ::
  "type_lookup \<Rightarrow> oid \<Rightarrow> i8 \<Rightarrow> oid \<Rightarrow> oid option \<Rightarrow> oid \<Rightarrow> oid \<Rightarrow> kind flow" where
  "kind_of rec oid typtype elem_oid rngsubtype basetype relid =
     (if typtype = of_char CHR ''e'' then flow_bind (get_enum_variants rec oid) (\<lambda>vs. flow_ret (Enum vs))
      else if typtype = of_char CHR ''p'' then flow_ret Pseudo
      else if basetype \<noteq> 0 then flow_bind (rec basetype) (\<lambda>ty. flow_ret (Domain ty))
      else if elem_oid \<noteq> 0 then flow_bind (rec elem_oid) (\<lambda>ty. flow_ret (Array ty))
      else if relid \<noteq> 0 then flow_bind (get_composite_fields rec relid) (\<lambda>fs. flow_ret (Composite fs))
      else (case rngsubtype of
              Some sub \<Rightarrow> flow_bind (rec sub) (\<lambda>ty. flow_ret (Range ty))
            | None \<Rightarrow> flow_ret Simple))"

definition first_row :: "row_stream \<Rightarrow> row flow" where
  "first_row t =
     flow_bind (try_next_row t) (\<lambda>(x, _).
     case x of
       Some row \<Rightarrow> flow_ret row
     | None \<Rightarrow> unexpected_message)"

definition lookup_type :: "type_lookup \<Rightarrow> type_lookup" where
  "lookup_type rec oid =
     flow_bind (typeinfo_statement rec) (\<lambda>st.
     flow_bind (query_statement st [oid_param oid]) (\<lambda>t.
     flow_bind (first_row t) (\<lambda>row.
     flow_bind (get_value str_from_sql 0 row) (\<lambda>name.
     flow_bind (get_value i8_from_sql 1 row) (\<lambda>typtype.
     flow_bind (get_value u32_from_sql 2 row) (\<lambda>elem_oid.
     flow_bind (get_value (option_from_sql u32_from_sql) 3 row) (\<lambda>rngsubtype.
     flow_bind (get_value u32_from_sql 4 row) (\<lambda>basetype.
     flow_bind (get_value str_from_sql 5 row) (\<lambda>schema.
     flow_bind (get_value u32_from_sql 6 row) (\<lambda>relid.
     flow_bind (kind_of rec oid typtype elem_oid rngsubtype basetype relid) (\<lambda>kind.
     let ty = Other name oid kind schema
     in flow_bind (set_type oid ty) (\<lambda>_. flow_ret ty))))))))))))"

definition get_type_step :: "(oid \<Rightarrow> bool) \<Rightarrow> type_lookup \<Rightarrow> type_lookup" where
  "get_type_step known rec oid s =
     (if known oid then flow_ret (Builtin oid) s
      else (case ic_types s oid of
              Some ty \<Rightarrow> flow_ret ty s
            | None \<Rightarrow> lookup_type rec oid s))"

primrec get_type :: "nat \<Rightarrow> (oid \<Rightarrow> bool) \<Rightarrow> type_lookup" where
  "get_type 0 known = (\<lambda>oid s. None)"
| "get_type (Suc n) known = get_type_step known (get_type n known)"

definition prepare :: "nat \<Rightarrow> (oid \<Rightarrow> bool) \<Rightarrow> bytes \<Rightarrow> pg_type list \<Rightarrow> statement flow" where
  "prepare n known = prepare_with (get_type n known)"

text \<open>The lookup with enough fuel for the finitely many answers its client still gets.\<close>

definition client_prepare :: "(oid \<Rightarrow> bool) \<Rightarrow> bytes \<Rightarrow> pg_type list \<Rightarrow> statement flow" where
  "client_prepare known q types s = prepare (Suc (length (ic_answers s))) known q types s"

section \<open>The methods of the client\<close>

datatype to_statement = Of_Statement statement | Of_Query bytes

definition into_statement :: "(oid \<Rightarrow> bool) \<Rightarrow> to_statement \<Rightarrow> statement flow" where
  "into_statement known x = (case x of Of_Statement st \<Rightarrow> flow_ret st | Of_Query q \<Rightarrow> client_prepare known q [])"

definition client_query_raw :: "(oid \<Rightarrow> bool) \<Rightarrow> to_statement \<Rightarrow> sql_param list \<Rightarrow> row_stream flow" where
  "client_query_raw known x params = flow_bind (into_statement known x) (\<lambda>st. query_statement st params)"

definition client_query :: "(oid \<Rightarrow> bool) \<Rightarrow> to_statement \<Rightarrow> sql_param list \<Rightarrow> row list flow" where
  "client_query known x params = flow_bind (client_query_raw known x params) collect_rows"

text \<open>The loop of \<open>query_opt\<close>: a second row is an error as soon as it arrives.\<close>

function opt_loop :: "row option \<Rightarrow> row_stream \<Rightarrow> row option flow" where
  "opt_loop first t s =
     flow_bind (try_next_row t) (\<lambda>(x, t) s.
     case x of
       None \<Rightarrow> flow_ret first s
     | Some row \<Rightarrow> if first \<noteq> None then flow_fail E_RowCount s else opt_loop (Some row) t s) s"
  by pat_completeness auto
termination
  by (relation "measure (\<lambda>(first, t, s). resp_size (rw_responses t))") (auto dest: try_next_row_size)

declare opt_loop.simps [simp del]

definition client_query_opt :: "(oid \<Rightarrow> bool) \<Rightarrow> to_statement \<Rightarrow> sql_param list \<Rightarrow> row option flow" where
  "client_query_opt known x params = flow_bind (client_query_raw known x params) (opt_loop None)"

definition client_query_one :: "(oid \<Rightarrow> bool) \<Rightarrow> to_statement \<Rightarrow> sql_param list \<Rightarrow> row flow" where
  "client_query_one known x params =
     flow_bind (client_query_opt known x params) (\<lambda>r.
     case r of
       Some row \<Rightarrow> flow_ret row
     | None \<Rightarrow> flow_fail E_RowCount)"

fun scalars :: "'a from_sql \<Rightarrow> row list \<Rightarrow> 'a list flow" where
  "scalars f [] = flow_ret []"
| "scalars f (row # rows) =
     flow_bind (get_value f 0 row) (\<lambda>x. flow_bind (scalars f rows) (\<lambda>xs. flow_ret (x # xs)))"

definition client_query_scalar :: "(oid \<Rightarrow> bool) \<Rightarrow> 'a from_sql \<Rightarrow> to_statement \<Rightarrow> sql_param list \<Rightarrow> 'a list flow" where
  "client_query_scalar known f x params =
     flow_bind (client_query known x params) (\<lambda>rows.
     if rows \<noteq> [] \<and> row_len (hd rows) \<noteq> 1 then flow_fail E_ColumnCount else scalars f rows)"

definition client_query_one_scalar :: "(oid \<Rightarrow> bool) \<Rightarrow> 'a from_sql \<Rightarrow> to_statement \<Rightarrow> sql_param list \<Rightarrow> 'a flow" where
  "client_query_one_scalar known f x params =
     flow_bind (client_query_one known x params) (\<lambda>row.
     if row_len row \<noteq> 1 then flow_fail E_ColumnCount else get_value f 0 row)"

definition client_query_opt_scalar ::
  "(oid \<Rightarrow> bool) \<Rightarrow> 'a from_sql \<Rightarrow> to_statement \<Rightarrow> sql_param list \<Rightarrow> 'a option flow" where
  "client_query_opt_scalar known f x params =
     flow_bind (client_query_opt known x params) (\<lambda>r.
     case r of
       None \<Rightarrow> flow_ret None
     | Some row \<Rightarrow>
         if row_len row \<noteq> 1 then flow_fail E_ColumnCount
         else flow_bind (get_value f 0 row) (\<lambda>x. flow_ret (Some x)))"

definition client_execute :: "(oid \<Rightarrow> bool) \<Rightarrow> to_statement \<Rightarrow> sql_param list \<Rightarrow> u64 flow" where
  "client_execute known x params = flow_bind (into_statement known x) (\<lambda>st. execute_statement st params)"

text \<open>\<open>query_typed\<close> (\<open>query.rs\<close>) looks up the types of the columns, too.\<close>

function typed_loop :: "type_lookup \<Rightarrow> responses \<Rightarrow> row_stream flow" where
  "typed_loop rec r s =
     flow_bind (await_next r) (\<lambda>(m, r) s.
     case m of
       ParseComplete \<Rightarrow> typed_loop rec r s
     | BindComplete \<Rightarrow> typed_loop rec r s
     | ParameterDescription _ \<Rightarrow> typed_loop rec r s
     | NoData \<Rightarrow>
         flow_ret \<lparr>rw_statement = \<lparr>st_name = [], st_params = [], st_columns = []\<rparr>, rw_responses = r, rw_rows_affected = None\<rparr> s
     | RowDescription body \<Rightarrow>
         flow_bind (columns_of rec (row_description_fields body)) (\<lambda>cols.
         flow_ret \<lparr>rw_statement = \<lparr>st_name = [], st_params = [], st_columns = cols\<rparr>, rw_responses = r, rw_rows_affected = None\<rparr>) s
     | _ \<Rightarrow> unexpected_message s) s"
  by pat_completeness auto
termination
  by (relation "measure (\<lambda>(rec, r, s). resp_size r)") (auto dest: await_next_size)

declare typed_loop.simps [simp del]

definition query_typed :: "(oid \<Rightarrow> bool) \<Rightarrow> bytes \<Rightarrow> (sql_param \<times> pg_type) list \<Rightarrow> row_stream flow" where
  "query_typed known q params s =
     flow_bind (send_request (typed_encode q params))
       (typed_loop (get_type (Suc (length (ic_answers s))) known)) s"

definition client_query_typed :: "(oid \<Rightarrow> bool) \<Rightarrow> bytes \<Rightarrow> (sql_param \<times> pg_type) list \<Rightarrow> row list flow" where
  "client_query_typed known q params = flow_bind (query_typed known q params) collect_rows"

end
