(* ===== verification/Prepare_Laws.thy ===== *)
theory Prepare_Laws
  imports Prepare
begin

text \<open>
  Operations on the client complete when the connection has finitely many answers to give and gives or closes every one (\<open>ends\<close>), so
  the fuel of the type lookup is enough for such a client; what the operations return when the server answers as the protocol says; what they send.
\<close>

section \<open>Operations that end\<close>

text \<open>
  A channel that is closed in the end, and a client all of whose requests are answered on such channels. \<open>ends k Q m\<close>: started in such a
  client with fewer than \<open>k\<close> answers to come, \<open>m\<close> completes and takes no answers back, and its result satisfies \<open>Q\<close>.
\<close>

definition closing :: "'a channel \<Rightarrow> bool" where
  "closing ch \<longleftrightarrow> Ready None \<in> set ch"

definition resp_live :: "responses \<Rightarrow> bool" where
  "resp_live r \<longleftrightarrow> closing (rs_receiver r)"

definition client_live :: "inner_client \<Rightarrow> bool" where
  "client_live s \<longleftrightarrow> (\<forall>ch. Some ch \<in> set (ic_answers s) \<longrightarrow> closing ch)"

definition ends :: "nat \<Rightarrow> ('a \<Rightarrow> bool) \<Rightarrow> 'a flow \<Rightarrow> bool" where
  "ends k Q m \<longleftrightarrow> (\<forall>s. client_live s \<longrightarrow> length (ic_answers s) < k \<longrightarrow>
     (\<exists>r s'. m s = Some (r, s') \<and> client_live s' \<and> length (ic_answers s') \<le> length (ic_answers s) \<and>
       (\<forall>x. r = Inr x \<longrightarrow> Q x)))"

named_theorems ends_intro "operations that end"

lemma ends_bind:
  assumes "ends k Q m" "\<And>x. Q x \<Longrightarrow> ends k P (f x)"
  shows "ends k P (flow_bind m f)"
  unfolding ends_def
proof (intro allI impI)
  fix s assume s: "client_live s" "length (ic_answers s) < k"
  with assms(1) obtain r s' where r: "m s = Some (r, s')" "client_live s'"
      "length (ic_answers s') \<le> length (ic_answers s)" "\<And>x. r = Inr x \<Longrightarrow> Q x"
    unfolding ends_def by blast
  show "\<exists>r s'. flow_bind m f s = Some (r, s') \<and> client_live s' \<and> length (ic_answers s') \<le> length (ic_answers s) \<and>
      (\<forall>x. r = Inr x \<longrightarrow> P x)"
  proof (cases r)
    case (Inl e)
    with r show ?thesis by simp
  next
    case (Inr x)
    with assms(2) [of x] r s obtain q s'' where "f x s' = Some (q, s'')" "client_live s''"
        "length (ic_answers s'') \<le> length (ic_answers s')" "\<forall>y. q = Inr y \<longrightarrow> P y"
      unfolding ends_def by (metis order_le_less_trans)
    with r Inr show ?thesis by fastforce
  qed
qed

lemma ends_weaken: "ends k Q m \<Longrightarrow> (\<And>x. Q x \<Longrightarrow> P x) \<Longrightarrow> ends k P m"
  unfolding ends_def by blast

lemma ends_less: "ends k Q m \<Longrightarrow> j \<le> k \<Longrightarrow> ends j Q m"
  unfolding ends_def by fastforce

lemma ends_simple [ends_intro]:
  "Q x \<Longrightarrow> ends k Q (flow_ret x)" "ends k Q (flow_fail e)" "(\<And>x. r = Inr x \<Longrightarrow> Q x) \<Longrightarrow> ends k Q (flow_lift r)"
  "ends k Q unexpected_message"
  by (simp_all add: ends_def unexpected_message_def)

lemma ends_state [ends_intro]:
  "ends k (\<lambda>_. True) next_statement_id" "ends k (\<lambda>_. True) (set_typeinfo st)"
  "ends k (\<lambda>_. True) (set_typeinfo_enum st)" "ends k (\<lambda>_. True) (set_typeinfo_composite st)"
  "ends k (\<lambda>_. True) (set_type oid ty)"
  by (simp_all add: ends_def next_statement_id_def set_typeinfo_def set_typeinfo_enum_def set_typeinfo_composite_def
      set_type_def client_live_def)

subsection \<open>Sending takes an answer\<close>

lemma ends_send:
  assumes "\<And>r. resp_live r \<Longrightarrow> ends k P (f r)"
  shows "ends (Suc k) P (flow_bind (send_request w) f)"
  unfolding ends_def
proof (intro allI impI)
  fix s assume s: "client_live s" "length (ic_answers s) < Suc k"
  show "\<exists>r s'. flow_bind (send_request w) f s = Some (r, s') \<and> client_live s' \<and>
      length (ic_answers s') \<le> length (ic_answers s) \<and> (\<forall>x. r = Inr x \<longrightarrow> P x)"
  proof (cases "w (ic_buffer s)")
    case (Inl e)
    obtain s' where "with_buf w s = Some (Inl e, s')" "ic_requests s' = ic_requests s" "ic_answers s' = ic_answers s"
      using with_buf_fails [of w s e] Inl by blast
    with s show ?thesis by (simp add: send_request_def flow_bind_def client_live_def)
  next
    case (Inr buf)
    show ?thesis
    proof (cases "ic_answers s")
      case Nil
      with s Inr show ?thesis by (simp add: send_request_def flow_bind_def client_send_def client_live_def)
    next
      case (Cons a rest)
      show ?thesis
      proof (cases a)
        case None
        with s Inr Cons show ?thesis
          by (simp add: send_request_def flow_bind_def client_send_def client_live_def)
      next
        case (Some ch)
        let ?s = "s\<lparr>ic_buffer := [], ic_requests := ic_requests s @ [Single (Raw buf)], ic_answers := rest\<rparr>"
        have "closing ch" using s(1) Cons Some by (simp add: client_live_def)
        then have "ends k P (f (responses_new ch))"
          by (intro assms) (simp add: resp_live_def responses_new_def)
        moreover have "client_live ?s" using s(1) Cons by (simp add: client_live_def)
        moreover have "length (ic_answers ?s) < k" using s(2) Cons by simp
        ultimately obtain r s' where r: "f (responses_new ch) ?s = Some (r, s')" "client_live s'"
            "length (ic_answers s') \<le> length (ic_answers ?s)" "\<forall>x. r = Inr x \<longrightarrow> P x"
          unfolding ends_def by blast
        have "flow_bind (send_request w) f s = f (responses_new ch) ?s"
          using Inr Cons Some by (simp add: send_request_def flow_bind_def client_send_def)
        with r Cons show ?thesis by auto
      qed
    qed
  qed
qed

lemma flow_bind_assoc: "flow_bind (flow_bind m f) g = flow_bind m (\<lambda>x. flow_bind (f x) g)"
  by (rule ext) (auto simp: flow_bind_def split: option.split sum.split prod.split)

subsection \<open>Awaiting answers\<close>

lemma chan_poll_closing: "chan_poll ch = (p, ch') \<Longrightarrow> closing ch \<Longrightarrow> closing ch'"
  by (cases ch rule: chan_poll.cases) (auto simp: closing_def)

lemma responses_poll_live:
  "responses_poll_next r = (p, r') \<Longrightarrow> resp_live r \<Longrightarrow>
     resp_live r' \<and> length (rs_receiver r') \<le> length (rs_receiver r) \<and>
     (p = Pending \<longrightarrow> length (rs_receiver r') < length (rs_receiver r))"
proof (induction r rule: responses_poll_next.induct)
  case (1 r)
  show ?case
  proof (cases "\<exists>cur. messages_next (rs_cur r) = Inr (None, cur)")
    case True
    then obtain cur where cur: "messages_next (rs_cur r) = Inr (None, cur)" ..
    obtain q rx where c: "chan_poll (rs_receiver r) = (q, rx)" by (cases "chan_poll (rs_receiver r)")
    have rx: "closing rx" "length rx \<le> length (rs_receiver r)" "rs_receiver r \<noteq> []"
      using chan_poll_closing [OF c] chan_poll_length [OF c] "1.prems"(2) by (auto simp: resp_live_def closing_def)
    consider "q = Pending" | "q = Ready None" | x where "q = Ready (Some x)"
      by (cases q; cases "case q of Ready v \<Rightarrow> v | Pending \<Rightarrow> None") auto
    then show ?thesis
    proof cases
      case 1
      with "1.prems" c cur rx chan_poll_pending_shrinks [of "rs_receiver r" rx] show ?thesis
        by (auto simp: responses_poll_next.simps [of r] resp_live_def)
    next
      case 2
      with "1.prems" c cur rx show ?thesis by (auto simp: responses_poll_next.simps [of r] resp_live_def)
    next
      case 3
      with "1.prems" c cur rx "1.IH" [OF cur refl refl c [symmetric] 3 refl] show ?thesis
        by (fastforce simp: responses_poll_next.simps [of r] resp_live_def)
    qed
  next
    case False
    with "1.prems" show ?thesis
      by (subst (asm) responses_poll_next.simps)
        (auto simp: resp_live_def split: sum.splits prod.splits option.splits message.splits)
  qed
qed

lemma responses_next_live: "resp_live r \<Longrightarrow> \<exists>x r'. responses_next r = Some (x, r') \<and> resp_live r'"
proof (induction r rule: responses_next.induct)
  case (1 r)
  obtain p q where p: "responses_poll_next r = (p, q)" by (cases "responses_poll_next r")
  note live = responses_poll_live [OF p "1.prems"]
  show ?case
  proof (cases p)
    case (Ready x)
    with p live show ?thesis by (simp add: responses_next.simps [of r])
  next
    case Pending
    have "rs_receiver r \<noteq> []" using "1.prems" by (auto simp: resp_live_def closing_def)
    with "1.IH" [OF p [symmetric] Pending] p Pending live show ?thesis by (simp add: responses_next.simps [of r])
  qed
qed

lemma ends_await_next [ends_intro]: "resp_live r \<Longrightarrow> ends k (\<lambda>(m, r'). resp_live r' \<and> resp_size r' < resp_size r) (await_next r)"
  using responses_next_live [of r] responses_next_size [of r]
  by (fastforce simp: ends_def await_next_def split: sum.split)

lemma ends_awaits [ends_intro]: "resp_live r \<Longrightarrow> ends k resp_live (awaits ok r)"
  unfolding awaits_def by (rule ends_bind [OF ends_await_next]) (auto intro!: ends_intro)

subsection \<open>Awaiting rows\<close>

lemma row_poll_cases:
  assumes "responses_poll_next (rw_responses t) = (Ready (Inr m), r)"
  shows "(\<exists>x t'. row_poll_next t = (Ready x, t') \<and> rw_responses t' = r) \<or>
    (\<exists>t'. row_poll_next t = row_poll_next t' \<and> rw_responses t' = r)"
proof (cases m)
  case (CommandComplete body)
  then show ?thesis
  proof (cases "extract_row_affected body")
    case (Inl e)
    with assms CommandComplete show ?thesis by (intro disjI1) (simp add: row_poll_next.simps [of t] item_fail_def)
  next
    case (Inr n)
    with assms CommandComplete show ?thesis
      by (intro disjI2 exI [of _ "t\<lparr>rw_responses := r, rw_rows_affected := Some n\<rparr>"]) (simp add: row_poll_next.simps [of t])
  qed
next
  case EmptyQueryResponse
  with assms show ?thesis
    by (intro disjI2 exI [of _ "t\<lparr>rw_responses := r\<rparr>"]) (simp add: row_poll_next.simps [of t])
next
  case PortalSuspended
  with assms show ?thesis
    by (intro disjI2 exI [of _ "t\<lparr>rw_responses := r\<rparr>"]) (simp add: row_poll_next.simps [of t])
qed (use assms in \<open>simp_all add: row_poll_next.simps [of t] item_fail_def item_of_def\<close>)

lemma row_poll_live:
  "row_poll_next t = (p, t') \<Longrightarrow> resp_live (rw_responses t) \<Longrightarrow>
     resp_live (rw_responses t') \<and> length (rs_receiver (rw_responses t')) \<le> length (rs_receiver (rw_responses t)) \<and>
     (p = Pending \<longrightarrow> length (rs_receiver (rw_responses t')) < length (rs_receiver (rw_responses t)))"
proof (induction "resp_size (rw_responses t)" arbitrary: t rule: less_induct)
  case less
  obtain q r where q: "responses_poll_next (rw_responses t) = (q, r)"
    by (cases "responses_poll_next (rw_responses t)")
  note live = responses_poll_live [OF q less.prems(2)]
  consider "q = Pending" | e where "q = Ready (Inl e)" | m where "q = Ready (Inr m)"
    by (cases q; cases "case q of Ready v \<Rightarrow> v | Pending \<Rightarrow> Inl E_Closed") auto
  then show ?case
  proof cases
    case 1
    with less.prems(1) q live show ?thesis by (auto simp: row_poll_next.simps [of t])
  next
    case 2
    with less.prems(1) q live show ?thesis by (auto simp: row_poll_next.simps [of t] item_fail_def)
  next
    case 3
    from row_poll_cases [OF q [unfolded 3]] show ?thesis
    proof (elim disjE exE conjE)
      fix x t'' assume "row_poll_next t = (Ready x, t'')" "rw_responses t'' = r"
      with less.prems(1) live show ?thesis by auto
    next
      fix t'' assume t'': "row_poll_next t = row_poll_next t''" "rw_responses t'' = r"
      have "resp_size r < resp_size (rw_responses t)" using responses_poll_size [OF q] 3 by simp
      with less.hyps [of t''] less.prems(1) t'' live show ?thesis by fastforce
    qed
  qed
qed

lemma until_ready_live:
  "resp_live (rw_responses t) \<Longrightarrow> length (rs_receiver (rw_responses t)) < n \<Longrightarrow>
     \<exists>x t'. until_ready n row_poll_next t = Some (x, t') \<and> resp_live (rw_responses t')"
proof (induction n arbitrary: t)
  case (Suc n)
  obtain p u where p: "row_poll_next t = (p, u)" by (cases "row_poll_next t")
  note live = row_poll_live [OF p Suc.prems(1)]
  show ?case
  proof (cases p)
    case Pending
    with Suc.IH [of u] live Suc.prems p show ?thesis by auto
  next
    case (Ready y)
    with p live show ?thesis by simp
  qed
qed simp

definition stream_after :: "row_stream \<Rightarrow> row option \<times> row_stream \<Rightarrow> bool" where
  "stream_after t = (\<lambda>(x, t'). resp_live (rw_responses t') \<and>
     (x \<noteq> None \<longrightarrow> resp_size (rw_responses t') < resp_size (rw_responses t)))"

lemma ends_try_next_row: "resp_live (rw_responses t) \<Longrightarrow> ends k (stream_after t) (try_next_row t)"
  using until_ready_live [of t "Suc (length (rs_receiver (rw_responses t)))"]
    until_ready_rows [of "Suc (length (rs_receiver (rw_responses t)))" t]
  by (fastforce simp: ends_def try_next_row_def row_next_def await_stream_def stream_after_def split: option.split sum.split)

text \<open>A loop over the rows of a stream ends when what it does with a row ends.\<close>

lemma ends_row_loop:
  assumes loop: "\<And>t. loop t = flow_bind (try_next_row t) (\<lambda>(x, t). body x t)"
    and none: "\<And>t. resp_live (rw_responses t) \<Longrightarrow> ends k Q (body None t)"
    and row: "\<And>row t. resp_live (rw_responses t) \<Longrightarrow> ends k Q (loop t) \<Longrightarrow> ends k Q (body (Some row) t)"
  shows "resp_live (rw_responses t) \<Longrightarrow> ends k Q (loop t)"
proof (induction "resp_size (rw_responses t)" arbitrary: t rule: less_induct)
  case less
  show ?case
    unfolding loop [of t]
  proof (rule ends_bind [OF ends_try_next_row [OF less.prems]])
    fix y assume y: "stream_after t y"
    obtain x u where u: "y = (x, u)" by (cases y)
    with y have live: "resp_live (rw_responses u)" by (simp add: stream_after_def)
    show "ends k Q (case y of (x, t) \<Rightarrow> body x t)"
    proof (cases x)
      case None
      with u none [OF live] show ?thesis by simp
    next
      case (Some r)
      with y u have "resp_size (rw_responses u) < resp_size (rw_responses t)" by (simp add: stream_after_def)
      then have "ends k Q (loop u)" using live by (rule less.hyps)
      with u Some row [OF live] show ?thesis by simp
    qed
  qed
qed

text \<open>The steps of the loops, and the loops.\<close>

lemma ends_get_value [ends_intro]: "ends k (\<lambda>_. True) (get_value f i row)"
  by (auto simp: get_value_def intro: ends_intro)

lemma ends_then_ret [ends_intro]:
  assumes "ends k Q m" "\<And>x. Q x \<Longrightarrow> P (f x)"
  shows "ends k P (flow_bind m (\<lambda>x. flow_ret (f x)))"
  using assms by (auto intro: ends_bind ends_intro)

lemma row_loop_eqs:
  "collect_rows t =
     flow_bind (try_next_row t) (\<lambda>(x, t). case x of
       None \<Rightarrow> flow_ret []
     | Some row \<Rightarrow> flow_bind (collect_rows t) (\<lambda>rows. flow_ret (row # rows)))"
  "variants_loop t =
     flow_bind (try_next_row t) (\<lambda>(x, t). case x of
       None \<Rightarrow> flow_ret []
     | Some row \<Rightarrow> flow_bind (get_value str_from_sql 0 row) (\<lambda>v. flow_bind (variants_loop t) (\<lambda>vs. flow_ret (v # vs))))"
  by (auto simp: fun_eq_iff flow_bind_def collect_rows.simps [of t] variants_loop.simps [of t]
      split: option.split prod.split sum.split)

lemma ends_collect_rows [ends_intro]: "resp_live (rw_responses t) \<Longrightarrow> ends k (\<lambda>_. True) (collect_rows t)"
  by (rule ends_row_loop [OF row_loop_eqs(1)]) (auto intro!: ends_intro)

lemma ends_variants [ends_intro]: "resp_live (rw_responses t) \<Longrightarrow> ends k (\<lambda>_. True) (variants_loop t)"
  by (rule ends_row_loop [OF row_loop_eqs(2)]) (auto intro!: ends_intro ends_bind [OF ends_get_value])

section \<open>Looking up types ends\<close>

abbreviation always :: "nat \<Rightarrow> 'a flow \<Rightarrow> bool" where
  "always k m \<equiv> ends k (\<lambda>_. True) m"

lemma always_bind: "always k m \<Longrightarrow> (\<And>x. ends k P (f x)) \<Longrightarrow> ends k P (flow_bind m f)"
  by (rule ends_bind)

lemma ends_param_types: "(\<And>oid. always k (rec oid)) \<Longrightarrow> always k (param_types rec it)"
proof (induction "length (pm_buf it)" arbitrary: it rule: less_induct)
  case less
  show ?case
  proof (cases "parameters_next it")
    case (Inl e)
    then have "param_types rec it = flow_fail (E_Parse e)" by (simp add: fun_eq_iff param_types.simps [of rec it])
    then show ?thesis by (simp add: ends_intro)
  next
    case (Inr x)
    obtain y it' where x: "x = (y, it')" by (cases x)
    show ?thesis
    proof (cases y)
      case None
      with Inr x have "param_types rec it = flow_ret []" by (simp add: fun_eq_iff param_types.simps [of rec it])
      then show ?thesis by (simp add: ends_intro)
    next
      case (Some oid)
      with Inr x have "length (pm_buf it') < length (pm_buf it)" by (auto dest: param_iter.shrinks)
      from less.hyps [OF this less.prems] have "always k (param_types rec it')" .
      moreover from Inr x Some have "param_types rec it =
          flow_bind (rec oid) (\<lambda>ty. flow_bind (param_types rec it') (\<lambda>tys. flow_ret (ty # tys)))"
        by (simp add: fun_eq_iff param_types.simps [of rec it])
      ultimately show ?thesis by (auto intro!: ends_intro ends_bind [OF less.prems])
    qed
  qed
qed

lemma ends_columns_of: "(\<And>oid. always k (rec oid)) \<Longrightarrow> always k (columns_of rec it)"
proof (induction "length (fs_buf it)" arbitrary: it rule: less_induct)
  case less
  show ?case
  proof (cases "fields_next it")
    case (Inl e)
    then have "columns_of rec it = flow_fail (E_Parse e)" by (simp add: fun_eq_iff columns_of.simps [of rec it])
    then show ?thesis by (simp add: ends_intro)
  next
    case (Inr x)
    obtain y it' where x: "x = (y, it')" by (cases x)
    show ?thesis
    proof (cases y)
      case None
      with Inr x have "columns_of rec it = flow_ret []" by (simp add: fun_eq_iff columns_of.simps [of rec it])
      then show ?thesis by (simp add: ends_intro)
    next
      case (Some fd)
      with Inr x have "length (fs_buf it') < length (fs_buf it)" by (auto dest: field_iter.shrinks)
      from less.hyps [OF this less.prems] have "always k (columns_of rec it')" .
      moreover from Inr x Some have "columns_of rec it =
          flow_bind (rec (fd_type_oid fd)) (\<lambda>ty. flow_bind (columns_of rec it') (\<lambda>cols. flow_ret (column_of fd ty # cols)))"
        by (simp add: fun_eq_iff columns_of.simps [of rec it])
      ultimately show ?thesis by (auto intro!: ends_intro ends_bind [OF less.prems])
    qed
  qed
qed

lemma ends_start: "ends (Suc k) resp_live (start w)"
  unfolding start_def by (rule ends_send) (rule ends_intro)

lemma ends_query_statement: "ends (Suc k) (\<lambda>t. resp_live (rw_responses t)) (query_statement st params)"
  unfolding query_statement_def by (rule ends_bind [OF ends_start]) (auto intro: ends_intro)

lemma ends_prepare_with:
  assumes "\<And>oid. always k (rec oid)"
  shows "always (Suc k) (prepare_with rec q types)"
proof -
  have params: "always k (param_types rec it)" "always k (columns_of rec jt)" for it jt
    using assms by (auto intro: ends_param_types ends_columns_of)
  have described: "always k (parameter_description_of m)" "always k (row_description_of m)" for m
    by (auto simp: parameter_description_of_def row_description_of_def intro: ends_intro split: message.split)
  have await: "always k (flow_bind (await_next r) f)" if "resp_live r" "\<And>m r'. resp_live r' \<Longrightarrow> always k (f (m, r'))" for r f
    using that by (auto intro: ends_bind [OF ends_await_next])
  show ?thesis
    unfolding prepare_with_def Let_def
    by (rule ends_bind [OF ends_state(1)], rule ends_send, erule ends_bind [OF ends_awaits], erule await, simp,
        rule always_bind [OF described(1)], erule await, simp, rule always_bind [OF described(2)],
        rule always_bind [OF params(1)], rule ends_then_ret)
      (auto intro: params ends_intro split: option.split)
qed

lemma ends_catch: "always k m \<Longrightarrow> always k h \<Longrightarrow> always k (flow_catch m p h)"
  unfolding ends_def
proof (intro allI impI)
  fix s
  assume m: "\<forall>s. client_live s \<longrightarrow> length (ic_answers s) < k \<longrightarrow>
      (\<exists>r s'. m s = Some (r, s') \<and> client_live s' \<and> length (ic_answers s') \<le> length (ic_answers s) \<and> (\<forall>x. r = Inr x \<longrightarrow> True))"
    and h: "\<forall>s. client_live s \<longrightarrow> length (ic_answers s) < k \<longrightarrow>
      (\<exists>r s'. h s = Some (r, s') \<and> client_live s' \<and> length (ic_answers s') \<le> length (ic_answers s) \<and> (\<forall>x. r = Inr x \<longrightarrow> True))"
    and s: "client_live s" "length (ic_answers s) < k"
  from m s obtain r s' where r: "m s = Some (r, s')" "client_live s'" "length (ic_answers s') \<le> length (ic_answers s)"
    by blast
  with h s obtain q s'' where q: "h s' = Some (q, s'')" "client_live s''" "length (ic_answers s'') \<le> length (ic_answers s')"
    by (meson order_le_less_trans)
  with r show "\<exists>r s'. flow_catch m p h s = Some (r, s') \<and> client_live s' \<and> length (ic_answers s') \<le> length (ic_answers s) \<and>
      (\<forall>x. r = Inr x \<longrightarrow> True)"
    by (auto simp: flow_catch_def split: sum.split fault.split)
qed

lemma ends_cached: "always k p \<Longrightarrow> (\<And>st. always k (put st)) \<Longrightarrow> always k (cached get p put)"
proof -
  assume "always k p" "\<And>st. always k (put st)"
  then have "always k (flow_bind p (\<lambda>st. flow_bind (put st) (\<lambda>_. flow_ret st)))"
    by (auto intro: always_bind ends_intro)
  moreover have "always k (flow_ret st)" for st :: statement by (rule ends_intro) simp
  ultimately show ?thesis
    unfolding ends_def cached_def by (auto split: option.split)
qed

lemma ends_statements:
  assumes "\<And>oid. always k (rec oid)"
  shows "always (Suc k) (typeinfo_statement rec)" "always (Suc k) (typeinfo_enum_statement rec)"
    "always (Suc k) (typeinfo_composite_statement rec)"
  unfolding typeinfo_statement_def typeinfo_enum_statement_def typeinfo_composite_statement_def
  by (auto intro!: ends_cached ends_catch ends_prepare_with assms ends_state)

lemma ends_composite_loop: "(\<And>oid. always k (rec oid)) \<Longrightarrow> always k (composite_loop rec rows)"
  by (induction rec rows rule: composite_loop.induct)
    (auto intro!: ends_intro intro: always_bind ends_get_value)

text \<open>
  A query takes an answer back, so what follows it starts with fewer answers to come.
\<close>

lemma ends_queried:
  assumes "always (Suc k) p" "\<And>t. resp_live (rw_responses t) \<Longrightarrow> ends k Q (f t)"
  shows "ends (Suc k) Q (flow_bind p (\<lambda>st. flow_bind (query_statement st params) f))"
proof (rule ends_bind [OF assms(1)])
  fix st :: statement
  have "flow_bind (query_statement st params) f =
      flow_bind (send_request (statement_encode st params))
        (\<lambda>r. flow_bind (awaits is_bind_complete r)
          (\<lambda>r. f \<lparr>rw_statement = st, rw_responses = r, rw_rows_affected = None\<rparr>))"
    by (simp add: query_statement_def start_def flow_bind_assoc)
      (simp add: fun_eq_iff flow_bind_def split: option.split prod.split sum.split)
  moreover have "ends (Suc k) Q (flow_bind (send_request (statement_encode st params))
        (\<lambda>r. flow_bind (awaits is_bind_complete r)
          (\<lambda>r. f \<lparr>rw_statement = st, rw_responses = r, rw_rows_affected = None\<rparr>)))"
    by (rule ends_send, erule ends_bind [OF ends_awaits]) (rule assms(2), simp)
  ultimately show "ends (Suc k) Q (flow_bind (query_statement st params) f)" by simp
qed

lemma ends_kind_of:
  assumes rec: "\<And>oid. always k (rec oid)" and subs: "always k (get_enum_variants rec oid)" "always k (get_composite_fields rec relid)"
  shows "always k (kind_of rec oid typtype elem_oid rngsubtype basetype relid)"
  using rec subs by (auto simp: kind_of_def intro!: ends_intro split: option.split)

lemma ends_sub_queries:
  assumes rec: "\<And>oid. always k (rec oid)"
  shows "always k (get_enum_variants rec oid)" "always k (get_composite_fields rec oid)"
proof -
  have "always (Suc k) (get_enum_variants rec oid)"
    unfolding get_enum_variants_def by (rule ends_queried) (auto intro: ends_statements rec ends_intro)
  then show "always k (get_enum_variants rec oid)" by (rule ends_less) simp
  have "always (Suc k) (get_composite_fields rec oid)"
    unfolding get_composite_fields_def
    by (rule ends_queried) (auto intro: ends_statements rec always_bind ends_collect_rows ends_composite_loop)
  then show "always k (get_composite_fields rec oid)" by (rule ends_less) simp
qed

lemma ends_first_row: "resp_live (rw_responses t) \<Longrightarrow> always k (first_row t)"
  unfolding first_row_def by (rule ends_bind [OF ends_try_next_row]) (auto intro: ends_intro split: option.split)

lemma ends_lookup_type: "(\<And>oid. always k (rec oid)) \<Longrightarrow> always (Suc k) (lookup_type rec oid)"
  unfolding lookup_type_def Let_def
  by (rule ends_queried)
    (auto intro!: ends_statements always_bind [OF ends_get_value] always_bind [OF ends_first_row] always_bind [OF ends_kind_of]
      always_bind [OF ends_state(5)] ends_sub_queries intro: ends_intro)

lemma ends_get_type: "always n (get_type n known oid)"
proof (induction n arbitrary: oid)
  case 0
  show ?case by (simp add: ends_def)
next
  case (Suc n)
  have "always (Suc n) (lookup_type (get_type n known) oid)" by (rule ends_lookup_type) (rule Suc.IH)
  moreover have "always (Suc n) (flow_ret ty)" for ty :: pg_type by (rule ends_intro) simp
  ultimately show ?case unfolding ends_def get_type.simps get_type_step_def by (auto split: option.split)
qed

lemma ends_prepare: "always (Suc n) (prepare n known q types)"
  unfolding prepare_def by (rule ends_prepare_with) (rule ends_get_type)

text \<open>
  A client that gets finitely many answers, each of them on a channel that closes: preparing a statement completes then, with a
  statement or an error, and the fuel of the lookup is enough. Every level of the recursion over the types costs an answer; nothing else
  bounds it, so this says nothing of a server that never stops answering.
\<close>

lemma prepare_within_answers:
  assumes "\<forall>ch. Some ch \<in> set (ic_answers s) \<longrightarrow> Ready None \<in> set ch"
  shows "\<exists>r s'. client_prepare known q types s = Some (r, s')"
  using assms ends_prepare [of "Suc (length (ic_answers s))" known q types]
  unfolding ends_def client_prepare_def client_live_def closing_def
  by (meson less_SucI lessI)

end
