(* ===== verification/Query_Laws.thy ===== *)
theory Query_Laws
  imports Prepare_Laws
begin

text \<open>
  What the queries return when the server answers as the protocol says, and what they send: the rows of a result come back in
  their order and complete, an error of the server in place of a result is the error of the query, and the request is the Bind, Execute
  and Sync of the statement with its parameters.
\<close>

section \<open>Sending and awaiting, when the answers are known\<close>

text \<open>The state of the client after a request was accepted: the buffer is empty and the first channel is taken.\<close>

definition after_request :: "bytes \<Rightarrow> inner_client \<Rightarrow> inner_client" where
  "after_request buf s =
     s\<lparr>ic_buffer := [], ic_requests := ic_requests s @ [Single (Raw buf)], ic_answers := List.tl (ic_answers s)\<rparr>"

lemma send_request_ok:
  "w (ic_buffer s) = Inr buf \<Longrightarrow> ic_answers s = Some ch # rest \<Longrightarrow>
     send_request w s = Some (Inr (responses_new ch), after_request buf s)"
  by (simp add: send_request_def flow_bind_def client_send_def after_request_def)

lemma awaits_holds:
  "holds r (m # ms) \<Longrightarrow> (\<And>body. m \<noteq> ErrorResponse body) \<Longrightarrow> ok m \<Longrightarrow>
     \<exists>r'. awaits ok r s = Some (Inr r', s) \<and> holds r' ms"
  using await_next_holds [of r m ms s] by (auto simp: awaits_def)

lemma awaits_error:
  "holds r (ErrorResponse body # ms) \<Longrightarrow> awaits ok r s = Some (Inl (Fault (error_db body)), s)"
  by (simp add: awaits_def await_next_error)

lemma start_ok:
  assumes "w (ic_buffer s) = Inr buf" "ic_answers s = Some ch # rest" "answers_with ch (BindComplete # ms)"
  shows "\<exists>r. start w s = Some (Inr r, after_request buf s) \<and> holds r ms"
  using awaits_holds [of "responses_new ch" BindComplete ms is_bind_complete "after_request buf s"] assms
  by (auto simp: start_def send_request_ok answers_with_def is_bind_complete_def)

section \<open>Counting rows\<close>

definition result_messages :: "data_row_body list \<Rightarrow> message list \<Rightarrow> message list" where
  "result_messages rows ms = map DataRow rows @ ms"

lemma execute_loop_rows:
  "holds r (map DataRow rows @ [CommandComplete tag, ReadyForQuery z]) \<Longrightarrow> extract_row_affected tag = Inr n \<Longrightarrow>
     execute_loop k r s = Some (Inr n, s)"
proof (induction rows arbitrary: r)
  case Nil
  then obtain r1 where r1: "await_next r s = Some (Inr (CommandComplete tag, r1), s)" "holds r1 [ReadyForQuery z]"
    using await_next_holds [of r "CommandComplete tag" "[ReadyForQuery z]" s] by auto
  then obtain r2 where r2: "await_next r1 s = Some (Inr (ReadyForQuery z, r2), s)"
    using await_next_holds [of r1 "ReadyForQuery z" "[]" s] by auto
  from r1 r2 Nil.prems(2) show ?case
    by (simp add: execute_loop.simps [of k r s] execute_loop.simps [of n r1 s])
next
  case (Cons row rows)
  then obtain r1 where r1: "await_next r s = Some (Inr (DataRow row, r1), s)"
      "holds r1 (map DataRow rows @ [CommandComplete tag, ReadyForQuery z])"
    using await_next_holds [of r "DataRow row" "map DataRow rows @ [CommandComplete tag, ReadyForQuery z]" s] by auto
  with Cons show ?case by (simp add: execute_loop.simps [of k r s])
qed

lemma execute_loop_error:
  "holds r (map DataRow rows @ ErrorResponse body # ms) \<Longrightarrow> execute_loop k r s = Some (Inl (Fault (error_db body)), s)"
proof (induction rows arbitrary: r)
  case Nil
  then show ?case by (simp add: execute_loop.simps [of k r s] await_next_error)
next
  case (Cons row rows)
  then obtain r1 where r1: "await_next r s = Some (Inr (DataRow row, r1), s)"
      "holds r1 (map DataRow rows @ ErrorResponse body # ms)"
    using await_next_holds [of r "DataRow row" "map DataRow rows @ ErrorResponse body # ms" s] by auto
  with Cons show ?case by (simp add: execute_loop.simps [of k r s])
qed

section \<open>Collecting rows\<close>

text \<open>Messages the row stream passes over, and what it makes of the next one.\<close>

fun skipped :: "message \<Rightarrow> bool" where
  "skipped (CommandComplete tag) \<longleftrightarrow> (\<exists>n. extract_row_affected tag = Inr n)"
| "skipped EmptyQueryResponse \<longleftrightarrow> True"
| "skipped PortalSuspended \<longleftrightarrow> True"
| "skipped _ \<longleftrightarrow> False"

fun row_outcome :: "statement \<Rightarrow> message \<Rightarrow> row item" where
  "row_outcome st (DataRow body) = Some (map_err Fault (row_new st body))"
| "row_outcome st (ReadyForQuery _) = None"
| "row_outcome st (ErrorResponse body) = Some (Inl (Fault (error_db body)))"
| "row_outcome st _ = Some (Inl (Fault E_UnexpectedMessage))"

lemma responses_poll_length: "responses_poll_next r = (p, r') \<Longrightarrow> length (rs_receiver r') \<le> length (rs_receiver r)"
proof (induction r rule: responses_poll_next.induct)
  case (1 r)
  show ?case
  proof (cases "\<exists>cur. messages_next (rs_cur r) = Inr (None, cur)")
    case True
    then obtain cur where cur: "messages_next (rs_cur r) = Inr (None, cur)" ..
    obtain q rx where c: "chan_poll (rs_receiver r) = (q, rx)" by (cases "chan_poll (rs_receiver r)")
    consider "q = Pending" | "q = Ready None" | x where "q = Ready (Some x)"
      by (cases q; cases "case q of Ready v \<Rightarrow> v | Pending \<Rightarrow> None") auto
    then show ?thesis
    proof cases
      case 3
      with "1.prems" c cur "1.IH" [OF cur refl refl c [symmetric] 3 refl] chan_poll_length [OF c] show ?thesis
        by (fastforce simp: responses_poll_next.simps [of r])
    qed (use "1.prems" c cur chan_poll_length [OF c] in \<open>auto simp: responses_poll_next.simps [of r]\<close>)
  next
    case False
    with "1.prems" show ?thesis
      by (subst (asm) responses_poll_next.simps) (auto split: sum.splits prod.splits option.splits message.splits)
  qed
qed

lemma row_poll_skip:
  assumes "skipped m" "responses_poll_next (rw_responses t) = (Ready (Inr m), r)"
  shows "\<exists>t'. row_poll_next t = row_poll_next t' \<and> rw_responses t' = r \<and> rw_statement t' = rw_statement t"
proof (cases m)
  case (CommandComplete tag)
  with assms obtain n where "extract_row_affected tag = Inr n" by auto
  with assms CommandComplete show ?thesis
    by (intro exI [of _ "t\<lparr>rw_responses := r, rw_rows_affected := Some n\<rparr>"]) (simp add: row_poll_next.simps [of t])
next
  case EmptyQueryResponse
  with assms show ?thesis by (intro exI [of _ "t\<lparr>rw_responses := r\<rparr>"]) (simp add: row_poll_next.simps [of t])
next
  case PortalSuspended
  with assms show ?thesis by (intro exI [of _ "t\<lparr>rw_responses := r\<rparr>"]) (simp add: row_poll_next.simps [of t])
qed (use assms in simp_all)

lemma row_poll_outcome:
  assumes "\<not> skipped m" "\<And>tag. m \<noteq> CommandComplete tag"
    and "responses_poll_next (rw_responses t) = (Ready (case m of ErrorResponse body \<Rightarrow> Inl (error_db body) | _ \<Rightarrow> Inr m), r)"
  shows "row_poll_next t = (Ready (row_outcome (rw_statement t) m), t\<lparr>rw_responses := r\<rparr>)"
proof (cases m)
  case (CommandComplete tag)
  with assms(2) show ?thesis by blast
qed (use assms(1,3) in \<open>simp_all add: row_poll_next.simps [of t] item_fail_def item_of_def\<close>)

lemma responses_poll_holds:
  assumes "holds r (m # ms)"
  obtains (waits) r' where "responses_poll_next r = (Pending, r')" "holds r' (m # ms)" "length (rs_receiver r') < length (rs_receiver r)"
    | (comes) r' where "responses_poll_next r = (Ready (case m of ErrorResponse body \<Rightarrow> Inl (error_db body) | _ \<Rightarrow> Inr m), r')"
        "holds r' ms" "length (rs_receiver r') \<le> length (rs_receiver r)"
proof -
  obtain p r' where p: "responses_poll_next r = (p, r')" by (cases "responses_poll_next r")
  note ok = poll_next_holds [OF assms, unfolded poll_result_ok_def p]
  show ?thesis
  proof (cases p)
    case Pending
    with p have "rs_receiver r \<noteq> []" using poll_waits_on_receiver [OF assms, of r'] by simp
    with p Pending responses_poll_pending [of r r'] ok show ?thesis by (intro waits) auto
  next
    case (Ready x)
    show ?thesis
    proof (cases x)
      case (Inl e)
      with ok Ready p responses_poll_length [OF p] show ?thesis by (intro comes) auto
    next
      case (Inr m')
      with ok Ready have m': "m' = m" "holds r' ms" by auto
      have "m \<noteq> ErrorResponse body" for body
        using responses_poll_no_error [of r m r' body] p Ready Inr m' by simp
      with m' Ready Inr p responses_poll_length [OF p] show ?thesis by (intro comes) (cases m, auto)
    qed
  qed
qed

lemma row_poll_holds:
  assumes "holds (rw_responses t) (sk @ m # ms)" "list_all skipped sk" "\<not> skipped m" "\<And>tag. m \<noteq> CommandComplete tag"
  shows "(\<exists>sk' t'. row_poll_next t = (Pending, t') \<and> holds (rw_responses t') (sk' @ m # ms) \<and> list_all skipped sk' \<and>
        rw_statement t' = rw_statement t \<and> length (rs_receiver (rw_responses t')) < length (rs_receiver (rw_responses t))) \<or>
    (\<exists>t'. row_poll_next t = (Ready (row_outcome (rw_statement t) m), t') \<and> holds (rw_responses t') ms \<and>
        rw_statement t' = rw_statement t)"
  using assms(1,2)
proof (induction sk arbitrary: t)
  case Nil
  then have "holds (rw_responses t) (m # ms)" by simp
  then show ?case
  proof (cases rule: responses_poll_holds)
    case (waits r')
    with Nil show ?thesis
      by (intro disjI1 exI [of _ "[]"] exI [of _ "t\<lparr>rw_responses := r'\<rparr>"]) (simp add: row_poll_next.simps [of t])
  next
    case (comes r')
    with row_poll_outcome [OF assms(3,4) comes(1)] show ?thesis by (intro disjI2 exI) auto
  qed
next
  case (Cons x sk)
  then have "holds (rw_responses t) (x # sk @ m # ms)" by simp
  then show ?case
  proof (cases rule: responses_poll_holds)
    case (waits r')
    with Cons show ?thesis
      by (intro disjI1 exI [of _ "x # sk"] exI [of _ "t\<lparr>rw_responses := r'\<rparr>"]) (simp add: row_poll_next.simps [of t])
  next
    case (comes r')
    from Cons.prems(2) have x: "skipped x" by simp
    then have "(case x of ErrorResponse body \<Rightarrow> Inl (error_db body) | _ \<Rightarrow> Inr x) = (Inr x :: error + message)"
      by (cases x) auto
    with comes x obtain t' where t': "row_poll_next t = row_poll_next t'" "rw_responses t' = r'" "rw_statement t' = rw_statement t"
      using row_poll_skip [OF x, of t r'] by auto
    from Cons.IH [of t'] comes t' Cons.prems(2) show ?thesis by auto
  qed
qed

lemma row_next_holds:
  assumes "holds (rw_responses t) (sk @ m # ms)" "list_all skipped sk" "\<not> skipped m" "\<And>tag. m \<noteq> CommandComplete tag"
  shows "\<exists>t'. row_next t = Some (row_outcome (rw_statement t) m, t') \<and> holds (rw_responses t') ms \<and> rw_statement t' = rw_statement t"
proof -
  have "\<exists>t'. until_ready n row_poll_next t = Some (row_outcome (rw_statement t) m, t') \<and> holds (rw_responses t') ms \<and>
      rw_statement t' = rw_statement t"
    if "length (rs_receiver (rw_responses t)) < n" for n
    using assms(1,2) that
  proof (induction n arbitrary: t sk)
    case (Suc n)
    from row_poll_holds [OF Suc.prems(1,2) assms(3,4)] show ?case
    proof (elim disjE exE conjE)
      fix sk' t'
      assume p: "row_poll_next t = (Pending, t')" "holds (rw_responses t') (sk' @ m # ms)" "list_all skipped sk'"
        "rw_statement t' = rw_statement t" "length (rs_receiver (rw_responses t')) < length (rs_receiver (rw_responses t))"
      with Suc.IH [OF p(2,3)] Suc.prems(3) show ?thesis by simp
    qed simp
  qed simp
  from this [of "Suc (length (rs_receiver (rw_responses t)))"] show ?thesis
    unfolding row_next_def await_stream_def by blast
qed

text \<open>The row a client makes of the values of a row.\<close>

definition row_for :: "statement \<Rightarrow> bytes option list \<Rightarrow> row" where
  "row_for st vs = \<lparr>row_statement = st, row_body = row_of vs, row_ranges = ranges_of 0 vs\<rparr>"

lemma row_new_for: "row_fits vs \<Longrightarrow> row_new st (row_of vs) = Inr (row_for st vs)"
  by (simp add: row_new_def ranges_row_of row_for_def)

definition data_rows :: "bytes option list list \<Rightarrow> message list" where
  "data_rows vss = map (DataRow \<circ> row_of) vss"

lemma collect_rows_holds:
  assumes "holds (rw_responses t) (data_rows vss @ sk @ m # ms)" "list_all row_fits vss" "list_all skipped sk" "\<not> skipped m"
    "\<And>tag. m \<noteq> CommandComplete tag" "\<And>row. row_outcome (rw_statement t) m \<noteq> Some (Inr row)"
  shows "collect_rows t s =
    Some (case row_outcome (rw_statement t) m of Some (Inl e) \<Rightarrow> Inl e | _ \<Rightarrow> Inr (map (row_for (rw_statement t)) vss), s)"
  using assms(1,2,6)
proof (induction vss arbitrary: t)
  case Nil
  with row_next_holds [of t sk m ms] assms(3-5) obtain t' where
    "row_next t = Some (row_outcome (rw_statement t) m, t')" by (auto simp: data_rows_def)
  with Nil.prems(3) show ?case
    by (cases "row_outcome (rw_statement t) m"; cases "the (row_outcome (rw_statement t) m)")
      (auto simp: collect_rows.simps [of t s] try_next_row_def flow_bind_def)
next
  case (Cons vs vss)
  then have "holds (rw_responses t) ([] @ DataRow (row_of vs) # data_rows vss @ sk @ m # ms)" by (simp add: data_rows_def)
  from row_next_holds [OF this] obtain t' where
    t': "row_next t = Some (Some (Inr (row_for (rw_statement t) vs)), t')" "holds (rw_responses t') (data_rows vss @ sk @ m # ms)"
      "rw_statement t' = rw_statement t"
    using Cons.prems(2) by (auto simp: row_new_for)
  from Cons.IH [OF t'(2), unfolded t'(3)] Cons.prems(2,3) have
    "collect_rows t' s = Some (case row_outcome (rw_statement t) m of Some (Inl e) \<Rightarrow> Inl e | _ \<Rightarrow> Inr (map (row_for (rw_statement t)) vss), s)"
    by simp
  then show ?case
    using t'(1) by (cases "row_outcome (rw_statement t) m"; cases "the (row_outcome (rw_statement t) m)")
      (auto simp: collect_rows.simps [of t s] try_next_row_def flow_bind_def)
qed

section \<open>The request of a statement\<close>

text \<open>A parameter whose conversion succeeds: with its type it appends the bytes of the value, or is NULL.\<close>

definition converts :: "sql_param \<times> pg_type \<Rightarrow> bytes option \<Rightarrow> bool" where
  "converts = (\<lambda>(p, ty) v. serializes (pa_to_sql p ty) v \<and> fits_i32 v)"

lemma bind_sent:
  assumes "encode_bind st params portal buf = Inr buf'" "0 \<notin> set portal" "0 \<notin> set (st_name st)"
    and "list_all2 converts (zip params (st_params st)) vs" "length params \<le> 65535"
  shows "length params = length (st_params st) \<and> (\<exists>b. buf' = buf @ [tag_of CHR ''B''] @ frame b \<and>
    server_bind b = Inr ((portal, st_name st, map (\<lambda>(p, ty). pa_format p ty) (zip params (st_params st)), vs, [1]), []))"
proof -
  let ?ps = "zip params (st_params st)" and ?enc = "\<lambda>(i, _ :: sql_param \<times> pg_type). vs ! i"
  have len: "length params = length (st_params st)" using assms(1) by (simp add: encode_bind_def split: if_splits)
  have n: "length ?ps = length vs" using assms(4) by (rule list_all2_lengthD)
  have ser: "serializes (serialize_param x) (?enc x) \<and> fits_i32 (?enc x)" if x: "x \<in> set (zip [0..<length ?ps] ?ps)" for x
  proof -
    obtain i where "i < length ?ps" "x = (i, ?ps ! i)"
      using x by (auto simp: in_set_conv_nth)
    then obtain p ty where i: "x = (i, p, ty)" "i < length ?ps" "?ps ! i = (p, ty)"
      by (cases "?ps ! i") simp
    then have "converts (p, ty) (vs ! i)" using assms(4) by (metis list_all2_nthD)
    then show ?thesis
      using i by (auto simp: converts_def serializes_def serialize_param_def split: option.split)
  qed
  have vals: "map ?enc (zip [0..<length ?ps] ?ps) = vs"
    using n by (intro nth_equalityI) auto
  from assms(1) len have "bind portal (st_name st) (map (\<lambda>(p, ty). pa_format p ty) ?ps) (zip [0..<length ?ps] ?ps)
      serialize_param [1] buf = Inr buf'"
    by (simp add: encode_bind_def encode_bind_raw_def)
  from bind_written [OF assms(2,3) ser this] assms(5) len vals show ?thesis by simp
qed

lemma query_request:
  assumes "statement_encode st params buf = Inr buf'" "0 \<notin> set (st_name st)"
    and "list_all2 converts (zip params (st_params st)) vs" "length params \<le> 65535"
  shows "\<exists>b. buf' = buf @ ([tag_of CHR ''B''] @ frame b) @ ([tag_of CHR ''E''] @ frame (0 # be_word (0 :: i32))) @
      ([tag_of CHR ''S''] @ frame []) \<and>
    server_bind b = Inr (([], st_name st, map (\<lambda>(p, ty). pa_format p ty) (zip params (st_params st)), vs, [1]), [])"
proof -
  from assms(1) obtain b1 b2 where w: "encode_bind st params [] buf = Inr b1" "execute [] 0 b1 = Inr b2" "sync b2 = Some buf'"
    by (auto simp: statement_encode_def then_write_def encoding_def total_writer_def ok_or_def split: option.splits)
  have "b2 = b1 @ [tag_of CHR ''E''] @ frame (0 # be_word (0 :: i32))"
    using w(2) frames_execute [of "[]" 0] by (simp add: frames_def cstr_bytes_def max_body_def)
  moreover have "buf' = b2 @ [tag_of CHR ''S''] @ frame []" using w(3) infallible_messages(5) by simp
  moreover from bind_sent [OF w(1) _ assms(2-4)] obtain b where "b1 = buf @ [tag_of CHR ''B''] @ frame b"
    "server_bind b = Inr (([], st_name st, map (\<lambda>(p, ty). pa_format p ty) (zip params (st_params st)), vs, [1]), [])"
    by auto
  ultimately show ?thesis by auto
qed

section \<open>Queries\<close>

text \<open>
  C4: a query with a prepared statement returns exactly the rows of the result, in their order, when the server answers the request with
  a result of any rows; it sends one request, in which the server reads the Bind of the statement with every parameter's bytes
  or NULL, an Execute without a limit and a Sync; and it leaves the buffer empty and the answers to other requests alone.
\<close>

theorem query_returns_rows:
  assumes request: "statement_encode st params [] = Inr buf" "0 \<notin> set (st_name st)"
      "list_all2 converts (zip params (st_params st)) vs" "length params \<le> 65535"
    and answer: "ic_answers s = Some ch # rest"
      "answers_with ch (BindComplete # data_rows vss @ [CommandComplete tag, ReadyForQuery z])"
      "list_all row_fits vss" "extract_row_affected tag = Inr n"
    and "ic_buffer s = []"
  shows "\<exists>b. buf = ([tag_of CHR ''B''] @ frame b) @ ([tag_of CHR ''E''] @ frame (0 # be_word (0 :: i32))) @
        ([tag_of CHR ''S''] @ frame []) \<and>
      server_bind b = Inr (([], st_name st, map (\<lambda>(p, ty). pa_format p ty) (zip params (st_params st)), vs, [1]), []) \<and>
      client_query known (Of_Statement st) params s =
        Some (Inr (map (row_for st) vss),
          s\<lparr>ic_buffer := [], ic_requests := ic_requests s @ [Single (Raw buf)], ic_answers := rest\<rparr>)"
proof -
  have sent: "start (statement_encode st params) s = Some (Inr r, after_request buf s) \<Longrightarrow>
      client_query known (Of_Statement st) params s =
        collect_rows \<lparr>rw_statement = st, rw_responses = r, rw_rows_affected = None\<rparr> (after_request buf s)" for r
    by (simp add: client_query_def client_query_raw_def into_statement_def query_statement_def flow_bind_def)
  from start_ok [of "statement_encode st params" s buf ch rest] request(1) answer(1,2) \<open>ic_buffer s = []\<close>
  obtain r where r: "start (statement_encode st params) s = Some (Inr r, after_request buf s)"
      "holds r (data_rows vss @ [CommandComplete tag] @ ReadyForQuery z # [])" by auto
  let ?t = "\<lparr>rw_statement = st, rw_responses = r, rw_rows_affected = None\<rparr>"
  have "collect_rows ?t (after_request buf s) = Some (Inr (map (row_for st) vss), after_request buf s)"
    by (subst collect_rows_holds [of ?t vss "[CommandComplete tag]" "ReadyForQuery z" "[]"]) (use r answer(3,4) in auto)
  with sent [OF r(1)] query_request [OF request] answer(1) show ?thesis by (auto simp: after_request_def)
qed

definition sample_param :: sql_param where
  "sample_param = \<lparr>pa_format = (\<lambda>_. 1), pa_to_sql = (\<lambda>_ buf. Inr (No, buf @ [7]))\<rparr>"

definition one_param :: statement where
  "one_param = \<lparr>st_name = ascii ''s0'', st_params = [Builtin 23], st_columns = [sample_column ''id'' (Builtin 23)]\<rparr>"

definition channel_of :: "message list \<Rightarrow> backend_messages channel" where
  "channel_of ms = Pending # map (\<lambda>m. Ready (Some (mk_messages Standard [m]))) ms"

lemma channel_of_answers: "list_all (sendable Standard) ms \<Longrightarrow> answers_with (channel_of ms) ms"
proof -
  assume ms: "list_all (sendable Standard) ms"
  have "chan_items (channel_of ms) = map (\<lambda>m. mk_messages Standard [m]) ms"
    unfolding channel_of_def by (induction ms) simp_all
  moreover have "list_all2 batch_holds (map (\<lambda>m. mk_messages Standard [m]) ms) (map (\<lambda>m. [m]) ms)"
    using ms by (induction ms) (auto simp: batch_holds_def)
  moreover have "batch_holds messages_empty []"
    by (auto simp: batch_holds_def mk_messages_def messages_empty_def messages_with_mode_def)
  moreover have "concat (map (\<lambda>m. [m]) ms) = ms" by (induction ms) simp_all
  ultimately show ?thesis
    unfolding answers_with_def holds_def responses_new_def by (intro exI [of _ "[]"] exI [of _ "map (\<lambda>m. [m]) ms"]) simp
qed

definition sample_result :: "message list" where
  "sample_result = BindComplete # data_rows [[Some [1]], [None]] @ [CommandComplete (ascii ''SELECT 2''), ReadyForQuery (of_char CHR ''I'')]"

lemma sample_answers: "answers_with (channel_of sample_result) sample_result"
  by (rule channel_of_answers)
    (simp add: sample_result_def data_rows_def sendable_def wf_message_def message_wire_def max_body_def row_of_def
      nullable_bytes_def cstr_bytes_def ascii_def)

lemma sample_encoded: "\<exists>buf. statement_encode one_param [sample_param] [] = Inr buf"
  by (simp add: statement_encode_def then_write_def encode_bind_def one_param_def sample_param_def encode_bind_raw_def
      bind_def write_body_def write_cstr_eq write_counted_def write_nullable_def serialize_param_def put_i16_def
      encoding_def total_writer_def infallible_messages execute_def put_i32_def Let_def cstr_bytes_def ascii_def)

lemma sample_affected: "extract_row_affected (ascii ''SELECT 2'') = Inr 2"
  using utf8_valid_ascii [of "ascii ''SELECT 2''"]
  by (simp add: extract_row_affected_def command_complete_tag_def from_utf8_def u64_from_str_def ascii_def
      Let_def digits_value_def ascii_digit_def)

theorem query_returns_rows_witness:
  "\<exists>s. client_query (\<lambda>_. False) (Of_Statement one_param) [sample_param] (client_new [Some (channel_of sample_result)]) =
     Some (Inr [row_for one_param [Some [1]], row_for one_param [None]], s)"
proof -
  obtain buf where "statement_encode one_param [sample_param] [] = Inr buf" using sample_encoded ..
  moreover have "0 \<notin> set (st_name one_param)" by (simp add: one_param_def ascii_def)
  moreover have "list_all2 converts (zip [sample_param] (st_params one_param)) [Some [7]]"
    by (simp add: one_param_def sample_param_def converts_def serializes_def fits_i32_def)
  moreover have "answers_with (channel_of sample_result)
      (BindComplete # data_rows [[Some [1]], [None]] @ [CommandComplete (ascii ''SELECT 2''), ReadyForQuery (of_char CHR ''I'')])"
    using sample_answers by (simp add: sample_result_def)
  moreover have "list_all row_fits [[Some [1]], [None]]" by (simp add: row_fits_def fits_i32_def)
  ultimately show ?thesis
    using query_returns_rows [of one_param "[sample_param]" buf "[Some [7]]" "client_new [Some (channel_of sample_result)]"
        "channel_of sample_result" "[]" "[[Some [1]], [None]]" "ascii ''SELECT 2''" "of_char CHR ''I''" 2 "\<lambda>_. False"] sample_affected
    by (auto simp: client_new_def)
qed

end
