(* ===== verification/Statement_Laws.thy ===== *)
theory Statement_Laws
  imports Query_Laws Sasl_Laws
begin

text \<open>
  Preparing and executing statements when the server answers as the protocol says, and what happens when it answers with an error.
\<close>

section \<open>Executing\<close>

text \<open>
  Executing a statement returns the number of rows the server reports in the command tag, whatever rows it sends before, after one
  request that is the Bind, Execute and Sync of the statement.
\<close>

lemma execute_counts:
  assumes "statement_encode st params (ic_buffer s) = Inr buf" "ic_answers s = Some ch # rest"
    and "answers_with ch (BindComplete # map DataRow rows @ [CommandComplete tag, ReadyForQuery z])"
    and "extract_row_affected tag = Inr n"
  shows "client_execute known (Of_Statement st) params s =
    Some (Inr n, s\<lparr>ic_buffer := [], ic_requests := ic_requests s @ [Single (Raw buf)], ic_answers := rest\<rparr>)"
proof -
  from start_ok [of "statement_encode st params" s buf ch rest] assms obtain r where
    r: "start (statement_encode st params) s = Some (Inr r, after_request buf s)"
      "holds r (map DataRow rows @ [CommandComplete tag, ReadyForQuery z])" by auto
  from execute_loop_rows [OF r(2) assms(4)] r(1) assms(2) show ?thesis
    by (simp add: client_execute_def into_statement_def execute_statement_def flow_bind_def after_request_def)
qed

theorem execute_counts_witness:
  "\<exists>s. client_execute (\<lambda>_. False) (Of_Statement one_param) [sample_param] (client_new [Some (channel_of sample_result)]) =
     Some (Inr 2, s)"
proof -
  obtain buf where "statement_encode one_param [sample_param] [] = Inr buf" using sample_encoded ..
  moreover have "answers_with (channel_of sample_result)
      (BindComplete # map DataRow (map row_of [[Some [1]], [None]]) @
        [CommandComplete (ascii ''SELECT 2''), ReadyForQuery (of_char CHR ''I'')])"
    using sample_answers by (simp add: sample_result_def data_rows_def)
  ultimately show ?thesis
    using execute_counts [of one_param "[sample_param]" "client_new [Some (channel_of sample_result)]" buf
        "channel_of sample_result" "[]" "map row_of [[Some [1]], [None]]" "ascii ''SELECT 2''" "of_char CHR ''I''" 2
        "\<lambda>_. False"] sample_affected
    by (auto simp: client_new_def)
qed

section \<open>Errors of the server\<close>

text \<open>
  C34: an error the server reports in place of the rest of a result is the error of the query, also when rows came before: a query never
  returns the rows of a result that was cut short.
\<close>

theorem query_reports_error:
  assumes "statement_encode st params (ic_buffer s) = Inr buf" "ic_answers s = Some ch # rest"
    and "answers_with ch (BindComplete # data_rows vss @ ErrorResponse body # ms)" "list_all row_fits vss"
  shows "client_query known (Of_Statement st) params s =
    Some (Inl (Fault (error_db body)),
      s\<lparr>ic_buffer := [], ic_requests := ic_requests s @ [Single (Raw buf)], ic_answers := rest\<rparr>)"
proof -
  from start_ok [of "statement_encode st params" s buf ch rest] assms obtain r where
    r: "start (statement_encode st params) s = Some (Inr r, after_request buf s)"
      "holds r (data_rows vss @ [] @ ErrorResponse body # ms)" by auto
  let ?t = "\<lparr>rw_statement = st, rw_responses = r, rw_rows_affected = None\<rparr>"
  have "collect_rows ?t (after_request buf s) = Some (Inl (Fault (error_db body)), after_request buf s)"
    by (subst collect_rows_holds [of ?t vss "[]" "ErrorResponse body" ms]) (use r assms(4) in auto)
  with r(1) assms(2) show ?thesis
    by (simp add: client_query_def client_query_raw_def into_statement_def query_statement_def flow_bind_def after_request_def)
qed

theorem query_reports_error_witness:
  "\<exists>s. client_query (\<lambda>_. False) (Of_Statement one_param) [sample_param]
     (client_new [Some (channel_of [BindComplete, DataRow (row_of [Some [1]]), ErrorResponse []])]) =
     Some (Inl (Fault (error_db [])), s)"
proof -
  obtain buf where "statement_encode one_param [sample_param] [] = Inr buf" using sample_encoded ..
  moreover have "answers_with (channel_of [BindComplete, DataRow (row_of [Some [1]]), ErrorResponse []])
      [BindComplete, DataRow (row_of [Some [1]]), ErrorResponse []]"
    by (rule channel_of_answers)
      (simp add: sendable_def wf_message_def message_wire_def max_body_def row_of_def nullable_bytes_def)
  moreover have "list_all row_fits [[Some [1]]]" by (simp add: row_fits_def fits_i32_def)
  ultimately show ?thesis
    using query_reports_error [of one_param "[sample_param]"
        "client_new [Some (channel_of [BindComplete, DataRow (row_of [Some [1]]), ErrorResponse []])]" buf _ "[]" "[[Some [1]]]"
        "[]" "[]" "\<lambda>_. False"]
    by (auto simp: client_new_def data_rows_def)
qed

text \<open>
  A query text with a NUL cannot be written; the typed query reports that as an error of parsing the server's response.
\<close>

lemma typed_query_nul: "0 \<in> set q \<Longrightarrow> typed_encode q params buf = Inl (Fault (E_Parse embedded_null_error))"
  by (simp add: typed_encode_def then_write_def parse_def write_body_def write_cstr_eq)

section \<open>Preparing\<close>

text \<open>The type of an identifier the client knows, from the generated table or from its cache.\<close>

definition is_known :: "(oid \<Rightarrow> bool) \<Rightarrow> inner_client \<Rightarrow> oid \<Rightarrow> bool" where
  "is_known known s oid \<longleftrightarrow> known oid \<or> ic_types s oid \<noteq> None"

definition known_type :: "(oid \<Rightarrow> bool) \<Rightarrow> inner_client \<Rightarrow> oid \<Rightarrow> pg_type" where
  "known_type known s oid = (if known oid then Builtin oid else the (ic_types s oid))"

lemma get_type_known: "is_known known s oid \<Longrightarrow> get_type (Suc n) known oid s = Some (Inr (known_type known s oid), s)"
  by (auto simp: is_known_def known_type_def get_type_step_def)

lemma param_types_known:
  "length oids \<le> 65535 \<Longrightarrow> list_all (is_known known s) oids \<Longrightarrow>
     param_types (get_type (Suc n) known) (mk_parameters oids) s = Some (Inr (map (known_type known s) oids), s)"
proof (induction oids)
  case Nil
  obtain it where "parameters_next (mk_parameters []) = Inr (None, it)" using param_source.nxt_Nil by auto
  then show ?case by (simp add: param_types.simps [of _ "mk_parameters []" s])
next
  case (Cons oid oids)
  from param_source.nxt_Cons [OF Cons.prems(1)] Cons show ?case
    by (simp add: param_types.simps [of _ "mk_parameters (oid # oids)" s] get_type_known flow_bind_def del: get_type.simps)
qed

lemma columns_of_known:
  "length fs \<le> 65535 \<Longrightarrow> list_all field_ok fs \<Longrightarrow> list_all (\<lambda>f. is_known known s (fd_type_oid f)) fs \<Longrightarrow>
     columns_of (get_type (Suc n) known) (mk_fields fs) s =
       Some (Inr (map (\<lambda>f. column_of f (known_type known s (fd_type_oid f))) fs), s)"
proof (induction fs)
  case Nil
  obtain it where "fields_next (mk_fields []) = Inr (None, it)" using field_source.nxt_Nil by auto
  then show ?case by (simp add: columns_of.simps [of _ "mk_fields []" s])
next
  case (Cons f fs)
  have ok: "length (f # fs) \<le> 65535 \<and> list_all field_ok (f # fs)" using Cons.prems by simp
  from field_source.nxt_Cons [OF ok] Cons show ?case
    by (simp add: columns_of.simps [of _ "mk_fields (f # fs)" s] get_type_known flow_bind_def del: get_type.simps)
qed

lemma show_nat_clean: "0 \<notin> set (ascii (show_nat n))"
  using show_nat_decimal [of n] by (auto simp: list_all_iff is_digit_def)

lemma statement_name_clean: "0 \<notin> set (ascii (''s'' @ show_nat n))"
  using show_nat_clean [of n] by (simp add: ascii_def)

text \<open>The answer that describes a statement: no columns are \<open>NoData\<close>.\<close>

definition described :: "oid list \<Rightarrow> field list \<Rightarrow> u8 \<Rightarrow> message list" where
  "described oids fs z =
     [ParseComplete,
      ParameterDescription \<lparr>pd_storage = pm_buf (mk_parameters oids), pd_len = pm_remaining (mk_parameters oids)\<rparr>,
      if fs = [] then NoData
      else RowDescription \<lparr>rd_storage = fs_buf (mk_fields fs), rd_len = fs_remaining (mk_fields fs)\<rparr>,
      ReadyForQuery z]"

text \<open>
  C11: preparing a statement whose types the client knows sends one Parse, Describe and Sync, in which the server reads the name, the
  text and the types of the parameters, and returns the statement the server described: its parameters and columns in their order, each
  with its type, and the name that was sent.
\<close>

theorem prepare_describes:
  assumes request: "prepare_encode name q types [] = Inr buf" "name = ascii (''s'' @ show_nat (unat (ic_next_statement s)))"
      "0 \<notin> set q" "length types \<le> 65535" "ic_buffer s = []"
    and answer: "ic_answers s = Some ch # rest" "answers_with ch (described oids fs z)"
      "length oids \<le> 65535" "length fs \<le> 65535" "list_all field_ok fs"
    and known: "list_all (is_known known s) oids" "list_all (\<lambda>f. is_known known s (fd_type_oid f)) fs"
  shows "\<exists>b. buf = ([tag_of CHR ''P''] @ frame b) @ ([tag_of CHR ''D''] @ frame (of_char CHR ''S'' # cstr_bytes name)) @
        ([tag_of CHR ''S''] @ frame []) \<and>
      server_parse b = Inr ((name, q, map type_oid types), []) \<and>
      client_prepare known q types s =
        Some (Inr \<lparr>st_name = name, st_params = map (known_type known s) oids,
               st_columns = map (\<lambda>f. column_of f (known_type known s (fd_type_oid f))) fs\<rparr>,
          s\<lparr>ic_buffer := [], ic_requests := ic_requests s @ [Single (Raw buf)], ic_answers := rest,
            ic_next_statement := ic_next_statement s + 1\<rparr>)"
proof -
  have name: "0 \<notin> set name" unfolding request(2) by (rule statement_name_clean)
  from request(1) obtain b1 b2 where w: "parse name q (map type_oid types) [] = Inr b1"
      "describe (of_char CHR ''S'') name b1 = Inr b2" "sync b2 = Some buf"
    by (auto simp: prepare_encode_def then_write_def encoding_def total_writer_def ok_or_def split: option.splits)
  obtain b where b: "b1 = [tag_of CHR ''P''] @ frame b" "server_parse b = Inr ((name, q, map type_oid types), [])"
    using parse_roundtrip [OF name request(3) _ w(1)] request(4) by auto
  have "b2 = b1 @ [tag_of CHR ''D''] @ frame (of_char CHR ''S'' # cstr_bytes name)"
    using w(2) frames_describe [OF name, of "of_char CHR ''S''"] by (simp add: frames_def split: if_splits)
  moreover have "buf = b2 @ [tag_of CHR ''S''] @ frame []" using w(3) infallible_messages(5) by simp
  ultimately have sent: "\<exists>b. buf = ([tag_of CHR ''P''] @ frame b) @
      ([tag_of CHR ''D''] @ frame (of_char CHR ''S'' # cstr_bytes name)) @ ([tag_of CHR ''S''] @ frame []) \<and>
      server_parse b = Inr ((name, q, map type_oid types), [])"
    using b by auto
  let ?s = "s\<lparr>ic_next_statement := ic_next_statement s + 1\<rparr>"
  let ?s' = "after_request buf ?s" and ?get = "get_type (Suc (length (ic_answers s))) known"
  have send: "send_request (prepare_encode name q types) ?s = Some (Inr (responses_new ch), ?s')"
    using request(1,5) answer(1) by (intro send_request_ok) simp_all
  let ?pd = "\<lparr>pd_storage = pm_buf (mk_parameters oids), pd_len = pm_remaining (mk_parameters oids)\<rparr>"
  let ?rd = "if fs = [] then NoData
      else RowDescription \<lparr>rd_storage = fs_buf (mk_fields fs), rd_len = fs_remaining (mk_fields fs)\<rparr>"
  from answer(2) have "holds (responses_new ch) (ParseComplete # ParameterDescription ?pd # ?rd # [ReadyForQuery z])"
    by (simp add: answers_with_def described_def)
  from awaits_holds [OF this, of is_parse_complete ?s'] obtain r1 where
    r1: "awaits is_parse_complete (responses_new ch) ?s' = Some (Inr r1, ?s')"
      "holds r1 (ParameterDescription ?pd # ?rd # [ReadyForQuery z])" by (auto simp: is_parse_complete_def)
  from await_next_holds [OF r1(2), of ?s'] obtain r2 where
    r2: "await_next r1 ?s' = Some (Inr (ParameterDescription ?pd, r2), ?s')" "holds r2 (?rd # [ReadyForQuery z])" by auto
  have "?rd \<noteq> ErrorResponse body" for body by simp
  from await_next_holds [OF r2(2) this, of ?s'] obtain r3 where
    r3: "await_next r2 ?s' = Some (Inr (?rd, r3), ?s')" by blast
  have cache: "is_known known ?s' = is_known known s" "known_type known ?s' = known_type known s"
    by (simp_all add: fun_eq_iff is_known_def known_type_def after_request_def)
  have params: "param_types ?get (parameter_description_parameters ?pd) ?s' =
      Some (Inr (map (known_type known s) oids), ?s')"
  proof -
    have "parameter_description_parameters ?pd = mk_parameters oids"
      by (simp add: parameter_description_parameters_def mk_parameters_def)
    with param_types_known [of oids known ?s'] answer(3) known(1) show ?thesis
      by (simp add: cache del: get_type.simps)
  qed
  have cols: "columns_of ?get (mk_fields fs) ?s' =
      Some (Inr (map (\<lambda>f. column_of f (known_type known s (fd_type_oid f))) fs), ?s')"
    using columns_of_known [of fs known ?s'] answer(4,5) known(2) by (simp add: cache del: get_type.simps)
  have eta: "\<lparr>fs_buf = fs_buf (mk_fields fs), fs_remaining = fs_remaining (mk_fields fs)\<rparr> = mk_fields fs"
    by (simp add: mk_fields_def)
  have named: "ascii (CHR ''s'' # show_nat (unat (ic_next_statement s))) = name" using request(2) by simp
  have "next_statement_id s = Some (Inr (ic_next_statement s), ?s)" by (simp add: next_statement_id_def)
  note counter = this
  have "client_prepare known q types s =
      Some (Inr \<lparr>st_name = name, st_params = map (known_type known s) oids,
               st_columns = map (\<lambda>f. column_of f (known_type known s (fd_type_oid f))) fs\<rparr>, ?s')"
  proof (cases "fs = []")
    case True
    with send r1(1) r2(1) r3 params show ?thesis
      by (simp add: client_prepare_def prepare_def prepare_with_def counter Let_def
          named parameter_description_of_def row_description_of_def del: get_type.simps)
  next
    case False
    with send r1(1) r2(1) r3 params cols show ?thesis
      by (simp add: client_prepare_def prepare_def prepare_with_def counter Let_def
          named parameter_description_of_def row_description_of_def row_description_fields_def eta
          del: get_type.simps)
  qed
  with sent answer(1) show ?thesis by (auto simp: after_request_def)
qed

definition sample_field :: field where
  "sample_field = \<lparr>fd_name = ascii ''id'', fd_table_oid = 0, fd_column_id = 0, fd_type_oid = 23, fd_type_size = 4,
    fd_type_modifier = -1, fd_format = 0\<rparr>"

theorem prepare_describes_witness:
  "\<exists>s. client_prepare (\<lambda>oid. oid = 23) (ascii ''SELECT $1'') [] (client_new [Some (channel_of (described [23] [sample_field] (of_char CHR ''I'')))]) =
     Some (Inr \<lparr>st_name = ascii ''s0'', st_params = [Builtin 23],
       st_columns = [column_of sample_field (Builtin 23)]\<rparr>, s)"
proof -
  let ?d = "described [23] [sample_field] (of_char CHR ''I'')"
  let ?s = "client_new [Some (channel_of ?d)]"
  have "\<exists>buf. prepare_encode (ascii ''s0'') (ascii ''SELECT $1'') [] [] = Inr buf"
    by (simp add: prepare_encode_def then_write_def parse_def write_body_def write_cstr_eq write_counted_def
        encoding_def total_writer_def infallible_messages describe_def Let_def cstr_bytes_def ascii_def)
  then obtain buf where "prepare_encode (ascii ''s0'') (ascii ''SELECT $1'') [] [] = Inr buf" ..
  moreover have "ascii ''s0'' = ascii (''s'' @ show_nat (unat (ic_next_statement ?s)))"
    by (simp add: client_new_def show_nat.simps) (simp add: char_of_def bit_simps)
  moreover have "0 \<notin> set (ascii ''SELECT $1'')" by (simp add: ascii_def)
  moreover have "answers_with (channel_of ?d) ?d"
    by (rule channel_of_answers)
      (simp add: described_def sendable_def wf_message_def message_wire_def max_body_def mk_fields_def mk_parameters_def
        field_bytes_def sample_field_def cstr_bytes_def ascii_def)
  moreover have "field_ok sample_field"
    using utf8_valid_ascii [of "ascii ''id''"] by (simp add: field_ok_def sample_field_def ascii_def)
  moreover have "is_known (\<lambda>oid. oid = 23) ?s 23" "fd_type_oid sample_field = 23"
    by (simp_all add: is_known_def sample_field_def)
  ultimately show ?thesis
    using prepare_describes [of "ascii ''s0''" "ascii ''SELECT $1''" "[]" buf ?s "channel_of ?d" "[]" "[23]" "[sample_field]"
        "of_char CHR ''I''" "\<lambda>oid. oid = 23"]
    by (auto simp: client_new_def known_type_def)
qed

end
