(* ===== verification/Request_Laws.thy ===== *)
theory Request_Laws
  imports Prepare_Laws
begin

text \<open>
  Every request a client hands to the connection is a sequence of whole messages, whatever its operations and whatever of them fail: a
  message that could not be written, or that follows one that could not, never reaches the connection.
\<close>

section \<open>Splitting a request into messages\<close>

text \<open>The server's reader of a stream of messages: the tag, the length that counts itself, the body.\<close>

function server_messages :: "bytes \<Rightarrow> (u8 \<times> bytes) list option" where
  "server_messages b =
     (case b of
        [] \<Rightarrow> Some []
      | t # r \<Rightarrow>
          (case read_i32 r of
             Inl _ \<Rightarrow> None
           | Inr (len, r) \<Rightarrow>
               if sint len < 4 \<or> length r < unat len - 4 then None
               else map_option ((#) (t, take (unat len - 4) r)) (server_messages (drop (unat len - 4) r))))"
  by pat_completeness auto
termination
  by (relation "measure length") (auto simp: be32.rd_iff)

declare server_messages.simps [simp del]

definition whole_messages :: "bytes \<Rightarrow> bool" where
  "whole_messages b \<longleftrightarrow> (\<exists>ms. server_messages b = Some ms)"

lemma server_messages_Nil [simp]: "server_messages [] = Some []"
  by (simp add: server_messages.simps [of "[]"])

lemma server_messages_frame:
  "length body \<le> max_body \<Longrightarrow>
     server_messages (t # frame body @ r) = map_option ((#) (t, body)) (server_messages r)"
proof -
  assume body: "length body \<le> max_body"
  let ?len = "of_nat (length body + 4) :: i32"
  have "sint ?len = int (length body + 4)" "unat ?len = length body + 4"
    using body by (simp_all only: sint_of_nat_i32 unat_of_nat_i32 max_body_def)
  then show ?thesis
    by (simp add: server_messages.simps [of "t # _"] frame_def del: of_nat_add)
qed

section \<open>Writers that append\<close>

text \<open>A writer that, when it succeeds, has appended something, or whole messages.\<close>

definition extends :: "'e writer \<Rightarrow> bool" where
  "extends f \<longleftrightarrow> (\<forall>buf buf'. f buf = Inr buf' \<longrightarrow> (\<exists>x. buf' = buf @ x))"

definition writes :: "(bytes \<Rightarrow> 'e + bytes) \<Rightarrow> bool" where
  "writes w \<longleftrightarrow> (\<forall>buf buf'. w buf = Inr buf' \<longrightarrow> (\<exists>x. buf' = buf @ x \<and> (\<forall>r. whole_messages r \<longrightarrow> whole_messages (x @ r))))"

named_theorems extends_intro "writers that append"

lemma extends_bind [extends_intro]: "extends f \<Longrightarrow> extends g \<Longrightarrow> extends (\<lambda>buf. bind_res (f buf) g)"
  unfolding extends_def by fastforce

lemma extends_map_err [extends_intro]: "extends f \<Longrightarrow> extends (\<lambda>buf. map_err h (f buf))"
  unfolding extends_def by fastforce

lemma extends_simple [extends_intro]:
  "extends (write_cstr s)" "extends (put_i16 v)" "extends (put_i32 w)"
  by (auto simp: extends_def write_cstr_eq put_i16_def put_i32_def split: if_splits)

lemma extends_prefix: "extends f \<Longrightarrow> extends (\<lambda>buf. f (buf @ p))"
  unfolding extends_def by fastforce

lemma extends_each: "(\<And>x. x \<in> set xs \<Longrightarrow> extends (f x)) \<Longrightarrow> extends (write_each f xs)"
proof (induction xs)
  case Nil
  then show ?case by (simp add: extends_def)
next
  case (Cons x xs)
  then have "extends (f x)" "extends (write_each f xs)" by auto
  then show ?case unfolding extends_def by fastforce
qed

lemma extends_counted: "(\<And>x. x \<in> set xs \<Longrightarrow> extends (f x)) \<Longrightarrow> extends (write_counted from_io xs f)"
  unfolding extends_def
proof (intro allI impI)
  fix buf buf'
  assume f: "\<And>x. x \<in> set xs \<Longrightarrow> \<forall>buf buf'. f x buf = Inr buf' \<longrightarrow> (\<exists>x. buf' = buf @ x)"
    and w: "write_counted from_io xs f buf = Inr buf'"
  have "extends (write_each f xs)" using f by (intro extends_each) (simp add: extends_def)
  with w obtain y count where "buf' = patch (length buf) (be_word (count :: u16)) ((buf @ replicate 2 0) @ y)"
    by (fastforce simp: write_counted_def extends_def Let_def)
  then show "\<exists>x. buf' = buf @ x" by simp
qed

lemma extends_nullable:
  assumes "\<And>buf n buf'. f buf = Inr (n, buf') \<Longrightarrow> \<exists>x. buf' = buf @ x"
  shows "extends (write_nullable from_io f)"
  unfolding extends_def
proof (intro allI impI)
  fix buf buf'
  assume "write_nullable from_io f buf = Inr buf'"
  then obtain n b and size :: i32 where "f (buf @ be_word (0 :: i32)) = Inr (n, b)" "buf' = patch (length buf) (be_word size) b"
    by (auto simp: write_nullable_def Let_def)
  with assms [of "buf @ be_word (0 :: i32)" n b] show "\<exists>x. buf' = buf @ x" by auto
qed

lemma writes_body:
  assumes "extends f"
  shows "writes (\<lambda>buf. write_body from_io f (buf @ [t]))"
  unfolding writes_def
proof (intro allI impI)
  fix buf buf'
  assume "write_body from_io f (buf @ [t]) = Inr buf'"
  then obtain b and size :: i32 where b: "f ((buf @ [t]) @ replicate 4 0) = Inr b" "i32_from_usize (length b - Suc (length buf)) = Inr size"
      "buf' = patch (length (buf @ [t])) (be_word size) b"
    by (auto simp: write_body_def Let_def)
  with assms obtain body where body: "b = ((buf @ [t]) @ replicate 4 0) @ body" unfolding extends_def by blast
  with b(2) have "length body \<le> max_body" "size = of_nat (length body + 4)"
    by (auto simp: i32_from_usize_Inr max_body_def)
  moreover have "buf' = buf @ t # frame body"
    using b(3) body \<open>size = _\<close> by (simp add: frame_def patch_def)
  ultimately show "\<exists>x. buf' = buf @ x \<and> (\<forall>r. whole_messages r \<longrightarrow> whole_messages (x @ r))"
    by (auto simp: whole_messages_def server_messages_frame)
qed

section \<open>The writers of the client\<close>

named_theorems writes_intro "writers of whole messages"

definition param_appends :: "sql_param \<Rightarrow> bool" where
  "param_appends p \<longleftrightarrow> (\<forall>ty buf n buf'. pa_to_sql p ty buf = Inr (n, buf') \<longrightarrow> (\<exists>x. buf' = buf @ x))"

lemma writes_messages [writes_intro]:
  "writes (parse name q oids)" "writes (describe variant name)" "writes (execute name rows)" "writes (close variant name)"
  "writes (query q)"
  unfolding parse_def describe_def execute_def close_def query_def
  by (rule writes_body, intro extends_intro extends_prefix extends_counted extends_simple)+

lemma writes_encoding [writes_intro]: "writes w \<Longrightarrow> writes (encoding w)"
  by (simp add: writes_def encoding_def)

lemma writes_map_err [writes_intro]: "writes w \<Longrightarrow> writes (\<lambda>buf. map_err h (w buf))"
  by (simp add: writes_def)

lemma writes_sync [writes_intro]: "writes (total_writer sync)"
  using server_messages_frame [of "[]"]
  by (auto simp: writes_def total_writer_def infallible_messages(5) whole_messages_def max_body_def)

lemma writes_then [writes_intro]: "writes f \<Longrightarrow> writes g \<Longrightarrow> writes (then_write f g)"
  unfolding writes_def then_write_def
proof (intro allI impI)
  fix buf buf'
  assume f: "\<forall>buf buf'. f buf = Inr buf' \<longrightarrow> (\<exists>x. buf' = buf @ x \<and> (\<forall>r. whole_messages r \<longrightarrow> whole_messages (x @ r)))"
    and g: "\<forall>buf buf'. g buf = Inr buf' \<longrightarrow> (\<exists>x. buf' = buf @ x \<and> (\<forall>r. whole_messages r \<longrightarrow> whole_messages (x @ r)))"
    and w: "bind_res (f buf) g = Inr buf'"
  from w obtain b where b: "f buf = Inr b" "g b = Inr buf'" by auto
  from f b(1) obtain x where x: "b = buf @ x" "\<forall>r. whole_messages r \<longrightarrow> whole_messages (x @ r)" by blast
  from g b(2) obtain y where y: "buf' = b @ y" "\<forall>r. whole_messages r \<longrightarrow> whole_messages (y @ r)" by blast
  from x y show "\<exists>x. buf' = buf @ x \<and> (\<forall>r. whole_messages r \<longrightarrow> whole_messages (x @ r))"
    by (intro exI [of _ "x @ y"]) simp
qed

lemma writes_bind:
  assumes "\<And>v buf n buf'. v \<in> set vs \<Longrightarrow> ser v buf = Inr (n, buf') \<Longrightarrow> \<exists>x. buf' = buf @ x"
  shows "writes (bind portal statement formats vs ser rformats)"
  unfolding bind_def
proof (rule writes_body)
  have vals: "extends (write_counted Box_Io vs (\<lambda>v. write_nullable Box_Io (ser v)))"
    by (intro extends_counted extends_nullable) (use assms in blast)
  show "extends (\<lambda>buf.
       bind_res (map_err Serialization (write_cstr portal buf)) (\<lambda>buf.
       bind_res (map_err Serialization (write_cstr statement buf)) (\<lambda>buf.
       bind_res (map_err Serialization (write_counted id formats put_i16 buf)) (\<lambda>buf.
       bind_res (map_err Conversion (write_counted Box_Io vs (\<lambda>v. write_nullable Box_Io (ser v)) buf)) (\<lambda>buf.
       map_err Serialization (write_counted id rformats put_i16 buf))))))"
    by (intro extends_intro extends_counted vals)
qed

lemma writes_bind_raw [writes_intro]:
  "list_all (\<lambda>(p, _). param_appends p) params \<Longrightarrow> writes (encode_bind_raw name params portal)"
proof -
  assume ps: "list_all (\<lambda>(p, _). param_appends p) params"
  have "writes (bind portal name (map (\<lambda>(p, ty). pa_format p ty) params) (zip [0..<length params] params) serialize_param [1])"
  proof (rule writes_bind)
    fix v buf n buf'
    assume v: "v \<in> set (zip [0..<length params] params)" "serialize_param v buf = Inr (n, buf')"
    obtain i p ty where "v = (i, p, ty)" by (cases v)
    with v ps have "param_appends p" "pa_to_sql p ty buf = Inr (n, buf')"
      by (auto simp: serialize_param_def list_all_iff dest!: set_zip_rightD)
    then show "\<exists>x. buf' = buf @ x" unfolding param_appends_def by blast
  qed
  then have "writes (\<lambda>buf. map_err (Fault \<circ> bind_failure)
      (bind portal name (map (\<lambda>(p, ty). pa_format p ty) params) (zip [0..<length params] params) serialize_param [1] buf))"
    by (rule writes_map_err)
  then show ?thesis by (simp add: writes_def encode_bind_raw_def)
qed

lemma writes_encode_bind [writes_intro]: "list_all param_appends params \<Longrightarrow> writes (encode_bind st params portal)"
proof -
  assume "list_all param_appends params"
  then have "list_all (\<lambda>(p, _). param_appends p) (zip params (st_params st))"
    by (auto simp: list_all_iff dest: set_zip_leftD)
  from writes_bind_raw [OF this, of "st_name st" portal] show ?thesis
    by (auto simp: writes_def encode_bind_def)
qed

lemma writes_requests [writes_intro]:
  "list_all param_appends params \<Longrightarrow> writes (statement_encode st params)"
  "list_all (\<lambda>(p, _). param_appends p) typed \<Longrightarrow> writes (typed_encode q typed)"
  "writes (simple_encode q)" "writes (prepare_encode name q types)" "writes (close_request variant name)"
  unfolding statement_encode_def typed_encode_def simple_encode_def prepare_encode_def close_request_def
  by (intro writes_intro; assumption)+

section \<open>The client between its operations\<close>

text \<open>
  The buffer is empty and every accepted request is a sequence of whole messages; and operations that keep it so. A panic may leave
  the buffer as it was then, but not a request.
\<close>

definition sent_whole :: "inner_client \<Rightarrow> bool" where
  "sent_whole s \<longleftrightarrow> (\<forall>req \<in> set (ic_requests s). \<exists>b. req = Single (Raw b) \<and> whole_messages b)"

definition clean :: "inner_client \<Rightarrow> bool" where
  "clean s \<longleftrightarrow> ic_buffer s = [] \<and> sent_whole s"

definition keeps :: "('a \<Rightarrow> bool) \<Rightarrow> 'a flow \<Rightarrow> bool" where
  "keeps Q m \<longleftrightarrow> (\<forall>s r s'. clean s \<longrightarrow> m s = Some (r, s') \<longrightarrow>
     sent_whole s' \<and> (r = Inl Panic \<or> clean s') \<and> (\<forall>x. r = Inr x \<longrightarrow> Q x))"

abbreviation clean_op :: "'a flow \<Rightarrow> bool" where
  "clean_op m \<equiv> keeps (\<lambda>_. True) m"

named_theorems keeps_intro "operations that keep the client clean"

lemma keeps_bind:
  assumes "keeps Q m" "\<And>x. Q x \<Longrightarrow> keeps P (f x)"
  shows "keeps P (flow_bind m f)"
  unfolding keeps_def
proof (intro allI impI)
  fix s r s'
  assume s: "clean s" "flow_bind m f s = Some (r, s')"
  show "sent_whole s' \<and> (r = Inl Panic \<or> clean s') \<and> (\<forall>x. r = Inr x \<longrightarrow> P x)"
  proof (cases "m s")
    case None
    with s show ?thesis by simp
  next
    case (Some y)
    obtain q t where y: "y = (q, t)" by (cases y)
    with assms(1) s(1) Some have t: "sent_whole t" "q = Inl Panic \<or> clean t" "\<And>x. q = Inr x \<Longrightarrow> Q x"
      unfolding keeps_def by blast+
    show ?thesis
    proof (cases q)
      case (Inl e)
      with s Some y t show ?thesis by auto
    next
      case (Inr x)
      with s(2) Some y have "f x t = Some (r, s')" by simp
      with assms(2) t Inr show ?thesis unfolding keeps_def by blast
    qed
  qed
qed

lemma clean_bind [keeps_intro]: "clean_op m \<Longrightarrow> (\<And>x. keeps P (f x)) \<Longrightarrow> keeps P (flow_bind m f)"
  by (rule keeps_bind)

lemma keeps_simple [keeps_intro]:
  "clean_op (flow_ret x)" "clean_op (flow_fail e)" "clean_op (flow_lift r)" "clean_op unexpected_message"
  "clean_op next_statement_id" "clean_op next_portal_id" "clean_op (set_typeinfo st)" "clean_op (set_typeinfo_enum st)"
  "clean_op (set_typeinfo_composite st)" "clean_op (set_type oid ty)" "clean_op clear_type_cache" "clean_op (get_value f i row)"
  by (auto simp: keeps_def unexpected_message_def next_statement_id_def next_portal_id_def set_typeinfo_def
      set_typeinfo_enum_def set_typeinfo_composite_def set_type_def clear_type_cache_def get_value_def clean_def sent_whole_def)

lemma keeps_send: "whole_messages b \<Longrightarrow> clean_op (client_send (Single (Raw b)))"
  by (auto simp: keeps_def client_send_def clean_def sent_whole_def split: list.splits option.splits)

lemma keeps_request [keeps_intro]: "writes w \<Longrightarrow> clean_op (send_request w)"
proof -
  assume w: "writes w"
  have "keeps whole_messages (with_buf w)"
    unfolding keeps_def
  proof (intro allI impI)
    fix s r s'
    assume s: "clean s" "with_buf w s = Some (r, s')"
    from s(2) show "sent_whole s' \<and> (r = Inl Panic \<or> clean s') \<and> (\<forall>x. r = Inr x \<longrightarrow> whole_messages x)"
    proof (cases rule: with_buf_cases)
      case (taken x)
      with s(1) have "w [] = Inr x" by (simp add: clean_def)
      with w obtain y where "x = [] @ y" "\<And>r. whole_messages r \<Longrightarrow> whole_messages (y @ r)" unfolding writes_def by metis
      from this(2) [of "[]"] \<open>x = [] @ y\<close> have "whole_messages x" by (simp add: whole_messages_def)
      with s(1) taken show ?thesis by (simp add: clean_def sent_whole_def)
    next
      case (failed e)
      with s(1) show ?thesis by (auto simp: clean_def sent_whole_def)
    qed
  qed
  then show ?thesis unfolding send_request_def by (rule keeps_bind) (rule keeps_send)
qed

lemma keeps_await: "keeps (\<lambda>(m, r'). resp_size r' < resp_size r) (await_next r)"
  by (auto simp: keeps_def await_next_def clean_def dest: responses_next_size split: option.splits sum.splits)

lemma keeps_await_any [keeps_intro]: "clean_op (await_next r)"
  using keeps_await [of r] by (auto simp: keeps_def)

lemma keeps_awaits [keeps_intro]: "clean_op (awaits ok r)"
  unfolding awaits_def by (rule clean_bind [OF keeps_await_any]) (auto intro: keeps_intro)

lemma keeps_start [keeps_intro]: "writes w \<Longrightarrow> clean_op (start w)"
  unfolding start_def by (intro keeps_intro)

text \<open>A loop that awaits messages, and one that awaits rows.\<close>

lemma keeps_loop:
  fixes loop :: "'k \<Rightarrow> responses \<Rightarrow> 'a flow"
  assumes "\<And>k r. loop k r = flow_bind (await_next r) (\<lambda>(m, r'). body k m r')"
    and "\<And>k m r'. (\<And>j. keeps Q (loop j r')) \<Longrightarrow> keeps Q (body k m r')"
  shows "keeps Q (loop k r)"
proof (induction "resp_size r" arbitrary: k r rule: less_induct)
  case less
  show ?case
    unfolding assms(1) [of k r] by (rule keeps_bind [OF keeps_await]) (auto intro!: assms(2) less)
qed

lemma keeps_row_loop:
  fixes loop :: "'k \<Rightarrow> row_stream \<Rightarrow> 'a flow"
  assumes "\<And>k t. loop k t = flow_bind (try_next_row t) (\<lambda>(x, t'). body k x t')"
    and "\<And>k t. keeps Q (body k None t)" "\<And>k row t. (\<And>j. keeps Q (loop j t)) \<Longrightarrow> keeps Q (body k (Some row) t)"
  shows "keeps Q (loop k t)"
proof (induction "resp_size (rw_responses t)" arbitrary: k t rule: less_induct)
  case less
  have row: "keeps (\<lambda>(x, t'). x \<noteq> None \<longrightarrow> resp_size (rw_responses t') < resp_size (rw_responses t)) (try_next_row t)"
    by (auto simp: keeps_def clean_def try_next_row_def dest: row_next_size split: option.splits sum.splits prod.splits)
  show ?case
    unfolding assms(1) [of k t]
  proof (rule keeps_bind [OF row])
    fix y :: "row option \<times> row_stream" assume y: "case y of (x, t') \<Rightarrow> x \<noteq> None \<longrightarrow> resp_size (rw_responses t') < resp_size (rw_responses t)"
    obtain x u where u: "y = (x, u)" by (cases y)
    show "keeps Q (case y of (x, t') \<Rightarrow> body k x t')"
    proof (cases x)
      case None
      with u assms(2) show ?thesis by simp
    next
      case (Some r)
      with y u less have "keeps Q (loop j u)" for j by simp
      with u Some assms(3) show ?thesis by simp
    qed
  qed
qed

subsection \<open>The loops\<close>

lemma loop_eqs:
  "batch_loop r = flow_bind (await_next r) (\<lambda>(m, r). case m of
       ReadyForQuery _ \<Rightarrow> flow_ret ()
     | CommandComplete _ \<Rightarrow> batch_loop r
     | EmptyQueryResponse \<Rightarrow> batch_loop r
     | RowDescription _ \<Rightarrow> batch_loop r
     | DataRow _ \<Rightarrow> batch_loop r
     | _ \<Rightarrow> unexpected_message)"
  "execute_loop rows r = flow_bind (await_next r) (\<lambda>(m, r). case m of
       DataRow _ \<Rightarrow> execute_loop rows r
     | CommandComplete body \<Rightarrow>
         (case extract_row_affected body of Inl e \<Rightarrow> flow_fail e | Inr rows \<Rightarrow> execute_loop rows r)
     | EmptyQueryResponse \<Rightarrow> execute_loop 0 r
     | ReadyForQuery _ \<Rightarrow> flow_ret rows
     | _ \<Rightarrow> unexpected_message)"
  "execute_typed_loop rows r = flow_bind (await_next r) (\<lambda>(m, r). case m of
       ParseComplete \<Rightarrow> execute_typed_loop rows r
     | BindComplete \<Rightarrow> execute_typed_loop rows r
     | ParameterDescription _ \<Rightarrow> execute_typed_loop rows r
     | RowDescription _ \<Rightarrow> execute_typed_loop rows r
     | NoData \<Rightarrow> execute_typed_loop 0 r
     | DataRow _ \<Rightarrow> execute_typed_loop rows r
     | CommandComplete body \<Rightarrow>
         (case extract_row_affected body of Inl e \<Rightarrow> flow_fail e | Inr rows \<Rightarrow> execute_typed_loop rows r)
     | EmptyQueryResponse \<Rightarrow> execute_typed_loop 0 r
     | ReadyForQuery _ \<Rightarrow> flow_ret rows
     | _ \<Rightarrow> unexpected_message)"
  "typed_loop rec r = flow_bind (await_next r) (\<lambda>(m, r). case m of
       ParseComplete \<Rightarrow> typed_loop rec r
     | BindComplete \<Rightarrow> typed_loop rec r
     | ParameterDescription _ \<Rightarrow> typed_loop rec r
     | NoData \<Rightarrow>
         flow_ret \<lparr>rw_statement = \<lparr>st_name = [], st_params = [], st_columns = []\<rparr>, rw_responses = r, rw_rows_affected = None\<rparr>
     | RowDescription body \<Rightarrow>
         flow_bind (columns_of rec (row_description_fields body)) (\<lambda>cols.
         flow_ret \<lparr>rw_statement = \<lparr>st_name = [], st_params = [], st_columns = cols\<rparr>, rw_responses = r, rw_rows_affected = None\<rparr>)
     | _ \<Rightarrow> unexpected_message)"
  by (rule ext, subst batch_loop.simps execute_loop.simps execute_typed_loop.simps typed_loop.simps,
      rule flow_bind_cong [OF refl], auto split: message.split sum.split)+

lemma keeps_batch [keeps_intro]: "clean_op (batch_loop r)"
  by (rule keeps_loop [where loop = "\<lambda>_ :: unit. batch_loop", OF loop_eqs(1)])
    (auto intro!: keeps_intro split: message.split)

lemma keeps_execute [keeps_intro]: "clean_op (execute_loop rows r)"
  by (rule keeps_loop [where loop = execute_loop, OF loop_eqs(2)])
    (auto intro!: keeps_intro split: message.split sum.split)

lemma keeps_execute_typed [keeps_intro]: "clean_op (execute_typed_loop rows r)"
  by (rule keeps_loop [where loop = execute_typed_loop, OF loop_eqs(3)])
    (auto intro!: keeps_intro split: message.split sum.split)

lemma keeps_collect [keeps_intro]: "clean_op (collect_rows t)"
  by (rule keeps_row_loop [where loop = "\<lambda>_ :: unit. collect_rows", OF row_loop_eqs(1)]) (auto intro!: keeps_intro)

lemma keeps_variants [keeps_intro]: "clean_op (variants_loop t)"
  by (rule keeps_row_loop [where loop = "\<lambda>_ :: unit. variants_loop", OF row_loop_eqs(2)]) (auto intro!: keeps_intro)

lemma keeps_param_types: "(\<And>oid. clean_op (rec oid)) \<Longrightarrow> clean_op (param_types rec it)"
proof (induction "length (pm_buf it)" arbitrary: it rule: less_induct)
  case less
  consider e where "parameters_next it = Inl e" | it' where "parameters_next it = Inr (None, it')"
    | oid it' where "parameters_next it = Inr (Some oid, it')"
    by (metis (no_types) not_None_eq old.prod.exhaust old.sum.exhaust)
  then show ?case
  proof cases
    case 1
    then have "param_types rec it = flow_fail (E_Parse e)" by (simp add: fun_eq_iff param_types.simps [of rec it])
    then show ?thesis by (simp add: keeps_intro)
  next
    case 2
    then have "param_types rec it = flow_ret []" by (simp add: fun_eq_iff param_types.simps [of rec it])
    then show ?thesis by (simp add: keeps_intro)
  next
    case 3
    then have "length (pm_buf it') < length (pm_buf it)" by (auto dest: param_iter.shrinks)
    from less.hyps [OF this less.prems] have "clean_op (param_types rec it')" .
    moreover from 3 have "param_types rec it =
        flow_bind (rec oid) (\<lambda>ty. flow_bind (param_types rec it') (\<lambda>tys. flow_ret (ty # tys)))"
      by (simp add: fun_eq_iff param_types.simps [of rec it])
    ultimately show ?thesis by (auto intro!: keeps_intro less.prems)
  qed
qed

lemma keeps_columns_of: "(\<And>oid. clean_op (rec oid)) \<Longrightarrow> clean_op (columns_of rec it)"
proof (induction "length (fs_buf it)" arbitrary: it rule: less_induct)
  case less
  consider e where "fields_next it = Inl e" | it' where "fields_next it = Inr (None, it')"
    | fd it' where "fields_next it = Inr (Some fd, it')"
    by (metis (no_types) not_None_eq old.prod.exhaust old.sum.exhaust)
  then show ?case
  proof cases
    case 1
    then have "columns_of rec it = flow_fail (E_Parse e)" by (simp add: fun_eq_iff columns_of.simps [of rec it])
    then show ?thesis by (simp add: keeps_intro)
  next
    case 2
    then have "columns_of rec it = flow_ret []" by (simp add: fun_eq_iff columns_of.simps [of rec it])
    then show ?thesis by (simp add: keeps_intro)
  next
    case 3
    then have "length (fs_buf it') < length (fs_buf it)" by (auto dest: field_iter.shrinks)
    from less.hyps [OF this less.prems] have "clean_op (columns_of rec it')" .
    moreover from 3 have "columns_of rec it =
        flow_bind (rec (fd_type_oid fd)) (\<lambda>ty. flow_bind (columns_of rec it') (\<lambda>cols. flow_ret (column_of fd ty # cols)))"
      by (simp add: fun_eq_iff columns_of.simps [of rec it])
    ultimately show ?thesis by (auto intro!: keeps_intro less.prems)
  qed
qed

subsection \<open>The operations\<close>

lemma oid_param_appends [simp]: "param_appends (oid_param oid)"
  by (auto simp: param_appends_def oid_param_def oid_to_sql_def split: if_splits)

lemma keeps_query [keeps_intro]: "list_all param_appends params \<Longrightarrow> clean_op (query_statement st params)"
  unfolding query_statement_def by (intro keeps_intro writes_intro)

lemma keeps_prepare_with:
  assumes rec: "\<And>oid. clean_op (rec oid)"
  shows "clean_op (prepare_with rec q types)"
proof -
  have "clean_op (parameter_description_of m)" "clean_op (row_description_of m)" for m
    by (auto simp: parameter_description_of_def row_description_of_def intro: keeps_intro split: message.split)
  note desc = this
  have cols: "clean_op (case rd of Some rd \<Rightarrow> columns_of rec (row_description_fields rd) | None \<Rightarrow> flow_ret [])" for rd
    by (simp add: keeps_columns_of [OF rec] keeps_simple(1) split: option.split)
  have await: "clean_op (flow_bind (await_next r) f)" if "\<And>m r'. clean_op (f (m, r'))" for r f
    by (rule clean_bind [OF keeps_await_any]) (use that in auto)
  show ?thesis
    unfolding prepare_with_def Let_def
    by (rule clean_bind [OF keeps_simple(5)], rule clean_bind [OF keeps_request [OF writes_requests(4)]],
        rule clean_bind [OF keeps_awaits], rule await, simp, rule clean_bind [OF desc(1)], rule await, simp,
        rule clean_bind [OF desc(2)], rule clean_bind [OF keeps_param_types [OF rec]], rule clean_bind [OF cols],
        rule keeps_simple(1))
qed

lemma keeps_catch: "clean_op m \<Longrightarrow> clean_op h \<Longrightarrow> clean_op (flow_catch m p h)"
  unfolding keeps_def
proof (intro allI impI conjI)
  fix s r s'
  assume m: "\<forall>s r s'. clean s \<longrightarrow> m s = Some (r, s') \<longrightarrow>
      sent_whole s' \<and> (r = Inl Panic \<or> clean s') \<and> (\<forall>x. r = Inr x \<longrightarrow> True)"
    and h: "\<forall>s r s'. clean s \<longrightarrow> h s = Some (r, s') \<longrightarrow>
      sent_whole s' \<and> (r = Inl Panic \<or> clean s') \<and> (\<forall>x. r = Inr x \<longrightarrow> True)"
    and s: "clean s" "flow_catch m p h s = Some (r, s')"
  from s(2) obtain q t where q: "m s = Some (q, t)" by (auto simp: flow_catch_def split: option.splits)
  with m s(1) have t: "sent_whole t" "q = Inl Panic \<or> clean t" by blast+
  from s(2) q have "q \<noteq> Inl Panic \<and> h t = Some (r, s') \<or> s' = t \<and> r = q"
    by (auto simp: flow_catch_def split: sum.splits fault.splits if_splits)
  with h t show "sent_whole s'" "r = Inl Panic \<or> clean s'" by blast+
qed (rule TrueI)

lemma keeps_cached: "clean_op p \<Longrightarrow> (\<And>st. clean_op (put st)) \<Longrightarrow> clean_op (cached get p put)"
proof -
  assume "clean_op p" "\<And>st. clean_op (put st)"
  then have "clean_op (flow_bind p (\<lambda>st. flow_bind (put st) (\<lambda>_. flow_ret st)))" by (intro keeps_intro)
  then show ?thesis by (auto simp: keeps_def clean_def cached_def split: option.splits)
qed

lemma keeps_statements:
  assumes "\<And>oid. clean_op (rec oid)"
  shows "clean_op (typeinfo_statement rec)" "clean_op (typeinfo_enum_statement rec)" "clean_op (typeinfo_composite_statement rec)"
  unfolding typeinfo_statement_def typeinfo_enum_statement_def typeinfo_composite_statement_def
  by (auto intro!: keeps_cached keeps_catch keeps_prepare_with assms keeps_intro)

lemma keeps_composite: "(\<And>oid. clean_op (rec oid)) \<Longrightarrow> clean_op (composite_loop rec rows)"
  by (induction rec rows rule: composite_loop.induct) (auto intro!: keeps_intro)

lemma keeps_first_row [keeps_intro]: "clean_op (first_row t)"
proof -
  have "clean_op (try_next_row t)" by (auto simp: keeps_def clean_def dest: try_next_row_state)
  then show ?thesis unfolding first_row_def by (auto intro!: keeps_intro split: option.split)
qed

lemma keeps_lookup:
  assumes rec: "\<And>oid. clean_op (rec oid)"
  shows "clean_op (lookup_type rec oid)"
proof -
  have subs: "clean_op (get_enum_variants rec oid)" "clean_op (get_composite_fields rec oid)" for oid
    unfolding get_enum_variants_def get_composite_fields_def
    by (auto intro!: keeps_intro keeps_statements keeps_composite rec)
  have "clean_op (kind_of rec oid a b c d e)" for a b c d e
    using rec subs by (auto simp: kind_of_def intro!: keeps_intro split: option.split)
  then show ?thesis
    unfolding lookup_type_def Let_def by (auto intro!: keeps_intro keeps_statements rec)
qed

lemma keeps_get_type: "clean_op (get_type n known oid)"
proof (induction n arbitrary: oid)
  case 0
  show ?case by (simp add: keeps_def)
next
  case (Suc n)
  have "clean_op (lookup_type (get_type n known) oid)" by (rule keeps_lookup) (rule Suc.IH)
  then show ?case by (auto simp: keeps_def clean_def get_type_step_def split: option.splits if_splits)
qed

lemma keeps_prepare [keeps_intro]: "clean_op (client_prepare known q types)"
proof -
  have "clean_op (prepare n known q types)" for n
    unfolding prepare_def by (rule keeps_prepare_with) (rule keeps_get_type)
  then show ?thesis by (simp add: keeps_def client_prepare_def)
qed

lemma keeps_typed_loop: "(\<And>oid. clean_op (rec oid)) \<Longrightarrow> clean_op (typed_loop rec r)"
  by (rule keeps_loop [where loop = "\<lambda>_ :: unit. typed_loop rec", OF loop_eqs(4)])
    (auto intro!: keeps_intro keeps_columns_of split: message.split)

lemma keeps_closed [keeps_intro]: "clean_op m \<Longrightarrow> clean_op (ignoring_closed m)"
  unfolding keeps_def ignoring_closed_def
  by (auto split: option.splits sum.splits fault.splits)

lemma keeps_query_typed:
  "list_all (\<lambda>(p, _). param_appends p) params \<Longrightarrow> clean_op (query_typed known q params)"
proof -
  assume "list_all (\<lambda>(p, _). param_appends p) params"
  then have "clean_op (flow_bind (send_request (typed_encode q params)) (typed_loop (get_type n known)))" for n
    by (intro keeps_intro writes_intro keeps_typed_loop keeps_get_type)
  then show ?thesis by (simp add: keeps_def query_typed_def del: get_type.simps)
qed

text \<open>
  The operations of a client, one after the other: \<open>known\<close> is the generated table of types, a parameter's conversion appends to the
  buffer, and an operation may be given up as soon as it has sent its request, whatever it would have awaited. An operation may
  return an error; one that panics ends the sequence.
\<close>

inductive client_step :: "(oid \<Rightarrow> bool) \<Rightarrow> inner_client \<Rightarrow> inner_client \<Rightarrow> bool" for known where
  prepares: "client_prepare known q types s = Some (r, s') \<Longrightarrow> r \<noteq> Inl Panic \<Longrightarrow> client_step known s s'"
| queries: "list_all param_appends params \<Longrightarrow> client_query_raw known x params s = Some (r, s') \<Longrightarrow> r \<noteq> Inl Panic \<Longrightarrow> client_step known s s'"
| executes: "list_all param_appends params \<Longrightarrow> client_execute known x params s = Some (r, s') \<Longrightarrow> r \<noteq> Inl Panic \<Longrightarrow> client_step known s s'"
| queries_typed: "list_all (\<lambda>(p, _). param_appends p) typed \<Longrightarrow> query_typed known q typed s = Some (r, s') \<Longrightarrow> r \<noteq> Inl Panic \<Longrightarrow> client_step known s s'"
| executes_typed: "list_all (\<lambda>(p, _). param_appends p) typed \<Longrightarrow> execute_typed q typed s = Some (r', s') \<Longrightarrow> r' \<noteq> Inl Panic \<Longrightarrow> client_step known s s'"
| simple_queries: "simple_query q s = Some (rs, s') \<Longrightarrow> rs \<noteq> Inl Panic \<Longrightarrow> client_step known s s'"
| batch_executes: "batch_execute q s = Some (ru, s') \<Longrightarrow> ru \<noteq> Inl Panic \<Longrightarrow> client_step known s s'"
| binds: "list_all param_appends params \<Longrightarrow> bind_portal st params s = Some (rp, s') \<Longrightarrow> rp \<noteq> Inl Panic \<Longrightarrow> client_step known s s'"
| queries_portal: "query_portal portal max_rows s = Some (rr, s') \<Longrightarrow> rr \<noteq> Inl Panic \<Longrightarrow> client_step known s s'"
| copies_out: "copy_out st s = Some (rc, s') \<Longrightarrow> rc \<noteq> Inl Panic \<Longrightarrow> client_step known s s'"
| syncs: "sync_client s = Some (ru, s') \<Longrightarrow> ru \<noteq> Inl Panic \<Longrightarrow> client_step known s s'"
| drops_statement: "drop_statement st s = Some (ru, s') \<Longrightarrow> ru \<noteq> Inl Panic \<Longrightarrow> client_step known s s'"
| drops_portal: "drop_portal portal s = Some (ru, s') \<Longrightarrow> ru \<noteq> Inl Panic \<Longrightarrow> client_step known s s'"
| clears_cache: "clear_type_cache s = Some (ru, s') \<Longrightarrow> ru \<noteq> Inl Panic \<Longrightarrow> client_step known s s'"

lemma keepsD: "clean_op m \<Longrightarrow> m s = Some (r, s') \<Longrightarrow> r \<noteq> Inl Panic \<Longrightarrow> clean s \<Longrightarrow> clean s'"
  unfolding keeps_def by blast

lemma keeps_sync: "clean_op sync_client"
proof -
  have "whole_messages [of_char CHR ''S'', 0, 0, 0, 4]"
    using server_messages_frame [of "[]" "of_char CHR ''S''" "[]"]
    by (simp add: whole_messages_def frame_def be_word_eval max_body_def)
  then show ?thesis unfolding sync_client_def by (intro keeps_intro keeps_send)
qed

lemma keeps_into: "clean_op (into_statement known x)"
  by (auto simp: into_statement_def intro: keeps_intro split: to_statement.split)

lemma client_ops:
  "list_all param_appends params \<Longrightarrow> clean_op (client_query_raw known x params)"
  "list_all param_appends params \<Longrightarrow> clean_op (client_execute known x params)"
  "list_all param_appends params \<Longrightarrow> clean_op (bind_portal st params)"
  "list_all (\<lambda>(p, _). param_appends p) typed \<Longrightarrow> clean_op (execute_typed q typed)"
  "clean_op (simple_query q)" "clean_op (batch_execute q)" "clean_op (query_portal portal max_rows)" "clean_op (copy_out st)"
  "clean_op (drop_statement st)" "clean_op (drop_portal portal)"
  unfolding client_query_raw_def client_execute_def execute_statement_def bind_portal_def execute_typed_def simple_query_def
    batch_execute_def query_portal_def copy_out_def drop_statement_def drop_portal_def Let_def
  by (auto intro!: keeps_intro writes_intro keeps_into)

lemma step_keeps: "client_step known s s' \<Longrightarrow> clean s \<Longrightarrow> clean s'"
  by (induction rule: client_step.induct)
    (blast intro: keepsD client_ops keeps_prepare keeps_query_typed keeps_sync keeps_simple(11))+



end
