(* ===== verification/Transactions.thy ===== *)
theory Transactions
  imports Prepare
begin

text \<open>
  Transactions (\<open>transaction.rs\<close>, \<open>transaction_builder.rs\<close>). A transaction borrows the client, and a nested one its parent, so only the
  innermost handle can be used; its methods for statements and queries forward to the client. \<open>done\<close> keeps the destructor from
  rolling back what was committed or rolled back before. A name is the text of a savepoint, put into the commands as it is.
\<close>

section \<open>Handles\<close>

record savepoint =
  sp_name :: bytes
  sp_depth :: u32

record transaction =
  tx_savepoint :: "savepoint option"
  tx_done :: bool

definition tx_new :: transaction where
  "tx_new = \<lparr>tx_savepoint = None, tx_done = False\<rparr>"

text \<open>\<open>__private_api_rollback\<close> (\<open>client.rs\<close>): a request whose answer nobody awaits; a refused one is ignored.\<close>

definition rollback_text :: "bytes option \<Rightarrow> bytes" where
  "rollback_text name =
     (case name of
        Some name \<Rightarrow> ascii ''ROLLBACK TO '' @ name
      | None \<Rightarrow> ascii ''ROLLBACK'')"

definition private_rollback :: "bytes option \<Rightarrow> unit flow" where
  "private_rollback name =
     ignoring_closed (send_request (\<lambda>buf. map_err (\<lambda>_. Panic) (query (rollback_text name) buf)))"

definition tx_drop :: "transaction \<Rightarrow> unit flow" where
  "tx_drop tx = (if tx_done tx then flow_ret () else private_rollback (map_option sp_name (tx_savepoint tx)))"

text \<open>A value that is dropped when the operation that owns it has returned, with a result or an error.\<close>

definition dropping :: "unit flow \<Rightarrow> 'a flow \<Rightarrow> 'a flow" where
  "dropping destructor m s =
     (case m s of
        None \<Rightarrow> None
      | Some (r, s) \<Rightarrow>
          (case destructor s of
             None \<Rightarrow> None
           | Some (Inl e, s) \<Rightarrow> Some (Inl e, s)
           | Some (Inr _, s) \<Rightarrow> Some (r, s)))"

section \<open>Commit and rollback\<close>

definition commit_text :: "transaction \<Rightarrow> bytes" where
  "commit_text tx =
     (case tx_savepoint tx of
        Some sp \<Rightarrow> ascii ''RELEASE '' @ sp_name sp
      | None \<Rightarrow> ascii ''COMMIT'')"

definition tx_commit :: "transaction \<Rightarrow> unit flow" where
  "tx_commit tx =
     (let tx = tx\<lparr>tx_done := True\<rparr>
      in dropping (tx_drop tx) (batch_execute (commit_text tx)))"

definition tx_rollback :: "transaction \<Rightarrow> unit flow" where
  "tx_rollback tx =
     (let tx = tx\<lparr>tx_done := True\<rparr>
      in dropping (tx_drop tx) (batch_execute (rollback_text (map_option sp_name (tx_savepoint tx)))))"

section \<open>Nested transactions\<close>

definition private_savepoint :: "bytes option \<Rightarrow> transaction \<Rightarrow> transaction flow" where
  "private_savepoint name tx =
     (let depth = (case tx_savepoint tx of None \<Rightarrow> 0 | Some sp \<Rightarrow> sp_depth sp) + 1;
          name = (case name of Some name \<Rightarrow> name | None \<Rightarrow> ascii (''sp_'' @ show_nat (unat depth)))
      in flow_bind (batch_execute (ascii ''SAVEPOINT '' @ name)) (\<lambda>_.
         flow_ret \<lparr>tx_savepoint = Some \<lparr>sp_name = name, sp_depth = depth\<rparr>, tx_done = False\<rparr>))"

definition tx_transaction :: "transaction \<Rightarrow> transaction flow" where
  "tx_transaction = private_savepoint None"

definition tx_named :: "bytes \<Rightarrow> transaction \<Rightarrow> transaction flow" where
  "tx_named name = private_savepoint (Some name)"

section \<open>Starting a transaction\<close>

datatype isolation_level = Read_Uncommitted | Read_Committed | Repeatable_Read | Serializable

record transaction_builder =
  tb_isolation_level :: "isolation_level option"
  tb_read_only :: "bool option"
  tb_deferrable :: "bool option"

definition builder_new :: transaction_builder where
  "builder_new = \<lparr>tb_isolation_level = None, tb_read_only = None, tb_deferrable = None\<rparr>"

definition with_isolation_level :: "isolation_level \<Rightarrow> transaction_builder \<Rightarrow> transaction_builder" where
  "with_isolation_level level tb = tb\<lparr>tb_isolation_level := Some level\<rparr>"

definition with_read_only :: "bool \<Rightarrow> transaction_builder \<Rightarrow> transaction_builder" where
  "with_read_only ro tb = tb\<lparr>tb_read_only := Some ro\<rparr>"

definition with_deferrable :: "bool \<Rightarrow> transaction_builder \<Rightarrow> transaction_builder" where
  "with_deferrable deferrable tb = tb\<lparr>tb_deferrable := Some deferrable\<rparr>"

fun level_text :: "isolation_level \<Rightarrow> string" where
  "level_text Read_Uncommitted = ''READ UNCOMMITTED''"
| "level_text Read_Committed = ''READ COMMITTED''"
| "level_text Repeatable_Read = ''REPEATABLE READ''"
| "level_text Serializable = ''SERIALIZABLE''"

definition start_text :: "transaction_builder \<Rightarrow> string" where
  "start_text tb =
     (let q = ''START TRANSACTION''; first = True;
          (q, first) = (case tb_isolation_level tb of
                          Some level \<Rightarrow> (q @ '' ISOLATION LEVEL '' @ level_text level, False)
                        | None \<Rightarrow> (q, first));
          (q, first) = (case tb_read_only tb of
                          Some ro \<Rightarrow>
                            (q @ (if first then [] else '','') @ (if ro then '' READ ONLY'' else '' READ WRITE''), False)
                        | None \<Rightarrow> (q, first))
      in (case tb_deferrable tb of
            Some deferrable \<Rightarrow>
              q @ (if first then [] else '','') @ (if deferrable then '' DEFERRABLE'' else '' NOT DEFERRABLE'')
          | None \<Rightarrow> q))"

text \<open>
  \<open>start\<close>: the guard \<open>RollbackIfNotDone\<close> is dropped when the command has failed, and when the future is dropped before it has
  completed (\<open>start_dropped\<close>).
\<close>

definition builder_start :: "transaction_builder \<Rightarrow> transaction flow" where
  "builder_start tb s =
     (case batch_execute (ascii (start_text tb)) s of
        None \<Rightarrow> None
      | Some (Inr _, s) \<Rightarrow> Some (Inr tx_new, s)
      | Some (Inl e, s) \<Rightarrow> dropping (private_rollback None) (flow_lift (Inl e)) s)"

definition start_dropped :: "transaction_builder \<Rightarrow> unit flow" where
  "start_dropped tb =
     flow_bind (send_request (simple_encode (ascii (start_text tb)))) (\<lambda>_. private_rollback None)"

definition client_transaction :: "transaction flow" where
  "client_transaction = builder_start builder_new"

end
