(* ===== verification/Transaction_Laws.thy ===== *)
theory Transaction_Laws
  imports Transactions Request_Laws Statement_Laws Net_Addr
begin

text \<open>
  Transactions against the server. The server is a log of the work it has committed, the log of the open transaction and
  the stack of its savepoints, each with the log to return to. The use a program makes of transactions is a tree, because a nested
  transaction borrows its parent: \<open>perform\<close> is the tree executed with the code's operations, and \<open>meaning\<close> is what it should do.
\<close>

section \<open>The server\<close>

datatype command = Start | Commit | Rollback | Savepoint bytes | Release bytes | Rollback_To bytes | Work bytes

definition command_of :: "bytes \<Rightarrow> command" where
  "command_of q =
     (if q = ascii ''COMMIT'' then Commit
      else if q = ascii ''ROLLBACK'' then Rollback
      else case strip_prefix (ascii ''SAVEPOINT '') q of
             Some n \<Rightarrow> Savepoint n
           | None \<Rightarrow>
               (case strip_prefix (ascii ''RELEASE '') q of
                  Some n \<Rightarrow> Release n
                | None \<Rightarrow>
                    (case strip_prefix (ascii ''ROLLBACK TO '') q of
                       Some n \<Rightarrow> Rollback_To n
                     | None \<Rightarrow> if strip_prefix (ascii ''START TRANSACTION'') q \<noteq> None then Start else Work q)))"

record server =
  sv_committed :: "bytes list"
  sv_log :: "bytes list option"
  sv_marks :: "(bytes \<times> bytes list) list"

text \<open>The marks from the most recent one of a name; none when there is no such mark.\<close>

definition back_to :: "bytes \<Rightarrow> (bytes \<times> bytes list) list \<Rightarrow> (bytes \<times> bytes list) list" where
  "back_to n marks = dropWhile (\<lambda>(m, _). m \<noteq> n) marks"

text \<open>A command the server executes; \<open>None\<close> is an error.\<close>

fun server_do :: "command \<Rightarrow> server \<Rightarrow> server option" where
  "server_do Start sv =
     (if sv_log sv = None then Some (sv\<lparr>sv_log := Some [], sv_marks := []\<rparr>) else None)"
| "server_do Commit sv =
     Some (case sv_log sv of
             None \<Rightarrow> sv
           | Some l \<Rightarrow> sv\<lparr>sv_committed := sv_committed sv @ l, sv_log := None, sv_marks := []\<rparr>)"
| "server_do Rollback sv = Some (sv\<lparr>sv_log := None, sv_marks := []\<rparr>)"
| "server_do (Savepoint n) sv =
     (case sv_log sv of
        None \<Rightarrow> None
      | Some l \<Rightarrow> Some (sv\<lparr>sv_marks := (n, l) # sv_marks sv\<rparr>))"
| "server_do (Release n) sv =
     (case back_to n (sv_marks sv) of
        [] \<Rightarrow> None
      | _ # marks \<Rightarrow> Some (sv\<lparr>sv_marks := marks\<rparr>))"
| "server_do (Rollback_To n) sv =
     (case back_to n (sv_marks sv) of
        [] \<Rightarrow> None
      | (m, l) # marks \<Rightarrow> Some (sv\<lparr>sv_log := Some l, sv_marks := (m, l) # marks\<rparr>))"
| "server_do (Work q) sv =
     Some (case sv_log sv of
             None \<Rightarrow> sv\<lparr>sv_committed := sv_committed sv @ [q]\<rparr>
           | Some l \<Rightarrow> sv\<lparr>sv_log := Some (l @ [q])\<rparr>)"

text \<open>The text of a simple query in a request, and the commands executed in their order.\<close>

definition request_text :: "request_messages \<Rightarrow> bytes option" where
  "request_text req =
     (case req of
        Single (Raw b) \<Rightarrow>
          (case server_messages b of
             Some [(t, body)] \<Rightarrow>
               (case read_cstr body of
                  Inr (q, []) \<Rightarrow> if t = tag_of CHR ''Q'' then Some q else None
                | _ \<Rightarrow> None)
           | _ \<Rightarrow> None)
      | _ \<Rightarrow> None)"

fun server_run :: "bytes list \<Rightarrow> server \<Rightarrow> server option" where
  "server_run [] sv = Some sv"
| "server_run (q # qs) sv =
     (case server_do (command_of q) sv of
        None \<Rightarrow> None
      | Some sv \<Rightarrow> server_run qs sv)"

lemma server_run_append: "server_run (xs @ ys) sv = (case server_run xs sv of None \<Rightarrow> None | Some sv \<Rightarrow> server_run ys sv)"
  by (induction xs arbitrary: sv) (auto split: option.split)

section \<open>Programs with transactions\<close>

datatype finish = Commits | Rolls_Back | Drops

datatype action = Do bytes | Nested "bytes option" "action list" finish

primrec end_with :: "finish \<Rightarrow> transaction \<Rightarrow> unit flow" where
  "end_with Commits tx = tx_commit tx"
| "end_with Rolls_Back tx = tx_rollback tx"
| "end_with Drops tx = tx_drop tx"

fun perform :: "transaction \<Rightarrow> action list \<Rightarrow> unit flow" where
  "perform tx [] = flow_ret ()"
| "perform tx (Do q # acts) = flow_bind (batch_execute q) (\<lambda>_. perform tx acts)"
| "perform tx (Nested name body fin # acts) =
     flow_bind (private_savepoint name tx) (\<lambda>child.
     flow_bind (perform child body) (\<lambda>_.
     flow_bind (end_with fin child) (\<lambda>_. perform tx acts)))"

definition program :: "transaction_builder \<Rightarrow> action list \<Rightarrow> finish \<Rightarrow> unit flow" where
  "program tb acts fin =
     flow_bind (builder_start tb) (\<lambda>tx.
     flow_bind (perform tx acts) (\<lambda>_. end_with fin tx))"

text \<open>What the program should do to the log.\<close>

fun meaning :: "action list \<Rightarrow> bytes list \<Rightarrow> bytes list" where
  "meaning [] log = log"
| "meaning (Do q # acts) log = meaning acts (log @ [q])"
| "meaning (Nested name body fin # acts) log =
     meaning acts (case fin of Commits \<Rightarrow> meaning body log | _ \<Rightarrow> log)"

text \<open>
  The names of nested transactions: a savepoint that was rolled back stays on the server's stack, so a transaction must not have the name of a
  nested one that was rolled back in it.
\<close>

definition name_at :: "u32 \<Rightarrow> bytes option \<Rightarrow> bytes" where
  "name_at depth name = (case name of Some name \<Rightarrow> name | None \<Rightarrow> ascii (''sp_'' @ show_nat (unat depth)))"

fun left_over :: "u32 \<Rightarrow> action list \<Rightarrow> bytes set" where
  "left_over depth [] = {}"
| "left_over depth (Do q # acts) = left_over depth acts"
| "left_over depth (Nested name body fin # acts) =
     (case fin of Commits \<Rightarrow> {} | _ \<Rightarrow> {name_at (depth + 1) name}) \<union> left_over depth acts"

fun names_ok :: "u32 \<Rightarrow> action list \<Rightarrow> bool" where
  "names_ok depth [] \<longleftrightarrow> True"
| "names_ok depth (Do q # acts) \<longleftrightarrow> command_of q = Work q \<and> names_ok depth acts"
| "names_ok depth (Nested name body fin # acts) \<longleftrightarrow>
     name_at (depth + 1) name \<notin> left_over (depth + 1) body \<and> names_ok (depth + 1) body \<and> names_ok depth acts"

section \<open>What the operations send\<close>

text \<open>An operation that sends exactly the simple query \<open>q\<close>, when the connection accepts it.\<close>

definition accepting :: "nat \<Rightarrow> inner_client \<Rightarrow> bool" where
  "accepting n s \<longleftrightarrow> ic_buffer s = [] \<and> None \<notin> set (ic_answers s) \<and> n \<le> length (ic_answers s)"

definition sends :: "bytes \<Rightarrow> 'a flow \<Rightarrow> bool" where
  "sends q m \<longleftrightarrow> (\<forall>s x s'. accepting 1 s \<longrightarrow> m s = Some (Inr x, s') \<longrightarrow>
     (\<exists>req. request_text req = Some q \<and>
       s' = s\<lparr>ic_requests := ic_requests s @ [req], ic_answers := drop 1 (ic_answers s)\<rparr>))"

lemma query_text: "query q [] = Inr b \<Longrightarrow> request_text (Single (Raw b)) = Some q"
proof -
  assume b: "query q [] = Inr b"
  have q: "0 \<notin> set q" using b by (auto simp: query_def write_body_def write_cstr_eq split: if_splits)
  with b have "length (cstr_bytes q) \<le> max_body" "b = tag_of CHR ''Q'' # frame (cstr_bytes q)"
    using frames_query [OF q] by (auto simp: frames_def split: if_splits)
  with q read_cstr_append [of q "[]"] server_messages_frame [of "cstr_bytes q" "tag_of CHR ''Q''" "[]"] show ?thesis
    by (simp add: request_text_def)
qed

lemma batch_loop_state: "batch_loop r s = Some (x, s') \<Longrightarrow> s' = s"
proof (induction "resp_size r" arbitrary: r rule: less_induct)
  case less
  show ?case
  proof (cases "await_next r s")
    case None
    with less.prems show ?thesis by (simp add: batch_loop.simps [of r s])
  next
    case (Some y)
    obtain z t where y: "y = (z, t)" by (cases y)
    have t: "t = s" using Some y by (auto simp: await_next_def split: option.splits sum.splits)
    show ?thesis
    proof (cases z)
      case (Inl e)
      with less.prems Some y t show ?thesis by (simp add: batch_loop.simps [of r s])
    next
      case (Inr mr)
      obtain m r' where mr: "mr = (m, r')" by (cases mr)
      have "resp_size r' < resp_size r" using Some y Inr mr await_next_size by blast
      from less.hyps [OF this] less.prems Some y t Inr mr show ?thesis
        by (cases m) (simp_all add: batch_loop.simps [of r s] unexpected_message_def)
    qed
  qed
qed

lemma accepting_head:
  assumes "accepting (Suc n) s"
  obtains a rest where "ic_answers s = Some a # rest" "ic_buffer s = []"
  using assms by (cases "ic_answers s"; cases "hd (ic_answers s)") (auto simp: accepting_def)

lemma request_sent:
  assumes "accepting 1 s" "send_request w s = Some (Inr r, s')"
  shows "\<exists>b. w [] = Inr b \<and>
    s' = s\<lparr>ic_requests := ic_requests s @ [Single (Raw b)], ic_answers := drop 1 (ic_answers s)\<rparr>"
proof -
  obtain a rest where a: "ic_answers s = Some a # rest" "ic_buffer s = []"
    using assms(1) accepting_head [of 0] by auto
  have fail: "\<exists>t. with_buf w s = Some (Inl e, t)" if "w [] = Inl e" for e
    using with_buf_fails [of w s e] that a(2) by auto
  from assms(2) a(2) obtain b where b: "w [] = Inr b"
    by (cases "w []") (auto simp: send_request_def flow_bind_def dest: fail)
  from a send_request_ok [of w s b a rest] b assms(2) show ?thesis
    by (auto simp: after_request_def)
qed

lemma sends_batch: "sends q (batch_execute q)"
  unfolding sends_def
proof (intro allI impI)
  fix s x s'
  assume s: "accepting 1 s" "batch_execute q s = Some (Inr x, s')"
  obtain r t where r: "send_request (simple_encode q) s = Some (Inr r, t)" "batch_loop r t = Some (Inr x, s')"
    using s(2) by (auto simp: batch_execute_def flow_bind_def split: option.splits prod.splits sum.splits)
  from request_sent [OF s(1) r(1)] batch_loop_state [OF r(2)] query_text [of q]
  show "\<exists>req. request_text req = Some q \<and>
      s' = s\<lparr>ic_requests := ic_requests s @ [req], ic_answers := drop 1 (ic_answers s)\<rparr>"
    by (auto simp: simple_encode_def encoding_def)
qed

lemma sends_rollback: "sends (rollback_text name) (private_rollback name)"
  unfolding sends_def
proof (intro allI impI)
  fix s x s'
  let ?w = "\<lambda>buf. map_err (\<lambda>_. Panic) (query (rollback_text name) buf)"
  assume s: "accepting 1 s" "private_rollback name s = Some (Inr x, s')"
  obtain a rest where a: "ic_answers s = Some a # rest" "ic_buffer s = []"
    using s(1) accepting_head [of 0] by auto
  have fail: "\<exists>t. with_buf ?w s = Some (Inl Panic, t)" if "query (rollback_text name) [] = Inl e" for e
    using with_buf_fails [of ?w s Panic] that a(2) by auto
  have "\<exists>r t. send_request ?w s = Some (Inr r, t)"
    using s(2) a by (cases "query (rollback_text name) []")
      (auto simp: private_rollback_def ignoring_closed_def send_request_def flow_bind_def client_send_def dest: fail)
  then obtain r t where r: "send_request ?w s = Some (Inr r, t)" by blast
  with s(2) have "s' = t" by (simp add: private_rollback_def ignoring_closed_def)
  with request_sent [OF s(1) r] query_text [of "rollback_text name"]
  show "\<exists>req. request_text req = Some (rollback_text name) \<and>
      s' = s\<lparr>ic_requests := ic_requests s @ [req], ic_answers := drop 1 (ic_answers s)\<rparr>" by auto
qed

lemma dropping_done: "dropping (tx_drop (tx\<lparr>tx_done := True\<rparr>)) m = m"
  by (auto simp: fun_eq_iff dropping_def tx_drop_def split: option.split)

definition finish_text :: "finish \<Rightarrow> transaction \<Rightarrow> bytes" where
  "finish_text fin tx = (case fin of Commits \<Rightarrow> commit_text tx | _ \<Rightarrow> rollback_text (map_option sp_name (tx_savepoint tx)))"

lemma sends_finish: "\<not> tx_done tx \<Longrightarrow> sends (finish_text fin tx) (end_with fin tx)"
proof (cases fin)
  case Drops
  assume "\<not> tx_done tx"
  with Drops show ?thesis by (simp add: finish_text_def tx_drop_def sends_rollback)
qed (simp_all add: finish_text_def tx_commit_def tx_rollback_def Let_def dropping_done sends_batch commit_text_def)

lemma savepoint_sent:
  assumes "accepting 1 s" "private_savepoint name tx s = Some (Inr child, s')"
  shows "\<exists>req. request_text req = Some (ascii ''SAVEPOINT '' @ sp_name (the (tx_savepoint child))) \<and>
    s' = s\<lparr>ic_requests := ic_requests s @ [req], ic_answers := drop 1 (ic_answers s)\<rparr>"
  using assms sends_batch unfolding sends_def private_savepoint_def Let_def flow_bind_def
  by (fastforce split: option.splits prod.splits sum.splits)

section \<open>The refinement\<close>

definition depth_of :: "transaction \<Rightarrow> u32" where
  "depth_of tx = (case tx_savepoint tx of None \<Rightarrow> 0 | Some sp \<Rightarrow> sp_depth sp)"

lemma savepoint_child:
  "private_savepoint name tx s = Some (Inr child, s') \<Longrightarrow>
     child = \<lparr>tx_savepoint = Some \<lparr>sp_name = name_at (depth_of tx + 1) name, sp_depth = depth_of tx + 1\<rparr>, tx_done = False\<rparr>"
  by (auto simp: private_savepoint_def Let_def flow_bind_def name_at_def depth_of_def split: option.splits prod.splits sum.splits)

lemma command_of_simps [simp]:
  "command_of (ascii ''COMMIT'') = Commit" "command_of (ascii ''ROLLBACK'') = Rollback"
  "command_of (ascii ''SAVEPOINT '' @ n) = Savepoint n" "command_of (ascii ''RELEASE '' @ n) = Release n"
  "command_of (ascii ''ROLLBACK TO '' @ n) = Rollback_To n" "command_of (ascii (''START TRANSACTION'' @ r)) = Start"
  by (simp_all add: command_of_def strip_prefix_def ascii_def)

lemma back_to_mark:
  "n \<notin> fst ` set junk \<Longrightarrow> back_to n (junk @ (n, l) # marks) = (n, l) # marks"
  unfolding back_to_def by (induction junk) auto

text \<open>The commands of the actions in a transaction at a depth.\<close>

fun commands :: "u32 \<Rightarrow> action list \<Rightarrow> bytes list" where
  "commands depth [] = []"
| "commands depth (Do q # acts) = q # commands depth acts"
| "commands depth (Nested name body fin # acts) =
     (ascii ''SAVEPOINT '' @ name_at (depth + 1) name) #
     commands (depth + 1) body @
     (case fin of
        Commits \<Rightarrow> ascii ''RELEASE '' @ name_at (depth + 1) name
      | _ \<Rightarrow> ascii ''ROLLBACK TO '' @ name_at (depth + 1) name) #
     commands depth acts"

text \<open>A server that executes them reaches the log they mean, and keeps on its stack only savepoints that were rolled back to.\<close>

lemma finish_nested:
  assumes "n \<notin> fst ` set junk" "sv_marks sv = junk @ (n, l) # marks"
  shows "server_do (command_of (case fin of Commits \<Rightarrow> ascii ''RELEASE '' @ n | _ \<Rightarrow> ascii ''ROLLBACK TO '' @ n)) sv =
    Some (case fin of
            Commits \<Rightarrow> sv\<lparr>sv_marks := marks\<rparr>
          | _ \<Rightarrow> sv\<lparr>sv_log := Some l, sv_marks := (n, l) # marks\<rparr>)"
  using back_to_mark [OF assms(1), of l marks] assms(2) by (cases fin) simp_all

lemma commands_meaning:
  "names_ok depth acts \<Longrightarrow> sv_log sv = Some log \<Longrightarrow>
   \<exists>junk. fst ` set junk \<subseteq> left_over depth acts \<and>
     server_run (commands depth acts) sv = Some (sv\<lparr>sv_log := Some (meaning acts log), sv_marks := junk @ sv_marks sv\<rparr>)"
proof (induction depth acts arbitrary: sv log rule: commands.induct)
  case (1 depth)
  then show ?case by (cases sv) (auto intro!: exI [of _ "[]"])
next
  case (2 depth q acts)
  then show ?case using "2.IH" [of "sv\<lparr>sv_log := Some (log @ [q])\<rparr>" "log @ [q]"] by auto
next
  case (3 depth name body fin acts)
  let ?m = "name_at (depth + 1) name"
  let ?sv1 = "sv\<lparr>sv_marks := (?m, log) # sv_marks sv\<rparr>"
  from "3.IH"(1) [of ?sv1 log] "3.prems" obtain junk where
    junk: "fst ` set junk \<subseteq> left_over (depth + 1) body" and
    r1: "server_run (commands (depth + 1) body) ?sv1 =
      Some (?sv1\<lparr>sv_log := Some (meaning body log), sv_marks := junk @ sv_marks ?sv1\<rparr>)" by auto
  let ?log = "case fin of Commits \<Rightarrow> meaning body log | _ \<Rightarrow> log"
  let ?left = "case fin of Commits \<Rightarrow> [] | _ \<Rightarrow> [(?m, log)]"
  let ?sv3 = "sv\<lparr>sv_log := Some ?log, sv_marks := ?left @ sv_marks sv\<rparr>"
  have "?m \<notin> fst ` set junk" using junk "3.prems"(1) by auto
  from finish_nested [OF this, of "?sv1\<lparr>sv_log := Some (meaning body log), sv_marks := junk @ sv_marks ?sv1\<rparr>" log "sv_marks sv" fin]
  have r2: "server_do (command_of (case fin of Commits \<Rightarrow> ascii ''RELEASE '' @ ?m | _ \<Rightarrow> ascii ''ROLLBACK TO '' @ ?m))
      (?sv1\<lparr>sv_log := Some (meaning body log), sv_marks := junk @ sv_marks ?sv1\<rparr>) = Some ?sv3"
    by (cases fin) simp_all
  from "3.IH"(2) [of ?sv3 ?log] "3.prems" obtain junk' where
    junk': "fst ` set junk' \<subseteq> left_over depth acts" and
    r3: "server_run (commands depth acts) ?sv3 =
      Some (?sv3\<lparr>sv_log := Some (meaning acts ?log), sv_marks := junk' @ sv_marks ?sv3\<rparr>)" by auto
  have "server_run (commands depth (Nested name body fin # acts)) sv =
      Some (?sv3\<lparr>sv_log := Some (meaning acts ?log), sv_marks := junk' @ sv_marks ?sv3\<rparr>)"
    using r1 r2 r3 "3.prems"(2) by (simp add: server_run_append)
  moreover have "fst ` set (junk' @ ?left) \<subseteq> left_over depth (Nested name body fin # acts)"
    using junk' by (cases fin) auto
  ultimately show ?case by (intro exI [of _ "junk' @ ?left"]) simp
qed

section \<open>What a program sends\<close>

text \<open>A run from one client to another that sends the texts \<open>qs\<close>.\<close>

definition issues :: "bytes list \<Rightarrow> inner_client \<Rightarrow> inner_client \<Rightarrow> bool" where
  "issues qs s s' \<longleftrightarrow> (\<exists>reqs. map request_text reqs = map Some qs \<and>
     s' = s\<lparr>ic_requests := ic_requests s @ reqs, ic_answers := drop (length qs) (ic_answers s)\<rparr>)"

lemma issues_refl: "issues [] s s"
  by (simp add: issues_def)

lemma issues_trans: "issues qs s t \<Longrightarrow> issues qs' t s' \<Longrightarrow> issues (qs @ qs') s s'"
proof -
  assume "issues qs s t" "issues qs' t s'"
  then obtain reqs reqs' where
    "map request_text reqs = map Some qs" "t = s\<lparr>ic_requests := ic_requests s @ reqs, ic_answers := drop (length qs) (ic_answers s)\<rparr>"
    "map request_text reqs' = map Some qs'" "s' = t\<lparr>ic_requests := ic_requests t @ reqs', ic_answers := drop (length qs') (ic_answers t)\<rparr>"
    by (auto simp: issues_def)
  then show ?thesis by (auto simp: issues_def add.commute intro!: exI [of _ "reqs @ reqs'"])
qed

lemma issues_accepting: "issues qs s s' \<Longrightarrow> accepting (length qs + n) s \<Longrightarrow> accepting n s'"
  by (auto simp: issues_def accepting_def dest: in_set_dropD)

lemma sends_issues: "sends q m \<Longrightarrow> accepting (Suc n) s \<Longrightarrow> m s = Some (Inr x, s') \<Longrightarrow> issues [q] s s'"
  unfolding sends_def issues_def by (fastforce simp: accepting_def intro: exI [of _ "[req]" for req])

lemma flow_bind_returns:
  assumes "flow_bind m k s = Some (Inr y, s')"
  obtains x t where "m s = Some (Inr x, t)" "k x t = Some (Inr y, s')"
  using assms by (auto simp: flow_bind_def split: option.splits prod.splits sum.splits)

lemma finish_text_child:
  "tx_savepoint tx = Some sp \<Longrightarrow>
     finish_text fin tx = (case fin of Commits \<Rightarrow> ascii ''RELEASE '' @ sp_name sp | _ \<Rightarrow> ascii ''ROLLBACK TO '' @ sp_name sp)"
  by (cases fin) (simp_all add: finish_text_def commit_text_def rollback_text_def)

lemma perform_issues:
  "perform tx acts s = Some (Inr (), s') \<Longrightarrow> depth = depth_of tx \<Longrightarrow> accepting (length (commands depth acts)) s \<Longrightarrow>
     issues (commands depth acts) s s'"
proof (induction depth acts arbitrary: tx s s' rule: commands.induct)
  case (1 depth)
  then show ?case by (simp add: flow_ret_def issues_refl)
next
  case (2 depth q acts)
  obtain x s1 where s1: "batch_execute q s = Some (Inr x, s1)" "perform tx acts s1 = Some (Inr (), s')"
    using "2.prems"(1) by (auto elim: flow_bind_returns)
  have i1: "issues [q] s s1" by (rule sends_issues [OF sends_batch _ s1(1)]) (use "2.prems"(3) in simp)
  with "2.IH" [OF s1(2) "2.prems"(2)] issues_accepting [OF i1] "2.prems"(3) issues_trans [OF i1] show ?case by simp
next
  case (3 d name body fin acts)
  let ?m = "name_at (d + 1) name"
  obtain child s1 s2 s3 where
    s1: "private_savepoint name tx s = Some (Inr child, s1)" and
    s2: "perform child body s1 = Some (Inr (), s2)" and
    s3: "end_with fin child s2 = Some (Inr (), s3)" and
    s4: "perform tx acts s3 = Some (Inr (), s')"
    using "3.prems"(1) by (auto elim!: flow_bind_returns)
  have child: "tx_savepoint child = Some \<lparr>sp_name = ?m, sp_depth = d + 1\<rparr>" "\<not> tx_done child" "d + 1 = depth_of child"
    using savepoint_child [OF s1] "3.prems"(2) by (simp_all add: depth_of_def)
  have i1: "issues [ascii ''SAVEPOINT '' @ ?m] s s1"
    using savepoint_sent [OF _ s1] "3.prems"(3) child unfolding issues_def
    by (fastforce simp: accepting_def intro: exI [of _ "[req]" for req])
  have a1: "accepting (length (commands (d + 1) body) + Suc (length (commands d acts))) s1"
    by (rule issues_accepting [OF i1]) (use "3.prems"(3) in simp)
  from "3.IH"(1) [OF s2 child(3)] a1 have i2: "issues (commands (d + 1) body) s1 s2"
    by (simp add: accepting_def)
  have a2: "accepting (Suc (length (commands d acts))) s2" by (rule issues_accepting [OF i2 a1])
  have i3: "issues [finish_text fin child] s2 s3" by (rule sends_issues [OF sends_finish [OF child(2)] a2 s3])
  have "accepting (length (commands d acts)) s3" by (rule issues_accepting [OF i3]) (use a2 in simp)
  from "3.IH"(2) [OF s4 "3.prems"(2) this] have i4: "issues (commands d acts) s3 s'" .
  from issues_trans [OF i1 issues_trans [OF i2 issues_trans [OF i3 i4]]] show ?case
    by (cases fin) (simp_all add: finish_text_child [OF child(1)])
qed

section \<open>Programs that are answered\<close>

text \<open>A text the protocol can carry after any of the keywords, and a client whose next \<open>n\<close> requests the server answers with success.\<close>

definition sayable :: "bytes \<Rightarrow> bool" where
  "sayable q \<longleftrightarrow> 0 \<notin> set q \<and> length q + 16 \<le> max_body"

fun texts_ok :: "u32 \<Rightarrow> action list \<Rightarrow> bool" where
  "texts_ok depth [] \<longleftrightarrow> True"
| "texts_ok depth (Do q # acts) \<longleftrightarrow> sayable q \<and> texts_ok depth acts"
| "texts_ok depth (Nested name body fin # acts) \<longleftrightarrow>
     sayable (name_at (depth + 1) name) \<and> texts_ok (depth + 1) body \<and> texts_ok depth acts"

definition completes :: "backend_messages channel option \<Rightarrow> bool" where
  "completes a \<longleftrightarrow> (\<exists>ch tag z. a = Some ch \<and> answers_with ch [CommandComplete tag, ReadyForQuery z])"

definition answered :: "nat \<Rightarrow> inner_client \<Rightarrow> bool" where
  "answered n s \<longleftrightarrow> ic_buffer s = [] \<and> n \<le> length (ic_answers s) \<and> list_all completes (ic_answers s)"

lemma answered_accepting: "answered n s \<Longrightarrow> accepting n s"
  by (auto simp: answered_def accepting_def completes_def list_all_iff)

lemma sayable_query: "sayable q \<Longrightarrow> 0 \<notin> set p \<Longrightarrow> length p \<le> 12 \<Longrightarrow> \<exists>b. query (p @ q) [] = Inr b"
  using frames_query [of "p @ q"] by (auto simp: sayable_def frames_def cstr_bytes_def)

lemma batch_answered:
  assumes "simple_encode q [] = Inr b" "answered (Suc n) s"
  shows "\<exists>t. batch_execute q s = Some (Inr (), t) \<and> answered n t"
proof -
  obtain ch tag z rest where a: "ic_answers s = Some ch # rest" "answers_with ch [CommandComplete tag, ReadyForQuery z]"
    using assms(2) by (cases "ic_answers s") (auto simp: answered_def completes_def)
  let ?t = "after_request b s"
  have sent: "send_request (simple_encode q) s = Some (Inr (responses_new ch), ?t)"
    using send_request_ok [of "simple_encode q" s b ch rest] assms a by (simp add: answered_def)
  obtain r1 where r1: "await_next (responses_new ch) ?t = Some (Inr (CommandComplete tag, r1), ?t)" "holds r1 [ReadyForQuery z]"
    using await_next_holds [of "responses_new ch" "CommandComplete tag" "[ReadyForQuery z]" ?t] a by (auto simp: answers_with_def)
  obtain r2 where r2: "await_next r1 ?t = Some (Inr (ReadyForQuery z, r2), ?t)"
    using await_next_holds [of r1 "ReadyForQuery z" "[]" ?t] r1(2) by auto
  from r1(1) r2 have "batch_loop (responses_new ch) ?t = Some (Inr (), ?t)"
    by (simp add: batch_loop.simps [of "responses_new ch" ?t] batch_loop.simps [of r1 ?t])
  with sent have "batch_execute q s = Some (Inr (), ?t)" by (simp add: batch_execute_def)
  moreover have "answered n ?t" using assms(2) a by (simp add: answered_def after_request_def)
  ultimately show ?thesis by blast
qed

lemma batch_said:
  "sayable q \<Longrightarrow> 0 \<notin> set p \<Longrightarrow> length p \<le> 12 \<Longrightarrow> answered (Suc n) s \<Longrightarrow>
     \<exists>t. batch_execute (p @ q) s = Some (Inr (), t) \<and> answered n t"
  using batch_answered [of "p @ q" _ n s] sayable_query [of q p] by (auto simp: simple_encode_def encoding_def)

text \<open>The name of a savepoint; nothing for a transaction.\<close>

definition mark_name :: "transaction \<Rightarrow> bytes" where
  "mark_name tx = (case tx_savepoint tx of None \<Rightarrow> [] | Some sp \<Rightarrow> sp_name sp)"

lemma finish_query: "sayable (mark_name tx) \<Longrightarrow> \<exists>b. query (finish_text fin tx) [] = Inr b"
  using sayable_query [of "mark_name tx" "ascii ''RELEASE ''"] sayable_query [of "mark_name tx" "ascii ''ROLLBACK TO ''"]
    sayable_query [of "mark_name tx" "ascii ''COMMIT''"] sayable_query [of "mark_name tx" "ascii ''ROLLBACK''"]
  by (cases "tx_savepoint tx"; cases fin)
    (simp_all add: finish_text_def commit_text_def rollback_text_def mark_name_def ascii_def)

lemma finish_said:
  assumes "\<not> tx_done tx" "sayable (mark_name tx)" "answered (Suc n) s"
  shows "\<exists>t. end_with fin tx s = Some (Inr (), t) \<and> answered n t"
proof -
  obtain b where b: "query (finish_text fin tx) [] = Inr b" using finish_query [OF assms(2)] by blast
  have batch: "\<exists>t. batch_execute (finish_text fin tx) s = Some (Inr (), t) \<and> answered n t"
    using batch_answered [of "finish_text fin tx" b n s] b assms(3) by (simp add: simple_encode_def encoding_def)
  show ?thesis
  proof (cases fin)
    case Drops
    obtain a rest where a: "ic_answers s = Some a # rest" "ic_buffer s = []"
      using accepting_head [OF answered_accepting [OF assms(3)]] .
    with b Drops have "end_with fin tx s = Some (Inr (), after_request b s)"
      using assms(1) send_request_ok [of "\<lambda>buf. map_err (\<lambda>_. Panic) (query (finish_text fin tx) buf)" s b a rest]
      by (simp add: tx_drop_def private_rollback_def ignoring_closed_def finish_text_def)
    with assms(3) a show ?thesis by (auto simp: answered_def after_request_def)
  qed (use batch in \<open>simp_all add: finish_text_def tx_commit_def tx_rollback_def Let_def dropping_done commit_text_def\<close>)
qed

lemma savepoint_said:
  assumes "sayable (name_at (depth_of tx + 1) name)" "answered (Suc n) s"
  shows "\<exists>child t. private_savepoint name tx s = Some (Inr child, t) \<and> answered n t \<and>
    tx_savepoint child = Some \<lparr>sp_name = name_at (depth_of tx + 1) name, sp_depth = depth_of tx + 1\<rparr> \<and> \<not> tx_done child"
proof -
  have p: "0 \<notin> set (ascii ''SAVEPOINT '')" "length (ascii ''SAVEPOINT '') \<le> 12" by (simp_all add: ascii_def)
  from batch_said [OF assms(1) p assms(2)] obtain t where
    t: "batch_execute (ascii ''SAVEPOINT '' @ name_at (depth_of tx + 1) name) s = Some (Inr (), t)" "answered n t" by blast
  then have "\<exists>child. private_savepoint name tx s = Some (Inr child, t)"
    by (simp add: private_savepoint_def Let_def name_at_def depth_of_def flow_bind_def flow_ret_def)
  with savepoint_child t(2) show ?thesis by fastforce
qed

lemma flow_bind_step: "m s = Some (Inr x, t) \<Longrightarrow> flow_bind m k s = k x t"
  by (simp add: flow_bind_def)

lemma perform_returns:
  "answered (length (commands depth acts) + n) s \<Longrightarrow> depth = depth_of tx \<Longrightarrow> texts_ok depth acts \<Longrightarrow>
     \<exists>t. perform tx acts s = Some (Inr (), t) \<and> answered n t"
proof (induction depth acts arbitrary: tx s n rule: commands.induct)
  case (1 depth)
  then show ?case by (simp add: flow_ret_def)
next
  case (2 d q acts)
  then obtain t where "batch_execute q s = Some (Inr (), t)" "answered (length (commands d acts) + n) t"
    using batch_said [of q "[]" "length (commands d acts) + n" s] by auto
  with "2.IH" [of n t tx] "2.prems" show ?case by (simp add: flow_bind_step)
next
  case (3 d name body fin acts)
  let ?m = "name_at (d + 1) name"
  obtain child s1 where s1: "private_savepoint name tx s = Some (Inr child, s1)" "answered (length (commands (d + 1) body) + Suc (length (commands d acts) + n)) s1"
    and child: "tx_savepoint child = Some \<lparr>sp_name = ?m, sp_depth = d + 1\<rparr>" "\<not> tx_done child"
    using savepoint_said [of tx name "length (commands (d + 1) body) + Suc (length (commands d acts) + n)" s] "3.prems" by (auto simp: ac_simps)
  have "d + 1 = depth_of child" using child by (simp add: depth_of_def)
  from "3.IH"(1) [OF s1(2) this] "3.prems"(3) obtain s2 where
    s2: "perform child body s1 = Some (Inr (), s2)" "answered (Suc (length (commands d acts) + n)) s2" by auto
  have "sayable (mark_name child)" using child "3.prems"(3) by (simp add: mark_name_def)
  from finish_said [OF child(2) this s2(2), of fin] obtain s3 where
    s3: "end_with fin child s2 = Some (Inr (), s3)" "answered (length (commands d acts) + n) s3" by blast
  from "3.IH"(2) [OF s3(2) "3.prems"(2)] "3.prems"(3) s1(1) s2(1) s3(1) show ?case by (simp add: flow_bind_step)
qed

section \<open>Whole transactions\<close>

definition program_commands :: "transaction_builder \<Rightarrow> action list \<Rightarrow> finish \<Rightarrow> bytes list" where
  "program_commands tb acts fin = ascii (start_text tb) # commands 0 acts @ [finish_text fin tx_new]"

lemma depth_of_new: "depth_of tx_new = 0" "\<not> tx_done tx_new" "mark_name tx_new = []"
  by (simp_all add: depth_of_def tx_new_def mark_name_def)

lemma start_text_head: "\<exists>r. start_text tb = ''START TRANSACTION'' @ r \<and> length r \<le> 70 \<and> 0 \<notin> set (ascii r)"
proof -
  obtain iso ro df where tb: "tb = \<lparr>tb_isolation_level = iso, tb_read_only = ro, tb_deferrable = df\<rparr>" by (cases tb)
  show ?thesis
  proof (cases iso)
    case None
    then show ?thesis by (cases ro; cases df) (auto simp: tb start_text_def ascii_def)
  next
    case (Some level)
    then show ?thesis by (cases level; cases ro; cases df) (auto simp: tb start_text_def ascii_def)
  qed
qed

lemma command_of_start: "command_of (ascii (start_text tb)) = Start"
  using start_text_head [of tb] command_of_simps(6) by (elim exE conjE) (simp only:)

lemma program_returns:
  assumes "answered (length (program_commands tb acts fin)) s" "texts_ok 0 acts"
  shows "\<exists>t. program tb acts fin s = Some (Inr (), t) \<and> answered 0 t"
proof -
  obtain r where r: "start_text tb = ''START TRANSACTION'' @ r" "length r \<le> 70" "0 \<notin> set (ascii r)"
    using start_text_head by blast
  have "sayable (ascii (start_text tb))"
    using r by (auto simp: sayable_def ascii_def max_body_def)
  from batch_said [of _ "[]", OF this] assms(1) obtain s1 where
    s1: "batch_execute (ascii (start_text tb)) s = Some (Inr (), s1)" "answered (length (commands 0 acts) + 1) s1"
    by (auto simp: program_commands_def)
  from perform_returns [OF s1(2) depth_of_new(1) [symmetric] assms(2)] obtain s2 where
    s2: "perform tx_new acts s1 = Some (Inr (), s2)" "answered (Suc 0) s2" by auto
  have "sayable (mark_name tx_new)" by (simp add: depth_of_new sayable_def max_body_def)
  from finish_said [OF depth_of_new(2) this s2(2), of fin] obtain s3 where
    s3: "end_with fin tx_new s2 = Some (Inr (), s3)" "answered 0 s3" by blast
  from s1(1) have "builder_start tb s = Some (Inr tx_new, s1)" by (simp add: builder_start_def)
  with s2(1) s3 show ?thesis by (auto simp: program_def flow_bind_step)
qed

lemma program_issues:
  assumes "program tb acts fin s = Some (Inr (), s')" "accepting (length (program_commands tb acts fin)) s"
  shows "issues (program_commands tb acts fin) s s'"
proof -
  obtain tx s1 s2 where s1: "builder_start tb s = Some (Inr tx, s1)" and s2: "perform tx acts s1 = Some (Inr (), s2)"
    and s3: "end_with fin tx s2 = Some (Inr (), s')"
    using assms(1) by (auto simp: program_def elim!: flow_bind_returns)
  from s1 have tx: "tx = tx_new" and b: "batch_execute (ascii (start_text tb)) s = Some (Inr (), s1)"
    by (auto simp: builder_start_def dropping_def split: option.splits prod.splits sum.splits)
  have i1: "issues [ascii (start_text tb)] s s1"
    by (rule sends_issues [OF sends_batch _ b]) (use assms(2) in \<open>simp add: program_commands_def\<close>)
  have a1: "accepting (length (commands 0 acts) + 1) s1"
    by (rule issues_accepting [OF i1]) (use assms(2) in \<open>simp add: program_commands_def\<close>)
  have i2: "issues (commands 0 acts) s1 s2"
    by (rule perform_issues [OF s2]) (use a1 in \<open>simp_all add: tx depth_of_new accepting_def\<close>)
  have a2: "accepting (Suc 0) s2" using issues_accepting [OF i2 a1] by simp
  have i3: "issues [finish_text fin tx] s2 s'" by (rule sends_issues [OF sends_finish a2 s3]) (simp add: tx depth_of_new)
  from issues_trans [OF i1 issues_trans [OF i2 i3]] show ?thesis by (simp add: program_commands_def tx)
qed

lemma program_meaning:
  assumes "names_ok 0 acts" "sv_log sv = None"
  shows "server_run (program_commands tb acts fin) sv =
    Some (sv\<lparr>sv_committed := sv_committed sv @ (case fin of Commits \<Rightarrow> meaning acts [] | _ \<Rightarrow> []), sv_marks := []\<rparr>)"
proof -
  from commands_meaning [OF assms(1), of "sv\<lparr>sv_log := Some [], sv_marks := []\<rparr>" "[]"] obtain junk where
    "server_run (commands 0 acts) (sv\<lparr>sv_log := Some [], sv_marks := []\<rparr>) =
      Some (sv\<lparr>sv_log := Some (meaning acts []), sv_marks := junk\<rparr>)" by auto
  with assms(2) show ?thesis
    by (cases sv; cases fin)
      (simp_all add: program_commands_def command_of_start server_run_append finish_text_def commit_text_def rollback_text_def tx_new_def)
qed

section \<open>Names that are made, and names that are given twice\<close>

text \<open>A program that leaves the naming to the driver.\<close>

fun unnamed :: "action list \<Rightarrow> bool" where
  "unnamed [] \<longleftrightarrow> True"
| "unnamed (Do q # acts) \<longleftrightarrow> sayable q \<and> command_of q = Work q \<and> unnamed acts"
| "unnamed (Nested name body fin # acts) \<longleftrightarrow> name = None \<and> unnamed body \<and> unnamed acts"

lemma name_at_inj: "name_at d None = name_at e None \<Longrightarrow> d = e"
proof -
  assume "name_at d None = name_at e None"
  then have "ascii (show_nat (unat d)) = ascii (show_nat (unat e))" by (simp add: name_at_def) (simp add: ascii_def)
  then have "decimal (ascii (show_nat (unat d))) = decimal (ascii (show_nat (unat e)))" by simp
  then have "unat d = unat e" by (simp add: show_nat_decimal)
  then show ?thesis by (rule unsigned_word_eqI)
qed

lemma show_nat_length: "n < 10 ^ Suc k \<Longrightarrow> length (show_nat n) \<le> Suc k"
proof (induction k arbitrary: n)
  case (Suc k)
  then have "n div 10 < 10 ^ Suc k" by auto
  from Suc.IH [OF this] show ?case by (simp add: show_nat.simps [of n])
qed (simp add: show_nat.simps)

lemma sayable_name: "sayable (name_at d None)"
proof -
  have "unat d < 10 ^ Suc 9" using unsigned_less [where 'a = nat, of d] by simp
  from show_nat_length [OF this] show_nat_clean [of "unat d"] show ?thesis
    by (simp add: sayable_def name_at_def ascii_def max_body_def)
qed

lemma left_over_unnamed: "unnamed acts \<Longrightarrow> left_over d acts \<subseteq> {name_at (d + 1) None}"
  by (induction d acts rule: left_over.induct) (auto split: finish.splits)

lemma unnamed_names: "unnamed acts \<Longrightarrow> names_ok d acts"
proof (induction d acts rule: names_ok.induct)
  case (3 d name body fin acts)
  then have "name_at (d + 1) None \<notin> left_over (d + 1) body"
    using left_over_unnamed [of body "d + 1"] name_at_inj [of "d + 1" "d + 1 + 1"] by fastforce
  with 3 show ?case by simp
qed simp_all

lemma unnamed_texts: "unnamed acts \<Longrightarrow> texts_ok d acts"
  by (induction d acts rule: texts_ok.induct) (simp_all add: sayable_name)

section \<open>The properties\<close>

definition idle :: server where
  "idle = \<lparr>sv_committed = [], sv_log = None, sv_marks = []\<rparr>"

definition ok_answer :: "backend_messages channel" where
  "ok_answer = channel_of [CommandComplete (ascii ''OK''), ReadyForQuery (of_char CHR ''I'')]"

lemma ok_answer_holds: "answers_with ok_answer [CommandComplete (ascii ''OK''), ReadyForQuery (of_char CHR ''I'')]"
  unfolding ok_answer_def
  by (rule channel_of_answers)
    (simp add: sendable_def wf_message_def message_wire_def max_body_def frame_def wire_defs cstr_bytes_def ascii_def)

lemma ok_answered: "answered n (client_new (replicate n (Some ok_answer)))"
  using ok_answer_holds by (auto simp: answered_def client_new_def completes_def list_all_iff)

text \<open>
  C5: a program that runs transactions returns once the server has answered its requests, and a server that executes what it sent has committed
  exactly the work the program means: all of a transaction that was committed, less the nested ones that were rolled back or
  dropped, and nothing of one that was not; no transaction stays open.
\<close>

theorem transaction_effect:
  assumes "answered (length (program_commands tb acts fin)) s" "texts_ok 0 acts" "names_ok 0 acts" "sv_log sv = None"
  shows "\<exists>s' reqs qs. program tb acts fin s = Some (Inr (), s') \<and>
    ic_requests s' = ic_requests s @ reqs \<and> map request_text reqs = map Some qs \<and>
    server_run qs sv =
      Some (sv\<lparr>sv_committed := sv_committed sv @ (case fin of Commits \<Rightarrow> meaning acts [] | _ \<Rightarrow> []), sv_marks := []\<rparr>)"
proof -
  obtain s' where s': "program tb acts fin s = Some (Inr (), s')" using program_returns [OF assms(1,2)] by blast
  have "accepting (length (program_commands tb acts fin)) s" by (rule answered_accepting [OF assms(1)])
  from program_issues [OF s' this] obtain reqs where
    "map request_text reqs = map Some (program_commands tb acts fin)" "ic_requests s' = ic_requests s @ reqs"
    by (auto simp: issues_def)
  with s' program_meaning [OF assms(3,4)] show ?thesis by blast
qed

theorem transaction_effect_witness:
  "\<exists>s' reqs qs.
     program builder_new [Do (ascii ''a''), Nested None [Do (ascii ''b'')] Drops, Nested None [Do (ascii ''c'')] Commits] Commits
       (client_new (replicate 9 (Some ok_answer))) = Some (Inr (), s') \<and>
     ic_requests s' = ic_requests (client_new (replicate 9 (Some ok_answer))) @ reqs \<and> map request_text reqs = map Some qs \<and>
     server_run qs idle = Some (idle\<lparr>sv_committed := [ascii ''a'', ascii ''c'']\<rparr>)"
proof -
  let ?acts = "[Do (ascii ''a''), Nested None [Do (ascii ''b'')] Drops, Nested None [Do (ascii ''c'')] Commits]"
  have "unnamed ?acts" by (simp add: sayable_def max_body_def command_of_def strip_prefix_def ascii_def)
  moreover have "length (program_commands builder_new ?acts Commits) = 9" by (simp add: program_commands_def)
  ultimately show ?thesis
    using transaction_effect [of builder_new ?acts Commits "client_new (replicate 9 (Some ok_answer))" idle]
      ok_answered [of 9] unnamed_texts [of ?acts 0] unnamed_names [of ?acts 0]
    by (simp add: idle_def)
qed

text \<open>
  A nested transaction that has the name of a savepoint inside it that was rolled back does not roll back to its own beginning: the
  server still holds the inner savepoint and goes back to that one, and the work before it, here \<open>b\<close>, is committed with the rest.
\<close>

lemma same_name_keeps_work:
  assumes "sayable n"
  shows "\<exists>s' reqs qs.
     program builder_new [Do (ascii ''a''), Nested (Some n) [Do (ascii ''b''), Nested (Some n) [] Rolls_Back] Rolls_Back] Commits
       (client_new (replicate 8 (Some ok_answer))) = Some (Inr (), s') \<and>
     ic_requests s' = reqs \<and> map request_text reqs = map Some qs \<and>
     server_run qs idle = Some (idle\<lparr>sv_committed := [ascii ''a'', ascii ''b'']\<rparr>)"
proof -
  let ?acts = "[Do (ascii ''a''), Nested (Some n) [Do (ascii ''b''), Nested (Some n) [] Rolls_Back] Rolls_Back]"
  let ?s = "client_new (replicate 8 (Some ok_answer))"
  have n: "length (program_commands builder_new ?acts Commits) = 8" by (simp add: program_commands_def)
  have "texts_ok 0 ?acts" using assms by (simp add: sayable_def max_body_def ascii_def name_at_def)
  with ok_answered [of 8] n program_returns obtain s' where s': "program builder_new ?acts Commits ?s = Some (Inr (), s')"
    by metis
  from program_issues [OF s'] answered_accepting [OF ok_answered] n obtain reqs where
    r: "map request_text reqs = map Some (program_commands builder_new ?acts Commits)" "ic_requests s' = reqs"
    by (auto simp: issues_def client_new_def)
  have work: "command_of (ascii ''a'') = Work (ascii ''a'')" "command_of (ascii ''b'') = Work (ascii ''b'')"
    by (simp_all add: command_of_def strip_prefix_def ascii_def)
  have start: "command_of (ascii (start_text builder_new)) = Start" by (rule command_of_start)
  have "server_run (program_commands builder_new ?acts Commits) idle = Some (idle\<lparr>sv_committed := [ascii ''a'', ascii ''b'']\<rparr>)"
    by (simp add: program_commands_def work start idle_def back_to_def name_at_def finish_text_def commit_text_def tx_new_def)
  with s' r show ?thesis by blast
qed

theorem same_name_keeps_work_witness:
  "\<exists>s' reqs qs.
     program builder_new [Do (ascii ''a''), Nested (Some (ascii ''n'')) [Do (ascii ''b''), Nested (Some (ascii ''n'')) [] Rolls_Back] Rolls_Back]
       Commits (client_new (replicate 8 (Some ok_answer))) = Some (Inr (), s') \<and>
     ic_requests s' = reqs \<and> map request_text reqs = map Some qs \<and>
     server_run qs idle = Some (idle\<lparr>sv_committed := [ascii ''a'', ascii ''b'']\<rparr>)"
proof -
  have "sayable (ascii ''n'')" by (simp add: sayable_def max_body_def ascii_def)
  from same_name_keeps_work [OF this] show ?thesis .
qed

text \<open>
  A commit that the server answers with \<open>ROLLBACK\<close>, as it does when a statement of the transaction has failed, is reported as a success.
\<close>

lemma refused_commit_succeeds:
  assumes "ic_buffer s = []" "ic_answers s = [Some ch]" "answers_with ch [CommandComplete (ascii ''ROLLBACK''), ReadyForQuery z]"
  shows "\<exists>s'. tx_commit tx_new s = Some (Inr (), s')"
proof -
  have "answered (Suc 0) s" using assms by (auto simp: answered_def completes_def)
  moreover have "sayable (mark_name tx_new)" by (simp add: depth_of_new sayable_def max_body_def)
  ultimately show ?thesis using finish_said [OF depth_of_new(2), of 0 s Commits] by auto
qed

theorem refused_commit_succeeds_witness:
  "\<exists>s'. tx_commit tx_new (client_new [Some (channel_of [CommandComplete (ascii ''ROLLBACK''), ReadyForQuery (of_char CHR ''I'')])]) =
     Some (Inr (), s')"
proof -
  have "answers_with (channel_of [CommandComplete (ascii ''ROLLBACK''), ReadyForQuery (of_char CHR ''I'')])
      [CommandComplete (ascii ''ROLLBACK''), ReadyForQuery (of_char CHR ''I'')]"
    by (rule channel_of_answers)
      (simp add: sendable_def wf_message_def message_wire_def max_body_def frame_def wire_defs cstr_bytes_def ascii_def)
  from refused_commit_succeeds [OF _ _ this, of "client_new [Some (channel_of [CommandComplete (ascii ''ROLLBACK''), ReadyForQuery (of_char CHR ''I'')])]"]
  show ?thesis by (simp add: client_new_def)
qed

end
