(* ===== verification/Binary_Copy.thy ===== *)
theory Binary_Copy
  imports Copy_In Queries
begin

text \<open>
  The binary COPY format (\<open>binary_copy.rs\<close>): the writer collects rows in a buffer and passes it to the sink of a copy, and the stream
  takes rows out of the chunks of a copy. A value is what its \<open>ToSql\<close> object does with a type and a buffer: it
  appends to the buffer, also when it fails. Awaiting a poll that is never ready is \<open>None\<close>.
\<close>

section \<open>The writer\<close>

definition MAGIC :: bytes where
  "MAGIC = ascii ''PGCOPY'' @ [10, 255, 13, 10, 0]"

definition HEADER_LEN :: nat where
  "HEADER_LEN = length MAGIC + 4 + 4"

type_synonym copy_value = "pg_type \<Rightarrow> bytes \<Rightarrow> (sql_cause + is_null) \<times> bytes"

record copy_writer =
  cw_sink :: copy_in_sink
  cw_types :: "pg_type list"
  cw_buf :: bytes

definition copy_writer_new :: "copy_in_sink \<Rightarrow> pg_type list \<Rightarrow> copy_writer" where
  "copy_writer_new sink types =
     \<lparr>cw_sink = sink, cw_types = types, cw_buf = MAGIC @ be_word (0 :: i32) @ be_word (0 :: i32)\<rparr>"

text \<open>One value of a row: its length slot is patched when the value is there; \<open>BigEndian::write_i32\<close> panics when the slot is gone.\<close>

definition put_value :: "nat \<Rightarrow> copy_value \<Rightarrow> pg_type \<Rightarrow> bytes \<Rightarrow> (error fault + unit) \<times> bytes" where
  "put_value i value ty buf =
     (let idx = length buf;
          (r, buf) = value ty (buf @ be_word (0 :: i32))
      in (case r of
            Inl e \<Rightarrow> (Inl (Fault (E_ToSql (Box_Other e) i)), buf)
          | Inr null \<Rightarrow>
              (if length buf < idx + 4 then (Inl Panic, buf)
               else (case (case null of
                             Yes \<Rightarrow> Inr (- 1)
                           | No \<Rightarrow> map_err E_Encode (if length buf - idx - 4 \<le> 2147483647 then Inr (of_nat (length buf - idx - 4))
                                                    else Inl (Io_Error InvalidInput (Msg ''out of range''))))
                     of
                       Inl e \<Rightarrow> (Inl (Fault e), buf)
                     | Inr len \<Rightarrow> (Inr (), patch idx (be_word (len :: i32)) buf)))))"

fun put_values :: "nat \<Rightarrow> (copy_value \<times> pg_type) list \<Rightarrow> bytes \<Rightarrow> (error fault + unit) \<times> bytes" where
  "put_values i [] buf = (Inr (), buf)"
| "put_values i ((value, ty) # vs) buf =
     (case put_value i value ty buf of
        (Inl e, buf) \<Rightarrow> (Inl e, buf)
      | (Inr _, buf) \<Rightarrow> put_values (Suc i) vs buf)"

definition put_row :: "copy_value list \<Rightarrow> copy_writer \<Rightarrow> (error fault + unit) \<times> copy_writer" where
  "put_row values w =
     (if length values \<noteq> length (cw_types w) then (Inl Panic, w)
      else
        let (r, buf) = put_values 0 (zip values (cw_types w)) (cw_buf w @ be_word (of_nat (length (cw_types w)) :: i16))
        in (r, w\<lparr>cw_buf := buf\<rparr>))"

text \<open>Awaiting a poll.\<close>

partial_function (option) await_ready :: "('s \<Rightarrow> 'a poll \<times> 's) \<Rightarrow> 's \<Rightarrow> ('a \<times> 's) option" where
  "await_ready p s =
     (case p s of
        (Ready x, s) \<Rightarrow> Some (x, s)
      | (Pending, s) \<Rightarrow> await_ready p s)"

text \<open>\<open>SinkExt::send\<close>: the item is fed once the sink is ready, and the sink flushed.\<close>

definition sink_send :: "bytes \<Rightarrow> copy_in_sink \<Rightarrow> ((error + unit) \<times> copy_in_sink) option" where
  "sink_send item s =
     (case await_ready sink_poll_ready s of
        None \<Rightarrow> None
      | Some (Inl e, s) \<Rightarrow> Some (Inl e, s)
      | Some (Inr _, s) \<Rightarrow>
          (case sink_start_send item s of
             (Inl e, s) \<Rightarrow> Some (Inl e, s)
           | (Inr _, s) \<Rightarrow> await_ready sink_poll_flush s))"

definition writer_send :: "copy_writer \<Rightarrow> ((error fault + unit) \<times> copy_writer) option" where
  "writer_send w =
     (case sink_send (cw_buf w) (cw_sink w) of
        None \<Rightarrow> None
      | Some (r, s) \<Rightarrow> Some (map_err Fault r, w\<lparr>cw_buf := [], cw_sink := s\<rparr>))"

definition write_raw :: "copy_value list \<Rightarrow> copy_writer \<Rightarrow> ((error fault + unit) \<times> copy_writer) option" where
  "write_raw values w =
     (case put_row values w of
        (Inl e, w) \<Rightarrow> Some (Inl e, w)
      | (Inr _, w) \<Rightarrow> if length (cw_buf w) > 4096 then writer_send w else Some (Inr (), w))"

definition writer_finish :: "copy_writer \<Rightarrow> ((error fault + u64) \<times> copy_writer) option" where
  "writer_finish w =
     (case writer_send (w\<lparr>cw_buf := cw_buf w @ be_word (- 1 :: i16)\<rparr>) of
        None \<Rightarrow> None
      | Some (Inl e, w) \<Rightarrow> Some (Inl e, w)
      | Some (Inr _, w) \<Rightarrow>
          (case await_ready sink_poll_finish (cw_sink w) of
             None \<Rightarrow> None
           | Some (r, s) \<Rightarrow> Some (map_err Fault r, w\<lparr>cw_sink := s\<rparr>)))"

section \<open>The stream\<close>

text \<open>
  \<open>Cursor<Bytes>\<close>: a buffer and a position. The readers of \<open>Buf\<close> panic when too little is left; every one comes after a check.
\<close>

type_synonym cursor = "bytes \<times> nat"

definition remaining :: "cursor \<Rightarrow> nat" where
  "remaining c = length (fst c) - snd c"

definition check_remaining :: "cursor \<Rightarrow> nat \<Rightarrow> error fault + unit" where
  "check_remaining c len =
     (if remaining c < len then Inl (Fault (E_Parse (Io_Error UnexpectedEof (Msg ''unexpected EOF'')))) else Inr ())"

definition cur_advance :: "nat \<Rightarrow> cursor \<Rightarrow> error fault + cursor" where
  "cur_advance n c = (if n > remaining c then Inl Panic else Inr (fst c, snd c + n))"

definition cur_get :: "cursor \<Rightarrow> error fault + ('a::len word \<times> cursor)" where
  "cur_get c =
     (case read_be (drop (snd c) (fst c)) of
        Inl _ \<Rightarrow> Inl Panic
      | Inr (x, _) \<Rightarrow> Inr (x, (fst c, snd c + LENGTH('a) div 8)))"

record copy_out_rows =
  co_stream :: responses
  co_types :: "pg_type list"
  co_header :: "bool option"

definition copy_out_rows_new :: "responses \<Rightarrow> pg_type list \<Rightarrow> copy_out_rows" where
  "copy_out_rows_new stream types = \<lparr>co_stream = stream, co_types = types, co_header = None\<rparr>"

record binary_row =
  br_buf :: bytes
  br_ranges :: "range list"
  br_types :: "pg_type list"

definition starts_with :: "bytes \<Rightarrow> bytes \<Rightarrow> bool" where
  "starts_with p b \<longleftrightarrow> take (length p) b = p"

text \<open>The header of a copy: whether the rows have object ids; a header extension is passed over.\<close>

definition read_header :: "cursor \<Rightarrow> error fault + bool \<times> cursor" where
  "read_header c =
     bind_res (check_remaining c HEADER_LEN) (\<lambda>_.
     if \<not> starts_with MAGIC (drop (snd c) (fst c))
     then Inl (Fault (E_Parse (Io_Error InvalidData (Msg ''invalid magic value''))))
     else
       bind_res (cur_advance (length MAGIC) c) (\<lambda>c.
       bind_res (cur_get c) (\<lambda>(flags :: i32, c).
       bind_res (cur_get c) (\<lambda>(header_extension :: u32, c).
       bind_res (check_remaining c (unat header_extension)) (\<lambda>_.
       bind_res (cur_advance (unat header_extension) c) (\<lambda>c.
       Inr (bit flags 16, c)))))))"

text \<open>The ranges of the values; \<open>as usize\<close> of a negative length is a length nothing has.\<close>

definition as_usize :: "'a::len word \<Rightarrow> nat" where
  "as_usize x = nat (sint x mod 2 ^ 64)"

fun read_ranges :: "nat \<Rightarrow> cursor \<Rightarrow> error fault + range list" where
  "read_ranges 0 c = Inr []"
| "read_ranges (Suc n) c =
     bind_res (check_remaining c 4) (\<lambda>_.
     bind_res (cur_get c) (\<lambda>(len :: i32, c).
     if len = - 1 then bind_res (read_ranges n c) (\<lambda>rs. Inr (None # rs))
     else
       bind_res (check_remaining c (as_usize len)) (\<lambda>_.
       bind_res (cur_advance (as_usize len) c) (\<lambda>c'.
       bind_res (read_ranges n c') (\<lambda>rs. Inr (Some (snd c, snd c + as_usize len) # rs))))))"

text \<open>One chunk, after the header: the row, or the end of the copy. The count wraps when it is incremented.\<close>

definition read_row :: "bool \<Rightarrow> pg_type list \<Rightarrow> cursor \<Rightarrow> error fault + binary_row option" where
  "read_row has_oids types c =
     bind_res (check_remaining c 2) (\<lambda>_.
     bind_res (cur_get c) (\<lambda>(len :: i16, c).
     if len = - 1 then Inr None
     else
       let len = (if has_oids then len + 1 else len)
       in if as_usize len \<noteq> length types
          then Inl (Fault (E_Parse (Io_Error InvalidInput (Msg ''expected {} values but got {}''))))
          else bind_res (read_ranges (as_usize len) c) (\<lambda>ranges.
               Inr (Some \<lparr>br_buf = fst c, br_ranges = ranges, br_types = types\<rparr>))))"

definition read_chunk :: "bytes \<Rightarrow> copy_out_rows \<Rightarrow> (error fault + binary_row option) \<times> copy_out_rows" where
  "read_chunk chunk t =
     (case co_header t of
        Some has_oids \<Rightarrow> (read_row has_oids (co_types t) (chunk, 0), t)
      | None \<Rightarrow>
          (case read_header (chunk, 0) of
             Inl e \<Rightarrow> (Inl e, t)
           | Inr (has_oids, c) \<Rightarrow> (read_row has_oids (co_types t) c, t\<lparr>co_header := Some has_oids\<rparr>)))"

text \<open>An item of a stream: a row, its end, or an error.\<close>

definition item_row :: "error fault + 'a option \<Rightarrow> 'a item" where
  "item_row r = (case r of Inl e \<Rightarrow> Some (Inl e) | Inr None \<Rightarrow> None | Inr (Some x) \<Rightarrow> Some (Inr x))"

definition binary_poll_next :: "copy_out_rows \<Rightarrow> binary_row item poll \<times> copy_out_rows" where
  "binary_poll_next t =
     (let (r, s) = copy_out_poll_next (co_stream t); t = t\<lparr>co_stream := s\<rparr>
      in (case r of
            Pending \<Rightarrow> (Pending, t)
          | Ready (Some (Inr chunk)) \<Rightarrow> (let (x, t) = read_chunk chunk t in (Ready (item_row x), t))
          | Ready (Some (Inl e)) \<Rightarrow> (Ready (Some (Inl e)), t)
          | Ready None \<Rightarrow> (item_fail E_Closed, t)))"

definition binary_try_get :: "'a from_sql \<Rightarrow> nat \<Rightarrow> binary_row \<Rightarrow> error fault + 'a" where
  "binary_try_get f idx r =
     (if idx \<ge> length (br_types r) then Inl (Fault (E_Column (ascii (show_nat idx))))
      else
        let ty = br_types r ! idx
        in if \<not> fs_accepts f ty then Inl (Fault (E_FromSql Wrong_Type idx))
           else bind_res (value_at (br_buf r) (br_ranges r) idx) (\<lambda>raw.
                map_err (\<lambda>e. Fault (E_FromSql e idx)) (from_sql_nullable f ty raw)))"

definition binary_get :: "'a from_sql \<Rightarrow> nat \<Rightarrow> binary_row \<Rightarrow> 'a option" where
  "binary_get f idx r = (case binary_try_get f idx r of Inr x \<Rightarrow> Some x | Inl _ \<Rightarrow> None)"

end
