(* ===== verification/Binary_Copy_Laws.thy ===== *)
theory Binary_Copy_Laws
  imports Binary_Copy Query_Laws
begin

text \<open>
  The file a binary copy writes, written from the format's description: the writer delivers exactly this file, the stream reads
  back its rows, and no chunk makes the stream or its rows panic.
\<close>

section \<open>The file\<close>

definition header_bytes :: bytes where
  "header_bytes = MAGIC @ be_word (0 :: i32) @ be_word (0 :: i32)"

definition row_bytes :: "bytes option list \<Rightarrow> bytes" where
  "row_bytes vs = be_word (of_nat (length vs) :: i16) @ concat (map nullable_bytes vs)"

definition trailer_bytes :: bytes where
  "trailer_bytes = be_word (- 1 :: i16)"

definition copy_file :: "bytes option list list \<Rightarrow> bytes" where
  "copy_file rows = header_bytes @ concat (map row_bytes rows) @ trailer_bytes"

section \<open>Writing\<close>

text \<open>A value that converts to \<open>x\<close>.\<close>

definition copies :: "copy_value \<times> pg_type \<Rightarrow> bytes option \<Rightarrow> bool" where
  "copies v x \<longleftrightarrow> fits_i32 x \<and>
     (\<forall>buf. fst v (snd v) buf = (case x of None \<Rightarrow> (Inr Yes, buf) | Some d \<Rightarrow> (Inr No, buf @ d)))"

lemma put_value_ok: "copies (v, ty) x \<Longrightarrow> put_value i v ty buf = (Inr (), buf @ nullable_bytes x)"
  by (cases x) (simp_all add: copies_def put_value_def fits_i32_def nullable_bytes_def Let_def)

lemma put_values_ok: "list_all2 copies vs xs \<Longrightarrow> put_values i vs buf = (Inr (), buf @ concat (map nullable_bytes xs))"
proof (induction vs xs arbitrary: i buf rule: list_all2_induct)
  case (Cons v vs x xs)
  then show ?case by (cases v) (simp add: put_value_ok)
qed simp

lemma put_row_ok:
  assumes "length values = length (cw_types w)" "list_all2 copies (zip values (cw_types w)) xs"
  shows "put_row values w = (Inr (), w\<lparr>cw_buf := cw_buf w @ row_bytes xs\<rparr>)"
proof -
  have "length xs = length (cw_types w)" using assms list_all2_lengthD by fastforce
  with assms show ?thesis by (simp add: put_row_def put_values_ok row_bytes_def)
qed

lemma await_ready_ends:
  fixes p :: "'s \<Rightarrow> 'a poll \<times> 's"
  assumes "await_ready p s = Some r" "I s" "\<And>t t'. I t \<Longrightarrow> p t = (Pending, t') \<Longrightarrow> I t'"
  shows "\<exists>t. I t \<and> p t = (Ready (fst r), snd r)"
proof -
  have "(\<forall>t t'. I t \<longrightarrow> p t = (Pending, t') \<longrightarrow> I t') \<longrightarrow> I s \<longrightarrow> (\<exists>t. I t \<and> p t = (Ready (fst r), snd r))"
  proof (rule await_ready.raw_induct [OF _ assms(1)], intro impI)
    fix f and p :: "'s \<Rightarrow> 'a poll \<times> 's" and s and r :: "'a \<times> 's"
    assume IH: "\<And>p s (r :: 'a \<times> 's). f p s = Some r \<Longrightarrow>
        (\<forall>t t'. I t \<longrightarrow> p t = (Pending, t') \<longrightarrow> I t') \<longrightarrow> I s \<longrightarrow> (\<exists>t. I t \<and> p t = (Ready (fst r), snd r))"
      and body: "(case p s of (Ready x, s) \<Rightarrow> Some (x, s) | (Pending, s) \<Rightarrow> f p s) = Some r"
      and keep: "\<forall>t t'. I t \<longrightarrow> p t = (Pending, t') \<longrightarrow> I t'" and s: "I s"
    obtain q s1 where q: "p s = (q, s1)" by (cases "p s")
    show "\<exists>t. I t \<and> p t = (Ready (fst r), snd r)"
    proof (cases q)
      case (Ready x)
      with body q s show ?thesis by auto
    next
      case Pending
      with body q keep s IH [of p s1 r] show ?thesis by auto
    qed
  qed
  with assms(2,3) show ?thesis by blast
qed

lemma await_ready_now: "p s = (Ready x, s') \<Longrightarrow> await_ready p s = Some (x, s')"
  by (simp add: await_ready.simps [of p s])

lemma await_ready_same: "p s = p t \<Longrightarrow> await_ready p s = await_ready p t"
  by (simp add: await_ready.simps [of p s] await_ready.simps [of p t])

lemma await_ready_keeps:
  assumes "await_ready p s = Some (x, s')" "I s"
    and "\<And>t t' r. I t \<Longrightarrow> p t = (r, t') \<Longrightarrow> r = Pending \<or> r = Ready x \<Longrightarrow> I t'"
  shows "I s'"
proof -
  have pending: "I t'" if "I t" "p t = (Pending, t')" for t t' using assms(3) that by blast
  have "\<exists>t. I t \<and> p t = (Ready (fst (x, s')), snd (x, s'))"
    by (rule await_ready_ends [where I = I, OF assms(1,2)]) (rule pending)
  then obtain t where "I t" "p t = (Ready x, s')" by auto
  with assms(3) show ?thesis by blast
qed

section \<open>The writer delivers the file\<close>

definition active_at :: "frontend_message \<Rightarrow> bytes \<Rightarrow> copy_in_sink \<Rightarrow> bool" where
  "active_at q fed s \<longleftrightarrow> sink_inv q fed s \<and> sk_state s = Sink_Active"

lemma active_polls:
  "active_at q fed s \<Longrightarrow> sink_poll_ready s = (r, s') \<Longrightarrow> active_at q fed s'"
  "active_at q fed s \<Longrightarrow> sink_poll_flush s = (r, s') \<Longrightarrow> r = Pending \<or> r = Ready (Inr ()) \<Longrightarrow> active_at q fed s'"
  "active_at q fed s \<Longrightarrow> sink_start_send item s = (Inr (), s') \<Longrightarrow> active_at q (fed @ item) s'"
proof -
  show "active_at q fed s \<Longrightarrow> sink_poll_ready s = (r, s') \<Longrightarrow> active_at q fed s'"
    using sink_ready_inv [of s r s' q fed] by (simp add: active_at_def)
  show "active_at q fed s \<Longrightarrow> sink_poll_flush s = (r, s') \<Longrightarrow> r = Pending \<or> r = Ready (Inr ()) \<Longrightarrow> active_at q fed s'"
    using sink_flush_inv [of q fed s r s'] by (auto simp: active_at_def no_error_def)
  show "active_at q fed s \<Longrightarrow> sink_start_send item s = (Inr (), s') \<Longrightarrow> active_at q (fed @ item) s'"
    using start_send_inv [of q fed s item s'] by (simp add: active_at_def)
qed

lemma sink_send_inv:
  assumes "sink_send item s = Some (Inr (), s')" "active_at q fed s"
  shows "active_at q (fed @ item) s'"
proof -
  obtain s1 where s1: "await_ready sink_poll_ready s = Some (Inr (), s1)"
    using assms(1) by (auto simp: sink_send_def split: option.splits prod.splits sum.splits)
  obtain s2 where s2: "sink_start_send item s1 = (Inr (), s2)" "await_ready sink_poll_flush s2 = Some (Inr (), s')"
    using assms(1) s1 by (auto simp: sink_send_def split: prod.splits sum.splits)
  have "active_at q fed s1" by (rule await_ready_keeps [OF s1]) (use assms(2) active_polls(1) in blast)+
  from active_polls(3) [OF this s2(1)] have "active_at q (fed @ item) s2" .
  then show ?thesis by (rule await_ready_keeps [OF s2(2)]) (use active_polls(2) in blast)
qed

text \<open>The writer after the rows \<open>rows\<close>: what the sink has been fed and what is still in the buffer is the beginning of the file.\<close>

definition writer_at :: "frontend_message \<Rightarrow> bytes option list list \<Rightarrow> copy_writer \<Rightarrow> bool" where
  "writer_at q rows w \<longleftrightarrow> (\<exists>fed. active_at q fed (cw_sink w) \<and>
     fed @ cw_buf w = header_bytes @ concat (map row_bytes rows))"

lemma writer_send_at:
  assumes "writer_at q rows w" "writer_send w = Some (Inr (), w')"
  shows "writer_at q rows w' \<and> cw_types w' = cw_types w \<and> cw_buf w' = []"
proof -
  obtain fed where fed: "active_at q fed (cw_sink w)"
    "fed @ cw_buf w = header_bytes @ concat (map row_bytes rows)"
    using assms(1) by (auto simp: writer_at_def)
  obtain s where s: "sink_send (cw_buf w) (cw_sink w) = Some (Inr (), s)" "w' = w\<lparr>cw_buf := [], cw_sink := s\<rparr>"
    using assms(2) by (auto simp: writer_send_def map_err_def split: option.splits prod.splits sum.splits)
  from sink_send_inv [OF s(1) fed(1)] s(2) fed(2) show ?thesis by (auto simp: writer_at_def)
qed

lemma write_raw_at:
  assumes "writer_at q rows w" "length values = length (cw_types w)" "list_all2 copies (zip values (cw_types w)) xs"
    and "write_raw values w = Some (Inr (), w')"
  shows "writer_at q (rows @ [xs]) w' \<and> cw_types w' = cw_types w"
proof -
  let ?w = "w\<lparr>cw_buf := cw_buf w @ row_bytes xs\<rparr>"
  have row: "put_row values w = (Inr (), ?w)" by (rule put_row_ok [OF assms(2,3)])
  have at: "writer_at q (rows @ [xs]) ?w"
    using assms(1) by (auto simp: writer_at_def append_assoc [symmetric] simp del: append_assoc)
  show ?thesis
  proof (cases "length (cw_buf ?w) > 4096")
    case True
    with assms(4) row have "writer_send ?w = Some (Inr (), w')" by (simp add: write_raw_def)
    from writer_send_at [OF at this] show ?thesis by simp
  next
    case False
    with assms(4) row have "w' = ?w" by (simp add: write_raw_def)
    with at show ?thesis by simp
  qed
qed

lemma finish_reads: "sink_poll_finish s = (Ready (Inr n), s') \<Longrightarrow> sk_state s' = Sink_Reading"
proof -
  have reading: "sk_state t' = sk_state t" if "finish_reading t = (r, t')" for t t' r
    using that finish_reading_keeps [of t] by simp
  have closing: "sk_state t' = Sink_Reading" if "finish_closing t = (Ready (Inr n), t')" for t t'
    using that by (auto simp: finish_closing_def Let_def dest!: reading split: prod.splits poll.splits sum.splits)
  show "sink_poll_finish s = (Ready (Inr n), s') \<Longrightarrow> sk_state s' = Sink_Reading"
    by (auto simp: sink_poll_finish_def finish_active_def dest: reading closing
        split: sink_state.splits prod.splits poll.splits sum.splits)
qed

lemma finish_sent:
  assumes "active_at q fed s" "await_ready sink_poll_finish s = Some (Inr n, s')"
  shows "\<exists>blocks. sd_sent (sk_sender s') = data_sent q blocks @ [Copy_Done] \<and>
    list_all (\<lambda>b. b \<noteq> [] \<and> length b \<le> max_body) blocks \<and> concat blocks = fed"
proof -
  have inv: "sink_inv q fed s" using assms(1) by (simp add: active_at_def)
  have keep: "sink_inv q fed t'" if "sink_inv q fed t" "sink_poll_finish t = (r, t')" "r = Pending \<or> r = Ready (Inr n)" for t t' r
    by (rule finish_inv [OF that(1,2)]) (use that(3) in \<open>auto simp: no_error_def\<close>)
  have "sink_inv q fed s'" by (rule await_ready_keeps [OF assms(2), where I = "sink_inv q fed"]) (use inv keep in blast)+
  moreover have "\<exists>t. True \<and> sink_poll_finish t = (Ready (Inr n), s')" using await_ready_ends [OF assms(2), of "\<lambda>_. True"] by simp
  then have "sk_state s' = Sink_Reading" using finish_reads by blast
  ultimately show ?thesis by (auto simp: sink_inv_def)
qed

lemma finish_at:
  assumes "writer_at q rows w" "writer_finish w = Some (Inr n, w')"
  shows "\<exists>blocks. sd_sent (sk_sender (cw_sink w')) = data_sent q blocks @ [Copy_Done] \<and>
    list_all (\<lambda>b. b \<noteq> [] \<and> length b \<le> max_body) blocks \<and> concat blocks = copy_file rows"
proof -
  let ?w = "w\<lparr>cw_buf := cw_buf w @ be_word (- 1 :: i16)\<rparr>"
  obtain fed where fed: "active_at q fed (cw_sink w)" "fed @ cw_buf w = header_bytes @ concat (map row_bytes rows)"
    using assms(1) by (auto simp: writer_at_def)
  have whole: "fed @ cw_buf ?w = copy_file rows"
    using fed(2) by (simp add: copy_file_def trailer_bytes_def append_assoc [symmetric] del: append_assoc)
  obtain s s' where s: "sink_send (cw_buf ?w) (cw_sink w) = Some (Inr (), s)" "await_ready sink_poll_finish s = Some (Inr n, s')"
    "cw_sink w' = s'"
    using assms(2) by (auto simp: writer_finish_def writer_send_def map_err_def split: option.splits prod.splits sum.splits)
  have "active_at q (copy_file rows) s" using sink_send_inv [OF s(1) fed(1)] whole by simp
  from finish_sent [OF this s(2)] show ?thesis by (simp add: s(3))
qed

section \<open>Reading\<close>

lemma cur_get_word:
  "8 dvd LENGTH('a::len) \<Longrightarrow> drop p b = be_word (w :: 'a word) @ r \<Longrightarrow> cur_get (b, p) = Inr (w, (b, p + LENGTH('a) div 8))"
  by (simp add: cur_get_def)

lemma check_rest: "check_remaining (b, p) n = (if length (drop p b) < n then
    Inl (Fault (E_Parse (Io_Error UnexpectedEof (Msg ''unexpected EOF'')))) else Inr ())"
  by (simp add: check_remaining_def remaining_def)

lemma advance_rest: "cur_advance n (b, p) = (if n > length (drop p b) then Inl Panic else Inr (b, p + n))"
  by (simp add: cur_advance_def remaining_def)

lemma drop_next: "drop p b = x @ r \<Longrightarrow> drop (p + length x) b = r"
  by (metis add.commute append_eq_conv_conj drop_drop)

lemma as_usize_of_nat: "n \<le> 2147483647 \<Longrightarrow> as_usize (of_nat n :: i32) = n"
  by (simp add: as_usize_def)

lemma not_null_length: "n \<le> 2147483647 \<Longrightarrow> (of_nat n :: i32) \<noteq> - 1"
proof
  assume "n \<le> 2147483647" "(of_nat n :: i32) = - 1"
  then have "int n = sint (- 1 :: i32)" by (metis sint_of_nat_i32)
  then show False by simp
qed

lemma read_ranges_ok:
  "drop p b = concat (map nullable_bytes vs) @ r \<Longrightarrow> list_all fits_i32 vs \<Longrightarrow> read_ranges (length vs) (b, p) = Inr (ranges_of p vs)"
proof (induction vs arbitrary: p)
  case (Cons v vs)
  let ?rest = "concat (map nullable_bytes vs) @ r"
  show ?case
  proof (cases v)
    case None
    then have d: "drop p b = be_word (- 1 :: i32) @ ?rest" using Cons.prems(1) by (simp add: nullable_bytes_def [of None])
    have n: "drop (p + 4) b = ?rest" using drop_next [OF d] by simp
    have "length (drop p b) \<ge> 4" by (subst d) simp
    then show ?thesis
      using cur_get_word [OF _ d] Cons.IH [OF n] Cons.prems(2) None by (simp add: check_rest del: length_drop)
  next
    case (Some x)
    let ?len = "of_nat (length x) :: i32"
    have d: "drop p b = be_word ?len @ x @ ?rest" using Cons.prems(1) Some by (simp add: nullable_bytes_def [of "Some x"])
    have n: "drop (p + 4) b = x @ ?rest" using drop_next [OF d] by simp
    have n2: "drop (p + 4 + length x) b = ?rest" using drop_next [OF n] by simp
    have l: "length (drop p b) \<ge> 4" "length (drop (p + 4) b) \<ge> length x" by (subst d, simp) (subst n, simp)
    have x: "length x \<le> 2147483647" using Cons.prems(2) Some by (simp add: fits_i32_def)
    from cur_get_word [OF _ d] Cons.IH [OF n2] Cons.prems(2) l x Some show ?thesis
      by (simp add: check_rest advance_rest as_usize_of_nat not_null_length del: length_drop)
  qed
qed simp

lemma as_usize_count: "n \<le> 32767 \<Longrightarrow> as_usize (of_nat n :: i16) = n \<and> (of_nat n :: i16) \<noteq> - 1"
proof -
  assume n: "n \<le> 32767"
  then have s: "sint (of_nat n :: i16) = int n" by (simp add: signed_of_nat signed_take_bit_int_eq_self)
  moreover have "sint (- 1 :: i16) \<noteq> int n" by simp
  moreover have "int n mod 18446744073709551616 = int n" using n by simp
  ultimately show ?thesis by (auto simp: as_usize_def)
qed

lemma read_row_ok:
  assumes "drop p b = row_bytes vs @ r" "list_all fits_i32 vs" "length vs = length types" "length vs \<le> 32767"
  shows "read_row False types (b, p) = Inr (Some \<lparr>br_buf = b, br_ranges = ranges_of (p + 2) vs, br_types = types\<rparr>)"
proof -
  have d: "drop p b = be_word (of_nat (length vs) :: i16) @ concat (map nullable_bytes vs) @ r"
    using assms(1) by (simp add: row_bytes_def)
  have n: "drop (p + 2) b = concat (map nullable_bytes vs) @ r" using drop_next [OF d] by simp
  have "length (drop p b) \<ge> 2" by (subst d) simp
  with cur_get_word [OF _ d] read_ranges_ok [OF n assms(2)] as_usize_count [OF assms(4)] assms(3) show ?thesis
    by (simp add: read_row_def check_rest del: length_drop)
qed

lemma read_trailer: "read_row oids types (trailer_bytes, 0) = Inr None"
  using cur_get_word [of 0 trailer_bytes "- 1 :: i16" "[]"]
  by (simp add: read_row_def check_rest trailer_bytes_def)

lemma read_header_ok: "read_header (header_bytes @ r, 0) = Inr (False, (header_bytes @ r, HEADER_LEN))"
proof -
  let ?b = "header_bytes @ r"
  have d: "drop (length MAGIC) ?b = be_word (0 :: i32) @ be_word (0 :: u32) @ r"
    "drop (length MAGIC + 4) ?b = be_word (0 :: u32) @ r" by (simp_all add: header_bytes_def)
  from cur_get_word [OF _ d(1)] cur_get_word [OF _ d(2)] show ?thesis
    by (simp add: read_header_def check_rest advance_rest starts_with_def HEADER_LEN_def) (simp add: header_bytes_def)
qed

section \<open>No chunk makes the stream panic\<close>

lemma cur_get_safe:
  "LENGTH('a::len) div 8 \<le> length (drop p b) \<Longrightarrow>
     \<exists>w :: 'a word. cur_get (b, p) = Inr (w, (b, p + LENGTH('a) div 8))"
  by (auto simp: cur_get_def read_be_def read_exact_def)

text \<open>Ranges in the buffer, one for each value.\<close>

definition ranges_in :: "bytes \<Rightarrow> range list \<Rightarrow> bool" where
  "ranges_in b rs \<longleftrightarrow> list_all (\<lambda>r. case r of None \<Rightarrow> True | Some (x, y) \<Rightarrow> x \<le> y \<and> y \<le> length b) rs"

lemma read_ranges_safe:
  "read_ranges n (b, p) \<noteq> Inl Panic \<and> (\<forall>rs. read_ranges n (b, p) = Inr rs \<longrightarrow> length rs = n \<and> ranges_in b rs)"
proof (induction n arbitrary: p)
  case (Suc n)
  show ?case
  proof (cases "4 \<le> length (drop p b)")
    case True
    then obtain l :: i32 where l: "cur_get (b, p) = Inr (l, (b, p + 4))"
      using cur_get_safe [where 'a = 32, of p b] by auto
    show ?thesis
    proof (cases "l = - 1")
      case True
      with l \<open>4 \<le> length (drop p b)\<close> Suc.IH [of "p + 4"] show ?thesis
        by (cases "read_ranges n (b, p + 4)") (auto simp: check_rest ranges_in_def simp del: length_drop)
    next
      case False
      with l \<open>4 \<le> length (drop p b)\<close> Suc.IH [of "p + 4 + as_usize l"] show ?thesis
        by (cases "read_ranges n (b, p + 4 + as_usize l)") (auto simp: check_rest advance_rest ranges_in_def)
    qed
  qed (simp add: check_rest)
qed (simp add: ranges_in_def)

lemma read_row_safe:
  "read_row oids types (b, p) \<noteq> Inl Panic \<and>
   (\<forall>row. read_row oids types (b, p) = Inr (Some row) \<longrightarrow>
     length (br_ranges row) = length types \<and> ranges_in (br_buf row) (br_ranges row) \<and> br_types row = types)"
proof (cases "2 \<le> length (drop p b)")
  case True
  then obtain l :: i16 where l: "cur_get (b, p) = Inr (l, (b, p + 2))"
    using cur_get_safe [where 'a = 16, of p b] by auto
  from True read_ranges_safe [of "as_usize (if oids then l + 1 else l)" b "p + 2"] show ?thesis
    by (cases "read_ranges (as_usize (if oids then l + 1 else l)) (b, p + 2)")
      (auto simp: read_row_def check_rest l Let_def)
qed (simp add: read_row_def check_rest)

lemma read_header_safe: "read_header (b, 0) \<noteq> Inl Panic \<and> (\<forall>x c. read_header (b, 0) = Inr (x, c) \<longrightarrow> fst c = b)"
proof (cases "HEADER_LEN \<le> length b")
  case True
  then have l: "length MAGIC + 8 \<le> length b" by (simp add: HEADER_LEN_def)
  then have "4 \<le> length b - length MAGIC" "4 \<le> length b - (length MAGIC + 4)" by linarith+
  then obtain x :: i32 where x: "cur_get (b, length MAGIC) = Inr (x, (b, length MAGIC + 4))"
    using cur_get_safe [where 'a = 32, of "length MAGIC" b] by auto
  from \<open>4 \<le> length b - (length MAGIC + 4)\<close> obtain y :: u32 where y: "cur_get (b, length MAGIC + 4) = Inr (y, (b, length MAGIC + 8))"
    using cur_get_safe [where 'a = 32, of "length MAGIC + 4" b] by auto
  from True l x y show ?thesis by (auto simp: read_header_def check_rest advance_rest)
qed (simp add: read_header_def check_rest)

lemma binary_try_get_safe:
  assumes "length (br_ranges row) = length (br_types row)" "ranges_in (br_buf row) (br_ranges row)"
  shows "binary_try_get f i row \<noteq> Inl Panic"
proof (cases "i < length (br_types row)")
  case True
  then have "case br_ranges row ! i of None \<Rightarrow> True | Some (x, y) \<Rightarrow> x \<le> y \<and> y \<le> length (br_buf row)"
    using assms by (simp add: ranges_in_def list_all_length)
  then have "value_at (br_buf row) (br_ranges row) i \<noteq> Inl e" for e
    using True assms(1) by (auto simp: value_at_def split: option.splits)
  then show ?thesis
    by (cases "value_at (br_buf row) (br_ranges row) i") (auto simp: binary_try_get_def Let_def map_err_def split: sum.splits)
qed (simp add: binary_try_get_def)

section \<open>The properties\<close>

text \<open>The writer's run: rows that convert, each written with success, and the end.\<close>

fun write_rows :: "copy_value list list \<Rightarrow> copy_writer \<Rightarrow> ((error fault + unit) \<times> copy_writer) option" where
  "write_rows [] w = Some (Inr (), w)"
| "write_rows (values # rows) w =
     (case write_raw values w of
        None \<Rightarrow> None
      | Some (Inl e, w) \<Rightarrow> Some (Inl e, w)
      | Some (Inr _, w) \<Rightarrow> write_rows rows w)"

definition row_copies :: "pg_type list \<Rightarrow> copy_value list \<Rightarrow> bytes option list \<Rightarrow> bool" where
  "row_copies types values xs \<longleftrightarrow> length values = length types \<and> list_all2 copies (zip values types) xs"

lemma write_rows_at:
  "writer_at q old w \<Longrightarrow> list_all2 (row_copies (cw_types w)) rows xss \<Longrightarrow> write_rows rows w = Some (Inr (), w') \<Longrightarrow>
     writer_at q (old @ xss) w'"
proof (induction rows arbitrary: old w xss)
  case (Cons vals rows)
  then obtain xs xss' where x: "xss = xs # xss'" "row_copies (cw_types w) vals xs" "list_all2 (row_copies (cw_types w)) rows xss'"
    by (cases xss) auto
  obtain w1 where w1: "write_raw vals w = Some (Inr (), w1)" "write_rows rows w1 = Some (Inr (), w')"
    using Cons.prems(3) by (auto split: option.splits prod.splits sum.splits)
  from write_raw_at [OF Cons.prems(1) _ _ w1(1)] x(2) have "writer_at q (old @ [xs]) w1 \<and> cw_types w1 = cw_types w"
    by (auto simp: row_copies_def)
  with Cons.IH [of "old @ [xs]" w1 xss'] w1(2) x(1,3) show ?case by simp
qed simp

text \<open>
  C12: a binary copy that was finished has delivered the whole file: for any rows that convert, sent over any sink, however often it must be
  polled and however the sink divides what it is given, the blocks the connection was given are exactly the header, the rows in their
  order and the trailer, followed by the end of the copy.
\<close>

theorem binary_copy_delivers:
  assumes "sd_sent sd = [Copy_Message q]" "list_all2 (row_copies types) rows xss"
    and "write_rows rows (copy_writer_new (copy_in_sink_new sd rs) types) = Some (Inr (), w)"
    and "writer_finish w = Some (Inr n, w')"
  shows "\<exists>blocks. sd_sent (sk_sender (cw_sink w')) = data_sent q blocks @ [Copy_Done] \<and>
    list_all (\<lambda>b. b \<noteq> [] \<and> length b \<le> max_body) blocks \<and> concat blocks = copy_file xss"
proof -
  have "sink_inv q (concat []) (copy_in_sink_new sd rs)" by (rule copy_run_inv [OF copy_run.start [OF assms(1)]])
  then have "writer_at q [] (copy_writer_new (copy_in_sink_new sd rs) types)"
    by (auto simp: writer_at_def active_at_def copy_writer_new_def header_bytes_def copy_in_sink_new_def intro!: exI [of _ "[]"])
  from write_rows_at [OF this _ assms(3)] assms(2) have "writer_at q xss w" by (simp add: copy_writer_new_def)
  from finish_at [OF this assms(4)] show ?thesis .
qed

text \<open>When all the polls of the sender have succeeded, the copy ends with the answer of the server, however late it comes.\<close>

lemma finish_reading_returns:
  "holds (sk_responses s) (CommandComplete tag # ms) \<Longrightarrow> sk_state s = Sink_Reading \<Longrightarrow> extract_row_affected tag = Inr n \<Longrightarrow>
     \<exists>s'. await_ready sink_poll_finish s = Some (Inr n, s')"
proof (induction "length (rs_receiver (sk_responses s))" arbitrary: s rule: less_induct)
  case less
  show ?case
  proof (cases rule: responses_poll_holds [OF less.prems(1)])
    case (1 r')
    let ?t = "s\<lparr>sk_responses := r'\<rparr>"
    from less.hyps [of ?t] 1 less.prems have "\<exists>s'. await_ready sink_poll_finish ?t = Some (Inr n, s')" by simp
    moreover have "sink_poll_finish s = (Pending, ?t)" using 1 less.prems(2) by (simp add: sink_poll_finish_def finish_reading_def)
    ultimately show ?thesis by (simp add: await_ready.simps [of _ s])
  next
    case (2 r')
    then have "sink_poll_finish s = (Ready (Inr n), s\<lparr>sk_responses := r'\<rparr>)"
      using less.prems(2,3) by (simp add: sink_poll_finish_def finish_reading_def)
    then show ?thesis by (simp add: await_ready.simps [of _ s])
  qed
qed

definition ready_sender :: copy_sender where
  "ready_sender = \<lparr>sd_ready = replicate 3 (Ready True), sd_flush = replicate 2 (Ready True), sd_close = [Ready True],
     sd_accepts = \<lambda>_. True, sd_sent = [Copy_Message (Raw [])]\<rparr>"

definition copy_answer :: responses where
  "copy_answer = responses_new (channel_of [CommandComplete (ascii ''COPY 1'')])"

definition seven :: copy_value where
  "seven ty buf = (Inr No, buf @ [7])"

lemma copy_answer_holds: "holds copy_answer [CommandComplete (ascii ''COPY 1'')]" "extract_row_affected (ascii ''COPY 1'') = Inr 1"
proof -
  show "holds copy_answer [CommandComplete (ascii ''COPY 1'')]"
    unfolding copy_answer_def answers_with_def [symmetric]
    by (rule channel_of_answers)
      (simp add: sendable_def wf_message_def message_wire_def max_body_def frame_def wire_defs cstr_bytes_def ascii_def)
  show "extract_row_affected (ascii ''COPY 1'') = Inr 1"
    using utf8_valid_ascii [of "ascii ''COPY 1''"]
    by (simp add: extract_row_affected_def command_complete_tag_def from_utf8_def u64_from_str_def ascii_def
        Let_def digits_value_def ascii_digit_def)
qed

theorem binary_copy_delivers_witness:
  "\<exists>w n w' blocks. write_rows [[seven]] (copy_writer_new (copy_in_sink_new ready_sender copy_answer) [TEXT]) = Some (Inr (), w) \<and>
     writer_finish w = Some (Inr n, w') \<and>
     sd_sent (sk_sender (cw_sink w')) = data_sent (Raw []) blocks @ [Copy_Done] \<and> concat blocks = copy_file [[Some [7]]]"
proof -
  let ?sink = "copy_in_sink_new ready_sender copy_answer"
  let ?fresh = "copy_writer_new ?sink [TEXT]"
  let ?w = "?fresh\<lparr>cw_buf := cw_buf ?fresh @ row_bytes [Some [7]]\<rparr>"
  have c: "list_all2 (row_copies [TEXT]) [[seven]] [[Some [7]]]"
    by (simp add: row_copies_def copies_def seven_def fits_i32_def)
  then have "put_row [seven] ?fresh = (Inr (), ?w)" using put_row_ok [of "[seven]" ?fresh "[Some [7]]"] by (simp add: row_copies_def copy_writer_new_def)
  then have w: "write_rows [[seven]] ?fresh = Some (Inr (), ?w)"
    by (simp add: write_raw_def copy_writer_new_def MAGIC_def row_bytes_def nullable_bytes_def)
  let ?data = "cw_buf ?w @ be_word (- 1 :: i16)"
  have len: "length ?data \<le> 4096" "?data \<noteq> []" "length ?data \<le> max_body"
    by (simp_all add: copy_writer_new_def MAGIC_def row_bytes_def nullable_bytes_def max_body_def)
  let ?sd = "ready_sender\<lparr>sd_ready := [Ready True], sd_flush := [Ready True],
      sd_sent := [Copy_Message (Raw []), Copy_Message (CopyDataMsg (block_of ?data))]\<rparr>"
  let ?s1 = "?sink\<lparr>sk_sender := ?sd\<rparr>"
  note d = sink_poll_ready_def sink_poll_flush_def sink_start_send_def sender_poll_ready_def sender_poll_flush_def closed_if_not_def
    send_block_def sender_start_send_def Let_def copy_in_sink_new_def ready_sender_def numeral_3_eq_3 numeral_2_eq_2
  let ?ready = "?sink\<lparr>sk_sender := ready_sender\<lparr>sd_ready := replicate 2 (Ready True)\<rparr>\<rparr>"
  have "sink_poll_ready ?sink = (Ready (Inr ()), ?ready)" by (simp add: d)
  moreover have "sink_start_send ?data ?ready = (Inr (), ?ready\<lparr>sk_buf := ?data\<rparr>)"
    using len by (simp add: sink_start_send_def copy_in_sink_new_def Let_def del: append_assoc)
  moreover have "sink_poll_flush (?ready\<lparr>sk_buf := data\<rparr>) =
      (Ready (Inr ()), ?sink\<lparr>sk_sender := ready_sender\<lparr>sd_ready := [Ready True], sd_flush := [Ready True],
        sd_sent := [Copy_Message (Raw []), Copy_Message (CopyDataMsg (block_of data))]\<rparr>\<rparr>)"
    if "data \<noteq> []" "length data \<le> max_body" for data
    using that copy_data_new_block [of data "block_of data"] by (simp add: d)
  from this [OF len(2,3)] have "sink_poll_flush (?ready\<lparr>sk_buf := ?data\<rparr>) = (Ready (Inr ()), ?s1)" .
  ultimately have sent: "sink_send ?data ?sink = Some (Inr (), ?s1)" by (simp add: sink_send_def await_ready_now)
  let ?s2 = "?s1\<lparr>sk_sender := ?sd\<lparr>sd_ready := [], sd_flush := [], sd_close := [],
      sd_sent := sd_sent ?sd @ [Copy_Done]\<rparr>, sk_state := Sink_Reading\<rparr>"
  have p: "sink_poll_finish ?s1 = sink_poll_finish ?s2"
    by (simp add: sink_poll_finish_def finish_active_def finish_closing_def sender_poll_close_def d)
  then have "await_ready sink_poll_finish ?s1 = await_ready sink_poll_finish ?s2" by (rule await_ready_same)
  moreover obtain s' where "await_ready sink_poll_finish ?s2 = Some (Inr 1, s')"
    using finish_reading_returns [of ?s2, OF _ _ copy_answer_holds(2)] copy_answer_holds(1) by (auto simp: copy_in_sink_new_def)
  ultimately have "\<exists>n w'. writer_finish ?w = Some (Inr n, w')"
    using sent by (simp add: writer_finish_def writer_send_def copy_writer_new_def)
  then obtain n w' where f: "writer_finish ?w = Some (Inr n, w')" by blast
  have "sd_sent ready_sender = [Copy_Message (Raw [])]" by (simp add: ready_sender_def)
  from binary_copy_delivers [OF this c w f] w f show ?thesis by blast
qed

text \<open>The chunks of a copy as the server sends them, and the stream's answers to them.\<close>

definition chunks_of :: "bytes option list list \<Rightarrow> bytes list" where
  "chunks_of rows =
     (case rows of
        [] \<Rightarrow> [header_bytes @ trailer_bytes]
      | row # rows \<Rightarrow> (header_bytes @ row_bytes row) # map row_bytes rows @ [trailer_bytes])"

fun read_chunks :: "bytes list \<Rightarrow> copy_out_rows \<Rightarrow> (error fault + binary_row option) list" where
  "read_chunks [] t = []"
| "read_chunks (c # cs) t = (let (r, t) = read_chunk c t in r # read_chunks cs t)"

lemma read_chunks_rows:
  assumes "list_all (\<lambda>vs. list_all fits_i32 vs \<and> length vs = length types) rows" "length types \<le> 32767"
  shows "read_chunks (map row_bytes rows @ [trailer_bytes]) \<lparr>co_stream = r, co_types = types, co_header = Some False\<rparr> =
    map (\<lambda>vs. Inr (Some \<lparr>br_buf = row_bytes vs, br_ranges = ranges_of 2 vs, br_types = types\<rparr>)) rows @ [Inr None]"
  using assms(1)
proof (induction rows)
  case Nil
  then show ?case by (simp add: read_chunk_def read_trailer)
next
  case (Cons vs rows)
  with read_row_ok [of 0 "row_bytes vs" vs "[]" types] assms(2) show ?case by (simp add: read_chunk_def numeral_2_eq_2)
qed

lemma concat_chunks_of: "concat (chunks_of rows) = copy_file rows"
  by (cases rows) (simp_all add: chunks_of_def copy_file_def)

lemma value_at_ranges:
  assumes "drop off b = concat (map nullable_bytes vs)" "off \<le> length b" "i < length vs"
  shows "value_at b (ranges_of off vs) i = Inr (vs ! i)"
proof -
  have "row_value b (ranges_of off vs ! i) = vs ! i"
    using row_values_ranges [OF assms(1,2)] assms(3) by (metis length_ranges_of nth_map)
  moreover have "length b = off + length (concat (map nullable_bytes vs))"
    using arg_cong [OF assms(1), of length] assms(2) by simp
  ultimately show ?thesis
    using ranges_of_bounds [OF assms(3), of off] assms(3)
    by (cases "ranges_of off vs ! i") (auto simp: value_at_def)
qed

text \<open>A row that the values can be taken from, with any conversion that accepts the type of its column.\<close>

definition row_holds :: "pg_type list \<Rightarrow> bytes option list \<Rightarrow> binary_row \<Rightarrow> bool" where
  "row_holds types vs row \<longleftrightarrow> br_types row = types \<and> (\<exists>p. p \<le> length (br_buf row) \<and>
     drop p (br_buf row) = concat (map nullable_bytes vs) \<and> br_ranges row = ranges_of p vs)"

lemma row_holds_get:
  assumes "row_holds types vs row" "length vs = length types" "i < length types" "fs_accepts f (types ! i)"
  shows "binary_try_get f i row = map_err (\<lambda>e. Fault (E_FromSql e i)) (from_sql_nullable f (types ! i) (vs ! i))"
  using assms value_at_ranges [of _ "br_buf row" vs i] by (auto simp: row_holds_def binary_try_get_def Let_def)

lemma row_holds_parsed:
  assumes "length pre = p"
  shows "row_holds types vs \<lparr>br_buf = pre @ row_bytes vs, br_ranges = ranges_of (p + 2) vs, br_types = types\<rparr>"
proof -
  have "p + 2 \<le> length (pre @ row_bytes vs) \<and> drop (p + 2) (pre @ row_bytes vs) = concat (map nullable_bytes vs)"
    using assms by (simp add: row_bytes_def)
  then show ?thesis unfolding row_holds_def by auto
qed

lemma read_first_chunk:
  "read_chunk (header_bytes @ r) (copy_out_rows_new s types) =
     (read_row False types (header_bytes @ r, HEADER_LEN), \<lparr>co_stream = s, co_types = types, co_header = Some False\<rparr>)"
  by (simp add: read_chunk_def copy_out_rows_new_def read_header_ok)

lemma length_header_bytes: "length header_bytes = HEADER_LEN"
  by (simp add: header_bytes_def HEADER_LEN_def)

lemma read_chunks_file:
  assumes "list_all (\<lambda>vs. list_all fits_i32 vs \<and> length vs = length types) rows" "length types \<le> 32767"
  shows "\<exists>parsed. read_chunks (chunks_of rows) (copy_out_rows_new r types) = map (\<lambda>row. Inr (Some row)) parsed @ [Inr None] \<and>
    list_all2 (row_holds types) rows parsed"
proof (cases rows)
  case Nil
  have "drop HEADER_LEN (header_bytes @ trailer_bytes) = be_word (- 1 :: i16) @ []"
    by (simp add: length_header_bytes [symmetric] trailer_bytes_def)
  from cur_get_word [OF _ this] have "read_row False types (header_bytes @ trailer_bytes, HEADER_LEN) = Inr None"
    by (simp add: read_row_def check_rest length_header_bytes trailer_bytes_def)
  then show ?thesis using Nil by (simp add: chunks_of_def read_first_chunk)
next
  case (Cons vs rows')
  let ?row = "\<lambda>vs. \<lparr>br_buf = row_bytes vs, br_ranges = ranges_of 2 vs, br_types = types\<rparr>"
  let ?first = "\<lparr>br_buf = header_bytes @ row_bytes vs, br_ranges = ranges_of (HEADER_LEN + 2) vs, br_types = types\<rparr>"
  have "drop HEADER_LEN (header_bytes @ row_bytes vs) = row_bytes vs @ []" by (simp add: length_header_bytes [symmetric])
  from read_row_ok [OF this] assms Cons
  have "read_row False types (header_bytes @ row_bytes vs, HEADER_LEN) = Inr (Some ?first)" by simp
  moreover have "row_holds types vs ?first" by (rule row_holds_parsed [OF length_header_bytes])
  moreover have "row_holds types us (?row us)" for us
    using row_holds_parsed [of "[]" 0 types us] by (simp add: numeral_2_eq_2)
  then have "list_all2 (row_holds types) rows' (map ?row rows')"
    by (simp add: list_all2_map2 list.rel_refl)
  ultimately show ?thesis
    using read_chunks_rows [of types rows' r] assms Cons
    by (intro exI [of _ "?first # map ?row rows'"]) (simp add: chunks_of_def read_first_chunk comp_def)
qed

text \<open>
  C13: what a binary copy writes is what a binary copy reads: the file of any rows with as many values as there are columns, cut into chunks
  as the server cuts it, comes out of the stream as one row after the other and then the end, and the value in each column of each
  row is converted from exactly the bytes that were written for it, or from NULL.
\<close>

theorem binary_copy_roundtrip:
  assumes "list_all (\<lambda>vs. list_all fits_i32 vs \<and> length vs = length types) rows" "length types \<le> 32767"
  shows "concat (chunks_of rows) = copy_file rows \<and>
    (\<exists>parsed. read_chunks (chunks_of rows) (copy_out_rows_new r types) = map (\<lambda>row. Inr (Some row)) parsed @ [Inr None] \<and>
      list_all2 (\<lambda>vs row. \<forall>i (f :: 'a from_sql). i < length types \<longrightarrow> fs_accepts f (types ! i) \<longrightarrow>
        binary_try_get f i row = map_err (\<lambda>e. Fault (E_FromSql e i)) (from_sql_nullable f (types ! i) (vs ! i))) rows parsed)"
proof -
  obtain parsed where p: "read_chunks (chunks_of rows) (copy_out_rows_new r types) = map (\<lambda>row. Inr (Some row)) parsed @ [Inr None]"
    "list_all2 (row_holds types) rows parsed"
    using read_chunks_file [OF assms] by blast
  have "list_all2 (\<lambda>vs row. \<forall>i (f :: 'a from_sql). i < length types \<longrightarrow> fs_accepts f (types ! i) \<longrightarrow>
      binary_try_get f i row = map_err (\<lambda>e. Fault (E_FromSql e i)) (from_sql_nullable f (types ! i) (vs ! i))) rows parsed"
    by (rule list_all2_all_nthI) (use p(2) assms(1) in \<open>auto simp: list_all2_conv_all_nth list_all_length row_holds_get\<close>)
  with p(1) concat_chunks_of show ?thesis by blast
qed

theorem binary_copy_roundtrip_witness:
  "concat (chunks_of [[Some [7], None], [None, Some []]]) = copy_file [[Some [7], None], [None, Some []]] \<and>
   (\<exists>a b. read_chunks (chunks_of [[Some [7], None], [None, Some []]]) (copy_out_rows_new (responses_new []) [TEXT, TEXT]) =
      [Inr (Some a), Inr (Some b), Inr None] \<and> binary_try_get str_from_sql 1 a = Inl (Fault (E_FromSql Was_Null 1)))"
proof -
  let ?rows = "[[Some [7], None], [None, Some []]] :: bytes option list list"
  have "list_all (\<lambda>vs. list_all fits_i32 vs \<and> length vs = length [TEXT, TEXT]) ?rows" by (simp add: fits_i32_def)
  from binary_copy_roundtrip [OF this, where 'a = bytes, of "responses_new []"] obtain parsed where
    p: "concat (chunks_of ?rows) = copy_file ?rows"
    "read_chunks (chunks_of ?rows) (copy_out_rows_new (responses_new []) [TEXT, TEXT]) = map (\<lambda>row. Inr (Some row)) parsed @ [Inr None]"
    "list_all2 (\<lambda>vs row. \<forall>i (f :: bytes from_sql). i < length [TEXT, TEXT] \<longrightarrow> fs_accepts f ([TEXT, TEXT] ! i) \<longrightarrow>
      binary_try_get f i row = map_err (\<lambda>e. Fault (E_FromSql e i)) (from_sql_nullable f ([TEXT, TEXT] ! i) (vs ! i))) ?rows parsed"
    by auto
  from p(3) obtain a b where ab: "parsed = [a, b]"
    "\<forall>i (f :: bytes from_sql). i < length [TEXT, TEXT] \<longrightarrow> fs_accepts f ([TEXT, TEXT] ! i) \<longrightarrow>
      binary_try_get f i a = map_err (\<lambda>e. Fault (E_FromSql e i)) (from_sql_nullable f ([TEXT, TEXT] ! i) ([Some [7], None] ! i))"
    by (auto simp: list_all2_Cons1)
  have "binary_try_get str_from_sql 1 a = Inl (Fault (E_FromSql Was_Null 1))"
    using ab(2) [rule_format, of 1 str_from_sql] by (simp add: str_from_sql_def from_sql_nullable_def)
  with p(1,2) ab(1) show ?thesis by auto
qed

text \<open>
  No chunk a server can send makes the stream of a binary copy panic, in any of its states and with any number of columns, and no
  access to a row it returned does.
\<close>

lemma binary_copy_safe:
  "fst (read_chunk chunk t) \<noteq> Inl Panic \<and>
   (\<forall>row i. fst (read_chunk chunk t) = Inr (Some row) \<longrightarrow> binary_try_get f i row \<noteq> Inl Panic)"
proof -
  obtain x oids p where x: "fst (read_chunk chunk t) = x" and
    "(\<exists>e. x = Inl e \<and> e \<noteq> Panic) \<or> x = read_row oids (co_types t) (chunk, p)"
  proof (cases "co_header t")
    case None
    then show ?thesis
    proof (cases "read_header (chunk, 0)")
      case (Inl e)
      then show ?thesis using that [of "Inl e"] None read_header_safe [of chunk] by (simp add: read_chunk_def)
    next
      case (Inr y)
      obtain o' c where y: "y = (o', c)" by (cases y)
      have "c = (chunk, snd c)" using read_header_safe [of chunk] Inr y by (cases c) auto
      then show ?thesis
        using that [of "read_row o' (co_types t) c" o' "snd c"] None Inr y by (simp add: read_chunk_def)
    qed
  next
    case (Some oids)
    then show ?thesis using that [of "read_row oids (co_types t) (chunk, 0)" oids 0] by (simp add: read_chunk_def)
  qed
  then show ?thesis
    using read_row_safe [of oids "co_types t" chunk p] binary_try_get_safe [where f = f] by auto
qed

theorem binary_copy_safe_witness:
  "fst (read_chunk (header_bytes @ row_bytes [Some [7]]) (copy_out_rows_new (responses_new []) [TEXT])) \<noteq> Inl Panic \<and>
   (\<exists>row. fst (read_chunk (header_bytes @ row_bytes [Some [7]]) (copy_out_rows_new (responses_new []) [TEXT])) = Inr (Some row) \<and>
     binary_try_get str_from_sql 3 row \<noteq> Inl Panic)"
proof -
  have "drop HEADER_LEN (header_bytes @ row_bytes [Some [7]]) = row_bytes [Some [7]] @ []"
    by (simp add: length_header_bytes [symmetric])
  from read_row_ok [OF this, of "[TEXT]"] have "\<exists>row. read_row False [TEXT] (header_bytes @ row_bytes [Some [7]], HEADER_LEN) = Inr (Some row)"
    by (simp add: fits_i32_def)
  then show ?thesis
    using binary_copy_safe [of "header_bytes @ row_bytes [Some [7]]" "copy_out_rows_new (responses_new []) [TEXT]" str_from_sql]
    by (auto simp: read_first_chunk)
qed

text \<open>
  A write whose conversion fails leaves the writer as a successful write of an empty value would: the row it reported as failed is
  delivered with the others.
\<close>

lemma failed_row_is_written:
  assumes "length (cw_types w) = 1" "\<And>ty buf. bad ty buf = (Inl e, buf)" "\<And>ty buf. blank ty buf = (Inr No, buf)"
  shows "put_row [bad] w = (Inl (Fault (E_ToSql (Box_Other e) 0)), snd (put_row [blank] w)) \<and> fst (put_row [blank] w) = Inr ()"
proof -
  obtain ty where ty: "cw_types w = [ty]" using assms(1) by (auto simp: length_Suc_conv)
  show ?thesis by (simp add: put_row_def ty put_value_def assms(2,3) Let_def patch_def)
qed

theorem failed_row_is_written_witness:
  "put_row [\<lambda>ty buf. (Inl Wrong_Type, buf)] (copy_writer_new (copy_in_sink_new ready_sender copy_answer) [TEXT]) =
     (Inl (Fault (E_ToSql (Box_Other Wrong_Type) 0)), snd (put_row [\<lambda>ty buf. (Inr No, buf)] (copy_writer_new (copy_in_sink_new ready_sender copy_answer) [TEXT])))"
  using failed_row_is_written [of "copy_writer_new (copy_in_sink_new ready_sender copy_answer) [TEXT]" "\<lambda>ty buf. (Inl Wrong_Type, buf)" Wrong_Type "\<lambda>ty buf. (Inr No, buf)"]
  by (simp add: copy_writer_new_def)

end
