(* ===== verification/Connect.thy ===== *)
theory Connect
  imports Startup Config Queries
begin

text \<open>
  Connecting (\<open>connect.rs\<close>, \<open>connect_socket.rs\<close>, \<open>keepalive.rs\<close>) and cancelling (\<open>cancel_query.rs\<close>, \<open>cancel_query_raw.rs\<close>,
  \<open>cancel_token.rs\<close>). The network is an argument: what a name resolves to, the order a shuffle gives, and for the connections
  that are tried, in the order they are tried, a record of what each of them meets (\<open>dial\<close>). An operation that waits for ever
  is \<open>None\<close>.
\<close>

section \<open>The network\<close>

text \<open>Durations are ordered by their seconds, then their nanoseconds.\<close>

instantiation duration :: linorder
begin

definition less_eq_duration :: "duration \<Rightarrow> duration \<Rightarrow> bool" where
  "less_eq_duration a b \<longleftrightarrow> du_secs a < du_secs b \<or> du_secs a = du_secs b \<and> du_nanos a \<le> du_nanos b"

definition less_duration :: "duration \<Rightarrow> duration \<Rightarrow> bool" where
  "less_duration a b \<longleftrightarrow> du_secs a < du_secs b \<or> du_secs a = du_secs b \<and> du_nanos a < du_nanos b"

instance
  by standard (auto simp: less_eq_duration_def less_duration_def intro: duration.expand)

end

datatype addr = Addr_Tcp ip_addr | Addr_Unix bytes

text \<open>
  What one connection meets: when and how the socket connects, whether its options can be set, the TLS connector for a name and its
  session, the messages of the server, the system's user name and random numbers, and, once connected, the channel
  that answers the client's first request and the results of polling the connection.
\<close>

record dial =
  dl_connect :: "(duration \<times> (io_error + unit)) option"
  dl_nodelay :: "io_error + unit"
  dl_user_timeout :: "io_error + unit"
  dl_keepalive :: "io_error + unit"
  dl_make_tls :: "bytes \<Rightarrow> string + tls_env"
  dl_net :: "maybe_tls_stream \<Rightarrow> auth_mode \<Rightarrow> (io_error + backend_message) list"
  dl_send_result :: "nat \<Rightarrow> io_error option"
  dl_whoami :: "io_error + bytes"
  dl_samples :: bytes
  dl_answer :: "backend_messages channel option"
  dl_connection :: "(error + unit) poll list"

record world =
  wd_lookup :: "bytes \<Rightarrow> u16 \<Rightarrow> (io_error + ip_addr list) option"
  wd_shuffle :: "nat list \<Rightarrow> nat list"
  wd_shuffle_addrs :: "ip_addr list \<Rightarrow> ip_addr list"
  wd_dial :: "nat \<Rightarrow> dial"

section \<open>Sockets\<close>

record tcp_keepalive =
  tk_time :: "duration option"
  tk_interval :: "duration option"
  tk_retries :: "u32 option"

definition tcp_keepalive_from :: "keepalive_config \<Rightarrow> tcp_keepalive" where
  "tcp_keepalive_from k =
     (let tcp_keepalive = \<lparr>tk_time = Some (ka_idle k), tk_interval = None, tk_retries = None\<rparr>;
          tcp_keepalive = (case ka_interval k of Some interval \<Rightarrow> tcp_keepalive\<lparr>tk_interval := Some interval\<rparr> | None \<Rightarrow> tcp_keepalive)
      in (case ka_retries k of Some retries \<Rightarrow> tcp_keepalive\<lparr>tk_retries := Some retries\<rparr> | None \<Rightarrow> tcp_keepalive))"

datatype socket = Socket_Tcp ip_addr u16 "duration option" "tcp_keepalive option" | Socket_Unix bytes

definition connect_with_timeout ::
  "(duration \<times> (io_error + unit)) option \<Rightarrow> duration option \<Rightarrow> (error + unit) option" where
  "connect_with_timeout connect timeout =
     (case timeout of
        Some timeout \<Rightarrow>
          Some (case connect of
                  Some (elapsed, r) \<Rightarrow>
                    if elapsed \<le> timeout then map_err E_Connect r
                    else Inl (E_Connect (Io_Error TimedOut (Msg ''connection timed out'')))
                | None \<Rightarrow> Inl (E_Connect (Io_Error TimedOut (Msg ''connection timed out''))))
      | None \<Rightarrow>
          (case connect of
             Some (_, r) \<Rightarrow> Some (map_err E_Connect r)
           | None \<Rightarrow> None))"

text \<open>\<open>Path::join\<close> with a relative name.\<close>

definition path_join :: "bytes \<Rightarrow> bytes \<Rightarrow> bytes" where
  "path_join dir name = (if dir = [] \<or> last dir = of_char CHR ''/'' then dir @ name else dir @ of_char CHR ''/'' # name)"

definition connect_socket ::
  "dial \<Rightarrow> addr \<Rightarrow> u16 \<Rightarrow> duration option \<Rightarrow> duration option \<Rightarrow> keepalive_config option \<Rightarrow> (error + socket) option" where
  "connect_socket d addr port connect_timeout tcp_user_timeout keepalive_config =
     (case connect_with_timeout (dl_connect d) connect_timeout of
        None \<Rightarrow> None
      | Some r \<Rightarrow>
          Some (bind_res r (\<lambda>_.
            case addr of
              Addr_Tcp ip \<Rightarrow>
                bind_res (map_err E_Connect (dl_nodelay d)) (\<lambda>_.
                bind_res (case tcp_user_timeout of Some _ \<Rightarrow> map_err E_Connect (dl_user_timeout d) | None \<Rightarrow> Inr ()) (\<lambda>_.
                bind_res (case keepalive_config of Some _ \<Rightarrow> map_err E_Connect (dl_keepalive d) | None \<Rightarrow> Inr ()) (\<lambda>_.
                Inr (Socket_Tcp ip port tcp_user_timeout (map_option tcp_keepalive_from keepalive_config)))))
            | Addr_Unix dir \<Rightarrow> Inr (Socket_Unix (path_join dir (ascii (''.s.PGSQL.'' @ show_nat (unat port))))))))"

section \<open>One connection\<close>

text \<open>The verdict on the first row of \<open>SHOW transaction_read_only\<close>.\<close>

definition attrs_verdict :: "target_session_attrs \<Rightarrow> simple_row \<Rightarrow> error fault + unit" where
  "attrs_verdict attrs row =
     bind_res (simple_try_get (By_Number 0) row) (\<lambda>read_only_result.
     if read_only_result = Some (ascii ''on'') \<and> attrs = Read_Write then
       Inl (Fault (E_Connect (Io_Error PermissionDenied (Msg ''database does not allow writes''))))
     else if read_only_result = Some (ascii ''off'') \<and> attrs = Read_Only then
       Inl (Fault (E_Connect (Io_Error PermissionDenied (Msg ''database is not read only''))))
     else Inr ())"

text \<open>Each round polls the connection, which must not end, and then the rows.\<close>

partial_function (option) attrs_loop ::
  "target_session_attrs \<Rightarrow> (error + unit) poll list \<Rightarrow> simple_stream \<Rightarrow> (error fault + unit) option" where
  "attrs_loop attrs connection rows =
     (case script_poll connection of
        (Ready (Inl e), _) \<Rightarrow> Some (Inl (Fault e))
      | (Ready (Inr _), _) \<Rightarrow> Some (Inl (Fault E_Closed))
      | (Pending, connection) \<Rightarrow>
          (case simple_poll_next rows of
             (Pending, rows) \<Rightarrow> attrs_loop attrs connection rows
           | (Ready None, _) \<Rightarrow> Some (Inl (Fault E_UnexpectedMessage))
           | (Ready (Some (Inl e)), _) \<Rightarrow> Some (Inl e)
           | (Ready (Some (Inr (Simple_Row row))), _) \<Rightarrow> Some (attrs_verdict attrs row)
           | (Ready (Some (Inr _)), rows) \<Rightarrow> attrs_loop attrs connection rows))"

definition check_attrs ::
  "target_session_attrs \<Rightarrow> (error + unit) poll list \<Rightarrow> inner_client \<Rightarrow> ((error fault + unit) \<times> inner_client) option" where
  "check_attrs attrs connection client =
     (if attrs = Any then Some (Inr (), client)
      else
        case script_poll connection of
          (Ready (Inl e), _) \<Rightarrow> Some (Inl (Fault e), client)
        | (Ready (Inr _), _) \<Rightarrow> Some (Inl (Fault E_Closed), client)
        | (Pending, connection) \<Rightarrow>
            (case simple_query (ascii ''SHOW transaction_read_only'') client of
               None \<Rightarrow> None
             | Some (Inl e, client) \<Rightarrow> Some (Inl e, client)
             | Some (Inr rows, client) \<Rightarrow> map_option (\<lambda>r. (r, client)) (attrs_loop attrs connection rows)))"

record socket_config =
  so_addr :: addr
  so_hostname :: "bytes option"
  so_port :: u16
  so_connect_timeout :: "duration option"
  so_tcp_user_timeout :: "duration option"
  so_keepalive :: "keepalive_config option"

record session =
  se_info :: session_info
  se_stream :: startup_stream
  se_socket :: socket
  se_client :: inner_client
  se_ssl_mode :: ssl_mode
  se_ssl_negotiation :: ssl_negotiation
  se_socket_config :: socket_config

definition keepalive_of :: "config \<Rightarrow> keepalive_config option" where
  "keepalive_of config = (if cf_keepalives config then Some (cf_keepalive_config config) else None)"

definition connect_once ::
  "crates \<Rightarrow> config \<Rightarrow> dial \<Rightarrow> addr \<Rightarrow> bytes option \<Rightarrow> u16 \<Rightarrow> (error fault + session) option" where
  "connect_once c config d addr hostname port =
     (case connect_socket d addr port (cf_connect_timeout config) (cf_tcp_user_timeout config) (keepalive_of config) of
        None \<Rightarrow> None
      | Some (Inl e) \<Rightarrow> Some (Inl (Fault e))
      | Some (Inr socket) \<Rightarrow>
          (case dl_make_tls d (case hostname of Some h \<Rightarrow> h | None \<Rightarrow> []) of
             Inl e \<Rightarrow> Some (Inl (Fault (E_Tls e)))
           | Inr tls \<Rightarrow>
               (case connect_raw c tls (dl_net d) (dl_send_result d) (dl_whoami d) (dl_samples d) (hostname \<noteq> None)
                       (startup_config.truncate config) of
                  Inl e \<Rightarrow> Some (Inl e)
                | Inr (info, stream) \<Rightarrow>
                    (case check_attrs (cf_target_session_attrs config) (dl_connection d) (client_new [dl_answer d]) of
                       None \<Rightarrow> None
                     | Some (Inl e, _) \<Rightarrow> Some (Inl e)
                     | Some (Inr _, client) \<Rightarrow>
                         Some (Inr \<lparr>se_info = info, se_stream = stream, se_socket = socket, se_client = client,
                           se_ssl_mode = cf_ssl_mode config, se_ssl_negotiation = cf_ssl_negotiation config,
                           se_socket_config = \<lparr>so_addr = addr, so_hostname = hostname, so_port = port,
                             so_connect_timeout = cf_connect_timeout config, so_tcp_user_timeout = cf_tcp_user_timeout config,
                             so_keepalive = keepalive_of config\<rparr>\<rparr>)))))"

section \<open>Hosts\<close>

text \<open>The addresses of a host in turn; \<open>n\<close> is the number of the connection. A panic is not caught.\<close>

fun try_addrs ::
  "(nat \<Rightarrow> ip_addr \<Rightarrow> (error fault + session) option) \<Rightarrow> nat \<Rightarrow> error option \<Rightarrow> ip_addr list \<Rightarrow>
     ((error fault + session) \<times> nat) option" where
  "try_addrs once n last_err [] =
     Some (Inl (Fault (case last_err of
                         Some e \<Rightarrow> e
                       | None \<Rightarrow> E_Connect (Io_Error InvalidInput (Msg ''could not resolve any addresses'')))), n)"
| "try_addrs once n last_err (addr # addrs) =
     (case once n addr of
        None \<Rightarrow> None
      | Some (Inr stream) \<Rightarrow> Some (Inr stream, Suc n)
      | Some (Inl (Fault e)) \<Rightarrow> try_addrs once (Suc n) (Some e) addrs
      | Some (Inl Panic) \<Rightarrow> Some (Inl Panic, Suc n))"

definition connect_host ::
  "crates \<Rightarrow> world \<Rightarrow> config \<Rightarrow> nat \<Rightarrow> host \<Rightarrow> bytes option \<Rightarrow> u16 \<Rightarrow> ((error fault + session) \<times> nat) option" where
  "connect_host c w config n host hostname port =
     (case host of
        Tcp host \<Rightarrow>
          (case wd_lookup w host port of
             None \<Rightarrow> None
           | Some (Inl e) \<Rightarrow> Some (Inl (Fault (E_Connect e)), n)
           | Some (Inr addrs) \<Rightarrow>
               (let addrs = (if cf_load_balance_hosts config = Lb_Random then wd_shuffle_addrs w addrs else addrs)
                in try_addrs (\<lambda>n ip. connect_once c config (wd_dial w n) (Addr_Tcp ip) hostname port) n None addrs))
      | Unix path \<Rightarrow>
          map_option (\<lambda>r. (r, Suc n)) (connect_once c config (wd_dial w n) (Addr_Unix path) hostname port))"

definition nth_opt :: "'a list \<Rightarrow> nat \<Rightarrow> 'a option" where
  "nth_opt xs i = (if i < length xs then Some (xs ! i) else None)"

definition port_at :: "config \<Rightarrow> nat \<Rightarrow> u16" where
  "port_at config i =
     (case nth_opt (cf_port config) i of
        Some port \<Rightarrow> port
      | None \<Rightarrow> (case cf_port config of port # _ \<Rightarrow> port | [] \<Rightarrow> 5432))"

definition hostname_at :: "config \<Rightarrow> nat \<Rightarrow> bytes option" where
  "hostname_at config i = (case nth_opt (cf_host config) i of Some (Tcp host) \<Rightarrow> Some host | _ \<Rightarrow> None)"

definition addr_at :: "config \<Rightarrow> nat \<Rightarrow> host option" where
  "addr_at config i =
     (case nth_opt (cf_hostaddr config) i of
        Some ipaddr \<Rightarrow> Some (Tcp (ip_to_string ipaddr))
      | None \<Rightarrow> nth_opt (cf_host config) i)"

fun connect_hosts ::
  "crates \<Rightarrow> world \<Rightarrow> config \<Rightarrow> nat \<Rightarrow> error option \<Rightarrow> nat list \<Rightarrow> ((error fault + session) \<times> nat) option" where
  "connect_hosts c w config n error [] = Some (Inl (case error of Some e \<Rightarrow> Fault e | None \<Rightarrow> Panic), n)"
| "connect_hosts c w config n error (i # idxs) =
     (case addr_at config i of
        None \<Rightarrow> Some (Inl Panic, n)
      | Some addr \<Rightarrow>
          (case connect_host c w config n addr (hostname_at config i) (port_at config i) of
             None \<Rightarrow> None
           | Some (Inr s, n) \<Rightarrow> Some (Inr s, n)
           | Some (Inl (Fault e), n) \<Rightarrow> connect_hosts c w config n (Some e) idxs
           | Some (Inl Panic, n) \<Rightarrow> Some (Inl Panic, n)))"

definition num_hosts :: "config \<Rightarrow> nat" where
  "num_hosts config = max (length (cf_host config)) (length (cf_hostaddr config))"

definition check_hosts :: "config \<Rightarrow> error + unit" where
  "check_hosts config =
     (if cf_host config = [] \<and> cf_hostaddr config = [] then Inl (E_Config ''both host and hostaddr are missing'')
      else if cf_host config \<noteq> [] \<and> cf_hostaddr config \<noteq> [] \<and> length (cf_host config) \<noteq> length (cf_hostaddr config) then
        Inl (E_Config (''number of hosts ('' @ show_nat (length (cf_host config)) @ '') is different from number of hostaddrs ('' @
          show_nat (length (cf_hostaddr config)) @ '')''))
      else if length (cf_port config) > 1 \<and> length (cf_port config) \<noteq> num_hosts config then
        Inl (E_Config ''invalid number of ports'')
      else Inr ())"

definition host_order :: "world \<Rightarrow> config \<Rightarrow> nat list" where
  "host_order w config =
     (let idxs = [0..<num_hosts config]
      in if cf_load_balance_hosts config = Lb_Random then wd_shuffle w idxs else idxs)"

definition connect :: "crates \<Rightarrow> world \<Rightarrow> config \<Rightarrow> ((error fault + session) \<times> nat) option" where
  "connect c w config =
     (case check_hosts config of
        Inl e \<Rightarrow> Some (Inl (Fault e), 0)
      | Inr _ \<Rightarrow> connect_hosts c w config 0 None (host_order w config))"

section \<open>Cancelling\<close>

record cancel_token =
  ct_socket_config :: "socket_config option"
  ct_ssl_mode :: ssl_mode
  ct_ssl_negotiation :: ssl_negotiation
  ct_process_id :: i32
  ct_secret_key :: i32

definition cancel_token_of :: "session \<Rightarrow> cancel_token" where
  "cancel_token_of s =
     \<lparr>ct_socket_config = Some (se_socket_config s), ct_ssl_mode = se_ssl_mode s, ct_ssl_negotiation = se_ssl_negotiation s,
      ct_process_id = si_process_id (se_info s), ct_secret_key = si_secret_key (se_info s)\<rparr>"

text \<open>
  The results of writing, flushing and shutting down. The operation returns what it wrote to the plain socket and, when there is one, to
  the TLS stream. A panic of \<open>cancel_request\<close> is \<open>Panic\<close>.
\<close>

record close_env =
  ce_write :: "io_error + unit"
  ce_flush :: "io_error + unit"
  ce_shutdown :: "io_error + unit"

definition cancel_query_raw ::
  "tls_env \<Rightarrow> close_env \<Rightarrow> ssl_mode \<Rightarrow> ssl_negotiation \<Rightarrow> bool \<Rightarrow> i32 \<Rightarrow> i32 \<Rightarrow> (error fault + unit) \<times> bytes \<times> bytes" where
  "cancel_query_raw tls env mode negotiation has_hostname process_id secret_key =
     (case connect_tls tls mode negotiation has_hostname of
        (Inl e, plain) \<Rightarrow> (Inl e, plain, [])
      | (Inr stream, plain) \<Rightarrow>
          (case cancel_request process_id secret_key [] of
             None \<Rightarrow> (Inl Panic, plain, [])
           | Some buf \<Rightarrow>
               (map_err (Fault \<circ> E_Io) (bind_res (ce_write env) (\<lambda>_. bind_res (ce_flush env) (\<lambda>_. ce_shutdown env))),
                case stream of Raw_Stream \<Rightarrow> (plain @ buf, []) | Tls_Stream _ \<Rightarrow> (plain, buf))))"

definition cancel_query ::
  "(bytes \<Rightarrow> string + tls_env) \<Rightarrow> dial \<Rightarrow> close_env \<Rightarrow> cancel_token \<Rightarrow> ((error fault + unit) \<times> (socket \<times> bytes \<times> bytes) option) option" where
  "cancel_query make_tls d env token =
     (case ct_socket_config token of
        None \<Rightarrow> Some (Inl (Fault (E_Connect (Io_Error InvalidInput (Msg ''unknown host'')))), None)
      | Some config \<Rightarrow>
          (case make_tls (case so_hostname config of Some h \<Rightarrow> h | None \<Rightarrow> []) of
             Inl e \<Rightarrow> Some (Inl (Fault (E_Tls e)), None)
           | Inr tls \<Rightarrow>
               (case connect_socket d (so_addr config) (so_port config) (so_connect_timeout config) (so_tcp_user_timeout config)
                       (so_keepalive config) of
                  None \<Rightarrow> None
                | Some (Inl e) \<Rightarrow> Some (Inl (Fault e), None)
                | Some (Inr socket) \<Rightarrow>
                    (case cancel_query_raw tls env (ct_ssl_mode token) (ct_ssl_negotiation token) (so_hostname config \<noteq> None)
                            (ct_process_id token) (ct_secret_key token) of
                       (r, plain, secret) \<Rightarrow> Some (r, Some (socket, plain, secret))))))"

definition token_cancel_query_raw :: "tls_env \<Rightarrow> close_env \<Rightarrow> cancel_token \<Rightarrow> (error fault + unit) \<times> bytes \<times> bytes" where
  "token_cancel_query_raw tls env token =
     cancel_query_raw tls env (ct_ssl_mode token) (ct_ssl_negotiation token) True (ct_process_id token) (ct_secret_key token)"

end
