(* ===== verification/Connect_Laws.thy ===== *)
theory Connect_Laws
  imports Connect Startup_Laws Statement_Laws Transaction_Laws "HOL-Library.Multiset"
begin

text \<open>
  What connecting does with many hosts: the loops over hosts and addresses are one search through a flat list of trials, in the
  order given, for the first that succeeds. What it checks of a session, when it can panic, and where a cancellation goes.
\<close>

section \<open>Trials\<close>

datatype trial = Hangs | Fails error | Dial addr "bytes option" u16

text \<open>The trials of one host of the configuration.\<close>

definition addr_list :: "world \<Rightarrow> config \<Rightarrow> ip_addr list \<Rightarrow> ip_addr list" where
  "addr_list w config addrs = (if cf_load_balance_hosts config = Lb_Random then wd_shuffle_addrs w addrs else addrs)"

definition host_trials :: "world \<Rightarrow> config \<Rightarrow> nat \<Rightarrow> trial list" where
  "host_trials w config i =
     (case addr_at config i of
        None \<Rightarrow> []
      | Some (Unix path) \<Rightarrow> [Dial (Addr_Unix path) (hostname_at config i) (port_at config i)]
      | Some (Tcp host) \<Rightarrow>
          (case wd_lookup w host (port_at config i) of
             None \<Rightarrow> [Hangs]
           | Some (Inl e) \<Rightarrow> [Fails (E_Connect e)]
           | Some (Inr addrs) \<Rightarrow>
               if addr_list w config addrs = [] then [Fails (E_Connect (Io_Error InvalidInput (Msg ''could not resolve any addresses'')))]
               else map (\<lambda>ip. Dial (Addr_Tcp ip) (hostname_at config i) (port_at config i)) (addr_list w config addrs)))"

definition trials :: "world \<Rightarrow> config \<Rightarrow> trial list" where
  "trials w config = concat (map (host_trials w config) (host_order w config))"

text \<open>The search: the n-th connection is that of the n-th trial that dials.\<close>

fun search ::
  "(nat \<Rightarrow> addr \<Rightarrow> bytes option \<Rightarrow> u16 \<Rightarrow> (error fault + session) option) \<Rightarrow> nat \<Rightarrow> error option \<Rightarrow> trial list \<Rightarrow>
     ((error fault + session) \<times> nat) option" where
  "search dial n last_err [] = Some (Inl (case last_err of Some e \<Rightarrow> Fault e | None \<Rightarrow> Panic), n)"
| "search dial n last_err (Hangs # ts) = None"
| "search dial n last_err (Fails e # ts) = search dial n (Some e) ts"
| "search dial n last_err (Dial a h p # ts) =
     (case dial n a h p of
        None \<Rightarrow> None
      | Some (Inr s) \<Rightarrow> Some (Inr s, Suc n)
      | Some (Inl (Fault e)) \<Rightarrow> search dial (Suc n) (Some e) ts
      | Some (Inl Panic) \<Rightarrow> Some (Inl Panic, Suc n))"

text \<open>A result of one host, followed by the trials of the others.\<close>

definition go_on ::
  "((error fault + session) \<times> nat) option \<Rightarrow> (nat \<Rightarrow> error option \<Rightarrow> ((error fault + session) \<times> nat) option) \<Rightarrow>
     ((error fault + session) \<times> nat) option" where
  "go_on r k =
     (case r of
        None \<Rightarrow> None
      | Some (Inr s, n) \<Rightarrow> Some (Inr s, n)
      | Some (Inl (Fault e), n) \<Rightarrow> k n (Some e)
      | Some (Inl Panic, n) \<Rightarrow> Some (Inl Panic, n))"

lemma search_addrs:
  "addrs \<noteq> [] \<or> last_err \<noteq> None \<Longrightarrow>
     search dial n last_err (map (\<lambda>ip. Dial (Addr_Tcp ip) h p) addrs @ ts) =
       go_on (try_addrs (\<lambda>n ip. dial n (Addr_Tcp ip) h p) n last_err addrs) (\<lambda>n e. search dial n e ts)"
proof (induction addrs arbitrary: n last_err)
  case Nil
  then show ?case by (cases last_err) (simp_all add: go_on_def)
next
  case (Cons ip addrs)
  then show ?case by (simp add: go_on_def split: option.split sum.split fault.split)
qed

lemma search_host:
  assumes "addr_at config i = Some addr"
  shows "search (\<lambda>n. connect_once c config (wd_dial w n)) n last_err (host_trials w config i @ ts) =
    go_on (connect_host c w config n addr (hostname_at config i) (port_at config i))
      (\<lambda>n e. search (\<lambda>n. connect_once c config (wd_dial w n)) n e ts)"
proof (cases addr)
  case (Unix path)
  then show ?thesis
    using assms by (simp add: host_trials_def connect_host_def go_on_def split: option.split sum.split fault.split)
next
  case (Tcp host)
  show ?thesis
  proof (cases "wd_lookup w host (port_at config i)")
    case None
    with Tcp assms show ?thesis by (simp add: host_trials_def connect_host_def go_on_def)
  next
    case (Some r)
    show ?thesis
    proof (cases r)
      case (Inl e)
      with Tcp Some assms show ?thesis by (simp add: host_trials_def connect_host_def go_on_def)
    next
      case (Inr addrs)
      let ?addrs = "addr_list w config addrs"
      have host: "connect_host c w config n addr (hostname_at config i) (port_at config i) =
          try_addrs (\<lambda>n ip. connect_once c config (wd_dial w n) (Addr_Tcp ip) (hostname_at config i) (port_at config i)) n None ?addrs"
        using Tcp Some Inr by (simp add: connect_host_def addr_list_def)
      show ?thesis
      proof (cases "?addrs = []")
        case True
        with Tcp Some Inr assms host show ?thesis by (simp add: host_trials_def go_on_def)
      next
        case False
        then have last: "try_addrs once n last_err ?addrs = try_addrs once n None ?addrs" for once
          by (cases ?addrs) simp_all
        show ?thesis
          using search_addrs [of ?addrs last_err "\<lambda>n. connect_once c config (wd_dial w n)" n "hostname_at config i" "port_at config i" ts]
            False Tcp Some Inr assms host last by (simp add: host_trials_def)
      qed
    qed
  qed
qed

lemma search_hosts:
  "(\<And>i. i \<in> set idxs \<Longrightarrow> addr_at config i \<noteq> None) \<Longrightarrow>
     connect_hosts c w config n last_err idxs =
       search (\<lambda>n. connect_once c config (wd_dial w n)) n last_err (concat (map (host_trials w config) idxs))"
proof (induction idxs arbitrary: n last_err)
  case (Cons i idxs)
  obtain addr where addr: "addr_at config i = Some addr" using Cons.prems [of i] by auto
  have "connect_hosts c w config m e idxs =
      search (\<lambda>n. connect_once c config (wd_dial w n)) m e (concat (map (host_trials w config) idxs))" for m e
    using Cons by simp
  then show ?case by (simp add: addr search_host go_on_def split: option.split sum.split fault.split)
qed simp

text \<open>Every index has an address once the hosts have been checked.\<close>

lemma checked_address: "check_hosts config = Inr () \<Longrightarrow> i < num_hosts config \<Longrightarrow> addr_at config i \<noteq> None"
  by (auto simp: check_hosts_def addr_at_def nth_opt_def num_hosts_def split: if_splits)

text \<open>\<open>shuffle\<close> permutes.\<close>

definition shuffles :: "world \<Rightarrow> bool" where
  "shuffles w \<longleftrightarrow> (\<forall>xs. mset (wd_shuffle w xs) = mset xs) \<and> (\<forall>as. mset (wd_shuffle_addrs w as) = mset as)"

lemma host_order_set: "shuffles w \<Longrightarrow> set (host_order w config) = {..<num_hosts config}"
proof -
  assume "shuffles w"
  then have "set (wd_shuffle w xs) = set xs" for xs by (metis shuffles_def mset_eq_setD)
  then show ?thesis by (auto simp: host_order_def Let_def)
qed

lemma connect_search:
  assumes "shuffles w" "check_hosts config = Inr ()"
  shows "connect c w config = search (\<lambda>n. connect_once c config (wd_dial w n)) 0 None (trials w config)"
proof -
  have "addr_at config i \<noteq> None" if "i \<in> set (host_order w config)" for i
    using that checked_address [OF assms(2)] host_order_set [OF assms(1)] by simp
  then show ?thesis unfolding trials_def using search_hosts by (simp add: connect_def assms(2))
qed

text \<open>Trials that all fail, and the error of the last one.\<close>

fun all_fail ::
  "(nat \<Rightarrow> addr \<Rightarrow> bytes option \<Rightarrow> u16 \<Rightarrow> (error fault + session) option) \<Rightarrow> nat \<Rightarrow> trial list \<Rightarrow> bool" where
  "all_fail dial n [] \<longleftrightarrow> True"
| "all_fail dial n (Hangs # ts) \<longleftrightarrow> False"
| "all_fail dial n (Fails e # ts) \<longleftrightarrow> all_fail dial n ts"
| "all_fail dial n (Dial a h p # ts) \<longleftrightarrow> (\<exists>e. dial n a h p = Some (Inl (Fault e))) \<and> all_fail dial (Suc n) ts"

definition dials :: "trial list \<Rightarrow> nat" where
  "dials ts = length (filter (\<lambda>t. case t of Dial _ _ _ \<Rightarrow> True | _ \<Rightarrow> False) ts)"

lemma dials_simps [simp]: "dials [] = 0" "dials (Hangs # ts) = dials ts" "dials (Fails e # ts) = dials ts"
  "dials (Dial a h p # ts) = Suc (dials ts)"
  by (simp_all add: dials_def)

lemma search_success:
  "search dial n last_err ts = Some (Inr s, m) \<longleftrightarrow>
     (\<exists>pre a h p post. ts = pre @ Dial a h p # post \<and> all_fail dial n pre \<and>
       dial (n + dials pre) a h p = Some (Inr s) \<and> m = Suc (n + dials pre))"
proof (induction ts arbitrary: n last_err)
  case (Cons t ts)
  have shift: "(\<exists>pre a h p post. t # ts = pre @ Dial a h p # post \<and> P pre a h p) \<longleftrightarrow>
      (\<exists>a h p. t = Dial a h p \<and> P [] a h p) \<or>
      (\<exists>pre a h p post. ts = pre @ Dial a h p # post \<and> P (t # pre) a h p)" for P
    by (auto simp: Cons_eq_append_conv) blast+
  show ?case
  proof (cases t)
    case Hangs
    then show ?thesis unfolding shift by simp
  next
    case (Fails e)
    then show ?thesis unfolding shift by (simp add: Cons.IH)
  next
    case (Dial a h p)
    show ?thesis
    proof (cases "\<exists>e. dial n a h p = Some (Inl (Fault e))")
      case True
      then obtain e where e: "dial n a h p = Some (Inl (Fault e))" ..
      then have "search dial n last_err (t # ts) = search dial (Suc n) (Some e) ts" by (simp add: Dial)
      then show ?thesis unfolding shift by (simp add: Dial e Cons.IH)
    next
      case False
      then show ?thesis unfolding shift
        by (auto simp: Dial split: option.split sum.split fault.split)
    qed
  qed
qed simp

text \<open>The error of the last trial.\<close>

fun last_error ::
  "(nat \<Rightarrow> addr \<Rightarrow> bytes option \<Rightarrow> u16 \<Rightarrow> (error fault + session) option) \<Rightarrow> nat \<Rightarrow> error option \<Rightarrow> trial list \<Rightarrow> error option" where
  "last_error dial n e [] = e"
| "last_error dial n e (Fails e' # ts) = last_error dial n (Some e') ts"
| "last_error dial n e (Dial a h p # ts) =
     last_error dial (Suc n) (case dial n a h p of Some (Inl (Fault e)) \<Rightarrow> Some e | _ \<Rightarrow> e) ts"
| "last_error dial n e (Hangs # ts) = last_error dial n e ts"

lemma search_failure: "all_fail dial n ts \<Longrightarrow> last_error dial n last_err ts = Some e \<Longrightarrow>
    search dial n last_err ts = Some (Inl (Fault e), n + dials ts)"
  by (induction dial n last_err ts rule: search.induct) auto

lemma search_no_panic:
  "(\<And>n a h p. dial n a h p \<noteq> Some (Inl Panic)) \<Longrightarrow> ts \<noteq> [] \<or> last_err \<noteq> None \<Longrightarrow> search dial n last_err ts \<noteq> Some (Inl Panic, m)"
  by (induction dial n last_err ts rule: search.induct) (auto split: option.splits sum.splits fault.splits)

section \<open>The check of the session\<close>

definition quiet :: "(error + unit) poll list \<Rightarrow> bool" where
  "quiet connection \<longleftrightarrow> set connection \<subseteq> {Pending}"

lemma quiet_poll: "quiet connection \<Longrightarrow> \<exists>rest. script_poll connection = (Pending, rest) \<and> quiet rest"
  by (cases connection) (auto simp: quiet_def)

text \<open>Waiting for the next message, which the stream turns into an item.\<close>

lemma attrs_loop_waits:
  assumes "holds (ss_responses t) (m # ms)" "quiet connection" "\<And>body. m \<noteq> ErrorResponse body"
  shows "\<exists>connection' rest r' r. quiet connection' \<and> quiet rest \<and> script_poll connection' = (Pending, rest) \<and>
    attrs_loop attrs connection t = attrs_loop attrs connection' (t\<lparr>ss_responses := r\<rparr>) \<and>
    responses_poll_next r = (Ready (Inr m), r') \<and> holds r' ms"
  using assms(1,2)
proof (induction "length (rs_receiver (ss_responses t))" arbitrary: t connection rule: less_induct)
  case less
  obtain rest where rest: "script_poll connection = (Pending, rest)" "quiet rest" using quiet_poll [OF less.prems(2)] by blast
  show ?case
  proof (cases rule: responses_poll_holds [OF less.prems(1)])
    case (1 r')
    let ?t = "t\<lparr>ss_responses := r'\<rparr>"
    have "attrs_loop attrs connection t = attrs_loop attrs rest ?t"
      using rest 1 by (simp add: attrs_loop.simps [of attrs connection t] simple_poll_next_def)
    moreover from less.hyps [of ?t rest] 1 rest(2)
    have "\<exists>connection' rest' r'' r. quiet connection' \<and> quiet rest' \<and> script_poll connection' = (Pending, rest') \<and>
      attrs_loop attrs rest ?t = attrs_loop attrs connection' (t\<lparr>ss_responses := r\<rparr>) \<and>
      responses_poll_next r = (Ready (Inr m), r'') \<and> holds r'' ms" by simp
    ultimately show ?thesis by simp
  next
    case (2 r')
    have "responses_poll_next (ss_responses t) = (Ready (Inr m), r')" using 2 assms(3) by (cases m) auto
    with 2 rest less.prems(2) show ?thesis
      by (intro exI [of _ connection] exI [of _ rest] exI [of _ r'] exI [of _ "ss_responses t"]) simp
  qed
qed

lemma attrs_loop_description:
  assumes "holds (ss_responses t) (RowDescription rd # ms)" "quiet connection"
    and "fields_loop (row_description_fields rd) = Inr fs"
  shows "\<exists>connection' t'. quiet connection' \<and> holds (ss_responses t') ms \<and> ss_columns t' = Some (map fd_name fs) \<and>
    attrs_loop attrs connection t = attrs_loop attrs connection' t'"
proof -
  obtain connection' rest r' r where r: "quiet rest" "script_poll connection' = (Pending, rest)"
    "attrs_loop attrs connection t = attrs_loop attrs connection' (t\<lparr>ss_responses := r\<rparr>)"
    "responses_poll_next r = (Ready (Inr (RowDescription rd)), r')" "holds r' ms"
    using attrs_loop_waits [OF assms(1,2)] by blast
  have "attrs_loop attrs connection' (t\<lparr>ss_responses := r\<rparr>) =
      attrs_loop attrs rest (t\<lparr>ss_responses := r', ss_columns := Some (map fd_name fs)\<rparr>)"
    using r assms(3)
    by (simp add: attrs_loop.simps [of attrs connection'] simple_poll_next_def item_of_def map_err_def)
  with r show ?thesis
    by (intro exI [of _ rest] exI [of _ "t\<lparr>ss_responses := r', ss_columns := Some (map fd_name fs)\<rparr>"]) simp
qed

lemma attrs_loop_row:
  assumes "holds (ss_responses t) (DataRow body # ms)" "quiet connection"
    and "ss_columns t = Some columns" "simple_row_new columns body = Inr row"
  shows "attrs_loop attrs connection t = Some (attrs_verdict attrs row)"
proof -
  obtain connection' rest r' r where r: "script_poll connection' = (Pending, rest)"
    "attrs_loop attrs connection t = attrs_loop attrs connection' (t\<lparr>ss_responses := r\<rparr>)"
    "responses_poll_next r = (Ready (Inr (DataRow body)), r')"
    using attrs_loop_waits [OF assms(1,2)] by blast
  then show ?thesis
    using assms(3,4)
    by (simp add: attrs_loop.simps [of attrs connection'] simple_poll_next_def item_of_def map_err_def)
qed

definition not_writable :: error where
  "not_writable = E_Connect (Io_Error PermissionDenied (Msg ''database does not allow writes''))"

definition not_read_only :: error where
  "not_read_only = E_Connect (Io_Error PermissionDenied (Msg ''database is not read only''))"

lemma show_query_sent:
  "simple_query (ascii ''SHOW transaction_read_only'') (client_new [Some ch]) =
     Some (Inr \<lparr>ss_responses = responses_new ch, ss_columns = None\<rparr>,
       after_request (tag_of CHR ''Q'' # frame (cstr_bytes (ascii ''SHOW transaction_read_only''))) (client_new [Some ch]))"
proof -
  let ?q = "ascii ''SHOW transaction_read_only''"
  have "0 \<notin> set ?q" by (simp add: ascii_def)
  then have "simple_encode ?q [] = Inr (tag_of CHR ''Q'' # frame (cstr_bytes ?q))"
    using frames_query [of ?q] by (simp add: simple_encode_def encoding_def frames_def cstr_bytes_def max_body_def)
  with send_request_ok [of "simple_encode ?q" "client_new [Some ch]" _ ch "[]"] show ?thesis
    by (simp add: simple_query_def client_new_def)
qed

lemma show_query_text:
  "request_text (Single (Raw (tag_of CHR ''Q'' # frame (cstr_bytes (ascii ''SHOW transaction_read_only''))))) =
     Some (ascii ''SHOW transaction_read_only'')"
proof -
  let ?q = "ascii ''SHOW transaction_read_only''"
  have "0 \<notin> set ?q" by (simp add: ascii_def)
  then have "query ?q [] = Inr (tag_of CHR ''Q'' # frame (cstr_bytes ?q))"
    using frames_query [of ?q] by (simp add: frames_def cstr_bytes_def max_body_def ascii_def)
  then show ?thesis by (rule query_text)
qed

lemma first_value_text:
  assumes "row_fits (v # vs)" "columns \<noteq> []" "case v of None \<Rightarrow> True | Some x \<Rightarrow> utf8_valid x"
  shows "\<exists>row. simple_row_new columns (row_of (v # vs)) = Inr row \<and> simple_try_get (By_Number 0) row = Inr v"
proof -
  let ?row = "\<lparr>sr_columns = columns, sr_body = row_of (v # vs), sr_ranges = ranges_of 0 (v # vs)\<rparr>"
  have "value_at (dr_storage (row_of (v # vs))) (ranges_of 0 (v # vs)) 0 = Inr v" using value_at_row [of 0 "v # vs"] by simp
  moreover have "from_sql_nullable (option_from_sql str_from_sql) TEXT v = Inr v"
    using assms(3) by (cases v) (simp_all add: from_sql_nullable_def option_from_sql_def str_from_sql_def has_name_def text_from_sql_def from_utf8_def)
  ultimately have "simple_try_get (By_Number 0) ?row = Inr v"
    using assms(2) by (simp add: simple_try_get_def map_err_def)
  with assms(1) show ?thesis by (simp add: simple_row_new_def ranges_row_of)
qed

lemma session_verdict:
  assumes "quiet connection" "answers_with ch (RowDescription rd # DataRow (row_of (v # vs)) # ms)"
    and "fields_loop (row_description_fields rd) = Inr (f # fs)" "row_fits (v # vs)"
    and "case v of None \<Rightarrow> True | Some x \<Rightarrow> utf8_valid x"
  shows "\<exists>client. check_attrs attrs connection (client_new [Some ch]) =
      Some (if attrs = Read_Write \<and> v = Some (ascii ''on'') then Inl (Fault not_writable)
            else if attrs = Read_Only \<and> v = Some (ascii ''off'') then Inl (Fault not_read_only)
            else Inr (), client) \<and>
    map request_text (ic_requests client) = (if attrs = Any then [] else [Some (ascii ''SHOW transaction_read_only'')])"
proof (cases "attrs = Any")
  case True
  then show ?thesis by (simp add: check_attrs_def client_new_def)
next
  case False
  obtain rest where rest: "script_poll connection = (Pending, rest)" "quiet rest" using quiet_poll [OF assms(1)] by blast
  let ?t = "\<lparr>ss_responses = responses_new ch, ss_columns = None\<rparr>"
  have "holds (ss_responses ?t) (RowDescription rd # DataRow (row_of (v # vs)) # ms)" using assms(2) by (simp add: answers_with_def)
  from attrs_loop_description [OF this rest(2) assms(3)] obtain connection' t' where
    t': "quiet connection'" "holds (ss_responses t') (DataRow (row_of (v # vs)) # ms)" "ss_columns t' = Some (map fd_name (f # fs))"
    "attrs_loop attrs rest ?t = attrs_loop attrs connection' t'" by blast
  obtain row where row: "simple_row_new (map fd_name (f # fs)) (row_of (v # vs)) = Inr row" "simple_try_get (By_Number 0) row = Inr v"
    using first_value_text [OF assms(4) _ assms(5), of "map fd_name (f # fs)"] by auto
  from attrs_loop_row [OF t'(2,1,3) row(1)] t'(4) have "attrs_loop attrs rest ?t = Some (attrs_verdict attrs row)" by simp
  moreover have "ic_requests (after_request b (client_new [Some ch])) = [Single (Raw b)]" for b
    by (simp add: after_request_def client_new_def)
  ultimately show ?thesis
    using False rest(1) row(2) show_query_text
    by (simp add: check_attrs_def show_query_sent attrs_verdict_def not_writable_def not_read_only_def)
qed

section \<open>Panics\<close>

lemma once_no_panic:
  assumes "cf_target_session_attrs config = Any"
  shows "connect_once c config d addr hostname port \<noteq> Some (Inl Panic)"
  using connect_raw_never_panics [where config = "startup_config.truncate config"] assms
  by (auto simp: connect_once_def check_attrs_def split: option.splits sum.splits)

lemma trials_not_empty:
  assumes "shuffles w" "check_hosts config = Inr ()"
  shows "trials w config \<noteq> []"
proof -
  have "num_hosts config \<noteq> 0" using assms(2) by (auto simp: check_hosts_def num_hosts_def split: if_splits)
  then have "0 \<in> set (host_order w config)" using host_order_set [OF assms(1)] by simp
  moreover have "host_trials w config 0 \<noteq> []"
    using checked_address [OF assms(2), of 0] \<open>num_hosts config \<noteq> 0\<close>
    by (auto simp: host_trials_def split: option.splits host.splits sum.splits)
  ultimately show ?thesis by (auto simp: trials_def)
qed

section \<open>Cancelling\<close>

text \<open>What a cancellation writes for a session, after the bytes that ask for TLS, if any.\<close>

definition cancel_frame :: "session_info \<Rightarrow> bytes" where
  "cancel_frame info = be_word (16 :: i32) @ be_word (80877102 :: i32) @ be_word (si_process_id info) @ be_word (si_secret_key info)"

definition ssl_frame :: bytes where
  "ssl_frame = be_word (8 :: i32) @ be_word (80877103 :: i32)"

lemma cancel_request_bytes:
  "cancel_request (si_process_id info) (si_secret_key info) [] = Some (cancel_frame info)"
  by (simp add: infallible_messages cancel_frame_def frame_def)

lemma connect_socket_peer:
  "connect_socket d addr port t u k = Some (Inr s) \<Longrightarrow> connect_socket d' addr port t u k = Some (Inr s') \<Longrightarrow> s = s'"
  by (auto simp: connect_socket_def split: option.splits addr.splits)

lemma negotiation_writes: "snd (connect_tls env mode neg host) \<in> {[], ssl_frame}"
  by (auto simp: connect_tls_def tls_handshake_def ssl_request_some ssl_frame_def split: option.splits sum.splits)

lemma plain_not_required: "fst (connect_tls env Ssl_Require neg host) \<noteq> Inr Raw_Stream"
  by (auto simp: connect_tls_def tls_handshake_def ssl_request_some split: option.splits sum.splits)

lemma cancel_raw_writes:
  "case cancel_query_raw tls env mode neg host (si_process_id info) (si_secret_key info) of (r, plain, secret) \<Rightarrow>
     \<exists>pre\<in>{[], ssl_frame}.
       (plain = pre \<and> secret \<in> {[], cancel_frame info} \<or>
        plain = pre @ cancel_frame info \<and> secret = [] \<and> mode \<noteq> Ssl_Require) \<and>
       (r = Inr () \<longrightarrow> plain @ secret = pre @ cancel_frame info)"
proof -
  obtain x pre where x: "connect_tls tls mode neg host = (x, pre)" by (cases "connect_tls tls mode neg host")
  have pre: "pre \<in> {[], ssl_frame}" using negotiation_writes [of tls mode neg host] x by simp
  show ?thesis
  proof (cases x)
    case (Inl e)
    with x pre show ?thesis by (auto simp: cancel_query_raw_def)
  next
    case (Inr stream)
    have "mode \<noteq> Ssl_Require" if "stream = Raw_Stream" using plain_not_required [of tls neg host] x Inr that by auto
    with x pre Inr show ?thesis
      by (cases stream) (auto simp: cancel_query_raw_def cancel_request_bytes)
  qed
qed

section \<open>Samples\<close>

text \<open>A network of sockets: the first connection is refused, the second reaches a server that asks for no password.\<close>

definition sample_tls :: tls_env where
  "sample_tls = \<lparr>te_can_connect = False, te_write = None, te_read = Inr 78, te_connect = Inr None\<rparr>"

definition sample_dial :: "nat \<Rightarrow> dial" where
  "sample_dial n =
     \<lparr>dl_connect = Some (Duration 0 0, if n = 0 then Inl (Io_Error OtherKind (Msg ''refused'')) else Inr ()),
      dl_nodelay = Inr (), dl_user_timeout = Inr (), dl_keepalive = Inr (), dl_make_tls = (\<lambda>_. Inr sample_tls),
      dl_net = (\<lambda>_ _. [Inr (Async AuthenticationOk), Inr (Async (ReadyForQuery 73))]), dl_send_result = (\<lambda>_. None),
      dl_whoami = Inr (ascii ''u''), dl_samples = [], dl_answer = None, dl_connection = []\<rparr>"

definition sample_world :: world where
  "sample_world =
     \<lparr>wd_lookup = (\<lambda>_ _. Some (Inr [])), wd_shuffle = id, wd_shuffle_addrs = id, wd_dial = sample_dial\<rparr>"

definition hosts_config :: config where
  "hosts_config = set_ssl_mode Ssl_Disable (add_host_path (ascii ''/b'') (add_host_path (ascii ''/a'') config_new))"

lemma sample_world_ok: "shuffles sample_world" "check_hosts hosts_config = Inr ()"
  by (simp_all add: shuffles_def sample_world_def check_hosts_def hosts_config_def config_new_def setter_defs)

lemma sample_trials:
  "trials sample_world hosts_config = [Dial (Addr_Unix (ascii ''/a'')) None 5432, Dial (Addr_Unix (ascii ''/b'')) None 5432]"
  by (simp add: trials_def host_order_def num_hosts_def host_trials_def addr_at_def hostname_at_def port_at_def nth_opt_def
      hosts_config_def config_new_def setter_defs)

lemma sample_refused:
  "connect_once c hosts_config (sample_dial 0) a h p = Some (Inl (Fault (E_Connect (Io_Error OtherKind (Msg ''refused'')))))"
  by (simp add: connect_once_def connect_socket_def connect_with_timeout_def hosts_config_def config_new_def
      sample_dial_def setter_defs)

lemma next_async:
  assumes "st_buf s = messages_empty" "st_inner s = Inr (Async m) # rest" "m \<noteq> NegotiateProtocolVersion"
  shows "next_skipping s = (Inr (Some m), s\<lparr>st_inner := rest\<rparr>)"
proof -
  have "messages_next messages_empty = Inr (None, messages_empty)"
    by (simp add: messages_next_def messages_empty_def parse_with_mode_short)
  then have "try_next s = (Inr (Some m), s\<lparr>st_inner := rest\<rparr>)" using assms(1,2) by (simp add: try_next_def)
  with assms(3) show ?thesis by (cases m) (simp_all add: next_skipping.simps [of s])
qed

lemma sample_reached: "\<exists>s. connect_once c hosts_config (sample_dial (Suc 0)) (Addr_Unix x) None p = Some (Inr s)"
proof -
  let ?cf = "startup_config.truncate hosts_config" and ?d = "sample_dial (Suc 0)"
  let ?s = "\<lparr>st_inner = dl_net ?d Raw_Stream Standard, st_buf = messages_empty, st_delayed = [], st_sent = [],
      st_send_result = dl_send_result ?d, st_channel_binding = None\<rparr>"
  have params: "startup_params ?cf (ascii ''u'') = [(ascii ''client_encoding'', ascii ''UTF8''), (ascii ''user'', ascii ''u'')]"
    by (simp add: startup_params_def opt_param_def startup_config.defs hosts_config_def config_new_def setter_defs)
  have "\<exists>buf. startup_message [(ascii ''client_encoding'', ascii ''UTF8''), (ascii ''user'', ascii ''u'')] [] = Inr buf"
    by (simp add: startup_message_def ascii_def write_body_def write_cstr_eq frame_def cstr_bytes_def)
  then obtain buf where buf: "startup_message (startup_params ?cf (ascii ''u'')) [] = Inr buf" unfolding params by blast
  let ?t = "?s\<lparr>st_sent := [Raw buf]\<rparr>"
  have sent: "startup ?cf (ascii ''u'') ?s = (Inr (), ?t)"
    using buf by (simp add: startup_def bind_op_def lift_def send_def sample_dial_def)
  have "next_skipping ?t = (Inr (Some AuthenticationOk), ?t\<lparr>st_inner := [Inr (Async (ReadyForQuery 73))]\<rparr>)"
    by (rule next_async) (simp_all add: sample_dial_def)
  then have auth: "authenticate c ?cf (ascii ''u'') [] ?t = (Inr (), ?t\<lparr>st_inner := [Inr (Async (ReadyForQuery 73))]\<rparr>)"
    by (simp add: authenticate_def authenticate_method_def bind_op_def lift_def ret_def can_skip_channel_binding_def
        startup_config.defs hosts_config_def config_new_def setter_defs)
  have "next_skipping (?t\<lparr>st_inner := [Inr (Async (ReadyForQuery 73))]\<rparr>) =
      (Inr (Some (ReadyForQuery 73)), ?t\<lparr>st_inner := [Inr (Async (ReadyForQuery 73))], st_inner := []\<rparr>)"
    by (rule next_async) simp_all
  then have "\<exists>info u. read_info (?t\<lparr>st_inner := [Inr (Async (ReadyForQuery 73))]\<rparr>) = (Inr info, u)"
    by (simp add: read_info_def read_info_loop.simps)
  with sent auth have "\<exists>info u. connect_raw c sample_tls (dl_net ?d) (dl_send_result ?d) (dl_whoami ?d) [] False ?cf = Inr (info, u)"
    by (auto simp: connect_raw_def connect_tls_def bind_op_def stream_channel_binding_def
        startup_config.defs hosts_config_def config_new_def setter_defs sample_dial_def)
  then obtain info u where
    raw: "connect_raw c sample_tls (dl_net ?d) (dl_send_result ?d) (dl_whoami ?d) [] False ?cf = Inr (info, u)" by blast
  have d: "dl_connect ?d = Some (Duration 0 0, Inr ())" "dl_make_tls ?d = (\<lambda>_. Inr sample_tls)" "dl_samples ?d = []"
    by (simp_all add: sample_dial_def)
  have cf: "cf_connect_timeout hosts_config = None" "cf_target_session_attrs hosts_config = Any"
    by (simp_all add: hosts_config_def config_new_def setter_defs)
  show ?thesis by (simp add: connect_once_def connect_socket_def connect_with_timeout_def check_attrs_def d cf raw)
qed

section \<open>The properties\<close>

text \<open>
  C6: connecting is a search through the hosts of the configuration and, for each, the addresses it resolves to, in the order given or
  that of the shuffle: it succeeds exactly with the first trial that succeeds when all before it have failed, without another connection, and
  when all have failed it reports the error of the last one.
\<close>

theorem connect_first_success:
  assumes "shuffles w" "check_hosts config = Inr ()"
  shows "(connect c w config = Some (Inr s, m) \<longleftrightarrow>
      (\<exists>pre a h p post. trials w config = pre @ Dial a h p # post \<and>
        all_fail (\<lambda>n. connect_once c config (wd_dial w n)) 0 pre \<and>
        connect_once c config (wd_dial w (dials pre)) a h p = Some (Inr s) \<and> m = Suc (dials pre))) \<and>
    (all_fail (\<lambda>n. connect_once c config (wd_dial w n)) 0 (trials w config) \<longrightarrow>
      (\<exists>e. last_error (\<lambda>n. connect_once c config (wd_dial w n)) 0 None (trials w config) = Some e \<and>
        connect c w config = Some (Inl (Fault e), dials (trials w config))))"
proof -
  have some: "last_error dial n e ts \<noteq> None" if "ts \<noteq> [] \<or> e \<noteq> None" "all_fail dial n ts" for dial n e ts
    using that by (induction dial n e ts rule: last_error.induct) auto
  show ?thesis
    using trials_not_empty [OF assms] some [of "trials w config" None "\<lambda>n. connect_once c config (wd_dial w n)" 0]
    by (auto simp: connect_search [OF assms] search_success search_failure)
qed

theorem connect_first_success_witness:
  "\<exists>s. connect sample_crates sample_world hosts_config = Some (Inr s, 2) \<and>
     connect_once sample_crates hosts_config (sample_dial 1) (Addr_Unix (ascii ''/b'')) None 5432 = Some (Inr s)"
proof -
  let ?dial = "\<lambda>n. connect_once sample_crates hosts_config (wd_dial sample_world n)"
  have dial: "wd_dial sample_world = sample_dial" by (simp add: sample_world_def)
  obtain s where s: "connect_once sample_crates hosts_config (sample_dial (Suc 0)) (Addr_Unix (ascii ''/b'')) None 5432 = Some (Inr s)"
    using sample_reached [of sample_crates "ascii ''/b''" 5432] by auto
  have fail: "all_fail ?dial 0 [Dial (Addr_Unix (ascii ''/a'')) None 5432]" by (simp add: dial sample_refused)
  have "\<exists>pre a h p post. trials sample_world hosts_config = pre @ Dial a h p # post \<and> all_fail ?dial 0 pre \<and>
      connect_once sample_crates hosts_config (wd_dial sample_world (dials pre)) a h p = Some (Inr s) \<and> 2 = Suc (dials pre)"
    by (rule exI [of _ "[Dial (Addr_Unix (ascii ''/a'')) None 5432]"], rule exI [of _ "Addr_Unix (ascii ''/b'')"],
        rule exI [of _ None], rule exI [of _ 5432], rule exI [of _ "[]"])
      (use fail s dial in \<open>simp add: sample_trials\<close>)
  with connect_first_success [OF sample_world_ok, of sample_crates s 2] have "connect sample_crates sample_world hosts_config = Some (Inr s, 2)" by blast
  with s show ?thesis by auto
qed

text \<open>
  No answer of the network or the servers makes connecting panic when the session is not checked: the \<open>unwrap\<close>s of the address of a host
  and of the last error cannot fail.
\<close>

lemma connect_never_panics:
  assumes "shuffles w" "cf_target_session_attrs config = Any"
  shows "connect c w config \<noteq> Some (Inl Panic, m)"
proof (cases "check_hosts config")
  case (Inr u)
  then have ok: "check_hosts config = Inr ()" by simp
  show ?thesis
    unfolding connect_search [OF assms(1) ok]
    by (rule search_no_panic) (use once_no_panic [OF assms(2)] trials_not_empty [OF assms(1) ok] in auto)
qed (simp add: connect_def)

theorem connect_never_panics_witness: "connect sample_crates sample_world hosts_config \<noteq> Some (Inl Panic, 0)"
  by (rule connect_never_panics [OF sample_world_ok(1)]) (simp add: hosts_config_def config_new_def setter_defs)

text \<open>
  C14: for \<open>read-write\<close> and \<open>read-only\<close> the one request made of a new session is the simple query \<open>SHOW transaction_read_only\<close>, as
  a server reads it; for \<open>any\<close> nothing is asked. The session is accepted exactly when the answer to it allows what the
  configuration asks for, however the answer is divided and however late it comes: for \<open>read-write\<close> it is not \<open>on\<close>, for
  \<open>read-only\<close> it is not \<open>off\<close>.
\<close>

theorem session_checked:
  assumes "quiet connection" "answers_with ch (RowDescription rd # DataRow (row_of (v # vs)) # ms)"
    and "fields_loop (row_description_fields rd) = Inr (f # fs)" "row_fits (v # vs)"
    and "case v of None \<Rightarrow> True | Some x \<Rightarrow> utf8_valid x"
  shows "\<exists>client. check_attrs attrs connection (client_new [Some ch]) =
      Some (if attrs = Read_Write \<and> v = Some (ascii ''on'') then Inl (Fault not_writable)
            else if attrs = Read_Only \<and> v = Some (ascii ''off'') then Inl (Fault not_read_only)
            else Inr (), client) \<and>
    map request_text (ic_requests client) = (if attrs = Any then [] else [Some (ascii ''SHOW transaction_read_only'')])"
  using assms by (rule session_verdict)

definition show_column :: field where
  "show_column = \<lparr>fd_name = ascii ''transaction_read_only'', fd_table_oid = 0, fd_column_id = 0, fd_type_oid = 25, fd_type_size = -1,
     fd_type_modifier = -1, fd_format = 0\<rparr>"

definition show_answer :: "message list" where
  "show_answer = [RowDescription \<lparr>rd_storage = fs_buf (mk_fields [show_column]), rd_len = fs_remaining (mk_fields [show_column])\<rparr>,
     DataRow (row_of [Some (ascii ''on'')])]"

theorem session_checked_witness:
  "\<exists>client. check_attrs Read_Write [Pending] (client_new [Some (channel_of show_answer)]) = Some (Inl (Fault not_writable), client) \<and>
     map request_text (ic_requests client) = [Some (ascii ''SHOW transaction_read_only'')]"
proof -
  let ?rd = "\<lparr>rd_storage = fs_buf (mk_fields [show_column]), rd_len = fs_remaining (mk_fields [show_column])\<rparr>"
  have "answers_with (channel_of show_answer) show_answer"
    by (rule channel_of_answers)
      (simp add: show_answer_def sendable_def wf_message_def message_wire_def max_body_def mk_fields_def field_bytes_def
        show_column_def cstr_bytes_def ascii_def row_of_def nullable_bytes_def)
  then have answers: "answers_with (channel_of show_answer) (RowDescription ?rd # DataRow (row_of (Some (ascii ''on'') # [])) # [])"
    by (simp only: show_answer_def)
  have "field_ok show_column"
    using utf8_valid_ascii [of "fd_name show_column"] by (simp add: field_ok_def show_column_def ascii_def)
  then have "fields_loop (mk_fields [show_column]) = Inr [show_column]"
    using drain_collect [OF fields_loop.simps field_source.collect_mk_sz [of "[show_column]"]] by simp
  moreover have "row_description_fields ?rd = mk_fields [show_column]" by (simp add: row_description_fields_def mk_fields_def)
  ultimately have fields: "fields_loop (row_description_fields ?rd) = Inr (show_column # [])" by simp
  have "row_fits (Some (ascii ''on'') # [])" "utf8_valid (ascii ''on'')" "quiet [Pending]"
    using utf8_valid_ascii [of "ascii ''on''"] by (simp_all add: row_fits_def fits_i32_def quiet_def ascii_def)
  with session_checked [OF _ answers fields, of "[Pending]" Read_Write] show ?thesis by simp
qed

text \<open>
  C30: a cancellation goes to the server of its session and carries the key of that session: what is written is, after the request for TLS if
  there is one, exactly one cancel request, all of it when the operation succeeds; when TLS is required none of it is written
  in the clear.
\<close>

theorem cancel_reaches_session:
  assumes "connect_once c config d addr hostname port = Some (Inr s)"
    and "cancel_query make_tls d' env (cancel_token_of s) = Some (r, Some (socket, plain, secret))"
  shows "socket = se_socket s \<and>
    (\<exists>pre\<in>{[], ssl_frame}.
      (plain = pre \<and> secret \<in> {[], cancel_frame (se_info s)} \<or>
       plain = pre @ cancel_frame (se_info s) \<and> secret = [] \<and> cf_ssl_mode config \<noteq> Ssl_Require) \<and>
      (r = Inr () \<longrightarrow> plain @ secret = pre @ cancel_frame (se_info s)))"
proof -
  let ?socket = "\<lambda>d. connect_socket d addr port (cf_connect_timeout config) (cf_tcp_user_timeout config) (keepalive_of config)"
  from assms(1) have s: "?socket d = Some (Inr (se_socket s))" "se_ssl_mode s = cf_ssl_mode config"
    "se_socket_config s = \<lparr>so_addr = addr, so_hostname = hostname, so_port = port, so_connect_timeout = cf_connect_timeout config,
      so_tcp_user_timeout = cf_tcp_user_timeout config, so_keepalive = keepalive_of config\<rparr>"
    by (auto simp: connect_once_def split: option.splits sum.splits prod.splits)
  obtain tls where tls: "?socket d' = Some (Inr socket)"
    "cancel_query_raw tls env (cf_ssl_mode config) (se_ssl_negotiation s) (hostname \<noteq> None) (si_process_id (se_info s))
      (si_secret_key (se_info s)) = (r, plain, secret)"
    using assms(2) s by (auto simp: cancel_query_def cancel_token_of_def split: option.splits sum.splits prod.splits)
  have "socket = se_socket s" by (rule connect_socket_peer [OF tls(1) s(1)])
  with cancel_raw_writes [where tls = tls and env = env and mode = "cf_ssl_mode config" and neg = "se_ssl_negotiation s"
      and host = "hostname \<noteq> None" and info = "se_info s"] tls(2)
  show ?thesis by simp
qed

theorem cancel_reaches_session_witness:
  "\<exists>s r socket plain secret. connect_once sample_crates hosts_config (sample_dial 1) (Addr_Unix (ascii ''/b'')) None 5432 = Some (Inr s) \<and>
     cancel_query (\<lambda>_. Inr sample_tls) (sample_dial 1) \<lparr>ce_write = Inr (), ce_flush = Inr (), ce_shutdown = Inr ()\<rparr>
       (cancel_token_of s) = Some (r, Some (socket, plain, secret)) \<and> socket = se_socket s \<and>
     (r = Inr () \<longrightarrow> plain @ secret \<in> {cancel_frame (se_info s), ssl_frame @ cancel_frame (se_info s)})"
proof -
  let ?env = "\<lparr>ce_write = Inr (), ce_flush = Inr (), ce_shutdown = Inr ()\<rparr>"
  obtain s where s: "connect_once sample_crates hosts_config (sample_dial 1) (Addr_Unix (ascii ''/b'')) None 5432 = Some (Inr s)"
    using sample_reached [of sample_crates "ascii ''/b''" 5432] by auto
  have so: "se_socket_config s = \<lparr>so_addr = Addr_Unix (ascii ''/b''), so_hostname = None, so_port = 5432,
      so_connect_timeout = cf_connect_timeout hosts_config, so_tcp_user_timeout = cf_tcp_user_timeout hosts_config,
      so_keepalive = keepalive_of hosts_config\<rparr>"
    using s by (auto simp: connect_once_def split: option.splits sum.splits prod.splits)
  have "dl_connect (sample_dial 1) = Some (Duration 0 0, Inr ())" "cf_connect_timeout hosts_config = None"
    by (simp_all add: sample_dial_def hosts_config_def config_new_def setter_defs)
  then have "\<exists>r socket plain secret.
      cancel_query (\<lambda>_. Inr sample_tls) (sample_dial 1) ?env (cancel_token_of s) = Some (r, Some (socket, plain, secret))"
    by (simp add: cancel_query_def cancel_token_of_def so connect_socket_def connect_with_timeout_def split: prod.split)
  then obtain r socket plain secret where
    x: "cancel_query (\<lambda>_. Inr sample_tls) (sample_dial 1) ?env (cancel_token_of s) = Some (r, Some (socket, plain, secret))" by blast
  from cancel_reaches_session [OF s x] have "socket = se_socket s"
    "r = Inr () \<longrightarrow> plain @ secret \<in> {cancel_frame (se_info s), ssl_frame @ cancel_frame (se_info s)}" by auto
  with s x show ?thesis by blast
qed

end
