(* ===== verification/Type_Table.thy ===== *)
theory Type_Table
  imports Rows
begin

text \<open>
  The table of the built-in types (\<open>opengauss-types/src/type_gen.rs\<close>, a generated file): the enumeration \<open>Inner\<close>, with the
  identifier, kind and name of each of its 185 fieldless variants and the lookup of an identifier, and the functions of \<open>Type\<close>
  (\<open>lib.rs\<close>) over it. The variant \<open>Other\<close> of the enumeration is the constructor \<open>Other\<close> of \<open>pg_type\<close>, and a variant of the
  table is \<open>Builtin\<close> of its identifier, which \<open>from_oid_oid\<close> justifies: the identifiers are distinct.
\<close>

section \<open>The variants\<close>

text \<open>The variants \<open>Inner::X\<close> in their order, as \<open>I_X\<close>, in six pages.\<close>

datatype (plugins only: code) inner1 =
    I_Bool | I_Bytea | I_Char | I_Name | I_Int8 | I_Int2 | I_Int2Vector | I_Int4 | I_Regproc | I_Text | I_Oid | I_Tid | I_Xid
    | I_Cid | I_OidVector | I_PgDdlCommand | I_Json | I_Xml | I_XmlArray | I_PgNodeTree | I_JsonArray | I_TableAmHandler
    | I_Xid8Array | I_IndexAmHandler | I_Point | I_Lseg | I_Path | I_Box | I_Polygon | I_Line | I_LineArray

datatype (plugins only: code) inner2 =
    I_Cidr | I_CidrArray | I_Float4 | I_Float8 | I_Unknown | I_Circle | I_CircleArray | I_Macaddr8 | I_Macaddr8Array | I_Money
    | I_MoneyArray | I_Macaddr | I_Inet | I_BoolArray | I_ByteaArray | I_CharArray | I_NameArray | I_Int2Array
    | I_Int2VectorArray | I_Int4Array | I_RegprocArray | I_TextArray | I_TidArray | I_XidArray | I_CidArray | I_OidVectorArray
    | I_BpcharArray | I_VarcharArray | I_Int8Array | I_PointArray | I_LsegArray

datatype (plugins only: code) inner3 =
    I_PathArray | I_BoxArray | I_Float4Array | I_Float8Array | I_PolygonArray | I_OidArray | I_Aclitem | I_AclitemArray
    | I_MacaddrArray | I_InetArray | I_Bpchar | I_Varchar | I_Date | I_Time | I_Timestamp | I_TimestampArray | I_DateArray
    | I_TimeArray | I_Timestamptz | I_TimestamptzArray | I_Interval | I_IntervalArray | I_NumericArray | I_CstringArray
    | I_Timetz | I_TimetzArray | I_Bit | I_BitArray | I_Varbit | I_VarbitArray | I_Numeric

datatype (plugins only: code) inner4 =
    I_Refcursor | I_RefcursorArray | I_Regprocedure | I_Regoper | I_Regoperator | I_Regclass | I_Regtype | I_RegprocedureArray
    | I_RegoperArray | I_RegoperatorArray | I_RegclassArray | I_RegtypeArray | I_Record | I_Cstring | I_Any | I_Anyarray
    | I_Void | I_Trigger | I_LanguageHandler | I_Internal | I_Anyelement | I_RecordArray | I_Anynonarray | I_TxidSnapshotArray
    | I_Uuid | I_UuidArray | I_TxidSnapshot | I_FdwHandler | I_PgLsn | I_PgLsnArray | I_TsmHandler

datatype (plugins only: code) inner5 =
    I_PgNdistinct | I_PgDependencies | I_Anyenum | I_TsVector | I_Tsquery | I_GtsVector | I_TsVectorArray | I_GtsVectorArray
    | I_TsqueryArray | I_Regconfig | I_RegconfigArray | I_Regdictionary | I_RegdictionaryArray | I_Jsonb | I_JsonbArray
    | I_AnyRange | I_EventTrigger | I_Int4Range | I_Int4RangeArray | I_NumRange | I_NumRangeArray | I_TsRange | I_TsRangeArray
    | I_TstzRange | I_TstzRangeArray | I_DateRange | I_DateRangeArray | I_Int8Range | I_Int8RangeArray | I_Jsonpath
    | I_JsonpathArray

datatype (plugins only: code) inner6 =
    I_Regnamespace | I_RegnamespaceArray | I_Regrole | I_RegroleArray | I_Regcollation | I_RegcollationArray
    | I_Int4multiRange | I_NummultiRange | I_TsmultiRange | I_TstzmultiRange | I_DatemultiRange | I_Int8multiRange
    | I_AnymultiRange | I_AnycompatiblemultiRange | I_PgBrinBloomSummary | I_PgBrinMinmaxMultiSummary | I_PgMcvList
    | I_PgSnapshot | I_PgSnapshotArray | I_Xid8 | I_Anycompatible | I_Anycompatiblearray | I_Anycompatiblenonarray
    | I_AnycompatibleRange | I_Int4multiRangeArray | I_NummultiRangeArray | I_TsmultiRangeArray | I_TstzmultiRangeArray
    | I_DatemultiRangeArray | I_Int8multiRangeArray

datatype inner =
    In1 inner1 | In2 inner2 | In3 inner3 | In4 inner4 | In5 inner5 | In6 inner6

section \<open>Identifiers\<close>

primrec oid1 :: "inner1 \<Rightarrow> oid" where
  "oid1 I_Bool = 16" | "oid1 I_Bytea = 17" | "oid1 I_Char = 18" | "oid1 I_Name = 19" | "oid1 I_Int8 = 20" | "oid1 I_Int2 = 21"
  | "oid1 I_Int2Vector = 22" | "oid1 I_Int4 = 23" | "oid1 I_Regproc = 24" | "oid1 I_Text = 25" | "oid1 I_Oid = 26"
  | "oid1 I_Tid = 27" | "oid1 I_Xid = 28" | "oid1 I_Cid = 29" | "oid1 I_OidVector = 30" | "oid1 I_PgDdlCommand = 32"
  | "oid1 I_Json = 114" | "oid1 I_Xml = 142" | "oid1 I_XmlArray = 143" | "oid1 I_PgNodeTree = 194" | "oid1 I_JsonArray = 199"
  | "oid1 I_TableAmHandler = 269" | "oid1 I_Xid8Array = 271" | "oid1 I_IndexAmHandler = 325" | "oid1 I_Point = 600"
  | "oid1 I_Lseg = 601" | "oid1 I_Path = 602" | "oid1 I_Box = 603" | "oid1 I_Polygon = 604" | "oid1 I_Line = 628"
  | "oid1 I_LineArray = 629"

primrec oid2 :: "inner2 \<Rightarrow> oid" where
  "oid2 I_Cidr = 650" | "oid2 I_CidrArray = 651" | "oid2 I_Float4 = 700" | "oid2 I_Float8 = 701" | "oid2 I_Unknown = 705"
  | "oid2 I_Circle = 718" | "oid2 I_CircleArray = 719" | "oid2 I_Macaddr8 = 774" | "oid2 I_Macaddr8Array = 775"
  | "oid2 I_Money = 790" | "oid2 I_MoneyArray = 791" | "oid2 I_Macaddr = 829" | "oid2 I_Inet = 869"
  | "oid2 I_BoolArray = 1000" | "oid2 I_ByteaArray = 1001" | "oid2 I_CharArray = 1002" | "oid2 I_NameArray = 1003"
  | "oid2 I_Int2Array = 1005" | "oid2 I_Int2VectorArray = 1006" | "oid2 I_Int4Array = 1007" | "oid2 I_RegprocArray = 1008"
  | "oid2 I_TextArray = 1009" | "oid2 I_TidArray = 1010" | "oid2 I_XidArray = 1011" | "oid2 I_CidArray = 1012"
  | "oid2 I_OidVectorArray = 1013" | "oid2 I_BpcharArray = 1014" | "oid2 I_VarcharArray = 1015" | "oid2 I_Int8Array = 1016"
  | "oid2 I_PointArray = 1017" | "oid2 I_LsegArray = 1018"

primrec oid3 :: "inner3 \<Rightarrow> oid" where
  "oid3 I_PathArray = 1019" | "oid3 I_BoxArray = 1020" | "oid3 I_Float4Array = 1021" | "oid3 I_Float8Array = 1022"
  | "oid3 I_PolygonArray = 1027" | "oid3 I_OidArray = 1028" | "oid3 I_Aclitem = 1033" | "oid3 I_AclitemArray = 1034"
  | "oid3 I_MacaddrArray = 1040" | "oid3 I_InetArray = 1041" | "oid3 I_Bpchar = 1042" | "oid3 I_Varchar = 1043"
  | "oid3 I_Date = 1082" | "oid3 I_Time = 1083" | "oid3 I_Timestamp = 1114" | "oid3 I_TimestampArray = 1115"
  | "oid3 I_DateArray = 1182" | "oid3 I_TimeArray = 1183" | "oid3 I_Timestamptz = 1184" | "oid3 I_TimestamptzArray = 1185"
  | "oid3 I_Interval = 1186" | "oid3 I_IntervalArray = 1187" | "oid3 I_NumericArray = 1231" | "oid3 I_CstringArray = 1263"
  | "oid3 I_Timetz = 1266" | "oid3 I_TimetzArray = 1270" | "oid3 I_Bit = 1560" | "oid3 I_BitArray = 1561"
  | "oid3 I_Varbit = 1562" | "oid3 I_VarbitArray = 1563" | "oid3 I_Numeric = 1700"

primrec oid4 :: "inner4 \<Rightarrow> oid" where
  "oid4 I_Refcursor = 1790" | "oid4 I_RefcursorArray = 2201" | "oid4 I_Regprocedure = 2202" | "oid4 I_Regoper = 2203"
  | "oid4 I_Regoperator = 2204" | "oid4 I_Regclass = 2205" | "oid4 I_Regtype = 2206" | "oid4 I_RegprocedureArray = 2207"
  | "oid4 I_RegoperArray = 2208" | "oid4 I_RegoperatorArray = 2209" | "oid4 I_RegclassArray = 2210"
  | "oid4 I_RegtypeArray = 2211" | "oid4 I_Record = 2249" | "oid4 I_Cstring = 2275" | "oid4 I_Any = 2276"
  | "oid4 I_Anyarray = 2277" | "oid4 I_Void = 2278" | "oid4 I_Trigger = 2279" | "oid4 I_LanguageHandler = 2280"
  | "oid4 I_Internal = 2281" | "oid4 I_Anyelement = 2283" | "oid4 I_RecordArray = 2287" | "oid4 I_Anynonarray = 2776"
  | "oid4 I_TxidSnapshotArray = 2949" | "oid4 I_Uuid = 2950" | "oid4 I_UuidArray = 2951" | "oid4 I_TxidSnapshot = 2970"
  | "oid4 I_FdwHandler = 3115" | "oid4 I_PgLsn = 3220" | "oid4 I_PgLsnArray = 3221" | "oid4 I_TsmHandler = 3310"

primrec oid5 :: "inner5 \<Rightarrow> oid" where
  "oid5 I_PgNdistinct = 3361" | "oid5 I_PgDependencies = 3402" | "oid5 I_Anyenum = 3500" | "oid5 I_TsVector = 3614"
  | "oid5 I_Tsquery = 3615" | "oid5 I_GtsVector = 3642" | "oid5 I_TsVectorArray = 3643" | "oid5 I_GtsVectorArray = 3644"
  | "oid5 I_TsqueryArray = 3645" | "oid5 I_Regconfig = 3734" | "oid5 I_RegconfigArray = 3735" | "oid5 I_Regdictionary = 3769"
  | "oid5 I_RegdictionaryArray = 3770" | "oid5 I_Jsonb = 3802" | "oid5 I_JsonbArray = 3807" | "oid5 I_AnyRange = 3831"
  | "oid5 I_EventTrigger = 3838" | "oid5 I_Int4Range = 3904" | "oid5 I_Int4RangeArray = 3905" | "oid5 I_NumRange = 3906"
  | "oid5 I_NumRangeArray = 3907" | "oid5 I_TsRange = 3908" | "oid5 I_TsRangeArray = 3909" | "oid5 I_TstzRange = 3910"
  | "oid5 I_TstzRangeArray = 3911" | "oid5 I_DateRange = 3912" | "oid5 I_DateRangeArray = 3913" | "oid5 I_Int8Range = 3926"
  | "oid5 I_Int8RangeArray = 3927" | "oid5 I_Jsonpath = 4072" | "oid5 I_JsonpathArray = 4073"

primrec oid6 :: "inner6 \<Rightarrow> oid" where
  "oid6 I_Regnamespace = 4089" | "oid6 I_RegnamespaceArray = 4090" | "oid6 I_Regrole = 4096" | "oid6 I_RegroleArray = 4097"
  | "oid6 I_Regcollation = 4191" | "oid6 I_RegcollationArray = 4192" | "oid6 I_Int4multiRange = 4451"
  | "oid6 I_NummultiRange = 4532" | "oid6 I_TsmultiRange = 4533" | "oid6 I_TstzmultiRange = 4534"
  | "oid6 I_DatemultiRange = 4535" | "oid6 I_Int8multiRange = 4536" | "oid6 I_AnymultiRange = 4537"
  | "oid6 I_AnycompatiblemultiRange = 4538" | "oid6 I_PgBrinBloomSummary = 4600" | "oid6 I_PgBrinMinmaxMultiSummary = 4601"
  | "oid6 I_PgMcvList = 5017" | "oid6 I_PgSnapshot = 5038" | "oid6 I_PgSnapshotArray = 5039" | "oid6 I_Xid8 = 5069"
  | "oid6 I_Anycompatible = 5077" | "oid6 I_Anycompatiblearray = 5078" | "oid6 I_Anycompatiblenonarray = 5079"
  | "oid6 I_AnycompatibleRange = 5080" | "oid6 I_Int4multiRangeArray = 6150" | "oid6 I_NummultiRangeArray = 6151"
  | "oid6 I_TsmultiRangeArray = 6152" | "oid6 I_TstzmultiRangeArray = 6153" | "oid6 I_DatemultiRangeArray = 6155"
  | "oid6 I_Int8multiRangeArray = 6157"

primrec inner_oid :: "inner \<Rightarrow> oid" where
  "inner_oid (In1 t) = oid1 t"
| "inner_oid (In2 t) = oid2 t"
| "inner_oid (In3 t) = oid3 t"
| "inner_oid (In4 t) = oid4 t"
| "inner_oid (In5 t) = oid5 t"
| "inner_oid (In6 t) = oid6 t"

text \<open>\<open>Inner::from_oid\<close>: the arms of the match, in their order.\<close>

definition inner_from_oid :: "oid \<Rightarrow> inner option" where
  "inner_from_oid oid = (let n = unat oid in
     if n = 16 then Some (In1 I_Bool) else if n = 17 then Some (In1 I_Bytea) else if n = 18 then Some (In1 I_Char)
     else if n = 19 then Some (In1 I_Name) else if n = 20 then Some (In1 I_Int8) else if n = 21 then Some (In1 I_Int2)
     else if n = 22 then Some (In1 I_Int2Vector) else if n = 23 then Some (In1 I_Int4)
     else if n = 24 then Some (In1 I_Regproc) else if n = 25 then Some (In1 I_Text) else if n = 26 then Some (In1 I_Oid)
     else if n = 27 then Some (In1 I_Tid) else if n = 28 then Some (In1 I_Xid) else if n = 29 then Some (In1 I_Cid)
     else if n = 30 then Some (In1 I_OidVector) else if n = 32 then Some (In1 I_PgDdlCommand)
     else if n = 114 then Some (In1 I_Json) else if n = 142 then Some (In1 I_Xml) else if n = 143 then Some (In1 I_XmlArray)
     else if n = 194 then Some (In1 I_PgNodeTree) else if n = 199 then Some (In1 I_JsonArray)
     else if n = 269 then Some (In1 I_TableAmHandler) else if n = 271 then Some (In1 I_Xid8Array)
     else if n = 325 then Some (In1 I_IndexAmHandler) else if n = 600 then Some (In1 I_Point)
     else if n = 601 then Some (In1 I_Lseg) else if n = 602 then Some (In1 I_Path) else if n = 603 then Some (In1 I_Box)
     else if n = 604 then Some (In1 I_Polygon) else if n = 628 then Some (In1 I_Line)
     else if n = 629 then Some (In1 I_LineArray) else if n = 650 then Some (In2 I_Cidr)
     else if n = 651 then Some (In2 I_CidrArray) else if n = 700 then Some (In2 I_Float4)
     else if n = 701 then Some (In2 I_Float8) else if n = 705 then Some (In2 I_Unknown)
     else if n = 718 then Some (In2 I_Circle) else if n = 719 then Some (In2 I_CircleArray)
     else if n = 774 then Some (In2 I_Macaddr8) else if n = 775 then Some (In2 I_Macaddr8Array)
     else if n = 790 then Some (In2 I_Money) else if n = 791 then Some (In2 I_MoneyArray)
     else if n = 829 then Some (In2 I_Macaddr) else if n = 869 then Some (In2 I_Inet)
     else if n = 1000 then Some (In2 I_BoolArray) else if n = 1001 then Some (In2 I_ByteaArray)
     else if n = 1002 then Some (In2 I_CharArray) else if n = 1003 then Some (In2 I_NameArray)
     else if n = 1005 then Some (In2 I_Int2Array) else if n = 1006 then Some (In2 I_Int2VectorArray)
     else if n = 1007 then Some (In2 I_Int4Array) else if n = 1008 then Some (In2 I_RegprocArray)
     else if n = 1009 then Some (In2 I_TextArray) else if n = 1010 then Some (In2 I_TidArray)
     else if n = 1011 then Some (In2 I_XidArray) else if n = 1012 then Some (In2 I_CidArray)
     else if n = 1013 then Some (In2 I_OidVectorArray) else if n = 1014 then Some (In2 I_BpcharArray)
     else if n = 1015 then Some (In2 I_VarcharArray) else if n = 1016 then Some (In2 I_Int8Array)
     else if n = 1017 then Some (In2 I_PointArray) else if n = 1018 then Some (In2 I_LsegArray)
     else if n = 1019 then Some (In3 I_PathArray) else if n = 1020 then Some (In3 I_BoxArray)
     else if n = 1021 then Some (In3 I_Float4Array) else if n = 1022 then Some (In3 I_Float8Array)
     else if n = 1027 then Some (In3 I_PolygonArray) else if n = 1028 then Some (In3 I_OidArray)
     else if n = 1033 then Some (In3 I_Aclitem) else if n = 1034 then Some (In3 I_AclitemArray)
     else if n = 1040 then Some (In3 I_MacaddrArray) else if n = 1041 then Some (In3 I_InetArray)
     else if n = 1042 then Some (In3 I_Bpchar) else if n = 1043 then Some (In3 I_Varchar)
     else if n = 1082 then Some (In3 I_Date) else if n = 1083 then Some (In3 I_Time)
     else if n = 1114 then Some (In3 I_Timestamp) else if n = 1115 then Some (In3 I_TimestampArray)
     else if n = 1182 then Some (In3 I_DateArray) else if n = 1183 then Some (In3 I_TimeArray)
     else if n = 1184 then Some (In3 I_Timestamptz) else if n = 1185 then Some (In3 I_TimestamptzArray)
     else if n = 1186 then Some (In3 I_Interval) else if n = 1187 then Some (In3 I_IntervalArray)
     else if n = 1231 then Some (In3 I_NumericArray) else if n = 1263 then Some (In3 I_CstringArray)
     else if n = 1266 then Some (In3 I_Timetz) else if n = 1270 then Some (In3 I_TimetzArray)
     else if n = 1560 then Some (In3 I_Bit) else if n = 1561 then Some (In3 I_BitArray)
     else if n = 1562 then Some (In3 I_Varbit) else if n = 1563 then Some (In3 I_VarbitArray)
     else if n = 1700 then Some (In3 I_Numeric) else if n = 1790 then Some (In4 I_Refcursor)
     else if n = 2201 then Some (In4 I_RefcursorArray) else if n = 2202 then Some (In4 I_Regprocedure)
     else if n = 2203 then Some (In4 I_Regoper) else if n = 2204 then Some (In4 I_Regoperator)
     else if n = 2205 then Some (In4 I_Regclass) else if n = 2206 then Some (In4 I_Regtype)
     else if n = 2207 then Some (In4 I_RegprocedureArray) else if n = 2208 then Some (In4 I_RegoperArray)
     else if n = 2209 then Some (In4 I_RegoperatorArray) else if n = 2210 then Some (In4 I_RegclassArray)
     else if n = 2211 then Some (In4 I_RegtypeArray) else if n = 2249 then Some (In4 I_Record)
     else if n = 2275 then Some (In4 I_Cstring) else if n = 2276 then Some (In4 I_Any)
     else if n = 2277 then Some (In4 I_Anyarray) else if n = 2278 then Some (In4 I_Void)
     else if n = 2279 then Some (In4 I_Trigger) else if n = 2280 then Some (In4 I_LanguageHandler)
     else if n = 2281 then Some (In4 I_Internal) else if n = 2283 then Some (In4 I_Anyelement)
     else if n = 2287 then Some (In4 I_RecordArray) else if n = 2776 then Some (In4 I_Anynonarray)
     else if n = 2949 then Some (In4 I_TxidSnapshotArray) else if n = 2950 then Some (In4 I_Uuid)
     else if n = 2951 then Some (In4 I_UuidArray) else if n = 2970 then Some (In4 I_TxidSnapshot)
     else if n = 3115 then Some (In4 I_FdwHandler) else if n = 3220 then Some (In4 I_PgLsn)
     else if n = 3221 then Some (In4 I_PgLsnArray) else if n = 3310 then Some (In4 I_TsmHandler)
     else if n = 3361 then Some (In5 I_PgNdistinct) else if n = 3402 then Some (In5 I_PgDependencies)
     else if n = 3500 then Some (In5 I_Anyenum) else if n = 3614 then Some (In5 I_TsVector)
     else if n = 3615 then Some (In5 I_Tsquery) else if n = 3642 then Some (In5 I_GtsVector)
     else if n = 3643 then Some (In5 I_TsVectorArray) else if n = 3644 then Some (In5 I_GtsVectorArray)
     else if n = 3645 then Some (In5 I_TsqueryArray) else if n = 3734 then Some (In5 I_Regconfig)
     else if n = 3735 then Some (In5 I_RegconfigArray) else if n = 3769 then Some (In5 I_Regdictionary)
     else if n = 3770 then Some (In5 I_RegdictionaryArray) else if n = 3802 then Some (In5 I_Jsonb)
     else if n = 3807 then Some (In5 I_JsonbArray) else if n = 3831 then Some (In5 I_AnyRange)
     else if n = 3838 then Some (In5 I_EventTrigger) else if n = 3904 then Some (In5 I_Int4Range)
     else if n = 3905 then Some (In5 I_Int4RangeArray) else if n = 3906 then Some (In5 I_NumRange)
     else if n = 3907 then Some (In5 I_NumRangeArray) else if n = 3908 then Some (In5 I_TsRange)
     else if n = 3909 then Some (In5 I_TsRangeArray) else if n = 3910 then Some (In5 I_TstzRange)
     else if n = 3911 then Some (In5 I_TstzRangeArray) else if n = 3912 then Some (In5 I_DateRange)
     else if n = 3913 then Some (In5 I_DateRangeArray) else if n = 3926 then Some (In5 I_Int8Range)
     else if n = 3927 then Some (In5 I_Int8RangeArray) else if n = 4072 then Some (In5 I_Jsonpath)
     else if n = 4073 then Some (In5 I_JsonpathArray) else if n = 4089 then Some (In6 I_Regnamespace)
     else if n = 4090 then Some (In6 I_RegnamespaceArray) else if n = 4096 then Some (In6 I_Regrole)
     else if n = 4097 then Some (In6 I_RegroleArray) else if n = 4191 then Some (In6 I_Regcollation)
     else if n = 4192 then Some (In6 I_RegcollationArray) else if n = 4451 then Some (In6 I_Int4multiRange)
     else if n = 4532 then Some (In6 I_NummultiRange) else if n = 4533 then Some (In6 I_TsmultiRange)
     else if n = 4534 then Some (In6 I_TstzmultiRange) else if n = 4535 then Some (In6 I_DatemultiRange)
     else if n = 4536 then Some (In6 I_Int8multiRange) else if n = 4537 then Some (In6 I_AnymultiRange)
     else if n = 4538 then Some (In6 I_AnycompatiblemultiRange) else if n = 4600 then Some (In6 I_PgBrinBloomSummary)
     else if n = 4601 then Some (In6 I_PgBrinMinmaxMultiSummary) else if n = 5017 then Some (In6 I_PgMcvList)
     else if n = 5038 then Some (In6 I_PgSnapshot) else if n = 5039 then Some (In6 I_PgSnapshotArray)
     else if n = 5069 then Some (In6 I_Xid8) else if n = 5077 then Some (In6 I_Anycompatible)
     else if n = 5078 then Some (In6 I_Anycompatiblearray) else if n = 5079 then Some (In6 I_Anycompatiblenonarray)
     else if n = 5080 then Some (In6 I_AnycompatibleRange) else if n = 6150 then Some (In6 I_Int4multiRangeArray)
     else if n = 6151 then Some (In6 I_NummultiRangeArray) else if n = 6152 then Some (In6 I_TsmultiRangeArray)
     else if n = 6153 then Some (In6 I_TstzmultiRangeArray) else if n = 6155 then Some (In6 I_DatemultiRangeArray)
     else if n = 6157 then Some (In6 I_Int8multiRangeArray)
     else None)"

section \<open>Kinds and names\<close>

definition type_of :: "inner \<Rightarrow> pg_type" where
  "type_of t = Builtin (inner_oid t)"

primrec kind1 :: "inner1 \<Rightarrow> kind" where
  "kind1 I_Bool = Simple" | "kind1 I_Bytea = Simple" | "kind1 I_Char = Simple" | "kind1 I_Name = Simple"
  | "kind1 I_Int8 = Simple" | "kind1 I_Int2 = Simple" | "kind1 I_Int2Vector = Array (type_of (In1 I_Int2))"
  | "kind1 I_Int4 = Simple" | "kind1 I_Regproc = Simple" | "kind1 I_Text = Simple" | "kind1 I_Oid = Simple"
  | "kind1 I_Tid = Simple" | "kind1 I_Xid = Simple" | "kind1 I_Cid = Simple"
  | "kind1 I_OidVector = Array (type_of (In1 I_Oid))" | "kind1 I_PgDdlCommand = Pseudo" | "kind1 I_Json = Simple"
  | "kind1 I_Xml = Simple" | "kind1 I_XmlArray = Array (type_of (In1 I_Xml))" | "kind1 I_PgNodeTree = Simple"
  | "kind1 I_JsonArray = Array (type_of (In1 I_Json))" | "kind1 I_TableAmHandler = Pseudo"
  | "kind1 I_Xid8Array = Array (type_of (In6 I_Xid8))" | "kind1 I_IndexAmHandler = Pseudo" | "kind1 I_Point = Simple"
  | "kind1 I_Lseg = Simple" | "kind1 I_Path = Simple" | "kind1 I_Box = Simple" | "kind1 I_Polygon = Simple"
  | "kind1 I_Line = Simple" | "kind1 I_LineArray = Array (type_of (In1 I_Line))"

primrec kind2 :: "inner2 \<Rightarrow> kind" where
  "kind2 I_Cidr = Simple" | "kind2 I_CidrArray = Array (type_of (In2 I_Cidr))" | "kind2 I_Float4 = Simple"
  | "kind2 I_Float8 = Simple" | "kind2 I_Unknown = Simple" | "kind2 I_Circle = Simple"
  | "kind2 I_CircleArray = Array (type_of (In2 I_Circle))" | "kind2 I_Macaddr8 = Simple"
  | "kind2 I_Macaddr8Array = Array (type_of (In2 I_Macaddr8))" | "kind2 I_Money = Simple"
  | "kind2 I_MoneyArray = Array (type_of (In2 I_Money))" | "kind2 I_Macaddr = Simple" | "kind2 I_Inet = Simple"
  | "kind2 I_BoolArray = Array (type_of (In1 I_Bool))" | "kind2 I_ByteaArray = Array (type_of (In1 I_Bytea))"
  | "kind2 I_CharArray = Array (type_of (In1 I_Char))" | "kind2 I_NameArray = Array (type_of (In1 I_Name))"
  | "kind2 I_Int2Array = Array (type_of (In1 I_Int2))" | "kind2 I_Int2VectorArray = Array (type_of (In1 I_Int2Vector))"
  | "kind2 I_Int4Array = Array (type_of (In1 I_Int4))" | "kind2 I_RegprocArray = Array (type_of (In1 I_Regproc))"
  | "kind2 I_TextArray = Array (type_of (In1 I_Text))" | "kind2 I_TidArray = Array (type_of (In1 I_Tid))"
  | "kind2 I_XidArray = Array (type_of (In1 I_Xid))" | "kind2 I_CidArray = Array (type_of (In1 I_Cid))"
  | "kind2 I_OidVectorArray = Array (type_of (In1 I_OidVector))" | "kind2 I_BpcharArray = Array (type_of (In3 I_Bpchar))"
  | "kind2 I_VarcharArray = Array (type_of (In3 I_Varchar))" | "kind2 I_Int8Array = Array (type_of (In1 I_Int8))"
  | "kind2 I_PointArray = Array (type_of (In1 I_Point))" | "kind2 I_LsegArray = Array (type_of (In1 I_Lseg))"

primrec kind3 :: "inner3 \<Rightarrow> kind" where
  "kind3 I_PathArray = Array (type_of (In1 I_Path))" | "kind3 I_BoxArray = Array (type_of (In1 I_Box))"
  | "kind3 I_Float4Array = Array (type_of (In2 I_Float4))" | "kind3 I_Float8Array = Array (type_of (In2 I_Float8))"
  | "kind3 I_PolygonArray = Array (type_of (In1 I_Polygon))" | "kind3 I_OidArray = Array (type_of (In1 I_Oid))"
  | "kind3 I_Aclitem = Simple" | "kind3 I_AclitemArray = Array (type_of (In3 I_Aclitem))"
  | "kind3 I_MacaddrArray = Array (type_of (In2 I_Macaddr))" | "kind3 I_InetArray = Array (type_of (In2 I_Inet))"
  | "kind3 I_Bpchar = Simple" | "kind3 I_Varchar = Simple" | "kind3 I_Date = Simple" | "kind3 I_Time = Simple"
  | "kind3 I_Timestamp = Simple" | "kind3 I_TimestampArray = Array (type_of (In3 I_Timestamp))"
  | "kind3 I_DateArray = Array (type_of (In3 I_Date))" | "kind3 I_TimeArray = Array (type_of (In3 I_Time))"
  | "kind3 I_Timestamptz = Simple" | "kind3 I_TimestamptzArray = Array (type_of (In3 I_Timestamptz))"
  | "kind3 I_Interval = Simple" | "kind3 I_IntervalArray = Array (type_of (In3 I_Interval))"
  | "kind3 I_NumericArray = Array (type_of (In3 I_Numeric))" | "kind3 I_CstringArray = Array (type_of (In4 I_Cstring))"
  | "kind3 I_Timetz = Simple" | "kind3 I_TimetzArray = Array (type_of (In3 I_Timetz))" | "kind3 I_Bit = Simple"
  | "kind3 I_BitArray = Array (type_of (In3 I_Bit))" | "kind3 I_Varbit = Simple"
  | "kind3 I_VarbitArray = Array (type_of (In3 I_Varbit))" | "kind3 I_Numeric = Simple"

primrec kind4 :: "inner4 \<Rightarrow> kind" where
  "kind4 I_Refcursor = Simple" | "kind4 I_RefcursorArray = Array (type_of (In4 I_Refcursor))"
  | "kind4 I_Regprocedure = Simple" | "kind4 I_Regoper = Simple" | "kind4 I_Regoperator = Simple"
  | "kind4 I_Regclass = Simple" | "kind4 I_Regtype = Simple"
  | "kind4 I_RegprocedureArray = Array (type_of (In4 I_Regprocedure))"
  | "kind4 I_RegoperArray = Array (type_of (In4 I_Regoper))"
  | "kind4 I_RegoperatorArray = Array (type_of (In4 I_Regoperator))"
  | "kind4 I_RegclassArray = Array (type_of (In4 I_Regclass))" | "kind4 I_RegtypeArray = Array (type_of (In4 I_Regtype))"
  | "kind4 I_Record = Pseudo" | "kind4 I_Cstring = Pseudo" | "kind4 I_Any = Pseudo" | "kind4 I_Anyarray = Pseudo"
  | "kind4 I_Void = Pseudo" | "kind4 I_Trigger = Pseudo" | "kind4 I_LanguageHandler = Pseudo" | "kind4 I_Internal = Pseudo"
  | "kind4 I_Anyelement = Pseudo" | "kind4 I_RecordArray = Pseudo" | "kind4 I_Anynonarray = Pseudo"
  | "kind4 I_TxidSnapshotArray = Array (type_of (In4 I_TxidSnapshot))" | "kind4 I_Uuid = Simple"
  | "kind4 I_UuidArray = Array (type_of (In4 I_Uuid))" | "kind4 I_TxidSnapshot = Simple" | "kind4 I_FdwHandler = Pseudo"
  | "kind4 I_PgLsn = Simple" | "kind4 I_PgLsnArray = Array (type_of (In4 I_PgLsn))" | "kind4 I_TsmHandler = Pseudo"

primrec kind5 :: "inner5 \<Rightarrow> kind" where
  "kind5 I_PgNdistinct = Simple" | "kind5 I_PgDependencies = Simple" | "kind5 I_Anyenum = Pseudo"
  | "kind5 I_TsVector = Simple" | "kind5 I_Tsquery = Simple" | "kind5 I_GtsVector = Simple"
  | "kind5 I_TsVectorArray = Array (type_of (In5 I_TsVector))" | "kind5 I_GtsVectorArray = Array (type_of (In5 I_GtsVector))"
  | "kind5 I_TsqueryArray = Array (type_of (In5 I_Tsquery))" | "kind5 I_Regconfig = Simple"
  | "kind5 I_RegconfigArray = Array (type_of (In5 I_Regconfig))" | "kind5 I_Regdictionary = Simple"
  | "kind5 I_RegdictionaryArray = Array (type_of (In5 I_Regdictionary))" | "kind5 I_Jsonb = Simple"
  | "kind5 I_JsonbArray = Array (type_of (In5 I_Jsonb))" | "kind5 I_AnyRange = Pseudo" | "kind5 I_EventTrigger = Pseudo"
  | "kind5 I_Int4Range = Range (type_of (In1 I_Int4))" | "kind5 I_Int4RangeArray = Array (type_of (In5 I_Int4Range))"
  | "kind5 I_NumRange = Range (type_of (In3 I_Numeric))" | "kind5 I_NumRangeArray = Array (type_of (In5 I_NumRange))"
  | "kind5 I_TsRange = Range (type_of (In3 I_Timestamp))" | "kind5 I_TsRangeArray = Array (type_of (In5 I_TsRange))"
  | "kind5 I_TstzRange = Range (type_of (In3 I_Timestamptz))" | "kind5 I_TstzRangeArray = Array (type_of (In5 I_TstzRange))"
  | "kind5 I_DateRange = Range (type_of (In3 I_Date))" | "kind5 I_DateRangeArray = Array (type_of (In5 I_DateRange))"
  | "kind5 I_Int8Range = Range (type_of (In1 I_Int8))" | "kind5 I_Int8RangeArray = Array (type_of (In5 I_Int8Range))"
  | "kind5 I_Jsonpath = Simple" | "kind5 I_JsonpathArray = Array (type_of (In5 I_Jsonpath))"

primrec kind6 :: "inner6 \<Rightarrow> kind" where
  "kind6 I_Regnamespace = Simple" | "kind6 I_RegnamespaceArray = Array (type_of (In6 I_Regnamespace))"
  | "kind6 I_Regrole = Simple" | "kind6 I_RegroleArray = Array (type_of (In6 I_Regrole))" | "kind6 I_Regcollation = Simple"
  | "kind6 I_RegcollationArray = Array (type_of (In6 I_Regcollation))"
  | "kind6 I_Int4multiRange = Multirange (type_of (In1 I_Int4))"
  | "kind6 I_NummultiRange = Multirange (type_of (In3 I_Numeric))"
  | "kind6 I_TsmultiRange = Multirange (type_of (In3 I_Timestamp))"
  | "kind6 I_TstzmultiRange = Multirange (type_of (In3 I_Timestamptz))"
  | "kind6 I_DatemultiRange = Multirange (type_of (In3 I_Date))"
  | "kind6 I_Int8multiRange = Multirange (type_of (In1 I_Int8))" | "kind6 I_AnymultiRange = Pseudo"
  | "kind6 I_AnycompatiblemultiRange = Pseudo" | "kind6 I_PgBrinBloomSummary = Simple"
  | "kind6 I_PgBrinMinmaxMultiSummary = Simple" | "kind6 I_PgMcvList = Simple" | "kind6 I_PgSnapshot = Simple"
  | "kind6 I_PgSnapshotArray = Array (type_of (In6 I_PgSnapshot))" | "kind6 I_Xid8 = Simple"
  | "kind6 I_Anycompatible = Pseudo" | "kind6 I_Anycompatiblearray = Pseudo" | "kind6 I_Anycompatiblenonarray = Pseudo"
  | "kind6 I_AnycompatibleRange = Pseudo" | "kind6 I_Int4multiRangeArray = Array (type_of (In6 I_Int4multiRange))"
  | "kind6 I_NummultiRangeArray = Array (type_of (In6 I_NummultiRange))"
  | "kind6 I_TsmultiRangeArray = Array (type_of (In6 I_TsmultiRange))"
  | "kind6 I_TstzmultiRangeArray = Array (type_of (In6 I_TstzmultiRange))"
  | "kind6 I_DatemultiRangeArray = Array (type_of (In6 I_DatemultiRange))"
  | "kind6 I_Int8multiRangeArray = Array (type_of (In6 I_Int8multiRange))"

primrec inner_kind :: "inner \<Rightarrow> kind" where
  "inner_kind (In1 t) = kind1 t"
| "inner_kind (In2 t) = kind2 t"
| "inner_kind (In3 t) = kind3 t"
| "inner_kind (In4 t) = kind4 t"
| "inner_kind (In5 t) = kind5 t"
| "inner_kind (In6 t) = kind6 t"

primrec name1 :: "inner1 \<Rightarrow> string" where
  "name1 I_Bool = ''bool''" | "name1 I_Bytea = ''bytea''" | "name1 I_Char = ''char''" | "name1 I_Name = ''name''"
  | "name1 I_Int8 = ''int8''" | "name1 I_Int2 = ''int2''" | "name1 I_Int2Vector = ''int2vector''" | "name1 I_Int4 = ''int4''"
  | "name1 I_Regproc = ''regproc''" | "name1 I_Text = ''text''" | "name1 I_Oid = ''oid''" | "name1 I_Tid = ''tid''"
  | "name1 I_Xid = ''xid''" | "name1 I_Cid = ''cid''" | "name1 I_OidVector = ''oidvector''"
  | "name1 I_PgDdlCommand = ''pg_ddl_command''" | "name1 I_Json = ''json''" | "name1 I_Xml = ''xml''"
  | "name1 I_XmlArray = ''_xml''" | "name1 I_PgNodeTree = ''pg_node_tree''" | "name1 I_JsonArray = ''_json''"
  | "name1 I_TableAmHandler = ''table_am_handler''" | "name1 I_Xid8Array = ''_xid8''"
  | "name1 I_IndexAmHandler = ''index_am_handler''" | "name1 I_Point = ''point''" | "name1 I_Lseg = ''lseg''"
  | "name1 I_Path = ''path''" | "name1 I_Box = ''box''" | "name1 I_Polygon = ''polygon''" | "name1 I_Line = ''line''"
  | "name1 I_LineArray = ''_line''"

primrec name2 :: "inner2 \<Rightarrow> string" where
  "name2 I_Cidr = ''cidr''" | "name2 I_CidrArray = ''_cidr''" | "name2 I_Float4 = ''float4''" | "name2 I_Float8 = ''float8''"
  | "name2 I_Unknown = ''unknown''" | "name2 I_Circle = ''circle''" | "name2 I_CircleArray = ''_circle''"
  | "name2 I_Macaddr8 = ''macaddr8''" | "name2 I_Macaddr8Array = ''_macaddr8''" | "name2 I_Money = ''money''"
  | "name2 I_MoneyArray = ''_money''" | "name2 I_Macaddr = ''macaddr''" | "name2 I_Inet = ''inet''"
  | "name2 I_BoolArray = ''_bool''" | "name2 I_ByteaArray = ''_bytea''" | "name2 I_CharArray = ''_char''"
  | "name2 I_NameArray = ''_name''" | "name2 I_Int2Array = ''_int2''" | "name2 I_Int2VectorArray = ''_int2vector''"
  | "name2 I_Int4Array = ''_int4''" | "name2 I_RegprocArray = ''_regproc''" | "name2 I_TextArray = ''_text''"
  | "name2 I_TidArray = ''_tid''" | "name2 I_XidArray = ''_xid''" | "name2 I_CidArray = ''_cid''"
  | "name2 I_OidVectorArray = ''_oidvector''" | "name2 I_BpcharArray = ''_bpchar''" | "name2 I_VarcharArray = ''_varchar''"
  | "name2 I_Int8Array = ''_int8''" | "name2 I_PointArray = ''_point''" | "name2 I_LsegArray = ''_lseg''"

primrec name3 :: "inner3 \<Rightarrow> string" where
  "name3 I_PathArray = ''_path''" | "name3 I_BoxArray = ''_box''" | "name3 I_Float4Array = ''_float4''"
  | "name3 I_Float8Array = ''_float8''" | "name3 I_PolygonArray = ''_polygon''" | "name3 I_OidArray = ''_oid''"
  | "name3 I_Aclitem = ''aclitem''" | "name3 I_AclitemArray = ''_aclitem''" | "name3 I_MacaddrArray = ''_macaddr''"
  | "name3 I_InetArray = ''_inet''" | "name3 I_Bpchar = ''bpchar''" | "name3 I_Varchar = ''varchar''"
  | "name3 I_Date = ''date''" | "name3 I_Time = ''time''" | "name3 I_Timestamp = ''timestamp''"
  | "name3 I_TimestampArray = ''_timestamp''" | "name3 I_DateArray = ''_date''" | "name3 I_TimeArray = ''_time''"
  | "name3 I_Timestamptz = ''timestamptz''" | "name3 I_TimestamptzArray = ''_timestamptz''"
  | "name3 I_Interval = ''interval''" | "name3 I_IntervalArray = ''_interval''" | "name3 I_NumericArray = ''_numeric''"
  | "name3 I_CstringArray = ''_cstring''" | "name3 I_Timetz = ''timetz''" | "name3 I_TimetzArray = ''_timetz''"
  | "name3 I_Bit = ''bit''" | "name3 I_BitArray = ''_bit''" | "name3 I_Varbit = ''varbit''"
  | "name3 I_VarbitArray = ''_varbit''" | "name3 I_Numeric = ''numeric''"

primrec name4 :: "inner4 \<Rightarrow> string" where
  "name4 I_Refcursor = ''refcursor''" | "name4 I_RefcursorArray = ''_refcursor''" | "name4 I_Regprocedure = ''regprocedure''"
  | "name4 I_Regoper = ''regoper''" | "name4 I_Regoperator = ''regoperator''" | "name4 I_Regclass = ''regclass''"
  | "name4 I_Regtype = ''regtype''" | "name4 I_RegprocedureArray = ''_regprocedure''" | "name4 I_RegoperArray = ''_regoper''"
  | "name4 I_RegoperatorArray = ''_regoperator''" | "name4 I_RegclassArray = ''_regclass''"
  | "name4 I_RegtypeArray = ''_regtype''" | "name4 I_Record = ''record''" | "name4 I_Cstring = ''cstring''"
  | "name4 I_Any = ''any''" | "name4 I_Anyarray = ''anyarray''" | "name4 I_Void = ''void''" | "name4 I_Trigger = ''trigger''"
  | "name4 I_LanguageHandler = ''language_handler''" | "name4 I_Internal = ''internal''"
  | "name4 I_Anyelement = ''anyelement''" | "name4 I_RecordArray = ''_record''" | "name4 I_Anynonarray = ''anynonarray''"
  | "name4 I_TxidSnapshotArray = ''_txid_snapshot''" | "name4 I_Uuid = ''uuid''" | "name4 I_UuidArray = ''_uuid''"
  | "name4 I_TxidSnapshot = ''txid_snapshot''" | "name4 I_FdwHandler = ''fdw_handler''" | "name4 I_PgLsn = ''pg_lsn''"
  | "name4 I_PgLsnArray = ''_pg_lsn''" | "name4 I_TsmHandler = ''tsm_handler''"

primrec name5 :: "inner5 \<Rightarrow> string" where
  "name5 I_PgNdistinct = ''pg_ndistinct''" | "name5 I_PgDependencies = ''pg_dependencies''" | "name5 I_Anyenum = ''anyenum''"
  | "name5 I_TsVector = ''tsvector''" | "name5 I_Tsquery = ''tsquery''" | "name5 I_GtsVector = ''gtsvector''"
  | "name5 I_TsVectorArray = ''_tsvector''" | "name5 I_GtsVectorArray = ''_gtsvector''"
  | "name5 I_TsqueryArray = ''_tsquery''" | "name5 I_Regconfig = ''regconfig''" | "name5 I_RegconfigArray = ''_regconfig''"
  | "name5 I_Regdictionary = ''regdictionary''" | "name5 I_RegdictionaryArray = ''_regdictionary''"
  | "name5 I_Jsonb = ''jsonb''" | "name5 I_JsonbArray = ''_jsonb''" | "name5 I_AnyRange = ''anyrange''"
  | "name5 I_EventTrigger = ''event_trigger''" | "name5 I_Int4Range = ''int4range''"
  | "name5 I_Int4RangeArray = ''_int4range''" | "name5 I_NumRange = ''numrange''" | "name5 I_NumRangeArray = ''_numrange''"
  | "name5 I_TsRange = ''tsrange''" | "name5 I_TsRangeArray = ''_tsrange''" | "name5 I_TstzRange = ''tstzrange''"
  | "name5 I_TstzRangeArray = ''_tstzrange''" | "name5 I_DateRange = ''daterange''"
  | "name5 I_DateRangeArray = ''_daterange''" | "name5 I_Int8Range = ''int8range''"
  | "name5 I_Int8RangeArray = ''_int8range''" | "name5 I_Jsonpath = ''jsonpath''" | "name5 I_JsonpathArray = ''_jsonpath''"

primrec name6 :: "inner6 \<Rightarrow> string" where
  "name6 I_Regnamespace = ''regnamespace''" | "name6 I_RegnamespaceArray = ''_regnamespace''"
  | "name6 I_Regrole = ''regrole''" | "name6 I_RegroleArray = ''_regrole''" | "name6 I_Regcollation = ''regcollation''"
  | "name6 I_RegcollationArray = ''_regcollation''" | "name6 I_Int4multiRange = ''int4multirange''"
  | "name6 I_NummultiRange = ''nummultirange''" | "name6 I_TsmultiRange = ''tsmultirange''"
  | "name6 I_TstzmultiRange = ''tstzmultirange''" | "name6 I_DatemultiRange = ''datemultirange''"
  | "name6 I_Int8multiRange = ''int8multirange''" | "name6 I_AnymultiRange = ''anymultirange''"
  | "name6 I_AnycompatiblemultiRange = ''anycompatiblemultirange''" | "name6 I_PgBrinBloomSummary = ''pg_brin_bloom_summary''"
  | "name6 I_PgBrinMinmaxMultiSummary = ''pg_brin_minmax_multi_summary''" | "name6 I_PgMcvList = ''pg_mcv_list''"
  | "name6 I_PgSnapshot = ''pg_snapshot''" | "name6 I_PgSnapshotArray = ''_pg_snapshot''" | "name6 I_Xid8 = ''xid8''"
  | "name6 I_Anycompatible = ''anycompatible''" | "name6 I_Anycompatiblearray = ''anycompatiblearray''"
  | "name6 I_Anycompatiblenonarray = ''anycompatiblenonarray''" | "name6 I_AnycompatibleRange = ''anycompatiblerange''"
  | "name6 I_Int4multiRangeArray = ''_int4multirange''" | "name6 I_NummultiRangeArray = ''_nummultirange''"
  | "name6 I_TsmultiRangeArray = ''_tsmultirange''" | "name6 I_TstzmultiRangeArray = ''_tstzmultirange''"
  | "name6 I_DatemultiRangeArray = ''_datemultirange''" | "name6 I_Int8multiRangeArray = ''_int8multirange''"

primrec inner_name :: "inner \<Rightarrow> string" where
  "inner_name (In1 t) = name1 t"
| "inner_name (In2 t) = name2 t"
| "inner_name (In3 t) = name3 t"
| "inner_name (In4 t) = name4 t"
| "inner_name (In5 t) = name5 t"
| "inner_name (In6 t) = name6 t"

section \<open>Types\<close>

text \<open>The functions of \<open>Type\<close>. A \<open>Builtin\<close> type of the code has an identifier of the table, \<open>type_wf\<close>.\<close>

definition type_wf :: "pg_type \<Rightarrow> bool" where
  "type_wf ty = (case ty of Builtin oid \<Rightarrow> inner_from_oid oid \<noteq> None | Other _ _ _ _ \<Rightarrow> True)"

definition type_from_oid :: "oid \<Rightarrow> pg_type option" where
  "type_from_oid oid = map_option type_of (inner_from_oid oid)"

definition type_kind :: "pg_type \<Rightarrow> kind" where
  "type_kind ty = (case ty of
      Builtin oid \<Rightarrow> (case inner_from_oid oid of Some t \<Rightarrow> inner_kind t | None \<Rightarrow> Simple)
    | Other name oid kind schema \<Rightarrow> kind)"

definition type_schema :: "pg_type \<Rightarrow> bytes" where
  "type_schema ty = (case ty of Builtin oid \<Rightarrow> ascii ''pg_catalog'' | Other name oid kind schema \<Rightarrow> schema)"

definition type_name :: "pg_type \<Rightarrow> bytes" where
  "type_name ty = (case ty of
      Builtin oid \<Rightarrow> (case inner_from_oid oid of Some t \<Rightarrow> ascii (inner_name t) | None \<Rightarrow> [])
    | Other name oid kind schema \<Rightarrow> name)"

text \<open>\<open>Display\<close>: the name, after the schema of a type that is in neither \<open>public\<close> nor \<open>pg_catalog\<close>.\<close>

definition type_display :: "pg_type \<Rightarrow> bytes" where
  "type_display ty =
     (if type_schema ty = ascii ''public'' \<or> type_schema ty = ascii ''pg_catalog'' then [] else type_schema ty @ ascii ''.'')
       @ type_name ty"

section \<open>The table is consistent\<close>

lemma from_oid_pages:
  "inner_from_oid (oid1 t1) = Some (In1 t1)" "inner_from_oid (oid2 t2) = Some (In2 t2)"
  "inner_from_oid (oid3 t3) = Some (In3 t3)" "inner_from_oid (oid4 t4) = Some (In4 t4)"
  "inner_from_oid (oid5 t5) = Some (In5 t5)" "inner_from_oid (oid6 t6) = Some (In6 t6)"
  subgoal by (cases t1) (simp_all add: inner_from_oid_def)
  subgoal by (cases t2) (simp_all add: inner_from_oid_def)
  subgoal by (cases t3) (simp_all add: inner_from_oid_def)
  subgoal by (cases t4) (simp_all add: inner_from_oid_def)
  subgoal by (cases t5) (simp_all add: inner_from_oid_def)
  subgoal by (cases t6) (simp_all add: inner_from_oid_def)
  done

lemma from_oid_oid [simp]: "inner_from_oid (inner_oid t) = Some t"
  by (cases t) (simp_all add: from_oid_pages)

lemma inner_oid_inj: "inner_oid t = inner_oid u \<longleftrightarrow> t = u"
  by (metis from_oid_oid option.inject)

text \<open>What holds of the arms of the match holds of its result.\<close>

definition arms_hold :: "oid \<Rightarrow> inner option \<Rightarrow> bool" where
  "arms_hold oid r \<longleftrightarrow> (case r of Some t \<Rightarrow> inner_oid t = oid | None \<Rightarrow> True)"

lemma arms_hold_if:
  "unat (inner_oid t) = n \<Longrightarrow> arms_hold oid r \<Longrightarrow> arms_hold oid (if unat oid = n then Some t else r)"
  by (auto simp: arms_hold_def word_unat_eq_iff)

lemma arms_hold_none: "arms_hold oid None"
  by (simp add: arms_hold_def)

lemma arms_hold_from_oid: "arms_hold oid (inner_from_oid oid)"
  unfolding inner_from_oid_def Let_def by (intro arms_hold_if arms_hold_none; simp)

lemma from_oid_some: "inner_from_oid oid = Some t \<Longrightarrow> inner_oid t = oid"
  using arms_hold_from_oid [of oid] by (simp add: arms_hold_def)

lemma type_of_simps [simp]:
  "type_oid (type_of t) = inner_oid t" "type_kind (type_of t) = inner_kind t"
  "type_name (type_of t) = ascii (inner_name t)" "type_schema (type_of t) = ascii ''pg_catalog''" "type_wf (type_of t)"
  by (simp_all add: type_of_def type_kind_def type_name_def type_schema_def type_wf_def)

lemma type_of_inj [simp]: "type_of t = type_of u \<longleftrightarrow> t = u"
  by (simp add: type_of_def inner_oid_inj)

lemma type_wf_cases:
  assumes "type_wf ty"
  obtains t where "ty = type_of t" | name oid kind schema where "ty = Other name oid kind schema"
  using assms by (cases ty) (auto simp: type_wf_def type_of_def dest: from_oid_some)

lemma type_from_oid_iff: "type_from_oid oid = Some ty \<longleftrightarrow> (\<exists>t. ty = type_of t \<and> inner_oid t = oid)"
  by (auto simp: type_from_oid_def dest: from_oid_some)

text \<open>
  The kinds: the member of an array, range or multirange is in the table, and is an array only when it
  is one of the two vectors of the system tables; an array has the name of its member
  after an underscore, except for those two.
\<close>

definition member_of :: "kind \<Rightarrow> pg_type option" where
  "member_of k = (case k of Array ty \<Rightarrow> Some ty | Range ty \<Rightarrow> Some ty | Multirange ty \<Rightarrow> Some ty | _ \<Rightarrow> None)"

definition is_array :: "kind \<Rightarrow> bool" where
  "is_array k = (case k of Array ty \<Rightarrow> True | _ \<Rightarrow> False)"

definition kind_fits :: "inner \<Rightarrow> bool" where
  "kind_fits t = (case member_of (inner_kind t) of
      None \<Rightarrow> inner_kind t \<in> {Simple, Pseudo}
    | Some ty \<Rightarrow> (case ty of
        Builtin oid \<Rightarrow> (case inner_from_oid oid of
            Some u \<Rightarrow> (is_array (inner_kind u) \<longrightarrow> inner_name u \<in> {''int2vector'', ''oidvector''}) \<and>
              (is_array (inner_kind t) \<longrightarrow> inner_name t \<in> {''_'' @ inner_name u, ''int2vector'', ''oidvector''})
          | None \<Rightarrow> False)
      | Other _ _ _ _ \<Rightarrow> False))"

lemma member_of_type_of:
  "(case type_of t of Builtin oid \<Rightarrow> f (inner_from_oid oid) | Other a b c d \<Rightarrow> False) \<longleftrightarrow> f (Some t)"
  by (simp add: type_of_def)

lemma kind_fits_pages: "kind_fits (In1 t1)" "kind_fits (In2 t2)" "kind_fits (In3 t3)" "kind_fits (In4 t4)"
  "kind_fits (In5 t5)" "kind_fits (In6 t6)"
  subgoal by (cases t1) (simp_all add: kind_fits_def member_of_def member_of_type_of is_array_def)
  subgoal by (cases t2) (simp_all add: kind_fits_def member_of_def member_of_type_of is_array_def)
  subgoal by (cases t3) (simp_all add: kind_fits_def member_of_def member_of_type_of is_array_def)
  subgoal by (cases t4) (simp_all add: kind_fits_def member_of_def member_of_type_of is_array_def)
  subgoal by (cases t5) (simp_all add: kind_fits_def member_of_def member_of_type_of is_array_def)
  subgoal by (cases t6) (simp_all add: kind_fits_def member_of_def member_of_type_of is_array_def)
  done

lemma kind_fits_all: "kind_fits t"
  by (cases t) (simp_all add: kind_fits_pages)

text \<open>
  C22: The table of built-in types is consistent: an identifier is found iff it is that of one of its types, which is then the type
  returned; the member of an array, a range or a multirange is a type of the table; an array is named after its member with an
  underscore in front, and is never the member of another, but for the two vectors of the system tables.
\<close>

theorem type_table_consistent:
  "(type_from_oid oid = Some ty \<longleftrightarrow> (\<exists>t. ty = type_of t \<and> inner_oid t = oid)) \<and>
   type_from_oid (inner_oid t) = Some (type_of t) \<and> type_oid (type_of t) = inner_oid t \<and> kind_fits t"
  using type_from_oid_iff [of oid ty] kind_fits_all [of t] by (simp add: type_from_oid_def)

text \<open>The names that the conversions look for are of no built-in type.\<close>

lemma extension_names:
  assumes "s \<in> {''citext'', ''ltree'', ''lquery'', ''ltxtquery'', ''hstore''}"
  shows "inner_name t \<noteq> s"
proof -
  have "name1 t \<noteq> s" for t using assms by (cases t) auto
  moreover have "name2 t \<noteq> s" for t using assms by (cases t) auto
  moreover have "name3 t \<noteq> s" for t using assms by (cases t) auto
  moreover have "name4 t \<noteq> s" for t using assms by (cases t) auto
  moreover have "name5 t \<noteq> s" for t using assms by (cases t) auto
  moreover have "name6 t \<noteq> s" for t using assms by (cases t) auto
  ultimately show ?thesis by (cases t) simp_all
qed

lemma has_name_table:
  assumes "s \<in> {''citext'', ''ltree'', ''lquery'', ''ltxtquery'', ''hstore''}" "type_wf ty"
  shows "has_name s ty \<longleftrightarrow> type_name ty = ascii s"
  using assms(2)
proof (cases rule: type_wf_cases)
  case (1 t)
  have "ascii (inner_name t) \<noteq> ascii s"
    using extension_names [OF assms(1), of t] by (auto simp: ascii_inject)
  with 1 show ?thesis by (simp add: has_name_def) (simp add: type_of_def)
next
  case 2
  then show ?thesis by (simp add: has_name_def type_name_def)
qed

lemma inner_name_ascii: "list_all (\<lambda>c. of_char c < (128 :: nat)) (inner_name t)"
proof -
  let ?A = "list_all (\<lambda>c. of_char c < (128 :: nat))"
  have "?A (name1 t)" for t by (cases t) simp_all
  moreover have "?A (name2 t)" for t by (cases t) simp_all
  moreover have "?A (name3 t)" for t by (cases t) simp_all
  moreover have "?A (name4 t)" for t by (cases t) simp_all
  moreover have "?A (name5 t)" for t by (cases t) simp_all
  moreover have "?A (name6 t)" for t by (cases t) simp_all
  ultimately show ?thesis by (cases t) simp_all
qed

end
