(* ===== verification/Sql_Values.thy ===== *)
theory Sql_Values
  imports Type_Table Sql_Container_Laws
begin

text \<open>
  The conversions between Rust and Postgres values (\<open>opengauss-types/src/lib.rs\<close>, \<open>special.rs\<close>, \<open>private.rs\<close>). An implementation of
  \<open>FromSql\<close> or \<open>ToSql\<close> is the record of its methods; one that is generic in a member type takes the record of the member. Beside
  its errors a conversion can panic, \<open>Panic\<close>. A \<open>SystemTime\<close> is its nanoseconds since the epoch of Unix, a \<open>HashMap\<close> that is
  written is the list of its entries in the order in which it iterates.
\<close>

section \<open>The traits\<close>

type_synonym 'a boxed = "sql_cause fault + 'a"

definition boxed :: "sql_error + 'a \<Rightarrow> 'a boxed" where
  "boxed r = map_err (\<lambda>e. Fault (Sql_Cause e)) r"

definition into_box :: "sql_error \<Rightarrow> sql_cause fault" where
  "into_box e = Fault (Sql_Cause e)"

lemma boxed_simps [simp]: "boxed (Inl e) = Inl (Fault (Sql_Cause e))" "boxed (Inr x) = Inr x"
  by (simp_all add: boxed_def)

lemma boxed_Inr [simp]: "boxed r = Inr x \<longleftrightarrow> r = Inr x"
  by (simp add: boxed_def)

lemma boxed_not_panic [simp]: "boxed r \<noteq> Inl Panic"
  by (cases r) simp_all

text \<open>\<open>from_sql_null\<close> is \<open>rd_null\<close>, by default the error \<open>WasNull\<close>.\<close>

record 'a readable =
  rd_accepts :: "pg_type \<Rightarrow> bool"
  rd_from_sql :: "pg_type \<Rightarrow> bytes \<Rightarrow> 'a boxed"
  rd_null :: "pg_type \<Rightarrow> 'a boxed"

record 'a writable =
  wr_accepts :: "pg_type \<Rightarrow> bool"
  wr_to_sql :: "'a \<Rightarrow> pg_type \<Rightarrow> bytes \<Rightarrow> (is_null \<times> bytes) boxed"

definition was_null :: "pg_type \<Rightarrow> 'a boxed" where
  "was_null ty = Inl (Fault Was_Null)"

definition rd_nullable :: "'a readable \<Rightarrow> pg_type \<Rightarrow> bytes option \<Rightarrow> 'a boxed" where
  "rd_nullable f ty raw = (case raw of Some raw \<Rightarrow> rd_from_sql f ty raw | None \<Rightarrow> rd_null f ty)"

definition to_sql_checked :: "'a writable \<Rightarrow> 'a \<Rightarrow> pg_type \<Rightarrow> bytes \<Rightarrow> (is_null \<times> bytes) boxed" where
  "to_sql_checked w v ty out = (if \<not> wr_accepts w ty then Inl (Fault Wrong_Type) else wr_to_sql w v ty out)"

definition downcast :: "nat \<Rightarrow> i32 boxed" where
  "downcast len = (if len > 2147483647 then boxed (Inl (Err_Msg ''value too large to transmit'')) else Inr (of_nat len))"

text \<open>A conversion of \<open>Rows\<close>, which cannot panic.\<close>

definition readable_of :: "'a from_sql \<Rightarrow> 'a readable" where
  "readable_of f =
     \<lparr>rd_accepts = fs_accepts f, rd_from_sql = (\<lambda>ty raw. map_err Fault (fs_from_sql f ty raw)),
      rd_null = (\<lambda>ty. map_err Fault (fs_null f ty))\<rparr>"

section \<open>The constants of the types\<close>

abbreviation (input) BOOL :: pg_type where "BOOL \<equiv> Builtin 16"
abbreviation (input) BYTEA :: pg_type where "BYTEA \<equiv> Builtin 17"
abbreviation (input) CHAR_TYPE :: pg_type where "CHAR_TYPE \<equiv> Builtin 18"
abbreviation (input) INT8 :: pg_type where "INT8 \<equiv> Builtin 20"
abbreviation (input) INT2 :: pg_type where "INT2 \<equiv> Builtin 21"
abbreviation (input) INT2_VECTOR :: pg_type where "INT2_VECTOR \<equiv> Builtin 22"
abbreviation (input) INT4 :: pg_type where "INT4 \<equiv> Builtin 23"
abbreviation (input) OID :: pg_type where "OID \<equiv> Builtin 26"
abbreviation (input) OID_VECTOR :: pg_type where "OID_VECTOR \<equiv> Builtin 30"
abbreviation (input) FLOAT4 :: pg_type where "FLOAT4 \<equiv> Builtin 700"
abbreviation (input) FLOAT8 :: pg_type where "FLOAT8 \<equiv> Builtin 701"
abbreviation (input) INET :: pg_type where "INET \<equiv> Builtin 869"
abbreviation (input) DATE :: pg_type where "DATE \<equiv> Builtin 1082"
abbreviation (input) TIMESTAMP :: pg_type where "TIMESTAMP \<equiv> Builtin 1114"
abbreviation (input) TIMESTAMPTZ :: pg_type where "TIMESTAMPTZ \<equiv> Builtin 1184"
abbreviation (input) PG_LSN :: pg_type where "PG_LSN \<equiv> Builtin 3220"

lemma constants_in_table:
  "BOOL = type_of (In1 I_Bool)" "BYTEA = type_of (In1 I_Bytea)" "CHAR_TYPE = type_of (In1 I_Char)" "INT8 = type_of (In1 I_Int8)"
  "INT2 = type_of (In1 I_Int2)" "INT2_VECTOR = type_of (In1 I_Int2Vector)" "INT4 = type_of (In1 I_Int4)"
  "OID = type_of (In1 I_Oid)" "OID_VECTOR = type_of (In1 I_OidVector)" "TEXT = type_of (In1 I_Text)"
  by (simp_all add: type_of_def)

lemma constants_in_table2:
  "type_from_oid 700 = Some FLOAT4" "type_from_oid 701 = Some FLOAT8" "type_from_oid 869 = Some INET"
  "type_from_oid 1082 = Some DATE" "type_from_oid 1114 = Some TIMESTAMP" "type_from_oid 1184 = Some TIMESTAMPTZ"
  "type_from_oid 3220 = Some PG_LSN"
  by (simp_all add: type_from_oid_def inner_from_oid_def type_of_def)

section \<open>Scalars\<close>

text \<open>The macros \<open>simple_from!\<close> and \<open>simple_to!\<close>.\<close>

definition simple_readable :: "(bytes \<Rightarrow> sql_error + 'a) \<Rightarrow> pg_type list \<Rightarrow> 'a readable" where
  "simple_readable f expected =
     \<lparr>rd_accepts = (\<lambda>ty. ty \<in> set expected), rd_from_sql = (\<lambda>_ raw. boxed (f raw)), rd_null = was_null\<rparr>"

definition simple_writable :: "('a \<Rightarrow> bytes \<Rightarrow> bytes) \<Rightarrow> pg_type list \<Rightarrow> 'a writable" where
  "simple_writable f expected =
     \<lparr>wr_accepts = (\<lambda>ty. ty \<in> set expected), wr_to_sql = (\<lambda>v _ w. Inr (No, f v w))\<rparr>"

definition bool_readable :: "bool readable" where "bool_readable = simple_readable bool_from_sql [BOOL]"
definition i8_readable :: "i8 readable" where "i8_readable = readable_of i8_from_sql"
definition i16_readable :: "i16 readable" where "i16_readable = simple_readable int2_from_sql [INT2]"
definition i32_readable :: "i32 readable" where "i32_readable = simple_readable int4_from_sql [INT4]"
definition u32_readable :: "u32 readable" where "u32_readable = readable_of u32_from_sql"
definition i64_readable :: "i64 readable" where "i64_readable = simple_readable int8_from_sql [INT8]"
definition f32_readable :: "f32 readable" where "f32_readable = simple_readable float4_from_sql [FLOAT4]"
definition f64_readable :: "f64 readable" where "f64_readable = simple_readable float8_from_sql [FLOAT8]"
definition lsn_readable :: "lsn readable" where "lsn_readable = simple_readable lsn_from_sql [PG_LSN]"

definition bool_writable :: "bool writable" where "bool_writable = simple_writable bool_to_sql [BOOL]"
definition i8_writable :: "i8 writable" where "i8_writable = simple_writable char_to_sql [CHAR_TYPE]"
definition i16_writable :: "i16 writable" where "i16_writable = simple_writable int2_to_sql [INT2]"
definition i32_writable :: "i32 writable" where "i32_writable = simple_writable int4_to_sql [INT4]"
definition u32_writable :: "u32 writable" where "u32_writable = simple_writable oid_to_sql [OID]"
definition i64_writable :: "i64 writable" where "i64_writable = simple_writable int8_to_sql [INT8]"
definition f32_writable :: "f32 writable" where "f32_writable = simple_writable float4_to_sql [FLOAT4]"
definition f64_writable :: "f64 writable" where "f64_writable = simple_writable float8_to_sql [FLOAT8]"
definition lsn_writable :: "lsn writable" where "lsn_writable = simple_writable lsn_to_sql [PG_LSN]"

text \<open>Bytes, and the texts with the formats of the \<open>ltree\<close> extension: the conversions of \<open>&[u8]\<close> and \<open>&str\<close>, to which those of
  \<open>Vec<u8>\<close>, \<open>[u8; N]\<close>, \<open>Cow\<close>, \<open>String\<close> and \<open>Box<str>\<close> delegate.\<close>

definition bytes_readable :: "bytes readable" where
  "bytes_readable = simple_readable (\<lambda>raw. Inr (bytea_from_sql raw)) [BYTEA]"

definition bytes_writable :: "bytes writable" where
  "bytes_writable = simple_writable bytea_to_sql [BYTEA]"

definition str_readable :: "bytes readable" where
  "str_readable = readable_of str_from_sql"

definition str_writable :: "bytes writable" where
  "str_writable =
     \<lparr>wr_accepts = (\<lambda>ty. ty \<in> Builtin ` {1043, 25, 1042, 19, 705} \<or> has_name ''citext'' ty \<or> has_name ''ltree'' ty \<or>
        has_name ''lquery'' ty \<or> has_name ''ltxtquery'' ty),
      wr_to_sql = (\<lambda>v ty w. Inr (No,
        if has_name ''ltree'' ty then ltree_to_sql v w
        else if has_name ''lquery'' ty then lquery_to_sql v w
        else if has_name ''ltxtquery'' ty then ltxtquery_to_sql v w
        else text_to_sql v w))\<rparr>"

text \<open>\<open>IpAddr\<close> is written as a network of the full width.\<close>

definition ip_readable :: "ip_addr readable" where
  "ip_readable =
     \<lparr>rd_accepts = (\<lambda>ty. ty \<in> {INET}),
      rd_from_sql = (\<lambda>_ raw. boxed (bind_res (inet_from_sql raw) (\<lambda>inet. Inr (inet_addr inet)))), rd_null = was_null\<rparr>"

definition ip_writable :: "ip_addr writable" where
  "ip_writable =
     \<lparr>wr_accepts = (\<lambda>ty. ty \<in> {INET}),
      wr_to_sql = (\<lambda>v _ w.
        let netmask = (case v of V4 _ \<Rightarrow> 32 | V6 _ \<Rightarrow> 128) in Inr (No, inet_to_sql v netmask w))\<rparr>"

section \<open>Times\<close>

abbreviation (input) TIME_SEC_CONVERSION :: int where "TIME_SEC_CONVERSION \<equiv> 946684800"
abbreviation (input) USEC_PER_SEC :: u64 where "USEC_PER_SEC \<equiv> 1000000"
abbreviation (input) NSEC_PER_USEC :: u64 where "NSEC_PER_USEC \<equiv> 1000"

definition pg_epoch :: int where
  "pg_epoch = TIME_SEC_CONVERSION * 1000000000"

text \<open>\<open>to_usec\<close> of a duration of so many nanoseconds; the product of the seconds wraps around.\<close>

definition to_usec :: "int \<Rightarrow> u64" where
  "to_usec d = of_int (d div 1000000000) * USEC_PER_SEC + of_int (d mod 1000000000) div NSEC_PER_USEC"

definition system_time_readable :: "int readable" where
  "system_time_readable =
     \<lparr>rd_accepts = (\<lambda>ty. ty \<in> {TIMESTAMP, TIMESTAMPTZ}),
      rd_from_sql = (\<lambda>_ raw. boxed (bind_res (timestamp_from_sql raw) (\<lambda>time.
        let negative = sint time < 0;
            time = (if negative then - time else time);
            secs = time div USEC_PER_SEC;
            nsec = (time mod USEC_PER_SEC) * NSEC_PER_USEC;
            offset = int (unat secs) * 1000000000 + int (unat nsec)
        in Inr (if negative then pg_epoch - offset else pg_epoch + offset)))),
      rd_null = was_null\<rparr>"

definition system_time_writable :: "int writable" where
  "system_time_writable =
     \<lparr>wr_accepts = (\<lambda>ty. ty \<in> {TIMESTAMP, TIMESTAMPTZ}),
      wr_to_sql = (\<lambda>v _ w.
        let time = (if pg_epoch \<le> v then to_usec (v - pg_epoch) else - to_usec (pg_epoch - v))
        in Inr (No, timestamp_to_sql time w))\<rparr>"

text \<open>\<open>Date<T>\<close> and \<open>Timestamp<T>\<close> of \<open>special.rs\<close>.\<close>

datatype 'a date_ext = Date_PosInfinity | Date_NegInfinity | Date_Value 'a
datatype 'a timestamp_ext = Ts_PosInfinity | Ts_NegInfinity | Ts_Value 'a

abbreviation (input) i32_MAX :: i32 where "i32_MAX \<equiv> 2147483647"
abbreviation (input) i32_MIN :: i32 where "i32_MIN \<equiv> - 2147483648"
abbreviation (input) i64_MAX :: i64 where "i64_MAX \<equiv> 9223372036854775807"
abbreviation (input) i64_MIN :: i64 where "i64_MIN \<equiv> - 9223372036854775808"

definition date_readable :: "'a readable \<Rightarrow> 'a date_ext readable" where
  "date_readable f =
     \<lparr>rd_accepts = (\<lambda>ty. ty = DATE \<and> rd_accepts f ty),
      rd_from_sql = (\<lambda>ty raw. bind_res (boxed (date_from_sql raw)) (\<lambda>d.
        if d = i32_MAX then Inr Date_PosInfinity
        else if d = i32_MIN then Inr Date_NegInfinity
        else bind_res (rd_from_sql f ty raw) (\<lambda>v. Inr (Date_Value v)))),
      rd_null = was_null\<rparr>"

definition date_writable :: "'a writable \<Rightarrow> 'a date_ext writable" where
  "date_writable f =
     \<lparr>wr_accepts = (\<lambda>ty. ty = DATE \<and> wr_accepts f ty),
      wr_to_sql = (\<lambda>v ty out. case v of
          Date_PosInfinity \<Rightarrow> Inr (No, date_to_sql i32_MAX out)
        | Date_NegInfinity \<Rightarrow> Inr (No, date_to_sql i32_MIN out)
        | Date_Value v \<Rightarrow> wr_to_sql f v ty out)\<rparr>"

definition timestamp_readable :: "'a readable \<Rightarrow> 'a timestamp_ext readable" where
  "timestamp_readable f =
     \<lparr>rd_accepts = (\<lambda>ty. ty \<in> {TIMESTAMP, TIMESTAMPTZ} \<and> rd_accepts f ty),
      rd_from_sql = (\<lambda>ty raw. bind_res (boxed (timestamp_from_sql raw)) (\<lambda>t.
        if t = i64_MAX then Inr Ts_PosInfinity
        else if t = i64_MIN then Inr Ts_NegInfinity
        else bind_res (rd_from_sql f ty raw) (\<lambda>v. Inr (Ts_Value v)))),
      rd_null = was_null\<rparr>"

definition timestamp_writable :: "'a writable \<Rightarrow> 'a timestamp_ext writable" where
  "timestamp_writable f =
     \<lparr>wr_accepts = (\<lambda>ty. ty \<in> {TIMESTAMP, TIMESTAMPTZ} \<and> wr_accepts f ty),
      wr_to_sql = (\<lambda>v ty out. case v of
          Ts_PosInfinity \<Rightarrow> Inr (No, timestamp_to_sql i64_MAX out)
        | Ts_NegInfinity \<Rightarrow> Inr (No, timestamp_to_sql i64_MIN out)
        | Ts_Value v \<Rightarrow> wr_to_sql f v ty out)\<rparr>"

section \<open>Options, boxes and maps\<close>

definition option_readable :: "'a readable \<Rightarrow> 'a option readable" where
  "option_readable f =
     \<lparr>rd_accepts = rd_accepts f,
      rd_from_sql = (\<lambda>ty raw. bind_res (rd_from_sql f ty raw) (\<lambda>x. Inr (Some x))), rd_null = (\<lambda>_. Inr None)\<rparr>"

definition option_writable :: "'a writable \<Rightarrow> 'a option writable" where
  "option_writable f =
     \<lparr>wr_accepts = wr_accepts f,
      wr_to_sql = (\<lambda>v ty out. case v of Some v \<Rightarrow> wr_to_sql f v ty out | None \<Rightarrow> Inr (Yes, out))\<rparr>"

text \<open>\<open>Box<T>\<close>: a box is its content. The reader does not delegate \<open>from_sql_null\<close>.\<close>

definition box_readable :: "'a readable \<Rightarrow> 'a readable" where
  "box_readable f = \<lparr>rd_accepts = rd_accepts f, rd_from_sql = rd_from_sql f, rd_null = was_null\<rparr>"

definition box_writable :: "'a writable \<Rightarrow> 'a writable" where
  "box_writable f = \<lparr>wr_accepts = wr_accepts f, wr_to_sql = wr_to_sql f\<rparr>"

definition lift_fault :: "sql_error fault \<Rightarrow> sql_cause fault" where
  "lift_fault f = (case f of Fault e \<Rightarrow> Fault (Sql_Cause e) | Panic \<Rightarrow> Panic)"

text \<open>The entries are inserted one by one as they are read: of two with one key the later remains.\<close>

function hstore_map :: "hstore_entries \<Rightarrow> (bytes \<Rightarrow> bytes option option) \<Rightarrow> (bytes \<Rightarrow> bytes option option) boxed" where
  "hstore_map s m =
     bind_res (map_err lift_fault (hstore_next s)) (\<lambda>(x, s).
     case x of None \<Rightarrow> Inr m | Some (k, v) \<Rightarrow> hstore_map s (m(k \<mapsto> v)))"
  by pat_completeness auto
termination
  by (relation "measure (\<lambda>(s, m). length (hs_buf s))") (auto dest: hstore_iter.shrinks)

declare hstore_map.simps [simp del]

definition hstore_readable :: "(bytes \<Rightarrow> bytes option option) readable" where
  "hstore_readable =
     \<lparr>rd_accepts = (\<lambda>ty. has_name ''hstore'' ty),
      rd_from_sql = (\<lambda>_ raw. bind_res (boxed (hstore_from_sql raw)) (\<lambda>h. hstore_map h Map.empty)), rd_null = was_null\<rparr>"

definition hstore_writable :: "hstore_entry list writable" where
  "hstore_writable =
     \<lparr>wr_accepts = (\<lambda>ty. has_name ''hstore'' ty),
      wr_to_sql = (\<lambda>v _ w. bind_res (boxed (hstore_to_sql v w)) (\<lambda>w. Inr (No, w)))\<rparr>"

section \<open>Arrays\<close>

text \<open>\<open>array.dimensions().count()\<close>, and the loop of \<open>map\<close> and \<open>collect\<close> over the values.\<close>

function count_dims :: "bytes \<Rightarrow> sql_error + nat" where
  "count_dims b =
     bind_res (array_dimensions_next b) (\<lambda>(x, b).
     case x of None \<Rightarrow> Inr 0 | Some _ \<Rightarrow> bind_res (count_dims b) (\<lambda>n. Inr (Suc n)))"
  by pat_completeness auto
termination
  by (relation "measure length") (auto dest: dims_iter.shrinks)

function values_loop :: "(bytes option \<Rightarrow> 'a boxed) \<Rightarrow> array_values \<Rightarrow> 'a list boxed" where
  "values_loop f s =
     bind_res (boxed (array_values_next s)) (\<lambda>(v, s).
     case v of
       None \<Rightarrow> Inr []
     | Some v \<Rightarrow> bind_res (f v) (\<lambda>x. bind_res (values_loop f s) (\<lambda>xs. Inr (x # xs))))"
  by pat_completeness auto
termination
  by (relation "measure (\<lambda>(f, s). length (av_buf s))") (auto dest: values_iter.shrinks)

declare count_dims.simps [simp del] values_loop.simps [simp del]

definition ok_or_panic :: "'a option \<Rightarrow> 'a boxed" where
  "ok_or_panic x = (case x of Some x \<Rightarrow> Inr x | None \<Rightarrow> Inl Panic)"

definition array_member :: "pg_type \<Rightarrow> pg_type option" where
  "array_member ty = (case type_kind ty of Array member \<Rightarrow> Some member | _ \<Rightarrow> None)"

definition open_array :: "bytes \<Rightarrow> array_values boxed" where
  "open_array raw =
     bind_res (boxed (array_from_sql raw)) (\<lambda>array.
     bind_res (ok_or_panic (array_dimensions array)) (\<lambda>dims.
     bind_res (boxed (count_dims dims)) (\<lambda>count.
     if count > 1 then boxed (Inl (Err_Msg ''array contains too many dimensions''))
     else ok_or_panic (array_values array))))"

definition array_accepts :: "(pg_type \<Rightarrow> bool) \<Rightarrow> pg_type \<Rightarrow> bool" where
  "array_accepts accepts ty = (case array_member ty of Some inner \<Rightarrow> accepts inner | None \<Rightarrow> False)"

text \<open>\<open>Vec<T>\<close>, also behind \<open>Box<[T]>\<close>.\<close>

definition vec_readable :: "'a readable \<Rightarrow> 'a list readable" where
  "vec_readable f =
     \<lparr>rd_accepts = array_accepts (rd_accepts f),
      rd_from_sql = (\<lambda>ty raw.
        bind_res (ok_or_panic (array_member ty)) (\<lambda>member_type.
        bind_res (open_array raw) (\<lambda>array_values.
        values_loop (rd_nullable f member_type) array_values))),
      rd_null = was_null\<rparr>"

text \<open>\<open>[T; N]\<close>: the elements are read one by one, then there may be no further one.\<close>

fun init_array :: "nat \<Rightarrow> nat \<Rightarrow> nat \<Rightarrow> (bytes option \<Rightarrow> 'a boxed) \<Rightarrow> array_values \<Rightarrow> ('a list \<times> array_values) boxed" where
  "init_array N i 0 f s = Inr ([], s)"
| "init_array N i (Suc n) f s =
     bind_res (boxed (array_values_next s)) (\<lambda>(v, s).
     case v of
       None \<Rightarrow> boxed (Inl (Err_Msg (''too few elements in array (expected '' @ show_nat N @ '', got '' @ show_nat i @ '')'')))
     | Some v \<Rightarrow>
         bind_res (f v) (\<lambda>x. bind_res (init_array N (Suc i) n f s) (\<lambda>(xs, s). Inr (x # xs, s))))"

definition fixed_readable :: "nat \<Rightarrow> 'a readable \<Rightarrow> 'a list readable" where
  "fixed_readable N f =
     \<lparr>rd_accepts = array_accepts (rd_accepts f),
      rd_from_sql = (\<lambda>ty raw.
        bind_res (ok_or_panic (array_member ty)) (\<lambda>member_type.
        bind_res (open_array raw) (\<lambda>array_values.
        bind_res (init_array N 0 N (rd_nullable f member_type) array_values) (\<lambda>(out, array_values).
        bind_res (boxed (array_values_next array_values)) (\<lambda>(v, _).
        case v of
          Some _ \<Rightarrow> boxed (Inl (Err_Msg (''excess elements in array (expected '' @ show_nat N @ '', got more than that)'')))
        | None \<Rightarrow> Inr out))))),
      rd_null = was_null\<rparr>"

text \<open>\<open>&[T]\<close>, to which \<open>Vec<T>\<close>, \<open>[T; N]\<close> and \<open>Box<[T]>\<close> delegate.\<close>

definition slice_to_sql :: "'a writable \<Rightarrow> 'a list \<Rightarrow> pg_type \<Rightarrow> bytes \<Rightarrow> (is_null \<times> bytes) boxed" where
  "slice_to_sql f vs ty w =
     bind_res (ok_or_panic (array_member ty)) (\<lambda>member_type.
     let lower_bound = (if ty = OID_VECTOR \<or> ty = INT2_VECTOR then 0 else 1) in
     bind_res (downcast (length vs)) (\<lambda>len.
     let dimension = \<lparr>ad_len = len, ad_lower_bound = lower_bound\<rparr> in
     bind_res (array_to_sql into_box [dimension] (type_oid member_type) vs (\<lambda>e w. wr_to_sql f e member_type w) w) (\<lambda>w.
     Inr (No, w))))"

definition slice_writable :: "'a writable \<Rightarrow> 'a list writable" where
  "slice_writable f = \<lparr>wr_accepts = array_accepts (wr_accepts f), wr_to_sql = slice_to_sql f\<rparr>"

section \<open>Fields of composites\<close>

text \<open>The helpers of the derived conversions (\<open>private.rs\<close>).\<close>

definition read_be_i32_at :: "bytes \<Rightarrow> (i32 \<times> bytes) boxed" where
  "read_be_i32_at buf =
     (if length buf < 4 then boxed (Inl (Err_Msg ''invalid buffer size'')) else Inr (word_be (take 4 buf), drop 4 buf))"

definition read_value :: "'a readable \<Rightarrow> pg_type \<Rightarrow> bytes \<Rightarrow> ('a \<times> bytes) boxed" where
  "read_value f ty buf =
     bind_res (read_be_i32_at buf) (\<lambda>(len, buf).
     if sint len < 0 then bind_res (rd_nullable f ty None) (\<lambda>x. Inr (x, buf))
     else if length buf < unat len then boxed (Inl (Err_Msg ''invalid buffer size''))
     else bind_res (rd_nullable f ty (Some (take (unat len) buf))) (\<lambda>x. Inr (x, drop (unat len) buf)))"

end
