(* ===== verification/Sql_Value_Laws.thy ===== *)
theory Sql_Value_Laws
  imports Sql_Values
begin

text \<open>
  What the conversions promise: a value that is written reads back, for the scalars and, given it for the member, for options, boxes,
  arrays, dates and timestamps (\<open>sql_value\<close>, \<open>plain_value\<close>); and on a type that it accepts a conversion does not panic
  (\<open>safe_value\<close>).
\<close>

section \<open>The contract of a pair of conversions\<close>

text \<open>A value written to a buffer of its own is read back, as NULL when the writer says so.\<close>

definition reads_back :: "'a writable \<Rightarrow> 'a readable \<Rightarrow> pg_type \<Rightarrow> 'a \<Rightarrow> bool" where
  "reads_back wr rd ty v = (case to_sql_checked wr v ty [] of
      Inr (n, b) \<Rightarrow> rd_nullable rd ty (case n of Yes \<Rightarrow> None | No \<Rightarrow> Some b) = Inr v
    | Inl _ \<Rightarrow> False)"

text \<open>
  \<open>ok ty v\<close>: the value can be written as the type; \<open>enc ty v\<close> are its bytes, \<open>None\<close> for NULL. A value of which no member is
  written as NULL is \<open>plain_value\<close>.
\<close>

locale sql_value =
  fixes wr :: "'a writable" and rd :: "'a readable" and ok :: "pg_type \<Rightarrow> 'a \<Rightarrow> bool" and enc :: "pg_type \<Rightarrow> 'a \<Rightarrow> bytes option"
  assumes writes: "ok ty v \<Longrightarrow> serializes (wr_to_sql wr v ty) (enc ty v)"
    and reads: "ok ty v \<Longrightarrow> rd_nullable rd ty (enc ty v) = Inr v"
begin

lemma reads_back:
  assumes "ok ty v" "wr_accepts wr ty"
  shows "reads_back wr rd ty v"
proof -
  have "rd_nullable rd ty (enc ty v) = Inr v" using assms(1) by (rule reads)
  with writes [OF assms(1)] assms(2) show ?thesis
    by (cases "enc ty v") (auto simp: serializes_def to_sql_checked_def reads_back_def)
qed

end

locale plain_value = sql_value +
  assumes not_null: "ok ty v \<Longrightarrow> enc ty v \<noteq> None"
begin

lemma enc_some: "ok ty v \<Longrightarrow> \<exists>b. enc ty v = Some b \<and> rd_from_sql rd ty b = Inr v \<and> serializes (wr_to_sql wr v ty) (Some b)"
  using not_null [of ty v] reads [of ty v] writes [of ty v] by (auto simp: rd_nullable_def)

end

section \<open>Scalars\<close>

lemma simple_value:
  assumes "\<And>v w. f v w = w @ f v []" "\<And>v. ok v \<Longrightarrow> g (f v []) = Inr v"
  shows "plain_value (simple_writable f tys) (simple_readable g tys') (\<lambda>_. ok) (\<lambda>_ v. Some (f v []))"
proof
  fix ty and v :: 'a
  show "serializes (wr_to_sql (simple_writable f tys) v ty) (Some (f v []))"
    by (simp add: serializes_def simple_writable_def) (intro allI assms(1))
qed (simp_all add: simple_readable_def rd_nullable_def assms(2))

lemma readable_of_simple:
  "readable_of (simple_from g oids) = simple_readable g (map Builtin oids)"
  by (rule readable.equality)
    (auto simp: readable_of_def simple_from_def simple_readable_def was_null_def boxed_def fun_eq_iff map_err_def split: sum.splits)

interpretation bool_value: plain_value bool_writable bool_readable "\<lambda>_ _. True" "\<lambda>_ v. Some (bool_to_sql v [])"
  unfolding bool_writable_def bool_readable_def
  by (rule simple_value [of bool_to_sql "\<lambda>_. True"]) (simp_all add: bool_roundtrip, simp add: bool_to_sql_def)

interpretation i8_value: plain_value i8_writable i8_readable "\<lambda>_ _. True" "\<lambda>_ v. Some (char_to_sql v [])"
  unfolding i8_writable_def i8_readable_def i8_from_sql_def readable_of_simple
  by (rule simple_value [of char_to_sql "\<lambda>_. True"]) (simp add: char_to_sql_def, rule char_fmt.dec_enc)

interpretation i16_value: plain_value i16_writable i16_readable "\<lambda>_ _. True" "\<lambda>_ v. Some (int2_to_sql v [])"
  unfolding i16_writable_def i16_readable_def
  by (rule simple_value [of int2_to_sql "\<lambda>_. True"]) (simp add: int2_to_sql_def, rule int2_fmt.dec_enc)

interpretation i32_value: plain_value i32_writable i32_readable "\<lambda>_ _. True" "\<lambda>_ v. Some (int4_to_sql v [])"
  unfolding i32_writable_def i32_readable_def
  by (rule simple_value [of int4_to_sql "\<lambda>_. True"]) (simp add: int4_to_sql_def, rule int4_fmt.dec_enc)

interpretation u32_value: plain_value u32_writable u32_readable "\<lambda>_ _. True" "\<lambda>_ v. Some (oid_to_sql v [])"
  unfolding u32_writable_def u32_readable_def u32_from_sql_def readable_of_simple
  by (rule simple_value [of oid_to_sql "\<lambda>_. True"]) (simp add: oid_to_sql_def, rule oid_fmt.dec_enc)

interpretation i64_value: plain_value i64_writable i64_readable "\<lambda>_ _. True" "\<lambda>_ v. Some (int8_to_sql v [])"
  unfolding i64_writable_def i64_readable_def
  by (rule simple_value [of int8_to_sql "\<lambda>_. True"]) (simp add: int8_to_sql_def, rule int8_fmt.dec_enc)

interpretation f32_value: plain_value f32_writable f32_readable "\<lambda>_ _. True" "\<lambda>_ v. Some (float4_to_sql v [])"
  unfolding f32_writable_def f32_readable_def
  by (rule simple_value [of float4_to_sql "\<lambda>_. True"]) (simp add: float4_to_sql_def, rule float4_fmt.dec_enc)

interpretation f64_value: plain_value f64_writable f64_readable "\<lambda>_ _. True" "\<lambda>_ v. Some (float8_to_sql v [])"
  unfolding f64_writable_def f64_readable_def
  by (rule simple_value [of float8_to_sql "\<lambda>_. True"]) (simp add: float8_to_sql_def, rule float8_fmt.dec_enc)

interpretation lsn_value: plain_value lsn_writable lsn_readable "\<lambda>_ _. True" "\<lambda>_ v. Some (lsn_to_sql v [])"
  unfolding lsn_writable_def lsn_readable_def
  by (rule simple_value [of lsn_to_sql "\<lambda>_. True"]) (simp add: lsn_to_sql_def, rule lsn_fmt.dec_enc)

interpretation bytes_value: plain_value bytes_writable bytes_readable "\<lambda>_ _. True" "\<lambda>_ v. Some (bytea_to_sql v [])"
  unfolding bytes_writable_def bytes_readable_def
  by (rule simple_value [of bytea_to_sql "\<lambda>_. True"]) (simp_all add: bytea_roundtrip, simp add: bytea_to_sql_def)

text \<open>A text reads back in the format of its type.\<close>

definition str_bytes :: "pg_type \<Rightarrow> bytes \<Rightarrow> bytes" where
  "str_bytes ty s =
     (if has_name ''ltree'' ty then ltree_to_sql s [] else if has_name ''lquery'' ty then lquery_to_sql s []
      else if has_name ''ltxtquery'' ty then ltxtquery_to_sql s [] else text_to_sql s [])"

interpretation str_value: plain_value str_writable str_readable "\<lambda>_. utf8_valid" "\<lambda>ty s. Some (str_bytes ty s)"
proof
  fix ty v
  show "serializes (wr_to_sql str_writable v ty) (Some (str_bytes ty v))"
    by (simp add: serializes_def str_writable_def str_bytes_def ltree_to_sql_def lquery_to_sql_def ltxtquery_to_sql_def
        text_to_sql_def)
  show "rd_nullable str_readable ty (Some (str_bytes ty v)) = Inr v" if "utf8_valid v"
    using that by (simp add: rd_nullable_def str_readable_def readable_of_def str_from_sql_def str_bytes_def text_fmt.dec_enc_ok
        ltree_fmt.dec_enc_ok lquery_fmt.dec_enc_ok ltxtquery_fmt.dec_enc_ok)
qed simp

interpretation ip_value: plain_value ip_writable ip_readable "\<lambda>_ _. True"
  "\<lambda>_ v. Some (inet_to_sql v (case v of V4 _ \<Rightarrow> 32 | V6 _ \<Rightarrow> 128) [])"
proof
  fix ty and v :: ip_addr
  let ?m = "case v of V4 _ \<Rightarrow> 32 | V6 _ \<Rightarrow> 128"
  show "serializes (wr_to_sql ip_writable v ty) (Some (inet_to_sql v ?m []))"
    by (auto simp: serializes_def ip_writable_def inet_to_sql_def Let_def split: ip_addr.split)
  have "inet_from_sql (inet_to_sql v ?m []) = Inr \<lparr>inet_addr = v, inet_netmask = ?m\<rparr>"
    unfolding inet_accepts by (rule conjI, simp add: netmask_ok_def split: ip_addr.split)
      (rule exI [of _ 0], simp add: inet_to_sql_def Let_def numeral_2_eq_2 split: ip_addr.split)
  then show "rd_nullable ip_readable ty (Some (inet_to_sql v ?m [])) = Inr v"
    by (simp add: rd_nullable_def ip_readable_def)
qed simp

section \<open>Options and boxes\<close>

definition option_ok :: "(pg_type \<Rightarrow> 'a \<Rightarrow> bool) \<Rightarrow> pg_type \<Rightarrow> 'a option \<Rightarrow> bool" where
  "option_ok ok ty x = (case x of None \<Rightarrow> True | Some v \<Rightarrow> ok ty v)"

definition option_enc :: "(pg_type \<Rightarrow> 'a \<Rightarrow> bytes option) \<Rightarrow> pg_type \<Rightarrow> 'a option \<Rightarrow> bytes option" where
  "option_enc enc ty x = (case x of None \<Rightarrow> None | Some v \<Rightarrow> enc ty v)"

lemma option_value:
  assumes "plain_value wr rd ok enc"
  shows "sql_value (option_writable wr) (option_readable rd) (option_ok ok) (option_enc enc)"
proof -
  have "serializes (wr_to_sql (option_writable wr) x ty) (option_enc enc ty x)" if "option_ok ok ty x" for ty x
    using that plain_value.axioms(1) [OF assms] by (cases x)
      (auto simp: option_ok_def option_enc_def option_writable_def serializes_def dest: sql_value.writes)
  moreover have "rd_nullable (option_readable rd) ty (option_enc enc ty x) = Inr x" if "option_ok ok ty x" for ty x
    using that plain_value.enc_some [OF assms] by (cases x)
      (fastforce simp: option_ok_def option_enc_def option_readable_def rd_nullable_def)+
  ultimately show ?thesis by (rule sql_value.intro)
qed

lemma box_value:
  assumes "plain_value wr rd ok enc"
  shows "plain_value (box_writable wr) (box_readable rd) ok enc"
proof
  fix ty v
  assume "ok ty v"
  then show "serializes (wr_to_sql (box_writable wr) v ty) (enc ty v)" "rd_nullable (box_readable rd) ty (enc ty v) = Inr v"
    "enc ty v \<noteq> None"
    using plain_value.enc_some [OF assms] by (force simp: box_writable_def box_readable_def rd_nullable_def)+
qed

text \<open>A NULL that \<open>Box<Option<T>>\<close> writes is an error for its reader.\<close>

lemma boxed_option_null:
  "wr_to_sql (box_writable (option_writable wr)) None ty out = Inr (Yes, out)"
  "rd_nullable (box_readable (option_readable rd)) ty None = Inl (Fault Was_Null)"
  "rd_nullable (option_readable rd) ty None = Inr None"
  by (simp_all add: box_writable_def option_writable_def box_readable_def option_readable_def rd_nullable_def was_null_def)

section \<open>Arrays\<close>

definition array_bytes :: "i32 \<Rightarrow> oid \<Rightarrow> bytes option list \<Rightarrow> bytes" where
  "array_bytes lower_bound oid vals =
     be_word (1 :: i32) @ be_word (if None \<in> set vals then 1 else 0 :: i32) @ be_word oid @
     dims_bytes [\<lparr>ad_len = of_nat (length vals), ad_lower_bound = lower_bound\<rparr>] @ concat (map nullable_bytes vals)"

lemma open_array_bytes:
  assumes "length vals \<le> 2147483647"
  shows "open_array (array_bytes lb oid vals) = Inr (mk_values vals)"
proof -
  let ?d = "\<lparr>ad_len = of_nat (length vals) :: i32, ad_lower_bound = lb\<rparr>"
  let ?a = "\<lparr>arr_dimensions = 1, arr_has_nulls = (None \<in> set vals), arr_element_type = oid,
    arr_elements = of_nat (length vals), arr_buf = dims_bytes [?d] @ concat (map nullable_bytes vals)\<rparr>"
  have len: "sint (of_nat (length vals) :: i32) = int (length vals)"
    using assms by (simp add: sint_of_nat_i32)
  have "array_from_sql (array_bytes lb oid vals) = Inr ?a"
    using assms len by (simp add: array_from_sql_def array_bytes_def dim_bytes_def checked_mul_def del: bind_res_Inr)
  moreover have "array_dimensions ?a = Some (dims_bytes [?d])" "array_values ?a = Some (mk_values vals)"
    by (simp_all add: array_dimensions_def array_values_def mk_values_def)
  moreover have "count_dims (dims_bytes [?d]) = Inr (Suc 0)"
    using dims_source.nxt_Cons [of ?d "[]"]
    by (simp add: count_dims.simps [of "dim_bytes ?d"] count_dims.simps [of "[]"] array_dimensions_next_def [of "[]"])
  ultimately show ?thesis by (simp add: open_array_def ok_or_panic_def del: bind_res_Inr)
qed

lemma values_loop_ok:
  assumes "list_all2 (\<lambda>r x. f r = Inr x) vals xs" "length vals \<le> 2147483647" "list_all fits_i32 vals"
  shows "values_loop f (mk_values vals) = Inr xs"
  using assms
proof (induction vals xs rule: list_all2_induct)
  case Nil
  show ?case by (simp add: values_loop.simps array_values_next_def mk_values_def)
next
  case (Cons r rs x xs)
  then have "array_values_next (mk_values (r # rs)) = Inr (Some r, mk_values rs)" "values_loop f (mk_values rs) = Inr xs"
    using values_source.nxt_Cons [of r rs] by simp_all
  with Cons.hyps show ?case by (simp add: values_loop.simps [of f "mk_values (r # rs)"])
qed

lemma init_array_ok:
  assumes "list_all2 (\<lambda>r x. f r = Inr x) vals xs" "length vals \<le> 2147483647" "list_all fits_i32 vals"
  shows "init_array N i (length vals) f (mk_values vals) = Inr (xs, mk_values [])"
  using assms
proof (induction vals xs arbitrary: i rule: list_all2_induct)
  case Nil
  show ?case by simp
next
  case (Cons r rs x xs)
  then have "array_values_next (mk_values (r # rs)) = Inr (Some r, mk_values rs)"
    "init_array N (Suc i) (length rs) f (mk_values rs) = Inr (xs, mk_values [])"
    using values_source.nxt_Cons [of r rs] by simp_all
  with Cons.hyps show ?case by simp
qed

text \<open>The values that a slice can write, and their bytes.\<close>

definition slice_ok ::
  "(pg_type \<Rightarrow> 'a \<Rightarrow> bool) \<Rightarrow> (pg_type \<Rightarrow> 'a \<Rightarrow> bytes option) \<Rightarrow> pg_type \<Rightarrow> 'a list \<Rightarrow> bool" where
  "slice_ok ok enc ty vs \<longleftrightarrow> length vs \<le> 2147483647 \<and>
     (case array_member ty of None \<Rightarrow> False | Some m \<Rightarrow> list_all (\<lambda>v. ok m v \<and> fits_i32 (enc m v)) vs)"

definition slice_enc :: "(pg_type \<Rightarrow> 'a \<Rightarrow> bytes option) \<Rightarrow> pg_type \<Rightarrow> 'a list \<Rightarrow> bytes option" where
  "slice_enc enc ty vs = (case array_member ty of
      None \<Rightarrow> None
    | Some m \<Rightarrow> Some (array_bytes (if ty = OID_VECTOR \<or> ty = INT2_VECTOR then 0 else 1) (type_oid m) (map (enc m) vs)))"

lemma slice_okE:
  assumes "slice_ok ok enc ty vs"
  obtains m where "array_member ty = Some m" "length vs \<le> 2147483647" "\<And>v. v \<in> set vs \<Longrightarrow> ok m v"
    "\<And>v. v \<in> set vs \<Longrightarrow> fits_i32 (enc m v)"
  using assms by (auto simp: slice_ok_def list_all_iff split: option.splits)

context sql_value
begin

lemma slice_writes:
  assumes "slice_ok ok enc ty vs"
  shows "serializes (slice_to_sql wr vs ty) (slice_enc enc ty vs)"
proof -
  from assms obtain m where m: "array_member ty = Some m" "length vs \<le> 2147483647" "\<And>v. v \<in> set vs \<Longrightarrow> ok m v"
    "\<And>v. v \<in> set vs \<Longrightarrow> fits_i32 (enc m v)" by (rule slice_okE) blast
  have "array_to_sql into_box [d] (type_oid m) vs (\<lambda>e. wr_to_sql wr e m) b = Inr (b @ be_word (of_nat (length [d]) :: i32) @
      be_word (if None \<in> enc m ` set vs then 1 else 0 :: i32) @ be_word (type_oid m) @ dims_bytes [d] @
      concat (map nullable_bytes (map (enc m) vs)))" for d b
    using m(3,4) by (intro array_to_sql_at) (simp_all add: writes)
  then show ?thesis
    using m(1,2) by (simp add: serializes_def slice_to_sql_def slice_enc_def ok_or_panic_def downcast_def array_bytes_def Let_def)
qed

lemma members_read:
  assumes "\<And>v. v \<in> set vs \<Longrightarrow> ok m v"
  shows "list_all2 (\<lambda>r x. rd_nullable rd m r = Inr x) (map (enc m) vs) vs"
  using assms by (simp add: list_all2_conv_all_nth reads)

lemma slice_reads:
  assumes "slice_ok ok enc ty vs"
  shows "\<exists>b. slice_enc enc ty vs = Some b \<and> rd_from_sql (vec_readable rd) ty b = Inr vs \<and>
    rd_from_sql (fixed_readable (length vs) rd) ty b = Inr vs"
proof -
  from assms obtain m where m: "array_member ty = Some m" "length vs \<le> 2147483647" "\<And>v. v \<in> set vs \<Longrightarrow> ok m v"
    "\<And>v. v \<in> set vs \<Longrightarrow> fits_i32 (enc m v)" by (rule slice_okE) blast
  let ?vals = "map (enc m) vs"
  have "open_array (array_bytes lb (type_oid m) ?vals) = Inr (mk_values ?vals)" for lb
    using m(2) by (intro open_array_bytes) simp
  moreover have "values_loop (rd_nullable rd m) (mk_values ?vals) = Inr vs"
    using m(2,4) members_read [OF m(3)] by (intro values_loop_ok) (simp_all add: list_all_iff)
  moreover have "init_array (length vs) 0 (length ?vals) (rd_nullable rd m) (mk_values ?vals) = Inr (vs, mk_values [])"
    using m(2,4) members_read [OF m(3)] by (intro init_array_ok) (simp_all add: list_all_iff)
  moreover have "array_values_next (mk_values []) = Inr (None, mk_values [])"
    by (simp add: array_values_next_def mk_values_def)
  ultimately show ?thesis
    using m(1) by (simp add: slice_enc_def vec_readable_def fixed_readable_def ok_or_panic_def)
qed

lemma vec_is_plain: "plain_value (slice_writable wr) (vec_readable rd) (slice_ok ok enc) (slice_enc enc)"
proof
  fix ty vs
  assume ok: "slice_ok ok enc ty vs"
  show "serializes (wr_to_sql (slice_writable wr) vs ty) (slice_enc enc ty vs)"
    using slice_writes [OF ok] by (simp add: slice_writable_def)
  show "rd_nullable (vec_readable rd) ty (slice_enc enc ty vs) = Inr vs" "slice_enc enc ty vs \<noteq> None"
    using slice_reads [OF ok] by (auto simp: rd_nullable_def)
qed

lemma fixed_is_plain:
  "plain_value (slice_writable wr) (fixed_readable N rd) (\<lambda>ty vs. slice_ok ok enc ty vs \<and> length vs = N) (slice_enc enc)"
proof
  fix ty vs
  assume ok: "slice_ok ok enc ty vs \<and> length vs = N"
  then show "serializes (wr_to_sql (slice_writable wr) vs ty) (slice_enc enc ty vs)"
    using slice_writes by (simp add: slice_writable_def)
  show "rd_nullable (fixed_readable N rd) ty (slice_enc enc ty vs) = Inr vs" "slice_enc enc ty vs \<noteq> None"
    using ok slice_reads [of ty vs] by (auto simp: rd_nullable_def)
qed

end

text \<open>An array of another length than \<open>N\<close> is an error of the reader of \<open>[T; N]\<close>, never an array cut short.\<close>

lemma init_array_length: "init_array N i n f s = Inr (xs, s') \<Longrightarrow> length xs = n"
  by (induction n arbitrary: i s xs) (auto split: option.splits)

lemma fixed_length:
  assumes "rd_from_sql (fixed_readable N rd) ty b = Inr xs"
  shows "length xs = N"
  using assms by (auto simp: fixed_readable_def split: option.splits dest!: init_array_length)

section \<open>Times\<close>

lemma usec_div:
  assumes "0 \<le> x" "x < 1000000000"
  shows "(of_int x :: u64) div 1000 = of_int (x div 1000)"
proof -
  have small: "unat (of_int y :: u64) = nat y" if "0 \<le> y" "y < 1000000000" for y
    using that by (simp add: unsigned_of_int take_bit_int_eq_self)
  have "unat ((of_int x :: u64) div 1000) = nat x div 1000"
    using small [OF assms] by (simp add: unat_div)
  also have "\<dots> = nat (x div 1000)" using assms by (simp add: nat_div_distrib)
  also have "\<dots> = unat (of_int (x div 1000) :: u64)" using assms by (intro small [symmetric]) simp_all
  finally show ?thesis by (rule unsigned_word_eqI)
qed

lemma div_mod_split:
  fixes d a b :: int
  assumes "0 < a" "0 < b"
  shows "d div (a * b) * b + d mod (a * b) div a = d div a"
proof -
  have "d mod (a * b) = a * (d div a mod b) + d mod a" using assms by (simp add: zmod_zmult2_eq)
  then have "d mod (a * b) div a = d div a mod b" using assms by simp
  moreover have "d div (a * b) = d div a div b" using assms by (simp add: zdiv_zmult2_eq)
  ultimately show ?thesis by simp
qed

lemmas usec_split = div_mod_split [of 1000 1000000, simplified]

lemma to_usec_eq:
  assumes "0 \<le> d"
  shows "to_usec d = of_int (d div 1000)"
proof -
  have div: "(of_int (d mod 1000000000) :: u64) div 1000 = of_int (d mod 1000000000 div 1000)"
    by (rule usec_div) (rule pos_mod_sign pos_mod_bound, simp)+
  have "to_usec d = of_int (d div 1000000000 * 1000000 + d mod 1000000000 div 1000)"
    unfolding to_usec_def div of_int_add of_int_mult of_int_numeral by (rule refl)
  then show ?thesis unfolding usec_split .
qed

definition whole_usec :: "int \<Rightarrow> int" where
  "whole_usec t = (if pg_epoch \<le> t then pg_epoch + (t - pg_epoch) div 1000 * 1000
     else pg_epoch - (pg_epoch - t) div 1000 * 1000)"

definition in_usec_range :: "int \<Rightarrow> bool" where
  "in_usec_range t \<longleftrightarrow> \<bar>t - pg_epoch\<bar> div 1000 < 2 ^ 63"

lemma usec_sum: "u div 1000000 * 1000000000 + u mod 1000000 * 1000 = u * (1000 :: int)"
  by (simp add: minus_div_mult_eq_mod [symmetric] algebra_simps)

lemma usec_words:
  fixes time :: u64
  assumes "0 \<le> u" "u < 2 ^ 63"
  shows "sint (of_int u :: u64) = u"
    "int (unat ((of_int u :: u64) div 1000000)) * 1000000000 + int (unat (((of_int u :: u64) mod 1000000) * 1000)) = u * 1000"
proof -
  show "sint (of_int u :: u64) = u"
    using assms by (simp add: signed_of_int signed_take_bit_int_eq_self)
  have u: "unat (of_int u :: u64) = nat u"
    using assms by (simp add: unsigned_of_int take_bit_int_eq_self)
  have "unat ((of_int u :: u64) div 1000000) = nat u div 1000000" "unat ((of_int u :: u64) mod 1000000) = nat u mod 1000000"
    using u by (simp_all add: unat_div unat_mod)
  moreover have "unat (w * 1000 :: u64) = unat w * 1000" if "unat w < 1000000" for w :: u64
    using that by (subst unat_word_ariths) simp
  ultimately show "int (unat ((of_int u :: u64) div 1000000)) * 1000000000 + int (unat (((of_int u :: u64) mod 1000000) * 1000)) = u * 1000"
    using assms(1) by (simp add: zdiv_int zmod_int usec_sum)
qed

lemma system_time_reads:
  assumes "in_usec_range t"
  shows "\<exists>b. (\<forall>ty out. wr_to_sql system_time_writable t ty out = Inr (No, out @ b)) \<and>
    (\<forall>ty. rd_from_sql system_time_readable ty b = Inr (whole_usec t))"
proof (cases "pg_epoch \<le> t")
  case True
  let ?u = "(t - pg_epoch) div 1000"
  have u: "0 \<le> ?u" "?u < 2 ^ 63" "to_usec (t - pg_epoch) = of_int ?u"
    using True assms to_usec_eq [of "t - pg_epoch"] by (simp_all add: in_usec_range_def)
  show ?thesis
  proof (intro exI conjI allI)
    fix ty out
    show "wr_to_sql system_time_writable t ty out = Inr (No, out @ timestamp_to_sql (of_int ?u) [])"
      using True u(3) by (simp add: system_time_writable_def timestamp_to_sql_def)
    show "rd_from_sql system_time_readable ty (timestamp_to_sql (of_int ?u) []) = Inr (whole_usec t)"
      using True usec_words [OF u(1,2)] u(1)
      by (simp add: system_time_readable_def timestamp_fmt.dec_enc whole_usec_def Let_def)
  qed
next
  case False
  let ?u = "(pg_epoch - t) div 1000"
  have u: "0 \<le> ?u" "?u < 2 ^ 63" "to_usec (pg_epoch - t) = of_int ?u"
    using False assms to_usec_eq [of "pg_epoch - t"] by (simp_all add: in_usec_range_def)
  have neg: "sint (- of_int ?u :: i64) = - ?u"
    using u(1,2) by (simp add: signed_of_int signed_take_bit_int_eq_self flip: of_int_minus)
  show ?thesis
  proof (intro exI conjI allI)
    fix ty out
    show "wr_to_sql system_time_writable t ty out = Inr (No, out @ timestamp_to_sql (- of_int ?u) [])"
      using False u(3) by (simp add: system_time_writable_def timestamp_to_sql_def)
    show "rd_from_sql system_time_readable ty (timestamp_to_sql (- of_int ?u) []) = Inr (whole_usec t)"
      using False usec_words [OF u(1,2)] u(1) neg
      by (cases "?u = 0") (simp_all add: system_time_readable_def timestamp_fmt.dec_enc whole_usec_def Let_def)
  qed
qed

section \<open>Infinite dates and timestamps\<close>

definition finite_date :: "bytes option \<Rightarrow> bool" where
  "finite_date b = (case b of Some b \<Rightarrow> (case date_from_sql b of Inr d \<Rightarrow> d \<noteq> i32_MAX \<and> d \<noteq> i32_MIN | _ \<Rightarrow> False) | None \<Rightarrow> False)"

definition finite_timestamp :: "bytes option \<Rightarrow> bool" where
  "finite_timestamp b =
     (case b of Some b \<Rightarrow> (case timestamp_from_sql b of Inr t \<Rightarrow> t \<noteq> i64_MAX \<and> t \<noteq> i64_MIN | _ \<Rightarrow> False) | None \<Rightarrow> False)"

definition date_ok where
  "date_ok ok enc ty x = (case x of Date_Value v \<Rightarrow> ok ty v \<and> finite_date (enc ty v) | _ \<Rightarrow> True)"

definition date_enc where
  "date_enc enc (ty :: pg_type) x = (case x of
      Date_PosInfinity \<Rightarrow> Some (date_to_sql i32_MAX []) | Date_NegInfinity \<Rightarrow> Some (date_to_sql i32_MIN []) | Date_Value v \<Rightarrow> enc ty v)"

definition timestamp_ok where
  "timestamp_ok ok enc ty x = (case x of Ts_Value v \<Rightarrow> ok ty v \<and> finite_timestamp (enc ty v) | _ \<Rightarrow> True)"

definition timestamp_enc where
  "timestamp_enc enc (ty :: pg_type) x = (case x of
      Ts_PosInfinity \<Rightarrow> Some (timestamp_to_sql i64_MAX []) | Ts_NegInfinity \<Rightarrow> Some (timestamp_to_sql i64_MIN [])
    | Ts_Value v \<Rightarrow> enc ty v)"

context plain_value
begin

lemma date_is_plain: "plain_value (date_writable wr) (date_readable rd) (date_ok ok enc) (date_enc enc)"
proof
  fix ty x
  assume x: "date_ok ok enc ty x"
  have inf: "date_from_sql (date_to_sql d []) = Inr d" for d by (rule date_fmt.dec_enc)
  show "serializes (wr_to_sql (date_writable wr) x ty) (date_enc enc ty x)"
    using x by (cases x) (auto simp: serializes_def date_writable_def date_enc_def date_to_sql_def date_ok_def dest!: writes)
  show "date_enc enc ty x \<noteq> None"
    using x not_null by (cases x) (auto simp: date_enc_def date_ok_def)
  show "rd_nullable (date_readable rd) ty (date_enc enc ty x) = Inr x"
  proof (cases x)
    case (Date_Value v)
    with x obtain b where "enc ty v = Some b" "rd_from_sql rd ty b = Inr v"
      using enc_some [of ty v] by (auto simp: date_ok_def)
    with Date_Value x show ?thesis
      by (cases "date_from_sql b") (simp_all add: rd_nullable_def date_readable_def date_enc_def date_ok_def finite_date_def)
  qed (simp_all add: rd_nullable_def date_readable_def date_enc_def inf)
qed

lemma timestamp_is_plain:
  "plain_value (timestamp_writable wr) (timestamp_readable rd) (timestamp_ok ok enc) (timestamp_enc enc)"
proof
  fix ty x
  assume x: "timestamp_ok ok enc ty x"
  have inf: "timestamp_from_sql (timestamp_to_sql d []) = Inr d" for d by (rule timestamp_fmt.dec_enc)
  show "serializes (wr_to_sql (timestamp_writable wr) x ty) (timestamp_enc enc ty x)"
    using x by (cases x)
      (auto simp: serializes_def timestamp_writable_def timestamp_enc_def timestamp_to_sql_def timestamp_ok_def dest!: writes)
  show "timestamp_enc enc ty x \<noteq> None"
    using x not_null by (cases x) (auto simp: timestamp_enc_def timestamp_ok_def)
  show "rd_nullable (timestamp_readable rd) ty (timestamp_enc enc ty x) = Inr x"
  proof (cases x)
    case (Ts_Value v)
    with x obtain b where "enc ty v = Some b" "rd_from_sql rd ty b = Inr v"
      using enc_some [of ty v] by (auto simp: timestamp_ok_def)
    with Ts_Value x show ?thesis
      by (cases "timestamp_from_sql b") (simp_all add: rd_nullable_def timestamp_readable_def timestamp_enc_def timestamp_ok_def finite_timestamp_def)
  qed (simp_all add: rd_nullable_def timestamp_readable_def timestamp_enc_def inf)
qed

end

section \<open>HSTORE\<close>

lemma hstore_map_ok:
  "length es \<le> 2147483647 \<and> list_all entry_ok es \<Longrightarrow> hstore_map (mk_hstore es) m = Inr (m ++ map_of (rev es))"
proof (induction es arbitrary: m)
  case Nil
  obtain s where "hstore_next (mk_hstore []) = Inr (None, s)" using hstore_source.nxt_Nil by auto
  then show ?case by (simp add: hstore_map.simps [of "mk_hstore []"])
next
  case (Cons e es)
  then have "hstore_next (mk_hstore (e # es)) = Inr (Some e, mk_hstore es)"
    "hstore_map (mk_hstore es) (m(fst e \<mapsto> snd e)) = Inr (m(fst e \<mapsto> snd e) ++ map_of (rev es))"
    using hstore_source.nxt_Cons [of e es] by simp_all
  then show ?case by (simp add: hstore_map.simps [of "mk_hstore (e # es)"] case_prod_beta)
qed

text \<open>The entries of a map, written in any order, read back as that map.\<close>

lemma hstore_value_roundtrip:
  assumes "length es \<le> 2147483647" "list_all entry_ok es" "distinct (map fst es)"
  shows "\<exists>b. wr_to_sql hstore_writable es ty [] = Inr (No, b) \<and> rd_from_sql hstore_readable ty b = Inr (map_of es)"
proof -
  let ?b = "be_word (of_nat (length es) :: i32) @ concat (map entry_bytes es)"
  have "hstore_from_sql ?b = Inr (mk_hstore es)"
    using assms(1) by (simp add: hstore_from_sql_def mk_hstore_def del: bind_res_Inr)
  moreover have "hstore_map (mk_hstore es) Map.empty = Inr (map_of es)"
    using assms hstore_map_ok [of es Map.empty] map_of_inject_set [of "rev es" es]
    by (simp add: rev_map [symmetric])
  moreover have "hstore_to_sql es [] = Inr ?b" using hstore_to_sql_ok [OF assms(1,2), of "[]"] by simp
  ultimately show ?thesis by (simp add: hstore_writable_def hstore_readable_def)
qed

section \<open>Panics\<close>

text \<open>
  On a type that it accepts, a conversion returns a value or an error. The writer and reader of \<open>hstore\<close> are apart: a truncated
  value panics.
\<close>

locale safe_value =
  fixes wr :: "'a writable" and rd :: "'a readable"
  assumes write_safe: "wr_accepts wr ty \<Longrightarrow> wr_to_sql wr v ty out \<noteq> Inl Panic"
    and read_safe: "rd_accepts rd ty \<Longrightarrow> rd_from_sql rd ty b \<noteq> Inl Panic"
    and null_safe: "rd_null rd ty \<noteq> Inl Panic"

lemma bind_safe:
  "r \<noteq> Inl Panic \<Longrightarrow> (\<And>x. r = Inr x \<Longrightarrow> f x \<noteq> Inl Panic) \<Longrightarrow> bind_res r f \<noteq> Inl Panic"
  by (cases r) auto

lemma map_err_safe [simp]: "map_err (\<lambda>e. Fault (g e)) r \<noteq> Inl Panic"
  by (cases r) simp_all

lemma write_elements_safe:
  "(\<And>x b. x \<in> set xs \<Longrightarrow> ser x b \<noteq> Inl Panic) \<Longrightarrow> write_elements into_box ser xs n buf \<noteq> Inl Panic"
proof (induction xs arbitrary: n buf)
  case (Cons x xs)
  have "write_nullable (\<lambda>e. into_box (Err_Io e)) (ser x) buf \<noteq> Inl Panic"
    using Cons.prems [of x] by (auto simp: write_nullable_def into_box_def Let_def split: is_null.splits sum.splits)
  with Cons show ?case by (auto simp: Let_def intro!: bind_safe)
qed simp

lemma array_to_sql_safe:
  "(\<And>x b. x \<in> set xs \<Longrightarrow> ser x b \<noteq> Inl Panic) \<Longrightarrow> array_to_sql into_box ds oid xs ser buf \<noteq> Inl Panic"
  unfolding array_to_sql_def Let_def
  by (intro bind_safe; (intro write_elements_safe)?) (auto simp: into_box_def map_err_def split: sum.splits prod.splits)

lemma open_array_safe [simp]: "open_array b \<noteq> Inl Panic"
proof -
  have "array_dimensions a \<noteq> None" "array_values a \<noteq> None" if "array_from_sql b = Inr a" for a
    using array_accessors_safe [OF that] by auto
  then show ?thesis
    unfolding open_array_def by (intro bind_safe) (auto simp: ok_or_panic_def)
qed

lemma values_loop_safe:
  assumes "\<And>v. f v \<noteq> Inl Panic"
  shows "values_loop f s \<noteq> Inl Panic"
proof (induction "length (av_buf s)" arbitrary: s rule: less_induct)
  case less
  have "(case r of (v, s) \<Rightarrow> case v of None \<Rightarrow> Inr []
      | Some v \<Rightarrow> bind_res (f v) (\<lambda>x. bind_res (values_loop f s) (\<lambda>xs. Inr (x # xs)))) \<noteq> Inl Panic"
    if r: "array_values_next s = Inr r" for r
  proof (cases r)
    case (Pair v s')
    with r values_iter.shrinks [of s _ s'] have "v \<noteq> None \<Longrightarrow> values_loop f s' \<noteq> Inl Panic"
      by (intro less) auto
    with Pair assms show ?thesis by (cases v) (simp_all add: bind_safe)
  qed
  then show ?case
    unfolding values_loop.simps [of f s] by (intro bind_safe) simp_all
qed

lemma init_array_safe:
  "(\<And>v. f v \<noteq> Inl Panic) \<Longrightarrow> init_array N i n f s \<noteq> Inl Panic"
  by (induction n arbitrary: i s) (auto intro!: bind_safe split: option.splits)

lemma simple_safe: "safe_value (simple_writable f tys) (simple_readable g tys')"
  by unfold_locales (simp_all add: simple_writable_def simple_readable_def was_null_def)

lemma readable_of_safe: "rd_from_sql (readable_of f) ty b \<noteq> Inl Panic" "rd_null (readable_of f) ty \<noteq> Inl Panic"
  by (auto simp: readable_of_def map_err_def split: sum.splits)

interpretation str_safe: safe_value str_writable str_readable
  by unfold_locales (simp_all add: str_writable_def str_readable_def readable_of_safe)

interpretation i32_safe: safe_value i32_writable i32_readable
  unfolding i32_writable_def i32_readable_def by (rule simple_safe)

interpretation system_time_safe: safe_value system_time_writable system_time_readable
  by unfold_locales (auto simp: system_time_writable_def system_time_readable_def was_null_def Let_def)

interpretation ip_safe: safe_value ip_writable ip_readable
  by unfold_locales (auto simp: ip_writable_def ip_readable_def was_null_def Let_def)

context safe_value
begin

lemma nullable_safe: "rd_accepts rd ty \<Longrightarrow> rd_nullable rd ty r \<noteq> Inl Panic"
  by (cases r) (simp_all add: rd_nullable_def read_safe null_safe)

lemma option_is_safe: "safe_value (option_writable wr) (option_readable rd)"
  by unfold_locales (auto simp: option_writable_def option_readable_def write_safe read_safe split: option.splits intro!: bind_safe)

lemma box_is_safe: "safe_value (box_writable wr) (box_readable rd)"
  by unfold_locales (auto simp: box_writable_def box_readable_def write_safe read_safe was_null_def)

lemma slice_safe:
  assumes "array_accepts (wr_accepts wr) ty"
  shows "slice_to_sql wr vs ty out \<noteq> Inl Panic"
proof -
  from assms obtain m where m: "array_member ty = Some m" "wr_accepts wr m"
    by (auto simp: array_accepts_def split: option.splits)
  have "array_to_sql into_box ds (type_oid m) vs (\<lambda>e. wr_to_sql wr e m) out \<noteq> Inl Panic" for ds
    using m(2) by (intro array_to_sql_safe write_safe)
  with m(1) show ?thesis
    unfolding slice_to_sql_def Let_def by (auto simp: ok_or_panic_def downcast_def intro!: bind_safe)
qed

lemma vec_is_safe: "safe_value (slice_writable wr) (vec_readable rd)"
proof
  fix ty b vs out
  show "wr_to_sql (slice_writable wr) vs ty out \<noteq> Inl Panic" if "wr_accepts (slice_writable wr) ty"
    using that slice_safe by (simp add: slice_writable_def)
  assume "rd_accepts (vec_readable rd) ty"
  then obtain m where m: "array_member ty = Some m" "rd_accepts rd m"
    by (auto simp: array_accepts_def vec_readable_def split: option.splits)
  then show "rd_from_sql (vec_readable rd) ty b \<noteq> Inl Panic"
    by (simp add: vec_readable_def ok_or_panic_def bind_safe values_loop_safe nullable_safe)
qed (simp add: vec_readable_def was_null_def)

lemma fixed_is_safe: "safe_value (slice_writable wr) (fixed_readable N rd)"
proof
  fix ty b vs out
  show "wr_to_sql (slice_writable wr) vs ty out \<noteq> Inl Panic" if "wr_accepts (slice_writable wr) ty"
    using that slice_safe by (simp add: slice_writable_def)
  assume "rd_accepts (fixed_readable N rd) ty"
  then obtain m where m: "array_member ty = Some m" "rd_accepts rd m"
    by (auto simp: array_accepts_def fixed_readable_def split: option.splits)
  have "init_array N 0 N (rd_nullable rd m) s \<noteq> Inl Panic" for s
    by (intro init_array_safe nullable_safe m(2))
  with m show "rd_from_sql (fixed_readable N rd) ty b \<noteq> Inl Panic"
    by (auto simp: fixed_readable_def ok_or_panic_def split: option.splits intro!: bind_safe)
qed (simp add: fixed_readable_def was_null_def)

end

lemma hstore_reader_panics:
  "rd_from_sql hstore_readable ty (be_word (1 :: i32) @ be_word (2 :: i32) @ [97]) = Inl Panic"
  by (simp add: hstore_readable_def hstore_from_sql_def hstore_map.simps hstore_next_def Let_def lift_fault_def del: bind_res_Inr)

section \<open>Properties\<close>

text \<open>
  C23: A value that is written to a type that its conversion accepts reads back as itself: booleans, the integers, the floats with
  all their bits, log sequence numbers, byte strings, addresses, and a UTF-8 text in every type of text, those of the ltree extension
  included.
\<close>

theorem scalars_read_back:
  assumes "utf8_valid s" "wr_accepts str_writable ty"
  shows "reads_back bool_writable bool_readable BOOL b \<and> reads_back i8_writable i8_readable CHAR_TYPE i1 \<and>
    reads_back i16_writable i16_readable INT2 i2 \<and> reads_back i32_writable i32_readable INT4 i4 \<and>
    reads_back u32_writable u32_readable OID u4 \<and> reads_back i64_writable i64_readable INT8 i8 \<and>
    reads_back f32_writable f32_readable FLOAT4 f4 \<and> reads_back f64_writable f64_readable FLOAT8 f8 \<and>
    reads_back lsn_writable lsn_readable PG_LSN l \<and> reads_back bytes_writable bytes_readable BYTEA bs \<and>
    reads_back ip_writable ip_readable INET ip \<and> reads_back str_writable str_readable ty s"
  by (intro conjI bool_value.reads_back i8_value.reads_back i16_value.reads_back i32_value.reads_back u32_value.reads_back
      i64_value.reads_back f32_value.reads_back f64_value.reads_back lsn_value.reads_back bytes_value.reads_back
      ip_value.reads_back str_value.reads_back assms)
    (simp_all add: bool_writable_def i8_writable_def i16_writable_def i32_writable_def u32_writable_def i64_writable_def
      f32_writable_def f64_writable_def lsn_writable_def bytes_writable_def ip_writable_def simple_writable_def)

theorem scalars_read_back_witness:
  "reads_back str_writable str_readable (Other (ascii ''ltree'') 70000 Simple (ascii ''public'')) [97, 46, 98]"
  using scalars_read_back [of "[97, 46, 98]" "Other (ascii ''ltree'') 70000 Simple (ascii ''public'')"]
  by (simp add: utf8_valid_ascii str_writable_def has_name_def)

text \<open>
  C20: Arrays, over any pair of conversions that keep their contract: a list of optional members that can be written, at most
  \<open>2 ^ 31 - 1\<close> of them, reads back from an array type as a \<open>Vec\<close> and as an array \<open>[T; N]\<close> of its length, NULL members and the
  empty list included, the zero-based vectors of the system tables as well.
\<close>

theorem arrays_read_back:
  assumes "plain_value wr rd ok enc" "array_member ty = Some m" "wr_accepts wr m"
    and "length xs \<le> 2147483647" "list_all (\<lambda>x. option_ok ok m x \<and> fits_i32 (option_enc enc m x)) xs"
  shows "reads_back (slice_writable (option_writable wr)) (vec_readable (option_readable rd)) ty xs \<and>
    reads_back (slice_writable (option_writable wr)) (fixed_readable (length xs) (option_readable rd)) ty xs"
proof -
  have opt: "sql_value (option_writable wr) (option_readable rd) (option_ok ok) (option_enc enc)"
    using assms(1) by (rule option_value)
  have ok: "slice_ok (option_ok ok) (option_enc enc) ty xs" using assms by (simp add: slice_ok_def)
  have acc: "wr_accepts (slice_writable (option_writable wr)) ty"
    using assms(2,3) by (simp add: slice_writable_def array_accepts_def option_writable_def)
  show ?thesis
    using sql_value.reads_back [OF plain_value.axioms(1) [OF sql_value.vec_is_plain [OF opt]] ok acc]
      sql_value.reads_back [OF plain_value.axioms(1) [OF sql_value.fixed_is_plain [OF opt, of "length xs"]] _ acc] ok
    by simp
qed

theorem arrays_read_back_witness:
  "reads_back (slice_writable (option_writable str_writable)) (vec_readable (option_readable str_readable)) (Builtin 1009)
     [Some [97], None] \<and>
   reads_back (slice_writable (option_writable str_writable)) (fixed_readable (length [Some [97 :: u8], None])
     (option_readable str_readable)) (Builtin 1009) [Some [97], None]"
  by (rule arrays_read_back [OF str_value.plain_value_axioms, where m = TEXT])
    (simp_all add: array_member_def type_kind_def inner_from_oid_def type_of_def str_writable_def option_ok_def option_enc_def
      utf8_valid_ascii str_bytes_def has_name_def text_to_sql_def fits_i32_def)

text \<open>
  A \<open>SystemTime\<close> that is less than 2 ^ 63 microseconds from the epoch of Postgres is written in every timestamp type and reads
  back as the whole microseconds of its distance from that epoch, cut towards it; never as a panic.
\<close>

lemma system_time_roundtrip:
  assumes "in_usec_range t"
  shows "\<exists>b. (\<forall>ty out. wr_to_sql system_time_writable t ty out = Inr (No, out @ b)) \<and>
    (\<forall>ty. rd_from_sql system_time_readable ty b = Inr (whole_usec t)) \<and> \<bar>t - whole_usec t\<bar> < 1000"
proof -
  have "\<bar>x - x div 1000 * 1000\<bar> < 1000" for x :: int
    by (simp add: minus_div_mult_eq_mod)
  from this [of "t - pg_epoch"] this [of "pg_epoch - t"] have "\<bar>t - whole_usec t\<bar> < 1000"
    by (simp add: whole_usec_def)
  with system_time_reads [OF assms] show ?thesis by blast
qed

theorem system_time_roundtrip_witness:
  "\<exists>b. (\<forall>ty out. wr_to_sql system_time_writable 1700000000123456789 ty out = Inr (No, out @ b)) \<and>
    (\<forall>ty. rd_from_sql system_time_readable ty b = Inr (whole_usec 1700000000123456789)) \<and>
    \<bar>1700000000123456789 - whole_usec 1700000000123456789\<bar> < 1000"
  by (rule system_time_roundtrip) (simp add: in_usec_range_def pg_epoch_def)

text \<open>
  On a type that the conversion accepts, neither writing nor reading a list of optional members panics, whatever the bytes are,
  when the conversion of the member does not: a type that is no array, a wrong dimension, a truncated buffer, a NULL and an array of
  another length are errors.
\<close>

lemma arrays_never_panic:
  assumes "safe_value wr rd" "wr_accepts (slice_writable (option_writable wr)) ty"
    and "rd_accepts (vec_readable (option_readable rd)) ty"
  shows "wr_to_sql (slice_writable (option_writable wr)) xs ty out \<noteq> Inl Panic \<and>
    rd_from_sql (vec_readable (option_readable rd)) ty b \<noteq> Inl Panic \<and>
    rd_from_sql (fixed_readable N (option_readable rd)) ty b \<noteq> Inl Panic"
proof -
  have opt: "safe_value (option_writable wr) (option_readable rd)"
    using assms(1) by (rule safe_value.option_is_safe)
  have "rd_accepts (fixed_readable N (option_readable rd)) ty"
    using assms(3) by (simp add: fixed_readable_def vec_readable_def)
  with assms(2,3) safe_value.write_safe [OF safe_value.vec_is_safe [OF opt]]
    safe_value.read_safe [OF safe_value.vec_is_safe [OF opt]] safe_value.read_safe [OF safe_value.fixed_is_safe [OF opt]]
  show ?thesis by blast
qed

theorem arrays_never_panic_witness:
  "wr_to_sql (slice_writable (option_writable i32_writable)) [Some 7, None] (Builtin 1007) [] \<noteq> Inl Panic \<and>
    rd_from_sql (vec_readable (option_readable i32_readable)) (Builtin 1007) [0, 0] \<noteq> Inl Panic \<and>
    rd_from_sql (fixed_readable 2 (option_readable i32_readable)) (Builtin 1007) [0, 0] \<noteq> Inl Panic"
  by (rule arrays_never_panic [OF i32_safe.safe_value_axioms])
    (simp_all add: slice_writable_def vec_readable_def array_accepts_def array_member_def type_kind_def inner_from_oid_def
      type_of_def option_writable_def option_readable_def i32_writable_def i32_readable_def simple_writable_def simple_readable_def)

end
