(* ===== verification/Numeric.thy ===== *)
theory Numeric
  imports Sql_Values
begin

text \<open>
  \<open>NUMERIC\<close> and \<open>rust_decimal::Decimal\<close> (\<open>opengauss-types/src/rust_decimal_1.rs\<close>): a number is groups of four decimal digits with a
  weight, a sign and a scale of display. The crate \<open>rust_decimal\<close> is the record \<open>decimal_lib\<close> of its operations; what the code relies
  on is \<open>decimal_laws\<close>. A \<open>u128\<close> that the code computes without a check is a word; one that it checks is a natural number.
\<close>

section \<open>The crate\<close>

record 'd decimal_lib =
  dl_ZERO :: 'd
  dl_try_from_i128_with_scale :: "int \<Rightarrow> nat \<Rightarrow> string + 'd"
  dl_set_sign_negative :: "bool \<Rightarrow> 'd \<Rightarrow> 'd"
  dl_rescale :: "nat \<Rightarrow> 'd \<Rightarrow> 'd"
  dl_scale :: "'d \<Rightarrow> nat"
  dl_is_zero :: "'d \<Rightarrow> bool"
  dl_is_sign_negative :: "'d \<Rightarrow> bool"
  dl_mantissa :: "'d \<Rightarrow> int"

text \<open>The mantissa of a decimal has 96 bits and its scale is at most 28; a rescaling that is exact succeeds.\<close>

definition decimal_laws :: "'d decimal_lib \<Rightarrow> bool" where
  "decimal_laws lib \<longleftrightarrow>
     (\<forall>m s. case dl_try_from_i128_with_scale lib m s of
        Inr d \<Rightarrow> \<bar>m\<bar> < 2 ^ 96 \<and> s \<le> 28 \<and> dl_mantissa lib d = m \<and> dl_scale lib d = s
      | Inl _ \<Rightarrow> \<not> (\<bar>m\<bar> < 2 ^ 96 \<and> s \<le> 28)) \<and>
     (\<forall>d. dl_mantissa lib (dl_set_sign_negative lib True d) = - \<bar>dl_mantissa lib d\<bar> \<and>
        dl_scale lib (dl_set_sign_negative lib True d) = dl_scale lib d) \<and>
     (\<forall>d s y. s \<le> 28 \<longrightarrow> \<bar>y\<bar> < 2 ^ 96 \<longrightarrow> dl_mantissa lib d * 10 ^ s = y * 10 ^ dl_scale lib d \<longrightarrow>
        dl_mantissa lib (dl_rescale lib s d) = y \<and> dl_scale lib (dl_rescale lib s d) = s) \<and>
     (\<forall>d. \<bar>dl_mantissa lib d\<bar> < 2 ^ 96 \<and> dl_scale lib d \<le> 28) \<and>
     dl_mantissa lib (dl_ZERO lib) = 0 \<and> (\<forall>d. dl_is_zero lib d \<longleftrightarrow> dl_mantissa lib d = 0) \<and>
     (\<forall>d. dl_mantissa lib d \<noteq> 0 \<longrightarrow> (dl_is_sign_negative lib d \<longleftrightarrow> dl_mantissa lib d < 0))"

section \<open>The reader\<close>

abbreviation (input) NUMERIC_TYPE :: pg_type where "NUMERIC_TYPE \<equiv> Builtin 1700"
abbreviation (input) NUMERIC_NEG :: u16 where "NUMERIC_NEG \<equiv> 0x4000"
abbreviation (input) NUMERIC_SPECIAL :: u16 where "NUMERIC_SPECIAL \<equiv> 0xC000"
abbreviation (input) NUMERIC_NAN :: u16 where "NUMERIC_NAN \<equiv> 0xC000"
abbreviation (input) NUMERIC_PINF :: u16 where "NUMERIC_PINF \<equiv> 0xD000"
abbreviation (input) NUMERIC_NINF :: u16 where "NUMERIC_NINF \<equiv> 0xF000"

definition num_err :: "string \<Rightarrow> 'a boxed" where
  "num_err msg = Inl (Fault (Sql_Cause (Err_Msg msg)))"

text \<open>\<open>u16::from_be_bytes([raw[i], raw[i + 1]])\<close>.\<close>

definition u16_at :: "bytes \<Rightarrow> nat \<Rightarrow> u16" where
  "u16_at raw i = word_be [raw ! i, raw ! (i + 1)]"

text \<open>\<open>whole\<close>: the arithmetic of \<open>u128\<close>, which wraps around in a release build.\<close>

definition whole_of :: "u16 list \<Rightarrow> 128 word" where
  "whole_of digits = foldl (\<lambda>whole digit. whole * 10000 + ucast digit) 0 digits"

definition special_error :: "u16 \<Rightarrow> 'a boxed" where
  "special_error sign =
     (if sign = NUMERIC_NAN then num_err ''NaN is not supported for rust_decimal::Decimal''
      else if sign = NUMERIC_PINF then num_err ''+Infinity is not supported for rust_decimal::Decimal''
      else if sign = NUMERIC_NINF then num_err ''-Infinity is not supported for rust_decimal::Decimal''
      else num_err ''unknown special numeric value'')"

definition mantissa_and_scale :: "128 word \<Rightarrow> int \<Rightarrow> (int \<times> nat) boxed" where
  "mantissa_and_scale whole adjust =
     (let i128_max = 2 ^ 127 - 1 :: nat; too_large = num_err ''numeric value too large for rust_decimal::Decimal'' in
      if adjust > 0 then
        (let factor = 10 ^ nat (4 * adjust) in
         if factor \<ge> (2 ^ 128 :: nat) then too_large
         else if unat whole * factor \<ge> 2 ^ 128 then too_large
         else if unat whole * factor > i128_max then too_large
         else Inr (int (unat whole * factor), 0))
      else if adjust < 0 then
        (if unat whole > i128_max then too_large else Inr (int (unat whole), nat (4 * - adjust)))
      else
        (if unat whole > i128_max then too_large else Inr (int (unat whole), 0)))"

definition decimal_from_sql :: "'d decimal_lib \<Rightarrow> bytes \<Rightarrow> 'd boxed" where
  "decimal_from_sql lib raw =
     (if length raw < 8 then num_err ''numeric value requires at least 8 bytes''
      else
        let num_groups = unat (u16_at raw 0);
            weight = sint (u16_at raw 2);
            sign = u16_at raw 4;
            dscale = u16_at raw 6 in
        if sign AND NUMERIC_SPECIAL = NUMERIC_SPECIAL then special_error sign
        else if length raw < 8 + num_groups * 2 then num_err ''numeric value truncated''
        else
          let digits = map (\<lambda>i. u16_at raw (8 + i * 2)) [0..<num_groups];
              whole = whole_of digits;
              set_sign = (\<lambda>value. if sign = NUMERIC_NEG then dl_set_sign_negative lib True value else value) in
          if num_groups = 0 \<or> whole = 0 then Inr (dl_rescale lib (unat dscale) (set_sign (dl_ZERO lib)))
          else
            let adjust = weight - int num_groups + 1 in
            bind_res (mantissa_and_scale whole adjust) (\<lambda>(mantissa, scale).
            bind_res (map_err (\<lambda>e. Fault (Sql_Cause (Err_Msg e))) (dl_try_from_i128_with_scale lib mantissa scale)) (\<lambda>value.
            Inr (dl_rescale lib (unat dscale) (set_sign value)))))"

section \<open>The writer\<close>

fun digits_lsb :: "nat \<Rightarrow> u16 list" where
  "digits_lsb m = (if m > 0 then of_nat (m mod 10000) # digits_lsb (m div 10000) else [])"

declare digits_lsb.simps [simp del]

text \<open>The loop that drops groups of zeros after the decimal point, on the groups from the last to the first.\<close>

fun drop_zeros :: "nat \<Rightarrow> u16 list \<Rightarrow> u16 list" where
  "drop_zeros integer_groups [] = []"
| "drop_zeros integer_groups (d # ds) =
     (if length (d # ds) > integer_groups \<and> d = 0 then drop_zeros integer_groups ds else d # ds)"

definition decimal_to_sql :: "'d decimal_lib \<Rightarrow> 'd \<Rightarrow> bytes \<Rightarrow> (is_null \<times> bytes) boxed" where
  "decimal_to_sql lib d w =
     (let scale = dl_scale lib d in
      if dl_is_zero lib d then Inr (No, w @ [0, 0, 0, 0, 0, 0, 0, 0])
      else
        let negative = dl_is_sign_negative lib d;
            mantissa = nat \<bar>dl_mantissa lib d\<bar>;
            align = scale mod 4 in
        bind_res
          (if align = 0 then Inr mantissa
           else if mantissa * 10 ^ (4 - align) \<ge> 2 ^ 128 then num_err ''numeric value overflow during encoding''
           else Inr (mantissa * 10 ^ (4 - align))) (\<lambda>aligned_mantissa.
        let lsb = digits_lsb aligned_mantissa;
            num_groups_initial = length lsb;
            scale_ceil4 = (scale + 3) div 4;
            weight = of_nat num_groups_initial - of_nat scale_ceil4 - 1 :: i16;
            integer_groups = (if sint weight \<ge> - 1 then nat (sint weight + 1) else 0);
            digits = rev (drop_zeros integer_groups lsb);
            num_groups = of_nat (length digits) :: u16;
            sign = (if negative then NUMERIC_NEG else 0)
        in Inr (No, w @ be_word num_groups @ be_word weight @ be_word sign @ be_word (of_nat scale :: u16) @
             concat (map be_word digits))))"

definition decimal_readable :: "'d decimal_lib \<Rightarrow> 'd readable" where
  "decimal_readable lib =
     \<lparr>rd_accepts = (\<lambda>ty. ty \<in> {NUMERIC_TYPE}), rd_from_sql = (\<lambda>_. decimal_from_sql lib), rd_null = was_null\<rparr>"

definition decimal_writable :: "'d decimal_lib \<Rightarrow> 'd writable" where
  "decimal_writable lib =
     \<lparr>wr_accepts = (\<lambda>ty. ty \<in> {NUMERIC_TYPE}), wr_to_sql = (\<lambda>d _ w. decimal_to_sql lib d w)\<rparr>"

end
