(* ===== verification/Numeric_Laws.thy ===== *)
theory Numeric_Laws
  imports Numeric
begin

text \<open>
  A decimal that is written reads back with its value and its scale, unless the multiplication that aligns it to groups of four
  digits leaves the 96 bits of a mantissa; and what the reader does when its own product leaves the 128 bits.
\<close>

section \<open>Groups of digits\<close>

definition groups_value :: "u16 list \<Rightarrow> nat" where
  "groups_value ds = foldr (\<lambda>d w. w * 10000 + unat d) ds 0"

lemma groups_value_simps [simp]: "groups_value [] = 0" "groups_value (d # ds) = groups_value ds * 10000 + unat d"
  by (simp_all add: groups_value_def)

lemma digits_lsb_0 [simp]: "digits_lsb 0 = []"
  by (simp add: digits_lsb.simps)

lemma groups_value_digits: "groups_value (digits_lsb m) = m"
proof (induction m rule: digits_lsb.induct)
  case (1 m)
  have "unat (of_nat (m mod 10000) :: u16) = m mod 10000"
    by (simp add: unat_of_nat take_bit_nat_eq_self)
  with 1 show ?case by (cases "m = 0") (simp_all add: digits_lsb.simps [of m])
qed

lemma length_digits: "m < 10000 ^ k \<Longrightarrow> length (digits_lsb m) \<le> k"
proof (induction k arbitrary: m)
  case 0
  then show ?case by (simp add: digits_lsb.simps)
next
  case (Suc k)
  then have "m div 10000 < 10000 ^ k" by (simp add: less_mult_imp_div_less mult.commute)
  with Suc.IH show ?case by (simp add: digits_lsb.simps [of m])
qed

lemma whole_of_rev: "whole_of (rev ds) = of_nat (groups_value ds)"
proof (induction ds)
  case (Cons d ds)
  have "whole_of (rev ds @ [d]) = whole_of (rev ds) * 10000 + ucast d" by (simp add: whole_of_def)
  moreover have "(ucast d :: 128 word) = of_nat (unat d)" by simp
  ultimately show ?case
    unfolding rev.simps groups_value_simps of_nat_add of_nat_mult of_nat_numeral Cons by (rule trans [OF _ arg_cong])
qed (simp add: whole_of_def)

lemma unat_whole_of: "groups_value ds < 2 ^ 128 \<Longrightarrow> unat (whole_of (rev ds)) = groups_value ds"
  by (simp add: whole_of_rev unat_of_nat take_bit_nat_eq_self)

lemma drop_zeros_value:
  "groups_value (drop_zeros k ds) * 10000 ^ (length ds - length (drop_zeros k ds)) = groups_value ds"
  "length (drop_zeros k ds) \<le> length ds" "min k (length ds) \<le> length (drop_zeros k ds)"
proof -
  have len: "length (drop_zeros k ds) \<le> length ds" for ds by (induction ds) auto
  then show "length (drop_zeros k ds) \<le> length ds" .
  show "groups_value (drop_zeros k ds) * 10000 ^ (length ds - length (drop_zeros k ds)) = groups_value ds"
  proof (induction ds)
    case (Cons d ds)
    then show ?case using len [of ds] by (auto simp: Suc_diff_le)
  qed simp
  show "min k (length ds) \<le> length (drop_zeros k ds)" by (induction ds) auto
qed

section \<open>The layout\<close>

lemma be_word_u16: "\<exists>a b. be_word (w :: u16) = [a, b] \<and> word_be [a, b] = w"
proof -
  have "length (be_word w) = 2" by simp
  then obtain a b where "be_word w = [a, b]"
    by (cases "be_word w"; cases "tl (be_word w)"; cases "tl (tl (be_word w))") auto
  then show ?thesis using word_be_be_word [of w] by auto
qed

lemma u16_at_append: "length xs = i \<Longrightarrow> u16_at (xs @ be_word w @ ys) i = w"
  using be_word_u16 [of w] by (auto simp: u16_at_def nth_append)

lemma length_u16s [simp]: "length (concat (map be_word (ds :: u16 list))) = 2 * length ds"
  by (induction ds) simp_all

lemma u16_at_list:
  assumes "i < length ds" "length xs = n"
  shows "u16_at (xs @ concat (map be_word ds)) (n + i * 2) = ds ! i"
proof -
  have "ds = take i ds @ ds ! i # drop (Suc i) ds" using assms(1) by (rule id_take_nth_drop)
  then have "xs @ concat (map be_word ds) =
      (xs @ concat (map be_word (take i ds))) @ be_word (ds ! i) @ concat (map be_word (drop (Suc i) ds))"
    by (metis append.assoc concat.simps(2) concat_append list.simps(9) map_append)
  moreover have "length (xs @ concat (map be_word (take i ds))) = n + i * 2" using assms by simp
  ultimately show ?thesis by (metis u16_at_append)
qed

definition numeric_bytes :: "u16 list \<Rightarrow> i16 \<Rightarrow> u16 \<Rightarrow> u16 \<Rightarrow> bytes" where
  "numeric_bytes ds weight sign dscale =
     be_word (of_nat (length ds) :: u16) @ be_word weight @ be_word sign @ be_word dscale @ concat (map be_word ds)"

lemma decimal_from_bytes:
  assumes "length ds < 65536" "sign = 0 \<or> sign = NUMERIC_NEG"
  shows "decimal_from_sql lib (numeric_bytes ds weight sign dscale) =
    (let set_sign = (\<lambda>value. if sign = NUMERIC_NEG then dl_set_sign_negative lib True value else value) in
     if ds = [] \<or> whole_of ds = 0 then Inr (dl_rescale lib (unat dscale) (set_sign (dl_ZERO lib)))
     else
       bind_res (mantissa_and_scale (whole_of ds) (sint weight - int (length ds) + 1)) (\<lambda>(mantissa, scale).
       bind_res (map_err (\<lambda>e. Fault (Sql_Cause (Err_Msg e))) (dl_try_from_i128_with_scale lib mantissa scale)) (\<lambda>value.
       Inr (dl_rescale lib (unat dscale) (set_sign value)))))"
proof -
  let ?b = "numeric_bytes ds weight sign dscale"
  have n: "unat (of_nat (length ds) :: u16) = length ds"
    using assms(1) by (simp add: unat_of_nat take_bit_nat_eq_self)
  have at: "u16_at ?b 0 = of_nat (length ds)" "u16_at ?b 2 = weight" "u16_at ?b 4 = sign" "u16_at ?b 6 = dscale"
    using u16_at_append [of "[]" 0 "of_nat (length ds)"] u16_at_append [of "be_word (of_nat (length ds) :: u16)" 2]
      u16_at_append [of "be_word (of_nat (length ds) :: u16) @ be_word weight" 4]
      u16_at_append [of "be_word (of_nat (length ds) :: u16) @ be_word weight @ be_word sign" 6]
    by (simp_all add: numeric_bytes_def)
  have "u16_at ?b (8 + i * 2) = ds ! i" if "i < length ds" for i
    using u16_at_list [OF that, of "be_word (of_nat (length ds) :: u16) @ be_word weight @ be_word sign @ be_word dscale" 8]
    by (simp add: numeric_bytes_def)
  then have digits: "map (\<lambda>i. u16_at ?b (8 + i * 2)) [0..<length ds] = ds"
    by (intro nth_equalityI) simp_all
  have "length ?b = 8 + length ds * 2" by (simp add: numeric_bytes_def)
  moreover have "\<not> sign AND NUMERIC_SPECIAL = NUMERIC_SPECIAL" using assms(2) by auto
  ultimately show ?thesis
    unfolding decimal_from_sql_def at n Let_def digits by (simp only: if_False if_True) simp
qed

section \<open>The round trip\<close>

text \<open>The mantissa, multiplied so that the scale is one of whole groups.\<close>

definition aligned :: "'d decimal_lib \<Rightarrow> 'd \<Rightarrow> nat" where
  "aligned lib d = nat \<bar>dl_mantissa lib d\<bar> * 10 ^ ((4 - dl_scale lib d mod 4) mod 4)"

definition kept_groups :: "'d decimal_lib \<Rightarrow> 'd \<Rightarrow> u16 list" where
  "kept_groups lib d =
     (let lsb = digits_lsb (aligned lib d) in drop_zeros (length lsb - (dl_scale lib d + 3) div 4) lsb)"

definition group_weight :: "'d decimal_lib \<Rightarrow> 'd \<Rightarrow> i16" where
  "group_weight lib d = of_nat (length (digits_lsb (aligned lib d))) - of_nat ((dl_scale lib d + 3) div 4) - 1"

lemma few_groups:
  assumes "m < 2 ^ 128"
  shows "length (digits_lsb m) \<le> 10"
  using assms by (intro length_digits) simp

lemma sint_weight:
  assumes "n \<le> 10" "c \<le> 7"
  shows "sint (of_nat n - of_nat c - 1 :: i16) = int n - int c - 1"
proof -
  have "(of_nat n - of_nat c - 1 :: i16) = of_int (int n - int c - 1)" by simp
  then show ?thesis
    using assms by (simp only: signed_of_int) (simp add: signed_take_bit_int_eq_self)
qed

lemma lawsD:
  assumes "decimal_laws lib"
  shows "\<bar>m\<bar> < 2 ^ 96 \<Longrightarrow> q \<le> 28 \<Longrightarrow>
      \<exists>v. dl_try_from_i128_with_scale lib m q = Inr v \<and> dl_mantissa lib v = m \<and> dl_scale lib v = q"
    and "2 ^ 96 \<le> \<bar>m\<bar> \<Longrightarrow> \<exists>e. dl_try_from_i128_with_scale lib m q = Inl e"
    and "dl_mantissa lib (dl_set_sign_negative lib True d) = - \<bar>dl_mantissa lib d\<bar>"
    and "dl_scale lib (dl_set_sign_negative lib True d) = dl_scale lib d"
    and "s \<le> 28 \<Longrightarrow> \<bar>y\<bar> < 2 ^ 96 \<Longrightarrow> dl_mantissa lib d * 10 ^ s = y * 10 ^ dl_scale lib d \<Longrightarrow>
      dl_mantissa lib (dl_rescale lib s d) = y \<and> dl_scale lib (dl_rescale lib s d) = s"
    and "\<bar>dl_mantissa lib d\<bar> < 2 ^ 96" "dl_scale lib d \<le> 28" "dl_mantissa lib (dl_ZERO lib) = 0"
    and "dl_is_zero lib d \<longleftrightarrow> dl_mantissa lib d = 0"
    and "dl_mantissa lib d \<noteq> 0 \<Longrightarrow> dl_is_sign_negative lib d \<longleftrightarrow> dl_mantissa lib d < 0"
proof -
  note laws = assms [unfolded decimal_laws_def]
  show "\<exists>v. dl_try_from_i128_with_scale lib m q = Inr v \<and> dl_mantissa lib v = m \<and> dl_scale lib v = q"
    if "\<bar>m\<bar> < 2 ^ 96" "q \<le> 28"
    using spec [OF spec [OF conjunct1 [OF laws], of m], of q] that by (auto split: sum.splits)
  show "\<exists>e. dl_try_from_i128_with_scale lib m q = Inl e" if "2 ^ 96 \<le> \<bar>m\<bar>"
    using spec [OF spec [OF conjunct1 [OF laws], of m], of q] that by (auto split: sum.splits)
qed (use assms in \<open>(unfold decimal_laws_def, blast)+\<close>)

lemma decimal_writes:
  assumes "decimal_laws lib" "dl_mantissa lib d \<noteq> 0" "aligned lib d < 2 ^ 128"
  shows "decimal_to_sql lib d w = Inr (No, w @ numeric_bytes (rev (kept_groups lib d)) (group_weight lib d)
    (if dl_mantissa lib d < 0 then NUMERIC_NEG else 0) (of_nat (dl_scale lib d)))"
proof -
  let ?s = "dl_scale lib d"
  let ?n = "length (digits_lsb (aligned lib d))"
  let ?c = "(?s + 3) div 4"
  have align: "(if ?s mod 4 = 0 then Inr (nat \<bar>dl_mantissa lib d\<bar>)
      else if nat \<bar>dl_mantissa lib d\<bar> * 10 ^ (4 - ?s mod 4) \<ge> 2 ^ 128 then num_err ''numeric value overflow during encoding''
      else Inr (nat \<bar>dl_mantissa lib d\<bar> * 10 ^ (4 - ?s mod 4))) = Inr (aligned lib d)"
  proof (cases "?s mod 4 = 0")
    case False
    then have "(4 - ?s mod 4) mod 4 = 4 - ?s mod 4" by (intro mod_less) simp
    then have "aligned lib d = nat \<bar>dl_mantissa lib d\<bar> * 10 ^ (4 - ?s mod 4)" by (simp add: aligned_def)
    with False assms(3) show ?thesis by simp
  qed (simp add: aligned_def)
  have "?s \<le> 28" "?n \<le> 10" using lawsD(7) [OF assms(1)] few_groups [OF assms(3)] by simp_all
  then have "sint (group_weight lib d) = int ?n - int ?c - 1"
    unfolding group_weight_def by (intro sint_weight) simp_all
  then have ig: "(if sint (group_weight lib d) \<ge> - 1 then nat (sint (group_weight lib d) + 1) else 0) = ?n - ?c" by auto
  show ?thesis
    using assms(2) lawsD(9,10) [OF assms(1), of d]
    unfolding decimal_to_sql_def Let_def align bind_res_simps ig [unfolded group_weight_def]
    by (simp add: numeric_bytes_def kept_groups_def Let_def group_weight_def)
qed

lemma kept_groups_value:
  assumes "s = dl_scale lib d" "c = (s + 3) div 4" "n = length (digits_lsb (aligned lib d))"
  obtains k where "k \<le> c" "k \<le> n" "length (kept_groups lib d) = n - k" "groups_value (kept_groups lib d) * 10000 ^ k = aligned lib d"
proof -
  let ?k = "n - length (kept_groups lib d)"
  have "min (n - c) n \<le> length (kept_groups lib d)" "length (kept_groups lib d) \<le> n"
    "groups_value (kept_groups lib d) * 10000 ^ ?k = aligned lib d"
    using drop_zeros_value [of "n - c" "digits_lsb (aligned lib d)"] assms
    by (simp_all add: kept_groups_def Let_def groups_value_digits)
  then show ?thesis by (intro that [of ?k]) auto
qed

lemma aligned_power:
  assumes "groups * 10000 ^ k = aligned lib d" "k \<le> (dl_scale lib d + 3) div 4"
  shows "groups * 10 ^ dl_scale lib d = nat \<bar>dl_mantissa lib d\<bar> * 10 ^ (4 * ((dl_scale lib d + 3) div 4 - k))"
proof -
  let ?s = "dl_scale lib d" and ?a = "(4 - dl_scale lib d mod 4) mod 4" and ?c = "(dl_scale lib d + 3) div 4"
  have "?s mod 4 \<in> {0, 1, 2, 3}" by auto
  then have c: "4 * ?c = ?s + ?a" by (auto; presburger)
  have "groups * 10 ^ ?s * 10000 ^ k = nat \<bar>dl_mantissa lib d\<bar> * 10 ^ ?a * 10 ^ ?s"
    using assms(1) by (simp add: aligned_def mult.commute mult.left_commute)
  also have "\<dots> = nat \<bar>dl_mantissa lib d\<bar> * 10 ^ (4 * ?c)" by (simp add: c power_add)
  also have "10 ^ (4 * ?c) = (10 :: nat) ^ (4 * (?c - k)) * 10000 ^ k"
  proof -
    have "4 * ?c = 4 * (?c - k) + 4 * k" using assms(2) by simp
    then have "(10 :: nat) ^ (4 * ?c) = 10 ^ (4 * (?c - k)) * 10 ^ (4 * k)" by (metis power_add)
    then show ?thesis by (simp add: power_mult)
  qed
  finally show ?thesis by simp
qed

lemma mantissa_and_scale_small:
  assumes "unat w < 2 ^ 127"
  shows "mantissa_and_scale w (- int q) = Inr (int (unat w), 4 * q)"
proof -
  have "\<not> (2 ^ 127 - 1 :: nat) < unat w" using assms by simp
  then show ?thesis
    by (cases "q = 0") (simp_all only: mantissa_and_scale_def Let_def if_False if_True minus_minus, simp_all)
qed

lemma decimal_reads:
  assumes "decimal_laws lib" "dl_mantissa lib d \<noteq> 0" "groups_value (kept_groups lib d) < 2 ^ 96" "aligned lib d < 2 ^ 128"
  shows "\<exists>v. decimal_from_sql lib (numeric_bytes (rev (kept_groups lib d)) (group_weight lib d)
      (if dl_mantissa lib d < 0 then NUMERIC_NEG else 0) (of_nat (dl_scale lib d))) = Inr v \<and>
    dl_mantissa lib v = dl_mantissa lib d \<and> dl_scale lib v = dl_scale lib d"
proof -
  let ?m = "dl_mantissa lib d" and ?s = "dl_scale lib d" and ?c = "(dl_scale lib d + 3) div 4"
  let ?n = "length (digits_lsb (aligned lib d))" and ?ds = "kept_groups lib d" and ?V = "groups_value (kept_groups lib d)"
  let ?sign = "if dl_mantissa lib d < 0 then NUMERIC_NEG else 0"
  obtain k where k: "k \<le> ?c" "k \<le> ?n" "length ?ds = ?n - k" "?V * 10000 ^ k = aligned lib d"
    by (rule kept_groups_value [OF refl refl refl, of lib d])
  have n: "?n \<le> 10" by (rule few_groups) (rule assms(4))
  have s: "?s \<le> 28" using assms(1) by (rule lawsD(7))
  then have c: "?c - k \<le> 7" by simp
  have "aligned lib d \<noteq> 0" using assms(2) by (simp add: aligned_def)
  then have V: "?V \<noteq> 0" using k(4) by (metis mult_zero_left)
  have whole: "unat (whole_of (rev ?ds)) = ?V" using assms(3) by (intro unat_whole_of) simp
  have nz: "rev ?ds \<noteq> []" "whole_of (rev ?ds) \<noteq> 0" using V whole by (auto simp del: unat_eq_0)
  have "sint (group_weight lib d) = int ?n - int ?c - 1"
    using n s unfolding group_weight_def by (intro sint_weight) simp_all
  then have adjust: "sint (group_weight lib d) - int (length (rev ?ds)) + 1 = - int (?c - k)"
    using k(1-3) by simp
  have "mantissa_and_scale (whole_of (rev ?ds)) (sint (group_weight lib d) - int (length (rev ?ds)) + 1) =
      Inr (int ?V, 4 * (?c - k))"
    unfolding adjust whole [symmetric] by (rule mantissa_and_scale_small) (use assms(3) whole in simp)
  moreover obtain v where v: "dl_try_from_i128_with_scale lib (int ?V) (4 * (?c - k)) = Inr v" "dl_mantissa lib v = int ?V"
    "dl_scale lib v = 4 * (?c - k)"
    using lawsD(1) [OF assms(1), of "int ?V" "4 * (?c - k)"] assms(3) c by auto
  moreover define v' where "v' = (if ?sign = NUMERIC_NEG then dl_set_sign_negative lib True v else v)"
  ultimately have "decimal_from_sql lib (numeric_bytes (rev ?ds) (group_weight lib d) ?sign (of_nat ?s)) =
      Inr (dl_rescale lib (unat (of_nat ?s :: u16)) v')"
    using nz n k(3) by (subst decimal_from_bytes) (simp_all add: Let_def)
  moreover have "unat (of_nat ?s :: u16) = ?s" using s by (simp add: unat_of_nat take_bit_nat_eq_self)
  moreover have "dl_mantissa lib v' = (if ?m < 0 then - int ?V else int ?V)" "dl_scale lib v' = 4 * (?c - k)"
    using v lawsD(3,4) [OF assms(1)] by (auto simp: v'_def)
  moreover have "int (?V * 10 ^ ?s) = int (nat \<bar>?m\<bar> * 10 ^ (4 * (?c - k)))"
    using aligned_power [OF k(4,1)] by simp
  ultimately show ?thesis
    using lawsD(5) [OF assms(1) s lawsD(6) [OF assms(1), of d], of v'] by (simp split: if_splits)
qed

text \<open>
  C21: A decimal is written as a numeric that reads back as the same number with the same scale, or as a zero of scale zero if it is
  zero, provided that its mantissa times the power of ten that completes the last group of four decimals still has 96 bits.
\<close>

theorem decimal_roundtrip:
  assumes "decimal_laws lib" "aligned lib d < 2 ^ 96"
  shows "\<exists>b v. decimal_to_sql lib d [] = Inr (No, b) \<and> decimal_from_sql lib b = Inr v \<and>
    dl_mantissa lib v = dl_mantissa lib d \<and> dl_scale lib v = (if dl_mantissa lib d = 0 then 0 else dl_scale lib d)"
proof (cases "dl_mantissa lib d = 0")
  case True
  have "numeric_bytes [] 0 0 0 = [0, 0, 0, 0, 0, 0, 0, 0]"
    by (simp add: numeric_bytes_def be_word_def numeral_2_eq_2)
  then have "decimal_from_sql lib [0, 0, 0, 0, 0, 0, 0, 0] = Inr (dl_rescale lib 0 (dl_ZERO lib))"
    using decimal_from_bytes [of "[]" 0 lib 0 0] by simp
  with True lawsD(9) [OF assms(1), of d] lawsD(5) [OF assms(1), of 0 0 "dl_ZERO lib"] lawsD(8) [OF assms(1)]
  show ?thesis by (simp add: decimal_to_sql_def Let_def)
next
  case False
  have "groups_value (kept_groups lib d) \<le> aligned lib d"
    using kept_groups_value [OF refl refl refl, of lib d] by (metis le_add2 le_square mult_le_mono2 nat_mult_1_right one_le_numeral one_le_power)
  with assms(2) decimal_writes [OF assms(1) False, of "[]"] decimal_reads [OF assms(1) False] False show ?thesis by simp
qed

text \<open>A library with the laws: pairs of a mantissa and a scale, cut to their ranges.\<close>

definition fits96 :: "int \<Rightarrow> int" where
  "fits96 m = (if \<bar>m\<bar> < 2 ^ 96 then m else 0)"

definition sample_rescale :: "nat \<Rightarrow> int \<times> nat \<Rightarrow> int \<times> nat" where
  "sample_rescale s d =
     (let m = fits96 (fst d) * 10 ^ s; p = 10 ^ min 28 (snd d) in
      if s \<le> 28 \<and> m mod p = 0 \<and> \<bar>m div p\<bar> < 2 ^ 96 then (m div p, s) else d)"

definition sample_decimal :: "(int \<times> nat) decimal_lib" where
  "sample_decimal =
     \<lparr>dl_ZERO = (0, 0),
      dl_try_from_i128_with_scale = (\<lambda>m s. if \<bar>m\<bar> < 2 ^ 96 \<and> s \<le> 28 then Inr (m, s) else Inl ''out of range''),
      dl_set_sign_negative = (\<lambda>b d. (if b then - \<bar>fits96 (fst d)\<bar> else \<bar>fits96 (fst d)\<bar>, snd d)),
      dl_rescale = sample_rescale, dl_scale = (\<lambda>d. min 28 (snd d)), dl_is_zero = (\<lambda>d. fits96 (fst d) = 0),
      dl_is_sign_negative = (\<lambda>d. fits96 (fst d) < 0), dl_mantissa = (\<lambda>d. fits96 (fst d))\<rparr>"

lemma fits96_simps [simp]: "\<bar>fits96 m\<bar> < 2 ^ 96" "\<bar>m\<bar> < 2 ^ 96 \<Longrightarrow> fits96 m = m"
  by (simp_all add: fits96_def)

lemma sample_decimal_laws: "decimal_laws sample_decimal"
proof -
  have "fits96 (fst (sample_rescale s d)) = y \<and> min 28 (snd (sample_rescale s d)) = s"
    if "s \<le> 28" "\<bar>y\<bar> < 2 ^ 96" "fits96 (fst d) * 10 ^ s = y * 10 ^ min 28 (snd d)" for d s y
    using that(1,2) unfolding sample_rescale_def Let_def that(3) by simp
  then show ?thesis
    unfolding decimal_laws_def by (simp add: sample_decimal_def del: min.absorb1 min.absorb2) (simp add: fits96_def)
qed

theorem decimal_roundtrip_witness:
  "\<exists>b v. decimal_to_sql sample_decimal (- 1234567, 3) [] = Inr (No, b) \<and> decimal_from_sql sample_decimal b = Inr v \<and>
    dl_mantissa sample_decimal v = - 1234567 \<and> dl_scale sample_decimal v = 3"
  using decimal_roundtrip [OF sample_decimal_laws, of "(- 1234567, 3)"]
  by (simp add: aligned_def sample_decimal_def fits96_def)

section \<open>What the formats lose\<close>

lemma kept_groups_all:
  assumes "aligned lib d mod 10000 \<noteq> 0"
  shows "groups_value (kept_groups lib d) = aligned lib d"
proof -
  have "0 < aligned lib d" using assms by (cases "aligned lib d") simp_all
  moreover have "(of_nat (aligned lib d mod 10000) :: u16) \<noteq> 0"
    using assms by (simp add: of_nat_eq_iff word_of_nat_eq_0_iff nat_dvd_not_less)
  ultimately have "kept_groups lib d = digits_lsb (aligned lib d)"
    by (simp add: kept_groups_def Let_def digits_lsb.simps [of "aligned lib d"])
  then show ?thesis by (simp add: groups_value_digits)
qed

text \<open>
  The decimal \<open>7922816251426433759354395033.5\<close>, the greatest mantissa with one decimal, is written without an error, and the
  bytes are refused by the reader of the same type.
\<close>

lemma decimal_unreadable:
  assumes "decimal_laws lib" "dl_mantissa lib d = 2 ^ 96 - 1" "dl_scale lib d = 1"
  shows "\<exists>b e. decimal_to_sql lib d [] = Inr (No, b) \<and> decimal_from_sql lib b = Inl (Fault e)"
proof -
  have al: "aligned lib d = (2 ^ 96 - 1) * 1000" using assms(2,3) by (simp add: aligned_def nat_diff_distrib)
  have V: "groups_value (kept_groups lib d) = (2 ^ 96 - 1) * 1000"
    using kept_groups_all [of lib d] unfolding al by simp
  obtain k where k: "k \<le> 1" "k \<le> length (digits_lsb (aligned lib d))"
    "length (kept_groups lib d) = length (digits_lsb (aligned lib d)) - k" "groups_value (kept_groups lib d) * 10000 ^ k = aligned lib d"
    by (rule kept_groups_value [OF refl refl refl, of lib d]) (simp add: assms(3))
  have "k = 0" using k(1,4) unfolding V al by (cases k) simp_all
  have whole: "unat (whole_of (rev (kept_groups lib d))) = (2 ^ 96 - 1) * 1000"
    unfolding V [symmetric] by (rule unat_whole_of) (simp add: V)
  let ?n = "length (digits_lsb (aligned lib d))"
  have n: "?n \<le> 10" by (rule few_groups) (simp add: al)
  have "sint (group_weight lib d) = int ?n - int 1 - 1"
    using n sint_weight [of ?n 1] by (simp add: group_weight_def assms(3))
  then have adjust: "sint (group_weight lib d) - int (length (rev (kept_groups lib d))) + 1 = - int 1"
    using k(3) \<open>k = 0\<close> by simp
  have ms: "mantissa_and_scale (whole_of (rev (kept_groups lib d)))
      (sint (group_weight lib d) - int (length (rev (kept_groups lib d))) + 1) = Inr (int ((2 ^ 96 - 1) * 1000), 4 * 1)"
    unfolding adjust whole [symmetric] by (rule mantissa_and_scale_small) (simp add: whole)
  obtain e where e: "dl_try_from_i128_with_scale lib (int ((2 ^ 96 - 1) * 1000)) (4 * 1) = Inl e"
    using lawsD(2) [OF assms(1), of "int ((2 ^ 96 - 1) * 1000)"] by auto
  have nz: "rev (kept_groups lib d) \<noteq> []" "whole_of (rev (kept_groups lib d)) \<noteq> 0"
    using V whole by (auto simp del: unat_eq_0)
  have "decimal_from_sql lib (numeric_bytes (rev (kept_groups lib d)) (group_weight lib d) 0 1) =
      Inl (Fault (Sql_Cause (Err_Msg e)))"
    using nz n k(3) \<open>k = 0\<close> ms e by (subst decimal_from_bytes) (simp_all add: Let_def)
  moreover have "decimal_to_sql lib d [] = Inr (No, [] @ numeric_bytes (rev (kept_groups lib d)) (group_weight lib d)
      (if dl_mantissa lib d < 0 then NUMERIC_NEG else 0) (of_nat (dl_scale lib d)))"
    using assms by (intro decimal_writes) (simp_all add: al)
  ultimately show ?thesis using assms(2,3) by simp
qed

theorem decimal_unreadable_witness:
  "\<exists>b e. decimal_to_sql sample_decimal (2 ^ 96 - 1, 1) [] = Inr (No, b) \<and> decimal_from_sql sample_decimal b = Inl (Fault e)"
  by (rule decimal_unreadable [OF sample_decimal_laws]) (simp_all add: sample_decimal_def fits96_def)

text \<open>
  The product that gathers the groups of a numeric is not checked. In a release build the numeric
  \<open>340282366920938463463374607431768211456\<close>, which is \<open>2 ^ 128\<close> and far beyond a decimal, is read without an error as zero.
\<close>

lemma numeric_overflow_is_zero:
  "decimal_from_sql lib (numeric_bytes [340, 2823, 6692, 938, 4634, 6337, 4607, 4317, 6821, 1456] 9 0 0) =
     Inr (dl_rescale lib 0 (dl_ZERO lib))"
proof -
  have "whole_of [340, 2823, 6692, 938, 4634, 6337, 4607, 4317, 6821, 1456] = 0" by (simp add: whole_of_def)
  then show ?thesis by (subst decimal_from_bytes) simp_all
qed

end
