(* ===== verification/Pg_Lsn.thy ===== *)
theory Pg_Lsn
  imports Utf8
begin

text \<open>
  The text of a log sequence number (\<open>opengauss-types/src/pg_lsn.rs\<close>): two hexadecimal numbers with a slash between them. A text is
  its bytes. Its binary form is among the conversions of \<open>Sql_Values\<close>.
\<close>

section \<open>Hexadecimal integers\<close>

text \<open>\<open>{:X}\<close> of an integer.\<close>

definition upper_hex_digit :: "nat \<Rightarrow> u8" where
  "upper_hex_digit d = (if d < 10 then of_nat (48 + d) else of_nat (55 + d))"

fun show_hex :: "nat \<Rightarrow> bytes" where
  "show_hex n = (if n < 16 then [upper_hex_digit n] else show_hex (n div 16) @ [upper_hex_digit (n mod 16)])"

declare show_hex.simps [simp del]

text \<open>\<open>u64::from_str_radix(s, 16)\<close>: an optional plus sign, then digits of either case; no digit and an overflow are errors.\<close>

definition hex_value :: "u8 \<Rightarrow> nat option" where
  "hex_value b =
     (let c = unat b in
      if 48 \<le> c \<and> c \<le> 57 then Some (c - 48)
      else if 65 \<le> c \<and> c \<le> 70 then Some (c - 55)
      else if 97 \<le> c \<and> c \<le> 102 then Some (c - 87)
      else None)"

fun hex_digits :: "nat \<Rightarrow> bytes \<Rightarrow> nat option" where
  "hex_digits n [] = Some n"
| "hex_digits n (b # bs) =
     (case hex_value b of
        None \<Rightarrow> None
      | Some d \<Rightarrow> if n * 16 + d < 2 ^ 64 then hex_digits (n * 16 + d) bs else None)"

definition u64_from_hex :: "bytes \<Rightarrow> u64 option" where
  "u64_from_hex s =
     (let digits = (case s of b # bs \<Rightarrow> if b = 43 then bs else s | [] \<Rightarrow> []) in
      if digits = [] then None else map_option of_nat (hex_digits 0 digits))"

section \<open>\<open>PgLsn\<close>\<close>

text \<open>\<open>split_once('/')\<close>; \<open>None\<close> of \<open>lsn_from_str\<close> is \<open>ParseLsnError\<close>.\<close>

definition split_once :: "u8 \<Rightarrow> bytes \<Rightarrow> (bytes \<times> bytes) option" where
  "split_once c s =
     (if c \<in> set s then Some (takeWhile (\<lambda>b. b \<noteq> c) s, drop 1 (dropWhile (\<lambda>b. b \<noteq> c) s)) else None)"

definition lsn_from_str :: "bytes \<Rightarrow> u64 option" where
  "lsn_from_str lsn_str =
     (case split_once 0x2F lsn_str of
        None \<Rightarrow> None
      | Some (split_hi, split_lo) \<Rightarrow>
          (case u64_from_hex split_hi of
             None \<Rightarrow> None
           | Some hi \<Rightarrow>
               (case u64_from_hex split_lo of
                  None \<Rightarrow> None
                | Some lo \<Rightarrow> Some (or (push_bit 32 hi) lo))))"

definition lsn_display :: "u64 \<Rightarrow> bytes" where
  "lsn_display l = show_hex (unat (drop_bit 32 l)) @ [0x2F] @ show_hex (unat (and l 0x00000000ffffffff))"

section \<open>The round trip\<close>

lemma hex_value_upper:
  assumes "d < 16"
  shows "hex_value (upper_hex_digit d) = Some d"
proof -
  have "unat (of_nat k :: u8) = k" if "k < 256" for k
    using that by (simp add: unat_of_nat take_bit_nat_eq_self)
  then have "unat (upper_hex_digit d) = (if d < 10 then 48 + d else 55 + d)"
    using assms by (simp add: upper_hex_digit_def del: of_nat_add)
  with assms show ?thesis by (simp add: hex_value_def Let_def)
qed

lemma upper_hex_digit_clean: "d < 16 \<Longrightarrow> upper_hex_digit d \<noteq> 0x2F \<and> upper_hex_digit d \<noteq> 43"
  using hex_value_upper [of d] by (auto simp: hex_value_def Let_def)

lemma hex_digits_append: "hex_digits n (a @ b) = (case hex_digits n a of None \<Rightarrow> None | Some m \<Rightarrow> hex_digits m b)"
  by (induction a arbitrary: n) (auto split: option.splits)

lemma hex_digits_show: "n < 2 ^ 64 \<Longrightarrow> hex_digits 0 (show_hex n) = Some n"
proof (induction n rule: show_hex.induct)
  case (1 n)
  show ?case
  proof (cases "n < 16")
    case True
    then show ?thesis by (simp add: show_hex.simps [of n] hex_value_upper)
  next
    case False
    with 1 have "hex_digits 0 (show_hex (n div 16)) = Some (n div 16)" by simp
    with False 1 show ?thesis by (simp add: show_hex.simps [of n] hex_digits_append hex_value_upper)
  qed
qed

lemma show_hex_clean: "b \<in> set (show_hex n) \<Longrightarrow> b \<noteq> 0x2F \<and> b \<noteq> 43"
proof (induction n rule: show_hex.induct)
  case (1 n)
  then show ?case by (cases "n < 16") (auto simp: show_hex.simps [of n] upper_hex_digit_clean)
qed

lemma show_hex_nonempty: "show_hex n \<noteq> []"
  by (simp add: show_hex.simps [of n])

lemma u64_from_hex_show: "n < 2 ^ 64 \<Longrightarrow> u64_from_hex (show_hex n) = Some (of_nat n)"
  using show_hex_nonempty [of n] show_hex_clean [of _ n] hex_digits_show [of n]
  by (cases "show_hex n") (auto simp: u64_from_hex_def Let_def)

lemma split_once_at:
  assumes "c \<notin> set a"
  shows "split_once c (a @ c # b) = Some (a, b)"
proof -
  have "takeWhile (\<lambda>b. b \<noteq> c) (a @ c # b) = a" "dropWhile (\<lambda>b. b \<noteq> c) (a @ c # b) = c # b"
    using assms by (auto simp: takeWhile_append dropWhile_append)
  then show ?thesis by (simp add: split_once_def)
qed

lemma lsn_halves: "or (push_bit 32 (drop_bit 32 (l :: u64))) (and l 0x00000000ffffffff) = l"
proof -
  have m: "(0x00000000ffffffff :: u64) = mask 32" by (simp add: mask_eq_exp_minus_1)
  show ?thesis
    unfolding m by (intro bit_word_eqI) (auto simp: bit_or_iff bit_push_bit_iff bit_drop_bit_eq bit_and_iff bit_mask_iff)
qed

text \<open>
  A log sequence number printed is parsed back as itself.
\<close>

lemma lsn_text_roundtrip: "lsn_from_str (lsn_display l) = Some l"
proof -
  have "0x2F \<notin> set (show_hex n)" for n using show_hex_clean by blast
  then have "split_once 0x2F (lsn_display l) =
      Some (show_hex (unat (drop_bit 32 l)), show_hex (unat (and l 0x00000000ffffffff)))"
    by (simp add: lsn_display_def split_once_at)
  moreover have "unat w < 2 ^ 64" for w :: u64 using unsigned_less [of w] by simp
  ultimately show ?thesis
    by (simp add: lsn_from_str_def u64_from_hex_show lsn_halves)
qed

text \<open>
  The halves of a text are not held to 32 bits: the bits of the first that do not fit are dropped, those of the second are mixed
  into the first, so that texts that no server prints are accepted as other positions.
\<close>

lemma lsn_wide_halves:
  "lsn_from_str (ascii ''100000001/0'') = Some 0x100000000 \<and> lsn_from_str (ascii ''1/200000003'') = Some 0x300000003"
  by (simp add: lsn_from_str_def split_once_def ascii_def u64_from_hex_def hex_value_def Let_def)

end
