(* ===== verification/Duration_Parse.thy ===== *)
theory Duration_Parse
  imports Connect Config_Laws
begin

text \<open>
  Durations of the configuration files of the \<open>gaussdb\<close> crate (\<open>gaussdb/src/duration_parse.rs\<close>), with the operations on strings
  that the crate uses. A \<open>str\<close> is the list of its characters. An error message is the constructor that names it, with the texts that
  it quotes.
\<close>

section \<open>Operations on strings\<close>

definition trim_start :: "rstr \<Rightarrow> rstr" where
  "trim_start s = dropWhile is_whitespace s"

definition trim :: "rstr \<Rightarrow> rstr" where
  "trim s = rev (dropWhile is_whitespace (rev (trim_start s)))"

text \<open>
  \<open>to_lowercase\<close>. The crate compares its result with words of ASCII letters: of the mappings of Unicode to lower case, those from
  outside ASCII that yield an ASCII letter are the Kelvin sign and the dotted capital I; the others are not in the model.
\<close>

definition lower_char :: "rchar \<Rightarrow> rstr" where
  "lower_char c =
     (if 65 \<le> c \<and> c \<le> 90 then [c + 32] else if c = 0x212A then [107] else if c = 0x130 then [105, 0x307] else [c])"

definition to_lowercase :: "rstr \<Rightarrow> rstr" where
  "to_lowercase s = concat (map lower_char s)"

definition is_ascii_alphabetic :: "rchar \<Rightarrow> bool" where
  "is_ascii_alphabetic c \<longleftrightarrow> 65 \<le> c \<and> c \<le> 90 \<or> 97 \<le> c \<and> c \<le> 122"

definition u64_from_str :: "rstr \<Rightarrow> nat option" where
  "u64_from_str s = unsigned_from_str 18446744073709551615 (utf8_encode s)"

definition checked_mul_u64 :: "nat \<Rightarrow> nat \<Rightarrow> nat option" where
  "checked_mul_u64 a b = (if a * b < 2 ^ 64 then Some (a * b) else None)"

definition duration_from_millis :: "nat \<Rightarrow> duration" where
  "duration_from_millis ms = Duration (of_nat (ms div 1000)) (of_nat (ms mod 1000 * 1000000))"

section \<open>The parser\<close>

datatype duration_error =
    Empty_Duration
  | No_Number rstr
  | Bad_Number rstr rstr
  | Unknown_Unit rstr rstr
  | Duration_Overflow rstr rstr

definition millis_of :: "nat \<Rightarrow> rstr \<Rightarrow> nat option option" where
  "millis_of n unit =
     (if unit = [] then Some (checked_mul_u64 n 1000)
      else if unit = chars ''ms'' then Some (Some n)
      else if unit = chars ''s'' then Some (checked_mul_u64 n 1000)
      else if unit \<in> {chars ''m'', chars ''min'', chars ''minutes''} then Some (checked_mul_u64 n 60000)
      else if unit \<in> {chars ''h'', chars ''hr''} then Some (checked_mul_u64 n 3600000)
      else if unit = chars ''d'' then Some (checked_mul_u64 n 86400000)
      else None)"

definition parse_duration :: "rstr \<Rightarrow> duration_error + duration" where
  "parse_duration s =
     (let s = trim s in
      if s = [] then Inl Empty_Duration
      else
        let num_str = takeWhile (\<lambda>c. \<not> is_ascii_alphabetic c) s;
            unit_str = dropWhile (\<lambda>c. \<not> is_ascii_alphabetic c) s in
        if num_str = [] then Inl (No_Number s)
        else
          bind_res (ok_or (Bad_Number num_str s) (u64_from_str num_str)) (\<lambda>n.
          bind_res (ok_or (Unknown_Unit unit_str s) (millis_of n (to_lowercase (trim unit_str)))) (\<lambda>millis.
          case millis of
            Some ms \<Rightarrow> Inr (duration_from_millis ms)
          | None \<Rightarrow> Inl (Duration_Overflow num_str s))))"

section \<open>What is parsed\<close>

text \<open>The spellings of the units, in lower case, with their milliseconds.\<close>

definition unit_words :: "(string \<times> nat) list" where
  "unit_words = [('''', 1000), (''ms'', 1), (''s'', 1000), (''m'', 60000), (''min'', 60000), (''minutes'', 60000),
     (''h'', 3600000), (''hr'', 3600000), (''d'', 86400000)]"

lemma millis_of_words:
  assumes "(u, k) \<in> set unit_words" "n < 2 ^ 64"
  shows "millis_of n (chars u) = Some (checked_mul_u64 n k)"
proof -
  have ms: "checked_mul_u64 n 1 = Some n" using assms(2) by (simp add: checked_mul_u64_def)
  have "(u, k) \<in> {('''', 1000), (''ms'', 1), (''s'', 1000), (''m'', 60000), (''min'', 60000), (''minutes'', 60000),
      (''h'', 3600000), (''hr'', 3600000), (''d'', 86400000)}"
    using assms(1) by (simp add: unit_words_def)
  then show ?thesis
    by (elim insertE emptyE) (simp_all only: prod.inject, simp_all add: millis_of_def chars_def ms [unfolded One_nat_def])
qed

lemma trim_plain:
  assumes "s \<noteq> []" "\<not> is_whitespace (hd s)" "\<not> is_whitespace (last s)" "list_all is_whitespace w" "list_all is_whitespace w'"
  shows "trim (w @ s @ w') = s"
proof -
  have drop: "dropWhile is_whitespace (v @ t) = t" if "list_all is_whitespace v" "t = [] \<or> \<not> is_whitespace (hd t)" for v t
    using that by (induction v) (auto simp: dropWhile_eq_self_iff)
  have "trim_start (w @ s @ w') = s @ w'"
    unfolding trim_start_def using assms(1,2) by (intro drop [OF assms(4)]) simp
  moreover have "dropWhile is_whitespace (rev w' @ rev s) = rev s"
    using assms(1,3,5) by (intro drop) (simp_all add: hd_rev)
  ultimately show ?thesis by (simp add: trim_def)
qed

text \<open>A spelling of a unit: its letters, each in either case.\<close>

definition same_letters :: "string \<Rightarrow> string \<Rightarrow> bool" where
  "same_letters a b \<longleftrightarrow> to_lowercase (chars a) = chars b"

lemma lower_char_char: "c < 256 \<Longrightarrow> lower_char c = [if 65 \<le> c \<and> c \<le> 90 then c + 32 else c]"
  by (simp add: lower_char_def)

lemma to_lowercase_chars: "to_lowercase (chars v) = map (\<lambda>c. if 65 \<le> c \<and> c \<le> 90 then c + 32 else c) (chars v)"
proof -
  have "lower_char (of_char c) = [if 65 \<le> (of_char c :: nat) \<and> (of_char c :: nat) \<le> 90 then of_char c + 32 else of_char c]" for c
    by (rule lower_char_char) simp
  then show ?thesis by (induction v) (simp_all add: to_lowercase_def chars_def)
qed

lemma spelled_alphabetic:
  assumes "(u, k) \<in> set unit_words" "same_letters v u"
  shows "list_all is_ascii_alphabetic (chars v)"
proof -
  have "list_all is_ascii_alphabetic (chars u)"
    using assms(1) by (auto simp: unit_words_def chars_def is_ascii_alphabetic_def)
  with assms(2) have "list_all is_ascii_alphabetic (map (\<lambda>c. if 65 \<le> c \<and> c \<le> 90 then c + 32 else c) (chars v))"
    by (simp add: same_letters_def to_lowercase_chars)
  then show ?thesis by (auto simp: list_all_iff is_ascii_alphabetic_def split: if_splits)
qed

lemma number_chars:
  "list_all is_digit (chars (show_nat n))" "chars (show_nat n) \<noteq> []" "utf8_encode (chars (show_nat n)) = ascii (show_nat n)"
proof -
  have "list_all (\<lambda>b. is_digit (unat b)) (ascii (show_nat n))" "show_nat n \<noteq> []"
    using show_nat_decimal [of n] by simp_all
  then show d: "list_all is_digit (chars (show_nat n))" "chars (show_nat n) \<noteq> []"
    by (simp_all add: map_unat_ascii [symmetric] list_all_iff) (simp add: ascii_def)
  show "utf8_encode (chars (show_nat n)) = ascii (show_nat n)"
    by (rule chars_ascii) (use d(1) in \<open>auto simp: list_all_iff chars_def is_digit_def\<close>)
qed

lemma u64_from_number: "n < 2 ^ 64 \<Longrightarrow> u64_from_str (chars (show_nat n)) = Some n"
proof -
  assume n: "n < 2 ^ 64"
  have "digits_value (ascii (show_nat n)) = n" "ascii (show_nat n) \<noteq> []"
      "list_all (\<lambda>b. 48 \<le> unat b \<and> unat b \<le> 57) (ascii (show_nat n))"
    using show_nat_decimal [of n] by (simp_all add: decimal_def digits_value_def is_digit_def ascii_def)
  with n show ?thesis
    by (cases "ascii (show_nat n)")
      (auto simp: u64_from_str_def number_chars(3) unsigned_from_str_def digits_of_def ascii_digit_def [abs_def])
qed

lemma alphabetic_plain: "is_ascii_alphabetic c \<Longrightarrow> \<not> is_whitespace c" "is_digit c \<Longrightarrow> \<not> is_whitespace c"
  "is_digit c \<Longrightarrow> \<not> is_ascii_alphabetic c"
  by (auto simp: is_ascii_alphabetic_def is_whitespace_def is_digit_def)

text \<open>
  A number and a unit in any of its spellings, in upper or lower case, with white space around, are that many units: a number
  alone is seconds; only a product beyond 64 bits of milliseconds is an error.
\<close>

lemma duration_units:
  assumes "(u, k) \<in> set unit_words" "same_letters v u" "n < 2 ^ 64" "list_all is_whitespace w" "list_all is_whitespace w'"
  shows "parse_duration (w @ chars (show_nat n @ v) @ w') =
    (if n * k < 2 ^ 64 then Inr (duration_from_millis (n * k))
     else Inl (Duration_Overflow (chars (show_nat n)) (chars (show_nat n @ v))))"
proof -
  let ?n = "chars (show_nat n)"
  have s: "chars (show_nat n @ v) = ?n @ chars v" by (simp add: chars_def)
  have v: "list_all is_ascii_alphabetic (chars v)" using assms(1,2) by (rule spelled_alphabetic)
  have ends: "\<not> is_whitespace (hd (?n @ chars v))" "\<not> is_whitespace (last (?n @ chars v))"
    using number_chars(1,2) [of n] v by (auto simp: list_all_iff last_append alphabetic_plain)
  have trim: "trim (w @ (?n @ chars v) @ w') = ?n @ chars v"
    by (rule trim_plain [OF _ ends assms(4,5)]) (use number_chars(2) [of n] in simp)
  have split: "takeWhile (\<lambda>c. \<not> is_ascii_alphabetic c) (?n @ chars v) = ?n"
      "dropWhile (\<lambda>c. \<not> is_ascii_alphabetic c) (?n @ chars v) = chars v"
    using number_chars(1) [of n] v
    by (cases "chars v"; auto simp: list_all_iff alphabetic_plain takeWhile_append dropWhile_append)+
  have tv: "trim (chars v) = chars v"
  proof (cases "chars v")
    case (Cons c cs)
    with v have "\<not> is_whitespace (hd (chars v))" "\<not> is_whitespace (last (chars v))"
      by (auto simp: list_all_iff alphabetic_plain)
    then show ?thesis using trim_plain [of "chars v" "[]" "[]"] Cons by simp
  qed (simp add: trim_def trim_start_def)
  have "millis_of n (to_lowercase (trim (chars v))) = Some (checked_mul_u64 n k)"
    unfolding tv using assms(1-3) by (simp add: millis_of_words same_letters_def)
  then show ?thesis
    using number_chars(2) [of n] unfolding parse_duration_def Let_def s trim split u64_from_number [OF assms(3)]
    by (simp add: checked_mul_u64_def)
qed

lemma show_30: "show_nat 30 = ''30''"
  by (simp add: show_nat.simps) (simp add: char_of_def bit_simps)

theorem duration_units_witness:
  "parse_duration (chars '' '' @ chars (show_nat 30 @ ''MIN'') @ chars '' '') = Inr (Duration 1800 0)"
  using duration_units [of "''min''" 60000 "''MIN''" 30 "chars '' ''" "chars '' ''"]
  by (simp add: unit_words_def same_letters_def to_lowercase_def lower_char_def chars_def is_whitespace_def duration_from_millis_def)

end
