(* ===== verification/Facade.thy ===== *)
theory Facade
  imports Duration_Parse
begin

text \<open>
  The configuration files of the \<open>gaussdb\<close> crate (\<open>gaussdb/src/config.rs\<close>): timeouts, named connections, their resolution to a
  connection string, and what is handed to the driver. The environment, the files, the parser of TOML, the keyring and the TLS
  library are the fields of \<open>facade_env\<close>. A message is the constructor that names it, with the values that it quotes.
\<close>

section \<open>Modes and timeouts\<close>

datatype tls_mode = Tls_Disable | Tls_Prefer | Tls_Require | Tls_VerifyCa | Tls_VerifyFull

datatype timeout_action = Action_Cancel | Action_Disconnect

datatype timeout_error = Bad_Duration duration_error | Unknown_Action rstr | Statement_Exceeds duration duration

definition timeout_action_from_str :: "rstr \<Rightarrow> timeout_error + timeout_action" where
  "timeout_action_from_str s =
     (let w = to_lowercase (trim s) in
      if w \<in> {chars ''cancel'', chars ''keep''} then Inr Action_Cancel
      else if w \<in> {chars ''disconnect'', chars ''drop'', chars ''reconnect''} then Inr Action_Disconnect
      else Inl (Unknown_Action s))"

record timeout_config =
  tc_statement_timeout :: "duration option"
  tc_connection_max_lifetime :: "duration option"
  tc_timeout_action :: timeout_action

definition DEFAULT_STATEMENT_TIMEOUT :: duration where
  "DEFAULT_STATEMENT_TIMEOUT = duration_from_secs 600"

definition timeout_default :: timeout_config where
  "timeout_default =
     \<lparr>tc_statement_timeout = Some DEFAULT_STATEMENT_TIMEOUT, tc_connection_max_lifetime = None,
      tc_timeout_action = Action_Cancel\<rparr>"

definition timeout_validate :: "timeout_config \<Rightarrow> timeout_error + unit" where
  "timeout_validate c =
     (case (tc_statement_timeout c, tc_connection_max_lifetime c) of
        (Some sto, Some cml) \<Rightarrow> if sto > cml then Inl (Statement_Exceeds sto cml) else Inr ()
      | _ \<Rightarrow> Inr ())"

definition from_overrides ::
  "rstr option \<Rightarrow> rstr option \<Rightarrow> rstr option \<Rightarrow> timeout_config option \<Rightarrow> timeout_error + timeout_config" where
  "from_overrides statement_timeout connection_max_lifetime timeout_action base =
     bind_res
       (case statement_timeout of
          Some s \<Rightarrow> bind_res (map_err Bad_Duration (parse_duration s)) (\<lambda>d. Inr (Some d))
        | None \<Rightarrow> Inr (case Option.bind base tc_statement_timeout of Some d \<Rightarrow> Some d | None \<Rightarrow> Some DEFAULT_STATEMENT_TIMEOUT))
       (\<lambda>sto.
     bind_res
       (case connection_max_lifetime of
          Some s \<Rightarrow> bind_res (map_err Bad_Duration (parse_duration s)) (\<lambda>d. Inr (Some d))
        | None \<Rightarrow> Inr (Option.bind base tc_connection_max_lifetime)) (\<lambda>cml.
     bind_res
       (case timeout_action of
          Some s \<Rightarrow> timeout_action_from_str s
        | None \<Rightarrow> Inr (case base of Some b \<Rightarrow> tc_timeout_action b | None \<Rightarrow> Action_Cancel)) (\<lambda>action.
     let config = \<lparr>tc_statement_timeout = sto, tc_connection_max_lifetime = cml, tc_timeout_action = action\<rparr>
     in bind_res (timeout_validate config) (\<lambda>_. Inr config))))"

section \<open>Named connections\<close>

record named_connection =
  nc_name :: rstr
  nc_url :: "rstr option"
  nc_host :: "rstr option"
  nc_port :: "u16 option"
  nc_user :: "rstr option"
  nc_password :: "rstr option"
  nc_dbname :: "rstr option"
  nc_sslmode :: "rstr option"
  nc_statement_timeout :: "rstr option"
  nc_connection_max_lifetime :: "rstr option"
  nc_timeout_action :: "rstr option"

definition keyring_username :: "named_connection \<Rightarrow> rstr" where
  "keyring_username c =
     (case (nc_user c, nc_host c, nc_dbname c) of
        (Some u, Some h, Some d) \<Rightarrow> u @ chars ''@'' @ h @ chars ''/'' @ d
      | (Some u, Some h, None) \<Rightarrow> u @ chars ''@'' @ h
      | (Some u, None, _) \<Rightarrow> u
      | (None, _, _) \<Rightarrow> chars ''default'')"

text \<open>One of the parts of a connection string, and \<open>parts.join(" ")\<close>.\<close>

definition url_part :: "string \<Rightarrow> rstr option \<Rightarrow> rstr list" where
  "url_part key v = (case v of Some v \<Rightarrow> [chars key @ chars ''='' @ v] | None \<Rightarrow> [])"

fun join_rstr :: "rstr \<Rightarrow> rstr list \<Rightarrow> rstr" where
  "join_rstr sep [] = []"
| "join_rstr sep [s] = s"
| "join_rstr sep (s # ss) = s @ sep @ join_rstr sep ss"

definition to_connection_url :: "named_connection \<Rightarrow> rstr option" where
  "to_connection_url c =
     (case nc_url c of
        Some url \<Rightarrow> Some url
      | None \<Rightarrow>
          if nc_host c = None \<and> nc_user c = None then None
          else
            Some (join_rstr (chars '' '')
              (url_part ''host'' (nc_host c) @ url_part ''port'' (map_option (\<lambda>p. chars (show_nat (unat p))) (nc_port c)) @
               url_part ''user'' (nc_user c) @ url_part ''password'' (nc_password c) @ url_part ''dbname'' (nc_dbname c) @
               url_part ''sslmode'' (nc_sslmode c))))"

definition connection_timeout :: "timeout_config option \<Rightarrow> named_connection \<Rightarrow> timeout_error + timeout_config" where
  "connection_timeout base c =
     from_overrides (nc_statement_timeout c) (nc_connection_max_lifetime c) (nc_timeout_action c) base"

text \<open>A configuration file. The connections of a \<open>BTreeMap\<close> are listed in the order of their names.\<close>

record multi_config =
  mc_url :: "rstr option"
  mc_host :: "rstr option"
  mc_port :: "u16 option"
  mc_user :: "rstr option"
  mc_password :: "rstr option"
  mc_dbname :: "rstr option"
  mc_sslmode :: "rstr option"
  mc_statement_timeout :: "rstr option"
  mc_connection_max_lifetime :: "rstr option"
  mc_timeout_action :: "rstr option"
  mc_default_connection :: "rstr option"
  mc_connections :: "(rstr \<times> named_connection) list"

datatype generic_error =
    No_Connection_Fields
  | No_Keyring_Entry rstr rstr
  | No_Address rstr
  | Bad_Timeout timeout_error
  | Stored_Unreadable rstr
  | Stored_Mismatch

definition multi_resolve :: "multi_config \<Rightarrow> generic_error + (named_connection list \<times> rstr option)" where
  "multi_resolve m =
     (case mc_connections m of
        (first, _) # _ \<Rightarrow>
          Inr (map (\<lambda>(name, conn). conn\<lparr>nc_name := name\<rparr>) (mc_connections m),
            case mc_default_connection m of Some d \<Rightarrow> Some d | None \<Rightarrow> Some first)
      | [] \<Rightarrow>
          if mc_host m = None \<and> mc_user m = None \<and> mc_url m = None then Inl No_Connection_Fields
          else
            Inr ([\<lparr>nc_name = chars ''default'', nc_url = mc_url m, nc_host = mc_host m, nc_port = mc_port m, nc_user = mc_user m,
                nc_password = mc_password m, nc_dbname = mc_dbname m, nc_sslmode = mc_sslmode m,
                nc_statement_timeout = mc_statement_timeout m, nc_connection_max_lifetime = mc_connection_max_lifetime m,
                nc_timeout_action = mc_timeout_action m\<rparr>], Some (chars ''default'')))"

section \<open>The TLS mode of a string\<close>

fun split_char :: "rchar \<Rightarrow> rstr \<Rightarrow> rstr list" where
  "split_char x [] = [[]]"
| "split_char x (c # s) =
     (if c = x then [] # split_char x s
      else (case split_char x s of p # ps \<Rightarrow> (c # p) # ps | [] \<Rightarrow> [[c]]))"

function split_whitespace :: "rstr \<Rightarrow> rstr list" where
  "split_whitespace s =
     (let s = dropWhile is_whitespace s in
      if s = [] then []
      else takeWhile (\<lambda>c. \<not> is_whitespace c) s # split_whitespace (dropWhile (\<lambda>c. \<not> is_whitespace c) s))"
  by pat_completeness auto
termination
proof (relation "measure length")
  fix s t :: rstr
  assume t: "t = dropWhile is_whitespace s" "t \<noteq> []"
  then have "\<not> is_whitespace (hd t)" by (metis hd_dropWhile)
  with t(2) have "length (dropWhile (\<lambda>c. \<not> is_whitespace c) t) < length t"
    by (cases t) (simp_all add: le_imp_less_Suc length_dropWhile_le)
  moreover have "length t \<le> length s" unfolding t(1) by (rule length_dropWhile_le)
  ultimately show "(dropWhile (\<lambda>c. \<not> is_whitespace c) t, s) \<in> measure length" by simp
qed simp

declare split_whitespace.simps [simp del]

definition strip_key :: "string \<Rightarrow> rstr \<Rightarrow> rstr option" where
  "strip_key key s = (let k = chars key in if take (length k) s = k then Some (drop (length k) s) else None)"

definition sslmode_from_value :: "rstr option \<Rightarrow> tls_mode" where
  "sslmode_from_value val =
     (case map_option (\<lambda>s. to_lowercase (trim s)) val of
        None \<Rightarrow> Tls_Disable
      | Some w \<Rightarrow>
          if w = chars ''disable'' then Tls_Disable
          else if w = chars ''prefer'' then Tls_Prefer
          else if w = chars ''require'' then Tls_Require
          else if w \<in> {chars ''verify-ca'', chars ''verify_ca''} then Tls_VerifyCa
          else if w \<in> {chars ''verify-full'', chars ''verify_full''} then Tls_VerifyFull
          else Tls_Disable)"

fun first_sslmode :: "rstr list \<Rightarrow> tls_mode option" where
  "first_sslmode [] = None"
| "first_sslmode (p # ps) =
     (case strip_key ''sslmode='' p of Some v \<Rightarrow> Some (sslmode_from_value (Some v)) | None \<Rightarrow> first_sslmode ps)"

definition sslmode_from_url :: "rstr \<Rightarrow> tls_mode" where
  "sslmode_from_url dsn =
     (case (case split_char (of_char CHR ''?'') dsn of
              _ # q # _ \<Rightarrow> first_sslmode (split_char (of_char CHR ''&'') q)
            | _ \<Rightarrow> None) of
        Some m \<Rightarrow> m
      | None \<Rightarrow> (case first_sslmode (split_whitespace dsn) of Some m \<Rightarrow> m | None \<Rightarrow> Tls_Disable))"

section \<open>The environment\<close>

record facade_env =
  fe_var :: "string \<Rightarrow> rstr option"
  fe_home :: "bytes option"
  fe_exists :: "bytes \<Rightarrow> bool"
  fe_read :: "bytes \<Rightarrow> io_error + rstr"
  fe_toml :: "rstr \<Rightarrow> rstr + multi_config"
  fe_entry :: "rstr \<Rightarrow> rstr \<Rightarrow> rstr + unit"
  fe_get_password :: "rstr \<Rightarrow> rstr \<Rightarrow> rstr + rstr"
  fe_tls_feature :: bool
  fe_tls_build :: "bool \<Rightarrow> bool \<Rightarrow> rstr + unit"

datatype config_error =
    ConfigNotFound bytes
  | ConfigParse bytes rstr
  | ConnectionNotFound rstr "rstr list"
  | Keyring rstr rstr
  | Config_Io io_error
  | Generic generic_error

definition KEYRING_SENTINEL :: rstr where "KEYRING_SENTINEL = chars ''keyring''"
definition DEFAULT_KEYRING_SERVICE :: rstr where "DEFAULT_KEYRING_SERVICE = chars ''gaussdb''"
definition LEGACY_KEYRING_SERVICE :: rstr where "LEGACY_KEYRING_SERVICE = chars ''gaussdb-mcp''"

definition read_keyring_password :: "facade_env \<Rightarrow> rstr \<Rightarrow> rstr \<Rightarrow> config_error + rstr" where
  "read_keyring_password env username service =
     bind_res (map_err (Keyring username) (fe_entry env service username)) (\<lambda>_.
     map_err (\<lambda>e. Generic (No_Keyring_Entry username e)) (fe_get_password env service username))"

text \<open>A keyring that is written, with its state: \<open>set_password\<close> and \<open>get_password\<close> of an entry.\<close>

record 'k keyring_ops =
  kr_new :: "rstr \<Rightarrow> rstr \<Rightarrow> rstr + unit"
  kr_set :: "rstr \<Rightarrow> rstr \<Rightarrow> rstr \<Rightarrow> 'k \<Rightarrow> (rstr + unit) \<times> 'k"
  kr_get :: "rstr \<Rightarrow> rstr \<Rightarrow> 'k \<Rightarrow> rstr + rstr"

definition store_keyring_password ::
  "'k keyring_ops \<Rightarrow> rstr \<Rightarrow> rstr \<Rightarrow> rstr \<Rightarrow> 'k \<Rightarrow> (config_error + unit) \<times> 'k" where
  "store_keyring_password ops username password service k =
     (case kr_new ops service username of
        Inl e \<Rightarrow> (Inl (Keyring username e), k)
      | Inr _ \<Rightarrow>
          (case kr_set ops service username password k of
             (Inl e, k) \<Rightarrow> (Inl (Keyring username e), k)
           | (Inr _, k) \<Rightarrow>
               (case kr_get ops service username k of
                  Inl e \<Rightarrow> (Inl (Generic (Stored_Unreadable e)), k)
                | Inr verified \<Rightarrow> (if verified \<noteq> password then Inl (Generic Stored_Mismatch) else Inr (), k))))"

section \<open>Resolution\<close>

datatype password_source = Source_EnvVar | Source_Plaintext | Source_Keyring | Source_None

record resolved_connection =
  rc_name :: rstr
  rc_connection_url :: rstr
  rc_config_path :: "bytes option"
  rc_plaintext_password :: "rstr option"
  rc_keyring_username :: rstr
  rc_password_source :: password_source
  rc_sslmode :: tls_mode
  rc_timeout_config :: timeout_config

record raw_config =
  raw_connections :: "named_connection list"
  raw_default_name :: rstr
  raw_config_path :: "bytes option"
  raw_base_timeout :: "timeout_config option"

definition default_config_path :: "facade_env \<Rightarrow> string \<Rightarrow> bytes option" where
  "default_config_path env filename = map_option (\<lambda>p. path_join p (ascii (''.'' @ filename))) (fe_home env)"

definition DEFAULT_CONFIG_FILENAME :: string where "DEFAULT_CONFIG_FILENAME = ''gaussdb.toml''"
definition LEGACY_CONFIG_FILENAME :: string where "LEGACY_CONFIG_FILENAME = ''gaussdb-mcp.toml''"

definition find_config_path :: "facade_env \<Rightarrow> bytes option \<Rightarrow> string \<Rightarrow> config_error + bytes" where
  "find_config_path env config_path filename =
     (let existing = (\<lambda>name. case default_config_path env name of
            Some p \<Rightarrow> if fe_exists env p then Some p else None | None \<Rightarrow> None) in
      case config_path of
        Some p \<Rightarrow> Inr p
      | None \<Rightarrow>
          (case existing filename of
             Some p \<Rightarrow> Inr p
           | None \<Rightarrow>
               (case (if filename = DEFAULT_CONFIG_FILENAME then existing LEGACY_CONFIG_FILENAME else None) of
                  Some p \<Rightarrow> Inr p
                | None \<Rightarrow>
                    Inl (ConfigNotFound (case default_config_path env filename of Some p \<Rightarrow> p | None \<Rightarrow> ascii filename)))))"

definition keyring_lookup :: "facade_env \<Rightarrow> rstr \<Rightarrow> rstr \<Rightarrow> config_error + rstr" where
  "keyring_lookup env user service =
     (case read_keyring_password env user service of
        Inr pw \<Rightarrow> Inr pw
      | Inl e \<Rightarrow>
          if service = DEFAULT_KEYRING_SERVICE then read_keyring_password env user LEGACY_KEYRING_SERVICE else Inl e)"

definition resolve_single_connection ::
  "facade_env \<Rightarrow> named_connection \<Rightarrow> bytes option \<Rightarrow> timeout_config option \<Rightarrow> rstr \<Rightarrow> config_error + resolved_connection" where
  "resolve_single_connection env conn config_path base_timeout service =
     (let keyring_user = keyring_username conn;
          is_sentinel = (nc_password conn = Some KEYRING_SENTINEL);
          is_plaintext = (case nc_password conn of Some p \<Rightarrow> p \<noteq> KEYRING_SENTINEL | None \<Rightarrow> False);
          has_no_password = (nc_password conn = None);
          source = (if is_plaintext then Source_Plaintext else if is_sentinel then Source_Keyring else Source_None) in
      bind_res
        (if is_sentinel \<or> has_no_password then
           bind_res (keyring_lookup env keyring_user service) (\<lambda>pw. Inr (conn\<lparr>nc_password := Some pw\<rparr>))
         else Inr conn) (\<lambda>conn.
      let plaintext = (if is_plaintext then nc_password conn else None) in
      bind_res (ok_or (Generic (No_Address (nc_name conn))) (to_connection_url conn)) (\<lambda>url.
      let sslmode = (case nc_sslmode conn of Some v \<Rightarrow> sslmode_from_value (Some v) | None \<Rightarrow> Tls_Disable) in
      bind_res (map_err (\<lambda>e. Generic (Bad_Timeout e)) (connection_timeout base_timeout conn)) (\<lambda>timeout.
      Inr \<lparr>rc_name = nc_name conn, rc_connection_url = url, rc_config_path = config_path, rc_plaintext_password = plaintext,
        rc_keyring_username = keyring_user, rc_password_source = source, rc_sslmode = sslmode,
        rc_timeout_config = timeout\<rparr>))))"

definition env_connection :: "rstr \<Rightarrow> named_connection" where
  "env_connection url =
     \<lparr>nc_name = chars ''default'', nc_url = Some url, nc_host = None, nc_port = None, nc_user = None, nc_password = None,
      nc_dbname = None, nc_sslmode = None, nc_statement_timeout = None, nc_connection_max_lifetime = None,
      nc_timeout_action = None\<rparr>"

definition read_config :: "facade_env \<Rightarrow> bytes option \<Rightarrow> config_error + raw_config" where
  "read_config env config_path =
     (case (case fe_var env ''GAUSSDB_URL'' of Some url \<Rightarrow> Some url | None \<Rightarrow> fe_var env ''DATABASE_URL'') of
        Some url \<Rightarrow>
          Inr \<lparr>raw_connections = [env_connection url], raw_default_name = chars ''default'', raw_config_path = None,
            raw_base_timeout = None\<rparr>
      | None \<Rightarrow>
          bind_res (find_config_path env config_path DEFAULT_CONFIG_FILENAME) (\<lambda>path.
          bind_res (map_err Config_Io (fe_read env path)) (\<lambda>content.
          bind_res (map_err (ConfigParse path) (fe_toml env content)) (\<lambda>config.
          let base = (case from_overrides (mc_statement_timeout config) (mc_connection_max_lifetime config)
                        (mc_timeout_action config) None of Inr tc \<Rightarrow> Some tc | Inl _ \<Rightarrow> None) in
          bind_res (map_err Generic (multi_resolve config)) (\<lambda>(connections, default_name).
          Inr \<lparr>raw_connections = connections,
            raw_default_name = (case default_name of
                Some d \<Rightarrow> d | None \<Rightarrow> (case connections of c # _ \<Rightarrow> nc_name c | [] \<Rightarrow> [])),
            raw_config_path = Some path, raw_base_timeout = base\<rparr>)))))"

definition resolve_env_var_connection :: "rstr \<Rightarrow> resolved_connection" where
  "resolve_env_var_connection url =
     \<lparr>rc_name = chars ''default'', rc_connection_url = url, rc_config_path = None, rc_plaintext_password = None,
      rc_keyring_username = [], rc_password_source = Source_EnvVar, rc_sslmode = sslmode_from_url url,
      rc_timeout_config = timeout_default\<rparr>"

definition facade_resolve ::
  "facade_env \<Rightarrow> rstr option \<Rightarrow> bytes option \<Rightarrow> rstr option \<Rightarrow> config_error + resolved_connection" where
  "facade_resolve env dsn path name =
     (case dsn of
        Some url \<Rightarrow> Inr (resolve_env_var_connection url)
      | None \<Rightarrow>
          bind_res (read_config env path) (\<lambda>raw.
          let target_name = (case name of Some n \<Rightarrow> n | None \<Rightarrow> raw_default_name raw) in
          bind_res (ok_or (ConnectionNotFound target_name (map nc_name (raw_connections raw)))
                      (find (\<lambda>c. nc_name c = target_name) (raw_connections raw))) (\<lambda>conn.
          resolve_single_connection env conn (raw_config_path raw) (raw_base_timeout raw) DEFAULT_KEYRING_SERVICE)))"

section \<open>Connecting\<close>

text \<open>
  What \<open>connect_async\<close> and \<open>connect_sync\<close> hand to the driver: its configuration and the TLS connector, which is built with the
  acceptance of invalid certificates and of invalid host names.
\<close>

datatype tls_choice = No_Tls | Native_Tls bool bool

datatype connect_error = Ce_Config config_error | Ce_Tls rstr | Ce_TlsFeatureMissing tls_mode | Ce_Driver error

definition driver_config :: "(bytes \<Rightarrow> bytes) \<Rightarrow> rstr \<Rightarrow> connect_error fault + config" where
  "driver_config pd url =
     map_err (\<lambda>f. case f of Fault e \<Rightarrow> Fault (Ce_Driver e) | Panic \<Rightarrow> Panic) (config_from_str pd (utf8_encode url))"

definition connect_plan ::
  "facade_env \<Rightarrow> (bytes \<Rightarrow> bytes) \<Rightarrow> resolved_connection \<Rightarrow> connect_error fault + (config \<times> tls_choice)" where
  "connect_plan env pd resolved =
     (if rc_sslmode resolved = Tls_Disable then
        bind_res (driver_config pd (rc_connection_url resolved)) (\<lambda>config. Inr (set_ssl_mode Ssl_Disable config, No_Tls))
      else if \<not> fe_tls_feature env then Inl (Fault (Ce_TlsFeatureMissing (rc_sslmode resolved)))
      else
        let accept_invalid_certs = (rc_sslmode resolved \<in> {Tls_Prefer, Tls_Require});
            accept_invalid_hostnames = (rc_sslmode resolved \<in> {Tls_Prefer, Tls_Require, Tls_VerifyCa}) in
        bind_res (map_err (\<lambda>e. Fault (Ce_Tls e)) (fe_tls_build env accept_invalid_certs accept_invalid_hostnames)) (\<lambda>_.
        bind_res (driver_config pd (rc_connection_url resolved)) (\<lambda>config.
        Inr (set_ssl_mode Ssl_Require config, Native_Tls accept_invalid_certs accept_invalid_hostnames))))"

definition facade_plan ::
  "facade_env \<Rightarrow> (bytes \<Rightarrow> bytes) \<Rightarrow> rstr option \<Rightarrow> bytes option \<Rightarrow> rstr option \<Rightarrow>
     connect_error fault + (config \<times> tls_choice)" where
  "facade_plan env pd dsn path name =
     bind_res (map_err (\<lambda>e. Fault (Ce_Config e)) (facade_resolve env dsn path name)) (connect_plan env pd)"

text \<open>\<open>world\<close> is what the network and the TLS connector do; the session of the driver is the result.\<close>

definition facade_connect ::
  "crates \<Rightarrow> (tls_choice \<Rightarrow> world) \<Rightarrow> facade_env \<Rightarrow> (bytes \<Rightarrow> bytes) \<Rightarrow> rstr option \<Rightarrow> bytes option \<Rightarrow> rstr option \<Rightarrow>
     (connect_error fault + session) option" where
  "facade_connect c w env pd dsn path name =
     (case facade_plan env pd dsn path name of
        Inl e \<Rightarrow> Some (Inl e)
      | Inr (config, tls) \<Rightarrow>
          map_option (\<lambda>(r, n). map_err (\<lambda>f. case f of Fault e \<Rightarrow> Fault (Ce_Driver e) | Panic \<Rightarrow> Panic) r)
            (connect c (w tls) config))"

section \<open>Taking a password out of a file\<close>

text \<open>\<open>str::lines\<close>: the last line need not end; a carriage return before a line feed belongs to the end of the line.\<close>

definition strip_cr :: "rstr \<Rightarrow> rstr" where
  "strip_cr l = (if l \<noteq> [] \<and> last l = 13 then butlast l else l)"

definition lines_of :: "rstr \<Rightarrow> rstr list" where
  "lines_of s =
     (let ls = split_char 10 s in map strip_cr (butlast ls) @ (if last ls = [] then [] else [last ls]))"

fun find_text :: "rstr \<Rightarrow> rstr \<Rightarrow> nat option" where
  "find_text k s =
     (if take (length k) s = k then Some 0 else (case s of [] \<Rightarrow> None | _ # t \<Rightarrow> map_option Suc (find_text k t)))"

declare find_text.simps [simp del]

definition contains_text :: "string \<Rightarrow> rstr \<Rightarrow> bool" where
  "contains_text k s \<longleftrightarrow> find_text (chars k) s \<noteq> None"

definition starts_text :: "string \<Rightarrow> rstr \<Rightarrow> bool" where
  "starts_text k s \<longleftrightarrow> strip_key k s \<noteq> None"

definition is_password_line :: "rstr \<Rightarrow> bool" where
  "is_password_line trimmed \<longleftrightarrow> starts_text ''password'' trimmed \<and> contains_text ''='' trimmed"

definition sentinel_line :: "rstr \<Rightarrow> rstr" where
  "sentinel_line line =
     (let indent = take (case find_text (chars ''password'') line of Some i \<Rightarrow> i | None \<Rightarrow> 0) line
      in indent @ chars ''password = '' @ [34] @ KEYRING_SENTINEL @ [34])"

fun rewrite_loop :: "bool \<Rightarrow> rstr set \<Rightarrow> rstr list \<Rightarrow> bool \<Rightarrow> bool \<Rightarrow> rstr \<Rightarrow> rstr" where
  "rewrite_loop sections targets [] in_target replaced new_content = new_content"
| "rewrite_loop sections targets (line # ls) in_target replaced new_content =
     (let trimmed = trim line;
          in_target = (if starts_text ''['' trimmed then trimmed \<in> targets else in_target);
          should_replace = (if sections then in_target else \<not> replaced)
      in if should_replace \<and> \<not> replaced \<and> is_password_line trimmed then
           rewrite_loop sections targets ls in_target True (new_content @ sentinel_line line @ [10])
         else rewrite_loop sections targets ls in_target replaced (new_content @ line @ [10]))"

definition ends_with :: "rstr \<Rightarrow> rstr \<Rightarrow> bool" where
  "ends_with e s \<longleftrightarrow> length e \<le> length s \<and> drop (length s - length e) s = e"

definition rewrite_password_to_sentinel_content :: "rstr \<Rightarrow> rstr \<Rightarrow> rstr" where
  "rewrite_password_to_sentinel_content content connection_name =
     (let targets = {chars ''[connections.'' @ connection_name @ chars '']'',
                     chars ''[connections.'' @ [34] @ connection_name @ [34] @ chars '']''};
          new_content = rewrite_loop (contains_text ''[connections.'' content) targets (lines_of content) False False []
      in if ends_with [10] content \<and> ends_with [10, 10] new_content then butlast new_content else new_content)"

text \<open>The file with its content, which is read and written back.\<close>

definition rewrite_password_to_sentinel ::
  "(bytes \<Rightarrow> rstr \<Rightarrow> io_error + unit) \<Rightarrow> facade_env \<Rightarrow> bytes \<Rightarrow> rstr \<Rightarrow> io_error + unit" where
  "rewrite_password_to_sentinel write env path connection_name =
     bind_res (fe_read env path) (\<lambda>content. write path (rewrite_password_to_sentinel_content content connection_name))"

end
