(* ===== verification/Facade_Laws.thy ===== *)
theory Facade_Laws
  imports Facade Url_Laws
begin

text \<open>
  The connection that a configuration file describes, against the driver that parses the string made of it: which connections reach
  the driver as they are written and which do not; the timeouts; the TLS mode; and the lines that the removal of a password keeps.
\<close>

section \<open>Timeouts\<close>

text \<open>
  A timeout configuration is accepted only with a statement timeout that does not exceed the lifetime of the connection: the
  override if there is one, else that of the base, else ten minutes.
\<close>

lemma timeouts_valid:
  assumes "from_overrides sto cml action base = Inr tc"
  shows "(\<exists>d. tc_statement_timeout tc = Some d \<and>
      (case sto of Some s \<Rightarrow> parse_duration s = Inr d
       | None \<Rightarrow> d = (case Option.bind base tc_statement_timeout of Some d \<Rightarrow> d | None \<Rightarrow> DEFAULT_STATEMENT_TIMEOUT)) \<and>
      (\<forall>l. tc_connection_max_lifetime tc = Some l \<longrightarrow> d \<le> l)) \<and>
    timeout_validate tc = Inr ()"
proof -
  from assms obtain d l a where
    d: "(case sto of Some s \<Rightarrow> bind_res (map_err Bad_Duration (parse_duration s)) (\<lambda>d. Inr (Some d))
        | None \<Rightarrow> Inr (case Option.bind base tc_statement_timeout of Some d \<Rightarrow> Some d | None \<Rightarrow> Some DEFAULT_STATEMENT_TIMEOUT)) = Inr d"
    and tc: "tc = \<lparr>tc_statement_timeout = d, tc_connection_max_lifetime = l, tc_timeout_action = a\<rparr>"
    and ok: "timeout_validate tc = Inr ()"
    unfolding from_overrides_def Let_def by auto
  from d obtain e where e: "d = Some e" "case sto of Some s \<Rightarrow> parse_duration s = Inr e
      | None \<Rightarrow> e = (case Option.bind base tc_statement_timeout of Some d \<Rightarrow> d | None \<Rightarrow> DEFAULT_STATEMENT_TIMEOUT)"
    by (cases sto; cases "Option.bind base tc_statement_timeout") auto
  with ok have "\<forall>m. tc_connection_max_lifetime tc = Some m \<longrightarrow> e \<le> m"
    by (auto simp: timeout_validate_def tc not_less split: if_splits)
  with e ok show ?thesis by (auto simp: tc)
qed

theorem timeouts_valid_witness:
  "\<exists>d. tc_statement_timeout timeout_default = Some d \<and> d = DEFAULT_STATEMENT_TIMEOUT"
  using timeouts_valid [of None None None None timeout_default]
  by (simp add: from_overrides_def timeout_default_def timeout_validate_def)

section \<open>From the fields to the string\<close>

text \<open>The fields of a connection without a URL, in the order in which they are written.\<close>

definition conn_field :: "string \<Rightarrow> rstr option \<Rightarrow> (string \<times> rstr) list" where
  "conn_field k v = (case v of Some v \<Rightarrow> [(k, v)] | None \<Rightarrow> [])"

definition conn_fields :: "named_connection \<Rightarrow> (string \<times> rstr) list" where
  "conn_fields c = conn_field ''host'' (nc_host c) @ conn_field ''port'' (map_option (\<lambda>p. chars (show_nat (unat p))) (nc_port c)) @
     conn_field ''user'' (nc_user c) @ conn_field ''password'' (nc_password c) @ conn_field ''dbname'' (nc_dbname c) @
     conn_field ''sslmode'' (nc_sslmode c)"

definition part_text :: "string \<times> rstr \<Rightarrow> rstr" where
  "part_text p = chars (fst p) @ chars ''='' @ snd p"

definition field_keys :: "string set" where
  "field_keys = {''host'', ''port'', ''user'', ''password'', ''dbname'', ''sslmode''}"

lemma url_part_field: "url_part k v = map part_text (conn_field k v)"
  by (simp add: url_part_def conn_field_def part_text_def split: option.splits)

lemma to_connection_url_fields:
  assumes "nc_url c = None" "nc_host c \<noteq> None \<or> nc_user c \<noteq> None"
  shows "to_connection_url c = Some (join_rstr (chars '' '') (map part_text (conn_fields c)))"
  using assms by (auto simp: to_connection_url_def url_part_field conn_fields_def)

text \<open>A value that needs neither quotes nor escapes.\<close>

definition plain_text :: "rstr \<Rightarrow> bool" where
  "plain_text v \<longleftrightarrow> v \<noteq> [] \<and> list_all (\<lambda>c. \<not> is_whitespace c \<and> \<not> special c \<and> is_scalar c) v"

fun plain_items :: "rstr \<Rightarrow> (string \<times> rstr) list \<Rightarrow> kv_item list" where
  "plain_items lead [] = []"
| "plain_items lead ((k, v) # ps) =
     \<lparr>kv_lead = lead, kv_key = chars k, kv_before = [], kv_after = [], kv_value = Bare v\<rparr> # plain_items (chars '' '') ps"

lemma escape_plain: "plain_text v \<Longrightarrow> escape_if (\<lambda>c. special c \<or> is_whitespace c) v = v"
proof -
  have "list_all (\<lambda>c. \<not> f c) v \<Longrightarrow> escape_if f v = v" for f by (induction v) auto
  then show "plain_text v \<Longrightarrow> ?thesis" by (simp add: plain_text_def list_all_iff)
qed

lemma kv_text_simps [simp]: "kv_text [] = []"
  "kv_text (i # its) = kv_lead i @ kv_key i @ kv_before i @ [61] @ kv_after i @ spell (kv_value i) @ kv_text its"
  by (simp_all add: kv_text_def)

lemma chars_equals: "chars ''='' = [61]"
  by (simp add: chars_def)

lemma plain_items_spaced:
  "list_all (\<lambda>p. plain_text (snd p)) ps \<Longrightarrow>
     kv_text (plain_items (chars '' '') ps) = concat (map (\<lambda>p. chars '' '' @ part_text p) ps)"
  by (induction ps) (auto simp: part_text_def escape_plain chars_def)

lemma join_spaced: "join_rstr sep (s # ss) = s @ concat (map (\<lambda>t. sep @ t) ss)"
  by (induction ss arbitrary: s) auto

lemma plain_items_text:
  "list_all (\<lambda>p. plain_text (snd p)) ps \<Longrightarrow> kv_text (plain_items [] ps) = join_rstr (chars '' '') (map part_text ps)"
  by (cases ps) (auto simp: plain_items_spaced join_spaced part_text_def escape_plain chars_equals comp_def)

lemma plain_items_ok:
  assumes "list_all (\<lambda>p. plain_text (snd p) \<and> fst p \<in> field_keys) ps" "list_all is_whitespace lead"
  shows "list_all kv_item_ok (plain_items lead ps)"
  using assms
proof (induction ps arbitrary: lead)
  case (Cons p ps)
  have "list_all is_whitespace (chars '' '')" by (simp add: chars_def is_whitespace_def)
  then have "list_all kv_item_ok (plain_items (chars '' '') ps)" using Cons by (intro Cons.IH) simp_all
  moreover have "list_all keyword_char (chars (fst p)) \<and> chars (fst p) \<noteq> [] \<and> list_all is_scalar (chars (fst p))"
    using Cons.prems(1) by (auto simp: field_keys_def chars_def keyword_char_def is_whitespace_def is_scalar_def)
  ultimately show ?case
    using Cons.prems by (cases p) (auto simp: kv_item_ok_def plain_text_def list_all_iff)
qed simp

lemma plain_items_separated:
  assumes "list_all (\<lambda>p. plain_text (snd p)) ps"
  shows "kv_separated (plain_items lead ps) []"
  using assms
proof (induction ps arbitrary: lead)
  case (Cons p ps)
  then have "ends_value (kv_text (plain_items (chars '' '') ps))"
    by (subst plain_items_spaced) (cases ps; simp add: ends_value_def chars_def is_whitespace_def)+
  with Cons show ?case by (cases p) simp
qed simp

definition key_settings :: "(string \<times> rstr) list \<Rightarrow> (bytes \<times> bytes) list" where
  "key_settings ps = map (\<lambda>p. (ascii (fst p), utf8_encode (snd p))) ps"

lemma plain_items_settings:
  "list_all (\<lambda>p. fst p \<in> field_keys) ps \<Longrightarrow> map kv_setting (plain_items lead ps) = key_settings ps"
proof (induction ps arbitrary: lead)
  case (Cons p ps)
  have "utf8_encode (chars (fst p)) = ascii (fst p)"
    using Cons.prems by (intro chars_ascii) (auto simp: field_keys_def)
  with Cons show ?case by (cases p) (simp add: kv_setting_def key_settings_def)
qed (simp add: key_settings_def)

lemma parse_plain_fields:
  assumes "list_all (\<lambda>p. plain_text (snd p) \<and> fst p \<in> field_keys) ps"
  shows "kv_parse (utf8_encode (join_rstr (chars '' '') (map part_text ps))) = set_each (key_settings ps) config_new"
proof -
  have v: "list_all (\<lambda>p. plain_text (snd p)) ps" and k: "list_all (\<lambda>p. fst p \<in> field_keys) ps"
    using assms by (auto simp: list_all_iff)
  have ok: "list_all kv_item_ok (plain_items [] ps)" using assms by (rule plain_items_ok) simp
  have "kv_parse (utf8_encode (kv_text (plain_items [] ps) @ [])) = set_each (map kv_setting (plain_items [] ps)) config_new"
    by (rule kv_parse_text [OF ok plain_items_separated [OF v]]) (use kv_text_scalar [OF ok] in simp_all)
  then show ?thesis using k by (simp add: plain_items_text [OF v] plain_items_settings)
qed

lemma fields_keys: "list_all (\<lambda>p. fst p \<in> field_keys) (conn_fields c)"
  by (simp add: conn_fields_def conn_field_def field_keys_def split: option.splits)

text \<open>A string made of fields is not a URL.\<close>

lemma not_url:
  assumes "k \<in> field_keys"
  shows "remove_url_prefix (utf8_encode (chars k @ chars ''='' @ r)) = None"
proof -
  have "utf8_encode (chars k) = ascii k" using assms by (intro chars_ascii) (auto simp: field_keys_def)
  moreover have "utf8_encode (chars ''='') = [61]" by (simp add: chars_def utf8_encode_char_def)
  ultimately have eq: "utf8_encode (chars k @ chars ''='' @ r) = ascii k @ 61 # utf8_encode r" by simp
  have "remove_url_prefix (ascii k @ 61 # s) = None" for s
    using assms by (auto simp: field_keys_def remove_url_prefix_def strip_prefix_def ascii_def)
  then show ?thesis by (simp only: eq)
qed

lemma fields_parse:
  assumes "ps \<noteq> []" "list_all (\<lambda>p. plain_text (snd p) \<and> fst p \<in> field_keys) ps"
  shows "config_from_str pd (utf8_encode (join_rstr (chars '' '') (map part_text ps))) =
    fallible (set_each (key_settings ps) config_new)"
proof -
  obtain k v qs where ps: "ps = (k, v) # qs" using assms(1) by (cases ps) auto
  have "join_rstr (chars '' '') (map part_text ps) = chars k @ chars ''='' @ v @ concat (map (\<lambda>t. chars '' '' @ part_text t) qs)"
    by (simp add: ps join_spaced part_text_def comp_def)
  moreover have "k \<in> field_keys" using assms(2) ps by simp
  ultimately have "remove_url_prefix (utf8_encode (join_rstr (chars '' '') (map part_text ps))) = None"
    using not_url [of k "v @ concat (map (\<lambda>t. chars '' '' @ part_text t) qs)"] by (simp only:)
  then show ?thesis
    by (simp add: config_from_str_def url_parse_def parse_plain_fields [OF assms(2)])
qed

text \<open>The connection has an address of its own and no value that needs quoting.\<close>

definition plain_connection :: "named_connection \<Rightarrow> bool" where
  "plain_connection c \<longleftrightarrow> nc_url c = None \<and> (nc_host c \<noteq> None \<or> nc_user c \<noteq> None) \<and>
     list_all (\<lambda>p. plain_text (snd p)) (conn_fields c)"

lemma connection_string:
  assumes "plain_connection c"
  shows "\<exists>url. to_connection_url c = Some url \<and>
    config_from_str pd (utf8_encode url) = fallible (set_each (key_settings (conn_fields c)) config_new)"
proof -
  have "conn_fields c \<noteq> []" using assms by (auto simp: plain_connection_def conn_fields_def conn_field_def)
  then show ?thesis
    using assms fields_parse [of "conn_fields c"] fields_keys [of c] to_connection_url_fields [of c]
    by (auto simp: plain_connection_def list_all_iff)
qed

text \<open>
  C39: The driver parses the string made of a named connection as its fields in turn, host, port, user, password, database and TLS
  mode, whatever fields are present, provided that no value is empty or has white space, a quote or a backslash.
\<close>

theorem named_connection_parses:
  assumes "plain_connection c"
  shows "\<exists>url. to_connection_url c = Some url \<and>
    config_from_str pd (utf8_encode url) = fallible (set_each (key_settings (conn_fields c)) config_new)"
  using assms by (rule connection_string)

definition sample_named :: "rstr \<Rightarrow> rstr option \<Rightarrow> named_connection" where
  "sample_named password sslmode =
     (env_connection [])\<lparr>nc_url := None, nc_host := Some (chars ''h''), nc_user := Some (chars ''u''),
       nc_password := Some password, nc_sslmode := sslmode\<rparr>"

lemma sample_fields:
  "conn_fields (sample_named p m) = [(''host'', chars ''h''), (''user'', chars ''u''), (''password'', p)] @ conn_field ''sslmode'' m"
  by (simp add: sample_named_def env_connection_def conn_fields_def conn_field_def)

lemma sample_plain: "plain_text p \<Longrightarrow> plain_connection (sample_named p None)"
proof -
  have "nc_url (sample_named p None) = None" "nc_host (sample_named p None) \<noteq> None"
    by (simp_all add: sample_named_def)
  moreover have "plain_text (chars ''h'')" "plain_text (chars ''u'')"
    by (simp_all add: plain_text_def chars_def is_whitespace_def special_def is_scalar_def)
  ultimately show "plain_text p \<Longrightarrow> ?thesis" by (simp add: plain_connection_def sample_fields conn_field_def)
qed

theorem named_connection_parses_witness:
  "\<exists>url. to_connection_url (sample_named (chars ''p'') None) = Some url \<and>
    config_from_str (\<lambda>b. b) (utf8_encode url) =
      fallible (set_each (key_settings (conn_fields (sample_named (chars ''p'') None))) config_new)"
  by (rule named_connection_parses, rule sample_plain)
    (simp add: plain_text_def chars_def is_whitespace_def special_def is_scalar_def)

section \<open>Values that are not quoted\<close>

lemma param_fields:
  "param (ascii ''user'') v c = Inr (set_user v c)" "param (ascii ''password'') v c = Inr (set_password v c)"
  "param (ascii ''dbname'') v c = Inr (set_dbname v c)"
  "param (ascii ''host'') v c = each (\<lambda>h c. Inr (add_host h c)) (str_split 44 v) c"
  "param (ascii ''sslmode'') v c =
     bind_res (choice ''sslmode'' [(''disable'', Ssl_Disable), (''prefer'', Ssl_Prefer), (''require'', Ssl_Require)] v)
       (\<lambda>m. Inr (set_ssl_mode m c))"
  by (simp_all add: param_def ascii_inject)

lemma set_each_simps [simp]: "set_each [] c = Inr c" "set_each ((k, v) # ps) c = bind_res (param k v c) (set_each ps)"
  by (simp_all add: set_each_def)

text \<open>
  The fields are not quoted in the string. A password with a space in it ends there: one like \<open>p host=evil\<close> is the password
  \<open>p\<close> and a second host for the driver, to which it then also offers that password.
\<close>

lemma password_adds_host:
  assumes "nc_url c = None" "nc_host c = Some h" "nc_port c = None" "nc_user c = Some u"
    and "nc_password c = Some (p @ chars '' host='' @ evil)" "nc_dbname c = None" "nc_sslmode c = None"
    and "plain_text h" "plain_text u" "plain_text p" "plain_text evil"
    and "44 \<notin> set (utf8_encode h)" "44 \<notin> set (utf8_encode evil)"
  shows "\<exists>url. to_connection_url c = Some url \<and> config_from_str pd (utf8_encode url) =
    Inr (add_host (utf8_encode evil) (set_password (utf8_encode p) (set_user (utf8_encode u)
      (add_host (utf8_encode h) config_new))))"
proof -
  let ?ps = "[(''host'', h), (''user'', u), (''password'', p), (''host'', evil)]"
  have "join_rstr (chars '' '') (map part_text (conn_fields c)) = join_rstr (chars '' '') (map part_text ?ps)"
    using assms(2-7) by (simp add: conn_fields_def conn_field_def part_text_def chars_def)
  then have url: "to_connection_url c = Some (join_rstr (chars '' '') (map part_text ?ps))"
    using assms(1,2) by (simp only: to_connection_url_fields option.distinct simp_thms)
  have "config_from_str pd (utf8_encode (join_rstr (chars '' '') (map part_text ?ps))) =
      fallible (set_each (key_settings ?ps) config_new)"
    using assms(8-11) by (intro fields_parse) (simp_all add: field_keys_def)
  also have "\<dots> = Inr (add_host (utf8_encode evil) (set_password (utf8_encode p) (set_user (utf8_encode u)
      (add_host (utf8_encode h) config_new))))"
    using assms(12,13) by (simp add: key_settings_def param_fields str_split_none fallible_def)
  finally show ?thesis using url by blast
qed

theorem password_adds_host_witness:
  "\<exists>url. to_connection_url (sample_named (chars ''p'' @ chars '' host='' @ chars ''evil'') None) = Some url \<and>
    config_from_str (\<lambda>b. b) (utf8_encode url) =
      Inr (add_host (utf8_encode (chars ''evil'')) (set_password (utf8_encode (chars ''p''))
        (set_user (utf8_encode (chars ''u'')) (add_host (utf8_encode (chars ''h'')) config_new))))"
  by (rule password_adds_host)
    (simp_all add: plain_text_def is_whitespace_def special_def is_scalar_def sample_named_def env_connection_def,
     simp_all add: chars_def is_whitespace_def is_scalar_def utf8_encode_char_def)

section \<open>The TLS mode\<close>

lemma set_each_append: "set_each (a @ b) c = bind_res (set_each a c) (set_each b)"
  by (induction a arbitrary: c) (auto split: bind_res_split)

lemma each_host: "\<exists>c'. each (\<lambda>h c. Inr (add_host h c)) hs c = Inr c'"
  by (induction hs arbitrary: c) auto

lemma set_each_total:
  assumes "\<And>p c. p \<in> set ps \<Longrightarrow> \<exists>c'. param (fst p) (snd p) c = Inr c'"
  shows "\<exists>c'. set_each ps c = Inr c'"
  using assms
proof (induction ps arbitrary: c)
  case (Cons p ps)
  then obtain c' where "param (fst p) (snd p) c = Inr c'" by force
  with Cons show ?case by (cases p) auto
qed simp

text \<open>The fields before the TLS mode are always accepted.\<close>

lemma fields_before_sslmode:
  "\<exists>pre c'. conn_fields c = pre @ conn_field ''sslmode'' (nc_sslmode c) \<and> set_each (key_settings pre) config_new = Inr c'"
proof -
  let ?pre = "conn_field ''host'' (nc_host c) @ conn_field ''port'' (map_option (\<lambda>p. chars (show_nat (unat p))) (nc_port c)) @
     conn_field ''user'' (nc_user c) @ conn_field ''password'' (nc_password c) @ conn_field ''dbname'' (nc_dbname c)"
  have port: "param (ascii ''port'') (utf8_encode (chars (show_nat (unat p)))) d = Inr (add_port p d)" for p :: u16 and d
    using param_port_text [of p d] by (simp add: number_chars port_text_def)
  have "\<exists>c'. set_each (key_settings ?pre) config_new = Inr c'"
    by (rule set_each_total)
      (auto simp: key_settings_def conn_field_def param_fields each_host port split: option.splits)
  then show ?thesis by (intro exI [of _ ?pre]) (simp add: conn_fields_def)
qed

lemma lower_words:
  "to_lowercase (trim (chars ''disable'')) = chars ''disable''" "to_lowercase (trim (chars ''require'')) = chars ''require''"
  "to_lowercase (trim (chars ''verify-ca'')) = chars ''verify-ca''"
  "to_lowercase (trim (chars ''verify-full'')) = chars ''verify-full''"
  by (simp_all add: trim_def trim_start_def chars_def is_whitespace_def to_lowercase_def lower_char_def)

lemma verify_modes:
  "sslmode_from_value (Some (chars ''verify-ca'')) = Tls_VerifyCa"
  "sslmode_from_value (Some (chars ''verify-full'')) = Tls_VerifyFull"
  by (simp_all add: sslmode_from_value_def lower_words) (simp_all add: chars_def)

text \<open>
  A named connection whose TLS mode is \<open>verify-ca\<close> or \<open>verify-full\<close>, which the configuration knows and for which it builds a
  connector that verifies, cannot connect: the mode is also a part of the string, where the driver does not know it.
\<close>

lemma verify_mode_unusable:
  assumes "plain_connection c" "nc_sslmode c \<in> {Some (chars ''verify-ca''), Some (chars ''verify-full'')}"
    and "to_connection_url c = Some (rc_connection_url r)" "rc_sslmode r = sslmode_from_value (nc_sslmode c)"
    and "fe_tls_feature env" "fe_tls_build env = (\<lambda>_ _. Inr ())"
  shows "connect_plan env pd r = Inl (Fault (Ce_Driver (invalid_value ''sslmode'')))"
proof -
  from fields_before_sslmode obtain pre c' where
    pre: "conn_fields c = pre @ conn_field ''sslmode'' (nc_sslmode c)" "set_each (key_settings pre) config_new = Inr c'" by blast
  have "param (ascii ''sslmode'') (utf8_encode v) c' = Inl (invalid_value ''sslmode'')" if "nc_sslmode c = Some v" for v
    using assms(2) that by (auto simp: param_fields choice_def chars_ascii ascii_inject)
  with pre assms(2) have "set_each (key_settings (conn_fields c)) config_new = Inl (invalid_value ''sslmode'')"
    by (auto simp: key_settings_def set_each_append conn_field_def)
  moreover have "config_from_str pd (utf8_encode (rc_connection_url r)) = fallible (set_each (key_settings (conn_fields c)) config_new)"
    using connection_string [OF assms(1), of pd] assms(3) by auto
  ultimately have "config_from_str pd (utf8_encode (rc_connection_url r)) = Inl (Fault (invalid_value ''sslmode''))"
    by (simp add: fallible_def)
  moreover have "sslmode_from_value (nc_sslmode c) \<in> {Tls_VerifyCa, Tls_VerifyFull}"
    using assms(2) by (elim insertE) (simp_all add: verify_modes)
  ultimately show ?thesis
    using assms(4-6) by (auto simp: connect_plan_def driver_config_def)
qed

text \<open>An environment in which everything is there that may be there, and the password is the user's name.\<close>

definition sample_env :: "rstr option \<Rightarrow> facade_env" where
  "sample_env url =
     \<lparr>fe_var = (\<lambda>v. if v = ''GAUSSDB_URL'' then url else None), fe_home = None, fe_exists = (\<lambda>_. True),
      fe_read = (\<lambda>_. Inr []), fe_toml = Inl, fe_entry = (\<lambda>_ _. Inr ()), fe_get_password = (\<lambda>_ user. Inr user),
      fe_tls_feature = True, fe_tls_build = (\<lambda>_ _. Inr ())\<rparr>"

definition sample_resolved :: "named_connection \<Rightarrow> resolved_connection" where
  "sample_resolved c =
     (resolve_env_var_connection (the (to_connection_url c)))\<lparr>rc_sslmode := sslmode_from_value (nc_sslmode c)\<rparr>"

lemma sample_verify: "plain_connection (sample_named (chars ''p'') (Some (chars ''verify-full'')))"
proof -
  have "plain_connection (sample_named (chars ''p'') None)"
    by (rule sample_plain) (simp add: plain_text_def chars_def is_whitespace_def special_def is_scalar_def)
  moreover have "plain_text (chars ''verify-full'')"
    by (simp add: plain_text_def chars_def is_whitespace_def special_def is_scalar_def)
  moreover have "nc_url (sample_named p m) = None" "nc_host (sample_named p m) \<noteq> None" for p m
    by (simp_all add: sample_named_def)
  ultimately show ?thesis by (simp add: plain_connection_def sample_fields conn_field_def)
qed

theorem verify_mode_unusable_witness:
  "connect_plan (sample_env None) (\<lambda>b. b) (sample_resolved (sample_named (chars ''p'') (Some (chars ''verify-full'')))) =
    Inl (Fault (Ce_Driver (invalid_value ''sslmode'')))"
proof (rule verify_mode_unusable [OF sample_verify])
  show "nc_sslmode (sample_named (chars ''p'') (Some (chars ''verify-full''))) \<in>
      {Some (chars ''verify-ca''), Some (chars ''verify-full'')}"
    by (simp add: sample_named_def)
  show "to_connection_url (sample_named (chars ''p'') (Some (chars ''verify-full''))) =
      Some (rc_connection_url (sample_resolved (sample_named (chars ''p'') (Some (chars ''verify-full'')))))"
    using connection_string [OF sample_verify, of "\<lambda>b. b"]
    by (auto simp: sample_resolved_def resolve_env_var_connection_def)
qed (simp_all add: sample_resolved_def sample_env_def)

text \<open>
  C40: A URL in the environment is used as the string of the connection, but its \<open>sslmode\<close> is not read: the connection is not
  encrypted whatever the URL asks for, where the same URL as an argument is encrypted. It also needs an entry in the keyring,
  although the URL is complete.
\<close>

theorem env_url_not_encrypted:
  assumes "fe_var env ''GAUSSDB_URL'' = Some url"
  shows "facade_plan env pd None path None =
      (case keyring_lookup env (chars ''default'') DEFAULT_KEYRING_SERVICE of
         Inl e \<Rightarrow> Inl (Fault (Ce_Config e))
       | Inr _ \<Rightarrow> bind_res (driver_config pd url) (\<lambda>config. Inr (set_ssl_mode Ssl_Disable config, No_Tls))) \<and>
    (sslmode_from_url url \<noteq> Tls_Disable \<longrightarrow> (\<forall>config tls. facade_plan env pd (Some url) path name = Inr (config, tls) \<longrightarrow>
      cf_ssl_mode config = Ssl_Require \<and> tls \<noteq> No_Tls))"
proof
  have "connection_timeout None (env_connection url\<lparr>nc_password := p\<rparr>) = Inr timeout_default" for p
    by (simp add: connection_timeout_def env_connection_def from_overrides_def timeout_default_def timeout_validate_def)
  then have "resolve_single_connection env (env_connection url) None None DEFAULT_KEYRING_SERVICE =
      bind_res (keyring_lookup env (chars ''default'') DEFAULT_KEYRING_SERVICE) (\<lambda>_.
        Inr ((resolve_env_var_connection url)\<lparr>rc_keyring_username := chars ''default'', rc_password_source := Source_None,
          rc_sslmode := Tls_Disable\<rparr>))"
    by (simp add: resolve_single_connection_def keyring_username_def to_connection_url_def ok_or_def resolve_env_var_connection_def
        env_connection_def Let_def split: sum.splits)
  moreover have name: "nc_name (env_connection url) = chars ''default''" by (simp add: env_connection_def)
  ultimately show "facade_plan env pd None path None =
      (case keyring_lookup env (chars ''default'') DEFAULT_KEYRING_SERVICE of
         Inl e \<Rightarrow> Inl (Fault (Ce_Config e))
       | Inr _ \<Rightarrow> bind_res (driver_config pd url) (\<lambda>config. Inr (set_ssl_mode Ssl_Disable config, No_Tls)))"
    by (cases "keyring_lookup env (chars ''default'') DEFAULT_KEYRING_SERVICE")
      (simp_all add: facade_plan_def facade_resolve_def read_config_def assms ok_or_def Let_def connect_plan_def
        resolve_env_var_connection_def name)
next
  have "rc_sslmode (resolve_env_var_connection url) = sslmode_from_url url"
    by (simp add: resolve_env_var_connection_def)
  then show "sslmode_from_url url \<noteq> Tls_Disable \<longrightarrow> (\<forall>config tls. facade_plan env pd (Some url) path name = Inr (config, tls) \<longrightarrow>
      cf_ssl_mode config = Ssl_Require \<and> tls \<noteq> No_Tls)"
    by (auto simp: facade_plan_def facade_resolve_def connect_plan_def Let_def set_ssl_mode_def split: if_splits)
qed

theorem env_url_not_encrypted_witness:
  "facade_plan (sample_env (Some (chars ''host=h sslmode=require''))) (\<lambda>b. b) None None None =
    bind_res (driver_config (\<lambda>b. b) (chars ''host=h sslmode=require'')) (\<lambda>config. Inr (set_ssl_mode Ssl_Disable config, No_Tls))"
  using conjunct1 [OF env_url_not_encrypted [of "sample_env (Some (chars ''host=h sslmode=require''))"]]
  by (simp add: sample_env_def keyring_lookup_def read_keyring_password_def)

section \<open>A password that is kept\<close>

text \<open>
  A password is reported as stored only when the keyring gives it back.
\<close>

lemma stored_password_read:
  assumes "store_keyring_password ops user password service k = (Inr (), k')"
  shows "kr_get ops service user k' = Inr password \<and> (\<exists>x. kr_set ops service user password k = (Inr x, k'))"
  using assms by (auto simp: store_keyring_password_def split: sum.splits prod.splits if_splits)

definition sample_keyring :: "(rstr \<times> rstr \<Rightarrow> rstr option) keyring_ops" where
  "sample_keyring =
     \<lparr>kr_new = (\<lambda>_ _. Inr ()), kr_set = (\<lambda>service user pw k. (Inr (), k((service, user) \<mapsto> pw))),
      kr_get = (\<lambda>service user k. ok_or [] (k (service, user)))\<rparr>"

theorem stored_password_read_witness:
  "kr_get sample_keyring (chars ''s'') (chars ''u'') [(chars ''s'', chars ''u'') \<mapsto> chars ''pw''] = Inr (chars ''pw'')"
  using stored_password_read [of sample_keyring "chars ''u''" "chars ''pw''" "chars ''s''" Map.empty]
  by (simp add: store_keyring_password_def sample_keyring_def ok_or_def)

section \<open>The lines of a file\<close>

text \<open>The header that governs the last of the lines; and the line whose password is taken out.\<close>

definition current_section :: "rstr list \<Rightarrow> rstr option" where
  "current_section ls = (case filter (starts_text ''['') (map trim ls) of [] \<Rightarrow> None | hs \<Rightarrow> Some (last hs))"

definition has_password :: "bool \<Rightarrow> rstr set \<Rightarrow> rstr list \<Rightarrow> rstr \<Rightarrow> bool" where
  "has_password sections targets before l \<longleftrightarrow>
     is_password_line (trim l) \<and> (sections \<longrightarrow> (\<exists>h\<in>targets. current_section (before @ [l]) = Some h))"

fun rewritten :: "bool \<Rightarrow> rstr set \<Rightarrow> rstr list \<Rightarrow> rstr list \<Rightarrow> rstr list" where
  "rewritten sections targets before [] = []"
| "rewritten sections targets before (l # ls) =
     (if has_password sections targets before l then sentinel_line l # ls
      else l # rewritten sections targets (before @ [l]) ls)"

definition unlines :: "rstr list \<Rightarrow> rstr" where
  "unlines ls = concat (map (\<lambda>l. l @ [10]) ls)"

lemma current_section_snoc:
  "current_section (ls @ [l]) = (if starts_text ''['' (trim l) then Some (trim l) else current_section ls)"
  by (cases "filter (starts_text ''['') (map trim ls)") (simp_all add: current_section_def)

lemma rewrite_loop_replaced: "rewrite_loop sections targets ls t True acc = acc @ unlines ls"
  by (induction ls arbitrary: t acc) (simp_all add: unlines_def Let_def)

lemma rewrite_loop_rewritten:
  "rewrite_loop sections targets ls (\<exists>h\<in>targets. current_section before = Some h) False acc =
    acc @ unlines (rewritten sections targets before ls)"
proof (induction ls arbitrary: before acc)
  case (Cons l ls)
  let ?t = "\<lambda>p. \<exists>h\<in>targets. current_section p = Some h"
  have "(if starts_text ''['' (trim l) then trim l \<in> targets else ?t before) = ?t (before @ [l])"
    by (auto simp: current_section_snoc)
  then show ?case
    using Cons.IH [of "before @ [l]"]
    by (simp add: Let_def rewrite_loop_replaced has_password_def unlines_def)
qed (simp add: unlines_def)

lemma rewritten_cases:
  "(\<exists>a l b. ls = a @ l # b \<and> has_password sections targets (before @ a) l \<and>
      (\<forall>a' l' b'. a = a' @ l' # b' \<longrightarrow> \<not> has_password sections targets (before @ a') l') \<and>
      rewritten sections targets before ls = a @ sentinel_line l # b) \<or>
   ((\<forall>a l b. ls = a @ l # b \<longrightarrow> \<not> has_password sections targets (before @ a) l) \<and>
      rewritten sections targets before ls = ls)"
proof (induction ls arbitrary: before)
  case (Cons m ls)
  show ?case
  proof (cases "has_password sections targets before m")
    case True
    then show ?thesis by (intro disjI1 exI [of _ "[]"] exI [of _ m] exI [of _ ls]) simp
  next
    case False
    from Cons.IH [of "before @ [m]"] show ?thesis
    proof (elim disjE exE conjE)
      fix a l b
      assume *: "ls = a @ l # b" "has_password sections targets ((before @ [m]) @ a) l"
        "\<forall>a' l' b'. a = a' @ l' # b' \<longrightarrow> \<not> has_password sections targets ((before @ [m]) @ a') l'"
        "rewritten sections targets (before @ [m]) ls = a @ sentinel_line l # b"
      have "\<not> has_password sections targets (before @ a') l'" if "m # a = a' @ l' # b'" for a' l' b'
        using that False *(3) by (cases a') auto
      with * False show ?thesis by (intro disjI1 exI [of _ "m # a"] exI [of _ l] exI [of _ b]) simp
    next
      assume *: "\<forall>a l b. ls = a @ l # b \<longrightarrow> \<not> has_password sections targets ((before @ [m]) @ a) l"
        "rewritten sections targets (before @ [m]) ls = ls"
      have "\<not> has_password sections targets (before @ a') l'" if "m # ls = a' @ l' # b'" for a' l' b'
        using that False *(1) by (cases a') auto
      with * False show ?thesis by (intro disjI2) simp
    qed
  qed
qed simp

text \<open>The section headers of a connection, bare or quoted.\<close>

definition section_headers :: "rstr \<Rightarrow> rstr set" where
  "section_headers name = {chars ''[connections.'' @ name @ chars '']'', chars ''[connections.'' @ [34] @ name @ [34] @ chars '']''}"

subsection \<open>Lines that hold a password\<close>

text \<open>A password line: white space, the word \<open>password\<close>, and an equals sign somewhere after it.\<close>

definition password_line :: "rstr \<Rightarrow> bool" where
  "password_line l \<longleftrightarrow> (\<exists>ws rest. l = ws @ chars ''password'' @ rest \<and> list_all is_whitespace ws \<and> 61 \<in> set rest)"

lemma find_text_char: "find_text [c] s \<noteq> None \<longleftrightarrow> c \<in> set s"
  by (induction s) (simp_all add: find_text.simps)

lemma not_blank [simp]: "\<not> is_whitespace 61" "\<not> is_whitespace 112"
  by (simp_all add: is_whitespace_def)

lemma trim_marked:
  assumes "\<not> is_whitespace c" "\<not> is_whitespace d" "list_all is_whitespace ws"
  shows "\<exists>r. trim (ws @ c # p @ d # q) = c # p @ d # r"
proof -
  have "dropWhile is_whitespace (ws @ x) = dropWhile is_whitespace x" for x
    using assms(3) by (intro dropWhile_append2) (simp add: list_all_iff)
  then have "dropWhile is_whitespace (ws @ c # p @ d # q) = c # p @ d # q"
    using assms(1) by simp
  moreover have "dropWhile is_whitespace (rev q @ d # x) = dropWhile is_whitespace (rev q) @ d # x" for x
    using assms(2) by (rule dropWhile_append3)
  ultimately show ?thesis by (simp add: trim_def trim_start_def)
qed

lemma trim_part: "\<exists>ws q. l = ws @ trim l @ q \<and> list_all is_whitespace ws"
proof -
  have "dropWhile is_whitespace l = trim l @ rev (takeWhile is_whitespace (rev (dropWhile is_whitespace l)))"
    unfolding trim_def trim_start_def by (metis rev_append rev_rev_ident takeWhile_dropWhile_id)
  then have "l = takeWhile is_whitespace l @ trim l @ rev (takeWhile is_whitespace (rev (dropWhile is_whitespace l)))"
    by (metis takeWhile_dropWhile_id)
  moreover have "list_all is_whitespace (takeWhile is_whitespace l)" by (auto simp: list_all_iff dest: set_takeWhileD)
  ultimately show ?thesis by blast
qed

lemma starts_text_iff: "starts_text k s \<longleftrightarrow> (\<exists>r. s = chars k @ r)"
proof -
  have "starts_text k s \<longleftrightarrow> take (length (chars k)) s = chars k" by (simp add: starts_text_def strip_key_def Let_def)
  then show ?thesis by (metis append_eq_conv_conj append_take_drop_id)
qed

lemmas starts_password = starts_text_iff [of "''password''"]

lemma is_password_line_iff: "is_password_line (trim l) \<longleftrightarrow> password_line l"
proof
  assume "is_password_line (trim l)"
  then obtain r where r: "trim l = chars ''password'' @ r" "61 \<in> set (trim l)"
    using find_text_char [of 61 "trim l"] by (auto simp: is_password_line_def starts_password contains_text_def chars_def)
  obtain ws q where "l = ws @ trim l @ q" "list_all is_whitespace ws" using trim_part by blast
  moreover have "61 \<in> set (r @ q)" using r by (auto simp: chars_def)
  ultimately show "password_line l" unfolding password_line_def using r(1) by (metis append.assoc)
next
  assume "password_line l"
  then obtain ws rest where l: "l = ws @ chars ''password'' @ rest" "list_all is_whitespace ws" "61 \<in> set rest"
    unfolding password_line_def by blast
  then obtain p q where rest: "rest = p @ 61 # q" by (meson split_list)
  obtain k where k: "chars ''password'' = 112 # k" by (simp add: chars_def)
  then obtain r where "trim l = chars ''password'' @ p @ 61 # r"
    using trim_marked [of 112 61 ws "k @ p" q] l rest by auto
  then show "is_password_line (trim l)"
    using find_text_char [of 61 "trim l"] by (auto simp: is_password_line_def starts_password contains_text_def chars_def)
qed

definition sentinel_text :: rstr where
  "sentinel_text = chars ''password = '' @ [34] @ KEYRING_SENTINEL @ [34]"

lemma find_password: "list_all is_whitespace ws \<Longrightarrow> find_text (chars ''password'') (ws @ chars ''password'' @ rest) = Some (length ws)"
proof (induction ws)
  case Nil
  then show ?case by (simp add: find_text.simps)
next
  case (Cons c ws)
  then have "c \<noteq> 112" by auto
  with Cons show ?case by (subst find_text.simps) (simp add: chars_def)
qed

lemma sentinel_line_eq: "list_all is_whitespace ws \<Longrightarrow> sentinel_line (ws @ chars ''password'' @ rest) = ws @ sentinel_text"
  by (simp add: sentinel_line_def sentinel_text_def find_password)

subsection \<open>The lines of a file\<close>

text \<open>
  A file as it is edited: its lines, each ended by a line feed, the last one perhaps not. A line has no line feed and no carriage
  return at its end, and the last one is not empty.
\<close>

definition text_lines :: "rstr list \<Rightarrow> bool" where
  "text_lines ls \<longleftrightarrow> list_all (\<lambda>l. 10 \<notin> set l \<and> (l = [] \<or> last l \<noteq> 13)) ls \<and> (ls = [] \<or> last ls \<noteq> [])"

lemma split_char_none: "x \<notin> set l \<Longrightarrow> split_char x l = [l]"
  by (induction l) auto

lemma split_char_line: "x \<notin> set l \<Longrightarrow> split_char x (l @ x # r) = l # split_char x r"
  by (induction l) auto

lemma split_char_not_empty [simp]: "split_char x l \<noteq> []"
  by (induction x l rule: split_char.induct) (auto split: list.split)

lemma split_unlines: "list_all (\<lambda>l. 10 \<notin> set l) ls \<Longrightarrow> split_char 10 (unlines ls @ r) = ls @ split_char 10 r"
  by (induction ls) (simp_all add: unlines_def split_char_line)

lemma strip_cr_lines: "list_all (\<lambda>l. l = [] \<or> last l \<noteq> 13) ls \<Longrightarrow> map strip_cr ls = ls"
  by (induction ls) (auto simp: strip_cr_def)

lemma lines_of_text:
  assumes "text_lines ls" "content = unlines ls \<or> content @ [10] = unlines ls"
  shows "lines_of content = ls"
  using assms(2)
proof
  assume "content = unlines ls"
  then show ?thesis
    using assms(1) split_unlines [of ls "[]"] strip_cr_lines [of ls]
    by (simp add: lines_of_def text_lines_def Let_def list_all_iff butlast_append)
next
  assume c: "content @ [10] = unlines ls"
  then obtain a l where ls: "ls = a @ [l]" by (cases ls rule: rev_cases) (auto simp: unlines_def)
  with c have "content = unlines a @ l" by (simp add: unlines_def)
  with assms(1) ls show ?thesis
    using split_unlines [of a l] strip_cr_lines [of a]
    by (simp add: lines_of_def text_lines_def Let_def list_all_iff split_char_none)
qed

lemma no_blank_end:
  assumes "ls = [] \<or> last ls \<noteq> [] \<and> 10 \<notin> set (last ls)"
  shows "\<not> ends_with [10, 10] (unlines ls)"
proof (cases ls rule: rev_cases)
  case (snoc a l)
  then obtain k c where l: "l = k @ [c]" "c \<noteq> 10" using assms by (cases l rule: rev_cases) auto
  have "drop (length x) (x @ y) = y" for x y :: rstr by simp
  from this [of "unlines a @ k" "[c, 10]"] show ?thesis
    using l snoc by (simp add: ends_with_def unlines_def)
qed (simp add: ends_with_def unlines_def)

lemma rewrite_lines:
  assumes "text_lines ls" "content = unlines ls \<or> content @ [10] = unlines ls"
  shows "rewrite_password_to_sentinel_content content name =
    unlines (rewritten (contains_text ''[connections.'' content) (section_headers name) [] ls)"
proof -
  let ?new = "rewritten (contains_text ''[connections.'' content) (section_headers name) [] ls"
  have plain: "ls = [] \<or> last ls \<noteq> [] \<and> 10 \<notin> set (last ls)"
    using assms(1) by (cases ls rule: rev_cases) (auto simp: text_lines_def)
  have "?new = [] \<or> last ?new \<noteq> [] \<and> 10 \<notin> set (last ?new)"
    using rewritten_cases [of ls "contains_text ''[connections.'' content" "section_headers name" "[]"]
  proof (elim disjE exE conjE)
    fix a l b
    assume *: "ls = a @ l # b" "has_password (contains_text ''[connections.'' content) (section_headers name) ([] @ a) l"
      "?new = a @ sentinel_line l # b"
    obtain ws rest where "l = ws @ chars ''password'' @ rest" "list_all is_whitespace ws"
      using * by (auto simp: has_password_def is_password_line_iff password_line_def)
    moreover have "10 \<notin> set l" using assms(1) *(1) by (simp add: text_lines_def)
    moreover have "sentinel_text \<noteq> [] \<and> 10 \<notin> set sentinel_text"
      by (simp add: sentinel_text_def KEYRING_SENTINEL_def chars_def)
    ultimately have "sentinel_line l \<noteq> [] \<and> 10 \<notin> set (sentinel_line l)" by (auto simp: sentinel_line_eq)
    with *(1,3) plain show ?thesis by (cases b rule: rev_cases) auto
  qed (use plain in simp)
  then have "\<not> ends_with [10, 10] (unlines ?new)" by (rule no_blank_end)
  then show ?thesis
    using rewrite_loop_rewritten [of "contains_text ''[connections.'' content" "section_headers name" ls "[]" "[]"]
    by (simp add: rewrite_password_to_sentinel_content_def lines_of_text [OF assms] section_headers_def current_section_def Let_def)
qed

text \<open>A line that holds the password of the connection, the lines \<open>before\<close> it being given.\<close>

definition section_password :: "rstr \<Rightarrow> rstr \<Rightarrow> rstr list \<Rightarrow> rstr \<Rightarrow> bool" where
  "section_password content name before l \<longleftrightarrow>
     password_line l \<and>
     (contains_text ''[connections.'' content \<longrightarrow> (\<exists>h\<in>section_headers name. current_section (before @ [l]) = Some h))"

lemma has_password_iff:
  "has_password (contains_text ''[connections.'' content) (section_headers name) before l \<longleftrightarrow> section_password content name before l"
  by (auto simp: has_password_def section_password_def is_password_line_iff)

text \<open>
  C38: taking a password out of a file changes one line at most. A line with a password is white space, the word \<open>password\<close>, and
  an equals sign after it; it belongs to the section whose header, bare or quoted, is the last before it, or to the file when this has
  no sections of connections. The first such line of the connection becomes its white space and \<open>password = "keyring"\<close>; when there is
  none, no line changes. The other lines stay, before it and after it. This is for a file whose lines end with a line feed alone and
  whose last line is not empty: \<open>rewrite_loses_blank_line\<close> and \<open>rewrite_changes_line_ends\<close> are what happens to others. A line feed
  that is missing at the end is added.
\<close>

theorem rewrite_one_line:
  assumes "text_lines ls" "content = unlines ls \<or> content @ [10] = unlines ls"
  shows "(\<exists>a ws rest b. ls = a @ (ws @ chars ''password'' @ rest) # b \<and> list_all is_whitespace ws \<and>
        section_password content name a (ws @ chars ''password'' @ rest) \<and>
        \<not> (\<exists>a' l' b'. a = a' @ l' # b' \<and> section_password content name a' l') \<and>
        rewrite_password_to_sentinel_content content name = unlines (a @ (ws @ sentinel_text) # b)) \<or>
    \<not> (\<exists>a l b. ls = a @ l # b \<and> section_password content name a l) \<and>
        rewrite_password_to_sentinel_content content name = unlines ls"
  using rewritten_cases [of ls "contains_text ''[connections.'' content" "section_headers name" "[]"]
  unfolding has_password_iff append_Nil
proof (elim disjE exE conjE)
  fix a l b
  assume *: "ls = a @ l # b" "section_password content name a l"
    "\<forall>a' l' b'. a = a' @ l' # b' \<longrightarrow> \<not> section_password content name a' l'"
    "rewritten (contains_text ''[connections.'' content) (section_headers name) [] ls = a @ sentinel_line l # b"
  obtain ws rest where l: "l = ws @ chars ''password'' @ rest" "list_all is_whitespace ws"
    using *(2) by (auto simp: section_password_def password_line_def)
  with * show ?thesis
    unfolding rewrite_lines [OF assms]
    by (intro disjI1 exI [of _ a] exI [of _ ws] exI [of _ rest] exI [of _ b]) (auto simp: sentinel_line_eq)
next
  assume "\<forall>a l b. ls = a @ l # b \<longrightarrow> \<not> section_password content name a l"
    "rewritten (contains_text ''[connections.'' content) (section_headers name) [] ls = ls"
  then show ?thesis unfolding rewrite_lines [OF assms] by (intro disjI2) auto
qed

definition sample_lines :: "rstr list" where
  "sample_lines = [chars ''[connections.a]'', chars '' password = x'', chars ''host = h'']"

theorem rewrite_one_line_witness:
  "\<exists>a ws rest b. sample_lines = a @ (ws @ chars ''password'' @ rest) # b \<and>
     rewrite_password_to_sentinel_content (unlines sample_lines) (chars ''a'') = unlines (a @ (ws @ sentinel_text) # b)"
proof -
  have "text_lines sample_lines" by (simp add: text_lines_def sample_lines_def chars_def)
  note one = rewrite_one_line [OF this disjI1 [OF refl], of "chars ''a''"]
  have "password_line (chars '' password = x'')"
    unfolding password_line_def
    by (rule exI [of _ "[32]"], rule exI [of _ "chars '' = x''"]) (simp add: chars_def is_whitespace_def)
  moreover have "trim (chars ''[connections.a]'') = chars ''[connections.a]''" "trim (chars '' password = x'') = chars ''password = x''"
    by (simp_all add: trim_def trim_start_def chars_def is_whitespace_def)
  then have "current_section [chars ''[connections.a]'', chars '' password = x''] = Some (chars ''[connections.a]'')"
    by (simp add: current_section_def starts_text_iff) (simp add: chars_def)
  ultimately have "section_password (unlines sample_lines) (chars ''a'') [chars ''[connections.a]''] (chars '' password = x'')"
    by (simp add: section_password_def section_headers_def chars_def)
  then have "\<exists>a l b. sample_lines = a @ l # b \<and> section_password (unlines sample_lines) (chars ''a'') a l"
    by (intro exI [of _ "[chars ''[connections.a]'']"] exI [of _ "chars '' password = x''"] exI [of _ "[chars ''host = h'']"])
      (simp add: sample_lines_def)
  with one show ?thesis by blast
qed

text \<open>The other files: a blank line at the end is lost, and carriage returns are.\<close>

lemma rewrite_loses_blank_line:
  "rewrite_password_to_sentinel_content (chars ''a'' @ [10, 10]) name = chars ''a'' @ [10]"
  by (simp add: rewrite_password_to_sentinel_content_def lines_of_def strip_cr_def chars_def ends_with_def contains_text_def
      find_text.simps is_password_line_def starts_text_def strip_key_def trim_def trim_start_def is_whitespace_def Let_def)

lemma rewrite_changes_line_ends:
  "rewrite_password_to_sentinel_content (chars ''a'' @ [13, 10]) name = chars ''a'' @ [10]"
  by (simp add: rewrite_password_to_sentinel_content_def lines_of_def strip_cr_def chars_def ends_with_def contains_text_def
      find_text.simps is_password_line_def starts_text_def strip_key_def trim_def trim_start_def is_whitespace_def Let_def)

end
