(* ===== verification/Sql_Text.thy ===== *)
theory Sql_Text
  imports Facade
begin

text \<open>
  What the command line tool reads out of SQL and connection strings (\<open>gaussdb-mcp\<close>: \<open>interactive.rs\<close>, \<open>cli.rs\<close>, \<open>server.rs\<close>,
  \<open>connection.rs\<close>): the splitting of a text into statements, leading comments, the kind of a statement, previews in errors,
  the redaction of passwords and the names of history files. A \<open>str\<close> is the list of its characters where the code goes by
  characters, and of its bytes where it slices by byte positions.
\<close>

section \<open>Statements\<close>

record split_result =
  sp_complete :: "rstr list"
  sp_remainder :: rstr

text \<open>The variables of the loop of \<open>split_statements\<close>.\<close>

record tokenizer =
  tk_complete :: "rstr list"
  tk_current :: rstr
  in_single_quote :: bool
  in_double_quote :: bool
  in_line_comment :: bool
  in_block_comment_depth :: nat
  dollar_quote_tag :: "rstr option"

definition tokenizer_new :: tokenizer where
  "tokenizer_new =
     \<lparr>tk_complete = [], tk_current = [], in_single_quote = False, in_double_quote = False, in_line_comment = False,
      in_block_comment_depth = 0, dollar_quote_tag = None\<rparr>"

definition push_text :: "rstr \<Rightarrow> tokenizer \<Rightarrow> tokenizer" where
  "push_text s t = t\<lparr>tk_current := tk_current t @ s\<rparr>"

definition next_is :: "rchar \<Rightarrow> rstr \<Rightarrow> bool" where
  "next_is x s \<longleftrightarrow> s \<noteq> [] \<and> hd s = x"

definition tag_start :: "rchar \<Rightarrow> bool" where
  "tag_start c \<longleftrightarrow> is_ascii_alphabetic c \<or> c = 95"

definition tag_char :: "rchar \<Rightarrow> bool" where
  "tag_char c \<longleftrightarrow> is_ascii_alphabetic c \<or> 48 \<le> c \<and> c \<le> 57 \<or> c = 95"

text \<open>
  One turn of the loop at the character \<open>c\<close>, outside quotes and comments, with the characters that follow; the result has the
  characters that are left. The depth of comments is a number: the \<open>u32\<close> of the code would need an input of eight gigabytes.
\<close>

definition dollar_step :: "tokenizer \<Rightarrow> rstr \<Rightarrow> tokenizer \<times> rstr" where
  "dollar_step t rest =
     (if next_is 36 rest then ((push_text [36, 36] t)\<lparr>dollar_quote_tag := Some []\<rparr>, tl rest)
      else if rest \<noteq> [] \<and> tag_start (hd rest) then
        let tag = takeWhile tag_char rest; after = dropWhile tag_char rest in
        if next_is 36 after then ((push_text (36 # tag @ [36]) t)\<lparr>dollar_quote_tag := Some tag\<rparr>, tl after)
        else (push_text [36] t, rest)
      else (push_text [36] t, rest))"

definition plain_step :: "tokenizer \<Rightarrow> rchar \<Rightarrow> rstr \<Rightarrow> tokenizer \<times> rstr" where
  "plain_step t c rest =
     (if c = 39 then ((push_text [c] t)\<lparr>in_single_quote := True\<rparr>, rest)
      else if c = 34 then ((push_text [c] t)\<lparr>in_double_quote := True\<rparr>, rest)
      else if c = 36 then dollar_step t rest
      else if c = 45 \<and> next_is 45 rest then ((push_text [c, 45] t)\<lparr>in_line_comment := True\<rparr>, tl rest)
      else if c = 47 \<and> next_is 42 rest then ((push_text [c, 42] t)\<lparr>in_block_comment_depth := 1\<rparr>, tl rest)
      else if c = 59 then
        let trimmed = trim (tk_current t) in
        (t\<lparr>tk_complete := (if trimmed = [] then tk_complete t else tk_complete t @ [trimmed]), tk_current := []\<rparr>, rest)
      else (push_text [c] t, rest))"

definition split_step :: "tokenizer \<Rightarrow> rchar \<Rightarrow> rstr \<Rightarrow> tokenizer \<times> rstr" where
  "split_step t c rest =
     (if in_line_comment t then ((if c = 10 then (push_text [c] t)\<lparr>in_line_comment := False\<rparr> else push_text [c] t), rest)
      else if in_block_comment_depth t > 0 then
        if c = 47 \<and> next_is 42 rest then
          ((push_text [c, 42] t)\<lparr>in_block_comment_depth := in_block_comment_depth t + 1\<rparr>, tl rest)
        else if c = 42 \<and> next_is 47 rest then
          ((push_text [c, 47] t)\<lparr>in_block_comment_depth := in_block_comment_depth t - 1\<rparr>, tl rest)
        else (push_text [c] t, rest)
      else if in_single_quote t then
        if c = 39 \<and> next_is 39 rest then (push_text [c, 39] t, tl rest)
        else if c = 39 then ((push_text [c] t)\<lparr>in_single_quote := False\<rparr>, rest)
        else (push_text [c] t, rest)
      else if in_double_quote t then
        if c = 34 \<and> next_is 34 rest then (push_text [c, 34] t, tl rest)
        else if c = 34 then ((push_text [c] t)\<lparr>in_double_quote := False\<rparr>, rest)
        else (push_text [c] t, rest)
      else
        (case dollar_quote_tag t of
           Some tag \<Rightarrow>
             if c = 36 \<and> take (Suc (length tag)) rest = tag @ [36] then
               ((push_text (36 # tag @ [36]) t)\<lparr>dollar_quote_tag := None\<rparr>, drop (Suc (length tag)) rest)
             else (push_text [c] t, rest)
         | None \<Rightarrow> plain_step t c rest))"

lemma split_step_shrinks: "length (snd (split_step t c rest)) \<le> length rest"
  using length_dropWhile_le [of tag_char rest]
  by (auto simp: split_step_def plain_step_def dollar_step_def Let_def simp del: length_dropWhile_le split: option.splits)

function split_loop :: "tokenizer \<Rightarrow> rstr \<Rightarrow> tokenizer" where
  "split_loop t [] = t"
| "split_loop t (c # rest) = split_loop (fst (split_step t c rest)) (snd (split_step t c rest))"
  by pat_completeness auto
termination
  by (relation "measure (length \<circ> snd)") (simp_all add: split_step_shrinks less_Suc_eq_le)

definition split_statements :: "rstr \<Rightarrow> split_result" where
  "split_statements input =
     (let t = split_loop tokenizer_new input in \<lparr>sp_complete = tk_complete t, sp_remainder = trim_start (tk_current t)\<rparr>)"

text \<open>Whether the editor takes a line as it is or asks for another.\<close>

datatype validation = Valid | Incomplete

definition validate_input :: "rstr \<Rightarrow> validation" where
  "validate_input input =
     (let trimmed = trim input in
      if trimmed = [] \<or> starts_text ''.'' trimmed \<or> trimmed = chars ''?'' then Valid
      else if trim (sp_remainder (split_statements input)) = [] then Valid else Incomplete)"

section \<open>The kind of a statement\<close>

fun skip_block :: "nat \<Rightarrow> rstr \<Rightarrow> nat \<times> rstr" where
  "skip_block depth (a # b # s) =
     (if depth = 0 then (0, a # b # s)
      else if a = 47 \<and> b = 42 then skip_block (depth + 1) s
      else if a = 42 \<and> b = 47 then skip_block (depth - 1) s
      else skip_block depth (b # s))"
| "skip_block depth s = (depth, s)"

lemma skip_block_shrinks: "length (snd (skip_block d s)) \<le> length s"
  by (induction d s rule: skip_block.induct) auto

function strip_leading_comments :: "rstr \<Rightarrow> rstr" where
  "strip_leading_comments sql =
     (let trimmed = trim_start sql in
      if take 2 trimmed = [45, 45] then
        (case dropWhile (\<lambda>c. c \<noteq> 10) trimmed of _ # s \<Rightarrow> strip_leading_comments s | [] \<Rightarrow> [])
      else if take 2 trimmed = [47, 42] then
        (case skip_block 1 (drop 2 trimmed) of (depth, s) \<Rightarrow> if depth = 0 then strip_leading_comments s else [])
      else trimmed)"
  by pat_completeness auto
termination
proof (relation "measure length")
  fix sql trimmed c :: rstr and x s
  assume *: "trimmed = trim_start sql" "dropWhile (\<lambda>c. c \<noteq> 10) trimmed = x # s"
  have "length (x # s) \<le> length trimmed" by (metis *(2) length_dropWhile_le)
  also have "\<dots> \<le> length sql" unfolding *(1) trim_start_def by (rule length_dropWhile_le)
  finally show "(s, sql) \<in> measure length" by simp
next
  fix sql trimmed d s
  assume *: "trimmed = trim_start sql" "take 2 trimmed = [47, 42 :: nat]" "(d, s) = skip_block 1 (drop 2 trimmed)"
  have "length s \<le> length (drop 2 trimmed)" by (metis *(3) skip_block_shrinks snd_conv)
  also have "\<dots> < length trimmed" using *(2) by (cases trimmed) auto
  also have "\<dots> \<le> length sql" unfolding *(1) trim_start_def by (rule length_dropWhile_le)
  finally show "(s, sql) \<in> measure length" by simp
qed auto

declare strip_leading_comments.simps [simp del]

text \<open>
  \<open>to_uppercase\<close>. Its result is compared with prefixes of ASCII letters; the characters outside ASCII whose upper case has an
  ASCII letter are listed, the others are not mapped.
\<close>

definition upper_char :: "rchar \<Rightarrow> rstr" where
  "upper_char c =
     (if 97 \<le> c \<and> c \<le> 122 then [c - 32]
      else case map_of [(0xDF, [83, 83]), (0x131, [73]), (0x17F, [83]), (0x1F0, [74, 0x30C]), (0x1E96, [72, 0x331]),
          (0x1E97, [84, 0x308]), (0x1E98, [87, 0x30A]), (0x1E99, [89, 0x30A]), (0x1E9A, [65, 0x2BE]), (0xFB00, [70, 70]),
          (0xFB01, [70, 73]), (0xFB02, [70, 76]), (0xFB03, [70, 70, 73]), (0xFB04, [70, 70, 76]), (0xFB05, [83, 84]),
          (0xFB06, [83, 84])] c of Some s \<Rightarrow> s | None \<Rightarrow> [c])"

definition to_uppercase :: "rstr \<Rightarrow> rstr" where
  "to_uppercase s = concat (map upper_char s)"

text \<open>The buffered path of the interactive mode, the command line, and the guard of the tool \<open>execute_query\<close>.\<close>

definition buffered_is_query :: "rstr \<Rightarrow> bool" where
  "buffered_is_query sql \<longleftrightarrow>
     (let upper = to_uppercase (strip_leading_comments (trim sql))
      in starts_text ''SELECT'' upper \<or> starts_text ''EXPLAIN'' upper \<or> starts_text ''WITH'' upper)"

definition cli_is_query :: "rstr \<Rightarrow> bool" where
  "cli_is_query sql \<longleftrightarrow>
     (let upper = to_uppercase (trim sql)
      in starts_text ''SELECT'' upper \<or> starts_text ''EXPLAIN'' upper \<or> starts_text ''WITH'' upper)"

definition query_allowed :: "rstr \<Rightarrow> bool" where
  "query_allowed sql \<longleftrightarrow>
     (let upper = to_uppercase (trim sql) in starts_text ''SELECT'' upper \<or> starts_text ''EXPLAIN'' upper)"

text \<open>The texts that are sent: the copy of the command line, and the plan, whose format is in upper case.\<close>

definition copy_sql :: "rstr \<Rightarrow> rstr" where
  "copy_sql sql =
     (let inner = rev (dropWhile (\<lambda>c. c = 59 \<or> is_whitespace c) (rev (trim sql)))
      in chars ''COPY ('' @ inner @ chars '') TO STDOUT WITH (FORMAT CSV, HEADER true)'')"

definition explain_sql :: "bool \<Rightarrow> rstr \<Rightarrow> rstr \<Rightarrow> rstr" where
  "explain_sql analyze format sql =
     (if analyze then chars ''EXPLAIN (ANALYZE, BUFFERS, FORMAT '' @ format @ chars '') '' @ sql
      else chars ''EXPLAIN (FORMAT '' @ format @ chars '') '' @ sql)"

section \<open>Errors and names\<close>

text \<open>\<open>&s[..n]\<close> of a string: \<open>None\<close> is the panic of a position inside a character.\<close>

definition slice_to :: "nat \<Rightarrow> bytes \<Rightarrow> bytes option" where
  "slice_to n s = (if is_char_boundary s n then Some (take n s) else None)"

definition sql_preview :: "bytes \<Rightarrow> bytes option" where
  "sql_preview sql = (if length sql > 200 then map_option (\<lambda>s. s @ ascii ''...'') (slice_to 200 sql) else Some sql)"

definition rejected_preview :: "bytes \<Rightarrow> bytes option" where
  "rejected_preview trimmed = slice_to (min (length trimmed) 80) trimmed"

function split_text :: "rstr \<Rightarrow> rstr \<Rightarrow> rstr list" where
  "split_text k [] = [[]]"
| "split_text k (c # s) =
     (if k \<noteq> [] \<and> take (length k) (c # s) = k then [] # split_text k (drop (length k) (c # s))
      else (case split_text k s of p # ps \<Rightarrow> (c # p) # ps | [] \<Rightarrow> [[c]]))"
  by pat_completeness auto
termination
  by (relation "measure (length \<circ> snd)") auto

definition redact_part :: "rstr \<Rightarrow> rstr" where
  "redact_part part = chars ''****'' @ dropWhile (\<lambda>c. c \<noteq> 32) part"

definition redact_url :: "rstr \<Rightarrow> rstr" where
  "redact_url url =
     (case split_text (chars ''password='') url of
        p # ps \<Rightarrow> join_rstr (chars ''password='') (p # map redact_part ps)
      | [] \<Rightarrow> [])"

definition sanitize_history_name :: "rstr \<Rightarrow> rstr" where
  "sanitize_history_name name =
     (let s = map (\<lambda>c. if tag_char c \<or> c \<in> {95, 45, 46} then c else 95) name
      in if s \<in> {[], chars ''.'', chars ''..''} then chars ''default'' else s)"

definition is_chinese_locale_tag :: "rstr \<Rightarrow> bool" where
  "is_chinese_locale_tag tag \<longleftrightarrow>
     (let lower = map (\<lambda>c. if 65 \<le> c \<and> c \<le> 90 then c + 32 else c) tag
      in starts_text ''zh'' lower \<or> lower = chars ''c'' \<or> lower = chars ''posix'' \<or> starts_text ''c.'' lower \<or>
         starts_text ''posix.'' lower)"

definition locale_is_chinese :: "(string \<Rightarrow> rstr option) \<Rightarrow> bool" where
  "locale_is_chinese var =
     (case concat (map (\<lambda>v. case var v of Some s \<Rightarrow> if s \<noteq> [] then [s] else [] | None \<Rightarrow> []) [''LC_ALL'', ''LC_MESSAGES'', ''LANG'']) of
        val # _ \<Rightarrow> is_chinese_locale_tag val
      | [] \<Rightarrow> True)"

definition needs_tls :: "rstr \<Rightarrow> bool" where
  "needs_tls url \<longleftrightarrow>
     list_ex (\<lambda>part. case strip_key ''sslmode='' part of
         Some val \<Rightarrow> val \<in> {chars ''require'', chars ''verify-ca'', chars ''verify-full''} | None \<Rightarrow> False)
       (split_whitespace url)"

datatype output_format = Format_Table | Format_Json | Format_Vertical | Format_Csv

definition output_format_from_str :: "rstr \<Rightarrow> rstr + output_format" where
  "output_format_from_str s =
     (let w = to_lowercase s in
      if w = chars ''table'' then Inr Format_Table
      else if w = chars ''json'' then Inr Format_Json
      else if w = chars ''vertical'' then Inr Format_Vertical
      else if w = chars ''csv'' then Inr Format_Csv
      else Inl s)"

end
