(* ===== verification/Sql_Text_Laws.thy ===== *)
theory Sql_Text_Laws
  imports Sql_Text
begin

text \<open>
  The splitting of SQL against its lexical structure: the statements of a text are what stands between the semicolons outside
  quotes and comments. The redaction of connection strings, and the names of files.
\<close>

section \<open>The lexical structure of a statement\<close>

text \<open>
  The inside of a block comment at a depth, up to and with the mark that ends it: comments nest, and a mark is found from left to
  right.
\<close>

inductive comment_text :: "nat \<Rightarrow> rstr \<Rightarrow> bool" where
  comment_last: "comment_text 1 [42, 47]"
| comment_open: "comment_text (Suc d) s \<Longrightarrow> d > 0 \<Longrightarrow> comment_text d (47 # 42 # s)"
| comment_close: "comment_text d s \<Longrightarrow> d > 0 \<Longrightarrow> comment_text (Suc d) (42 # 47 # s)"
| comment_char: "comment_text d s \<Longrightarrow> \<not> (c = 47 \<and> next_is 42 s) \<Longrightarrow> \<not> (c = 42 \<and> next_is 47 s) \<Longrightarrow> comment_text d (c # s)"

text \<open>A character that starts no quote and no comment before the text \<open>s\<close>, and is no semicolon.\<close>

definition plain_before :: "rchar \<Rightarrow> rstr \<Rightarrow> bool" where
  "plain_before c s \<longleftrightarrow> c \<notin> {39, 34, 59} \<and> \<not> (c = 45 \<and> next_is 45 s) \<and> \<not> (c = 47 \<and> next_is 42 s) \<and>
     (c = 36 \<longrightarrow> \<not> next_is 36 s \<and> (s \<noteq> [] \<and> tag_start (hd s) \<longrightarrow> \<not> next_is 36 (dropWhile tag_char s)))"

definition doubled :: "rchar \<Rightarrow> rstr \<Rightarrow> rstr" where
  "doubled q s = concat (map (\<lambda>c. if c = q then [q, q] else [c]) s)"

text \<open>The tag of a dollar quote, and a body in which the closing tag does not occur before its end.\<close>

definition dollar_tag :: "rstr \<Rightarrow> bool" where
  "dollar_tag tag \<longleftrightarrow> tag = [] \<or> tag_start (hd tag) \<and> list_all tag_char tag"

definition dollar_mark :: "rstr \<Rightarrow> rstr" where
  "dollar_mark tag = 36 # tag @ [36]"

definition dollar_body :: "rstr \<Rightarrow> rstr \<Rightarrow> bool" where
  "dollar_body tag body \<longleftrightarrow> (\<forall>a b. body = a @ b \<and> b \<noteq> [] \<longrightarrow> take (Suc (Suc (length tag))) (b @ dollar_mark tag) \<noteq> dollar_mark tag)"

text \<open>A statement: characters, literals, quoted identifiers, dollar quotes and comments, all of them closed.\<close>

inductive statement_text :: "rstr \<Rightarrow> bool" where
  text_end: "statement_text []"
| text_char: "statement_text s \<Longrightarrow> plain_before c s \<Longrightarrow> statement_text (c # s)"
| text_literal: "statement_text s \<Longrightarrow> \<not> next_is 39 s \<Longrightarrow> statement_text (39 # doubled 39 b @ 39 # s)"
| text_identifier: "statement_text s \<Longrightarrow> \<not> next_is 34 s \<Longrightarrow> statement_text (34 # doubled 34 b @ 34 # s)"
| text_dollar: "statement_text s \<Longrightarrow> dollar_tag tag \<Longrightarrow> dollar_body tag b \<Longrightarrow>
    statement_text (dollar_mark tag @ b @ dollar_mark tag @ s)"
| text_line_comment: "statement_text s \<Longrightarrow> 10 \<notin> set b \<Longrightarrow> statement_text (45 # 45 # b @ 10 # s)"
| text_block_comment: "statement_text s \<Longrightarrow> comment_text 1 b \<Longrightarrow> statement_text (47 # 42 # b @ s)"

text \<open>What may follow a statement: nothing, or a semicolon.\<close>

definition follows :: "rstr \<Rightarrow> bool" where
  "follows r \<longleftrightarrow> r = [] \<or> hd r = 59"

definition outside_text :: "tokenizer \<Rightarrow> bool" where
  "outside_text t \<longleftrightarrow> \<not> in_single_quote t \<and> \<not> in_double_quote t \<and> \<not> in_line_comment t \<and> in_block_comment_depth t = 0 \<and>
     dollar_quote_tag t = None"

lemma push_text_simps [simp]:
  "push_text a (push_text b t) = push_text (b @ a) t" "push_text [] t = t"
  "in_single_quote (push_text s t) = in_single_quote t" "in_double_quote (push_text s t) = in_double_quote t"
  "in_line_comment (push_text s t) = in_line_comment t" "in_block_comment_depth (push_text s t) = in_block_comment_depth t"
  "dollar_quote_tag (push_text s t) = dollar_quote_tag t" "tk_current (push_text s t) = tk_current t @ s"
  "tk_complete (push_text s t) = tk_complete t" "outside_text (push_text s t) = outside_text t"
  by (simp_all add: push_text_def outside_text_def)

lemma next_is_append: "follows r \<Longrightarrow> x \<noteq> 59 \<Longrightarrow> next_is x (s @ r) = next_is x s"
  by (cases s) (auto simp: next_is_def follows_def)

subsection \<open>The insides\<close>

lemma loop_literal:
  assumes "in_single_quote t" "\<not> in_line_comment t" "in_block_comment_depth t = 0" "\<not> next_is 39 r"
  shows "split_loop t (doubled 39 b @ 39 # r) = split_loop ((push_text (doubled 39 b @ [39]) t)\<lparr>in_single_quote := False\<rparr>) r"
  using assms(1-3)
proof (induction b arbitrary: t)
  case Nil
  with assms(4) show ?case by (simp add: doubled_def split_step_def)
next
  case (Cons c b)
  have "split_loop t (doubled 39 (c # b) @ 39 # r) =
      split_loop (push_text (doubled 39 [c]) t) (doubled 39 b @ 39 # r)"
    using Cons.prems by (auto simp: doubled_def split_step_def next_is_def)
  also have "\<dots> = split_loop ((push_text (doubled 39 b @ [39]) (push_text (doubled 39 [c]) t))\<lparr>in_single_quote := False\<rparr>) r"
    by (rule Cons.IH) (use Cons.prems in simp_all)
  finally show ?case by (simp add: doubled_def)
qed

lemma loop_identifier:
  assumes "in_double_quote t" "\<not> in_single_quote t" "\<not> in_line_comment t" "in_block_comment_depth t = 0" "\<not> next_is 34 r"
  shows "split_loop t (doubled 34 b @ 34 # r) = split_loop ((push_text (doubled 34 b @ [34]) t)\<lparr>in_double_quote := False\<rparr>) r"
  using assms(1-4)
proof (induction b arbitrary: t)
  case Nil
  with assms(5) show ?case by (simp add: doubled_def split_step_def)
next
  case (Cons c b)
  have "split_loop t (doubled 34 (c # b) @ 34 # r) =
      split_loop (push_text (doubled 34 [c]) t) (doubled 34 b @ 34 # r)"
    using Cons.prems by (auto simp: doubled_def split_step_def next_is_def)
  also have "\<dots> = split_loop ((push_text (doubled 34 b @ [34]) (push_text (doubled 34 [c]) t))\<lparr>in_double_quote := False\<rparr>) r"
    by (rule Cons.IH) (use Cons.prems in simp_all)
  finally show ?case by (simp add: doubled_def)
qed

lemma loop_line_comment:
  assumes "in_line_comment t" "10 \<notin> set b"
  shows "split_loop t (b @ 10 # r) = split_loop ((push_text (b @ [10]) t)\<lparr>in_line_comment := False\<rparr>) r"
  using assms by (induction b arbitrary: t) (simp_all add: split_step_def)

lemma loop_block_comment:
  assumes "comment_text d b" "\<not> in_line_comment t" "in_block_comment_depth t = d"
  shows "split_loop t (b @ r) = split_loop ((push_text b t)\<lparr>in_block_comment_depth := 0\<rparr>) r"
  using assms
proof (induction d b arbitrary: t rule: comment_text.induct)
  case (comment_char d s c)
  from comment_char.hyps(1) have "d > 0" by (induction rule: comment_text.induct) auto
  have "s \<noteq> []" using comment_char.hyps(1) by (auto elim: comment_text.cases)
  with comment_char \<open>d > 0\<close> show ?case by (auto simp: split_step_def next_is_def)
qed (auto simp: split_step_def next_is_def push_text_def)

lemma take_short: "n \<le> length x \<Longrightarrow> take n (x @ r) = take n x"
  by simp

lemma loop_dollar:
  assumes "dollar_quote_tag t = Some tag" "\<not> in_single_quote t" "\<not> in_double_quote t" "\<not> in_line_comment t"
    "in_block_comment_depth t = 0" "dollar_body tag b"
  shows "split_loop t (b @ dollar_mark tag @ r) =
    split_loop ((push_text (b @ dollar_mark tag) t)\<lparr>dollar_quote_tag := None\<rparr>) r"
  using assms
proof (induction b arbitrary: t)
  case Nil
  then show ?case by (simp add: dollar_mark_def split_step_def)
next
  case (Cons c b)
  have body: "dollar_body tag b" using Cons.prems(6) unfolding dollar_body_def by (metis append_Cons)
  have "take (Suc (Suc (length tag))) ((c # b) @ dollar_mark tag) \<noteq> dollar_mark tag"
    using Cons.prems(6) unfolding dollar_body_def by (metis append_Nil list.discI)
  then have "\<not> (c = 36 \<and> take (Suc (length tag)) (b @ dollar_mark tag) = tag @ [36])"
    by (auto simp: dollar_mark_def)
  moreover have "take (Suc (length tag)) ((b @ dollar_mark tag) @ r) = take (Suc (length tag)) (b @ dollar_mark tag)"
    by (rule take_short) (simp add: dollar_mark_def)
  ultimately have "\<not> (c = 36 \<and> take (Suc (length tag)) (b @ dollar_mark tag @ r) = tag @ [36])"
    by (simp only: append_assoc simp_thms)
  then have "split_loop t ((c # b) @ dollar_mark tag @ r) = split_loop (push_text [c] t) (b @ dollar_mark tag @ r)"
    using Cons.prems(1-5) by (auto simp: split_step_def)
  also have "\<dots> = split_loop ((push_text (b @ dollar_mark tag) (push_text [c] t))\<lparr>dollar_quote_tag := None\<rparr>) r"
    by (rule Cons.IH) (use Cons.prems body in simp_all)
  finally show ?case by simp
qed

subsection \<open>The whole\<close>

lemma tag_char_marks [simp]: "\<not> tag_char 36" "\<not> tag_char 59" "\<not> tag_start 36" "\<not> tag_start 59"
  by (simp_all add: tag_char_def tag_start_def is_ascii_alphabetic_def)

lemma tag_start_char: "tag_start c \<Longrightarrow> tag_char c"
  by (auto simp: tag_char_def tag_start_def)

lemma next_after_tag:
  assumes "follows r"
  shows "next_is 36 (dropWhile tag_char (s @ r)) = next_is 36 (dropWhile tag_char s)"
proof (induction s)
  case Nil
  show ?case using assms by (cases r) (auto simp: next_is_def follows_def)
qed (simp add: next_is_def)

lemma plain_before_follows:
  assumes "follows r" "plain_before c s"
  shows "plain_before c (s @ r)"
proof -
  have "s @ r \<noteq> [] \<and> tag_start (hd (s @ r)) \<longleftrightarrow> s \<noteq> [] \<and> tag_start (hd s)"
    using assms(1) by (cases s) (auto simp: follows_def)
  then show ?thesis
    using assms(2) by (simp only: plain_before_def next_is_append [OF assms(1)] next_after_tag [OF assms(1)]) simp
qed

lemma step_plain: "outside_text t \<Longrightarrow> plain_before c s \<Longrightarrow> split_step t c s = (push_text [c] t, s)"
  by (auto simp: split_step_def plain_step_def dollar_step_def outside_text_def plain_before_def Let_def)

lemma step_opens:
  assumes "outside_text t"
  shows "split_loop t (39 # s) = split_loop ((push_text [39] t)\<lparr>in_single_quote := True\<rparr>) s"
    and "split_loop t (34 # s) = split_loop ((push_text [34] t)\<lparr>in_double_quote := True\<rparr>) s"
    and "split_loop t (45 # 45 # s) = split_loop ((push_text [45, 45] t)\<lparr>in_line_comment := True\<rparr>) s"
    and "split_loop t (47 # 42 # s) = split_loop ((push_text [47, 42] t)\<lparr>in_block_comment_depth := 1\<rparr>) s"
  using assms by (simp_all add: split_step_def plain_step_def outside_text_def next_is_def)

lemma step_dollar:
  assumes "outside_text t" "dollar_tag tag"
  shows "split_loop t (dollar_mark tag @ s) = split_loop ((push_text (dollar_mark tag) t)\<lparr>dollar_quote_tag := Some tag\<rparr>) s"
proof -
  have "takeWhile tag_char (tag @ 36 # s) = tag" "dropWhile tag_char (tag @ 36 # s) = 36 # s" if "list_all tag_char tag"
    using that by (induction tag) simp_all
  with assms show ?thesis
    by (cases tag)
      (auto simp: dollar_mark_def dollar_tag_def split_step_def plain_step_def dollar_step_def outside_text_def next_is_def Let_def
        tag_start_char)
qed

lemma push_field [simp]:
  "push_text s (t\<lparr>in_single_quote := b\<rparr>) = (push_text s t)\<lparr>in_single_quote := b\<rparr>"
  "push_text s (t\<lparr>in_double_quote := b\<rparr>) = (push_text s t)\<lparr>in_double_quote := b\<rparr>"
  "push_text s (t\<lparr>in_line_comment := b\<rparr>) = (push_text s t)\<lparr>in_line_comment := b\<rparr>"
  "push_text s (t\<lparr>in_block_comment_depth := d\<rparr>) = (push_text s t)\<lparr>in_block_comment_depth := d\<rparr>"
  "push_text s (t\<lparr>dollar_quote_tag := g\<rparr>) = (push_text s t)\<lparr>dollar_quote_tag := g\<rparr>"
  by (simp_all add: push_text_def)

lemma idle_closed [simp]:
  assumes "outside_text t"
  shows "t\<lparr>in_single_quote := False\<rparr> = t" "t\<lparr>in_double_quote := False\<rparr> = t" "t\<lparr>in_line_comment := False\<rparr> = t"
    "t\<lparr>in_block_comment_depth := 0\<rparr> = t" "t\<lparr>dollar_quote_tag := None\<rparr> = t"
  using assms by (simp_all add: outside_text_def)

lemma not_next_follows: "follows r \<Longrightarrow> x \<noteq> 59 \<Longrightarrow> \<not> next_is x s \<Longrightarrow> \<not> next_is x (s @ r)"
  by (simp add: next_is_append)

lemma statement_loop:
  assumes "statement_text s" "follows r" "outside_text t"
  shows "split_loop t (s @ r) = split_loop (push_text s t) r"
  using assms(1,3)
proof (induction s arbitrary: t rule: statement_text.induct)
  case (text_char s c)
  then show ?case using plain_before_follows [OF assms(2)] by (simp add: step_plain)
next
  case (text_literal s b)
  have "split_loop t (39 # doubled 39 b @ 39 # s @ r) = split_loop (push_text (39 # doubled 39 b @ [39]) t) (s @ r)"
    using text_literal.prems not_next_follows [OF assms(2) _ text_literal.hyps(2)]
    by (simp only: step_opens, subst loop_literal) (auto simp: outside_text_def)
  then show ?case using text_literal.IH [of "push_text (39 # doubled 39 b @ [39]) t"] text_literal.prems by simp
next
  case (text_identifier s b)
  have "split_loop t (34 # doubled 34 b @ 34 # s @ r) = split_loop (push_text (34 # doubled 34 b @ [34]) t) (s @ r)"
    using text_identifier.prems not_next_follows [OF assms(2) _ text_identifier.hyps(2)]
    by (simp only: step_opens, subst loop_identifier) (auto simp: outside_text_def)
  then show ?case using text_identifier.IH [of "push_text (34 # doubled 34 b @ [34]) t"] text_identifier.prems by simp
next
  case (text_dollar s tag b)
  have "split_loop t (dollar_mark tag @ b @ dollar_mark tag @ s @ r) =
      split_loop (push_text (dollar_mark tag @ b @ dollar_mark tag) t) (s @ r)"
    using text_dollar.prems text_dollar.hyps
    by (simp only: step_dollar, subst loop_dollar) (auto simp: outside_text_def)
  then show ?case using text_dollar.IH [of "push_text (dollar_mark tag @ b @ dollar_mark tag) t"] text_dollar.prems by simp
next
  case (text_line_comment s b)
  have "split_loop t (45 # 45 # b @ 10 # s @ r) = split_loop (push_text (45 # 45 # b @ [10]) t) (s @ r)"
    using text_line_comment.prems text_line_comment.hyps
    by (simp only: step_opens, subst loop_line_comment) (auto simp: outside_text_def)
  then show ?case using text_line_comment.IH [of "push_text (45 # 45 # b @ [10]) t"] text_line_comment.prems by simp
next
  case (text_block_comment s b)
  have "split_loop t (47 # 42 # b @ s @ r) = split_loop (push_text (47 # 42 # b) t) (s @ r)"
    using text_block_comment.prems text_block_comment.hyps
    by (simp only: step_opens, subst loop_block_comment) (auto simp: outside_text_def)
  then show ?case using text_block_comment.IH [of "push_text (47 # 42 # b) t"] text_block_comment.prems by simp
qed simp

lemma statements_loop:
  assumes "list_all statement_text ss" "outside_text t" "tk_current t = []"
  shows "split_loop t (concat (map (\<lambda>s. s @ [59]) ss) @ r) =
    split_loop (t\<lparr>tk_complete := tk_complete t @ filter (\<lambda>s. s \<noteq> []) (map trim ss)\<rparr>) r"
  using assms(1-3)
proof (induction ss arbitrary: t)
  case (Cons s ss)
  let ?t = "t\<lparr>tk_complete := tk_complete t @ (if trim s = [] then [] else [trim s])\<rparr>"
  have "split_loop t (concat (map (\<lambda>s. s @ [59]) (s # ss)) @ r) =
      split_loop (push_text s t) (59 # concat (map (\<lambda>s. s @ [59]) ss) @ r)"
    using Cons.prems by (simp add: statement_loop follows_def)
  also have "\<dots> = split_loop ?t (concat (map (\<lambda>s. s @ [59]) ss) @ r)"
  proof -
    have "fst (split_step (push_text s t) 59 q) = ?t \<and> snd (split_step (push_text s t) 59 q) = q" for q
      using Cons.prems(2,3) by (simp add: split_step_def plain_step_def outside_text_def Let_def push_text_def)
    then show ?thesis by simp
  qed
  also have "\<dots> = split_loop (?t\<lparr>tk_complete := tk_complete ?t @ filter (\<lambda>s. s \<noteq> []) (map trim ss)\<rparr>) r"
    by (rule Cons.IH) (use Cons.prems in \<open>simp_all add: outside_text_def\<close>)
  finally show ?case by simp
qed simp

text \<open>
  C25: A text of statements that end with semicolons is split into exactly these statements, without the white space around them
  and without the empty ones, and what follows the last semicolon remains. A semicolon in a literal, a quoted identifier, a dollar quote
  or a comment, nested or not, ends no statement.
\<close>

theorem statements_split:
  assumes "list_all statement_text ss" "statement_text r"
  shows "split_statements (concat (map (\<lambda>s. s @ [59]) ss) @ r) =
    \<lparr>sp_complete = filter (\<lambda>s. s \<noteq> []) (map trim ss), sp_remainder = trim_start r\<rparr>"
proof -
  have new: "outside_text tokenizer_new" "tk_current tokenizer_new = []" "tk_complete tokenizer_new = []"
    by (simp_all add: tokenizer_new_def outside_text_def)
  let ?t = "tokenizer_new\<lparr>tk_complete := filter (\<lambda>s. s \<noteq> []) (map trim ss)\<rparr>"
  have "split_loop tokenizer_new (concat (map (\<lambda>s. s @ [59]) ss) @ r) = split_loop ?t r"
    using statements_loop [OF assms(1) new(1,2), of r] by (simp add: new(3))
  also have "\<dots> = push_text r ?t"
    using statement_loop [OF assms(2), of "[]" ?t] new by (simp add: follows_def outside_text_def)
  finally show ?thesis by (simp add: split_statements_def new)
qed

definition sample_sql :: rstr where
  "sample_sql = chars ''SELECT '' @ 39 # doubled 39 (chars ''a;b'') @ 39 # chars '' ''"

lemma statement_chars:
  "list_all (\<lambda>c. c \<notin> {39, 34, 59, 36, 45, 47}) w \<Longrightarrow> statement_text s \<Longrightarrow> statement_text (w @ s)"
  by (induction w) (auto intro!: text_char simp: plain_before_def)

lemma sample_sql_text: "statement_text sample_sql" "statement_text (chars '' '')"
proof -
  have "statement_text (chars '' '' @ [])" by (rule statement_chars [OF _ text_end]) (simp add: chars_def)
  then show space: "statement_text (chars '' '')" by simp
  have "statement_text (39 # doubled 39 (chars ''a;b'') @ 39 # chars '' '')"
    by (intro text_literal space) (simp add: chars_def next_is_def)
  then show "statement_text sample_sql"
    unfolding sample_sql_def by (rule statement_chars [rotated]) (simp add: chars_def)
qed

theorem statements_split_witness:
  "split_statements (sample_sql @ [59] @ chars '' '' @ [59] @ sample_sql) =
    \<lparr>sp_complete = [trim sample_sql], sp_remainder = trim_start sample_sql\<rparr>"
proof -
  have "trim (chars '' '') = []" "trim sample_sql \<noteq> []"
    by (simp_all add: sample_sql_def trim_def trim_start_def chars_def is_whitespace_def doubled_def)
  then show ?thesis
    using statements_split [of "[sample_sql, chars '' '']" sample_sql] sample_sql_text by simp
qed

text \<open>
  The tokenizer has no escape strings, where the server does: the backslash does not keep the quote, and the semicolon in the
  literal ends the statement.
\<close>

lemma escape_string_split:
  "split_statements (chars ''E'' @ [39, 92, 39, 59, 39, 59]) = \<lparr>sp_complete = [chars ''E'' @ [39, 92, 39]], sp_remainder = [39, 59]\<rparr>"
  by (simp add: split_statements_def tokenizer_new_def split_step_def plain_step_def next_is_def push_text_def chars_def trim_def
      trim_start_def is_whitespace_def Let_def)

section \<open>Comments before a statement\<close>

lemma skip_block_comment:
  assumes "comment_text d b"
  shows "skip_block d (b @ s) = (0, s)"
proof -
  have zero [simp]: "skip_block 0 s = (0, s)" for s by (induction "0 :: nat" s rule: skip_block.induct) simp_all
  show ?thesis
    using assms
  proof (induction d b rule: comment_text.induct)
    case (comment_char d b c)
    from comment_char.hyps(1) have "d > 0 \<and> b \<noteq> []" by (induction rule: comment_text.induct) auto
    with comment_char show ?case by (cases b) (auto simp: next_is_def)
  qed auto
qed

text \<open>White space and closed comments.\<close>

inductive comments :: "rstr \<Rightarrow> bool" where
  comments_end: "comments []"
| comments_space: "comments w \<Longrightarrow> is_whitespace c \<Longrightarrow> comments (c # w)"
| comments_line: "comments w \<Longrightarrow> 10 \<notin> set b \<Longrightarrow> comments (45 # 45 # b @ 10 # w)"
| comments_block: "comments w \<Longrightarrow> comment_text 1 b \<Longrightarrow> comments (47 # 42 # b @ w)"

lemma strip_comments:
  assumes "comments w"
  shows "strip_leading_comments (w @ s) = strip_leading_comments s"
  using assms
proof (induction rule: comments.induct)
  case (comments_space w c)
  then have "strip_leading_comments (c # w @ s) = strip_leading_comments (w @ s)"
    by (subst (1 2) strip_leading_comments.simps) (simp add: trim_start_def)
  with comments_space show ?case by simp
next
  case (comments_line w b)
  have "dropWhile (\<lambda>c. c \<noteq> 10) (b @ 10 # w @ s) = 10 # w @ s" using comments_line.hyps(2) by (induction b) auto
  then have "strip_leading_comments (45 # 45 # b @ 10 # w @ s) = strip_leading_comments (w @ s)"
    by (subst strip_leading_comments.simps) (simp add: trim_start_def is_whitespace_def)
  with comments_line show ?case by simp
next
  case (comments_block w b)
  have "strip_leading_comments (47 # 42 # b @ w @ s) = strip_leading_comments (w @ s)"
    using skip_block_comment [OF comments_block.hyps(2), of "w @ s"]
    by (subst strip_leading_comments.simps) (simp add: trim_start_def is_whitespace_def)
  with comments_block show ?case by simp
qed simp

lemma dropWhile_stop: "v = [] \<or> \<not> P (hd v) \<Longrightarrow> dropWhile P (u @ v) = dropWhile P u @ v"
  by (induction u) (auto simp: dropWhile_eq_self_iff)

lemma trim_no_end:
  assumes "s \<noteq> []" "\<not> is_whitespace (last s)"
  shows "trim (w @ s) = trim_start (w @ s)"
proof -
  have "trim_start (w @ s) \<noteq> [] \<and> last (trim_start (w @ s)) = last s"
  proof (cases "list_all is_whitespace w")
    case True
    then have "trim_start (w @ s) = trim_start s" unfolding trim_start_def by (induction w) auto
    moreover have "trim_start s \<noteq> []" using assms by (auto simp: trim_start_def dropWhile_eq_Nil_conv)
    moreover have "s = takeWhile is_whitespace s @ trim_start s" by (simp add: trim_start_def)
    ultimately show ?thesis by (metis last_appendR)
  next
    case False
    then have "trim_start (w @ s) = trim_start w @ s" unfolding trim_start_def by (induction w) auto
    with assms(1) show ?thesis by simp
  qed
  with assms(2) show ?thesis
    by (simp add: trim_def dropWhile_eq_self_iff hd_rev)
      (metis dropWhile_eq_self_iff hd_rev rev_rev_ident)
qed

lemma strip_trim_start: "strip_leading_comments (trim_start s) = strip_leading_comments s"
  by (subst (1 2) strip_leading_comments.simps) (simp add: trim_start_def)

text \<open>
  What the statement is does not depend on the white space and the comments before it, in the interactive mode; on the command
  line a comment hides it, and the rows of a query with a comment before it are not printed.
\<close>

lemma comments_skipped:
  assumes "comments w" "w \<noteq> []" "s \<noteq> []" "\<not> is_whitespace (last s)"
  shows "buffered_is_query (w @ s) = buffered_is_query s \<and>
    (is_whitespace (hd w) \<or> \<not> cli_is_query (w @ s))"
proof
  have "trim (w @ s) = trim_start (w @ s)" "trim s = trim_start s"
    using trim_no_end [OF assms(3,4), of w] trim_no_end [OF assms(3,4), of "[]"] by simp_all
  then show "buffered_is_query (w @ s) = buffered_is_query s"
    by (simp add: buffered_is_query_def strip_trim_start strip_comments [OF assms(1)])
next
  have "hd w = 45 \<or> hd w = 47" if "\<not> is_whitespace (hd w)"
    using assms(1,2) that by (cases rule: comments.cases) auto
  moreover have "\<not> cli_is_query (w @ s)" if "hd w = 45 \<or> hd w = 47"
  proof -
    obtain c v where v: "w = c # v" using assms(2) by (cases w) auto
    with that have w: "w = c # v" "c = 45 \<or> c = 47" by auto
    then have "trim (w @ s) = c # v @ s"
      using trim_no_end [OF assms(3,4), of w] by (auto simp: trim_start_def is_whitespace_def)
    moreover have "to_uppercase (c # v @ s) = c # to_uppercase (v @ s)"
      using w(2) by (elim disjE) (simp_all add: to_uppercase_def upper_char_def)
    moreover have "\<not> starts_text ''SELECT'' (c # t)" "\<not> starts_text ''EXPLAIN'' (c # t)" "\<not> starts_text ''WITH'' (c # t)" for t
      using w(2) by (auto simp: starts_text_def strip_key_def chars_def)
    ultimately show ?thesis by (simp add: cli_is_query_def)
  qed
  ultimately show "is_whitespace (hd w) \<or> \<not> cli_is_query (w @ s)" by blast
qed

theorem comments_skipped_witness:
  "buffered_is_query (chars ''--x'' @ [10] @ chars ''SELECT 1'') \<and> \<not> cli_is_query (chars ''--x'' @ [10] @ chars ''SELECT 1'')"
proof -
  have "comments (chars ''--x'' @ [10])"
    using comments_line [OF comments_end, of "[120]"] by (simp add: chars_def)
  moreover have "buffered_is_query (chars ''SELECT 1'')"
    by (simp add: buffered_is_query_def strip_leading_comments.simps trim_def trim_start_def chars_def is_whitespace_def
        to_uppercase_def upper_char_def starts_text_def strip_key_def)
  moreover have "\<not> is_whitespace (last (chars ''SELECT 1''))" "\<not> is_whitespace (hd (chars ''--x'' @ [10]))" "chars ''SELECT 1'' \<noteq> []"
    by (simp_all add: chars_def is_whitespace_def)
  ultimately show ?thesis
    using comments_skipped [of "chars ''--x'' @ [10]" "chars ''SELECT 1''"] by simp
qed

section \<open>The guard of the tool\<close>

lemma upper_prefix: "to_uppercase (chars ''EXPLAIN ANALYZE'' @ s) = chars ''EXPLAIN ANALYZE'' @ to_uppercase s"
  by (simp add: to_uppercase_def upper_char_def chars_def)

lemma trim_prefix:
  assumes "p \<noteq> []" "\<not> is_whitespace (hd p)" "\<not> is_whitespace (last p)"
  shows "\<exists>q. trim (p @ s) = p @ q"
proof -
  have start: "trim_start (p @ s) = p @ s" using assms(1,2) by (cases p) (simp_all add: trim_start_def)
  have "dropWhile is_whitespace (rev s @ rev p) = dropWhile is_whitespace (rev s) @ rev p"
    using assms(1,3) by (intro dropWhile_stop) (simp add: hd_rev)
  then show ?thesis by (simp add: trim_def start)
qed

text \<open>
  The tool that is described as read-only accepts every statement after \<open>EXPLAIN ANALYZE\<close>, which the server executes.
\<close>

lemma guard_admits_analyze: "query_allowed (chars ''EXPLAIN ANALYZE'' @ s)"
proof -
  obtain q where "trim (chars ''EXPLAIN ANALYZE'' @ s) = chars ''EXPLAIN ANALYZE'' @ q"
    using trim_prefix [of "chars ''EXPLAIN ANALYZE''" s] by (auto simp: chars_def is_whitespace_def)
  then show ?thesis
    by (simp add: query_allowed_def upper_prefix starts_text_def strip_key_def) (simp add: chars_def)
qed

section \<open>Redaction\<close>

abbreviation password_key :: rstr where
  "password_key \<equiv> chars ''password=''"

lemma password_key: "length password_key = 9" "password_key ! 0 = 112" "0 < i \<Longrightarrow> i < 9 \<Longrightarrow> password_key ! i \<noteq> 112"
  "password_key \<noteq> []" "32 \<notin> set password_key"
  by (simp_all add: chars_def) (auto simp: less_Suc_eq numeral_eq_Suc nth_Cons')

lemma split_text_nonempty [simp]: "split_text k s \<noteq> []"
  by (induction k s rule: split_text.induct) (auto split: list.splits)

lemma split_text_key: "split_text password_key (password_key @ t) = [] # split_text password_key t"
proof -
  obtain c r where "password_key = c # r" using password_key(4) by (cases password_key) auto
  then show ?thesis by simp
qed

text \<open>The key does not overlap itself, so that a place of it in a text is found whatever comes before.\<close>

lemma split_text_at: "split_text password_key (a @ password_key @ t) = split_text password_key a @ split_text password_key t"
proof (induction "length a" arbitrary: a rule: less_induct)
  case less
  show ?case
  proof (cases a)
    case Nil
    then show ?thesis by (simp add: split_text_key)
  next
    case (Cons c b)
    let ?k = password_key
    have found: "take 9 (a @ ?k @ t) = ?k \<longleftrightarrow> length a \<ge> 9 \<and> take 9 a = ?k"
    proof
      assume eq: "take 9 (a @ ?k @ t) = ?k"
      have "length a \<ge> 9"
      proof (rule ccontr)
        assume "\<not> length a \<ge> 9"
        then have "take 9 (a @ ?k @ t) ! length a = (?k @ t) ! 0" "0 < length a" "length a < 9"
          using Cons by (simp_all add: nth_append)
        with eq password_key show False by (simp add: nth_append)
      qed
      with eq show "length a \<ge> 9 \<and> take 9 a = ?k" by simp
    qed simp
    show ?thesis
    proof (cases "take 9 (a @ ?k @ t) = ?k")
      case True
      with found have a: "length a \<ge> 9" "take 9 a = ?k" by auto
      have "split_text ?k (drop 9 a @ ?k @ t) = split_text ?k (drop 9 a) @ split_text ?k t"
        using a(1) by (intro less) simp
      with a Cons password_key(1,4) True show ?thesis by simp
    next
      case False
      with found have "take 9 a \<noteq> ?k" using password_key(1) by (metis length_take min.absorb_iff1 min.commute)
      moreover have "split_text ?k (b @ ?k @ t) = split_text ?k b @ split_text ?k t" using Cons by (intro less) simp
      ultimately show ?thesis
        using Cons password_key(1,4) False by (cases "split_text ?k b") simp_all
    qed
  qed
qed

lemma split_text_word:
  assumes "split_text password_key p = [p]" "r = [] \<or> hd r = 32"
  shows "split_text password_key (p @ r) = (p @ hd (split_text password_key r)) # tl (split_text password_key r)"
  using assms(1)
proof (induction p)
  case (Cons c p)
  let ?k = password_key
  have not: "take 9 (c # p) \<noteq> ?k" using Cons.prems password_key(1,4) by (auto split: if_splits)
  have "take 9 ((c # p) @ r) \<noteq> ?k"
  proof
    assume eq: "take 9 ((c # p) @ r) = ?k"
    show False
    proof (cases "length (c # p) \<ge> 9")
      case True
      with eq not show False by simp
    next
      case False
      with eq password_key(1) have "r \<noteq> []" by (metis append_Nil2 length_take min.absorb_iff1 min.commute not)
      with assms(2) False have "32 \<in> set (take 9 ((c # p) @ r))" by (cases r) (auto simp: take_Cons')
      with eq password_key(5) show False by simp
    qed
  qed
  moreover have "split_text ?k p = [p]"
    using Cons.prems not password_key(1,4) by (cases "split_text ?k p") (auto split: if_splits)
  ultimately show ?case using Cons.IH not password_key(1,4) by simp
qed simp

lemma hd_split_space:
  assumes "r = [] \<or> hd r = 32"
  shows "hd (split_text password_key r) = [] \<or> hd (hd (split_text password_key r)) = 32"
proof (cases r)
  case (Cons c s)
  with assms have "take 9 r \<noteq> password_key" using password_key(5) by (auto simp: chars_def)
  with Cons assms password_key(1) show ?thesis by (cases "split_text password_key s") simp_all
qed simp

lemma redact_part_word: "32 \<notin> set p \<Longrightarrow> x = [] \<or> hd x = 32 \<Longrightarrow> redact_part (p @ x) = chars ''****'' @ x"
  by (induction p) (auto simp: redact_part_def dropWhile_eq_self_iff)

text \<open>What is shown does not depend on a value written right after the key, whatever comes before and after.\<close>

lemma redact_value:
  assumes "32 \<notin> set p" "32 \<notin> set p'" "split_text password_key p = [p]" "split_text password_key p' = [p']"
    and "r = [] \<or> hd r = 32"
  shows "redact_url (a @ chars ''password='' @ p @ r) = redact_url (a @ chars ''password='' @ p' @ r)"
proof -
  have "map redact_part (split_text password_key (q @ r)) =
      (chars ''****'' @ hd (split_text password_key r)) # map redact_part (tl (split_text password_key r))"
    if "32 \<notin> set q" "split_text password_key q = [q]" for q
    using split_text_word [OF that(2) assms(5)] redact_part_word [OF that(1) hd_split_space [OF assms(5)]] by simp
  then show ?thesis
    using assms(1-4) by (cases "split_text password_key a") (simp_all add: redact_url_def split_text_at)
qed

lemma join_rstr_middle:
  "\<exists>a r. (r = [] \<or> hd r = hd (sep @ x)) \<and> (\<forall>s. join_rstr sep (xs @ s # ys) = a @ s @ r)" if "sep \<noteq> []"
proof (induction xs)
  case Nil
  show ?case
    using that by (intro exI [of _ "[]"] exI [of _ "if ys = [] then [] else sep @ join_rstr sep ys"]) (cases ys; simp)
next
  case (Cons z xs)
  then obtain a r where "r = [] \<or> hd r = hd (sep @ x)" "\<And>s. join_rstr sep (xs @ s # ys) = a @ s @ r" by blast
  moreover have "join_rstr sep ((z # xs) @ s # ys) = z @ sep @ join_rstr sep (xs @ s # ys)" for s
    by (cases "xs @ s # ys") simp_all
  ultimately show ?case by (intro exI [of _ "z @ sep @ a"] exI [of _ r]) simp
qed

lemma url_around_password:
  assumes "nc_url c = None" "nc_host c \<noteq> None \<or> nc_user c \<noteq> None"
  shows "\<exists>a r. (r = [] \<or> hd r = 32) \<and>
    (\<forall>p. to_connection_url (c\<lparr>nc_password := Some p\<rparr>) = Some (a @ chars ''password='' @ p @ r))"
proof -
  let ?xs = "url_part ''host'' (nc_host c) @ url_part ''port'' (map_option (\<lambda>p. chars (show_nat (unat p))) (nc_port c)) @
    url_part ''user'' (nc_user c)"
  let ?ys = "url_part ''dbname'' (nc_dbname c) @ url_part ''sslmode'' (nc_sslmode c)"
  have key: "url_part ''password'' (Some p) = [chars ''password='' @ p]" for p
    by (simp add: url_part_def chars_def)
  obtain a r where "r = [] \<or> hd r = 32" "\<And>s. join_rstr (chars '' '') (?xs @ s # ?ys) = a @ s @ r"
    using join_rstr_middle [of "chars '' ''" "[]" ?xs ?ys] by (auto simp: chars_def)
  then show ?thesis
    using assms by (intro exI [of _ a] exI [of _ r]) (auto simp: to_connection_url_def key)
qed

text \<open>
  C28: What is logged of the connection string that the tool builds from the fields of a connection does not depend on its password,
  whatever the other fields are, provided that the password has no space and does not have the key \<open>password=\<close> in it. A string the
  user gives is shown with its password when it is a URL or has white space before the equals sign.
\<close>

theorem redacted_password_unknown:
  assumes "nc_url c = None" "nc_host c \<noteq> None \<or> nc_user c \<noteq> None"
    and "32 \<notin> set p" "32 \<notin> set p'" "split_text password_key p = [p]" "split_text password_key p' = [p']"
  shows "\<exists>url url'. to_connection_url (c\<lparr>nc_password := Some p\<rparr>) = Some url \<and>
    to_connection_url (c\<lparr>nc_password := Some p'\<rparr>) = Some url' \<and> redact_url url = redact_url url'"
proof -
  obtain a r where "r = [] \<or> hd r = 32"
    "\<And>q. to_connection_url (c\<lparr>nc_password := Some q\<rparr>) = Some (a @ chars ''password='' @ q @ r)"
    using url_around_password [OF assms(1,2)] by blast
  with redact_value [OF assms(3-6)] show ?thesis by auto
qed

definition sample_logged :: named_connection where
  "sample_logged = (env_connection [])\<lparr>nc_url := None, nc_host := Some (chars ''h''), nc_dbname := Some (chars ''d'')\<rparr>"

theorem redacted_password_unknown_witness:
  "\<exists>url url'. to_connection_url (sample_logged\<lparr>nc_password := Some (chars ''secret'')\<rparr>) = Some url \<and>
    to_connection_url (sample_logged\<lparr>nc_password := Some (chars ''other'')\<rparr>) = Some url' \<and> redact_url url = redact_url url'"
  by (rule redacted_password_unknown) (simp_all add: sample_logged_def chars_def)

lemma url_not_redacted:
  assumes "split_text password_key url = [url]"
  shows "redact_url url = url"
  by (simp add: redact_url_def assms)

lemma spaced_password_not_redacted:
  "redact_url (chars ''host=h password = secret'') = chars ''host=h password = secret''"
  by (rule url_not_redacted) (simp add: chars_def)

section \<open>Names of files\<close>

text \<open>
  The name of a history file is a plain name: it is not empty, is neither the directory nor its parent, and has no separator of
  paths, whatever the name of the connection is.
\<close>

lemma history_name_plain:
  "sanitize_history_name name \<noteq> [] \<and> sanitize_history_name name \<noteq> chars ''.'' \<and> sanitize_history_name name \<noteq> chars ''..'' \<and>
   list_all (\<lambda>c. tag_char c \<or> c = 45 \<or> c = 46) (sanitize_history_name name) \<and> 47 \<notin> set (sanitize_history_name name)"
proof -
  have safe: "tag_char c \<or> c = 45 \<or> c = 46 \<Longrightarrow> c \<noteq> 47" for c
    by (auto simp: tag_char_def is_ascii_alphabetic_def)
  have "list_all (\<lambda>c. tag_char c \<or> c = 45 \<or> c = 46) (sanitize_history_name name)"
    by (auto simp: sanitize_history_name_def Let_def list_all_iff chars_def)
      (simp_all add: tag_char_def is_ascii_alphabetic_def)
  moreover from this have "47 \<notin> set (sanitize_history_name name)" using safe by (auto simp: list_all_iff)
  moreover have "sanitize_history_name name \<noteq> [] \<and> sanitize_history_name name \<noteq> chars ''.'' \<and>
      sanitize_history_name name \<noteq> chars ''..''"
    by (simp add: sanitize_history_name_def Let_def chars_def)
  ultimately show ?thesis by blast
qed

section \<open>Previews\<close>

text \<open>
  The preview of a statement in an error panics exactly when the statement is longer than two hundred bytes and the last of them is
  inside a character; there is such a statement.
\<close>

lemma preview_panics:
  "(sql_preview sql = None) = (length sql > 200 \<and> is_cont (sql ! 200)) \<and>
   sql_preview (utf8_encode (replicate 199 97 @ [0xE9, 97])) = None"
proof -
  have preview: "(sql_preview s = None) = (length s > 200 \<and> is_cont (s ! 200))" for s
    by (auto simp: sql_preview_def slice_to_def is_char_boundary_def)
  have "utf8_encode (replicate n 97 @ s) = replicate n 97 @ utf8_encode s" for n s
    by (induction n) (simp_all add: utf8_encode_char_def)
  then have "utf8_encode (replicate 199 97 @ [0xE9, 97]) = replicate 199 97 @ [0xC3, 0xA9, 97]"
    by (simp only:) (simp add: utf8_encode_char_def)
  then have "sql_preview (utf8_encode (replicate 199 97 @ [0xE9, 97])) = None"
    by (simp only: preview) (simp add: nth_append is_cont_def)
  with preview show ?thesis by blast
qed

end
