(* ===== verification/Extra_Values.thy ===== *)
theory Extra_Values
  imports Sql_Value_Laws
begin

text \<open>
  The conversions of the types of third-party crates (\<open>opengauss-types\<close>): dates and times (\<open>chrono_04.rs\<close>), identifiers and addresses
  (\<open>uuid_1.rs\<close>, \<open>eui48_1.rs\<close>, \<open>cidr_03.rs\<close>), JSON (\<open>serde_json_1.rs\<close>), bit strings (\<open>bit_vec_08.rs\<close>) and figures
  (\<open>geo_types_07.rs\<close>). Each crate is the record of the operations that are used, with the laws that its documentation states of
  them; a type that only wraps its octets is these octets.
\<close>

abbreviation (input) UUID :: pg_type where "UUID \<equiv> Builtin 2950"
abbreviation (input) JSON :: pg_type where "JSON \<equiv> Builtin 114"
abbreviation (input) JSONB :: pg_type where "JSONB \<equiv> Builtin 3802"
abbreviation (input) TIME :: pg_type where "TIME \<equiv> Builtin 1083"
abbreviation (input) MACADDR :: pg_type where "MACADDR \<equiv> Builtin 829"
abbreviation (input) CIDR :: pg_type where "CIDR \<equiv> Builtin 650"
abbreviation (input) POINT :: pg_type where "POINT \<equiv> Builtin 600"
abbreviation (input) BOX :: pg_type where "BOX \<equiv> Builtin 603"
abbreviation (input) PATH :: pg_type where "PATH \<equiv> Builtin 602"
abbreviation (input) BIT :: pg_type where "BIT \<equiv> Builtin 1560"
abbreviation (input) VARBIT :: pg_type where "VARBIT \<equiv> Builtin 1562"

lemma extra_constants:
  "type_from_oid 2950 = Some UUID" "type_from_oid 114 = Some JSON" "type_from_oid 3802 = Some JSONB" "type_from_oid 1083 = Some TIME"
  "type_from_oid 829 = Some MACADDR" "type_from_oid 650 = Some CIDR" "type_from_oid 600 = Some POINT" "type_from_oid 603 = Some BOX"
  "type_from_oid 602 = Some PATH" "type_from_oid 1560 = Some BIT" "type_from_oid 1562 = Some VARBIT"
  by (simp_all add: type_from_oid_def inner_from_oid_def type_of_def)

section \<open>Dates and times\<close>

text \<open>
  The operations of \<open>chrono\<close>, on dates and times \<open>'dt\<close>, dates \<open>'d\<close> and times \<open>'t\<close>: \<open>base().checked_add_signed\<close> of
  microseconds, the microseconds since \<open>base()\<close> unless they overflow, and the same for days and for the time of the day, whose addition
  wraps at midnight.
\<close>

record ('dt, 'd, 't) calendar =
  cal_add_micros :: "int \<Rightarrow> 'dt option"
  cal_micros_since :: "'dt \<Rightarrow> int option"
  cal_add_days :: "int \<Rightarrow> 'd option"
  cal_days_since :: "'d \<Rightarrow> int"
  cal_time_add :: "int \<Rightarrow> 't"
  cal_time_since :: "'t \<Rightarrow> int option"

definition too_large_decode :: "'a boxed" where
  "too_large_decode = boxed (Inl (Err_Msg ''value too large to decode''))"

definition too_large_transmit :: "'a boxed" where
  "too_large_transmit = boxed (Inl (Err_Msg ''value too large to transmit''))"

definition date_time_readable :: "('dt, 'd, 't) calendar \<Rightarrow> 'dt readable" where
  "date_time_readable cal =
     \<lparr>rd_accepts = (\<lambda>ty. ty \<in> {TIMESTAMP}),
      rd_from_sql = (\<lambda>_ raw. bind_res (boxed (timestamp_from_sql raw)) (\<lambda>t.
        case cal_add_micros cal (sint t) of Some v \<Rightarrow> Inr v | None \<Rightarrow> too_large_decode)),
      rd_null = was_null\<rparr>"

definition date_time_writable :: "('dt, 'd, 't) calendar \<Rightarrow> 'dt writable" where
  "date_time_writable cal =
     \<lparr>wr_accepts = (\<lambda>ty. ty \<in> {TIMESTAMP}),
      wr_to_sql = (\<lambda>v _ w. case cal_micros_since cal v of
        Some t \<Rightarrow> Inr (No, timestamp_to_sql (of_int t) w) | None \<Rightarrow> too_large_transmit)\<rparr>"

text \<open>\<open>DateTime<Utc>\<close> is a date and time without a zone; the other zones are read and written through it.\<close>

definition utc_readable :: "('dt, 'd, 't) calendar \<Rightarrow> ('dt \<Rightarrow> 'u) \<Rightarrow> 'u readable" where
  "utc_readable cal from_utc =
     \<lparr>rd_accepts = (\<lambda>ty. ty \<in> {TIMESTAMPTZ}),
      rd_from_sql = (\<lambda>ty raw. bind_res (rd_from_sql (date_time_readable cal) ty raw) (\<lambda>naive. Inr (from_utc naive))),
      rd_null = was_null\<rparr>"

definition utc_writable :: "('dt, 'd, 't) calendar \<Rightarrow> ('u \<Rightarrow> 'dt) \<Rightarrow> 'u writable" where
  "utc_writable cal naive_utc =
     \<lparr>wr_accepts = (\<lambda>ty. ty \<in> {TIMESTAMPTZ}),
      wr_to_sql = (\<lambda>v ty w. wr_to_sql (date_time_writable cal) (naive_utc v) ty w)\<rparr>"

definition local_readable :: "'u readable \<Rightarrow> ('u \<Rightarrow> 'l) \<Rightarrow> 'l readable" where
  "local_readable utc with_timezone =
     \<lparr>rd_accepts = (\<lambda>ty. ty \<in> {TIMESTAMPTZ}),
      rd_from_sql = (\<lambda>ty raw. bind_res (rd_from_sql utc ty raw) (\<lambda>v. Inr (with_timezone v))), rd_null = was_null\<rparr>"

definition local_writable :: "'u writable \<Rightarrow> ('l \<Rightarrow> 'u) \<Rightarrow> 'l writable" where
  "local_writable utc to_utc =
     \<lparr>wr_accepts = (\<lambda>ty. ty \<in> {TIMESTAMPTZ}), wr_to_sql = (\<lambda>v ty w. wr_to_sql utc (to_utc v) ty w)\<rparr>"

definition naive_date_readable :: "('dt, 'd, 't) calendar \<Rightarrow> 'd readable" where
  "naive_date_readable cal =
     \<lparr>rd_accepts = (\<lambda>ty. ty \<in> {DATE}),
      rd_from_sql = (\<lambda>_ raw. bind_res (boxed (date_from_sql raw)) (\<lambda>jd.
        case cal_add_days cal (sint jd) of Some v \<Rightarrow> Inr v | None \<Rightarrow> too_large_decode)),
      rd_null = was_null\<rparr>"

definition naive_date_writable :: "('dt, 'd, 't) calendar \<Rightarrow> 'd writable" where
  "naive_date_writable cal =
     \<lparr>wr_accepts = (\<lambda>ty. ty \<in> {DATE}),
      wr_to_sql = (\<lambda>v _ w.
        let jd = cal_days_since cal v in
        if - 2147483648 \<le> jd \<and> jd \<le> 2147483647 then Inr (No, date_to_sql (of_int jd) w) else too_large_transmit)\<rparr>"

definition naive_time_readable :: "('dt, 'd, 't) calendar \<Rightarrow> 't readable" where
  "naive_time_readable cal =
     \<lparr>rd_accepts = (\<lambda>ty. ty \<in> {TIME}),
      rd_from_sql = (\<lambda>_ raw. bind_res (boxed (time_from_sql raw)) (\<lambda>usec. Inr (cal_time_add cal (sint usec)))),
      rd_null = was_null\<rparr>"

definition naive_time_writable :: "('dt, 'd, 't) calendar \<Rightarrow> 't writable" where
  "naive_time_writable cal =
     \<lparr>wr_accepts = (\<lambda>ty. ty \<in> {TIME}),
      wr_to_sql = (\<lambda>v _ w. case cal_time_since cal v of
        Some t \<Rightarrow> Inr (No, time_to_sql (of_int t) w) | None \<Rightarrow> too_large_transmit)\<rparr>"

section \<open>Octets\<close>

definition uuid_readable :: "bytes readable" where "uuid_readable = simple_readable uuid_from_sql [UUID]"
definition uuid_writable :: "bytes writable" where "uuid_writable = simple_writable uuid_to_sql [UUID]"

definition mac_readable :: "bytes readable" where "mac_readable = simple_readable macaddr_from_sql [MACADDR]"
definition mac_writable :: "bytes writable" where "mac_writable = simple_writable macaddr_to_sql [MACADDR]"

text \<open>
  \<open>IpCidr\<close>, a network, and \<open>IpInet\<close>, an address in one: \<open>new\<close> of the crate fails, the parts of a value are its first address or
  its address and the length of its prefix.
\<close>

record 'n network =
  net_new :: "ip_addr \<Rightarrow> u8 \<Rightarrow> 'n option"
  net_addr :: "'n \<Rightarrow> ip_addr"
  net_length :: "'n \<Rightarrow> u8"

definition network_readable :: "'n network \<Rightarrow> pg_type \<Rightarrow> 'n readable" where
  "network_readable lib ty' =
     \<lparr>rd_accepts = (\<lambda>ty. ty \<in> {ty'}),
      rd_from_sql = (\<lambda>_ raw. bind_res (boxed (inet_from_sql raw)) (\<lambda>inet.
        case net_new lib (inet_addr inet) (inet_netmask inet) of
          Some v \<Rightarrow> Inr v | None \<Rightarrow> boxed (Inl (Err_Msg ''invalid network'')))),
      rd_null = was_null\<rparr>"

definition network_writable :: "'n network \<Rightarrow> pg_type \<Rightarrow> 'n writable" where
  "network_writable lib ty' =
     \<lparr>wr_accepts = (\<lambda>ty. ty \<in> {ty'}), wr_to_sql = (\<lambda>v _ w. Inr (No, inet_to_sql (net_addr lib v) (net_length lib v) w))\<rparr>"

definition cidr_readable :: "'n network \<Rightarrow> 'n readable" where "cidr_readable lib = network_readable lib CIDR"
definition cidr_writable :: "'n network \<Rightarrow> 'n writable" where "cidr_writable lib = network_writable lib CIDR"
definition ip_inet_readable :: "'n network \<Rightarrow> 'n readable" where "ip_inet_readable lib = network_readable lib INET"
definition ip_inet_writable :: "'n network \<Rightarrow> 'n writable" where "ip_inet_writable lib = network_writable lib INET"

section \<open>JSON\<close>

text \<open>\<open>from_slice\<close> and \<open>to_writer\<close> of the crate, for the type that is converted.\<close>

record 'v json_lib =
  js_read :: "bytes \<Rightarrow> sql_error + 'v"
  js_write :: "'v \<Rightarrow> sql_error + bytes"

definition json_readable :: "'v json_lib \<Rightarrow> 'v readable" where
  "json_readable lib =
     \<lparr>rd_accepts = (\<lambda>ty. ty \<in> {JSON, JSONB}),
      rd_from_sql = (\<lambda>ty raw.
        bind_res
          (if ty = JSONB then
             bind_res (boxed (map_err Err_Io (read_u8 raw))) (\<lambda>(b, raw).
             if b \<noteq> 1 then boxed (Inl (Err_Msg ''unsupported JSONB encoding version'')) else Inr raw)
           else Inr raw)
          (\<lambda>raw. boxed (js_read lib raw))),
      rd_null = was_null\<rparr>"

definition json_writable :: "'v json_lib \<Rightarrow> 'v writable" where
  "json_writable lib =
     \<lparr>wr_accepts = (\<lambda>ty. ty \<in> {JSON, JSONB}),
      wr_to_sql = (\<lambda>v ty out.
        let out = (if ty = JSONB then out @ [1] else out) in
        bind_res (boxed (js_write lib v)) (\<lambda>b. Inr (No, out @ b)))\<rparr>"

section \<open>Bit strings\<close>

text \<open>\<open>BitVec::from_bytes\<close> and \<open>to_bytes\<close>; a vector is the list of its bits.\<close>

record bit_vec_lib =
  bv_from_bytes :: "bytes \<Rightarrow> bool list"
  bv_to_bytes :: "bool list \<Rightarrow> bytes"

text \<open>The loop pops bits as long as there are too many.\<close>

function pop_to :: "nat \<Rightarrow> bool list \<Rightarrow> bool list" where
  "pop_to n v = (if length v > n then pop_to n (butlast v) else v)"
  by pat_completeness auto
termination
  by (relation "measure (length \<circ> snd)") auto

declare pop_to.simps [simp del]

definition bit_vec_readable :: "bit_vec_lib \<Rightarrow> bool list readable" where
  "bit_vec_readable lib =
     \<lparr>rd_accepts = (\<lambda>ty. ty \<in> {BIT, VARBIT}),
      rd_from_sql = (\<lambda>_ raw. bind_res (boxed (varbit_from_sql raw)) (\<lambda>varbit.
        Inr (pop_to (vb_len varbit) (bv_from_bytes lib (vb_bytes varbit))))),
      rd_null = was_null\<rparr>"

definition bit_vec_writable :: "bit_vec_lib \<Rightarrow> bool list writable" where
  "bit_vec_writable lib =
     \<lparr>wr_accepts = (\<lambda>ty. ty \<in> {BIT, VARBIT}),
      wr_to_sql = (\<lambda>v _ out. bind_res (boxed (varbit_to_sql (length v) (bv_to_bytes lib v) out)) (\<lambda>out. Inr (No, out)))\<rparr>"

section \<open>Figures\<close>

text \<open>A point is its coordinates. A rectangle is made of two corners by the crate, which orders their coordinates.\<close>

type_synonym coord = "f64 \<times> f64"

record 'r rect_lib =
  re_new :: "coord \<Rightarrow> coord \<Rightarrow> 'r"
  re_min :: "'r \<Rightarrow> coord"
  re_max :: "'r \<Rightarrow> coord"

definition geo_point_readable :: "coord readable" where
  "geo_point_readable = simple_readable (\<lambda>raw. bind_res (point_from_sql raw) (\<lambda>p. Inr (pt_x p, pt_y p))) [POINT]"

definition geo_point_writable :: "coord writable" where
  "geo_point_writable = simple_writable (\<lambda>(x, y) out. point_to_sql x y out) [POINT]"

definition rect_readable :: "'r rect_lib \<Rightarrow> 'r readable" where
  "rect_readable lib = simple_readable (\<lambda>raw. bind_res (box_from_sql raw) (\<lambda>r.
     Inr (re_new lib (pt_x (lower_left r), pt_y (lower_left r)) (pt_x (upper_right r), pt_y (upper_right r))))) [BOX]"

definition rect_writable :: "'r rect_lib \<Rightarrow> 'r writable" where
  "rect_writable lib = simple_writable (\<lambda>r out.
     box_to_sql (fst (re_min lib r)) (snd (re_min lib r)) (fst (re_max lib r)) (snd (re_max lib r)) out) [BOX]"

text \<open>The points of a path are collected to the end of the iterator, or to its first error.\<close>

definition line_string_readable :: "coord list readable" where
  "line_string_readable = simple_readable (\<lambda>raw. bind_res (path_from_sql raw) (\<lambda>path.
     case collect (Suc (length (pa_buf path))) path_points_next (path_points path) of
       Some r \<Rightarrow> bind_res r (\<lambda>ps. Inr (map (\<lambda>p. (pt_x p, pt_y p)) ps))
     | None \<Rightarrow> Inl (Err_Msg ''unreachable''))) [PATH]"

definition line_string_writable :: "coord list writable" where
  "line_string_writable =
     \<lparr>wr_accepts = (\<lambda>ty. ty \<in> {PATH}),
      wr_to_sql = (\<lambda>v _ out. bind_res (boxed (path_to_sql False v out)) (\<lambda>out. Inr (No, out)))\<rparr>"

end
