(* ===== verification/Extra_Value_Laws.thy ===== *)
theory Extra_Value_Laws
  imports Extra_Values
begin

text \<open>
  The conversions of third-party types read back what they write (\<open>plain_value\<close>) under the laws of the crates that are stated here,
  each of which has an instance.
\<close>

section \<open>Dates and times\<close>

text \<open>
  Adding back the microseconds, which fit 64 bits, gives a date and time that has no smaller parts; likewise days, and a time of the
  day.
\<close>

definition exact_micros :: "('dt, 'd, 't) calendar \<Rightarrow> 'dt \<Rightarrow> bool" where
  "exact_micros cal v \<longleftrightarrow> (\<exists>t. cal_micros_since cal v = Some t \<and> - (2 ^ 63) \<le> t \<and> t < 2 ^ 63 \<and> cal_add_micros cal t = Some v)"

definition exact_days :: "('dt, 'd, 't) calendar \<Rightarrow> 'd \<Rightarrow> bool" where
  "exact_days cal v \<longleftrightarrow> - (2 ^ 31) \<le> cal_days_since cal v \<and> cal_days_since cal v < 2 ^ 31 \<and>
     cal_add_days cal (cal_days_since cal v) = Some v"

definition exact_time :: "('dt, 'd, 't) calendar \<Rightarrow> 't \<Rightarrow> bool" where
  "exact_time cal v \<longleftrightarrow> (\<exists>t. cal_time_since cal v = Some t \<and> - (2 ^ 63) \<le> t \<and> t < 2 ^ 63 \<and> cal_time_add cal t = v)"

lemma sint_i64: "- (2 ^ 63) \<le> t \<Longrightarrow> t < 2 ^ 63 \<Longrightarrow> sint (of_int t :: i64) = t"
  by (simp add: int_word_sint)

lemma sint_i32: "- (2 ^ 31) \<le> t \<Longrightarrow> t < 2 ^ 31 \<Longrightarrow> sint (of_int t :: i32) = t"
  by (simp add: int_word_sint)

definition micros_bytes :: "('dt, 'd, 't) calendar \<Rightarrow> 'dt \<Rightarrow> bytes" where
  "micros_bytes cal v = timestamp_to_sql (of_int (the (cal_micros_since cal v))) []"

interpretation date_time_value: plain_value "date_time_writable cal" "date_time_readable cal" "\<lambda>_. exact_micros cal"
  "\<lambda>_ v. Some (micros_bytes cal v)" for cal :: "('dt, 'd, 't) calendar"
proof
  fix ty and v :: 'dt
  assume "exact_micros cal v"
  then obtain t where t: "cal_micros_since cal v = Some t" "- (2 ^ 63) \<le> t" "t < 2 ^ 63" "cal_add_micros cal t = Some v"
    by (auto simp: exact_micros_def)
  then show "serializes (wr_to_sql (date_time_writable cal) v ty) (Some (micros_bytes cal v))"
    by (simp add: serializes_def date_time_writable_def micros_bytes_def timestamp_to_sql_def)
  show "rd_nullable (date_time_readable cal) ty (Some (micros_bytes cal v)) = Inr v"
    using t by (simp add: rd_nullable_def date_time_readable_def micros_bytes_def timestamp_fmt.dec_enc sint_i64)
qed simp

text \<open>A zone that is exact is only a view of the date and time.\<close>

definition exact_zoned :: "('dt, 'd, 't) calendar \<Rightarrow> ('u \<Rightarrow> 'dt) \<Rightarrow> ('dt \<Rightarrow> 'u) \<Rightarrow> 'u \<Rightarrow> bool" where
  "exact_zoned cal naive from_utc v \<longleftrightarrow> exact_micros cal (naive v) \<and> from_utc (naive v) = v"

interpretation utc_value: plain_value "utc_writable cal naive" "utc_readable cal from_utc" "\<lambda>_. exact_zoned cal naive from_utc"
  "\<lambda>_ v. Some (micros_bytes cal (naive v))" for cal :: "('dt, 'd, 't) calendar" and naive :: "'u \<Rightarrow> 'dt" and from_utc
proof
  fix ty and v :: 'u
  assume v: "exact_zoned cal naive from_utc v"
  then have n: "exact_micros cal (naive v)" by (simp add: exact_zoned_def)
  show "serializes (wr_to_sql (utc_writable cal naive) v ty) (Some (micros_bytes cal (naive v)))"
    using date_time_value.writes [OF n] by (simp add: utc_writable_def)
  show "rd_nullable (utc_readable cal from_utc) ty (Some (micros_bytes cal (naive v))) = Inr v"
    using date_time_value.reads [OF n] v by (simp add: rd_nullable_def utc_readable_def exact_zoned_def)
qed simp

definition days_bytes :: "('dt, 'd, 't) calendar \<Rightarrow> 'd \<Rightarrow> bytes" where
  "days_bytes cal v = date_to_sql (of_int (cal_days_since cal v)) []"

interpretation naive_date_value: plain_value "naive_date_writable cal" "naive_date_readable cal" "\<lambda>_. exact_days cal"
  "\<lambda>_ v. Some (days_bytes cal v)" for cal :: "('dt, 'd, 't) calendar"
proof
  fix ty and v :: 'd
  assume v: "exact_days cal v"
  then show "serializes (wr_to_sql (naive_date_writable cal) v ty) (Some (days_bytes cal v))"
    by (simp add: serializes_def naive_date_writable_def days_bytes_def date_to_sql_def exact_days_def Let_def)
  show "rd_nullable (naive_date_readable cal) ty (Some (days_bytes cal v)) = Inr v"
    using v by (simp add: rd_nullable_def naive_date_readable_def days_bytes_def date_fmt.dec_enc sint_i32 exact_days_def)
qed simp

definition time_bytes :: "('dt, 'd, 't) calendar \<Rightarrow> 't \<Rightarrow> bytes" where
  "time_bytes cal v = time_to_sql (of_int (the (cal_time_since cal v))) []"

interpretation naive_time_value: plain_value "naive_time_writable cal" "naive_time_readable cal" "\<lambda>_. exact_time cal"
  "\<lambda>_ v. Some (time_bytes cal v)" for cal :: "('dt, 'd, 't) calendar"
proof
  fix ty and v :: 't
  assume "exact_time cal v"
  then obtain t where t: "cal_time_since cal v = Some t" "- (2 ^ 63) \<le> t" "t < 2 ^ 63" "cal_time_add cal t = v"
    by (auto simp: exact_time_def)
  then show "serializes (wr_to_sql (naive_time_writable cal) v ty) (Some (time_bytes cal v))"
    by (simp add: serializes_def naive_time_writable_def time_bytes_def time_to_sql_def)
  show "rd_nullable (naive_time_readable cal) ty (Some (time_bytes cal v)) = Inr v"
    using t by (simp add: rd_nullable_def naive_time_readable_def time_bytes_def time_fmt.dec_enc sint_i64)
qed simp

text \<open>
  A calendar in which a date and time is its microseconds, a date its days and a time of the day its microseconds since midnight,
  which wrap after a day.
\<close>

definition sample_calendar :: "(int, int, int) calendar" where
  "sample_calendar =
     \<lparr>cal_add_micros = Some, cal_micros_since = (\<lambda>t. if - (2 ^ 63) \<le> t \<and> t < 2 ^ 63 then Some t else None), cal_add_days = Some,
      cal_days_since = (\<lambda>d. d), cal_time_add = (\<lambda>t. t mod 86400000000), cal_time_since = Some\<rparr>"

text \<open>The server's time 24:00:00 is read as midnight.\<close>

lemma end_of_day: "rd_from_sql (naive_time_readable sample_calendar) TIME (time_to_sql 86400000000 []) = Inr 0"
  by (simp add: naive_time_readable_def sample_calendar_def time_fmt.dec_enc)

section \<open>Octets\<close>

interpretation uuid_value: plain_value uuid_writable uuid_readable "\<lambda>_ v. length v = 16" "\<lambda>_ v. Some (uuid_to_sql v [])"
  unfolding uuid_writable_def uuid_readable_def
  by (rule simple_value [of uuid_to_sql "\<lambda>v. length v = 16"]) (simp_all add: uuid_fmt.dec_enc_ok, simp add: uuid_to_sql_def)

interpretation mac_value: plain_value mac_writable mac_readable "\<lambda>_ v. length v = 6" "\<lambda>_ v. Some (macaddr_to_sql v [])"
  unfolding mac_writable_def mac_readable_def
  by (rule simple_value [of macaddr_to_sql "\<lambda>v. length v = 6"]) (simp_all add: macaddr_fmt.dec_enc_ok, simp add: macaddr_to_sql_def)

definition network_ok :: "'n network \<Rightarrow> 'n \<Rightarrow> bool" where
  "network_ok lib v \<longleftrightarrow> netmask_ok (net_addr lib v) (net_length lib v) \<and> net_new lib (net_addr lib v) (net_length lib v) = Some v"

lemma network_reads:
  assumes "network_ok lib v"
  shows "rd_from_sql (network_readable lib ty') ty (inet_to_sql (net_addr lib v) (net_length lib v) []) = Inr v"
proof -
  have "inet_from_sql (inet_to_sql (net_addr lib v) (net_length lib v) []) =
      Inr \<lparr>inet_addr = net_addr lib v, inet_netmask = net_length lib v\<rparr>"
    unfolding inet_accepts using assms
    by (intro conjI exI [of _ 0])
      (simp_all add: network_ok_def, simp add: inet_to_sql_def Let_def numeral_2_eq_2 split: ip_addr.split)
  with assms show ?thesis by (simp add: network_readable_def network_ok_def)
qed

interpretation network_value: plain_value "network_writable lib ty'" "network_readable lib ty'" "\<lambda>_. network_ok lib"
  "\<lambda>_ v. Some (inet_to_sql (net_addr lib v) (net_length lib v) [])" for lib :: "'n network" and ty'
proof
  fix ty and v :: 'n
  show "serializes (wr_to_sql (network_writable lib ty') v ty) (Some (inet_to_sql (net_addr lib v) (net_length lib v) []))"
    by (auto simp: serializes_def network_writable_def inet_to_sql_def Let_def split: ip_addr.split)
  show "rd_nullable (network_readable lib ty') ty (Some (inet_to_sql (net_addr lib v) (net_length lib v) [])) = Inr v"
    if "network_ok lib v"
    using network_reads [OF that] by (simp add: rd_nullable_def)
qed simp

section \<open>JSON\<close>

definition json_ok :: "'v json_lib \<Rightarrow> 'v \<Rightarrow> bool" where
  "json_ok lib v \<longleftrightarrow> (\<exists>b. js_write lib v = Inr b \<and> js_read lib b = Inr v)"

definition json_bytes :: "'v json_lib \<Rightarrow> pg_type \<Rightarrow> 'v \<Rightarrow> bytes" where
  "json_bytes lib ty v = (if ty = JSONB then [1] else []) @ (case js_write lib v of Inr b \<Rightarrow> b | Inl _ \<Rightarrow> [])"

interpretation json_value: plain_value "json_writable lib" "json_readable lib" "\<lambda>_. json_ok lib" "\<lambda>ty v. Some (json_bytes lib ty v)"
  for lib :: "'v json_lib"
proof
  fix ty and v :: 'v
  assume "json_ok lib v"
  then obtain b where b: "js_write lib v = Inr b" "js_read lib b = Inr v" by (auto simp: json_ok_def)
  then show "serializes (wr_to_sql (json_writable lib) v ty) (Some (json_bytes lib ty v))"
    by (auto simp: serializes_def json_writable_def json_bytes_def Let_def)
  show "rd_nullable (json_readable lib) ty (Some (json_bytes lib ty v)) = Inr v"
    using b by (auto simp: rd_nullable_def json_readable_def json_bytes_def read_be_Inr)
qed simp

section \<open>Bit strings\<close>

text \<open>The bits of the octets are the bits of the vector, and some more in the last octet.\<close>

definition bit_vec_laws :: "bit_vec_lib \<Rightarrow> bool" where
  "bit_vec_laws lib \<longleftrightarrow> (\<forall>v. length (bv_to_bytes lib v) = (length v + 7) div 8 \<and>
     take (length v) (bv_from_bytes lib (bv_to_bytes lib v)) = v)"

lemma pop_to_take: "pop_to n v = take n v"
proof (induction n v rule: pop_to.induct)
  case (1 n v)
  show ?case
  proof (cases "length v > n")
    case True
    then have "pop_to n v = take n (butlast v)" using 1 by (simp add: pop_to.simps)
    also have "\<dots> = take n v" using True by (simp add: butlast_conv_take min_absorb1)
    finally show ?thesis .
  qed (simp add: pop_to.simps)
qed

definition bit_bytes :: "bit_vec_lib \<Rightarrow> bool list \<Rightarrow> bytes" where
  "bit_bytes lib v = be_word (of_nat (length v) :: i32) @ bv_to_bytes lib v"

interpretation bit_vec_value: plain_value "bit_vec_writable lib" "bit_vec_readable lib"
  "\<lambda>_ v. bit_vec_laws lib \<and> length v < 2 ^ 31" "\<lambda>_ v. Some (bit_bytes lib v)" for lib
proof
  fix ty and v :: "bool list"
  assume v: "bit_vec_laws lib \<and> length v < 2 ^ 31"
  have written: "varbit_to_sql (length v) (bv_to_bytes lib v) out = Inr (out @ bit_bytes lib v)" for out
    using v by (simp add: varbit_to_sql_def i32_from_usize_def from_usize_def bit_bytes_def)
  then show "serializes (wr_to_sql (bit_vec_writable lib) v ty) (Some (bit_bytes lib v))"
    by (simp add: serializes_def bit_vec_writable_def)
  have "varbit_from_sql (bit_bytes lib v) = Inr \<lparr>vb_len = length v, vb_bytes = bv_to_bytes lib v\<rparr>"
    unfolding varbit_accepts using written [of "[]"] v by (simp add: bit_vec_laws_def)
  then show "rd_nullable (bit_vec_readable lib) ty (Some (bit_bytes lib v)) = Inr v"
    using v by (simp add: rd_nullable_def bit_vec_readable_def pop_to_take bit_vec_laws_def)
qed simp

section \<open>Figures\<close>

interpretation geo_point_value: plain_value geo_point_writable geo_point_readable "\<lambda>_ _. True"
  "\<lambda>_ (v :: coord). Some ((\<lambda>(x, y) out. point_to_sql x y out) v [])"
  unfolding geo_point_writable_def geo_point_readable_def
proof (rule simple_value [of "\<lambda>(x, y) out. point_to_sql x y out" "\<lambda>_. True"])
  fix v :: coord and w
  show "(\<lambda>(x, y) out. point_to_sql x y out) v w = w @ (\<lambda>(x, y) out. point_to_sql x y out) v []"
    by (simp add: point_to_sql_def split: prod.split)
  show "bind_res (point_from_sql ((\<lambda>(x, y) out. point_to_sql x y out) v [])) (\<lambda>p. Inr (pt_x p, pt_y p)) = Inr v"
    using point_fmt.dec_enc [of "\<lparr>pt_x = fst v, pt_y = snd v\<rparr>"] by (cases v) simp
qed

text \<open>The corners of a rectangle in either order make the same rectangle.\<close>

definition rect_ok :: "'r rect_lib \<Rightarrow> 'r \<Rightarrow> bool" where
  "rect_ok lib r \<longleftrightarrow> re_new lib (re_max lib r) (re_min lib r) = r"

interpretation rect_value: plain_value "rect_writable lib" "rect_readable lib" "\<lambda>_. rect_ok lib"
  "\<lambda>_ r. Some (box_to_sql (fst (re_min lib r)) (snd (re_min lib r)) (fst (re_max lib r)) (snd (re_max lib r)) [])"
  for lib :: "'r rect_lib"
  unfolding rect_writable_def rect_readable_def
proof (rule simple_value [of _ "rect_ok lib"])
  fix r :: 'r and w
  let ?f = "\<lambda>r out. box_to_sql (fst (re_min lib r)) (snd (re_min lib r)) (fst (re_max lib r)) (snd (re_max lib r)) out"
  show "?f r w = w @ ?f r []" by (simp add: box_to_sql_def)
  assume "rect_ok lib r"
  then show "bind_res (box_from_sql (?f r [])) (\<lambda>b.
      Inr (re_new lib (pt_x (lower_left b), pt_y (lower_left b)) (pt_x (upper_right b), pt_y (upper_right b)))) = Inr r"
    using box_fmt.dec_enc [of "\<lparr>upper_right = \<lparr>pt_x = fst (re_min lib r), pt_y = snd (re_min lib r)\<rparr>,
        lower_left = \<lparr>pt_x = fst (re_max lib r), pt_y = snd (re_max lib r)\<rparr>\<rparr>"]
    by (simp add: rect_ok_def)
qed

section \<open>Together\<close>

text \<open>
  A date and time, with a zone or without, a date, an identifier, JSON in its text and in its binary format, a bit string and a
  figure that are written as the types they accept read back as the values that were written, under the laws of their crates.
\<close>

lemma crate_values_read_back:
  assumes "exact_micros cal dt" "exact_zoned cal naive from_utc z" "exact_days cal day" "exact_time cal tm" "length u = 16"
    and "json_ok js v" "bit_vec_laws bv" "length bits < 2 ^ 31" "rect_ok rl r" "network_ok nl n"
  shows "reads_back (date_time_writable cal) (date_time_readable cal) TIMESTAMP dt \<and>
    reads_back (utc_writable cal naive) (utc_readable cal from_utc) TIMESTAMPTZ z \<and>
    reads_back (naive_date_writable cal) (naive_date_readable cal) DATE day \<and>
    reads_back (naive_time_writable cal) (naive_time_readable cal) TIME tm \<and>
    reads_back uuid_writable uuid_readable UUID u \<and>
    reads_back (json_writable js) (json_readable js) JSON v \<and> reads_back (json_writable js) (json_readable js) JSONB v \<and>
    reads_back (bit_vec_writable bv) (bit_vec_readable bv) VARBIT bits \<and>
    reads_back geo_point_writable geo_point_readable POINT p \<and> reads_back (rect_writable rl) (rect_readable rl) BOX r \<and>
    reads_back (cidr_writable nl) (cidr_readable nl) CIDR n"
proof (intro conjI)
  show "reads_back (date_time_writable cal) (date_time_readable cal) TIMESTAMP dt"
    by (rule date_time_value.reads_back [OF assms(1)]) (simp add: date_time_writable_def)
  show "reads_back (utc_writable cal naive) (utc_readable cal from_utc) TIMESTAMPTZ z"
    by (rule utc_value.reads_back [OF assms(2)]) (simp add: utc_writable_def)
  show "reads_back (naive_date_writable cal) (naive_date_readable cal) DATE day"
    by (rule naive_date_value.reads_back [OF assms(3)]) (simp add: naive_date_writable_def)
  show "reads_back (naive_time_writable cal) (naive_time_readable cal) TIME tm"
    by (rule naive_time_value.reads_back [OF assms(4)]) (simp add: naive_time_writable_def)
  show "reads_back uuid_writable uuid_readable UUID u"
    by (rule uuid_value.reads_back [OF assms(5)]) (simp add: uuid_writable_def simple_writable_def)
  show "reads_back (json_writable js) (json_readable js) JSON v" "reads_back (json_writable js) (json_readable js) JSONB v"
    by (rule json_value.reads_back [OF assms(6)], simp add: json_writable_def)+
  show "reads_back (bit_vec_writable bv) (bit_vec_readable bv) VARBIT bits"
    by (rule bit_vec_value.reads_back, rule conjI [OF assms(7,8)]) (simp add: bit_vec_writable_def)
  show "reads_back geo_point_writable geo_point_readable POINT p"
    by (rule geo_point_value.reads_back) (simp_all add: geo_point_writable_def simple_writable_def)
  show "reads_back (rect_writable rl) (rect_readable rl) BOX r"
    by (rule rect_value.reads_back [OF assms(9)]) (simp add: rect_writable_def simple_writable_def)
  show "reads_back (cidr_writable nl) (cidr_readable nl) CIDR n"
    unfolding cidr_writable_def cidr_readable_def
    by (rule network_value.reads_back [OF assms(10)]) (simp add: network_writable_def)
qed

text \<open>Instances of the crates: octets of eight bits, a rectangle that is a pair of corners in order, a network that is any address.\<close>

function pack_bits :: "bool list \<Rightarrow> bytes" where
  "pack_bits v = (if v = [] then [] else horner_sum of_bool 2 (take 8 v) # pack_bits (drop 8 v))"
  by pat_completeness auto
termination
  by (relation "measure length") auto

declare pack_bits.simps [simp del]

definition sample_bit_vec :: bit_vec_lib where
  "sample_bit_vec = \<lparr>bv_from_bytes = (\<lambda>bs. concat (map (\<lambda>b. map (bit b) [0..<8]) bs)), bv_to_bytes = pack_bits\<rparr>"

lemma sample_bit_vec_laws: "bit_vec_laws sample_bit_vec"
proof -
  have "length (pack_bits v) = (length v + 7) div 8 \<and>
      take (length v) (concat (map (\<lambda>b. map (bit b) [0..<8]) (pack_bits v))) = v" for v
  proof (induction v rule: pack_bits.induct)
    case (1 v)
    show ?case
    proof (cases "v = []")
      case False
      let ?b = "horner_sum of_bool 2 (take 8 v) :: u8"
      have bits: "take (length v) (map (bit ?b) [0..<8]) = take 8 v"
        by (rule nth_equalityI) (auto simp: bit_horner_sum_bit_word_iff)
      have "Suc ((length v - 8 + 7) div 8) = (length v + 7) div 8"
      proof (cases "length v < 8")
        case True
        with False show ?thesis by (auto simp: div_nat_eqI [of 1] neq_Nil_conv)
      next
        case False
        then obtain k where "length v = k + 8" by (metis add.commute le_Suc_ex not_less)
        then show ?thesis by simp
      qed
      moreover have "length (map (bit ?b) [0..<8]) = 8" by simp
      ultimately show ?thesis
        using 1 [OF False] bits False by (subst (1 2) pack_bits.simps) (simp del: upt.simps upt_rec_numeral map_append)
    qed (simp add: pack_bits.simps)
  qed
  then show ?thesis by (simp add: bit_vec_laws_def sample_bit_vec_def)
qed

definition sample_rect :: "(coord \<times> coord) rect_lib" where
  "sample_rect = \<lparr>re_new = (\<lambda>a b. (b, a)), re_min = fst, re_max = snd\<rparr>"

definition sample_network :: "(ip_addr \<times> u8) network" where
  "sample_network = \<lparr>net_new = (\<lambda>a l. Some (a, l)), net_addr = fst, net_length = snd\<rparr>"

definition sample_json :: "bytes json_lib" where
  "sample_json = \<lparr>js_read = Inr, js_write = Inr\<rparr>"

theorem crate_values_read_back_witness:
  "reads_back (date_time_writable sample_calendar) (date_time_readable sample_calendar) TIMESTAMP 7 \<and>
    reads_back (json_writable sample_json) (json_readable sample_json) JSONB [123, 125] \<and>
    reads_back (bit_vec_writable sample_bit_vec) (bit_vec_readable sample_bit_vec) VARBIT [True, False] \<and>
    reads_back (cidr_writable sample_network) (cidr_readable sample_network) CIDR (V4 0, 8)"
  using crate_values_read_back [of sample_calendar 7 id id 7 7 7 "replicate 16 0" sample_json "[123, 125]" sample_bit_vec
      "[True, False]" sample_rect "((0, 0), (0, 0))" sample_network "(V4 0, 8)"] sample_bit_vec_laws
  by (simp add: exact_micros_def exact_zoned_def exact_days_def exact_time_def sample_calendar_def json_ok_def sample_json_def
      rect_ok_def sample_rect_def network_ok_def sample_network_def netmask_ok_def)

end
