(* ===== verification/Output.thy ===== *)
theory Output
  imports Extra_Values Numeric Sql_Text
begin

text \<open>
  The values of a row as JSON and as text, and the tables of the command line tool (\<open>gaussdb-mcp/src/output.rs\<close>). \<open>None\<close> is a panic.
  What the libraries print is a field of \<open>format_lib\<close>; of the standard library, floating point numbers too.
\<close>

section \<open>Values\<close>

text \<open>A number of \<open>serde_json\<close> is an integer or the bits of a finite floating point number; texts are UTF-8.\<close>

datatype json =
    J_Null
  | J_Bool bool
  | J_Int int
  | J_Float32 u32
  | J_Float64 u64
  | J_String bytes
  | J_Array "json list"
  | J_Object "(bytes \<times> json) list"

record 'd decimal_text =
  dt_is_integer :: "'d \<Rightarrow> bool"
  dt_to_i64 :: "'d \<Rightarrow> int option"
  dt_to_u64 :: "'d \<Rightarrow> int option"
  dt_to_f64 :: "'d \<Rightarrow> u64 option"
  dt_abs :: "'d \<Rightarrow> 'd"
  dt_to_string :: "'d \<Rightarrow> bytes"

record ('d, 'dt, 'da, 't) format_lib =
  fl_decimal :: "'d decimal_lib"
  fl_decimal_text :: "'d decimal_text"
  fl_calendar :: "('dt, 'da, 't) calendar"
  fl_date_time_text :: "'dt \<Rightarrow> bytes"
  fl_date_text :: "'da \<Rightarrow> bytes"
  fl_time_text :: "'t \<Rightarrow> bytes"
  fl_uuid_text :: "bytes \<Rightarrow> bytes"
  fl_json :: "json json_lib"
  fl_json_text :: "json \<Rightarrow> bytes"
  fl_float32_text :: "u32 \<Rightarrow> bytes"
  fl_float64_text :: "u64 \<Rightarrow> bytes"

definition hex_bytes :: "bytes \<Rightarrow> bytes" where
  "hex_bytes bs = concat (map fmt_02x bs)"

definition format_unsupported_type :: "bytes \<Rightarrow> bytes \<Rightarrow> bytes" where
  "format_unsupported_type name bs = ascii ''<unsupported type '' @ name @ ascii ''>: '' @ [0x5C, 120] @ hex_bytes bs"

text \<open>\<open>json!\<close> of a floating point number: \<open>null\<close> when the exponent has all its bits.\<close>

definition json_f32 :: "u32 \<Rightarrow> json" where
  "json_f32 x = (if drop_bit 23 x AND 0xFF = 0xFF then J_Null else J_Float32 x)"

definition json_f64 :: "u64 \<Rightarrow> json" where
  "json_f64 x = (if drop_bit 52 x AND 0x7FF = 0x7FF then J_Null else J_Float64 x)"

definition integer_digit_count :: "'d decimal_lib \<Rightarrow> 'd decimal_text \<Rightarrow> 'd \<Rightarrow> nat" where
  "integer_digit_count dl dt d =
     (if dl_is_zero dl d then 1 else length (takeWhile (\<lambda>c. c \<noteq> of_char CHR ''.'') (dt_to_string dt (dt_abs dt d))))"

definition decimal_to_json :: "'d decimal_lib \<Rightarrow> 'd decimal_text \<Rightarrow> 'd \<Rightarrow> json" where
  "decimal_to_json dl dt d =
     (if dt_is_integer dt d then
        (case dt_to_i64 dt d of
           Some i \<Rightarrow> J_Int i
         | None \<Rightarrow> (case dt_to_u64 dt d of Some u \<Rightarrow> J_Int u | None \<Rightarrow> J_String (dt_to_string dt d)))
      else if integer_digit_count dl dt d + dl_scale dl d > 15 then J_String (dt_to_string dt d)
      else
        (case dt_to_f64 dt d of
           Some f \<Rightarrow> if json_f64 f \<noteq> J_Null then json_f64 f else J_String (dt_to_string dt d)
         | None \<Rightarrow> J_String (dt_to_string dt d)))"

subsection \<open>Intervals\<close>

text \<open>\<open>{:02}\<close> and \<open>{:06}\<close> of a number that is not negative; division that truncates.\<close>

definition pad_number :: "nat \<Rightarrow> int \<Rightarrow> string" where
  "pad_number w n = (let s = show_int n in replicate (w - length s) CHR ''0'' @ s)"

definition quot :: "int \<Rightarrow> int \<Rightarrow> int" where
  "quot a b = sgn a * (\<bar>a\<bar> div b)"

definition remd :: "int \<Rightarrow> int \<Rightarrow> int" where
  "remd a b = sgn a * (\<bar>a\<bar> mod b)"

definition interval_time :: "int \<Rightarrow> string" where
  "interval_time micros =
     (let total_secs = micros div 1000000;
          frac = \<bar>micros mod 1000000\<bar>;
          h = quot total_secs 3600;
          m = quot (remd total_secs 3600) 60;
          s = remd total_secs 60;
          hms = pad_number 2 \<bar>h\<bar> @ '':'' @ pad_number 2 \<bar>m\<bar> @ '':'' @ pad_number 2 \<bar>s\<bar>
      in if frac > 0 then hms @ ''.'' @ pad_number 6 frac else hms)"

definition interval_text :: "int \<Rightarrow> int \<Rightarrow> int \<Rightarrow> string" where
  "interval_text micros days months =
     (let parts =
        (if months \<noteq> 0 then
           (let years = quot months 12; mons = remd months 12
            in (if years \<noteq> 0 then [show_int years @ '' years''] else []) @ (if mons \<noteq> 0 then [show_int mons @ '' mons''] else []))
         else []) @
        (if days \<noteq> 0 then [show_int days @ '' days''] else []) @
        (if micros \<noteq> 0 then [interval_time micros] else [])
      in if parts = [] then ''00:00:00'' else join '' '' parts)"

definition format_interval :: "bytes \<Rightarrow> bytes" where
  "format_interval b =
     ascii (if length b \<noteq> 16 then ''<malformed interval: '' @ show_nat (length b) @ '' bytes>''
       else interval_text (sint (word_be (take 8 b) :: i64)) (sint (word_be (take 4 (drop 8 b)) :: i32))
         (sint (word_be (drop 12 b) :: i32)))"

subsection \<open>The columns of a row\<close>

text \<open>\<open>Row::try_get\<close> at a number, with a conversion that can panic; \<open>RawBytes\<close> accepts every type.\<close>

definition column_get :: "'a readable \<Rightarrow> row \<Rightarrow> nat \<Rightarrow> error fault + 'a" where
  "column_get f r idx =
     (if idx \<ge> row_len r then Inl (Fault (E_Column (index_text (By_Number idx))))
      else
        let ty = col_type (row_columns r ! idx) in
        if \<not> rd_accepts f ty then Inl (Fault (E_FromSql Wrong_Type idx))
        else bind_res (value_at (dr_storage (row_body r)) (row_ranges r) idx) (\<lambda>raw.
          map_err (\<lambda>f. case f of Fault e \<Rightarrow> Fault (E_FromSql e idx) | Panic \<Rightarrow> Panic) (rd_nullable f ty raw)))"

definition raw_bytes :: "bytes option readable" where
  "raw_bytes = \<lparr>rd_accepts = (\<lambda>_. True), rd_from_sql = (\<lambda>_ raw. Inr (Some raw)), rd_null = (\<lambda>_. Inr None)\<rparr>"

text \<open>
  The closure of \<open>typed_or_raw\<close> for a type that is read as an option, and for raw bytes; \<open>Some None\<close> when the conversion failed,
  and then the bytes are shown. Of the two functions of the file one yields JSON and one optional texts; \<open>show\<close> and \<open>null\<close>
  are what they make of a value and of NULL.
\<close>

definition typed :: "'a readable \<Rightarrow> 'v \<Rightarrow> ('a \<Rightarrow> 'v) \<Rightarrow> row \<Rightarrow> nat \<Rightarrow> 'v option option" where
  "typed f null show r i =
     (case column_get (option_readable f) r i of
        Inr (Some x) \<Rightarrow> Some (Some (show x))
      | Inr None \<Rightarrow> Some (Some null)
      | Inl (Fault _) \<Rightarrow> Some None
      | Inl Panic \<Rightarrow> None)"

definition typed_raw :: "(bytes \<Rightarrow> 'v option) \<Rightarrow> 'v \<Rightarrow> row \<Rightarrow> nat \<Rightarrow> 'v option option" where
  "typed_raw show null r i =
     (case column_get raw_bytes r i of
        Inr (Some b) \<Rightarrow> Some (show b)
      | Inr None \<Rightarrow> Some (Some null)
      | Inl (Fault _) \<Rightarrow> Some None
      | Inl Panic \<Rightarrow> None)"

definition raw_fallback :: "(bytes \<Rightarrow> 'v) \<Rightarrow> 'v \<Rightarrow> row \<Rightarrow> nat \<Rightarrow> pg_type \<Rightarrow> 'v option" where
  "raw_fallback text_value null r i ty =
     (case column_get raw_bytes r i of
        Inr (Some b) \<Rightarrow> Some (text_value (format_unsupported_type (type_name ty) b))
      | Inr None \<Rightarrow> Some null
      | Inl (Fault _) \<Rightarrow> Some null
      | Inl Panic \<Rightarrow> None)"

definition typed_or_raw :: "'v option option \<Rightarrow> 'v option \<Rightarrow> 'v option" where
  "typed_or_raw extracted fallback = (case extracted of Some (Some v) \<Rightarrow> Some v | Some None \<Rightarrow> fallback | None \<Rightarrow> None)"

definition mac_text :: "nat \<Rightarrow> bytes \<Rightarrow> bytes option" where
  "mac_text n b = (if length b = n then Some (concat (map (\<lambda>i. (if i = 0 then [] else ascii '':'') @ fmt_02x (b ! i)) [0..<n])) else None)"

definition ip_text :: "Sql_Scalars.ip_addr \<Rightarrow> bytes" where
  "ip_text ip =
     (case ip of
        Sql_Scalars.V4 a \<Rightarrow> ip_to_string (Net_Addr.V4 (be_word a))
      | Sql_Scalars.V6 a \<Rightarrow> ip_to_string (Net_Addr.V6 (map (\<lambda>i. word_be (take 2 (drop (2 * i) (be_word a)))) [0..<8])))"

text \<open>The types with arms of their own.\<close>

definition text_types :: "pg_type set" where
  "text_types = Builtin ` {1043, 25, 1042, 19, 705}"

definition oid_types :: "pg_type set" where
  "oid_types = Builtin ` {26, 24, 2202, 2203, 2204, 2205, 2206, 4089, 4191, 28, 29}"

definition format_value_with_type :: "('d, 'dt, 'da, 't) format_lib \<Rightarrow> row \<Rightarrow> nat \<Rightarrow> pg_type \<Rightarrow> json option" where
  "format_value_with_type lib r i ty =
     (let raw = raw_fallback J_String J_Null r i ty;
          via = (\<lambda>x. typed_or_raw x raw) in
      if ty \<in> text_types then via (typed str_readable J_Null J_String r i)
      else if ty = INT2 then via (typed i16_readable J_Null (\<lambda>x. J_Int (sint x)) r i)
      else if ty = INT4 then via (typed i32_readable J_Null (\<lambda>x. J_Int (sint x)) r i)
      else if ty \<in> oid_types then via (typed u32_readable J_Null (\<lambda>x. J_Int (uint x)) r i)
      else if ty = INT8 then via (typed i64_readable J_Null (\<lambda>x. J_Int (sint x)) r i)
      else if ty = FLOAT4 then via (typed f32_readable J_Null json_f32 r i)
      else if ty = FLOAT8 then via (typed f64_readable J_Null json_f64 r i)
      else if ty = NUMERIC_TYPE then
        via (typed (decimal_readable (fl_decimal lib)) J_Null (decimal_to_json (fl_decimal lib) (fl_decimal_text lib)) r i)
      else if ty = BOOL then via (typed bool_readable J_Null J_Bool r i)
      else if ty = BYTEA then via (typed bytes_readable J_Null (\<lambda>b. J_String ([0x5C, 120] @ hex_bytes b)) r i)
      else if ty = UUID then via (typed uuid_readable J_Null (\<lambda>u. J_String (fl_uuid_text lib u)) r i)
      else if ty = JSON \<or> ty = JSONB then via (typed (json_readable (fl_json lib)) J_Null (\<lambda>v. v) r i)
      else if ty = TIMESTAMP \<or> ty = TIMESTAMPTZ then
        via (typed (date_time_readable (fl_calendar lib)) J_Null (\<lambda>v. J_String (fl_date_time_text lib v)) r i)
      else if ty = DATE then via (typed (naive_date_readable (fl_calendar lib)) J_Null (\<lambda>v. J_String (fl_date_text lib v)) r i)
      else if ty = TIME \<or> ty = Builtin 1266 then
        via (typed (naive_time_readable (fl_calendar lib)) J_Null (\<lambda>v. J_String (fl_time_text lib v)) r i)
      else if ty = INET \<or> ty = CIDR then via (typed ip_readable J_Null (\<lambda>ip. J_String (ip_text ip)) r i)
      else if ty = MACADDR then via (typed_raw (\<lambda>b. map_option J_String (mac_text 6 b)) J_Null r i)
      else if ty = Builtin 774 then via (typed_raw (\<lambda>b. map_option J_String (mac_text 8 b)) J_Null r i)
      else if ty = Builtin 1186 then via (typed_raw (\<lambda>b. Some (J_String (format_interval b))) J_Null r i)
      else raw)"

definition format_row_value :: "('d, 'dt, 'da, 't) format_lib \<Rightarrow> row \<Rightarrow> nat \<Rightarrow> json option" where
  "format_row_value lib r i =
     (if i \<ge> row_len r then None else format_value_with_type lib r i (col_type (row_columns r ! i)))"

definition format_field_string :: "('d, 'dt, 'da, 't) format_lib \<Rightarrow> row \<Rightarrow> nat \<Rightarrow> pg_type \<Rightarrow> bytes option option" where
  "format_field_string lib r i ty =
     (let raw = raw_fallback Some None r i ty;
          via = (\<lambda>x. typed_or_raw x raw) in
      if ty \<in> text_types then via (typed str_readable None Some r i)
      else if ty = INT2 then via (typed i16_readable None (\<lambda>x. Some (ascii (show_int (sint x)))) r i)
      else if ty = INT4 then via (typed i32_readable None (\<lambda>x. Some (ascii (show_int (sint x)))) r i)
      else if ty \<in> oid_types then via (typed u32_readable None (\<lambda>x. Some (ascii (show_int (uint x)))) r i)
      else if ty = INT8 then via (typed i64_readable None (\<lambda>x. Some (ascii (show_int (sint x)))) r i)
      else if ty = FLOAT4 then via (typed f32_readable None (\<lambda>x. Some (fl_float32_text lib x)) r i)
      else if ty = FLOAT8 then via (typed f64_readable None (\<lambda>x. Some (fl_float64_text lib x)) r i)
      else if ty = NUMERIC_TYPE then
        via (typed (decimal_readable (fl_decimal lib)) None (\<lambda>d. Some (dt_to_string (fl_decimal_text lib) d)) r i)
      else if ty = BOOL then via (typed bool_readable None (\<lambda>b. Some (ascii (if b then ''true'' else ''false''))) r i)
      else if ty = BYTEA then via (typed bytes_readable None (\<lambda>b. Some ([0x5C, 120] @ hex_bytes b)) r i)
      else if ty = UUID then via (typed uuid_readable None (\<lambda>u. Some (fl_uuid_text lib u)) r i)
      else if ty = JSON \<or> ty = JSONB then via (typed (json_readable (fl_json lib)) None (\<lambda>v. Some (fl_json_text lib v)) r i)
      else if ty = TIMESTAMP \<or> ty = TIMESTAMPTZ then
        via (typed (date_time_readable (fl_calendar lib)) None (\<lambda>v. Some (fl_date_time_text lib v)) r i)
      else if ty = DATE then via (typed (naive_date_readable (fl_calendar lib)) None (\<lambda>v. Some (fl_date_text lib v)) r i)
      else if ty = TIME \<or> ty = Builtin 1266 then
        via (typed (naive_time_readable (fl_calendar lib)) None (\<lambda>v. Some (fl_time_text lib v)) r i)
      else if ty = INET \<or> ty = CIDR then via (typed ip_readable None (\<lambda>ip. Some (ip_text ip)) r i)
      else if ty = MACADDR then via (typed_raw (\<lambda>b. map_option Some (mac_text 6 b)) None r i)
      else if ty = Builtin 774 then via (typed_raw (\<lambda>b. map_option Some (mac_text 8 b)) None r i)
      else if ty = Builtin 1186 then via (typed_raw (\<lambda>b. Some (Some (format_interval b))) None r i)
      else raw)"

section \<open>Tables\<close>

definition value_to_string :: "('d, 'dt, 'da, 't) format_lib \<Rightarrow> json \<Rightarrow> bytes" where
  "value_to_string lib v = (case v of J_Null \<Rightarrow> ascii ''NULL'' | J_String s \<Rightarrow> s | v \<Rightarrow> fl_json_text lib v)"

text \<open>A table goes by the characters of its cells: \<open>{:width$}\<close> fills a cell with spaces; a cell without a column is a panic.\<close>

definition pad_cell :: "nat \<Rightarrow> rstr \<Rightarrow> rstr" where
  "pad_cell w s = s @ replicate (w - length s) 32"

fun widen :: "nat list \<Rightarrow> rstr list \<Rightarrow> nat list" where
  "widen (w # ws) (c # cs) = max w (length c) # widen ws cs"
| "widen ws cs = ws"

definition table_widths :: "rstr list \<Rightarrow> rstr list list \<Rightarrow> nat list" where
  "table_widths columns rows = foldl widen (map length columns) rows"

definition pad_row :: "nat list \<Rightarrow> rstr list \<Rightarrow> rstr list option" where
  "pad_row ws cells = (if length cells \<le> length ws then Some (map2 pad_cell ws cells) else None)"

fun all_some :: "'a option list \<Rightarrow> 'a list option" where
  "all_some [] = Some []"
| "all_some (None # xs) = None"
| "all_some (Some x # xs) = map_option ((#) x) (all_some xs)"

definition end_lines :: "rstr list \<Rightarrow> rstr" where
  "end_lines ls = concat (map (\<lambda>l. l @ [10]) ls)"

definition format_table :: "rstr list \<Rightarrow> rstr list list \<Rightarrow> rstr option" where
  "format_table columns rows =
     (if columns = [] then Some []
      else
        let ws = table_widths columns rows;
            sep = join_rstr (chars ''-+-'') (map (\<lambda>w. replicate w 45) ws);
            header = join_rstr (chars '' | '') (map2 pad_cell ws columns) in
        map_option (\<lambda>ls. end_lines (header # sep # map (join_rstr (chars '' | '')) ls)) (all_some (map (pad_row ws) rows)))"

text \<open>The boxed table; its lines are drawn with characters from U+2500 on.\<close>

definition boxed_row :: "rstr list \<Rightarrow> rstr" where
  "boxed_row cells = [0x2502, 32] @ join_rstr [32, 0x2502, 32] cells @ [32, 0x2502]"

definition boxed_border :: "rchar \<Rightarrow> rchar \<Rightarrow> rchar \<Rightarrow> nat list \<Rightarrow> rstr" where
  "boxed_border left middle right ws = [left] @ join_rstr [middle] (map (\<lambda>w. replicate (w + 2) 0x2500) ws) @ [right]"

definition format_table_boxed :: "rstr list \<Rightarrow> rstr list list \<Rightarrow> rstr option" where
  "format_table_boxed columns rows =
     (if columns = [] then Some []
      else
        let ws = table_widths columns rows in
        map_option (\<lambda>ls. end_lines ([boxed_border 0x250C 0x252C 0x2510 ws, boxed_row (map2 pad_cell ws columns),
            boxed_border 0x251C 0x253C 0x2524 ws] @ map boxed_row ls @ [boxed_border 0x2514 0x2534 0x2518 ws]))
          (all_some (map (pad_row ws) rows)))"

end
