(* ===== verification/Output_Laws.thy ===== *)
theory Output_Laws
  imports Output Extra_Value_Laws Numeric_Laws
begin

text \<open>
  What the tool shows of a row: NULL and only NULL as null, up to the numbers that JSON does not have; the types whose values are
  never converted; intervals; and the layout of a table.
\<close>

section \<open>Values that are shown\<close>

definition holds_value :: "row \<Rightarrow> nat \<Rightarrow> bytes option \<Rightarrow> bool" where
  "holds_value r i v \<longleftrightarrow> i < row_len r \<and> value_at (dr_storage (row_body r)) (row_ranges r) i = Inr v"

lemma column_get_value:
  assumes "holds_value r i v"
  shows "column_get f r i = (if rd_accepts f (col_type (row_columns r ! i))
     then map_err (\<lambda>f. case f of Fault e \<Rightarrow> Fault (E_FromSql e i) | Panic \<Rightarrow> Panic) (rd_nullable f (col_type (row_columns r ! i)) v)
     else Inl (Fault (E_FromSql Wrong_Type i)))"
  using assms by (simp add: column_get_def holds_value_def)

lemma raw_value:
  "holds_value r i v \<Longrightarrow> raw_fallback t null r i ty =
     Some (case v of Some b \<Rightarrow> t (format_unsupported_type (type_name ty) b) | None \<Rightarrow> null)"
  by (cases v) (simp_all add: raw_fallback_def column_get_value raw_bytes_def rd_nullable_def)

lemma typed_null:
  "holds_value r i None \<Longrightarrow> typed_or_raw (typed f null show r i) (Some null) = Some null"
  by (simp add: typed_or_raw_def typed_def column_get_value option_readable_def rd_nullable_def)

lemma typed_raw_null:
  "holds_value r i None \<Longrightarrow> typed_or_raw (typed_raw show null r i) (Some null) = Some null"
  by (simp add: typed_or_raw_def typed_raw_def column_get_value raw_bytes_def rd_nullable_def)

lemma typed_shown:
  assumes "holds_value r i (Some b)" "\<And>x. show x \<noteq> null" "\<And>x. t x \<noteq> null"
  shows "typed_or_raw (typed f null show r i) (raw_fallback t null r i ty) \<noteq> Some null"
proof -
  let ?r = "rd_from_sql f (col_type (row_columns r ! i)) b"
  have "column_get (option_readable f) r i =
      (if rd_accepts f (col_type (row_columns r ! i))
       then map_err (\<lambda>f. case f of Fault e \<Rightarrow> Fault (E_FromSql e i) | Panic \<Rightarrow> Panic) (bind_res ?r (\<lambda>x. Inr (Some x)))
       else Inl (Fault (E_FromSql Wrong_Type i)))"
    by (simp add: column_get_value [OF assms(1)] option_readable_def rd_nullable_def)
  moreover have "raw_fallback t null r i ty \<noteq> Some null" using assms(3) by (simp add: raw_value [OF assms(1)])
  moreover have "(\<exists>x. ?r = Inr x) \<or> (\<exists>e. ?r = Inl (Fault e)) \<or> ?r = Inl Panic"
    by (cases ?r) (auto intro: fault.exhaust)
  ultimately show ?thesis
    using assms(2) by (auto simp: typed_or_raw_def typed_def)
qed

lemma typed_raw_shown:
  assumes "holds_value r i (Some b)" "\<And>x y. show x = Some y \<Longrightarrow> y \<noteq> null" "\<And>x. t x \<noteq> null"
  shows "typed_or_raw (typed_raw show null r i) (raw_fallback t null r i ty) \<noteq> Some null"
proof -
  have "raw_fallback t null r i ty \<noteq> Some null" using assms(3) by (simp add: raw_value [OF assms(1)])
  then show ?thesis
    using assms(2) by (cases "show b")
      (auto simp: typed_or_raw_def typed_raw_def column_get_value [OF assms(1)] raw_bytes_def rd_nullable_def)
qed

lemma decimal_not_null: "decimal_to_json dl dt d \<noteq> J_Null"
  by (auto simp: decimal_to_json_def split: option.splits)

text \<open>
  C27: A NULL is shown as null, whatever the type of its column; and a value that is not NULL is never shown as null, except for the
  floating point numbers, of which those that are not finite are, and for JSON, which has a null of its own.
\<close>

theorem null_only_for_null:
  assumes "holds_value r i v" "format_value_with_type lib r i ty = Some shown"
  shows "(v = None \<longrightarrow> shown = J_Null) \<and> (shown = J_Null \<longrightarrow> v = None \<or> ty \<in> {FLOAT4, FLOAT8, JSON, JSONB})"
proof (cases v)
  case None
  with assms(1) have null: "holds_value r i None" by simp
  have "format_value_with_type lib r i ty = Some J_Null"
    by (simp add: format_value_with_type_def Let_def typed_null [OF null] typed_raw_null [OF null] raw_value [OF null])
  with assms(2) None show ?thesis by simp
next
  case (Some b)
  with assms(1) have v: "holds_value r i (Some b)" by simp
  have raw: "typed_or_raw (typed_raw (\<lambda>b. map_option J_String (mac_text n b)) J_Null r i) (raw_fallback J_String J_Null r i t) \<noteq>
      Some J_Null"
    "typed_or_raw (typed_raw (\<lambda>b. Some (J_String (format_interval b))) J_Null r i) (raw_fallback J_String J_Null r i t) \<noteq>
      Some J_Null" "raw_fallback J_String J_Null r i t \<noteq> Some J_Null"
    for n t
    by (rule typed_raw_shown [OF v]; auto)+ (simp add: raw_value [OF v])
  have "format_value_with_type lib r i ty \<noteq> Some J_Null" if "ty \<notin> {FLOAT4, FLOAT8, JSON, JSONB}"
    using that by (simp add: format_value_with_type_def Let_def typed_shown [OF v] decimal_not_null raw)
  with assms(2) Some show ?thesis by auto
qed

text \<open>A library to print with, and a row of one column.\<close>

definition sample_format :: "(int \<times> nat, int, int, int) format_lib" where
  "sample_format =
     \<lparr>fl_decimal = sample_decimal,
      fl_decimal_text = \<lparr>dt_is_integer = (\<lambda>d. snd d = 0), dt_to_i64 = (\<lambda>d. Some (fst d)), dt_to_u64 = (\<lambda>d. None),
        dt_to_f64 = (\<lambda>d. None), dt_abs = (\<lambda>d. (\<bar>fst d\<bar>, snd d)), dt_to_string = (\<lambda>d. ascii (show_int (fst d)))\<rparr>,
      fl_calendar = sample_calendar, fl_date_time_text = (\<lambda>t. ascii (show_int t)), fl_date_text = (\<lambda>t. ascii (show_int t)),
      fl_time_text = (\<lambda>t. ascii (show_int t)), fl_uuid_text = hex_bytes,
      fl_json = \<lparr>js_read = (\<lambda>b. Inr (J_String b)), js_write = (\<lambda>_. Inr [])\<rparr>, fl_json_text = (\<lambda>_. []),
      fl_float32_text = be_word, fl_float64_text = be_word\<rparr>"

definition sample_cell :: "pg_type \<Rightarrow> bytes option \<Rightarrow> row" where
  "sample_cell ty raw =
     \<lparr>row_statement = \<lparr>st_name = [], st_params = [], st_columns = [sample_column ''c'' ty]\<rparr>,
      row_body = \<lparr>dr_storage = (case raw of Some b \<Rightarrow> b | None \<Rightarrow> []), dr_len = 1\<rparr>,
      row_ranges = [map_option (\<lambda>b. (0, length b)) raw]\<rparr>"

lemma sample_cell_holds:
  "holds_value (sample_cell ty raw) 0 raw" "col_type (row_columns (sample_cell ty raw) ! 0) = ty"
  by (cases raw; simp add: holds_value_def sample_cell_def value_at_def row_len_def row_columns_def sample_column_def)+

theorem null_only_for_null_witness:
  "\<exists>shown. format_value_with_type sample_format (sample_cell BOOL None) 0 BOOL = Some shown \<and> shown = J_Null"
proof -
  have "format_value_with_type sample_format (sample_cell BOOL None) 0 BOOL = Some J_Null"
    by (simp add: format_value_with_type_def Let_def text_types_def oid_types_def image_iff raw_value [OF sample_cell_holds(1)]
        typed_null [OF sample_cell_holds(1)])
  then show ?thesis using null_only_for_null [OF sample_cell_holds(1)] by blast
qed

text \<open>A number that is not finite is shown as null.\<close>

lemma nan_is_null: "json_f64 0x7FF8000000000000 = J_Null" "json_f32 0x7FC00000 = J_Null"
  by (simp_all add: json_f64_def json_f32_def drop_bit_eq_div)

section \<open>Types that are never converted\<close>

lemma typed_refused:
  assumes "holds_value r i (Some b)" "\<not> rd_accepts f (col_type (row_columns r ! i))"
  shows "typed_or_raw (typed f null shown r i) (raw_fallback t null r i ty) = Some (t (format_unsupported_type (type_name ty) b))"
  using assms(2) by (simp add: typed_or_raw_def typed_def column_get_value [OF assms(1)] raw_value [OF assms(1)] option_readable_def)

lemma zones_refused:
  "\<not> rd_accepts (date_time_readable c) TIMESTAMPTZ" "\<not> rd_accepts (naive_time_readable c) (Builtin 1266)"
  "\<not> rd_accepts ip_readable CIDR"
  by (simp_all add: date_time_readable_def naive_time_readable_def ip_readable_def)

text \<open>
  The arms for timestamps with a time zone, times with a time zone and networks never convert a value: their conversions accept
  only the types without a zone, and addresses, so that every such value is shown as an unsupported type with its bytes.
\<close>

lemma zoned_types_unsupported:
  assumes "holds_value r i (Some b)" "col_type (row_columns r ! i) = ty" "ty \<in> {TIMESTAMPTZ, Builtin 1266, CIDR}"
  shows "format_value_with_type lib r i ty = Some (J_String (format_unsupported_type (type_name ty) b)) \<and>
    format_field_string lib r i ty = Some (Some (format_unsupported_type (type_name ty) b))"
proof -
  note refused = typed_refused [OF assms(1), unfolded assms(2)]
  from assms(3) show ?thesis
    by (elim insertE emptyE)
      (simp_all add: format_value_with_type_def format_field_string_def text_types_def oid_types_def image_iff refused zones_refused)
qed

theorem zoned_types_unsupported_witness:
  "format_value_with_type sample_format (sample_cell TIMESTAMPTZ (Some [0])) 0 TIMESTAMPTZ =
    Some (J_String (format_unsupported_type (type_name TIMESTAMPTZ) [0]))"
  using zoned_types_unsupported [OF sample_cell_holds, where lib = sample_format] by simp

section \<open>Intervals\<close>

lemma quot_nonneg: "0 \<le> a \<Longrightarrow> 0 < b \<Longrightarrow> quot a b = a div b" "0 \<le> a \<Longrightarrow> 0 < b \<Longrightarrow> remd a b = a mod b"
  by (auto simp: quot_def remd_def sgn_if)

lemma clock:
  fixes t :: int
  assumes "0 \<le> t"
  shows "t = (t div 3600 * 60 + t mod 3600 div 60) * 60 + t mod 60" "0 \<le> t div 3600" "0 \<le> t mod 3600 div 60"
    "t mod 3600 div 60 < 60" "0 \<le> t mod 60" "t mod 60 < 60"
proof -
  have "t mod (60 * 60) = 60 * (t div 60 mod 60) + t mod 60" by (rule zmod_zmult2_eq) simp
  then have m: "t mod 3600 div 60 = t div 60 mod 60" by simp
  have "t div (60 * 60) = t div 60 div 60" by (rule zdiv_zmult2_eq) simp
  then have d: "t div 3600 = t div 60 div 60" by simp
  show "t = (t div 3600 * 60 + t mod 3600 div 60) * 60 + t mod 60" by (simp only: m d div_mult_mod_eq)
  show "0 \<le> t div 3600" using assms by (simp add: pos_imp_zdiv_nonneg_iff)
  show "0 \<le> t mod 3600 div 60" "t mod 3600 div 60 < 60" "0 \<le> t mod 60" "t mod 60 < 60" by (simp_all add: m)
qed

text \<open>
  The time of an interval that is not negative is shown as hours, minutes, seconds and microseconds that add up to it. The time of
  a negative interval of whole seconds is shown as that of the positive one: the sign is lost.
\<close>

lemma interval_sign_lost:
  assumes "0 \<le> micros"
  shows "(\<exists>h m s f. interval_time micros =
      pad_number 2 h @ '':'' @ pad_number 2 m @ '':'' @ pad_number 2 s @ (if f > 0 then ''.'' @ pad_number 6 f else []) \<and>
      micros = ((h * 60 + m) * 60 + s) * 1000000 + f \<and> 0 \<le> h \<and> 0 \<le> m \<and> m < 60 \<and> 0 \<le> s \<and> s < 60 \<and> 0 \<le> f \<and> f < 1000000) \<and>
    (micros mod 1000000 = 0 \<longrightarrow> interval_time (- micros) = interval_time micros)"
proof
  let ?t = "micros div 1000000" and ?f = "micros mod 1000000"
  have t: "0 \<le> ?t" using assms by simp
  have "interval_time micros = pad_number 2 (?t div 3600) @ '':'' @ pad_number 2 (?t mod 3600 div 60) @ '':'' @
      pad_number 2 (?t mod 60) @ (if ?f > 0 then ''.'' @ pad_number 6 ?f else [])"
    using t by (simp add: interval_time_def Let_def quot_nonneg)
  moreover have "micros = ((?t div 3600 * 60 + ?t mod 3600 div 60) * 60 + ?t mod 60) * 1000000 + ?f"
    by (simp only: clock(1) [OF t, symmetric] div_mult_mod_eq)
  moreover note clock(2-) [OF t]
  moreover have "0 \<le> ?f" "?f < 1000000" by simp_all
  ultimately show "\<exists>h m s f. interval_time micros =
      pad_number 2 h @ '':'' @ pad_number 2 m @ '':'' @ pad_number 2 s @ (if f > 0 then ''.'' @ pad_number 6 f else []) \<and>
      micros = ((h * 60 + m) * 60 + s) * 1000000 + f \<and> 0 \<le> h \<and> 0 \<le> m \<and> m < 60 \<and> 0 \<le> s \<and> s < 60 \<and> 0 \<le> f \<and> f < 1000000"
    by blast
next
  have abs: "\<bar>quot (- a) b\<bar> = \<bar>quot a b\<bar>" "remd (- a) b = - remd a b" "\<bar>remd (- a) b\<bar> = \<bar>remd a b\<bar>" for a b
    by (simp_all add: quot_def remd_def abs_mult)
  show "micros mod 1000000 = 0 \<longrightarrow> interval_time (- micros) = interval_time micros"
  proof
    assume whole: "micros mod 1000000 = 0"
    then have "(- micros) div 1000000 = - (micros div 1000000)" "(- micros) mod 1000000 = 0"
      by (auto simp: zdiv_zminus1_eq_if zmod_zminus1_eq_if)
    with whole show "interval_time (- micros) = interval_time micros"
      by (simp add: interval_time_def Let_def abs)
  qed
qed

theorem interval_sign_lost_witness: "interval_time (- 3600000000) = interval_time 3600000000"
  using interval_sign_lost [of 3600000000] by simp

section \<open>Tables\<close>

lemma length_widen [simp]: "length (widen ws cs) = length ws"
  by (induction ws cs rule: widen.induct) simp_all

lemma widen_le: "i < length ws \<Longrightarrow> ws ! i \<le> widen ws cs ! i"
proof (induction ws cs arbitrary: i rule: widen.induct)
  case (1 w ws c cs)
  then show ?case by (cases i) simp_all
qed simp_all

lemma widen_cell: "i < length ws \<Longrightarrow> i < length cs \<Longrightarrow> length (cs ! i) \<le> widen ws cs ! i"
proof (induction ws cs arbitrary: i rule: widen.induct)
  case (1 w ws c cs)
  then show ?case by (cases i) simp_all
qed simp_all

lemma foldl_widen:
  "length (foldl widen ws rows) = length ws \<and> (\<forall>i < length ws. ws ! i \<le> foldl widen ws rows ! i) \<and>
   (\<forall>row \<in> set rows. \<forall>i < length ws. i < length row \<longrightarrow> length (row ! i) \<le> foldl widen ws rows ! i)"
proof (induction rows arbitrary: ws)
  case (Cons row rows)
  from Cons.IH [of "widen ws row"] show ?case
    by (auto intro: order_trans [OF widen_le] order_trans [OF widen_cell])
qed simp

definition offset :: "nat \<Rightarrow> nat list \<Rightarrow> nat \<Rightarrow> nat" where
  "offset gap ws j = (\<Sum>w \<leftarrow> take j ws. w + gap)"

lemma join_cells:
  assumes "list_all2 (\<lambda>w c. length c = w) ws cs" "j < length ws"
  shows "take (ws ! j) (drop (offset (length sep) ws j) (join_rstr sep cs)) = cs ! j"
  using assms
proof (induction ws cs arbitrary: j rule: list_all2_induct)
  case (Cons w ws c cs)
  show ?case
  proof (cases j)
    case 0
    with Cons.hyps(1) show ?thesis by (cases cs) (simp_all add: offset_def)
  next
    case (Suc k)
    with Cons.prems Cons.hyps(2) obtain d ds where cs: "cs = d # ds" by (cases cs) auto
    have "offset (length sep) (w # ws) j = length (c @ sep) + offset (length sep) ws k"
      using Cons.hyps(1) by (simp add: offset_def Suc)
    moreover have "join_rstr sep (c # cs) = (c @ sep) @ join_rstr sep cs" by (simp add: cs)
    ultimately have "drop (offset (length sep) (w # ws) j) (join_rstr sep (c # cs)) = drop (offset (length sep) ws k) (join_rstr sep cs)"
      by (simp only: drop_append) simp
    with Cons.IH [of k] Cons.prems Suc show ?thesis by simp
  qed
qed simp

lemma length_join:
  "list_all2 (\<lambda>w c. length c = w) ws cs \<Longrightarrow> length (join_rstr sep cs) = sum_list ws + (length ws - 1) * length sep"
proof (induction ws cs rule: list_all2_induct)
  case (Cons w ws c cs)
  then show ?case by (cases cs; cases ws) (simp_all add: algebra_simps)
qed simp

definition fits_row :: "nat list \<Rightarrow> rstr list \<Rightarrow> bool" where
  "fits_row ws cells \<longleftrightarrow> length cells = length ws \<and> (\<forall>j < length ws. length (cells ! j) \<le> ws ! j)"

lemma pad_widths: "fits_row ws cells \<Longrightarrow> list_all2 (\<lambda>w c. length c = w) ws (map2 pad_cell ws cells)"
  by (auto simp: fits_row_def list_all2_conv_all_nth pad_cell_def)

definition table_line :: "nat list \<Rightarrow> rstr list \<Rightarrow> rstr" where
  "table_line ws cells = join_rstr (chars '' | '') (map2 pad_cell ws cells)"

lemma line_cells:
  assumes "fits_row ws cells" "j < length ws"
  shows "take (ws ! j) (drop (offset 3 ws j) (table_line ws cells)) = pad_cell (ws ! j) (cells ! j)"
    "length (table_line ws cells) = sum_list ws + (length ws - 1) * 3"
proof -
  have "length (chars '' | '') = 3" by (simp add: chars_def)
  then show "take (ws ! j) (drop (offset 3 ws j) (table_line ws cells)) = pad_cell (ws ! j) (cells ! j)"
    "length (table_line ws cells) = sum_list ws + (length ws - 1) * 3"
    using join_cells [OF pad_widths [OF assms(1)] assms(2), of "chars '' | ''"] length_join [OF pad_widths [OF assms(1)], of "chars '' | ''"]
      assms by (simp_all add: table_line_def fits_row_def)
qed

lemma all_some_map: "(\<And>x. x \<in> set xs \<Longrightarrow> f x = Some (g x)) \<Longrightarrow> all_some (map f xs) = Some (map g xs)"
  by (induction xs) simp_all

text \<open>
  C26: A table of rows that have a cell for every column has a line for the header, a line below it and a line for every row, all as long,
  and the cell of a column stands at the same place in each of them, whole and filled with spaces.
\<close>

theorem table_aligned:
  assumes "columns \<noteq> []" "list_all (\<lambda>row. length row = length columns) rows"
  shows "\<exists>ws sep. length ws = length columns \<and>
    format_table columns rows = Some (end_lines (table_line ws columns # sep # map (table_line ws) rows)) \<and>
    length sep = sum_list ws + (length ws - 1) * 3 \<and>
    list_all (\<lambda>cells. length (table_line ws cells) = sum_list ws + (length ws - 1) * 3 \<and>
      list_all (\<lambda>j. take (ws ! j) (drop (offset 3 ws j) (table_line ws cells)) = cells ! j @ replicate (ws ! j - length (cells ! j)) 32)
        [0..<length columns]) (columns # rows)"
proof -
  let ?ws = "table_widths columns rows"
  let ?sep = "join_rstr (chars ''-+-'') (map (\<lambda>w. replicate w 45) ?ws)"
  have ws: "length ?ws = length columns" using foldl_widen [of "map length columns" rows] by (simp add: table_widths_def)
  have fits: "fits_row ?ws cells" if "cells \<in> set (columns # rows)" for cells
    using that foldl_widen [of "map length columns" rows] assms(2)
    by (auto simp: fits_row_def table_widths_def list_all_iff)
  have "all_some (map (pad_row ?ws) rows) = Some (map (map2 pad_cell ?ws) rows)"
    using assms(2) ws by (intro all_some_map) (simp add: pad_row_def list_all_iff)
  then have "format_table columns rows = Some (end_lines (table_line ?ws columns # ?sep # map (table_line ?ws) rows))"
    using assms(1) by (simp add: format_table_def Let_def table_line_def [abs_def] comp_def)
  moreover have "length ?sep = sum_list ?ws + (length ?ws - 1) * 3"
    by (subst length_join [where ws = ?ws]) (simp_all add: list_all2_conv_all_nth chars_def)
  moreover have "list_all (\<lambda>cells. length (table_line ?ws cells) = sum_list ?ws + (length ?ws - 1) * 3 \<and>
      list_all (\<lambda>j. take (?ws ! j) (drop (offset 3 ?ws j) (table_line ?ws cells)) = cells ! j @ replicate (?ws ! j - length (cells ! j)) 32)
        [0..<length columns]) (columns # rows)"
    using fits line_cells ws assms(1) unfolding list_all_iff pad_cell_def
    by (metis atLeastLessThan_iff length_greater_0_conv set_upt)
  ultimately show ?thesis using ws by blast
qed

theorem table_aligned_witness:
  "\<exists>ls. format_table [chars ''id'', chars ''n''] [[chars ''1'', chars ''abc'']] = Some (end_lines ls) \<and> length ls = 3"
proof -
  from table_aligned [of "[chars ''id'', chars ''n'']" "[[chars ''1'', chars ''abc'']]"]
  obtain ws sep where "format_table [chars ''id'', chars ''n''] [[chars ''1'', chars ''abc'']] =
      Some (end_lines (table_line ws [chars ''id'', chars ''n''] # sep # map (table_line ws) [[chars ''1'', chars ''abc'']]))"
    by auto
  moreover have "length (table_line ws [chars ''id'', chars ''n''] # sep # map (table_line ws) [[chars ''1'', chars ''abc'']]) = 3"
    by simp
  ultimately show ?thesis by blast
qed

text \<open>A row with more cells than the table has columns is a panic.\<close>

lemma wide_row_panics: "format_table [chars ''a''] [[chars ''1'', chars ''2'']] = None"
  by (simp add: format_table_def table_widths_def pad_row_def chars_def)

end
