(* ===== verification/Mcp_Server.thy ===== *)
theory Mcp_Server
  imports Output
begin

text \<open>
  The server of the tool (\<open>gaussdb-mcp/src/server.rs\<close>) with the connecting of \<open>connection.rs\<close> and the errors of \<open>cli.rs\<close>: its
  connections by name, each in a state, the calls that ask for a client, the timeouts of statements and the errors that are reported. A call holds the
  lock on the connections in two sections, with the network in between; each section is a function here. A client \<open>'c\<close>, a
  resolver \<open>'r\<close> and an instant \<open>'i\<close> are what the caller has for them.
\<close>

section \<open>The codes of errors\<close>

text \<open>The table of \<open>sqlstate_to_sqlcode\<close>, by the first character of the state.\<close>

definition sqlcodes_0 :: "(string \<times> int) list" where
  "sqlcodes_0 =
    [(''00000'', 0), (''01000'', 100), (''0100C'', 110), (''01008'', - 12), (''01003'', - 5), (''01007'', 0), (''01006'', 0),
     (''01004'', 0), (''01P01'', 0), (''02000'', 100), (''02001'', 100), (''03000'', 0), (''08000'', - 402),
     (''08003'', - 26), (''08006'', - 402), (''08001'', - 1014), (''08004'', - 1015), (''08007'', - 402),
     (''08P01'', - 402), (''09000'', 0), (''0A000'', - 300), (''0B000'', - 301), (''0F000'', 0), (''0F001'', 0),
     (''0L000'', 0), (''0LP01'', 0), (''0P000'', 0), (''0Z000'', 0), (''0Z002'', 0), (''20000'', - 200), (''21000'', - 812)]"

definition sqlcodes_2 :: "(string \<times> int) list" where
  "sqlcodes_2 =
    [(''22000'', - 302), (''2202E'', - 302), (''22021'', - 302), (''22008'', - 180), (''22012'', - 802), (''22005'', - 303),
     (''2200B'', - 302), (''22022'', - 302), (''22015'', - 302), (''2201E'', - 302), (''22014'', - 302), (''22016'', - 302),
     (''2201F'', - 302), (''2201G'', - 302), (''22018'', - 302), (''22007'', - 181), (''22019'', - 24), (''2200D'', - 302),
     (''22025'', - 24), (''22P06'', - 302), (''22010'', - 302), (''22023'', - 302), (''22013'', - 302), (''2201B'', - 302),
     (''2201W'', - 302), (''2201X'', - 302), (''2202H'', - 302), (''2202G'', - 302), (''22009'', - 302), (''2200C'', - 302),
     (''2200G'', - 302), (''22004'', - 302), (''22002'', - 305), (''22003'', - 304), (''2200H'', - 302), (''22026'', - 302),
     (''22001'', - 302), (''22011'', - 302), (''22027'', - 302), (''22024'', - 302), (''2200F'', - 302), (''22030'', - 302),
     (''22031'', - 302), (''22032'', - 302), (''22033'', - 302), (''22034'', - 302), (''22035'', - 302), (''22036'', - 302),
     (''22037'', - 302), (''22038'', - 302), (''22039'', - 302), (''2203A'', - 302), (''2203B'', - 302), (''2203C'', - 302),
     (''2203D'', - 302), (''2203E'', - 302), (''2203F'', - 302), (''2203G'', - 302), (''22P01'', - 302), (''22P02'', - 302),
     (''22P03'', - 302), (''22P04'', - 302), (''22P05'', - 302), (''2200L'', - 302), (''2200M'', - 302), (''2200N'', - 302),
     (''2200S'', - 302), (''2200T'', - 302), (''23000'', - 407), (''23001'', - 407), (''23502'', - 407), (''23503'', - 530),
     (''23505'', - 803), (''23514'', - 543), (''23P01'', - 540), (''24000'', - 501), (''25000'', - 501), (''25001'', - 502),
     (''25002'', - 503), (''25008'', - 505), (''25003'', - 508), (''25004'', - 509), (''25005'', - 511), (''25006'', - 513),
     (''25007'', - 514), (''25P01'', - 512), (''25P02'', - 514), (''25P03'', - 501), (''26000'', - 504), (''27000'', - 518),
     (''28000'', - 923), (''28P01'', - 923), (''2B000'', - 551), (''2BP01'', - 551), (''2D000'', - 502), (''2F000'', - 444),
     (''2F002'', - 444), (''2F003'', - 444), (''2F004'', - 444), (''2F005'', - 444), (''34000'', - 506), (''38000'', - 390),
     (''38001'', - 390), (''38002'', - 390), (''38003'', - 390), (''38004'', - 390), (''39000'', - 390), (''39001'', - 390),
     (''39004'', - 390), (''39P01'', - 390), (''39P02'', - 390), (''39P03'', - 390), (''3B000'', - 818), (''3B001'', - 818),
     (''3D000'', - 204), (''3F000'', - 204)]"

definition sqlcodes_4 :: "(string \<times> int) list" where
  "sqlcodes_4 =
    [(''40000'', - 501), (''40001'', - 911), (''40002'', - 911), (''40003'', - 501), (''40P01'', - 913), (''42000'', - 199),
     (''42501'', - 199), (''42601'', - 104), (''42602'', - 10), (''42622'', - 108), (''42611'', - 110), (''42701'', - 601),
     (''42702'', - 203), (''42703'', - 206), (''42704'', - 204), (''42710'', - 601), (''42712'', - 601), (''42723'', - 803),
     (''42725'', - 562), (''42803'', - 119), (''42804'', - 120), (''42809'', - 132), (''42830'', - 530), (''42846'', - 132),
     (''42883'', - 130), (''428C9'', - 138), (''42939'', - 324), (''42P01'', - 204), (''42P02'', - 516), (''42P03'', - 335),
     (''42P04'', - 602), (''42P05'', - 335), (''42P06'', - 601), (''42P07'', - 601), (''42P08'', - 516), (''42P09'', - 203),
     (''42P10'', - 108), (''42P11'', - 130), (''42P12'', - 108), (''42P13'', - 130), (''42P14'', - 108), (''42P15'', - 108),
     (''42P16'', - 108), (''42P17'', - 324), (''42P18'', - 108), (''42P19'', - 108), (''42P20'', - 108), (''42P21'', - 108),
     (''42P22'', - 108), (''44000'', - 543), (''45000'', - 552), (''53000'', - 904), (''53100'', - 904),
     (''53200'', - 1205), (''53300'', - 901), (''53400'', - 904), (''54000'', - 901), (''54001'', - 101),
     (''54011'', - 101), (''54023'', - 101), (''55000'', - 551), (''55006'', - 551), (''55P02'', - 551), (''55P03'', - 551),
     (''55P04'', - 551), (''57000'', - 300), (''57014'', - 952), (''57P01'', - 952), (''57P02'', - 952), (''57P03'', - 952),
     (''57P04'', - 952), (''57P05'', - 952), (''58000'', - 402), (''58030'', - 402), (''58P01'', - 24), (''58P02'', - 24),
     (''72000'', - 202), (''F0000'', - 444), (''F0001'', - 444), (''HV000'', - 390), (''HV001'', - 390), (''HV002'', - 390),
     (''HV004'', - 390), (''HV005'', - 390), (''HV006'', - 390), (''HV007'', - 390), (''HV008'', - 390), (''HV009'', - 390),
     (''HV00A'', - 390), (''HV00B'', - 390), (''HV00C'', - 390), (''HV00D'', - 390), (''HV00J'', - 390), (''HV00K'', - 390),
     (''HV00L'', - 390), (''HV00M'', - 390), (''HV00N'', - 390), (''HV00P'', - 390), (''HV00Q'', - 390), (''HV00R'', - 390),
     (''HV010'', - 390), (''HV014'', - 390), (''HV021'', - 390), (''HV024'', - 390), (''HV090'', - 390), (''HV091'', - 390),
     (''P0000'', - 461), (''P0001'', - 461), (''P0002'', - 461), (''P0003'', - 461), (''P0004'', - 461), (''XX000'', - 402),
     (''XX001'', - 402), (''XX002'', - 402)]"

definition sqlstate_to_sqlcode :: "bytes \<Rightarrow> int" where
  "sqlstate_to_sqlcode state =
     (case find (\<lambda>(s, _). ascii s = state) (sqlcodes_0 @ sqlcodes_2 @ sqlcodes_4) of Some (_, c) \<Rightarrow> c | None \<Rightarrow> - 1)"

definition QUERY_CANCELED :: bytes where "QUERY_CANCELED = ascii ''57014''"

text \<open>The texts that are printed by implementations of \<open>Display\<close> and \<open>Debug\<close>.\<close>

record error_texts =
  tx_chain :: "error \<Rightarrow> bytes"
  tx_position :: "error_position \<Rightarrow> bytes"

definition format_sql_error :: "error_texts \<Rightarrow> error \<Rightarrow> bytes" where
  "format_sql_error tx err =
     (case err of
        E_Db e \<Rightarrow>
          ascii ''[SQLSTATE '' @ db_code e @ ascii '' | SQLCODE '' @ ascii (show_int (sqlstate_to_sqlcode (db_code e))) @ ascii ''] '' @
          db_message e @
          (case db_detail e of Some d \<Rightarrow> 10 # ascii ''DETAIL: '' @ d | None \<Rightarrow> []) @
          (if db_code e = QUERY_CANCELED then
             10 # ascii ''HINT: Query exceeded the configured statement_timeout. Pass a larger --statement-timeout or optimize the query.''
           else (case db_hint e of Some h \<Rightarrow> 10 # ascii ''HINT: '' @ h | None \<Rightarrow> []))
      | _ \<Rightarrow> tx_chain tx err)"

text \<open>Errors of the protocol, with their data.\<close>

datatype mcp_error = Internal_Error bytes "(string \<times> json) list" | Invalid_Request bytes "(string \<times> json) list"

definition opt_field :: "string \<Rightarrow> bytes option \<Rightarrow> (string \<times> json) list" where
  "opt_field k v = (case v of Some v \<Rightarrow> [(k, J_String v)] | None \<Rightarrow> [])"

text \<open>\<open>None\<close> is the panic of the preview.\<close>

definition query_error :: "error_texts \<Rightarrow> string \<Rightarrow> bytes \<Rightarrow> error \<Rightarrow> mcp_error option" where
  "query_error tx tool sql err =
     map_option (\<lambda>preview.
       case err of
         E_Db e \<Rightarrow>
           let sqlcode = sqlstate_to_sqlcode (db_code e);
               hint = (if db_code e = QUERY_CANCELED then
                   Some (ascii (''Query exceeded the configured statement_timeout. Options: increase the timeout, add timeout_ms to the '' @
                     ''tool call, or optimize the query.''))
                 else db_hint e) in
           Internal_Error
             (ascii ''[SQLSTATE '' @ db_code e @ ascii '' | SQLCODE '' @ ascii (show_int sqlcode) @ ascii ''] '' @ ascii tool @
              ascii '' failed: '' @ db_message e)
             ([(''sqlstate'', J_String (db_code e)), (''sqlcode'', J_Int sqlcode), (''severity'', J_String (db_severity e)),
               (''message'', J_String (db_message e)), (''sql'', J_String preview)] @
              opt_field ''detail'' (db_detail e) @ opt_field ''hint'' hint @ opt_field ''schema'' (db_schema e) @
              opt_field ''table'' (db_table e) @ opt_field ''column'' (db_column e) @ opt_field ''constraint'' (db_constraint e) @
              opt_field ''position'' (map_option (tx_position tx) (db_position e)))
       | _ \<Rightarrow> Internal_Error (ascii tool @ ascii '' failed: '' @ tx_chain tx err) [(''sql'', J_String preview)])
     (sql_preview sql)"

section \<open>Connecting\<close>

text \<open>What \<open>do_connect\<close> asks of the driver: with a connector that accepts every certificate when the string requires TLS.\<close>

definition tool_plan :: "(bytes \<Rightarrow> bytes) \<Rightarrow> rstr \<Rightarrow> error fault + (config \<times> tls_choice)" where
  "tool_plan pd url =
     bind_res (config_from_str pd (utf8_encode url)) (\<lambda>config.
     Inr (config, if needs_tls url then Native_Tls True True else No_Tls))"

text \<open>
  A session with its state \<open>'d\<close>: \<open>batch_execute\<close>, \<open>simple_query\<close> and \<open>query\<close> of a client. \<open>as_millis() as u64\<close> wraps.
\<close>

record 'd session_ops =
  so_batch :: "rstr \<Rightarrow> 'd \<Rightarrow> (error + unit) \<times> 'd"
  so_simple :: "rstr \<Rightarrow> 'd \<Rightarrow> (error + unit) \<times> 'd"
  so_query :: "rstr \<Rightarrow> 'd \<Rightarrow> (error + row list) \<times> 'd"

definition as_millis :: "duration \<Rightarrow> nat" where
  "as_millis d = unat (du_secs d) * 1000 + unat (du_nanos d) div 1000000"

definition apply_timeout :: "'d session_ops \<Rightarrow> timeout_config option \<Rightarrow> 'd \<Rightarrow> 'd" where
  "apply_timeout ops tc d =
     (case Option.bind tc tc_statement_timeout of
        Some st \<Rightarrow> snd (so_batch ops (chars ''SET statement_timeout = '' @ chars (show_nat (as_millis st mod 2 ^ 64))) d)
      | None \<Rightarrow> d)"

definition query_with_optional_timeout ::
  "'d session_ops \<Rightarrow> rstr \<Rightarrow> nat option \<Rightarrow> 'd \<Rightarrow> (error + row list) \<times> 'd" where
  "query_with_optional_timeout ops sql timeout_ms d =
     (case timeout_ms of
        None \<Rightarrow> so_query ops sql d
      | Some ms \<Rightarrow>
          (case so_simple ops (chars ''SET statement_timeout='' @ chars (show_nat ms)) d of
             (Inl e, d) \<Rightarrow> (Inl e, d)
           | (Inr _, d) \<Rightarrow>
               (case so_query ops sql d of
                  (result, d) \<Rightarrow> (result, snd (so_simple ops (chars ''SET statement_timeout=DEFAULT'') d)))))"

section \<open>The connections of the server\<close>

datatype ('c, 'r, 'i) connection_state =
    Pending_Url 'r
  | Connecting rstr timeout_config
  | Connected 'c rstr timeout_config 'i
  | Unavailable rstr

text \<open>\<open>ms_fired\<close> lists the names whose callbacks have run; \<open>ms_on_connected\<close> are the names that have one.\<close>

record ('c, 'r, 'i) mcp_server =
  ms_connections :: "rstr \<rightharpoonup> ('c, 'r, 'i) connection_state"
  ms_default_name :: rstr
  ms_on_connected :: "rstr set"
  ms_timeout_configs :: "rstr \<rightharpoonup> timeout_config"
  ms_fired :: "rstr list"

definition timeout_of :: "(rstr \<rightharpoonup> timeout_config) \<Rightarrow> rstr \<Rightarrow> timeout_config" where
  "timeout_of tcs name = (case tcs name of Some tc \<Rightarrow> tc | None \<Rightarrow> timeout_default)"

definition new_multi_disconnected ::
  "(rstr \<times> rstr) list \<Rightarrow> rstr \<Rightarrow> (rstr \<rightharpoonup> timeout_config) \<Rightarrow> ('c, 'r, 'i) mcp_server" where
  "new_multi_disconnected entries default_name tcs =
     \<lparr>ms_connections = foldl (\<lambda>m (name, url). m(name \<mapsto> Connecting url (timeout_of tcs name))) Map.empty entries,
      ms_default_name = default_name, ms_on_connected = {}, ms_timeout_configs = tcs, ms_fired = []\<rparr>"

definition new_multi_lazy :: "(rstr \<times> 'r) list \<Rightarrow> rstr \<Rightarrow> (rstr \<rightharpoonup> timeout_config) \<Rightarrow> ('c, 'r, 'i) mcp_server" where
  "new_multi_lazy entries default_name tcs =
     \<lparr>ms_connections = foldl (\<lambda>m (name, resolver). m(name \<mapsto> Pending_Url resolver)) Map.empty entries,
      ms_default_name = default_name, ms_on_connected = {}, ms_timeout_configs = tcs, ms_fired = []\<rparr>"

definition set_on_connected :: "rstr \<Rightarrow> ('c, 'r, 'i) mcp_server \<Rightarrow> ('c, 'r, 'i) mcp_server" where
  "set_on_connected name s = s\<lparr>ms_on_connected := insert name (ms_on_connected s)\<rparr>"

definition set_state :: "rstr \<Rightarrow> ('c, 'r, 'i) connection_state \<Rightarrow> ('c, 'r, 'i) mcp_server \<Rightarrow> ('c, 'r, 'i) mcp_server" where
  "set_state name st s = s\<lparr>ms_connections := (ms_connections s)(name \<mapsto> st)\<rparr>"

definition fire :: "rstr \<Rightarrow> ('c, 'r, 'i) mcp_server \<Rightarrow> ('c, 'r, 'i) mcp_server" where
  "fire name s = (if name \<in> ms_on_connected s then s\<lparr>ms_fired := ms_fired s @ [name]\<rparr> else s)"

definition connection_name :: "rstr option \<Rightarrow> ('c, 'r, 'i) mcp_server \<Rightarrow> rstr" where
  "connection_name name s = (case name of Some n \<Rightarrow> n | None \<Rightarrow> ms_default_name s)"

text \<open>
  The first section of \<open>get_client_for\<close>: a client, or what is to be done without the lock. \<open>closed\<close> and \<open>elapsed\<close> are
  \<open>is_closed\<close> of a client and \<open>elapsed\<close> of an instant at that time.
\<close>

text \<open>The names that are available are left out of the error: they come in the order of a hash map.\<close>

datatype ('c, 'r) begun = Begun_Client 'c | Begun_Connect rstr rstr | Begun_Resolve rstr 'r | Begun_Unknown mcp_error

definition unknown_connection :: "rstr \<Rightarrow> ('c, 'r, 'i) mcp_server \<Rightarrow> mcp_error" where
  "unknown_connection name s =
     Invalid_Request (ascii ''unknown_connection'')
       [(''message'', J_String (ascii (''Connection '' @ [CHR 0x27]) @ utf8_encode name @ ascii ([CHR 0x27] @ '' not found''))),
        (''default_connection'', J_String (utf8_encode (ms_default_name s)))]"

definition resolve_failed :: "rstr \<Rightarrow> bytes \<Rightarrow> mcp_error" where
  "resolve_failed name e =
     Internal_Error
       (ascii (''Failed to resolve database credentials for '' @ [CHR 0x27]) @ utf8_encode name @ ascii ([CHR 0x27] @ '': '') @ e)
       [(''connection_name'', J_String (utf8_encode name)),
        (''hint'', J_String (ascii ''Check your gaussdb configuration and OS keychain access''))]"

definition get_client_begin ::
  "('c \<Rightarrow> bool) \<Rightarrow> ('i \<Rightarrow> duration) \<Rightarrow> rstr option \<Rightarrow> ('c, 'r, 'i) mcp_server \<Rightarrow> ('c, 'r) begun \<times> ('c, 'r, 'i) mcp_server" where
  "get_client_begin closed elapsed connection s =
     (let name = connection_name connection s in
      case ms_connections s name of
        Some (Connected client url tc connected_at) \<Rightarrow>
          if \<not> closed client then
            (case tc_connection_max_lifetime tc of
               Some max_lifetime \<Rightarrow>
                 if elapsed connected_at \<ge> max_lifetime then (Begun_Connect name url, set_state name (Connecting url tc) s)
                 else (Begun_Client client, s)
             | None \<Rightarrow> (Begun_Client client, s))
          else (Begun_Connect name url, set_state name (Connecting url tc) s)
      | Some (Pending_Url resolver) \<Rightarrow> (Begun_Resolve name resolver, s)
      | Some (Connecting url _) \<Rightarrow> (Begun_Connect name url, s)
      | Some (Unavailable url) \<Rightarrow> (Begun_Connect name url, s)
      | None \<Rightarrow> (Begun_Unknown (unknown_connection name s), s))"

text \<open>The configuration that \<open>connect_with_url\<close> connects with, and its second section, with the result of \<open>do_connect\<close>.\<close>

definition connect_timeout_config :: "rstr \<Rightarrow> ('c, 'r, 'i) mcp_server \<Rightarrow> timeout_config" where
  "connect_timeout_config name s = timeout_of (ms_timeout_configs s) name"

definition connection_error :: "rstr \<Rightarrow> bytes \<Rightarrow> mcp_error" where
  "connection_error url chain =
     Internal_Error (ascii ''Database connection failed: '' @ chain)
       [(''target'', J_String (utf8_encode (redact_url url))),
        (''hints'', J_Array (map (\<lambda>h. J_String (ascii h))
          [''Check if the database server is running'', ''Verify host, port, user, and dbname in the connection string'',
           ''Ensure network connectivity and firewall rules allow the connection'',
           ''Check if SSL/TLS is required (sslmode=require)'']))]"

definition connect_finish ::
  "rstr \<Rightarrow> rstr \<Rightarrow> timeout_config \<Rightarrow> 'i \<Rightarrow> bytes + 'c \<Rightarrow> ('c, 'r, 'i) mcp_server \<Rightarrow> (mcp_error + 'c) \<times> ('c, 'r, 'i) mcp_server" where
  "connect_finish name url tc now result s =
     (case result of
        Inr client \<Rightarrow> (Inr client, set_state name (Connected client url tc now) (fire name s))
      | Inl e \<Rightarrow> (Inl (connection_error url e), set_state name (Unavailable url) s))"

text \<open>The probe at the start, in its two sections.\<close>

definition try_connect_begin :: "('c, 'r, 'i) mcp_server \<Rightarrow> (rstr \<times> rstr \<times> timeout_config) option" where
  "try_connect_begin s =
     (case ms_connections s (ms_default_name s) of
        Some (Connecting url tc) \<Rightarrow> Some (ms_default_name s, url, tc)
      | _ \<Rightarrow> None)"

definition try_connect_finish ::
  "rstr \<Rightarrow> rstr \<Rightarrow> timeout_config \<Rightarrow> 'i \<Rightarrow> bytes + 'c \<Rightarrow> ('c, 'r, 'i) mcp_server \<Rightarrow> ('c, 'r, 'i) mcp_server" where
  "try_connect_finish name url tc now result s =
     (case result of
        Inr client \<Rightarrow> set_state name (Connected client url tc now) (fire name s)
      | Inl e \<Rightarrow> set_state name (Unavailable url) s)"

definition downgrade_on_error :: "rstr \<Rightarrow> ('c, 'r, 'i) mcp_server \<Rightarrow> ('c, 'r, 'i) mcp_server" where
  "downgrade_on_error name s =
     (case ms_connections s name of Some (Connected _ url tc _) \<Rightarrow> set_state name (Connecting url tc) s | _ \<Rightarrow> s)"

definition as_db_error :: "error \<Rightarrow> db_error option" where
  "as_db_error err = (case err of E_Db e \<Rightarrow> Some e | _ \<Rightarrow> None)"

definition after_query_error :: "rstr \<Rightarrow> error \<Rightarrow> ('c, 'r, 'i) mcp_server \<Rightarrow> ('c, 'r, 'i) mcp_server" where
  "after_query_error name err s =
     (case as_db_error err of
        Some e \<Rightarrow>
          if db_code e = QUERY_CANCELED then
            if (case ms_timeout_configs s name of Some tc \<Rightarrow> tc_timeout_action tc | None \<Rightarrow> Action_Cancel) = Action_Disconnect
            then downgrade_on_error name s else s
          else s
      | None \<Rightarrow> downgrade_on_error name s)"

definition handle_query_error ::
  "error_texts \<Rightarrow> rstr \<Rightarrow> error \<Rightarrow> string \<Rightarrow> bytes \<Rightarrow> ('c, 'r, 'i) mcp_server \<Rightarrow> mcp_error option \<times> ('c, 'r, 'i) mcp_server" where
  "handle_query_error tx name err tool sql s = (query_error tx tool sql err, after_query_error name err s)"

section \<open>Queries\<close>

definition effective_max_rows :: "nat option \<Rightarrow> nat" where
  "effective_max_rows max_rows = max 1 (min 10000 (case max_rows of Some n \<Rightarrow> n | None \<Rightarrow> 1000))"

text \<open>The rows of a result, as the tool returns them; \<open>None\<close> is a panic of the formatting.\<close>

definition rows_result :: "('d, 'dt, 'da, 't) format_lib \<Rightarrow> nat option \<Rightarrow> row list \<Rightarrow> json option" where
  "rows_result lib max_rows rows =
     (case rows of
        [] \<Rightarrow> Some (J_Object [(ascii ''columns'', J_Array []), (ascii ''rows'', J_Array []), (ascii ''row_count'', J_Int 0)])
      | first # _ \<Rightarrow>
          let limit = effective_max_rows max_rows;
              columns = row_columns first;
              cells = (\<lambda>r. map_option J_Array (all_some (map (\<lambda>i. format_value_with_type lib r i (col_type (columns ! i)))
                [0..<length columns]))) in
          map_option (\<lambda>shown.
            J_Object ([(ascii ''columns'', J_Array (map (\<lambda>c. J_String (col_name c)) columns)), (ascii ''rows'', J_Array shown),
                (ascii ''row_count'', J_Int (int (length rows)))] @
              (if length rows > limit then
                 [(ascii ''truncated'', J_Bool True),
                  (ascii ''hint'', J_String (ascii (''Result exceeds max_rows ('' @ show_nat limit @ ''). Use `gaussdb cli --format csv '' @
                    ''> file.csv` for full export.'')))]
               else [])))
            (all_some (map cells (take limit rows))))"

text \<open>\<open>execute_query\<close> once it has its client: \<open>None\<close> is a panic.\<close>

definition execute_query ::
  "error_texts \<Rightarrow> ('n, 'dt, 'da, 't) format_lib \<Rightarrow> 'd session_ops \<Rightarrow> rstr \<Rightarrow> rstr \<Rightarrow> nat option \<Rightarrow> nat option \<Rightarrow>
     ('c, 'r, 'i) mcp_server \<Rightarrow> 'd \<Rightarrow> (mcp_error + json) option \<times> ('c, 'r, 'i) mcp_server \<times> 'd" where
  "execute_query tx lib ops name sql timeout_ms max_rows s d =
     (let trimmed = trim sql in
      if \<not> query_allowed sql then
        (map_option (\<lambda>_. Inl (Invalid_Request (ascii ''invalid_query'')
           [(''message'', J_String (ascii ''Only SELECT and EXPLAIN queries are allowed''))]))
           (rejected_preview (utf8_encode trimmed)), s, d)
      else
        (case query_with_optional_timeout ops trimmed timeout_ms d of
           (Inl e, d) \<Rightarrow>
             (case handle_query_error tx name e ''execute_query'' (utf8_encode trimmed) s of
                (err, s) \<Rightarrow> (map_option Inl err, s, d))
         | (Inr rows, d) \<Rightarrow> (map_option Inr (rows_result lib max_rows rows), s, d)))"

definition list_connections :: "('c, 'r, 'i) mcp_server \<Rightarrow> (rstr \<times> string \<times> bool) set" where
  "list_connections s =
     (\<lambda>name. (name,
        (case ms_connections s name of
           Some (Connected _ _ _ _) \<Rightarrow> ''connected''
         | Some (Connecting _ _) \<Rightarrow> ''connecting''
         | Some (Pending_Url _) \<Rightarrow> ''pending''
         | _ \<Rightarrow> ''unavailable''), name = ms_default_name s)) ` dom (ms_connections s)"

end
