(* ===== verification/Mcp_Laws.thy ===== *)
theory Mcp_Laws
  imports Mcp_Server
begin

text \<open>
  The server of the tool over all its runs: calls are interleaved at the points where they do not hold the lock. A client that is
  handed out is connected to an address of the connection that was asked for; and what becomes of the timeout of a session.
\<close>

section \<open>Runs\<close>

text \<open>What is under way without the lock, and what a step does: a client is handed to a call, or anything else.\<close>

datatype 'r task = Resolving rstr 'r | Opening rstr rstr timeout_config | Probing rstr rstr timeout_config

datatype 'c event = Handed rstr 'c | Silent

type_synonym ('c, 'r, 'i) mcp_run = "('c, 'r, 'i) mcp_server \<times> 'r task list"

text \<open>
  \<open>resolves r url\<close>: a resolver may yield this string; \<open>reaches c url\<close>: a client was connected with this string. A task is taken
  from anywhere in the list.
\<close>

inductive mcp_step ::
  "('r \<Rightarrow> rstr \<Rightarrow> bool) \<Rightarrow> ('c \<Rightarrow> rstr \<Rightarrow> bool) \<Rightarrow> ('c, 'r, 'i) mcp_run \<Rightarrow> 'c event \<Rightarrow> ('c, 'r, 'i) mcp_run \<Rightarrow> bool"
  for resolves reaches where
  step_client: "get_client_begin closed elapsed n s = (Begun_Client c, s') \<Longrightarrow>
    mcp_step resolves reaches (s, ts) (Handed (connection_name n s) c) (s', ts)"
| step_connect: "get_client_begin closed elapsed n s = (Begun_Connect name url, s') \<Longrightarrow>
    mcp_step resolves reaches (s, ts) Silent (s', Opening name url (connect_timeout_config name s') # ts)"
| step_resolve: "get_client_begin closed elapsed n s = (Begun_Resolve name r, s') \<Longrightarrow>
    mcp_step resolves reaches (s, ts) Silent (s', Resolving name r # ts)"
| step_unknown: "get_client_begin closed elapsed n s = (Begun_Unknown e, s') \<Longrightarrow> mcp_step resolves reaches (s, ts) Silent (s', ts)"
| step_resolved: "resolves r url \<Longrightarrow>
    mcp_step resolves reaches (s, a @ Resolving name r # b) Silent (s, a @ Opening name url (connect_timeout_config name s) # b)"
| step_unresolved: "mcp_step resolves reaches (s, a @ Resolving name r # b) Silent (s, a @ b)"
| step_opened: "reaches c url \<Longrightarrow> connect_finish name url tc now (Inr c) s = (Inr c, s') \<Longrightarrow>
    mcp_step resolves reaches (s, a @ Opening name url tc # b) (Handed name c) (s', a @ b)"
| step_failed: "connect_finish name url tc now (Inl e) s = (Inl err, s') \<Longrightarrow>
    mcp_step resolves reaches (s, a @ Opening name url tc # b) Silent (s', a @ b)"
| step_probe: "try_connect_begin s = Some (name, url, tc) \<Longrightarrow> mcp_step resolves reaches (s, ts) Silent (s, Probing name url tc # ts)"
| step_probed: "(\<forall>c. result = Inr c \<longrightarrow> reaches c url) \<Longrightarrow>
    mcp_step resolves reaches (s, a @ Probing name url tc # b) Silent (try_connect_finish name url tc now result s, a @ b)"
| step_error: "mcp_step resolves reaches (s, ts) Silent (after_query_error name err s, ts)"

inductive mcp_reach :: "('r \<Rightarrow> rstr \<Rightarrow> bool) \<Rightarrow> ('c \<Rightarrow> rstr \<Rightarrow> bool) \<Rightarrow> ('c, 'r, 'i) mcp_server \<Rightarrow> ('c, 'r, 'i) mcp_run \<Rightarrow> bool"
  for resolves reaches init where
  reach_init: "mcp_reach resolves reaches init (init, [])"
| reach_step: "mcp_reach resolves reaches init \<sigma> \<Longrightarrow> mcp_step resolves reaches \<sigma> ev \<sigma>' \<Longrightarrow> mcp_reach resolves reaches init \<sigma>'"

text \<open>\<open>belongs name url\<close>: the string is one of the connection.\<close>

definition state_ok ::
  "(rstr \<Rightarrow> rstr \<Rightarrow> bool) \<Rightarrow> ('r \<Rightarrow> rstr \<Rightarrow> bool) \<Rightarrow> ('c \<Rightarrow> rstr \<Rightarrow> bool) \<Rightarrow> (rstr \<rightharpoonup> timeout_config) \<Rightarrow> rstr \<Rightarrow>
     ('c, 'r, 'i) connection_state \<Rightarrow> bool" where
  "state_ok belongs resolves reaches tcs name st =
     (case st of
        Pending_Url r \<Rightarrow> (\<forall>url. resolves r url \<longrightarrow> belongs name url)
      | Connecting url tc \<Rightarrow> belongs name url \<and> tc = timeout_of tcs name
      | Connected c url tc _ \<Rightarrow> belongs name url \<and> reaches c url \<and> tc = timeout_of tcs name
      | Unavailable url \<Rightarrow> belongs name url)"

lemma state_ok_simps [simp]:
  "state_ok B R T tcs name (Pending_Url r) = (\<forall>url. R r url \<longrightarrow> B name url)"
  "state_ok B R T tcs name (Connecting url tc) = (B name url \<and> tc = timeout_of tcs name)"
  "state_ok B R T tcs name (Connected c url tc since) = (B name url \<and> T c url \<and> tc = timeout_of tcs name)"
  "state_ok B R T tcs name (Unavailable url) = B name url"
  by (simp_all add: state_ok_def)

fun task_ok :: "(rstr \<Rightarrow> rstr \<Rightarrow> bool) \<Rightarrow> ('r \<Rightarrow> rstr \<Rightarrow> bool) \<Rightarrow> (rstr \<rightharpoonup> timeout_config) \<Rightarrow> rstr set \<Rightarrow> 'r task \<Rightarrow> bool" where
  "task_ok belongs resolves tcs names (Resolving name r) \<longleftrightarrow> (\<forall>url. resolves r url \<longrightarrow> belongs name url) \<and> name \<in> names"
| "task_ok belongs resolves tcs names (Opening name url tc) \<longleftrightarrow> belongs name url \<and> tc = timeout_of tcs name \<and> name \<in> names"
| "task_ok belongs resolves tcs names (Probing name url tc) \<longleftrightarrow> belongs name url \<and> tc = timeout_of tcs name \<and> name \<in> names"

definition server_ok ::
  "(rstr \<Rightarrow> rstr \<Rightarrow> bool) \<Rightarrow> ('r \<Rightarrow> rstr \<Rightarrow> bool) \<Rightarrow> ('c \<Rightarrow> rstr \<Rightarrow> bool) \<Rightarrow> (rstr \<rightharpoonup> timeout_config) \<Rightarrow> rstr set \<Rightarrow>
     ('c, 'r, 'i) mcp_server \<Rightarrow> bool" where
  "server_ok belongs resolves reaches tcs names s \<longleftrightarrow> ms_timeout_configs s = tcs \<and> dom (ms_connections s) = names \<and>
     (\<forall>name st. ms_connections s name = Some st \<longrightarrow> state_ok belongs resolves reaches tcs name st)"

lemma set_state_ok:
  "server_ok B R T tcs names s \<Longrightarrow> state_ok B R T tcs name st \<Longrightarrow> name \<in> names \<Longrightarrow> server_ok B R T tcs names (set_state name st s)"
  by (auto simp: server_ok_def set_state_def)

lemma fire_ok: "server_ok B R T tcs names s \<Longrightarrow> server_ok B R T tcs names (fire name s)"
  by (simp add: server_ok_def fire_def)

lemma server_ok_at:
  assumes "server_ok B R T tcs names s" "ms_connections s name = Some st"
  shows "state_ok B R T tcs name st" "name \<in> names"
  using assms by (auto simp: server_ok_def)

text \<open>What the first section yields is a matter of the state of the connection.\<close>

lemma begin_cases:
  assumes "get_client_begin closed elapsed n s = (b, s')"
  obtains (fresh) c url tc since where "ms_connections s (connection_name n s) = Some (Connected c url tc since)" "b = Begun_Client c" "s' = s"
      "\<not> closed c" "\<forall>m. tc_connection_max_lifetime tc = Some m \<longrightarrow> elapsed since < m"
  | (old) c url tc since where "ms_connections s (connection_name n s) = Some (Connected c url tc since)"
      "b = Begun_Connect (connection_name n s) url" "s' = set_state (connection_name n s) (Connecting url tc) s"
  | (open_url) url tc where "ms_connections s (connection_name n s) = Some (Connecting url tc) \<or>
      ms_connections s (connection_name n s) = Some (Unavailable url)" "b = Begun_Connect (connection_name n s) url" "s' = s"
  | (pending) r where "ms_connections s (connection_name n s) = Some (Pending_Url r)" "b = Begun_Resolve (connection_name n s) r" "s' = s"
  | (unknown) e where "b = Begun_Unknown e" "s' = s"
proof (cases "ms_connections s (connection_name n s)")
  case None
  with assms unknown show thesis by (auto simp: get_client_begin_def Let_def)
next
  case (Some st)
  show thesis
  proof (cases st)
    case (Connected c url tc since)
    show thesis
    proof (cases "\<not> closed c \<and> (\<forall>m. tc_connection_max_lifetime tc = Some m \<longrightarrow> elapsed since < m)")
      case True
      with assms Some Connected have "b = Begun_Client c" "s' = s"
        by (auto simp: get_client_begin_def Let_def not_le split: option.splits if_splits)
      with Some Connected True show thesis by (intro fresh) auto
    next
      case False
      with assms Some Connected have "b = Begun_Connect (connection_name n s) url" "s' = set_state (connection_name n s) (Connecting url tc) s"
        by (auto simp: get_client_begin_def Let_def not_le split: option.splits if_splits)
      with Some Connected show thesis by (intro old) auto
    qed
  next
    case (Pending_Url r)
    with assms Some show thesis by (intro pending) (auto simp: get_client_begin_def Let_def)
  next
    case (Connecting url tc)
    with assms Some show thesis by (intro open_url) (auto simp: get_client_begin_def Let_def)
  next
    case (Unavailable url)
    with assms Some show thesis by (intro open_url) (auto simp: get_client_begin_def Let_def)
  qed
qed

definition run_ok where
  "run_ok B R T tcs names \<sigma> \<longleftrightarrow> server_ok B R T tcs names (fst \<sigma>) \<and> list_all (task_ok B R tcs names) (snd \<sigma>)"

lemma timeout_config_ok: "server_ok B R T tcs names s \<Longrightarrow> connect_timeout_config name s = timeout_of tcs name"
  by (simp add: server_ok_def connect_timeout_config_def)

lemma begin_ok:
  assumes "server_ok B R T tcs names s" "get_client_begin closed elapsed n s = (b, s')"
  shows "server_ok B R T tcs names s' \<and>
    (case b of
       Begun_Client c \<Rightarrow> \<exists>url. B (connection_name n s) url \<and> T c url
     | Begun_Connect name url \<Rightarrow> B name url \<and> name \<in> names
     | Begun_Resolve name r \<Rightarrow> (\<forall>url. R r url \<longrightarrow> B name url) \<and> name \<in> names
     | Begun_Unknown e \<Rightarrow> True)"
  using assms(2)
proof (cases rule: begin_cases)
  case (fresh c url tc since)
  with server_ok_at [OF assms(1) fresh(1)] assms(1) show ?thesis by auto
next
  case (old c url tc since)
  with server_ok_at [OF assms(1) old(1)] show ?thesis by (auto intro!: set_state_ok [OF assms(1)])
next
  case (open_url url tc)
  then obtain st where "ms_connections s (connection_name n s) = Some st" "st = Connecting url tc \<or> st = Unavailable url" by blast
  with server_ok_at [OF assms(1) this(1)] open_url assms(1) show ?thesis by auto
next
  case (pending r)
  with server_ok_at [OF assms(1) pending(1)] assms(1) show ?thesis by auto
next
  case (unknown e)
  with assms(1) show ?thesis by simp
qed

lemma run_ok_step:
  assumes "mcp_step R T \<sigma> ev \<sigma>'" "run_ok B R T tcs names \<sigma>"
  shows "run_ok B R T tcs names \<sigma>' \<and> (\<forall>n c. ev = Handed n c \<longrightarrow> (\<exists>url. B n url \<and> T c url))"
  using assms
proof (induction rule: mcp_step.induct)
  case (step_client closed elapsed n s c s' ts)
  then have "server_ok B R T tcs names s" by (simp add: run_ok_def)
  from begin_ok [OF this step_client.hyps] step_client.prems show ?case by (auto simp: run_ok_def)
next
  case (step_connect closed elapsed n s name url s' ts)
  then have "server_ok B R T tcs names s" by (simp add: run_ok_def)
  from begin_ok [OF this step_connect.hyps] step_connect.prems show ?case by (auto simp: run_ok_def timeout_config_ok)
next
  case (step_resolve closed elapsed n s name r s' ts)
  then have "server_ok B R T tcs names s" by (simp add: run_ok_def)
  from begin_ok [OF this step_resolve.hyps] step_resolve.prems show ?case by (auto simp: run_ok_def)
next
  case (step_unknown closed elapsed n s e s' ts)
  then have "server_ok B R T tcs names s" by (simp add: run_ok_def)
  from begin_ok [OF this step_unknown.hyps] step_unknown.prems show ?case by (auto simp: run_ok_def)
next
  case (step_probe s name url tc ts)
  then have s: "server_ok B R T tcs names s" by (simp add: run_ok_def)
  from step_probe.hyps have "ms_connections s name = Some (Connecting url tc)"
    by (auto simp: try_connect_begin_def split: option.splits connection_state.splits)
  from server_ok_at [OF s this] step_probe.prems show ?case by (auto simp: run_ok_def)
next
  case (step_error s ts name err)
  then have s: "server_ok B R T tcs names s" by (simp add: run_ok_def)
  have "server_ok B R T tcs names (downgrade_on_error name s)"
  proof (cases "\<exists>c url tc since. ms_connections s name = Some (Connected c url tc since)")
    case True
    then obtain c url tc since where c: "ms_connections s name = Some (Connected c url tc since)" by blast
    from server_ok_at [OF s c] c show ?thesis by (auto simp: downgrade_on_error_def intro!: set_state_ok [OF s])
  next
    case False
    then have "downgrade_on_error name s = s"
      by (auto simp: downgrade_on_error_def split: option.split connection_state.split)
    with s show ?thesis by simp
  qed
  with step_error s show ?case by (auto simp: run_ok_def after_query_error_def split: option.split)
next
  case (step_opened c url name tc now s s' a b)
  then show ?case by (auto simp: run_ok_def connect_finish_def intro!: set_state_ok fire_ok)
next
  case (step_failed name url tc now e s err s' a b)
  then show ?case by (auto simp: run_ok_def connect_finish_def intro!: set_state_ok)
next
  case (step_probed result url s a name tc b now)
  then show ?case
    by (cases result) (auto simp: run_ok_def try_connect_finish_def intro!: set_state_ok fire_ok)
qed (auto simp: run_ok_def timeout_config_ok)

lemma run_ok_reach:
  assumes "mcp_reach R T init \<sigma>" "server_ok B R T (ms_timeout_configs init) (dom (ms_connections init)) init"
  shows "run_ok B R T (ms_timeout_configs init) (dom (ms_connections init)) \<sigma>"
  using assms(1)
proof (induction rule: mcp_reach.induct)
  case reach_init
  show ?case using assms(2) by (simp add: run_ok_def)
next
  case (reach_step \<sigma> ev \<sigma>')
  from run_ok_step [OF reach_step.hyps(2) reach_step.IH] show ?case by simp
qed

text \<open>
  C24: However calls, probes, resolvers, failures and errors are interleaved, a client that a call is handed was connected with a
  string of the connection that the call asked for; no connection appears or disappears, and each keeps its own timeouts.
\<close>

theorem clients_of_their_connection:
  assumes "server_ok belongs resolves reaches (ms_timeout_configs init) (dom (ms_connections init)) init"
    and "mcp_reach resolves reaches init (s, ts)" "mcp_step resolves reaches (s, ts) ev \<sigma>'"
  shows "(ev = Handed name c \<longrightarrow> (\<exists>url. belongs name url \<and> reaches c url)) \<and>
    dom (ms_connections s) = dom (ms_connections init) \<and>
    (\<forall>n c' url tc since. ms_connections s n = Some (Connected c' url tc since) \<longrightarrow>
       belongs n url \<and> reaches c' url \<and> tc = timeout_of (ms_timeout_configs init) n)"
proof -
  from run_ok_reach [OF assms(2,1)]
  have ok: "run_ok belongs resolves reaches (ms_timeout_configs init) (dom (ms_connections init)) (s, ts)" .
  then have "server_ok belongs resolves reaches (ms_timeout_configs init) (dom (ms_connections init)) s" by (simp add: run_ok_def)
  then have d: "dom (ms_connections s) = dom (ms_connections init)"
    "\<forall>n c' url tc since. ms_connections s n = Some (Connected c' url tc since) \<longrightarrow>
       belongs n url \<and> reaches c' url \<and> tc = timeout_of (ms_timeout_configs init) n"
    using server_ok_at [of belongs resolves reaches _ _ s] by (simp add: server_ok_def, fastforce)
  then show ?thesis using run_ok_step [OF assms(3) ok] by blast
qed

text \<open>The servers that the tool makes are such: each connection has its own string.\<close>

lemma entries_ok:
  fixes s :: "('c, 'r, 'i) mcp_server"
  assumes "set es \<subseteq> {(n, u). B n u}" "server_ok B R T tcs (dom m) (s\<lparr>ms_connections := m\<rparr>)"
  shows "server_ok B R T tcs (dom m \<union> fst ` set es)
    (s\<lparr>ms_connections := foldl (\<lambda>m (name, url). m(name \<mapsto> Connecting url (timeout_of tcs name))) m es\<rparr>)"
  using assms
proof (induction es arbitrary: m)
  case (Cons e es)
  obtain n u where e: "e = (n, u)" by (cases e)
  have "server_ok B R T tcs (dom (m(n \<mapsto> Connecting u (timeout_of tcs n)))) (s\<lparr>ms_connections := m(n \<mapsto> Connecting u (timeout_of tcs n))\<rparr>)"
    using Cons.prems by (auto simp: server_ok_def e)
  from Cons.IH [OF _ this] Cons.prems(1) show ?case by (simp add: e Un_commute insert_commute del: fun_upd_apply)
qed simp

lemma disconnected_ok:
  "server_ok (\<lambda>name url. (name, url) \<in> set entries) R T tcs (fst ` set entries) (new_multi_disconnected entries default_name tcs)"
  using entries_ok [of entries "\<lambda>name url. (name, url) \<in> set entries" R T tcs Map.empty
      "\<lparr>ms_connections = Map.empty, ms_default_name = default_name, ms_on_connected = {}, ms_timeout_configs = tcs, ms_fired = []\<rparr>"]
  by (simp add: new_multi_disconnected_def server_ok_def)

theorem clients_of_their_connection_witness:
  "\<exists>url. (chars ''a'', url) \<in> set [(chars ''a'', chars ''host=h''), (chars ''b'', chars ''host=i'')] \<and> chars ''host=h'' = url"
proof -
  let ?entries = "[(chars ''a'', chars ''host=h''), (chars ''b'', chars ''host=i'')]"
  let ?init = "new_multi_disconnected ?entries (chars ''a'') Map.empty :: (rstr, unit, unit) mcp_server"
  let ?B = "\<lambda>name url. (name, url) \<in> set ?entries"
  have ok: "server_ok ?B (\<lambda>_ _. False) (=) (ms_timeout_configs ?init) (dom (ms_connections ?init)) ?init"
    using disconnected_ok [of ?entries "\<lambda>_ _. False" "(=)" Map.empty "chars ''a''"]
    by (simp add: new_multi_disconnected_def server_ok_def)
  have "get_client_begin (\<lambda>_. False) (\<lambda>_. duration_from_secs 0) None ?init = (Begun_Connect (chars ''a'') (chars ''host=h''), ?init)"
    by (simp add: get_client_begin_def connection_name_def new_multi_disconnected_def chars_def Let_def)
  then have "mcp_step (\<lambda>_ _. False) (=) (?init, []) Silent
      (?init, [] @ Opening (chars ''a'') (chars ''host=h'') (connect_timeout_config (chars ''a'') ?init) # [])"
    by (simp add: step_connect)
  then have reach: "mcp_reach (\<lambda>_ _. False) (=) ?init
      (?init, [] @ Opening (chars ''a'') (chars ''host=h'') (connect_timeout_config (chars ''a'') ?init) # [])"
    by (rule reach_step [OF reach_init])
  have "mcp_step (\<lambda>_ _. False) (=)
      (?init, [] @ Opening (chars ''a'') (chars ''host=h'') (connect_timeout_config (chars ''a'') ?init) # [])
      (Handed (chars ''a'') (chars ''host=h''))
      (snd (connect_finish (chars ''a'') (chars ''host=h'') (connect_timeout_config (chars ''a'') ?init) () (Inr (chars ''host=h'')) ?init), [] @ [])"
    by (rule step_opened) (simp_all add: connect_finish_def)
  from clients_of_their_connection [OF ok reach this, of "chars ''a''" "chars ''host=h''"] show ?thesis by blast
qed

section \<open>Clients that are used again\<close>

text \<open>
  A client that is used again is open and younger than the greatest lifetime of its connection; in every other case the call
  connects again, and no call is refused that names a connection.
\<close>

lemma reused_client_alive:
  assumes "get_client_begin closed elapsed n s = (b, s')"
  shows "(case b of
       Begun_Client c \<Rightarrow> s' = s \<and> \<not> closed c \<and> (\<exists>url tc since. ms_connections s (connection_name n s) = Some (Connected c url tc since) \<and>
         \<not> (\<exists>m. tc_connection_max_lifetime tc = Some m \<and> m \<le> elapsed since))
     | Begun_Unknown e \<Rightarrow> s' = s \<and> ms_connections s (connection_name n s) = None
     | _ \<Rightarrow> ms_connections s (connection_name n s) \<noteq> None)"
  using assms unfolding get_client_begin_def Let_def
  by (auto split: option.splits connection_state.splits if_splits simp: not_le [symmetric])

theorem reused_client_alive_witness:
  "\<exists>url tc since. [chars ''a'' \<mapsto> Connected (3 :: nat) (chars ''host=h'')
        (timeout_default\<lparr>tc_connection_max_lifetime := Some (duration_from_secs 60)\<rparr>) ()] (chars ''a'') = Some (Connected 3 url tc since) \<and>
      \<not> (\<exists>m. tc_connection_max_lifetime tc = Some m \<and> m \<le> duration_from_secs 59)"
proof -
  let ?tc = "timeout_default\<lparr>tc_connection_max_lifetime := Some (duration_from_secs 60)\<rparr>"
  let ?s = "\<lparr>ms_connections = [chars ''a'' \<mapsto> Connected (3 :: nat) (chars ''host=h'') ?tc ()], ms_default_name = chars ''a'',
        ms_on_connected = {}, ms_timeout_configs = Map.empty, ms_fired = []\<rparr> :: (nat, unit, unit) mcp_server"
  have "get_client_begin (\<lambda>c. c = 4) (\<lambda>_. duration_from_secs 59) None ?s = (Begun_Client 3, ?s)"
    by (simp add: get_client_begin_def connection_name_def duration_from_secs_def less_eq_duration_def Let_def)
  from reused_client_alive [OF this] show ?thesis by (simp add: connection_name_def)
qed

section \<open>The timeout of a session\<close>

text \<open>
  The contract of a session with respect to its timeout: \<open>SET\<close> sets it, to the server's own for \<open>DEFAULT\<close>, and a query does not
  change it. The server takes what fits 31 bits.
\<close>

locale timeout_session =
  fixes ops :: "'d session_ops" and timeout :: "'d \<Rightarrow> nat" and own :: "'d \<Rightarrow> nat"
  assumes batch_set: "n < 2 ^ 31 \<Longrightarrow> timeout (snd (so_batch ops (chars ''SET statement_timeout = '' @ chars (show_nat n)) d)) = n"
    and simple_set: "n < 2 ^ 31 \<Longrightarrow> fst (so_simple ops (chars ''SET statement_timeout='' @ chars (show_nat n)) d) = Inr ()"
      "n < 2 ^ 31 \<Longrightarrow> timeout (snd (so_simple ops (chars ''SET statement_timeout='' @ chars (show_nat n)) d)) = n"
    and simple_default: "timeout (snd (so_simple ops (chars ''SET statement_timeout=DEFAULT'') d)) = own d"
    and query_keeps: "timeout (snd (so_query ops sql d)) = timeout d" "own (snd (so_query ops sql d)) = own d"
    and own_simple: "own (snd (so_simple ops sql d)) = own d" and own_batch: "own (snd (so_batch ops sql d)) = own d"
begin

lemma configured:
  "tc_statement_timeout tc = Some st \<Longrightarrow> as_millis st < 2 ^ 31 \<Longrightarrow> timeout (apply_timeout ops (Some tc) d) = as_millis st"
  by (simp add: apply_timeout_def batch_set)

lemma own_configured: "own (apply_timeout ops tc d) = own d"
  by (simp add: apply_timeout_def own_batch split: option.split)

lemma after_override:
  assumes "ms < 2 ^ 31"
  shows "timeout (snd (query_with_optional_timeout ops sql (Some ms) d)) = own d"
proof -
  let ?set = "chars ''SET statement_timeout='' @ chars (show_nat ms)"
  obtain d1 where s: "so_simple ops ?set d = (Inr (), d1)" using simple_set(1) [OF assms, of d] by (metis prod.collapse)
  have "own d1 = own d" using own_simple [of ?set d] by (simp add: s)
  then show ?thesis
    using query_keeps(2) [of sql d1] by (auto simp: query_with_optional_timeout_def s simple_default split: prod.split)
qed

lemma override:
  "ms < 2 ^ 31 \<Longrightarrow> \<exists>d'. timeout d' = ms \<and> fst (query_with_optional_timeout ops sql (Some ms) d) = fst (so_query ops sql d')"
  using simple_set [of ms d]
  by (intro exI [of _ "snd (so_simple ops (chars ''SET statement_timeout='' @ chars (show_nat ms)) d)"])
    (auto simp: query_with_optional_timeout_def split: prod.splits sum.splits)

end

text \<open>A session that is its timeout and the server's own, and reads the statements that set it.\<close>

definition pg_set :: "string \<Rightarrow> rstr \<Rightarrow> nat \<times> nat \<Rightarrow> nat \<times> nat" where
  "pg_set prefix sql d =
     (case strip_key prefix sql of
        Some v \<Rightarrow>
          if v = chars ''DEFAULT'' then (snd d, snd d)
          else (case u64_from_str v of Some n \<Rightarrow> if n < 2 ^ 31 then (n, snd d) else d | None \<Rightarrow> d)
      | None \<Rightarrow> d)"

definition pg_ops :: "(nat \<times> nat) session_ops" where
  "pg_ops = \<lparr>so_batch = (\<lambda>sql d. (Inr (), pg_set ''SET statement_timeout = '' sql d)),
     so_simple = (\<lambda>sql d. (Inr (), pg_set ''SET statement_timeout='' sql d)), so_query = (\<lambda>sql d. (Inr [], d))\<rparr>"

lemma strip_key_append [simp]: "strip_key key (chars key @ v) = Some v"
  by (simp add: strip_key_def)

lemma number_not_default: "chars (show_nat n) \<noteq> chars ''DEFAULT''"
  using number_chars(1,2) [of n] by (auto simp: chars_def is_digit_def)

lemma pg_set_number: "n < 2 ^ 31 \<Longrightarrow> pg_set prefix (chars prefix @ chars (show_nat n)) d = (n, snd d)"
  by (simp add: pg_set_def number_not_default u64_from_number)

lemma pg_set_default: "pg_set prefix (chars prefix @ chars ''DEFAULT'') d = (snd d, snd d)"
  by (simp add: pg_set_def)

lemma pg_set_own: "snd (pg_set prefix sql d) = snd d"
  by (simp add: pg_set_def split: option.split)

interpretation pg: timeout_session pg_ops fst snd
proof unfold_locales
  show "fst (snd (so_simple pg_ops (chars ''SET statement_timeout=DEFAULT'') d)) = snd d" for d
    using pg_set_default [of "''SET statement_timeout=''" d] by (simp add: pg_ops_def chars_def)
qed (simp_all add: pg_ops_def pg_set_number pg_set_own)

text \<open>
  C29: A call that brings a timeout of its own leaves the session with the timeout of the server and not with the one that is
  configured for the connection, which holds after every other call: the reset is to \<open>DEFAULT\<close>.
\<close>

theorem own_timeout_resets_configured:
  assumes "timeout_session ops timeout own" "tc_statement_timeout tc = Some st" "as_millis st < 2 ^ 31" "ms < 2 ^ 31"
  shows "timeout (snd (query_with_optional_timeout ops sql None (apply_timeout ops (Some tc) d))) = as_millis st \<and>
    timeout (snd (query_with_optional_timeout ops sql (Some ms) (apply_timeout ops (Some tc) d))) = own d"
  using timeout_session.configured [OF assms(1-3)] timeout_session.after_override [OF assms(1,4)]
    timeout_session.own_configured [OF assms(1)] timeout_session.query_keeps(1) [OF assms(1)]
  by (simp add: query_with_optional_timeout_def)

theorem own_timeout_resets_configured_witness:
  "fst (snd (query_with_optional_timeout pg_ops (chars ''SELECT 1'') None (apply_timeout pg_ops (Some (timeout_default
      \<lparr>tc_statement_timeout := Some (duration_from_secs 30)\<rparr>)) (0, 0)))) = 30000 \<and>
   fst (snd (query_with_optional_timeout pg_ops (chars ''SELECT 1'') (Some 500) (apply_timeout pg_ops (Some (timeout_default
      \<lparr>tc_statement_timeout := Some (duration_from_secs 30)\<rparr>)) (0, 0)))) = 0"
proof -
  have m: "as_millis (duration_from_secs 30) = 30000" by (simp add: as_millis_def duration_from_secs_def)
  show ?thesis
    using own_timeout_resets_configured [OF pg.timeout_session_axioms,
        of "timeout_default\<lparr>tc_statement_timeout := Some (duration_from_secs 30)\<rparr>" "duration_from_secs 30" 500 "chars ''SELECT 1''" "(0, 0)"]
    by (simp add: m)
qed

end
