(* ===== verification/Blocking.thy ===== *)
theory Blocking
  imports Binary_Copy Connection
begin

text \<open>
  The blocking client (\<open>crates/opengauss\<close>): a connection that is driven while the calling thread waits for a future
  (\<open>connection.rs\<close>), the three iterators over notifications (\<open>notifications.rs\<close>), rows, and the reader and the writer of a COPY
  (\<open>row_iter.rs\<close>, \<open>copy_out_reader.rs\<close>, \<open>copy_in_writer.rs\<close>, \<open>lazy_pin.rs\<close>).

  The connection is the channel of what its successive polls yield. The clock is a number; \<open>bl_waits\<close> says how long the runtime sleeps
  before each time that it is woken. A thread that is never woken again waits for ever, which is \<open>None\<close>.
\<close>

section \<open>Driving the connection\<close>

type_synonym notification = "i32 \<times> bytes \<times> bytes"

record blocking =
  bl_connection :: "(error fault + async_message) channel"
  bl_notifications :: "notification list"
  bl_notices :: "db_error list"
  bl_now :: nat
  bl_waits :: "nat list"

definition blocking_new :: "(error fault + async_message) channel \<Rightarrow> nat \<Rightarrow> nat list \<Rightarrow> blocking" where
  "blocking_new connection now waits =
     \<lparr>bl_connection = connection, bl_notifications = [], bl_notices = [], bl_now = now, bl_waits = waits\<rparr>"

text \<open>The loop over the connection; \<open>bl_notices\<close> are the calls of the callback. The result is \<open>done\<close>.\<close>

function poll_connection :: "blocking \<Rightarrow> (error fault + bool) \<times> blocking" where
  "poll_connection c =
     (case chan_poll (bl_connection c) of
        (Ready (Some (Inr m)), rx) \<Rightarrow>
          (case m of
             Notification pid channel payload \<Rightarrow>
               poll_connection (c\<lparr>bl_connection := rx, bl_notifications := bl_notifications c @ [(pid, channel, payload)]\<rparr>)
           | Notice e \<Rightarrow> poll_connection (c\<lparr>bl_connection := rx, bl_notices := bl_notices c @ [e]\<rparr>))
      | (Ready (Some (Inl e)), rx) \<Rightarrow> (Inl e, c\<lparr>bl_connection := rx\<rparr>)
      | (Ready None, rx) \<Rightarrow> (Inr True, c\<lparr>bl_connection := rx\<rparr>)
      | (Pending, rx) \<Rightarrow> (Inr False, c\<lparr>bl_connection := rx\<rparr>))"
  by pat_completeness auto
termination
  by (relation "measure (\<lambda>c. length (bl_connection c))") (auto dest: chan_poll_shrinks [OF sym])

declare poll_connection.simps [simp del]

lemma poll_connection_waits: "bl_waits (snd (poll_connection c)) = bl_waits c \<and> bl_now (snd (poll_connection c)) = bl_now c"
proof (induction c rule: poll_connection.induct)
  case (1 c)
  obtain p rx where p: "chan_poll (bl_connection c) = (p, rx)" by (cases "chan_poll (bl_connection c)")
  consider "p = Pending" | "p = Ready None" | e where "p = Ready (Some (Inl e))" | m where "p = Ready (Some (Inr m))"
    by (metis old.sum.exhaust option.exhaust poll.exhaust)
  then show ?case
  proof cases
    case (4 m)
    with 1 p show ?thesis by (cases m) (simp_all add: poll_connection.simps [of c])
  qed (use p in \<open>simp_all add: poll_connection.simps [of c]\<close>)
qed

lemma poll_connection_keeps: "(r, c') = poll_connection c \<Longrightarrow> bl_waits c' = bl_waits c \<and> bl_now c' = bl_now c"
  using poll_connection_waits [of c] by (metis snd_conv)

text \<open>
  \<open>poll_block_on\<close>: the connection is driven first, then the task is polled, until the task is ready. A task sees the time, the notifications,
  which it may take, and whether the connection has ended.
\<close>

type_synonym ('s, 'a) task = "'s \<Rightarrow> nat \<Rightarrow> bool \<Rightarrow> notification list \<Rightarrow> (error fault + 'a) poll \<times> notification list \<times> 's"

function poll_block_on :: "('s, 'a) task \<Rightarrow> 's \<Rightarrow> blocking \<Rightarrow> ((error fault + 'a) \<times> 's \<times> blocking) option" where
  "poll_block_on f s c =
     (case poll_connection c of
        (Inl e, c) \<Rightarrow> Some (Inl e, s, c)
      | (Inr ended, c) \<Rightarrow>
          (case f s (bl_now c) ended (bl_notifications c) of
             (Ready r, ns, s) \<Rightarrow> Some (r, s, c\<lparr>bl_notifications := ns\<rparr>)
           | (Pending, ns, s) \<Rightarrow>
               (case bl_waits c of
                  [] \<Rightarrow> None
                | w # ws \<Rightarrow> poll_block_on f s (c\<lparr>bl_notifications := ns, bl_now := bl_now c + w, bl_waits := ws\<rparr>))))"
  by pat_completeness auto
termination
  by (relation "measure (\<lambda>(f, s, c). length (bl_waits c))") (auto dest: poll_connection_keeps)

declare poll_block_on.simps [simp del]

text \<open>\<open>block_on\<close> of a future, which is polled with its own state.\<close>

definition future_task :: "('s \<Rightarrow> (error fault + 'a) poll \<times> 's) \<Rightarrow> ('s, 'a) task" where
  "future_task p = (\<lambda>s _ _ ns. case p s of (r, s) \<Rightarrow> (r, ns, s))"

definition block_on :: "('s \<Rightarrow> (error fault + 'a) poll \<times> 's) \<Rightarrow> 's \<Rightarrow> blocking \<Rightarrow> ((error fault + 'a) \<times> 's \<times> blocking) option" where
  "block_on p = poll_block_on (future_task p)"

text \<open>\<open>close_inner\<close> after the channel to the connection has been closed: it waits until the connection has ended.\<close>

definition close_inner :: "blocking \<Rightarrow> ((error fault + unit) \<times> blocking) option" where
  "close_inner c =
     map_option (\<lambda>(r, _, c). (r, c))
       (poll_block_on (\<lambda>s _ ended ns. (if ended then Ready (Inr ()) else Pending, ns, s)) () c)"

text \<open>
  \<open>is_valid\<close>: the future \<open>p\<close> of the query, with a deadline that is set when it is polled for the first time; the deadline is looked at
  when the query is not ready.
\<close>

definition timeout_task :: "nat \<Rightarrow> ('s \<Rightarrow> (error fault + 'a) poll \<times> 's) \<Rightarrow> (nat option \<times> 's, 'a) task" where
  "timeout_task timeout p = (\<lambda>(deadline, s) now _ ns.
     let deadline = (case deadline of Some d \<Rightarrow> d | None \<Rightarrow> now + timeout) in
     case p s of
       (Ready r, s) \<Rightarrow> (Ready r, ns, (Some deadline, s))
     | (Pending, s) \<Rightarrow> (if deadline \<le> now then Ready (Inl (Fault E_Timeout)) else Pending, ns, (Some deadline, s)))"

definition is_valid :: "nat \<Rightarrow> ('s \<Rightarrow> (error fault + 'a) poll \<times> 's) \<Rightarrow> 's \<Rightarrow> blocking \<Rightarrow> ((error fault + unit) \<times> 's \<times> blocking) option" where
  "is_valid timeout p s c =
     map_option (\<lambda>(r, (_, s), c). (bind_res r (\<lambda>_. Inr ()), s, c)) (poll_block_on (timeout_task timeout p) (None, s) c)"

section \<open>Notifications\<close>

definition pop_front :: "notification list \<Rightarrow> notification option \<times> notification list" where
  "pop_front ns = (case ns of [] \<Rightarrow> (None, []) | n # ns \<Rightarrow> (Some n, ns))"

text \<open>The closures of the three iterators.\<close>

definition iter_task :: "(unit, notification option) task" where
  "iter_task = (\<lambda>s _ _ ns. case pop_front ns of (n, ns) \<Rightarrow> (Ready (Inr n), ns, s))"

definition blocking_task :: "(unit, notification option) task" where
  "blocking_task = (\<lambda>s _ ended ns.
     case pop_front ns of
       (Some n, ns) \<Rightarrow> (Ready (Inr (Some n)), ns, s)
     | (None, ns) \<Rightarrow> (if ended then Ready (Inr None) else Pending, ns, s))"

text \<open>The state of the third is when its delay elapses.\<close>

definition timeout_iter_task :: "nat \<Rightarrow> (nat, notification option) task" where
  "timeout_iter_task timeout = (\<lambda>delay now ended ns.
     case pop_front ns of
       (Some n, ns) \<Rightarrow> (Ready (Inr (Some n)), ns, now + timeout)
     | (None, ns) \<Rightarrow> (if ended then Ready (Inr None) else if delay \<le> now then Ready (Inr None) else Pending, ns, delay))"

definition iter_next :: "blocking \<Rightarrow> ((error fault + notification option) \<times> blocking) option" where
  "iter_next c =
     (case pop_front (bl_notifications c) of
        (Some n, ns) \<Rightarrow> Some (Inr (Some n), c\<lparr>bl_notifications := ns\<rparr>)
      | (None, _) \<Rightarrow> map_option (\<lambda>(r, _, c). (r, c)) (poll_block_on iter_task () c))"

definition blocking_next :: "blocking \<Rightarrow> ((error fault + notification option) \<times> blocking) option" where
  "blocking_next c =
     (case pop_front (bl_notifications c) of
        (Some n, ns) \<Rightarrow> Some (Inr (Some n), c\<lparr>bl_notifications := ns\<rparr>)
      | (None, _) \<Rightarrow> map_option (\<lambda>(r, _, c). (r, c)) (poll_block_on blocking_task () c))"

record timeout_iter =
  ti_delay :: nat
  ti_timeout :: nat

definition timeout_iter_new :: "nat \<Rightarrow> blocking \<Rightarrow> timeout_iter" where
  "timeout_iter_new timeout c = \<lparr>ti_delay = bl_now c + timeout, ti_timeout = timeout\<rparr>"

definition timeout_next :: "timeout_iter \<Rightarrow> blocking \<Rightarrow> ((error fault + notification option) \<times> timeout_iter \<times> blocking) option" where
  "timeout_next it c =
     (case pop_front (bl_notifications c) of
        (Some n, ns) \<Rightarrow> Some (Inr (Some n), it\<lparr>ti_delay := bl_now c + ti_timeout it\<rparr>, c\<lparr>bl_notifications := ns\<rparr>)
      | (None, _) \<Rightarrow>
          map_option (\<lambda>(r, delay, c). (r, it\<lparr>ti_delay := delay\<rparr>, c))
            (poll_block_on (timeout_iter_task (ti_timeout it)) (ti_delay it) c))"

section \<open>Streams\<close>

text \<open>\<open>next().await.transpose()\<close> of a stream.\<close>

definition transpose_item :: "'a item \<Rightarrow> error fault + 'a option" where
  "transpose_item i = (case i of None \<Rightarrow> Inr None | Some (Inl e) \<Rightarrow> Inl e | Some (Inr x) \<Rightarrow> Inr (Some x))"

definition next_future :: "('s \<Rightarrow> 'a item poll \<times> 's) \<Rightarrow> 's \<Rightarrow> (error fault + 'a option) poll \<times> 's" where
  "next_future p s = (case p s of (Pending, s) \<Rightarrow> (Pending, s) | (Ready i, s) \<Rightarrow> (Ready (transpose_item i), s))"

definition row_iter_next :: "row_stream \<Rightarrow> blocking \<Rightarrow> ((error fault + row option) \<times> row_stream \<times> blocking) option" where
  "row_iter_next = block_on (next_future row_poll_next)"

text \<open>A value that may be moved until it has been pinned.\<close>

record 'a lazy_pin =
  lp_value :: 'a
  lp_pinned :: bool

definition lazy_new :: "'a \<Rightarrow> 'a lazy_pin" where
  "lazy_new value' = \<lparr>lp_value = value', lp_pinned = False\<rparr>"

definition into_unpinned :: "'a lazy_pin \<Rightarrow> 'a option" where
  "into_unpinned p = (if lp_pinned p then None else Some (lp_value p))"

section \<open>Reading a copy\<close>

record copy_out_reader =
  out_stream :: "responses lazy_pin"
  out_cur :: bytes

definition copy_out_reader_new :: "responses \<Rightarrow> copy_out_reader" where
  "copy_out_reader_new stream = \<lparr>out_stream = lazy_new stream, out_cur = []\<rparr>"

definition after_next :: "responses \<Rightarrow> copy_out_reader \<Rightarrow> copy_out_reader" where
  "after_next stream rd = rd\<lparr>out_stream := \<lparr>lp_value = stream, lp_pinned = True\<rparr>\<rparr>"

text \<open>\<open>fill_buf\<close>: the blocks without data are passed over.\<close>

partial_function (option) fill_buf ::
  "copy_out_reader \<Rightarrow> blocking \<Rightarrow> ((error fault + bytes) \<times> copy_out_reader \<times> blocking) option" where
  "fill_buf rd c =
     (if out_cur rd \<noteq> [] then Some (Inr (out_cur rd), rd, c)
      else
        (case block_on (next_future copy_out_poll_next) (lp_value (out_stream rd)) c of
           None \<Rightarrow> None
         | Some (Inr (Some cur), stream, c) \<Rightarrow> fill_buf (after_next stream rd\<lparr>out_cur := cur\<rparr>) c
         | Some (Inl e, stream, c) \<Rightarrow> Some (Inl e, after_next stream rd, c)
         | Some (Inr None, stream, c) \<Rightarrow> Some (Inr (out_cur rd), after_next stream rd, c)))"

text \<open>\<open>advance\<close> panics beyond the end of the block, which is \<open>None\<close>.\<close>

definition consume :: "nat \<Rightarrow> copy_out_reader \<Rightarrow> copy_out_reader option" where
  "consume amt rd = (if amt \<le> length (out_cur rd) then Some (rd\<lparr>out_cur := drop amt (out_cur rd)\<rparr>) else None)"

text \<open>\<open>read\<close> into a buffer of \<open>n\<close> bytes, with the bytes that are written to it.\<close>

definition reader_read ::
  "nat \<Rightarrow> copy_out_reader \<Rightarrow> blocking \<Rightarrow> ((error fault + bytes) \<times> copy_out_reader \<times> blocking) option" where
  "reader_read n rd c =
     (case fill_buf rd c of
        None \<Rightarrow> None
      | Some (Inl e, rd, c) \<Rightarrow> Some (Inl e, rd, c)
      | Some (Inr b, rd, c) \<Rightarrow>
          (let len = min n (length b)
           in case consume len rd of
                None \<Rightarrow> Some (Inl Panic, rd, c)
              | Some rd \<Rightarrow> Some (Inr (take len b), rd, c)))"

section \<open>Writing a copy\<close>

text \<open>The future of \<open>SinkExt::send\<close>: the item as long as it has not been fed, and the sink.\<close>

definition send_future :: "bytes option \<times> copy_in_sink \<Rightarrow> (error fault + unit) poll \<times> bytes option \<times> copy_in_sink" where
  "send_future st =
     (let flush = (\<lambda>s. case sink_poll_flush s of
          (Pending, s) \<Rightarrow> (Pending, None, s) | (Ready r, s) \<Rightarrow> (Ready (map_err Fault r), None, s))
      in case st of
           (None, s) \<Rightarrow> flush s
         | (Some item, s) \<Rightarrow>
             (case sink_poll_ready s of
                (Pending, s) \<Rightarrow> (Pending, Some item, s)
              | (Ready (Inl e), s) \<Rightarrow> (Ready (Inl (Fault e)), Some item, s)
              | (Ready (Inr _), s) \<Rightarrow>
                  (case sink_start_send item s of
                     (Inl e, s) \<Rightarrow> (Ready (Inl (Fault e)), None, s)
                   | (Inr _, s) \<Rightarrow> flush s)))"

record copy_in_writer =
  in_sink :: "copy_in_sink lazy_pin"
  in_buf :: bytes

definition copy_in_writer_new :: "copy_in_sink \<Rightarrow> copy_in_writer" where
  "copy_in_writer_new sink = \<lparr>in_sink = lazy_new sink, in_buf = []\<rparr>"

definition after_send :: "copy_in_sink \<Rightarrow> copy_in_writer \<Rightarrow> copy_in_writer" where
  "after_send sink w = w\<lparr>in_sink := \<lparr>lp_value = sink, lp_pinned = True\<rparr>\<rparr>"

definition flush_inner :: "copy_in_writer \<Rightarrow> blocking \<Rightarrow> ((error fault + unit) \<times> copy_in_writer \<times> blocking) option" where
  "flush_inner w c =
     (if in_buf w = [] then Some (Inr (), w, c)
      else map_option (\<lambda>(r, (_, sink), c). (r, after_send sink w\<lparr>in_buf := []\<rparr>, c))
        (block_on send_future (Some (in_buf w), lp_value (in_sink w)) c))"

definition writer_write :: "bytes \<Rightarrow> copy_in_writer \<Rightarrow> blocking \<Rightarrow> ((error fault + nat) \<times> copy_in_writer \<times> blocking) option" where
  "writer_write buf w c =
     (case (if length (in_buf w) > 4096 then flush_inner w c else Some (Inr (), w, c)) of
        None \<Rightarrow> None
      | Some (Inl e, w, c) \<Rightarrow> Some (Inl e, w, c)
      | Some (Inr _, w, c) \<Rightarrow> Some (Inr (length buf), w\<lparr>in_buf := in_buf w @ buf\<rparr>, c))"

definition finish_future :: "copy_in_sink \<Rightarrow> (error fault + u64) poll \<times> copy_in_sink" where
  "finish_future s = (case sink_poll_finish s of (Pending, s) \<Rightarrow> (Pending, s) | (Ready r, s) \<Rightarrow> (Ready (map_err Fault r), s))"

definition copy_in_finish :: "copy_in_writer \<Rightarrow> blocking \<Rightarrow> ((error fault + u64) \<times> copy_in_writer \<times> blocking) option" where
  "copy_in_finish w c =
     (case flush_inner w c of
        None \<Rightarrow> None
      | Some (Inl e, w, c) \<Rightarrow> Some (Inl e, w, c)
      | Some (Inr _, w, c) \<Rightarrow>
          map_option (\<lambda>(r, sink, c). (r, after_send sink w, c)) (block_on finish_future (lp_value (in_sink w)) c))"

section \<open>Binary copies\<close>

text \<open>They take the sink and the stream out of a writer and a reader that have not been used: a panic otherwise.\<close>

definition binary_writer_of :: "copy_in_writer \<Rightarrow> pg_type list \<Rightarrow> error fault + copy_writer" where
  "binary_writer_of w types =
     (case into_unpinned (in_sink w) of Some sink \<Rightarrow> Inr (copy_writer_new sink types) | None \<Rightarrow> Inl Panic)"

end
