(* ===== verification/Blocking_Laws.thy ===== *)
theory Blocking_Laws
  imports Blocking Binary_Copy_Laws
begin

text \<open>
  The blocking client: no notification is lost, repeated or reordered by whatever is done with the client; waiting for a future yields
  what awaiting it yields; a copy is read and written whole.
\<close>

section \<open>Notifications\<close>

fun told :: "(error fault + async_message) list \<Rightarrow> notification list" where
  "told [] = []"
| "told (Inr (Notification pid channel payload) # ms) = (pid, channel, payload) # told ms"
| "told (m # ms) = told ms"

text \<open>The notifications that have not been handed out: those in the queue and those that the connection still delivers.\<close>

definition untold :: "blocking \<Rightarrow> notification list" where
  "untold c = bl_notifications c @ told (chan_items (bl_connection c))"

lemma untold_simps [simp]:
  "untold (c\<lparr>bl_now := t\<rparr>) = untold c" "untold (c\<lparr>bl_waits := ws\<rparr>) = untold c"
  "untold (c\<lparr>bl_notices := es\<rparr>) = untold c"
  by (simp_all add: untold_def)

lemma chan_poll_cases:
  assumes "chan_poll ch = (p, rx)"
  obtains (pending) "p = Pending" "chan_items rx = chan_items ch"
  | (closed) "p = Ready None" "chan_items ch = []" "rx = ch"
  | (failed) e where "p = Ready (Some (Inl e))" "chan_items ch = Inl e # chan_items rx" "length rx < length ch"
  | (notice) e where "p = Ready (Some (Inr (Notice e)))" "chan_items ch = Inr (Notice e) # chan_items rx" "length rx < length ch"
  | (notification) pid channel payload where "p = Ready (Some (Inr (Notification pid channel payload)))"
      "chan_items ch = Inr (Notification pid channel payload) # chan_items rx" "length rx < length ch"
proof (cases p)
  case Pending
  with assms chan.pending [of ch rx] that(1) show thesis by simp
next
  case (Ready q)
  show thesis
  proof (cases q)
    case None
    with assms Ready chan.stopped [of ch rx] chan_poll_closed [of ch rx] that(2) show thesis by simp
  next
    case (Some x)
    with assms Ready have "chan_items ch = x # chan_items rx" "length rx < length ch"
      using chan.item [of ch x rx] chan_poll_shrinks [of ch x rx] by simp_all
    with Ready Some that(3-5) show thesis by (metis async_message.exhaust old.sum.exhaust)
  qed
qed

lemma poll_connection_untold: "untold (snd (poll_connection c)) = untold c"
proof (induction c rule: poll_connection.induct)
  case (1 c)
  obtain p rx where p: "chan_poll (bl_connection c) = (p, rx)" by (cases "chan_poll (bl_connection c)")
  from p show ?case
  proof (cases rule: chan_poll_cases)
    case (notice e)
    with 1 p show ?thesis by (simp add: poll_connection.simps [of c]) (simp add: untold_def)
  next
    case (notification pid channel payload)
    with 1 p show ?thesis by (simp add: poll_connection.simps [of c]) (simp add: untold_def)
  qed (simp_all add: p poll_connection.simps [of c] untold_def)
qed

text \<open>What the result of a poll hands out, and the contract of a task: it takes notifications from the front, and hands out those.\<close>

locale listener =
  fixes f :: "('s, 'a) task" and taken :: "(error fault + 'a) poll \<Rightarrow> notification list"
  assumes takes: "f s now ended ns = (r, ns', s') \<Longrightarrow> ns = taken r @ ns'"
    and pending_takes: "taken Pending = []"
    and error_takes: "taken (Ready (Inl e)) = []"
begin

lemma block_untold: "poll_block_on f s c = Some (r, s', c') \<Longrightarrow> untold c = taken (Ready r) @ untold c'"
proof (induction c arbitrary: s rule: measure_induct_rule [where f = "\<lambda>c. length (bl_waits c)"])
  case (less c)
  obtain q c1 where q: "poll_connection c = (q, c1)" by (cases "poll_connection c")
  have u: "untold c1 = untold c" using poll_connection_untold [of c] by (simp add: q)
  show ?case
  proof (cases q)
    case (Inl e)
    with less.prems q u show ?thesis by (auto simp: poll_block_on.simps [of f s c] error_takes)
  next
    case (Inr ended)
    obtain p ns s1 where f: "f s (bl_now c1) ended (bl_notifications c1) = (p, ns, s1)" by (cases "f s (bl_now c1) ended (bl_notifications c1)")
    have n: "bl_notifications c1 = taken p @ ns" by (rule takes [OF f])
    show ?thesis
    proof (cases p)
      case Pending
      with less.prems q f Inr obtain w ws where w: "bl_waits c1 = w # ws"
        "poll_block_on f s1 (c1\<lparr>bl_notifications := ns, bl_now := bl_now c1 + w, bl_waits := ws\<rparr>) = Some (r, s', c')"
        by (auto simp: poll_block_on.simps [of f s c] split: list.splits)
      have "length ws < length (bl_waits c)" using w(1) poll_connection_keeps [of q c1 c] q by simp
      from less.IH [OF _ w(2)] this u n Pending show ?thesis by (simp add: pending_takes untold_def)
    next
      case (Ready r')
      with less.prems q f Inr have "r = r'" "c' = c1\<lparr>bl_notifications := ns\<rparr>"
        by (auto simp: poll_block_on.simps [of f s c])
      with u n Ready show ?thesis by (simp add: untold_def)
    qed
  qed
qed

end

definition handed_by :: "error fault + notification option \<Rightarrow> notification list" where
  "handed_by r = (case r of Inr (Some n) \<Rightarrow> [n] | _ \<Rightarrow> [])"

definition handed_poll :: "(error fault + notification option) poll \<Rightarrow> notification list" where
  "handed_poll p = (case p of Ready r \<Rightarrow> handed_by r | Pending \<Rightarrow> [])"

lemma handed_simps [simp]: "handed_by (Inr (Some n)) = [n]" "handed_by (Inr None) = []" "handed_by (Inl e) = []"
  "handed_poll Pending = []" "handed_poll (Ready r) = handed_by r"
  by (simp_all add: handed_by_def handed_poll_def)

interpretation iter_listener: listener iter_task handed_poll
  by unfold_locales (auto simp: iter_task_def pop_front_def split: list.splits)

interpretation blocking_listener: listener blocking_task handed_poll
  by unfold_locales (auto simp: blocking_task_def pop_front_def split: list.splits if_splits)

interpretation timeout_listener: listener "timeout_iter_task timeout" handed_poll for timeout
  by unfold_locales (auto simp: timeout_iter_task_def pop_front_def split: list.splits if_splits)

interpretation future_listener: listener "future_task p" "\<lambda>_. []" for p
  by unfold_locales (auto simp: future_task_def split: prod.splits)

interpretation timeout_future_listener: listener "timeout_task timeout p" "\<lambda>_. []" for timeout p
  by unfold_locales (auto simp: timeout_task_def Let_def split: prod.splits poll.splits)

text \<open>
  A program that uses a client: it asks any of the iterators, waits for any of the futures \<open>futures\<close>, and time passes; it has been handed the
  notifications of the list.
\<close>

inductive listens ::
  "('s \<Rightarrow> (error fault + 'a) poll \<times> 's) set \<Rightarrow> blocking \<Rightarrow> notification list \<Rightarrow> blocking \<Rightarrow> bool" for futures c0 where
  listen_start: "listens futures c0 [] c0"
| listen_iter: "listens futures c0 ns c \<Longrightarrow> iter_next c = Some (r, c') \<Longrightarrow> listens futures c0 (ns @ handed_by r) c'"
| listen_blocking: "listens futures c0 ns c \<Longrightarrow> blocking_next c = Some (r, c') \<Longrightarrow> listens futures c0 (ns @ handed_by r) c'"
| listen_timeout: "listens futures c0 ns c \<Longrightarrow> timeout_next it c = Some (r, it', c') \<Longrightarrow> listens futures c0 (ns @ handed_by r) c'"
| listen_call: "listens futures c0 ns c \<Longrightarrow> p \<in> futures \<Longrightarrow> block_on p s c = Some (r, s', c') \<Longrightarrow> listens futures c0 ns c'"
| listen_idle: "listens futures c0 ns c \<Longrightarrow> listens futures c0 ns (c\<lparr>bl_now := t, bl_waits := ws\<rparr>)"

lemma front_untold: "bl_notifications c = n # ns \<Longrightarrow> untold c = n # untold (c\<lparr>bl_notifications := ns\<rparr>)"
  by (simp add: untold_def)

lemma iterators_untold:
  "iter_next c = Some (r, c') \<Longrightarrow> untold c = handed_by r @ untold c'"
  "blocking_next c = Some (r, c') \<Longrightarrow> untold c = handed_by r @ untold c'"
  "timeout_next it c = Some (r, it', c') \<Longrightarrow> untold c = handed_by r @ untold c'"
  by (auto simp: iter_next_def blocking_next_def timeout_next_def pop_front_def front_untold
      dest: iter_listener.block_untold blocking_listener.block_untold timeout_listener.block_untold split: list.splits)

text \<open>
  C31: Whatever a program does with a blocking client, the notifications that it has been handed, those in the queue and those that the
  connection still delivers are together the ones of the connection, in their order: none is lost, repeated or overtaken, also not by
  calls that fail, that time out or that wait for something else.
\<close>

theorem notifications_in_order:
  assumes "listens futures c0 ns c"
  shows "untold c0 = ns @ untold c"
  using assms
proof (induction rule: listens.induct)
  case (listen_call ns c p s r s' c')
  from future_listener.block_untold [OF listen_call.hyps(3) [unfolded block_on_def]] listen_call.IH show ?case by simp
qed (auto dest: iterators_untold)

theorem notifications_in_order_witness:
  "\<exists>c. untold (blocking_new [Pending, Ready (Some (Inr (Notification 7 [97] []))), Ready (Some (Inr (Notification 8 [98] [])))] 0 [3]) =
     [(7, [97], [])] @ untold c"
proof -
  let ?c0 = "blocking_new [Pending, Ready (Some (Inr (Notification 7 [97] []))), Ready (Some (Inr (Notification 8 [98] [])))] 0 [3]"
  have "\<exists>c. blocking_next ?c0 = Some (Inr (Some (7, [97], [])), c)"
    by (simp add: blocking_new_def blocking_next_def pop_front_def poll_block_on.simps poll_connection.simps blocking_task_def)
  then obtain c where "blocking_next ?c0 = Some (Inr (Some (7, [97], [])), c)" ..
  from listen_blocking [OF listen_start this, of "{\<lambda>s. (Ready (Inr ()), s :: unit)}"]
  have "listens {\<lambda>s. (Ready (Inr ()), s :: unit)} ?c0 [(7, [97], [])] c" by simp
  from notifications_in_order [OF this] show ?thesis by blast
qed

section \<open>Waiting\<close>

definition ended :: "blocking \<Rightarrow> bool" where
  "ended c \<longleftrightarrow> chan_poll (bl_connection c) = (Ready None, bl_connection c)"

definition no_failure :: "blocking \<Rightarrow> bool" where
  "no_failure c \<longleftrightarrow> list_all (\<lambda>i. case i of Inl _ \<Rightarrow> False | Inr _ \<Rightarrow> True) (chan_items (bl_connection c))"

lemma poll_connection_result:
  "poll_connection c = (r, c') \<Longrightarrow> (r = Inr True \<longrightarrow> ended c') \<and> (no_failure c \<longrightarrow> no_failure c' \<and> (\<exists>b. r = Inr b)) \<and>
     length (bl_connection c') \<le> length (bl_connection c)"
proof (induction c rule: poll_connection.induct)
  case (1 c)
  obtain p rx where p: "chan_poll (bl_connection c) = (p, rx)" by (cases "chan_poll (bl_connection c)")
  from p show ?case
  proof (cases rule: chan_poll_cases)
    case (notice e)
    let ?c = "c\<lparr>bl_connection := rx, bl_notices := bl_notices c @ [e]\<rparr>"
    have "(r = Inr True \<longrightarrow> ended c') \<and> (no_failure ?c \<longrightarrow> no_failure c' \<and> (\<exists>b. r = Inr b)) \<and> length (bl_connection c') \<le> length rx"
      using 1 p notice by (simp add: poll_connection.simps [of c])
    with notice show ?thesis by (simp add: no_failure_def)
  next
    case (notification pid channel payload)
    let ?c = "c\<lparr>bl_connection := rx, bl_notifications := bl_notifications c @ [(pid, channel, payload)]\<rparr>"
    have "(r = Inr True \<longrightarrow> ended c') \<and> (no_failure ?c \<longrightarrow> no_failure c' \<and> (\<exists>b. r = Inr b)) \<and> length (bl_connection c') \<le> length rx"
      using 1 p notification by (simp add: poll_connection.simps [of c])
    with notification show ?thesis by (simp add: no_failure_def)
  qed (use 1 p chan_poll_length [OF p] in \<open>auto simp: poll_connection.simps [of c] no_failure_def ended_def\<close>)
qed

lemma no_failure_simps [simp]:
  "no_failure (c\<lparr>bl_notifications := ns\<rparr>) = no_failure c" "no_failure (c\<lparr>bl_now := t\<rparr>) = no_failure c"
  "no_failure (c\<lparr>bl_waits := ws\<rparr>) = no_failure c" "ended (c\<lparr>bl_notifications := ns\<rparr>) = ended c"
  by (simp_all add: no_failure_def ended_def)

text \<open>The last poll of a task.\<close>

lemma block_last:
  assumes "poll_block_on f s c = Some (r, s', c')" "I s"
    and "\<And>s now b ns ns' s'. I s \<Longrightarrow> f s now b ns = (Pending, ns', s') \<Longrightarrow> I s'"
  shows "(\<exists>e. r = Inl e) \<or> (\<exists>s1 c1 b ns. I s1 \<and> f s1 (bl_now c1) b (bl_notifications c1) = (Ready r, ns, s') \<and>
    c' = c1\<lparr>bl_notifications := ns\<rparr> \<and> (b \<longrightarrow> ended c1))"
  using assms(1,2)
proof (induction c arbitrary: s rule: measure_induct_rule [where f = "\<lambda>c. length (bl_waits c)"])
  case (less c)
  obtain q c1 where q: "poll_connection c = (q, c1)" by (cases "poll_connection c")
  show ?case
  proof (cases q)
    case (Inl e)
    with less.prems q show ?thesis by (auto simp: poll_block_on.simps [of f s c])
  next
    case (Inr b)
    obtain p ns s1 where f: "f s (bl_now c1) b (bl_notifications c1) = (p, ns, s1)" by (cases "f s (bl_now c1) b (bl_notifications c1)")
    show ?thesis
    proof (cases p)
      case Pending
      with less.prems q f Inr obtain w ws where w: "bl_waits c1 = w # ws"
        "poll_block_on f s1 (c1\<lparr>bl_notifications := ns, bl_now := bl_now c1 + w, bl_waits := ws\<rparr>) = Some (r, s', c')"
        by (auto simp: poll_block_on.simps [of f s c] split: list.splits)
      have "length ws < length (bl_waits c)" using w(1) poll_connection_keeps [of q c1 c] q by simp
      with less.IH [OF _ w(2)] assms(3) [OF less.prems(2) f [unfolded Pending]] show ?thesis by simp
    next
      case (Ready r')
      with less.prems q f Inr have "r = r'" "s' = s1" "c' = c1\<lparr>bl_notifications := ns\<rparr>"
        by (auto simp: poll_block_on.simps [of f s c])
      with f Ready less.prems(2) poll_connection_result [OF q] Inr show ?thesis by (intro disjI2) auto
    qed
  qed
qed

text \<open>
  The iterator that does not block returns without waiting; the blocking one reports the end only when the connection has ended; the one with a
  limit only when it has ended or the time is up, and all of them only when no notification is there.
\<close>

lemma blocking_iterators_end:
  "iter_next c \<noteq> None \<and>
   \<not> (\<exists>c'. blocking_next c = Some (Inr None, c') \<and> \<not> (ended c' \<and> bl_notifications c' = [])) \<and>
   \<not> (\<exists>it' c'. timeout_next it c = Some (Inr None, it', c') \<and> \<not> ((ended c' \<or> ti_delay it \<le> bl_now c') \<and> bl_notifications c' = []))"
proof (intro conjI notI)
  assume "iter_next c = None"
  then show False by (auto simp: iter_next_def pop_front_def poll_block_on.simps iter_task_def split: list.splits prod.splits sum.splits)
next
  assume "\<exists>c'. blocking_next c = Some (Inr None, c') \<and> \<not> (ended c' \<and> bl_notifications c' = [])"
  then obtain c' where c: "blocking_next c = Some (Inr None, c')" "\<not> (ended c' \<and> bl_notifications c' = [])" by blast
  then obtain s' where "poll_block_on blocking_task () c = Some (Inr None, s', c')"
    by (auto simp: blocking_next_def pop_front_def split: list.splits)
  from block_last [OF this, of "\<lambda>_. True"] c(2) show False
    by (auto simp: blocking_task_def pop_front_def neq_Nil_conv split: list.splits if_splits)
next
  assume "\<exists>it' c'. timeout_next it c = Some (Inr None, it', c') \<and> \<not> ((ended c' \<or> ti_delay it \<le> bl_now c') \<and> bl_notifications c' = [])"
  then obtain it' c' where c: "timeout_next it c = Some (Inr None, it', c')" "\<not> ((ended c' \<or> ti_delay it \<le> bl_now c') \<and> bl_notifications c' = [])"
    by blast
  then obtain d where d: "poll_block_on (timeout_iter_task (ti_timeout it)) (ti_delay it) c = Some (Inr None, d, c')"
    by (auto simp: timeout_next_def pop_front_def split: list.splits)
  have keep: "d' = ti_delay it" if "d0 = ti_delay it" "timeout_iter_task (ti_timeout it) d0 now b ns = (Pending, ns', d')" for d0 d' now b ns ns'
    using that by (cases ns) (simp_all add: timeout_iter_task_def pop_front_def)
  have "(\<exists>e. (Inr None :: error fault + notification option) = Inl e) \<or> (\<exists>s1 c1 b ns. s1 = ti_delay it \<and>
      timeout_iter_task (ti_timeout it) s1 (bl_now c1) b (bl_notifications c1) = (Ready (Inr None), ns, d) \<and>
      c' = c1\<lparr>bl_notifications := ns\<rparr> \<and> (b \<longrightarrow> ended c1))"
    by (rule block_last [where I = "\<lambda>d. d = ti_delay it", OF d refl]) (rule keep)
  then obtain c1 b ns where l: "timeout_iter_task (ti_timeout it) (ti_delay it) (bl_now c1) b (bl_notifications c1) = (Ready (Inr None), ns, d)"
    "c' = c1\<lparr>bl_notifications := ns\<rparr>" "b \<longrightarrow> ended c1" by auto
  then have "bl_notifications c1 = []" "ns = []" "b \<or> ti_delay it \<le> bl_now c1"
    by (cases "bl_notifications c1"; simp add: timeout_iter_task_def pop_front_def split: if_splits)+
  with l(2,3) c(2) show False by auto
qed

section \<open>Futures\<close>

lemma block_on_simps:
  "block_on p s c =
     (case poll_connection c of
        (Inl e, c) \<Rightarrow> Some (Inl e, s, c)
      | (Inr _, c) \<Rightarrow>
          (case p s of
             (Ready r, s) \<Rightarrow> Some (r, s, c)
           | (Pending, s) \<Rightarrow>
               (case bl_waits c of
                  [] \<Rightarrow> None
                | w # ws \<Rightarrow> block_on p s (c\<lparr>bl_now := bl_now c + w, bl_waits := ws\<rparr>))))"
  unfolding block_on_def by (subst poll_block_on.simps) (simp add: future_task_def split: prod.split sum.split poll.split list.split)

lemma block_on_sound:
  assumes "block_on p s c = Some (r, s', c')"
  shows "await_ready p s = Some (r, s') \<or> (\<exists>e. r = Inl e) \<and> \<not> no_failure c"
  using assms
proof (induction c arbitrary: s rule: measure_induct_rule [where f = "\<lambda>c. length (bl_waits c)"])
  case (less c)
  obtain q c1 where q: "poll_connection c = (q, c1)" by (cases "poll_connection c")
  obtain x s1 where x: "p s = (x, s1)" by (cases "p s")
  show ?case
  proof (cases q)
    case (Inl e)
    with less.prems q poll_connection_result [OF q] show ?thesis by (auto simp: block_on_simps [of p s c])
  next
    case (Inr b)
    show ?thesis
    proof (cases x)
      case Pending
      with less.prems q Inr x obtain w ws where w: "bl_waits c1 = w # ws"
        "block_on p s1 (c1\<lparr>bl_now := bl_now c1 + w, bl_waits := ws\<rparr>) = Some (r, s', c')"
        by (auto simp: block_on_simps [of p s c] split: list.splits)
      have "length ws < length (bl_waits c)" using w(1) poll_connection_keeps [of q c1 c] q by simp
      with less.IH [OF _ w(2)] poll_connection_result [OF q] x Pending show ?thesis
        by (auto simp: await_ready.simps [of p s])
    next
      case (Ready r')
      with less.prems q Inr x show ?thesis by (simp add: block_on_simps [of p s c] await_ready.simps [of p s])
    qed
  qed
qed

lemma block_on_value: "block_on p s c = Some (Inr v, s', c') \<Longrightarrow> await_ready p s = Some (Inr v, s')"
  using block_on_sound by fastforce

lemma block_on_complete:
  fixes p :: "'s \<Rightarrow> (error fault + 'a) poll \<times> 's"
  assumes "await_ready p s = Some r"
  shows "\<exists>ws. \<forall>c. no_failure c \<and> bl_waits c = ws \<longrightarrow> (\<exists>c'. block_on p s c = Some (fst r, snd r, c'))"
proof (rule await_ready.raw_induct [OF _ assms])
  fix g and p :: "'s \<Rightarrow> (error fault + 'a) poll \<times> 's" and s and r :: "(error fault + 'a) \<times> 's"
  assume IH: "\<And>p s (r :: (error fault + 'a) \<times> 's). g p s = Some r \<Longrightarrow>
      \<exists>ws. \<forall>c. no_failure c \<and> bl_waits c = ws \<longrightarrow> (\<exists>c'. block_on p s c = Some (fst r, snd r, c'))"
    and body: "(case p s of (Ready x, s) \<Rightarrow> Some (x, s) | (Pending, s) \<Rightarrow> g p s) = Some r"
  obtain x s1 where x: "p s = (x, s1)" by (cases "p s")
  have step: "\<exists>c1 b. poll_connection c = (Inr b, c1) \<and> no_failure c1 \<and> bl_waits c1 = bl_waits c" if "no_failure c" for c
    using that poll_connection_result [of c] poll_connection_waits [of c] by (cases "poll_connection c") fastforce
  show "\<exists>ws. \<forall>c. no_failure c \<and> bl_waits c = ws \<longrightarrow> (\<exists>c'. block_on p s c = Some (fst r, snd r, c'))"
  proof (cases x)
    case Pending
    with body x IH [of p s1 r] obtain ws where ws: "\<And>c. no_failure c \<and> bl_waits c = ws \<Longrightarrow> \<exists>c'. block_on p s1 c = Some (fst r, snd r, c')"
      by auto
    have "\<exists>c'. block_on p s c = Some (fst r, snd r, c')" if c: "no_failure c" "bl_waits c = 0 # ws" for c
    proof -
      from step [OF c(1)] obtain c1 b where c1: "poll_connection c = (Inr b, c1)" "no_failure c1" "bl_waits c1 = 0 # ws"
        using c(2) by auto
      with ws [of "c1\<lparr>bl_now := bl_now c1 + 0, bl_waits := ws\<rparr>"] x Pending show ?thesis
        by (simp add: block_on_simps [of p s c])
    qed
    then show ?thesis by (intro exI [of _ "0 # ws"]) blast
  next
    case (Ready y)
    have "\<exists>c'. block_on p s c = Some (fst r, snd r, c')" if c: "no_failure c" for c
      using step [OF c] body x Ready by (auto simp: block_on_simps [of p s c])
    then show ?thesis by blast
  qed
qed

text \<open>
  As long as the connection does not fail, waiting for a future with a blocking client yields what awaiting it yields, and nothing
  else: it returns, woken often enough, exactly when the future completes.
\<close>

lemma block_on_awaits:
  assumes "no_failure c"
  shows "(\<exists>ws c'. block_on p s (c\<lparr>bl_waits := ws\<rparr>) = Some (r, s', c')) \<longleftrightarrow> await_ready p s = Some (r, s')"
proof
  assume "\<exists>ws c'. block_on p s (c\<lparr>bl_waits := ws\<rparr>) = Some (r, s', c')"
  then show "await_ready p s = Some (r, s')" using block_on_sound assms by fastforce
next
  assume "await_ready p s = Some (r, s')"
  from block_on_complete [OF this] obtain ws where
    "\<And>c. no_failure c \<and> bl_waits c = ws \<Longrightarrow> \<exists>c'. block_on p s c = Some (r, s', c')" by auto
  from this [of "c\<lparr>bl_waits := ws\<rparr>"] assms show "\<exists>ws c'. block_on p s (c\<lparr>bl_waits := ws\<rparr>) = Some (r, s', c')" by auto
qed

theorem block_on_awaits_witness:
  "\<exists>ws c'. block_on (\<lambda>n. (if n = 0 then Ready (Inr ''x'') else Pending, n - 1)) (2 :: nat)
     ((blocking_new [Ready (Some (Inr (Notification 7 [] [])))] 0 [])\<lparr>bl_waits := ws\<rparr>) = Some (Inr ''x'', 0, c')"
proof -
  have c: "no_failure (blocking_new [Ready (Some (Inr (Notification 7 [] [])))] 0 [])" by (simp add: no_failure_def blocking_new_def)
  show ?thesis
    using block_on_awaits [OF c, of "\<lambda>n. (if n = 0 then Ready (Inr ''x'') else Pending, n - 1)" "2 :: nat" "Inr ''x''" 0]
    by (simp add: await_ready.simps)
qed

section \<open>Reading a copy\<close>

definition copy_messages :: "bytes list \<Rightarrow> message list \<Rightarrow> message list" where
  "copy_messages chunks rest = map CopyData chunks @ CopyDone # rest"

lemma copy_out_poll:
  assumes "holds r (copy_messages chunks rest)" "copy_out_poll_next r = (p, r')"
  shows "p = Pending \<and> holds r' (copy_messages chunks rest) \<or>
    (case chunks of [] \<Rightarrow> p = Ready None | d # ds \<Rightarrow> p = Ready (Some (Inr d)) \<and> holds r' (copy_messages ds rest))"
proof -
  obtain q r1 where q: "responses_poll_next r = (q, r1)" by (cases "responses_poll_next r")
  from poll_next_holds [OF assms(1)] q assms(2) show ?thesis
    by (cases q; cases chunks)
      (auto simp: poll_result_ok_def copy_out_poll_next_def item_of_def map_err_def copy_messages_def split: sum.splits)
qed

lemma next_copy_out:
  assumes "holds t (copy_messages chunks rest)" "next_future copy_out_poll_next t = (p, t')"
  shows "p = Pending \<and> holds t' (copy_messages chunks rest) \<or>
    (case chunks of [] \<Rightarrow> p = Ready (Inr None) | d # ds \<Rightarrow> p = Ready (Inr (Some d)) \<and> holds t' (copy_messages ds rest))"
proof -
  obtain q t1 where q: "copy_out_poll_next t = (q, t1)" by (cases "copy_out_poll_next t")
  from copy_out_poll [OF assms(1) q] assms(2) q show ?thesis
    by (cases q; cases chunks) (auto simp: next_future_def transpose_item_def)
qed

lemma copy_out_block:
  assumes "holds r (copy_messages chunks rest)" "block_on (next_future copy_out_poll_next) r c = Some (Inr x, r', c')"
  shows "case chunks of [] \<Rightarrow> x = None | d # ds \<Rightarrow> x = Some d \<and> holds r' (copy_messages ds rest)"
proof -
  have pending: "holds t' (copy_messages chunks rest)"
    if "holds t (copy_messages chunks rest)" "next_future copy_out_poll_next t = (Pending, t')" for t t'
    using next_copy_out [OF that] by (cases chunks) simp_all
  have "\<exists>t. holds t (copy_messages chunks rest) \<and>
      next_future copy_out_poll_next t = (Ready (fst (Inr x :: error fault + bytes option, r')), snd (Inr x :: error fault + bytes option, r'))"
    by (rule await_ready_ends [where I = "\<lambda>t. holds t (copy_messages chunks rest)", OF block_on_value [OF assms(2)] assms(1)])
      (rule pending)
  then obtain t where t: "holds t (copy_messages chunks rest)" "next_future copy_out_poll_next t = (Ready (Inr x), r')" by auto
  from next_copy_out [OF t] show ?thesis by (cases chunks) simp_all
qed

text \<open>A channel on which the first message is there.\<close>

lemma ready_message:
  assumes "sendable Standard m" "\<not> (\<exists>b. m = ErrorResponse b)"
  shows "\<exists>r. responses_poll_next (responses_new (Ready (Some (mk_messages Standard [m])) # ch)) = (Ready (Inr m), r)"
proof -
  have "messages_next messages_empty = Inr (None, messages_empty)"
    by (simp add: messages_next_def messages_empty_def parse_with_mode_short)
  moreover have "batch_holds (mk_messages Standard [m]) [m]" using assms(1) by (auto simp: batch_holds_def)
  then obtain b where "messages_next (mk_messages Standard [m]) = Inr (Some m, b)" using batch_next_Cons by blast
  ultimately show ?thesis
    using assms(2) by (simp add: responses_poll_next.simps [of "\<lparr>rs_receiver = Ready (Some (mk_messages Standard [m])) # ch, rs_cur = messages_empty\<rparr>"]
      responses_poll_next.simps [of "\<lparr>rs_receiver = ch, rs_cur = mk_messages Standard [m]\<rparr>"] responses_new_def split: message.split)
qed

text \<open>A reader that has the bytes \<open>left\<close> before it.\<close>

definition reader_has :: "message list \<Rightarrow> bytes \<Rightarrow> copy_out_reader \<Rightarrow> bool" where
  "reader_has rest left rd \<longleftrightarrow> (\<exists>chunks. holds (lp_value (out_stream rd)) (copy_messages chunks rest) \<and> left = out_cur rd @ concat chunks)"

lemma fill_buf_has:
  assumes "holds (lp_value (out_stream rd)) (copy_messages chunks rest)" "fill_buf rd c = Some (Inr b, rd', c')"
  shows "b = out_cur rd' \<and> (if b = [] then out_cur rd @ concat chunks = [] else reader_has rest (out_cur rd @ concat chunks) rd')"
  using assms
proof (induction chunks arbitrary: rd c)
  case Nil
  show ?case
  proof (cases "out_cur rd = []")
    case True
    then obtain x r1 c1 where x: "block_on (next_future copy_out_poll_next) (lp_value (out_stream rd)) c = Some (Inr x, r1, c1)"
      using Nil.prems(2) by (subst (asm) fill_buf.simps) (auto split: option.splits sum.splits)
    from copy_out_block [OF Nil.prems(1) x] have "x = None" by simp
    with Nil.prems(2) True x show ?thesis by (subst (asm) fill_buf.simps) (auto simp: after_next_def)
  next
    case False
    with Nil.prems show ?thesis by (subst (asm) fill_buf.simps) (auto simp: reader_has_def)
  qed
next
  case (Cons d ds)
  show ?case
  proof (cases "out_cur rd = []")
    case True
    then obtain x r1 c1 where x: "block_on (next_future copy_out_poll_next) (lp_value (out_stream rd)) c = Some (Inr x, r1, c1)"
      using Cons.prems(2) by (subst (asm) fill_buf.simps) (auto split: option.splits sum.splits)
    from copy_out_block [OF Cons.prems(1) x] have d: "x = Some d" "holds r1 (copy_messages ds rest)" by simp_all
    have "fill_buf (after_next r1 rd\<lparr>out_cur := d\<rparr>) c1 = Some (Inr b, rd', c')"
      using Cons.prems(2) True x d(1) by (subst (asm) fill_buf.simps) simp
    with Cons.IH [OF _ this] d(2) True show ?thesis by (cases "b = []") (simp_all add: after_next_def)
  next
    case False
    with Cons.prems show ?thesis by (subst (asm) fill_buf.simps) (auto simp: reader_has_def)
  qed
qed

text \<open>Reads into buffers of the lengths \<open>ns\<close>, up to the first that yields nothing although it could.\<close>

fun reader_run ::
  "nat list \<Rightarrow> copy_out_reader \<Rightarrow> blocking \<Rightarrow> ((error fault + bytes list \<times> bool) \<times> copy_out_reader \<times> blocking) option" where
  "reader_run [] rd c = Some (Inr ([], False), rd, c)"
| "reader_run (n # ns) rd c =
     (case reader_read n rd c of
        None \<Rightarrow> None
      | Some (Inl e, rd, c) \<Rightarrow> Some (Inl e, rd, c)
      | Some (Inr b, rd, c) \<Rightarrow>
          if b = [] \<and> n > 0 then Some (Inr ([], True), rd, c)
          else map_option (\<lambda>(r, rd, c). (bind_res r (\<lambda>(bs, eof). Inr (b # bs, eof)), rd, c)) (reader_run ns rd c))"

lemma reader_read_has:
  assumes "reader_has rest left rd" "reader_read n rd c = Some (Inr b, rd', c')" "n > 0"
  shows "b = [] \<and> left = [] \<or> b \<noteq> [] \<and> length b \<le> n \<and> (\<exists>left'. left = b @ left' \<and> reader_has rest left' rd')"
proof -
  from assms(1) obtain chunks where h: "holds (lp_value (out_stream rd)) (copy_messages chunks rest)" "left = out_cur rd @ concat chunks"
    by (auto simp: reader_has_def)
  from assms(2) obtain f rd1 where f: "fill_buf rd c = Some (Inr f, rd1, c')" "b = take (min n (length f)) f" "consume (min n (length f)) rd1 = Some rd'"
    by (auto simp: reader_read_def Let_def split: option.splits sum.splits)
  from fill_buf_has [OF h(1) f(1)] have fill: "f = out_cur rd1" "if f = [] then left = [] else reader_has rest left rd1" by (simp_all add: h(2))
  show ?thesis
  proof (cases "f = []")
    case True
    with f(2) fill show ?thesis by simp
  next
    case False
    with fill obtain ch where ch: "holds (lp_value (out_stream rd1)) (copy_messages ch rest)" "left = f @ concat ch" by (auto simp: reader_has_def)
    have "left = b @ drop (min n (length f)) f @ concat ch" by (simp add: f(2) ch(2))
    moreover have "reader_has rest (drop (min n (length f)) f @ concat ch) rd'"
      using ch(1) fill(1) f(3) by (auto simp: reader_has_def consume_def split: if_splits)
    moreover have "b \<noteq> []" "length b \<le> n" using False assms(3) by (auto simp: f(2))
    ultimately show ?thesis by blast
  qed
qed

lemma reader_run_has:
  assumes "reader_has rest left rd" "reader_run ns rd c = Some (Inr (bs, eof), rd', c')" "list_all (\<lambda>n. n > 0) ns"
  shows "\<exists>more. left = concat bs @ more \<and> (eof \<longrightarrow> more = [])"
  using assms
proof (induction ns arbitrary: rd c left bs)
  case (Cons n ns)
  from Cons.prems(2) obtain b rd1 c1 where b: "reader_read n rd c = Some (Inr b, rd1, c1)"
    by (auto split: option.splits sum.splits)
  with reader_read_has [OF Cons.prems(1) b] Cons.prems(3)
  consider "b = []" "left = []" | left' where "b \<noteq> []" "left = b @ left'" "reader_has rest left' rd1" by auto
  then show ?case
  proof cases
    case 1
    with Cons.prems(2,3) b show ?thesis by auto
  next
    case 2
    with Cons.prems(2) b obtain bs' where bs: "reader_run ns rd1 c1 = Some (Inr (bs', eof), rd', c')" "bs = b # bs'"
      by (cases "reader_run ns rd1 c1") (auto split: sum.splits)
    from Cons.IH [OF 2(3) bs(1)] Cons.prems(3) 2(2) bs(2) show ?thesis by auto
  qed
qed auto

text \<open>
  A reader of a copy yields the bytes of the copy in their order, however the server has cut them into blocks, empty ones included, and
  however large the buffers are; it reports the end only when every byte has been read.
\<close>

lemma copy_read_whole:
  assumes "holds stream (copy_messages chunks rest)" "list_all (\<lambda>n. n > 0) ns"
    and "reader_run ns (copy_out_reader_new stream) c = Some (Inr (bs, eof), rd, c')"
  shows "\<exists>more. concat chunks = concat bs @ more \<and> (more = [] \<or> \<not> eof)"
proof -
  have "reader_has rest (concat chunks) (copy_out_reader_new stream)"
    using assms(1) by (auto simp: reader_has_def copy_out_reader_new_def lazy_new_def)
  from reader_run_has [OF this assms(3,2)] show ?thesis by blast
qed

theorem copy_read_whole_witness:
  "\<exists>more. concat [[1, 2], [3]] = concat [[1 :: u8]] @ more \<and> more \<noteq> []"
proof -
  let ?chunks = "[[1, 2], [3]] :: bytes list"
  let ?ms = "copy_messages ?chunks []"
  let ?ch = "map (\<lambda>m. Ready (Some (mk_messages Standard [m]))) ?ms"
  let ?c = "blocking_new [] 0 []"
  have ms: "list_all (sendable Standard) ?ms"
    by (simp add: copy_messages_def sendable_def wf_message_def message_wire_def max_body_def frame_def wire_defs)
  have items: "chan_items (map (\<lambda>m. Ready (Some (mk_messages Standard [m]))) xs) = map (\<lambda>m. mk_messages Standard [m]) xs" for xs
    by (induction xs) simp_all
  have "list_all2 batch_holds (map (\<lambda>m. mk_messages Standard [m]) xs) (map (\<lambda>m. [m]) xs)" if "list_all (sendable Standard) xs" for xs
    using that by (induction xs) (auto simp: batch_holds_def)
  moreover have "batch_holds messages_empty []"
    by (auto simp: batch_holds_def mk_messages_def messages_empty_def messages_with_mode_def)
  moreover have "concat (map (\<lambda>m. [m]) xs) = xs" for xs :: "message list" by (induction xs) simp_all
  ultimately have holds: "holds (responses_new ?ch) ?ms"
    unfolding holds_def responses_new_def using ms items [of ?ms]
    by (intro exI [of _ "[]"] exI [of _ "map (\<lambda>m. [m]) ?ms"]) simp
  have "sendable Standard (CopyData [1, 2])" using ms by (simp add: copy_messages_def)
  from ready_message [OF this, of "tl ?ch"] obtain r where r: "responses_poll_next (responses_new ?ch) = (Ready (Inr (CopyData [1, 2])), r)"
    by (auto simp: copy_messages_def)
  have c: "poll_connection ?c = (Inr False, ?c)" by (simp add: poll_connection.simps blocking_new_def)
  have "block_on (next_future copy_out_poll_next) (responses_new ?ch) ?c = Some (Inr (Some [1, 2]), r, ?c)"
    by (simp add: block_on_simps c next_future_def copy_out_poll_next_def r item_of_def map_err_def transpose_item_def)
  then have "fill_buf (copy_out_reader_new (responses_new ?ch)) ?c =
      Some (Inr [1, 2], after_next r (copy_out_reader_new (responses_new ?ch))\<lparr>out_cur := [1, 2]\<rparr>, ?c)"
    by (subst fill_buf.simps, simp add: copy_out_reader_new_def lazy_new_def, subst fill_buf.simps, simp)
  then obtain rd where "reader_run [1] (copy_out_reader_new (responses_new ?ch)) ?c = Some (Inr ([[1]], False), rd, ?c)"
    by (simp add: reader_read_def consume_def)
  from copy_read_whole [OF holds _ this] show ?thesis by auto
qed

section \<open>Writing a copy\<close>

lemma send_future_fed: "send_future (it, s) = (Ready (Inr ()), st) \<Longrightarrow> fst st = None"
proof (cases it)
  case None
  then show "send_future (it, s) = (Ready (Inr ()), st) \<Longrightarrow> fst st = None"
    by (cases "sink_poll_flush s") (auto simp: send_future_def split: poll.splits)
next
  case (Some b)
  obtain y s1 where y: "sink_poll_ready s = (y, s1)" by (cases "sink_poll_ready s")
  obtain z s2 where z: "sink_start_send b s1 = (z, s2)" by (cases "sink_start_send b s1")
  obtain x s3 where x: "sink_poll_flush s2 = (x, s3)" by (cases "sink_poll_flush s2")
  show "send_future (it, s) = (Ready (Inr ()), st) \<Longrightarrow> fst st = None"
    by (auto simp: send_future_def Some y z x split: poll.splits sum.splits)
qed

lemma send_future_await:
  assumes "await_ready send_future (it, s) = Some (Inr (), st)" "active_at q fed s"
  shows "active_at q (fed @ (case it of None \<Rightarrow> [] | Some b \<Rightarrow> b)) (snd st)"
proof -
  let ?all = "fed @ (case it of None \<Rightarrow> [] | Some b \<Rightarrow> b)"
  let ?I = "\<lambda>t :: bytes option \<times> copy_in_sink. \<exists>fed'. active_at q fed' (snd t) \<and>
    fed' @ (case fst t of None \<Rightarrow> [] | Some b \<Rightarrow> b) = ?all"
  have flush: "active_at q fed' s'" if "active_at q fed' s0" "sink_poll_flush s0 = (r, s')" "r = Pending \<or> r = Ready (Inr ())" for fed' s0 s' r
    using active_polls(2) that by blast
  have step: "?I t'" if I: "?I t" and t: "send_future t = (r, t')" "r = Pending \<or> r = Ready (Inr ())" for t t' r
  proof -
    obtain it s0 where t0: "t = (it, s0)" by (cases t)
    from I obtain fed' where f: "active_at q fed' s0" "fed' @ (case it of None \<Rightarrow> [] | Some b \<Rightarrow> b) = ?all" by (auto simp: t0)
    have flushed: "?I t'" if "active_at q ?all s1" "sink_poll_flush s1 = (x, s2)" "t' = (None, s2)" "x = Pending \<or> x = Ready (Inr ())" for s1 s2 x
      using flush [OF that(1,2,4)] that(3) by auto
    show ?thesis
    proof (cases it)
      case None
      obtain x s2 where x: "sink_poll_flush s0 = (x, s2)" by (cases "sink_poll_flush s0")
      show ?thesis
        by (rule flushed [OF _ x]) (use f None t x in \<open>auto simp: send_future_def t0 map_err_def split: poll.splits sum.splits\<close>)
    next
      case (Some b)
      obtain y s1 where y: "sink_poll_ready s0 = (y, s1)" by (cases "sink_poll_ready s0")
      have s1: "active_at q fed' s1" by (rule active_polls(1) [OF f(1) y])
      consider "y = Pending" | "y = Ready (Inr ())" | e where "y = Ready (Inl e)" by (metis (full_types) old.sum.exhaust old.unit.exhaust poll.exhaust)
      then show ?thesis
      proof cases
        case 1
        with s1 f(2) Some t y show ?thesis by (auto simp: send_future_def t0)
      next
        case 2
        obtain z s2 where z: "sink_start_send b s1 = (z, s2)" by (cases "sink_start_send b s1")
        from t(1,2) y z 2 Some have zz: "z = Inr ()" by (cases z) (auto simp: send_future_def t0)
        have s2: "active_at q ?all s2" using active_polls(3) [OF s1 z [unfolded zz]] f(2) Some by simp
        obtain x s3 where x: "sink_poll_flush s2 = (x, s3)" by (cases "sink_poll_flush s2")
        show ?thesis
          by (rule flushed [OF s2 x]) (use t y z 2 zz Some x in \<open>auto simp: send_future_def t0 map_err_def split: poll.splits sum.splits\<close>)
      next
        case 3
        with t y Some show ?thesis by (auto simp: send_future_def t0)
      qed
    qed
  qed
  have "?I st" by (rule await_ready_keeps [OF assms(1), where I = ?I]) (use assms(2) step in auto)
  moreover have "\<exists>t. True \<and> send_future t = (Ready (Inr ()), st)" using await_ready_ends [OF assms(1), of "\<lambda>_. True"] by simp
  then have "fst st = None" by (metis send_future_fed surj_pair)
  ultimately show ?thesis by simp
qed

lemma await_mapped:
  fixes q :: "'s \<Rightarrow> 'b poll \<times> 's" and p :: "'s \<Rightarrow> 'a poll \<times> 's"
  assumes "await_ready q s = Some r" and q: "q = (\<lambda>s. case p s of (Pending, s) \<Rightarrow> (Pending, s) | (Ready x, s) \<Rightarrow> (Ready (g x), s))"
  shows "\<exists>x. fst r = g x \<and> await_ready p s = Some (x, snd r)"
proof -
  let ?q = "\<lambda>p s. case p s of (Pending, s) \<Rightarrow> (Pending, s) | (Ready x, s) \<Rightarrow> (Ready (g x), s)"
  have "\<forall>p. q = ?q p \<longrightarrow> (\<exists>x. fst r = g x \<and> await_ready p s = Some (x, snd r))"
  proof (rule await_ready.raw_induct [OF _ assms(1)], intro allI impI)
    fix f q s and r :: "'b \<times> 's" and p :: "'s \<Rightarrow> 'a poll \<times> 's"
    assume IH: "\<And>q s (r :: 'b \<times> 's). f q s = Some r \<Longrightarrow> \<forall>p. q = ?q p \<longrightarrow> (\<exists>x. fst r = g x \<and> await_ready p s = Some (x, snd r))"
      and body: "(case q s of (Ready x, s) \<Rightarrow> Some (x, s) | (Pending, s) \<Rightarrow> f q s) = Some r" and q: "q = ?q p"
    obtain y s1 where y: "p s = (y, s1)" by (cases "p s")
    show "\<exists>x. fst r = g x \<and> await_ready p s = Some (x, snd r)"
    proof (cases y)
      case Pending
      with body y q have "f q s1 = Some r" by simp
      with IH [of q s1 r] q y Pending show ?thesis by (simp add: await_ready.simps [of p s])
    next
      case (Ready x)
      with body y q show ?thesis by (auto simp: await_ready.simps [of p s])
    qed
  qed
  with q show ?thesis by simp
qed

definition writer_fed :: "frontend_message \<Rightarrow> bytes \<Rightarrow> copy_in_writer \<Rightarrow> bool" where
  "writer_fed q data w \<longleftrightarrow> (\<exists>fed. active_at q fed (lp_value (in_sink w)) \<and> fed @ in_buf w = data)"

lemma flush_inner_fed:
  assumes "flush_inner w c = Some (Inr (), w', c')" "writer_fed q data w"
  shows "writer_fed q data w' \<and> in_buf w' = []"
proof (cases "in_buf w = []")
  case True
  with assms show ?thesis by (simp add: flush_inner_def)
next
  case False
  with assms(1) obtain it sink where b: "block_on send_future (Some (in_buf w), lp_value (in_sink w)) c = Some (Inr (), (it, sink), c')"
    "w' = after_send sink w\<lparr>in_buf := []\<rparr>" by (auto simp: flush_inner_def)
  from assms(2) obtain fed where f: "active_at q fed (lp_value (in_sink w))" "fed @ in_buf w = data" by (auto simp: writer_fed_def)
  from send_future_await [OF block_on_value [OF b(1)] f(1)] f(2) b(2) show ?thesis by (simp add: writer_fed_def after_send_def)
qed

lemma writer_write_fed:
  assumes "writer_write buf w c = Some (Inr n, w', c')" "writer_fed q data w"
  shows "writer_fed q (data @ buf) w' \<and> n = length buf"
proof -
  obtain w1 c1 where w1: "(if length (in_buf w) > 4096 then flush_inner w c else Some (Inr (), w, c)) = Some (Inr (), w1, c1)"
    "w' = w1\<lparr>in_buf := in_buf w1 @ buf\<rparr>" "n = length buf"
    using assms(1) by (auto simp: writer_write_def split: option.splits sum.splits prod.splits)
  then have "writer_fed q data w1" using flush_inner_fed [of w c w1 c1] assms(2) by (auto split: if_splits)
  with w1 show ?thesis by (auto simp: writer_fed_def)
qed

fun write_all :: "bytes list \<Rightarrow> copy_in_writer \<Rightarrow> blocking \<Rightarrow> ((error fault + unit) \<times> copy_in_writer \<times> blocking) option" where
  "write_all [] w c = Some (Inr (), w, c)"
| "write_all (b # bs) w c =
     (case writer_write b w c of
        None \<Rightarrow> None
      | Some (Inl e, w, c) \<Rightarrow> Some (Inl e, w, c)
      | Some (Inr _, w, c) \<Rightarrow> write_all bs w c)"

lemma write_all_fed: "write_all bs w c = Some (Inr (), w', c') \<Longrightarrow> writer_fed q data w \<Longrightarrow> writer_fed q (data @ concat bs) w'"
proof (induction bs arbitrary: w c data)
  case (Cons b bs)
  from Cons.prems(1) obtain n w1 c1 where w1: "writer_write b w c = Some (Inr n, w1, c1)" "write_all bs w1 c1 = Some (Inr (), w', c')"
    by (auto split: option.splits sum.splits prod.splits)
  from Cons.IH [OF w1(2), of "data @ b"] writer_write_fed [OF w1(1) Cons.prems(2)] show ?case by simp
qed simp

text \<open>
  A copy that has been written with a blocking writer and finished has sent exactly the bytes of its writes, in blocks that are
  not empty, and the end of the copy once.
\<close>

lemma copy_written_whole:
  assumes "sd_sent sender = [Copy_Message q]"
    and "write_all bufs (copy_in_writer_new (copy_in_sink_new sender rs)) c = Some (Inr (), w, c1)"
    and "copy_in_finish w c1 = Some (Inr n, w', c')"
  shows "\<exists>blocks. sd_sent (sk_sender (lp_value (in_sink w'))) = data_sent q blocks @ [Copy_Done] \<and>
    list_all (\<lambda>b. b \<noteq> [] \<and> length b \<le> max_body) blocks \<and> concat blocks = concat bufs"
proof -
  have "writer_fed q [] (copy_in_writer_new (copy_in_sink_new sender rs))"
    using assms(1) by (simp add: writer_fed_def copy_in_writer_new_def lazy_new_def active_at_def sink_inv_def copy_in_sink_new_def data_sent_def)
  from write_all_fed [OF assms(2) this] have w: "writer_fed q (concat bufs) w" by simp
  from assms(3) obtain w1 c2 s where w1: "flush_inner w c1 = Some (Inr (), w1, c2)"
    "block_on finish_future (lp_value (in_sink w1)) c2 = Some (Inr n, s, c')" "w' = after_send s w1"
    by (auto simp: copy_in_finish_def split: option.splits sum.splits prod.splits)
  from flush_inner_fed [OF w1(1) w] have a: "active_at q (concat bufs) (lp_value (in_sink w1))" by (auto simp: writer_fed_def)
  have "\<exists>x. fst (Inr n :: error fault + u64, s) = map_err Fault x \<and> await_ready sink_poll_finish (lp_value (in_sink w1)) = Some (x, s)"
    using await_mapped [where q = finish_future and g = "map_err Fault" and p = sink_poll_finish and s = "lp_value (in_sink w1)" and
        r = "(Inr n, s)"] block_on_value [OF w1(2)] by (simp add: finish_future_def fun_eq_iff)
  then obtain x where x: "Inr n = map_err Fault x" "await_ready sink_poll_finish (lp_value (in_sink w1)) = Some (x, s)" by auto
  then have "await_ready sink_poll_finish (lp_value (in_sink w1)) = Some (Inr n, s)" by (cases x) (simp_all add: map_err_def)
  from finish_sent [OF a this] show ?thesis by (simp add: w1(3) after_send_def)
qed

theorem copy_written_whole_witness:
  "\<exists>w c1 n w' c' blocks. write_all [[7], [8, 9]] (copy_in_writer_new (copy_in_sink_new ready_sender
        (responses_new [Ready (Some (mk_messages Standard [CommandComplete (ascii ''COPY 1'')]))]))) (blocking_new [] 0 []) = Some (Inr (), w, c1) \<and>
     copy_in_finish w c1 = Some (Inr n, w', c') \<and>
     sd_sent (sk_sender (lp_value (in_sink w'))) = data_sent (Raw []) blocks @ [Copy_Done] \<and> concat blocks = [7, 8, 9]"
proof -
  let ?m = "CommandComplete (ascii ''COPY 1'')"
  let ?rs = "responses_new [Ready (Some (mk_messages Standard [?m]))]"
  let ?sink = "copy_in_sink_new ready_sender ?rs"
  let ?c = "blocking_new [] 0 []"
  let ?w = "(copy_in_writer_new ?sink)\<lparr>in_buf := [7, 8, 9]\<rparr>"
  have w: "write_all [[7], [8, 9]] (copy_in_writer_new ?sink) ?c = Some (Inr (), ?w, ?c)"
    by (simp add: writer_write_def copy_in_writer_new_def)
  have c: "poll_connection ?c = (Inr False, ?c)" by (simp add: poll_connection.simps blocking_new_def)
  note d = sink_poll_ready_def sink_poll_flush_def sink_start_send_def sender_poll_ready_def sender_poll_flush_def closed_if_not_def
    send_block_def sender_start_send_def Let_def copy_in_sink_new_def ready_sender_def numeral_3_eq_3 numeral_2_eq_2
  let ?s1 = "?sink\<lparr>sk_sender := ready_sender\<lparr>sd_ready := [Ready True], sd_flush := [Ready True],
      sd_sent := [Copy_Message (Raw []), Copy_Message (CopyDataMsg (block_of [7, 8, 9]))]\<rparr>\<rparr>"
  have "send_future (Some [7, 8, 9], ?sink) = (Ready (Inr ()), None, ?s1)"
    using copy_data_new_block [of "[7, 8, 9]" "block_of [7, 8, 9]"] by (simp add: send_future_def d max_body_def map_err_def)
  then have f: "flush_inner ?w ?c = Some (Inr (), after_send ?s1 ?w\<lparr>in_buf := []\<rparr>, ?c)"
    by (simp add: flush_inner_def block_on_simps c copy_in_writer_new_def lazy_new_def)
  have "sendable Standard ?m"
    by (simp add: sendable_def wf_message_def message_wire_def max_body_def frame_def wire_defs cstr_bytes_def ascii_def)
  from ready_message [OF this, of "[]"] obtain r where "responses_poll_next ?rs = (Ready (Inr ?m), r)" by auto
  then have "\<exists>s. finish_future ?s1 = (Ready (Inr 1), s)"
    by (simp add: finish_future_def sink_poll_finish_def finish_active_def finish_closing_def finish_reading_def sender_poll_close_def d
        copy_answer_holds(2) map_err_def)
  then obtain s where "finish_future ?s1 = (Ready (Inr 1), s)" ..
  then have "copy_in_finish ?w ?c = Some (Inr 1, after_send s (after_send ?s1 ?w\<lparr>in_buf := []\<rparr>), ?c)"
    by (simp add: copy_in_finish_def f block_on_simps c after_send_def)
  with copy_written_whole [OF _ w this, of "Raw []"] w show ?thesis by (auto simp: ready_sender_def)
qed

end
