(* ===== verification/Spec2Isabelle.thy ===== *)
theory Spec2Isabelle
  imports Hex Escape Frontend Backend_Laws Backend_Bodies Sql_Container_Laws Sha256_Auth Sasl_Laws
    Password Codec Db_Error Connection_Laws Url_Laws Statement_Laws Request_Laws
    Transaction_Laws Binary_Copy_Laws Connect_Laws Sql_Value_Laws Numeric_Laws Pg_Lsn
    Facade_Laws Sql_Text_Laws Extra_Value_Laws Output_Laws Mcp_Laws Blocking_Laws
begin

text \<open>
  A verification development for rust-opengauss, an asynchronous client for openGauss and PostgreSQL.

  The program. \<open>crates/opengauss-protocol\<close> is the wire protocol: the messages a client writes
  (\<open>message/frontend.rs\<close>), the messages a server sends (\<open>message/backend.rs\<close>), the binary formats of SQL
  values (\<open>types/mod.rs\<close>), the authentication methods (\<open>authentication/\<close>), the verifiers of stored
  passwords (\<open>password/mod.rs\<close>) and SQL quoting (\<open>escape/mod.rs\<close>). \<open>crates/tokio-opengauss\<close> is the client over
  it: the codec that cuts the byte stream into batches of messages (\<open>codec.rs\<close>), the handshake (\<open>connect_tls.rs\<close>,
  \<open>connect_raw.rs\<close>), server errors (\<open>error/mod.rs\<close>), the task that owns the socket (\<open>connection.rs\<close>), COPY (\<open>copy_in.rs\<close>)
  the client's end of a request (\<open>client.rs\<close>), statements, queries and rows (\<open>prepare.rs\<close>, \<open>query.rs\<close>, \<open>row.rs\<close> and their neighbours)
  and connection strings (\<open>config.rs\<close>). A message goes
  from the socket through \<open>decode\<close> into a batch, from the batch through \<open>messages_next\<close>, which is the parser, to the
  handshake or to the \<open>Responses\<close> of a request; a request goes through the frontend writers and \<open>encode\<close>.

  The theories, in the order the code depends on itself.
  \<^item> \<open>Prelude\<close>: words and bytes, results with errors, the big-endian readers and writers of the byteorder and bytes
    libraries, decimal printing; the locales of exact codecs (\<open>wire_value\<close>, \<open>stream_item\<close>) and of fallible
    iterators (\<open>fallible_iter\<close>, \<open>iter_source\<close>) that every reader and iterator below interprets.
    \<open>Utf8\<close>: the validation and decoding of UTF-8 that \<open>str::from_utf8\<close> performs.
  \<^item> \<open>Wire_Core\<close>: \<open>lib.rs\<close> (\<open>write_nullable\<close>, checked lengths). \<open>Frontend\<close>: every writer of \<open>frontend.rs\<close>; a writer is a
    function from the buffer to an error or the longer buffer, and a panic of an \<open>unwrap\<close> is \<open>None\<close>. \<open>server_bind\<close> and
    \<open>server_startup\<close> are the readings of the server.
  \<^item> \<open>Backend\<close>: \<open>Header\<close>, \<open>Message\<close> and \<open>parse_with_mode\<close>, the buffer being passed and returned. \<open>Backend_Laws\<close>: framing,
    stability and round trip of the parser against \<open>message_wire\<close>, the encoding of the protocol. \<open>Backend_Bodies\<close>: the
    bodies' accessors and iterators.
  \<^item> \<open>Sql_Scalars\<close>, \<open>Sql_Containers\<close>, \<open>Sql_Container_Laws\<close>: \<open>types/mod.rs\<close>, readers against writers.
  \<^item> \<open>Hex\<close>, \<open>Escape\<close>: \<open>hex.rs\<close> and the quoting, against the lexer of the server.
  \<^item> \<open>Crates\<close>: the record of the third-party functions (MD5, SHA-256, HMAC, PBKDF2, hex, base64, saslprep) and the laws
    of them that are used; \<open>sample_crates\<close> satisfies the laws, so the theorems that assume them have instances.
    \<open>Sha256_Auth\<close>, \<open>Sasl\<close>, \<open>Sasl_Laws\<close>, \<open>Password\<close>: the authentication methods against the server's side of each.
  \<^item> \<open>Codec\<close>: \<open>codec.rs\<close>, against streams of well-formed messages in arbitrary pieces. \<open>Db_Error\<close>: \<open>DbError::parse\<close> and
    the kinds of errors.
  \<^item> \<open>Startup\<close>, \<open>Startup_Laws\<close>: the handshake. The socket is a list of items to come, sends succeed or fail as a
    function says, and the random numbers are an argument.
  \<^item> \<open>Client\<close>: channels as scripts of poll results, the locale \<open>polled\<close> of streams that are polled, and \<open>Responses\<close>.
    \<open>Copy_In\<close>: \<open>copy_in.rs\<close>, the receiver and the sink, and the runs of a sink (\<open>copy_run\<close>).
  \<^item> \<open>Connection\<close>: \<open>connection.rs\<close>; one round of each loop is a function, the loops are the recursions over them, and the
    answers of the socket and of the channels are part of the state. \<open>Connection_Laws\<close>: the states reached by polling
    (\<open>conn_reach\<close>), the locale \<open>round_invariant\<close> that lifts an invariant of the rounds to the runs, and its
    interpretations: routing of the answers, order of the requests, absence of panics.
  \<^item> \<open>Rows\<close>: \<open>row.rs\<close>, the columns of \<open>statement.rs\<close> and the conversions of \<open>opengauss-types\<close> the client itself needs.
    \<open>Inner_Client\<close>: \<open>InnerClient\<close> of \<open>client.rs\<close> and the monad of the operations on it: an operation may wait for ever (\<open>None\<close>), panic,
    fail or return. The connection is the list of the channels on which it will answer the requests. The shared buffer is written, taken
    and cleared by \<open>with_buf\<close>; what a writer had put into it when it failed is arbitrary. \<open>Queries\<close>: \<open>query.rs\<close>,
    \<open>simple_query.rs\<close>, \<open>bind.rs\<close>, \<open>portal.rs\<close>, \<open>copy_out.rs\<close>. \<open>Prepare\<close>: \<open>prepare.rs\<close> and the methods of the client over it.
  \<^item> \<open>Prepare_Laws\<close>: the operations complete when finitely many answers are to come (\<open>ends\<close>). \<open>Query_Laws\<close>, \<open>Statement_Laws\<close>: what they send and return when the server answers as
    the protocol says. \<open>Request_Laws\<close>: the steps of a client (\<open>client_step\<close>) and the invariant of its requests (\<open>clean\<close>).
  \<^item> \<open>Net_Addr\<close>: the parsers of the standard library that connection strings use, for integers, addresses and slices of strings.
    \<open>Config\<close>: \<open>config.rs\<close>, the key-value parser and the URL parser. \<open>Config_Laws\<close>, \<open>Url_Laws\<close>: round trips of both formats, their agreement,
    well-formedness of what they yield, and where they silently misread their input.
  \<^item> \<open>Transactions\<close>: \<open>transaction.rs\<close>, \<open>transaction_builder.rs\<close>; a handle is a value, its destructor an operation. \<open>Transaction_Laws\<close>: the
    server as a log with savepoints, programs as trees of nested transactions, and the refinement between them.
  \<^item> \<open>Binary_Copy\<close>, \<open>Binary_Copy_Laws\<close>: \<open>binary_copy.rs\<close> over the sink and the stream of a copy, against the format of the file.
  \<^item> \<open>Connect\<close>: \<open>connect.rs\<close>, \<open>connect_socket.rs\<close> and cancellation; the network is a record of what each connection meets.
    \<open>Connect_Laws\<close>: the loops over hosts and addresses against one search through a list of trials.
  \<^item> \<open>Type_Table\<close>: the generated table of types (\<open>type_gen.rs\<close>) and the functions of \<open>Type\<close>. \<open>Sql_Values\<close>, \<open>Sql_Value_Laws\<close>: the traits
    \<open>FromSql\<close> and \<open>ToSql\<close> of \<open>opengauss-types\<close> with their implementations, against the locales \<open>sql_value\<close> and \<open>plain_value\<close> (what is
    written reads back) and \<open>safe_value\<close> (no panic). \<open>Numeric\<close>, \<open>Numeric_Laws\<close>: \<open>rust_decimal_1.rs\<close>, the crate being a record of its
    operations. \<open>Pg_Lsn\<close>: the text of log sequence numbers.
  \<^item> \<open>Duration_Parse\<close>: the durations of the configuration files of the \<open>gaussdb\<close> crate. \<open>Facade\<close>: \<open>gaussdb/src/config.rs\<close>,
    from a configuration file, the environment or a connection string to the configuration of the driver and the TLS connector.
    The parser of TOML, the keyring, the files and the TLS library are the fields of \<open>facade_env\<close>. \<open>Facade_Laws\<close>: which
    connections reach the driver as they are written, against the parser of \<open>Config\<close>; the TLS mode; the lines that the removal of
    a password keeps.
  \<^item> \<open>Extra_Values\<close>, \<open>Extra_Value_Laws\<close>: the conversions for the types of \<open>chrono\<close>, \<open>uuid\<close>, \<open>eui48\<close>, \<open>cidr\<close>, \<open>serde_json\<close>, \<open>bit-vec\<close> and
    \<open>geo-types\<close>. Each crate is a record of the operations that the code calls, and a locale or predicate states the laws of them that the round
    trips use.
  \<^item> \<open>Sql_Text\<close>, \<open>Sql_Text_Laws\<close>: what the tool \<open>gaussdb-mcp\<close> reads out of texts: statements (\<open>interactive.rs\<close>), comments and kinds of statements
    (\<open>cli.rs\<close>), passwords to hide (\<open>server.rs\<close>). \<open>Output\<close>, \<open>Output_Laws\<close>: the formatting of values and tables (\<open>output.rs\<close>).
    \<open>Mcp_Server\<close>: SQL codes, errors and the connections of the server (\<open>server.rs\<close>, \<open>connection.rs\<close>); an operation that waits without the
    lock is two functions, for its sections under the lock. \<open>Mcp_Laws\<close>: the interleavings of these sections as a step relation (\<open>mcp_step\<close>),
    their invariant, and the locale \<open>timeout_session\<close> of sessions with a timeout.
  \<^item> \<open>Blocking\<close>: the blocking client \<open>crates/opengauss\<close>, which drives the connection while a thread waits for a future (\<open>connection.rs\<close>),
    its iterators (\<open>notifications.rs\<close>, \<open>row_iter.rs\<close>) and the reader and the writer of a copy. The clock and the times at which the
    thread is woken are part of the state. \<open>Blocking_Laws\<close>: the locale \<open>listener\<close> of what may be waited for, the notifications, waiting against
    awaiting, and copies.
  \<^item> this theory: the composition of the codec, the connection and the parser, from bytes to requesters.

  Loops. Every loop of the code is a total function whose termination is proved from the bytes, items or polls it
  consumes, with three exceptions. \<open>get_type\<close>, the recursion over the types a server describes, has no bound in the code: a server that never
  stops answering with types that need each other keeps it going. It takes fuel and is \<open>None\<close> when it runs out; the fuel is one more than the
  number of answers to come, which is finite in the model, and \<open>ends_get_type\<close> shows that it is enough then, since every step of the
  recursion takes an answer. \<open>fill_buf\<close>, which passes over the empty blocks of a copy, is a partial function: \<open>None\<close> is waiting for ever.
  \<open>until_ready\<close>, which polls a stream until it is ready, takes one step more than the script of its channel is long: after
  that the channel is silent for ever. The specification functions \<open>collect\<close> and \<open>drain\<close>, which run an iterator to
  its end, take fuel; the theorems about them show that one step per byte and one more is enough.

  Not modelled: sockets, TLS and keepalive (pure I/O), the generated table of SQL states, the conversions of
  the crates \<open>time\<close>, \<open>jiff\<close> and \<open>smol_str\<close> and of other versions of the crates above, the derive macros and code generators, the forwarding methods of the blocking client; of
  the tool \<open>gaussdb-mcp\<close> its arguments, terminal, logs and files, the queries of the catalogues and the transport of MCP. The ownership that
  decides when a handle is dropped is not modelled; the destructors are operations. Awaiting a poll that is never ready is \<open>None\<close>
  (\<open>await_ready\<close>, \<open>attrs_loop\<close>).
\<close>

section \<open>From the server's bytes to the requesters\<close>

text \<open>
  The specification of the whole reading side: each message that is not asynchronous belongs to the oldest request that
  has not seen its \<open>ReadyForQuery\<close>.
\<close>

fun replies :: "nat list \<Rightarrow> message list \<Rightarrow> (nat \<times> message) list" where
  "replies [] ms = []"
| "replies ids [] = []"
| "replies (i # ids) (m # ms) =
     (if is_async m then replies (i # ids) ms
      else (i, m) # replies (if is_ready m then ids else i # ids) ms)"

definition batch_messages :: "backend_messages \<Rightarrow> message list" where
  "batch_messages b = the (item_messages (Normal b False))"

definition opened :: "(nat \<times> backend_messages \<times> bool) list \<Rightarrow> (nat \<times> message) list" where
  "opened xs = concat (map (\<lambda>(i, b, rc). map (Pair i) (batch_messages b)) xs)"

lemma opened_simps [simp]: "opened [] = []" "opened ((i, b, rc) # xs) = map (Pair i) (batch_messages b) @ opened xs"
  "opened (xs @ ys) = opened xs @ opened ys"
  by (simp_all add: opened_def)

lemma batch_messages_item: "item_messages (Normal b rc) = Some ms \<Longrightarrow> batch_messages b = ms"
  by (simp add: batch_messages_def item_messages_def)

lemma replies_batch:
  "ms \<noteq> [] \<Longrightarrow> list_all (\<lambda>m. \<not> is_async m) ms \<Longrightarrow> list_all (\<lambda>m. \<not> is_ready m) (butlast ms) \<Longrightarrow>
     replies (i # ids) (ms @ rest) = map (Pair i) ms @ replies (if is_ready (last ms) then ids else i # ids) rest"
proof (induction ms)
  case Nil
  then show ?case by simp
next
  case (Cons m ms)
  then show ?case by (cases "ms = []") auto
qed

lemma opened_route:
  "list_all item_ok items \<Longrightarrow> opened (route ids (normals (map Inr items))) = replies ids (delivered items)"
proof (induction items arbitrary: ids)
  case Nil
  then show ?case by (cases ids) simp_all
next
  case (Cons item items)
  show ?case
  proof (cases ids)
    case Nil
    then show ?thesis by simp
  next
    case ids: (Cons i ids')
    show ?thesis
    proof (cases item)
      case (Async m)
      with Cons ids show ?thesis by simp
    next
      case (Normal b rc)
      with Cons.prems obtain ms where ms: "item_messages (Normal b rc) = Some ms" "ms \<noteq> []"
          "list_all (\<lambda>m. \<not> is_async m) ms" "list_all (\<lambda>m. \<not> is_ready m) (butlast ms)" "rc = is_ready (last ms)"
        by (auto simp: item_ok_def split: option.splits)
      with replies_batch [OF ms(2-4), of i ids' "delivered items"] Cons ids Normal batch_messages_item [OF ms(1)]
      show ?thesis by simp
    qed
  qed
qed

lemma reading_side:
  assumes "list_all (sendable mode) ms" "concat chunks = wires ms"
    and "receive mode [] chunks = Some (Inr (items, rest_buf))"
    and "chan_items (fr_incoming stream) = map Inr items" "list_all is_async_item pending"
    and "conn_reach (connection_new stream pending parameters requests ready) c"
  shows "replies (map rq_sender (chan_items requests)) ms =
    opened (handed c) @ opened (route (unanswered c) (normals (unread c)))"
proof -
  have "stalls []" by (simp add: stalls_def header_parse_def)
  with receive_wires [of mode ms "[]" chunks] assms(1-3) have items: "list_all item_ok items" "delivered items = ms"
    by auto
  from run_routed [OF assms(6,5)] have
    "route (map rq_sender (chan_items requests)) (normals (map Inr items)) = handed c @ route (unanswered c) (normals (unread c))"
    unfolding assms(4) by blast
  with opened_route [OF items(1), of "map rq_sender (chan_items requests)"] items(2) show ?thesis
    by (metis opened_simps(3))
qed

lemma sample_receive: "receive Standard [] [[90, 0, 0, 0], [5, 73]] = Some (Inr ([Normal sample_batch True], []))"
proof -
  have w: "wire (ReadyForQuery 73) = [90, 0, 0, 0, 5, 73]"
    by (simp add: wire_def message_tag_def message_wire_def frame_def wire_defs)
  have s: "sendable Standard (ReadyForQuery 73)"
    by (simp add: sendable_def wf_message_def message_wire_def max_body_def)
  have "stalls [90, 0, 0, 0]" "stalls []" by (simp_all add: stalls_def header_parse_def)
  then have d: "decode Standard [90, 0, 0, 0] = (Inr None, [90, 0, 0, 0])" "decode Standard [] = (Inr None, [])"
    using decode_loop_stalls [where pre = "[]" and mode = Standard]
    by (simp_all add: decode_def decode_done_def)
  have "decode Standard (wire (ReadyForQuery 73)) = (Inr (Some (Normal (messages_with_mode (wire (ReadyForQuery 73)) Standard) True)), [])"
    using decode_loop_wire [OF s, of "[]" "[]"]
    by (simp add: decode_def is_async_def is_ready_def is_async_tag_def message_tag_def message_wire_def)
  then have "decode Standard [90, 0, 0, 0, 5, 73] = (Inr (Some (Normal sample_batch True)), [])"
    by (simp add: w sample_batch_def)
  with d show ?thesis by simp
qed

text \<open>
  C1: from the socket to the requester. However the network cuts the server's stream and however the polls of the connection fall,
  the messages handed to the requesters are, in order, those the specification assigns to them: each reply message goes to the
  oldest request that is not complete. What is not handed out yet is exactly what is left to read.
\<close>

theorem requests_answered:
  assumes "list_all (sendable mode) ms" "concat chunks = wires ms"
    and "receive mode [] chunks = Some (Inr (items, rest_buf))"
    and "chan_items (fr_incoming stream) = map Inr items" "list_all is_async_item pending"
    and "conn_reach (connection_new stream pending parameters requests ready) c"
  shows "replies (map rq_sender (chan_items requests)) ms =
    opened (handed c) @ opened (route (unanswered c) (normals (unread c)))"
  using assms by (rule reading_side)

theorem requests_answered_witness: "opened (handed sample_c2) = [(7, ReadyForQuery 73)]"
proof -
  have "list_all (sendable Standard) [ReadyForQuery 73]" "concat [[90, 0, 0, 0], [5, 73]] = wires [ReadyForQuery 73]"
    by (simp_all add: sendable_def wf_message_def message_wire_def max_body_def wire_def message_tag_def frame_def wire_defs)
  from requests_answered [OF this sample_receive _ _ sample_reach [unfolded sample_connection_def]]
  show ?thesis
    by (simp add: sample_stream_def sample_requests_def sample_c2_facts is_ready_def is_async_def is_async_tag_def message_tag_def
        message_wire_def)
qed

section \<open>Iterators\<close>

text \<open>
  Draining an iterator over a message body or over a composite SQL value ends on every input, within one step
  per byte and one more, whatever counts the header announces: a malicious server cannot make the client loop.
\<close>

lemma iterators_end:
  "(\<exists>r. collect (Suc (length b)) sasl_mechanisms_next b = Some r) \<and>
   (\<exists>r. collect (Suc (length b)) error_fields_next b = Some r) \<and>
   (\<exists>r. collect (Suc (length b)) column_formats_next \<lparr>cf_buf = b, cf_remaining = n\<rparr> = Some r) \<and>
   (\<exists>r. collect (Suc (length b)) parameters_next \<lparr>pm_buf = b, pm_remaining = n\<rparr> = Some r) \<and>
   (\<exists>r. collect (Suc (length b)) fields_next \<lparr>fs_buf = b, fs_remaining = n\<rparr> = Some r) \<and>
   (\<exists>r. collect (Suc (length b)) data_row_ranges_next \<lparr>drr_buf = b, drr_len = l, drr_remaining = n\<rparr> = Some r) \<and>
   (\<exists>r. collect (Suc (length (hs_buf h))) hstore_next h = Some r) \<and>
   (\<exists>r. collect (Suc (length b)) array_dimensions_next b = Some r) \<and>
   (\<exists>r. collect (Suc (length (av_buf v))) array_values_next v = Some r) \<and>
   (\<exists>r. collect (Suc (length (pp_buf p))) path_points_next p = Some r)"
  using body_iterators_end [of b n l] sql_iterators_end [of h b v p] by blast

end
